(* ===== verification/PyFloat.thy ===== *)
theory PyFloat
  imports Complex_Main Prelude "HOL-Library.Log_Nat"
begin

text \<open>
  Python's \<open>float\<close>: IEEE 754 binary64.  A finite value is the rational number it stands for
  (the two zeros are one value: no operation modelled here tells them apart); arithmetic is
  the exact result rounded to 53 significant bits, ties to even, with gradual underflow and
  overflow to the infinities.  Comparisons with NaN are false.  Division by zero raises, as
  in Python.  The interface the proofs use is the locale \<open>rounding\<close>: monotone, odd,
  idempotent; \<open>rnd64\<close> is its interpretation.
\<close>

section \<open>Rounding to 53 bits\<close>

text \<open>Nearest integer, ties to even.\<close>

definition rne :: "rat \<Rightarrow> int" where
  "rne y = (let f = \<lfloor>y\<rfloor>; d = y - of_int f in
     if d < 1/2 then f else if 1/2 < d then f + 1 else if even f then f else f + 1)"

text \<open>The exponent of the leading bit of a positive rational.\<close>

definition ilog2 :: "rat \<Rightarrow> int" where
  "ilog2 x = (case quotient_of x of (n, d) \<Rightarrow>
     let k = bitlen n - bitlen d in if 2 powi k \<le> x then k else k - 1)"

text \<open>The exponent of the last bit kept: 53 bits, never below \<open>-1074\<close>.\<close>

definition ulp_exp :: "rat \<Rightarrow> int" where
  "ulp_exp x = max (-1074) (ilog2 \<bar>x\<bar> - 52)"

definition rnd64 :: "rat \<Rightarrow> rat" where
  "rnd64 x = (if x = 0 then 0
     else of_int (rne (x / 2 powi (ulp_exp x))) * 2 powi (ulp_exp x))"

lemma rne_int [simp]: "rne (of_int n) = n"
  by (simp add: rne_def)

lemma rne_diff: "\<bar>of_int (rne y) - y\<bar> \<le> 1/2"
proof -
  define d where "d = y - of_int \<lfloor>y\<rfloor>"
  have d: "0 \<le> d" "d < 1"
    using floor_correct [of y] by (simp_all add: d_def)
  have "of_int (rne y) - y =
      (if d < 1/2 then - d else if 1/2 < d then 1 - d else if even \<lfloor>y\<rfloor> then - d else 1 - d)"
    by (simp add: rne_def Let_def d_def)
  then show ?thesis using d by (auto simp: abs_if)
qed

lemma rne_mono: "x \<le> y \<Longrightarrow> rne x \<le> rne y"
proof -
  assume xy: "x \<le> y"
  have fl: "\<lfloor>x\<rfloor> \<le> \<lfloor>y\<rfloor>" using xy by (rule floor_mono)
  show ?thesis
  proof (cases "\<lfloor>x\<rfloor> = \<lfloor>y\<rfloor>")
    case True
    with xy show ?thesis by (auto simp: rne_def Let_def)
  next
    case False
    with fl have "\<lfloor>x\<rfloor> + 1 \<le> \<lfloor>y\<rfloor>" by linarith
    then show ?thesis by (auto simp: rne_def Let_def)
  qed
qed

lemma rne_minus: "rne (- y) = - rne y"
proof (cases "y = of_int \<lfloor>y\<rfloor>")
  case True
  then show ?thesis by (metis of_int_minus rne_int)
next
  case False
  have lt: "of_int \<lfloor>y\<rfloor> < y" using False of_int_floor_le [of y] by linarith
  have fm: "\<lfloor>- y\<rfloor> = - \<lfloor>y\<rfloor> - 1"
    using lt by (intro floor_unique) (auto, linarith+)
  show ?thesis
    using lt unfolding rne_def Let_def fm by auto
qed

lemma rne_ge_int: "of_int n \<le> y \<Longrightarrow> n \<le> rne y"
  using rne_mono [of "of_int n" y] by simp

lemma rne_le_int: "y \<le> of_int n \<Longrightarrow> rne y \<le> n"
  using rne_mono [of y "of_int n"] by simp

lemma powi2_pos [simp]: "0 < (2::rat) powi k"
  by simp

lemma powi2_Suc: "(2::rat) powi (k + 1) = 2 * 2 powi k"
  by (simp add: power_int_add)

lemma powi2_less: "j < k \<Longrightarrow> (2::rat) powi j < 2 powi k"
  by (rule power_int_strict_increasing) simp_all

lemma powi2_less_iff: "(2::rat) powi j < 2 powi k \<longleftrightarrow> j < k"
  using powi2_less [of j k] powi2_less [of k j] by (cases j k rule: linorder_cases) auto

lemma powi2_le_iff: "(2::rat) powi j \<le> 2 powi k \<longleftrightarrow> j \<le> k"
  by (metis linorder_not_less powi2_less_iff)

lemma bitlen_rat_bounds:
  assumes "0 < n"
  shows "(2::rat) powi (bitlen n - 1) \<le> of_int n" "of_int n < (2::rat) powi bitlen n"
proof -
  have b: "0 < bitlen n" using assms bitlen_nonneg [of n] bitlen_eq_zero_iff [of n] by linarith
  have *: "2 ^ nat (bitlen n - 1) \<le> n \<and> n < 2 ^ nat (bitlen n)"
    using assms by (rule bitlen_bounds)
  have e1: "(2::rat) powi (bitlen n - 1) = of_int (2 ^ nat (bitlen n - 1))"
    using b by (simp add: power_int_def)
  have e2: "(2::rat) powi bitlen n = of_int (2 ^ nat (bitlen n))"
    using b by (simp add: power_int_def)
  show "(2::rat) powi (bitlen n - 1) \<le> of_int n"
    unfolding e1 using * by (simp only: of_int_le_iff)
  show "of_int n < (2::rat) powi bitlen n"
    unfolding e2 using * by (simp only: of_int_less_iff)
qed

lemma frac_bounds:
  assumes "0 < n" "0 < d"
  shows "2 powi (bitlen n - bitlen d - 1) \<le> (of_int n / of_int d :: rat)"
    "of_int n / of_int d < (2::rat) powi (bitlen n - bitlen d + 1)"
proof -
  let ?k = "bitlen n - bitlen d"
  note bn = bitlen_rat_bounds [OF assms(1)] and bd = bitlen_rat_bounds [OF assms(2)]
  have dp: "(0::rat) < of_int d" using assms by simp
  have "of_int n < (2::rat) powi bitlen n" by (rule bn)
  also have "\<dots> = 2 powi (?k + 1) * 2 powi (bitlen d - 1)"
    by (simp flip: power_int_add)
  also have "\<dots> \<le> 2 powi (?k + 1) * of_int d"
    using bd(1) by (intro mult_left_mono) auto
  finally show "of_int n / of_int d < (2::rat) powi (?k + 1)"
    using dp by (simp add: pos_divide_less_eq)
  have "2 powi (?k - 1) * of_int d \<le> 2 powi (?k - 1) * (2::rat) powi bitlen d"
    using bd(2) by (intro mult_left_mono) auto
  also have "\<dots> = 2 powi (bitlen n - 1)"
    by (simp flip: power_int_add)
  also have "\<dots> \<le> of_int n" by (rule bn)
  finally show "2 powi (?k - 1) \<le> (of_int n / of_int d :: rat)"
    using dp by (simp add: pos_le_divide_eq)
qed

lemma ilog2_bounds:
  assumes "0 < x"
  shows "2 powi ilog2 x \<le> x" "x < 2 powi (ilog2 x + 1)"
proof -
  obtain n d where q: "quotient_of x = (n, d)" by (cases "quotient_of x") auto
  have d: "0 < d" and x: "x = of_int n / of_int d"
    using q quotient_of_denom_pos quotient_of_div by blast+
  have n: "0 < n" using assms d x by (simp add: zero_less_divide_iff)
  have l: "ilog2 x = (if 2 powi (bitlen n - bitlen d) \<le> x
      then bitlen n - bitlen d else bitlen n - bitlen d - 1)"
    by (simp add: ilog2_def q Let_def)
  show "2 powi ilog2 x \<le> x" "x < 2 powi (ilog2 x + 1)"
    using frac_bounds [OF n d] unfolding l x [symmetric] by auto
qed

lemma ilog2_unique:
  assumes "2 powi k \<le> x" "x < 2 powi (k + 1)"
  shows "ilog2 x = k"
proof -
  have x: "0 < x" using assms(1) powi2_pos [of k] by linarith
  have "2 powi k < (2::rat) powi (ilog2 x + 1)" "2 powi ilog2 x < (2::rat) powi (k + 1)"
    using assms ilog2_bounds [OF x] by linarith+
  then show ?thesis by (simp only: powi2_less_iff)
qed

lemma ilog2_mono: "0 < x \<Longrightarrow> x \<le> y \<Longrightarrow> ilog2 x \<le> ilog2 y"
proof -
  assume "0 < x" "x \<le> y"
  then have "2 powi ilog2 x < (2::rat) powi (ilog2 y + 1)"
    using ilog2_bounds(1) [of x] ilog2_bounds(2) [of y] by linarith
  then show ?thesis by (simp only: powi2_less_iff)
qed

section \<open>Rounding is monotone, odd and idempotent\<close>

lemma rnd64_0 [simp]: "rnd64 0 = 0"
  by (simp add: rnd64_def)

lemma ulp_exp_minus [simp]: "ulp_exp (- x) = ulp_exp x"
  by (simp add: ulp_exp_def)

lemma rnd64_minus: "rnd64 (- x) = - rnd64 x"
  by (simp add: rnd64_def rne_minus)

lemma ulp_exp_mono: "0 < x \<Longrightarrow> x \<le> y \<Longrightarrow> ulp_exp x \<le> ulp_exp y"
  using ilog2_mono [of x y] by (simp add: ulp_exp_def)

text \<open>A multiple of the grid \<open>2 powi e\<close> that bounds \<open>x\<close> bounds the rounded \<open>x\<close>.\<close>

lemma powi2_split: "u \<le> e \<Longrightarrow> (2::rat) powi e = of_int (2 ^ nat (e - u)) * 2 powi u"
proof -
  assume "u \<le> e"
  then have "(2::rat) powi (e - u) = of_int (2 ^ nat (e - u))"
    by (simp add: power_int_def)
  moreover have "(2::rat) powi e = 2 powi (e - u) * 2 powi u"
    by (simp flip: power_int_add)
  ultimately show ?thesis by simp
qed

lemma rnd64_le_grid:
  assumes "0 < x" "ulp_exp x \<le> e" "x \<le> of_int m * 2 powi e"
  shows "rnd64 x \<le> of_int m * 2 powi e"
proof -
  let ?u = "ulp_exp x"
  have *: "(2::rat) powi e = of_int (2 ^ nat (e - ?u)) * 2 powi ?u"
    using assms(2) by (rule powi2_split)
  have "x / 2 powi ?u \<le> of_int (m * 2 ^ nat (e - ?u))"
    using assms(3) unfolding * by (simp add: pos_divide_le_eq mult.assoc)
  then have "rne (x / 2 powi ?u) \<le> m * 2 ^ nat (e - ?u)" by (rule rne_le_int)
  then have "(of_int (rne (x / 2 powi ?u)) :: rat) \<le> of_int (m * 2 ^ nat (e - ?u))"
    by (simp only: of_int_le_iff)
  then have "of_int (rne (x / 2 powi ?u)) * 2 powi ?u \<le> of_int (m * 2 ^ nat (e - ?u)) * (2::rat) powi ?u"
    by (rule mult_right_mono) simp
  then show ?thesis using assms(1) by (simp add: rnd64_def * mult.assoc)
qed

lemma rnd64_ge_grid:
  assumes "0 < x" "ulp_exp x \<le> e" "of_int m * 2 powi e \<le> x"
  shows "of_int m * 2 powi e \<le> rnd64 x"
proof -
  let ?u = "ulp_exp x"
  have *: "(2::rat) powi e = of_int (2 ^ nat (e - ?u)) * 2 powi ?u"
    using assms(2) by (rule powi2_split)
  have "of_int (m * 2 ^ nat (e - ?u)) \<le> x / 2 powi ?u"
    using assms(3) unfolding * by (simp add: pos_le_divide_eq mult.assoc)
  then have "m * 2 ^ nat (e - ?u) \<le> rne (x / 2 powi ?u)" by (rule rne_ge_int)
  then have "(of_int (m * 2 ^ nat (e - ?u)) :: rat) \<le> of_int (rne (x / 2 powi ?u))"
    by (simp only: of_int_le_iff)
  then have "of_int (m * 2 ^ nat (e - ?u)) * (2::rat) powi ?u \<le> of_int (rne (x / 2 powi ?u)) * 2 powi ?u"
    by (rule mult_right_mono) simp
  then show ?thesis using assms(1) by (simp add: rnd64_def * mult.assoc)
qed

lemma rnd64_nonneg: "0 \<le> x \<Longrightarrow> 0 \<le> rnd64 x"
  using rnd64_ge_grid [of x "ulp_exp x" 0] by (cases "x = 0") auto

lemma ulp_exp_less:
  assumes "0 < x" "0 < y" "ulp_exp x < ulp_exp y"
  shows "x \<le> 2 ^ 52 * 2 powi ulp_exp y" "2 ^ 52 * 2 powi ulp_exp y \<le> y"
proof -
  have l: "ilog2 x < ilog2 y" "ulp_exp y = ilog2 y - 52"
    using assms by (auto simp: ulp_exp_def)
  have e: "(2::rat) ^ 52 * 2 powi ulp_exp y = 2 powi ilog2 y"
    using l(2) power_int_add [of "2::rat" 52 "ulp_exp y"] by (simp add: power_int_def)
  have "x < 2 powi (ilog2 x + 1)" using assms(1) by (rule ilog2_bounds)
  also have "\<dots> \<le> 2 powi ilog2 y" using l(1) by (simp only: powi2_le_iff)
  finally show "x \<le> 2 ^ 52 * 2 powi ulp_exp y" unfolding e by simp
  show "2 ^ 52 * 2 powi ulp_exp y \<le> y" unfolding e using assms(2) by (rule ilog2_bounds)
qed

lemma rnd64_mono_pos:
  assumes "0 < x" "x \<le> y"
  shows "rnd64 x \<le> rnd64 y"
proof (cases "ulp_exp x = ulp_exp y")
  case True
  have "rne (x / 2 powi ulp_exp y) \<le> rne (y / 2 powi ulp_exp y)"
    using assms(2) by (intro rne_mono divide_right_mono) auto
  then show ?thesis using True assms by (simp add: rnd64_def)
next
  case False
  have y: "0 < y" using assms by linarith
  have lt: "ulp_exp x < ulp_exp y" using False ulp_exp_mono [OF assms] by linarith
  note b = ulp_exp_less [OF assms(1) y lt]
  have "rnd64 x \<le> of_int (2 ^ 52) * 2 powi ulp_exp y"
    using assms(1) lt b(1) by (intro rnd64_le_grid) auto
  also have "\<dots> \<le> rnd64 y"
    using y b(2) by (intro rnd64_ge_grid) auto
  finally show ?thesis .
qed

lemma rnd64_mono: "x \<le> y \<Longrightarrow> rnd64 x \<le> rnd64 y"
proof -
  assume xy: "x \<le> y"
  consider "0 < x" | "x \<le> 0" "0 \<le> y" | "y < 0" by linarith
  then show ?thesis
  proof cases
    case 1
    then show ?thesis using xy by (rule rnd64_mono_pos)
  next
    case 2
    then show ?thesis
      using rnd64_nonneg [of y] rnd64_nonneg [of "- x"] by (simp add: rnd64_minus)
  next
    case 3
    then have "rnd64 (- y) \<le> rnd64 (- x)" using xy by (intro rnd64_mono_pos) auto
    then show ?thesis by (simp add: rnd64_minus)
  qed
qed

text \<open>Every \<open>m * 2 powi e\<close> with at most 53 bits and \<open>-1074 \<le> e\<close> is a float.\<close>

lemma rnd64_grid_pos:
  assumes "0 < m" "m < 2 ^ 53" "-1074 \<le> e"
  shows "rnd64 (of_int m * 2 powi e) = of_int m * 2 powi e"
proof -
  let ?x = "of_int m * (2::rat) powi e"
  have x: "0 < ?x" using assms(1) by simp
  have "?x < 2 powi (53 + e)"
  proof -
    have "of_int m < (2::rat) ^ 53" using assms(2) by (simp flip: of_int_less_iff)
    then have "?x < 2 ^ 53 * 2 powi e" by simp
    also have "\<dots> = 2 powi (53 + e)" by (subst power_int_add) (simp_all add: power_int_def)
    finally show ?thesis .
  qed
  then have "2 powi ilog2 ?x < (2::rat) powi (53 + e)"
    using ilog2_bounds(1) [OF x] by linarith
  then have "ulp_exp ?x \<le> e"
    using x assms(3) by (simp add: powi2_less_iff ulp_exp_def)
  then show ?thesis
    using rnd64_le_grid [OF x, of e m] rnd64_ge_grid [OF x, of e m] by simp
qed

lemma rnd64_grid:
  assumes "\<bar>m\<bar> \<le> 2 ^ 53" "-1074 \<le> e"
  shows "rnd64 (of_int m * 2 powi e) = of_int m * 2 powi e"
proof -
  have pos: "rnd64 (of_int k * 2 powi e) = of_int k * 2 powi e" if k: "0 < k" "k \<le> 2 ^ 53" for k :: int
  proof (cases "k = 2 ^ 53")
    case True
    have "of_int k * (2::rat) powi e = of_int (2 ^ 52) * 2 powi (e + 1)"
      by (simp add: True powi2_Suc)
    then show ?thesis using rnd64_grid_pos [of "2 ^ 52" "e + 1"] assms(2) by simp
  next
    case False
    then show ?thesis using k assms(2) by (intro rnd64_grid_pos) auto
  qed
  consider "m = 0" | "0 < m" | "0 < - m" by linarith
  then show ?thesis
  proof cases
    case 3
    then have "rnd64 (of_int (- m) * 2 powi e) = of_int (- m) * 2 powi e"
      using assms(1) by (intro pos) auto
    then show ?thesis by (simp add: rnd64_minus)
  qed (use pos assms in auto)
qed

lemma rnd64_form: "\<exists>m e. \<bar>m\<bar> \<le> 2 ^ 53 \<and> -1074 \<le> e \<and> rnd64 x = of_int m * 2 powi e"
proof (cases "x = 0")
  case True
  then show ?thesis by (intro exI [of _ 0] exI [of _ 0]) simp
next
  case False
  then have x: "0 < \<bar>x\<bar>" by simp
  let ?u = "ulp_exp x"
  have "\<bar>x\<bar> < 2 powi (ilog2 \<bar>x\<bar> + 1)" using x by (rule ilog2_bounds)
  also have "\<dots> \<le> 2 powi (53 + ?u)" by (simp add: powi2_le_iff ulp_exp_def)
  also have "\<dots> = 2 ^ 53 * 2 powi ?u" by (subst power_int_add) (simp_all add: power_int_def)
  finally have ab: "\<bar>x / 2 powi ?u\<bar> \<le> 2 ^ 53" by (simp add: abs_divide pos_divide_le_eq)
  have "x / 2 powi ?u \<le> of_int (2 ^ 53)" "of_int (- (2 ^ 53)) \<le> x / 2 powi ?u"
    using abs_le_D1 [OF ab] abs_le_D2 [OF ab] by simp_all
  then have "rne (x / 2 powi ?u) \<le> 2 ^ 53" "- (2 ^ 53) \<le> rne (x / 2 powi ?u)"
    by (blast intro: rne_le_int rne_ge_int)+
  then have "\<bar>rne (x / 2 powi ?u)\<bar> \<le> 2 ^ 53" by (intro abs_leI) linarith+
  moreover have "-1074 \<le> ?u" by (simp add: ulp_exp_def)
  ultimately show ?thesis using False by (auto simp: rnd64_def)
qed

lemma rnd64_idem [simp]: "rnd64 (rnd64 x) = rnd64 x"
  using rnd64_form [of x] rnd64_grid by metis

section \<open>Evaluating closed arithmetic\<close>

text \<open>
  Rewrite rules that compute \<open>rnd64\<close> on numerals and fractions of numerals by integer
  arithmetic, so that witnesses evaluate by \<open>simp add: fl_eval float_eval\<close>.
\<close>

lemma bitlen_numeral [simp]:
  "bitlen 1 = 1"
  "bitlen (numeral Num.One) = 1"
  "bitlen (numeral (Num.Bit0 n)) = bitlen (numeral n) + 1"
  "bitlen (numeral (Num.Bit1 n)) = bitlen (numeral n) + 1"
  by (subst compute_bitlen, simp)+

lemma ilog2_frac:
  assumes "0 < n" "0 < d"
  shows "ilog2 (of_int n / of_int d) =
    (let k = bitlen n - bitlen d in if 2 powi k \<le> (of_int n / of_int d :: rat) then k else k - 1)"
proof (cases "2 powi (bitlen n - bitlen d) \<le> (of_int n / of_int d :: rat)")
  case True
  then show ?thesis using frac_bounds [OF assms] by (simp add: Let_def ilog2_unique)
next
  case False
  then have "ilog2 (of_int n / of_int d) = bitlen n - bitlen d - 1"
    using frac_bounds [OF assms] by (intro ilog2_unique) auto
  then show ?thesis using False by simp
qed

lemma powi_eval:
  "(2::rat) powi (numeral k) = 2 ^ numeral k" "(2::rat) powi (- numeral k) = 1 / 2 ^ numeral k"
  "(2::rat) powi (- 1) = 1/2"
  by (simp_all add: power_int_minus inverse_eq_divide)


lemma rnd64_frac:
  assumes "0 < n" "0 < d" "bitlen n - bitlen d - 53 = e" "-1074 \<le> e"
  shows "rnd64 (of_int n / of_int d) =
    (if 2 powi (e + 53) \<le> (of_int n / of_int d :: rat)
     then of_int (rne (of_int n / of_int d / 2 powi (e + 1))) * 2 powi (e + 1)
     else of_int (rne (of_int n / of_int d / 2 powi e)) * 2 powi e)"
  using ilog2_frac [of n d] assms
  by (auto simp: rnd64_def ulp_exp_def Let_def max_def add.commute diff_add_eq)

lemma rnd64_numeral_div:
  "bitlen (numeral n) - bitlen (numeral d) - 53 = e \<Longrightarrow> -1074 \<le> e \<Longrightarrow> rnd64 (numeral n / numeral d) =
    (if 2 powi (e + 53) \<le> (numeral n / numeral d :: rat)
     then of_int (rne (numeral n / numeral d / 2 powi (e + 1))) * 2 powi (e + 1)
     else of_int (rne (numeral n / numeral d / 2 powi e)) * 2 powi e)"
  using rnd64_frac [of "numeral n" "numeral d"] by simp

lemma rnd64_one_div:
  "1 - bitlen (numeral d) - 53 = e \<Longrightarrow> -1074 \<le> e \<Longrightarrow> rnd64 (1 / numeral d) =
    (if 2 powi (e + 53) \<le> (1 / numeral d :: rat)
     then of_int (rne (1 / numeral d / 2 powi (e + 1))) * 2 powi (e + 1)
     else of_int (rne (1 / numeral d / 2 powi e)) * 2 powi e)"
  using rnd64_frac [of 1 "numeral d"] by simp

lemma rnd64_numeral:
  "bitlen (numeral n) - 1 - 53 = e \<Longrightarrow> -1074 \<le> e \<Longrightarrow> rnd64 (numeral n) =
    (if 2 powi (e + 53) \<le> (numeral n :: rat)
     then of_int (rne (numeral n / 2 powi (e + 1))) * 2 powi (e + 1)
     else of_int (rne (numeral n / 2 powi e)) * 2 powi e)"
  using rnd64_frac [of "numeral n" 1] by simp

lemma rne_frac:
  assumes "0 < d"
  shows "rne (of_int n / of_int d) =
    (if 2 * (n mod d) < d then n div d else if d < 2 * (n mod d) then n div d + 1
     else if even (n div d) then n div d else n div d + 1)"
proof -
  have fl: "\<lfloor>of_int n / (of_int d :: rat)\<rfloor> = n div d"
    by (rule floor_divide_of_int_eq)
  have n: "of_int n = of_int d * of_int (n div d) + (of_int (n mod d) :: rat)"
    by (simp flip: of_int_mult of_int_add)
  have d: "(0::rat) < of_int d" using assms by simp
  have fr: "of_int n / of_int d - of_int (n div d) = (of_int (n mod d) / of_int d :: rat)"
    using d by (subst n) (simp add: field_simps)
  have c1: "of_int (n mod d) / of_int d < (1/2 :: rat) \<longleftrightarrow> of_int (2 * (n mod d)) < (of_int d :: rat)"
    using d by (simp add: pos_divide_less_eq mult.commute)
  have c2: "(1/2 :: rat) < of_int (n mod d) / of_int d \<longleftrightarrow> of_int d < (of_int (2 * (n mod d)) :: rat)"
    using d by (simp add: pos_less_divide_eq mult.commute)
  show ?thesis by (simp only: rne_def Let_def fl fr c1 c2 of_int_less_iff)
qed

lemma rne_eval:
  "rne (numeral n / numeral d) =
    (if 2 * (numeral n mod numeral d) < (numeral d :: int) then numeral n div numeral d
     else if (numeral d :: int) < 2 * (numeral n mod numeral d) then numeral n div numeral d + 1
     else if even ((numeral n :: int) div numeral d) then numeral n div numeral d
     else numeral n div numeral d + 1)"
  "rne (numeral n) = numeral n" "rne 1 = 1" "rne 0 = 0"
  using rne_frac [of "numeral d" "numeral n"] rne_int [of "numeral n"] rne_int [of 1] rne_int [of 0]
  by simp_all

section \<open>The interface of a rounding\<close>

text \<open>What the component proofs use of rounding, and no more.\<close>

locale rounding =
  fixes rnd :: "rat \<Rightarrow> rat"
  assumes mono: "x \<le> y \<Longrightarrow> rnd x \<le> rnd y"
    and minus: "rnd (- x) = - rnd x"
    and idem: "rnd (rnd x) = rnd x"
begin

lemma zero: "rnd 0 = 0"
  using minus [of 0] by simp

lemma nonneg: "0 \<le> x \<Longrightarrow> 0 \<le> rnd x"
  using mono [of 0 x] by (simp add: zero)

lemma nonpos: "x \<le> 0 \<Longrightarrow> rnd x \<le> 0"
  using mono [of x 0] by (simp add: zero)

lemma pos_arg: "0 < rnd x \<Longrightarrow> 0 < x"
  using nonpos [of x] by linarith

lemma neg_arg: "rnd x < 0 \<Longrightarrow> x < 0"
  using nonneg [of x] by linarith

lemma le_fixed: "rnd r = r \<Longrightarrow> x \<le> r \<Longrightarrow> rnd x \<le> r"
  using mono [of x r] by simp

lemma ge_fixed: "rnd r = r \<Longrightarrow> r \<le> x \<Longrightarrow> r \<le> rnd x"
  using mono [of r x] by simp

lemma abs_rnd: "\<bar>rnd x\<bar> = rnd \<bar>x\<bar>"
  using nonneg [of x] nonpos [of x] by (cases "0 \<le> x") (auto simp: minus)

lemma add_nonneg_ge: "rnd r = r \<Longrightarrow> 0 \<le> d \<Longrightarrow> r \<le> rnd (r + d)"
  by (rule ge_fixed) auto

lemma add_nonpos_le: "rnd r = r \<Longrightarrow> d \<le> 0 \<Longrightarrow> rnd (r + d) \<le> r"
  by (rule le_fixed) auto

lemma scale_le: "rnd y = y \<Longrightarrow> 0 \<le> y \<Longrightarrow> c \<le> 1 \<Longrightarrow> rnd (c * y) \<le> y"
  by (rule le_fixed) (auto intro: mult_left_le_one_le mult_right_le_one_le simp: mult_le_cancel_right1 mult_le_cancel_right2)

end

interpretation b64: rounding rnd64
  by unfold_locales (auto intro: rnd64_mono simp: rnd64_minus)

section \<open>The error of rounding\<close>

lemma rnd64_error_ulp: "\<bar>rnd64 x - x\<bar> \<le> 2 powi ulp_exp x / 2"
proof (cases "x = 0")
  case False
  let ?u = "(2::rat) powi ulp_exp x"
  have "rnd64 x - x = (of_int (rne (x / ?u)) - x / ?u) * ?u"
    using False by (simp add: rnd64_def left_diff_distrib)
  then have "\<bar>rnd64 x - x\<bar> = \<bar>of_int (rne (x / ?u)) - x / ?u\<bar> * ?u"
    by (simp add: abs_mult)
  also have "\<dots> \<le> 1/2 * ?u" by (intro mult_right_mono rne_diff) simp
  finally show ?thesis by simp
qed simp

text \<open>Half an ulp: \<open>2\<^sup>-\<^sup>5\<^sup>3\<close> of the value, or \<open>2\<^sup>-\<^sup>1\<^sup>0\<^sup>7\<^sup>5\<close> below the normal range.\<close>

lemma rnd64_error: "\<bar>rnd64 x - x\<bar> \<le> \<bar>x\<bar> / 2 ^ 53 + 1 / 2 ^ 1075"
proof (cases "x = 0")
  case False
  then have x: "0 < \<bar>x\<bar>" by simp
  have "(2::rat) powi ulp_exp x \<le> \<bar>x\<bar> / 2 ^ 52 + 1 / 2 ^ 1074"
  proof (cases "ulp_exp x = -1074")
    case True
    then have "(2::rat) powi ulp_exp x = 1 / 2 ^ 1074"
      by (simp only: True) (simp only: power_int_minus power_int_numeral inverse_eq_divide)
    then show ?thesis by simp
  next
    case False
    then have "ulp_exp x = ilog2 \<bar>x\<bar> - 52" by (simp add: ulp_exp_def max_def split: if_splits)
    then have "(2::rat) powi ulp_exp x = 2 powi ilog2 \<bar>x\<bar> / 2 ^ 52"
      by (simp add: power_int_diff)
    also have "\<dots> \<le> \<bar>x\<bar> / 2 ^ 52"
      using ilog2_bounds(1) [OF x] by (intro divide_right_mono) auto
    finally show ?thesis by (simp add: add_increasing2)
  qed
  then show ?thesis using rnd64_error_ulp [of x] by (simp add: field_simps)
qed simp

section \<open>The floats\<close>

datatype pyfloat = Fin rat | PInf | NInf | NaN

text \<open>The float nearest to a rational: the value of a literal or of an exact result.\<close>

definition fl :: "rat \<Rightarrow> pyfloat" where
  "fl x = (let r = rnd64 x in
     if 2 ^ 1024 \<le> r then PInf else if r \<le> - (2 ^ 1024) then NInf else Fin r)"

definition is_nan :: "pyfloat \<Rightarrow> bool" where
  "is_nan x = (x = NaN)"

definition is_finite :: "pyfloat \<Rightarrow> bool" where
  "is_finite x = (case x of Fin _ \<Rightarrow> True | _ \<Rightarrow> False)"

text \<open>The values the type stands for: 53-bit rationals in range, infinities, NaN.\<close>

definition is_float :: "pyfloat \<Rightarrow> bool" where
  "is_float x = (case x of Fin r \<Rightarrow> rnd64 r = r \<and> \<bar>r\<bar> < 2 ^ 1024 | _ \<Rightarrow> True)"

instantiation pyfloat :: "{zero, one, plus, minus, times, uminus, abs, ord}"
begin

definition zero_pyfloat :: pyfloat where
  "zero_pyfloat = Fin 0"

definition one_pyfloat :: pyfloat where
  "one_pyfloat = Fin 1"

fun uminus_pyfloat :: "pyfloat \<Rightarrow> pyfloat" where
  "uminus_pyfloat (Fin a) = Fin (- a)"
| "uminus_pyfloat PInf = NInf"
| "uminus_pyfloat NInf = PInf"
| "uminus_pyfloat NaN = NaN"

fun plus_pyfloat :: "pyfloat \<Rightarrow> pyfloat \<Rightarrow> pyfloat" where
  "plus_pyfloat (Fin a) (Fin b) = fl (a + b)"
| "plus_pyfloat NaN _ = NaN"
| "plus_pyfloat _ NaN = NaN"
| "plus_pyfloat PInf NInf = NaN"
| "plus_pyfloat NInf PInf = NaN"
| "plus_pyfloat PInf _ = PInf"
| "plus_pyfloat _ PInf = PInf"
| "plus_pyfloat NInf _ = NInf"
| "plus_pyfloat _ NInf = NInf"

definition minus_pyfloat :: "pyfloat \<Rightarrow> pyfloat \<Rightarrow> pyfloat" where
  "minus_pyfloat x y = x + (- y)"

fun times_pyfloat :: "pyfloat \<Rightarrow> pyfloat \<Rightarrow> pyfloat" where
  "times_pyfloat (Fin a) (Fin b) = fl (a * b)"
| "times_pyfloat NaN _ = NaN"
| "times_pyfloat _ NaN = NaN"
| "times_pyfloat PInf (Fin b) = (if b = 0 then NaN else if 0 < b then PInf else NInf)"
| "times_pyfloat NInf (Fin b) = (if b = 0 then NaN else if 0 < b then NInf else PInf)"
| "times_pyfloat (Fin a) PInf = (if a = 0 then NaN else if 0 < a then PInf else NInf)"
| "times_pyfloat (Fin a) NInf = (if a = 0 then NaN else if 0 < a then NInf else PInf)"
| "times_pyfloat PInf PInf = PInf"
| "times_pyfloat PInf NInf = NInf"
| "times_pyfloat NInf PInf = NInf"
| "times_pyfloat NInf NInf = PInf"

fun abs_pyfloat :: "pyfloat \<Rightarrow> pyfloat" where
  "abs_pyfloat (Fin a) = Fin \<bar>a\<bar>"
| "abs_pyfloat NaN = NaN"
| "abs_pyfloat _ = PInf"

fun less_pyfloat :: "pyfloat \<Rightarrow> pyfloat \<Rightarrow> bool" where
  "less_pyfloat (Fin a) (Fin b) = (a < b)"
| "less_pyfloat (Fin _) PInf = True"
| "less_pyfloat NInf (Fin _) = True"
| "less_pyfloat NInf PInf = True"
| "less_pyfloat _ _ = False"

fun less_eq_pyfloat :: "pyfloat \<Rightarrow> pyfloat \<Rightarrow> bool" where
  "less_eq_pyfloat (Fin a) (Fin b) = (a \<le> b)"
| "less_eq_pyfloat NaN _ = False"
| "less_eq_pyfloat _ NaN = False"
| "less_eq_pyfloat _ PInf = True"
| "less_eq_pyfloat NInf _ = True"
| "less_eq_pyfloat _ _ = False"

instance ..

end

text \<open>Python's \<open>==\<close>: NaN differs from itself.\<close>

definition feq :: "pyfloat \<Rightarrow> pyfloat \<Rightarrow> bool" where
  "feq x y \<longleftrightarrow> x = y \<and> x \<noteq> NaN"

text \<open>Truth value of a float: everything but zero, NaN included.\<close>

definition ftruth :: "pyfloat \<Rightarrow> bool" where
  "ftruth x \<longleftrightarrow> x \<noteq> 0"

text \<open>\<open>x / y\<close>.\<close>

fun fdiv :: "pyfloat \<Rightarrow> pyfloat \<Rightarrow> pyfloat res" where
  "fdiv x (Fin b) = (if b = 0 then raise ZeroDivisionError else ok
     (case x of Fin a \<Rightarrow> fl (a / b)
      | NaN \<Rightarrow> NaN
      | PInf \<Rightarrow> (if 0 < b then PInf else NInf)
      | NInf \<Rightarrow> (if 0 < b then NInf else PInf)))"
| "fdiv x y = ok (if y \<noteq> NaN \<and> is_finite x then 0 else NaN)"

text \<open>\<open>min(x, y)\<close> and \<open>max(x, y)\<close>: the first argument unless the second is strictly better.\<close>

definition pymin :: "pyfloat \<Rightarrow> pyfloat \<Rightarrow> pyfloat" where
  "pymin x y = (if y < x then y else x)"

definition pymax :: "pyfloat \<Rightarrow> pyfloat \<Rightarrow> pyfloat" where
  "pymax x y = (if x < y then y else x)"

text \<open>\<open>max(xs)\<close> of a non-empty list.\<close>

definition pymax_list :: "pyfloat list \<Rightarrow> pyfloat res" where
  "pymax_list xs = (case xs of [] \<Rightarrow> raise (ValueError ''max() arg is an empty sequence'')
     | x # ys \<Rightarrow> ok (foldl pymax x ys))"

text \<open>
  \<open>sum(xs)\<close> over floats as CPython 3.12 computes it: the integer start value 0 is added to the
  first item, the rest is a Neumaier-compensated loop.
\<close>

fun sum_loop :: "pyfloat \<Rightarrow> pyfloat \<Rightarrow> pyfloat list \<Rightarrow> pyfloat" where
  "sum_loop f c [] = (if ftruth c \<and> is_finite c then f + c else f)"
| "sum_loop f c (x # xs) = (let t = f + x;
     c' = (if \<bar>x\<bar> \<le> \<bar>f\<bar> then c + ((f - t) + x) else c + ((x - t) + f))
   in sum_loop t c' xs)"

definition fsum :: "pyfloat list \<Rightarrow> pyfloat" where
  "fsum xs = (case xs of [] \<Rightarrow> 0 | x # ys \<Rightarrow> sum_loop (0 + x) 0 ys)"

text \<open>\<open>round(x, n)\<close>: correctly rounded to \<open>n\<close> decimals, ties to even.\<close>

definition round_digits :: "pyfloat \<Rightarrow> nat \<Rightarrow> pyfloat" where
  "round_digits x n = (case x of Fin a \<Rightarrow> fl (of_int (rne (a * 10 ^ n)) / 10 ^ n) | _ \<Rightarrow> x)"

text \<open>\<open>int(x)\<close>: towards zero.\<close>

definition trunc_rat :: "rat \<Rightarrow> int" where
  "trunc_rat a = (if 0 \<le> a then \<lfloor>a\<rfloor> else - \<lfloor>- a\<rfloor>)"

fun int_of_float :: "pyfloat \<Rightarrow> int res" where
  "int_of_float (Fin a) = ok (trunc_rat a)"
| "int_of_float NaN = raise (ValueError ''cannot convert float NaN to integer'')"
| "int_of_float _ = raise OverflowError"

text \<open>\<open>float(n)\<close> of an integer.\<close>

definition float_of_int :: "int \<Rightarrow> pyfloat" where
  "float_of_int n = fl (of_int n)"

lemmas fl_eval = fl_def [unfolded Let_def]

lemma fl_minus: "fl (- x) = - fl x"
  by (auto simp: fl_def Let_def rnd64_minus)

lemma rnd64_1: "rnd64 1 = 1"
  using rnd64_grid [of 1 0] by simp

lemmas float_eval = rnd64_numeral_div powi_eval rne_eval rnd64_1 rnd64_minus fl_minus rnd64_one_div rnd64_numeral

section \<open>Order and sign\<close>

named_theorems float_order "order facts about floats that hold with NaN present"

lemma zero_Fin: "0 = Fin 0" and one_Fin: "1 = Fin 1"
  by (simp_all add: zero_pyfloat_def one_pyfloat_def)

lemma fl_not_nan [simp]: "fl x \<noteq> NaN"
  by (auto simp: fl_def Let_def)

lemma fl_0 [simp]: "fl 0 = 0"
  by (simp add: fl_def zero_Fin)

lemma fl_1 [simp]: "fl 1 = 1"
  by (simp add: fl_def rnd64_1 one_Fin)

lemma less_le_pyfloat: "(x :: pyfloat) < y \<Longrightarrow> x \<le> y"
  by (cases x; cases y) auto

lemma le_refl_pyfloat: "x \<noteq> NaN \<Longrightarrow> (x :: pyfloat) \<le> x"
  by (cases x) auto

lemma le_trans_pyfloat: "(x :: pyfloat) \<le> y \<Longrightarrow> y \<le> z \<Longrightarrow> x \<le> z"
  by (cases x; cases y; cases z) auto

lemma less_trans_pyfloat: "(x :: pyfloat) < y \<Longrightarrow> y < z \<Longrightarrow> x < z"
  by (cases x; cases y; cases z) auto

lemma le_less_trans_pyfloat: "(x :: pyfloat) \<le> y \<Longrightarrow> y < z \<Longrightarrow> x < z"
  by (cases x; cases y; cases z) auto

lemma less_le_trans_pyfloat: "(x :: pyfloat) < y \<Longrightarrow> y \<le> z \<Longrightarrow> x < z"
  by (cases x; cases y; cases z) auto

lemma less_not_le_pyfloat: "(x :: pyfloat) < y \<Longrightarrow> \<not> y \<le> x"
  by (cases x; cases y) auto

lemma le_not_less_pyfloat: "(x :: pyfloat) \<le> y \<Longrightarrow> \<not> y < x"
  by (cases x; cases y) auto

lemma less_irrefl_pyfloat [simp]: "\<not> (x :: pyfloat) < x"
  by (cases x) auto

lemma not_less_pyfloat: "x \<noteq> NaN \<Longrightarrow> y \<noteq> NaN \<Longrightarrow> \<not> (x :: pyfloat) < y \<longleftrightarrow> y \<le> x"
  by (cases x; cases y) auto

lemma not_le_pyfloat: "x \<noteq> NaN \<Longrightarrow> y \<noteq> NaN \<Longrightarrow> \<not> (x :: pyfloat) \<le> y \<longleftrightarrow> y < x"
  by (cases x; cases y) auto

lemma le_antisym_pyfloat: "(x :: pyfloat) \<le> y \<Longrightarrow> y \<le> x \<Longrightarrow> x = y"
  by (cases x; cases y) auto

lemma nan_less [simp]: "\<not> NaN < x" "\<not> x < NaN"
  by (cases x; simp)+

lemma nan_le [simp]: "\<not> NaN \<le> x" "\<not> x \<le> NaN"
  by (cases x; simp)+

lemma less_not_nan: "(x :: pyfloat) < y \<Longrightarrow> x \<noteq> NaN" "(x :: pyfloat) < y \<Longrightarrow> y \<noteq> NaN"
  by auto

lemma le_not_nan: "(x :: pyfloat) \<le> y \<Longrightarrow> x \<noteq> NaN" "(x :: pyfloat) \<le> y \<Longrightarrow> y \<noteq> NaN"
  by auto

lemmas [float_order] = le_trans_pyfloat less_trans_pyfloat le_less_trans_pyfloat
  less_le_trans_pyfloat less_le_pyfloat

lemma nan_arith [simp]:
  "NaN + x = NaN" "x + NaN = NaN" "NaN - x = NaN" "x - NaN = NaN"
  "NaN * x = NaN" "x * NaN = NaN" "- NaN = NaN" "\<bar>NaN\<bar> = NaN"
  by (cases x; simp add: minus_pyfloat_def)+

lemma fdiv_NaN_left: "fdiv NaN y = (if feq y 0 then raise ZeroDivisionError else ok NaN)"
  by (cases y) (auto simp: feq_def zero_Fin is_finite_def)

lemma fl_mono: "x \<le> y \<Longrightarrow> fl x \<le> fl y"
  using rnd64_mono [of x y] by (auto simp: fl_def Let_def)

lemma fl_between_infs [simp]: "fl x \<le> PInf" "NInf \<le> fl x"
  by (cases "fl x"; simp; metis fl_not_nan)+

lemma fl_le_Fin: "rnd64 r = r \<Longrightarrow> \<bar>r\<bar> < 2 ^ 1024 \<Longrightarrow> x \<le> r \<Longrightarrow> fl x \<le> Fin r"
  using fl_mono [of x r] by (auto simp: fl_def Let_def abs_less_iff)

lemma fl_ge_Fin: "rnd64 r = r \<Longrightarrow> \<bar>r\<bar> < 2 ^ 1024 \<Longrightarrow> r \<le> x \<Longrightarrow> Fin r \<le> fl x"
  using fl_mono [of r x] by (auto simp: fl_def Let_def abs_less_iff)

lemma fl_fixed: "rnd64 r = r \<Longrightarrow> \<bar>r\<bar> < 2 ^ 1024 \<Longrightarrow> fl r = Fin r"
  by (auto simp: fl_def Let_def abs_less_iff)

lemma is_float_fl [simp]: "is_float (fl x)"
  by (auto simp: fl_def Let_def is_float_def abs_less_iff)

lemma is_float_specials [simp]: "is_float NaN" "is_float PInf" "is_float NInf" "is_float 0" "is_float 1"
  by (simp_all add: is_float_def zero_Fin one_Fin rnd64_1)

lemma is_float_arith [simp]:
  "is_float (x + y)" "is_float (x - y)" "is_float (x * y)"
  by (cases x; cases y; simp add: minus_pyfloat_def)+

lemma is_float_uminus: "is_float x \<Longrightarrow> is_float (- x)"
  by (cases x) (auto simp: is_float_def rnd64_minus)

lemma is_float_abs: "is_float x \<Longrightarrow> is_float \<bar>x\<bar>"
  by (cases x) (auto simp: is_float_def abs_if rnd64_minus)

lemma fl_nonneg: "0 \<le> x \<Longrightarrow> 0 \<le> fl x"
  using fl_mono [of 0 x] by simp

lemma add_commute_pyfloat: "(x :: pyfloat) + y = y + x"
  by (cases x; cases y) (auto simp: add.commute)

lemma mult_commute_pyfloat: "(x :: pyfloat) * y = y * x"
  by (cases x; cases y) (auto simp: mult.commute)

lemma mult_nonneg_pyfloat: "0 \<le> x \<Longrightarrow> 0 \<le> y \<Longrightarrow> x * y \<noteq> NaN \<Longrightarrow> 0 \<le> x * (y :: pyfloat)"
  using fl_nonneg [unfolded zero_Fin] by (cases x; cases y) (auto simp: zero_Fin split: if_splits)

lemma abs_nonneg_pyfloat: "x \<noteq> NaN \<Longrightarrow> 0 \<le> \<bar>x :: pyfloat\<bar>"
  by (cases x) (auto simp: zero_Fin)

lemma pymin_le:
  assumes "x \<noteq> NaN" "y \<noteq> NaN"
  shows "pymin x y \<le> x" "pymin x y \<le> y"
  using assms by (cases x; cases y; auto simp: pymin_def)+

lemma pymax_ge:
  assumes "x \<noteq> NaN" "y \<noteq> NaN"
  shows "x \<le> pymax x y" "y \<le> pymax x y"
  using assms by (cases x; cases y; auto simp: pymax_def)+

lemma pymin_NaN_left [simp]: "pymin NaN y = NaN"
  by (simp add: pymin_def)

lemma pymin_cases: "pymin x y = x \<or> pymin x y = y"
  by (simp add: pymin_def)

lemma pymax_cases: "pymax x y = x \<or> pymax x y = y"
  by (simp add: pymax_def)

lemma pymax_0_ge: "0 \<le> pymax 0 x"
  by (cases x) (auto simp: pymax_def zero_Fin)

lemma add_mono_pyfloat: "x \<le> y \<Longrightarrow> x + z \<noteq> NaN \<Longrightarrow> y + z \<noteq> NaN \<Longrightarrow> x + z \<le> y + (z :: pyfloat)"
  by (cases x; cases y; cases z) (auto intro: fl_mono)

lemma uminus_antimono_pyfloat: "x \<le> y \<Longrightarrow> - y \<le> - (x :: pyfloat)"
  by (cases x; cases y) auto

lemma diff_antimono_pyfloat:
  "x \<le> y \<Longrightarrow> z - x \<noteq> NaN \<Longrightarrow> z - y \<noteq> NaN \<Longrightarrow> z - y \<le> z - (x :: pyfloat)"
  unfolding minus_pyfloat_def
  by (metis add_commute_pyfloat add_mono_pyfloat uminus_antimono_pyfloat)

lemma fdiv_mono:
  assumes "x \<le> y" "0 < d" "fdiv x d = ok r" "fdiv y d = ok s" "r \<noteq> NaN" "s \<noteq> NaN"
  shows "r \<le> s"
proof (cases d)
  case (Fin b)
  then have "0 < b" using assms(2) by (simp add: zero_Fin)
  then show ?thesis
    using assms Fin
    by (cases x; cases y) (auto intro!: fl_mono divide_right_mono)
qed (use assms in \<open>auto simp: zero_Fin is_finite_def split: if_splits\<close>)

lemma fdiv_ok: "\<not> feq y 0 \<Longrightarrow> \<exists>r. fdiv x y = ok r"
  by (cases y) (auto simp: feq_def zero_Fin)

lemma fdiv_pos_ok: "0 < y \<Longrightarrow> \<exists>r. fdiv x y = ok r"
  by (rule fdiv_ok) (auto simp: feq_def)

end
