(* ===== verification/OrderStateMachine.thy ===== *)
theory OrderStateMachine
  imports PyFloat
begin

text \<open>
  \<open>execution/state_machine.py\<close>: the order states, the events, the explicit table of legal
  transitions and \<open>transition_order_state\<close>, which is the only way an order changes state.
  The table is kept as the dictionary the source writes; \<open>legal_step\<close> is the step relation
  it stands for, and the lemmas show that the function refines the relation.
\<close>

section \<open>States, events and the table\<close>

datatype order_state =
    CREATED | SUBMITTED | ACKED | FILLED | PARTIALLY_FILLED | PARTIAL_FILL_FINALIZED
  | CANCELED | REJECTED | EXPIRED | QUARANTINED | UNKNOWN

datatype order_event_type =
    EvCREATED | EvSUBMITTED | EvACKED | EvFILL | EvCANCEL | EvEXPIRY
  | EvPARTIAL_FILL_FINALIZED | EvCANCELED | EvREJECTED | EvQUARANTINED

fun order_state_value :: "order_state \<Rightarrow> string" where
  "order_state_value CREATED = ''created''"
| "order_state_value SUBMITTED = ''submitted''"
| "order_state_value ACKED = ''acked''"
| "order_state_value FILLED = ''filled''"
| "order_state_value PARTIALLY_FILLED = ''partially_filled''"
| "order_state_value PARTIAL_FILL_FINALIZED = ''partial_fill_finalized''"
| "order_state_value CANCELED = ''canceled''"
| "order_state_value REJECTED = ''rejected''"
| "order_state_value EXPIRED = ''expired''"
| "order_state_value QUARANTINED = ''quarantined''"
| "order_state_value UNKNOWN = ''unknown''"

fun event_value :: "order_event_type \<Rightarrow> string" where
  "event_value EvCREATED = ''created''"
| "event_value EvSUBMITTED = ''submitted''"
| "event_value EvACKED = ''acked''"
| "event_value EvFILL = ''fill''"
| "event_value EvCANCEL = ''cancel''"
| "event_value EvEXPIRY = ''expiry''"
| "event_value EvPARTIAL_FILL_FINALIZED = ''partial_fill_finalized''"
| "event_value EvCANCELED = ''canceled''"
| "event_value EvREJECTED = ''rejected''"
| "event_value EvQUARANTINED = ''quarantined''"

definition LEGAL_TRANSITIONS :: "(order_state, order_state list) dict" where
  "LEGAL_TRANSITIONS =
   [(CREATED, [SUBMITTED, REJECTED, CANCELED, EXPIRED, QUARANTINED]),
    (SUBMITTED, [ACKED, PARTIALLY_FILLED, FILLED, CANCELED, REJECTED, EXPIRED, QUARANTINED]),
    (ACKED, [PARTIALLY_FILLED, FILLED, CANCELED, REJECTED, EXPIRED, QUARANTINED]),
    (PARTIALLY_FILLED, [PARTIALLY_FILLED, FILLED, PARTIAL_FILL_FINALIZED, CANCELED, REJECTED,
       EXPIRED, QUARANTINED]),
    (FILLED, []),
    (PARTIAL_FILL_FINALIZED, []),
    (CANCELED, []),
    (REJECTED, []),
    (EXPIRED, []),
    (QUARANTINED, []),
    (UNKNOWN, [QUARANTINED])]"

definition TERMINAL_STATES :: "order_state set" where
  "TERMINAL_STATES = set (map fst (filter (\<lambda>(s, allowed). allowed = []) LEGAL_TRANSITIONS))"

section \<open>The transition function\<close>

definition illegal_transition :: "order_state \<Rightarrow> order_event_type \<Rightarrow> pyerr" where
  "illegal_transition s e = IllegalTransitionError (order_state_value s) (event_value e)"

text \<open>A fill resolves to a partial or a full fill when both quantities are known.\<close>

definition resolve_fill_target ::
  "pyfloat option \<Rightarrow> pyfloat option \<Rightarrow> pyfloat option \<Rightarrow> order_state" where
  "resolve_fill_target fill_qty intended_qty prev_filled_qty =
    (case (fill_qty, intended_qty) of
       (Some f, Some i) \<Rightarrow>
         if ftruth i then
           (let prev = (case prev_filled_qty of None \<Rightarrow> 0 | Some p \<Rightarrow> if ftruth p then p else 0);
                cumulative = f + prev
            in if cumulative < i then PARTIALLY_FILLED else FILLED)
         else FILLED
     | _ \<Rightarrow> FILLED)"

definition event_target :: "order_event_type \<Rightarrow> order_state option" where
  "event_target e = (case e of
     EvSUBMITTED \<Rightarrow> Some SUBMITTED
   | EvACKED \<Rightarrow> Some ACKED
   | EvCANCEL \<Rightarrow> Some CANCELED
   | EvCANCELED \<Rightarrow> Some CANCELED
   | EvEXPIRY \<Rightarrow> Some EXPIRED
   | EvREJECTED \<Rightarrow> Some REJECTED
   | EvQUARANTINED \<Rightarrow> Some QUARANTINED
   | EvPARTIAL_FILL_FINALIZED \<Rightarrow> Some PARTIAL_FILL_FINALIZED
   | _ \<Rightarrow> None)"

definition transition_order_state ::
  "order_state \<Rightarrow> order_event_type \<Rightarrow> pyfloat option \<Rightarrow> pyfloat option \<Rightarrow> pyfloat option \<Rightarrow>
   order_state res" where
  "transition_order_state current_state event_type fill_qty intended_qty prev_filled_qty =
    (case dget LEGAL_TRANSITIONS current_state of
       None \<Rightarrow> raise (illegal_transition current_state event_type)
     | Some allowed \<Rightarrow>
         if event_type = EvFILL then
           (let target = resolve_fill_target fill_qty intended_qty prev_filled_qty
            in if target \<notin> set allowed then raise (illegal_transition current_state event_type)
               else ok target)
         else
           (case event_target event_type of
              None \<Rightarrow> raise (illegal_transition current_state event_type)
            | Some next_state \<Rightarrow>
                if next_state \<notin> set allowed then raise (illegal_transition current_state event_type)
                else ok next_state))"

text \<open>The call without quantities, as in \<open>transition_order_state(current, event)\<close>.\<close>

definition transition_plain :: "order_state \<Rightarrow> order_event_type \<Rightarrow> order_state res" where
  "transition_plain s e = transition_order_state s e None None None"

section \<open>The step relation\<close>

definition allowed_next :: "order_state \<Rightarrow> order_state list" where
  "allowed_next s = (case dget LEGAL_TRANSITIONS s of None \<Rightarrow> [] | Some xs \<Rightarrow> xs)"

inductive legal_step :: "order_state \<Rightarrow> order_state \<Rightarrow> bool" where
  table: "t \<in> set (allowed_next s) \<Longrightarrow> legal_step s t"

inductive_cases legal_step_elim: "legal_step s t"
inductive_simps legal_step_iff: "legal_step s t"

code_pred legal_step .

lemma allowed_next_simps [simp]:
  "allowed_next CREATED = [SUBMITTED, REJECTED, CANCELED, EXPIRED, QUARANTINED]"
  "allowed_next SUBMITTED =
     [ACKED, PARTIALLY_FILLED, FILLED, CANCELED, REJECTED, EXPIRED, QUARANTINED]"
  "allowed_next ACKED = [PARTIALLY_FILLED, FILLED, CANCELED, REJECTED, EXPIRED, QUARANTINED]"
  "allowed_next PARTIALLY_FILLED =
     [PARTIALLY_FILLED, FILLED, PARTIAL_FILL_FINALIZED, CANCELED, REJECTED, EXPIRED, QUARANTINED]"
  "allowed_next FILLED = []" "allowed_next PARTIAL_FILL_FINALIZED = []"
  "allowed_next CANCELED = []" "allowed_next REJECTED = []" "allowed_next EXPIRED = []"
  "allowed_next QUARANTINED = []" "allowed_next UNKNOWN = [QUARANTINED]"
  by (simp_all add: allowed_next_def LEGAL_TRANSITIONS_def)

lemma LEGAL_TRANSITIONS_total: "dget LEGAL_TRANSITIONS s = Some (allowed_next s)"
  by (cases s) (simp_all add: LEGAL_TRANSITIONS_def)

lemma TERMINAL_STATES_iff: "s \<in> TERMINAL_STATES \<longleftrightarrow> allowed_next s = []"
  by (cases s) (simp_all add: TERMINAL_STATES_def LEGAL_TRANSITIONS_def)

lemma resolve_fill_target_cases:
  "resolve_fill_target f i p = FILLED \<or> resolve_fill_target f i p = PARTIALLY_FILLED"
  by (auto simp: resolve_fill_target_def Let_def split: option.splits)

lemma transition_eq:
  "transition_order_state s e f i p =
    (case (if e = EvFILL then Some (resolve_fill_target f i p) else event_target e) of
       None \<Rightarrow> raise (illegal_transition s e)
     | Some t \<Rightarrow> if t \<in> set (allowed_next s) then ok t else raise (illegal_transition s e))"
  by (auto simp: transition_order_state_def LEGAL_TRANSITIONS_total Let_def split: option.splits)

lemma transition_ok_legal: "transition_order_state s e f i p = ok t \<Longrightarrow> legal_step s t"
  by (auto simp: transition_eq legal_step_iff split: option.splits if_splits)

lemma transition_error_cases:
  "transition_order_state s e f i p = Inl err \<Longrightarrow> err = illegal_transition s e"
  by (auto simp: transition_eq split: option.splits if_splits)

lemma legal_step_not_terminal: "legal_step s t \<Longrightarrow> s \<notin> TERMINAL_STATES"
  by (auto simp: legal_step_iff TERMINAL_STATES_iff)

text \<open>How far an order is in its life; every legal step but a further partial fill goes up.\<close>

fun progress :: "order_state \<Rightarrow> nat" where
  "progress CREATED = 0"
| "progress SUBMITTED = 1"
| "progress ACKED = 2"
| "progress PARTIALLY_FILLED = 3"
| "progress UNKNOWN = 3"
| "progress _ = 4"

lemma legal_step_progress:
  "legal_step s t \<Longrightarrow> progress s < progress t \<or> s = PARTIALLY_FILLED \<and> t = PARTIALLY_FILLED"
  by (cases s) (auto simp: legal_step_iff)

section \<open>Runs\<close>

record fill_context =
  fc_fill :: "pyfloat option"
  fc_intended :: "pyfloat option"
  fc_prev :: "pyfloat option"

text \<open>A sequence of events; the first illegal one ends the run with its exception.\<close>

fun transition_run :: "order_state \<Rightarrow> (order_event_type \<times> fill_context) list \<Rightarrow> order_state res" where
  "transition_run s [] = ok s"
| "transition_run s ((e, c) # es) =
    rbind (transition_order_state s e (fc_fill c) (fc_intended c) (fc_prev c))
      (\<lambda>t. transition_run t es)"

lemma transition_run_legal: "transition_run s es = ok t \<Longrightarrow> legal_step\<^sup>*\<^sup>* s t"
proof (induction es arbitrary: s)
  case Nil
  then show ?case by simp
next
  case (Cons x es)
  obtain e c where x: "x = (e, c)" by (cases x)
  from Cons.prems obtain u where
    "transition_order_state s e (fc_fill c) (fc_intended c) (fc_prev c) = ok u"
    "transition_run u es = ok t"
    by (auto simp: x rbind_eq_Inr)
  then show ?case
    using Cons.IH transition_ok_legal by (meson converse_rtranclp_into_rtranclp)
qed

lemma progress_mono_steps: "legal_step\<^sup>*\<^sup>* s t \<Longrightarrow> progress s \<le> progress t"
proof (induction rule: rtranclp_induct)
  case (step t u)
  then show ?case using legal_step_progress [of t u] by auto
qed simp

text \<open>Number of events of a run that are partial fills repeated in \<open>PARTIALLY_FILLED\<close>.\<close>

fun repeated_partials :: "order_state \<Rightarrow> (order_event_type \<times> fill_context) list \<Rightarrow> nat" where
  "repeated_partials s [] = 0"
| "repeated_partials s ((e, c) # es) =
    (case transition_order_state s e (fc_fill c) (fc_intended c) (fc_prev c) of
       Inl _ \<Rightarrow> 0
     | Inr t \<Rightarrow> (if s = PARTIALLY_FILLED \<and> t = PARTIALLY_FILLED then 1 else 0) + repeated_partials t es)"

lemma run_length_aux:
  "transition_run s es = ok t \<Longrightarrow> length es + progress s \<le> progress t + repeated_partials s es"
proof (induction es arbitrary: s)
  case Nil
  then show ?case by simp
next
  case (Cons x es)
  obtain e c where x: "x = (e, c)" by (cases x)
  from Cons.prems obtain u where
    u: "transition_order_state s e (fc_fill c) (fc_intended c) (fc_prev c) = ok u"
    "transition_run u es = ok t"
    by (auto simp: x rbind_eq_Inr)
  have "legal_step s u" using u(1) by (rule transition_ok_legal)
  then have "progress s < progress u \<or> s = PARTIALLY_FILLED \<and> u = PARTIALLY_FILLED"
    by (rule legal_step_progress)
  then show ?case using Cons.IH [OF u(2)] u(1) by (auto simp: x)
qed

lemma progress_le: "progress s \<le> 4"
  by (cases s) auto

lemma not_entered: "\<not> legal_step s UNKNOWN" "\<not> legal_step s CREATED"
  by (cases s; simp add: legal_step_iff)+

lemma run_created_iff:
  assumes run: "transition_run CREATED es = ok t"
  shows "t = CREATED \<longleftrightarrow> es = []"
proof (cases es)
  case Nil
  then show ?thesis using run by simp
next
  case (Cons x xs)
  obtain e c where x: "x = (e, c)" by (cases x)
  from run Cons obtain u where
    u: "transition_order_state CREATED e (fc_fill c) (fc_intended c) (fc_prev c) = ok u"
    "transition_run u xs = ok t" by (auto simp: x rbind_eq_Inr)
  have "0 < progress u" using legal_step_progress [OF transition_ok_legal [OF u(1)]] by auto
  also have "progress u \<le> progress t"
    using u(2) transition_run_legal progress_mono_steps by blast
  finally show ?thesis using Cons by auto
qed

section \<open>Properties\<close>

text \<open>
  What the transitions are for, stated by the state that is entered and without the table: the
  states an order may have been in before, and the state each event asks for.
\<close>

definition working_states :: "order_state set" where
  "working_states = {SUBMITTED, ACKED, PARTIALLY_FILLED}"

definition may_come_from :: "order_state \<Rightarrow> order_state set" where
  "may_come_from t = (case t of
     CREATED \<Rightarrow> {}
   | UNKNOWN \<Rightarrow> {}
   | SUBMITTED \<Rightarrow> {CREATED}
   | ACKED \<Rightarrow> {SUBMITTED}
   | PARTIALLY_FILLED \<Rightarrow> working_states
   | FILLED \<Rightarrow> working_states
   | PARTIAL_FILL_FINALIZED \<Rightarrow> {PARTIALLY_FILLED}
   | QUARANTINED \<Rightarrow> working_states \<union> {CREATED, UNKNOWN}
   | _ \<Rightarrow> working_states \<union> {CREATED})"

definition fill_leaves_a_rest :: "pyfloat option \<Rightarrow> pyfloat option \<Rightarrow> pyfloat option \<Rightarrow> bool" where
  "fill_leaves_a_rest fill intended prev \<longleftrightarrow>
    (\<exists>q n. fill = Some q \<and> intended = Some n \<and> n \<noteq> 0 \<and>
       q + (case prev of None \<Rightarrow> 0 | Some x \<Rightarrow> x) < n)"

inductive asks_for ::
  "order_event_type \<Rightarrow> pyfloat option \<Rightarrow> pyfloat option \<Rightarrow> pyfloat option \<Rightarrow> order_state \<Rightarrow> bool" where
  "asks_for EvSUBMITTED f i p SUBMITTED"
| "asks_for EvACKED f i p ACKED"
| "fill_leaves_a_rest f i p \<Longrightarrow> asks_for EvFILL f i p PARTIALLY_FILLED"
| "\<not> fill_leaves_a_rest f i p \<Longrightarrow> asks_for EvFILL f i p FILLED"
| "asks_for EvCANCEL f i p CANCELED"
| "asks_for EvCANCELED f i p CANCELED"
| "asks_for EvEXPIRY f i p EXPIRED"
| "asks_for EvREJECTED f i p REJECTED"
| "asks_for EvQUARANTINED f i p QUARANTINED"
| "asks_for EvPARTIAL_FILL_FINALIZED f i p PARTIAL_FILL_FINALIZED"

inductive_simps asks_for_iff: "asks_for e f i p t"

lemma ftruth_iff_nonzero: "ftruth x \<longleftrightarrow> x \<noteq> 0"
  by (cases x) (auto simp: ftruth_def zero_Fin)

lemma resolve_fill_target_spec:
  "resolve_fill_target f i p = (if fill_leaves_a_rest f i p then PARTIALLY_FILLED else FILLED)"
  by (auto simp: resolve_fill_target_def fill_leaves_a_rest_def ftruth_iff_nonzero Let_def
      split: option.splits if_splits)

lemma allowed_next_spec: "t \<in> set (allowed_next s) \<longleftrightarrow> s \<in> may_come_from t"
  by (cases s; cases t) (simp_all add: may_come_from_def working_states_def)

lemma asks_for_target:
  "asks_for e f i p t \<longleftrightarrow>
    (if e = EvFILL then Some (resolve_fill_target f i p) else event_target e) = Some t"
  by (cases e) (auto simp: asks_for_iff event_target_def resolve_fill_target_spec)

lemma asks_for_unique: "asks_for e f i p t \<Longrightarrow> asks_for e f i p u \<Longrightarrow> t = u"
  by (simp add: asks_for_target)

text \<open>C1: \<open>transition_order_state\<close> moves an order exactly as a life cycle stated without the
  table says. An event asks for one state (a fill for \<open>PARTIALLY_FILLED\<close> when both quantities are
  known, the intended one is not zero and the fill with the earlier fills stays below it, and for
  \<open>FILLED\<close> otherwise); the call returns that state when the order may come from where it is, that
  is submitted only from \<open>CREATED\<close>, acknowledged only from \<open>SUBMITTED\<close>, filled only while working,
  finalized only from a partial fill, closed only from \<open>CREATED\<close> or while working, and
  quarantined from these or from \<open>UNKNOWN\<close>. In every other case it raises
  \<open>IllegalTransitionError\<close> with the two values of the call.\<close>

theorem transition_refines_table:
  "(\<forall>t. transition_order_state s e f i p = ok t \<longleftrightarrow> asks_for e f i p t \<and> s \<in> may_come_from t) \<and>
   ((\<nexists>t. asks_for e f i p t \<and> s \<in> may_come_from t) \<longleftrightarrow>
     transition_order_state s e f i p =
       raise (IllegalTransitionError (order_state_value s) (event_value e)))"
proof (intro conjI allI)
  fix t
  show "transition_order_state s e f i p = ok t \<longleftrightarrow> asks_for e f i p t \<and> s \<in> may_come_from t"
    unfolding transition_eq asks_for_target by (auto simp: allowed_next_spec split: option.splits)
  show "(\<nexists>t. asks_for e f i p t \<and> s \<in> may_come_from t) \<longleftrightarrow> transition_order_state s e f i p =
      raise (IllegalTransitionError (order_state_value s) (event_value e))"
    unfolding transition_eq asks_for_target illegal_transition_def
    by (auto simp: allowed_next_spec split: option.splits)
qed

text \<open>C2: an order's life is finite: from \<open>CREATED\<close> at most four accepted events are not repeated
  partial fills, the accepted path is a path of the table, \<open>UNKNOWN\<close> and \<open>CREATED\<close> are never
  entered again, and once the run is in a terminal state every further event raises.\<close>

theorem order_life_bounded:
  assumes run: "transition_run CREATED es = ok t"
  shows "length es \<le> 4 + repeated_partials CREATED es \<and> legal_step\<^sup>*\<^sup>* CREATED t \<and>
    t \<noteq> UNKNOWN \<and> (t = CREATED \<longleftrightarrow> es = []) \<and>
    (t \<in> TERMINAL_STATES \<longrightarrow>
      (\<forall>e f i p. transition_order_state t e f i p = raise (illegal_transition t e)))"
proof (intro conjI impI allI)
  show "length es \<le> 4 + repeated_partials CREATED es"
    using run_length_aux [OF run] progress_le [of t] by simp
  show steps: "legal_step\<^sup>*\<^sup>* CREATED t" using run by (rule transition_run_legal)
  show "t \<noteq> UNKNOWN" using steps not_entered by (metis order_state.distinct(19) rtranclp.cases)
  show "t = CREATED \<longleftrightarrow> es = []" using run by (rule run_created_iff)
  show "t \<in> TERMINAL_STATES \<Longrightarrow>
      transition_order_state t e f i p = raise (illegal_transition t e)" for e f i p
    by (auto simp: transition_eq TERMINAL_STATES_iff split: option.splits)
qed

theorem order_life_bounded_witness:
  "length [(EvSUBMITTED, \<lparr>fc_fill = None, fc_intended = None, fc_prev = None\<rparr>),
           (EvFILL, \<lparr>fc_fill = Some (Fin 1), fc_intended = Some (Fin 3), fc_prev = None\<rparr>),
           (EvFILL, \<lparr>fc_fill = Some (Fin 1), fc_intended = Some (Fin 3), fc_prev = Some (Fin 1)\<rparr>),
           (EvCANCEL, \<lparr>fc_fill = None, fc_intended = None, fc_prev = None\<rparr>)] \<le> 4 + (1::nat)
   \<and> transition_order_state CANCELED EvFILL None None None = raise (illegal_transition CANCELED EvFILL)"
proof -
  let ?n = "\<lparr>fc_fill = None, fc_intended = None, fc_prev = None\<rparr>"
  let ?es = "[(EvSUBMITTED, ?n),
     (EvFILL, \<lparr>fc_fill = Some (Fin 1), fc_intended = Some (Fin 3), fc_prev = None\<rparr>),
     (EvFILL, \<lparr>fc_fill = Some (Fin 1), fc_intended = Some (Fin 3), fc_prev = Some (Fin 1)\<rparr>),
     (EvCANCEL, ?n)]"
  note eval = transition_eq resolve_fill_target_def event_target_def Let_def ftruth_def zero_Fin
    fl_eval float_eval
  have run: "transition_run CREATED ?es = ok CANCELED" by (simp add: eval)
  have reps: "repeated_partials CREATED ?es = 1" by (simp add: eval)
  have fin: "CANCELED \<in> TERMINAL_STATES" by (simp add: TERMINAL_STATES_iff)
  show ?thesis using order_life_bounded [OF run] fin unfolding reps by simp
qed

text \<open>a fill with known quantities leaves an open order in \<open>PARTIALLY_FILLED\<close> exactly when the
  cumulative quantity is below the intended one, and in \<open>FILLED\<close> otherwise; a fill never lands
  anywhere else, and is refused in every state that is not open.\<close>

theorem fill_resolution:
  "transition_order_state s EvFILL (Some q) (Some i) (Some prev) =
    (if s \<in> {SUBMITTED, ACKED, PARTIALLY_FILLED}
     then ok (if ftruth i \<and> q + (if ftruth prev then prev else 0) < i
              then PARTIALLY_FILLED else FILLED)
     else raise (illegal_transition s EvFILL))"
  by (cases s) (auto simp: transition_eq resolve_fill_target_def Let_def)

end
