(* ===== verification/RiskModels.thy ===== *)
theory RiskModels
  imports PyFloat
begin

text \<open>
  \<open>risk/models.py\<close>, \<open>risk/equity.py\<close> and the execution-mode gate of \<open>config.py\<close>: the data
  every risk component shares, the issuer token that guards order construction, the
  \<open>daily_pnl_pct\<close> denominator, the liquidation checks and the one definition of marked
  equity.  A \<open>datetime\<close> is its number of microseconds on a fixed time line.
\<close>

section \<open>Execution modes (config.py)\<close>

datatype execution_mode = BACKTEST | PAPER | SHADOW | LIVE_RESTRICTED | LIVE_FULL

fun mode_level :: "execution_mode \<Rightarrow> int" where
  "mode_level BACKTEST = 0"
| "mode_level PAPER = 1"
| "mode_level SHADOW = 2"
| "mode_level LIVE_RESTRICTED = 3"
| "mode_level LIVE_FULL = 4"

instantiation execution_mode :: linorder
begin

definition less_eq_execution_mode :: "execution_mode \<Rightarrow> execution_mode \<Rightarrow> bool" where
  "less_eq_execution_mode a b \<longleftrightarrow> mode_level a \<le> mode_level b"

definition less_execution_mode :: "execution_mode \<Rightarrow> execution_mode \<Rightarrow> bool" where
  "less_execution_mode a b \<longleftrightarrow> mode_level a < mode_level b"

instance
proof
  fix a b :: execution_mode
  show "a \<le> b \<Longrightarrow> b \<le> a \<Longrightarrow> a = b"
    by (cases a; cases b) (auto simp: less_eq_execution_mode_def)
qed (auto simp: less_eq_execution_mode_def less_execution_mode_def)

end

definition gate_execution_mode :: "execution_mode \<Rightarrow> execution_mode \<Rightarrow> unit res" where
  "gate_execution_mode required_mode current_mode =
    (if mode_level current_mode < mode_level required_mode
     then raise (RuntimeError ''ExecutionMode violation'') else ok ())"

section \<open>Records of risk/models.py\<close>

datatype side = LONG | SHORT

text \<open>Object identity of the issuer token: \<open>_ISSUER\<close>, or any other object.\<close>

datatype py_object = ISSUER | OtherObject nat

type_synonym datetime = int

record signal =
  sg_asset :: string
  sg_asset_class :: string
  sg_side :: side
  sg_entry_price :: pyfloat
  sg_confidence :: pyfloat
  sg_timestamp :: datetime
  sg_rationale :: string
  sg_suggested_stop :: "pyfloat option"
  sg_suggested_target :: "pyfloat option"
  sg_garch_vol_scale :: "pyfloat option"

record position =
  ps_asset :: string
  ps_asset_class :: string
  ps_side :: side
  ps_entry_price :: pyfloat
  ps_stop_price :: pyfloat
  ps_risk_pct :: pyfloat
  ps_position_size :: pyfloat

record risk_config =
  risk_pct :: pyfloat
  min_reward_risk :: pyfloat
  max_heat :: pyfloat
  max_heat_high_vol :: pyfloat
  correlation_threshold :: pyfloat
  max_positions_per_asset_class :: int
  daily_loss_limit :: pyfloat
  weekly_loss_limit :: pyfloat
  weekly_loss_reduction :: pyfloat
  max_drawdown :: pyfloat
  consecutive_loss_limit :: int
  cooldown_hours :: pyfloat
  pre_event_hours :: pyfloat
  pre_event_reduction :: pyfloat
  min_exit_confidence :: pyfloat

definition default_risk_config :: risk_config where
  "default_risk_config = \<lparr>
     risk_pct = fl (1/100), min_reward_risk = fl 2, max_heat = fl (6/100),
     max_heat_high_vol = fl (4/100), correlation_threshold = fl (7/10),
     max_positions_per_asset_class = 5, daily_loss_limit = fl (25/1000),
     weekly_loss_limit = fl (55/1000), weekly_loss_reduction = fl (1/2),
     max_drawdown = fl (175/1000), consecutive_loss_limit = 4, cooldown_hours = fl 4,
     pre_event_hours = fl 2, pre_event_reduction = fl (1/2), min_exit_confidence = fl (1/2)\<rparr>"

text \<open>\<open>RiskConfig.__post_init__\<close>: construction fails unless \<open>0 < risk_pct <= 0.02\<close>.\<close>

definition new_RiskConfig :: "risk_config \<Rightarrow> risk_config res" where
  "new_RiskConfig c = (if \<not> (0 < risk_pct c \<and> risk_pct c \<le> fl (2/100))
     then raise (ValueError ''risk_pct must be within (0, 0.02] per hard cap'') else ok c)"

record account_state =
  equity :: pyfloat
  peak_equity :: pyfloat
  open_positions :: "position list"
  acc_daily_pnl_pct :: pyfloat
  weekly_pnl_pct :: pyfloat
  consecutive_losses :: "(string, int) dict"
  last_loss_at :: "(string, datetime) dict"
  kill_switch :: bool
  high_volatility :: bool
  minutes_to_next_major_event :: "pyfloat option"
  correlations :: "string set \<rightharpoonup> pyfloat"
  day_start_settled_equity :: "pyfloat option"

record approved_order =
  ao_asset :: string
  ao_asset_class :: string
  ao_side :: side
  ao_entry_price :: pyfloat
  ao_stop_price :: pyfloat
  ao_target_price :: pyfloat
  ao_position_size :: pyfloat
  ao_risk_pct :: pyfloat
  ao_issuer :: py_object

text \<open>\<open>ApprovedOrder.__post_init__\<close>; \<open>dataclasses.replace\<close> runs it too.\<close>

definition new_ApprovedOrder :: "approved_order \<Rightarrow> approved_order res" where
  "new_ApprovedOrder ord = (if ao_issuer ord \<noteq> ISSUER
     then raise (PermissionError ''ApprovedOrder can only be constructed by the Risk Engine'')
     else ok ord)"

record exit_signal =
  es_asset :: string
  es_asset_class :: string
  es_reason :: string
  es_source :: string
  es_confidence :: pyfloat
  es_timestamp :: datetime

record approved_exit =
  ax_asset :: string
  ax_asset_class :: string
  ax_reason :: string
  ax_issuer :: py_object

definition new_ApprovedExit :: "approved_exit \<Rightarrow> approved_exit res" where
  "new_ApprovedExit ex = (if ax_issuer ex \<noteq> ISSUER
     then raise (PermissionError ''ApprovedExit can only be constructed by the Risk Engine'')
     else ok ex)"

record risk_deviation_event =
  rd_client_order_id :: string
  rd_asset :: string
  rd_intended_qty :: pyfloat
  rd_realized_qty :: pyfloat
  rd_intended_risk_usd :: pyfloat
  rd_realized_risk_usd :: pyfloat

section \<open>The daily P\&L denominator\<close>

definition day_start_equity :: "account_state \<Rightarrow> pyfloat" where
  "day_start_equity account = (case day_start_settled_equity account of
     None \<Rightarrow> equity account | Some anchor \<Rightarrow> anchor)"

definition daily_pnl_pct :: "account_state \<Rightarrow> pyfloat res" where
  "daily_pnl_pct account = (let denom = day_start_equity account in
     if denom \<le> 0 then ok 0 else fdiv (equity account - denom) denom)"

section \<open>Liquidation\<close>

text \<open>
  A position is a \<open>Position\<close> or a dictionary, whose keys may be missing; \<open>entry_fill\<close> shadows
  \<open>entry_price\<close>.
\<close>

record position_dict =
  pd_asset :: "string option"
  pd_side :: "side option"
  pd_entry_fill :: "pyfloat option"
  pd_entry_price :: "pyfloat option"
  pd_position_size :: "pyfloat option"

datatype position_like = PosObj position | PosDict position_dict

definition pd_key :: "string \<Rightarrow> 'a option \<Rightarrow> 'a res" where
  "pd_key k x = (case x of None \<Rightarrow> raise (KeyError k) | Some v \<Rightarrow> ok v)"

definition pd_entry :: "position_dict \<Rightarrow> pyfloat \<Rightarrow> pyfloat" where
  "pd_entry d dflt = (case pd_entry_fill d of Some e \<Rightarrow> e
     | None \<Rightarrow> (case pd_entry_price d of Some e \<Rightarrow> e | None \<Rightarrow> dflt))"

text \<open>\<open>position_size * (mark - entry)\<close>, with the sign of the side.\<close>

definition pnl_at :: "side \<Rightarrow> pyfloat \<Rightarrow> pyfloat \<Rightarrow> pyfloat \<Rightarrow> pyfloat" where
  "pnl_at sd sz mark entry =
    (if sd = LONG then sz * (mark - entry) else sz * (entry - mark))"

definition check_liquidation ::
  "position_like \<Rightarrow> pyfloat \<Rightarrow> pyfloat \<Rightarrow> pyfloat \<Rightarrow> bool res" where
  "check_liquidation p eqty mark_price maintenance_margin_pct =
    (let decide = (\<lambda>sd entry sz.
       let unrealized_pnl = pnl_at sd sz mark_price entry;
           notional = sz * mark_price;
           maint_margin_req = notional * maintenance_margin_pct;
           effective_equity = eqty + unrealized_pnl
       in effective_equity < maint_margin_req)
     in case p of
       PosDict d \<Rightarrow> rbind (pd_key ''side'' (pd_side d)) (\<lambda>sd.
         rbind (pd_key ''position_size'' (pd_position_size d)) (\<lambda>sz.
           ok (decide sd (pd_entry d mark_price) sz)))
     | PosObj q \<Rightarrow> ok (decide (ps_side q) (ps_entry_price q) (ps_position_size q)))"

text \<open>Asset, side, entry price and sz of one element of the cross-margin loop.\<close>

definition portfolio_fields :: "position_like \<Rightarrow> (string \<times> side \<times> pyfloat \<times> pyfloat) res" where
  "portfolio_fields p = (case p of
     PosDict d \<Rightarrow> rbind (pd_key ''asset'' (pd_asset d)) (\<lambda>a.
       rbind (pd_key ''side'' (pd_side d)) (\<lambda>sd.
         rbind (pd_key ''position_size'' (pd_position_size d)) (\<lambda>sz.
           ok (a, sd, pd_entry d 0, sz))))
   | PosObj q \<Rightarrow> ok (ps_asset q, ps_side q, ps_entry_price q, ps_position_size q))"

fun portfolio_totals ::
  "pyfloat \<Rightarrow> (string \<rightharpoonup> pyfloat) \<Rightarrow> pyfloat \<Rightarrow> pyfloat \<Rightarrow> position_like list \<Rightarrow> (pyfloat \<times> pyfloat) res" where
  "portfolio_totals mmr marks pnl mm [] = ok (pnl, mm)"
| "portfolio_totals mmr marks pnl mm (p # ps) =
    rbind (portfolio_fields p) (\<lambda>(a, sd, entry, sz).
      let mark = (case marks a of None \<Rightarrow> entry | Some m \<Rightarrow> m);
          notional = sz * mark
      in portfolio_totals mmr marks (pnl + pnl_at sd sz mark entry) (mm + notional * mmr) ps)"

definition check_portfolio_liquidation ::
  "position_like list \<Rightarrow> pyfloat \<Rightarrow> (string \<rightharpoonup> pyfloat) \<Rightarrow> pyfloat \<Rightarrow> pyfloat \<Rightarrow>
   (bool \<times> pyfloat \<times> pyfloat) res" where
  "check_portfolio_liquidation positions eqty mark_prices default_mmr liquidation_buffer_pct =
    rbind (portfolio_totals default_mmr mark_prices 0 0 positions) (\<lambda>(total_unrealized_pnl, mm_total).
      let effective_equity = eqty + total_unrealized_pnl;
          buffer_amount = mm_total * (1 + liquidation_buffer_pct);
          is_warning = effective_equity < buffer_amount
      in ok (is_warning, effective_equity, mm_total))"

section \<open>Marked equity (risk/equity.py)\<close>

fun unrealized_from :: "(string \<rightharpoonup> pyfloat) \<Rightarrow> pyfloat \<Rightarrow> position list \<Rightarrow> pyfloat" where
  "unrealized_from marks acc [] = acc"
| "unrealized_from marks acc (p # ps) =
    (let entry = ps_entry_price p;
         mark = (case marks (ps_asset p) of None \<Rightarrow> entry | Some m \<Rightarrow> m)
     in unrealized_from marks (acc + pnl_at (ps_side p) (ps_position_size p) mark entry) ps)"

definition unrealized_pnl :: "position list \<Rightarrow> (string \<rightharpoonup> pyfloat) \<Rightarrow> pyfloat" where
  "unrealized_pnl positions mark_prices = unrealized_from mark_prices 0 positions"

definition marked_equity :: "account_state \<Rightarrow> (string \<rightharpoonup> pyfloat) \<Rightarrow> pyfloat" where
  "marked_equity account mark_prices =
     equity account + unrealized_pnl (open_positions account) mark_prices"

section \<open>Lemmas\<close>

lemma add_0_float: "is_float x \<Longrightarrow> 0 + x = x"
  by (cases x) (auto simp: zero_Fin is_float_def fl_fixed)

lemma mult_1_float: "is_float x \<Longrightarrow> x * 1 = x"
  by (cases x) (auto simp: one_Fin is_float_def fl_fixed)

lemma is_float_pnl_at [simp]: "is_float (pnl_at sd sz mark entry)"
  by (simp add: pnl_at_def)

lemma portfolio_totals_unrealized:
  "\<exists>mm'. portfolio_totals mmr marks pnl mm (map PosObj ps) = ok (unrealized_from marks pnl ps, mm')"
  by (induction ps arbitrary: pnl mm) (auto simp: portfolio_fields_def Let_def)

lemma fdiv_pos_sign:
  assumes "0 < d" "is_finite x"
  shows "\<exists>r. fdiv x d = ok r \<and> (x \<le> 0 \<longrightarrow> r \<le> 0) \<and> (0 \<le> x \<longrightarrow> 0 \<le> r)"
proof -
  obtain a where x: "x = Fin a" using assms(2) by (cases x) (auto simp: is_finite_def)
  show ?thesis
  proof (cases d)
    case (Fin b)
    then have b: "0 < b" using assms(1) by (simp add: zero_Fin)
    have "a \<le> 0 \<Longrightarrow> fl (a / b) \<le> 0" "0 \<le> a \<Longrightarrow> 0 \<le> fl (a / b)"
      using b fl_mono [of "a / b" 0] fl_mono [of 0 "a / b"] by (auto simp: divide_nonpos_pos)
    then show ?thesis using b by (auto simp: x Fin zero_Fin)
  qed (use assms(1) in \<open>auto simp: x zero_Fin is_finite_def\<close>)
qed

section \<open>Properties\<close>

text \<open>a portfolio of one position with no liquidation buffer warns exactly when
  \<open>check_liquidation\<close> says the position is liquidated at the same mark: the cross-margin loop
  and the isolated check are the same computation, to the last bit.\<close>

theorem portfolio_liquidation_single:
  "check_portfolio_liquidation [PosObj q] e [ps_asset q \<mapsto> mark] mmr 0 =
   rbind (check_liquidation (PosObj q) e mark mmr) (\<lambda>b.
     ok (b, e + pnl_at (ps_side q) (ps_position_size q) mark (ps_entry_price q),
         ps_position_size q * mark * mmr))"
  by (simp add: check_portfolio_liquidation_def check_liquidation_def portfolio_fields_def Let_def
      add_0_float mult_1_float add_commute_pyfloat [of 1 0])

text \<open>the liquidation check over \<open>Position\<close> objects values the book exactly as
  \<open>risk/equity.py\<close> does: its effective equity is the marked equity of the account.\<close>

theorem liquidation_uses_marked_equity:
  "\<exists>warn mm. check_portfolio_liquidation (map PosObj (open_positions acc)) (equity acc) marks mmr buf =
     ok (warn, marked_equity acc marks, mm) \<and> (warn \<longleftrightarrow> marked_equity acc marks < mm * (1 + buf))"
proof -
  obtain mm where "portfolio_totals mmr marks 0 0 (map PosObj (open_positions acc)) =
      ok (unrealized_pnl (open_positions acc) marks, mm)"
    using portfolio_totals_unrealized [of mmr marks 0 0 "open_positions acc"]
    by (auto simp: unrealized_pnl_def)
  then show ?thesis
    by (auto simp: check_portfolio_liquidation_def marked_equity_def Let_def)
qed

text \<open>\<open>daily_pnl_pct\<close> never raises, and its sign is the sign of the day's result: with a
  positive denominator and a finite difference, a day below its start is never reported as a
  gain and a day above never as a loss; a non-positive denominator reports 0.\<close>

theorem daily_pnl_sign:
  "\<exists>r. daily_pnl_pct acc = ok r \<and>
    (if day_start_equity acc \<le> 0 then r = 0
     else is_finite (equity acc - day_start_equity acc) \<and> 0 < day_start_equity acc \<longrightarrow>
       (equity acc - day_start_equity acc \<le> 0 \<longrightarrow> r \<le> 0) \<and>
       (0 \<le> equity acc - day_start_equity acc \<longrightarrow> 0 \<le> r))"
proof (cases "day_start_equity acc \<le> 0")
  case True
  then show ?thesis by (simp add: daily_pnl_pct_def)
next
  case False
  let ?d = "day_start_equity acc" and ?x = "equity acc - day_start_equity acc"
  have "\<exists>r. fdiv ?x ?d = ok r"
    using False by (cases ?d) (auto simp: zero_Fin)
  then obtain r where r: "fdiv ?x ?d = ok r" by blast
  then show ?thesis
    using False fdiv_pos_sign [of ?d ?x] by (auto simp: daily_pnl_pct_def)
qed

theorem daily_pnl_sign_witness:
  "\<exists>r. daily_pnl_pct \<lparr>equity = Fin 90, peak_equity = Fin 100, open_positions = [],
      acc_daily_pnl_pct = 0, weekly_pnl_pct = 0, consecutive_losses = [], last_loss_at = [],
      kill_switch = False, high_volatility = False, minutes_to_next_major_event = None,
      correlations = Map.empty, day_start_settled_equity = Some (Fin 100)\<rparr> = ok r \<and> r \<le> 0"
proof -
  let ?a = "\<lparr>equity = Fin 90, peak_equity = Fin 100, open_positions = [],
      acc_daily_pnl_pct = 0, weekly_pnl_pct = 0, consecutive_losses = [], last_loss_at = [],
      kill_switch = False, high_volatility = False, minutes_to_next_major_event = None,
      correlations = Map.empty, day_start_settled_equity = Some (Fin 100)\<rparr>"
  have d: "day_start_equity ?a = Fin 100" by (simp add: day_start_equity_def)
  have x: "equity ?a - day_start_equity ?a = Fin (- 10)"
    by (simp add: day_start_equity_def minus_pyfloat_def fl_eval float_eval)
  show ?thesis
    using daily_pnl_sign [of ?a] unfolding x unfolding d
    by (auto simp: zero_Fin is_finite_def)
qed

end
