(* ===== verification/CircuitBreaker.thy ===== *)
theory CircuitBreaker
  imports RiskModels
begin

text \<open>
  \<open>risk/portfolio_circuit_breaker.py\<close>: the tiered drawdown breaker.  The object's thresholds
  and current tier are the record \<open>breaker\<close>; evaluating a drawdown returns the tier, the
  exits to dispatch and the breaker with its new tier.
\<close>

section \<open>Tiers\<close>

datatype circuit_breaker_tier = TierNORMAL | TierWARNING | TierENTRY_BLOCK | TierFLATTEN

fun tier_rank :: "circuit_breaker_tier \<Rightarrow> nat" where
  "tier_rank TierNORMAL = 0"
| "tier_rank TierWARNING = 1"
| "tier_rank TierENTRY_BLOCK = 2"
| "tier_rank TierFLATTEN = 3"

instantiation circuit_breaker_tier :: linorder
begin

definition less_eq_circuit_breaker_tier :: "circuit_breaker_tier \<Rightarrow> circuit_breaker_tier \<Rightarrow> bool" where
  "less_eq_circuit_breaker_tier a b \<longleftrightarrow> tier_rank a \<le> tier_rank b"

definition less_circuit_breaker_tier :: "circuit_breaker_tier \<Rightarrow> circuit_breaker_tier \<Rightarrow> bool" where
  "less_circuit_breaker_tier a b \<longleftrightarrow> tier_rank a < tier_rank b"

instance
proof
  fix a b :: circuit_breaker_tier
  show "a \<le> b \<Longrightarrow> b \<le> a \<Longrightarrow> a = b"
    by (cases a; cases b) (auto simp: less_eq_circuit_breaker_tier_def)
qed (auto simp: less_eq_circuit_breaker_tier_def less_circuit_breaker_tier_def)

end

section \<open>The breaker\<close>

record breaker =
  warning_threshold_pct :: pyfloat
  entry_block_threshold_pct :: pyfloat
  flatten_threshold_pct :: pyfloat
  flatten_timeout_sec :: pyfloat
  current_tier :: circuit_breaker_tier

definition new_breaker :: breaker where
  "new_breaker = \<lparr>warning_threshold_pct = fl (3/100), entry_block_threshold_pct = fl (5/100),
     flatten_threshold_pct = fl (8/100), flatten_timeout_sec = fl 10, current_tier = TierNORMAL\<rparr>"

definition calculate_unrealized_pnl :: "position list \<Rightarrow> (string \<rightharpoonup> pyfloat) \<Rightarrow> pyfloat" where
  "calculate_unrealized_pnl positions mark_prices =
    foldl (\<lambda>total_pnl pos.
      let mark = (case mark_prices (ps_asset pos) of None \<Rightarrow> ps_entry_price pos | Some m \<Rightarrow> m);
          qty = ps_position_size pos;
          pnl = (if ps_side pos = LONG then qty * (mark - ps_entry_price pos)
                 else qty * (ps_entry_price pos - mark))
      in total_pnl + pnl) 0 positions"

definition flatten_exit :: "position \<Rightarrow> approved_exit res" where
  "flatten_exit pos = new_ApprovedExit \<lparr>ax_asset = ps_asset pos,
     ax_asset_class = ps_asset_class pos, ax_reason = ''portfolio_circuit_breaker_flatten'',
     ax_issuer = ISSUER\<rparr>"

text \<open>A list comprehension whose element expression may raise.\<close>

fun map_res :: "('a \<Rightarrow> 'b res) \<Rightarrow> 'a list \<Rightarrow> 'b list res" where
  "map_res f [] = ok []"
| "map_res f (x # xs) = rbind (f x) (\<lambda>y. rbind (map_res f xs) (\<lambda>ys. ok (y # ys)))"

definition evaluate_portfolio_drawdown ::
  "account_state \<Rightarrow> (string \<rightharpoonup> pyfloat) \<Rightarrow>
   (breaker, circuit_breaker_tier \<times> approved_exit list) act" where
  "evaluate_portfolio_drawdown account_state mark_prices cb =
    (let unrealized = calculate_unrealized_pnl (open_positions account_state) mark_prices;
         current_total_equity = equity account_state + unrealized
     in if peak_equity account_state \<le> 0 then (ok (TierNORMAL, []), cb)
        else case fdiv (peak_equity account_state - current_total_equity) (peak_equity account_state) of
          Inl e \<Rightarrow> (Inl e, cb)
        | Inr drawdown_pct \<Rightarrow>
            if flatten_threshold_pct cb \<le> drawdown_pct then
              (rbind (map_res flatten_exit (open_positions account_state)) (\<lambda>exits.
                 ok (TierFLATTEN, exits)), cb\<lparr>current_tier := TierFLATTEN\<rparr>)
            else if entry_block_threshold_pct cb \<le> drawdown_pct then
              (ok (TierENTRY_BLOCK, []), cb\<lparr>current_tier := TierENTRY_BLOCK\<rparr>)
            else if warning_threshold_pct cb \<le> drawdown_pct then
              (ok (TierWARNING, []), cb\<lparr>current_tier := TierWARNING\<rparr>)
            else (ok (TierNORMAL, []), cb\<lparr>current_tier := TierNORMAL\<rparr>))"

definition is_entry_allowed :: "breaker \<Rightarrow> bool" where
  "is_entry_allowed cb = (current_tier cb \<notin> {TierENTRY_BLOCK, TierFLATTEN})"

section \<open>Lemmas\<close>

lemma calculate_unrealized_pnl_eq: "calculate_unrealized_pnl ps marks = unrealized_pnl ps marks"
proof -
  have "foldl (\<lambda>total_pnl pos.
      let mark = (case marks (ps_asset pos) of None \<Rightarrow> ps_entry_price pos | Some m \<Rightarrow> m);
          qty = ps_position_size pos;
          pnl = (if ps_side pos = LONG then qty * (mark - ps_entry_price pos)
                 else qty * (ps_entry_price pos - mark))
      in total_pnl + pnl) t ps = unrealized_from marks t ps" for t
    by (induction ps arbitrary: t) (simp_all add: Let_def pnl_at_def)
  then show ?thesis by (simp add: calculate_unrealized_pnl_def unrealized_pnl_def)
qed

lemma flatten_exit_ok: "flatten_exit p = ok \<lparr>ax_asset = ps_asset p,
    ax_asset_class = ps_asset_class p, ax_reason = ''portfolio_circuit_breaker_flatten'',
    ax_issuer = ISSUER\<rparr>"
  by (simp add: flatten_exit_def new_ApprovedExit_def)

lemma map_res_ok: "(\<And>x. x \<in> set xs \<Longrightarrow> f x = ok (g x)) \<Longrightarrow> map_res f xs = ok (map g xs)"
  by (induction xs) auto

lemma map_res_total: "(\<And>x. f x = ok (g x)) \<Longrightarrow> map_res f xs = ok (map g xs)"
  by (rule map_res_ok)

text \<open>The tier as a function of the drawdown.\<close>

definition tier_of_drawdown :: "breaker \<Rightarrow> pyfloat \<Rightarrow> circuit_breaker_tier" where
  "tier_of_drawdown cb dd =
    (if flatten_threshold_pct cb \<le> dd then TierFLATTEN
     else if entry_block_threshold_pct cb \<le> dd then TierENTRY_BLOCK
     else if warning_threshold_pct cb \<le> dd then TierWARNING else TierNORMAL)"

lemma evaluate_eq:
  assumes "0 < peak_equity acc"
    and "fdiv (peak_equity acc - marked_equity acc marks) (peak_equity acc) = ok dd"
  shows "evaluate_portfolio_drawdown acc marks cb =
    (ok (tier_of_drawdown cb dd,
         if tier_of_drawdown cb dd = TierFLATTEN
         then map (\<lambda>p. \<lparr>ax_asset = ps_asset p, ax_asset_class = ps_asset_class p,
           ax_reason = ''portfolio_circuit_breaker_flatten'', ax_issuer = ISSUER\<rparr>) (open_positions acc)
         else []), cb\<lparr>current_tier := tier_of_drawdown cb dd\<rparr>)"
  using assms less_not_le_pyfloat [OF assms(1)]
  by (simp add: evaluate_portfolio_drawdown_def Let_def calculate_unrealized_pnl_eq
      marked_equity_def tier_of_drawdown_def map_res_total [OF flatten_exit_ok])

lemma tier_of_drawdown_mono: "dd \<le> dd' \<Longrightarrow> tier_of_drawdown cb dd \<le> tier_of_drawdown cb dd'"
proof -
  assume "dd \<le> dd'"
  then have "x \<le> dd \<Longrightarrow> x \<le> dd'" for x by (rule le_trans_pyfloat [rotated])
  note up = this [of "flatten_threshold_pct cb"] this [of "entry_block_threshold_pct cb"]
    this [of "warning_threshold_pct cb"]
  show ?thesis
    using up by (simp add: tier_of_drawdown_def less_eq_circuit_breaker_tier_def)
qed

section \<open>Properties\<close>

text \<open>C3: with a positive peak the breaker never raises, stores the tier it returns, blocks new
  entries exactly in the two upper tiers, and flattens completely or not at all: in the
  flatten tier there is one exit per open position, in order, each minted with the issuer
  token; in every other tier there is none.\<close>

theorem breaker_flattens_all_or_nothing:
  assumes "0 < peak_equity acc"
  shows "\<exists>tier exits. evaluate_portfolio_drawdown acc marks cb = (ok (tier, exits), cb\<lparr>current_tier := tier\<rparr>) \<and>
    is_entry_allowed (cb\<lparr>current_tier := tier\<rparr>) = (tier < TierENTRY_BLOCK) \<and>
    map ax_asset exits = (if tier = TierFLATTEN then map ps_asset (open_positions acc) else []) \<and>
    set (map ax_issuer exits) \<subseteq> {ISSUER}"
proof -
  obtain dd where "fdiv (peak_equity acc - marked_equity acc marks) (peak_equity acc) = ok dd"
    using fdiv_pos_ok [OF assms] by blast
  from evaluate_eq [OF assms this, of cb] show ?thesis
    by (cases "tier_of_drawdown cb dd")
      (auto simp: is_entry_allowed_def less_circuit_breaker_tier_def o_def)
qed

definition breaker_account :: account_state where
  "breaker_account = \<lparr>equity = Fin 75, peak_equity = Fin 100,
     open_positions = [\<lparr>ps_asset = ''BTC'', ps_asset_class = ''crypto'', ps_side = LONG,
       ps_entry_price = Fin 10, ps_stop_price = Fin 9, ps_risk_pct = Fin (1/64),
       ps_position_size = Fin 2\<rparr>],
     acc_daily_pnl_pct = 0, weekly_pnl_pct = 0, consecutive_losses = [], last_loss_at = [],
     kill_switch = False, high_volatility = False, minutes_to_next_major_event = None,
     correlations = Map.empty, day_start_settled_equity = None\<rparr>"

theorem breaker_flattens_all_or_nothing_witness:
  "\<exists>tier exits. evaluate_portfolio_drawdown breaker_account [''BTC'' \<mapsto> Fin 8] new_breaker =
     (ok (tier, exits), new_breaker\<lparr>current_tier := tier\<rparr>) \<and> map ax_asset exits =
       (if tier = TierFLATTEN then [''BTC''] else [])"
proof -
  have p: "0 < peak_equity breaker_account" by (simp add: breaker_account_def zero_Fin)
  show ?thesis
    using breaker_flattens_all_or_nothing [OF p, of "[''BTC'' \<mapsto> Fin 8]" new_breaker]
    by (auto simp: breaker_account_def)
qed

text \<open>more loss never gives a milder response: for a finite positive peak, if the
  marked equity of the second situation is not above that of the first then its tier is at
  least as severe, in floating-point arithmetic and for any thresholds.\<close>

theorem breaker_monotone:
  assumes "0 < peak_equity acc" "peak_equity acc' = peak_equity acc"
    and "marked_equity acc' marks' \<le> marked_equity acc marks"
    and "is_finite (peak_equity acc)"
  shows "\<exists>t e t' e'. fst (evaluate_portfolio_drawdown acc marks cb) = ok (t, e) \<and>
    fst (evaluate_portfolio_drawdown acc' marks' cb) = ok (t', e') \<and> t \<le> t'"
proof -
  let ?p = "peak_equity acc"
  let ?x = "?p - marked_equity acc marks" and ?y = "?p - marked_equity acc' marks'"
  obtain p where p: "?p = Fin p" "0 < p"
    using assms(1,4) by (cases ?p) (auto simp: is_finite_def zero_Fin)
  obtain r s where r: "fdiv ?x ?p = ok r" and s: "fdiv ?y ?p = ok s"
    using fdiv_pos_ok [OF assms(1)] by blast
  have nn: "?x \<noteq> NaN" "?y \<noteq> NaN"
    using assms(3) by (cases "marked_equity acc marks"; cases "marked_equity acc' marks'";
      auto simp: p minus_pyfloat_def)+
  then have rs: "r \<noteq> NaN" "s \<noteq> NaN"
    using r s p by (cases ?x; cases ?y; auto split: if_splits)+
  have "?x \<le> ?y" using assms(3) nn by (intro diff_antimono_pyfloat)
  then have "r \<le> s" using fdiv_mono assms(1) r s rs by blast
  then have "tier_of_drawdown cb r \<le> tier_of_drawdown cb s"
    by (rule tier_of_drawdown_mono)
  moreover have "0 < peak_equity acc'" "fdiv (peak_equity acc' - marked_equity acc' marks') (peak_equity acc') = ok s"
    using assms(1,2) s by simp_all
  ultimately show ?thesis
    using evaluate_eq [OF assms(1) r, of cb] evaluate_eq [of acc' marks' s cb] by simp
qed

theorem breaker_monotone_witness:
  "\<exists>t e t' e'. fst (evaluate_portfolio_drawdown breaker_account [''BTC'' \<mapsto> Fin 9] new_breaker) = ok (t, e) \<and>
    fst (evaluate_portfolio_drawdown breaker_account [''BTC'' \<mapsto> Fin 8] new_breaker) = ok (t', e') \<and> t \<le> t'"
proof (rule breaker_monotone)
  show "marked_equity breaker_account [''BTC'' \<mapsto> Fin 8] \<le> marked_equity breaker_account [''BTC'' \<mapsto> Fin 9]"
    by (simp add: marked_equity_def unrealized_pnl_def breaker_account_def pnl_at_def Let_def
        minus_pyfloat_def zero_Fin fl_eval float_eval)
qed (simp_all add: breaker_account_def zero_Fin is_finite_def)

end
