(* ===== verification/Staleness.thy ===== *)
theory Staleness
  imports PyFloat
begin

text \<open>
  \<open>data/staleness.py\<close>: the sentinel that decides whether a symbol's market data is fresh.
  Per symbol it keeps a high-water mark of event time; a replayed tick below the mark must
  not clear a tripped breaker.  The wall clock (\<open>time.time()\<close>) is an argument, used where
  the caller passes no time.
\<close>

section \<open>State\<close>

record symbol_stats =
  st_symbol :: string
  last_event_hwm_ms :: pyfloat
  last_received_at_ms :: pyfloat
  latencies_ms :: "pyfloat list"
  circuit_tripped :: bool
  tick_count :: int

definition new_symbol_stats :: "string \<Rightarrow> symbol_stats" where
  "new_symbol_stats symbol = \<lparr>st_symbol = symbol, last_event_hwm_ms = 0, last_received_at_ms = 0,
     latencies_ms = [], circuit_tripped = False, tick_count = 0\<rparr>"

definition max_latency_ms :: "symbol_stats \<Rightarrow> pyfloat" where
  "max_latency_ms s = (case latencies_ms s of [] \<Rightarrow> 0 | x # xs \<Rightarrow> foldl pymax x xs)"

definition avg_latency_ms :: "symbol_stats \<Rightarrow> pyfloat res" where
  "avg_latency_ms s = (if latencies_ms s = [] then ok 0
     else fdiv (fsum (latencies_ms s)) (float_of_int (int (length (latencies_ms s)))))"

record sentinel =
  default_max_staleness_ms :: pyfloat
  max_latency_history :: int
  stats :: "(string, symbol_stats) dict"

definition new_sentinel :: "pyfloat \<Rightarrow> int \<Rightarrow> sentinel" where
  "new_sentinel staleness history =
     \<lparr>default_max_staleness_ms = staleness, max_latency_history = history, stats = []\<rparr>"

section \<open>Operations\<close>

text \<open>\<open>now_ms\<close>: the caller's time, else \<open>time.time() * 1000.0\<close>.\<close>

definition now_or_clock :: "pyfloat option \<Rightarrow> pyfloat \<Rightarrow> pyfloat" where
  "now_or_clock given clock = (case given of Some t \<Rightarrow> t | None \<Rightarrow> clock * fl 1000)"

text \<open>Append a latency; drop the oldest when the buffer is over its bound.\<close>

definition push_latency :: "int \<Rightarrow> pyfloat \<Rightarrow> pyfloat list \<Rightarrow> pyfloat list" where
  "push_latency bound l ls = (let ls' = ls @ [l] in if bound < int (length ls') then tl ls' else ls')"

definition tick_stat :: "int \<Rightarrow> pyfloat \<Rightarrow> pyfloat \<Rightarrow> symbol_stats \<Rightarrow> symbol_stats" where
  "tick_stat bound timestamp_ms now_ms stat =
    (let stat1 = stat\<lparr>tick_count := tick_count stat + 1\<rparr>;
         latency = pymax 0 (now_ms - timestamp_ms);
         stat2 = stat1\<lparr>latencies_ms := push_latency bound latency (latencies_ms stat1)\<rparr>
     in if last_event_hwm_ms stat2 < timestamp_ms
        then stat2\<lparr>last_event_hwm_ms := timestamp_ms, last_received_at_ms := now_ms,
               circuit_tripped := False\<rparr>
        else stat2)"

definition stat_or_new :: "sentinel \<Rightarrow> string \<Rightarrow> symbol_stats" where
  "stat_or_new s symbol = (case dget (stats s) symbol of
     None \<Rightarrow> new_symbol_stats symbol | Some st \<Rightarrow> st)"

definition record_tick ::
  "string \<Rightarrow> pyfloat \<Rightarrow> pyfloat option \<Rightarrow> pyfloat \<Rightarrow> sentinel \<Rightarrow> sentinel" where
  "record_tick symbol timestamp_ms received_at_ms clock s =
    (let now_ms = now_or_clock received_at_ms clock;
         stat = stat_or_new s symbol
     in s\<lparr>stats := dset symbol (tick_stat (max_latency_history s) timestamp_ms now_ms stat) (stats s)\<rparr>)"

definition time_since_last_tick_ms ::
  "string \<Rightarrow> pyfloat option \<Rightarrow> pyfloat \<Rightarrow> sentinel \<Rightarrow> pyfloat" where
  "time_since_last_tick_ms symbol current_time_ms clock s = (case dget (stats s) symbol of
     None \<Rightarrow> PInf
   | Some stat \<Rightarrow>
       if feq (last_received_at_ms stat) 0 then PInf
       else pymax 0 (now_or_clock current_time_ms clock - last_received_at_ms stat))"

definition is_stale ::
  "string \<Rightarrow> pyfloat option \<Rightarrow> pyfloat option \<Rightarrow> pyfloat \<Rightarrow> sentinel \<Rightarrow> bool \<times> sentinel" where
  "is_stale symbol max_allowed_staleness_ms current_time_ms clock s =
    (let threshold = (case max_allowed_staleness_ms of
           Some t \<Rightarrow> t | None \<Rightarrow> default_max_staleness_ms s)
     in case dget (stats s) symbol of
       None \<Rightarrow> (True, s)
     | Some stat \<Rightarrow>
         if circuit_tripped stat then (True, s)
         else if threshold < time_since_last_tick_ms symbol current_time_ms clock s
           then (True, s\<lparr>stats := dset symbol (stat\<lparr>circuit_tripped := True\<rparr>) (stats s)\<rparr>)
         else (False, s))"

definition trip_circuit_breaker :: "string \<Rightarrow> sentinel \<Rightarrow> sentinel" where
  "trip_circuit_breaker symbol s =
     s\<lparr>stats := dset symbol ((stat_or_new s symbol)\<lparr>circuit_tripped := True\<rparr>) (stats s)\<rparr>"

definition reset_circuit_breaker :: "string \<Rightarrow> sentinel \<Rightarrow> sentinel" where
  "reset_circuit_breaker symbol s = (case dget (stats s) symbol of
     None \<Rightarrow> s
   | Some stat \<Rightarrow> s\<lparr>stats := dset symbol (stat\<lparr>circuit_tripped := False\<rparr>) (stats s)\<rparr>)"

definition get_latency_stats :: "string \<Rightarrow> sentinel \<Rightarrow> symbol_stats option" where
  "get_latency_stats symbol s = dget (stats s) symbol"

section \<open>Runs of operations\<close>

datatype sentinel_op =
    Tick string pyfloat "pyfloat option" pyfloat
  | Query string "pyfloat option" "pyfloat option" pyfloat
  | Trip string
  | Reset string

fun sentinel_step :: "sentinel_op \<Rightarrow> sentinel \<Rightarrow> sentinel" where
  "sentinel_step (Tick sy ts rcv clk) s = record_tick sy ts rcv clk s"
| "sentinel_step (Query sy mx now clk) s = snd (is_stale sy mx now clk s)"
| "sentinel_step (Trip sy) s = trip_circuit_breaker sy s"
| "sentinel_step (Reset sy) s = reset_circuit_breaker sy s"

definition sentinel_run :: "sentinel_op list \<Rightarrow> sentinel \<Rightarrow> sentinel" where
  "sentinel_run ops s = foldl (\<lambda>s p. sentinel_step p s) s ops"

definition hwm :: "sentinel \<Rightarrow> string \<Rightarrow> pyfloat" where
  "hwm s sy = last_event_hwm_ms (stat_or_new s sy)"

definition tripped :: "sentinel \<Rightarrow> string \<Rightarrow> bool" where
  "tripped s sy = circuit_tripped (stat_or_new s sy)"

lemmas sentinel_defs = record_tick_def trip_circuit_breaker_def reset_circuit_breaker_def
  is_stale_def stat_or_new_def tick_stat_def Let_def

lemma stat_or_new_cases:
  "dget (stats s) sy = Some st \<Longrightarrow> stat_or_new s sy = st"
  "dget (stats s) sy = None \<Longrightarrow> stat_or_new s sy = new_symbol_stats sy"
  by (simp_all add: stat_or_new_def)

lemma stat_after_step:
  "stat_or_new (sentinel_step p s) sy =
    (case p of
       Tick sy' ts rcv clk \<Rightarrow> if sy' = sy
         then tick_stat (max_latency_history s) ts (now_or_clock rcv clk) (stat_or_new s sy)
         else stat_or_new s sy
     | Query sy' mx now clk \<Rightarrow> if sy' = sy \<and> fst (is_stale sy mx now clk s) \<and> dget (stats s) sy \<noteq> None
         then (stat_or_new s sy)\<lparr>circuit_tripped := True\<rparr> else stat_or_new s sy
     | Trip sy' \<Rightarrow> if sy' = sy then (stat_or_new s sy)\<lparr>circuit_tripped := True\<rparr> else stat_or_new s sy
     | Reset sy' \<Rightarrow> if sy' = sy then (stat_or_new s sy)\<lparr>circuit_tripped := False\<rparr>
         else stat_or_new s sy)"
  by (cases p)
    (auto simp: record_tick_def trip_circuit_breaker_def reset_circuit_breaker_def is_stale_def
      stat_or_new_def Let_def dict_simps new_symbol_stats_def split: option.splits)

lemma max_history_step [simp]: "max_latency_history (sentinel_step p s) = max_latency_history s"
  by (cases p) (auto simp: sentinel_defs split: option.splits)

lemma tick_stat_fields:
  "last_event_hwm_ms (tick_stat b ts now st) =
     (if last_event_hwm_ms st < ts then ts else last_event_hwm_ms st)"
  "circuit_tripped (tick_stat b ts now st) = (circuit_tripped st \<and> \<not> last_event_hwm_ms st < ts)"
  "latencies_ms (tick_stat b ts now st) = push_latency b (pymax 0 (now - ts)) (latencies_ms st)"
  by (simp_all add: tick_stat_def Let_def)

lemma hwm_step:
  "hwm (sentinel_step p s) sy =
    (case p of Tick sy' ts rcv clk \<Rightarrow> if sy' = sy \<and> hwm s sy < ts then ts else hwm s sy
     | _ \<Rightarrow> hwm s sy)"
  unfolding hwm_def stat_after_step by (auto simp: tick_stat_fields split: sentinel_op.split)

lemma tripped_step:
  "tripped s sy \<Longrightarrow> \<not> tripped (sentinel_step p s) sy \<Longrightarrow>
     p = Reset sy \<or> (\<exists>ts rcv clk. p = Tick sy ts rcv clk \<and> hwm s sy < ts)"
  unfolding tripped_def hwm_def stat_after_step
  by (auto simp: tick_stat_fields split: sentinel_op.splits if_splits)

lemma hwm_not_nan_step: "hwm s sy \<noteq> NaN \<Longrightarrow> hwm (sentinel_step p s) sy \<noteq> NaN"
  unfolding hwm_step by (auto split: sentinel_op.split)

lemma hwm_mono_step: "hwm s sy \<noteq> NaN \<Longrightarrow> hwm s sy \<le> hwm (sentinel_step p s) sy"
  unfolding hwm_step by (auto simp: less_le_pyfloat le_refl_pyfloat split: sentinel_op.split)

lemma sentinel_run_simps [simp]:
  "sentinel_run [] s = s"
  "sentinel_run (p # ps) s = sentinel_run ps (sentinel_step p s)"
  by (simp_all add: sentinel_run_def)

lemma hwm_mono_run: "hwm s sy \<noteq> NaN \<Longrightarrow> hwm s sy \<le> hwm (sentinel_run ops s) sy"
proof (induction ops arbitrary: s)
  case Nil
  then show ?case by (simp add: le_refl_pyfloat)
next
  case (Cons p ops)
  then show ?case
    using hwm_mono_step [of s sy p] hwm_not_nan_step [of s sy p] le_trans_pyfloat by auto
qed

lemma push_latency_bound:
  "int (length ls) \<le> b \<Longrightarrow> int (length (push_latency b l ls)) \<le> b"
  by (auto simp: push_latency_def Let_def)

text \<open>Every latency buffer is within the configured bound.\<close>

definition sentinel_inv :: "sentinel \<Rightarrow> bool" where
  "sentinel_inv s \<longleftrightarrow> 0 \<le> max_latency_history s \<and>
     (\<forall>sy st. dget (stats s) sy = Some st \<longrightarrow>
        int (length (latencies_ms st)) \<le> max_latency_history s \<and> last_event_hwm_ms st \<noteq> NaN)"

lemma sentinel_inv_new: "0 \<le> b \<Longrightarrow> sentinel_inv (new_sentinel m b)"
  by (simp add: sentinel_inv_def new_sentinel_def)

lemma sentinel_inv_stat:
  "sentinel_inv s \<Longrightarrow> int (length (latencies_ms (stat_or_new s sy))) \<le> max_latency_history s \<and>
     last_event_hwm_ms (stat_or_new s sy) \<noteq> NaN"
  by (auto simp: sentinel_inv_def stat_or_new_def new_symbol_stats_def zero_Fin split: option.splits)

lemma sentinel_inv_dset:
  "sentinel_inv s \<Longrightarrow> int (length (latencies_ms st)) \<le> max_latency_history s \<Longrightarrow>
    last_event_hwm_ms st \<noteq> NaN \<Longrightarrow> sentinel_inv (s\<lparr>stats := dset sy st (stats s)\<rparr>)"
  by (auto simp: sentinel_inv_def dict_simps)

lemma sentinel_inv_step: "sentinel_inv s \<Longrightarrow> sentinel_inv (sentinel_step p s)"
proof (cases p)
  case (Tick sy ts rcv clk)
  assume inv: "sentinel_inv s"
  show ?thesis
    using sentinel_inv_stat [OF inv, of sy] inv
    by (auto simp: Tick record_tick_def Let_def tick_stat_fields push_latency_bound
        intro!: sentinel_inv_dset dest: less_not_nan split: if_splits)
next
  case (Query sy mx now clk)
  assume inv: "sentinel_inv s"
  show ?thesis
    using sentinel_inv_stat [OF inv, of sy] inv
    by (auto simp: Query is_stale_def Let_def stat_or_new_def split: option.splits
        intro!: sentinel_inv_dset)
next
  case (Trip sy)
  assume inv: "sentinel_inv s"
  show ?thesis
    using sentinel_inv_stat [OF inv, of sy] inv
    by (auto simp: Trip trip_circuit_breaker_def intro!: sentinel_inv_dset)
next
  case (Reset sy)
  assume inv: "sentinel_inv s"
  show ?thesis
    using sentinel_inv_stat [OF inv, of sy] inv
    by (auto simp: Reset reset_circuit_breaker_def stat_or_new_def split: option.splits
        intro!: sentinel_inv_dset)
qed

lemma sentinel_inv_run: "sentinel_inv s \<Longrightarrow> sentinel_inv (sentinel_run ops s)"
  by (induction ops arbitrary: s) (simp_all add: sentinel_inv_step)

lemma hwm_new: "hwm (new_sentinel m b) sy = 0"
  by (simp add: hwm_def new_sentinel_def stat_or_new_def new_symbol_stats_def)

text \<open>A run that clears a tripped breaker contains the operation that cleared it.\<close>

lemma untrip_cause:
  assumes "tripped s sy" "\<not> tripped (sentinel_run ops s) sy"
  shows "\<exists>pre p post. ops = pre @ p # post \<and>
    (p = Reset sy \<or> (\<exists>ts rcv clk. p = Tick sy ts rcv clk \<and> hwm (sentinel_run pre s) sy < ts))"
  using assms
proof (induction ops arbitrary: s)
  case Nil
  then show ?case by simp
next
  case (Cons p ops)
  show ?case
  proof (cases "tripped (sentinel_step p s) sy")
    case True
    with Cons obtain pre q post where "ops = pre @ q # post"
      "q = Reset sy \<or> (\<exists>ts rcv clk. q = Tick sy ts rcv clk \<and>
         hwm (sentinel_run pre (sentinel_step p s)) sy < ts)"
      by (metis sentinel_run_simps(2))
    then show ?thesis by (intro exI [of _ "p # pre"] exI [of _ q] exI [of _ post]) simp
  next
    case False
    with Cons.prems(1) have "p = Reset sy \<or> (\<exists>ts rcv clk. p = Tick sy ts rcv clk \<and> hwm s sy < ts)"
      by (rule tripped_step)
    then show ?thesis by (intro exI [of _ "[]"] exI [of _ p] exI [of _ ops]) simp
  qed
qed

section \<open>Properties\<close>

text \<open>replayed data never clears a tripped breaker.  In any run of sentinel operations from a
  state whose high-water mark is a number, if the breaker of a symbol is tripped before and
  not after, then the run resets it by hand or records a tick of that symbol newer than every
  tick accepted so far, the mark of the starting state included.\<close>

theorem replay_never_clears_breaker:
  assumes "tripped s sy" "\<not> tripped (sentinel_run ops s) sy" "hwm s sy \<noteq> NaN"
  shows "\<exists>p\<in>set ops. p = Reset sy \<or> (\<exists>ts rcv clk. p = Tick sy ts rcv clk \<and> hwm s sy < ts)"
proof -
  obtain pre p post where o: "ops = pre @ p # post"
    and p: "p = Reset sy \<or> (\<exists>ts rcv clk. p = Tick sy ts rcv clk \<and> hwm (sentinel_run pre s) sy < ts)"
    using untrip_cause [OF assms(1,2)] by blast
  have "hwm s sy \<le> hwm (sentinel_run pre s) sy" using assms(3) by (rule hwm_mono_run)
  then show ?thesis using o p le_less_trans_pyfloat by fastforce
qed

theorem replay_never_clears_breaker_witness:
  "\<exists>p\<in>set [Tick ''BTC'' (fl 4) (Some (fl 9)) 0, Tick ''BTC'' (fl 6) (Some (fl 9)) 0].
     p = Reset ''BTC'' \<or> (\<exists>ts rcv clk. p = Tick ''BTC'' ts rcv clk \<and> Fin 5 < ts)"
proof -
  let ?s = "trip_circuit_breaker ''BTC'' (record_tick ''BTC'' (Fin 5) (Some (Fin 5)) 0 (new_sentinel (Fin 3000) 100))"
  let ?ops = "[Tick ''BTC'' (fl 4) (Some (fl 9)) 0, Tick ''BTC'' (fl 6) (Some (fl 9)) 0]"
  have h: "hwm ?s ''BTC'' = Fin 5" and t: "tripped ?s ''BTC''"
    by (simp_all add: hwm_def tripped_def sentinel_defs new_sentinel_def new_symbol_stats_def zero_Fin)
  have n: "\<not> tripped (sentinel_run ?ops ?s) ''BTC''"
    by (simp add: tripped_def sentinel_defs new_sentinel_def new_symbol_stats_def
        zero_Fin fl_eval float_eval)
  show ?thesis using replay_never_clears_breaker [OF t n] h by simp
qed

text \<open>in every state reachable from a new sentinel the high-water mark is a number that never
  falls, and no symbol keeps more latencies than the configured history.\<close>

theorem sentinel_reachable_invariant:
  assumes "0 \<le> history"
  shows "sentinel_inv (sentinel_run ops (new_sentinel m history)) \<and>
    hwm (sentinel_run ops (new_sentinel m history)) sy
      \<le> hwm (sentinel_run later (sentinel_run ops (new_sentinel m history))) sy \<and>
    0 \<le> hwm (sentinel_run ops (new_sentinel m history)) sy"
proof -
  have inv: "sentinel_inv (sentinel_run ops (new_sentinel m history))"
    using assms by (intro sentinel_inv_run sentinel_inv_new)
  then have "hwm (sentinel_run ops (new_sentinel m history)) sy \<noteq> NaN"
    using sentinel_inv_stat by (auto simp: hwm_def)
  moreover have "hwm (new_sentinel m history) sy \<le> hwm (sentinel_run ops (new_sentinel m history)) sy"
    by (rule hwm_mono_run) (simp add: hwm_new zero_Fin)
  ultimately show ?thesis using inv hwm_mono_run by (auto simp: hwm_new)
qed

theorem sentinel_reachable_invariant_witness:
  "sentinel_inv (sentinel_run [Tick ''BTC'' (Fin 5) (Some (Fin 7)) 0] (new_sentinel (Fin 3000) 100)) \<and>
   0 \<le> hwm (sentinel_run [Tick ''BTC'' (Fin 5) (Some (Fin 7)) 0] (new_sentinel (Fin 3000) 100)) ''BTC''"
  using sentinel_reachable_invariant [of 100 "[Tick ''BTC'' (Fin 5) (Some (Fin 7)) 0]" "Fin 3000" "''BTC''" "[]"]
  by simp

text \<open>a fresh verdict is earned: when \<open>is_stale\<close> answers \<open>False\<close> the symbol has been seen, its
  breaker is closed and was not touched, and the time since the last accepted tick does not
  exceed the threshold in force; when it answers \<open>True\<close> for a seen symbol the breaker is
  tripped from then on.\<close>

theorem is_stale_verdict:
  "case is_stale sy mx now clk s of (stale, s') \<Rightarrow>
     (if stale then dget (stats s) sy = None \<and> s' = s \<or> tripped s' sy
      else s' = s \<and> dget (stats s) sy = Some (stat_or_new s sy) \<and> \<not> tripped s sy \<and>
        \<not> (case mx of Some t \<Rightarrow> t | None \<Rightarrow> default_max_staleness_ms s)
            < time_since_last_tick_ms sy now clk s)"
  by (auto simp: is_stale_def Let_def tripped_def stat_or_new_def dict_simps split: option.splits)

end
