(* ===== verification/Money.thy ===== *)
theory Money
  imports PyFloat "HOL-Library.Char_ord"
begin

text \<open>
  \<open>core/money.py\<close> and what it uses of Python's \<open>decimal\<close>: finite decimals are their rational
  value, arithmetic rounds to the 28 significant digits the module pins (ties to even), the
  special values trap as in the default context.  The exponent limits of the context
  (\<open>\<plusminus>999999\<close>) are not modelled.  \<open>shortest_dec\<close> is the value of \<open>str(x)\<close> for a float: the
  shortest decimal that reads back as \<open>x\<close>, and the nearest such.
\<close>

section \<open>Decimal exponents\<close>

fun ndigits :: "nat \<Rightarrow> nat" where
  "ndigits n = (if n < 10 then 1 else Suc (ndigits (n div 10)))"

declare ndigits.simps [simp del]

definition ilog10 :: "rat \<Rightarrow> int" where
  "ilog10 x = (if 1 \<le> x then int (ndigits (nat \<lfloor>x\<rfloor>)) - 1 else - int (ndigits (nat (\<lceil>1 / x\<rceil> - 1))))"

lemma ndigits_bounds: "0 < n \<Longrightarrow> 10 ^ (ndigits n - 1) \<le> n \<and> n < 10 ^ ndigits n \<and> 0 < ndigits n"
proof (induction n rule: ndigits.induct)
  case (1 n)
  show ?case
  proof (cases "n < 10")
    case True
    then show ?thesis using "1.prems" by (simp add: ndigits.simps [of n])
  next
    case False
    then have d: "ndigits n = Suc (ndigits (n div 10))" by (simp add: ndigits.simps [of n])
    have IH: "10 ^ (ndigits (n div 10) - 1) \<le> n div 10" "n div 10 < 10 ^ ndigits (n div 10)"
      "0 < ndigits (n div 10)"
      using "1.IH" [OF False] False by auto
    have "10 ^ ndigits (n div 10) = 10 * (10::nat) ^ (ndigits (n div 10) - 1)"
      using IH(3) by (cases "ndigits (n div 10)") auto
    then have "10 ^ ndigits (n div 10) \<le> 10 * (n div 10)" using IH(1) by simp
    then have "10 ^ ndigits (n div 10) \<le> n" by linarith
    moreover have "n < 10 * 10 ^ ndigits (n div 10)" using IH(2) by linarith
    ultimately show ?thesis by (simp add: d)
  qed
qed

lemma powi10_pos [simp]: "0 < (10::rat) powi k"
  by simp

lemma pow10_le_of_nat: "(10::rat) ^ k \<le> of_nat n \<longleftrightarrow> 10 ^ k \<le> n"
  using of_nat_le_iff [of "10 ^ k" n, where 'a = rat] by simp

lemma of_nat_less_pow10: "n < 10 ^ k \<Longrightarrow> of_nat n + 1 \<le> (10::rat) ^ k"
  using of_nat_le_iff [of "n + 1" "10 ^ k", where 'a = rat] by simp

lemma ilog10_bounds:
  assumes "0 < x"
  shows "10 powi ilog10 x \<le> x" "x < 10 powi (ilog10 x + 1)"
proof -
  have "10 powi ilog10 x \<le> x \<and> x < 10 powi (ilog10 x + 1)"
  proof (cases "1 \<le> x")
    case True
    define n where "n = nat \<lfloor>x\<rfloor>"
    have n: "0 < n" "of_nat n \<le> x" "x < of_nat n + 1"
      using True floor_correct [of x] by (auto simp: n_def zero_less_nat_eq)
    note b = ndigits_bounds [OF n(1)]
    have "(10::rat) ^ (ndigits n - 1) \<le> of_nat n"
      using b by (rule pow10_le_of_nat [THEN iffD2, OF conjunct1])
    then have lo: "10 ^ (ndigits n - 1) \<le> x" using n(2) by (rule order_trans)
    have "of_nat n + 1 \<le> (10::rat) ^ ndigits n"
      using b by (intro of_nat_less_pow10) blast
    then have hi: "x < 10 ^ ndigits n" using n(3) by (rule order_less_le_trans [rotated])
    have e: "ilog10 x = int (ndigits n - 1)" "ilog10 x + 1 = int (ndigits n)"
      using True b by (auto simp: ilog10_def of_nat_diff n_def)
    show ?thesis unfolding e(2) unfolding e(1) using lo hi by (simp only: power_int_of_nat)
  next
    case False
    let ?c = "\<lceil>1 / x\<rceil>"
    let ?n = "nat (?c - 1)"
    have x1: "1 < 1 / x" using assms False by (simp add: field_simps)
    have c: "of_int ?c - 1 < 1 / x" "1 / x \<le> of_int ?c" using ceiling_correct [of "1 / x"] by auto
    have c1: "1 < ?c" using x1 c by linarith
    then have "0 \<le> ?c - 1" by linarith
    then have "of_nat ?n = (of_int (?c - 1) :: rat)" by (rule of_nat_nat)
    then have n: "0 < ?n" "of_nat ?n = (of_int ?c - 1 :: rat)" using c1 by linarith+
    note b = ndigits_bounds [OF n(1)]
    have "of_nat ?n + 1 \<le> (10::rat) ^ ndigits ?n"
      using b by (intro of_nat_less_pow10) blast
    then have "1 / x \<le> 10 ^ ndigits ?n" using c(2) unfolding n(2) by linarith
    then have lo: "1 \<le> x * 10 ^ ndigits ?n" using assms by (simp add: field_simps)
    have "(10::rat) ^ (ndigits ?n - 1) \<le> of_nat ?n"
      using b by (rule pow10_le_of_nat [THEN iffD2, OF conjunct1])
    then have "10 ^ (ndigits ?n - 1) < 1 / x" using c(1) unfolding n(2) by (rule order_le_less_trans)
    then have hi: "x * 10 ^ (ndigits ?n - 1) < 1" using assms by (simp add: field_simps)
    have "ilog10 x = - int (ndigits ?n)" "ilog10 x + 1 = - int (ndigits ?n - 1)"
      using False b by (auto simp: ilog10_def of_nat_diff)
    then have e: "10 powi ilog10 x = 1 / (10::rat) ^ ndigits ?n"
      "10 powi (ilog10 x + 1) = 1 / (10::rat) ^ (ndigits ?n - 1)"
      by (simp_all only: power_int_minus power_int_of_nat inverse_eq_divide)
    show ?thesis using lo hi by (simp add: e pos_divide_le_eq pos_less_divide_eq)
  qed
  then show "10 powi ilog10 x \<le> x" "x < 10 powi (ilog10 x + 1)" by auto
qed

section \<open>Rounding to 28 digits\<close>

definition dec_round :: "rat \<Rightarrow> rat" where
  "dec_round x = (if x = 0 then 0 else
     (let k = ilog10 \<bar>x\<bar> - 27 in of_int (rne (x / 10 powi k)) * 10 powi k))"

lemma dec_round_error:
  assumes "0 < x"
  shows "\<bar>dec_round x - x\<bar> \<le> x / (2 * 10 ^ 27)"
proof -
  let ?k = "ilog10 x - 27"
  have "dec_round x - x = (of_int (rne (x / 10 powi ?k)) - x / 10 powi ?k) * 10 powi ?k"
    using assms by (simp add: dec_round_def Let_def left_diff_distrib)
  then have "\<bar>dec_round x - x\<bar> = \<bar>of_int (rne (x / 10 powi ?k)) - x / 10 powi ?k\<bar> * 10 powi ?k"
    by (simp add: abs_mult)
  also have "\<dots> \<le> 1/2 * 10 powi ?k" by (intro mult_right_mono rne_diff) simp
  also have "\<dots> = 10 powi ilog10 x / (2 * 10 ^ 27)" by (simp add: power_int_diff)
  also have "\<dots> \<le> x / (2 * 10 ^ 27)"
    using ilog10_bounds(1) [OF assms] by (intro divide_right_mono) auto
  finally show ?thesis .
qed

text \<open>Numbers with at most 28 digits are kept as they are.\<close>

lemma dec_round_exact:
  assumes "0 \<le> n" "n < 10 ^ 28"
  shows "dec_round (of_int n / 10 ^ m) = of_int n / 10 ^ m"
proof (cases "n = 0")
  case False
  let ?x = "of_int n / (10::rat) ^ m" and ?k = "ilog10 (of_int n / 10 ^ m) - 27"
  have x: "0 < ?x" using False assms(1) by simp
  have xm: "?x = of_int n * 10 powi (- int m)"
    by (simp only: power_int_minus power_int_of_nat divide_inverse)
  have "of_int n < (10::rat) ^ 28" using assms(2) by (simp flip: of_int_less_iff)
  then have "?x < 10 powi (28 - int m)"
    unfolding xm by (simp add: power_int_diff power_int_minus divide_inverse mult_strict_right_mono)
  then have "(10::rat) powi ilog10 ?x < 10 powi (28 - int m)"
    using ilog10_bounds(1) [OF x] by linarith
  then have "ilog10 ?x < 28 - int m"
    by (meson linorder_not_less one_le_numeral power_int_increasing)
  then have k: "?k \<le> - int m" by simp
  have p: "(10::rat) powi (- int m - ?k) = of_int (10 ^ nat (- int m - ?k))"
    using k by (simp add: power_int_def)
  have "?x / 10 powi ?k = of_int n * (10 powi (- int m) / 10 powi ?k)" unfolding xm by simp
  also have "\<dots> = of_int (n * 10 ^ nat (- int m - ?k))"
    using p by (simp flip: power_int_diff)
  finally have e: "?x / 10 powi ?k = of_int (n * 10 ^ nat (- int m - ?k))" .
  have "of_int (rne (?x / 10 powi ?k)) * 10 powi ?k = (?x / 10 powi ?k) * 10 powi ?k"
    unfolding e by (simp only: rne_int)
  also have "\<dots> = ?x" by simp
  finally have r: "of_int (rne (?x / 10 powi ?k)) * 10 powi ?k = ?x" .
  have "\<bar>?x\<bar> = ?x" "?x \<noteq> 0" using x by (simp_all only: abs_of_pos)
  then show ?thesis unfolding dec_round_def Let_def using r by (simp only: if_False)
qed (simp add: dec_round_def)

section \<open>Decimals\<close>

datatype pydecimal = DFin rat | DInf | DNInf | DNaN

definition dec_is_finite :: "pydecimal \<Rightarrow> bool" where
  "dec_is_finite d = (case d of DFin _ \<Rightarrow> True | _ \<Rightarrow> False)"

text \<open>Ordering comparisons signal on NaN.\<close>

definition dec_less :: "pydecimal \<Rightarrow> pydecimal \<Rightarrow> bool res" where
  "dec_less a b = (case (a, b) of
     (DNaN, _) \<Rightarrow> raise InvalidOperation
   | (_, DNaN) \<Rightarrow> raise InvalidOperation
   | (DFin x, DFin y) \<Rightarrow> ok (x < y)
   | (DInf, _) \<Rightarrow> ok False
   | (DNInf, _) \<Rightarrow> ok (b \<noteq> DNInf)
   | (DFin _, DInf) \<Rightarrow> ok True
   | (DFin _, DNInf) \<Rightarrow> ok False)"

definition dec_neg :: "pydecimal \<Rightarrow> pydecimal" where
  "dec_neg a = (case a of DFin x \<Rightarrow> DFin (- x) | DInf \<Rightarrow> DNInf | DNInf \<Rightarrow> DInf | DNaN \<Rightarrow> DNaN)"

definition dec_sub :: "pydecimal \<Rightarrow> pydecimal \<Rightarrow> pydecimal res" where
  "dec_sub a b = (case (a, b) of
     (DFin x, DFin y) \<Rightarrow> ok (DFin (dec_round (x - y)))
   | (DNaN, _) \<Rightarrow> ok DNaN
   | (_, DNaN) \<Rightarrow> ok DNaN
   | (DInf, DInf) \<Rightarrow> raise InvalidOperation
   | (DNInf, DNInf) \<Rightarrow> raise InvalidOperation
   | (DFin _, _) \<Rightarrow> ok (dec_neg b)
   | (_, _) \<Rightarrow> ok a)"

definition dec_inf_signed :: "bool \<Rightarrow> pydecimal" where
  "dec_inf_signed pos = (if pos then DInf else DNInf)"

definition dec_mult :: "pydecimal \<Rightarrow> pydecimal \<Rightarrow> pydecimal res" where
  "dec_mult a b = (case (a, b) of
     (DFin x, DFin y) \<Rightarrow> ok (DFin (dec_round (x * y)))
   | (DNaN, _) \<Rightarrow> ok DNaN
   | (_, DNaN) \<Rightarrow> ok DNaN
   | (DFin x, _) \<Rightarrow> if x = 0 then raise InvalidOperation
       else ok (dec_inf_signed ((0 < x) = (b = DInf)))
   | (_, DFin y) \<Rightarrow> if y = 0 then raise InvalidOperation
       else ok (dec_inf_signed ((0 < y) = (a = DInf)))
   | (_, _) \<Rightarrow> ok (dec_inf_signed (a = b)))"

text \<open>Division of finite decimals; the divisor of the modelled code is a finite non-zero one.\<close>

definition dec_div_fin :: "rat \<Rightarrow> rat \<Rightarrow> pydecimal res" where
  "dec_div_fin x y = (if y = 0 then (if x = 0 then raise InvalidOperation else raise ZeroDivisionError)
     else ok (DFin (dec_round (x / y))))"

section \<open>str(x) of a float\<close>

definition dec_candidates :: "rat \<Rightarrow> nat \<Rightarrow> rat list" where
  "dec_candidates x n = (let k = ilog10 \<bar>x\<bar> - int n + 1; q = x / 10 powi k
     in [of_int \<lfloor>q\<rfloor> * 10 powi k, of_int \<lceil>q\<rceil> * 10 powi k])"

definition pick_nearest :: "rat \<Rightarrow> rat list \<Rightarrow> rat option" where
  "pick_nearest x ds = (case filter (\<lambda>d. rnd64 d = x) ds of
     [] \<Rightarrow> None
   | [d] \<Rightarrow> Some d
   | d # d' # _ \<Rightarrow> Some (if \<bar>d - x\<bar> \<le> \<bar>d' - x\<bar> then d else d'))"

fun shortest_from :: "rat \<Rightarrow> nat list \<Rightarrow> rat" where
  "shortest_from x [] = x"
| "shortest_from x (n # ns) = (case pick_nearest x (dec_candidates x n) of
     Some d \<Rightarrow> d | None \<Rightarrow> shortest_from x ns)"

definition shortest_dec :: "rat \<Rightarrow> rat" where
  "shortest_dec x = (if x = 0 then 0 else shortest_from x [1..<18])"

definition decimal_from_float :: "pyfloat \<Rightarrow> pydecimal" where
  "decimal_from_float x = (case x of
     Fin a \<Rightarrow> DFin (shortest_dec a) | PInf \<Rightarrow> DInf | NInf \<Rightarrow> DNInf | NaN \<Rightarrow> DNaN)"

text \<open>\<open>float(d)\<close> of a decimal.\<close>

definition float_of_decimal :: "pydecimal \<Rightarrow> pyfloat" where
  "float_of_decimal d = (case d of DFin a \<Rightarrow> fl a | DInf \<Rightarrow> PInf | DNInf \<Rightarrow> NInf | DNaN \<Rightarrow> NaN)"

section \<open>Reading a numeric string\<close>

definition is_digit :: "char \<Rightarrow> bool" where
  "is_digit c \<longleftrightarrow> 48 \<le> (of_char c :: nat) \<and> (of_char c :: nat) \<le> 57"

definition digit_val :: "char \<Rightarrow> int" where
  "digit_val c = int (of_char c) - 48"

definition lower_char :: "char \<Rightarrow> char" where
  "lower_char c = (if 65 \<le> (of_char c :: nat) \<and> (of_char c :: nat) \<le> 90
     then char_of ((of_char c :: nat) + 32) else c)"

definition is_space :: "char \<Rightarrow> bool" where
  "is_space c \<longleftrightarrow> (of_char c :: nat) \<in> {9, 10, 11, 12, 13, 28, 29, 30, 31, 32}"

definition strip :: "string \<Rightarrow> string" where
  "strip s = rev (dropWhile is_space (rev (dropWhile is_space s)))"

definition digits_val :: "string \<Rightarrow> int" where
  "digits_val s = foldl (\<lambda>n c. 10 * n + digit_val c) 0 s"

definition split_sign :: "string \<Rightarrow> int \<times> string" where
  "split_sign s = (case s of [] \<Rightarrow> (1, [])
     | c # cs \<Rightarrow> if c = CHR ''-'' then (-1, cs) else if c = CHR ''+'' then (1, cs) else (1, s))"

text \<open>The exponent part after the digits: empty, or \<open>e\<close>, a sign and digits.\<close>

definition parse_exponent :: "string \<Rightarrow> int option" where
  "parse_exponent s = (case s of [] \<Rightarrow> Some 0
     | c # cs \<Rightarrow> if lower_char c \<noteq> CHR ''e'' then None
         else (case split_sign cs of (sg, ds) \<Rightarrow>
           if ds \<noteq> [] \<and> list_all is_digit ds then Some (sg * digits_val ds) else None))"

definition parse_unsigned :: "string \<Rightarrow> pydecimal option" where
  "parse_unsigned s =
    (let ip = takeWhile is_digit s; r1 = dropWhile is_digit s;
         (fp, r2) = (case r1 of c # cs \<Rightarrow> if c = CHR ''.''
            then (takeWhile is_digit cs, dropWhile is_digit cs) else ([], r1) | [] \<Rightarrow> ([], []))
     in if ip = [] \<and> fp = [] then
          (let l = map lower_char s in
           if l = ''inf'' \<or> l = ''infinity'' then Some DInf
           else if take 3 l = ''nan'' \<and> list_all is_digit (drop 3 l) then Some DNaN
           else if take 4 l = ''snan'' \<and> list_all is_digit (drop 4 l) then Some DNaN
           else None)
        else (case parse_exponent r2 of None \<Rightarrow> None
          | Some ex \<Rightarrow> Some (DFin (of_int (digits_val (ip @ fp)) * 10 powi (ex - int (length fp))))))"

text \<open>\<open>Decimal(s)\<close>: surrounding blanks and underscores are dropped; \<open>None\<close> where it raises.\<close>

definition decimal_of_string :: "string \<Rightarrow> pydecimal option" where
  "decimal_of_string s = (case split_sign (filter (\<lambda>c. c \<noteq> CHR ''_'') (strip s)) of
     (sg, r) \<Rightarrow> map_option (\<lambda>d. if sg = 1 then d else dec_neg d) (parse_unsigned r))"

section \<open>core/money.py\<close>

datatype py_number = NumInt int | NumFloat pyfloat | NumStr string | NumDec pydecimal

definition to_dec :: "py_number \<Rightarrow> pydecimal res" where
  "to_dec x = (case x of
     NumFloat f \<Rightarrow> ok (decimal_from_float f)
   | NumInt n \<Rightarrow> ok (DFin (of_int n))
   | NumDec d \<Rightarrow> ok d
   | NumStr s \<Rightarrow> (case decimal_of_string s of
       None \<Rightarrow> raise (ValueError ''not convertible to Decimal'') | Some d \<Rightarrow> ok d))"

definition quantize_to_step :: "py_number \<Rightarrow> py_number \<Rightarrow> pydecimal res" where
  "quantize_to_step v step_size =
    rbind (to_dec step_size) (\<lambda>step.
      case step of
        DFin st \<Rightarrow>
          if st \<le> 0 then raise (ValueError ''step_size must be > 0'')
          else rbind (to_dec v) (\<lambda>val.
            case val of
              DFin x \<Rightarrow> rbind (dec_div_fin x st) (\<lambda>q. case q of
                  DFin r \<Rightarrow> dec_mult (DFin (of_int (trunc_rat r))) (DFin st)
                | _ \<Rightarrow> raise InvalidOperation)
            | _ \<Rightarrow> raise (ValueError ''value must be finite''))
      | _ \<Rightarrow> raise (ValueError ''step_size must be > 0''))"

definition check_min_notional :: "py_number \<Rightarrow> py_number \<Rightarrow> py_number \<Rightarrow> bool res" where
  "check_min_notional quantity price min_notional =
    rbind (to_dec min_notional) (\<lambda>floor_d.
      rbind (dec_less floor_d (DFin 0)) (\<lambda>neg.
        if neg then raise (ValueError ''min_notional must be >= 0'')
        else rbind (to_dec quantity) (\<lambda>q. rbind (to_dec price) (\<lambda>p.
          rbind (dec_mult q p) (\<lambda>n. map_sum id Not (dec_less n floor_d))))))"

section \<open>Lemmas\<close>

lemma dec_round_0 [simp]: "dec_round 0 = 0"
  by (simp add: dec_round_def)

lemma dec_round_minus: "dec_round (- x) = - dec_round x"
  by (simp add: dec_round_def Let_def rne_minus)

lemma trunc_rat_minus: "trunc_rat (- x) = - trunc_rat x"
  by (cases "x = 0") (auto simp: trunc_rat_def)

lemma dec_round_exact_int:
  assumes "0 \<le> n" "n < 10 ^ 28"
  shows "dec_round (of_int n) = of_int n"
  using dec_round_exact [OF assms, of 0] by simp

text \<open>Rounding a quotient of small integers to 28 digits does not change its integer part.\<close>

lemma trunc_dec_round_div:
  assumes a: "0 \<le> a" "a < 10 ^ 27" and d: "0 < d"
  shows "trunc_rat (dec_round (of_int a / of_int d)) = a div d"
proof (cases "a mod d = 0")
  case True
  then have "a = d * (a div d)" by (metis add.right_neutral mult_div_mod_eq)
  then have "of_int a = of_int d * (of_int (a div d) :: rat)" by (simp only: of_int_mult [symmetric])
  then have q: "of_int a / of_int d = (of_int (a div d) :: rat)" using d by simp
  have "0 \<le> a div d" "a div d \<le> a" using a d zdiv_mono2 [of a 1 d] by (simp_all add: pos_imp_zdiv_nonneg_iff)
  then have "dec_round (of_int (a div d)) = of_int (a div d)"
    using a by (intro dec_round_exact_int) simp_all
  then show ?thesis using \<open>0 \<le> a div d\<close> by (simp add: q trunc_rat_def)
next
  case False
  let ?x = "of_int a / (of_int d :: rat)" and ?n = "a div d"
  have dp: "(0::rat) < of_int d" using d by simp
  have "0 < a" using a False by (cases "a = 0") auto
  then have x: "0 < ?x" using dp by simp
  have "a = d * ?n + a mod d" by simp
  then have eq: "of_int a = of_int d * of_int ?n + (of_int (a mod d) :: rat)"
    by (metis of_int_mult of_int_add)
  have m: "1 \<le> a mod d" "a mod d \<le> d - 1"
    using False d pos_mod_sign [OF d, of a] pos_mod_bound [OF d, of a] by linarith+
  then have mr: "(1::rat) \<le> of_int (a mod d)" "of_int (a mod d) \<le> (of_int d - 1 :: rat)"
    by (metis of_int_1_le_iff, metis of_int_1 of_int_diff of_int_le_iff)
  have "?x = (of_int d * of_int ?n + of_int (a mod d)) / of_int d" by (rule arg_cong [OF eq])
  then have xn: "?x = of_int ?n + of_int (a mod d) / of_int d"
    using dp by (simp add: add_divide_distrib)
  have lo: "of_int ?n + 1 / of_int d \<le> ?x"
    unfolding xn using mr(1) dp by (intro add_left_mono divide_right_mono) auto
  have "of_int (a mod d) / of_int d \<le> (of_int d - 1) / (of_int d :: rat)"
    using mr(2) dp by (intro divide_right_mono) auto
  also have "\<dots> = 1 - 1 / of_int d" using dp by (simp add: field_simps)
  finally have hi: "?x \<le> of_int ?n + 1 - 1 / of_int d" unfolding xn by simp
  have "of_int a < (10::rat) ^ 27" using a(2) by (simp flip: of_int_less_iff)
  then have "?x / (2 * 10 ^ 27) < 1 / of_int d"
    using dp by (simp add: field_simps)
  then have e: "\<bar>dec_round ?x - ?x\<bar> < 1 / of_int d"
    using dec_round_error [OF x] by linarith
  then have b: "of_int ?n < dec_round ?x" "dec_round ?x < of_int ?n + 1"
    using lo hi by linarith+
  have "0 \<le> ?n" using a d by (simp add: pos_imp_zdiv_nonneg_iff)
  then have "(0::rat) \<le> of_int ?n" by (simp only: of_int_0_le_iff)
  then have "0 \<le> dec_round ?x" using b(1) by linarith
  moreover have "\<lfloor>dec_round ?x\<rfloor> = ?n" using b by (intro floor_unique) linarith+
  ultimately show ?thesis unfolding trunc_rat_def by (simp only: if_True)
qed

lemma quantize_common_scale:
  assumes v: "to_dec v = ok (DFin (of_int a / 10 ^ m))" and s: "to_dec s = ok (DFin (of_int d / 10 ^ m))"
    and a: "\<bar>a\<bar> < 10 ^ 27" and d: "0 < d"
  shows "quantize_to_step v s = ok (DFin (of_int (sgn a * (\<bar>a\<bar> div d) * d) / 10 ^ m))"
proof -
  let ?q = "of_int \<bar>a\<bar> / (of_int d :: rat)"
  have tr: "trunc_rat (dec_round ?q) = \<bar>a\<bar> div d"
    using a d by (intro trunc_dec_round_div) auto
  have "\<bar>a\<bar> div d * d \<le> \<bar>a\<bar>" using d by (simp add: minus_mod_eq_div_mult [symmetric])
  then have ex: "dec_round (of_int (\<bar>a\<bar> div d * d) / 10 ^ m) = of_int (\<bar>a\<bar> div d * d) / 10 ^ m"
    using a d by (intro dec_round_exact) (auto simp: pos_imp_zdiv_nonneg_iff)
  have div: "of_int a / 10 ^ m / (of_int d / 10 ^ m) = (if 0 \<le> a then ?q else - ?q)"
    by simp
  have tr': "trunc_rat (dec_round (of_int a / 10 ^ m / (of_int d / 10 ^ m))) = sgn a * (\<bar>a\<bar> div d)"
    unfolding div using tr by (auto simp: dec_round_minus trunc_rat_minus sgn_if)
  have "dec_round (of_int (sgn a * (\<bar>a\<bar> div d)) * (of_int d / 10 ^ m)) =
      of_int (sgn a * (\<bar>a\<bar> div d) * d) / 10 ^ m"
    using ex by (auto simp: sgn_if dec_round_minus)
  then show ?thesis
    using d tr' by (simp add: quantize_to_step_def v s dec_div_fin_def dec_mult_def
        divide_le_0_iff not_le)
qed

lemma pick_nearest_sound: "pick_nearest x ds = Some d \<Longrightarrow> rnd64 d = x"
proof -
  assume p: "pick_nearest x ds = Some d"
  define ys where "ys = filter (\<lambda>d. rnd64 d = x) ds"
  have "d \<in> set ys"
    using p by (auto simp: pick_nearest_def ys_def [symmetric] split: list.splits if_splits)
  then show ?thesis by (simp add: ys_def)
qed

lemma shortest_from_reads_back: "rnd64 x = x \<Longrightarrow> rnd64 (shortest_from x ns) = x"
  by (induction ns) (auto split: option.split dest: pick_nearest_sound)

lemma float_of_decimal_from_float:
  assumes "is_float x"
  shows "float_of_decimal (decimal_from_float x) = x"
proof (cases x)
  case (Fin a)
  then have a: "rnd64 a = a" "\<bar>a\<bar> < 2 ^ 1024" using assms by (simp_all add: is_float_def)
  then have "rnd64 (shortest_dec a) = a" by (simp add: shortest_dec_def shortest_from_reads_back)
  then show ?thesis
    using a by (auto simp: Fin decimal_from_float_def float_of_decimal_def fl_def Let_def abs_less_iff)
qed (simp_all add: decimal_from_float_def float_of_decimal_def)

section \<open>Properties\<close>

text \<open>\<open>quantize_to_step\<close> keeps its promise for values and steps of at most 27 digits on a
  common decimal scale: the result is the largest multiple of the step whose magnitude does
  not exceed the value's, with the value's sign; so it is on the grid, never exceeds the
  requested magnitude, loses less than one step, and quantizing again changes nothing.\<close>

theorem quantize_rounds_down:
  assumes "to_dec v = ok (DFin (of_int a / 10 ^ m))" "to_dec s = ok (DFin (of_int d / 10 ^ m))"
    and "\<bar>a\<bar> < 10 ^ 27" "0 < d"
  shows "\<exists>r k. quantize_to_step v s = ok (DFin r) \<and> r = of_int k * (of_int d / 10 ^ m) \<and>
    \<bar>r\<bar> \<le> \<bar>of_int a / 10 ^ m\<bar> \<and> \<bar>of_int a / 10 ^ m\<bar> - \<bar>r\<bar> < of_int d / 10 ^ m \<and>
    0 \<le> r * of_int a \<and> quantize_to_step (NumDec (DFin r)) s = ok (DFin r)"
proof -
  let ?n = "\<bar>a\<bar> div d"
  let ?r = "of_int (sgn a * ?n * d) / (10::rat) ^ m"
  have n: "0 \<le> ?n" "?n * d \<le> \<bar>a\<bar>" "\<bar>a\<bar> - ?n * d < d"
    using assms(4) by (simp_all add: pos_imp_zdiv_nonneg_iff minus_div_mult_eq_mod
        minus_mod_eq_div_mult [symmetric])
  have abs_k: "\<bar>sgn a * ?n * d\<bar> = ?n * d" if "a \<noteq> 0"
    using that n(1) assms(4) by (simp add: abs_mult)
  have abs_r: "\<bar>?r\<bar> = of_int (?n * d) / 10 ^ m"
    using n(1) assms(4) by (cases "a = 0") (auto simp: abs_mult sgn_if)
  have le: "\<bar>?r\<bar> \<le> \<bar>of_int a / 10 ^ m\<bar>"
    unfolding abs_r using n(2) by (simp add: divide_right_mono flip: of_int_mult of_int_abs)
  have "of_int (\<bar>a\<bar> - ?n * d) < (of_int d :: rat)" using n(3) by (simp only: of_int_less_iff)
  then have lt: "\<bar>of_int a / 10 ^ m\<bar> - \<bar>?r\<bar> < of_int d / 10 ^ m"
    unfolding abs_r by (simp add: divide_strict_right_mono flip: diff_divide_distrib)
  have sg: "0 \<le> ?r * of_int a"
    using n(1) assms(4) by (auto simp: sgn_if zero_le_mult_iff zero_le_divide_iff mult_le_0_iff divide_le_0_iff)
  have "\<bar>sgn a * ?n * d\<bar> < 10 ^ 27" using abs_k n assms(3) by (cases "a = 0") auto
  then have "quantize_to_step (NumDec (DFin ?r)) s =
      ok (DFin (of_int (sgn (sgn a * ?n * d) * (\<bar>sgn a * ?n * d\<bar> div d) * d) / 10 ^ m))"
    using assms(2,4) by (intro quantize_common_scale) (auto simp: to_dec_def)
  also have "sgn (sgn a * ?n * d) * (\<bar>sgn a * ?n * d\<bar> div d) * d = sgn a * ?n * d"
    using abs_k assms(4) n(1) by (cases "a = 0"; cases "?n = 0") (auto simp: sgn_if zero_less_mult_iff mult_less_0_iff)
  finally have idem: "quantize_to_step (NumDec (DFin ?r)) s = ok (DFin ?r)" .
  show ?thesis
    using quantize_common_scale [OF assms] le lt sg idem
    by (intro exI [of _ ?r] exI [of _ "sgn a * ?n"]) simp
qed

theorem quantize_rounds_down_witness:
  "\<exists>r k. quantize_to_step (NumDec (DFin (12345 / 1000))) (NumDec (DFin (5 / 100))) = ok (DFin r) \<and>
    r = of_int k * (5 / 100) \<and> \<bar>r\<bar> \<le> 12345 / 1000 \<and> 12345 / 1000 - \<bar>r\<bar> < 5 / 100"
  using quantize_rounds_down [of "NumDec (DFin (12345 / 1000))" 12345 3 "NumDec (DFin (5 / 100))" 50]
  by (auto simp: to_dec_def)

text \<open>beyond 28 digits the promise fails: the division is itself rounded, so the value
  0.999...9 with 29 nines is quantized on step 1 to 1, more than was requested.\<close>

theorem quantize_can_exceed:
  "\<exists>x. x < 1 \<and> quantize_to_step (NumDec (DFin x)) (NumInt 1) = ok (DFin 1)"
proof (intro exI conjI)
  let ?x = "99999999999999999999999999999 / 100000000000000000000000000000 :: rat"
  show "?x < 1" by simp
  have "\<lceil>1 / ?x\<rceil> = 2" by (intro ceiling_unique) auto
  then have k: "ilog10 ?x = -1" by (simp add: ilog10_def ndigits.simps)
  have "rne (?x / 10 powi (- 28)) = 10 ^ 28"
    by (simp add: rne_eval power_int_minus inverse_eq_divide)
  then have "dec_round ?x = 1"
    by (simp add: dec_round_def Let_def k power_int_minus)
  moreover have "dec_round 1 = 1" using dec_round_exact_int [of 1] by simp
  ultimately show "quantize_to_step (NumDec (DFin ?x)) (NumInt 1) = ok (DFin 1)"
    by (simp add: quantize_to_step_def to_dec_def dec_div_fin_def dec_mult_def trunc_rat_def)
qed

text \<open>\<open>decimal_from_float\<close> loses nothing: the decimal of a finite float reads back as that
  float, so the Decimal path and the float path start from the same number.\<close>

theorem decimal_from_float_roundtrip:
  assumes "is_float x"
  shows "float_of_decimal (decimal_from_float x) = x"
  using assms by (rule float_of_decimal_from_float)

theorem decimal_from_float_roundtrip_witness:
  "float_of_decimal (decimal_from_float (Fin (3/8))) = Fin (3/8)"
  by (rule decimal_from_float_roundtrip) (simp add: is_float_def float_eval)

end
