(* ===== verification/RiskEngine.thy ===== *)
theory RiskEngine
  imports RiskModels Money
begin

text \<open>
  \<open>risk/engine.py\<close>: the deterministic gate between a signal and an order.  \<open>risk_checks\<close> is
  the sequence of checks of \<open>RiskEngine.evaluate\<close> up to the position size, each check a
  possible rejection; \<open>dual_run\<close> is the Decimal candidate computed beside the float size;
  \<open>evaluate\<close> and \<open>evaluate_exit_signal\<close> are the two entry points.  The object's counters,
  candidates and fencing token are the record \<open>engine\<close>; the warnings the dual run logs are
  kept in \<open>re_log\<close>.  Instants are microseconds since the Unix epoch.
\<close>

section \<open>Decisions\<close>

datatype reject_reason =
    KillSwitchActive
  | MaxDrawdownKill pyfloat pyfloat
  | DailyLossBreaker pyfloat
  | ClassPaused string int datetime
  | MissingStop
  | StopEqualsEntry
  | MissingTarget
  | RewardRiskBelow pyfloat pyfloat
  | MaxPositions string int
  | HeatExceeded pyfloat pyfloat
  | CorrelationGuard pyfloat pyfloat pyfloat pyfloat
  | NoOpenPosition string
  | ConfidenceBelow pyfloat pyfloat
  | ReasonApproved

record risk_decision =
  dec_approved :: bool
  dec_reason :: reject_reason
  dec_signal :: signal
  dec_order :: "approved_order option"
  dec_fencing_token :: "int option"

text \<open>\<open>RiskDecision.__eq__\<close> leaves the fencing token out.\<close>

definition risk_decision_eq :: "risk_decision \<Rightarrow> risk_decision \<Rightarrow> bool" where
  "risk_decision_eq a b \<longleftrightarrow> dec_approved a = dec_approved b \<and> dec_reason a = dec_reason b \<and>
     dec_signal a = dec_signal b \<and> dec_order a = dec_order b"

record exit_decision =
  exd_approved :: bool
  exd_reason :: reject_reason
  exd_signal :: exit_signal
  exd_exit :: "approved_exit option"
  exd_fencing_token :: "int option"

section \<open>The engine object\<close>

datatype size_warning =
  SIZE_QUANTIZE_ERROR | SIZE_DELTA_EXACT_UNAVAILABLE | SIZE_DELTA | SIZE_DELTA_EXACT

text \<open>\<open>_size_candidates\<close> is keyed by the order's value; entries are kept while their order lives.\<close>

record engine =
  re_config :: risk_config
  re_instruments :: "(string, string) dict option"
  re_candidates :: "(approved_order, pydecimal option) dict"
  quantize_errors :: int
  quantize_inactive :: int
  re_fencing_token :: "int option"
  re_log :: "size_warning list"

definition new_engine :: "risk_config option \<Rightarrow> (string, string) dict option \<Rightarrow> engine" where
  "new_engine config instruments = \<lparr>
     re_config = (case config of None \<Rightarrow> default_risk_config | Some c \<Rightarrow> c),
     re_instruments = (case instruments of None \<Rightarrow> None | Some d \<Rightarrow> if d = [] then None else Some d),
     re_candidates = [], quantize_errors = 0, quantize_inactive = 0, re_fencing_token = None,
     re_log = []\<rparr>"

definition set_fencing_token :: "int option \<Rightarrow> engine \<Rightarrow> engine" where
  "set_fencing_token tok eng = eng\<lparr>re_fencing_token := tok\<rparr>"

definition get_size_candidate :: "engine \<Rightarrow> approved_order \<Rightarrow> pydecimal option" where
  "get_size_candidate eng ord = dget_or (re_candidates eng) ord None"

definition get_quantization_stats :: "engine \<Rightarrow> int \<times> int" where
  "get_quantization_stats eng = (quantize_errors eng, quantize_inactive eng)"

section \<open>The checks\<close>

datatype check_result = Rejected reject_reason | Sized pyfloat pyfloat

text \<open>An early return: the check's rejection, or the code after it.\<close>

definition check :: "reject_reason option res \<Rightarrow> check_result res \<Rightarrow> check_result res" where
  "check c k = rbind c (\<lambda>r. case r of Some why \<Rightarrow> ok (Rejected why) | None \<Rightarrow> k)"

definition reject_if :: "bool \<Rightarrow> reject_reason \<Rightarrow> reject_reason option res" where
  "reject_if b why = ok (if b then Some why else None)"

definition drawdown_check :: "risk_config \<Rightarrow> account_state \<Rightarrow> reject_reason option res" where
  "drawdown_check cfg account =
    (if 0 < peak_equity account then
       rbind (fdiv (peak_equity account - equity account) (peak_equity account)) (\<lambda>drawdown.
         reject_if (max_drawdown cfg \<le> drawdown + fl (1/10000))
           (MaxDrawdownKill drawdown (max_drawdown cfg)))
     else ok None)"

text \<open>
  \<open>timedelta(hours=h)\<close>: whole hours exactly, the fraction in one float product rounded to a
  microsecond; at most 999999999 days.  Adding it to a \<open>datetime\<close> must stay in the years 1 to
  9999.
\<close>

definition timedelta_hours :: "pyfloat \<Rightarrow> int res" where
  "timedelta_hours h = (case h of
     NaN \<Rightarrow> raise (ValueError ''cannot convert float NaN to integer'')
   | Fin a \<Rightarrow>
       (case fl ((a - of_int (trunc_rat a)) * 3600000000) of
          Fin us \<Rightarrow> let n = trunc_rat a * 3600000000 + rne us in
            if \<bar>n div 86400000000\<bar> \<le> 999999999 then ok n else raise OverflowError
        | _ \<Rightarrow> raise OverflowError)
   | _ \<Rightarrow> raise OverflowError)"

definition datetime_add :: "datetime \<Rightarrow> int \<Rightarrow> datetime res" where
  "datetime_add t d = (if -62135596800000000 \<le> t + d \<and> t + d \<le> 253402300799999999
     then ok (t + d) else raise OverflowError)"

definition cooldown_check ::
  "risk_config \<Rightarrow> signal \<Rightarrow> account_state \<Rightarrow> reject_reason option res" where
  "cooldown_check cfg signal account =
    (let losses = dget_or (consecutive_losses account) (sg_asset_class signal) 0
     in case dget (last_loss_at account) (sg_asset_class signal) of
          None \<Rightarrow> ok None
        | Some last_loss \<Rightarrow>
            if consecutive_loss_limit cfg \<le> losses then
              rbind (timedelta_hours (cooldown_hours cfg)) (\<lambda>d.
                rbind (datetime_add last_loss d) (\<lambda>cooldown_ends.
                  reject_if (sg_timestamp signal < cooldown_ends)
                    (ClassPaused (sg_asset_class signal) losses cooldown_ends)))
            else ok None)"

definition pre_event :: "risk_config \<Rightarrow> account_state \<Rightarrow> bool" where
  "pre_event cfg account = (case minutes_to_next_major_event account of
     None \<Rightarrow> False | Some m \<Rightarrow> m \<le> pre_event_hours cfg * fl 60)"

definition effective_risk_pct :: "risk_config \<Rightarrow> signal \<Rightarrow> account_state \<Rightarrow> pyfloat" where
  "effective_risk_pct cfg signal account =
    (let e0 = risk_pct cfg;
         e1 = (if weekly_pnl_pct account \<le> - weekly_loss_limit cfg
               then e0 * weekly_loss_reduction cfg else e0);
         e2 = (if pre_event cfg account then e1 * pre_event_reduction cfg else e1)
     in case sg_garch_vol_scale signal of
          None \<Rightarrow> e2 | Some g \<Rightarrow> pymin (e2 * g) (risk_pct cfg))"

definition current_heat :: "account_state \<Rightarrow> pyfloat" where
  "current_heat account = fsum (map ps_risk_pct (open_positions account))"

definition correlated_risk :: "risk_config \<Rightarrow> signal \<Rightarrow> account_state \<Rightarrow> pyfloat" where
  "correlated_risk cfg signal account =
     fsum (map ps_risk_pct (filter (\<lambda>p.
       correlation_threshold cfg <
         (case correlations account {ps_asset p, sg_asset signal} of None \<Rightarrow> 0 | Some c \<Rightarrow> c))
       (open_positions account)))"

definition heat_cap :: "risk_config \<Rightarrow> account_state \<Rightarrow> pyfloat" where
  "heat_cap cfg account = (if high_volatility account then max_heat_high_vol cfg else max_heat cfg)"

definition same_class_positions :: "signal \<Rightarrow> account_state \<Rightarrow> position list" where
  "same_class_positions signal account =
     filter (\<lambda>p. ps_asset_class p = sg_asset_class signal) (open_positions account)"

definition risk_checks ::
  "risk_config \<Rightarrow> signal \<Rightarrow> account_state \<Rightarrow> check_result res" where
  "risk_checks cfg signal account =
    check (reject_if (kill_switch account) KillSwitchActive) (
    check (drawdown_check cfg account) (
    check (reject_if (acc_daily_pnl_pct account \<le> - daily_loss_limit cfg)
      (DailyLossBreaker (acc_daily_pnl_pct account))) (
    check (cooldown_check cfg signal account) (
    (case sg_suggested_stop signal of
      None \<Rightarrow> ok (Rejected MissingStop)
    | Some stop \<Rightarrow>
      (let risk_per_unit = \<bar>sg_entry_price signal - stop\<bar> in
       check (reject_if (feq risk_per_unit 0) StopEqualsEntry) (
       (case sg_suggested_target signal of
         None \<Rightarrow> ok (Rejected MissingTarget)
       | Some target \<Rightarrow>
         rbind (fdiv \<bar>target - sg_entry_price signal\<bar> risk_per_unit) (\<lambda>reward_risk.
         check (reject_if (reward_risk < min_reward_risk cfg)
           (RewardRiskBelow reward_risk (min_reward_risk cfg))) (
         check (reject_if (max_positions_per_asset_class cfg
             \<le> int (length (same_class_positions signal account)))
           (MaxPositions (sg_asset_class signal) (max_positions_per_asset_class cfg))) (
         (let eff = effective_risk_pct cfg signal account;
              cap = heat_cap cfg account;
              heat = current_heat account;
              corr = correlated_risk cfg signal account
          in
          check (reject_if (cap < heat + eff) (HeatExceeded (heat + eff) cap)) (
          check (reject_if (0 < corr \<and> cap < heat + eff + corr)
            (CorrelationGuard corr heat eff cap)) (
          rbind (fdiv (equity account * eff) risk_per_unit) (\<lambda>position_size.
            ok (Sized position_size eff))))))))))))))))"

section \<open>The Decimal dual run\<close>

text \<open>Unary minus and \<open>abs\<close> of values that are already rounded.\<close>

definition dec_abs :: "pydecimal \<Rightarrow> pydecimal" where
  "dec_abs d = (case d of DFin x \<Rightarrow> DFin \<bar>x\<bar> | DInf \<Rightarrow> DInf | DNInf \<Rightarrow> DInf | DNaN \<Rightarrow> DNaN)"

text \<open>Division by a positive finite decimal.\<close>

definition dec_div_pos :: "pydecimal \<Rightarrow> rat \<Rightarrow> pydecimal res" where
  "dec_div_pos d y = (case d of DFin x \<Rightarrow> dec_div_fin x y | _ \<Rightarrow> ok d)"

text \<open>The size formula recomputed from Decimals and gridded; \<open>None\<close> when no positive risk per unit.\<close>

definition exact_grid ::
  "signal \<Rightarrow> account_state \<Rightarrow> pyfloat \<Rightarrow> string \<Rightarrow> pydecimal option res" where
  "exact_grid signal account eff step_str =
    (case sg_suggested_stop signal of None \<Rightarrow> raise (TypeError ''float'') | Some stop \<Rightarrow>
     rbind (dec_sub (decimal_from_float (sg_entry_price signal)) (decimal_from_float stop)) (\<lambda>d.
       case dec_abs (if sg_side signal = SHORT then dec_neg d else d) of
         DFin rpu \<Rightarrow>
           if 0 < rpu then
             rbind (dec_mult (decimal_from_float (equity account)) (decimal_from_float eff)) (\<lambda>n.
             rbind (dec_div_pos n rpu) (\<lambda>size_exact.
             rbind (quantize_to_step (NumDec size_exact) (NumStr step_str)) (\<lambda>g. ok (Some g))))
           else ok None
       | _ \<Rightarrow> ok None))"

text \<open>What \<open>except (ValueError, InvalidOperation)\<close> catches.\<close>

definition caught :: "pyerr \<Rightarrow> bool" where
  "caught e = (case e of ValueError _ \<Rightarrow> True | InvalidOperation \<Rightarrow> True | _ \<Rightarrow> False)"

definition dual_run ::
  "signal \<Rightarrow> account_state \<Rightarrow> pyfloat \<Rightarrow> pyfloat \<Rightarrow> string \<Rightarrow> (engine, pydecimal option) act" where
  "dual_run signal account position_size eff step_str eng =
    (case quantize_to_step (NumFloat position_size) (NumStr step_str) of
       Inl e \<Rightarrow> if caught e
         then (ok None, eng\<lparr>quantize_errors := quantize_errors eng + 1,
                 re_log := re_log eng @ [SIZE_QUANTIZE_ERROR]\<rparr>)
         else (Inl e, eng)
     | Inr candidate \<Rightarrow>
         (case exact_grid signal account eff step_str of
            Inl e \<Rightarrow> if caught e
              then (ok (Some candidate), eng\<lparr>re_log := re_log eng @ [SIZE_DELTA_EXACT_UNAVAILABLE]\<rparr>)
              else (Inl e, eng)
          | Inr None \<Rightarrow> (ok (Some candidate), eng)
          | Inr (Some g) \<Rightarrow> (ok (Some candidate),
              if candidate \<noteq> g then eng\<lparr>re_log := re_log eng @ [SIZE_DELTA, SIZE_DELTA_EXACT]\<rparr>
              else eng)))"

section \<open>The entry points\<close>

definition reject :: "engine \<Rightarrow> signal \<Rightarrow> reject_reason \<Rightarrow> risk_decision" where
  "reject eng signal why = \<lparr>dec_approved = False, dec_reason = why, dec_signal = signal,
     dec_order = None, dec_fencing_token = re_fencing_token eng\<rparr>"

definition approve :: "engine \<Rightarrow> signal \<Rightarrow> approved_order \<Rightarrow> risk_decision" where
  "approve eng signal ord = \<lparr>dec_approved = True, dec_reason = ReasonApproved, dec_signal = signal,
     dec_order = Some ord, dec_fencing_token = re_fencing_token eng\<rparr>"

text \<open>Called only after stop and target were found present.\<close>

definition build_order :: "signal \<Rightarrow> pyfloat \<Rightarrow> pyfloat \<Rightarrow> approved_order res" where
  "build_order signal position_size eff = new_ApprovedOrder \<lparr>ao_asset = sg_asset signal,
     ao_asset_class = sg_asset_class signal, ao_side = sg_side signal,
     ao_entry_price = sg_entry_price signal, ao_stop_price = the (sg_suggested_stop signal),
     ao_target_price = the (sg_suggested_target signal), ao_position_size = position_size,
     ao_risk_pct = eff, ao_issuer = ISSUER\<rparr>"

definition approve_quantized ::
  "signal \<Rightarrow> pyfloat \<Rightarrow> pyfloat \<Rightarrow> pydecimal option \<Rightarrow> (engine, risk_decision) act" where
  "approve_quantized signal position_size eff candidate eng =
    (let eng1 = (if candidate = None then eng\<lparr>quantize_inactive := quantize_inactive eng + 1\<rparr> else eng)
     in case build_order signal position_size eff of
          Inl e \<Rightarrow> (Inl e, eng1)
        | Inr ord \<Rightarrow>
            (let eng2 = eng1\<lparr>re_candidates := dset ord candidate (re_candidates eng1)\<rparr>
             in (ok (approve eng2 signal ord), eng2)))"

text \<open>The configured step of the asset; an empty string is as good as none.\<close>

definition step_for :: "engine \<Rightarrow> string \<Rightarrow> string option" where
  "step_for eng asset = (case re_instruments eng of None \<Rightarrow> None
     | Some d \<Rightarrow> (case dget d asset of None \<Rightarrow> None | Some s \<Rightarrow> if s = [] then None else Some s))"

definition evaluate :: "signal \<Rightarrow> account_state \<Rightarrow> (engine, risk_decision) act" where
  "evaluate signal account eng =
    (case risk_checks (re_config eng) signal account of
       Inl e \<Rightarrow> (Inl e, eng)
     | Inr (Rejected why) \<Rightarrow> (ok (reject eng signal why), eng)
     | Inr (Sized position_size eff) \<Rightarrow>
         (case step_for eng (sg_asset signal) of
            None \<Rightarrow> approve_quantized signal position_size eff None eng
          | Some step_str \<Rightarrow>
              abind (dual_run signal account position_size eff step_str) (\<lambda>candidate.
                approve_quantized signal position_size eff candidate) eng))"

definition reject_exit :: "engine \<Rightarrow> exit_signal \<Rightarrow> reject_reason \<Rightarrow> exit_decision" where
  "reject_exit eng signal why = \<lparr>exd_approved = False, exd_reason = why, exd_signal = signal,
     exd_exit = None, exd_fencing_token = re_fencing_token eng\<rparr>"

definition approve_exit :: "engine \<Rightarrow> exit_signal \<Rightarrow> approved_exit \<Rightarrow> exit_decision" where
  "approve_exit eng signal ex = \<lparr>exd_approved = True, exd_reason = ReasonApproved,
     exd_signal = signal, exd_exit = Some ex, exd_fencing_token = re_fencing_token eng\<rparr>"

definition evaluate_exit_signal ::
  "engine \<Rightarrow> exit_signal \<Rightarrow> account_state \<Rightarrow> exit_decision res" where
  "evaluate_exit_signal eng signal account =
    (if \<not> list_ex (\<lambda>p. ps_asset p = es_asset signal) (open_positions account)
     then ok (reject_exit eng signal (NoOpenPosition (es_asset signal)))
     else if es_confidence signal < min_exit_confidence (re_config eng)
     then ok (reject_exit eng signal
       (ConfidenceBelow (es_confidence signal) (min_exit_confidence (re_config eng))))
     else rbind (new_ApprovedExit \<lparr>ax_asset = es_asset signal, ax_asset_class = es_asset_class signal,
         ax_reason = es_reason signal, ax_issuer = ISSUER\<rparr>) (\<lambda>ex. ok (approve_exit eng signal ex)))"

section \<open>Lemmas\<close>

lemma check_eq_Sized [simp]: "check c k = ok (Sized s e) \<longleftrightarrow> c = ok None \<and> k = ok (Sized s e)"
  by (cases c) (auto simp: check_def split: option.split)

lemma reject_if_eq_None [simp]: "reject_if b w = ok None \<longleftrightarrow> \<not> b"
  by (simp add: reject_if_def)

lemma build_order_ok: "build_order sg s e = ok \<lparr>ao_asset = sg_asset sg,
     ao_asset_class = sg_asset_class sg, ao_side = sg_side sg,
     ao_entry_price = sg_entry_price sg, ao_stop_price = the (sg_suggested_stop sg),
     ao_target_price = the (sg_suggested_target sg), ao_position_size = s,
     ao_risk_pct = e, ao_issuer = ISSUER\<rparr>"
  by (simp add: build_order_def new_ApprovedOrder_def)

lemma dual_run_frame:
  "dual_run sg acc s e st eng = (r, eng') \<Longrightarrow>
    re_config eng' = re_config eng \<and> re_candidates eng' = re_candidates eng \<and>
    quantize_inactive eng' = quantize_inactive eng \<and> re_fencing_token eng' = re_fencing_token eng \<and>
    re_instruments eng' = re_instruments eng"
  by (auto simp: dual_run_def split: sum.splits option.splits if_splits)

text \<open>What passing every check says, check by check.\<close>

lemma risk_checks_Sized:
  assumes "risk_checks cfg sg acc = ok (Sized s e)"
  obtains stop target rr where
    "\<not> kill_switch acc" "drawdown_check cfg acc = ok None"
    "\<not> acc_daily_pnl_pct acc \<le> - daily_loss_limit cfg" "cooldown_check cfg sg acc = ok None"
    "sg_suggested_stop sg = Some stop" "sg_suggested_target sg = Some target"
    "\<not> feq \<bar>sg_entry_price sg - stop\<bar> 0"
    "fdiv \<bar>target - sg_entry_price sg\<bar> \<bar>sg_entry_price sg - stop\<bar> = ok rr"
    "\<not> rr < min_reward_risk cfg"
    "int (length (same_class_positions sg acc)) < max_positions_per_asset_class cfg"
    "e = effective_risk_pct cfg sg acc" "\<not> heat_cap cfg acc < current_heat acc + e"
    "\<not> (0 < correlated_risk cfg sg acc \<and>
        heat_cap cfg acc < current_heat acc + e + correlated_risk cfg sg acc)"
    "fdiv (equity acc * e) \<bar>sg_entry_price sg - stop\<bar> = ok s"
  using assms
  by (auto simp: risk_checks_def Let_def rbind_eq_Inr not_le split: option.splits)

text \<open>An approval comes from passed checks and carries their size.\<close>

lemma evaluate_approved:
  assumes "evaluate sg acc eng = (ok d, eng')" "dec_approved d"
  shows "\<exists>s e. risk_checks (re_config eng) sg acc = ok (Sized s e) \<and>
    dec_order d = Some \<lparr>ao_asset = sg_asset sg, ao_asset_class = sg_asset_class sg,
      ao_side = sg_side sg, ao_entry_price = sg_entry_price sg,
      ao_stop_price = the (sg_suggested_stop sg), ao_target_price = the (sg_suggested_target sg),
      ao_position_size = s, ao_risk_pct = e, ao_issuer = ISSUER\<rparr> \<and> dec_signal d = sg \<and>
    dec_fencing_token d = re_fencing_token eng"
  using assms
  by (auto simp: evaluate_def reject_def approve_def approve_quantized_def build_order_ok Let_def abind_apply
      split: sum.splits check_result.splits option.splits prod.splits dest: dual_run_frame)

lemma evaluate_not_approved:
  assumes "evaluate sg acc eng = (ok d, eng')" "\<not> dec_approved d"
  shows "dec_order d = None \<and> eng' = eng"
  using assms
  by (auto simp: evaluate_def reject_def approve_def approve_quantized_def build_order_ok Let_def abind_apply
      split: sum.splits check_result.splits option.splits prod.splits)

text \<open>A sample configuration, account and signal with short binary fractions.\<close>

definition demo_signal :: signal where
  "demo_signal = \<lparr>sg_asset = ''BTC/USDT'', sg_asset_class = ''crypto'', sg_side = LONG,
     sg_entry_price = Fin 100, sg_confidence = fl (8/10), sg_timestamp = 1700000000000000,
     sg_rationale = ''trend'', sg_suggested_stop = Some (Fin 95), sg_suggested_target = Some (Fin 110),
     sg_garch_vol_scale = None\<rparr>"

definition demo_account :: account_state where
  "demo_account = \<lparr>equity = Fin 10000, peak_equity = Fin 10000, open_positions = [],
     acc_daily_pnl_pct = 0, weekly_pnl_pct = 0, consecutive_losses = [], last_loss_at = [],
     kill_switch = False, high_volatility = False, minutes_to_next_major_event = None,
     correlations = Map.empty, day_start_settled_equity = None\<rparr>"

lemmas checks_eval = risk_checks_def drawdown_check_def cooldown_check_def effective_risk_pct_def
  pre_event_def heat_cap_def current_heat_def correlated_risk_def same_class_positions_def
  check_def reject_if_def Let_def

definition demo_config :: risk_config where
  "demo_config = \<lparr>
     risk_pct = Fin (1/64), min_reward_risk = Fin 2, max_heat = Fin (1/16),
     max_heat_high_vol = Fin (1/32), correlation_threshold = Fin (3/4),
     max_positions_per_asset_class = 5, daily_loss_limit = Fin (1/32),
     weekly_loss_limit = Fin (1/16), weekly_loss_reduction = Fin (1/2),
     max_drawdown = Fin (1/8), consecutive_loss_limit = 4, cooldown_hours = Fin 4,
     pre_event_hours = Fin 2, pre_event_reduction = Fin (1/2), min_exit_confidence = Fin (1/2)\<rparr>"

lemma demo_checks: "risk_checks demo_config demo_signal demo_account = ok (Sized (Fin (125/4)) (Fin (1/64)))"
  by (simp add: checks_eval demo_signal_def demo_account_def demo_config_def
    minus_pyfloat_def fsum_def feq_def fl_eval float_eval zero_Fin)
definition demo_engine :: engine where
  "demo_engine = new_engine (Some demo_config) None"

lemma demo_evaluate: "\<exists>d eng'. evaluate demo_signal demo_account demo_engine = (ok d, eng') \<and>
    dec_approved d \<and> dec_order d = Some \<lparr>ao_asset = ''BTC/USDT'', ao_asset_class = ''crypto'',
      ao_side = LONG, ao_entry_price = Fin 100, ao_stop_price = Fin 95, ao_target_price = Fin 110,
      ao_position_size = Fin (125/4), ao_risk_pct = Fin (1/64), ao_issuer = ISSUER\<rparr>"
  using demo_checks
  by (simp add: evaluate_def demo_engine_def new_engine_def step_for_def approve_quantized_def
      build_order_ok approve_def demo_signal_def)

lemma fl_upper:
  assumes "fl x = Fin q" "x \<le> b" "0 \<le> b"
  shows "q \<le> b + b / 2 ^ 53 + 1 / 2 ^ 1075"
proof -
  have "q = rnd64 x" using assms(1) by (auto simp: fl_def Let_def split: if_splits)
  also have "\<dots> \<le> rnd64 b" using assms(2) by (rule rnd64_mono)
  also have "\<dots> \<le> b + \<bar>b\<bar> / 2 ^ 53 + 1 / 2 ^ 1075" using rnd64_error [of b] by linarith
  finally show ?thesis using assms(3) by simp
qed

text \<open>A factor between 0 and 1 does not raise a finite non-negative risk.\<close>

lemma scale_down:
  assumes "is_float x" "0 \<le> x" "x \<le> Fin r" "0 \<le> c" "c \<le> 1"
  shows "is_float (x * c) \<and> 0 \<le> x * c \<and> x * c \<le> Fin r"
proof -
  obtain a b where x: "x = Fin a" "0 \<le> a" "a \<le> r" and c: "c = Fin b" "0 \<le> b" "b \<le> 1"
    using assms by (cases x; cases c) (auto simp: zero_Fin one_Fin)
  have a: "rnd64 a = a" "\<bar>a\<bar> < 2 ^ 1024" using assms(1) by (simp_all add: x is_float_def)
  have "a * b \<le> a" using x c by (simp add: mult_left_le)
  then have "fl (a * b) \<le> Fin a" using a by (intro fl_le_Fin)
  moreover have "Fin a \<le> Fin r" using x by simp
  ultimately have "fl (a * b) \<le> Fin r" by (rule le_trans_pyfloat)
  moreover have "0 \<le> fl (a * b)" using x c by (intro fl_nonneg) simp
  ultimately show ?thesis by (simp add: x c)
qed

lemma scale_if:
  "is_float x \<and> 0 \<le> x \<and> x \<le> Fin r \<Longrightarrow> 0 \<le> c \<and> c \<le> 1 \<Longrightarrow>
    is_float (if b then x * c else x) \<and> 0 \<le> (if b then x * c else x) \<and> (if b then x * c else x) \<le> Fin r"
  using scale_down by (cases b) auto

definition reductions_ok :: "risk_config \<Rightarrow> bool" where
  "reductions_ok cfg \<longleftrightarrow> is_float (risk_pct cfg) \<and>
     0 \<le> weekly_loss_reduction cfg \<and> weekly_loss_reduction cfg \<le> 1 \<and>
     0 \<le> pre_event_reduction cfg \<and> pre_event_reduction cfg \<le> 1"

lemma new_RiskConfig_bounds:
  "new_RiskConfig c = ok cfg \<Longrightarrow> 0 \<le> risk_pct cfg \<and> risk_pct cfg \<le> fl (2/100)"
  by (auto simp: new_RiskConfig_def less_le_pyfloat split: if_splits)

lemma risk_cap_literal: "fl (2/100) = Fin (5764607523034235 / 2 ^ 58)"
  by (simp add: fl_eval float_eval)

lemma effective_risk_le:
  assumes "0 \<le> risk_pct cfg" "reductions_ok cfg" "risk_pct cfg \<le> Fin r"
  shows "effective_risk_pct cfg sg acc = NaN \<or> effective_risk_pct cfg sg acc \<le> Fin r"
proof -
  define e1 where "e1 = (if weekly_pnl_pct acc \<le> - weekly_loss_limit cfg
    then risk_pct cfg * weekly_loss_reduction cfg else risk_pct cfg)"
  define e2 where "e2 = (if pre_event cfg acc then e1 * pre_event_reduction cfg else e1)"
  note e0 = assms(1,3)
  have e1: "is_float e1 \<and> 0 \<le> e1 \<and> e1 \<le> Fin r"
    unfolding e1_def using assms(2) e0 by (intro scale_if) (simp_all add: reductions_ok_def)
  have e2: "is_float e2 \<and> 0 \<le> e2 \<and> e2 \<le> Fin r"
    unfolding e2_def using assms(2) e1 by (intro scale_if) (simp_all add: reductions_ok_def)
  have eff: "effective_risk_pct cfg sg acc =
      (case sg_garch_vol_scale sg of None \<Rightarrow> e2 | Some g \<Rightarrow> pymin (e2 * g) (risk_pct cfg))"
    by (simp only: effective_risk_pct_def Let_def e1_def e2_def)
  show ?thesis
  proof (cases "sg_garch_vol_scale sg")
    case None
    then show ?thesis using e2 by (simp add: eff)
  next
    case (Some g)
    then have eff: "effective_risk_pct cfg sg acc = pymin (e2 * g) (risk_pct cfg)" by (simp only: eff option.case)
    show ?thesis
    proof (cases "e2 * g = NaN")
      case False
      have "risk_pct cfg \<noteq> NaN" using e0(1) by auto
      then show ?thesis
        unfolding eff using pymin_le(2) [OF False] assms(3) le_trans_pyfloat by blast
    qed (simp add: eff)
  qed
qed

text \<open>The two roundings of the size formula, over the rationals.\<close>

lemma size_rounding:
  assumes p: "fl (E * e) = Fin p" and q: "fl (p / R) = Fin q"
    and e: "e \<le> 5764607523034235 / 2 ^ 58" and E: "0 \<le> E" and R: "0 < R"
  shows "q * R \<le> E * (2/100) * (1 + 1 / 2 ^ 51) + (R + 2) / 2 ^ 1075"
proof -
  define t :: rat where "t = 1 / 2 ^ 1075"
  define S where "S = E * (2/100)"
  have t: "0 < t" by (simp add: t_def)
  have S: "0 \<le> S" using E by (simp add: S_def)
  have "E * e \<le> E * (5764607523034235 / 2 ^ 58)" using e E by (rule mult_left_mono)
  also have "\<dots> \<le> E * (2/100 * (1 + 1 / 2 ^ 53))" using E by (intro mult_left_mono) simp_all
  finally have b: "E * e \<le> S + S / 2 ^ 53" by (simp add: S_def algebra_simps)
  define B where "B = S + S / 2 ^ 53"
  have B: "0 \<le> B" using S by (simp add: B_def)
  define P where "P = B + B / 2 ^ 53 + t"
  have pP: "p \<le> P" unfolding P_def t_def using p b B by (intro fl_upper) (simp_all add: B_def)
  have P: "0 \<le> P" using B t by (simp add: P_def)
  have "p / R \<le> P / R" using pP R by (simp add: divide_right_mono)
  moreover have "0 \<le> P / R" using P R by simp
  ultimately have "q \<le> P / R + P / R / 2 ^ 53 + t" unfolding t_def by (rule fl_upper [OF q])
  then have "q * R \<le> (P / R + P / R / 2 ^ 53 + t) * R" using R by (simp add: mult_right_mono)
  also have "\<dots> = P + P / 2 ^ 53 + t * R" using R by (simp add: field_simps)
  also have "\<dots> \<le> S * (1 + 1 / 2 ^ 51) + 2 * t + t * R"
    unfolding P_def B_def using S t by (simp add: field_simps)
  also have "\<dots> = S * (1 + 1 / 2 ^ 51) + (R + 2) * t" by (simp only: ring_distribs mult.commute)
  finally show ?thesis unfolding S_def t_def by (simp only: times_divide_eq_right mult_1_right)
qed

section \<open>Properties\<close>

text \<open>C4: an approval means every check held (no kill switch, drawdown plus one basis point not
  at the limit, daily loss, cooldown over, stop away from entry, reward to risk, positions of
  the class, heat and correlated heat under the cap), and the order is the signal's own, sized
  \<open>equity * effective risk / |entry - stop|\<close>, signed by the engine's issuer token and with the
  engine's fencing token.\<close>

theorem approval_passes_every_check:
  assumes "evaluate sg acc eng = (ok d, eng')" "dec_approved d"
  shows "\<exists>stop target rr s e. sg_suggested_stop sg = Some stop \<and> sg_suggested_target sg = Some target \<and>
    \<not> kill_switch acc \<and> drawdown_check (re_config eng) acc = ok None \<and>
    \<not> acc_daily_pnl_pct acc \<le> - daily_loss_limit (re_config eng) \<and>
    cooldown_check (re_config eng) sg acc = ok None \<and> \<not> feq \<bar>sg_entry_price sg - stop\<bar> 0 \<and>
    fdiv \<bar>target - sg_entry_price sg\<bar> \<bar>sg_entry_price sg - stop\<bar> = ok rr \<and>
    \<not> rr < min_reward_risk (re_config eng) \<and>
    int (length (same_class_positions sg acc)) < max_positions_per_asset_class (re_config eng) \<and>
    \<not> heat_cap (re_config eng) acc < current_heat acc + e \<and>
    \<not> (0 < correlated_risk (re_config eng) sg acc \<and>
       heat_cap (re_config eng) acc < current_heat acc + e + correlated_risk (re_config eng) sg acc) \<and>
    e = effective_risk_pct (re_config eng) sg acc \<and>
    fdiv (equity acc * e) \<bar>sg_entry_price sg - stop\<bar> = ok s \<and>
    dec_order d = Some \<lparr>ao_asset = sg_asset sg, ao_asset_class = sg_asset_class sg,
      ao_side = sg_side sg, ao_entry_price = sg_entry_price sg, ao_stop_price = stop,
      ao_target_price = target, ao_position_size = s, ao_risk_pct = e, ao_issuer = ISSUER\<rparr> \<and>
    dec_fencing_token d = re_fencing_token eng"
proof -
  obtain s e where c: "risk_checks (re_config eng) sg acc = ok (Sized s e)"
    and o: "dec_order d = Some \<lparr>ao_asset = sg_asset sg, ao_asset_class = sg_asset_class sg,
      ao_side = sg_side sg, ao_entry_price = sg_entry_price sg,
      ao_stop_price = the (sg_suggested_stop sg), ao_target_price = the (sg_suggested_target sg),
      ao_position_size = s, ao_risk_pct = e, ao_issuer = ISSUER\<rparr>"
      "dec_fencing_token d = re_fencing_token eng"
    using evaluate_approved [OF assms] by blast
  from risk_checks_Sized [OF c] show ?thesis
    by cases (use o in simp)
qed

theorem approval_passes_every_check_witness:
  "\<exists>d eng' s. evaluate demo_signal demo_account demo_engine = (ok d, eng') \<and>
    \<not> kill_switch demo_account \<and> drawdown_check (re_config demo_engine) demo_account = ok None \<and>
    map_option ao_position_size (dec_order d) = Some s"
proof -
  obtain d eng' where d: "evaluate demo_signal demo_account demo_engine = (ok d, eng')" "dec_approved d"
    using demo_evaluate by blast
  show ?thesis using approval_passes_every_check [OF d] d(1) by fastforce
qed

text \<open>C5: the money lost between entry and stop on an approved order is at most 2\% of equity up
  to the rounding of the size formula, for a configuration that \<open>RiskConfig\<close> accepts and whose
  two reductions are factors in \<open>[0, 1]\<close>, whatever the volatility scale of the signal.\<close>

theorem risk_at_stop_bounded:
  assumes cfg: "new_RiskConfig c = ok (re_config eng)" "reductions_ok (re_config eng)"
    and ev: "evaluate sg acc eng = (ok d, eng')" "dec_order d = Some ord"
    and E: "equity acc = Fin E" "0 \<le> E" and q: "ao_position_size ord = Fin q"
    and R: "\<bar>ao_entry_price ord - ao_stop_price ord\<bar> = Fin R"
  shows "q * R \<le> E * (2/100) * (1 + 1 / 2 ^ 51) + (R + 2) / 2 ^ 1075"
proof -
  let ?r = "5764607523034235 / 2 ^ 58 :: rat"
  have app: "dec_approved d" using evaluate_not_approved [OF ev(1)] ev(2) by fastforce
  obtain s e where c: "risk_checks (re_config eng) sg acc = ok (Sized s e)"
    and o: "ao_position_size ord = s" "ao_entry_price ord = sg_entry_price sg"
      "ao_stop_price ord = the (sg_suggested_stop sg)"
    using evaluate_approved [OF ev(1) app] ev(2) by auto
  from risk_checks_Sized [OF c] obtain stop where st: "sg_suggested_stop sg = Some stop"
    "\<not> feq \<bar>sg_entry_price sg - stop\<bar> 0" "e = effective_risk_pct (re_config eng) sg acc"
    "fdiv (equity acc * e) \<bar>sg_entry_price sg - stop\<bar> = ok s"
    by metis
  have R': "\<bar>sg_entry_price sg - stop\<bar> = Fin R" using R o st(1) by simp
  have "0 \<le> \<bar>sg_entry_price sg - stop\<bar>"
    by (rule abs_nonneg_pyfloat) (use R' in auto)
  then have Rpos: "0 < R" using st(2) unfolding R' by (simp add: zero_Fin feq_def)
  have "risk_pct (re_config eng) \<le> Fin ?r"
    using new_RiskConfig_bounds [OF cfg(1)] unfolding risk_cap_literal by blast
  then have "e = NaN \<or> e \<le> Fin ?r"
    unfolding st(3) using new_RiskConfig_bounds [OF cfg(1)] by (intro effective_risk_le cfg(2)) blast+
  moreover have dv: "fdiv (Fin E * e) (Fin R) = ok (Fin q)" using st(4) o(1) q by (simp add: E(1) R')
  ultimately obtain x where x: "e = Fin x" "x \<le> ?r"
    using Rpos by (cases e) (auto simp: zero_Fin split: if_splits)
  then obtain p where p: "fl (E * x) = Fin p"
    using dv Rpos by (cases "fl (E * x)") (auto simp: zero_Fin split: if_splits)
  have "fl (p / R) = Fin q" using dv Rpos by (simp add: x(1) p)
  then show ?thesis using size_rounding [OF p _ x(2) E(2) Rpos] by blast
qed

theorem risk_at_stop_bounded_witness:
  "\<exists>d eng' ord. evaluate demo_signal demo_account demo_engine = (ok d, eng') \<and> dec_order d = Some ord \<and>
    ao_position_size ord = Fin (125/4) \<and>
    (125/4) * 5 \<le> (10000::rat) * (2/100) * (1 + 1 / 2 ^ 51) + (5 + 2) / 2 ^ 1075"
proof -
  obtain d eng' where d: "evaluate demo_signal demo_account demo_engine = (ok d, eng')"
    "dec_order d = Some \<lparr>ao_asset = ''BTC/USDT'', ao_asset_class = ''crypto'',
      ao_side = LONG, ao_entry_price = Fin 100, ao_stop_price = Fin 95, ao_target_price = Fin 110,
      ao_position_size = Fin (125/4), ao_risk_pct = Fin (1/64), ao_issuer = ISSUER\<rparr>"
    using demo_evaluate by blast
  have "new_RiskConfig demo_config = ok (re_config demo_engine)"
    by (simp add: new_RiskConfig_def demo_engine_def new_engine_def demo_config_def fl_eval float_eval zero_Fin)
  moreover have "reductions_ok (re_config demo_engine)"
    by (simp add: reductions_ok_def demo_engine_def new_engine_def demo_config_def zero_Fin one_Fin
        is_float_def float_eval)
  ultimately have "(125/4) * 5 \<le> (10000::rat) * (2/100) * (1 + 1 / 2 ^ 51) + (5 + 2) / 2 ^ 1075"
    by (rule risk_at_stop_bounded [OF _ _ d])
      (simp_all add: demo_account_def minus_pyfloat_def fl_eval float_eval)
  then show ?thesis using d by auto
qed

text \<open>the comparisons fail open on NaN: a signal whose entry price is NaN passes every
  check and is approved with a NaN position size.\<close>

theorem nan_price_approved:
  "\<exists>d eng' ord. evaluate (demo_signal\<lparr>sg_entry_price := NaN\<rparr>) demo_account demo_engine = (ok d, eng') \<and>
    dec_approved d \<and> dec_order d = Some ord \<and> ao_position_size ord = NaN"
proof -
  have "risk_checks demo_config (demo_signal\<lparr>sg_entry_price := NaN\<rparr>) demo_account = ok (Sized NaN (Fin (1/64)))"
    by (simp add: checks_eval demo_signal_def demo_account_def demo_config_def
      minus_pyfloat_def fsum_def feq_def fl_eval float_eval zero_Fin)
  then show ?thesis
    by (simp add: evaluate_def demo_engine_def new_engine_def step_for_def approve_quantized_def
      build_order_ok approve_def)
qed

text \<open>the exit gate approves exactly when the position exists and the confidence is not below
  the minimum, with the same verdict in every account that has those positions: kill switch,
  drawdown and daily loss never stop an exit.  It never raises, and an approved exit carries the
  issuer token.\<close>

theorem exit_never_blocked_by_halts:
  "\<exists>d. evaluate_exit_signal eng sg acc = ok d \<and>
    (exd_approved d = ((\<exists>p. p \<in> set (open_positions acc) \<and> ps_asset p = es_asset sg) \<and>
      \<not> es_confidence sg < min_exit_confidence (re_config eng))) \<and>
    exd_exit d = (if exd_approved d then Some \<lparr>ax_asset = es_asset sg, ax_asset_class = es_asset_class sg,
      ax_reason = es_reason sg, ax_issuer = ISSUER\<rparr> else None) \<and>
    exd_fencing_token d = re_fencing_token eng"
  by (auto simp: evaluate_exit_signal_def reject_exit_def approve_exit_def new_ApprovedExit_def
      list_ex_iff)

text \<open>the two quantization counters do not tell an error from an inactive instrument apart:
  every counted error is also counted as inactive.  Each evaluation counts at most once, and the
  configuration and the instruments never change.\<close>

theorem quantization_counters:
  "re_config (snd (evaluate sg acc eng)) = re_config eng \<and>
   re_instruments (snd (evaluate sg acc eng)) = re_instruments eng \<and>
   quantize_errors (snd (evaluate sg acc eng)) - quantize_errors eng
     \<le> quantize_inactive (snd (evaluate sg acc eng)) - quantize_inactive eng \<and>
   quantize_inactive (snd (evaluate sg acc eng)) \<le> quantize_inactive eng + 1"
  by (auto simp: evaluate_def approve_quantized_def dual_run_def build_order_ok Let_def abind_apply
      split: sum.splits check_result.splits option.splits)

end
