(* ===== verification/CapitalAllocator.thy ===== *)
theory CapitalAllocator
  imports RiskModels "HOL-Library.Multiset" "HOL-Library.Sublist"
begin

text \<open>
  \<open>risk/capital_allocator.py\<close>: approved orders compete for capital.  Orders are scored, sorted by
  descending score (a stable sort, as Python's; the order Python's sort gives to NaN scores is
  not modelled) and accepted one by one while the limits hold.
\<close>

section \<open>Scores\<close>

record priority_score =
  sc_asset :: string
  signal_strength :: pyfloat
  vol_adj_return :: pyfloat
  inverse_correlation :: pyfloat
  symbol_recency :: pyfloat
  total_score :: pyfloat

record allocator =
  max_concurrent_positions :: int
  max_portfolio_exposure_pct :: pyfloat
  max_single_asset_pct :: pyfloat
  last_trade_time :: "(string, pyfloat) dict"

definition new_allocator :: allocator where
  "new_allocator = \<lparr>max_concurrent_positions = 5, max_portfolio_exposure_pct = fl (1/2),
     max_single_asset_pct = fl (15/100), last_trade_time = []\<rparr>"

text \<open>Order of Python strings, by code points.\<close>

fun str_less :: "string \<Rightarrow> string \<Rightarrow> bool" where
  "str_less [] ys = (ys \<noteq> [])"
| "str_less (x # xs) [] = False"
| "str_less (x # xs) (y # ys) =
    ((of_char x :: nat) < of_char y \<or> x = y \<and> str_less xs ys)"

definition pair_key :: "string \<Rightarrow> string \<Rightarrow> string \<times> string" where
  "pair_key a b = (if str_less b a then b else a, if str_less a b then b else a)"

definition average_correlation ::
  "string \<Rightarrow> position list \<Rightarrow> (string \<times> string, pyfloat) dict \<Rightarrow> pyfloat res" where
  "average_correlation asset positions corrs =
    (if positions = [] \<or> corrs = [] then ok 0
     else let cl = map (\<lambda>pos. dget_or corrs (pair_key asset (ps_asset pos)) (fl (1/2))) positions
       in if cl = [] then ok 0 else fdiv (fsum cl) (float_of_int (int (length cl))))"

text \<open>\<open>correlations=None\<close> behaves as the empty dictionary.\<close>

definition calculate_priority_score ::
  "allocator \<Rightarrow> approved_order \<Rightarrow> position list \<Rightarrow> (string \<times> string, pyfloat) dict \<Rightarrow> pyfloat \<Rightarrow>
   priority_score res" where
  "calculate_priority_score al order current_positions corrs now_ts =
    (let dist = \<bar>ao_entry_price order - ao_stop_price order\<bar> in
     rbind (if 0 < dist then fdiv \<bar>ao_target_price order - ao_entry_price order\<bar> dist else ok 1) (\<lambda>strength.
     rbind (if 0 < dist then fdiv (ao_entry_price order) dist else ok 1) (\<lambda>var.
     rbind (average_correlation (ao_asset order) current_positions corrs) (\<lambda>avg_corr.
     let icorr = 1 - avg_corr;
         last_t = dget_or (last_trade_time al) (ao_asset order) 0 in
     rbind (if 0 < last_t then fdiv (now_ts - last_t) (fl 3600) else ok (fl 100)) (\<lambda>recency_hours.
     rbind (fdiv recency_hours (fl 24)) (\<lambda>days.
     let recency = pymin 1 days in
     ok \<lparr>sc_asset = ao_asset order, signal_strength = strength, vol_adj_return = var,
         inverse_correlation = icorr, symbol_recency = recency,
         total_score = fl (35/100) * strength + fl (25/100) * var + fl (25/100) * icorr
           + fl (15/100) * recency\<rparr>))))))"

section \<open>Allocation\<close>

text \<open>\<open>sort(key=score, reverse=True)\<close>: equal scores keep their order.\<close>

fun insert_desc :: "approved_order \<times> priority_score \<Rightarrow> (approved_order \<times> priority_score) list \<Rightarrow>
    (approved_order \<times> priority_score) list" where
  "insert_desc x [] = [x]"
| "insert_desc x (y # ys) =
    (if total_score (snd y) < total_score (snd x) then x # y # ys else y # insert_desc x ys)"

definition sort_desc :: "(approved_order \<times> priority_score) list \<Rightarrow> (approved_order \<times> priority_score) list" where
  "sort_desc xs = foldl (\<lambda>acc x. insert_desc x acc) [] xs"

datatype alloc_reason =
    MaxConcurrent int
  | ExposureLimit pyfloat
  | SingleAssetCap pyfloat pyfloat

definition order_notional :: "approved_order \<Rightarrow> pyfloat" where
  "order_notional order = ao_position_size order * ao_entry_price order"

fun score_all ::
  "allocator \<Rightarrow> position list \<Rightarrow> (string \<times> string, pyfloat) dict \<Rightarrow> pyfloat \<Rightarrow> approved_order list \<Rightarrow>
   (approved_order \<times> priority_score) list res" where
  "score_all al ps cs now [] = ok []"
| "score_all al ps cs now (ord # orders) =
    rbind (calculate_priority_score al ord ps cs now) (\<lambda>sc.
    rbind (score_all al ps cs now orders) (\<lambda>rest. ok ((ord, sc) # rest)))"

text \<open>The variables of the loop over the scored orders, and one round of it.\<close>

record alloc_state =
  st_accepted :: "approved_order list"
  st_rejected :: "(approved_order \<times> alloc_reason) list"
  active_count :: int
  accumulated_exp :: pyfloat
  st_alloc :: allocator

definition alloc_step :: "pyfloat \<Rightarrow> pyfloat \<Rightarrow> pyfloat \<Rightarrow> alloc_state \<Rightarrow> approved_order \<Rightarrow> alloc_state" where
  "alloc_step max_exp single now st order =
    (let notional = order_notional order; al = st_alloc st in
     if max_concurrent_positions al \<le> active_count st then
       st\<lparr>st_rejected := st_rejected st @ [(order, MaxConcurrent (max_concurrent_positions al))]\<rparr>
     else if max_exp < accumulated_exp st + notional then
       st\<lparr>st_rejected := st_rejected st @ [(order, ExposureLimit max_exp)]\<rparr>
     else if single < notional then
       st\<lparr>st_rejected := st_rejected st @ [(order, SingleAssetCap notional single)]\<rparr>
     else
       st\<lparr>st_accepted := st_accepted st @ [order], active_count := active_count st + 1,
          accumulated_exp := accumulated_exp st + notional,
          st_alloc := al\<lparr>last_trade_time := dset (ao_asset order) now (last_trade_time al)\<rparr>\<rparr>)"

definition current_exposure :: "account_state \<Rightarrow> pyfloat" where
  "current_exposure account = fsum (map (\<lambda>p. ps_entry_price p * ps_position_size p) (open_positions account))"

definition allocate_capital ::
  "approved_order list \<Rightarrow> account_state \<Rightarrow> (string \<times> string, pyfloat) dict \<Rightarrow> pyfloat \<Rightarrow>
   (allocator, approved_order list \<times> (approved_order \<times> alloc_reason) list) act" where
  "allocate_capital pending account corrs now_ts al =
    (if pending = [] then (ok ([], []), al)
     else case score_all al (open_positions account) corrs now_ts pending of
       Inl e \<Rightarrow> (Inl e, al)
     | Inr scored \<Rightarrow>
         (let st = foldl (alloc_step (equity account * max_portfolio_exposure_pct al)
              (equity account * max_single_asset_pct al) now_ts)
              \<lparr>st_accepted = [], st_rejected = [],
                active_count = int (length (open_positions account)),
                accumulated_exp = current_exposure account, st_alloc = al\<rparr>
              (map fst (sort_desc scored))
          in (ok (st_accepted st, st_rejected st), st_alloc st)))"

section \<open>Lemmas\<close>

lemma float_of_int_pos: "0 < n \<Longrightarrow> 0 < float_of_int n"
proof -
  assume "0 < n"
  then have "1 \<le> fl (of_int n)" using fl_mono [of 1 "of_int n"] by simp
  then show ?thesis using less_le_trans_pyfloat [of 0 1] by (simp add: float_of_int_def zero_Fin one_Fin)
qed

lemma average_correlation_ok: "\<exists>r. average_correlation a ps cs = ok r"
proof (cases "ps = [] \<or> cs = []")
  case False
  then have "0 < float_of_int (int (length ps))" by (intro float_of_int_pos) simp
  then show ?thesis using False by (auto simp: average_correlation_def Let_def intro: fdiv_pos_ok)
qed (auto simp: average_correlation_def)

lemma fdiv_literal_ok: "0 < fl c \<Longrightarrow> \<exists>r. fdiv x (fl c) = ok r"
  by (rule fdiv_pos_ok)

lemma literals_pos: "0 < fl 3600" "0 < fl 24"
  by (simp_all add: fl_eval float_eval zero_Fin)

lemma score_ok: "\<exists>r. calculate_priority_score al ord ps cs now = ok r"
proof -
  have 1: "\<exists>r. (if 0 < d then fdiv x d else ok 1) = ok r" for x d :: pyfloat
    by (cases "0 < d") (auto intro: fdiv_pos_ok)
  have 2: "\<exists>r. (if 0 < d then fdiv x (fl 3600) else ok y) = ok r" for x d y :: pyfloat
    by (cases "0 < d") (auto intro: fdiv_pos_ok literals_pos)
  have 3: "\<exists>r. fdiv x (fl 24) = ok r" for x by (intro fdiv_pos_ok literals_pos)
  show ?thesis
    unfolding calculate_priority_score_def Let_def
    by (intro rbind_okI 1 2 3 average_correlation_ok exI) (rule refl)
qed

lemma score_all_ok: "\<exists>scored. score_all al ps cs now orders = ok scored \<and> map fst scored = orders"
proof (induction orders)
  case (Cons ord orders)
  then show ?case using score_ok [of al ord ps cs now] by force
qed simp

lemma mset_insert_desc [simp]: "mset (insert_desc x ys) = add_mset x (mset ys)"
  by (induction ys) auto

lemma mset_sort_desc: "mset (sort_desc xs) = mset xs"
proof -
  have "mset (foldl (\<lambda>acc x. insert_desc x acc) acc xs) = mset acc + mset xs" for acc
    by (induction xs arbitrary: acc) auto
  then show ?thesis by (simp add: sort_desc_def)
qed

text \<open>No later order scores strictly higher.\<close>

definition desc :: "(approved_order \<times> priority_score) list \<Rightarrow> bool" where
  "desc xs = sorted_wrt (\<lambda>x y. \<not> total_score (snd x) < total_score (snd y)) xs"

definition scores_ok :: "(approved_order \<times> priority_score) list \<Rightarrow> bool" where
  "scores_ok xs = list_all (\<lambda>x. total_score (snd x) \<noteq> NaN) xs"

lemma set_insert_desc [simp]: "set (insert_desc x ys) = insert x (set ys)"
  by (induction ys) auto

lemma desc_insert: "scores_ok (x # ys) \<Longrightarrow> desc ys \<Longrightarrow> desc (insert_desc x ys)"
proof (induction ys)
  case (Cons y ys)
  then show ?case
    by (auto simp: desc_def scores_ok_def list_all_iff not_less_pyfloat
        intro: less_le_pyfloat le_trans_pyfloat)
qed (simp add: desc_def)

lemma desc_sort_desc: "scores_ok xs \<Longrightarrow> desc (sort_desc xs)"
proof -
  have "scores_ok xs \<Longrightarrow> scores_ok acc \<Longrightarrow> desc acc \<Longrightarrow> desc (foldl (\<lambda>acc x. insert_desc x acc) acc xs)" for acc
  proof (induction xs arbitrary: acc)
    case (Cons x xs)
    have "desc (insert_desc x acc)" using Cons.prems by (intro desc_insert) (auto simp: scores_ok_def)
    then show ?case using Cons by (simp add: scores_ok_def list_all_iff)
  qed simp
  then show "scores_ok xs \<Longrightarrow> desc (sort_desc xs)" by (simp add: sort_desc_def scores_ok_def desc_def)
qed

text \<open>Accepted orders met the limits at their turn.\<close>

fun within_limits :: "pyfloat \<Rightarrow> pyfloat \<Rightarrow> int \<Rightarrow> int \<Rightarrow> pyfloat \<Rightarrow> approved_order list \<Rightarrow> bool" where
  "within_limits mx sl mc active expo [] = True"
| "within_limits mx sl mc active expo (ord # orders) =
    (active < mc \<and> \<not> mx < expo + order_notional ord \<and> \<not> sl < order_notional ord \<and>
     within_limits mx sl mc (active + 1) (expo + order_notional ord) orders)"

lemma within_limits_snoc: "within_limits mx sl mc active expo (xs @ [ord]) \<longleftrightarrow>
    within_limits mx sl mc active expo xs \<and> active + int (length xs) < mc \<and>
    \<not> mx < foldl (\<lambda>e ord. e + order_notional ord) expo xs + order_notional ord \<and>
    \<not> sl < order_notional ord"
  by (induction xs arbitrary: active expo) (auto simp: add_ac)

definition alloc_inv :: "pyfloat \<Rightarrow> pyfloat \<Rightarrow> int \<Rightarrow> int \<Rightarrow> pyfloat \<Rightarrow> approved_order list \<Rightarrow> alloc_state \<Rightarrow> bool" where
  "alloc_inv mx sl mc n e0 done_orders st \<longleftrightarrow>
     mset (st_accepted st) + mset (map fst (st_rejected st)) = mset done_orders \<and>
     active_count st = n + int (length (st_accepted st)) \<and>
     accumulated_exp st = foldl (\<lambda>e ord. e + order_notional ord) e0 (st_accepted st) \<and>
     max_concurrent_positions (st_alloc st) = mc \<and>
     within_limits mx sl mc n e0 (st_accepted st)"

lemma alloc_step_inv:
  "alloc_inv mx sl mc n e0 ords st \<Longrightarrow> alloc_inv mx sl mc n e0 (ords @ [ord]) (alloc_step mx sl now st ord)"
  by (auto simp: alloc_inv_def alloc_step_def Let_def within_limits_snoc)

lemma alloc_fold_inv:
  "alloc_inv mx sl mc n e0 ords st \<Longrightarrow>
    alloc_inv mx sl mc n e0 (ords @ xs) (foldl (alloc_step mx sl now) st xs)"
proof (induction xs arbitrary: ords st)
  case (Cons x xs)
  then show ?case using Cons.IH [OF alloc_step_inv [OF Cons.prems, of x now]] by simp
qed simp

lemma alloc_fold_subseq:
  "\<exists>ys. st_accepted (foldl (alloc_step mx sl now) st xs) = st_accepted st @ ys \<and> subseq ys xs"
proof (induction xs arbitrary: st)
  case (Cons x xs)
  have "st_accepted (alloc_step mx sl now st x) = st_accepted st \<or>
      st_accepted (alloc_step mx sl now st x) = st_accepted st @ [x]"
    by (auto simp: alloc_step_def Let_def)
  moreover obtain ys where "st_accepted (foldl (alloc_step mx sl now) st (x # xs)) =
      st_accepted (alloc_step mx sl now st x) @ ys" "subseq ys xs"
    using Cons [of "alloc_step mx sl now st x"] by auto
  ultimately show ?case by auto
qed simp

definition alloc_start :: "account_state \<Rightarrow> allocator \<Rightarrow> alloc_state" where
  "alloc_start account al = \<lparr>st_accepted = [], st_rejected = [],
    active_count = int (length (open_positions account)),
    accumulated_exp = current_exposure account, st_alloc = al\<rparr>"

lemma allocate_capital_eq:
  assumes "score_all al (open_positions account) corrs now pending = ok scored"
  shows "fst (allocate_capital pending account corrs now al) =
    (let st = foldl (alloc_step (equity account * max_portfolio_exposure_pct al)
        (equity account * max_single_asset_pct al) now) (alloc_start account al) (map fst (sort_desc scored))
     in ok (st_accepted st, st_rejected st))"
proof (cases "pending = []")
  case True
  then have "scored = []" using assms by simp
  then show ?thesis using True by (simp add: allocate_capital_def alloc_start_def sort_desc_def)
qed (use assms in \<open>simp add: allocate_capital_def Let_def alloc_start_def\<close>)

lemma alloc_start_inv:
  "alloc_inv mx sl (max_concurrent_positions al) (int (length (open_positions account)))
     (current_exposure account) [] (alloc_start account al)"
  by (simp add: alloc_inv_def alloc_start_def)

section \<open>Properties\<close>

text \<open>
  The specification of a round: a queue of scored orders, one verdict per turn, and what is
  accepted and rejected read off the verdicts.  A verdict looks only at the orders accepted at
  earlier turns.
\<close>

definition exposure_after :: "pyfloat \<Rightarrow> approved_order list \<Rightarrow> pyfloat" where
  "exposure_after e0 before = foldl (\<lambda>e ord. e + order_notional ord) e0 before"

definition turn_verdict :: "pyfloat \<Rightarrow> pyfloat \<Rightarrow> int \<Rightarrow> int \<Rightarrow> pyfloat \<Rightarrow> approved_order list \<Rightarrow>
    approved_order \<Rightarrow> alloc_reason option" where
  "turn_verdict mx sl mc n e0 before ord =
    (if mc \<le> n + int (length before) then Some (MaxConcurrent mc)
     else if mx < exposure_after e0 before + order_notional ord then Some (ExposureLimit mx)
     else if sl < order_notional ord then Some (SingleAssetCap (order_notional ord) sl)
     else None)"

definition accepted_of :: "approved_order list \<Rightarrow> alloc_reason option list \<Rightarrow> approved_order list" where
  "accepted_of xs ds = map fst (filter (\<lambda>p. snd p = None) (zip xs ds))"

definition rejected_of :: "approved_order list \<Rightarrow> alloc_reason option list \<Rightarrow>
    (approved_order \<times> alloc_reason) list" where
  "rejected_of xs ds = map (\<lambda>p. (fst p, the (snd p))) (filter (\<lambda>p. snd p \<noteq> None) (zip xs ds))"

lemma of_snoc [simp]:
  "length ds = length xs \<Longrightarrow>
    accepted_of (xs @ [x]) (ds @ [d]) = accepted_of xs ds @ (if d = None then [x] else [])"
  "length ds = length xs \<Longrightarrow>
    rejected_of (xs @ [x]) (ds @ [d]) = rejected_of xs ds @ (if d = None then [] else [(x, the d)])"
  by (auto simp: accepted_of_def rejected_of_def)

text \<open>The loop variables after the rounds over \<open>xs\<close> with the verdicts \<open>ds\<close>.\<close>

definition follows_verdicts :: "int \<Rightarrow> int \<Rightarrow> pyfloat \<Rightarrow> approved_order list \<Rightarrow>
    alloc_reason option list \<Rightarrow> alloc_state \<Rightarrow> bool" where
  "follows_verdicts mc n e0 xs ds st \<longleftrightarrow> length ds = length xs \<and>
     st_accepted st = accepted_of xs ds \<and> st_rejected st = rejected_of xs ds \<and>
     active_count st = n + int (length (accepted_of xs ds)) \<and>
     accumulated_exp st = exposure_after e0 (accepted_of xs ds) \<and>
     max_concurrent_positions (st_alloc st) = mc"

lemma alloc_step_verdict:
  "follows_verdicts mc n e0 xs ds st \<Longrightarrow>
    follows_verdicts mc n e0 (xs @ [x]) (ds @ [turn_verdict mx sl mc n e0 (accepted_of xs ds) x])
      (alloc_step mx sl now st x)"
  by (auto simp: follows_verdicts_def alloc_step_def turn_verdict_def exposure_after_def Let_def)

lemma alloc_fold_verdicts:
  "\<exists>ds. follows_verdicts (max_concurrent_positions al) (int (length (open_positions account)))
      (current_exposure account) xs ds (foldl (alloc_step mx sl now) (alloc_start account al) xs) \<and>
    (\<forall>k < length xs. ds ! k = turn_verdict mx sl (max_concurrent_positions al)
      (int (length (open_positions account))) (current_exposure account)
      (accepted_of (take k xs) (take k ds)) (xs ! k))"
proof (induction xs rule: rev_induct)
  case Nil
  show ?case
    by (simp add: follows_verdicts_def alloc_start_def accepted_of_def rejected_of_def exposure_after_def)
next
  case (snoc x xs)
  let ?v = "turn_verdict mx sl (max_concurrent_positions al) (int (length (open_positions account)))
    (current_exposure account)"
  from snoc obtain ds where
    f: "follows_verdicts (max_concurrent_positions al) (int (length (open_positions account)))
      (current_exposure account) xs ds (foldl (alloc_step mx sl now) (alloc_start account al) xs)"
    and v: "\<forall>k < length xs. ds ! k = ?v (accepted_of (take k xs) (take k ds)) (xs ! k)"
    by blast
  have len: "length ds = length xs" using f by (simp add: follows_verdicts_def)
  show ?case
    using alloc_step_verdict [where mx = mx and sl = sl and x = x and now = now, OF f] v len
    by (intro exI [of _ "ds @ [?v (accepted_of xs ds) x]"]) (auto simp: nth_append less_Suc_eq)
qed

lemma mset_of_verdicts:
  "length ds = length xs \<Longrightarrow> mset (accepted_of xs ds) + mset (map fst (rejected_of xs ds)) = mset xs"
  by (induction ds xs rule: list_induct2) (auto simp: accepted_of_def rejected_of_def)

lemma insert_desc_stable:
  "scores_ok (x # ys) \<Longrightarrow> desc ys \<Longrightarrow> filter (\<lambda>y. total_score (snd y) = v) (insert_desc x ys) =
    filter (\<lambda>y. total_score (snd y) = v) (ys @ [x])"
proof (induction ys)
  case (Cons y ys)
  show ?case
  proof (cases "total_score (snd y) < total_score (snd x)")
    case True
    have "total_score (snd z) < total_score (snd x)" if "z \<in> set (y # ys)" for z
    proof (cases "z = y")
      case False
      then have "\<not> total_score (snd y) < total_score (snd z)" using that Cons.prems by (auto simp: desc_def)
      then have "total_score (snd z) \<le> total_score (snd y)"
        using that Cons.prems by (auto simp: scores_ok_def list_all_iff not_less_pyfloat intro: le_refl_pyfloat)
      then show ?thesis using True by (rule le_less_trans_pyfloat)
    qed (use True in simp)
    then have "\<forall>z \<in> set (y # ys). total_score (snd z) \<noteq> total_score (snd x)"
      by (metis less_irrefl_pyfloat)
    then show ?thesis using True by (auto simp: filter_empty_conv)
  qed (use Cons in \<open>auto simp: desc_def scores_ok_def list_all_iff\<close>)
qed simp

lemma sort_desc_snoc: "sort_desc (xs @ [x]) = insert_desc x (sort_desc xs)"
  by (simp add: sort_desc_def)

lemma set_sort_desc [simp]: "set (sort_desc xs) = set xs"
  using mset_sort_desc [of xs] by (rule mset_eq_setD)

lemma sort_desc_stable:
  "scores_ok xs \<Longrightarrow> filter (\<lambda>y. total_score (snd y) = v) (sort_desc xs) =
    filter (\<lambda>y. total_score (snd y) = v) xs"
proof (induction xs rule: rev_induct)
  case (snoc x xs)
  have "scores_ok xs" "scores_ok (x # sort_desc xs)"
    using snoc.prems by (auto simp: scores_ok_def list_all_iff)
  then show ?case
    using snoc.IH insert_desc_stable [of x "sort_desc xs" v] desc_sort_desc [of xs]
    by (simp add: sort_desc_snoc)
qed (simp add: sort_desc_def)

text \<open>C6: capital goes to the best orders first, and only the limits turn an order away.  The
  allocation never raises.  There is a queue of the pending orders with their scores and one
  verdict per turn such that the accepted orders are those of the turns without an objection and
  the rejected ones those of the others with the reason, in the order of the queue, and together
  exactly the pending orders, whole and unchanged.  The verdict of a turn is: the position limit,
  counted with the open positions and the orders accepted before; else the exposure limit, over
  the exposure of these; else the single-asset cap; else acceptance.  When no score is NaN the
  queue is the stable descending order: no later order scores higher, and orders of equal score
  keep the order they were pending in.\<close>

theorem allocation_sovereign:
  "\<exists>scored queue ds.
    score_all al (open_positions account) corrs now pending = ok scored \<and> map fst scored = pending \<and>
    mset queue = mset scored \<and> length ds = length queue \<and>
    fst (allocate_capital pending account corrs now al) =
      ok (accepted_of (map fst queue) ds, rejected_of (map fst queue) ds) \<and>
    mset (accepted_of (map fst queue) ds) + mset (map fst (rejected_of (map fst queue) ds)) =
      mset pending \<and>
    (\<forall>k < length queue. ds ! k =
      turn_verdict (equity account * max_portfolio_exposure_pct al)
        (equity account * max_single_asset_pct al) (max_concurrent_positions al)
        (int (length (open_positions account))) (current_exposure account)
        (accepted_of (take k (map fst queue)) (take k ds)) (fst (queue ! k))) \<and>
    (scores_ok scored \<longrightarrow>
      sorted_wrt (\<lambda>x y. \<not> total_score (snd x) < total_score (snd y)) queue \<and>
      (\<forall>v. filter (\<lambda>x. total_score (snd x) = v) queue = filter (\<lambda>x. total_score (snd x) = v) scored))"
proof -
  obtain scored where sc: "score_all al (open_positions account) corrs now pending = ok scored"
    "map fst scored = pending"
    using score_all_ok [of al "open_positions account" corrs now pending] by blast
  define queue where "queue = sort_desc scored"
  have q: "mset queue = mset scored" by (simp add: queue_def mset_sort_desc)
  obtain ds where ds: "length ds = length (map fst queue)"
    "fst (allocate_capital pending account corrs now al) =
      ok (accepted_of (map fst queue) ds, rejected_of (map fst queue) ds)"
    "\<forall>k < length (map fst queue). ds ! k =
      turn_verdict (equity account * max_portfolio_exposure_pct al)
        (equity account * max_single_asset_pct al) (max_concurrent_positions al)
        (int (length (open_positions account))) (current_exposure account)
        (accepted_of (take k (map fst queue)) (take k ds)) (map fst queue ! k)"
    using alloc_fold_verdicts [where xs = "map fst queue" and now = now and account = account and
        al = al and mx = "equity account * max_portfolio_exposure_pct al" and
        sl = "equity account * max_single_asset_pct al"]
    by (auto simp: follows_verdicts_def allocate_capital_eq [OF sc(1)] Let_def queue_def)
  have "mset (map fst queue) = mset pending" using q sc(2) by (metis mset_map)
  then show ?thesis
    using sc q ds mset_of_verdicts [OF ds(1)] sort_desc_stable [of scored] desc_sort_desc [of scored]
    by (intro exI [of _ scored] exI [of _ queue] exI [of _ ds]) (simp add: desc_def queue_def)
qed

text \<open>the limits hold at every acceptance, in the floating-point sums the code keeps: the
  number of positions with the accepted orders stays within the maximum, the running exposure
  never passes the portfolio limit, and no accepted notional passes the single-asset cap.  With
  scores that are numbers no later order of the queue scores higher than an earlier one.\<close>

theorem allocation_within_limits:
  assumes "fst (allocate_capital pending account corrs now al) = ok (acc, rej)"
  shows "within_limits (equity account * max_portfolio_exposure_pct al)
      (equity account * max_single_asset_pct al) (max_concurrent_positions al)
      (int (length (open_positions account))) (current_exposure account) acc \<and>
    (acc \<noteq> [] \<longrightarrow> int (length (open_positions account) + length acc) \<le> max_concurrent_positions al) \<and>
    (\<forall>scored. score_all al (open_positions account) corrs now pending = ok scored \<longrightarrow>
      scores_ok scored \<longrightarrow> desc (sort_desc scored))"
proof -
  obtain scored where sc: "score_all al (open_positions account) corrs now pending = ok scored"
    using score_all_ok [of al "open_positions account" corrs now pending] by blast
  have r: "within_limits (equity account * max_portfolio_exposure_pct al)
      (equity account * max_single_asset_pct al) (max_concurrent_positions al)
      (int (length (open_positions account))) (current_exposure account) acc"
    using alloc_fold_inv [OF alloc_start_inv, of "equity account * max_portfolio_exposure_pct al"
        "equity account * max_single_asset_pct al" al account "map fst (sort_desc scored)" now] assms
    by (simp add: allocate_capital_eq [OF sc] Let_def alloc_inv_def)
  have "xs \<noteq> [] \<Longrightarrow> within_limits mx sl mc n e xs \<Longrightarrow> n + int (length xs) \<le> mc" for mx sl mc n e xs
    by (induction xs rule: rev_induct) (auto simp: within_limits_snoc)
  then show ?thesis using r desc_sort_desc by auto
qed

definition sample_order :: approved_order where
  "sample_order = \<lparr>ao_asset = ''BTC'', ao_asset_class = ''crypto'', ao_side = LONG,
     ao_entry_price = Fin 100, ao_stop_price = Fin 96, ao_target_price = Fin 108,
     ao_position_size = Fin 10, ao_risk_pct = Fin (1/64), ao_issuer = ISSUER\<rparr>"

definition sample_account :: account_state where
  "sample_account = \<lparr>equity = Fin 10000, peak_equity = Fin 10000, open_positions = [],
     acc_daily_pnl_pct = 0, weekly_pnl_pct = 0, consecutive_losses = [], last_loss_at = [],
     kill_switch = False, high_volatility = False, minutes_to_next_major_event = None,
     correlations = Map.empty, day_start_settled_equity = None\<rparr>"

definition sample_allocator :: allocator where
  "sample_allocator = \<lparr>max_concurrent_positions = 5, max_portfolio_exposure_pct = Fin (1/2),
     max_single_asset_pct = Fin (1/8), last_trade_time = []\<rparr>"

lemma sample_allocation:
  "fst (allocate_capital [sample_order] sample_account [] 0 sample_allocator) = ok ([sample_order], [])"
proof -
  obtain sc where sc: "calculate_priority_score sample_allocator sample_order [] [] 0 = ok sc"
    using score_ok by blast
  then have "score_all sample_allocator (open_positions sample_account) [] 0 [sample_order] = ok [(sample_order, sc)]"
    by (simp add: sample_account_def)
  from allocate_capital_eq [OF this] show ?thesis
    by (simp add: sort_desc_def Let_def alloc_start_def alloc_step_def order_notional_def current_exposure_def
        fsum_def sample_account_def sample_allocator_def sample_order_def fl_eval float_eval zero_Fin)
qed

theorem allocation_within_limits_witness:
  "fst (allocate_capital [sample_order] sample_account [] 0 sample_allocator) = ok ([sample_order], []) \<and>
   within_limits (Fin 5000) (Fin 1250) 5 0 0 [sample_order]"
  using sample_allocation allocation_within_limits [OF sample_allocation]
  by (simp add: sample_account_def sample_allocator_def current_exposure_def fsum_def fl_eval float_eval zero_Fin)

definition better_order :: approved_order where
  "better_order = sample_order\<lparr>ao_asset := ''ETH'', ao_target_price := Fin 116\<rparr>"

lemma sample_scores:
  "\<exists>s1 s2. score_all sample_allocator (open_positions sample_account) [] 0 [sample_order, better_order] =
      ok [(sample_order, s1), (better_order, s2)] \<and>
    total_score s1 \<noteq> NaN \<and> total_score s2 \<noteq> NaN \<and> total_score s1 < total_score s2"
  by (simp add: calculate_priority_score_def Let_def sample_allocator_def sample_account_def
      sample_order_def better_order_def average_correlation_def pymin_def minus_pyfloat_def fl_eval float_eval
      zero_Fin one_Fin)

theorem allocation_sovereign_witness:
  "fst (allocate_capital [sample_order, better_order] sample_account [] 0 sample_allocator) =
    ok ([better_order, sample_order], [])"
proof -
  obtain s1 s2 where sc: "score_all sample_allocator (open_positions sample_account) [] 0
      [sample_order, better_order] = ok [(sample_order, s1), (better_order, s2)]"
    and n: "total_score s1 \<noteq> NaN" "total_score s2 \<noteq> NaN" and less: "total_score s1 < total_score s2"
    using sample_scores by blast
  have fine: "scores_ok [(sample_order, s1), (better_order, s2)]" using n by (simp add: scores_ok_def)
  obtain queue ds where q: "mset queue = mset [(sample_order, s1), (better_order, s2)]"
    "sorted_wrt (\<lambda>x y. \<not> total_score (snd x) < total_score (snd y)) queue" "length ds = length queue"
    and r: "fst (allocate_capital [sample_order, better_order] sample_account [] 0 sample_allocator) =
      ok (accepted_of (map fst queue) ds, rejected_of (map fst queue) ds)"
    and v: "\<forall>k < length queue. ds ! k = turn_verdict (Fin 5000) (Fin 1250) 5 0 0
      (accepted_of (take k (map fst queue)) (take k ds)) (fst (queue ! k))"
    using allocation_sovereign [of sample_allocator sample_account "[]" 0 "[sample_order, better_order]"]
      sc fine
    by (auto simp: sample_account_def sample_allocator_def current_exposure_def fsum_def fl_eval float_eval
        zero_Fin)
  have "length queue = 2" using q(1) by (metis length_Cons list.size(3) numeral_2_eq_2 size_mset)
  then obtain a b where ab: "queue = [a, b]" by (auto simp: numeral_2_eq_2 length_Suc_conv)
  then have queue: "queue = [(better_order, s2), (sample_order, s1)]"
    using q(1,2) less by (auto simp: add_eq_conv_diff split: if_splits)
  obtain d1 d2 where ds: "ds = [d1, d2]" using q(3) queue by (auto simp: length_Suc_conv)
  have "d1 = None" using v queue ds
    by (auto simp: turn_verdict_def accepted_of_def exposure_after_def order_notional_def better_order_def
        sample_order_def fl_eval float_eval zero_Fin dest: spec [of _ 0])
  moreover have "d2 = None" using v queue ds \<open>d1 = None\<close>
    by (auto simp: turn_verdict_def accepted_of_def exposure_after_def order_notional_def better_order_def
        sample_order_def fl_eval float_eval zero_Fin dest: spec [of _ 1])
  ultimately show ?thesis using r queue ds by (simp add: accepted_of_def rejected_of_def)
qed

end
