(* ===== verification/Shadow.thy ===== *)
theory Shadow
  imports RiskModels
begin

text \<open>
  \<open>execution/tca.py\<close> (the market impact) and \<open>execution/shadow.py\<close> (the shadow interceptor that
  fills an order against a book snapshot instead of the venue).  \<open>fsqrt\<close> is \<open>math.sqrt\<close>, the
  correctly rounded square root: the integer square root of the argument scaled to at least 120
  bits, with a sticky half where it is inexact, rounded once.  \<open>calibrate_sigma\<close> needs a
  logarithm and is left out.
\<close>

section \<open>Square root\<close>

fun isqrt :: "nat \<Rightarrow> nat" where
  "isqrt n = (if n = 0 then 0 else
     (let s = 2 * isqrt (n div 4) in if (s + 1) * (s + 1) \<le> n then s + 1 else s))"

declare isqrt.simps [simp del]

lemma isqrt_bounds: "isqrt n * isqrt n \<le> n \<and> n < (isqrt n + 1) * (isqrt n + 1)"
proof (induction n rule: isqrt.induct)
  case (1 n)
  show ?case
  proof (cases "n = 0")
    case False
    let ?s = "isqrt (n div 4)"
    have IH: "?s * ?s \<le> n div 4" "n div 4 < (?s + 1) * (?s + 1)" using 1 False by auto
    have "2 * ?s * (2 * ?s) \<le> n" using IH(1) by linarith
    moreover have "n div 4 + 1 \<le> (?s + 1) * (?s + 1)" using IH(2) by linarith
    then have "n < (2 * ?s + 2) * (2 * ?s + 2)" by (simp add: algebra_simps)
    ultimately show ?thesis using False by (simp add: isqrt.simps [of n] Let_def)
  qed (simp add: isqrt.simps)
qed

definition fsqrt :: "pyfloat \<Rightarrow> pyfloat res" where
  "fsqrt x = (case x of
     NaN \<Rightarrow> ok NaN
   | PInf \<Rightarrow> ok PInf
   | NInf \<Rightarrow> raise (ValueError ''math domain error'')
   | Fin a \<Rightarrow>
       if a < 0 then raise (ValueError ''math domain error'')
       else if a = 0 then ok 0
       else (let k = ilog2 a div 2 - 60;
                 y = a / 2 powi (2 * k);
                 s = isqrt (nat \<lfloor>y\<rfloor>);
                 v = (if of_nat (s * s) = y then of_nat s else of_nat s + 1/2)
             in ok (fl (v * 2 powi k))))"

lemma fsqrt_nonneg: "fsqrt x = ok r \<Longrightarrow> x \<noteq> NaN \<Longrightarrow> 0 \<le> r"
  by (auto simp: fsqrt_def Let_def zero_Fin [symmetric] zero_le_mult_iff intro!: fl_nonneg
      split: pyfloat.splits if_splits) (auto simp: zero_Fin)

lemma fsqrt_ok: "0 \<le> x \<Longrightarrow> \<exists>r. fsqrt x = ok r"
  by (cases x) (auto simp: fsqrt_def Let_def zero_Fin)

section \<open>Market impact\<close>

definition calculate_market_impact ::
  "pyfloat \<Rightarrow> pyfloat \<Rightarrow> pyfloat \<Rightarrow> pyfloat \<Rightarrow> pyfloat \<Rightarrow> (pyfloat \<times> pyfloat \<times> bool) res" where
  "calculate_market_impact order_notional adv_notional sigma gamma max_participation_pct =
    (if adv_notional \<le> 0 then ok (fl (1/1000), order_notional, False)
     else rbind (fdiv order_notional adv_notional) (\<lambda>participation.
       if max_participation_pct < participation then
         rbind (fsqrt max_participation_pct) (\<lambda>r.
           ok (gamma * sigma * r, adv_notional * max_participation_pct, True))
       else rbind (fsqrt participation) (\<lambda>r. ok (gamma * sigma * r, order_notional, False))))"

section \<open>The interceptor\<close>

record l2_book =
  bk_symbol :: string
  bk_bids :: "(pyfloat \<times> pyfloat) list"
  bk_asks :: "(pyfloat \<times> pyfloat) list"
  bk_timestamp_ms :: pyfloat

datatype shadow_reason = LIQUIDITY_DEFICIT_EMPTY_BOOK | SHADOW_FILL | LIQUIDITY_DEFICIT_SHADOW_FILL

record shadow_fill_result =
  sf_client_order_id :: string
  sf_asset :: string
  sf_side :: side
  sf_requested_qty :: pyfloat
  sf_filled_qty :: pyfloat
  sf_fill_price :: pyfloat
  sf_slippage_pct :: pyfloat
  sf_was_capped :: bool
  sf_reason :: shadow_reason

record interceptor =
  si_max_participation_pct :: pyfloat
  shadow_fills :: "shadow_fill_result list"

definition new_interceptor :: interceptor where
  "new_interceptor = \<lparr>si_max_participation_pct = fl (3/100), shadow_fills = []\<rparr>"

text \<open>The walk over the levels: remaining quantity, accumulated cost, filled quantity.\<close>

fun walk_book ::
  "(pyfloat \<times> pyfloat) list \<Rightarrow> pyfloat \<Rightarrow> pyfloat \<Rightarrow> pyfloat \<Rightarrow> pyfloat \<times> pyfloat \<times> pyfloat" where
  "walk_book [] rest cost filled = (rest, cost, filled)"
| "walk_book ((price, depth) # levels) rest cost filled =
    (let take_qty = pymin rest depth;
         cost' = cost + take_qty * price;
         filled' = filled + take_qty;
         rest' = rest - take_qty
     in if rest' \<le> 0 then (rest', cost', filled') else walk_book levels rest' cost' filled')"

definition book_side :: "side \<Rightarrow> l2_book \<Rightarrow> (pyfloat \<times> pyfloat) list" where
  "book_side sd bk = (if sd = LONG then bk_asks bk else bk_bids bk)"

definition execute_shadow_fill ::
  "approved_order \<Rightarrow> string \<Rightarrow> l2_book \<Rightarrow> pyfloat \<Rightarrow> (interceptor, shadow_fill_result) act" where
  "execute_shadow_fill order cid bk adv_notional si =
    (let levels = book_side (ao_side order) bk in
     if levels = [] then
       (let res = \<lparr>sf_client_order_id = cid, sf_asset = ao_asset order, sf_side = ao_side order,
              sf_requested_qty = ao_position_size order, sf_filled_qty = 0,
              sf_fill_price = ao_entry_price order, sf_slippage_pct = 0, sf_was_capped = True,
              sf_reason = LIQUIDITY_DEFICIT_EMPTY_BOOK\<rparr>
        in (ok res, si\<lparr>shadow_fills := shadow_fills si @ [res]\<rparr>))
     else
       (case walk_book levels (ao_position_size order) 0 0 of (remaining_qty, cost, filled_qty) \<Rightarrow>
         (let capped = 0 < remaining_qty;
              result = rbind (if 0 < filled_qty then fdiv cost filled_qty else ok (ao_entry_price order)) (\<lambda>vwap.
                rbind (calculate_market_impact (filled_qty * vwap) adv_notional (fl (2/100)) (fl (1/2))
                    (si_max_participation_pct si)) (\<lambda>(impact_pct, _, impact_capped).
                let sgn = (if ao_side order = LONG then 1 else - 1);
                    price = vwap * (1 + sgn * impact_pct)
                in rbind (fdiv \<bar>price - ao_entry_price order\<bar> (ao_entry_price order)) (\<lambda>slip.
                  ok \<lparr>sf_client_order_id = cid, sf_asset = ao_asset order, sf_side = ao_side order,
                    sf_requested_qty = ao_position_size order, sf_filled_qty = filled_qty,
                    sf_fill_price = price, sf_slippage_pct = slip,
                    sf_was_capped = (capped \<or> impact_capped),
                    sf_reason = (if capped \<or> impact_capped then LIQUIDITY_DEFICIT_SHADOW_FILL
                                 else SHADOW_FILL)\<rparr>)))
          in case result of
               Inl e \<Rightarrow> (Inl e, si)
             | Inr res \<Rightarrow> (ok res, si\<lparr>shadow_fills := shadow_fills si @ [res]\<rparr>))))"

section \<open>Lemmas\<close>

text \<open>A quantity: a finite float that is not negative.\<close>

definition qty :: "pyfloat \<Rightarrow> bool" where
  "qty x \<longleftrightarrow> is_float x \<and> is_finite x \<and> 0 \<le> x"

lemma qtyE:
  assumes "qty x"
  obtains a where "x = Fin a" "0 \<le> a" "rnd64 a = a" "\<bar>a\<bar> < 2 ^ 1024"
  using assms by (cases x) (auto simp: qty_def is_finite_def is_float_def zero_Fin)

lemma qty_pymin: "qty x \<Longrightarrow> qty y \<Longrightarrow> qty (pymin x y)"
  using pymin_cases [of x y] by auto

lemma pymin_le_right: "qty x \<Longrightarrow> qty y \<Longrightarrow> pymin x y \<le> y"
  by (erule qtyE; erule qtyE) (auto simp: pymin_def)

lemma pymin_le_left: "qty x \<Longrightarrow> qty y \<Longrightarrow> pymin x y \<le> x"
  by (erule qtyE; erule qtyE) (auto simp: pymin_def)

lemma qty_diff:
  assumes "qty x" "qty y" "y \<le> x"
  shows "qty (x - y)"
proof -
  obtain a where a: "x = Fin a" "0 \<le> a" "rnd64 a = a" "\<bar>a\<bar> < 2 ^ 1024" using assms(1) by (rule qtyE)
  obtain b where b: "y = Fin b" "0 \<le> b" using assms(2) by (rule qtyE)
  have "fl (a - b) \<le> Fin a" using a b by (intro fl_le_Fin) auto
  moreover have "0 \<le> fl (a - b)" using a b assms(3) by (intro fl_nonneg) simp
  ultimately show ?thesis
    using is_float_fl [of "a - b"]
    by (cases "fl (a - b)") (auto simp: qty_def a b minus_pyfloat_def is_finite_def zero_Fin)
qed

lemma nonneg_add: "0 \<le> x \<Longrightarrow> 0 \<le> y \<Longrightarrow> 0 \<le> x + (y :: pyfloat)"
  by (cases x; cases y) (auto simp: zero_Fin intro: fl_nonneg [unfolded zero_Fin])

lemma nonneg_not_nan: "0 \<le> (x :: pyfloat) \<Longrightarrow> x \<noteq> NaN"
  by auto

lemma add_mono2: "0 \<le> a \<Longrightarrow> a \<le> b \<Longrightarrow> 0 \<le> c \<Longrightarrow> c \<le> d \<Longrightarrow> a + c \<le> b + (d :: pyfloat)"
proof -
  assume h: "0 \<le> a" "a \<le> b" "0 \<le> c" "c \<le> d"
  have b: "0 \<le> b" and d: "0 \<le> d" using h le_trans_pyfloat by blast+
  have "a + c \<le> b + c"
    using h(2) nonneg_not_nan [OF nonneg_add] h(1,3) b by (intro add_mono_pyfloat) blast+
  moreover have "c + b \<le> d + b"
    using h(4) nonneg_not_nan [OF nonneg_add] h(3) b d by (intro add_mono_pyfloat) blast+
  ultimately show ?thesis using le_trans_pyfloat by (simp add: add_commute_pyfloat)
qed

lemma le_add_nonneg:
  assumes "is_float x" "0 \<le> x" "0 \<le> y"
  shows "x \<le> x + (y :: pyfloat)"
  using assms
  by (cases x; cases y) (auto simp: zero_Fin is_float_def intro: fl_ge_Fin)

definition levels_ok :: "(pyfloat \<times> pyfloat) list \<Rightarrow> bool" where
  "levels_ok = list_all (\<lambda>(price, depth). qty price \<and> qty depth)"

definition book_depth :: "pyfloat \<Rightarrow> (pyfloat \<times> pyfloat) list \<Rightarrow> pyfloat" where
  "book_depth = foldl (\<lambda>s (price, depth). s + depth)"

lemma book_depth_ge: "levels_ok ls \<Longrightarrow> is_float d \<Longrightarrow> 0 \<le> d \<Longrightarrow> d \<le> book_depth d ls"
proof (induction ls arbitrary: d)
  case Nil
  then show ?case by (simp add: book_depth_def le_refl_pyfloat nonneg_not_nan)
next
  case (Cons l ls)
  obtain p q where l: "l = (p, q)" by force
  have q: "0 \<le> q" using Cons.prems(1) by (simp add: levels_ok_def l qty_def)
  have "d + q \<le> book_depth (d + q) ls"
    using Cons.prems q by (intro Cons.IH) (auto simp: levels_ok_def nonneg_add)
  then show ?case
    using le_add_nonneg [OF Cons.prems(2,3) q] le_trans_pyfloat by (simp add: book_depth_def l)
qed

lemma walk_book_bounds:
  assumes "levels_ok ls" "qty rest" "is_float filled" "0 \<le> filled" "is_float d" "filled \<le> d"
    "walk_book ls rest cost filled = (rest', cost', filled')"
  shows "filled \<le> filled' \<and> filled' \<le> book_depth d ls \<and> qty rest' \<and> rest' \<le> rest"
  using assms
proof (induction ls arbitrary: rest cost filled d)
  case Nil
  then show ?case
    by (auto simp: book_depth_def qty_def le_refl_pyfloat nonneg_not_nan)
next
  case (Cons l ls)
  obtain p q where l: "l = (p, q)" by force
  define t where "t = pymin rest q"
  have q: "qty q" and ls: "levels_ok ls" using Cons.prems(1) by (auto simp: levels_ok_def l)
  have t: "qty t" "t \<le> q" "t \<le> rest"
    unfolding t_def using q Cons.prems(2) by (auto intro: qty_pymin pymin_le_right pymin_le_left)
  have r: "qty (rest - t)" using Cons.prems(2) t by (intro qty_diff)
  have r': "rest - t \<le> rest"
    using Cons.prems(2) t by (elim qtyE) (auto simp: minus_pyfloat_def intro: fl_le_Fin)
  have t0: "0 \<le> t" using t(1) by (simp add: qty_def)
  have f: "0 \<le> filled + t" using Cons.prems(4) t0 by (rule nonneg_add)
  have f2: "filled \<le> filled + t" using Cons.prems(3,4) t0 by (rule le_add_nonneg)
  have f3: "filled + t \<le> d + q" using Cons.prems(4,6) t0 t(2) by (rule add_mono2)
  have dq: "0 \<le> d + q" using f f3 by (rule le_trans_pyfloat)
  have bd: "book_depth d (l # ls) = book_depth (d + q) ls" by (simp add: book_depth_def l)
  show ?case
  proof (cases "rest - t \<le> 0")
    case True
    then have e: "rest' = rest - t" "filled' = filled + t"
      using Cons.prems(7) by (auto simp: l Let_def t_def)
    have "d + q \<le> book_depth (d + q) ls" by (rule book_depth_ge [OF ls _ dq]) simp
    then show ?thesis unfolding e bd using f2 f3 r r' le_trans_pyfloat by blast
  next
    case False
    then have "walk_book ls (rest - t) (cost + t * p) (filled + t) = (rest', cost', filled')"
      using Cons.prems(7) by (simp add: l Let_def t_def)
    from Cons.IH [OF ls r _ f _ f3 this] show ?thesis
      unfolding bd using f2 r' le_trans_pyfloat by simp blast
  qed
qed

lemma qty_0: "qty 0"
  by (simp add: qty_def is_finite_def zero_Fin is_float_def)

section \<open>Properties\<close>

text \<open>a shadow fill is never forced beyond the book: against levels with finite prices and
  depths the filled quantity is between zero and the book's depth on the order's side (an empty
  side fills nothing), a fill reported as complete left nothing unfilled, the result is
  recorded, and the order's identity and requested quantity are kept.\<close>

theorem shadow_fill_within_book:
  assumes "levels_ok (book_side (ao_side order) bk)" "qty (ao_position_size order)"
    and "execute_shadow_fill order cid bk adv si = (ok res, si')"
  shows "0 \<le> sf_filled_qty res \<and> sf_filled_qty res \<le> book_depth 0 (book_side (ao_side order) bk) \<and>
    (book_side (ao_side order) bk = [] \<longrightarrow> sf_filled_qty res = 0 \<and> sf_was_capped res) \<and>
    (sf_reason res = SHADOW_FILL \<longrightarrow>
      (\<exists>cost. walk_book (book_side (ao_side order) bk) (ao_position_size order) 0 0 = (0, cost, sf_filled_qty res))) \<and>
    shadow_fills si' = shadow_fills si @ [res] \<and> sf_client_order_id res = cid \<and>
    sf_requested_qty res = ao_position_size order \<and> sf_side res = ao_side order"
proof (cases "book_side (ao_side order) bk = []")
  case True
  then show ?thesis using assms(3) by (auto simp: execute_shadow_fill_def book_depth_def Let_def zero_Fin)
next
  case False
  obtain rest cost filled where w:
    "walk_book (book_side (ao_side order) bk) (ao_position_size order) 0 0 = (rest, cost, filled)"
    by (cases "walk_book (book_side (ao_side order) bk) (ao_position_size order) 0 0") auto
  have b: "0 \<le> filled \<and> filled \<le> book_depth 0 (book_side (ao_side order) bk) \<and> qty rest \<and>
      rest \<le> ao_position_size order"
    using walk_book_bounds [OF assms(1,2) _ _ _ _ w, of 0] by (simp add: zero_Fin is_float_def)
  have "rest = 0" if "\<not> 0 < rest" using b that by (auto elim!: qtyE simp: zero_Fin)
  then show ?thesis
    using assms(3) b w False
    by (auto simp: execute_shadow_fill_def Let_def rbind_eq_Inr split: sum.splits if_splits)
qed

definition sample_book :: l2_book where
  "sample_book = \<lparr>bk_symbol = ''BTC'', bk_bids = [], bk_asks = [(Fin 100, Fin 2), (Fin 101, Fin 3)],
     bk_timestamp_ms = 0\<rparr>"

definition shadow_order :: approved_order where
  "shadow_order = \<lparr>ao_asset = ''BTC'', ao_asset_class = ''crypto'', ao_side = SHORT,
     ao_entry_price = Fin 100, ao_stop_price = Fin 104, ao_target_price = Fin 90,
     ao_position_size = Fin 4, ao_risk_pct = Fin (1/64), ao_issuer = ISSUER\<rparr>"

lemma long_fill: "\<exists>res si'. execute_shadow_fill (shadow_order\<lparr>ao_side := LONG\<rparr>) ''c1'' sample_book (Fin 0)
    new_interceptor = (ok res, si') \<and> sf_filled_qty res = Fin 4"
  by (simp add: execute_shadow_fill_def Let_def book_side_def sample_book_def shadow_order_def
      new_interceptor_def calculate_market_impact_def pymin_def minus_pyfloat_def fsqrt_def
      fl_eval float_eval zero_Fin)
theorem shadow_fill_within_book_witness:
  "\<exists>res si'. execute_shadow_fill (shadow_order\<lparr>ao_side := LONG\<rparr>) ''c1'' sample_book (Fin 0)
     new_interceptor = (ok res, si') \<and> sf_filled_qty res = Fin 4 \<and>
     sf_filled_qty res \<le> book_depth 0 (bk_asks sample_book) \<and> shadow_fills si' = [res]"
proof -
  obtain res si' where r: "execute_shadow_fill (shadow_order\<lparr>ao_side := LONG\<rparr>) ''c1'' sample_book
      (Fin 0) new_interceptor = (ok res, si')" "sf_filled_qty res = Fin 4"
    using long_fill by blast
  have "levels_ok (book_side LONG sample_book)" "qty (Fin 4)"
    by (simp_all add: levels_ok_def book_side_def sample_book_def qty_def is_finite_def is_float_def
        zero_Fin float_eval)
  then show ?thesis
    using shadow_fill_within_book [OF _ _ r(1)] r
    by (simp add: book_side_def shadow_order_def new_interceptor_def)
qed

end
