(* ===== verification/Venue.thy ===== *)
theory Venue
  imports RiskModels
begin

text \<open>
  \<open>execution/venue_adapter.py\<close>: the abstract \<open>VenueAdapter\<close> is the record \<open>venue_api\<close> of its
  operations over a venue state; the locale \<open>venue\<close> states what its clients rely on, and
  \<open>MockVenueAdapter\<close> is the instance the repository provides.  A response is the dictionary
  the adapters return, a key that may be missing an option.
\<close>

section \<open>The interface\<close>

record instrument_info =
  in_symbol :: string
  min_qty :: pyfloat
  min_notional :: pyfloat
  step_size :: pyfloat
  price_precision :: int

definition default_instrument :: "string \<Rightarrow> instrument_info" where
  "default_instrument sy = \<lparr>in_symbol = sy, min_qty = fl (1/1000), min_notional = fl 10,
     step_size = fl (1/10000), price_precision = 2\<rparr>"

record venue_response =
  vr_id :: "string option"
  vr_client_order_id :: "string option"
  vr_symbol :: "string option"
  vr_side :: "side option"
  vr_price :: "pyfloat option"
  vr_amount :: "pyfloat option"
  vr_status :: "string option"

record venue_position =
  vp_symbol :: "string option"
  vp_amount :: "pyfloat option"
  vp_asset_class :: "string option"

record 'v venue_api =
  create_order :: "approved_order \<Rightarrow> string \<Rightarrow> ('v, venue_response) act"
  create_exit :: "approved_exit \<Rightarrow> string \<Rightarrow> ('v, venue_response) act"
  cancel_order :: "string \<Rightarrow> string \<Rightarrow> ('v, venue_response) act"
  fetch_order :: "string \<Rightarrow> string \<Rightarrow> ('v, venue_response option) act"
  fetch_open_orders :: "string option \<Rightarrow> ('v, venue_response list) act"
  fetch_positions :: "('v, venue_position list) act"
  get_instrument_info :: "string \<Rightarrow> ('v, instrument_info) act"

text \<open>
  What the order management relies on: queries do not change the venue, a created order is
  found under its client id with status open, a canceled one with status canceled, and an
  operation on one client id leaves the others alone.
\<close>

locale venue =
  fixes api :: "'v venue_api"
  assumes fetch_pure: "snd (fetch_order api cid sy v) = v"
    and created: "create_order api ord cid v = (ok r, v') \<Longrightarrow>
      \<exists>q. fetch_order api cid sy v' = (ok (Some q), v') \<and> vr_status q = Some ''open''"
    and created_others: "create_order api ord cid v = (res, v') \<Longrightarrow> cid' \<noteq> cid \<Longrightarrow>
      fst (fetch_order api cid' sy v') = fst (fetch_order api cid' sy v)"
    and canceled: "cancel_order api cid sy v = (ok r, v') \<Longrightarrow>
      \<exists>q. fetch_order api cid sy' v' = (ok (Some q), v') \<and> vr_status q = Some ''canceled''"
    and canceled_others: "cancel_order api cid sy v = (res, v') \<Longrightarrow> cid' \<noteq> cid \<Longrightarrow>
      fst (fetch_order api cid' sy' v') = fst (fetch_order api cid' sy' v)"
begin

lemma fetch_eq: "fetch_order api cid sy v = (fst (fetch_order api cid sy v), v)"
  by (metis fetch_pure prod.collapse)

text \<open>An open order is not lost while other orders are created and canceled.\<close>

lemma open_survives_create:
  assumes "fetch_order api cid sy v = (ok (Some q), v)" "create_order api ord cid' v = (r, v')" "cid' \<noteq> cid"
  shows "fetch_order api cid sy v' = (ok (Some q), v')"
  using created_others [OF assms(2), of cid sy] assms(1,3) fetch_eq [of cid sy v'] by simp

lemma open_survives_cancel:
  assumes "fetch_order api cid sy v = (ok (Some q), v)" "cancel_order api cid' sy' v = (r, v')" "cid' \<noteq> cid"
  shows "fetch_order api cid sy v' = (ok (Some q), v')"
  using canceled_others [OF assms(2), of cid sy] assms(1,3) fetch_eq [of cid sy v'] by simp

end

section \<open>The mock venue\<close>

record mock_venue =
  mv_orders :: "(string, venue_response) dict"
  mv_positions :: "(string, venue_position) dict"
  mv_instruments :: "(string, instrument_info) dict"

definition new_mock_venue :: "(string, instrument_info) dict \<Rightarrow> mock_venue" where
  "new_mock_venue instruments = \<lparr>mv_orders = [], mv_positions = [], mv_instruments = instruments\<rparr>"

definition mock_create_order :: "approved_order \<Rightarrow> string \<Rightarrow> (mock_venue, venue_response) act" where
  "mock_create_order order cid v =
    (let resp = \<lparr>vr_id = Some (''ex_'' @ cid), vr_client_order_id = Some cid,
         vr_symbol = Some (ao_asset order), vr_side = Some (ao_side order),
         vr_price = Some (ao_entry_price order), vr_amount = Some (ao_position_size order),
         vr_status = Some ''open''\<rparr>
     in (ok resp, v\<lparr>mv_orders := dset cid resp (mv_orders v)\<rparr>))"

definition mock_create_exit :: "approved_exit \<Rightarrow> string \<Rightarrow> (mock_venue, venue_response) act" where
  "mock_create_exit ex cid v =
    (let resp = \<lparr>vr_id = Some (''ex_exit_'' @ cid), vr_client_order_id = Some cid,
         vr_symbol = Some (ax_asset ex), vr_side = None, vr_price = None, vr_amount = None,
         vr_status = Some ''closed''\<rparr>
     in (ok resp, v\<lparr>mv_orders := dset cid resp (mv_orders v)\<rparr>))"

definition mock_cancel_order :: "string \<Rightarrow> string \<Rightarrow> (mock_venue, venue_response) act" where
  "mock_cancel_order cid sy v =
    (let resp = (case dget (mv_orders v) cid of
          Some r \<Rightarrow> r\<lparr>vr_status := Some ''canceled''\<rparr>
        | None \<Rightarrow> \<lparr>vr_id = Some (''ex_cancel_'' @ cid), vr_client_order_id = Some cid,
            vr_symbol = None, vr_side = None, vr_price = None, vr_amount = None,
            vr_status = Some ''canceled''\<rparr>)
     in (ok resp, v\<lparr>mv_orders := dset cid resp (mv_orders v)\<rparr>))"

definition mock_fetch_order :: "string \<Rightarrow> string \<Rightarrow> (mock_venue, venue_response option) act" where
  "mock_fetch_order cid sy v = (ok (dget (mv_orders v) cid), v)"

definition mock_fetch_open_orders :: "string option \<Rightarrow> (mock_venue, venue_response list) act" where
  "mock_fetch_open_orders sy v =
    (ok (filter (\<lambda>r. vr_status r \<in> {Some ''open'', Some ''submitted''}) (dvalues (mv_orders v))), v)"

definition mock_fetch_positions :: "(mock_venue, venue_position list) act" where
  "mock_fetch_positions v = (ok (dvalues (mv_positions v)), v)"

definition mock_get_instrument_info :: "string \<Rightarrow> (mock_venue, instrument_info) act" where
  "mock_get_instrument_info sy v = (ok (dget_or (mv_instruments v) sy (default_instrument sy)), v)"

definition mock_api :: "mock_venue venue_api" where
  "mock_api = \<lparr>create_order = mock_create_order, create_exit = mock_create_exit,
     cancel_order = mock_cancel_order, fetch_order = mock_fetch_order,
     fetch_open_orders = mock_fetch_open_orders, fetch_positions = mock_fetch_positions,
     get_instrument_info = mock_get_instrument_info\<rparr>"

lemma mock_api_simps [simp]:
  "create_order mock_api = mock_create_order" "create_exit mock_api = mock_create_exit"
  "cancel_order mock_api = mock_cancel_order" "fetch_order mock_api = mock_fetch_order"
  "fetch_open_orders mock_api = mock_fetch_open_orders" "fetch_positions mock_api = mock_fetch_positions"
  "get_instrument_info mock_api = mock_get_instrument_info"
  by (simp_all add: mock_api_def)

interpretation mock: venue mock_api
  by unfold_locales
    (auto simp: mock_fetch_order_def mock_create_order_def mock_cancel_order_def Let_def dict_simps
      split: option.splits)

end
