(* ===== verification/Outbox.thy ===== *)
theory Outbox
  imports OrderStateMachine
begin

text \<open>
  \<open>execution/outbox.py\<close>: the order-intent table and the three statements the code runs on it.
  A table is the list of its rows; the statements have their SQL meaning (the insert does
  nothing when the client id exists, \<open>COALESCE\<close> keeps the stored id when the new one is NULL).
  The status column holds the enum's string value.
\<close>

record order_intent =
  oi_client_order_id :: string
  oi_strategy_id :: string
  oi_signal_id :: string
  oi_asset :: string
  oi_side :: string
  oi_price :: pyfloat
  oi_stop_price :: pyfloat
  oi_quantity :: pyfloat
  oi_created_at :: int
  oi_status :: order_state
  oi_exchange_order_id :: "string option"

text \<open>A row: the intent's columns, the status as text.\<close>

record order_row =
  row_intent :: order_intent
  row_status :: string

type_synonym outbox = "order_row list"

text \<open>\<open>uid\<close> is the random UUID.\<close>

definition generate_client_order_id :: "string \<Rightarrow> string \<Rightarrow> string \<Rightarrow> string" where
  "generate_client_order_id strategy_id signal_id uid = strategy_id @ '':'' @ signal_id @ '':'' @ uid"

definition row_cid :: "order_row \<Rightarrow> string" where
  "row_cid r = oi_client_order_id (row_intent r)"

definition save_intent :: "order_intent \<Rightarrow> outbox \<Rightarrow> outbox" where
  "save_intent i t = (if oi_client_order_id i \<in> set (map row_cid t) then t
     else t @ [\<lparr>row_intent = i, row_status = order_state_value (oi_status i)\<rparr>])"

definition order_states :: "order_state list" where
  "order_states = [CREATED, SUBMITTED, ACKED, FILLED, PARTIALLY_FILLED, PARTIAL_FILL_FINALIZED,
     CANCELED, REJECTED, EXPIRED, QUARANTINED, UNKNOWN]"

text \<open>\<open>OrderState(value)\<close>.\<close>

definition order_state_of_value :: "string \<Rightarrow> order_state res" where
  "order_state_of_value s = (case filter (\<lambda>st. order_state_value st = s) order_states of
     [] \<Rightarrow> raise (ValueError ''OrderState'') | st # _ \<Rightarrow> ok st)"

definition row_to_intent :: "order_row \<Rightarrow> order_intent res" where
  "row_to_intent r = rbind (order_state_of_value (row_status r)) (\<lambda>st. ok ((row_intent r)\<lparr>oi_status := st\<rparr>))"

fun rows_to_intents :: "order_row list \<Rightarrow> order_intent list res" where
  "rows_to_intents [] = ok []"
| "rows_to_intents (r # rs) = rbind (row_to_intent r) (\<lambda>i. rbind (rows_to_intents rs) (\<lambda>is. ok (i # is)))"

definition get_pending_intents :: "outbox \<Rightarrow> order_intent list res" where
  "get_pending_intents t = rows_to_intents (filter (\<lambda>r. row_status r \<in> {''created'', ''submitted''}) t)"

definition update_status :: "string \<Rightarrow> order_state \<Rightarrow> string option \<Rightarrow> outbox \<Rightarrow> outbox" where
  "update_status cid status ex_id t = map (\<lambda>r. if row_cid r = cid
     then r\<lparr>row_status := order_state_value status,
            row_intent := (row_intent r)\<lparr>oi_exchange_order_id :=
              (case ex_id of None \<Rightarrow> oi_exchange_order_id (row_intent r) | Some x \<Rightarrow> Some x)\<rparr>\<rparr>
     else r) t"

definition find_row :: "outbox \<Rightarrow> string \<Rightarrow> order_row option" where
  "find_row t cid = find (\<lambda>r. row_cid r = cid) t"

section \<open>Lemmas\<close>

lemma order_state_roundtrip [simp]: "order_state_of_value (order_state_value st) = ok st"
  by (cases st) (simp_all add: order_state_of_value_def order_states_def)

lemma order_state_value_inj: "order_state_value s = order_state_value t \<longleftrightarrow> s = t"
  by (metis order_state_roundtrip sum.inject(2))

lemma rows_to_intents_append:
  "rows_to_intents (xs @ ys) = rbind (rows_to_intents xs) (\<lambda>a. rbind (rows_to_intents ys) (\<lambda>b. ok (a @ b)))"
  by (induction xs) (auto simp: rbind_def split: sum.splits)

lemma row_cid_simps [simp]: "row_cid (r\<lparr>row_status := s\<rparr>) = row_cid r"
  "row_cid (r\<lparr>row_intent := (row_intent r)\<lparr>oi_exchange_order_id := x\<rparr>\<rparr>) = row_cid r"
  by (simp_all add: row_cid_def)

lemma cids_update_status [simp]: "map row_cid (update_status cid st x t) = map row_cid t"
  by (auto simp: update_status_def row_cid_def)

lemma update_status_absent: "cid \<notin> set (map row_cid t) \<Longrightarrow> update_status cid st x t = t"
  by (induction t) (auto simp: update_status_def)

lemma update_status_snoc:
  "update_status cid st x (t @ [r]) = update_status cid st x t @ update_status cid st x [r]"
  by (simp add: update_status_def)

lemma value_created [simp]: "order_state_value s = ''created'' \<longleftrightarrow> s = CREATED"
  by (cases s) simp_all

lemma value_submitted [simp]: "order_state_value s = ''submitted'' \<longleftrightarrow> s = SUBMITTED"
  by (cases s) simp_all

text \<open>What a last row adds to the pending intents.\<close>

lemma pending_snoc:
  "get_pending_intents (t @ [\<lparr>row_intent = i, row_status = order_state_value st\<rparr>]) =
    rbind (get_pending_intents t) (\<lambda>old.
      ok (if st \<in> {CREATED, SUBMITTED} then old @ [i\<lparr>oi_status := st\<rparr>] else old))"
  by (cases "rows_to_intents (filter (\<lambda>r. row_status r \<in> {''created'', ''submitted''}) t)")
    (simp_all add: get_pending_intents_def rows_to_intents_append row_to_intent_def)

section \<open>Properties\<close>

text \<open>an intent is pending from its first save until its status leaves created and
  submitted: saving a new intent appends it to the pending ones exactly when its status is one
  of the two, saving it again changes nothing, a later status other than those takes it out
  and leaves the other pending intents as they were.\<close>

theorem outbox_pending_roundtrip:
  assumes "oi_client_order_id i \<notin> set (map row_cid t)" "get_pending_intents t = ok old"
  shows "get_pending_intents (save_intent i t) =
      ok (if oi_status i \<in> {CREATED, SUBMITTED} then old @ [i] else old) \<and>
    (oi_client_order_id j = oi_client_order_id i \<longrightarrow> save_intent j (save_intent i t) = save_intent i t) \<and>
    get_pending_intents (update_status (oi_client_order_id i) st x (save_intent i t)) =
      ok (if st \<in> {CREATED, SUBMITTED} then old @ [i\<lparr>oi_status := st,
            oi_exchange_order_id := (case x of None \<Rightarrow> oi_exchange_order_id i | Some y \<Rightarrow> Some y)\<rparr>] else old)"
proof (intro conjI impI)
  let ?r = "\<lparr>row_intent = i, row_status = order_state_value (oi_status i)\<rparr>"
  have s: "save_intent i t = t @ [?r]" using assms(1) by (simp add: save_intent_def)
  show "get_pending_intents (save_intent i t) =
      ok (if oi_status i \<in> {CREATED, SUBMITTED} then old @ [i] else old)"
    using assms(2) by (simp add: s pending_snoc)
  show "save_intent j (save_intent i t) = save_intent i t"
    if "oi_client_order_id j = oi_client_order_id i"
    using that by (simp add: s save_intent_def row_cid_def)
  show "get_pending_intents (update_status (oi_client_order_id i) st x (save_intent i t)) =
      ok (if st \<in> {CREATED, SUBMITTED} then old @ [i\<lparr>oi_status := st,
            oi_exchange_order_id := (case x of None \<Rightarrow> oi_exchange_order_id i | Some y \<Rightarrow> Some y)\<rparr>] else old)"
  proof -
    have "update_status (oi_client_order_id i) st x [?r] = [\<lparr>row_intent = i\<lparr>oi_exchange_order_id :=
        (case x of None \<Rightarrow> oi_exchange_order_id i | Some y \<Rightarrow> Some y)\<rparr>, row_status = order_state_value st\<rparr>]"
      by (cases x) (simp_all add: update_status_def row_cid_def)
    then show ?thesis
      using assms(2) by (simp add: s update_status_snoc update_status_absent [OF assms(1)] pending_snoc)
  qed
qed

definition sample_intent :: order_intent where
  "sample_intent = \<lparr>oi_client_order_id = ''c1'', oi_strategy_id = ''s'', oi_signal_id = ''g'',
     oi_asset = ''BTC'', oi_side = ''long'', oi_price = Fin 100, oi_stop_price = Fin 95,
     oi_quantity = Fin 1, oi_created_at = 0, oi_status = CREATED, oi_exchange_order_id = None\<rparr>"

theorem outbox_pending_roundtrip_witness:
  "get_pending_intents (save_intent sample_intent []) = ok [sample_intent] \<and>
   get_pending_intents (update_status ''c1'' FILLED None (save_intent sample_intent [])) = ok []"
  using outbox_pending_roundtrip [of sample_intent "[]" "[]" sample_intent FILLED None]
  by (simp add: sample_intent_def get_pending_intents_def)

end
