(* ===== verification/Oms.thy ===== *)
theory Oms
  imports OrderStateMachine Money Staleness Venue Outbox Shadow
begin

text \<open>
  \<open>execution/oms.py\<close>: the order management system.  The objects it shares with its
  collaborators (venue, working orders of the chaser, staleness sentinel, shadow interceptor,
  outbox) and its own dictionaries are the record \<open>exec_state\<close>; which collaborators are
  configured is the record \<open>oms_config\<close>.  Each coroutine runs as one step: interleavings at
  its awaits are not modelled.  A method that raises keeps what it changed before.
\<close>

section \<open>State\<close>

record working_order =
  wo_client_order_id :: string
  wo_symbol :: string
  wo_side :: side
  submitted_price :: pyfloat
  wo_stop_price :: pyfloat
  requested_qty :: pyfloat
  wo_filled_qty :: pyfloat
  last_fill_time_ms :: pyfloat
  wo_status :: order_state

text \<open>An entry registered by a late finalization has no side.\<close>

record order_record =
  or_asset :: string
  or_side :: "side option"
  or_intended_qty :: pyfloat

record 'v oms_config =
  oc_api :: "'v venue_api"
  oc_instruments :: "(string, string) dict option"
  oc_outbox :: bool
  oc_sentinel :: bool
  oc_shadow :: bool
  oc_chaser :: bool
  oc_mode :: execution_mode

record 'v exec_state =
  ex_venue :: 'v
  ex_working :: "(string, working_order) dict"
  ex_sentinel :: sentinel
  ex_shadow :: interceptor
  ex_outbox :: outbox
  active_orders :: "(string, order_state) dict"
  risk_deviations :: "risk_deviation_event list"
  order_records :: "(string, order_record) dict"
  order_fills :: "(string, pyfloat) dict"
  positions :: "(string, pyfloat) dict"

definition new_oms :: "'v \<Rightarrow> sentinel \<Rightarrow> interceptor \<Rightarrow> 'v exec_state" where
  "new_oms v sen si = \<lparr>ex_venue = v, ex_working = [], ex_sentinel = sen, ex_shadow = si, ex_outbox = [],
     active_orders = [], risk_deviations = [], order_records = [], order_fills = [], positions = []\<rparr>"

text \<open>Running a venue operation on the shared venue.\<close>

definition on_venue :: "('v, 'a) act \<Rightarrow> ('v exec_state, 'a) act" where
  "on_venue f s = (case f (ex_venue s) of (r, v) \<Rightarrow> (r, s\<lparr>ex_venue := v\<rparr>))"

section \<open>State transitions\<close>

definition is_illegal :: "pyerr \<Rightarrow> bool" where
  "is_illegal e = (case e of IllegalTransitionError _ _ \<Rightarrow> True | _ \<Rightarrow> False)"

definition commit ::
  "'v oms_config \<Rightarrow> string \<Rightarrow> pyfloat option \<Rightarrow> string option \<Rightarrow> order_state \<Rightarrow> ('v exec_state, order_state) act" where
  "commit cfg cid fill_qty ex_id new_state s =
    (let s1 = s\<lparr>active_orders := dset cid new_state (active_orders s)\<rparr>;
         s2 = (case fill_qty of None \<Rightarrow> s1
           | Some q \<Rightarrow> s1\<lparr>order_fills := dset cid (dget_or (order_fills s1) cid 0 + q) (order_fills s1)\<rparr>);
         s3 = (if oc_outbox cfg then s2\<lparr>ex_outbox := update_status cid new_state ex_id (ex_outbox s2)\<rparr> else s2)
     in (ok new_state, s3))"

definition do_transition ::
  "'v oms_config \<Rightarrow> string \<Rightarrow> order_event_type \<Rightarrow> pyfloat option \<Rightarrow> string option \<Rightarrow>
   ('v exec_state, order_state) act" where
  "do_transition cfg cid ev fill_qty ex_id s =
    (let current = dget_or (active_orders s) cid CREATED;
         intended_qty = map_option or_intended_qty (dget (order_records s) cid);
         resolve = (\<lambda>cur. transition_order_state cur ev fill_qty intended_qty
           (Some (dget_or (order_fills s) cid 0)))
     in case resolve current of
          Inr new_state \<Rightarrow> commit cfg cid fill_qty ex_id new_state s
        | Inl e \<Rightarrow>
            if is_illegal e \<and> current = CREATED then
              (case transition_plain CREATED EvSUBMITTED of
                 Inl e' \<Rightarrow> (Inl e', s)
               | Inr sub \<Rightarrow>
                   (let s1 = s\<lparr>active_orders := dset cid sub (active_orders s)\<rparr>
                    in case resolve SUBMITTED of
                         Inl e' \<Rightarrow> (Inl e', s1)
                       | Inr new_state \<Rightarrow> commit cfg cid fill_qty ex_id new_state s1))
            else (Inl e, s))"

section \<open>Submission\<close>

text \<open>The order on the venue grid; \<open>None\<close> when nothing is left of it.\<close>

definition grid_order :: "'v oms_config \<Rightarrow> approved_order \<Rightarrow> approved_order option res" where
  "grid_order cfg order =
    (case (case oc_instruments cfg of None \<Rightarrow> None | Some d \<Rightarrow> dget d (ao_asset order)) of
       None \<Rightarrow> ok (Some order)
     | Some step_str \<Rightarrow>
         rbind (quantize_to_step (NumFloat (ao_position_size order)) (NumStr step_str)) (\<lambda>d.
           let grid_qty = float_of_decimal d in
           if grid_qty \<le> 0 then ok None
           else if \<not> feq grid_qty (ao_position_size order) then
             rbind (new_ApprovedOrder (order\<lparr>ao_position_size := grid_qty\<rparr>)) (\<lambda>ord. ok (Some ord))
           else ok (Some order)))"

definition register_record :: "string \<Rightarrow> approved_order \<Rightarrow> 'v exec_state \<Rightarrow> 'v exec_state" where
  "register_record cid order s = (case dget (order_records s) cid of
     Some _ \<Rightarrow> s
   | None \<Rightarrow> s\<lparr>order_records := dset cid \<lparr>or_asset = ao_asset order, or_side = Some (ao_side order),
       or_intended_qty = ao_position_size order\<rparr> (order_records s)\<rparr>)"

text \<open>Wash-trade prevention over the snapshot of the working orders.\<close>

fun wash_loop ::
  "'v oms_config \<Rightarrow> approved_order \<Rightarrow> (string \<times> working_order) list \<Rightarrow> ('v exec_state, unit) act" where
  "wash_loop cfg order [] s = (ok (), s)"
| "wash_loop cfg order ((w_cid, w) # ws) s =
    (if wo_symbol w = ao_asset order \<and> wo_side w \<noteq> ao_side order then
       abind (on_venue (cancel_order (oc_api cfg) w_cid (ao_asset order))) (\<lambda>_ s1.
         wash_loop cfg order ws (s1\<lparr>ex_working := dset w_cid (w\<lparr>wo_status := CANCELED\<rparr>) (ex_working s1)\<rparr>)) s
     else wash_loop cfg order ws s)"

definition wash_prevention :: "'v oms_config \<Rightarrow> approved_order \<Rightarrow> ('v exec_state, unit) act" where
  "wash_prevention cfg order s = (if oc_chaser cfg then wash_loop cfg order (ex_working s) s else (ok (), s))"

definition check_stale :: "'v oms_config \<Rightarrow> string \<Rightarrow> pyfloat \<Rightarrow> ('v exec_state, bool) act" where
  "check_stale cfg asset clock s =
    (if oc_sentinel cfg then
       (case is_stale asset None None clock (ex_sentinel s) of (b, sen) \<Rightarrow> (ok b, s\<lparr>ex_sentinel := sen\<rparr>))
     else (ok False, s))"

definition shadow_submit ::
  "'v oms_config \<Rightarrow> approved_order \<Rightarrow> string \<Rightarrow> l2_book option \<Rightarrow> ('v exec_state, order_state) act" where
  "shadow_submit cfg order cid book s =
    (case (oc_shadow cfg, book) of
       (True, Some bk) \<Rightarrow>
         (case execute_shadow_fill order cid bk (fl 1000000) (ex_shadow s) of
            (Inl e, si) \<Rightarrow> (Inl e, s\<lparr>ex_shadow := si\<rparr>)
          | (Inr res, si) \<Rightarrow>
              (let s1 = s\<lparr>ex_shadow := si\<rparr> in
               if 0 < sf_filled_qty res
               then do_transition cfg cid EvFILL (Some (sf_filled_qty res)) (Some (''shadow_'' @ cid)) s1
               else do_transition cfg cid EvREJECTED None None s1))
     | _ \<Rightarrow> do_transition cfg cid EvFILL (Some (ao_position_size order)) (Some (''shadow_'' @ cid)) s)"

text \<open>\<open>except Exception as e\<close>: the order is rejected and \<open>e\<close> raised again.\<close>

definition reject_and_raise :: "'v oms_config \<Rightarrow> string \<Rightarrow> pyerr \<Rightarrow> ('v exec_state, order_state) act" where
  "reject_and_raise cfg cid e = abind (do_transition cfg cid EvREJECTED None None) (\<lambda>_. araise e)"

definition venue_submit :: "'v oms_config \<Rightarrow> approved_order \<Rightarrow> string \<Rightarrow> ('v exec_state, order_state) act" where
  "venue_submit cfg order cid s =
    (case on_venue (create_order (oc_api cfg) order cid) s of
       (Inl e, s1) \<Rightarrow> reject_and_raise cfg cid e s1
     | (Inr res, s1) \<Rightarrow>
         (case do_transition cfg cid EvSUBMITTED None (vr_id res) s1 of
            (Inl e, s2) \<Rightarrow> reject_and_raise cfg cid e s2
          | (Inr st, s2) \<Rightarrow> (ok st, s2)))"

definition submit_order ::
  "'v oms_config \<Rightarrow> approved_order \<Rightarrow> string \<Rightarrow> l2_book option \<Rightarrow> pyfloat \<Rightarrow> ('v exec_state, order_state) act" where
  "submit_order cfg order0 cid book clock s =
    (case grid_order cfg order0 of
       Inl e \<Rightarrow> (Inl e, s)
     | Inr None \<Rightarrow> do_transition cfg cid EvREJECTED None None s
     | Inr (Some order) \<Rightarrow>
         abind (wash_prevention cfg order) (\<lambda>_.
         abind (check_stale cfg (ao_asset order) clock) (\<lambda>stale.
           if stale then do_transition cfg cid EvREJECTED None None
           else if oc_mode cfg = SHADOW then shadow_submit cfg order cid book
           else abind (on_venue (fetch_order (oc_api cfg) cid (ao_asset order))) (\<lambda>existing.
             case existing of
               Some q \<Rightarrow>
                 if vr_status q = Some ''open'' then do_transition cfg cid EvACKED None None
                 else do_transition cfg cid EvFILL (Some (ao_position_size order)) None
             | None \<Rightarrow> venue_submit cfg order cid)))
         (register_record cid order s))"

section \<open>Fills, cancellation, finalization\<close>

record order_fill =
  of_client_order_id :: string
  of_asset :: string
  of_side :: side
  of_fill_qty :: pyfloat
  of_fill_price :: pyfloat
  of_position_delta :: pyfloat
  of_net_position :: pyfloat
  of_state :: order_state

definition apply_fill ::
  "'v oms_config \<Rightarrow> string \<Rightarrow> pyfloat \<Rightarrow> pyfloat \<Rightarrow> ('v exec_state, order_fill) act" where
  "apply_fill cfg cid fill_qty fill_price s =
    (case dget (order_records s) cid of
       None \<Rightarrow> (Inl (UnknownOrderFillError cid), s)
     | Some rec \<Rightarrow>
         if dget (active_orders s) cid = None then (Inl (UnknownOrderFillError cid), s)
         else (case or_side rec of
             None \<Rightarrow> (Inl (KeyError ''side''), s)
           | Some sd \<Rightarrow>
               (let direction = (if sd = LONG then 1 else - 1); delta = direction * fill_qty in
                abind (do_transition cfg cid EvFILL (Some fill_qty) None) (\<lambda>new_state s1.
                  let net = dget_or (positions s1) (or_asset rec) 0 + delta
                  in (ok \<lparr>of_client_order_id = cid, of_asset = or_asset rec, of_side = sd,
                          of_fill_qty = fill_qty, of_fill_price = fill_price, of_position_delta = delta,
                          of_net_position = net, of_state = new_state\<rparr>,
                      s1\<lparr>positions := dset (or_asset rec) net (positions s1)\<rparr>)) s)))"

definition oms_cancel_order :: "'v oms_config \<Rightarrow> string \<Rightarrow> ('v exec_state, order_state) act" where
  "oms_cancel_order cfg cid s =
    (case dget (active_orders s) cid of
       None \<Rightarrow> (Inl (KeyError cid), s)
     | Some current \<Rightarrow>
         (case transition_plain current EvCANCEL of
            Inl e \<Rightarrow> (Inl e, s)
          | Inr new_state \<Rightarrow> commit cfg cid None None new_state s))"

definition get_filled_qty :: "string \<Rightarrow> 'v exec_state \<Rightarrow> pyfloat" where
  "get_filled_qty cid s = dget_or (order_fills s) cid 0"

text \<open>Registration of an order the OMS does not track.\<close>

definition finalize_register :: "string \<Rightarrow> string \<Rightarrow> pyfloat \<Rightarrow> 'v exec_state \<Rightarrow> 'v exec_state" where
  "finalize_register cid asset intended_qty s =
    (if dget (order_records s) cid = None then
       s\<lparr>order_records := dset cid \<lparr>or_asset = asset, or_side = None, or_intended_qty = intended_qty\<rparr> (order_records s),
         active_orders := (if dget (active_orders s) cid = None
           then dset cid SUBMITTED (active_orders s) else active_orders s)\<rparr>
     else if dget (active_orders s) cid = None then s\<lparr>active_orders := dset cid SUBMITTED (active_orders s)\<rparr>
     else s)"

text \<open>The aggregate fill is replayed only from created or submitted.\<close>

definition finalize_replay ::
  "'v oms_config \<Rightarrow> string \<Rightarrow> pyfloat \<Rightarrow> ('v exec_state, order_state) act" where
  "finalize_replay cfg cid filled_qty s =
    (let current = dget_or (active_orders s) cid SUBMITTED in
     if current \<in> {CREATED, SUBMITTED} then do_transition cfg cid EvFILL (Some filled_qty) None s
     else (ok current, s))"

definition finalize_partial_fill ::
  "'v oms_config \<Rightarrow> string \<Rightarrow> pyfloat \<Rightarrow> pyfloat \<Rightarrow> pyfloat \<Rightarrow> string \<Rightarrow> pyfloat \<Rightarrow>
   ('v exec_state, risk_deviation_event) act" where
  "finalize_partial_fill cfg cid filled_qty intended_qty initial_stop_price asset entry_price s =
    abind (finalize_replay cfg cid filled_qty) (\<lambda>current s1.
      let new_state = (case transition_plain current EvPARTIAL_FILL_FINALIZED of
            Inr st \<Rightarrow> st | Inl e \<Rightarrow> current);
          s2 = s1\<lparr>active_orders := dset cid new_state (active_orders s1),
                  order_fills := dset cid (pymax (dget_or (order_fills s1) cid 0) filled_qty) (order_fills s1)\<rparr>;
          s3 = (if oc_outbox cfg then s2\<lparr>ex_outbox := update_status cid new_state None (ex_outbox s2)\<rparr> else s2);
          dist = (if 0 < entry_price then \<bar>entry_price - initial_stop_price\<bar> else 1);
          ev = \<lparr>rd_client_order_id = cid, rd_asset = asset, rd_intended_qty = intended_qty,
                rd_realized_qty = filled_qty, rd_intended_risk_usd = intended_qty * dist,
                rd_realized_risk_usd = filled_qty * dist\<rparr>
      in (ok ev, s3\<lparr>risk_deviations := risk_deviations s3 @ [ev]\<rparr>))
    (finalize_register cid asset intended_qty s)"

section \<open>Operations as steps\<close>

datatype oms_op =
    Submit approved_order string "l2_book option" pyfloat
  | Fill string pyfloat pyfloat
  | Cancel string
  | Finalize string pyfloat pyfloat pyfloat string pyfloat

fun oms_step :: "'v oms_config \<Rightarrow> oms_op \<Rightarrow> 'v exec_state \<Rightarrow> 'v exec_state" where
  "oms_step cfg (Submit order cid book clock) s = snd (submit_order cfg order cid book clock s)"
| "oms_step cfg (Fill cid q px) s = snd (apply_fill cfg cid q px s)"
| "oms_step cfg (Cancel cid) s = snd (oms_cancel_order cfg cid s)"
| "oms_step cfg (Finalize cid f i sp a ep) s = snd (finalize_partial_fill cfg cid f i sp a ep s)"

definition oms_run :: "'v oms_config \<Rightarrow> oms_op list \<Rightarrow> 'v exec_state \<Rightarrow> 'v exec_state" where
  "oms_run cfg ops s = foldl (\<lambda>s p. oms_step cfg p s) s ops"

definition st_of :: "'v exec_state \<Rightarrow> string \<Rightarrow> order_state" where
  "st_of s cid = dget_or (active_orders s) cid CREATED"

text \<open>Every order has moved along the table.\<close>

definition evolves :: "'v exec_state \<Rightarrow> 'v exec_state \<Rightarrow> bool" where
  "evolves s t \<longleftrightarrow> (\<forall>cid. legal_step\<^sup>*\<^sup>* (st_of s cid) (st_of t cid))"

lemma evolves_refl [simp]: "evolves s s"
  by (simp add: evolves_def)

lemma evolves_trans: "evolves s t \<Longrightarrow> evolves t u \<Longrightarrow> evolves s u"
  by (auto simp: evolves_def intro: rtranclp_trans)

lemma evolves_active: "active_orders t = active_orders s \<Longrightarrow> evolves s t"
  by (simp add: evolves_def st_of_def)

lemma evolves_dset:
  "legal_step\<^sup>*\<^sup>* (st_of s cid) new \<Longrightarrow> active_orders t = dset cid new (active_orders s) \<Longrightarrow> evolves s t"
  by (simp add: evolves_def st_of_def dict_simps)

lemma on_venue_frame: "on_venue f s = (r, t) \<Longrightarrow> \<exists>v. t = s\<lparr>ex_venue := v\<rparr>"
  by (auto simp: on_venue_def split: prod.splits)

lemma commit_result:
  "commit cfg cid q x new s = (r, t) \<Longrightarrow>
    r = ok new \<and> active_orders t = dset cid new (active_orders s) \<and> positions t = positions s \<and>
    order_records t = order_records s \<and> ex_venue t = ex_venue s \<and>
    order_fills t = (case q of None \<Rightarrow> order_fills s
      | Some f \<Rightarrow> dset cid (dget_or (order_fills s) cid 0 + f) (order_fills s))"
  by (auto simp: commit_def Let_def split: option.splits)

text \<open>One call of \<open>_transition\<close>: the order moves along the table, nothing else of the book does.\<close>

lemma do_transition_result:
  assumes "do_transition cfg cid ev q x s = (r, t)"
  shows "legal_step\<^sup>*\<^sup>* (st_of s cid) (st_of t cid) \<and> (\<forall>c. c \<noteq> cid \<longrightarrow> st_of t c = st_of s c) \<and>
    positions t = positions s \<and> order_records t = order_records s \<and> ex_venue t = ex_venue s \<and>
    (case r of
       Inl e \<Rightarrow> is_illegal e \<and> order_fills t = order_fills s
     | Inr new \<Rightarrow> st_of t cid = new \<and> dget (active_orders t) cid = Some new \<and>
         (\<exists>cur i p. transition_order_state cur ev q i p = ok new) \<and>
         order_fills t = (case q of None \<Rightarrow> order_fills s
           | Some f \<Rightarrow> dset cid (dget_or (order_fills s) cid 0 + f) (order_fills s)))"
proof -
  define i where "i = map_option or_intended_qty (dget (order_records s) cid)"
  define p where "p = Some (dget_or (order_fills s) cid 0)"
  define cur where "cur = st_of s cid"
  have ill: "transition_order_state c ev q i p = Inl e \<Longrightarrow> is_illegal e" for c e
    using transition_error_cases by (fastforce simp: illegal_transition_def is_illegal_def)
  have sub: "transition_plain CREATED EvSUBMITTED = ok SUBMITTED"
    by (simp add: transition_plain_def transition_eq event_target_def)
  have ls: "legal_step CREATED SUBMITTED" by (simp add: legal_step_iff)
  note d = assms [unfolded do_transition_def Let_def, folded i_def p_def, folded st_of_def, folded cur_def]
  show ?thesis
  proof (cases "transition_order_state cur ev q i p")
    case (Inr new)
    then have c: "commit cfg cid q x new s = (r, t)" using d by simp
    have "legal_step cur new" using Inr by (rule transition_ok_legal)
    then show ?thesis
      using commit_result [OF c] Inr by (auto simp: st_of_def dict_simps cur_def)
  next
    case (Inl e)
    show ?thesis
    proof (cases "cur = CREATED")
      case False
      then have "r = Inl e" "t = s" using d Inl by simp_all
      then show ?thesis using ill [OF Inl] by simp
    next
      case True
      show ?thesis
      proof (cases "transition_order_state SUBMITTED ev q i p")
        case (Inl e')
        note e = \<open>transition_order_state cur ev q i p = Inl e\<close>
        have "r = Inl e'" "t = s\<lparr>active_orders := dset cid SUBMITTED (active_orders s)\<rparr>"
          using d ill [OF e] True e Inl by (simp_all add: sub)
        then show ?thesis using ill [OF Inl] True ls by (auto simp: st_of_def dict_simps cur_def)
      next
        case (Inr new)
        define s1 where "s1 = s\<lparr>active_orders := dset cid SUBMITTED (active_orders s)\<rparr>"
        have c: "commit cfg cid q x new s1 = (r, t)"
          using d Inr ill [OF Inl] True Inl by (simp add: sub s1_def)
        have fs: "order_fills s1 = order_fills s" by (simp add: s1_def)
        have "legal_step SUBMITTED new" using Inr by (rule transition_ok_legal)
        then have "legal_step\<^sup>*\<^sup>* CREATED new" using ls by auto
        then show ?thesis
          using commit_result [OF c] Inr True
          by (cases q) (auto simp: fs, auto simp: s1_def st_of_def dict_simps cur_def)
      qed
    qed
  qed
qed

lemma do_transition_evolves: "do_transition cfg cid ev q x s = (r, t) \<Longrightarrow> evolves s t"
  using do_transition_result [of cfg cid ev q x s r t] unfolding evolves_def by (metis rtranclp.rtrancl_refl)

lemma do_transition_positions: "do_transition cfg cid ev q x s = (r, t) \<Longrightarrow> positions t = positions s"
  using do_transition_result by blast

text \<open>\<open>keeps s t\<close>: orders moved along the table and no position changed.\<close>

definition keeps :: "'v exec_state \<Rightarrow> 'v exec_state \<Rightarrow> bool" where
  "keeps s t \<longleftrightarrow> evolves s t \<and> positions t = positions s"

named_theorems keeps_rules "operations that move orders legally and leave the positions"

lemma keeps_refl [keeps_rules, simp]: "keeps s s"
  by (simp add: keeps_def)

lemma keeps_trans: "keeps s t \<Longrightarrow> keeps t u \<Longrightarrow> keeps s u"
  by (auto simp: keeps_def intro: evolves_trans)

lemma keeps_frame: "active_orders t = active_orders s \<Longrightarrow> positions t = positions s \<Longrightarrow> keeps s t"
  by (simp add: keeps_def evolves_active)

lemma keeps_transition [keeps_rules]: "keeps s (snd (do_transition cfg cid ev q x s))"
  by (simp add: keeps_def do_transition_evolves [OF prod.collapse [symmetric]]
      do_transition_positions [OF prod.collapse [symmetric]])

lemma keeps_on_venue [keeps_rules]: "keeps s (snd (on_venue f s))"
  by (rule keeps_frame) (auto simp: on_venue_def split: prod.splits)

lemma keeps_abind:
  assumes "keeps s (snd (m s))" "\<And>x t. m s = (Inr x, t) \<Longrightarrow> keeps t (snd (f x t))"
  shows "keeps s (snd (abind m f s))"
  using assms by (cases "m s"; cases "fst (m s)") (auto simp: abind_apply intro: keeps_trans)

lemma keeps_wash [keeps_rules]: "keeps s (snd (wash_loop cfg order ws s))"
proof (induction cfg order ws s rule: wash_loop.induct)
  case (2 cfg order w_cid w ws s)
  show ?case
  proof (cases "wo_symbol w = ao_asset order \<and> wo_side w \<noteq> ao_side order")
    case True
    have "keeps t (snd (wash_loop cfg order ws
        (t\<lparr>ex_working := dset w_cid (w\<lparr>wo_status := CANCELED\<rparr>) (ex_working t)\<rparr>)))" for t
      using "2.IH"(1) [OF True] by (rule keeps_trans [rotated]) (rule keeps_frame; simp)
    then show ?thesis using True by (simp add: keeps_abind keeps_on_venue)
  next
    case False
    then show ?thesis using "2.IH"(2) [OF False] by (simp only: wash_loop.simps if_False)
  qed
qed simp

lemma keeps_wash_prevention [keeps_rules]: "keeps s (snd (wash_prevention cfg order s))"
  by (simp add: wash_prevention_def keeps_wash)

lemma keeps_check_stale [keeps_rules]: "keeps s (snd (check_stale cfg asset clock s))"
  by (rule keeps_frame) (auto simp: check_stale_def split: prod.splits)

lemma keeps_register [keeps_rules]: "keeps s (register_record cid order s)"
  by (rule keeps_frame) (auto simp: register_record_def split: option.splits)

lemma keeps_shadow [keeps_rules]: "keeps s (snd (shadow_submit cfg order cid book s))"
proof -
  have k: "keeps s (snd (do_transition cfg c ev q x (s\<lparr>ex_shadow := si\<rparr>)))" for c ev q x si
    using keeps_transition by (rule keeps_trans [rotated]) (rule keeps_frame; simp)
  have f: "keeps s (s\<lparr>ex_shadow := si\<rparr>)" for si by (rule keeps_frame) simp_all
  show ?thesis
    by (auto simp: shadow_submit_def Let_def keeps_transition k f
        split: option.splits prod.splits sum.splits bool.splits)
qed

lemma keeps_reject_and_raise [keeps_rules]: "keeps s (snd (reject_and_raise cfg cid e s))"
  unfolding reject_and_raise_def by (rule keeps_abind) (simp_all add: keeps_transition)

lemma keeps_venue_submit [keeps_rules]: "keeps s (snd (venue_submit cfg order cid s))"
proof -
  obtain r s1 where v: "on_venue (create_order (oc_api cfg) order cid) s = (r, s1)" by force
  have k: "keeps s s1" using keeps_on_venue [of s "create_order (oc_api cfg) order cid"] by (simp add: v)
  show ?thesis
  proof (cases r)
    case (Inr res)
    obtain r2 s2 where d: "do_transition cfg cid EvSUBMITTED None (vr_id res) s1 = (r2, s2)" by force
    have "keeps s1 s2" using keeps_transition [of s1 cfg cid EvSUBMITTED None "vr_id res"] by (simp add: d)
    then have k2: "keeps s s2" using k by (rule keeps_trans [rotated])
    show ?thesis
      using k2 keeps_trans [OF k2 keeps_reject_and_raise [of s2 cfg cid]]
      by (cases r2) (simp_all add: venue_submit_def v Inr d)
  qed (use keeps_trans [OF k keeps_reject_and_raise [of s1 cfg cid]] in \<open>simp add: venue_submit_def v\<close>)
qed

lemma keeps_submit: "keeps s (snd (submit_order cfg order cid book clock s))"
proof (cases "grid_order cfg order")
  case (Inr g)
  show ?thesis
  proof (cases g)
    case (Some ord)
    define body where "body = (\<lambda>stale. if stale then do_transition cfg cid EvREJECTED None None
        else if oc_mode cfg = SHADOW then shadow_submit cfg ord cid book
        else abind (on_venue (fetch_order (oc_api cfg) cid (ao_asset ord))) (\<lambda>existing.
             case existing of
               Some q \<Rightarrow>
                 if vr_status q = Some ''open'' then do_transition cfg cid EvACKED None None
                 else do_transition cfg cid EvFILL (Some (ao_position_size ord)) None
             | None \<Rightarrow> venue_submit cfg ord cid))"
    have x: "keeps u (snd ((case existing of
               Some q \<Rightarrow>
                 if vr_status q = Some ''open'' then do_transition cfg cid EvACKED None None
                 else do_transition cfg cid EvFILL (Some (ao_position_size ord)) None
             | None \<Rightarrow> venue_submit cfg ord cid) u))" for existing u
      by (cases existing) (simp_all add: keeps_venue_submit keeps_transition)
    have b: "keeps t (snd (body stale t))" for stale t
      by (cases stale; cases "oc_mode cfg = SHADOW")
        (simp_all add: body_def keeps_transition keeps_shadow keeps_abind keeps_on_venue x)
    have c: "keeps t (snd (abind (check_stale cfg (ao_asset ord) clock) body t))" for t
      by (rule keeps_abind [OF keeps_check_stale b])
    have w: "keeps t (snd (abind (wash_prevention cfg ord) (\<lambda>_. abind (check_stale cfg (ao_asset ord) clock) body) t))" for t
      by (rule keeps_abind [OF keeps_wash_prevention c])
    have "submit_order cfg order cid book clock s = abind (wash_prevention cfg ord)
        (\<lambda>_. abind (check_stale cfg (ao_asset ord) clock) body) (register_record cid ord s)"
      by (simp only: submit_order_def Inr Some sum.case option.case body_def)
    then show ?thesis using keeps_trans [OF keeps_register w] by simp
  qed (simp add: submit_order_def Inr keeps_transition)
qed (simp add: submit_order_def)

lemma keeps_cancel: "keeps s (snd (oms_cancel_order cfg cid s))"
proof (cases "dget (active_orders s) cid")
  case (Some cur)
  show ?thesis
  proof (cases "transition_plain cur EvCANCEL")
    case (Inr new)
    obtain r t where c: "commit cfg cid None None new s = (r, t)" by force
    have "legal_step cur new" using Inr by (auto simp: transition_plain_def intro: transition_ok_legal)
    then have "legal_step\<^sup>*\<^sup>* (st_of s cid) new" using Some by (auto simp: st_of_def dget_or_def)
    then have "evolves s t" using commit_result [OF c] by (intro evolves_dset) auto
    then show ?thesis using commit_result [OF c] Some Inr c by (simp add: oms_cancel_order_def keeps_def)
  qed (simp add: oms_cancel_order_def Some)
qed (simp add: oms_cancel_order_def)

lemma legal_CREATED_SUBMITTED: "legal_step CREATED SUBMITTED"
  by (simp add: legal_step_iff)

lemma keeps_finalize_register: "keeps s (finalize_register cid a i s)"
proof -
  have "evolves s t" if "dget (active_orders s) cid = None"
    "active_orders t = dset cid SUBMITTED (active_orders s)" for t
    using that legal_CREATED_SUBMITTED
    by (intro evolves_dset [of s cid SUBMITTED]) (auto simp: st_of_def dget_or_def)
  then show ?thesis by (auto simp: finalize_register_def keeps_def evolves_active)
qed

lemma finalize_replay_state:
  "finalize_replay cfg cid q s = (ok cur, t) \<Longrightarrow> dget (active_orders s) cid \<noteq> None \<Longrightarrow> st_of t cid = cur"
  using do_transition_result [of cfg cid EvFILL "Some q" None s "ok cur" t]
  by (auto simp: finalize_replay_def Let_def st_of_def dget_or_def split: if_splits option.splits)

lemma keeps_finalize_replay: "keeps s (snd (finalize_replay cfg cid q s))"
  by (simp add: finalize_replay_def Let_def keeps_transition)

lemma keeps_finalize: "keeps s (snd (finalize_partial_fill cfg cid f i sp a ep s))"
proof -
  define s0 where "s0 = finalize_register cid a i s"
  have tracked: "dget (active_orders s0) cid \<noteq> None"
    by (auto simp: s0_def finalize_register_def dict_simps)
  obtain r t where r: "finalize_replay cfg cid f s0 = (r, t)" by force
  have k: "keeps s t"
    using keeps_trans [OF keeps_finalize_register [of s cid a i] keeps_finalize_replay [of _ cfg cid f]] r
    by (simp add: s0_def)
  show ?thesis
  proof (cases r)
    case (Inr cur)
    define new where "new = (case transition_plain cur EvPARTIAL_FILL_FINALIZED of Inr st \<Rightarrow> st | Inl e \<Rightarrow> cur)"
    have "legal_step\<^sup>*\<^sup>* cur new"
      by (auto simp: new_def transition_plain_def split: sum.splits dest: transition_ok_legal)
    moreover have "st_of t cid = cur" using finalize_replay_state r Inr tracked by blast
    ultimately have e: "evolves t u" if "active_orders u = dset cid new (active_orders t)" for u
      using that by (intro evolves_dset) auto
    obtain ev u where fin: "finalize_partial_fill cfg cid f i sp a ep s = (ok ev, u)"
      "active_orders u = dset cid new (active_orders t)" "positions u = positions t"
      by (simp add: finalize_partial_fill_def abind_apply r [unfolded s0_def] Inr Let_def new_def)
    have "keeps t u" using e [OF fin(2)] fin(3) by (simp add: keeps_def)
    then show ?thesis using k fin(1) keeps_trans by simp blast
  qed (use k in \<open>simp add: finalize_partial_fill_def abind_apply r [unfolded s0_def]\<close>)
qed

lemma fill_states: "transition_order_state cur EvFILL q i p = ok new \<Longrightarrow> new \<in> {PARTIALLY_FILLED, FILLED}"
  using resolve_fill_target_cases [of q i p] by (auto simp: transition_eq split: if_splits)

lemma apply_fill_ok:
  assumes "apply_fill cfg cid q px s = (ok f, t)"
  obtains rec sd where "dget (order_records s) cid = Some rec" "or_side rec = Some sd"
    "dget (active_orders s) cid \<noteq> None" "of_position_delta f = (if sd = LONG then 1 else - 1) * q"
    "positions t = dset (or_asset rec) (dget_or (positions s) (or_asset rec) 0 + of_position_delta f) (positions s)"
    "order_fills t = dset cid (dget_or (order_fills s) cid 0 + q) (order_fills s)"
    "of_state f \<in> {PARTIALLY_FILLED, FILLED}" "st_of t cid = of_state f" "evolves s t"
proof -
  obtain rec sd where r: "dget (order_records s) cid = Some rec" "or_side rec = Some sd"
    "dget (active_orders s) cid \<noteq> None"
    using assms by (auto simp: apply_fill_def split: option.splits if_splits)
  then obtain new s1 where d: "do_transition cfg cid EvFILL (Some q) None s = (ok new, s1)"
    using assms by (auto simp: apply_fill_def abind_apply Let_def split: prod.splits sum.splits)
  note dr = do_transition_result [OF d, simplified]
  have "new \<in> {PARTIALLY_FILLED, FILLED}" using dr fill_states by blast
  moreover have "evolves s t"
    using do_transition_evolves [OF d] assms r d
    by (auto simp: apply_fill_def abind_apply Let_def evolves_def st_of_def)
  ultimately show ?thesis
    using assms r d dr by (intro that [of rec sd]) (auto simp: apply_fill_def abind_apply Let_def st_of_def)
qed

lemma apply_fill_error:
  assumes "apply_fill cfg cid q px s = (Inl e, t)"
  shows "positions t = positions s \<and> order_fills t = order_fills s \<and> evolves s t"
  using assms do_transition_evolves [of cfg cid EvFILL "Some q" None s "Inl e" t]
    do_transition_result [of cfg cid EvFILL "Some q" None s "Inl e" t]
  by (auto simp: apply_fill_def abind_apply Let_def split: option.splits if_splits prod.splits sum.splits)

lemma keeps_evolves: "keeps s t \<Longrightarrow> evolves s t"
  by (simp add: keeps_def)

lemma oms_step_evolves: "evolves s (oms_step cfg p s)"
proof (cases p)
  case (Fill cid q px)
  obtain r t where r: "apply_fill cfg cid q px s = (r, t)" by force
  then have "evolves s t" using apply_fill_error apply_fill_ok by (cases r) blast+
  then show ?thesis by (simp add: Fill r)
qed (simp_all add: keeps_evolves keeps_submit keeps_cancel keeps_finalize)

lemma oms_run_evolves: "evolves s (oms_run cfg ops s)"
proof -
  have "evolves s0 s \<Longrightarrow> evolves s0 (foldl (\<lambda>s p. oms_step cfg p s) s ops)" for s0
    by (induction ops arbitrary: s) (simp_all add: evolves_trans [OF _ oms_step_evolves])
  then show ?thesis by (simp add: oms_run_def)
qed

section \<open>Idempotent submission, over the venue interface\<close>

lemma transition_simple:
  "transition_order_state CREATED EvSUBMITTED q i p = ok SUBMITTED"
  "transition_order_state SUBMITTED EvACKED q i p = ok ACKED"
  by (simp_all add: transition_eq event_target_def)

definition plain_config :: "'v oms_config \<Rightarrow> bool" where
  "plain_config cfg \<longleftrightarrow> oc_instruments cfg = None \<and> \<not> oc_sentinel cfg \<and> \<not> oc_chaser cfg \<and> oc_mode cfg \<noteq> SHADOW"

lemma submit_plain:
  assumes "plain_config cfg"
  shows "submit_order cfg order cid book clock s =
    abind (on_venue (fetch_order (oc_api cfg) cid (ao_asset order))) (\<lambda>existing.
      case existing of
        Some q \<Rightarrow>
          if vr_status q = Some ''open'' then do_transition cfg cid EvACKED None None
          else do_transition cfg cid EvFILL (Some (ao_position_size order)) None
      | None \<Rightarrow> venue_submit cfg order cid) (register_record cid order s)"
  using assms
  by (simp add: submit_order_def plain_config_def grid_order_def wash_prevention_def check_stale_def abind_apply)

lemma register_record_frame [simp]:
  "active_orders (register_record cid order s) = active_orders s"
  "ex_venue (register_record cid order s) = ex_venue s"
  "register_record cid order s\<lparr>ex_venue := ex_venue s\<rparr> = register_record cid order s"
  by (simp_all add: register_record_def split: option.split)

context venue
begin

lemma resubmit:
  assumes "plain_config cfg" "oc_api cfg = api" "st_of s cid = CREATED"
    and "fst (fetch_order api cid (ao_asset order) (ex_venue s)) = ok None"
    and "submit_order cfg order cid book clock s = (ok st, s1)"
  shows "st = SUBMITTED \<and> (\<exists>q. fetch_order api cid (ao_asset order) (ex_venue s1) = (ok (Some q), ex_venue s1) \<and>
      vr_status q = Some ''open'') \<and>
    (\<exists>s2. submit_order cfg order cid book' clock' s1 = (ok ACKED, s2) \<and> ex_venue s2 = ex_venue s1)"
proof -
  let ?s0 = "register_record cid order s"
  have f: "fetch_order api cid (ao_asset order) (ex_venue s) = (ok None, ex_venue s)"
    using fetch_eq [of cid "ao_asset order" "ex_venue s"] assms(4) by simp
  have sub: "submit_order cfg order cid book clock s = venue_submit cfg order cid ?s0"
    using f by (simp add: submit_plain [OF assms(1)] assms(2) abind_apply on_venue_def)
  obtain r v where cr: "create_order api order cid (ex_venue s) = (r, v)" by force
  obtain res where res: "r = Inr res"
    using assms(5) cr unfolding sub
    by (cases r) (auto simp: venue_submit_def on_venue_def assms(2) reject_and_raise_def abind_apply
        split: prod.splits sum.splits)
  obtain r2 s2 where d: "do_transition cfg cid EvSUBMITTED None (vr_id res) (?s0\<lparr>ex_venue := v\<rparr>) = (r2, s2)"
    by force
  have cur: "dget_or (active_orders ?s0) cid CREATED = CREATED" using assms(3) by (simp add: st_of_def)
  then have "r2 = ok SUBMITTED"
    using d by (auto simp: do_transition_def Let_def transition_simple commit_def)
  moreover have "st = SUBMITTED" "s1 = s2"
    using assms(5) cr res d calculation unfolding sub
    by (auto simp: venue_submit_def on_venue_def assms(2))
  ultimately have st: "st = SUBMITTED" and d1: "do_transition cfg cid EvSUBMITTED None (vr_id res) (?s0\<lparr>ex_venue := v\<rparr>) = (ok SUBMITTED, s1)"
    using d by simp_all
  have v1: "ex_venue s1 = v" and cur1: "dget_or (active_orders s1) cid CREATED = SUBMITTED"
    using do_transition_result [OF d1] by (auto simp: st_of_def)
  obtain q where q: "fetch_order api cid (ao_asset order) v = (ok (Some q), v)" "vr_status q = Some ''open''"
    using created cr res by blast
  obtain r3 s3 where d3: "do_transition cfg cid EvACKED None None (register_record cid order s1\<lparr>ex_venue := v\<rparr>) = (r3, s3)"
    by force
  have "r3 = ok ACKED" using d3 cur1 by (auto simp: do_transition_def Let_def transition_simple commit_def)
  moreover have "submit_order cfg order cid book' clock' s1 = (r3, s3)"
    using q d3 by (simp add: submit_plain [OF assms(1)] assms(2) abind_apply on_venue_def v1)
  moreover have "ex_venue s3 = v" using do_transition_result [OF d3] by simp
  ultimately show ?thesis using st q v1 by auto
qed

end

section \<open>Properties\<close>

text \<open>C7: whatever sequence of submissions, fills, cancellations and finalizations runs, with
  whatever venue, book and failures, every order moves only along the legal-transition table,
  so a terminal order is never resurrected.\<close>

theorem oms_orders_move_legally:
  "legal_step\<^sup>*\<^sup>* (st_of s cid) (st_of (oms_run cfg ops s) cid)"
  by (rule oms_run_evolves [unfolded evolves_def, rule_format])

text \<open>C8: fills are applied only to known orders and with the order's own side.  An applied fill
  moves the recorded asset's position by plus or minus its quantity and the order's cumulative
  quantity by its quantity, and leaves the order partially filled or filled; a refused fill
  (unknown id, no recorded side, terminal order) changes no position and no cumulative
  quantity; no other operation changes a position.\<close>

theorem fills_account_positions:
  "(case apply_fill cfg cid q px s of
      (Inl e, t) \<Rightarrow> positions t = positions s \<and> order_fills t = order_fills s
    | (Inr f, t) \<Rightarrow> (\<exists>rec sd. dget (order_records s) cid = Some rec \<and> or_side rec = Some sd \<and>
        dget (active_orders s) cid \<noteq> None \<and>
        positions t = dset (or_asset rec)
          (dget_or (positions s) (or_asset rec) 0 + (if sd = LONG then 1 else - 1) * q) (positions s) \<and>
        order_fills t = dset cid (dget_or (order_fills s) cid 0 + q) (order_fills s) \<and>
        st_of t cid \<in> {PARTIALLY_FILLED, FILLED})) \<and>
   positions (snd (submit_order cfg order c book clock s)) = positions s \<and>
   positions (snd (oms_cancel_order cfg c s)) = positions s \<and>
   positions (snd (finalize_partial_fill cfg c fq iq sp a ep s)) = positions s"
proof -
  obtain r t where r: "apply_fill cfg cid q px s = (r, t)" by force
  have "case r of Inl e \<Rightarrow> positions t = positions s \<and> order_fills t = order_fills s
    | Inr f \<Rightarrow> (\<exists>rec sd. dget (order_records s) cid = Some rec \<and> or_side rec = Some sd \<and>
        dget (active_orders s) cid \<noteq> None \<and>
        positions t = dset (or_asset rec)
          (dget_or (positions s) (or_asset rec) 0 + (if sd = LONG then 1 else - 1) * q) (positions s) \<and>
        order_fills t = dset cid (dget_or (order_fills s) cid 0 + q) (order_fills s) \<and>
        st_of t cid \<in> {PARTIALLY_FILLED, FILLED})"
  proof (cases r)
    case (Inl e)
    then show ?thesis using apply_fill_error r by fastforce
  next
    case (Inr f)
    from r [unfolded Inr] show ?thesis
      by (rule apply_fill_ok) (unfold Inr sum.case, intro exI conjI; simp; fail)
  qed
  then show ?thesis
    using keeps_submit [of s cfg order c book clock] keeps_cancel [of s cfg c]
      keeps_finalize [of s cfg c fq iq sp a ep]
    by (simp add: r keeps_def split: sum.splits)
qed

text \<open>submission is idempotent on the mock venue: once a fresh order has been submitted, a
  second submission under the same client id, with any book and clock, finds the open order,
  acknowledges it and sends nothing: the venue is exactly as the first submission left it.\<close>

theorem resubmission_sends_nothing:
  assumes "plain_config cfg" "oc_api cfg = mock_api" "st_of s cid = CREATED"
    and "dget (mv_orders (ex_venue s)) cid = None"
    and "submit_order cfg order cid book clock s = (ok st, s1)"
  shows "st = SUBMITTED \<and>
    (\<exists>q. dget (mv_orders (ex_venue s1)) cid = Some q \<and> vr_status q = Some ''open'') \<and>
    (\<exists>s2. submit_order cfg order cid book' clock' s1 = (ok ACKED, s2) \<and> ex_venue s2 = ex_venue s1)"
  using mock.resubmit [OF assms(1,2,3) _ assms(5), of book' clock'] assms(4)
  by (auto simp: mock_fetch_order_def)

definition sample_config :: "mock_venue oms_config" where
  "sample_config = \<lparr>oc_api = mock_api, oc_instruments = None, oc_outbox = True, oc_sentinel = False,
     oc_shadow = False, oc_chaser = False, oc_mode = PAPER\<rparr>"

definition sample_state :: "mock_venue exec_state" where
  "sample_state = new_oms (new_mock_venue []) (new_sentinel (Fin 500) 100) new_interceptor"

lemmas oms_eval = sample_config_def sample_state_def new_oms_def new_mock_venue_def st_of_def
  plain_config_def mock_fetch_order_def mock_create_order_def on_venue_def venue_submit_def
  do_transition_def commit_def register_record_def update_status_def transition_simple Let_def dict_simps

lemma sample_submit:
  "\<exists>s1. submit_order sample_config shadow_order ''c1'' None 0 sample_state = (ok SUBMITTED, s1)"
proof -
  have p: "plain_config sample_config" by (simp add: oms_eval)
  show ?thesis unfolding submit_plain [OF p] by (simp add: abind_apply oms_eval)
qed

theorem resubmission_sends_nothing_witness:
  "\<exists>s1 s2. submit_order sample_config shadow_order ''c1'' None 0 sample_state = (ok SUBMITTED, s1) \<and>
    submit_order sample_config shadow_order ''c1'' None 1 s1 = (ok ACKED, s2) \<and> ex_venue s2 = ex_venue s1"
proof -
  obtain s1 where s1: "submit_order sample_config shadow_order ''c1'' None 0 sample_state = (ok SUBMITTED, s1)"
    using sample_submit by blast
  show ?thesis
    using resubmission_sends_nothing [OF _ _ _ _ s1, of None 1] s1 by (simp add: oms_eval)
qed

text \<open>a retry under the id of an order that already ended locally (rejected for stale data,
  say) still reaches the venue: the order is created there and open, while locally the
  transition is illegal, \<open>IllegalTransitionError\<close> is raised and the local state stays terminal.\<close>

theorem retry_after_end_opens_venue_order:
  assumes "plain_config cfg" "oc_api cfg = mock_api" "st_of s cid \<in> TERMINAL_STATES"
    and "dget (mv_orders (ex_venue s)) cid = None"
  shows "\<exists>e t q. submit_order cfg order cid book clock s = (Inl e, t) \<and> is_illegal e \<and>
    st_of t cid = st_of s cid \<and> dget (mv_orders (ex_venue t)) cid = Some q \<and> vr_status q = Some ''open''"
proof -
  let ?s0 = "register_record cid order s"
  obtain r v where cr: "mock_create_order order cid (ex_venue s) = (Inr r, v)"
    "dget (mv_orders v) cid = Some r" "vr_status r = Some ''open''"
    by (simp add: mock_create_order_def Let_def dict_simps)
  have st: "allowed_next (st_of s cid) = []" using assms(3) by (simp add: TERMINAL_STATES_iff)
  then have nc: "st_of s cid \<noteq> CREATED" by (cases "st_of s cid") auto
  have ill: "\<exists>e. transition_order_state (st_of s cid) ev q i p = Inl e \<and> is_illegal e" for ev q i p
    using st by (auto simp: transition_eq illegal_transition_def is_illegal_def split: option.splits)
  have tr: "\<exists>e. do_transition cfg cid ev q x (?s0\<lparr>ex_venue := v\<rparr>) = (Inl e, ?s0\<lparr>ex_venue := v\<rparr>) \<and> is_illegal e"
    for ev q x
    using ill [of ev q "map_option or_intended_qty (dget (order_records ?s0) cid)"
        "Some (dget_or (order_fills ?s0) cid 0)"] nc
    by (auto simp: do_transition_def Let_def st_of_def)
  obtain e1 where e1: "do_transition cfg cid EvSUBMITTED None (vr_id r) (?s0\<lparr>ex_venue := v\<rparr>) =
      (Inl e1, ?s0\<lparr>ex_venue := v\<rparr>)"
    using tr by blast
  obtain e2 where e2: "do_transition cfg cid EvREJECTED None None (?s0\<lparr>ex_venue := v\<rparr>) =
      (Inl e2, ?s0\<lparr>ex_venue := v\<rparr>)" "is_illegal e2"
    using tr by blast
  have "submit_order cfg order cid book clock s = (Inl e2, ?s0\<lparr>ex_venue := v\<rparr>)"
    using cr e1 e2 assms(4)
    by (simp add: submit_plain [OF assms(1)] assms(2) abind_apply on_venue_def mock_fetch_order_def
        venue_submit_def reject_and_raise_def)
  then show ?thesis using e2(2) cr by (auto simp: st_of_def)
qed

theorem retry_after_end_opens_venue_order_witness:
  "\<exists>e t. submit_order sample_config shadow_order ''c1'' None 0
      (sample_state\<lparr>active_orders := [(''c1'', REJECTED)]\<rparr>) = (Inl e, t) \<and> st_of t ''c1'' = REJECTED \<and>
    dget (mv_orders (ex_venue t)) ''c1'' \<noteq> None"
proof -
  let ?s = "sample_state\<lparr>active_orders := [(''c1'', REJECTED)]\<rparr>"
  have "st_of ?s ''c1'' = REJECTED" by (simp add: st_of_def dget_or_def)
  moreover have "REJECTED \<in> TERMINAL_STATES" by (simp add: TERMINAL_STATES_iff)
  moreover have "plain_config sample_config" "oc_api sample_config = mock_api"
    "dget (mv_orders (ex_venue ?s)) ''c1'' = None" by (simp_all add: oms_eval)
  ultimately show ?thesis
    using retry_after_end_opens_venue_order [of sample_config ?s "''c1''" shadow_order None 0] by auto
qed

end
