(* ===== verification/Chase.thy ===== *)
theory Chase
  imports Oms
begin

text \<open>
  \<open>execution/chase.py\<close>: the token-bucket limiter and the chaser of stale working orders.  The
  chaser's working orders, the venue and the OMS it may call are the shared \<open>exec_state\<close>; its
  own fields are the record \<open>chaser\<close>.  The lock of the limiter serialises whole calls, as the
  model's steps are.  Clock readings are arguments.
\<close>

section \<open>The token bucket\<close>

record limiter =
  capacity :: int
  refill_rate :: pyfloat
  tokens :: pyfloat
  last_refill_time :: pyfloat
  denied_count :: int

definition new_limiter :: "int \<Rightarrow> pyfloat \<Rightarrow> pyfloat \<Rightarrow> limiter" where
  "new_limiter cap rate now = \<lparr>capacity = cap, refill_rate = rate, tokens = float_of_int cap,
     last_refill_time = now, denied_count = 0\<rparr>"

definition acquire :: "pyfloat \<Rightarrow> limiter \<Rightarrow> bool \<times> limiter" where
  "acquire now rl =
    (let elapsed = now - last_refill_time rl;
         rl1 = rl\<lparr>tokens := pymin (float_of_int (capacity rl)) (tokens rl + elapsed * refill_rate rl),
                    last_refill_time := now\<rparr>
     in if 1 \<le> tokens rl1 then (True, rl1\<lparr>tokens := tokens rl1 - 1\<rparr>)
        else (False, rl1\<lparr>denied_count := denied_count rl1 + 1\<rparr>))"

section \<open>The chaser\<close>

record chaser =
  chase_timeout_ms :: pyfloat
  ch_limiter :: limiter
  denied_actions :: int

datatype chase_action = RATE_LIMIT_DENIED string | ABANDONED string | REPRICED string

definition register_order :: "working_order \<Rightarrow> 'v exec_state \<Rightarrow> 'v exec_state" where
  "register_order info s = s\<lparr>ex_working := dset (wo_client_order_id info) info (ex_working s)\<rparr>"

definition on_fill_event ::
  "string \<Rightarrow> pyfloat \<Rightarrow> pyfloat option \<Rightarrow> pyfloat \<Rightarrow> 'v exec_state \<Rightarrow> 'v exec_state" where
  "on_fill_event cid filled_qty timestamp_ms clock_ms s =
    (case dget (ex_working s) cid of
       None \<Rightarrow> s
     | Some w \<Rightarrow>
         (let w1 = w\<lparr>wo_filled_qty := wo_filled_qty w + filled_qty,
                     last_fill_time_ms := (case timestamp_ms of Some t \<Rightarrow> t | None \<Rightarrow> clock_ms)\<rparr>;
              w2 = (if requested_qty w1 \<le> wo_filled_qty w1 then w1\<lparr>wo_status := FILLED\<rparr> else w1)
          in s\<lparr>ex_working := dset cid w2 (ex_working s)\<rparr>))"

text \<open>What a scan carries: the log, the ids to drop, the chaser.\<close>

record scan =
  action_log :: "chase_action list"
  to_remove :: "string list"
  sc_chaser :: chaser

definition finished :: "order_state \<Rightarrow> bool" where
  "finished st = (st \<in> {FILLED, CANCELED, REJECTED, PARTIAL_FILL_FINALIZED})"

text \<open>Cancel at the venue, finalize the remainder; with an OMS wired in, through it.\<close>

definition resolve_remainder ::
  "'v oms_config \<Rightarrow> bool \<Rightarrow> string \<Rightarrow> working_order \<Rightarrow> ('v exec_state, unit) act" where
  "resolve_remainder cfg has_oms cid w =
    abind (on_venue (cancel_order (oc_api cfg) cid (wo_symbol w))) (\<lambda>_ s.
      let s1 = s\<lparr>ex_working := dset cid (w\<lparr>wo_status := PARTIAL_FILL_FINALIZED\<rparr>) (ex_working s)\<rparr> in
      if has_oms then
        abind (finalize_partial_fill cfg cid (wo_filled_qty w) (requested_qty w) (wo_stop_price w)
          (wo_symbol w) 0) (\<lambda>_. areturn ()) s1
      else (ok (), s1))"

text \<open>
  One order of the scan; \<open>clock\<close> is the limiter's reading of the time.  The instrument is asked
  for before the limiter; a denied action is logged and nothing is touched.
\<close>

definition chase_one ::
  "'v oms_config \<Rightarrow> bool \<Rightarrow> pyfloat \<Rightarrow> (string \<Rightarrow> pyfloat) \<Rightarrow> string \<times> working_order \<Rightarrow>
   (scan \<times> 'v exec_state, unit) act" where
  "chase_one cfg has_oms now_ms clock cw x =
    (case (cw, x) of ((cid, w), (sc, s)) \<Rightarrow>
     if finished (wo_status w) then (ok (), (sc\<lparr>to_remove := to_remove sc @ [cid]\<rparr>, s))
     else if chase_timeout_ms (sc_chaser sc) < now_ms - last_fill_time_ms w then
       (case on_venue (get_instrument_info (oc_api cfg) (wo_symbol w)) s of
          (Inl e, s1) \<Rightarrow> (Inl e, (sc, s1))
        | (Inr inst, s1) \<Rightarrow>
            (let remaining_qty = requested_qty w - wo_filled_qty w;
                 below_min = (remaining_qty * submitted_price w < min_notional inst \<or> remaining_qty < min_qty inst);
                 ch = sc_chaser sc
             in case acquire (clock cid) (ch_limiter ch) of (acquired, rl) \<Rightarrow>
               if \<not> acquired then
                 (ok (), (sc\<lparr>sc_chaser := ch\<lparr>ch_limiter := rl, denied_actions := denied_actions ch + 1\<rparr>,
                            action_log := action_log sc @ [RATE_LIMIT_DENIED cid]\<rparr>, s1))
               else
                 (let sc1 = sc\<lparr>sc_chaser := ch\<lparr>ch_limiter := rl\<rparr>\<rparr> in
                  case resolve_remainder cfg has_oms cid w s1 of
                    (Inl e, s2) \<Rightarrow> (Inl e, (sc1, s2))
                  | (Inr _, s2) \<Rightarrow> (ok (),
                      (if below_min then sc1\<lparr>action_log := action_log sc1 @ [ABANDONED cid],
                                            to_remove := to_remove sc1 @ [cid]\<rparr>
                       else sc1\<lparr>action_log := action_log sc1 @ [REPRICED cid]\<rparr>, s2)))))
     else (ok (), (sc, s)))"

fun chase_loop ::
  "'v oms_config \<Rightarrow> bool \<Rightarrow> pyfloat \<Rightarrow> (string \<Rightarrow> pyfloat) \<Rightarrow> (string \<times> working_order) list \<Rightarrow>
   (scan \<times> 'v exec_state, unit) act" where
  "chase_loop cfg has_oms now_ms clock [] x = (ok (), x)"
| "chase_loop cfg has_oms now_ms clock (cw # cws) x =
    abind (chase_one cfg has_oms now_ms clock cw) (\<lambda>_. chase_loop cfg has_oms now_ms clock cws) x"

definition drop_orders :: "string list \<Rightarrow> 'v exec_state \<Rightarrow> 'v exec_state" where
  "drop_orders cids s = s\<lparr>ex_working := foldl (\<lambda>d cid. ddel cid d) (ex_working s) cids\<rparr>"

text \<open>An exception leaves the chaser's limiter as it is and drops no order.\<close>

definition check_and_chase ::
  "'v oms_config \<Rightarrow> bool \<Rightarrow> pyfloat \<Rightarrow> (string \<Rightarrow> pyfloat) \<Rightarrow> chaser \<times> 'v exec_state \<Rightarrow>
   chase_action list res \<times> chaser \<times> 'v exec_state" where
  "check_and_chase cfg has_oms now_ms clock w =
    (case w of (ch, s) \<Rightarrow>
     (case chase_loop cfg has_oms now_ms clock (ex_working s)
         (\<lparr>action_log = [], to_remove = [], sc_chaser = ch\<rparr>, s) of
        (Inl e, (sc, s1)) \<Rightarrow> (Inl e, sc_chaser sc, s1)
      | (Inr _, (sc, s1)) \<Rightarrow> (ok (action_log sc), sc_chaser sc, drop_orders (to_remove sc) s1)))"

section \<open>Lemmas: the bucket\<close>

text \<open>A sane limiter: small capacity, a finite rate, between zero and capacity tokens.\<close>

definition limiter_ok :: "limiter \<Rightarrow> bool" where
  "limiter_ok rl \<longleftrightarrow> 0 \<le> capacity rl \<and> capacity rl \<le> 2 ^ 53 \<and>
     (\<exists>t. tokens rl = Fin t \<and> rnd64 t = t \<and> 0 \<le> t \<and> t \<le> of_int (capacity rl)) \<and>
     (\<exists>r. refill_rate rl = Fin r \<and> 0 \<le> r) \<and> (\<exists>l. last_refill_time rl = Fin l)"

lemma rnd64_small_int: "0 \<le> n \<Longrightarrow> n \<le> 2 ^ 53 \<Longrightarrow> rnd64 (of_int n) = of_int n"
  using rnd64_grid [of n 0] by simp

text \<open>Taking one token is exact.\<close>

lemma rnd64_pred:
  assumes "rnd64 t = t" "1 \<le> t" "t \<le> 2 ^ 53"
  shows "rnd64 (t - 1) = t - 1"
proof -
  obtain m e where me: "\<bar>m\<bar> \<le> 2 ^ 53" "-1074 \<le> e" "t = of_int m * 2 powi e"
    using rnd64_form [of t] assms(1) by metis
  show ?thesis
  proof (cases "e \<le> 0")
    case True
    define k :: int where "k = 2 ^ nat (- e)"
    have k: "(1::rat) = of_int k * 2 powi e"
      using True powi2_split [of e 0] by (simp add: k_def)
    have t: "t - 1 = of_int (m - k) * 2 powi e" by (simp add: me(3) left_diff_distrib k [symmetric])
    have "0 \<le> of_int (m - k) * (2::rat) powi e" using t assms(2) by simp
    then have "0 \<le> m - k" using powi2_pos [of e] by (auto simp: zero_le_mult_iff dest: order_less_le_trans)
    moreover have "0 \<le> k" by (simp add: k_def)
    ultimately have "\<bar>m - k\<bar> \<le> 2 ^ 53" using me(1) by linarith
    then show ?thesis unfolding t using me(2) by (intro rnd64_grid)
  next
    case False
    define n where "n = m * 2 ^ nat e"
    have t: "t = of_int n" using False me(3) by (simp add: n_def power_int_def)
    have "1 \<le> n" "n \<le> 2 ^ 53"
      using assms(2,3) of_int_le_iff [of 1 n, where 'a = rat] of_int_le_iff [of n "2 ^ 53", where 'a = rat]
      unfolding t by simp_all
    then have "rnd64 (of_int (n - 1)) = of_int (n - 1)" by (intro rnd64_small_int) simp_all
    then show ?thesis by (simp add: t)
  qed
qed

text \<open>The tokens of a sane limiter as a number.\<close>

definition tok :: "limiter \<Rightarrow> rat" where
  "tok rl = (case tokens rl of Fin t \<Rightarrow> t | _ \<Rightarrow> 0)"

lemma limiter_okD:
  assumes "limiter_ok rl"
  shows "tokens rl = Fin (tok rl)" "rnd64 (tok rl) = tok rl" "0 \<le> tok rl" "tok rl \<le> of_int (capacity rl)"
    "of_int (capacity rl) \<le> (2::rat) ^ 53" "float_of_int (capacity rl) = Fin (of_int (capacity rl))"
proof -
  show "tokens rl = Fin (tok rl)" "rnd64 (tok rl) = tok rl" "0 \<le> tok rl" "tok rl \<le> of_int (capacity rl)"
    using assms by (auto simp: limiter_ok_def tok_def)
  have c: "0 \<le> capacity rl" "capacity rl \<le> 2 ^ 53" using assms by (auto simp: limiter_ok_def)
  show c2: "of_int (capacity rl) \<le> (2::rat) ^ 53"
    using c(2) of_int_le_iff [of "capacity rl" "2 ^ 53", where 'a = rat] by simp
  have "\<bar>of_int (capacity rl) :: rat\<bar> < 2 ^ 1024"
    using c c2 order_le_less_trans [OF c2, of "2 ^ 1024"] by simp
  then show "float_of_int (capacity rl) = Fin (of_int (capacity rl))"
    using rnd64_small_int [OF c] by (simp add: float_of_int_def fl_fixed)
qed

text \<open>The refill: between the tokens there were and the capacity.\<close>

lemma refill:
  assumes ok: "limiter_ok rl" and x: "0 \<le> x"
  obtains t where "pymin (float_of_int (capacity rl)) (tokens rl + x) = Fin t" "rnd64 t = t"
    "tok rl \<le> t" "t \<le> of_int (capacity rl)"
proof -
  note d = limiter_okD [OF ok]
  have fin: "\<bar>tok rl\<bar> < 2 ^ 1024"
    using d(3-5) order_le_less_trans [of "tok rl" "2 ^ 53" "2 ^ 1024"] by simp
  have "is_float (tokens rl)" using d(1,2) fin by (simp add: is_float_def)
  moreover have "0 \<le> tokens rl" using d(1,3) by (simp add: zero_Fin)
  ultimately have le: "tokens rl \<le> tokens rl + x" using x by (intro le_add_nonneg)
  have fl: "is_float (tokens rl + x)" by simp
  show ?thesis
  proof (cases "tokens rl + x < Fin (of_int (capacity rl))")
    case True
    then obtain y where "tokens rl + x = Fin y" using le d(1) by (cases "tokens rl + x") auto
    then show ?thesis using True le fl d by (intro that [of y]) (auto simp: pymin_def is_float_def)
  next
    case False
    have "0 \<le> capacity rl" "capacity rl \<le> 2 ^ 53" using ok by (auto simp: limiter_ok_def)
    then show ?thesis
      using False d rnd64_small_int by (intro that [of "of_int (capacity rl)"]) (auto simp: pymin_def)
  qed
qed

definition clock_forward :: "pyfloat \<Rightarrow> limiter \<Rightarrow> bool" where
  "clock_forward now rl \<longleftrightarrow> is_finite now \<and> 0 \<le> (now - last_refill_time rl) * refill_rate rl"

lemma acquire_spec:
  assumes ok: "limiter_ok rl" and c: "clock_forward now rl" and a: "acquire now rl = (b, rl')"
  shows "limiter_ok rl' \<and> last_refill_time rl' = now \<and> capacity rl' = capacity rl \<and>
    refill_rate rl' = refill_rate rl \<and> (\<exists>t. tok rl \<le> t \<and> t \<le> of_int (capacity rl) \<and>
      tok rl' = (if b then t - 1 else t) \<and> b = (1 \<le> t))"
proof -
  obtain t where t: "pymin (float_of_int (capacity rl))
      (tokens rl + (now - last_refill_time rl) * refill_rate rl) = Fin t" "rnd64 t = t"
    "tok rl \<le> t" "t \<le> of_int (capacity rl)"
    using refill [OF ok] c unfolding clock_forward_def by blast
  note d = limiter_okD [OF ok]
  have "t \<le> 2 ^ 53" using t(4) d(5) by (rule order_trans)
  then have p: "1 \<le> t \<Longrightarrow> fl (t - 1) = Fin (t - 1) \<and> rnd64 (t - 1) = t - 1"
  proof -
    assume "1 \<le> t"
    then have r: "rnd64 (t - 1) = t - 1" using t(2) \<open>t \<le> 2 ^ 53\<close> by (intro rnd64_pred)
    have "\<bar>t - 1\<bar> < 2 ^ 1024"
      using \<open>1 \<le> t\<close> order_le_less_trans [OF \<open>t \<le> 2 ^ 53\<close>, of "2 ^ 1024"] by simp
    then show ?thesis using r by (simp add: fl_fixed)
  qed
  obtain n where "now = Fin n" using c by (cases now) (auto simp: clock_forward_def is_finite_def)
  moreover obtain r where "refill_rate rl = Fin r" "0 \<le> r" using ok by (auto simp: limiter_ok_def)
  moreover have "0 \<le> t" using t(3) d(3) by linarith
  moreover have "0 \<le> capacity rl \<and> capacity rl \<le> 2 ^ 53" using ok by (simp add: limiter_ok_def)
  ultimately show ?thesis
    using a t p
    by (cases "1 \<le> t") (auto simp: acquire_def Let_def limiter_ok_def tok_def one_Fin minus_pyfloat_def)
qed

fun acquire_run :: "pyfloat list \<Rightarrow> limiter \<Rightarrow> bool list \<times> limiter" where
  "acquire_run [] rl = ([], rl)"
| "acquire_run (now # nows) rl =
    (case acquire now rl of (b, rl1) \<Rightarrow> (case acquire_run nows rl1 of (bs, rl2) \<Rightarrow> (b # bs, rl2)))"

definition grants :: "bool list \<Rightarrow> nat" where
  "grants bs = length (filter (\<lambda>b. b) bs)"

lemma clock_still: "limiter_ok rl \<Longrightarrow> last_refill_time rl = now \<Longrightarrow> clock_forward now rl"
  by (auto simp: limiter_ok_def clock_forward_def is_finite_def minus_pyfloat_def zero_Fin)

lemma still_refill_none:
  assumes "limiter_ok rl" "last_refill_time rl = now" "acquire now rl = (b, rl')"
  shows "tok rl' = (if b then tok rl - 1 else tok rl)"
proof -
  note d = limiter_okD [OF assms(1)]
  have "\<bar>tok rl\<bar> < 2 ^ 1024"
    using d(3-5) order_le_less_trans [of "tok rl" "2 ^ 53" "2 ^ 1024"] by simp
  then have "fl (tok rl) = Fin (tok rl)" using d(2) by (rule fl_fixed [rotated])
  then have "tokens rl + (now - last_refill_time rl) * refill_rate rl = Fin (tok rl)"
    using assms(1,2) d(1) by (auto simp: limiter_ok_def minus_pyfloat_def zero_Fin)
  then have "pymin (float_of_int (capacity rl)) (tokens rl + (now - last_refill_time rl) * refill_rate rl) = Fin (tok rl)"
    using d(4,6) by (auto simp: pymin_def)
  moreover have "1 \<le> tok rl \<Longrightarrow> fl (tok rl - 1) = Fin (tok rl - 1)"
  proof -
    assume "1 \<le> tok rl"
    then have "rnd64 (tok rl - 1) = tok rl - 1" using d by (intro rnd64_pred) auto
    moreover have "\<bar>tok rl - 1\<bar> < 2 ^ 1024" using \<open>1 \<le> tok rl\<close> \<open>\<bar>tok rl\<bar> < 2 ^ 1024\<close> by linarith
    ultimately show ?thesis by (simp add: fl_fixed)
  qed
  ultimately have "\<exists>t. pymin (float_of_int (capacity rl))
      (tokens rl + (now - last_refill_time rl) * refill_rate rl) = Fin t \<and>
      (1 \<le> t \<longrightarrow> fl (t - 1) = Fin (t - 1)) \<and> t = tok rl" by blast
  then obtain t where t: "pymin (float_of_int (capacity rl))
      (tokens rl + (now - last_refill_time rl) * refill_rate rl) = Fin t"
    "1 \<le> t \<Longrightarrow> fl (t - 1) = Fin (t - 1)" "tok rl = t" by blast
  have "tok rl' = (if b then t - 1 else t)"
    using assms(3) t(1,2)
    by (cases "1 \<le> t") (auto simp: acquire_def Let_def one_Fin minus_pyfloat_def tok_def)
  then show ?thesis by (simp add: t(3))
qed

lemma still_run:
  assumes "limiter_ok rl" "last_refill_time rl = now" "acquire_run (replicate n now) rl = (bs, rl')"
  shows "of_nat (grants bs) + tok rl' = tok rl \<and> limiter_ok rl' \<and> capacity rl' = capacity rl"
  using assms
proof (induction n arbitrary: rl bs)
  case (Suc n)
  obtain b rl1 where a: "acquire now rl = (b, rl1)" by force
  obtain bs1 where r: "acquire_run (replicate n now) rl1 = (bs1, rl')" "bs = b # bs1"
    using Suc.prems(3) a by (auto split: prod.splits)
  note sp = acquire_spec [OF Suc.prems(1) clock_still [OF Suc.prems(1,2)] a]
  then show ?case
    using Suc.IH [of rl1 bs1] r still_refill_none [OF Suc.prems(1,2) a] by (auto simp: grants_def)
qed (simp add: grants_def)

section \<open>Lemmas: the scan\<close>

text \<open>The orders a scan acts on, and the ids its log names.\<close>

definition stale_order :: "pyfloat \<Rightarrow> pyfloat \<Rightarrow> working_order \<Rightarrow> bool" where
  "stale_order timeout now_ms w \<longleftrightarrow> \<not> finished (wo_status w) \<and> timeout < now_ms - last_fill_time_ms w"

fun action_id :: "chase_action \<Rightarrow> string" where
  "action_id (RATE_LIMIT_DENIED c) = c"
| "action_id (ABANDONED c) = c"
| "action_id (REPRICED c) = c"

definition abandoned :: "chase_action list \<Rightarrow> string list" where
  "abandoned acts = concat (map (\<lambda>a. case a of ABANDONED c \<Rightarrow> [c] | _ \<Rightarrow> []) acts)"

definition denied :: "chase_action list \<Rightarrow> nat" where
  "denied acts = length (filter (\<lambda>a. case a of RATE_LIMIT_DENIED _ \<Rightarrow> True | _ \<Rightarrow> False) acts)"

lemma keeps_resolve:
  fixes s :: "'v exec_state"
  shows "keeps s (snd (resolve_remainder cfg has_oms cid w s))"
proof -
  define upd :: "'v exec_state \<Rightarrow> 'v exec_state" where
    "upd t = t\<lparr>ex_working := dset cid (w\<lparr>wo_status := PARTIAL_FILL_FINALIZED\<rparr>) (ex_working t)\<rparr>" for t
  have u: "keeps t (upd t)" for t by (rule keeps_frame) (simp_all add: upd_def)
  have f: "keeps t (snd (abind (finalize_partial_fill cfg cid (wo_filled_qty w) (requested_qty w)
      (wo_stop_price w) (wo_symbol w) 0) (\<lambda>_. areturn ()) t))" for t
    by (rule keeps_abind) (simp_all add: keeps_finalize)
  have "keeps t (snd (if has_oms then abind (finalize_partial_fill cfg cid (wo_filled_qty w) (requested_qty w)
      (wo_stop_price w) (wo_symbol w) 0) (\<lambda>_. areturn ()) (upd t) else (ok (), upd t)))" for t
    using keeps_trans [OF u f] u by simp
  then show ?thesis
    unfolding resolve_remainder_def Let_def upd_def by (intro keeps_abind keeps_on_venue)
qed

lemma chase_one_ok:
  assumes "chase_one cfg has_oms now clock (cid, w) (sc, s) = (ok (), (sc', s'))"
  shows "keeps s s' \<and>
    map action_id (action_log sc') = map action_id (action_log sc) @
      (if stale_order (chase_timeout_ms (sc_chaser sc)) now w then [cid] else []) \<and>
    (\<exists>acts. action_log sc' = action_log sc @ acts \<and>
      to_remove sc' = to_remove sc @ (if finished (wo_status w) then [cid] else abandoned acts) \<and>
      denied_actions (sc_chaser sc') = denied_actions (sc_chaser sc) + int (denied acts)) \<and>
    chase_timeout_ms (sc_chaser sc') = chase_timeout_ms (sc_chaser sc)"
proof -
  consider (fin) "finished (wo_status w)"
    | (fresh) "\<not> finished (wo_status w)" "\<not> stale_order (chase_timeout_ms (sc_chaser sc)) now w"
    | (stale) "\<not> finished (wo_status w)" "stale_order (chase_timeout_ms (sc_chaser sc)) now w" by blast
  then show ?thesis
  proof cases
    case stale
    then have c: "chase_timeout_ms (sc_chaser sc) < now - last_fill_time_ms w" by (simp add: stale_order_def)
    obtain i s1 where v: "on_venue (get_instrument_info (oc_api cfg) (wo_symbol w)) s = (Inr i, s1)"
      using assms stale c by (cases "on_venue (get_instrument_info (oc_api cfg) (wo_symbol w)) s";
          cases "fst (on_venue (get_instrument_info (oc_api cfg) (wo_symbol w)) s)") (auto simp: chase_one_def)
    have k: "keeps s s1" using keeps_on_venue [of s "get_instrument_info (oc_api cfg) (wo_symbol w)"] by (simp add: v)
    obtain b rl where a: "acquire (clock cid) (ch_limiter (sc_chaser sc)) = (b, rl)" by force
    show ?thesis
    proof (cases b)
      case False
      then show ?thesis
        using assms stale c v a k by (auto simp: chase_one_def Let_def abandoned_def denied_def)
    next
      case True
      obtain s2 where r: "resolve_remainder cfg has_oms cid w s1 = (Inr (), s2)" "s' = s2"
        using assms stale c v a True
        by (auto simp: chase_one_def Let_def split: prod.splits sum.splits)
      have "keeps s1 s2" using keeps_resolve [of s1 cfg has_oms cid w] r by simp
      then have "keeps s s'" using k r keeps_trans by blast
      then show ?thesis
        using assms stale c v a True r(1)
        by (auto simp: chase_one_def Let_def abandoned_def denied_def)
    qed
  qed (use assms in \<open>auto simp: chase_one_def stale_order_def abandoned_def denied_def\<close>)
qed

lemma abandoned_append [simp]: "abandoned (a @ b) = abandoned a @ abandoned b"
  by (simp add: abandoned_def)

lemma denied_append [simp]: "denied (a @ b) = denied a + denied b"
  by (simp add: denied_def)

lemma chase_loop_ok:
  assumes "chase_loop cfg has_oms now clock cws (sc, s) = (ok (), (sc', s'))"
  shows "keeps s s' \<and> (\<exists>acts. action_log sc' = action_log sc @ acts \<and>
      map action_id acts = map fst (filter (\<lambda>(c, w). stale_order (chase_timeout_ms (sc_chaser sc)) now w) cws) \<and>
      denied_actions (sc_chaser sc') = denied_actions (sc_chaser sc) + int (denied acts) \<and>
      set (to_remove sc') = set (to_remove sc) \<union> {c. \<exists>w. (c, w) \<in> set cws \<and> finished (wo_status w)}
        \<union> set (abandoned acts))"
  using assms
proof (induction cws arbitrary: sc s)
  case Nil
  then show ?case by (simp add: abandoned_def denied_def)
next
  case (Cons cw cws)
  obtain c w where cw: "cw = (c, w)" by force
  obtain sc1 s1 where one: "chase_one cfg has_oms now clock (c, w) (sc, s) = (ok (), (sc1, s1))"
    and rest: "chase_loop cfg has_oms now clock cws (sc1, s1) = (ok (), (sc', s'))"
    using Cons.prems by (auto simp: cw abind_apply split: prod.splits sum.splits)
  from chase_one_ok [OF one] obtain a1 where a1: "keeps s s1" "action_log sc1 = action_log sc @ a1"
    "map action_id a1 = (if stale_order (chase_timeout_ms (sc_chaser sc)) now w then [c] else [])"
    "to_remove sc1 = to_remove sc @ (if finished (wo_status w) then [c] else abandoned a1)"
    "denied_actions (sc_chaser sc1) = denied_actions (sc_chaser sc) + int (denied a1)"
    "chase_timeout_ms (sc_chaser sc1) = chase_timeout_ms (sc_chaser sc)"
    by auto
  from Cons.IH [OF rest] obtain a2 where a2: "keeps s1 s'" "action_log sc' = action_log sc1 @ a2"
    "map action_id a2 = map fst (filter (\<lambda>(c, w). stale_order (chase_timeout_ms (sc_chaser sc1)) now w) cws)"
    "denied_actions (sc_chaser sc') = denied_actions (sc_chaser sc1) + int (denied a2)"
    "set (to_remove sc') = set (to_remove sc1) \<union> {c. \<exists>w. (c, w) \<in> set cws \<and> finished (wo_status w)}
        \<union> set (abandoned a2)"
    by auto
  have fin: "finished (wo_status w) \<Longrightarrow> a1 = []" using a1(3) by (simp add: stale_order_def)
  show ?case
  proof (intro conjI exI [of _ "a1 @ a2"])
    show "keeps s s'" using a1(1) a2(1) by (rule keeps_trans)
    show "set (to_remove sc') = set (to_remove sc) \<union> {c. \<exists>w. (c, w) \<in> set (cw # cws) \<and> finished (wo_status w)}
        \<union> set (abandoned (a1 @ a2))"
      using a2(5) a1(4) fin by (auto simp: cw abandoned_def)
  qed (use a1 a2 in \<open>simp_all add: cw\<close>)
qed

lemma dget_drop: "dget (foldl (\<lambda>d cid. ddel cid d) d cids) c = (if c \<in> set cids then None else dget d c)"
  by (induction cids arbitrary: d) (auto simp: dict_simps)

section \<open>Properties\<close>

text \<open>the bucket bounds bursts: any number of calls at one clock reading (after a clock that
  did not run backwards) grants at most the capacity, in the doubles the code computes with;
  the limiter stays sane, with between zero and capacity tokens.\<close>

theorem burst_at_most_capacity:
  assumes "limiter_ok rl" "clock_forward now rl" "acquire_run (replicate n now) rl = (bs, rl')"
  shows "of_nat (grants bs) + tok rl' \<le> (of_int (capacity rl) :: rat) \<and> 0 \<le> tok rl' \<and> limiter_ok rl'"
proof (cases n)
  case 0
  then show ?thesis using assms limiter_okD [OF assms(1)] by (simp add: grants_def)
next
  case (Suc k)
  obtain b rl1 where a: "acquire now rl = (b, rl1)" by force
  obtain bs1 where r: "acquire_run (replicate k now) rl1 = (bs1, rl')" "bs = b # bs1"
    using assms(3) a by (auto simp: Suc split: prod.splits)
  note sp = acquire_spec [OF assms(1,2) a]
  have "of_nat (grants bs1) + tok rl' = tok rl1 \<and> limiter_ok rl' \<and> capacity rl' = capacity rl1"
    using sp r(1) by (intro still_run [of rl1 now k bs1 rl']) auto
  then show ?thesis using sp r(2) limiter_okD(3) [of rl'] by (auto simp: grants_def)
qed

theorem burst_at_most_capacity_witness:
  "of_nat (grants (fst (acquire_run (replicate 5 (Fin 7)) (new_limiter 2 (Fin 5) (Fin 6))))) \<le> (2::rat)"
proof -
  have f2: "float_of_int 2 = Fin 2" by (simp add: float_of_int_def fl_eval float_eval)
  have ok: "limiter_ok (new_limiter 2 (Fin 5) (Fin 6))"
    by (simp add: limiter_ok_def new_limiter_def f2 float_eval)
  have "clock_forward (Fin 7) (new_limiter 2 (Fin 5) (Fin 6))"
    by (simp add: clock_forward_def new_limiter_def is_finite_def minus_pyfloat_def zero_Fin fl_eval float_eval)
  from burst_at_most_capacity [OF ok this prod.collapse [symmetric], of 5] show ?thesis
    by (auto simp: new_limiter_def)
qed

text \<open>a scan that returns has one log entry for each stale order, in their order, and none for
  the others; every denial is counted; finished and abandoned orders are dropped from the
  tracking; through the OMS it moves orders only along the transition table and changes no
  position.\<close>

theorem scan_accounts_every_stale_order:
  assumes "check_and_chase cfg has_oms now clock (ch, s) = (ok acts, ch', s')"
  shows "map action_id acts = map fst (filter (\<lambda>(c, w). stale_order (chase_timeout_ms ch) now w) (ex_working s)) \<and>
    denied_actions ch' = denied_actions ch + int (denied acts) \<and>
    (\<forall>c w. (c, w) \<in> set (ex_working s) \<and> finished (wo_status w) \<longrightarrow> dget (ex_working s') c = None) \<and>
    (\<forall>c\<in>set (abandoned acts). dget (ex_working s') c = None) \<and>
    legal_step\<^sup>*\<^sup>* (st_of s cid) (st_of s' cid) \<and> positions s' = positions s"
proof -
  obtain sc s1 where l: "chase_loop cfg has_oms now clock (ex_working s)
      (\<lparr>action_log = [], to_remove = [], sc_chaser = ch\<rparr>, s) = (ok (), (sc, s1))"
    and r: "acts = action_log sc" "ch' = sc_chaser sc" "s' = drop_orders (to_remove sc) s1"
    using assms by (auto simp: check_and_chase_def split: prod.splits sum.splits)
  note c = chase_loop_ok [OF l]
  have "legal_step\<^sup>*\<^sup>* (st_of s cid) (st_of s1 cid)" using c by (auto simp: keeps_def evolves_def)
  then show ?thesis
    using c by (auto simp: r drop_orders_def dget_drop keeps_def st_of_def)
qed

definition chase_state :: "mock_venue exec_state" where
  "chase_state = sample_state\<lparr>ex_working := [(''w1'', \<lparr>wo_client_order_id = ''w1'', wo_symbol = ''BTC'',
     wo_side = LONG, submitted_price = Fin 100, wo_stop_price = Fin 95, requested_qty = Fin 2,
     wo_filled_qty = Fin 1, last_fill_time_ms = Fin 0, wo_status = SUBMITTED\<rparr>)]\<rparr>"

definition sample_chaser :: chaser where
  "sample_chaser = \<lparr>chase_timeout_ms = Fin 5000, ch_limiter = new_limiter 2 (Fin 5) (Fin 6), denied_actions = 0\<rparr>"

lemma sample_chase: "\<exists>ch' s'. check_and_chase sample_config False (Fin 9000) (\<lambda>_. Fin 6) (sample_chaser, chase_state) =
    (ok [REPRICED ''w1''], ch', s')"
  by (simp add: check_and_chase_def chase_one_def abind_apply chase_state_def sample_chaser_def finished_def
      oms_eval mock_get_instrument_info_def mock_cancel_order_def default_instrument_def new_limiter_def acquire_def resolve_remainder_def
      dget_or_def minus_pyfloat_def pymin_def float_of_int_def one_Fin fl_eval float_eval)

theorem scan_accounts_every_stale_order_witness:
  "\<exists>ch' s'. check_and_chase sample_config False (Fin 9000) (\<lambda>_. Fin 6) (sample_chaser, chase_state) =
    (ok [REPRICED ''w1''], ch', s') \<and> denied_actions ch' = 0 \<and> positions s' = positions chase_state"
proof -
  obtain ch' s' where c: "check_and_chase sample_config False (Fin 9000) (\<lambda>_. Fin 6) (sample_chaser, chase_state) =
    (ok [REPRICED ''w1''], ch', s')"
    using sample_chase by blast
  show ?thesis
    using scan_accounts_every_stale_order [OF c] c by (auto simp: sample_chaser_def denied_def)
qed

end
