(* ===== verification/Recovery.thy ===== *)
theory Recovery
  imports Venue Money
begin

text \<open>
  \<open>execution/reconciler.py\<close> and \<open>infrastructure/state_recovery.py\<close>: the two places that compare
  local positions with the venue's.  The order in which Python walks a set of assets is the
  parameter \<open>enum\<close>; the wall clock is an argument.
\<close>

section \<open>The reconciler\<close>

datatype quarantine_reason = UNKNOWN_ORDER | ORPHAN_FILL | POSITION_MISMATCH

text \<open>The details string is kept as the values it prints.\<close>

datatype quarantine_details = ConnectivityError pyerr | Mismatch string pyfloat pyfloat

record quarantine_item =
  item_id :: string
  qi_reason :: quarantine_reason
  qi_details :: quarantine_details
  qi_timestamp :: int

record 'v reconciler =
  rc_api :: "'v venue_api"
  quarantine_items :: "quarantine_item list"

definition has_quarantine :: "'v reconciler \<Rightarrow> bool" where
  "has_quarantine rc = (0 < length (quarantine_items rc))"

definition clear_quarantine :: "'v reconciler \<Rightarrow> 'v reconciler" where
  "clear_quarantine rc = rc\<lparr>quarantine_items := []\<rparr>"

text \<open>The dictionary comprehension over the venue positions that carry a symbol.\<close>

fun exchange_map :: "venue_position list \<Rightarrow> (string, pyfloat) dict \<Rightarrow> (string, pyfloat) dict res" where
  "exchange_map [] m = ok m"
| "exchange_map (p # ps) m = (case vp_symbol p of
     None \<Rightarrow> exchange_map ps m
   | Some sy \<Rightarrow> (case vp_amount p of
       None \<Rightarrow> raise (KeyError ''amount'')
     | Some a \<Rightarrow> exchange_map ps (dset sy a m)))"

definition mismatch_item ::
  "int \<Rightarrow> (string, pyfloat) dict \<Rightarrow> (string, pyfloat) dict \<Rightarrow> string \<Rightarrow> quarantine_item option" where
  "mismatch_item now local_positions ex_map asset =
    (let local_qty = dget_or local_positions asset 0; ex_qty = dget_or ex_map asset 0 in
     if fl (1/1000000) < \<bar>local_qty - ex_qty\<bar>
     then Some \<lparr>item_id = ''pos_'' @ asset, qi_reason = POSITION_MISMATCH,
       qi_details = Mismatch asset local_qty ex_qty, qi_timestamp = now\<rparr>
     else None)"

definition reconcile_once ::
  "(string set \<Rightarrow> string list) \<Rightarrow> int \<Rightarrow> (string, pyfloat) dict \<Rightarrow> 'v reconciler \<times> 'v \<Rightarrow>
   quarantine_item list res \<times> 'v reconciler \<times> 'v" where
  "reconcile_once enum now local_positions w =
    (case w of (rc, v) \<Rightarrow>
     (case fetch_positions (rc_api rc) v of
        (Inl e, v1) \<Rightarrow>
          (let items = quarantine_items rc @ [\<lparr>item_id = ''venue_connectivity'', qi_reason = UNKNOWN_ORDER,
                 qi_details = ConnectivityError e, qi_timestamp = now\<rparr>]
           in (ok items, rc\<lparr>quarantine_items := items\<rparr>, v1))
      | (Inr ps, v1) \<Rightarrow>
          (case exchange_map ps [] of
             Inl e \<Rightarrow> (Inl e, rc, v1)
           | Inr ex_map \<Rightarrow>
               (let all_assets = enum (set (dkeys local_positions) \<union> set (dkeys ex_map));
                    items = quarantine_items rc @ List.map_filter (mismatch_item now local_positions ex_map) all_assets
                in (ok items, rc\<lparr>quarantine_items := items\<rparr>, v1)))))"

section \<open>State recovery\<close>

record local_position =
  lp_asset :: "string option"
  lp_position_size :: "pyfloat option"
  lp_asset_class :: "string option"

record recovery_result =
  rr_timestamp_utc :: int
  positions_reconciled :: int
  orders_reconciled :: int
  quarantine_triggered :: bool
  flatten_triggered :: bool
  exits_dispatched :: "approved_exit list"

text \<open>\<open>{p.get(key): p.get(value, d) for p in ps}\<close>: a missing key is the key \<open>None\<close>.\<close>

definition qty_dict :: "('p \<Rightarrow> string option) \<Rightarrow> ('p \<Rightarrow> pyfloat option) \<Rightarrow> 'p list \<Rightarrow> (string option, pyfloat) dict" where
  "qty_dict key val ps = foldl (\<lambda>d p. dset (key p) (case val p of None \<Rightarrow> 0 | Some a \<Rightarrow> a) d) [] ps"

definition class_dict :: "('p \<Rightarrow> string option) \<Rightarrow> ('p \<Rightarrow> string option) \<Rightarrow> 'p list \<Rightarrow> (string, string) dict" where
  "class_dict key val ps = foldl (\<lambda>d p. case key p of
     None \<Rightarrow> d
   | Some k \<Rightarrow> if k = [] then d else dset k (case val p of None \<Rightarrow> ''crypto'' | Some c \<Rightarrow> c) d) [] ps"

text \<open>The variables of the loop over the assets.\<close>

record mismatch_scan =
  mismatched_assets :: "string list"
  max_qty_delta :: pyfloat
  pos_reconciled :: int

definition scan_asset ::
  "(string option, pyfloat) dict \<Rightarrow> (string option, pyfloat) dict \<Rightarrow> mismatch_scan \<Rightarrow> string option \<Rightarrow> mismatch_scan" where
  "scan_asset v_pos l_pos sc asset = (case asset of
     None \<Rightarrow> sc
   | Some a \<Rightarrow>
       if a = [] then sc
       else (let delta = \<bar>dget_or v_pos asset 0 - dget_or l_pos asset 0\<bar>;
                 sc1 = sc\<lparr>max_qty_delta := pymax (max_qty_delta sc) delta\<rparr>
             in if fl (1/1000000) < delta then sc1\<lparr>mismatched_assets := mismatched_assets sc1 @ [a]\<rparr>
                else sc1\<lparr>pos_reconciled := pos_reconciled sc1 + 1\<rparr>))"

text \<open>\<open>v_ac.get(asset) or l_ac.get(asset) or "crypto"\<close>: an empty string counts as missing.\<close>

definition exit_class :: "(string, string) dict \<Rightarrow> (string, string) dict \<Rightarrow> string \<Rightarrow> string" where
  "exit_class v_ac l_ac asset = (let v = dget_or v_ac asset []; l = dget_or l_ac asset [] in
     if v \<noteq> [] then v else if l \<noteq> [] then l else ''crypto'')"

definition recovery_exit :: "(string, string) dict \<Rightarrow> (string, string) dict \<Rightarrow> string \<Rightarrow> approved_exit res" where
  "recovery_exit v_ac l_ac asset = new_ApprovedExit \<lparr>ax_asset = asset,
     ax_asset_class = exit_class v_ac l_ac asset,
     ax_reason = ''state_recovery_severe_mismatch_flatten'', ax_issuer = ISSUER\<rparr>"

fun recovery_exits :: "(string, string) dict \<Rightarrow> (string, string) dict \<Rightarrow> string list \<Rightarrow> approved_exit list res" where
  "recovery_exits v_ac l_ac [] = ok []"
| "recovery_exits v_ac l_ac (a # as) = rbind (recovery_exit v_ac l_ac a) (\<lambda>x.
     rbind (recovery_exits v_ac l_ac as) (\<lambda>xs. ok (x # xs)))"

text \<open>
  The largest venue quantity, at least one: \<open>max\<close> of a set, whose order only matters when a
  quantity is NaN.
\<close>

definition max_venue :: "(string option, pyfloat) dict \<Rightarrow> pyfloat" where
  "max_venue v_pos = foldl pymax 1 (map (\<lambda>v. \<bar>v\<bar>) (dvalues v_pos))"

definition recover_state ::
  "(string option set \<Rightarrow> string option list) \<Rightarrow> int \<Rightarrow> 'v venue_api \<Rightarrow> local_position list \<Rightarrow>
   ('v, recovery_result) act" where
  "recover_state enum now_utc api l_pos =
    abind (fetch_positions api) (\<lambda>venue_positions.
    abind (fetch_open_orders api None) (\<lambda>venue_orders v.
      let v_pos_dict = qty_dict vp_symbol vp_amount venue_positions;
          l_pos_dict = qty_dict lp_asset lp_position_size l_pos;
          v_ac = class_dict vp_symbol vp_asset_class venue_positions;
          l_ac = class_dict lp_asset lp_asset_class l_pos;
          sc = foldl (scan_asset v_pos_dict l_pos_dict)
            \<lparr>mismatched_assets = [], max_qty_delta = 0, pos_reconciled = 0\<rparr>
            (enum (set (dkeys v_pos_dict) \<union> set (dkeys l_pos_dict)));
          flatten = (mismatched_assets sc \<noteq> [] \<and> fl (1/2) * max_venue v_pos_dict < max_qty_delta sc)
      in (rbind (if flatten then recovery_exits v_ac l_ac (mismatched_assets sc) else ok []) (\<lambda>exits.
            ok \<lparr>rr_timestamp_utc = now_utc, positions_reconciled = pos_reconciled sc,
                orders_reconciled = 0, quarantine_triggered = (mismatched_assets sc \<noteq> []),
                flatten_triggered = flatten, exits_dispatched = exits\<rparr>), v)))"

section \<open>Lemmas\<close>

lemma recovery_exits_ok: "recovery_exits v_ac l_ac as = ok (map (\<lambda>a. \<lparr>ax_asset = a,
     ax_asset_class = exit_class v_ac l_ac a,
     ax_reason = ''state_recovery_severe_mismatch_flatten'', ax_issuer = ISSUER\<rparr>) as)"
  by (induction as) (auto simp: recovery_exit_def new_ApprovedExit_def)

definition differs :: "(string option, pyfloat) dict \<Rightarrow> (string option, pyfloat) dict \<Rightarrow> string \<Rightarrow> bool" where
  "differs v_pos l_pos a \<longleftrightarrow> fl (1/1000000) < \<bar>dget_or v_pos (Some a) 0 - dget_or l_pos (Some a) 0\<bar>"

definition named :: "string option list \<Rightarrow> string list" where
  "named xs = filter (\<lambda>a. a \<noteq> []) (List.map_filter (\<lambda>x. x) xs)"

lemma scan_assets:
  "mismatched_assets (foldl (scan_asset v l) sc xs) = mismatched_assets sc @ filter (differs v l) (named xs)"
  "pos_reconciled (foldl (scan_asset v l) sc xs) =
    pos_reconciled sc + int (length (filter (\<lambda>a. \<not> differs v l a) (named xs)))"
proof (induction xs arbitrary: sc)
  case (Cons x xs)
  {
    case 1
    show ?case using Cons.IH(1) by (auto simp: scan_asset_def differs_def named_def Let_def map_filter_simps split: option.splits)
  next
    case 2
    show ?case using Cons.IH(2) by (auto simp: scan_asset_def differs_def named_def Let_def map_filter_simps split: option.splits)
  }
qed (simp_all add: named_def map_filter_simps)

definition enumerates :: "('a set \<Rightarrow> 'a list) \<Rightarrow> bool" where
  "enumerates enum \<longleftrightarrow> (\<forall>A. finite A \<longrightarrow> set (enum A) = A \<and> distinct (enum A))"

lemma set_named: "set (named xs) = {a. Some a \<in> set xs \<and> a \<noteq> []}"
  by (induction xs) (auto simp: named_def map_filter_simps split: option.splits)

lemma distinct_named: "distinct xs \<Longrightarrow> distinct (named xs)"
proof (induction xs)
  case (Cons x xs)
  have "a \<in> set (named xs) \<Longrightarrow> Some a \<in> set xs" for a by (simp add: set_named)
  then show ?case using Cons by (auto simp: named_def map_filter_simps split: option.splits)
qed (simp add: named_def map_filter_simps)

lemma mismatch_item_id: "mismatch_item now l e a = Some x \<Longrightarrow> item_id x = ''pos_'' @ a"
  by (auto simp: mismatch_item_def Let_def split: if_splits)

lemma mismatch_items:
  "set (map item_id (List.map_filter (mismatch_item now l e) as)) =
     {''pos_'' @ a | a. a \<in> set as \<and> fl (1/1000000) < \<bar>dget_or l a 0 - dget_or e a 0\<bar>}"
  "distinct as \<Longrightarrow> distinct (map item_id (List.map_filter (mismatch_item now l e) as))"
proof -
  show s: "set (map item_id (List.map_filter (mismatch_item now l e) as)) =
     {''pos_'' @ a | a. a \<in> set as \<and> fl (1/1000000) < \<bar>dget_or l a 0 - dget_or e a 0\<bar>}" for as
    by (induction as) (auto simp: mismatch_item_def Let_def map_filter_simps split: option.splits)
  show "distinct as \<Longrightarrow> distinct (map item_id (List.map_filter (mismatch_item now l e) as))"
  proof (induction as)
    case (Cons a as)
    have "''pos_'' @ a \<notin> set (map item_id (List.map_filter (mismatch_item now l e) as))"
      using Cons.prems unfolding s by auto
    then show ?case using Cons mismatch_item_id
      by (cases "mismatch_item now l e a") (auto simp: map_filter_simps)
  qed (simp add: map_filter_simps)
qed

lemma class_dict_get: "dget_or (class_dict key val ps) a [] = [] \<or> dget_or (class_dict key val ps) a [] \<noteq> []"
  by simp

lemma exit_class_nonempty: "exit_class v_ac l_ac a \<noteq> []"
  by (simp add: exit_class_def Let_def)

lemma recover_returns:
  assumes "fetch_positions api v = (ok vps, v1)" "fetch_open_orders api None v1 = (ok ords, v2)"
  shows "\<exists>r. recover_state enum now api l_pos v = (ok r, v2)"
proof -
  have "\<exists>y. rbind (if c then recovery_exits a b as else ok []) (\<lambda>x. ok (g x)) = ok y" for c a b as and g :: "approved_exit list \<Rightarrow> recovery_result"
    by (cases c) (simp_all add: recovery_exits_ok)
  then show ?thesis unfolding recover_state_def abind_apply assms sum.case prod.case Let_def by simp
qed

section \<open>Properties\<close>

text \<open>one reconciliation cycle quarantines exactly the assets whose local and venue
  quantities differ by more than the tolerance, each once, or the venue itself when it cannot
  be queried; the items already there stay, and the system is in quarantine exactly when it
  was before or something new was found.\<close>

theorem reconcile_finds_every_mismatch:
  assumes "enumerates enum" "reconcile_once enum now loc (rc, v) = (ok items, rc', v')"
  shows "\<exists>found. items = quarantine_items rc @ found \<and> quarantine_items rc' = items \<and>
    has_quarantine rc' = (has_quarantine rc \<or> found \<noteq> []) \<and>
    (case fst (fetch_positions (rc_api rc) v) of
       Inl e \<Rightarrow> map item_id found = [''venue_connectivity'']
     | Inr ps \<Rightarrow> (\<exists>m. exchange_map ps [] = ok m \<and> distinct (map item_id found) \<and>
         set (map item_id found) = {''pos_'' @ a | a. a \<in> set (dkeys loc) \<union> set (dkeys m) \<and>
           fl (1/1000000) < \<bar>dget_or loc a 0 - dget_or m a 0\<bar>}))"
proof -
  obtain r v1 where f: "fetch_positions (rc_api rc) v = (r, v1)" by force
  show ?thesis
  proof (cases r)
    case (Inl e)
    then show ?thesis using assms(2) f by (auto simp: reconcile_once_def Let_def has_quarantine_def)
  next
    case (Inr ps)
    then obtain m where m: "exchange_map ps [] = ok m"
      using assms(2) f by (cases "exchange_map ps []") (auto simp: reconcile_once_def)
    let ?A = "set (dkeys loc) \<union> set (dkeys m)"
    have e: "set (enum ?A) = ?A" "distinct (enum ?A)" using assms(1) by (simp_all add: enumerates_def)
    define found where "found = List.map_filter (mismatch_item now loc m) (enum ?A)"
    have it: "items = quarantine_items rc @ found" "rc' = rc\<lparr>quarantine_items := items\<rparr>"
      using assms(2) f Inr m by (auto simp: reconcile_once_def Let_def found_def)
    have fd: "distinct (map item_id found)" "set (map item_id found) = {''pos_'' @ a | a. a \<in> ?A \<and>
           fl (1/1000000) < \<bar>dget_or loc a 0 - dget_or m a 0\<bar>}"
      using mismatch_items [where now = now and l = loc and e = m and as = "enum ?A"] e
      unfolding found_def by simp_all
    show ?thesis
      unfolding f Inr fst_conv sum.case
      by (intro exI [of _ found] exI [of _ m] conjI m fd) (simp_all add: it has_quarantine_def)
  qed
qed

definition sample_positions :: mock_venue where
  "sample_positions = (new_mock_venue [])\<lparr>mv_positions := [(''BTC'', \<lparr>vp_symbol = Some ''BTC'',
     vp_amount = Some (Fin 2), vp_asset_class = None\<rparr>)]\<rparr>"

lemma enumerates_ex: "\<exists>enum. enumerates enum"
  by (rule exI [of _ "\<lambda>A. SOME xs. set xs = A \<and> distinct xs"])
    (metis (mono_tags, lifting) enumerates_def finite_distinct_list someI_ex)

theorem reconcile_finds_every_mismatch_witness:
  "\<exists>enum items rc'. enumerates enum \<and> reconcile_once enum 0 [(''BTC'', Fin 1)]
    (\<lparr>rc_api = mock_api, quarantine_items = []\<rparr>, sample_positions) = (ok items, rc', sample_positions) \<and>
    set (map item_id items) = {''pos_BTC''}"
proof -
  obtain enum :: "string set \<Rightarrow> string list" where en: "enumerates enum" using enumerates_ex by blast
  let ?rc = "\<lparr>rc_api = mock_api, quarantine_items = []\<rparr>"
  obtain items rc' where r: "reconcile_once enum 0 [(''BTC'', Fin 1)] (?rc, sample_positions) = (ok items, rc', sample_positions)"
    by (simp add: reconcile_once_def mock_fetch_positions_def sample_positions_def Let_def)
  have d: "fl (1/1000000) < \<bar>dget_or [(''BTC'', Fin 1)] ''BTC'' 0 - dget_or [(''BTC'', Fin 2)] ''BTC'' 0\<bar>"
    by (simp add: dget_or_def minus_pyfloat_def fl_eval float_eval)
  show ?thesis
    using reconcile_finds_every_mismatch [OF en r] r en d
    by (intro exI [of _ enum] exI [of _ items] exI [of _ rc'])
      (auto simp: mock_fetch_positions_def sample_positions_def)
qed

text \<open>C9: recovery compares every named asset once: quarantine is triggered exactly when some
  asset differs; when it flattens, the exits are for exactly the differing assets, each once,
  signed by the issuer and with a class; otherwise there is none.  The count of reconciled
  positions is the other assets, and \<open>orders_reconciled\<close> is always zero: the open orders are
  fetched but never compared.\<close>

theorem recovery_flattens_exactly_mismatches:
  assumes "enumerates enum" "recover_state enum now api l_pos v = (ok r, v')"
  shows "\<exists>vps v_pos l_pos_d mm. fst (fetch_positions api v) = ok vps \<and> v_pos = qty_dict vp_symbol vp_amount vps \<and>
    l_pos_d = qty_dict lp_asset lp_position_size l_pos \<and> distinct mm \<and>
    set mm = {a. Some a \<in> set (dkeys v_pos) \<union> set (dkeys l_pos_d) \<and> a \<noteq> [] \<and> differs v_pos l_pos_d a} \<and>
    quarantine_triggered r = (mm \<noteq> []) \<and> (flatten_triggered r \<longrightarrow> mm \<noteq> []) \<and>
    map ax_asset (exits_dispatched r) = (if flatten_triggered r then mm else []) \<and>
    (\<forall>x\<in>set (exits_dispatched r). ax_issuer x = ISSUER \<and> ax_asset_class x \<noteq> []) \<and>
    orders_reconciled r = 0 \<and> positions_reconciled r = int (card {a. Some a \<in> set (dkeys v_pos) \<union> set (dkeys l_pos_d) \<and>
      a \<noteq> [] \<and> \<not> differs v_pos l_pos_d a})"
proof -
  obtain vps v1 ords v2 where f: "fetch_positions api v = (ok vps, v1)" "fetch_open_orders api None v1 = (ok ords, v2)"
    using assms(2) by (auto simp: recover_state_def abind_apply Let_def split: prod.splits sum.splits)
  define vp where "vp = qty_dict vp_symbol vp_amount vps"
  define lp where "lp = qty_dict lp_asset lp_position_size l_pos"
  define xs where "xs = enum (set (dkeys vp) \<union> set (dkeys lp))"
  have x: "set xs = set (dkeys vp) \<union> set (dkeys lp)" "distinct xs"
    using assms(1) by (simp_all add: enumerates_def xs_def)
  define mm where "mm = filter (differs vp lp) (named xs)"
  have mm: "distinct mm" "set mm = {a. Some a \<in> set (dkeys vp) \<union> set (dkeys lp) \<and> a \<noteq> [] \<and> differs vp lp a}"
    using distinct_named [OF x(2)] by (auto simp: mm_def set_named x(1))
  have cnt: "length (filter (\<lambda>a. \<not> differs vp lp a) (named xs)) =
      card {a. Some a \<in> set (dkeys vp) \<union> set (dkeys lp) \<and> a \<noteq> [] \<and> \<not> differs vp lp a}"
    using distinct_named [OF x(2)]
    by (subst distinct_card [symmetric]) (auto simp: set_named x(1) intro: arg_cong [where f = card])
  define flat where "flat = (mm \<noteq> [] \<and> fl (1/2) * max_venue vp <
    max_qty_delta (foldl (scan_asset vp lp) \<lparr>mismatched_assets = [], max_qty_delta = 0, pos_reconciled = 0\<rparr> xs))"
  let ?ac = "exit_class (class_dict vp_symbol vp_asset_class vps) (class_dict lp_asset lp_asset_class l_pos)"
  define exits where "exits = (if flat then map (\<lambda>a. \<lparr>ax_asset = a, ax_asset_class = ?ac a,
     ax_reason = ''state_recovery_severe_mismatch_flatten'', ax_issuer = ISSUER\<rparr>) mm else [])"
  have ex: "map ax_asset exits = (if flat then mm else [])" "\<forall>x\<in>set exits. ax_issuer x = ISSUER \<and> ax_asset_class x \<noteq> []"
    by (auto simp: exits_def exit_class_nonempty comp_def)
  have "r = \<lparr>rr_timestamp_utc = now,
      positions_reconciled = int (length (filter (\<lambda>a. \<not> differs vp lp a) (named xs))),
      orders_reconciled = 0, quarantine_triggered = (mm \<noteq> []), flatten_triggered = flat, exits_dispatched = exits\<rparr>"
    using assms(2)
    unfolding recover_state_def abind_apply f sum.case prod.case Let_def vp_def [symmetric] lp_def [symmetric]
      xs_def [symmetric] scan_assets mismatch_scan.simps append_Nil mm_def [symmetric] flat_def [symmetric]
      recovery_exits_ok exits_def
    by (cases flat) auto
  then show ?thesis
    using mm cnt ex f(1) vp_def lp_def flat_def
    by (intro exI [of _ vps] exI [of _ vp] exI [of _ lp] exI [of _ mm]) simp
qed

definition held_position :: local_position where
  "held_position = \<lparr>lp_asset = Some ''BTC'', lp_position_size = Some (Fin (1/2)), lp_asset_class = None\<rparr>"

theorem recovery_flattens_exactly_mismatches_witness:
  "\<exists>enum r. enumerates enum \<and> recover_state enum 0 mock_api [] sample_positions = (ok r, sample_positions) \<and>
    orders_reconciled r = 0 \<and> (\<forall>x\<in>set (exits_dispatched r). ax_issuer x = ISSUER)"
proof -
  obtain enum :: "string option set \<Rightarrow> string option list" where en: "enumerates enum" using enumerates_ex by blast
  obtain r where r: "recover_state enum 0 mock_api [] sample_positions = (ok r, sample_positions)"
    using recover_returns [of mock_api sample_positions _ sample_positions _ sample_positions enum 0 "[]"]
    by (auto simp: mock_fetch_positions_def mock_fetch_open_orders_def)
  show ?thesis using recovery_flattens_exactly_mismatches [OF en r] en r by blast
qed

text \<open>the severity test is relative to at least one unit: half a coin held locally and absent
  from the venue, a full discrepancy on the one held asset, triggers quarantine but no flatten.\<close>

theorem full_mismatch_below_one_unit_not_flattened:
  "recover_state (\<lambda>A. if A = {Some ''BTC''} then [Some ''BTC''] else []) 0 mock_api [held_position] (new_mock_venue []) =
    (ok \<lparr>rr_timestamp_utc = 0, positions_reconciled = 0, orders_reconciled = 0, quarantine_triggered = True,
        flatten_triggered = False, exits_dispatched = []\<rparr>, new_mock_venue [])"
proof -
  have d: "fl (1/1000000) < Fin (1/2)" by (simp add: fl_eval float_eval)
  have e: "\<bar>Fin 0 - Fin (1/2)\<bar> = Fin (1/2)" "fl (1/2) = Fin (1/2)" by (simp_all add: minus_pyfloat_def fl_eval float_eval)
  show ?thesis
    by (simp add: recover_state_def abind_apply mock_fetch_positions_def mock_fetch_open_orders_def
      new_mock_venue_def held_position_def qty_dict_def class_dict_def scan_asset_def Let_def dget_or_def
      d e max_venue_def one_Fin zero_Fin pymax_def)
qed

end
