(* ===== verification/TierState.thy ===== *)
theory TierState
  imports RiskModels Money
begin

text \<open>
  \<open>risk/tier_state.py\<close>: the persisted survival tier.  The process-wide cache, the Redis keys and
  the files are the record \<open>tier_world\<close>; whether a store answers a call is an argument of the
  call.  A stored record is what the JSON parser and the field conversions make of it
  (\<open>payload\<close>): a state, text that is no JSON, JSON that is no mapping, or a mapping whose fields do
  not convert.  Expiry of a Redis key is the step \<open>redis_expire\<close>.
\<close>

section \<open>State\<close>

record tier_state =
  tier :: string
  entered_cycle :: int
  below_count :: int
  last_settled_equity :: "pyfloat option"

definition UNKNOWN_TIER :: string where
  "UNKNOWN_TIER = ''unknown''"

definition default_state :: tier_state where
  "default_state = \<lparr>tier = ''normal'', entered_cycle = 0, below_count = 0, last_settled_equity = None\<rparr>"

definition unknown_state :: tier_state where
  "unknown_state = \<lparr>tier = UNKNOWN_TIER, entered_cycle = 0, below_count = 0, last_settled_equity = None\<rparr>"

datatype payload = Stored tier_state | BadJson | NotMapping | BadFields

text \<open>\<open>_state_from_mapping\<close> of the parsed text, with the exceptions it raises.\<close>

definition state_from_payload :: "payload \<Rightarrow> tier_state res" where
  "state_from_payload p = (case p of
     Stored st \<Rightarrow> ok st
   | BadJson \<Rightarrow> raise (ValueError ''JSONDecodeError'')
   | NotMapping \<Rightarrow> raise (AttributeError ''get'')
   | BadFields \<Rightarrow> raise (ValueError ''field''))"

record tier_world =
  last_known :: "(string, tier_state) dict"
  redis_store :: "(string, payload) dict"
  file_store :: "(string, payload) dict"

definition cache_put :: "string \<Rightarrow> tier_state \<Rightarrow> tier_world \<Rightarrow> tier_world" where
  "cache_put key st w = w\<lparr>last_known := dset key st (last_known w)\<rparr>"

definition cache_get :: "string \<Rightarrow> tier_world \<Rightarrow> tier_state option" where
  "cache_get key w = dget (last_known w) key"

section \<open>Merging\<close>

definition TIER_SEVERITY :: "(string, int) dict" where
  "TIER_SEVERITY = [(''normal'', 0), (''caution'', 1), (''survival'', 2), (''unknown'', 2), (''cooldown'', 3)]"

definition tier_severity :: "tier_state \<Rightarrow> int" where
  "tier_severity st = dget_or TIER_SEVERITY (map lower_char (tier st)) (dget_or TIER_SEVERITY UNKNOWN_TIER 0)"

definition more_defensive :: "tier_state \<Rightarrow> tier_state \<Rightarrow> tier_state" where
  "more_defensive a b = (if tier_severity b \<le> tier_severity a then a else b)"

section \<open>The Redis backend\<close>

definition redis_key :: "string \<Rightarrow> string \<Rightarrow> string" where
  "redis_key base scope = (let sc = (if scope = [] then ''global'' else scope) in
     if sc = ''global'' then base else base @ '':'' @ sc)"

definition redis_refresh_ttl :: "bool \<Rightarrow> string \<Rightarrow> tier_world \<Rightarrow> bool" where
  "redis_refresh_ttl up key w = (up \<and> dget (redis_store w) key \<noteq> None)"

definition redis_save :: "bool \<Rightarrow> string \<Rightarrow> tier_state \<Rightarrow> tier_world \<Rightarrow> bool \<times> tier_world" where
  "redis_save up key st w =
    (let w1 = cache_put key st w in
     if up then (True, w1\<lparr>redis_store := dset key (Stored st) (redis_store w1)\<rparr>) else (False, w1))"

definition redis_expire :: "string \<Rightarrow> tier_world \<Rightarrow> tier_world" where
  "redis_expire key w = w\<lparr>redis_store := ddel key (redis_store w)\<rparr>"

definition redis_load :: "bool \<Rightarrow> string \<Rightarrow> tier_world \<Rightarrow> tier_state \<times> tier_world" where
  "redis_load up key w =
    (if \<not> up then
       (case cache_get key w of Some c \<Rightarrow> (c, w) | None \<Rightarrow> (unknown_state, w))
     else (case dget (redis_store w) key of
       None \<Rightarrow> (default_state, w)
     | Some raw \<Rightarrow>
         (case state_from_payload raw of
            Inl e \<Rightarrow> (default_state, w)
          | Inr st \<Rightarrow>
              (let merged = (case cache_get key w of None \<Rightarrow> st | Some c \<Rightarrow> more_defensive st c)
               in (merged, cache_put key merged w)))))"

section \<open>The file backend and the selection\<close>

text \<open>\<open>redis_target\<close> is the key when a client is passed, or \<open>REDIS_URL\<close> is set and no path is.\<close>

definition select_backend :: "bool \<Rightarrow> string \<Rightarrow> string option \<Rightarrow> string \<Rightarrow> string \<Rightarrow> string option" where
  "select_backend has_client redis_url path base scope =
    (if has_client then Some (redis_key base scope)
     else if strip redis_url = [] then None
     else if (case path of None \<Rightarrow> False | Some p \<Rightarrow> p \<noteq> []) then None
     else Some (redis_key base scope))"

definition file_key :: "string \<Rightarrow> string" where
  "file_key target = ''file:'' @ target"

definition file_save :: "bool \<Rightarrow> string \<Rightarrow> tier_state \<Rightarrow> tier_world \<Rightarrow> bool \<times> tier_world" where
  "file_save up target st w =
    (let w1 = cache_put (file_key target) st w in
     if up then (True, w1\<lparr>file_store := dset target (Stored st) (file_store w1)\<rparr>) else (False, w1))"

text \<open>A missing file and broken JSON read as normal; an unreadable file or bad fields hold the
  cache; JSON that is no mapping is not caught.\<close>

definition file_load :: "bool \<Rightarrow> string \<Rightarrow> (tier_world, tier_state) act" where
  "file_load up target w =
    (let hold = (ok (case cache_get (file_key target) w of Some c \<Rightarrow> c | None \<Rightarrow> unknown_state), w) in
     if \<not> up then hold
     else (case dget (file_store w) target of
       None \<Rightarrow> (ok default_state, w)
     | Some BadJson \<Rightarrow> (ok default_state, w)
     | Some raw \<Rightarrow>
         (case state_from_payload raw of
            Inr st \<Rightarrow> (ok st, cache_put (file_key target) st w)
          | Inl (AttributeError m) \<Rightarrow> (Inl (AttributeError m), w)
          | Inl e \<Rightarrow> hold)))"

definition save_state ::
  "bool \<Rightarrow> string option \<Rightarrow> string \<Rightarrow> tier_state \<Rightarrow> tier_world \<Rightarrow> bool \<times> tier_world" where
  "save_state up backend target st w =
    (case backend of Some key \<Rightarrow> redis_save up key st w | None \<Rightarrow> file_save up target st w)"

definition load_state :: "bool \<Rightarrow> string option \<Rightarrow> string \<Rightarrow> (tier_world, tier_state) act" where
  "load_state up backend target w =
    (case backend of
       Some key \<Rightarrow> (case redis_load up key w of (st, w') \<Rightarrow> (ok st, w'))
     | None \<Rightarrow> file_load up target w)"

section \<open>Lemmas\<close>

lemma cache_simps [simp]: "cache_get k (cache_put k' st w) = (if k' = k then Some st else cache_get k w)"
  "redis_store (cache_put k' st w) = redis_store w" "file_store (cache_put k' st w) = file_store w"
  "cache_get k (w\<lparr>redis_store := d\<rparr>) = cache_get k w" "cache_get k (w\<lparr>file_store := d\<rparr>) = cache_get k w"
  by (auto simp: cache_get_def cache_put_def dict_simps)

lemma unknown_severity: "tier_severity unknown_state = 2"
  by (simp add: tier_severity_def TIER_SEVERITY_def unknown_state_def UNKNOWN_TIER_def dget_or_def lower_char_def)

lemma redis_load_stored:
  "dget (redis_store w) key = Some (Stored rec) \<Longrightarrow> fst (redis_load True key w) =
    (case cache_get key w of None \<Rightarrow> rec | Some c \<Rightarrow> more_defensive rec c)"
  by (simp add: redis_load_def state_from_payload_def Let_def)

lemma redis_load_outage:
  "redis_load False key w = (case cache_get key w of Some c \<Rightarrow> (c, w) | None \<Rightarrow> (unknown_state, w))"
  by (simp add: redis_load_def)

lemma redis_save_cached [simp]: "cache_get key (snd (redis_save up key st w)) = Some st"
  by (simp add: redis_save_def Let_def)

lemma more_defensive_severity: "tier_severity (more_defensive a b) = max (tier_severity a) (tier_severity b)"
  by (auto simp: more_defensive_def)

lemma redis_keys_distinct:
  "redis_key base ''global'' = base" "sc \<noteq> [] \<Longrightarrow> sc \<noteq> ''global'' \<Longrightarrow> redis_key base sc \<noteq> base"
  by (auto simp: redis_key_def Let_def)

section \<open>Properties\<close>

text \<open>
  What an observer of one process sees: saves and loads of this process through the Redis backend,
  and the records other processes (or the expiry of a key) put into the store in between.
\<close>

datatype tier_op = OpSave bool string tier_state | OpLoad bool string | OpForeign string "payload option"

datatype tier_event =
    Saved string tier_state
  | FromOutage string tier_state
  | FromRecord string tier_state tier_state
  | FromNothing string tier_state
  | Elsewhere

fun tier_step :: "tier_op \<Rightarrow> tier_world \<Rightarrow> tier_event \<times> tier_world" where
  "tier_step (OpSave up key st) w = (Saved key st, snd (redis_save up key st w))"
| "tier_step (OpLoad up key) w =
    (let (ans, w') = redis_load up key w in
      ((if \<not> up then FromOutage key ans
        else case dget (redis_store w) key of
            Some (Stored rec) \<Rightarrow> FromRecord key rec ans
          | _ \<Rightarrow> FromNothing key ans), w'))"
| "tier_step (OpForeign key None) w = (Elsewhere, redis_expire key w)"
| "tier_step (OpForeign key (Some p)) w = (Elsewhere, w\<lparr>redis_store := dset key p (redis_store w)\<rparr>)"

definition tier_after :: "tier_op list \<Rightarrow> tier_world \<Rightarrow> tier_world" where
  "tier_after ops w = foldl (\<lambda>u op. snd (tier_step op u)) w ops"

fun tier_log :: "tier_op list \<Rightarrow> tier_world \<Rightarrow> tier_event list" where
  "tier_log [] w = []"
| "tier_log (op # ops) w = fst (tier_step op w) # tier_log ops (snd (tier_step op w))"

text \<open>The states of a key the process saved, or was given from a record.\<close>

fun held_of :: "string \<Rightarrow> tier_event \<Rightarrow> tier_state list" where
  "held_of key (Saved k st) = (if k = key then [st] else [])"
| "held_of key (FromRecord k rec ans) = (if k = key then [ans] else [])"
| "held_of key _ = []"

definition held_states :: "string \<Rightarrow> tier_event list \<Rightarrow> tier_state list" where
  "held_states key seen = concat (map (held_of key) seen)"

definition fresh_process :: "tier_world \<Rightarrow> tier_world" where
  "fresh_process w = w\<lparr>last_known := []\<rparr>"

lemma fresh_cache: "cache_get key (fresh_process w) = None"
  by (simp add: fresh_process_def cache_get_def)

lemma tier_log_length [simp]: "length (tier_log ops w) = length ops"
  by (induction ops arbitrary: w) auto

lemma tier_log_nth:
  "i < length ops \<Longrightarrow> tier_log ops w ! i = fst (tier_step (ops ! i) (tier_after (take i ops) w))"
  by (induction ops arbitrary: w i) (auto simp: nth_Cons tier_after_def split: nat.splits)

lemma tier_log_take: "take i (tier_log ops w) = tier_log (take i ops) w"
  by (induction ops arbitrary: w i) (auto simp: take_Cons split: nat.splits)

lemma tier_step_cache:
  "cache_get key (snd (tier_step op w)) =
    (case held_of key (fst (tier_step op w)) of [] \<Rightarrow> cache_get key w | st # _ \<Rightarrow> Some st)"
proof (cases op)
  case (OpForeign k p)
  then show ?thesis by (cases p) (simp_all add: redis_expire_def)
qed (auto simp: redis_save_def redis_load_def state_from_payload_def Let_def
    split: option.splits payload.splits)

lemma held_of_cases: "held_of key e = [] \<or> (\<exists>st. held_of key e = [st])"
  by (cases e) auto

lemma held_cache:
  "cache_get key (tier_after ops w) =
    (if held_states key (tier_log ops w) = [] then cache_get key w else Some (last (held_states key (tier_log ops w))))"
proof (induction ops arbitrary: w)
  case (Cons op ops)
  then show ?case
    using tier_step_cache [of key op w] held_of_cases [of key "fst (tier_step op w)"]
    by (auto simp: tier_after_def held_states_def)
qed (simp add: tier_after_def held_states_def)

lemma unknown_as_survival:
  "tier_severity unknown_state = tier_severity (default_state\<lparr>tier := ''survival''\<rparr>)"
  by (simp add: tier_severity_def TIER_SEVERITY_def dget_or_def lower_char_def default_state_def
      unknown_state_def UNKNOWN_TIER_def)

lemma more_defensive_cases: "more_defensive a b = a \<or> more_defensive a b = b"
  by (simp add: more_defensive_def)

text \<open>C10: what a process is told about its tier, over any run of its saves and loads (of any keys, in
  outages or not) and of what others store or let expire, starting from an empty cache.  A load
  during an outage returns the state of that key the process last saved, or was last given from a
  record, and the unknown tier, whose severity is that of the survival tier, when there is none.
  A load that reads a record returns the record or that last state, and its severity is the
  larger of the two, so it is never milder than what was saved nor than what was loaded before.
  A load with Redis up that reads no record returns the normal state.\<close>

theorem tier_load_fails_closed:
  assumes i: "i < length ops" and seen: "seen = tier_log ops (fresh_process w)"
    and before: "before = held_states key (take i seen)"
  shows "(seen ! i = FromOutage key ans \<longrightarrow>
      ans = (if before = [] then unknown_state else last before)) \<and>
    (seen ! i = FromRecord key rec ans \<longrightarrow>
      ans = rec \<or> before \<noteq> [] \<and> ans = last before) \<and>
    (seen ! i = FromRecord key rec ans \<longrightarrow> tier_severity ans =
      (if before = [] then tier_severity rec else max (tier_severity rec) (tier_severity (last before)))) \<and>
    (seen ! i = FromNothing key ans \<longrightarrow> ans = default_state) \<and>
    tier_severity unknown_state = tier_severity (default_state\<lparr>tier := ''survival''\<rparr>)"
proof -
  let ?u = "tier_after (take i ops) (fresh_process w)"
  have cache: "cache_get key ?u = (if before = [] then None else Some (last before))"
    using fresh_cache [of key w] by (simp add: held_cache before seen tier_log_take)
  have step: "seen ! i = fst (tier_step (ops ! i) ?u)" using i by (simp add: seen tier_log_nth)
  show ?thesis
  proof (cases "ops ! i")
    case (OpLoad up k)
    show ?thesis
      using cache more_defensive_cases [of rec "last before"] more_defensive_severity [of rec "last before"]
      unfolding step OpLoad
      by (auto simp: redis_load_def state_from_payload_def Let_def unknown_as_survival
          split: option.splits payload.splits if_splits)
  next
    case (OpForeign k p)
    then show ?thesis
      by (cases p) (simp_all add: step unknown_as_survival)
  qed (simp add: step unknown_as_survival)
qed

definition cooldown_state :: tier_state where
  "cooldown_state = default_state\<lparr>tier := ''cooldown'', entered_cycle := 7\<rparr>"

definition sample_tier_ops :: "tier_op list" where
  "sample_tier_ops = [OpSave False ''k'' cooldown_state, OpForeign ''k'' (Some (Stored default_state)),
     OpLoad True ''k'', OpForeign ''k'' None, OpLoad False ''k'']"

definition empty_tier_world :: tier_world where
  "empty_tier_world = \<lparr>last_known = [], redis_store = [], file_store = []\<rparr>"

theorem tier_load_fails_closed_witness:
  "fst (tier_step (OpLoad True ''k'') (tier_after (take 2 sample_tier_ops) (fresh_process empty_tier_world))) =
     FromRecord ''k'' default_state cooldown_state \<and> tier_severity cooldown_state = 3"
proof -
  note eval = sample_tier_ops_def fresh_process_def tier_after_def redis_save_def redis_load_def
    redis_expire_def state_from_payload_def Let_def dict_simps cache_get_def cache_put_def
    more_defensive_def tier_severity_def TIER_SEVERITY_def dget_or_def lower_char_def default_state_def
    cooldown_state_def held_states_def
  let ?log = "tier_log sample_tier_ops (fresh_process empty_tier_world)"
  have e2: "?log ! 2 = FromRecord ''k'' default_state cooldown_state"
    by (simp add: eval numeral_2_eq_2)
  have h2: "held_states ''k'' (take 2 ?log) = [cooldown_state]" by (simp add: eval numeral_2_eq_2)
  have e4: "?log ! 4 = FromOutage ''k'' cooldown_state" by (simp add: eval)
  have "tier_severity cooldown_state = max (tier_severity default_state) (tier_severity cooldown_state)"
    using tier_load_fails_closed [of 2 sample_tier_ops ?log empty_tier_world "[cooldown_state]" "''k''" cooldown_state
        default_state] e2 h2 by (simp add: sample_tier_ops_def)
  moreover have "cooldown_state = last (held_states ''k'' (take 4 ?log))"
    using tier_load_fails_closed [of 4 sample_tier_ops ?log empty_tier_world "held_states ''k'' (take 4 ?log)" "''k''"
        cooldown_state default_state] e4 by (simp add: sample_tier_ops_def held_states_def)
  ultimately show ?thesis
    using e2 by (simp add: tier_log_nth sample_tier_ops_def) (simp add: eval)
qed

text \<open>but an expired key launders a defended tier: with Redis up and the record gone, load
  returns normal although the process still holds a cooldown in its cache; and a record that
  does not parse does the same.\<close>

theorem missing_record_forgets_defense:
  "cache_get key (snd (redis_save True key (default_state\<lparr>tier := ''cooldown''\<rparr>) w)) =
     Some (default_state\<lparr>tier := ''cooldown''\<rparr>) \<and>
   fst (redis_load True key (redis_expire key (snd (redis_save True key (default_state\<lparr>tier := ''cooldown''\<rparr>) w)))) =
     default_state \<and>
   fst (redis_load True key (cache_put key (default_state\<lparr>tier := ''cooldown''\<rparr>)
     (w\<lparr>redis_store := dset key BadJson (redis_store w)\<rparr>))) = default_state"
  by (simp add: redis_load_def redis_save_def redis_expire_def Let_def dict_simps state_from_payload_def)

end
