(* ===== verification/Survival.thy ===== *)
theory Survival
  imports TierState RiskEngine
begin

text \<open>
  \<open>risk/survival.py\<close>: the survival automaton.  \<open>raw_status\<close> is the stateless tier ladder of
  \<open>_evaluate_raw_status\<close>, with the Decimal dual run of the two limits; \<open>evaluate_survival_status\<close>
  runs the hysteresis around it and persists the tier.  The GARCH, HMM and EVT results are the
  fields the ladder reads; how they are computed is not part of this theory.
\<close>

section \<open>Tiers and inputs\<close>

datatype survival_tier = SvNORMAL | SvCAUTION | SvSURVIVAL | SvCOOLDOWN

fun tier_value :: "survival_tier \<Rightarrow> string" where
  "tier_value SvNORMAL = ''normal''"
| "tier_value SvCAUTION = ''caution''"
| "tier_value SvSURVIVAL = ''survival''"
| "tier_value SvCOOLDOWN = ''cooldown''"

definition TIER_ORDER :: "survival_tier list" where
  "TIER_ORDER = [SvNORMAL, SvCAUTION, SvSURVIVAL, SvCOOLDOWN]"

definition severity :: "survival_tier \<Rightarrow> int" where
  "severity t = int (length (takeWhile (\<lambda>u. u \<noteq> t) TIER_ORDER))"

text \<open>\<open>SurvivalTier(value)\<close>, \<open>None\<close> where it raises.\<close>

definition tier_of_value :: "string \<Rightarrow> survival_tier option" where
  "tier_of_value s = (case filter (\<lambda>t. tier_value t = s) TIER_ORDER of [] \<Rightarrow> None | t # _ \<Rightarrow> Some t)"

record garch_result =
  conditional_volatility :: pyfloat
  garch_high_volatility :: bool
  volatility_scale_factor :: pyfloat

record hmm_result =
  current_regime :: string
  hmm_high_volatility :: bool

record evt_result =
  cvar_99 :: pyfloat
  recommended_risk_scale :: pyfloat

datatype rationale =
    KillSwitchEngaged
  | MaxDrawdownReached pyfloat
  | SurvivalActive pyfloat int
  | CautionBecause bool bool "pyfloat option" "pyfloat option" "int option"
  | EpsilonFlipDetected
  | Nominal
  | Held survival_tier survival_tier int int

record survival_status =
  ss_tier :: survival_tier
  effective_risk_multiplier :: pyfloat
  allow_new_entries :: bool
  min_confidence_floor :: pyfloat
  active_regime :: string
  garch_vol_forecast :: pyfloat
  evt_tail_var_99 :: pyfloat
  survival_rationale :: rationale

section \<open>The Decimal dual run\<close>

definition dec_div :: "pydecimal \<Rightarrow> pydecimal \<Rightarrow> pydecimal res" where
  "dec_div a b = (case (a, b) of
     (DNaN, _) \<Rightarrow> ok DNaN
   | (_, DNaN) \<Rightarrow> ok DNaN
   | (DFin x, DFin y) \<Rightarrow> dec_div_fin x y
   | (DFin x, _) \<Rightarrow> ok (DFin 0)
   | (_, DFin y) \<Rightarrow> ok (dec_inf_signed ((0 \<le> y) = (a = DInf)))
   | (_, _) \<Rightarrow> raise InvalidOperation)"

text \<open>\<open>a >= b\<close>.\<close>

definition dec_ge :: "pydecimal \<Rightarrow> pydecimal \<Rightarrow> bool res" where
  "dec_ge a b = map_sum id Not (dec_less a b)"

datatype flip_kind = FlipDrawdown | FlipDailyLoss

record epsilon_flip =
  flip_kind :: flip_kind
  float_value :: pyfloat
  decimal_value :: pydecimal
  flip_limit :: pyfloat

definition drawdown_flip :: "account_state \<Rightarrow> pyfloat \<Rightarrow> epsilon_flip list res" where
  "drawdown_flip account limit =
    (if 0 < peak_equity account then
       rbind (fdiv (peak_equity account - equity account) (peak_equity account)) (\<lambda>dd_float.
       rbind (dec_sub (decimal_from_float (peak_equity account)) (decimal_from_float (equity account))) (\<lambda>diff.
       rbind (dec_div diff (decimal_from_float (peak_equity account))) (\<lambda>dd_exact.
       rbind (dec_ge dd_exact (decimal_from_float limit)) (\<lambda>ge.
         ok (if ge \<and> \<not> limit \<le> dd_float
             then [\<lparr>flip_kind = FlipDrawdown, float_value = dd_float, decimal_value = dd_exact, flip_limit = limit\<rparr>]
             else [])))))
     else ok [])"

definition daily_loss_flip ::
  "account_state \<Rightarrow> pyfloat \<Rightarrow> pyfloat option \<Rightarrow> epsilon_flip list res" where
  "daily_loss_flip account limit fallback_anchor =
    (case (case day_start_settled_equity account of None \<Rightarrow> fallback_anchor | Some d \<Rightarrow> Some d) of
       None \<Rightarrow> ok []
     | Some denom \<Rightarrow>
         if denom \<le> 0 then ok []
         else rbind (fdiv (equity account - denom) denom) (\<lambda>pnl_float.
           rbind (dec_sub (decimal_from_float (equity account)) (decimal_from_float denom)) (\<lambda>diff.
           rbind (dec_div diff (decimal_from_float denom)) (\<lambda>pnl_exact.
           rbind (dec_ge (dec_neg (decimal_from_float limit)) pnl_exact) (\<lambda>breach_exact.
             ok (if breach_exact \<and> \<not> pnl_float \<le> - limit
                 then [\<lparr>flip_kind = FlipDailyLoss, float_value = pnl_float, decimal_value = pnl_exact, flip_limit = limit\<rparr>]
                 else []))))))"

definition epsilon_flips ::
  "account_state \<Rightarrow> pyfloat \<Rightarrow> pyfloat \<Rightarrow> pyfloat option \<Rightarrow> epsilon_flip list res" where
  "epsilon_flips account max_dd daily_limit fallback_anchor =
    rbind (drawdown_flip account max_dd) (\<lambda>a.
    rbind (daily_loss_flip account daily_limit fallback_anchor) (\<lambda>b. ok (a @ b)))"

section \<open>The raw ladder\<close>

definition scaled_multiplier ::
  "pyfloat \<Rightarrow> garch_result option \<Rightarrow> evt_result option \<Rightarrow> pyfloat" where
  "scaled_multiplier base garch evt =
    (let m1 = (case garch of None \<Rightarrow> base | Some g \<Rightarrow> base * volatility_scale_factor g);
         m2 = (case evt of None \<Rightarrow> m1 | Some e \<Rightarrow> m1 * recommended_risk_scale e)
     in pymin m2 base)"

text \<open>The three report fields every status carries; \<open>regime0\<close> and \<open>tail0\<close> are the branch's defaults.\<close>

definition mk_status ::
  "survival_tier \<Rightarrow> pyfloat \<Rightarrow> bool \<Rightarrow> pyfloat \<Rightarrow> string \<Rightarrow> pyfloat \<Rightarrow> garch_result option \<Rightarrow> hmm_result option \<Rightarrow>
   evt_result option \<Rightarrow> rationale \<Rightarrow> survival_status" where
  "mk_status t mult entries floor_c regime0 tail0 garch hmm evt why = \<lparr>ss_tier = t,
     effective_risk_multiplier = mult, allow_new_entries = entries, min_confidence_floor = floor_c,
     active_regime = (case hmm of None \<Rightarrow> regime0 | Some h \<Rightarrow> current_regime h),
     garch_vol_forecast = (case garch of None \<Rightarrow> fl (2/100) | Some g \<Rightarrow> conditional_volatility g),
     evt_tail_var_99 = (case evt of None \<Rightarrow> tail0 | Some e \<Rightarrow> cvar_99 e), survival_rationale = why\<rparr>"

definition max_losses :: "account_state \<Rightarrow> int" where
  "max_losses account = (if consecutive_losses account = [] then 0
     else Max (set (dvalues (consecutive_losses account))))"

definition sv_drawdown :: "account_state \<Rightarrow> pyfloat res" where
  "sv_drawdown account = (if 0 < peak_equity account
     then fdiv (peak_equity account - equity account) (peak_equity account) else ok 0)"

definition raw_status ::
  "risk_config \<Rightarrow> account_state \<Rightarrow> garch_result option \<Rightarrow> hmm_result option \<Rightarrow> evt_result option \<Rightarrow>
   pyfloat option \<Rightarrow> survival_status res" where
  "raw_status cfg account garch hmm evt fallback_anchor =
    rbind (epsilon_flips account (max_drawdown cfg) (daily_loss_limit cfg) fallback_anchor) (\<lambda>flips.
    if kill_switch account then
      ok (mk_status SvCOOLDOWN 0 False 1 ''unknown'' (fl (5/100)) garch hmm evt KillSwitchEngaged)
    else rbind (sv_drawdown account) (\<lambda>drawdown.
    if max_drawdown cfg \<le> drawdown then
      ok (mk_status SvCOOLDOWN 0 False 1 ''unknown'' (fl (5/100)) garch hmm evt (MaxDrawdownReached drawdown))
    else
      (let losses = max_losses account in
       if acc_daily_pnl_pct account \<le> - daily_loss_limit cfg \<or> consecutive_loss_limit cfg \<le> losses then
         ok (mk_status SvSURVIVAL 0 False (fl (85/100)) ''unknown'' (fl (5/100)) garch hmm evt
           (SurvivalActive (acc_daily_pnl_pct account) losses))
       else
         (let bear = ((case hmm of None \<Rightarrow> False | Some h \<Rightarrow> hmm_high_volatility h) \<or>
                      (case garch of None \<Rightarrow> False | Some g \<Rightarrow> garch_high_volatility g));
              weekly = (weekly_pnl_pct account \<le> - weekly_loss_limit cfg);
              moderate_dd = (max_drawdown cfg * fl (6/10) \<le> drawdown);
              tail_spike = (case evt of None \<Rightarrow> False | Some e \<Rightarrow> fl (8/100) \<le> cvar_99 e)
          in if bear \<or> weekly \<or> moderate_dd \<or> tail_spike \<or> 2 \<le> losses then
               ok (mk_status SvCAUTION (scaled_multiplier (fl (1/2)) garch evt) True (fl (7/10))
                 ''unknown'' (fl (5/100)) garch hmm evt
                 (CautionBecause bear weekly (if moderate_dd then Some drawdown else None)
                   (if tail_spike then map_option cvar_99 evt else None)
                   (if 2 \<le> losses then Some losses else None)))
             else if flips \<noteq> [] then
               ok (mk_status SvCAUTION (scaled_multiplier (fl (1/2)) garch evt) True (fl (55/100))
                 ''trending_bull'' (fl (4/100)) garch hmm evt EpsilonFlipDetected)
             else
               ok (mk_status SvNORMAL (scaled_multiplier 1 garch evt) True (fl (55/100))
                 ''trending_bull'' (fl (4/100)) garch hmm evt Nominal)))))"

section \<open>The automaton\<close>

record survival_engine =
  sv_config :: risk_config
  min_dwell_cycles :: int
  state_path :: "string option"
  sv_scope :: string
  cycle_count :: int
  sv_tier_state :: tier_state

text \<open>A state of the given tier with the dataclass defaults.\<close>

definition fresh_state :: "survival_tier \<Rightarrow> pyfloat option \<Rightarrow> tier_state" where
  "fresh_state t anchor = \<lparr>tier = tier_value t, entered_cycle = 0, below_count = 0, last_settled_equity = anchor\<rparr>"

text \<open>Construction; without a path nothing is loaded.  \<open>up\<close> is whether the store answers.\<close>

definition new_survival_engine ::
  "bool \<Rightarrow> risk_config \<Rightarrow> int option \<Rightarrow> string option \<Rightarrow> string \<Rightarrow> (tier_world, survival_engine) act" where
  "new_survival_engine up config dwell path scope w =
    (let mk = (\<lambda>st. \<lparr>sv_config = config, min_dwell_cycles = (case dwell of None \<Rightarrow> 3 | Some n \<Rightarrow> n),
         state_path = path, sv_scope = (if scope = [] then ''global'' else scope), cycle_count = 0,
         sv_tier_state = st\<rparr>)
     in case path of
          None \<Rightarrow> (ok (mk (fresh_state SvNORMAL None)), w)
        | Some p \<Rightarrow>
            if p = [] then (ok (mk (fresh_state SvNORMAL None)), w)
            else abind (file_load up p) (\<lambda>st. areturn (mk
              (case tier_of_value (tier st) of
                 Some _ \<Rightarrow> st
               | None \<Rightarrow> if tier st = UNKNOWN_TIER then fresh_state SvCAUTION (last_settled_equity st)
                         else fresh_state SvNORMAL None))) w)"

definition current_survival_tier :: "survival_engine \<Rightarrow> survival_tier" where
  "current_survival_tier sv = (case tier_of_value (tier (sv_tier_state sv)) of
     Some t \<Rightarrow> t
   | None \<Rightarrow> if tier (sv_tier_state sv) = UNKNOWN_TIER then SvCAUTION else SvNORMAL)"

definition tier_template :: "survival_engine \<Rightarrow> survival_tier \<Rightarrow> survival_status \<Rightarrow> survival_status" where
  "tier_template sv t raw =
    (case (case t of
       SvCOOLDOWN \<Rightarrow> (0, False, 1)
     | SvSURVIVAL \<Rightarrow> (0, False, fl (85/100))
     | SvCAUTION \<Rightarrow> (fl (1/2), True, fl (7/10))
     | SvNORMAL \<Rightarrow> (1, True, fl (55/100))) of
     (mult, entries, floor_c) \<Rightarrow>
       \<lparr>ss_tier = t, effective_risk_multiplier = mult, allow_new_entries = entries,
        min_confidence_floor = floor_c, active_regime = active_regime raw,
        garch_vol_forecast = garch_vol_forecast raw, evt_tail_var_99 = evt_tail_var_99 raw,
        survival_rationale = (if ss_tier raw = t then survival_rationale raw
          else Held t (ss_tier raw) (below_count (sv_tier_state sv)) (min_dwell_cycles sv))\<rparr>)"

text \<open>The hysteresis: new tier and below-count from the current tier, the raw tier and the dwell.\<close>

definition hysteresis :: "int \<Rightarrow> survival_tier \<Rightarrow> int \<Rightarrow> survival_tier \<Rightarrow> survival_tier \<times> int" where
  "hysteresis dwell current below raw_tier =
    (if severity current < severity raw_tier then (raw_tier, 0)
     else if severity raw_tier < severity current then
       (let below' = below + 1 in
        if dwell \<le> below' then (TIER_ORDER ! nat (max (severity current - 1) 0), 0)
        else (current, below'))
     else (current, 0))"

definition evaluate_survival_status ::
  "bool \<Rightarrow> account_state \<Rightarrow> garch_result option \<Rightarrow> hmm_result option \<Rightarrow> evt_result option \<Rightarrow>
   (survival_engine \<times> tier_world, survival_status) act" where
  "evaluate_survival_status up account garch hmm evt x =
    (case x of (sv0, w) \<Rightarrow>
     (let sv1 = sv0\<lparr>cycle_count := cycle_count sv0 + 1\<rparr>;
          sv2 = (if current_survival_tier sv1 = SvNORMAL \<and> tier (sv_tier_state sv1) = UNKNOWN_TIER
                 then sv1\<lparr>sv_tier_state := fresh_state SvCAUTION None\<rparr> else sv1);
          current = current_survival_tier sv2
      in case raw_status (sv_config sv2) account garch hmm evt (last_settled_equity (sv_tier_state sv2)) of
           Inl e \<Rightarrow> (Inl e, (sv2, w))
         | Inr raw \<Rightarrow>
             (case hysteresis (min_dwell_cycles sv2) current (below_count (sv_tier_state sv2)) (ss_tier raw) of
                (new_tier, below) \<Rightarrow>
                  (let st = \<lparr>tier = tier_value new_tier,
                        entered_cycle = (if new_tier \<noteq> current then cycle_count sv2
                          else entered_cycle (sv_tier_state sv2)),
                        below_count = below,
                        last_settled_equity = Some (case day_start_settled_equity account of
                          Some d \<Rightarrow> d | None \<Rightarrow> equity account)\<rparr>;
                       sv3 = sv2\<lparr>sv_tier_state := st\<rparr>;
                       w1 = (case state_path sv3 of
                          None \<Rightarrow> w
                        | Some p \<Rightarrow> if p = [] then w else snd (file_save up p st w))
                   in (ok (tier_template sv3 new_tier raw), (sv3, w1))))))"

section \<open>Lemmas\<close>

lemma severity_simps [simp]:
  "severity SvNORMAL = 0" "severity SvCAUTION = 1" "severity SvSURVIVAL = 2" "severity SvCOOLDOWN = 3"
  by (simp_all add: severity_def TIER_ORDER_def)

lemma tier_roundtrip [simp]: "tier_of_value (tier_value t) = Some t"
  by (cases t) (simp_all add: tier_of_value_def TIER_ORDER_def)

lemma severity_inj: "severity s = severity t \<Longrightarrow> s = t"
  by (cases s; cases t) simp_all

lemma tier_template_fields [simp]: "ss_tier (tier_template sv t raw) = t"
  "effective_risk_multiplier (tier_template sv t raw) =
     (case t of SvNORMAL \<Rightarrow> 1 | SvCAUTION \<Rightarrow> fl (1/2) | _ \<Rightarrow> 0)"
  "allow_new_entries (tier_template sv t raw) = (t = SvNORMAL \<or> t = SvCAUTION)"
  by (cases t; simp add: tier_template_def)+

lemma hysteresis_severity:
  assumes "hysteresis dwell c b r = (t, b')"
  shows "severity t = (if severity c < severity r then severity r
      else if severity r < severity c \<and> dwell \<le> b + 1 then severity c - 1 else severity c) \<and>
    b' = (if severity r < severity c \<and> \<not> dwell \<le> b + 1 then b + 1 else 0)"
  using assms by (cases c; cases r) (auto simp: hysteresis_def Let_def TIER_ORDER_def numeral_2_eq_2 split: if_splits)

text \<open>One evaluation that returns, taken apart.\<close>

lemma evaluate_ok:
  assumes "evaluate_survival_status up account garch hmm evt (sv, w) = (ok status, (sv', w'))"
  obtains raw below where
    "raw_status (sv_config sv) account garch hmm evt (last_settled_equity (sv_tier_state sv)) = ok raw"
    "hysteresis (min_dwell_cycles sv) (current_survival_tier sv) (below_count (sv_tier_state sv)) (ss_tier raw) =
      (ss_tier status, below)"
    "tier (sv_tier_state sv') = tier_value (ss_tier status)" "below_count (sv_tier_state sv') = below"
    "status = tier_template sv' (ss_tier status) raw" "min_dwell_cycles sv' = min_dwell_cycles sv"
    "sv_config sv' = sv_config sv" "state_path sv' = state_path sv"
    "w' = (case state_path sv of None \<Rightarrow> w | Some p \<Rightarrow> if p = [] then w else snd (file_save up p (sv_tier_state sv') w))"
proof -
  define sv1 where "sv1 = sv\<lparr>cycle_count := cycle_count sv + 1\<rparr>"
  have nb: "\<not> (current_survival_tier sv1 = SvNORMAL \<and> tier (sv_tier_state sv1) = UNKNOWN_TIER)"
    by (auto simp: current_survival_tier_def tier_of_value_def TIER_ORDER_def UNKNOWN_TIER_def)
  have cur: "current_survival_tier sv1 = current_survival_tier sv" by (simp add: sv1_def current_survival_tier_def)
  have simps: "sv_config sv1 = sv_config sv" "sv_tier_state sv1 = sv_tier_state sv"
    "min_dwell_cycles sv1 = min_dwell_cycles sv" "state_path sv1 = state_path sv"
    by (simp_all add: sv1_def)
  note ev = assms [unfolded evaluate_survival_status_def prod.case Let_def, folded sv1_def,
      unfolded if_not_P [OF nb], unfolded simps cur]
  obtain raw where raw: "raw_status (sv_config sv) account garch hmm evt (last_settled_equity (sv_tier_state sv)) = ok raw"
    using ev by (cases "raw_status (sv_config sv) account garch hmm evt (last_settled_equity (sv_tier_state sv))") auto
  obtain t below where h: "hysteresis (min_dwell_cycles sv) (current_survival_tier sv)
      (below_count (sv_tier_state sv)) (ss_tier raw) = (t, below)" by force
  define rec where "rec = \<lparr>tier = tier_value t,
    entered_cycle = (if t \<noteq> current_survival_tier sv then cycle_count sv1 else entered_cycle (sv_tier_state sv)),
    below_count = below, last_settled_equity = Some (case day_start_settled_equity account of
      None \<Rightarrow> equity account | Some d \<Rightarrow> d)\<rparr>"
  have e: "status = tier_template (sv1\<lparr>sv_tier_state := rec\<rparr>) t raw" "sv' = sv1\<lparr>sv_tier_state := rec\<rparr>"
    "w' = (case state_path sv of None \<Rightarrow> w | Some p \<Rightarrow> if p = [] then w else snd (file_save up p rec w))"
    using ev [unfolded raw sum.case h prod.case, folded rec_def] by (auto simp: simps)
  have r: "sv_tier_state sv' = rec" by (simp add: e(2))
  have st: "ss_tier status = t" "tier (sv_tier_state sv') = tier_value t" "below_count (sv_tier_state sv') = below"
    "status = tier_template sv' t raw" "min_dwell_cycles sv' = min_dwell_cycles sv"
    "sv_config sv' = sv_config sv" "state_path sv' = state_path sv"
    "w' = (case state_path sv of None \<Rightarrow> w | Some p \<Rightarrow> if p = [] then w else snd (file_save up p (sv_tier_state sv') w))"
    unfolding r by (simp_all add: e simps) (simp_all add: rec_def)
  show ?thesis by (rule that [OF raw]) (use h st in \<open>simp_all\<close>)
qed

lemma current_after: "tier (sv_tier_state sv) = tier_value t \<Longrightarrow> current_survival_tier sv = t"
  by (simp add: current_survival_tier_def)

text \<open>A run of evaluations that all return.\<close>

record survival_input =
  iu_up :: bool
  iu_account :: account_state
  iu_garch :: "garch_result option"
  iu_hmm :: "hmm_result option"
  iu_evt :: "evt_result option"

fun survival_run :: "survival_input list \<Rightarrow> survival_engine \<times> tier_world \<Rightarrow> (survival_engine \<times> tier_world) res" where
  "survival_run [] x = ok x"
| "survival_run (i # is) x =
    (case evaluate_survival_status (iu_up i) (iu_account i) (iu_garch i) (iu_hmm i) (iu_evt i) x of
       (Inl e, _) \<Rightarrow> Inl e
     | (Inr _, x') \<Rightarrow> survival_run is x')"

text \<open>Severity in dwell cycles: one evaluation lowers it by at most one.\<close>

definition defense :: "survival_engine \<Rightarrow> int" where
  "defense sv = severity (current_survival_tier sv) * min_dwell_cycles sv - below_count (sv_tier_state sv)"

lemma defense_step:
  assumes "evaluate_survival_status up account garch hmm evt (sv, w) = (ok status, (sv', w'))"
    and "0 < min_dwell_cycles sv" "0 \<le> below_count (sv_tier_state sv)" "below_count (sv_tier_state sv) < min_dwell_cycles sv"
  shows "defense sv - 1 \<le> defense sv' \<and> 0 < min_dwell_cycles sv' \<and> 0 \<le> below_count (sv_tier_state sv') \<and>
    below_count (sv_tier_state sv') < min_dwell_cycles sv' \<and> min_dwell_cycles sv' = min_dwell_cycles sv"
proof -
  obtain raw :: survival_status and below where h: "hysteresis (min_dwell_cycles sv) (current_survival_tier sv)
      (below_count (sv_tier_state sv)) (ss_tier raw) = (ss_tier status, below)"
    "tier (sv_tier_state sv') = tier_value (ss_tier status)" "below_count (sv_tier_state sv') = below"
    "min_dwell_cycles sv' = min_dwell_cycles sv"
    by (rule evaluate_ok [OF assms(1)]) blast
  define s where "s = severity (current_survival_tier sv)"
  define r where "r = severity (ss_tier raw)"
  define d where "d = min_dwell_cycles sv"
  define b where "b = below_count (sv_tier_state sv)"
  note hs = hysteresis_severity [OF h(1), folded s_def r_def d_def b_def]
  have up: "s * d + d \<le> r * d" if "s < r"
    using that assms(2) mult_right_mono [of "s + 1" r d] by (simp add: d_def distrib_right)
  have "defense sv' = severity (ss_tier status) * d - below"
    by (simp add: defense_def current_after [OF h(2)] h d_def)
  moreover have "defense sv = s * d - b" by (simp add: defense_def s_def d_def b_def)
  ultimately show ?thesis
    using hs up assms(2-4) h(3,4) by (auto simp: d_def [symmetric] b_def [symmetric] left_diff_distrib)
qed

lemma defense_run:
  assumes "survival_run is (sv, w) = ok (sv', w')"
    and "0 < min_dwell_cycles sv" "0 \<le> below_count (sv_tier_state sv)" "below_count (sv_tier_state sv) < min_dwell_cycles sv"
  shows "defense sv - int (length is) \<le> defense sv' \<and> 0 \<le> below_count (sv_tier_state sv') \<and>
    min_dwell_cycles sv' = min_dwell_cycles sv"
  using assms
proof (induction "is" arbitrary: sv w)
  case (Cons i "is")
  obtain st sv1 w1 where e: "evaluate_survival_status (iu_up i) (iu_account i) (iu_garch i) (iu_hmm i) (iu_evt i) (sv, w) =
      (ok st, (sv1, w1))" and r: "survival_run is (sv1, w1) = ok (sv', w')"
    using Cons.prems(1) by (auto split: prod.splits sum.splits)
  show ?case using defense_step [OF e Cons.prems(2-4)] Cons.IH [OF r] by auto
qed simp

section \<open>Properties\<close>

text \<open>every evaluation that returns moves the tier as the automaton promises: up to the raw
  tier at once, down exactly one level and only after the dwell, otherwise not at all; and with a
  state path and a working disk a restarted engine resumes in that tier with the same
  below-count.\<close>

theorem automaton_step_and_restart:
  fixes status :: survival_status
  assumes "evaluate_survival_status up account garch hmm evt (sv, w) = (ok status, (sv', w'))"
  shows "\<exists>raw. raw_status (sv_config sv) account garch hmm evt (last_settled_equity (sv_tier_state sv)) = ok raw \<and>
    severity (ss_tier status) =
      (if severity (current_survival_tier sv) < severity (ss_tier raw) then severity (ss_tier raw)
       else if severity (ss_tier raw) < severity (current_survival_tier sv) \<and>
         min_dwell_cycles sv \<le> below_count (sv_tier_state sv) + 1
       then severity (current_survival_tier sv) - 1 else severity (current_survival_tier sv)) \<and>
    current_survival_tier sv' = ss_tier status \<and>
    (up \<and> state_path sv = Some (c # p) \<longrightarrow>
      (\<exists>sv2 w2. new_survival_engine True (sv_config sv) (Some (min_dwell_cycles sv)) (Some (c # p)) scope w' = (ok sv2, w2) \<and>
        current_survival_tier sv2 = ss_tier status \<and> sv_tier_state sv2 = sv_tier_state sv'))"
proof -
  obtain raw :: survival_status and below where h: "raw_status (sv_config sv) account garch hmm evt (last_settled_equity (sv_tier_state sv)) = ok raw"
    "hysteresis (min_dwell_cycles sv) (current_survival_tier sv) (below_count (sv_tier_state sv)) (ss_tier raw) =
      (ss_tier status, below)"
    "tier (sv_tier_state sv') = tier_value (ss_tier status)"
    "w' = (case state_path sv of None \<Rightarrow> w | Some p \<Rightarrow> if p = [] then w else snd (file_save up p (sv_tier_state sv') w))"
    by (rule evaluate_ok [OF assms]) blast
  have "\<exists>sv2 w2. new_survival_engine True (sv_config sv) (Some (min_dwell_cycles sv)) (Some (c # p)) scope w' = (ok sv2, w2) \<and>
        current_survival_tier sv2 = ss_tier status \<and> sv_tier_state sv2 = sv_tier_state sv'"
    if "up" "state_path sv = Some (c # p)"
    using that h(3,4)
    by (auto simp: new_survival_engine_def file_load_def file_save_def abind_apply Let_def dict_simps
        state_from_payload_def current_survival_tier_def)
  then show ?thesis
    using h(1) hysteresis_severity [OF h(2)] current_after [OF h(3)] by blast
qed

text \<open>C11: de-escalation is slow: over any run of evaluations that return, the severity falls by at
  most one level per \<open>min_dwell_cycles\<close> evaluations (counted with the progress made before).\<close>

theorem deescalation_needs_dwell:
  assumes "survival_run is (sv, w) = ok (sv', w')"
    and "0 < min_dwell_cycles sv" "0 \<le> below_count (sv_tier_state sv)" "below_count (sv_tier_state sv) < min_dwell_cycles sv"
  shows "severity (current_survival_tier sv) * min_dwell_cycles sv - below_count (sv_tier_state sv) - int (length is)
    \<le> severity (current_survival_tier sv') * min_dwell_cycles sv"
  using defense_run [OF assms] by (auto simp: defense_def)

text \<open>the multiplier that comes out depends on the tier alone: whatever the GARCH and EVT scales
  throttled in the raw status, an evaluation that returns gives 1 in normal, one half in caution
  and 0 above, and allows entries exactly in the first two.\<close>

theorem volatility_throttle_is_dropped:
  fixes status :: survival_status
  assumes "evaluate_survival_status up account garch hmm evt (sv, w) = (ok status, (sv', w'))"
  shows "effective_risk_multiplier status =
      (case ss_tier status of SvNORMAL \<Rightarrow> 1 | SvCAUTION \<Rightarrow> fl (1/2) | _ \<Rightarrow> 0) \<and>
    allow_new_entries status = (severity (ss_tier status) \<le> 1)"
proof -
  obtain raw :: survival_status where h: "status = tier_template sv' (ss_tier status) raw"
    by (rule evaluate_ok [OF assms]) blast
  show ?thesis by (subst (1 3) h) (cases "ss_tier status"; simp)
qed

section \<open>Instances\<close>

text \<open>An account whose kill switch is set, and an engine that saves its state under the given path.\<close>

definition killed_account :: account_state where
  "killed_account = demo_account\<lparr>peak_equity := 0, kill_switch := True\<rparr>"

definition sample_survival :: survival_engine where
  "sample_survival = \<lparr>sv_config = demo_config, min_dwell_cycles = 3, state_path = Some ''tier.json'',
     sv_scope = ''global'', cycle_count = 0, sv_tier_state = fresh_state SvNORMAL None\<rparr>"

definition sample_after :: survival_engine where
  "sample_after = sample_survival\<lparr>cycle_count := 1, sv_tier_state := \<lparr>tier = ''cooldown'', entered_cycle = 1,
     below_count = 0, last_settled_equity = Some (Fin 10000)\<rparr>\<rparr>"

definition empty_world :: tier_world where
  "empty_world = \<lparr>last_known = [], redis_store = [], file_store = []\<rparr>"

definition sample_saved :: tier_world where
  "sample_saved = snd (file_save True ''tier.json'' (sv_tier_state sample_after) empty_world)"

lemma killed_raw: "raw_status cfg killed_account None None None None =
    ok (mk_status SvCOOLDOWN 0 False 1 ''unknown'' (fl (5/100)) None None None KillSwitchEngaged)"
  by (simp add: raw_status_def epsilon_flips_def drawdown_flip_def daily_loss_flip_def killed_account_def
      demo_account_def)

definition sample_status :: survival_status where
  "sample_status = tier_template sample_after SvCOOLDOWN
     (mk_status SvCOOLDOWN 0 False 1 ''unknown'' (fl (5/100)) None None None KillSwitchEngaged)"

lemma sample_status_tier [simp]: "ss_tier sample_status = SvCOOLDOWN"
  by (simp add: sample_status_def)

lemma killed_settled: "day_start_settled_equity killed_account = None" "equity killed_account = Fin 10000"
  by (simp_all add: killed_account_def demo_account_def)

lemma sample_evaluation: "evaluate_survival_status True killed_account None None None (sample_survival, empty_world) =
    (ok sample_status, (sample_after, sample_saved))"
  by (simp add: evaluate_survival_status_def sample_survival_def fresh_state_def current_survival_tier_def
      tier_of_value_def TIER_ORDER_def UNKNOWN_TIER_def killed_raw hysteresis_def mk_status_def Let_def
      sample_after_def sample_saved_def killed_settled sample_status_def)

lemma sample_run: "survival_run [\<lparr>iu_up = True, iu_account = killed_account, iu_garch = None, iu_hmm = None,
      iu_evt = None\<rparr>] (sample_survival, empty_world) = ok (sample_after, sample_saved)"
  by (simp add: sample_evaluation)

lemma sample_fields [simp]: "min_dwell_cycles sample_survival = 3" "below_count (sv_tier_state sample_survival) = 0"
    "state_path sample_survival = Some ''tier.json''" "sv_config sample_survival = demo_config"
  by (simp_all add: sample_survival_def fresh_state_def)

theorem automaton_step_and_restart_witness:
  "current_survival_tier sample_after = SvCOOLDOWN \<and>
   (\<exists>sv2 w2. new_survival_engine True demo_config (Some 3) (Some ''tier.json'') ''global'' sample_saved = (ok sv2, w2) \<and>
     current_survival_tier sv2 = SvCOOLDOWN)"
  using automaton_step_and_restart [OF sample_evaluation, of "CHR ''t''" "''ier.json''" "''global''"]
  by auto

theorem deescalation_needs_dwell_witness:
  "severity (current_survival_tier sample_survival) * 3 - 1 \<le> severity (current_survival_tier sample_after) * 3"
  using deescalation_needs_dwell [OF sample_run] by simp

theorem volatility_throttle_is_dropped_witness:
  "effective_risk_multiplier sample_status = 0 \<and> \<not> allow_new_entries sample_status"
  using volatility_throttle_is_dropped [OF sample_evaluation] by simp

end
