(* ===== verification/FloatExact.thy ===== *)
theory FloatExact
  imports PyFloat
begin

text \<open>
  Filling up in doubles: the arithmetic of \<open>filled += qty - filled\<close>.  The difference of two
  doubles within a factor of two is exact, so a second addition of the remainder always arrives;
  the first one brings the sum past the half.
\<close>

lemma float_on_own_grid: "rnd64 x = x \<Longrightarrow> \<exists>m. x = of_int m * 2 powi ulp_exp x"
  by (metis rnd64_def mult_zero_left of_int_0)

lemma float_on_finer_grid:
  assumes "rnd64 x = x" "u \<le> ulp_exp x"
  shows "\<exists>m. x = of_int m * 2 powi u"
proof -
  obtain m where "x = of_int m * 2 powi ulp_exp x" using float_on_own_grid [OF assms(1)] by blast
  also have "\<dots> = of_int (m * 2 ^ nat (ulp_exp x - u)) * 2 powi u"
    using powi2_split [OF assms(2)] by simp
  finally show ?thesis by blast
qed

lemma float_below_grid: "0 < x \<Longrightarrow> x < 2 ^ 53 * 2 powi ulp_exp x"
proof -
  assume x: "0 < x"
  have "x < 2 powi (ilog2 x + 1)" by (rule ilog2_bounds [OF x])
  also have "\<dots> \<le> 2 powi (53 + ulp_exp x)" using x by (simp add: powi2_le_iff ulp_exp_def)
  also have "\<dots> = 2 ^ 53 * 2 powi ulp_exp x" by (subst power_int_add) (simp_all add: power_int_def)
  finally show ?thesis .
qed

text \<open>Sterbenz: the difference is exact.\<close>

lemma diff_exact:
  assumes "rnd64 f = f" "rnd64 q = q" "0 < f" "f \<le> q" "q \<le> 2 * f"
  shows "rnd64 (q - f) = q - f"
proof -
  define u where "u = ulp_exp f"
  have "u \<le> ulp_exp q" using ulp_exp_mono [OF assms(3,4)] by (simp add: u_def)
  then obtain a where a: "q = of_int a * 2 powi u" using float_on_finer_grid [OF assms(2)] by blast
  obtain b where b: "f = of_int b * 2 powi u" using float_on_own_grid [OF assms(1)] by (auto simp: u_def)
  have d: "q - f = of_int (a - b) * 2 powi u" unfolding a b by (simp add: left_diff_distrib)
  have "of_int (a - b) * 2 powi u \<le> (2 ^ 53 :: rat) * 2 powi u"
    using float_below_grid [OF assms(3)] assms(5) unfolding d [symmetric] u_def [symmetric] by linarith
  then have "of_int (a - b) \<le> (of_int (2 ^ 53) :: rat)" by simp
  then have "a - b \<le> 2 ^ 53" unfolding of_int_le_iff .
  moreover have "0 \<le> of_int (a - b) * (2 :: rat) powi u" using assms(4) unfolding d [symmetric] by simp
  then have "0 \<le> a - b" by (auto simp: zero_le_mult_iff dest: order_less_le_trans [OF powi2_pos])
  moreover have "-1074 \<le> u" by (simp add: u_def ulp_exp_def)
  ultimately show ?thesis unfolding d by (intro rnd64_grid) auto
qed

text \<open>The first addition passes the half.\<close>

lemma float_multiple: "rnd64 f = f \<Longrightarrow> \<exists>m. f = of_int m * (1 / 2 ^ 1074)"
proof -
  assume f: "rnd64 f = f"
  obtain m where m: "f = of_int m * 2 powi (-1074)"
    using float_on_finer_grid [OF f, of "-1074"] by (auto simp: ulp_exp_def)
  have p: "(2 :: rat) powi (-1074) = 1 / 2 ^ 1074"
    by (simp only: power_int_minus power_int_numeral inverse_eq_divide)
  show ?thesis using m unfolding p by blast
qed

lemma tiny_gap:
  assumes "rnd64 f = f" "rnd64 q = q" "0 < f" "2 * f < q"
  shows "3 * (1 / 2 ^ 1074) \<le> q"
proof -
  obtain a b where a: "f = of_int a * (1 / 2 ^ 1074)" and b: "q = of_int b * (1 / 2 ^ 1074)"
    using float_multiple [OF assms(1)] float_multiple [OF assms(2)] by blast
  have "0 < a" using assms(3) unfolding a by (simp add: zero_less_mult_iff)
  moreover have "of_int (2 * a) < (of_int b :: rat)" using assms(4) unfolding a b by simp
  then have "2 * a < b" unfolding of_int_less_iff .
  ultimately have "3 \<le> b" by linarith
  then have "3 \<le> (of_int b :: rat)" by simp
  then show ?thesis unfolding b by (intro mult_right_mono) simp_all
qed

lemma first_addition:
  assumes "rnd64 f = f" "rnd64 q = q" "0 \<le> f" "2 * f < q"
  shows "q \<le> 2 * rnd64 (f + rnd64 (q - f))"
proof (cases "f = 0")
  case True
  then show ?thesis using assms by simp
next
  case False
  define e where "e = (1 / 2 ^ 1075 :: rat)"
  have "(1 / 2 ^ 1074 :: rat) = 2 * e" by (simp add: e_def)
  then have q: "6 * e \<le> q" using tiny_gap [OF assms(1,2) _ assms(4)] assms(3) False by simp
  define m where "m = rnd64 (q - f)"
  define s where "s = rnd64 (f + m)"
  have m: "(q - f) - (q - f) / 2 ^ 53 - e \<le> m"
    using rnd64_error [of "q - f"] assms(3,4) unfolding m_def [symmetric] e_def [symmetric] by linarith
  have "0 \<le> m" using assms(3,4) by (simp add: m_def rnd64_nonneg)
  then have s: "(f + m) - (f + m) / 2 ^ 53 - e \<le> s"
    using rnd64_error [of "f + m"] assms(3) unfolding s_def [symmetric] e_def [symmetric] by linarith
  have "q - q / 2 ^ 53 - e \<le> f + m"
    using m assms(3) by (simp add: diff_divide_distrib)
  then have "(q - q / 2 ^ 53 - e) - (f + m) / 2 ^ 53 \<le> s + e" using s by linarith
  moreover have "f + m \<le> 2 * q"
  proof -
    have "m \<le> rnd64 q" unfolding m_def using assms(3) by (intro rnd64_mono) simp
    then show ?thesis using assms(2,3,4) by linarith
  qed
  ultimately have "q / 2 \<le> s" using q assms(3,4) by (simp add: field_simps)
  then show ?thesis unfolding s_def m_def by simp
qed

section \<open>A quantity being filled\<close>

text \<open>\<open>filling f q\<close>: \<open>f\<close> of the finite quantity \<open>q\<close> is filled and some is left.\<close>

definition filling :: "pyfloat \<Rightarrow> pyfloat \<Rightarrow> bool" where
  "filling f q \<longleftrightarrow> (\<exists>a b. f = Fin a \<and> q = Fin b \<and> rnd64 a = a \<and> rnd64 b = b \<and> 0 \<le> a \<and> a < b \<and> b < 2 ^ 1024)"

text \<open>How many additions of the remainder it still takes at most.\<close>

fun fill_phase :: "pyfloat \<Rightarrow> pyfloat \<Rightarrow> nat" where
  "fill_phase (Fin a) (Fin b) = (if b \<le> 2 * a then 1 else 2)"
| "fill_phase _ _ = 0"

lemma fill_phase_pos: "filling f q \<Longrightarrow> 0 < fill_phase f q"
  by (auto simp: filling_def)

lemma filling_less: "filling f q \<Longrightarrow> f < q"
  by (auto simp: filling_def)

lemma fill_some:
  assumes "filling f q" "m = Fin c" "0 \<le> c"
  shows "q \<le> f + m \<or> filling (f + m) q \<and> fill_phase (f + m) q \<le> fill_phase f q"
proof -
  obtain a b where ab: "f = Fin a" "q = Fin b" "rnd64 a = a" "rnd64 b = b" "0 \<le> a" "a < b" "b < 2 ^ 1024"
    using assms(1) by (auto simp: filling_def)
  define r where "r = rnd64 (a + c)"
  have r: "a \<le> r" "rnd64 r = r" using b64.add_nonneg_ge [OF ab(3) assms(3)] by (simp_all add: r_def)
  show ?thesis
  proof (cases "b \<le> r")
    case True
    then show ?thesis using fl_mono [of r "a + c"] ab r assms
      by (simp add: fl_def Let_def r_def [symmetric])
  next
    case False
    then have "f + m = Fin r" using ab r assms(2) by (simp add: fl_def Let_def r_def [symmetric])
    then show ?thesis using ab r False by (auto simp: filling_def)
  qed
qed

lemma fill_rest:
  assumes "filling f q"
  obtains c where "q - f = Fin c" "0 \<le> c"
    "q \<le> f + (q - f) \<or> filling (f + (q - f)) q \<and> fill_phase (f + (q - f)) q < fill_phase f q"
proof -
  obtain a b where ab: "f = Fin a" "q = Fin b" "rnd64 a = a" "rnd64 b = b" "0 \<le> a" "a < b" "b < 2 ^ 1024"
    using assms by (auto simp: filling_def)
  define c where "c = rnd64 (b - a)"
  have c: "0 \<le> c" "c \<le> b"
    using rnd64_mono [of "b - a" b] ab by (simp_all add: c_def rnd64_nonneg)
  have d: "q - f = Fin c" using ab c by (simp add: minus_pyfloat_def fl_def Let_def c_def [symmetric])
  have "q \<le> f + (q - f) \<or> filling (f + (q - f)) q \<and> fill_phase (f + (q - f)) q < fill_phase f q"
  proof (cases "b \<le> 2 * a")
    case True
    then have "c = b - a" unfolding c_def using ab by (intro diff_exact) auto
    then have "f + (q - f) = Fin b" using ab d by (simp add: fl_fixed)
    then show ?thesis using ab by simp
  next
    case False
    define r where "r = rnd64 (a + c)"
    have r: "b \<le> 2 * r" "rnd64 r = r"
      using first_addition [OF ab(3,4,5)] False by (simp_all add: r_def c_def)
    have "f + (q - f) = fl (a + c)" using ab(1) d by simp
    then show ?thesis using fill_some [OF assms d c(1)] r False ab
      by (auto simp: fl_def Let_def r_def [symmetric] split: if_splits)
  qed
  then show ?thesis using that d c(1) by blast
qed

end
