(* ===== verification/Lob.thy ===== *)
theory Lob
  imports FloatExact "HOL-Library.Sublist"
begin

text \<open>
  \<open>synthetic/lob.py\<close>: the simulated limit order book.  The random generator is the sequence of
  its draws with the number already taken; the clock is a function of that number, one reading
  per trade.  The two matching loops differ in the side alone and are one loop with a flag; it is
  a partial function, so a loop that does not end is \<open>None\<close>.  The book keeps values: an order that
  rests is the object the caller passed, which no caller reads again.
\<close>

section \<open>Orders and the book\<close>

record limit_order =
  order_id :: string
  lo_side :: string
  lo_price :: pyfloat
  lo_qty :: pyfloat
  timestamp_ms :: pyfloat
  agent_id :: string
  filled_qty :: pyfloat
  arrival_timestamp_ms :: pyfloat
  priority_timestamp_ms :: pyfloat

text \<open>\<open>__post_init__\<close> with the clock reading it takes.\<close>

definition limit_order_post_init :: "pyfloat \<Rightarrow> limit_order \<Rightarrow> limit_order" where
  "limit_order_post_init now_ms o' =
    (let fill = (\<lambda>t. if feq (arrival_timestamp_ms o') 0 then t else arrival_timestamp_ms o');
         fill' = (\<lambda>t. if feq (priority_timestamp_ms o') 0 then t else priority_timestamp_ms o')
     in if 0 < timestamp_ms o'
        then o'\<lparr>arrival_timestamp_ms := fill (timestamp_ms o'),
                priority_timestamp_ms := fill' (timestamp_ms o')\<rparr>
        else o'\<lparr>arrival_timestamp_ms := fill now_ms, priority_timestamp_ms := fill' now_ms,
                timestamp_ms := now_ms\<rparr>)"

text \<open>\<open>LimitOrder(id, side, price, qty, timestamp, agent)\<close>.\<close>

definition new_limit_order ::
  "pyfloat \<Rightarrow> string \<Rightarrow> string \<Rightarrow> pyfloat \<Rightarrow> pyfloat \<Rightarrow> pyfloat \<Rightarrow> string \<Rightarrow> limit_order" where
  "new_limit_order now_ms oid sd price quantity ts agent = limit_order_post_init now_ms
     \<lparr>order_id = oid, lo_side = sd, lo_price = price, lo_qty = quantity, timestamp_ms = ts,
      agent_id = agent, filled_qty = 0, arrival_timestamp_ms = 0, priority_timestamp_ms = 0\<rparr>"

definition is_internal_strategy :: "limit_order \<Rightarrow> bool" where
  "is_internal_strategy o' = prefix ''SUPER_TRADEMAN'' (agent_id o')"

datatype source_tag = INTERNAL_STRATEGY | EXTERNAL_MARKET

definition source_of :: "limit_order \<Rightarrow> source_tag" where
  "source_of o' = (if is_internal_strategy o' then INTERNAL_STRATEGY else EXTERNAL_MARKET)"

datatype lob_event_type = EvTrade | EvCancel

record lob_event =
  le_type :: lob_event_type
  le_side :: string
  le_price :: pyfloat
  le_qty :: pyfloat
  le_timestamp_ms :: pyfloat
  le_source :: source_tag

text \<open>A fill event; its id is \<open>fill_\<close> and the integer part of \<open>fe_stamp_ms\<close>.\<close>

record fill_event =
  fe_stamp_ms :: pyfloat
  fe_buy_order_id :: string
  fe_sell_order_id :: string
  fe_price :: pyfloat
  fe_qty :: pyfloat
  fe_side :: string
  fe_source :: source_tag

record lob =
  lob_symbol :: string
  current_price :: pyfloat
  base_fill_probability :: pyfloat
  rng_draws :: "nat \<Rightarrow> pyfloat"
  rng_drawn :: nat
  fill_probability_floor :: pyfloat
  bids :: "limit_order list"
  asks :: "limit_order list"
  event_log :: "lob_event list"
  integrity_violation_count :: int

definition seed_bids :: "pyfloat \<Rightarrow> pyfloat \<Rightarrow> limit_order list" where
  "seed_bids now_ms price =
    [new_limit_order now_ms ''b1'' ''buy'' (price - 1) (fl (25/10)) now_ms ''mm_init'',
     new_limit_order now_ms ''b2'' ''buy'' (price - fl 5) (fl 5) now_ms ''mm_init'',
     new_limit_order now_ms ''b3'' ''buy'' (price - fl 10) (fl 10) now_ms ''mm_init'']"

definition seed_asks :: "pyfloat \<Rightarrow> pyfloat \<Rightarrow> limit_order list" where
  "seed_asks now_ms price =
    [new_limit_order now_ms ''a1'' ''sell'' (price + 1) (fl (25/10)) now_ms ''mm_init'',
     new_limit_order now_ms ''a2'' ''sell'' (price + fl 5) (fl 5) now_ms ''mm_init'',
     new_limit_order now_ms ''a3'' ''sell'' (price + fl 10) (fl 10) now_ms ''mm_init'']"

definition new_lob ::
  "pyfloat \<Rightarrow> (nat \<Rightarrow> pyfloat) \<Rightarrow> string \<Rightarrow> pyfloat \<Rightarrow> pyfloat \<Rightarrow> pyfloat \<Rightarrow> lob" where
  "new_lob now_ms draws sy initial_price base_prob prob_floor = \<lparr>lob_symbol = sy,
     current_price = initial_price, base_fill_probability = base_prob, rng_draws = draws, rng_drawn = 0,
     fill_probability_floor = pymax 0 (pymin 1 prob_floor), bids = seed_bids now_ms initial_price,
     asks = seed_asks now_ms initial_price, event_log = [], integrity_violation_count = 0\<rparr>"

section \<open>Queries\<close>

definition get_best_bid_ask :: "lob \<Rightarrow> pyfloat \<times> pyfloat" where
  "get_best_bid_ask b =
    (case bids b of [] \<Rightarrow> current_price b - 1 | x # _ \<Rightarrow> lo_price x,
     case asks b of [] \<Rightarrow> current_price b + 1 | x # _ \<Rightarrow> lo_price x)"

definition get_effective_fill_probability :: "lob \<Rightarrow> pyfloat \<Rightarrow> pyfloat" where
  "get_effective_fill_probability b stress_score =
    (if base_fill_probability b \<le> 0 then 0
     else (let clamped_stress = pymax 0 (pymin 1 stress_score);
               raw = base_fill_probability b - fl (25/100) * clamped_stress
           in pymin (pymax (fill_probability_floor b) raw) (base_fill_probability b)))"

text \<open>The decayed depth of the first three levels; \<open>decay d\<close> stands for \<open>math.exp (-0.5 * d)\<close>.\<close>

definition level_volume :: "(nat \<Rightarrow> pyfloat) \<Rightarrow> limit_order list \<Rightarrow> pyfloat" where
  "level_volume decay book =
    fold (\<lambda>d acc. acc + pymax 0 (lo_qty (book ! d) - filled_qty (book ! d)) * decay d)
      [0..<min 3 (length book)] 0"

definition get_micro_price :: "(nat \<Rightarrow> pyfloat) \<Rightarrow> lob \<Rightarrow> pyfloat res" where
  "get_micro_price decay b =
    (case (bids b, asks b) of
       (bb # _, aa # _) \<Rightarrow>
         (let bid_vol = level_volume decay (bids b); ask_vol = level_volume decay (asks b);
              total_vol = bid_vol + ask_vol
          in if total_vol \<le> 0 then fdiv (lo_price bb + lo_price aa) (fl 2)
             else fdiv (lo_price bb * ask_vol + lo_price aa * bid_vol) total_vol)
     | _ \<Rightarrow> ok (current_price b))"

section \<open>Placement\<close>

text \<open>The sort keys: price (best first), then the priority timestamp.\<close>

definition key_less :: "bool \<Rightarrow> limit_order \<Rightarrow> limit_order \<Rightarrow> bool" where
  "key_less buy a b =
    (if feq (lo_price a) (lo_price b) then priority_timestamp_ms a < priority_timestamp_ms b
     else if buy then lo_price b < lo_price a else lo_price a < lo_price b)"

fun insert_order :: "bool \<Rightarrow> limit_order \<Rightarrow> limit_order list \<Rightarrow> limit_order list" where
  "insert_order buy x [] = [x]"
| "insert_order buy x (y # ys) =
    (if key_less buy y x then y # insert_order buy x ys else x # y # ys)"

text \<open>\<open>list.sort\<close> is stable: equal keys keep their order.\<close>

definition sort_book :: "bool \<Rightarrow> limit_order list \<Rightarrow> limit_order list" where
  "sort_book buy xs = foldr (insert_order buy) xs []"

definition log_violation :: "lob \<Rightarrow> lob" where
  "log_violation b = b\<lparr>integrity_violation_count := integrity_violation_count b + 1\<rparr>"

definition check_book_integrity :: "(lob, unit) act" where
  "check_book_integrity b =
    (case (bids b, asks b) of
       (bb # _, aa # _) \<Rightarrow>
         if lo_price aa \<le> lo_price bb
         then (Inl (BookIntegrityViolation ''crossed book after insert''), log_violation b)
         else (ok (), b)
     | _ \<Rightarrow> (ok (), b))"

text \<open>\<open>list.remove\<close> takes out the first equal order.\<close>

definition reject_crossing_residual :: "limit_order \<Rightarrow> lob \<Rightarrow> lob" where
  "reject_crossing_residual o' b = b\<lparr>bids := remove1 o' (bids b), asks := remove1 o' (asks b)\<rparr>"

definition push_event :: "lob_event list \<Rightarrow> lob_event \<Rightarrow> lob_event list" where
  "push_event evs e = (let evs' = evs @ [e] in if 10000 < length evs' then tl evs' else evs')"

text \<open>What one matching loop reads and writes; \<open>ms_book\<close> is the opposite side.\<close>

record match_state =
  ms_order :: limit_order
  ms_book :: "limit_order list"
  ms_price :: pyfloat
  ms_fills :: "fill_event list"
  ms_events :: "lob_event list"
  ms_drawn :: nat

definition crosses :: "bool \<Rightarrow> limit_order \<Rightarrow> limit_order \<Rightarrow> bool" where
  "crosses buy o' best = (if buy then lo_price best \<le> lo_price o' else lo_price o' \<le> lo_price best)"

text \<open>One trade against the best order of the other side.\<close>

definition match_best :: "bool \<Rightarrow> source_tag \<Rightarrow> pyfloat \<Rightarrow> limit_order \<Rightarrow> limit_order list \<Rightarrow> match_state \<Rightarrow> match_state" where
  "match_best buy src now_ms best rest st =
    (let o' = ms_order st;
         matched = pymin (lo_qty o' - filled_qty o') (lo_qty best - filled_qty best);
         best' = best\<lparr>filled_qty := filled_qty best + matched\<rparr>;
         sd = (if buy then ''buy'' else ''sell'')
     in st\<lparr>ms_order := o'\<lparr>filled_qty := filled_qty o' + matched\<rparr>,
          ms_book := (if lo_qty best' \<le> filled_qty best' then rest else best' # rest),
          ms_price := lo_price best,
          ms_fills := ms_fills st @ [\<lparr>fe_stamp_ms = now_ms,
            fe_buy_order_id = (if buy then order_id o' else order_id best),
            fe_sell_order_id = (if buy then order_id best else order_id o'),
            fe_price = lo_price best, fe_qty = matched, fe_side = sd, fe_source = src\<rparr>],
          ms_events := push_event (ms_events st) \<lparr>le_type = EvTrade, le_side = lo_side o',
            le_price = lo_price best, le_qty = matched, le_timestamp_ms = now_ms, le_source = src\<rparr>\<rparr>)"

text \<open>One turn of the loop: \<open>Inr\<close> leaves it, with whether a queue slip did.\<close>

definition match_step ::
  "bool \<Rightarrow> source_tag \<Rightarrow> pyfloat \<Rightarrow> pyfloat \<Rightarrow> (nat \<Rightarrow> pyfloat) \<Rightarrow> (nat \<Rightarrow> pyfloat) \<Rightarrow> match_state \<Rightarrow>
   match_state + bool \<times> match_state" where
  "match_step buy src fill_prob slip_penalty draws clock st =
    (case ms_book st of
       [] \<Rightarrow> Inr (False, st)
     | best # rest \<Rightarrow>
         if \<not> filled_qty (ms_order st) < lo_qty (ms_order st) then Inr (False, st)
         else if \<not> crosses buy (ms_order st) best then Inr (False, st)
         else (let n = ms_drawn st; st1 = st\<lparr>ms_drawn := Suc n\<rparr> in
           if fill_prob < draws n
           then Inr (True, st1\<lparr>ms_order := (ms_order st)\<lparr>priority_timestamp_ms :=
                  priority_timestamp_ms (ms_order st) + slip_penalty\<rparr>\<rparr>)
           else Inl (match_best buy src (clock n) best rest st1)))"

partial_function (option) match_loop ::
  "bool \<Rightarrow> source_tag \<Rightarrow> pyfloat \<Rightarrow> pyfloat \<Rightarrow> (nat \<Rightarrow> pyfloat) \<Rightarrow> (nat \<Rightarrow> pyfloat) \<Rightarrow> match_state \<Rightarrow>
   (bool \<times> match_state) option" where
  "match_loop buy src fill_prob slip_penalty draws clock st =
    (case match_step buy src fill_prob slip_penalty draws clock st of
       Inl st' \<Rightarrow> match_loop buy src fill_prob slip_penalty draws clock st'
     | Inr r \<Rightarrow> Some r)"

text \<open>The residual goes to its own side, unless the check finds the book crossed.\<close>

definition rest_residual :: "bool \<Rightarrow> limit_order \<Rightarrow> (lob, unit) act" where
  "rest_residual buy o' b =
    (let own = (if buy then bids b else asks b);
         sorted_own = sort_book buy (own @ [o']);
         b1 = (if buy then b\<lparr>bids := sorted_own\<rparr> else b\<lparr>asks := sorted_own\<rparr>)
     in case check_book_integrity b1 of
          (Inr _, b2) \<Rightarrow> (ok (), b2)
        | (Inl e, b2) \<Rightarrow> (Inl e, if buy then b2\<lparr>bids := remove1 o' (bids b2)\<rparr>
                                 else b2\<lparr>asks := remove1 o' (asks b2)\<rparr>))"

definition slip_penalty_ms :: "pyfloat \<Rightarrow> pyfloat" where
  "slip_penalty_ms stress_score = (if stress_score < fl (70/100) then fl 50 else fl 75)"

definition place_side ::
  "bool \<Rightarrow> (nat \<Rightarrow> pyfloat) \<Rightarrow> limit_order \<Rightarrow> pyfloat \<Rightarrow> lob \<Rightarrow> (fill_event list res \<times> lob) option" where
  "place_side buy clock o' stress_score b =
    (case match_loop buy (source_of o') (get_effective_fill_probability b stress_score)
        (slip_penalty_ms stress_score) (rng_draws b) clock
        \<lparr>ms_order = o', ms_book = (if buy then asks b else bids b), ms_price = current_price b,
         ms_fills = [], ms_events = event_log b, ms_drawn = rng_drawn b\<rparr> of
       None \<Rightarrow> None
     | Some (slipped, st) \<Rightarrow>
         (let b1 = (if buy then b\<lparr>asks := ms_book st\<rparr> else b\<lparr>bids := ms_book st\<rparr>)
                \<lparr>current_price := ms_price st, event_log := ms_events st, rng_drawn := ms_drawn st\<rparr>
          in Some
            (if slipped then (Inl (BookIntegrityViolation ''slipped while crossing''),
               log_violation (reject_crossing_residual (ms_order st) b1))
             else if filled_qty (ms_order st) < lo_qty (ms_order st) \<and> 0 < lo_price (ms_order st) then
               abind (rest_residual buy (ms_order st)) (\<lambda>_. areturn (ms_fills st)) b1
             else (ok (ms_fills st), b1))))"

definition place_buy ::
  "(nat \<Rightarrow> pyfloat) \<Rightarrow> limit_order \<Rightarrow> pyfloat \<Rightarrow> lob \<Rightarrow> (fill_event list res \<times> lob) option" where
  "place_buy = place_side True"

definition place_sell ::
  "(nat \<Rightarrow> pyfloat) \<Rightarrow> limit_order \<Rightarrow> pyfloat \<Rightarrow> lob \<Rightarrow> (fill_event list res \<times> lob) option" where
  "place_sell = place_side False"

definition place_order ::
  "(nat \<Rightarrow> pyfloat) \<Rightarrow> limit_order \<Rightarrow> pyfloat \<Rightarrow> lob \<Rightarrow> (fill_event list res \<times> lob) option" where
  "place_order clock o' stress_score b =
    (if lo_side o' = ''buy'' then place_buy clock o' stress_score b
     else if lo_side o' = ''sell'' then place_sell clock o' stress_score b
     else Some (Inl (ValueError ''invalid order side''), b))"

section \<open>Cancellation\<close>

definition cancel_event :: "pyfloat \<Rightarrow> limit_order \<Rightarrow> lob_event" where
  "cancel_event now_ms o' = \<lparr>le_type = EvCancel, le_side = lo_side o', le_price = lo_price o',
     le_qty = pymax 0 (lo_qty o' - filled_qty o'), le_timestamp_ms = now_ms, le_source = source_of o'\<rparr>"

text \<open>The first order with the id, and the list without it.\<close>

fun take_order :: "string \<Rightarrow> limit_order list \<Rightarrow> (limit_order \<times> limit_order list) option" where
  "take_order oid [] = None"
| "take_order oid (x # xs) =
    (if order_id x = oid then Some (x, xs) else map_option (\<lambda>(y, ys). (y, x # ys)) (take_order oid xs))"

definition lob_cancel_order :: "pyfloat \<Rightarrow> string \<Rightarrow> lob \<Rightarrow> bool \<times> lob" where
  "lob_cancel_order now_ms oid b =
    (case take_order oid (bids b) of
       Some (x, rest) \<Rightarrow>
         (True, b\<lparr>event_log := push_event (event_log b) (cancel_event now_ms x), bids := rest\<rparr>)
     | None \<Rightarrow>
         (case take_order oid (asks b) of
            Some (x, rest) \<Rightarrow>
              (True, b\<lparr>event_log := push_event (event_log b) (cancel_event now_ms x), asks := rest\<rparr>)
          | None \<Rightarrow> (False, b)))"

section \<open>Lemmas: the matching loop ends\<close>

definition order_filling :: "limit_order \<Rightarrow> bool" where
  "order_filling x = filling (filled_qty x) (lo_qty x)"

definition order_phase :: "limit_order \<Rightarrow> nat" where
  "order_phase x = (if filled_qty x < lo_qty x then fill_phase (filled_qty x) (lo_qty x) else 0)"

text \<open>An order one may place: it is being filled, or there is nothing to fill.\<close>

definition order_placeable :: "limit_order \<Rightarrow> bool" where
  "order_placeable x \<longleftrightarrow> order_filling x \<or> \<not> filled_qty x < lo_qty x"

definition match_ok :: "match_state \<Rightarrow> bool" where
  "match_ok st \<longleftrightarrow> order_placeable (ms_order st) \<and> (\<forall>x \<in> set (ms_book st). order_filling x)"

definition match_measure :: "match_state \<Rightarrow> nat" where
  "match_measure st = order_phase (ms_order st) + sum_list (map order_phase (ms_book st))"

lemma order_phase_pos: "order_filling x \<Longrightarrow> 0 < order_phase x"
  by (simp add: order_filling_def order_phase_def filling_less fill_phase_pos)

lemma filling_done: "filling f q \<Longrightarrow> q \<le> f' \<Longrightarrow> \<not> f' < q"
  by (rule le_not_less_pyfloat)

text \<open>One side of a trade: an amount up to the remainder leaves the order fillable.\<close>

lemma order_add:
  assumes "order_filling x" "m = Fin c" "0 \<le> c"
  shows "order_placeable (x\<lparr>filled_qty := filled_qty x + m\<rparr>)"
    "order_phase (x\<lparr>filled_qty := filled_qty x + m\<rparr>) \<le> order_phase x"
    "\<not> lo_qty x \<le> filled_qty x + m \<Longrightarrow> order_filling (x\<lparr>filled_qty := filled_qty x + m\<rparr>)"
  using fill_some [OF assms(1) [unfolded order_filling_def] assms(2,3)] assms(1) filling_less
  by (auto simp: order_placeable_def order_filling_def order_phase_def dest: le_not_less_pyfloat)

lemma order_add_rest:
  assumes "order_filling x"
  shows "order_phase (x\<lparr>filled_qty := filled_qty x + (lo_qty x - filled_qty x)\<rparr>) < order_phase x"
proof -
  note f = assms [unfolded order_filling_def]
  obtain c where "lo_qty x \<le> filled_qty x + (lo_qty x - filled_qty x) \<or>
      filling (filled_qty x + (lo_qty x - filled_qty x)) (lo_qty x) \<and>
      fill_phase (filled_qty x + (lo_qty x - filled_qty x)) (lo_qty x) < fill_phase (filled_qty x) (lo_qty x)"
    by (rule fill_rest [OF f]) blast
  then show ?thesis using fill_phase_pos [OF f] filling_less [OF f]
    by (auto simp: order_phase_def dest: le_not_less_pyfloat)
qed

lemma order_remainder: "order_filling x \<Longrightarrow> \<exists>c. lo_qty x - filled_qty x = Fin c \<and> 0 \<le> c"
  unfolding order_filling_def by (erule fill_rest) blast

text \<open>The smaller remainder is traded.\<close>

lemma matched_amount:
  assumes "order_filling x" "order_filling y"
  obtains c where "pymin (lo_qty x - filled_qty x) (lo_qty y - filled_qty y) = Fin c" "0 \<le> c"
    "Fin c = lo_qty x - filled_qty x \<or> Fin c = lo_qty y - filled_qty y"
proof -
  obtain c d where cd: "lo_qty x - filled_qty x = Fin c" "0 \<le> c" "lo_qty y - filled_qty y = Fin d" "0 \<le> d"
    using order_remainder [OF assms(1)] order_remainder [OF assms(2)] by blast
  then show ?thesis using that [of c] that [of d] by (cases "d < c") (simp_all add: pymin_def)
qed

lemma match_step_decreases:
  assumes "match_ok st" "match_step buy src fp pen draws clock st = Inl st'"
  shows "match_ok st' \<and> match_measure st' < match_measure st"
proof -
  obtain best rest where b: "ms_book st = best # rest" and lt: "filled_qty (ms_order st) < lo_qty (ms_order st)"
    and st': "st' = match_best buy src (clock (ms_drawn st)) best rest (st\<lparr>ms_drawn := Suc (ms_drawn st)\<rparr>)"
    using assms(2) by (auto simp: match_step_def Let_def split: list.splits if_splits)
  define x where "x = ms_order st"
  define m where "m = pymin (lo_qty x - filled_qty x) (lo_qty best - filled_qty best)"
  have x: "order_filling x" and best: "order_filling best" and rest: "\<forall>y \<in> set rest. order_filling y"
    using assms(1) lt b by (auto simp: match_ok_def order_placeable_def x_def)
  obtain c where c: "m = Fin c" "0 \<le> c" "m = lo_qty x - filled_qty x \<or> m = lo_qty best - filled_qty best"
    using matched_amount [OF x best] unfolding m_def [symmetric] by metis
  define x' where "x' = x\<lparr>filled_qty := filled_qty x + m\<rparr>"
  define best' where "best' = best\<lparr>filled_qty := filled_qty best + m\<rparr>"
  have new: "ms_order st' = x'" "ms_book st' = (if lo_qty best \<le> filled_qty best + m then rest else best' # rest)"
    by (simp_all add: st' match_best_def Let_def x'_def best'_def m_def x_def)
  note ax = order_add [OF x c(1,2), folded x'_def] and ab = order_add [OF best c(1,2), folded best'_def]
  have "order_phase x' < order_phase x \<or> order_phase best' < order_phase best"
    using c(3) order_add_rest [OF x] order_add_rest [OF best] by (auto simp: x'_def best'_def)
  then have "match_measure st' < match_measure st"
    using ax(2) ab(2) order_phase_pos [OF best] by (auto simp: match_measure_def new b x_def [symmetric])
  moreover have "match_ok st'"
    using ax(1) ab(3) rest by (auto simp: match_ok_def new)
  ultimately show ?thesis by simp
qed

lemma match_loop_ends:
  assumes "match_ok st"
  obtains slipped st' where "match_loop buy src fp pen draws clock st = Some (slipped, st')"
proof -
  have "\<exists>r. match_loop buy src fp pen draws clock st = Some r"
    using assms
  proof (induction st rule: measure_induct_rule [where f = match_measure])
    case (less st)
    show ?case
    proof (cases "match_step buy src fp pen draws clock st")
      case (Inl st')
      then show ?thesis using less.IH [of st'] match_step_decreases [OF less.prems Inl]
        by (subst match_loop.simps) simp
    next
      case (Inr r)
      then show ?thesis by (subst match_loop.simps) simp
    qed
  qed
  then show ?thesis using that by (metis surj_pair)
qed

text \<open>What every turn keeps holds at the turn that leaves the loop.\<close>

lemma match_loop_invariant:
  assumes "match_ok st" "P st"
    and step: "\<And>s s'. match_ok s \<Longrightarrow> P s \<Longrightarrow> match_step buy src fp pen draws clock s = Inl s' \<Longrightarrow> P s'"
    and "match_loop buy src fp pen draws clock st = Some (slipped, st')"
  obtains s where "match_ok s" "P s" "match_step buy src fp pen draws clock s = Inr (slipped, st')"
proof -
  have "\<exists>s. match_ok s \<and> P s \<and> match_step buy src fp pen draws clock s = Inr (slipped, st')"
    using assms(1,2,4)
  proof (induction st rule: measure_induct_rule [where f = match_measure])
    case (less st)
    show ?case
    proof (cases "match_step buy src fp pen draws clock st")
      case (Inl s')
      note d = match_step_decreases [OF less.prems(1) Inl]
      have "match_loop buy src fp pen draws clock s' = Some (slipped, st')"
        using less.prems(3) by (subst (asm) match_loop.simps) (simp add: Inl)
      then show ?thesis using less.IH [of s'] d step [OF less.prems(1,2) Inl] by blast
    next
      case (Inr r)
      then have "r = (slipped, st')" using less.prems(3) by (simp add: match_loop.simps [of buy src fp pen draws clock st])
      then show ?thesis using less.prems(1,2) Inr by blast
    qed
  qed
  then show ?thesis using that by blast
qed

section \<open>Lemmas: what a matching run does\<close>

text \<open>A book whose first orders are gone and whose new head has a new fill.\<close>

definition consumed :: "limit_order list \<Rightarrow> limit_order list \<Rightarrow> bool" where
  "consumed book book' \<longleftrightarrow> (\<exists>k f. book' = (case drop k book of [] \<Rightarrow> [] | x # xs \<Rightarrow> x\<lparr>filled_qty := f\<rparr> # xs))"

lemma consumed_iff:
  "consumed xs ys \<longleftrightarrow> ys = [] \<or> (\<exists>k z zs f. drop k xs = z # zs \<and> ys = z\<lparr>filled_qty := f\<rparr> # zs)"
proof
  assume "consumed xs ys"
  then obtain k f where ys: "ys = (case drop k xs of [] \<Rightarrow> [] | x # xs \<Rightarrow> x\<lparr>filled_qty := f\<rparr> # xs)"
    by (auto simp: consumed_def)
  show "ys = [] \<or> (\<exists>k z zs f. drop k xs = z # zs \<and> ys = z\<lparr>filled_qty := f\<rparr> # zs)"
  proof (cases "drop k xs")
    case (Cons z zs)
    then have "ys = z\<lparr>filled_qty := f\<rparr> # zs" using ys by simp
    then show ?thesis using Cons by blast
  qed (simp add: ys)
next
  assume "ys = [] \<or> (\<exists>k z zs f. drop k xs = z # zs \<and> ys = z\<lparr>filled_qty := f\<rparr> # zs)"
  then show "consumed xs ys"
  proof (elim disjE exE conjE)
    assume "ys = []"
    then show ?thesis unfolding consumed_def by (intro exI [of _ "length xs"]) simp
  next
    fix k z zs f assume "drop k xs = z # zs" "ys = z\<lparr>filled_qty := f\<rparr> # zs"
    then show ?thesis unfolding consumed_def by (intro exI [of _ k] exI [of _ f]) simp
  qed
qed

lemma consumed_drop: "consumed xs (drop k xs)"
proof (cases "drop k xs")
  case (Cons y ys)
  then show ?thesis unfolding consumed_iff
    by (intro disjI2 exI [of _ k] exI [of _ y] exI [of _ ys] exI [of _ "filled_qty y"]) simp
qed (simp add: consumed_iff)

lemma consumed_rest: "consumed xs (y # ys) \<Longrightarrow> consumed xs ys"
proof -
  assume "consumed xs (y # ys)"
  then obtain k z where "drop k xs = z # ys" by (auto simp: consumed_iff)
  then have "ys = drop (Suc k) xs" by (metis drop_Suc tl_drop list.sel(3))
  then show ?thesis by (simp add: consumed_drop)
qed

lemma consumed_refill: "consumed xs (y # ys) \<Longrightarrow> consumed xs (y\<lparr>filled_qty := f\<rparr> # ys)"
  unfolding consumed_iff by force

lemma consumed_member: "consumed xs ys \<Longrightarrow> y \<in> set ys \<Longrightarrow> \<exists>x \<in> set xs. \<exists>f. y = x\<lparr>filled_qty := f\<rparr>"
proof -
  assume c: "consumed xs ys" "y \<in> set ys"
  obtain k f z zs where z: "drop k xs = z # zs" "ys = z\<lparr>filled_qty := f\<rparr> # zs"
    using c by (auto simp: consumed_iff)
  have sub: "set (z # zs) \<subseteq> set xs" unfolding z(1) [symmetric] by (rule set_drop_subset)
  consider "y = z\<lparr>filled_qty := f\<rparr>" | "y \<in> set zs" using c(2) z(2) by auto
  then show ?thesis
  proof cases
    case 1
    then show ?thesis using sub by auto
  next
    case 2
    then show ?thesis using sub by (intro bexI [of _ y] exI [of _ "filled_qty y"]) auto
  qed
qed

definition worse_or_equal :: "bool \<Rightarrow> pyfloat \<Rightarrow> pyfloat \<Rightarrow> bool" where
  "worse_or_equal buy p q = (if buy then p \<le> q else q \<le> p)"

definition match_inv :: "bool \<Rightarrow> match_state \<Rightarrow> match_state \<Rightarrow> bool" where
  "match_inv buy st0 st \<longleftrightarrow>
     consumed (ms_book st0) (ms_book st) \<and>
     (\<exists>f. ms_order st = (ms_order st0)\<lparr>filled_qty := f\<rparr>) \<and>
     (\<exists>new. ms_fills st = ms_fills st0 @ new \<and>
       filled_qty (ms_order st) = foldl (+) (filled_qty (ms_order st0)) (map fe_qty new) \<and>
       (\<forall>e \<in> set new. worse_or_equal buy (fe_price e) (lo_price (ms_order st0)) \<and>
         fe_price e \<in> lo_price ` set (ms_book st0) \<and>
         (\<forall>y \<in> set (ms_book st). worse_or_equal buy (fe_price e) (lo_price y))))"

text \<open>The opposite book, best price first.\<close>

definition best_first :: "bool \<Rightarrow> limit_order list \<Rightarrow> bool" where
  "best_first buy xs \<longleftrightarrow> sorted_wrt (\<lambda>x y. worse_or_equal buy (lo_price x) (lo_price y)) xs \<and>
     (\<forall>x \<in> set xs. lo_price x \<noteq> NaN)"

lemma consumed_prices: "consumed xs ys \<Longrightarrow> \<exists>k. map lo_price ys = drop k (map lo_price xs)"
proof -
  assume "consumed xs ys"
  then consider "ys = []" | k z zs f where "drop k xs = z # zs" "ys = z\<lparr>filled_qty := f\<rparr> # zs"
    by (auto simp: consumed_iff)
  then show ?thesis
  proof cases
    case 1
    then show ?thesis by (intro exI [of _ "length xs"]) simp
  next
    case 2
    then show ?thesis by (intro exI [of _ k]) (simp add: drop_map)
  qed
qed

lemma best_first_prices: "best_first buy xs \<longleftrightarrow>
    sorted_wrt (worse_or_equal buy) (map lo_price xs) \<and> NaN \<notin> set (map lo_price xs)"
  by (force simp: best_first_def sorted_wrt_map)

lemma best_first_consumed: "best_first buy xs \<Longrightarrow> consumed xs ys \<Longrightarrow> best_first buy ys"
  unfolding best_first_prices using consumed_prices [of xs ys] by (metis sorted_wrt_drop in_set_dropD)

lemma match_inv_step:
  assumes "match_inv buy st0 s" "match_step buy src fp pen draws clock s = Inl s'" "best_first buy (ms_book st0)"
  shows "match_inv buy st0 s'"
proof -
  obtain best rest where b: "ms_book s = best # rest" and cr: "crosses buy (ms_order s) best"
    and s': "s' = match_best buy src (clock (ms_drawn s)) best rest (s\<lparr>ms_drawn := Suc (ms_drawn s)\<rparr>)"
    using assms(2) by (auto simp: match_step_def Let_def split: list.splits if_splits)
  obtain f new where i: "consumed (ms_book st0) (best # rest)" "ms_order s = (ms_order st0)\<lparr>filled_qty := f\<rparr>"
    "ms_fills s = ms_fills st0 @ new" "filled_qty (ms_order s) = foldl (+) (filled_qty (ms_order st0)) (map fe_qty new)"
    "\<forall>e \<in> set new. worse_or_equal buy (fe_price e) (lo_price (ms_order st0)) \<and>
         fe_price e \<in> lo_price ` set (ms_book st0) \<and>
         (\<forall>y \<in> set (best # rest). worse_or_equal buy (fe_price e) (lo_price y))"
    using assms(1) unfolding match_inv_def b by blast
  define m where "m = pymin (lo_qty (ms_order s) - filled_qty (ms_order s)) (lo_qty best - filled_qty best)"
  define e where "e = \<lparr>fe_stamp_ms = clock (ms_drawn s),
      fe_buy_order_id = (if buy then order_id (ms_order s) else order_id best),
      fe_sell_order_id = (if buy then order_id best else order_id (ms_order s)),
      fe_price = lo_price best, fe_qty = m, fe_side = (if buy then ''buy'' else ''sell''), fe_source = src\<rparr>"
  have ef: "fe_price e = lo_price best" "fe_qty e = m" by (simp_all add: e_def)
  have new: "ms_order s' = (ms_order s)\<lparr>filled_qty := filled_qty (ms_order s) + m\<rparr>"
    "ms_book s' = (if lo_qty best \<le> filled_qty best + m then rest else best\<lparr>filled_qty := filled_qty best + m\<rparr> # rest)"
    "ms_fills s' = ms_fills s @ [e]"
    by (simp_all add: s' match_best_def Let_def m_def e_def)
  have bf: "best_first buy (best # rest)" using best_first_consumed [OF assms(3) i(1)] .
  have lp: "lo_price ` set (ms_book s') \<subseteq> lo_price ` set (best # rest)" by (auto simp: new(2))
  have first: "worse_or_equal buy (lo_price best) (lo_price y)" if "y \<in> set (ms_book s')" for y
  proof -
    obtain z where "z \<in> set (best # rest)" "lo_price y = lo_price z" using lp \<open>y \<in> set (ms_book s')\<close> by blast
    then show ?thesis using bf by (auto simp: best_first_def worse_or_equal_def le_refl_pyfloat)
  qed
  show ?thesis unfolding match_inv_def
  proof (intro conjI exI [of _ "new @ [e]"])
    show "consumed (ms_book st0) (ms_book s')"
      using consumed_rest [OF i(1)] consumed_refill [OF i(1)] by (simp add: new(2))
    show "\<exists>f. ms_order s' = (ms_order st0)\<lparr>filled_qty := f\<rparr>" by (simp add: new(1) i(2)) blast
    show "ms_fills s' = ms_fills st0 @ new @ [e]" by (simp add: new(3) i(3))
    show "filled_qty (ms_order s') = foldl (+) (filled_qty (ms_order st0)) (map fe_qty (new @ [e]))"
      by (simp add: new(1) i(4) ef)
    have "worse_or_equal buy (lo_price best) (lo_price (ms_order st0))"
      using cr unfolding i(2) crosses_def worse_or_equal_def by (cases buy) simp_all
    moreover have "lo_price best \<in> lo_price ` set (ms_book st0)"
      using consumed_member [OF i(1), of best] by force
    moreover have "worse_or_equal buy (fe_price e') (lo_price y)" if "e' \<in> set new" "y \<in> set (ms_book s')" for e' y
      using i(5) that lp by fastforce
    ultimately show "\<forall>e' \<in> set (new @ [e]). worse_or_equal buy (fe_price e') (lo_price (ms_order st0)) \<and>
         fe_price e' \<in> lo_price ` set (ms_book st0) \<and>
         (\<forall>y \<in> set (ms_book s'). worse_or_equal buy (fe_price e') (lo_price y))"
      using i(5) first by (auto simp: ef)
  qed
qed

section \<open>Lemmas: the sorted book\<close>

definition key_ok :: "limit_order \<Rightarrow> bool" where
  "key_ok x \<longleftrightarrow> lo_price x \<noteq> NaN \<and> priority_timestamp_ms x \<noteq> NaN"

lemma float_trichotomy: "x \<noteq> NaN \<Longrightarrow> y \<noteq> NaN \<Longrightarrow> x < y \<or> x = y \<or> y < (x :: pyfloat)"
  by (cases x; cases y) auto

definition better_price :: "bool \<Rightarrow> pyfloat \<Rightarrow> pyfloat \<Rightarrow> bool" where
  "better_price buy p q = (if buy then q < p else p < q)"

lemma better_trans: "better_price buy p q \<Longrightarrow> better_price buy q r \<Longrightarrow> better_price buy p r"
  unfolding better_price_def by (cases buy) (simp_all, (erule (1) less_trans_pyfloat)+)

lemma better_asym: "better_price buy p q \<Longrightarrow> \<not> better_price buy q p \<and> p \<noteq> q"
  by (cases buy; cases p; cases q) (auto simp: better_price_def)

lemma better_total: "p \<noteq> NaN \<Longrightarrow> q \<noteq> NaN \<Longrightarrow> better_price buy p q \<or> p = q \<or> better_price buy q p"
  using float_trichotomy [of p q] by (auto simp: better_price_def)

lemma key_less_iff: "key_ok x \<Longrightarrow> key_less buy x y \<longleftrightarrow> better_price buy (lo_price x) (lo_price y) \<or>
    lo_price x = lo_price y \<and> priority_timestamp_ms x < priority_timestamp_ms y"
  using better_asym [of buy "lo_price x" "lo_price y"]
  by (auto simp: key_less_def feq_def key_ok_def better_price_def)

lemma key_le_iff:
  assumes "key_ok x" "key_ok y"
  shows "\<not> key_less buy y x \<longleftrightarrow> better_price buy (lo_price x) (lo_price y) \<or>
    lo_price x = lo_price y \<and> priority_timestamp_ms x \<le> priority_timestamp_ms y"
  using better_asym [of buy "lo_price y" "lo_price x"] better_asym [of buy "lo_price x" "lo_price y"]
    better_total [of "lo_price x" "lo_price y" buy]
    not_less_pyfloat [of "priority_timestamp_ms y" "priority_timestamp_ms x"] assms
  by (auto simp: key_less_iff key_ok_def)

lemma key_le_trans:
  assumes "key_ok x" "key_ok y" "key_ok z" "\<not> key_less buy y x" "\<not> key_less buy z y"
  shows "\<not> key_less buy z x"
  using assms(4,5) better_trans [of buy "lo_price x" "lo_price y" "lo_price z"]
    le_trans_pyfloat [of "priority_timestamp_ms x" "priority_timestamp_ms y" "priority_timestamp_ms z"]
  unfolding key_le_iff [OF assms(1,2)] key_le_iff [OF assms(2,3)] key_le_iff [OF assms(1,3)] by auto

lemma key_asym: "key_ok x \<Longrightarrow> key_ok y \<Longrightarrow> key_less buy x y \<Longrightarrow> \<not> key_less buy y x"
  using better_asym [of buy "lo_price x" "lo_price y"] less_not_le_pyfloat less_le_pyfloat
  by (auto simp: key_less_iff)

definition in_order :: "bool \<Rightarrow> limit_order list \<Rightarrow> bool" where
  "in_order buy xs \<longleftrightarrow> sorted_wrt (\<lambda>x y. \<not> key_less buy y x) xs \<and> (\<forall>x \<in> set xs. key_ok x)"

lemma set_insert_order [simp]: "set (insert_order buy x ys) = insert x (set ys)"
  by (induction ys) auto

lemma insert_in_order: "key_ok x \<Longrightarrow> in_order buy ys \<Longrightarrow> in_order buy (insert_order buy x ys)"
proof (induction ys)
  case (Cons y ys)
  have ys: "in_order buy ys" "\<forall>z \<in> set ys. \<not> key_less buy z y" "key_ok y" "\<forall>z \<in> set ys. key_ok z"
    using Cons.prems(2) by (auto simp: in_order_def)
  show ?case
  proof (cases "key_less buy y x")
    case True
    then show ?thesis using Cons.IH [OF Cons.prems(1) ys(1)] ys(2,3) key_asym [OF ys(3) Cons.prems(1) True] Cons.prems(1)
      by (auto simp: in_order_def)
  next
    case False
    then have "\<forall>z \<in> set ys. \<not> key_less buy z x"
      using key_le_trans [OF Cons.prems(1) ys(3)] ys(2,4) by blast
    then show ?thesis using False Cons.prems by (auto simp: in_order_def)
  qed
qed (simp add: in_order_def)

lemma set_sort_book [simp]: "set (sort_book buy xs) = set xs"
  by (induction xs) (simp_all add: sort_book_def)

lemma sort_in_order: "\<forall>x \<in> set xs. key_ok x \<Longrightarrow> in_order buy (sort_book buy xs)"
  by (induction xs) (auto simp: sort_book_def insert_in_order, simp add: in_order_def)

lemma key_less_strip [simp]: "key_less buy (x\<lparr>filled_qty := f\<rparr>) y = key_less buy x y"
  "key_less buy x (y\<lparr>filled_qty := f\<rparr>) = key_less buy x y"
  "key_ok (x\<lparr>filled_qty := f\<rparr>) = key_ok x"
  by (simp_all add: key_less_def key_ok_def)

lemma in_order_drop: "in_order buy xs \<Longrightarrow> in_order buy (drop k xs)"
  by (auto simp: in_order_def sorted_wrt_drop dest: in_set_dropD)

lemma in_order_consumed: "in_order buy xs \<Longrightarrow> consumed xs ys \<Longrightarrow> in_order buy ys"
proof -
  assume i: "in_order buy xs" and "consumed xs ys"
  then consider "ys = []" | k z zs f where "drop k xs = z # zs" "ys = z\<lparr>filled_qty := f\<rparr> # zs"
    by (auto simp: consumed_iff)
  then show ?thesis
  proof cases
    case 2
    then show ?thesis using in_order_drop [OF i, of k] by (simp add: in_order_def)
  qed (simp add: in_order_def)
qed

lemma in_order_price:
  assumes "in_order buy xs"
  shows "best_first (\<not> buy) xs"
proof -
  have step: "worse_or_equal (\<not> buy) (lo_price x) (lo_price y)"
    if "x \<in> set xs" "y \<in> set xs" "\<not> key_less buy y x" for x y
    using that assms key_le_iff [of x y buy]
    by (auto simp: in_order_def key_ok_def better_price_def worse_or_equal_def le_refl_pyfloat less_le_pyfloat
        split: if_splits)
  have "sorted_wrt (\<lambda>x y. worse_or_equal (\<not> buy) (lo_price x) (lo_price y)) xs"
    using assms unfolding in_order_def by (elim conjE sorted_wrt_mono_rel [rotated]) (rule step)
  then show ?thesis using assms by (auto simp: best_first_def in_order_def key_ok_def)
qed

section \<open>Lemmas: the book invariant\<close>

text \<open>Both sides sorted, every resting order with something left, no bid at or above an ask.\<close>

definition lob_inv :: "lob \<Rightarrow> bool" where
  "lob_inv b \<longleftrightarrow> in_order True (bids b) \<and> in_order False (asks b) \<and>
     (\<forall>x \<in> set (bids b) \<union> set (asks b). order_filling x) \<and>
     (\<forall>x \<in> set (bids b). \<forall>y \<in> set (asks b). lo_price x < lo_price y)"

definition own_side :: "bool \<Rightarrow> lob \<Rightarrow> limit_order list" where
  "own_side buy b = (if buy then bids b else asks b)"

definition other_side :: "bool \<Rightarrow> lob \<Rightarrow> limit_order list" where
  "other_side buy b = (if buy then asks b else bids b)"

lemma lob_inv_cong: "bids b = bids b' \<Longrightarrow> asks b = asks b' \<Longrightarrow> lob_inv b = lob_inv b'"
  by (simp add: lob_inv_def)

lemma lob_inv_other: "lob_inv b \<Longrightarrow> best_first buy (other_side buy b)"
  using in_order_price [of True "bids b"] in_order_price [of False "asks b"]
  by (simp add: lob_inv_def other_side_def)

definition set_other :: "bool \<Rightarrow> limit_order list \<Rightarrow> lob \<Rightarrow> lob" where
  "set_other buy xs b = (if buy then b\<lparr>asks := xs\<rparr> else b\<lparr>bids := xs\<rparr>)"

definition set_own :: "bool \<Rightarrow> limit_order list \<Rightarrow> lob \<Rightarrow> lob" where
  "set_own buy xs b = (if buy then b\<lparr>bids := xs\<rparr> else b\<lparr>asks := xs\<rparr>)"

lemma lob_inv_consumed:
  assumes "lob_inv b" "consumed (other_side buy b) ys" "\<forall>y \<in> set ys. order_filling y"
  shows "lob_inv (set_other buy ys b)"
proof -
  have p: "\<exists>x \<in> set (other_side buy b). lo_price y = lo_price x" if "y \<in> set ys" for y
    using consumed_member [OF assms(2) that] by force
  have i: "in_order (\<not> buy) ys"
    using in_order_consumed [OF _ assms(2)] assms(1) by (cases buy) (simp_all add: lob_inv_def other_side_def)
  show ?thesis
    using assms(1,3) p i by (cases buy) (fastforce simp: lob_inv_def set_other_def other_side_def)+
qed

lemma in_order_remove1: "in_order buy xs \<Longrightarrow> in_order buy (remove1 x xs)"
  by (induction xs) (auto simp: in_order_def dest: notin_set_remove1 set_mp [OF set_remove1_subset])

lemma lob_inv_shrink:
  assumes "lob_inv b" "in_order True xs" "in_order False ys" "set xs \<subseteq> set (bids b)" "set ys \<subseteq> set (asks b)"
  shows "lob_inv (b\<lparr>bids := xs, asks := ys\<rparr>)"
proof -
  have "\<forall>x \<in> set xs \<union> set ys. order_filling x" "\<forall>x \<in> set xs. \<forall>y \<in> set ys. lo_price x < lo_price y"
    using assms unfolding lob_inv_def by (meson Un_iff subsetD)+
  then show ?thesis using assms(2,3) by (simp add: lob_inv_def)
qed

lemma lob_inv_reject: "lob_inv b \<Longrightarrow> lob_inv (reject_crossing_residual x b)"
  unfolding reject_crossing_residual_def
  by (intro lob_inv_shrink set_remove1_subset in_order_remove1) (simp_all add: lob_inv_def)

text \<open>The residual of an order that does not cross rests, and the check passes.\<close>

lemma rest_residual_ok:
  assumes "lob_inv b" "key_ok x" "order_filling x"
    and apart: "\<forall>y \<in> set (other_side buy b). better_price (\<not> buy) (lo_price x) (lo_price y)"
  shows "rest_residual buy x b = (ok (), set_own buy (sort_book buy (own_side buy b @ [x])) b)"
    "lob_inv (set_own buy (sort_book buy (own_side buy b @ [x])) b)"
proof -
  let ?b = "set_own buy (sort_book buy (own_side buy b @ [x])) b"
  have "in_order buy (sort_book buy (own_side buy b @ [x]))"
    using assms(1,2) by (intro sort_in_order) (auto simp: lob_inv_def in_order_def own_side_def)
  then show inv: "lob_inv ?b"
    using assms by (cases buy)
      (auto simp: lob_inv_def set_own_def own_side_def other_side_def better_price_def)
  then have "check_book_integrity ?b = (ok (), ?b)"
    by (auto simp: lob_inv_def check_book_integrity_def dest: le_not_less_pyfloat split: list.splits)
  then show "rest_residual buy x b = (ok (), ?b)"
    by (simp add: rest_residual_def Let_def own_side_def set_own_def)
qed

lemma match_exit:
  assumes "match_step buy src fp pen draws clock s = Inr (slipped, st)"
  shows "ms_book st = ms_book s" "ms_fills st = ms_fills s"
    "slipped \<Longrightarrow> fp < draws (ms_drawn s)"
    "\<not> slipped \<Longrightarrow> ms_order st = ms_order s \<and> (ms_book s = [] \<or> \<not> filled_qty (ms_order s) < lo_qty (ms_order s) \<or>
      \<not> crosses buy (ms_order s) (hd (ms_book s)))"
  using assms by (auto simp: match_step_def Let_def split: list.splits if_splits)

text \<open>No cross with the best opposite order is no cross with any.\<close>

lemma not_crossing:
  assumes "best_first buy ys" "lo_price x \<noteq> NaN" "ys = [] \<or> \<not> crosses buy x (hd ys)" "y \<in> set ys"
  shows "better_price (\<not> buy) (lo_price x) (lo_price y)"
proof (cases ys)
  case (Cons z zs)
  then have z: "lo_price z \<noteq> NaN" "\<not> crosses buy x z" using assms by (auto simp: best_first_def)
  then have b: "better_price (\<not> buy) (lo_price x) (lo_price z)"
    using assms(2) float_trichotomy [of "lo_price x" "lo_price z"]
    by (auto simp: crosses_def better_price_def le_refl_pyfloat less_le_pyfloat split: if_splits)
  have "y = z \<or> worse_or_equal buy (lo_price z) (lo_price y)"
    using assms(1,4) Cons by (auto simp: best_first_def)
  then show ?thesis using b
    by (cases buy) (auto simp: worse_or_equal_def better_price_def intro: less_le_trans_pyfloat le_less_trans_pyfloat)
qed (use assms(4) in simp)

text \<open>What a placement that returns fills did to the book.\<close>

definition placed :: "bool \<Rightarrow> limit_order \<Rightarrow> lob \<Rightarrow> fill_event list \<Rightarrow> lob \<Rightarrow> bool" where
  "placed buy x b fills b' \<longleftrightarrow>
     consumed (other_side buy b) (other_side buy b') \<and>
     (\<forall>e \<in> set fills. worse_or_equal buy (fe_price e) (lo_price x) \<and>
       fe_price e \<in> lo_price ` set (other_side buy b) \<and>
       (\<forall>y \<in> set (other_side buy b'). worse_or_equal buy (fe_price e) (lo_price y))) \<and>
     (let f = foldl (+) (filled_qty x) (map fe_qty fills)
      in own_side buy b' = (if f < lo_qty x \<and> 0 < lo_price x
           then sort_book buy (own_side buy b @ [x\<lparr>filled_qty := f\<rparr>]) else own_side buy b))"

lemma side_simps [simp]:
  "own_side buy (set_other buy ys b) = own_side buy b" "other_side buy (set_other buy ys b) = ys"
  "own_side buy (set_own buy xs b) = xs" "other_side buy (set_own buy xs b) = other_side buy b"
  by (simp_all add: own_side_def other_side_def set_own_def set_other_def)

lemma place_side_outcome:
  assumes "lob_inv b" "order_placeable x" "priority_timestamp_ms x \<noteq> NaN"
  obtains r b' where "place_side buy clock x stress b = Some (r, b')" "lob_inv b'"
    "r = Inl (BookIntegrityViolation ''slipped while crossing'') \<and>
       integrity_violation_count b' = integrity_violation_count b + 1 \<or>
     (\<exists>fills. r = ok fills \<and> integrity_violation_count b' = integrity_violation_count b \<and> placed buy x b fills b')"
proof -
  let ?fp = "get_effective_fill_probability b stress" and ?pen = "slip_penalty_ms stress"
  define st0 where "st0 = \<lparr>ms_order = x, ms_book = other_side buy b, ms_price = current_price b,
         ms_fills = [], ms_events = event_log b, ms_drawn = rng_drawn b\<rparr>"
  have s0: "ms_order st0 = x" "ms_book st0 = other_side buy b" "ms_fills st0 = []" by (simp_all add: st0_def)
  have bf: "best_first buy (ms_book st0)" using lob_inv_other [OF assms(1)] by (simp add: s0)
  have ok0: "match_ok st0"
    using assms(1,2) by (auto simp: match_ok_def s0 other_side_def lob_inv_def)
  obtain slipped st where run: "match_loop buy (source_of x) ?fp ?pen (rng_draws b) clock st0 = Some (slipped, st)"
    by (rule match_loop_ends [OF ok0])
  have inv0: "match_inv buy st0 st0"
    unfolding match_inv_def by (intro conjI exI [of _ "filled_qty x"] exI [of _ "[]"]) (simp_all add: consumed_drop [of _ 0, simplified] s0)
  obtain s where s: "match_ok s" "match_inv buy st0 s" and
      exit: "match_step buy (source_of x) ?fp ?pen (rng_draws b) clock s = Inr (slipped, st)"
  proof -
    have step: "match_inv buy st0 s'" if "match_ok s" "match_inv buy st0 s"
      "match_step buy (source_of x) ?fp ?pen (rng_draws b) clock s = Inl s'" for s s'
      using match_inv_step [OF that(2,3) bf] .
    show ?thesis
      by (rule match_loop_invariant [where P = "match_inv buy st0", OF ok0 inv0 _ run])
        (erule (2) step, erule (2) that)
  qed
  note ex = match_exit [OF exit]
  obtain f where f: "ms_order s = x\<lparr>filled_qty := f\<rparr>" using s(2) by (auto simp: match_inv_def s0)
  have fills: "consumed (other_side buy b) (ms_book st)" "f = foldl (+) (filled_qty x) (map fe_qty (ms_fills st))"
    "\<forall>e \<in> set (ms_fills st). worse_or_equal buy (fe_price e) (lo_price x) \<and>
       fe_price e \<in> lo_price ` set (other_side buy b) \<and>
       (\<forall>y \<in> set (ms_book st). worse_or_equal buy (fe_price e) (lo_price y))"
    using s(2) f by (auto simp: match_inv_def s0 ex)
  have live: "\<forall>y \<in> set (ms_book st). order_filling y" using s(1) by (simp add: match_ok_def ex)
  define b1 where "b1 = (set_other buy (ms_book st) b)
    \<lparr>current_price := ms_price st, event_log := ms_events st, rng_drawn := ms_drawn st\<rparr>"
  have inv1: "lob_inv b1"
    using lob_inv_consumed [OF assms(1) fills(1) live] lob_inv_cong [of b1 "set_other buy (ms_book st) b"]
    by (simp add: b1_def)
  have sides: "own_side buy b1 = own_side buy b" "other_side buy b1 = ms_book st"
      "integrity_violation_count b1 = integrity_violation_count b"
    by (simp_all add: b1_def own_side_def other_side_def set_other_def)
  have place: "place_side buy clock x stress b = Some
    (if slipped then (Inl (BookIntegrityViolation ''slipped while crossing''),
       log_violation (reject_crossing_residual (ms_order st) b1))
     else if filled_qty (ms_order st) < lo_qty (ms_order st) \<and> 0 < lo_price (ms_order st) then
       abind (rest_residual buy (ms_order st)) (\<lambda>_. areturn (ms_fills st)) b1
     else (ok (ms_fills st), b1))"
    using run by (simp add: place_side_def st0_def other_side_def b1_def set_other_def Let_def)
  show ?thesis
  proof (cases slipped)
    case True
    have "lob_inv (log_violation (reject_crossing_residual (ms_order st) b1))"
      using lob_inv_reject [OF inv1] by (simp add: lob_inv_def log_violation_def)
    then show ?thesis using place True sides
      by (intro that [OF place [unfolded if_P [OF True]]])
        (simp_all add: log_violation_def reject_crossing_residual_def)
  next
    case False
    note o = ex(4) [OF False]
    have fq: "ms_order st = x\<lparr>filled_qty := f\<rparr>" using o f by simp
    show ?thesis
    proof (cases "f < lo_qty x \<and> 0 < lo_price x")
      case True
      define own where "own = sort_book buy (own_side buy b1 @ [ms_order st])"
      have x: "lo_price x \<noteq> NaN" "order_filling (ms_order st)" "key_ok (ms_order st)"
        using True s(1) assms(3) by (auto simp: match_ok_def order_placeable_def f fq key_ok_def)
      have nc: "other_side buy b1 = [] \<or> \<not> crosses buy (ms_order st) (hd (other_side buy b1))"
        using o True by (auto simp: sides ex(1) f)
      have "\<forall>y \<in> set (other_side buy b1). better_price (\<not> buy) (lo_price (ms_order st)) (lo_price y)"
        using not_crossing [OF lob_inv_other [OF inv1] _ nc] x(1) by (simp add: fq)
      note rest = rest_residual_ok [OF inv1 x(3,2) this, folded own_def]
      have "placed buy x b (ms_fills st) (set_own buy own b1)"
        using fills True unfolding placed_def by (simp add: sides own_def fq Let_def)
      moreover have "place_side buy clock x stress b = Some (ok (ms_fills st), set_own buy own b1)"
        using place False True by (simp add: fq abind_apply rest(1) [unfolded fq])
      moreover have "integrity_violation_count (set_own buy own b1) = integrity_violation_count b"
        using sides(3) by (simp add: set_own_def)
      ultimately show ?thesis using rest(2) by (intro that) auto
    next
      case nr: False
      have "placed buy x b (ms_fills st) b1"
        using fills nr unfolding placed_def by (auto simp: sides Let_def)
      then show ?thesis using place False nr inv1 sides(3)
        by (intro that [of "ok (ms_fills st)" b1]) (auto simp: fq)
    qed
  qed
qed

section \<open>Lemmas: cancellation and runs\<close>

lemma take_order_split: "take_order oid xs = Some (x, rest) \<Longrightarrow>
    \<exists>as zs. xs = as @ x # zs \<and> rest = as @ zs \<and> order_id x = oid"
proof (induction xs arbitrary: rest)
  case (Cons y ys)
  show ?case
  proof (cases "order_id y = oid")
    case True
    then show ?thesis using Cons.prems by (intro exI [of _ "[]"] exI [of _ ys]) auto
  next
    case False
    then obtain r where r: "take_order oid ys = Some (x, r)" "rest = y # r" using Cons.prems by auto
    obtain as zs where "ys = as @ x # zs" "r = as @ zs" "order_id x = oid" using Cons.IH [OF r(1)] by blast
    then show ?thesis using r(2) by (intro exI [of _ "y # as"] exI [of _ zs]) simp
  qed
qed simp

lemma take_order_None: "take_order oid xs = None \<longleftrightarrow> oid \<notin> order_id ` set xs"
  by (induction xs) auto

lemma take_order_shrinks: "take_order oid xs = Some (x, rest) \<Longrightarrow> in_order buy xs \<Longrightarrow>
    in_order buy rest \<and> set rest \<subseteq> set xs"
  by (drule take_order_split) (auto simp: in_order_def sorted_wrt_append)

lemma lob_inv_cancel: "lob_inv b \<Longrightarrow> lob_inv (snd (lob_cancel_order now oid b))"
proof -
  assume inv: "lob_inv b"
  then have io: "in_order True (bids b)" "in_order False (asks b)" by (simp_all add: lob_inv_def)
  show ?thesis
  proof (cases "take_order oid (bids b)")
    case None
    then show ?thesis
    proof (cases "take_order oid (asks b)")
      case (Some p)
      obtain x rest where p: "p = (x, rest)" by force
      show ?thesis using None Some lob_inv_shrink [OF inv io(1) _ subset_refl, of rest]
          take_order_shrinks [OF Some [unfolded p] io(2)]
        by (simp add: lob_cancel_order_def p lob_inv_def)
    qed (simp add: lob_cancel_order_def inv)
  next
    case (Some p)
    obtain x rest where p: "p = (x, rest)" by force
    show ?thesis using Some lob_inv_shrink [OF inv _ io(2) _ subset_refl, of rest]
        take_order_shrinks [OF Some [unfolded p] io(1)]
      by (simp add: lob_cancel_order_def p lob_inv_def)
  qed
qed

lemma place_order_outcome:
  assumes "lob_inv b" "order_placeable x" "priority_timestamp_ms x \<noteq> NaN"
  obtains r b' where "place_order clock x stress b = Some (r, b')" "lob_inv b'"
    "r = Inl (ValueError ''invalid order side'') \<and> b' = b \<and> lo_side x \<notin> {''buy'', ''sell''} \<or>
     r = Inl (BookIntegrityViolation ''slipped while crossing'') \<and>
       integrity_violation_count b' = integrity_violation_count b + 1 \<or>
     (\<exists>fills. r = ok fills \<and> integrity_violation_count b' = integrity_violation_count b \<and>
        lo_side x \<in> {''buy'', ''sell''} \<and> placed (lo_side x = ''buy'') x b fills b')"
proof (cases "lo_side x \<in> {''buy'', ''sell''}")
  case True
  then have p: "place_order clock x stress b = place_side (lo_side x = ''buy'') clock x stress b"
    by (auto simp: place_order_def place_buy_def place_sell_def)
  obtain r b' where "place_side (lo_side x = ''buy'') clock x stress b = Some (r, b')" "lob_inv b'"
    "r = Inl (BookIntegrityViolation ''slipped while crossing'') \<and>
       integrity_violation_count b' = integrity_violation_count b + 1 \<or>
     (\<exists>fills. r = ok fills \<and> integrity_violation_count b' = integrity_violation_count b \<and>
        placed (lo_side x = ''buy'') x b fills b')"
    by (rule place_side_outcome [OF assms])
  then show ?thesis using True by (intro that [of r b']) (auto simp: p)
next
  case False
  then show ?thesis using assms(1)
    by (intro that [of "Inl (ValueError ''invalid order side'')" b]) (simp_all add: place_order_def)
qed

text \<open>Any sequence of placements and cancellations.\<close>

datatype lob_op = PlaceOp "nat \<Rightarrow> pyfloat" limit_order pyfloat | CancelOp pyfloat string

fun lob_run :: "lob_op list \<Rightarrow> lob \<Rightarrow> lob option" where
  "lob_run [] b = Some b"
| "lob_run (PlaceOp clock x stress # ops) b =
    (case place_order clock x stress b of None \<Rightarrow> None | Some (_, b') \<Rightarrow> lob_run ops b')"
| "lob_run (CancelOp now oid # ops) b = lob_run ops (snd (lob_cancel_order now oid b))"

fun lob_op_ok :: "lob_op \<Rightarrow> bool" where
  "lob_op_ok (PlaceOp clock x stress) = (order_placeable x \<and> priority_timestamp_ms x \<noteq> NaN)"
| "lob_op_ok (CancelOp now oid) = True"

lemma lob_run_inv: "lob_inv b \<Longrightarrow> \<forall>p \<in> set ops. lob_op_ok p \<Longrightarrow> \<exists>b'. lob_run ops b = Some b' \<and> lob_inv b'"
proof (induction ops arbitrary: b)
  case (Cons p ops)
  show ?case
  proof (cases p)
    case (PlaceOp clock x stress)
    obtain r b' where "place_order clock x stress b = Some (r, b')" "lob_inv b'"
      using Cons.prems by (auto simp: PlaceOp intro: place_order_outcome [of b x clock stress])
    then show ?thesis using Cons.IH [of b'] Cons.prems(2) by (simp add: PlaceOp)
  next
    case (CancelOp now oid)
    then show ?thesis using Cons.IH lob_inv_cancel Cons.prems by simp
  qed
qed simp

section \<open>Properties\<close>

text \<open>C12: the simulated book is a price-time priority book at every moment: whatever orders are
  placed and cancelled, each call returns (the matching loop needs at most two turns to fill an
  order in doubles), both sides stay sorted by price and then by priority, every resting order has
  something left, and no bid reaches an ask; so the crossed-book check after an insert never
  fires.\<close>

theorem book_stays_sound:
  assumes "lob_inv b" "\<forall>p \<in> set ops. lob_op_ok p"
  shows "\<exists>b'. lob_run ops b = Some b' \<and>
    sorted_wrt (\<lambda>x y. \<not> key_less True y x) (bids b') \<and> sorted_wrt (\<lambda>x y. \<not> key_less False y x) (asks b') \<and>
    (\<forall>x \<in> set (bids b'). \<forall>y \<in> set (asks b'). lo_price x < lo_price y) \<and>
    (\<forall>x \<in> set (bids b') \<union> set (asks b'). filled_qty x < lo_qty x) \<and>
    check_book_integrity b' = (ok (), b')"
proof -
  obtain b' where b': "lob_run ops b = Some b'" "lob_inv b'" using lob_run_inv [OF assms] by blast
  moreover have "check_book_integrity b' = (ok (), b')"
    using b'(2) by (auto simp: lob_inv_def check_book_integrity_def dest: le_not_less_pyfloat split: list.splits)
  ultimately show ?thesis
    by (intro exI [of _ b']) (auto simp: lob_inv_def in_order_def order_filling_def filling_less)
qed

text \<open>C13: a placement trades only inside its limit and at the best prices: every fill is at the
  price of a resting order on the other side, no worse than the limit and no worse than any order
  left there; the other side loses a prefix and only its new head is partly filled; the residual
  rests on its own side exactly when something is left; and a placement that does not return
  fills is a queue slip or an invalid side.\<close>

theorem fills_respect_limit_and_priority:
  assumes "lob_inv b" "order_placeable x" "priority_timestamp_ms x \<noteq> NaN"
  shows "\<exists>r b'. place_order clock x stress b = Some (r, b') \<and>
    (case r of
       Inl e \<Rightarrow> e = ValueError ''invalid order side'' \<and> b' = b \<or> e = BookIntegrityViolation ''slipped while crossing''
     | Inr fills \<Rightarrow>
         let buy = (lo_side x = ''buy'');
             theirs = (if buy then asks b else bids b); theirs' = (if buy then asks b' else bids b');
             ours = (if buy then bids b else asks b); ours' = (if buy then bids b' else asks b');
             f = foldl (+) (filled_qty x) (map fe_qty fills)
         in (\<forall>e \<in> set fills. (if buy then fe_price e \<le> lo_price x else lo_price x \<le> fe_price e) \<and>
               fe_price e \<in> lo_price ` set theirs \<and>
               (\<forall>y \<in> set theirs'. if buy then fe_price e \<le> lo_price y else lo_price y \<le> fe_price e)) \<and>
            (\<exists>k g. theirs' = (case drop k theirs of [] \<Rightarrow> [] | y # ys \<Rightarrow> y\<lparr>filled_qty := g\<rparr> # ys)) \<and>
            (if f < lo_qty x \<and> 0 < lo_price x
             then ours' = sort_book buy (ours @ [x\<lparr>filled_qty := f\<rparr>]) else ours' = ours))"
proof -
  obtain r b' where r: "place_order clock x stress b = Some (r, b')"
    "r = Inl (ValueError ''invalid order side'') \<and> b' = b \<and> lo_side x \<notin> {''buy'', ''sell''} \<or>
     r = Inl (BookIntegrityViolation ''slipped while crossing'') \<and>
       integrity_violation_count b' = integrity_violation_count b + 1 \<or>
     (\<exists>fills. r = ok fills \<and> integrity_violation_count b' = integrity_violation_count b \<and>
        lo_side x \<in> {''buy'', ''sell''} \<and> placed (lo_side x = ''buy'') x b fills b')"
    by (rule place_order_outcome [OF assms])
  then consider e where "r = Inl e" "e = ValueError ''invalid order side'' \<and> b' = b \<or> e = BookIntegrityViolation ''slipped while crossing''"
    | fills where "r = ok fills" "placed (lo_side x = ''buy'') x b fills b'" by blast
  then show ?thesis
  proof cases
    case 1
    then show ?thesis using r(1) by auto
  next
    case 2
    note p = 2(2) [unfolded placed_def Let_def consumed_def own_side_def other_side_def worse_or_equal_def]
    show ?thesis unfolding r(1) using p
      by (intro exI [of _ r] exI [of _ b']) (simp only: 2(1) sum.case Let_def, simp)
  qed
qed

section \<open>Instances\<close>

definition sample_lob :: lob where
  "sample_lob = new_lob (Fin 1) (\<lambda>n. 0) ''BTC/USDT'' (Fin 100) (Fin (7/8)) 0"

definition sample_buy :: limit_order where
  "sample_buy = new_limit_order (Fin 2) ''o1'' ''buy'' (Fin 101) (Fin 3) (Fin 2) ''SUPER_TRADEMAN''"

lemmas lob_eval = new_limit_order_def limit_order_post_init_def seed_bids_def seed_asks_def Let_def feq_def
  minus_pyfloat_def fl_eval float_eval zero_Fin one_Fin

lemma sample_bids: "bids sample_lob =
    [\<lparr>order_id = ''b1'', lo_side = ''buy'', lo_price = Fin 99, lo_qty = Fin (5/2), timestamp_ms = Fin 1,
       agent_id = ''mm_init'', filled_qty = 0, arrival_timestamp_ms = Fin 1, priority_timestamp_ms = Fin 1\<rparr>,
     \<lparr>order_id = ''b2'', lo_side = ''buy'', lo_price = Fin 95, lo_qty = Fin 5, timestamp_ms = Fin 1,
       agent_id = ''mm_init'', filled_qty = 0, arrival_timestamp_ms = Fin 1, priority_timestamp_ms = Fin 1\<rparr>,
     \<lparr>order_id = ''b3'', lo_side = ''buy'', lo_price = Fin 90, lo_qty = Fin 10, timestamp_ms = Fin 1,
       agent_id = ''mm_init'', filled_qty = 0, arrival_timestamp_ms = Fin 1, priority_timestamp_ms = Fin 1\<rparr>]"
  by (simp add: sample_lob_def new_lob_def lob_eval)

lemma sample_asks: "asks sample_lob =
    [\<lparr>order_id = ''a1'', lo_side = ''sell'', lo_price = Fin 101, lo_qty = Fin (5/2), timestamp_ms = Fin 1,
       agent_id = ''mm_init'', filled_qty = 0, arrival_timestamp_ms = Fin 1, priority_timestamp_ms = Fin 1\<rparr>,
     \<lparr>order_id = ''a2'', lo_side = ''sell'', lo_price = Fin 105, lo_qty = Fin 5, timestamp_ms = Fin 1,
       agent_id = ''mm_init'', filled_qty = 0, arrival_timestamp_ms = Fin 1, priority_timestamp_ms = Fin 1\<rparr>,
     \<lparr>order_id = ''a3'', lo_side = ''sell'', lo_price = Fin 110, lo_qty = Fin 10, timestamp_ms = Fin 1,
       agent_id = ''mm_init'', filled_qty = 0, arrival_timestamp_ms = Fin 1, priority_timestamp_ms = Fin 1\<rparr>]"
  by (simp add: sample_lob_def new_lob_def lob_eval)

lemma filling_Fin: "filling (Fin a) (Fin b) \<longleftrightarrow> rnd64 a = a \<and> rnd64 b = b \<and> 0 \<le> a \<and> a < b \<and> b < 2 ^ 1024"
  by (simp add: filling_def)

lemma sample_lob_inv: "lob_inv sample_lob"
  by (simp add: lob_inv_def sample_bids sample_asks in_order_def key_less_def key_ok_def feq_def
      order_filling_def zero_Fin filling_Fin float_eval)

lemma sample_buy_ok: "order_placeable sample_buy" "priority_timestamp_ms sample_buy \<noteq> NaN" "lo_side sample_buy = ''buy''"
  by (simp_all add: sample_buy_def new_limit_order_def limit_order_post_init_def Let_def feq_def zero_Fin
      order_placeable_def order_filling_def filling_Fin float_eval)

theorem book_stays_sound_witness:
  "\<exists>b'. lob_run [PlaceOp (\<lambda>n. Fin 2) sample_buy 0, CancelOp (Fin 3) ''b2''] sample_lob = Some b' \<and>
    check_book_integrity b' = (ok (), b')"
  using book_stays_sound [OF sample_lob_inv, of "[PlaceOp (\<lambda>n. Fin 2) sample_buy 0, CancelOp (Fin 3) ''b2'']"]
    sample_buy_ok by auto

theorem fills_respect_limit_and_priority_witness:
  "\<exists>r b'. place_order (\<lambda>n. Fin 2) sample_buy 0 sample_lob = Some (r, b') \<and>
    (case r of Inl e \<Rightarrow> True | Inr fills \<Rightarrow> \<forall>e \<in> set fills. fe_price e \<le> lo_price sample_buy)"
  using fills_respect_limit_and_priority [OF sample_lob_inv sample_buy_ok(1,2), of "\<lambda>n. Fin 2" 0]
  apply (elim exE conjE)
  subgoal for r b' using sample_buy_ok(3) by (cases r) (auto simp: Let_def)
  done

end
