(* ===== verification/SynVenue.thy ===== *)
theory SynVenue
  imports Venue Lob
begin

text \<open>
  \<open>synthetic/venue.py\<close> and \<open>synthetic/chaos_injector.py\<close>: the venue adapter over the simulated book
  and the shocks that edit the book directly.  A call that places an order returns what
  \<open>place_order\<close> returns, so its result is an option, \<open>None\<close> when the matching loop does not end.
  The derived client id of \<open>submit_approved_order\<close> is a parameter (it formats an object address).
\<close>

section \<open>The synthetic venue\<close>

record syn_venue =
  sv_lob :: lob
  sv_open_orders :: "(string, approved_order) dict"
  sv_open_positions :: "(string, position) dict"
  sv_fill_history :: "fill_event list"
  sv_filled_qty :: "(string, pyfloat) dict"
  sv_instruments :: "(string, instrument_info) dict"

definition new_syn_venue :: "lob \<Rightarrow> syn_venue" where
  "new_syn_venue book = \<lparr>sv_lob = book, sv_open_orders = [], sv_open_positions = [], sv_fill_history = [],
     sv_filled_qty = [], sv_instruments = []\<rparr>"

record syn_response =
  sr_id :: "string option"
  sr_client_order_id :: "string option"
  sr_symbol :: "string option"
  sr_status :: string
  sr_filled_qty :: pyfloat
  sr_price :: "pyfloat option"
  sr_fills :: "fill_event list"

text \<open>The position written after a fill: the last fill replaces what was there.\<close>

definition filled_position :: "approved_order \<Rightarrow> pyfloat \<Rightarrow> position" where
  "filled_position ord quantity = \<lparr>ps_asset = ao_asset ord, ps_asset_class = ao_asset_class ord,
     ps_side = ao_side ord, ps_entry_price = ao_entry_price ord, ps_stop_price = ao_stop_price ord,
     ps_risk_pct = ao_risk_pct ord, ps_position_size = quantity\<rparr>"

definition record_fills :: "string \<Rightarrow> approved_order \<Rightarrow> fill_event list \<Rightarrow> pyfloat \<Rightarrow> syn_venue \<Rightarrow> syn_venue" where
  "record_fills cid ord fills filled v =
    (if 0 < filled then v\<lparr>sv_fill_history := sv_fill_history v @ fills,
       sv_filled_qty := dset cid (dget_or (sv_filled_qty v) cid 0 + filled) (sv_filled_qty v),
       sv_open_positions := dset (ao_asset ord) (filled_position ord filled) (sv_open_positions v)\<rparr>
     else v)"

definition submit_named_order ::
  "(nat \<Rightarrow> pyfloat) \<Rightarrow> pyfloat \<Rightarrow> approved_order \<Rightarrow> string \<Rightarrow> syn_venue \<Rightarrow>
   (syn_response res \<times> syn_venue) option" where
  "submit_named_order clock now_ms ord cid v0 =
    (let v = v0\<lparr>sv_open_orders := dset cid ord (sv_open_orders v0)\<rparr>;
         limit_ord = new_limit_order now_ms cid (if ao_side ord = LONG then ''buy'' else ''sell'')
           (ao_entry_price ord) (ao_position_size ord) now_ms ''SUPER_TRADEMAN''
     in case place_order clock limit_ord 0 (sv_lob v) of
          None \<Rightarrow> None
        | Some (Inl e, b) \<Rightarrow> Some (Inl e, v\<lparr>sv_lob := b\<rparr>)
        | Some (Inr fills, b) \<Rightarrow>
            (let filled = fsum (map fe_qty fills);
                 status = (if ao_position_size ord \<le> filled then ''FILLED''
                   else if 0 < filled then ''PARTIAL'' else ''SUBMITTED'')
             in Some (ok \<lparr>sr_id = None, sr_client_order_id = Some cid, sr_symbol = None, sr_status = status,
                       sr_filled_qty = filled, sr_price = None, sr_fills = fills\<rparr>,
                     record_fills cid ord fills filled (v\<lparr>sv_lob := b\<rparr>))))"

definition submit_approved_order ::
  "(string \<Rightarrow> int \<Rightarrow> string) \<Rightarrow> (nat \<Rightarrow> pyfloat) \<Rightarrow> pyfloat \<Rightarrow> approved_order \<Rightarrow> string option \<Rightarrow> syn_venue \<Rightarrow>
   (syn_response res \<times> syn_venue) option" where
  "submit_approved_order derive_id clock now_ms ord cid v =
    (case cid of
       Some c \<Rightarrow> submit_named_order clock now_ms ord c v
     | None \<Rightarrow> (case int_of_float (ao_entry_price ord * fl 100) of
          Inl e \<Rightarrow> Some (Inl e, v)
        | Inr n \<Rightarrow> submit_named_order clock now_ms ord (derive_id (ao_asset ord) n) v))"

definition submit_approved_exit ::
  "(nat \<Rightarrow> pyfloat) \<Rightarrow> pyfloat \<Rightarrow> approved_exit \<Rightarrow> syn_venue \<Rightarrow> (syn_response res \<times> syn_venue) option" where
  "submit_approved_exit clock now_ms ex v0 =
    (case get_best_bid_ask (sv_lob v0) of (best_bid, best_ask) \<Rightarrow>
     (let pos = dget (sv_open_positions v0) (ax_asset ex);
          v = v0\<lparr>sv_open_positions := ddel (ax_asset ex) (sv_open_positions v0)\<rparr>;
          exit_qty = (case pos of Some p \<Rightarrow> ps_position_size p | None \<Rightarrow> 1);
          selling = (case pos of Some p \<Rightarrow> ps_side p = LONG | None \<Rightarrow> False);
          exit_price = (if selling then best_bid else best_ask)
      in case place_order clock (new_limit_order now_ms (''exit_'' @ ax_asset ex)
             (if selling then ''sell'' else ''buy'') exit_price exit_qty now_ms ''SUPER_TRADEMAN_EXIT'') 0 (sv_lob v) of
           None \<Rightarrow> None
         | Some (Inl e, b) \<Rightarrow> Some (Inl e, v\<lparr>sv_lob := b\<rparr>)
         | Some (Inr fills, b) \<Rightarrow>
             Some (ok \<lparr>sr_id = None, sr_client_order_id = None, sr_symbol = Some (ax_asset ex),
                     sr_status = ''FILLED'', sr_filled_qty = exit_qty, sr_price = Some exit_price, sr_fills = fills\<rparr>,
                   v\<lparr>sv_lob := b\<rparr>)))"

definition with_ids :: "string \<Rightarrow> string \<Rightarrow> (syn_response res \<times> syn_venue) option \<Rightarrow> (syn_response res \<times> syn_venue) option" where
  "with_ids pre cid r = map_option (\<lambda>(res, v).
     (map_sum id (\<lambda>x. x\<lparr>sr_id := Some (pre @ cid), sr_client_order_id := Some cid\<rparr>) res, v)) r"

definition syn_create_order ::
  "(nat \<Rightarrow> pyfloat) \<Rightarrow> pyfloat \<Rightarrow> approved_order \<Rightarrow> string \<Rightarrow> syn_venue \<Rightarrow> (syn_response res \<times> syn_venue) option" where
  "syn_create_order clock now_ms ord cid v = with_ids ''syn_'' cid
     (submit_approved_order (\<lambda>a n. a) clock now_ms ord (Some cid) v)"

definition syn_create_exit ::
  "(nat \<Rightarrow> pyfloat) \<Rightarrow> pyfloat \<Rightarrow> approved_exit \<Rightarrow> string \<Rightarrow> syn_venue \<Rightarrow> (syn_response res \<times> syn_venue) option" where
  "syn_create_exit clock now_ms ex cid v = with_ids ''syn_exit_'' cid (submit_approved_exit clock now_ms ex v)"

definition syn_cancel_order :: "pyfloat \<Rightarrow> string \<Rightarrow> string \<Rightarrow> syn_venue \<Rightarrow> venue_response \<times> syn_venue" where
  "syn_cancel_order now_ms cid sy v0 =
    (let v = v0\<lparr>sv_open_orders := ddel cid (sv_open_orders v0)\<rparr> in
     case lob_cancel_order now_ms cid (sv_lob v) of (cancelled, b) \<Rightarrow>
       (\<lparr>vr_id = None, vr_client_order_id = Some cid, vr_symbol = Some sy, vr_side = None, vr_price = None,
          vr_amount = None, vr_status = Some (if cancelled then ''canceled'' else ''not_found'')\<rparr>,
        v\<lparr>sv_lob := b\<rparr>))"

definition syn_fetch_order :: "string \<Rightarrow> string \<Rightarrow> syn_venue \<Rightarrow> syn_response option" where
  "syn_fetch_order cid sy v =
    (case dget (sv_open_orders v) cid of
       None \<Rightarrow> None
     | Some ord \<Rightarrow>
         (let filled = dget_or (sv_filled_qty v) cid 0;
              status = (if filled \<le> 0 then ''open''
                else if filled < ao_position_size ord then ''partially_filled'' else ''filled'')
          in Some \<lparr>sr_id = None, sr_client_order_id = Some cid, sr_symbol = Some sy, sr_status = status,
               sr_filled_qty = filled, sr_price = None, sr_fills = []\<rparr>))"

text \<open>Symbol, signed amount and entry price of the open positions.\<close>

definition syn_fetch_positions :: "syn_venue \<Rightarrow> (string \<times> pyfloat \<times> pyfloat) list" where
  "syn_fetch_positions v = map (\<lambda>p. (ps_asset p,
     if ps_side p = LONG then ps_position_size p else - ps_position_size p, ps_entry_price p))
     (dvalues (sv_open_positions v))"

definition syn_fetch_open_orders :: "string option \<Rightarrow> syn_venue \<Rightarrow> (string \<times> string \<times> pyfloat) list" where
  "syn_fetch_open_orders sy v = map (\<lambda>(cid, ord). (cid, ao_asset ord, ao_position_size ord))
     (filter (\<lambda>(cid, ord). case sy of None \<Rightarrow> True | Some s \<Rightarrow> ao_asset ord = s) (sv_open_orders v))"

definition syn_get_instrument_info :: "string \<Rightarrow> syn_venue \<Rightarrow> instrument_info" where
  "syn_get_instrument_info sy v = dget_or (sv_instruments v) sy (default_instrument sy)"

text \<open>Bid, ask, last and micro price.\<close>

definition syn_fetch_ticker :: "(nat \<Rightarrow> pyfloat) \<Rightarrow> syn_venue \<Rightarrow> (pyfloat \<times> pyfloat \<times> pyfloat \<times> pyfloat) res" where
  "syn_fetch_ticker decay v = (case get_best_bid_ask (sv_lob v) of (b, a) \<Rightarrow>
     rbind (get_micro_price decay (sv_lob v)) (\<lambda>m. ok (b, a, current_price (sv_lob v), m)))"

section \<open>The chaos injector\<close>

definition inject_flash_crash :: "pyfloat \<Rightarrow> lob \<Rightarrow> pyfloat \<times> lob" where
  "inject_flash_crash drop_pct b =
    (let new_price = current_price b * (1 - drop_pct)
     in (new_price, b\<lparr>current_price := new_price, bids := take (max 1 (length (bids b) div 10)) (bids b)\<rparr>))"

definition inject_liquidity_vacuum :: "pyfloat \<Rightarrow> pyfloat \<Rightarrow> (lob, pyfloat \<times> pyfloat) act" where
  "inject_liquidity_vacuum now_ms widen_factor bk =
    (case get_best_bid_ask bk of (b, a) \<Rightarrow>
     (case fdiv (b + a) (fl 2) of
        Inl e \<Rightarrow> (Inl e, bk)
      | Inr mid \<Rightarrow>
          (let new_b = mid - (mid - b) * widen_factor; new_a = mid + (a - mid) * widen_factor
           in (ok (new_b, new_a),
               bk\<lparr>bids := [new_limit_order now_ms ''vac_b'' ''buy'' new_b 1 now_ms ''chaos''],
                  asks := [new_limit_order now_ms ''vac_a'' ''sell'' new_a 1 now_ms ''chaos'']\<rparr>))))"

definition inject_data_staleness :: "pyfloat" where
  "inject_data_staleness = fl 12"

definition inject_gap_open :: "pyfloat \<Rightarrow> lob \<Rightarrow> pyfloat \<times> lob" where
  "inject_gap_open gap_pct b =
    (let new_p = current_price b * (1 + gap_pct) in (new_p, b\<lparr>current_price := new_p\<rparr>))"

datatype spoof_action = FakeDepthBuilt | LongEntryAttempt | BidsCanceled | PriceCollapsed | SpoofIdle

definition execute_spoof_and_dump_stage :: "pyfloat \<Rightarrow> int \<Rightarrow> lob \<Rightarrow> spoof_action \<times> lob" where
  "execute_spoof_and_dump_stage now_ms stage bk =
    (if stage = 1 then (FakeDepthBuilt, bk\<lparr>bids :=
        new_limit_order now_ms ''spoof_fake_buy'' ''buy'' (fst (get_best_bid_ask bk)) (fl 100) now_ms ''spoofer''
        # bids bk\<rparr>)
     else if stage = 2 then (LongEntryAttempt, bk)
     else if stage = 3 then (BidsCanceled, bk\<lparr>bids := filter (\<lambda>x. agent_id x \<noteq> ''spoofer'') (bids bk)\<rparr>)
     else if stage = 4 then (PriceCollapsed, bk\<lparr>current_price := current_price bk * fl (92/100)\<rparr>)
     else (SpoofIdle, bk))"

section \<open>Lemmas\<close>

lemma submit_raise:
  assumes "submit_named_order clock now ord cid v = Some (Inl e, v')"
  shows "sv_open_positions v' = sv_open_positions v \<and> sv_fill_history v' = sv_fill_history v \<and>
    sv_filled_qty v' = sv_filled_qty v \<and> dget (sv_open_orders v') cid = Some ord"
  using assms by (auto simp: submit_named_order_def Let_def dict_simps split: option.splits prod.splits sum.splits)

text \<open>A book with one small ask before a larger one, and draws that let one trade through.\<close>

definition thin_venue :: syn_venue where
  "thin_venue = new_syn_venue (sample_lob\<lparr>rng_draws := (\<lambda>n. if n = 0 then 0 else 1)\<rparr>)"

definition thin_order :: approved_order where
  "thin_order = \<lparr>ao_asset = ''BTC/USDT'', ao_asset_class = ''crypto'', ao_side = LONG, ao_entry_price = Fin 105,
     ao_stop_price = Fin 90, ao_target_price = Fin 120, ao_position_size = Fin 3, ao_risk_pct = Fin (1/64),
     ao_issuer = ISSUER\<rparr>"

lemmas match_eval = match_step_def Let_def crosses_def new_limit_order_def limit_order_post_init_def feq_def
  get_effective_fill_probability_def pymin_def pymax_def minus_pyfloat_def fl_eval float_eval zero_Fin one_Fin
  slip_penalty_ms_def match_best_def

lemma thin_place: "\<exists>b. place_order (\<lambda>n. Fin 2)
    (new_limit_order (Fin 2) ''c1'' ''buy'' (Fin 105) (Fin 3) (Fin 2) ''SUPER_TRADEMAN'') 0 (sv_lob thin_venue) =
    Some (Inl (BookIntegrityViolation ''slipped while crossing''), b) \<and> map order_id (asks b) = [''a2'', ''a3'']"
  apply (simp add: place_order_def place_buy_def place_side_def thin_venue_def new_syn_venue_def sample_asks)
  apply (simp add: sample_lob_def new_lob_def)
  apply (subst match_loop.simps, simp add: match_eval)
  apply (subst match_loop.simps, simp add: match_eval)
  apply (simp add: log_violation_def reject_crossing_residual_def)
  done

lemma thin_submit: "\<exists>v'. submit_named_order (\<lambda>n. Fin 2) (Fin 2) thin_order ''c1'' thin_venue =
    Some (Inl (BookIntegrityViolation ''slipped while crossing''), v') \<and> map order_id (asks (sv_lob v')) = [''a2'', ''a3'']"
  using thin_place by (auto simp: submit_named_order_def thin_order_def Let_def)

text \<open>A venue that holds a long position of three against a best bid of two and a half.\<close>

definition long_venue :: syn_venue where
  "long_venue = (new_syn_venue sample_lob)\<lparr>sv_open_positions := [(''BTC/USDT'', filled_position thin_order (Fin 3))]\<rparr>"

definition long_exit :: approved_exit where
  "long_exit = \<lparr>ax_asset = ''BTC/USDT'', ax_asset_class = ''crypto'', ax_reason = ''stop'', ax_issuer = ISSUER\<rparr>"

lemma long_place: "\<exists>b fl1. place_order (\<lambda>n. Fin 2)
    (new_limit_order (Fin 2) ''exit_BTC/USDT'' ''sell'' (Fin 99) (Fin 3) (Fin 2) ''SUPER_TRADEMAN_EXIT'') 0 sample_lob =
    Some (ok [fl1], b) \<and> fe_qty fl1 = Fin (5/2)"
  apply (simp add: place_order_def place_sell_def place_side_def sample_bids)
  apply (simp add: sample_lob_def new_lob_def)
  apply (subst match_loop.simps, simp add: match_eval)
  apply (subst match_loop.simps, simp add: match_eval)
  apply (simp add: rest_residual_def sample_asks abind_apply check_book_integrity_def sort_book_def key_less_def match_eval)
  done

section \<open>Properties\<close>

text \<open>an exit reports a complete fill whatever the book did: when the call returns, the status is
  FILLED and the quantity is the whole position, and the position is forgotten, also when the
  placement raises.\<close>

theorem exit_reports_full_fill:
  assumes "submit_approved_exit clock now ex v = Some (r, v')"
  shows "dget (sv_open_positions v') (ax_asset ex) = None \<and>
    (case r of Inl e \<Rightarrow> True
     | Inr resp \<Rightarrow> sr_status resp = ''FILLED'' \<and>
         sr_filled_qty resp = (case dget (sv_open_positions v) (ax_asset ex) of Some p \<Rightarrow> ps_position_size p | None \<Rightarrow> 1))"
  using assms
  by (auto simp: submit_approved_exit_def Let_def dict_simps split: option.splits prod.splits sum.splits)

text \<open>The witness is a position of three of which two and a half were sold: the report says three,
  the position is gone and the rest is a resting order.\<close>

theorem exit_reports_full_fill_witness:
  "\<exists>resp v'. submit_approved_exit (\<lambda>n. Fin 2) (Fin 2) long_exit long_venue = Some (ok resp, v') \<and>
    sr_status resp = ''FILLED'' \<and> sr_filled_qty resp = Fin 3 \<and> fsum (map fe_qty (sr_fills resp)) = Fin (5/2) \<and>
    dget (sv_open_positions v') ''BTC/USDT'' = None"
proof -
  obtain b fl1 where p: "place_order (\<lambda>n. Fin 2)
    (new_limit_order (Fin 2) ''exit_BTC/USDT'' ''sell'' (Fin 99) (Fin 3) (Fin 2) ''SUPER_TRADEMAN_EXIT'') 0 sample_lob =
    Some (ok [fl1], b)" "fe_qty fl1 = Fin (5/2)" using long_place by blast
  have g: "get_best_bid_ask sample_lob = (Fin 99, Fin 101)"
    by (simp add: get_best_bid_ask_def sample_bids sample_asks)
  obtain resp v' where r: "submit_approved_exit (\<lambda>n. Fin 2) (Fin 2) long_exit long_venue = Some (ok resp, v')"
    "sr_fills resp = [fl1]"
    using p(1) g by (simp add: submit_approved_exit_def long_venue_def long_exit_def new_syn_venue_def
        filled_position_def thin_order_def Let_def)
  have "fsum (map fe_qty (sr_fills resp)) = Fin (5/2)"
    by (simp add: r(2) p(2) fsum_def ftruth_def fl_eval float_eval zero_Fin)
  then show ?thesis using exit_reports_full_fill [OF r(1)] r(1)
    by (auto simp: long_venue_def long_exit_def filled_position_def)
qed

text \<open>a queue slip after a partial fill loses the fill: whenever the placement of an order
  raises, the venue's positions, fill history and filled quantities are what they were and the
  order is listed as open, although the book may already have traded against it.\<close>

theorem slipped_fills_are_lost:
  assumes "submit_approved_order derive clock now ord (Some cid) v = Some (Inl e, v')"
  shows "sv_open_positions v' = sv_open_positions v \<and> sv_fill_history v' = sv_fill_history v \<and>
    sv_filled_qty v' = sv_filled_qty v \<and> dget (sv_open_orders v') cid = Some ord"
  using submit_raise assms by (auto simp: submit_approved_order_def)

text \<open>The witness bought two and a half before the slip: the ask is gone, nothing is recorded.\<close>

theorem slipped_fills_are_lost_witness:
  "\<exists>e v'. submit_approved_order (\<lambda>a n. a) (\<lambda>n. Fin 2) (Fin 2) thin_order (Some ''c1'') thin_venue = Some (Inl e, v') \<and>
    map order_id (asks (sv_lob thin_venue)) = [''a1'', ''a2'', ''a3''] \<and>
    map order_id (asks (sv_lob v')) = [''a2'', ''a3''] \<and> sv_fill_history v' = [] \<and> sv_open_positions v' = [] \<and>
    dget (sv_open_orders v') ''c1'' = Some thin_order"
proof -
  obtain v' where v': "submit_approved_order (\<lambda>a n. a) (\<lambda>n. Fin 2) (Fin 2) thin_order (Some ''c1'') thin_venue =
      Some (Inl (BookIntegrityViolation ''slipped while crossing''), v')" "map order_id (asks (sv_lob v')) = [''a2'', ''a3'']"
    using thin_submit by (auto simp: submit_approved_order_def)
  then show ?thesis using slipped_fills_are_lost [OF v'(1)]
    by (auto simp: thin_venue_def new_syn_venue_def sample_asks)
qed

end
