(* ===== verification/OmsActor.thy ===== *)
theory OmsActor
  imports PyFloat "HOL-Library.Multiset" "HOL-Library.Product_Lexorder"
begin

text \<open>
  \<open>synthetic/oms_engine.py\<close> and \<open>synthetic/portfolio_governor.py\<close>: the single-threaded actor per
  symbol with its prioritised event queue, its resequencing buffer for exchange messages and its
  reconciling mailbox, and the governor over all actors.  \<open>heapq\<close> over events with distinct
  (priority, sequence) keys is the interface \<open>min_queue\<close>, provided by a sorted list.  Two symbols
  of the governor are two actors.
\<close>

section \<open>The priority queue\<close>

locale min_queue =
  fixes push :: "'e \<Rightarrow> 'q \<Rightarrow> 'q" and pop :: "'q \<Rightarrow> ('e \<times> 'q) option"
    and items :: "'q \<Rightarrow> 'e multiset" and key :: "'e \<Rightarrow> 'k :: linorder" and inv :: "'q \<Rightarrow> bool"
  assumes push_inv: "inv q \<Longrightarrow> inv (push e q)"
    and push_items: "items (push e q) = add_mset e (items q)"
    and pop_None: "pop q = None \<longleftrightarrow> items q = {#}"
    and pop_inv: "inv q \<Longrightarrow> pop q = Some (e, q') \<Longrightarrow> inv q'"
    and pop_items: "pop q = Some (e, q') \<Longrightarrow> items q = add_mset e (items q')"
    and pop_min: "inv q \<Longrightarrow> pop q = Some (e, q') \<Longrightarrow> x \<in># items q \<Longrightarrow> key e \<le> key x"
begin

text \<open>Emptying the queue.\<close>

fun pops :: "nat \<Rightarrow> 'q \<Rightarrow> 'e list" where
  "pops 0 q = []"
| "pops (Suc n) q = (case pop q of None \<Rightarrow> [] | Some (e, q') \<Rightarrow> e # pops n q')"

lemma pops_all: "size (items q) \<le> n \<Longrightarrow> mset (pops n q) = items q"
proof (induction n arbitrary: q)
  case (Suc n)
  then show ?case using pop_None [of q] pop_items [of q] by (force split: option.splits)
qed simp

lemma pops_subset: "set (pops n q) \<subseteq> set_mset (items q)"
proof (induction n arbitrary: q)
  case (Suc n)
  show ?case
  proof (cases "pop q")
    case (Some p)
    obtain e q' where p: "p = (e, q')" by force
    show ?thesis using Suc.IH [of q'] pop_items [OF Some [unfolded p]] by (auto simp: Some p)
  qed simp
qed simp

lemma pops_sorted: "inv q \<Longrightarrow> sorted (map key (pops n q))"
proof (induction n arbitrary: q)
  case (Suc n)
  show ?case
  proof (cases "pop q")
    case (Some p)
    obtain e q' where p: "p = (e, q')" by force
    note i = Some [unfolded p]
    have "\<forall>x \<in> set (pops n q'). key e \<le> key x"
      using pops_subset [of n q'] pop_min [OF Suc.prems i] pop_items [OF i] by auto
    then show ?thesis using Suc.IH [OF pop_inv [OF Suc.prems i]] i by simp
  qed simp
qed simp

end

section \<open>Events and messages\<close>

datatype oms_event_tier = TIER_0_SAFETY | TIER_1_STATE | TIER_2_EXECUTION

fun tier_priority :: "oms_event_tier \<Rightarrow> int" where
  "tier_priority TIER_0_SAFETY = 0"
| "tier_priority TIER_1_STATE = 1"
| "tier_priority TIER_2_EXECUTION = 2"

datatype order_status =
  StNEW | StACTIVE | StPENDING_CANCEL | StFILLED | StPARTIALLY_FILLED | StCANCELLED | StREJECTED

record event_payload =
  pl_order_id :: "string option"
  pl_side :: "string option"
  pl_price :: "pyfloat option"
  pl_qty :: "pyfloat option"

record oms_event =
  ev_priority :: int
  ev_sequence :: int
  ev_type :: string
  ev_payload :: event_payload
  ev_timestamp_ms :: pyfloat

definition event_key :: "oms_event \<Rightarrow> int \<times> int" where
  "event_key e = (ev_priority e, ev_sequence e)"

definition heap_push :: "oms_event \<Rightarrow> oms_event list \<Rightarrow> oms_event list" where
  "heap_push e q = insort_key event_key e q"

definition heap_pop :: "oms_event list \<Rightarrow> (oms_event \<times> oms_event list) option" where
  "heap_pop q = (case q of [] \<Rightarrow> None | e # es \<Rightarrow> Some (e, es))"

lemma heap_pop_simps [simp]: "heap_pop [] = None" "heap_pop (e # es) = Some (e, es)"
  by (simp_all add: heap_pop_def)

interpretation evq: min_queue heap_push heap_pop mset event_key "\<lambda>q. sorted (map event_key q)"
  by unfold_locales
    (auto simp: heap_push_def heap_pop_def sorted_insort_key split: list.splits)

record exchange_message =
  seq_num :: int
  xm_order_id :: string
  msg_type :: string
  xm_qty :: pyfloat
  xm_price :: pyfloat

record actor_order =
  ar_order_id :: string
  ar_side :: string
  ar_price :: pyfloat
  ar_qty :: pyfloat
  ar_filled_qty :: pyfloat
  ar_status :: order_status

text \<open>A reconciliation snapshot: the position under its key, when the key is present.\<close>

datatype snapshot = Snapshot "pyfloat option"

record actor =
  ac_symbol :: string
  max_discrepancy_pct :: pyfloat
  event_pq :: "oms_event list"
  ac_counter :: int
  mailbox :: "snapshot option"
  ac_orders :: "(string, actor_order) dict"
  local_position :: pyfloat
  processed_events :: "string list"
  next_expected_seq_num :: int
  seq_buffer :: "(int, exchange_message) dict"
  circuit_breaker_tripped :: bool
  is_halted :: bool
  is_processing_event :: bool

definition new_actor :: "string \<Rightarrow> pyfloat \<Rightarrow> actor" where
  "new_actor sy max_disc = \<lparr>ac_symbol = sy, max_discrepancy_pct = max_disc, event_pq = [], ac_counter = 0,
     mailbox = None, ac_orders = [], local_position = 0, processed_events = [], next_expected_seq_num = 1,
     seq_buffer = [], circuit_breaker_tripped = False, is_halted = False, is_processing_event = False\<rparr>"

section \<open>Orders\<close>

definition put_state_sync :: "snapshot \<Rightarrow> actor \<Rightarrow> actor" where
  "put_state_sync snap a = a\<lparr>mailbox := Some snap\<rparr>"

definition mailbox_drain :: "actor \<Rightarrow> snapshot option \<times> actor" where
  "mailbox_drain a = (mailbox a, a\<lparr>mailbox := None\<rparr>)"

definition enqueue_event :: "oms_event_tier \<Rightarrow> string \<Rightarrow> event_payload \<Rightarrow> pyfloat \<Rightarrow> actor \<Rightarrow> int \<times> actor" where
  "enqueue_event t ty payload now_ms a =
    (let sq = ac_counter a;
         e = \<lparr>ev_priority = tier_priority t, ev_sequence = sq, ev_type = ty, ev_payload = payload,
           ev_timestamp_ms = now_ms\<rparr>
     in (sq, a\<lparr>ac_counter := sq + 1, event_pq := heap_push e (event_pq a)\<rparr>))"

definition actor_submit_order :: "string \<Rightarrow> string \<Rightarrow> pyfloat \<Rightarrow> pyfloat \<Rightarrow> actor \<Rightarrow> actor" where
  "actor_submit_order oid sd price quantity a = a\<lparr>ac_orders := dset oid \<lparr>ar_order_id = oid, ar_side = sd,
     ar_price = price, ar_qty = quantity, ar_filled_qty = 0, ar_status = StACTIVE\<rparr> (ac_orders a)\<rparr>"

definition set_status :: "string \<Rightarrow> order_status \<Rightarrow> actor \<Rightarrow> actor" where
  "set_status oid st a = (case dget (ac_orders a) oid of
     None \<Rightarrow> a | Some x \<Rightarrow> a\<lparr>ac_orders := dset oid (x\<lparr>ar_status := st\<rparr>) (ac_orders a)\<rparr>)"

definition request_cancel :: "string \<Rightarrow> actor \<Rightarrow> bool \<times> actor" where
  "request_cancel oid a = (case dget (ac_orders a) oid of
     None \<Rightarrow> (False, a)
   | Some x \<Rightarrow> if ar_status x \<in> {StACTIVE, StNEW} then (True, set_status oid StPENDING_CANCEL a) else (False, a))"

text \<open>The wire message: symbol, id, side, price and quantity of a tracked order.\<close>

definition format_outgoing_order_message ::
  "string \<Rightarrow> actor \<Rightarrow> (string \<times> string \<times> string \<times> pyfloat \<times> pyfloat) res" where
  "format_outgoing_order_message oid a = (case dget (ac_orders a) oid of
     None \<Rightarrow> raise (KeyError oid)
   | Some x \<Rightarrow> ok (ac_symbol a, oid, ar_side x, ar_price x, ar_qty x))"

section \<open>Exchange messages in sequence\<close>

definition apply_fill_message :: "exchange_message \<Rightarrow> actor \<Rightarrow> actor" where
  "apply_fill_message msg a =
    (let oid = xm_order_id msg; order = dget (ac_orders a) oid;
         a1 = (case order of
             None \<Rightarrow> a
           | Some x \<Rightarrow>
               (let filled = ar_filled_qty x + xm_qty msg;
                    st = (if ar_status x = StPENDING_CANCEL then StFILLED
                      else if ar_qty x \<le> filled then StFILLED else StPARTIALLY_FILLED)
                in a\<lparr>ac_orders := dset oid (x\<lparr>ar_filled_qty := filled, ar_status := st\<rparr>) (ac_orders a)\<rparr>));
         direction = (case order of Some x \<Rightarrow> (if ar_side x = ''BUY'' then 1 else - 1) | None \<Rightarrow> - 1)
     in a1\<lparr>local_position := local_position a + direction * xm_qty msg\<rparr>)"

definition apply_exchange_message :: "exchange_message \<Rightarrow> actor \<Rightarrow> actor" where
  "apply_exchange_message msg a =
    (if msg_type msg = ''FILL'' then apply_fill_message msg a
     else if msg_type msg = ''CANCEL_CONFIRMED'' then
       (case dget (ac_orders a) (xm_order_id msg) of
          None \<Rightarrow> a
        | Some x \<Rightarrow> if ar_status x = StFILLED then a else set_status (xm_order_id msg) StCANCELLED a)
     else if msg_type msg = ''CANCEL_REJECTED'' then a
     else if msg_type msg = ''REJECT'' then set_status (xm_order_id msg) StREJECTED a
     else a)"

lemma apply_keeps_buffer [simp]: "seq_buffer (apply_exchange_message msg a) = seq_buffer a"
  "next_expected_seq_num (apply_exchange_message msg a) = next_expected_seq_num a"
  by (simp_all add: apply_exchange_message_def apply_fill_message_def set_status_def Let_def split: option.splits)

lemma length_ddel: "dget d k = Some v \<Longrightarrow> length (ddel k d) < length d"
  unfolding AList.delete_eq by (drule map_of_SomeD, erule length_filter_less) simp

text \<open>The loop of \<open>on_exchange_message\<close>: contiguous sequence numbers.\<close>

function process_contiguous :: "actor \<Rightarrow> actor" where
  "process_contiguous a =
    (case dget (seq_buffer a) (next_expected_seq_num a) of
       None \<Rightarrow> a
     | Some msg \<Rightarrow>
         (let a1 = a\<lparr>seq_buffer := ddel (next_expected_seq_num a) (seq_buffer a)\<rparr>;
              a2 = apply_exchange_message msg a1
          in process_contiguous (a2\<lparr>next_expected_seq_num := next_expected_seq_num a2 + 1\<rparr>)))"
  by pat_completeness auto
termination
  by (relation "measure (\<lambda>a. length (seq_buffer a))") (simp_all add: length_ddel)

declare process_contiguous.simps [simp del]

definition on_exchange_message :: "exchange_message \<Rightarrow> actor \<Rightarrow> actor" where
  "on_exchange_message msg a = process_contiguous (a\<lparr>seq_buffer := dset (seq_num msg) msg (seq_buffer a)\<rparr>)"

section \<open>The event loop\<close>

definition drain_safe_boundary :: "(actor, unit) act" where
  "drain_safe_boundary a0 =
    (case mailbox_drain a0 of (snap, a) \<Rightarrow>
     (case snap of
        None \<Rightarrow> (ok (), a)
      | Some (Snapshot pos) \<Rightarrow>
          (let exchange_pos = (case pos of None \<Rightarrow> local_position a | Some p \<Rightarrow> p);
               delta = \<bar>exchange_pos - local_position a\<bar>;
               reference_base = pymax (pymax \<bar>exchange_pos\<bar> \<bar>local_position a\<bar>) 1
           in case fdiv delta reference_base of
                Inl e \<Rightarrow> (Inl e, a)
              | Inr discrepancy \<Rightarrow>
                  if max_discrepancy_pct a < discrepancy
                  then (ok (), a\<lparr>circuit_breaker_tripped := True, is_halted := True\<rparr>)
                  else if fl (1/1000000) < delta
                  then (ok (), a\<lparr>local_position := exchange_pos,
                         processed_events := processed_events a @ [''DELTA_SYNC'']\<rparr>)
                  else (ok (), a))))"

definition SAFETY_EVENTS :: "string list" where
  "SAFETY_EVENTS = [''STALE_QUOTE_DETECTED'', ''EMERGENCY_CANCEL'', ''KILL_SWITCH'', ''TOXIC_FLOW'']"

definition process_single_event :: "oms_event \<Rightarrow> (actor, unit) act" where
  "process_single_event e a =
    (if ev_type e \<in> set SAFETY_EVENTS then
       (case pl_order_id (ev_payload e) of
          Some oid \<Rightarrow> (ok (), if oid = [] then a else snd (request_cancel oid a))
        | None \<Rightarrow> (ok (), a))
     else if ev_type e = ''SNIPER_ENTRY'' then
       (if is_halted a then (ok (), a)
        else (case pl_order_id (ev_payload e) of
          None \<Rightarrow> (Inl (KeyError ''order_id''), a)
        | Some oid \<Rightarrow> (ok (), actor_submit_order oid
            (case pl_side (ev_payload e) of None \<Rightarrow> ''BUY'' | Some sd \<Rightarrow> sd)
            (case pl_price (ev_payload e) of None \<Rightarrow> fl 50000 | Some p \<Rightarrow> p)
            (case pl_qty (ev_payload e) of None \<Rightarrow> 1 | Some q \<Rightarrow> q) a)))
     else (ok (), a))"

text \<open>\<open>try\<close> with its \<open>finally\<close>: the drain runs after a raise too, and its own raise wins.\<close>

definition finish_event :: "oms_event \<Rightarrow> unit res \<Rightarrow> (actor, oms_event option) act" where
  "finish_event e res a1 =
    (let a2 = (case res of Inl _ \<Rightarrow> a1 | Inr _ \<Rightarrow> a1\<lparr>processed_events := processed_events a1 @ [ev_type e]\<rparr>)
     in case drain_safe_boundary (a2\<lparr>is_processing_event := False\<rparr>) of
          (Inl e', a3) \<Rightarrow> (Inl e', a3)
        | (Inr _, a3) \<Rightarrow> (map_sum id (\<lambda>_. Some e) res, a3))"

definition run_event_step :: "(actor, oms_event option) act" where
  "run_event_step a =
    (case heap_pop (event_pq a) of
       None \<Rightarrow> (case drain_safe_boundary a of (r, a') \<Rightarrow> (map_sum id (\<lambda>_. None) r, a'))
     | Some (e, q) \<Rightarrow>
         (case process_single_event e (a\<lparr>event_pq := q, is_processing_event := True\<rparr>) of
            (res, a1) \<Rightarrow> finish_event e res a1))"

lemma drain_queue [simp]: "event_pq (snd (drain_safe_boundary a)) = event_pq a"
  by (simp add: drain_safe_boundary_def mailbox_drain_def Let_def split: option.splits snapshot.splits sum.splits)

lemma process_queue [simp]: "event_pq (snd (process_single_event e a)) = event_pq a"
  by (simp add: process_single_event_def actor_submit_order_def request_cancel_def set_status_def split: option.splits)

lemma finish_state: "snd (finish_event e res a1) = snd (drain_safe_boundary
    ((case res of Inl _ \<Rightarrow> a1 | Inr _ \<Rightarrow> a1\<lparr>processed_events := processed_events a1 @ [ev_type e]\<rparr>)\<lparr>is_processing_event := False\<rparr>))"
  by (simp add: finish_event_def Let_def split: prod.split sum.split)

lemma finish_queue [simp]: "event_pq (snd (finish_event e res a1)) = event_pq a1"
  unfolding finish_state by (cases res) simp_all

lemma step_queue: "event_pq a = e # q \<Longrightarrow> event_pq (snd (run_event_step a)) = q"
  using process_queue [of e "a\<lparr>event_pq := q, is_processing_event := True\<rparr>"]
  by (cases "process_single_event e (a\<lparr>event_pq := q, is_processing_event := True\<rparr>)")
    (simp add: run_event_step_def heap_pop_def)

text \<open>\<open>shutdown\<close>: the number of events flushed; an event that raises ends it.\<close>

function shutdown_from :: "int \<Rightarrow> (actor, int) act" where
  "shutdown_from flushed a =
    (case event_pq a of
       [] \<Rightarrow> (ok flushed, a)
     | e # q \<Rightarrow> (case run_event_step a of
          (Inl err, a') \<Rightarrow> (Inl err, a')
        | (Inr _, a') \<Rightarrow> shutdown_from (flushed + 1) a'))"
  by pat_completeness auto
termination
proof (relation "measure (\<lambda>(n, a). length (event_pq a))")
  fix flushed :: int and a e q res a' r
  assume "event_pq a = e # q" "(res, a') = run_event_step a" "res = Inr r"
  then show "((flushed + 1, a'), flushed, a) \<in> measure (\<lambda>(n, a). length (event_pq a))"
    using step_queue [of a e q] by (metis case_prod_conv in_measure length_Cons lessI snd_conv)
qed simp

declare shutdown_from.simps [simp del]

definition shutdown :: "(actor, int) act" where
  "shutdown = shutdown_from 0"

section \<open>The governor\<close>

record governor =
  max_messages_per_sec :: pyfloat
  throttle_threshold_pct :: pyfloat
  max_portfolio_risk_pct :: pyfloat
  halt_cooldown_sec :: pyfloat
  gv_actors :: "(string, actor) dict"
  actor_states :: "(string, string) dict"
  message_counts :: "(string, int) dict"
  window_start_ts :: pyfloat
  symbol_risk_pct :: "(string, pyfloat) dict"
  is_globally_halted :: bool
  halt_triggered_ts :: "pyfloat option"

definition new_governor :: "pyfloat \<Rightarrow> pyfloat \<Rightarrow> pyfloat \<Rightarrow> pyfloat \<Rightarrow> governor" where
  "new_governor mm tt mr hc = \<lparr>max_messages_per_sec = mm, throttle_threshold_pct = tt,
     max_portfolio_risk_pct = mr, halt_cooldown_sec = hc, gv_actors = [], actor_states = [],
     message_counts = [], window_start_ts = 0, symbol_risk_pct = [], is_globally_halted = False,
     halt_triggered_ts = None\<rparr>"

definition register_actor :: "string \<Rightarrow> actor \<Rightarrow> governor \<Rightarrow> governor" where
  "register_actor sy a g = g\<lparr>gv_actors := dset sy a (gv_actors g), actor_states := dset sy ''ACTIVE'' (actor_states g),
     message_counts := dset sy 0 (message_counts g), symbol_risk_pct := dset sy 0 (symbol_risk_pct g)\<rparr>"

text \<open>\<open>now\<close> is the argument or the clock.\<close>

definition record_message :: "string \<Rightarrow> pyfloat \<Rightarrow> governor \<Rightarrow> governor" where
  "record_message sy now g0 =
    (let g = (if 1 \<le> now - window_start_ts g0
         then g0\<lparr>window_start_ts := now, message_counts := map (\<lambda>(s, a). (s, 0)) (gv_actors g0)\<rparr> else g0)
     in g\<lparr>message_counts := dset sy (dget_or (message_counts g) sy 0 + 1) (message_counts g)\<rparr>)"

definition aggregate_message_rate :: "governor \<Rightarrow> int" where
  "aggregate_message_rate g = sum_list (dvalues (message_counts g))"

text \<open>Python compares an integer with a float exactly.\<close>

definition is_throttled :: "governor \<Rightarrow> bool" where
  "is_throttled g \<longleftrightarrow> max_messages_per_sec g * throttle_threshold_pct g \<le> Fin (of_int (aggregate_message_rate g))"

definition allow_event :: "oms_event_tier \<Rightarrow> governor \<Rightarrow> bool" where
  "allow_event t g =
    (if t = TIER_0_SAFETY then True
     else if is_globally_halted g then False
     else if t = TIER_2_EXECUTION \<and> is_throttled g then False
     else True)"

definition portfolio_risk_exposure_pct :: "governor \<Rightarrow> pyfloat" where
  "portfolio_risk_exposure_pct g = fsum (dvalues (symbol_risk_pct g))"

text \<open>One actor in the halt loop: the snapshot of its orders, each open one cancelled.\<close>

definition halt_order :: "string \<times> actor_order \<Rightarrow> actor \<Rightarrow> actor" where
  "halt_order p a = (if ar_status (snd p) \<in> {StACTIVE, StNEW} then snd (request_cancel (fst p) a) else a)"

definition halt_actor :: "actor \<Rightarrow> actor" where
  "halt_actor a = fold halt_order (ac_orders a) (a\<lparr>is_halted := True\<rparr>)"

definition trigger_global_halt :: "pyfloat \<Rightarrow> governor \<Rightarrow> governor" where
  "trigger_global_halt now g = g\<lparr>is_globally_halted := True, halt_triggered_ts := Some now,
     gv_actors := map (\<lambda>(s, a). (s, halt_actor a)) (gv_actors g),
     actor_states := fold (\<lambda>s d. dset s ''DEFENSIVE'' d) (dkeys (gv_actors g)) (actor_states g)\<rparr>"

definition update_portfolio_risk :: "pyfloat \<Rightarrow> string \<Rightarrow> pyfloat \<Rightarrow> governor \<Rightarrow> bool \<times> governor" where
  "update_portfolio_risk now sy risk g0 =
    (let g = g0\<lparr>symbol_risk_pct := dset sy risk (symbol_risk_pct g0)\<rparr>
     in if max_portfolio_risk_pct g \<le> portfolio_risk_exposure_pct g
        then (True, trigger_global_halt now g) else (False, g))"

definition can_resume :: "pyfloat \<Rightarrow> governor \<Rightarrow> bool res" where
  "can_resume now g =
    (if \<not> is_globally_halted g then ok True
     else case halt_triggered_ts g of
       None \<Rightarrow> raise (TypeError ''float - None'')
     | Some t \<Rightarrow> ok (halt_cooldown_sec g \<le> now - t))"

definition governor_reset :: "pyfloat \<Rightarrow> (governor, bool) act" where
  "governor_reset now g =
    (case can_resume now g of
       Inl e \<Rightarrow> (Inl e, g)
     | Inr b \<Rightarrow>
         if \<not> b then (ok False, g)
         else (ok True, g\<lparr>is_globally_halted := False, halt_triggered_ts := None,
           symbol_risk_pct := map (\<lambda>(s, a). (s, 0)) (gv_actors g),
           gv_actors := map (\<lambda>(s, a). (s, a\<lparr>is_halted := False, circuit_breaker_tripped := False\<rparr>)) (gv_actors g),
           actor_states := fold (\<lambda>s d. dset s ''ACTIVE'' d) (dkeys (gv_actors g)) (actor_states g)\<rparr>))"

section \<open>Lemmas: resequencing\<close>

lemma apply_buffer:
  "apply_exchange_message msg (a\<lparr>seq_buffer := b\<rparr>) = (apply_exchange_message msg a)\<lparr>seq_buffer := b\<rparr>"
  "apply_exchange_message msg (a\<lparr>next_expected_seq_num := n\<rparr>) = (apply_exchange_message msg a)\<lparr>next_expected_seq_num := n\<rparr>"
  by (simp_all add: apply_exchange_message_def apply_fill_message_def set_status_def Let_def split: option.splits)

abbreviation apply_all :: "actor \<Rightarrow> exchange_message list \<Rightarrow> actor" where
  "apply_all a ms \<equiv> foldl (\<lambda>a m. apply_exchange_message m a) a ms"

text \<open>\<open>k\<close> messages of the stream are applied; those in \<open>X\<close> that are not are buffered.\<close>

definition buffered :: "int \<Rightarrow> exchange_message list \<Rightarrow> exchange_message set \<Rightarrow> nat \<Rightarrow> int \<Rightarrow> exchange_message option" where
  "buffered n ms X k q = (if n + int k \<le> q \<and> q < n + int (length ms) \<and> ms ! nat (q - n) \<in> X
     then Some (ms ! nat (q - n)) else None)"

definition resequenced :: "actor \<Rightarrow> int \<Rightarrow> exchange_message list \<Rightarrow> exchange_message set \<Rightarrow> nat \<Rightarrow> actor \<Rightarrow> bool" where
  "resequenced a n ms X k s \<longleftrightarrow> k \<le> length ms \<and> set (take k ms) \<subseteq> X \<and>
     (\<exists>b. s = (apply_all a (take k ms))\<lparr>seq_buffer := b, next_expected_seq_num := n + int k\<rparr> \<and>
       map_of b = buffered n ms X k)"

lemma process_resequenced:
  "resequenced a n ms X k s \<Longrightarrow>
    \<exists>k'. resequenced a n ms X k' (process_contiguous s) \<and> (k' = length ms \<or> ms ! k' \<notin> X)"
proof (induction "length ms - k" arbitrary: k s)
  case (0 k s)
  then have k: "k = length ms" by (simp add: resequenced_def)
  then have "process_contiguous s = s"
    using 0 by (subst process_contiguous.simps) (auto simp: resequenced_def buffered_def)
  then show ?case using 0 k by auto
next
  case (Suc d k s)
  then have k: "k < length ms" by simp
  obtain b where b: "s = (apply_all a (take k ms))\<lparr>seq_buffer := b, next_expected_seq_num := n + int k\<rparr>"
    "map_of b = buffered n ms X k" "set (take k ms) \<subseteq> X"
    using Suc.prems by (auto simp: resequenced_def)
  show ?case
  proof (cases "ms ! k \<in> X")
    case True
    define s' where "s' = (apply_all a (take (Suc k) ms))\<lparr>seq_buffer := ddel (n + int k) b,
      next_expected_seq_num := n + int (Suc k)\<rparr>"
    have "process_contiguous s = process_contiguous s'"
      using True k by (subst process_contiguous.simps)
        (simp add: b(1,2) buffered_def s'_def take_Suc_conv_app_nth apply_buffer Let_def algebra_simps)
    moreover have "resequenced a n ms X (Suc k) s'"
      using k b(2,3) True unfolding resequenced_def s'_def
      by (intro conjI exI [of _ "ddel (n + int k) b"]) (auto simp: take_Suc_conv_app_nth dict_simps buffered_def fun_eq_iff)
    ultimately show ?thesis using Suc.hyps(1) [of "Suc k" s'] Suc.hyps(2) by simp
  next
    case False
    then have "process_contiguous s = s" by (subst process_contiguous.simps) (simp add: b(1,2) buffered_def)
    then show ?thesis using Suc.prems False by auto
  qed
qed

text \<open>The stream carries consecutive sequence numbers.\<close>

definition stream_from :: "int \<Rightarrow> exchange_message list \<Rightarrow> bool" where
  "stream_from n ms \<longleftrightarrow> (\<forall>i < length ms. seq_num (ms ! i) = n + int i)"

lemma arrival_resequenced:
  assumes "stream_from n ms" "resequenced a n ms X k s" "m \<in> set ms" "m \<notin> X"
  shows "resequenced a n ms (insert m X) k (s\<lparr>seq_buffer := dset (seq_num m) m (seq_buffer s)\<rparr>)"
proof -
  obtain b where b: "s = (apply_all a (take k ms))\<lparr>seq_buffer := b, next_expected_seq_num := n + int k\<rparr>"
    "map_of b = buffered n ms X k" "set (take k ms) \<subseteq> X" "k \<le> length ms"
    using assms(2) by (auto simp: resequenced_def)
  obtain i where i: "i < length ms" "m = ms ! i" using assms(3) by (auto simp: in_set_conv_nth)
  have sm: "seq_num m = n + int i" using assms(1) i by (simp add: stream_from_def)
  have "k \<le> i"
  proof (rule ccontr)
    assume "\<not> k \<le> i"
    then have "m \<in> set (take k ms)" using i b(4) by (auto simp: in_set_conv_nth intro: exI [of _ i])
    then show False using b(3) assms(4) by blast
  qed
  have inj: "q = n + int i" if "n + int k \<le> q" "q < n + int (length ms)" "ms ! nat (q - n) = m" for q
  proof -
    have "seq_num (ms ! nat (q - n)) = n + int (nat (q - n))"
      using assms(1) that by (auto simp: stream_from_def)
    then show ?thesis using that sm by simp
  qed
  have "map_of (dset (seq_num m) m b) q = buffered n ms (insert m X) k q" for q
  proof (cases "q = n + int i")
    case True
    then show ?thesis using i(1) \<open>k \<le> i\<close> by (simp add: dict_simps sm buffered_def i(2) [symmetric])
  next
    case False
    then show ?thesis using inj [of q] by (auto simp: dict_simps sm b(2) buffered_def)
  qed
  then have "map_of (dset (seq_num m) m b) = buffered n ms (insert m X) k" by (rule ext)
  then show ?thesis using b unfolding resequenced_def
    by (intro conjI exI [of _ "dset (seq_num m) m b"]) auto
qed

lemma message_resequenced:
  assumes "stream_from n ms" "resequenced a n ms X k s" "m \<in> set ms" "m \<notin> X"
  obtains k' where "resequenced a n ms (insert m X) k' (on_exchange_message m s)"
    "k' = length ms \<or> ms ! k' \<notin> insert m X"
  using process_resequenced [OF arrival_resequenced [OF assms]] that unfolding on_exchange_message_def by blast

lemma messages_resequenced:
  assumes "stream_from n ms" "distinct xs" "set xs \<subseteq> set ms" "set xs \<inter> X = {}" "resequenced a n ms X k s"
    "k = length ms \<or> ms ! k \<notin> X"
  shows "\<exists>k'. resequenced a n ms (X \<union> set xs) k' (foldl (\<lambda>a m. on_exchange_message m a) s xs) \<and>
    (k' = length ms \<or> ms ! k' \<notin> X \<union> set xs)"
  using assms(2-6)
proof (induction xs arbitrary: X k s)
  case (Cons m xs)
  obtain k' where "resequenced a n ms (insert m X) k' (on_exchange_message m s)"
    "k' = length ms \<or> ms ! k' \<notin> insert m X"
    using message_resequenced [OF assms(1) Cons.prems(4), of m] Cons.prems by auto
  then show ?case using Cons.IH [of "insert m X" k' "on_exchange_message m s"] Cons.prems by auto
qed auto

section \<open>Lemmas: the event loop\<close>

text \<open>The reference base of the drain is at least one, or NaN: the division never raises.\<close>

lemma reference_base_ok: "\<not> feq (pymax y 1) 0"
  by (cases y) (auto simp: pymax_def feq_def one_Fin zero_Fin)

lemma drain_outcome:
  obtains a' x where "drain_safe_boundary a = (ok (), a')" "mailbox a' = None"
    "processed_events a' = processed_events a @ x" "x = [] \<or> x = [''DELTA_SYNC''] \<and> mailbox a \<noteq> None"
proof (cases "mailbox a")
  case None
  then show ?thesis using that [of a "[]"] by (simp add: drain_safe_boundary_def mailbox_drain_def)
next
  case (Some snap)
  obtain pos where pos: "snap = Snapshot pos" by (cases snap)
  define e where "e = (case pos of None \<Rightarrow> local_position a | Some p \<Rightarrow> p)"
  define d where "d = \<bar>e - local_position a\<bar>"
  obtain r where r: "fdiv d (pymax (pymax \<bar>e\<bar> \<bar>local_position a\<bar>) 1) = ok r"
    using fdiv_ok [OF reference_base_ok] by blast
  let ?a = "a\<lparr>mailbox := None\<rparr>"
  have dr: "drain_safe_boundary a =
      (if max_discrepancy_pct a < r then (ok (), ?a\<lparr>circuit_breaker_tripped := True, is_halted := True\<rparr>)
       else if fl (1/1000000) < d then (ok (), ?a\<lparr>local_position := e,
         processed_events := processed_events a @ [''DELTA_SYNC'']\<rparr>)
       else (ok (), ?a))"
    using r by (cases pos) (simp_all add: drain_safe_boundary_def mailbox_drain_def Some pos e_def d_def Let_def)
  consider "max_discrepancy_pct a < r" | "\<not> max_discrepancy_pct a < r" "fl (1/1000000) < d"
    | "\<not> max_discrepancy_pct a < r" "\<not> fl (1/1000000) < d" by blast
  then show ?thesis
  proof cases
    case 1
    then show ?thesis using dr
      by (intro that [of "?a\<lparr>circuit_breaker_tripped := True, is_halted := True\<rparr>" "[]"]) simp_all
  next
    case 2
    then show ?thesis using dr Some
      by (intro that [of "?a\<lparr>local_position := e, processed_events := processed_events a @ [''DELTA_SYNC'']\<rparr>"
            "[''DELTA_SYNC'']"]) simp_all
  next
    case 3
    then show ?thesis using dr by (intro that [of ?a "[]"]) simp_all
  qed
qed

definition event_ok :: "oms_event \<Rightarrow> bool" where
  "event_ok e \<longleftrightarrow> ev_type e \<noteq> ''SNIPER_ENTRY'' \<or> pl_order_id (ev_payload e) \<noteq> None"

lemma process_ok:
  assumes "event_ok e"
  obtains a' where "process_single_event e a = (ok (), a')" "event_pq a' = event_pq a"
    "mailbox a' = mailbox a" "processed_events a' = processed_events a"
proof -
  have "fst (process_single_event e a) = ok () \<and> mailbox (snd (process_single_event e a)) = mailbox a \<and>
      processed_events (snd (process_single_event e a)) = processed_events a"
    using assms by (auto simp: process_single_event_def event_ok_def request_cancel_def set_status_def
        actor_submit_order_def split: option.splits)
  then show ?thesis using that [of "snd (process_single_event e a)"] by (metis prod.collapse process_queue)
qed

lemma step_ok:
  assumes "event_pq a = e # q" "event_ok e"
  obtains a' x where "run_event_step a = (ok (Some e), a')" "event_pq a' = q" "mailbox a' = None"
    "processed_events a' = processed_events a @ ev_type e # x" "x = [] \<or> x = [''DELTA_SYNC''] \<and> mailbox a \<noteq> None"
proof -
  let ?a = "a\<lparr>event_pq := q, is_processing_event := True\<rparr>"
  obtain a1 where a1: "process_single_event e ?a = (ok (), a1)" "event_pq a1 = q" "mailbox a1 = mailbox a"
    "processed_events a1 = processed_events a"
    by (rule process_ok [OF assms(2), of ?a]) simp
  define a2 where "a2 = a1\<lparr>processed_events := processed_events a1 @ [ev_type e], is_processing_event := False\<rparr>"
  obtain a3 x where a3: "drain_safe_boundary a2 = (ok (), a3)" "mailbox a3 = None"
    "processed_events a3 = processed_events a2 @ x" "x = [] \<or> x = [''DELTA_SYNC''] \<and> mailbox a2 \<noteq> None"
    by (rule drain_outcome [of a2])
  have "event_pq a2 = q" by (simp add: a2_def a1(2))
  then have "event_pq a3 = q" using drain_queue [of a2] unfolding a3(1) by simp
  moreover have "run_event_step a = (ok (Some e), a3)"
    using assms(1) a1(1) a3(1) by (simp add: run_event_step_def heap_pop_def finish_event_def a2_def)
  ultimately show ?thesis using a3 a1 by (intro that [of a3 x]) (auto simp: a2_def)
qed

lemma shutdown_without_mail:
  "mailbox a = None \<Longrightarrow> \<forall>e \<in> set (event_pq a). event_ok e \<Longrightarrow>
    \<exists>a'. shutdown_from n a = (ok (n + int (length (event_pq a))), a') \<and> event_pq a' = [] \<and>
      processed_events a' = processed_events a @ map ev_type (event_pq a)"
proof (induction "event_pq a" arbitrary: a n)
  case Nil
  then have "shutdown_from n a = (ok n, a)" by (subst shutdown_from.simps) simp
  then show ?case using Nil.hyps [symmetric] by simp
next
  case (Cons e q)
  note q = Cons.hyps(2) [symmetric]
  obtain a' where st: "run_event_step a = (ok (Some e), a')" "event_pq a' = q" "mailbox a' = None"
    "processed_events a' = processed_events a @ [ev_type e]"
    using step_ok [OF q] Cons.prems by (metis q list.set_intros(1))
  obtain a'' where "shutdown_from (n + 1) a' = (ok (n + 1 + int (length q)), a'')" "event_pq a'' = []"
    "processed_events a'' = processed_events a' @ map ev_type q"
    using Cons.hyps(1) [of a' "n + 1"] st Cons.prems(2) q by auto
  moreover have "shutdown_from n a = shutdown_from (n + 1) a'"
    by (subst shutdown_from.simps) (simp add: q st(1))
  ultimately show ?case using st(4) q by simp
qed

lemma shutdown_processes:
  assumes "\<forall>e \<in> set (event_pq a). event_ok e"
  shows "\<exists>a' x. shutdown a = (ok (int (length (event_pq a))), a') \<and> event_pq a' = [] \<and> x \<in> {[], [''DELTA_SYNC'']} \<and>
      processed_events a' = processed_events a @ map ev_type (take 1 (event_pq a)) @ x @ map ev_type (drop 1 (event_pq a))"
proof (cases "event_pq a")
  case Nil
  then have "shutdown a = (ok 0, a)" unfolding shutdown_def by (subst shutdown_from.simps) simp
  then show ?thesis using Nil by auto
next
  case (Cons e q)
  obtain a' x where st: "run_event_step a = (ok (Some e), a')" "event_pq a' = q" "mailbox a' = None"
    "processed_events a' = processed_events a @ ev_type e # x" "x = [] \<or> x = [''DELTA_SYNC''] \<and> mailbox a \<noteq> None"
    using step_ok [OF Cons] assms Cons by (metis list.set_intros(1))
  obtain a'' where "shutdown_from 1 a' = (ok (1 + int (length q)), a'')" "event_pq a'' = []"
    "processed_events a'' = processed_events a' @ map ev_type q"
    using shutdown_without_mail [of a' 1] st(2,3) assms Cons by auto
  moreover have "shutdown a = shutdown_from 1 a'"
    unfolding shutdown_def by (subst shutdown_from.simps) (simp add: Cons st(1))
  ultimately show ?thesis using st(4,5) Cons by (intro exI [of _ a''] exI [of _ x]) auto
qed

type_synonym event_request = "oms_event_tier \<times> string \<times> event_payload \<times> pyfloat"

fun enqueue_all :: "event_request list \<Rightarrow> actor \<Rightarrow> actor" where
  "enqueue_all [] a = a"
| "enqueue_all ((t, ty, p, now) # rs) a = enqueue_all rs (snd (enqueue_event t ty p now a))"

definition event_content :: "oms_event \<Rightarrow> int \<times> string \<times> event_payload" where
  "event_content e = (ev_priority e, ev_type e, ev_payload e)"

definition request_content :: "event_request \<Rightarrow> int \<times> string \<times> event_payload" where
  "request_content r = (case r of (t, ty, p, now) \<Rightarrow> (tier_priority t, ty, p))"

lemma fst_event_content: "fst (event_content e) = ev_priority e"
  by (simp add: event_content_def)

lemma map_insort_key: "map g (insort_key (\<lambda>a. f (g a)) x xs) = insort_key f (g x) (map g xs)"
  by (induction xs) simp_all

lemma map_sort_key: "map g (sort_key (\<lambda>a. f (g a)) xs) = sort_key f (map g xs)"
  by (induction xs) (simp_all add: map_insort_key)

lemma enqueue_all_snoc:
  "enqueue_all (rs @ [(t, ty, p, now)]) a = snd (enqueue_event t ty p now (enqueue_all rs a))"
  by (induction rs arbitrary: a) auto

text \<open>An event pushed with the largest sequence number so far goes behind all of its tier.\<close>

lemma heap_push_tier:
  "sorted (map event_key q) \<Longrightarrow> \<forall>y \<in> set q. ev_sequence y < ev_sequence e \<Longrightarrow>
    filter (\<lambda>y. ev_priority y = v) (heap_push e q) =
      filter (\<lambda>y. ev_priority y = v) q @ (if ev_priority e = v then [e] else [])"
proof (induction q)
  case (Cons y q)
  show ?case
  proof (cases "event_key e \<le> event_key y")
    case True
    have "ev_priority e < ev_priority z" if z: "z \<in> set (y # q)" for z
    proof -
      have "event_key e \<le> event_key z"
        using z True Cons.prems(1) by (auto intro: order_trans)
      then show ?thesis using z Cons.prems(2) by (auto simp: event_key_def less_eq_prod_def)
    qed
    then have "filter (\<lambda>y. ev_priority y = ev_priority e) (y # q) = []"
      unfolding filter_empty_conv by (metis less_irrefl)
    then show ?thesis using True by (auto simp: heap_push_def)
  qed (use Cons in \<open>auto simp: heap_push_def\<close>)
qed (simp add: heap_push_def)

text \<open>The queue after any enqueues is the stable sort of the requests by tier.\<close>

lemma enqueue_all_queue:
  assumes start: "event_pq a = []"
  shows "sorted (map event_key (event_pq (enqueue_all rs a))) \<and>
    (\<forall>y \<in> set (event_pq (enqueue_all rs a)). ev_sequence y < ac_counter (enqueue_all rs a)) \<and>
    image_mset event_content (mset (event_pq (enqueue_all rs a))) = image_mset request_content (mset rs) \<and>
    (\<forall>v. filter (\<lambda>c. fst c = v) (map event_content (event_pq (enqueue_all rs a))) =
      filter (\<lambda>c. fst c = v) (map request_content rs)) \<and>
    processed_events (enqueue_all rs a) = processed_events a"
proof (induction rs rule: rev_induct)
  case (snoc r rs)
  obtain t ty p now where r: "r = (t, ty, p, now)" by (metis prod_cases4)
  let ?b = "enqueue_all rs a"
  let ?e = "\<lparr>ev_priority = tier_priority t, ev_sequence = ac_counter ?b, ev_type = ty, ev_payload = p,
    ev_timestamp_ms = now\<rparr>"
  have q: "event_pq (enqueue_all (rs @ [r]) a) = heap_push ?e (event_pq ?b)"
    "ac_counter (enqueue_all (rs @ [r]) a) = ac_counter ?b + 1"
    "processed_events (enqueue_all (rs @ [r]) a) = processed_events ?b"
    by (simp_all add: r enqueue_all_snoc enqueue_event_def Let_def)
  have c: "event_content ?e = request_content r" by (simp add: r event_content_def request_content_def)
  have "filter (\<lambda>c. fst c = v) (map event_content (heap_push ?e (event_pq ?b))) =
      filter (\<lambda>c. fst c = v) (map event_content (event_pq ?b) @ [event_content ?e])" for v
    using snoc heap_push_tier [of "event_pq ?b" ?e v] by (simp add: filter_map comp_def fst_event_content)
  then have "filter (\<lambda>c. fst c = v) (map event_content (heap_push ?e (event_pq ?b))) =
      filter (\<lambda>c. fst c = v) (map request_content (rs @ [r]))" for v
    using snoc by (simp add: c)
  moreover have "\<forall>y \<in> set (heap_push ?e (event_pq ?b)). ev_sequence y < ac_counter ?b + 1"
    using snoc by (auto simp: heap_push_def set_insort_key)
  ultimately show ?case
    using snoc evq.push_inv [of "event_pq ?b" ?e]
    by (simp add: q evq.push_items c)
qed (simp add: start)

lemma queue_is_stable_sort:
  assumes "event_pq a = []"
  shows "map event_content (event_pq (enqueue_all rs a)) = sort_key fst (map request_content rs)"
proof (rule properties_for_sort_key [symmetric])
  let ?q = "event_pq (enqueue_all rs a)"
  have "image_mset event_content (mset ?q) = image_mset request_content (mset rs)"
    using enqueue_all_queue [OF assms] by blast
  then show "mset (map event_content ?q) = mset (map request_content rs)" by simp
  show "filter (\<lambda>c. fst k = fst c) (map event_content ?q) = filter (\<lambda>c. fst k = fst c) (map request_content rs)"
    for k
    using enqueue_all_queue [OF assms, of rs] by (simp only: eq_commute [of "fst k"])
  have "sorted (map event_key ?q)" using enqueue_all_queue [OF assms] by blast
  then have "sorted_wrt (\<lambda>x y. ev_priority x \<le> ev_priority y) ?q"
    unfolding sorted_map by (rule sorted_wrt_mono_rel [rotated]) (auto simp: event_key_def less_eq_prod_def)
  then show "sorted (map fst (map event_content ?q))"
    by (simp add: sorted_map event_content_def comp_def)
qed

lemma pops_list [simp]: "evq.pops (length q) q = q"
  by (induction q) simp_all

lemma tier_priority_inj: "tier_priority t = tier_priority u \<longleftrightarrow> t = u"
  by (cases t; cases u) simp_all

lemma sort_by_tier:
  "sort_key (\<lambda>r. tier_priority (fst r)) rs =
    filter (\<lambda>r. fst r = TIER_0_SAFETY) rs @ filter (\<lambda>r. fst r = TIER_1_STATE) rs @
    filter (\<lambda>r. fst r = TIER_2_EXECUTION) rs"
proof (rule properties_for_sort_key)
  show "mset (filter (\<lambda>r. fst r = TIER_0_SAFETY) rs @ filter (\<lambda>r. fst r = TIER_1_STATE) rs @
      filter (\<lambda>r. fst r = TIER_2_EXECUTION) rs) = mset rs"
  proof (induction rs)
    case (Cons r rs)
    then show ?case by (cases "fst r") auto
  qed simp
  show "filter (\<lambda>r. tier_priority (fst k) = tier_priority (fst r)) (filter (\<lambda>r. fst r = TIER_0_SAFETY) rs @
      filter (\<lambda>r. fst r = TIER_1_STATE) rs @ filter (\<lambda>r. fst r = TIER_2_EXECUTION) rs) =
      filter (\<lambda>r. tier_priority (fst k) = tier_priority (fst r)) rs" for k
    unfolding tier_priority_inj by (cases "fst k") (auto intro: filter_cong simp: filter_empty_conv)
  have "sorted (map (\<lambda>r. tier_priority (fst r)) (filter (\<lambda>r. fst r = v) rs))" for v
    by (induction rs) auto
  then show "sorted (map (\<lambda>r. tier_priority (fst r)) (filter (\<lambda>r. fst r = TIER_0_SAFETY) rs @
      filter (\<lambda>r. fst r = TIER_1_STATE) rs @ filter (\<lambda>r. fst r = TIER_2_EXECUTION) rs))"
    by (auto simp: sorted_append)
qed

section \<open>Lemmas: the global halt\<close>

lemma request_cancel_lookup: "dget (ac_orders (snd (request_cancel oid a))) q = map_option (\<lambda>x.
    if q = oid \<and> ar_status x \<in> {StACTIVE, StNEW} then x\<lparr>ar_status := StPENDING_CANCEL\<rparr> else x) (dget (ac_orders a) q)"
  by (auto simp: request_cancel_def set_status_def dict_simps map_option_case split: option.splits)

lemma request_cancel_frame: "is_halted (snd (request_cancel oid a)) = is_halted a"
  "local_position (snd (request_cancel oid a)) = local_position a"
  by (simp_all add: request_cancel_def set_status_def split: option.splits)

definition working :: "actor_order \<Rightarrow> bool" where
  "working x \<longleftrightarrow> ar_status x \<in> {StACTIVE, StNEW}"

lemma halt_fold_lookup: "dget (ac_orders (fold halt_order l a)) q = map_option (\<lambda>x.
    if (\<exists>p \<in> set l. fst p = q \<and> working (snd p)) \<and> working x then x\<lparr>ar_status := StPENDING_CANCEL\<rparr> else x)
    (dget (ac_orders a) q)"
proof (induction l arbitrary: a)
  case (Cons p l)
  have h: "dget (ac_orders (halt_order p a)) q = map_option (\<lambda>x.
      if q = fst p \<and> working (snd p) \<and> working x then x\<lparr>ar_status := StPENDING_CANCEL\<rparr> else x) (dget (ac_orders a) q)"
    by (simp add: halt_order_def request_cancel_lookup working_def option.map_id0 flip: id_def)
  show ?case unfolding fold_simps(2) Cons.IH h option.map_comp
    by (rule option.map_cong0) (auto simp: working_def)
qed (simp add: option.map_id0 flip: id_def)

lemma halt_fold_frame: "is_halted (fold halt_order l a) = is_halted a"
  "local_position (fold halt_order l a) = local_position a"
  by (induction l arbitrary: a) (simp_all add: halt_order_def request_cancel_frame)

text \<open>Halting an actor: exactly the working orders are pending cancel.\<close>

lemma halt_actor_lookup: "dget (ac_orders (halt_actor a)) q = map_option (\<lambda>x.
    if working x then x\<lparr>ar_status := StPENDING_CANCEL\<rparr> else x) (dget (ac_orders a) q)"
proof (cases "dget (ac_orders a) q")
  case (Some x)
  then have "(q, x) \<in> set (ac_orders a)" by (rule map_of_SomeD)
  then show ?thesis using Some by (auto simp: halt_actor_def halt_fold_lookup)
qed (simp add: halt_actor_def halt_fold_lookup)

lemma halt_actor_orders: "dget (ac_orders (halt_actor a)) = (\<lambda>q. map_option (\<lambda>x.
    if working x then x\<lparr>ar_status := StPENDING_CANCEL\<rparr> else x) (dget (ac_orders a) q))"
  by (rule ext) (rule halt_actor_lookup)

lemma halt_actor_frame: "is_halted (halt_actor a)" "local_position (halt_actor a) = local_position a"
  by (simp_all add: halt_actor_def halt_fold_frame)

section \<open>Properties\<close>

text \<open>C14: exchange messages take effect in sequence order whatever the order they arrive in: if the
  arrivals are some permutation of a stream with consecutive sequence numbers from the next
  expected one, the actor ends with exactly the state of applying the stream in order, with an
  empty buffer and the next number after the stream.\<close>

theorem arrival_order_is_irrelevant:
  assumes "stream_from (next_expected_seq_num a) ms" "seq_buffer a = []" "distinct ms" "mset arrivals = mset ms"
  shows "foldl (\<lambda>a m. on_exchange_message m a) a arrivals =
    (foldl (\<lambda>a m. apply_exchange_message m a) a ms)
      \<lparr>seq_buffer := [], next_expected_seq_num := next_expected_seq_num a + int (length ms)\<rparr>"
proof -
  let ?n = "next_expected_seq_num a"
  have "a = a\<lparr>seq_buffer := [], next_expected_seq_num := ?n\<rparr>" using assms(2) by simp
  then have "resequenced a ?n ms {} 0 a"
    unfolding resequenced_def by (intro conjI exI [of _ "[]"]) (auto simp: buffered_def fun_eq_iff)
  moreover have arr: "distinct arrivals" "set arrivals = set ms"
    using assms(3,4) by (metis mset_eq_imp_distinct_iff, metis mset_eq_setD)
  ultimately obtain k where k: "resequenced a ?n ms (set ms) k (foldl (\<lambda>a m. on_exchange_message m a) a arrivals)"
    "k = length ms \<or> ms ! k \<notin> set ms"
    using messages_resequenced [OF assms(1) arr(1), of "{}" a 0 a] arr(2) by (auto simp: assms(1))
  then have "k = length ms" by (auto simp: resequenced_def nth_mem order_le_less)
  then obtain b where b: "foldl (\<lambda>a m. on_exchange_message m a) a arrivals =
      (apply_all a ms)\<lparr>seq_buffer := b, next_expected_seq_num := ?n + int (length ms)\<rparr>"
    "map_of b = buffered ?n ms (set ms) (length ms)"
    using k(1) by (auto simp: resequenced_def)
  have "map_of b = Map.empty" by (simp add: b(2) buffered_def fun_eq_iff)
  then have "b = []" by (simp add: map_of_eq_empty_iff)
  then show ?thesis using b(1) by simp
qed

text \<open>C15: shutdown serves every event in its turn: after any enqueues into an empty queue, whose entry
  requests name their order, it terminates, the queue is empty, the count it returns is the number
  of requests, and the events it records as processed are the safety events in the order they
  came, then the state events in theirs, then the execution events in theirs, with at most one
  position sync, after the first.\<close>

theorem shutdown_serves_every_event:
  assumes "event_pq a0 = []" "\<forall>(t, ty, p, now) \<in> set rs. ty = ''SNIPER_ENTRY'' \<longrightarrow> pl_order_id p \<noteq> None"
    and "service = filter (\<lambda>r. fst r = TIER_0_SAFETY) rs @ filter (\<lambda>r. fst r = TIER_1_STATE) rs @
      filter (\<lambda>r. fst r = TIER_2_EXECUTION) rs"
  shows "\<exists>a' x. shutdown (enqueue_all rs a0) = (ok (int (length rs)), a') \<and> event_pq a' = [] \<and>
    x \<in> {[], [''DELTA_SYNC'']} \<and>
    processed_events a' = processed_events a0 @ map (\<lambda>r. fst (snd r)) (take 1 service) @ x @
      map (\<lambda>r. fst (snd r)) (drop 1 service)"
proof -
  define a where "a = enqueue_all rs a0"
  have srv: "map event_content (event_pq a) = map request_content service"
    unfolding a_def queue_is_stable_sort [OF assms(1)] assms(3) sort_by_tier [symmetric]
      map_sort_key [symmetric] by (simp add: request_content_def case_prod_beta)
  have "\<forall>e \<in> set (event_pq a). event_ok e"
  proof
    fix e assume "e \<in> set (event_pq a)"
    then have "event_content e \<in> set (map request_content service)" by (simp flip: srv)
    then obtain r where "r \<in> set rs" "event_content e = request_content r" by (auto simp: assms(3))
    then show "event_ok e" using assms(2)
      by (auto simp: event_ok_def event_content_def request_content_def split: prod.splits)
  qed
  then obtain a' x where "shutdown a = (ok (int (length (event_pq a))), a')" "event_pq a' = []"
    "x \<in> {[], [''DELTA_SYNC'']}"
    "processed_events a' = processed_events a @ map ev_type (take 1 (event_pq a)) @ x @
      map ev_type (drop 1 (event_pq a))"
    using shutdown_processes [of a] by blast
  moreover have "map ev_type (event_pq a) = map (\<lambda>r. fst (snd r)) service"
    using arg_cong [OF srv, of "map (fst \<circ> snd)"]
    by (simp add: comp_def event_content_def request_content_def case_prod_beta)
  moreover have "length (event_pq a) = length rs"
    using arg_cong [OF srv, of length] unfolding assms(3) sort_by_tier [symmetric] by simp
  moreover have "processed_events a = processed_events a0"
    using enqueue_all_queue [OF assms(1)] by (simp add: a_def)
  ultimately show ?thesis unfolding a_def [symmetric] take_map [symmetric] drop_map [symmetric] by auto
qed

text \<open>a global halt closes entries everywhere: every registered actor is halted with its position
  untouched, exactly its working orders (not the partially filled ones) are pending cancel, only
  safety events may dispatch, and a reset is refused exactly until the cooldown is over.\<close>

theorem global_halt_closes_entries:
  "map_option (\<lambda>a'. (is_halted a', local_position a', \<lambda>oid. dget (ac_orders a') oid))
      (dget (gv_actors (trigger_global_halt now g)) sy) =
    map_option (\<lambda>a. (True, local_position a, \<lambda>oid. map_option (\<lambda>x. if ar_status x \<in> {StACTIVE, StNEW}
        then x\<lparr>ar_status := StPENDING_CANCEL\<rparr> else x) (dget (ac_orders a) oid))) (dget (gv_actors g) sy) \<and>
   allow_event t (trigger_global_halt now g) = (t = TIER_0_SAFETY) \<and>
   fst (governor_reset later (trigger_global_halt now g)) = ok (halt_cooldown_sec g \<le> later - now) \<and>
   is_globally_halted (snd (governor_reset later (trigger_global_halt now g))) = (\<not> halt_cooldown_sec g \<le> later - now)"
proof (intro conjI)
  have "dget (gv_actors (trigger_global_halt now g)) sy = map_option halt_actor (dget (gv_actors g) sy)"
    by (simp add: trigger_global_halt_def map_of_map_snd)
  then show "map_option (\<lambda>a'. (is_halted a', local_position a', \<lambda>oid. dget (ac_orders a') oid))
      (dget (gv_actors (trigger_global_halt now g)) sy) =
    map_option (\<lambda>a. (True, local_position a, \<lambda>oid. map_option (\<lambda>x. if ar_status x \<in> {StACTIVE, StNEW}
        then x\<lparr>ar_status := StPENDING_CANCEL\<rparr> else x) (dget (ac_orders a) oid))) (dget (gv_actors g) sy)"
    by (simp add: option.map_comp comp_def halt_actor_frame halt_actor_orders working_def)
qed (simp_all add: allow_event_def trigger_global_halt_def governor_reset_def can_resume_def)

section \<open>Instances\<close>

definition sample_actor :: actor where
  "sample_actor = actor_submit_order ''o1'' ''BUY'' (Fin 100) (Fin 2) (new_actor ''BTC/USDT'' (Fin (1/8)))"

definition fill_msg :: exchange_message where
  "fill_msg = \<lparr>seq_num = 1, xm_order_id = ''o1'', msg_type = ''FILL'', xm_qty = Fin 2, xm_price = Fin 100\<rparr>"

definition cancel_msg :: exchange_message where
  "cancel_msg = \<lparr>seq_num = 2, xm_order_id = ''o1'', msg_type = ''CANCEL_CONFIRMED'', xm_qty = 0, xm_price = 0\<rparr>"

text \<open>A cancel confirmation that overtakes the fill it lost against.\<close>

theorem arrival_order_is_irrelevant_witness:
  "foldl (\<lambda>a m. on_exchange_message m a) sample_actor [cancel_msg, fill_msg] =
    (apply_exchange_message cancel_msg (apply_exchange_message fill_msg sample_actor))
      \<lparr>seq_buffer := [], next_expected_seq_num := 3\<rparr>"
proof -
  have n: "next_expected_seq_num sample_actor = 1" "seq_buffer sample_actor = []"
    by (simp_all add: sample_actor_def new_actor_def actor_submit_order_def)
  have s: "stream_from 1 [fill_msg, cancel_msg]"
    by (auto simp: stream_from_def fill_msg_def cancel_msg_def less_Suc_eq)
  have d: "distinct [fill_msg, cancel_msg]" by (simp add: fill_msg_def cancel_msg_def)
  show ?thesis
    using arrival_order_is_irrelevant [of sample_actor "[fill_msg, cancel_msg]" "[cancel_msg, fill_msg]"] n s d
    by (simp add: add_mset_commute)
qed

text \<open>Two quotes and a safety event that arrives last and is served first.\<close>

theorem shutdown_serves_every_event_witness:
  "\<exists>a' x. shutdown (enqueue_all
      [(TIER_2_EXECUTION, ''QUOTE_A'', \<lparr>pl_order_id = None, pl_side = None, pl_price = None, pl_qty = None\<rparr>, 0),
       (TIER_2_EXECUTION, ''QUOTE_B'', \<lparr>pl_order_id = None, pl_side = None, pl_price = None, pl_qty = None\<rparr>, 0),
       (TIER_0_SAFETY, ''KILL_SWITCH'', \<lparr>pl_order_id = Some ''o1'', pl_side = None, pl_price = None, pl_qty = None\<rparr>, 0)]
      sample_actor) = (ok 3, a') \<and> event_pq a' = [] \<and>
    processed_events a' = [''KILL_SWITCH''] @ x @ [''QUOTE_A'', ''QUOTE_B''] \<and> x \<in> {[], [''DELTA_SYNC'']}"
proof -
  define rs :: "event_request list" where "rs =
    [(TIER_2_EXECUTION, ''QUOTE_A'', \<lparr>pl_order_id = None, pl_side = None, pl_price = None, pl_qty = None\<rparr>, 0),
     (TIER_2_EXECUTION, ''QUOTE_B'', \<lparr>pl_order_id = None, pl_side = None, pl_price = None, pl_qty = None\<rparr>, 0),
     (TIER_0_SAFETY, ''KILL_SWITCH'', \<lparr>pl_order_id = Some ''o1'', pl_side = None, pl_price = None, pl_qty = None\<rparr>, 0)]"
  have s: "event_pq sample_actor = []" "processed_events sample_actor = []"
    by (simp_all add: sample_actor_def new_actor_def actor_submit_order_def)
  obtain a' x where "shutdown (enqueue_all rs sample_actor) = (ok (int (length rs)), a')" "event_pq a' = []"
    "x \<in> {[], [''DELTA_SYNC'']}"
    "processed_events a' = [''KILL_SWITCH''] @ x @ [''QUOTE_A'', ''QUOTE_B'']"
    using shutdown_serves_every_event [OF s(1) _ refl, of rs] by (auto simp: s(2) rs_def)
  then show ?thesis unfolding rs_def by auto
qed

end
