(* ===== verification/HaLock.thy ===== *)
theory HaLock
  imports PyFloat
begin

text \<open>
  \<open>infrastructure/ha_lock.py\<close>: the active-passive lock.  The manager works over the interface of
  \<open>LockBackend\<close> (locale \<open>lock_backend\<close>), provided by the in-process backend and by the Redis
  backend.  The Redis client is a parameter: \<open>redis_api\<close> are the five commands the code issues and
  \<open>redis_commands\<close> their documented effect on the stored values; a command that raises may or may
  not have taken effect.  \<open>dict_redis\<close> is a client with these laws.
\<close>

section \<open>The backend interface\<close>

record 'b backend_ops =
  bk_acquire :: "pyfloat \<Rightarrow> ('b, bool) act"
  bk_heartbeat :: "pyfloat \<Rightarrow> ('b, bool) act"
  bk_release :: "('b, unit) act"
  bk_next_fencing_token :: "('b, int option) act"

locale lock_backend =
  fixes ops :: "'b backend_ops" and held :: "'b \<Rightarrow> bool"
  assumes acquire_true: "bk_acquire ops now b = (ok True, b') \<Longrightarrow> held b'"
    and heartbeat_true: "bk_heartbeat ops now b = (ok True, b') \<Longrightarrow> held b \<and> held b'"
    and acquire_error: "bk_acquire ops now b = (Inl e, b') \<Longrightarrow> held b \<Longrightarrow> held b'"
    and heartbeat_error: "bk_heartbeat ops now b = (Inl e, b') \<Longrightarrow> held b \<Longrightarrow> held b'"
    and release_error: "bk_release ops b = (Inl e, b') \<Longrightarrow> held b \<Longrightarrow> held b'"
    and fence_keeps: "bk_next_fencing_token ops b = (r, b') \<Longrightarrow> held b \<Longrightarrow> held b'"

section \<open>The manager\<close>

record 'b manager =
  mg_backend :: 'b
  mg_is_active :: bool

definition new_manager :: "'b \<Rightarrow> 'b manager" where
  "new_manager b = \<lparr>mg_backend = b, mg_is_active = False\<rparr>"

definition acquire_lock :: "'b backend_ops \<Rightarrow> pyfloat \<Rightarrow> ('b manager, bool) act" where
  "acquire_lock ops now m =
    (case bk_acquire ops now (mg_backend m) of
       (Inl e, b) \<Rightarrow> (Inl e, m\<lparr>mg_backend := b\<rparr>)
     | (Inr r, b) \<Rightarrow> (ok r, m\<lparr>mg_backend := b, mg_is_active := r\<rparr>))"

definition send_heartbeat :: "'b backend_ops \<Rightarrow> pyfloat \<Rightarrow> ('b manager, bool) act" where
  "send_heartbeat ops now m =
    (case bk_heartbeat ops now (mg_backend m) of
       (Inl e, b) \<Rightarrow> (Inl e, m\<lparr>mg_backend := b\<rparr>)
     | (Inr r, b) \<Rightarrow> (ok r, if r then m\<lparr>mg_backend := b\<rparr> else m\<lparr>mg_backend := b, mg_is_active := False\<rparr>))"

definition release_lock :: "'b backend_ops \<Rightarrow> ('b manager, unit) act" where
  "release_lock ops m =
    (case bk_release ops (mg_backend m) of
       (Inl e, b) \<Rightarrow> (Inl e, m\<lparr>mg_backend := b\<rparr>)
     | (Inr _, b) \<Rightarrow> (ok (), m\<lparr>mg_backend := b, mg_is_active := False\<rparr>))"

definition fencing_token :: "'b backend_ops \<Rightarrow> ('b manager, int option) act" where
  "fencing_token ops m = (case bk_next_fencing_token ops (mg_backend m) of (r, b) \<Rightarrow> (r, m\<lparr>mg_backend := b\<rparr>))"

datatype manager_call = AcquireLock pyfloat | SendHeartbeat pyfloat | ReleaseLock | FencingToken

definition call_manager :: "'b backend_ops \<Rightarrow> manager_call \<Rightarrow> 'b manager \<Rightarrow> 'b manager" where
  "call_manager ops call m =
    (case call of
       AcquireLock now \<Rightarrow> snd (acquire_lock ops now m)
     | SendHeartbeat now \<Rightarrow> snd (send_heartbeat ops now m)
     | ReleaseLock \<Rightarrow> snd (release_lock ops m)
     | FencingToken \<Rightarrow> snd (fencing_token ops m))"

definition active_holds :: "('b \<Rightarrow> bool) \<Rightarrow> 'b manager \<Rightarrow> bool" where
  "active_holds held m \<longleftrightarrow> (mg_is_active m \<longrightarrow> held (mg_backend m))"

context lock_backend begin

lemma call_keeps: "active_holds held m \<Longrightarrow> active_holds held (call_manager ops call m)"
  by (cases call)
    (auto simp: active_holds_def call_manager_def acquire_lock_def send_heartbeat_def release_lock_def fencing_token_def
      split: prod.splits sum.splits
      intro: acquire_error heartbeat_error release_error fence_keeps acquire_true dest: heartbeat_true)

end

section \<open>The in-process backend\<close>

record lock_state =
  ls_node_id :: string
  last_heartbeat_ts :: pyfloat
  ls_ttl_sec :: pyfloat

record in_process =
  ip_node_id :: string
  ip_ttl_sec :: pyfloat
  ip_state :: "lock_state option"
  fence_counter :: int
  last_acquire_time :: "pyfloat option"

definition new_in_process :: "string \<Rightarrow> pyfloat \<Rightarrow> in_process" where
  "new_in_process node ttl = \<lparr>ip_node_id = node, ip_ttl_sec = ttl, ip_state = None, fence_counter = 0,
     last_acquire_time = None\<rparr>"

definition ip_held :: "in_process \<Rightarrow> bool" where
  "ip_held b \<longleftrightarrow> (case ip_state b of None \<Rightarrow> False | Some s \<Rightarrow> ls_node_id s = ip_node_id b)"

definition own_lock :: "in_process \<Rightarrow> pyfloat \<Rightarrow> lock_state" where
  "own_lock b now = \<lparr>ls_node_id = ip_node_id b, last_heartbeat_ts = now, ls_ttl_sec = ip_ttl_sec b\<rparr>"

definition ip_acquire :: "pyfloat \<Rightarrow> (in_process, bool) act" where
  "ip_acquire now b =
    (if (case last_acquire_time b of None \<Rightarrow> False | Some t \<Rightarrow> now < t - fl (1/1000)) then (ok False, b)
     else (let b1 = b\<lparr>last_acquire_time := Some now\<rparr> in
       case ip_state b1 of
         None \<Rightarrow> (ok True, b1\<lparr>ip_state := Some (own_lock b1 now)\<rparr>)
       | Some s \<Rightarrow>
           if ls_node_id s = ip_node_id b1 then (ok True, b1\<lparr>ip_state := Some (s\<lparr>last_heartbeat_ts := now\<rparr>)\<rparr>)
           else if ls_ttl_sec s < now - last_heartbeat_ts s then (ok True, b1\<lparr>ip_state := Some (own_lock b1 now)\<rparr>)
           else (ok False, b1)))"

definition ip_heartbeat :: "pyfloat \<Rightarrow> (in_process, bool) act" where
  "ip_heartbeat now b =
    (case ip_state b of
       None \<Rightarrow> (ok False, b)
     | Some s \<Rightarrow> if ls_node_id s = ip_node_id b then (ok True, b\<lparr>ip_state := Some (s\<lparr>last_heartbeat_ts := now\<rparr>)\<rparr>)
                 else (ok False, b))"

definition ip_release :: "(in_process, unit) act" where
  "ip_release b = (ok (), if ip_held b then b\<lparr>ip_state := None\<rparr> else b)"

definition ip_next_fencing_token :: "(in_process, int option) act" where
  "ip_next_fencing_token b = (ok (Some (fence_counter b + 1)), b\<lparr>fence_counter := fence_counter b + 1\<rparr>)"

definition in_process_ops :: "in_process backend_ops" where
  "in_process_ops = \<lparr>bk_acquire = ip_acquire, bk_heartbeat = ip_heartbeat, bk_release = ip_release,
     bk_next_fencing_token = ip_next_fencing_token\<rparr>"

interpretation in_proc: lock_backend in_process_ops ip_held
  by unfold_locales
    (auto simp: in_process_ops_def ip_acquire_def ip_heartbeat_def ip_release_def ip_next_fencing_token_def ip_held_def
      own_lock_def Let_def
      split: option.splits if_splits)

section \<open>The Redis backend\<close>

record 'r redis_api =
  rd_set_nx_px :: "string \<Rightarrow> string \<Rightarrow> int \<Rightarrow> ('r, bool) act"
  rd_get :: "string \<Rightarrow> ('r, string option) act"
  rd_pexpire :: "string \<Rightarrow> int \<Rightarrow> ('r, unit) act"
  rd_eval_release :: "string \<Rightarrow> string \<Rightarrow> ('r, int) act"
  rd_watch_cas :: "string \<Rightarrow> string \<Rightarrow> ('r, int) act"
  rd_incr :: "string \<Rightarrow> ('r, int) act"

record 'r redis_backend =
  rb_server :: 'r
  rb_lock_name :: string
  rb_node_id :: string
  rb_ttl_sec :: pyfloat
  rb_token :: "string option"
  rb_is_active :: bool

definition new_redis_backend :: "'r \<Rightarrow> string \<Rightarrow> string \<Rightarrow> pyfloat \<Rightarrow> 'r redis_backend" where
  "new_redis_backend r lock node ttl = \<lparr>rb_server = r, rb_lock_name = lock, rb_node_id = node, rb_ttl_sec = ttl,
     rb_token = None, rb_is_active = False\<rparr>"

definition rb_held :: "'r redis_backend \<Rightarrow> bool" where
  "rb_held b \<longleftrightarrow> rb_is_active b \<and> rb_token b \<noteq> None"

text \<open>\<open>max(1, int(round(ttl_sec * 1000)))\<close>; rounding an infinity or a NaN raises, before the command is sent.\<close>

definition ttl_ms :: "'r redis_backend \<Rightarrow> int res" where
  "ttl_ms b = (case rb_ttl_sec b * fl 1000 of
     Fin x \<Rightarrow> ok (max 1 (rne x))
   | NaN \<Rightarrow> raise (ValueError ''cannot convert float NaN to integer'')
   | _ \<Rightarrow> raise OverflowError)"

definition with_ttl :: "'r redis_backend \<Rightarrow> (int \<Rightarrow> ('r, 'a) act) \<Rightarrow> ('r, 'a) act" where
  "with_ttl b cmd r = (case ttl_ms b of Inl e \<Rightarrow> (Inl e, r) | Inr ms \<Rightarrow> cmd ms r)"

definition on_server :: "('r, 'a) act \<Rightarrow> 'r redis_backend \<Rightarrow> 'a res \<times> 'r redis_backend" where
  "on_server cmd b = (case cmd (rb_server b) of (r, s) \<Rightarrow> (r, b\<lparr>rb_server := s\<rparr>))"

text \<open>\<open>token\<close> is the \<open>uuid4\<close> drawn by the call; \<open>env\<close> is what happens at the server between the
  read and the expiry command (\<open>id\<close> when nothing does).\<close>

definition refresh_ttl :: "'r redis_api \<Rightarrow> ('r \<Rightarrow> 'r) \<Rightarrow> ('r redis_backend, unit) act" where
  "refresh_ttl api env b = on_server (with_ttl b (rd_pexpire api (rb_lock_name b))) (b\<lparr>rb_server := env (rb_server b)\<rparr>)"

definition rb_acquire :: "'r redis_api \<Rightarrow> ('r \<Rightarrow> 'r) \<Rightarrow> string \<Rightarrow> ('r redis_backend, bool) act" where
  "rb_acquire api env token b =
    (case on_server (with_ttl b (rd_set_nx_px api (rb_lock_name b) token)) b of
       (Inl e, b1) \<Rightarrow> (ok False, b1)
     | (Inr True, b1) \<Rightarrow> (ok True, b1\<lparr>rb_token := Some token, rb_is_active := True\<rparr>)
     | (Inr False, b1) \<Rightarrow>
         (case on_server (rd_get api (rb_lock_name b)) b1 of (r, b2) \<Rightarrow>
          (let current = (case r of Inl e \<Rightarrow> None | Inr v \<Rightarrow> v) in
           if current = rb_token b2 \<and> rb_token b2 \<noteq> None then
             (case refresh_ttl api env b2 of
                (Inl e, b3) \<Rightarrow> (Inl e, b3)
              | (Inr _, b3) \<Rightarrow> (ok True, b3\<lparr>rb_is_active := True\<rparr>))
           else (ok False, b2\<lparr>rb_is_active := False\<rparr>))))"

definition rb_heartbeat :: "'r redis_api \<Rightarrow> ('r \<Rightarrow> 'r) \<Rightarrow> ('r redis_backend, bool) act" where
  "rb_heartbeat api env b =
    (if \<not> rb_held b then (ok False, b)
     else case on_server (rd_get api (rb_lock_name b)) b of
       (Inl e, b1) \<Rightarrow> (ok False, b1)
     | (Inr current, b1) \<Rightarrow>
         if current \<noteq> rb_token b1 then (ok False, b1\<lparr>rb_is_active := False, rb_token := None\<rparr>)
         else (case refresh_ttl api env b1 of
            (Inl e, b2) \<Rightarrow> (Inl e, b2)
          | (Inr _, b2) \<Rightarrow> (ok True, b2)))"

definition release_watch_cas :: "'r redis_api \<Rightarrow> ('r redis_backend, int) act" where
  "release_watch_cas api b =
    (case rb_token b of
       None \<Rightarrow> (ok 0, b)
     | Some token \<Rightarrow> (case on_server (rd_watch_cas api (rb_lock_name b) token) b of
          (Inl e, b1) \<Rightarrow> (ok 0, b1)
        | (Inr n, b1) \<Rightarrow> (ok n, b1)))"

definition rb_release :: "'r redis_api \<Rightarrow> ('r redis_backend, unit) act" where
  "rb_release api b =
    (if \<not> rb_held b then (ok (), b)
     else (let b1 = (case rb_token b of
                None \<Rightarrow> b
              | Some token \<Rightarrow> (case on_server (rd_eval_release api (rb_lock_name b) token) b of
                   (Inr _, b1) \<Rightarrow> b1
                 | (Inl e, b1) \<Rightarrow> snd (release_watch_cas api b1)))
           in (ok (), b1\<lparr>rb_token := None, rb_is_active := False\<rparr>)))"

definition rb_next_fencing_token :: "'r redis_api \<Rightarrow> ('r redis_backend, int option) act" where
  "rb_next_fencing_token api b =
    (case on_server (rd_incr api (rb_lock_name b @ '':fence'')) b of (r, b1) \<Rightarrow> (map_sum id Some r, b1))"

definition redis_ops :: "'r redis_api \<Rightarrow> ('r \<Rightarrow> 'r) \<Rightarrow> string \<Rightarrow> 'r redis_backend backend_ops" where
  "redis_ops api env token = \<lparr>bk_acquire = (\<lambda>now. rb_acquire api env token), bk_heartbeat = (\<lambda>now. rb_heartbeat api env),
     bk_release = rb_release api, bk_next_fencing_token = rb_next_fencing_token api\<rparr>"

interpretation redis_node: lock_backend "redis_ops api env token" rb_held for api env token
  by unfold_locales
    (auto simp: redis_ops_def rb_acquire_def rb_heartbeat_def rb_release_def rb_next_fencing_token_def on_server_def
      refresh_ttl_def rb_held_def Let_def split: if_splits sum.splits prod.splits bool.splits option.splits)

text \<open>\<open>select_lock_backend\<close>: Redis exactly when the stripped URL is not empty; the lock's name.\<close>

definition py_space :: "char \<Rightarrow> bool" where
  "py_space c \<longleftrightarrow> of_char c \<in> {9, 10, 11, 12, 13, 28, 29, 30, 31, 32, 133, 160 :: nat}"

definition select_lock_backend :: "string \<Rightarrow> string option \<Rightarrow> string option" where
  "select_lock_backend redis_url lock_name =
    (if list_all py_space redis_url then None
     else Some (case lock_name of Some n \<Rightarrow> if n = [] then ''trading:ha:primary'' else n | None \<Rightarrow> ''trading:ha:primary''))"

text \<open>The commands' documented effect on what is stored, and on the counters.\<close>

locale redis_commands =
  fixes api :: "'r redis_api" and stored :: "'r \<Rightarrow> string \<Rightarrow> string option" and counters :: "'r \<Rightarrow> string \<Rightarrow> int"
  assumes set_done: "rd_set_nx_px api k v ttl r = (ok b, r') \<Longrightarrow>
      b = (stored r k = None) \<and> stored r' = (if b then (stored r)(k := Some v) else stored r)"
    and set_failed: "rd_set_nx_px api k v ttl r = (Inl e, r') \<Longrightarrow>
      stored r' = stored r \<or> stored r k = None \<and> stored r' = (stored r)(k := Some v)"
    and get_done: "rd_get api k r = (ok x, r') \<Longrightarrow> x = stored r k"
    and get_kept: "rd_get api k r = (res, r') \<Longrightarrow> stored r' = stored r"
    and pexpire_kept: "rd_pexpire api k ttl r = (res', r') \<Longrightarrow> stored r' = stored r"
    and eval_done: "rd_eval_release api k v r = (ok n, r') \<Longrightarrow>
      stored r' = (if stored r k = Some v then (stored r)(k := None) else stored r)"
    and eval_failed: "rd_eval_release api k v r = (Inl e, r') \<Longrightarrow>
      stored r' = stored r \<or> stored r k = Some v \<and> stored r' = (stored r)(k := None)"
    and cas: "rd_watch_cas api k v r = (res2, r') \<Longrightarrow>
      stored r' = stored r \<or> stored r k = Some v \<and> stored r' = (stored r)(k := None)"
    and incr_done: "rd_incr api k r = (ok n, r') \<Longrightarrow> n = counters r k + 1 \<and> counters r' k = n"
begin

lemma ttl_set_done: "with_ttl b (rd_set_nx_px api k v) r = (ok done, r') \<Longrightarrow>
    done = (stored r k = None) \<and> stored r' = (if done then (stored r)(k := Some v) else stored r)"
  by (cases "ttl_ms b") (auto simp: with_ttl_def dest: set_done)

lemma ttl_set_failed: "with_ttl b (rd_set_nx_px api k v) r = (Inl e, r') \<Longrightarrow>
    stored r' = stored r \<or> stored r k = None \<and> stored r' = (stored r)(k := Some v)"
  using set_failed by (auto simp: with_ttl_def split: sum.splits)

lemma ttl_pexpire_kept: "with_ttl b (rd_pexpire api k) r = (res, r') \<Longrightarrow> stored r' = stored r"
  using pexpire_kept by (auto simp: with_ttl_def split: sum.splits)

text \<open>One call of a node against the shared server.\<close>

lemma acquire_effect:
  assumes "rb_acquire api id token b = (res, b')"
  shows "stored (rb_server b') = stored (rb_server b) \<or>
      stored (rb_server b) (rb_lock_name b) = None \<and>
      stored (rb_server b') = (stored (rb_server b))(rb_lock_name b := Some token)"
    "rb_token b' = rb_token b \<or> rb_token b' = Some token"
    "res = ok True \<Longrightarrow> rb_token b' \<noteq> None \<and> rb_is_active b' \<and> stored (rb_server b') (rb_lock_name b) = rb_token b'"
    "rb_lock_name b' = rb_lock_name b"
proof -
  obtain r s where set: "with_ttl b (rd_set_nx_px api (rb_lock_name b) token) (rb_server b) = (r, s)" by force
  have "(stored (rb_server b') = stored (rb_server b) \<or>
      stored (rb_server b) (rb_lock_name b) = None \<and>
      stored (rb_server b') = (stored (rb_server b))(rb_lock_name b := Some token)) \<and>
    (rb_token b' = rb_token b \<or> rb_token b' = Some token) \<and>
    (res = ok True \<longrightarrow> rb_token b' \<noteq> None \<and> rb_is_active b' \<and> stored (rb_server b') (rb_lock_name b) = rb_token b') \<and>
    rb_lock_name b' = rb_lock_name b"
  proof (cases r)
    case (Inl e)
    then show ?thesis using assms set ttl_set_failed [of b "rb_lock_name b" token "rb_server b" e s]
      by (auto simp: rb_acquire_def on_server_def)
  next
    case (Inr got)
    note sd = ttl_set_done [OF set [unfolded Inr]]
    show ?thesis
    proof (cases got)
      case True
      then show ?thesis using assms set sd Inr by (auto simp: rb_acquire_def on_server_def)
    next
      case False
      obtain g s1 where get: "rd_get api (rb_lock_name b) s = (g, s1)" by force
      note gk = get_kept [OF get]
      define b2 where "b2 = b\<lparr>rb_server := s1\<rparr>"
      show ?thesis
      proof (cases "(case g of Inl e \<Rightarrow> None | Inr v \<Rightarrow> v) = rb_token b \<and> rb_token b \<noteq> None")
        case own: True
        then have "stored s (rb_lock_name b) = rb_token b" using get get_done [of "rb_lock_name b" s] by (cases g) auto
        then show ?thesis using assms set False Inr get own sd gk ttl_pexpire_kept
          by (auto simp: rb_acquire_def on_server_def refresh_ttl_def Let_def split: prod.splits sum.splits)
      next
        case other: False
        then show ?thesis using assms set False Inr get sd gk
          by (auto simp: rb_acquire_def on_server_def Let_def)
      qed
    qed
  qed
  then show "stored (rb_server b') = stored (rb_server b) \<or>
      stored (rb_server b) (rb_lock_name b) = None \<and>
      stored (rb_server b') = (stored (rb_server b))(rb_lock_name b := Some token)"
    "rb_token b' = rb_token b \<or> rb_token b' = Some token"
    "res = ok True \<Longrightarrow> rb_token b' \<noteq> None \<and> rb_is_active b' \<and> stored (rb_server b') (rb_lock_name b) = rb_token b'"
    "rb_lock_name b' = rb_lock_name b"
    by blast+
qed

lemma heartbeat_effect:
  assumes "rb_heartbeat api id b = (res, b')"
  shows "stored (rb_server b') = stored (rb_server b) \<and> (rb_token b' = rb_token b \<or> rb_token b' = None) \<and>
    (res = ok True \<longrightarrow> rb_token b' = rb_token b \<and> rb_token b \<noteq> None \<and> stored (rb_server b) (rb_lock_name b) = rb_token b) \<and>
    (rb_held b \<longrightarrow> stored (rb_server b) (rb_lock_name b) \<noteq> rb_token b \<longrightarrow> res = ok False) \<and>
    rb_lock_name b' = rb_lock_name b"
proof -
  obtain g s where get: "rd_get api (rb_lock_name b) (rb_server b) = (g, s)" by force
  show ?thesis using assms get get_kept [OF get] get_done [of "rb_lock_name b" "rb_server b"] ttl_pexpire_kept
    by (auto simp: rb_heartbeat_def on_server_def refresh_ttl_def rb_held_def split: if_splits sum.splits prod.splits)
qed

lemma release_effect:
  assumes "rb_release api b = (res, b')"
  shows "(stored (rb_server b') = stored (rb_server b) \<or>
      stored (rb_server b) (rb_lock_name b) = rb_token b \<and> rb_token b \<noteq> None \<and>
      stored (rb_server b') = (stored (rb_server b))(rb_lock_name b := None)) \<and>
    (rb_token b' = rb_token b \<or> rb_token b' = None) \<and> res = ok () \<and> \<not> rb_held b' \<and> rb_lock_name b' = rb_lock_name b"
proof (cases "rb_held b")
  case False
  then show ?thesis using assms by (auto simp: rb_release_def)
next
  case True
  then obtain token where tok: "rb_token b = Some token" by (auto simp: rb_held_def)
  obtain e s where ev: "rd_eval_release api (rb_lock_name b) token (rb_server b) = (e, s)" by force
  obtain c s1 where cs: "rd_watch_cas api (rb_lock_name b) token s = (c, s1)" by force
  show ?thesis
  proof (cases e)
    case (Inr n)
    then show ?thesis using assms True tok ev eval_done [OF ev [unfolded Inr]]
      by (auto simp: rb_release_def on_server_def rb_held_def)
  next
    case (Inl x)
    have b': "b' = b\<lparr>rb_server := s1, rb_token := None, rb_is_active := False\<rparr>" "res = ok ()"
      using assms True tok ev Inl cs
      by (auto simp: rb_release_def on_server_def release_watch_cas_def Let_def split: sum.splits)
    have "stored s1 = stored (rb_server b) \<or> stored (rb_server b) (rb_lock_name b) = Some token \<and>
        stored s1 = (stored (rb_server b))(rb_lock_name b := None)"
      using eval_failed [OF ev [unfolded Inl]] cas [OF cs] by fastforce
    then show ?thesis using b' tok by (auto simp: rb_held_def)
  qed
qed

end

section \<open>A client with these laws\<close>

record dict_server =
  ds_values :: "string \<Rightarrow> string option"
  ds_counters :: "string \<Rightarrow> int"

definition dict_delete_if :: "string \<Rightarrow> string \<Rightarrow> (dict_server, int) act" where
  "dict_delete_if k v r =
    (if ds_values r k = Some v then (ok 1, r\<lparr>ds_values := (ds_values r)(k := None)\<rparr>) else (ok 0, r))"

definition dict_redis :: "dict_server redis_api" where
  "dict_redis = \<lparr>
     rd_set_nx_px = (\<lambda>k v ttl r. if ds_values r k = None then (ok True, r\<lparr>ds_values := (ds_values r)(k := Some v)\<rparr>)
        else (ok False, r)),
     rd_get = (\<lambda>k r. (ok (ds_values r k), r)),
     rd_pexpire = (\<lambda>k ttl r. (ok (), r)),
     rd_eval_release = dict_delete_if,
     rd_watch_cas = dict_delete_if,
     rd_incr = (\<lambda>k r. (ok (ds_counters r k + 1), r\<lparr>ds_counters := (ds_counters r)(k := ds_counters r k + 1)\<rparr>))\<rparr>"

interpretation dict_client: redis_commands dict_redis ds_values ds_counters
  by unfold_locales (auto simp: dict_redis_def dict_delete_if_def split: if_splits)

section \<open>Several nodes over one server\<close>

text \<open>\<open>cl_used\<close> is ghost state: the \<open>uuid4\<close> tokens drawn so far.  A call is atomic here; the step
  \<open>expire\<close> is the key's time to live running out.\<close>

record 'r cluster =
  cl_server :: 'r
  cl_nodes :: "nat \<Rightarrow> 'r redis_backend"
  cl_used :: "string set"

definition node_at :: "'r cluster \<Rightarrow> nat \<Rightarrow> 'r redis_backend" where
  "node_at c i = cl_nodes c i\<lparr>rb_server := cl_server c\<rparr>"

definition put_node :: "'r cluster \<Rightarrow> nat \<Rightarrow> 'r redis_backend \<Rightarrow> 'r cluster" where
  "put_node c i b = c\<lparr>cl_server := rb_server b, cl_nodes := (cl_nodes c)(i := b)\<rparr>"

inductive cluster_step :: "'r redis_api \<Rightarrow> ('r \<Rightarrow> string \<Rightarrow> string option) \<Rightarrow> string \<Rightarrow> 'r cluster \<Rightarrow> 'r cluster \<Rightarrow> bool"
  for api :: "'r redis_api" and stored :: "'r \<Rightarrow> string \<Rightarrow> string option" and lock :: string where
  acquire: "token \<notin> cl_used c \<Longrightarrow> rb_acquire api id token (node_at c i) = (r, b) \<Longrightarrow>
      cluster_step api stored lock c ((put_node c i b)\<lparr>cl_used := insert token (cl_used c)\<rparr>)"
| heartbeat: "rb_heartbeat api id (node_at c i) = (r, b) \<Longrightarrow> cluster_step api stored lock c (put_node c i b)"
| release: "rb_release api (node_at c i) = (r', b) \<Longrightarrow> cluster_step api stored lock c (put_node c i b)"
| expire: "stored s = (stored (cl_server c))(lock := None) \<Longrightarrow> cluster_step api stored lock c (c\<lparr>cl_server := s\<rparr>)"

definition cluster_start :: "('r \<Rightarrow> string \<Rightarrow> string option) \<Rightarrow> string \<Rightarrow> 'r cluster \<Rightarrow> bool" where
  "cluster_start stored lock c \<longleftrightarrow> stored (cl_server c) lock = None \<and>
     (\<forall>i. rb_token (cl_nodes c i) = None \<and> rb_lock_name (cl_nodes c i) = lock)"

inductive cluster_reach :: "'r redis_api \<Rightarrow> ('r \<Rightarrow> string \<Rightarrow> string option) \<Rightarrow> string \<Rightarrow> 'r cluster \<Rightarrow> bool"
  for api :: "'r redis_api" and stored :: "'r \<Rightarrow> string \<Rightarrow> string option" and lock :: string where
  start: "cluster_start stored lock c \<Longrightarrow> cluster_reach api stored lock c"
| step: "cluster_reach api stored lock c \<Longrightarrow> cluster_step api stored lock c c' \<Longrightarrow> cluster_reach api stored lock c'"

definition cluster_inv :: "('r \<Rightarrow> string \<Rightarrow> string option) \<Rightarrow> string \<Rightarrow> 'r cluster \<Rightarrow> bool" where
  "cluster_inv stored lock c \<longleftrightarrow>
     (\<forall>i. rb_lock_name (cl_nodes c i) = lock) \<and>
     (\<forall>i t. rb_token (cl_nodes c i) = Some t \<longrightarrow> t \<in> cl_used c) \<and>
     (\<forall>t. stored (cl_server c) lock = Some t \<longrightarrow> t \<in> cl_used c) \<and>
     (\<forall>i j t. rb_token (cl_nodes c i) = Some t \<longrightarrow> rb_token (cl_nodes c j) = Some t \<longrightarrow> i = j)"

lemma node_at_simps [simp]:
  "rb_token (node_at c i) = rb_token (cl_nodes c i)" "rb_lock_name (node_at c i) = rb_lock_name (cl_nodes c i)"
  "rb_server (node_at c i) = cl_server c" "rb_held (node_at c i) = rb_held (cl_nodes c i)"
  by (simp_all add: node_at_def rb_held_def)

lemma put_node_simps [simp]:
  "cl_server (put_node c i b) = rb_server b" "cl_nodes (put_node c i b) = (cl_nodes c)(i := b)"
  "cl_used (put_node c i b) = cl_used c"
  by (simp_all add: put_node_def)

context redis_commands begin

lemma put_node_inv:
  assumes "cluster_inv stored lock c" "rb_lock_name b = lock"
    "rb_token b = rb_token (cl_nodes c i) \<or> rb_token b = None \<or> rb_token b = Some t \<and> t \<notin> cl_used c"
    "stored (rb_server b) lock = stored (cl_server c) lock \<or> stored (rb_server b) lock = None
      \<or> stored (rb_server b) lock = Some t"
  shows "cluster_inv stored lock ((put_node c i b)\<lparr>cl_used := insert t (cl_used c)\<rparr>)"
  using assms unfolding cluster_inv_def by (auto simp del: fun_upd_apply simp add: fun_upd_def) metis+

lemma put_node_inv':
  assumes "cluster_inv stored lock c" "rb_lock_name b = lock"
    "rb_token b = rb_token (cl_nodes c i) \<or> rb_token b = None"
    "stored (rb_server b) lock = stored (cl_server c) lock \<or> stored (rb_server b) lock = None"
  shows "cluster_inv stored lock (put_node c i b)"
  using assms unfolding cluster_inv_def by (auto simp del: fun_upd_apply simp add: fun_upd_def) metis+

lemma step_keeps:
  assumes "cluster_step api stored lock c c'" "cluster_inv stored lock c"
  shows "cluster_inv stored lock c'"
  using assms
proof (cases rule: cluster_step.cases)
  case (acquire token i r b)
  have name: "rb_lock_name (cl_nodes c i) = lock" using assms(2) by (simp add: cluster_inv_def)
  note eff = acquire_effect [OF acquire(3), simplified, unfolded name]
  have "rb_token b = rb_token (cl_nodes c i) \<or> rb_token b = None \<or> rb_token b = Some token \<and> token \<notin> cl_used c"
    using eff(2) acquire(2) by blast
  moreover have "stored (rb_server b) lock = stored (cl_server c) lock \<or> stored (rb_server b) lock = None
      \<or> stored (rb_server b) lock = Some token"
    using eff(1) by auto
  ultimately show ?thesis unfolding acquire(1) by (rule put_node_inv [OF assms(2) eff(4)])
next
  case (heartbeat i r b)
  have name: "rb_lock_name (cl_nodes c i) = lock" using assms(2) by (simp add: cluster_inv_def)
  show ?thesis unfolding heartbeat(1)
    using heartbeat_effect [OF heartbeat(2)] name by (intro put_node_inv' [OF assms(2)]) auto
next
  case (release i r b)
  have name: "rb_lock_name (cl_nodes c i) = lock" using assms(2) by (simp add: cluster_inv_def)
  show ?thesis unfolding release(1)
    using release_effect [OF release(2)] name by (intro put_node_inv' [OF assms(2)]) auto
next
  case (expire s)
  then show ?thesis using assms(2) by (auto simp: cluster_inv_def)
qed

lemma reach_inv: "cluster_reach api stored lock c \<Longrightarrow> cluster_inv stored lock c"
proof (induction rule: cluster_reach.induct)
  case (start c)
  then show ?case by (auto simp: cluster_start_def cluster_inv_def)
next
  case (step c c')
  then show ?case using step_keeps by blast
qed

lemma others_kept_out:
  assumes "cluster_reach api stored lock c" "rb_token (cl_nodes c i) = Some t" "stored (cl_server c) lock = Some t" "j \<noteq> i"
    "token \<notin> cl_used c"
  shows "fst (rb_acquire api id token (node_at c j)) \<noteq> ok True"
    "fst (rb_heartbeat api id (node_at c j)) \<noteq> ok True"
    "stored (rb_server (snd (rb_acquire api id token (node_at c j)))) lock = Some t"
    "stored (rb_server (snd (rb_heartbeat api id (node_at c j)))) lock = Some t"
    "stored (rb_server (snd (rb_release api (node_at c j)))) lock = Some t"
proof -
  note inv = reach_inv [OF assms(1)]
  have name: "rb_lock_name (cl_nodes c j) = lock" using inv by (simp add: cluster_inv_def)
  have other: "rb_token (cl_nodes c j) \<noteq> Some t" using inv assms(2,4) unfolding cluster_inv_def by blast
  have fresh: "t \<noteq> token" using inv assms(2,5) unfolding cluster_inv_def by blast
  obtain ra ba where a: "rb_acquire api id token (node_at c j) = (ra, ba)" by force
  note ea = acquire_effect [OF a, simplified, unfolded name]
  have sa: "stored (rb_server ba) lock = Some t" using ea(1) assms(3) by auto
  have "ra \<noteq> ok True" using ea(2,3) sa other fresh by auto
  then show "fst (rb_acquire api id token (node_at c j)) \<noteq> ok True"
    "stored (rb_server (snd (rb_acquire api id token (node_at c j)))) lock = Some t"
    using a sa by auto
  obtain rh bh where h: "rb_heartbeat api id (node_at c j) = (rh, bh)" by force
  show "fst (rb_heartbeat api id (node_at c j)) \<noteq> ok True"
    "stored (rb_server (snd (rb_heartbeat api id (node_at c j)))) lock = Some t"
    using heartbeat_effect [OF h] h name other assms(3) by auto
  obtain rr br where r: "rb_release api (node_at c j) = (rr, br)" by force
  show "stored (rb_server (snd (rb_release api (node_at c j)))) lock = Some t"
    using release_effect [OF r] r name other assms(3) by auto
qed

lemma race:
  assumes "rb_token b = Some t" "rb_is_active b" "stored (rb_server b) (rb_lock_name b) = Some t"
    "rd_get api (rb_lock_name b) (rb_server b) = (ok v, s)" "stored (env s) (rb_lock_name b) = Some u" "u \<noteq> t"
    "with_ttl b (rd_pexpire api (rb_lock_name b)) (env s) = (ok (), s')"
  shows "rb_heartbeat api env b = (ok True, b\<lparr>rb_server := s'\<rparr>)" "stored s' (rb_lock_name b) = Some u"
proof -
  have v: "v = Some t" using get_done [OF assms(4)] assms(3) by simp
  have ms: "with_ttl (b\<lparr>rb_server := x\<rparr>) (rd_pexpire api (rb_lock_name b)) = with_ttl b (rd_pexpire api (rb_lock_name b))" for x
    by (simp add: with_ttl_def ttl_ms_def fun_eq_iff)
  show "rb_heartbeat api env b = (ok True, b\<lparr>rb_server := s'\<rparr>)"
    using assms v ms by (simp add: rb_heartbeat_def rb_held_def on_server_def refresh_ttl_def)
  show "stored s' (rb_lock_name b) = Some u" using ttl_pexpire_kept [OF assms(7)] assms(5) by simp
qed

end

section \<open>Properties\<close>

text \<open>One manager's calls, each with the token its \<open>uuid4\<close> would draw and what the server does
  meanwhile.\<close>

definition run_manager :: "'r redis_api \<Rightarrow> (string \<times> ('r \<Rightarrow> 'r) \<times> manager_call) list \<Rightarrow> 'r redis_backend manager
    \<Rightarrow> 'r redis_backend manager" where
  "run_manager api calls m = foldl (\<lambda>m (token, env, call). call_manager (redis_ops api env token) call m) m calls"

text \<open>Whatever the Redis client answers or raises, and whatever happens at the server between two
  commands, a manager that reports itself primary has a backend that believes it holds the lease: it has a
  token of its own and is active.\<close>

theorem primary_has_a_lease_token:
  "active_holds rb_held (run_manager api calls (new_manager (new_redis_backend r lock node ttl)))"
proof -
  have "active_holds rb_held m \<Longrightarrow> active_holds rb_held (run_manager api calls m)" for m
    unfolding run_manager_def
    by (induction calls arbitrary: m) (auto intro: redis_node.call_keeps)
  then show ?thesis by (simp add: active_holds_def new_manager_def)
qed

text \<open>C16: The lease is exclusive.  In every state that nodes reach by acquiring with fresh tokens,
  beating, releasing and expiring, in any order: while the server stores one node's token, every other node's
  acquire and heartbeat does not return true, and none of its calls (its release included) removes or replaces
  the stored lease.\<close>

theorem lease_exclusive:
  assumes "redis_commands api stored counters" "cluster_reach api stored lock c"
    "rb_token (cl_nodes c i) = Some t" "stored (cl_server c) lock = Some t" "j \<noteq> i" "token \<notin> cl_used c"
  shows "fst (rb_acquire api id token (node_at c j)) \<noteq> ok True \<and>
    fst (rb_heartbeat api id (node_at c j)) \<noteq> ok True \<and>
    stored (rb_server (snd (rb_acquire api id token (node_at c j)))) lock = Some t \<and>
    stored (rb_server (snd (rb_heartbeat api id (node_at c j)))) lock = Some t \<and>
    stored (rb_server (snd (rb_release api (node_at c j)))) lock = Some t"
  by (intro conjI redis_commands.others_kept_out [OF assms])

definition demo_cluster :: "dict_server cluster" where
  "demo_cluster = \<lparr>cl_server = \<lparr>ds_values = (\<lambda>_. None), ds_counters = (\<lambda>_. 0)\<rparr>,
     cl_nodes = (\<lambda>_. new_redis_backend \<lparr>ds_values = (\<lambda>_. None), ds_counters = (\<lambda>_. 0)\<rparr> ''L'' ''n'' 1), cl_used = {}\<rparr>"

definition led_cluster :: "dict_server cluster" where
  "led_cluster = (put_node demo_cluster 0 (snd (rb_acquire dict_redis id ''t0'' (node_at demo_cluster 0))))
     \<lparr>cl_used := insert ''t0'' (cl_used demo_cluster)\<rparr>"

lemma led_reached: "cluster_reach dict_redis ds_values ''L'' led_cluster"
proof (rule cluster_reach.step)
  show "cluster_reach dict_redis ds_values ''L'' demo_cluster"
    by (rule cluster_reach.start) (simp add: cluster_start_def demo_cluster_def new_redis_backend_def)
  show "cluster_step dict_redis ds_values ''L'' demo_cluster led_cluster"
    unfolding led_cluster_def by (rule cluster_step.acquire [where r = "fst (rb_acquire dict_redis id ''t0'' (node_at demo_cluster 0))"])
      (simp_all add: demo_cluster_def)
qed

lemmas demo_eval = led_cluster_def rb_acquire_def dict_redis_def on_server_def demo_cluster_def new_redis_backend_def
  node_at_def with_ttl_def ttl_ms_def put_node_def fl_eval float_eval one_Fin

theorem lease_exclusive_witness:
  "rb_token (cl_nodes led_cluster 0) = Some ''t0'' \<and> fst (rb_acquire dict_redis id ''t1'' (node_at led_cluster 1)) \<noteq> ok True"
proof -
  have "rb_token (cl_nodes led_cluster 0) = Some ''t0''" "ds_values (cl_server led_cluster) ''L'' = Some ''t0''"
    "''t1'' \<notin> cl_used led_cluster"
    by (simp_all add: demo_eval)
  then show ?thesis
    using lease_exclusive [OF dict_client.redis_commands_axioms led_reached, where i = 0 and j = 1 and t = "''t0''"
      and token = "''t1''"] by simp
qed

text \<open>\<open>heartbeat\<close> reads and then extends.  When the key runs out and another node acquires it
  between the two commands, \<open>heartbeat\<close> returns true, the node stays active with its old token, and the
  command has extended the other node's lease: both nodes report themselves primary.\<close>

theorem heartbeat_race:
  assumes "redis_commands api stored counters" "rb_token b = Some t" "rb_is_active b"
    "stored (rb_server b) (rb_lock_name b) = Some t"
    "rd_get api (rb_lock_name b) (rb_server b) = (ok v, s)" "stored (env s) (rb_lock_name b) = Some u" "u \<noteq> t"
    "with_ttl b (rd_pexpire api (rb_lock_name b)) (env s) = (ok (), s')"
  shows "rb_heartbeat api env b = (ok True, b\<lparr>rb_server := s'\<rparr>) \<and>
    rb_held (b\<lparr>rb_server := s'\<rparr>) \<and> stored s' (rb_lock_name b) = Some u"
  using redis_commands.race [where api = api and stored = stored and env = env and s = s, OF assms] assms(2,3) by (simp add: rb_held_def)

definition race_server :: "string \<Rightarrow> dict_server" where
  "race_server v = \<lparr>ds_values = (\<lambda>_. None)(''L'' := Some v), ds_counters = (\<lambda>_. 0)\<rparr>"

definition race_node :: "dict_server redis_backend" where
  "race_node = (new_redis_backend (race_server ''t0'') ''L'' ''n'' 1)\<lparr>rb_token := Some ''t0'', rb_is_active := True\<rparr>"

theorem heartbeat_race_witness:
  "rb_heartbeat dict_redis (\<lambda>_. race_server ''t1'') race_node = (ok True, race_node\<lparr>rb_server := race_server ''t1''\<rparr>)"
  using heartbeat_race [OF dict_client.redis_commands_axioms, where b = race_node and t = "''t0''" and v = "Some ''t0''"
      and s = "race_server ''t0''" and env = "\<lambda>_. race_server ''t1''" and u = "''t1''" and s' = "race_server ''t1''"]
  by (simp add: race_node_def race_server_def new_redis_backend_def dict_redis_def with_ttl_def ttl_ms_def fl_eval float_eval one_Fin)

end
