(* ===== verification/Alerts.thy ===== *)
theory Alerts
  imports PyFloat
begin

text \<open>
  \<open>ops/alert_manager.py\<close>: rules, cooldown windows, escalation and delivery.  The cooldown store is an
  interface whose two providers offer different methods, so a method is an optional field; the answer of the
  network is a parameter, the calls of \<open>time.sleep\<close> are recorded.  Rule names and severities are ASCII.
\<close>

section \<open>Rules and records\<close>

definition WARNING :: string where "WARNING = ''WARNING''"
definition CRITICAL :: string where "CRITICAL = ''CRITICAL''"
definition EMERGENCY :: string where "EMERGENCY = ''EMERGENCY''"

record alert_rule =
  rule_name :: string
  metric_name :: string
  threshold :: pyfloat
  comparator :: string
  rule_severity :: string

record alert_record =
  alert_id :: string
  alert_name :: string
  alert_severity :: string
  alert_message :: string
  alert_timestamp_us :: int

text \<open>The error text of a delivery: the HTTP status with the start of the body, or the transport's reason.\<close>

datatype post_error = NoError | HttpDetail int string | UrlError string | TransportError string

record dispatch_result =
  dr_channel :: string
  dr_ok :: bool
  dr_attempts :: int
  dr_status :: "int option"
  dr_error :: post_error

record alert_config =
  http_timeout_sec :: pyfloat
  emergency_max_retries :: int
  retry_backoff_sec :: pyfloat

definition default_alert_config :: alert_config where
  "default_alert_config = \<lparr>http_timeout_sec = fl 5, emergency_max_retries = 2, retry_backoff_sec = fl 2\<rparr>"

definition default_rules :: "alert_rule list" where
  "default_rules = [
     \<lparr>rule_name = ''High Latency'', metric_name = ''latency_p95_ms'', threshold = fl 500, comparator = ''>'',
       rule_severity = WARNING\<rparr>,
     \<lparr>rule_name = ''Stale Market Data'', metric_name = ''stale_data_sec'', threshold = fl 10, comparator = ''>'',
       rule_severity = CRITICAL\<rparr>,
     \<lparr>rule_name = ''Portfolio Drawdown'', metric_name = ''drawdown_pct'', threshold = fl (2/100), comparator = ''>'',
       rule_severity = CRITICAL\<rparr>,
     \<lparr>rule_name = ''Reconciliation Mismatch'', metric_name = ''reconciliation_mismatch'', threshold = 0,
       comparator = ''>'', rule_severity = EMERGENCY\<rparr>,
     \<lparr>rule_name = ''Drill Failure'', metric_name = ''drill_failure'', threshold = 0, comparator = ''>'',
       rule_severity = CRITICAL\<rparr>]"

section \<open>Redis window keys\<close>

text \<open>\<open>urllib.parse.quote(value, safe='')\<close> and \<open>unquote\<close> on ASCII text.\<close>

definition unreserved :: "char \<Rightarrow> bool" where
  "unreserved c \<longleftrightarrow> (let n = of_char c :: nat in
     65 \<le> n \<and> n \<le> 90 \<or> 97 \<le> n \<and> n \<le> 122 \<or> 48 \<le> n \<and> n \<le> 57 \<or> n \<in> {95, 46, 45, 126})"

definition hex_digit :: "nat \<Rightarrow> char" where
  "hex_digit d = ''0123456789ABCDEF'' ! d"

definition hex_value :: "char \<Rightarrow> nat option" where
  "hex_value c = (let n = of_char c :: nat in
     if 48 \<le> n \<and> n \<le> 57 then Some (n - 48)
     else if 65 \<le> n \<and> n \<le> 70 then Some (n - 55)
     else if 97 \<le> n \<and> n \<le> 102 then Some (n - 87) else None)"

definition quote_char :: "char \<Rightarrow> string" where
  "quote_char c = (if unreserved c then [c]
     else let n = of_char c :: nat in [CHR ''%'', hex_digit (n div 16), hex_digit (n mod 16)])"

definition redis_safe_token :: "string \<Rightarrow> string" where
  "redis_safe_token s = concat (map quote_char s)"

fun unquote :: "string \<Rightarrow> string" where
  "unquote (c # a # b # s) =
    (if c = CHR ''%'' then
       (case (hex_value a, hex_value b) of
          (Some x, Some y) \<Rightarrow> char_of (16 * x + y) # unquote s
        | _ \<Rightarrow> c # unquote (a # b # s))
     else c # unquote (a # b # s))"
| "unquote [c, a] = [c, a]"
| "unquote [c] = [c]"
| "unquote [] = []"

definition window_key :: "string \<Rightarrow> string \<Rightarrow> string \<Rightarrow> string" where
  "window_key pre rule sev = pre @ '':'' @ redis_safe_token rule @ '':'' @ redis_safe_token sev"

text \<open>\<open>body.rpartition(':')\<close>: the text before the last colon, empty when there is none.\<close>

definition before_last_colon :: "string \<Rightarrow> string" where
  "before_last_colon s =
    (let r = dropWhile (\<lambda>c. c \<noteq> CHR '':'') (rev s) in if r = [] then [] else rev (tl r))"

definition rule_of_key :: "string \<Rightarrow> string \<Rightarrow> string option" where
  "rule_of_key pre key =
    (let rule_part = before_last_colon (drop (length pre + 1) key)
     in if rule_part = [] then None else Some (unquote rule_part))"

section \<open>Cooldown stores\<close>

type_synonym alert_times = "(string, pyfloat) dict"
type_synonym alert_counters = "(string, int) dict"

record 'w cooldown_ops =
  co_load_all :: "'w \<Rightarrow> alert_times \<times> alert_counters"
  co_persist :: "(alert_times \<Rightarrow> alert_counters \<Rightarrow> 'w \<Rightarrow> 'w) option"
  co_suppress :: "(string \<Rightarrow> string \<Rightarrow> pyfloat \<Rightarrow> pyfloat \<Rightarrow> ('w, bool) act) option"
  co_escalation :: "(string \<Rightarrow> 'w \<Rightarrow> int \<times> 'w) option"

text \<open>The state file: absent, unreadable (or not the JSON that is written), or the dictionaries last
  written, a missing one reading as empty.  \<open>writable\<close> tells whether the next write and replace succeed.\<close>

datatype state_file = Absent | Unreadable | Snapshot "alert_times option" "alert_counters option"

record disk =
  state_path :: state_file
  writable :: bool

definition file_load_all :: "disk \<Rightarrow> alert_times \<times> alert_counters" where
  "file_load_all d = (case state_path d of
     Snapshot ts cs \<Rightarrow> ((case ts of Some t \<Rightarrow> t | None \<Rightarrow> []), (case cs of Some c \<Rightarrow> c | None \<Rightarrow> []))
   | _ \<Rightarrow> ([], []))"

definition persist_snapshot :: "alert_times \<Rightarrow> alert_counters \<Rightarrow> disk \<Rightarrow> disk" where
  "persist_snapshot ts cs d = (if writable d then d\<lparr>state_path := Snapshot (Some ts) (Some cs)\<rparr> else d)"

definition file_store :: "disk cooldown_ops" where
  "file_store = \<lparr>co_load_all = file_load_all, co_persist = Some persist_snapshot, co_suppress = None,
     co_escalation = None\<rparr>"

text \<open>The Redis commands issued; a command may raise.  \<open>cr_set\<close> stores the current time.\<close>

record 'r cooldown_redis =
  cr_set_nx_px :: "string \<Rightarrow> int \<Rightarrow> ('r, bool) act"
  cr_hincrby :: "string \<Rightarrow> string \<Rightarrow> ('r, int) act"
  cr_scan :: "string \<Rightarrow> 'r \<Rightarrow> string list res"
  cr_get :: "string \<Rightarrow> 'r \<Rightarrow> string option res"
  cr_hgetall :: "string \<Rightarrow> 'r \<Rightarrow> (string \<times> string) list res"

definition redis_prefix :: string where "redis_prefix = ''trading:alerts:cooldown''"
definition escalation_hash :: string where "escalation_hash = ''trading:alerts:escalation''"

text \<open>\<open>parse_float\<close> and \<open>parse_int\<close> are Python's conversions of text.\<close>

definition scan_one :: "(string \<Rightarrow> pyfloat option) \<Rightarrow> 'r cooldown_redis \<Rightarrow> 'r \<Rightarrow> string \<Rightarrow> alert_times
    \<Rightarrow> alert_times res" where
  "scan_one parse_float api r key ts = (case rule_of_key redis_prefix key of
     None \<Rightarrow> ok ts
   | Some rule \<Rightarrow> rbind (cr_get api key r) (\<lambda>raw. case raw of
       None \<Rightarrow> ok ts
     | Some v \<Rightarrow> (case parse_float v of
         None \<Rightarrow> ok ts
       | Some x \<Rightarrow> ok (dset rule (pymax (dget_or ts rule 0) x) ts))))"

primrec scan_keys :: "(string \<Rightarrow> pyfloat option) \<Rightarrow> 'r cooldown_redis \<Rightarrow> 'r \<Rightarrow> string list \<Rightarrow> alert_times
    \<Rightarrow> bool \<times> alert_times" where
  "scan_keys parse_float api r [] ts = (True, ts)"
| "scan_keys parse_float api r (k # ks) ts = (case scan_one parse_float api r k ts of
     Inl e \<Rightarrow> (False, ts)
   | Inr ts' \<Rightarrow> scan_keys parse_float api r ks ts')"

definition redis_load_all :: "(string \<Rightarrow> pyfloat option) \<Rightarrow> (string \<Rightarrow> int option) \<Rightarrow> 'r cooldown_redis \<Rightarrow> 'r
    \<Rightarrow> alert_times \<times> alert_counters" where
  "redis_load_all parse_float parse_int api r = (case cr_scan api (redis_prefix @ '':*'') r of
     Inl e \<Rightarrow> ([], [])
   | Inr keys \<Rightarrow> (case scan_keys parse_float api r keys [] of
       (False, ts) \<Rightarrow> (ts, [])
     | (True, ts) \<Rightarrow> (case cr_hgetall api escalation_hash r of
         Inl e \<Rightarrow> (ts, [])
       | Inr kvs \<Rightarrow> (if list_all (\<lambda>(k, v). parse_int v \<noteq> None) kvs
           then (ts, foldl (\<lambda>d (k, v). dset k (the (parse_int v)) d) [] kvs) else (ts, [])))))"

text \<open>\<open>max(1, int(round(max(cooldown_sec, 0.001) * 1000)))\<close>; \<open>int\<close> of an infinity or a NaN raises.\<close>

definition cooldown_ttl_ms :: "pyfloat \<Rightarrow> int res" where
  "cooldown_ttl_ms c = (case pymax c (fl (1/1000)) * fl 1000 of
     Fin x \<Rightarrow> ok (max 1 (rne x))
   | NaN \<Rightarrow> raise (ValueError ''cannot convert float NaN to integer'')
   | _ \<Rightarrow> raise OverflowError)"

definition redis_should_suppress :: "'r cooldown_redis \<Rightarrow> string \<Rightarrow> string \<Rightarrow> pyfloat \<Rightarrow> pyfloat
    \<Rightarrow> ('r, bool) act" where
  "redis_should_suppress api rule sev now cooldown r = (case cooldown_ttl_ms cooldown of
     Inl e \<Rightarrow> (Inl e, r)
   | Inr ttl \<Rightarrow> (case cr_set_nx_px api (window_key redis_prefix rule sev) ttl r of
       (Inl e, r') \<Rightarrow> (ok False, r')
     | (Inr acquired, r') \<Rightarrow> (ok (\<not> acquired), r')))"

definition redis_record_escalation :: "'r cooldown_redis \<Rightarrow> string \<Rightarrow> 'r \<Rightarrow> int \<times> 'r" where
  "redis_record_escalation api rule r = (case cr_hincrby api escalation_hash rule r of
     (Inl e, r') \<Rightarrow> (0, r')
   | (Inr n, r') \<Rightarrow> (n, r'))"

definition redis_store :: "(string \<Rightarrow> pyfloat option) \<Rightarrow> (string \<Rightarrow> int option) \<Rightarrow> 'r cooldown_redis
    \<Rightarrow> 'r cooldown_ops" where
  "redis_store parse_float parse_int api = \<lparr>co_load_all = redis_load_all parse_float parse_int api,
     co_persist = None, co_suppress = Some (redis_should_suppress api),
     co_escalation = Some (redis_record_escalation api)\<rparr>"

section \<open>Delivery\<close>

datatype payload =
    WebhookBody string string string string int
  | SlackText string
  | PagerDutyEvent string string string string string

text \<open>What \<open>urlopen\<close> does: a response, the exceptions the code catches, or another exception.\<close>

datatype http_outcome = Response int | HTTPFailure int string | URLFailure string | TransportFailure string | Crash pyerr

record 'n wire =
  wr_net :: 'n
  wr_slept :: "pyfloat list"

definition post_json :: "(string \<Rightarrow> payload \<Rightarrow> 'n \<Rightarrow> http_outcome \<times> 'n) \<Rightarrow> string \<Rightarrow> payload
    \<Rightarrow> ('n wire, bool \<times> int option \<times> post_error) act" where
  "post_json urlopen url p w = (case urlopen url p (wr_net w) of (out, net) \<Rightarrow>
    (case out of
       Response status \<Rightarrow> ok (True, Some status, NoError)
     | HTTPFailure code detail \<Rightarrow> ok (False, Some code, HttpDetail code (take 200 detail))
     | URLFailure reason \<Rightarrow> ok (False, None, UrlError reason)
     | TransportFailure reason \<Rightarrow> ok (False, None, TransportError reason)
     | Crash e \<Rightarrow> raise e, w\<lparr>wr_net := net\<rparr>))"

definition time_sleep :: "pyfloat \<Rightarrow> ('n wire, unit) act" where
  "time_sleep x w = (if x < 0 \<or> x = NaN then (raise (ValueError ''sleep length must be non-negative''), w)
     else (ok (), w\<lparr>wr_slept := wr_slept w @ [x]\<rparr>))"

function dispatch_loop :: "(string \<Rightarrow> payload \<Rightarrow> 'n \<Rightarrow> http_outcome \<times> 'n) \<Rightarrow> alert_config \<Rightarrow> string \<Rightarrow> string
    \<Rightarrow> payload \<Rightarrow> int \<Rightarrow> int \<Rightarrow> int option \<Rightarrow> post_error \<Rightarrow> ('n wire, dispatch_result) act" where
  "dispatch_loop urlopen cfg chan url p max_attempts attempts last_status last_error w =
    (if attempts < max_attempts then
       (case post_json urlopen url p w of
          (Inl e, w1) \<Rightarrow> (Inl e, w1)
        | (Inr (done, status, err), w1) \<Rightarrow>
            if done then (ok \<lparr>dr_channel = chan, dr_ok = True, dr_attempts = attempts + 1, dr_status = status,
                dr_error = NoError\<rparr>, w1)
            else if attempts + 1 < max_attempts then
              (case time_sleep (retry_backoff_sec cfg * fl (rat_of_int (attempts + 1))) w1 of
                 (Inl e, w2) \<Rightarrow> (Inl e, w2)
               | (Inr _, w2) \<Rightarrow> dispatch_loop urlopen cfg chan url p max_attempts (attempts + 1) status err w2)
            else dispatch_loop urlopen cfg chan url p max_attempts (attempts + 1) status err w1)
     else (ok \<lparr>dr_channel = chan, dr_ok = False, dr_attempts = attempts, dr_status = last_status,
         dr_error = last_error\<rparr>, w))"
  by pat_completeness auto

termination by (relation "measure (\<lambda>(_, _, _, _, _, max_attempts, attempts, _). nat (max_attempts - attempts))") auto

declare dispatch_loop.simps [simp del]

definition dispatch_with_retries :: "(string \<Rightarrow> payload \<Rightarrow> 'n \<Rightarrow> http_outcome \<times> 'n) \<Rightarrow> alert_config \<Rightarrow> string
    \<Rightarrow> string \<Rightarrow> payload \<Rightarrow> bool \<Rightarrow> ('n wire, dispatch_result) act" where
  "dispatch_with_retries urlopen cfg chan url p emergency =
    dispatch_loop urlopen cfg chan url p (if emergency then 1 + emergency_max_retries cfg else 1) 0 None NoError"

record channels =
  slack_webhook_url :: string
  pagerduty_key :: string
  webhook_url :: string

definition alert_summary :: "alert_record \<Rightarrow> string" where
  "alert_summary a = ''['' @ alert_severity a @ ''] '' @ alert_name a @ '': '' @ alert_message a"

definition channel_tag :: "string \<Rightarrow> dispatch_result \<Rightarrow> string" where
  "channel_tag chan r = (if dr_ok r then chan else chan @ '':failed'')"

text \<open>One channel: nothing when it is not configured, else its delivery appended to the list.\<close>

definition over_channel :: "(string \<Rightarrow> payload \<Rightarrow> 'n \<Rightarrow> http_outcome \<times> 'n) \<Rightarrow> alert_config \<Rightarrow> string \<Rightarrow> string
    \<Rightarrow> payload \<Rightarrow> bool \<Rightarrow> string list \<Rightarrow> ('n wire, string list) act" where
  "over_channel urlopen cfg chan url p emergency sent w =
    (case dispatch_with_retries urlopen cfg chan url p emergency w of
       (Inl e, w1) \<Rightarrow> (Inl e, w1)
     | (Inr r, w1) \<Rightarrow> (ok (sent @ [channel_tag chan r]), w1))"

definition send_alert_channels :: "(string \<Rightarrow> payload \<Rightarrow> 'n \<Rightarrow> http_outcome \<times> 'n) \<Rightarrow> alert_config \<Rightarrow> channels
    \<Rightarrow> alert_record \<Rightarrow> ('n wire, string list) act" where
  "send_alert_channels urlopen cfg ch a =
    (let emergency = (alert_severity a = EMERGENCY); summary = alert_summary a in
     abind (if webhook_url ch \<noteq> [] then over_channel urlopen cfg ''webhook'' (webhook_url ch)
         (WebhookBody (alert_id a) (alert_name a) (alert_severity a) (alert_message a) (alert_timestamp_us a)) emergency []
       else areturn []) (\<lambda>sent1.
     abind (if slack_webhook_url ch \<noteq> [] then over_channel urlopen cfg ''slack'' (slack_webhook_url ch)
         (SlackText summary) emergency sent1
       else if webhook_url ch = [] then areturn (sent1 @ [''log'']) else areturn sent1) (\<lambda>sent2.
     if alert_severity a \<in> {CRITICAL, EMERGENCY} \<and> pagerduty_key ch \<noteq> [] then
       over_channel urlopen cfg ''pagerduty'' ''https://events.pagerduty.com/v2/enqueue''
         (PagerDutyEvent (pagerduty_key ch) (take 1024 summary)
           (if alert_severity a = CRITICAL then ''critical'' else ''error'') (alert_id a) (alert_message a)) emergency sent2
     else areturn sent2)))"

section \<open>The manager\<close>

record ('w, 'n) alert_manager =
  am_store :: 'w
  am_wire :: "'n wire"
  am_cooldown_sec :: pyfloat
  am_channels :: channels
  am_config :: alert_config
  last_alert_time :: alert_times
  alert_counts :: alert_counters
  am_rules :: "alert_rule list"

definition new_alert_manager :: "'w cooldown_ops \<Rightarrow> 'w \<Rightarrow> 'n wire \<Rightarrow> pyfloat \<Rightarrow> channels \<Rightarrow> alert_config
    \<Rightarrow> ('w, 'n) alert_manager" where
  "new_alert_manager ops st w cooldown ch cfg = (case co_load_all ops st of (ts, cs) \<Rightarrow>
     \<lparr>am_store = st, am_wire = w, am_cooldown_sec = cooldown, am_channels = ch, am_config = cfg,
      last_alert_time = ts, alert_counts = cs, am_rules = default_rules\<rparr>)"

definition persist_state :: "'w cooldown_ops \<Rightarrow> ('w, 'n) alert_manager \<Rightarrow> ('w, 'n) alert_manager" where
  "persist_state ops m = (case co_persist ops of None \<Rightarrow> m
     | Some f \<Rightarrow> m\<lparr>am_store := f (last_alert_time m) (alert_counts m) (am_store m)\<rparr>)"

definition should_suppress_for_severity :: "'w cooldown_ops \<Rightarrow> string \<Rightarrow> string \<Rightarrow> pyfloat
    \<Rightarrow> (('w, 'n) alert_manager, bool) act" where
  "should_suppress_for_severity ops name sev now m =
    (if sev = EMERGENCY then (ok False, m)
     else case co_suppress ops of
       Some f \<Rightarrow> (case f name sev now (am_cooldown_sec m) (am_store m) of (r, st) \<Rightarrow> (r, m\<lparr>am_store := st\<rparr>))
     | None \<Rightarrow> (ok (now - dget_or (last_alert_time m) name 0 < am_cooldown_sec m), m))"

definition should_suppress :: "'w cooldown_ops \<Rightarrow> string \<Rightarrow> pyfloat \<Rightarrow> (('w, 'n) alert_manager, bool) act" where
  "should_suppress ops name now m = (case co_suppress ops of
       Some f \<Rightarrow> (case f name WARNING now (am_cooldown_sec m) (am_store m) of (r, st) \<Rightarrow> (r, m\<lparr>am_store := st\<rparr>))
     | None \<Rightarrow> (ok (now - dget_or (last_alert_time m) name 0 < am_cooldown_sec m), m))"

definition escalated :: "int \<Rightarrow> string \<Rightarrow> string" where
  "escalated n sev = (if 3 \<le> n \<and> sev = WARNING then CRITICAL
     else if 5 \<le> n \<and> sev = CRITICAL then EMERGENCY else sev)"

definition escalate_severity :: "'w cooldown_ops \<Rightarrow> string \<Rightarrow> string \<Rightarrow> ('w, 'n) alert_manager
    \<Rightarrow> string \<times> ('w, 'n) alert_manager" where
  "escalate_severity ops name sev m = (case co_escalation ops of
     Some f \<Rightarrow> (case f name (am_store m) of (n, st) \<Rightarrow> (escalated n sev, m\<lparr>am_store := st\<rparr>))
   | None \<Rightarrow> (let n = dget_or (alert_counts m) name 0 + 1
       in (escalated n sev, m\<lparr>alert_counts := dset name n (alert_counts m)\<rparr>)))"

definition triggered :: "alert_rule \<Rightarrow> pyfloat \<Rightarrow> bool" where
  "triggered r v \<longleftrightarrow> (comparator r = ''>'' \<and> threshold r < v) \<or> (comparator r = ''<'' \<and> v < threshold r)
     \<or> (comparator r = ''>='' \<and> threshold r \<le> v) \<or> (comparator r = ''<='' \<and> v \<le> threshold r)"

record ('w, 'n) alert_env =
  ae_ops :: "'w cooldown_ops"
  ae_urlopen :: "string \<Rightarrow> payload \<Rightarrow> 'n \<Rightarrow> http_outcome \<times> 'n"
  ae_show :: "pyfloat \<Rightarrow> string"

text \<open>A call's readings: the clock, the identifier drawn and the wall time of the record.\<close>

record alert_call =
  ca_metric :: string
  ca_value :: pyfloat
  ca_custom_message :: string
  ca_now_ts :: pyfloat
  ca_alert_id :: string
  ca_timestamp_us :: int

definition default_message :: "(pyfloat \<Rightarrow> string) \<Rightarrow> alert_rule \<Rightarrow> alert_call \<Rightarrow> string" where
  "default_message shown r c = rule_name r @ '' triggered: '' @ ca_metric c @ ''='' @ shown (ca_value c) @ '' ''
     @ comparator r @ '' '' @ shown (threshold r)"

definition accept_alert :: "('w, 'n) alert_env \<Rightarrow> alert_call \<Rightarrow> alert_rule \<Rightarrow> ('w, 'n) alert_manager
    \<Rightarrow> alert_record \<times> ('w, 'n) alert_manager" where
  "accept_alert env c r m = (case escalate_severity (ae_ops env) (rule_name r) (rule_severity r) m of (sev, m1) \<Rightarrow>
     (\<lparr>alert_id = ca_alert_id c, alert_name = rule_name r, alert_severity = sev,
       alert_message = (if ca_custom_message c \<noteq> [] then ca_custom_message c else default_message (ae_show env) r c),
       alert_timestamp_us = ca_timestamp_us c\<rparr>,
      persist_state (ae_ops env) (m1\<lparr>last_alert_time := dset (rule_name r) (ca_now_ts c) (last_alert_time m1)\<rparr>)))"

definition fire_rule :: "('w, 'n) alert_env \<Rightarrow> alert_call \<Rightarrow> alert_rule
    \<Rightarrow> (('w, 'n) alert_manager, alert_record option) act" where
  "fire_rule env c r m =
    (case should_suppress_for_severity (ae_ops env) (rule_name r) (rule_severity r) (ca_now_ts c) m of
       (Inl e, m1) \<Rightarrow> (Inl e, m1)
     | (Inr True, m1) \<Rightarrow> (ok None, m1)
     | (Inr False, m1) \<Rightarrow> (case accept_alert env c r m1 of (rec, m2) \<Rightarrow>
         (case send_alert_channels (ae_urlopen env) (am_config m2) (am_channels m2) rec (am_wire m2) of
            (Inl e, w) \<Rightarrow> (Inl e, m2\<lparr>am_wire := w\<rparr>)
          | (Inr sent, w) \<Rightarrow> (ok (Some rec), m2\<lparr>am_wire := w\<rparr>))))"

primrec evaluate_rules :: "('w, 'n) alert_env \<Rightarrow> alert_call \<Rightarrow> alert_rule list
    \<Rightarrow> (('w, 'n) alert_manager, alert_record option) act" where
  "evaluate_rules env c [] m = (ok None, m)"
| "evaluate_rules env c (r # rs) m =
    (if metric_name r \<noteq> ca_metric c then evaluate_rules env c rs m
     else if triggered r (ca_value c) then fire_rule env c r m
     else evaluate_rules env c rs m)"

definition evaluate_metric :: "('w, 'n) alert_env \<Rightarrow> alert_call \<Rightarrow> (('w, 'n) alert_manager, alert_record option) act" where
  "evaluate_metric env c m = evaluate_rules env c (am_rules m) m"

section \<open>Window keys read back\<close>

definition ascii :: "string \<Rightarrow> bool" where
  "ascii s \<longleftrightarrow> list_all (\<lambda>c. of_char c < (128 :: nat)) s"

lemma hex_value_digit: "d < 16 \<Longrightarrow> hex_value (hex_digit d) = Some d"
proof -
  assume "d < 16"
  moreover have "list_all (\<lambda>d. hex_value (hex_digit d) = Some d) [0..<16]" by code_simp
  ultimately show ?thesis by (simp add: list_all_iff)
qed

lemma unquote_step: "c \<noteq> CHR ''%'' \<Longrightarrow> unquote (c # s) = c # unquote s"
  by (cases s rule: list.exhaust; cases "tl s") auto

lemma unquote_char: "of_char c < (256 :: nat) \<Longrightarrow> unquote (quote_char c @ s) = c # unquote s"
proof (cases "unreserved c")
  case True
  then have "c \<noteq> CHR ''%''" by (auto simp: unreserved_def)
  then show ?thesis using True by (simp add: quote_char_def unquote_step)
next
  case False
  assume "of_char c < (256 :: nat)"
  then have "of_char c div 16 < (16 :: nat)" by (simp add: less_mult_imp_div_less)
  then show ?thesis using False by (simp add: quote_char_def Let_def hex_value_digit)
qed

lemma char_lt_256: "of_char c < (256 :: nat)"
  by (metis nat_of_char_less_256)

lemma unquote_append: "unquote (redis_safe_token s @ t) = s @ unquote t"
  by (induction s) (simp_all add: redis_safe_token_def unquote_char char_lt_256)

lemma unquote_quote: "unquote (redis_safe_token s) = s"
  using unquote_append [of s "[]"] by simp

lemma colon_no_digit: "hex_value CHR '':'' = None"
  by code_simp

lemma quote_no_colon: "CHR '':'' \<notin> set (redis_safe_token s)"
proof -
  have "CHR '':'' \<noteq> hex_digit d" if "d < 16" for d
    using hex_value_digit [OF that] by (metis colon_no_digit option.distinct(1))
  moreover have "of_char c div 16 < (16 :: nat)" for c
    using char_lt_256 [of c] by (simp add: less_mult_imp_div_less)
  ultimately have "CHR '':'' \<notin> set (quote_char c)" for c
    by (auto simp: quote_char_def Let_def) (auto simp: unreserved_def)
  then show ?thesis by (auto simp: redis_safe_token_def)
qed

lemma quote_Nil: "redis_safe_token s = [] \<longleftrightarrow> s = []"
  by (cases s) (auto simp: redis_safe_token_def quote_char_def Let_def)

lemma before_last_colon_append: "CHR '':'' \<notin> set t \<Longrightarrow> before_last_colon (s @ '':'' @ t) = s"
proof -
  assume t: "CHR '':'' \<notin> set t"
  have "dropWhile (\<lambda>c. c \<noteq> CHR '':'') (rev t @ CHR '':'' # rev s) = CHR '':'' # rev s"
    using t by (subst dropWhile_append2) auto
  then show ?thesis by (simp add: before_last_colon_def)
qed

lemma rule_of_window_key: "rule_of_key pre (window_key pre rule sev) = (if rule = [] then None else Some rule)"
proof -
  have "drop (length pre + 1) (window_key pre rule sev) = redis_safe_token rule @ '':'' @ redis_safe_token sev"
    by (simp add: window_key_def)
  then show ?thesis
    using before_last_colon_append [OF quote_no_colon, of "redis_safe_token rule" sev]
    by (simp add: rule_of_key_def Let_def unquote_quote quote_Nil)
qed

lemma window_key_parts:
  assumes "window_key pre rule sev = window_key pre rule' sev'"
  shows "rule = rule' \<and> sev = sev'"
proof -
  have eq: "redis_safe_token rule @ '':'' @ redis_safe_token sev = redis_safe_token rule' @ '':'' @ redis_safe_token sev'"
    using assms by (simp add: window_key_def)
  then have "redis_safe_token rule = redis_safe_token rule'"
    using before_last_colon_append [OF quote_no_colon] by metis
  then have "redis_safe_token sev = redis_safe_token sev'" using eq by simp
  then show ?thesis using unquote_quote \<open>redis_safe_token rule = redis_safe_token rule'\<close> by metis
qed

section \<open>Delivery\<close>

lemma dispatch_loop_spec:
  assumes "dispatch_loop urlopen cfg chan url p mx n ls le w = (ok r, w')" "n \<le> mx"
  shows "n \<le> dr_attempts r \<and> dr_attempts r \<le> mx \<and> (\<not> dr_ok r \<longrightarrow> dr_attempts r = mx) \<and> (dr_ok r \<longrightarrow> n < dr_attempts r) \<and>
    wr_slept w' = wr_slept w @ map (\<lambda>k. retry_backoff_sec cfg * fl (rat_of_int k)) [n + 1 .. dr_attempts r - 1]"
  using assms
proof (induction urlopen cfg chan url p mx n ls le w arbitrary: r w' rule: dispatch_loop.induct)
  case (1 urlopen cfg chan url p mx n ls le w)
  note run = 1(3) [unfolded dispatch_loop.simps [of _ _ _ _ _ _ n]]
  show ?case
  proof (cases "n < mx")
    case False
    then show ?thesis using run 1(4) by auto
  next
    case go: True
    obtain o1 w1 where pj: "post_json urlopen url p w = (o1, w1)" by force
    have keep: "wr_slept w1 = wr_slept w" using pj by (auto simp: post_json_def split: prod.splits)
    from run go pj obtain fine status err where o1: "o1 = ok (fine, status, err)"
      by (cases o1) (auto split: prod.splits)
    show ?thesis
    proof (cases fine)
      case True
      then show ?thesis using run go pj o1 keep by auto
    next
      case False
      show ?thesis
      proof (cases "n + 1 < mx")
        case True
        define x where "x = retry_backoff_sec cfg * fl (rat_of_int (n + 1))"
        from run go pj o1 False True obtain w2 where slept: "time_sleep x w1 = (ok (), w2)"
          and rest: "dispatch_loop urlopen cfg chan url p mx (n + 1) status err w2 = (ok r, w')"
          by (cases "time_sleep x w1") (auto simp: x_def split: sum.splits)
        have w2: "wr_slept w2 = wr_slept w @ [x]" using slept keep by (auto simp: time_sleep_def split: if_splits)
        note IH = 1(1) [OF go pj [symmetric] o1 refl refl False True, folded x_def, OF slept [symmetric] refl rest]
        have "n + 1 \<le> dr_attempts r" "dr_attempts r \<le> mx" using IH True by auto
        moreover have "n + 1 < dr_attempts r" using IH True \<open>n + 1 \<le> dr_attempts r\<close> by (cases "dr_ok r") auto
        then have "[n + 1 .. dr_attempts r - 1] = (n + 1) # [n + 2 .. dr_attempts r - 1]"
          by (subst upto_rec1) (auto simp: add.commute)
        ultimately show ?thesis using IH True w2 by (auto simp: x_def add.commute)
      next
        case last: False
        have rest: "dispatch_loop urlopen cfg chan url p mx (n + 1) status err w1 = (ok r, w')"
          using run go pj o1 False last by simp
        have "n + 1 = mx" using go last by simp
        then show ?thesis using rest keep by (subst (asm) dispatch_loop.simps) auto
      qed
    qed
  qed
qed

section \<open>One call\<close>

lemma send_keeps_alert_manager [simp]:
  "am_rules (persist_state ops m) = am_rules m" "am_cooldown_sec (persist_state ops m) = am_cooldown_sec m"
  "am_channels (persist_state ops m) = am_channels m" "am_config (persist_state ops m) = am_config m"
  "last_alert_time (persist_state ops m) = last_alert_time m" "alert_counts (persist_state ops m) = alert_counts m"
  "am_wire (persist_state ops m) = am_wire m"
  by (simp_all add: persist_state_def split: option.splits)

text \<open>What a call does over a store without its own windows: nothing, or it accepts a triggered rule.\<close>

lemma evaluate_cases:
  assumes "evaluate_metric env c m = (out, m')" "co_suppress (ae_ops env) = None"
  obtains (unchanged) "out = ok None" "m' = m"
  | (accepted) r w where "r \<in> set (am_rules m)" "metric_name r = ca_metric c" "triggered r (ca_value c)"
      "rule_severity r = EMERGENCY \<or> \<not> ca_now_ts c - dget_or (last_alert_time m) (rule_name r) 0 < am_cooldown_sec m"
      "out = ok (Some (fst (accept_alert env c r m))) \<or> (\<exists>e. out = Inl e)"
      "m' = (snd (accept_alert env c r m))\<lparr>am_wire := w\<rparr>"
proof -
  have fire: "out = ok None \<and> m' = m \<or>
      (rule_severity r = EMERGENCY \<or> \<not> ca_now_ts c - dget_or (last_alert_time m) (rule_name r) 0 < am_cooldown_sec m) \<and>
      (out = ok (Some (fst (accept_alert env c r m))) \<or> (\<exists>e. out = Inl e)) \<and>
      (\<exists>w. m' = (snd (accept_alert env c r m))\<lparr>am_wire := w\<rparr>)"
    if "fire_rule env c r m = (out, m')" for r
    using that assms(2) unfolding fire_rule_def should_suppress_for_severity_def
    by (auto split: if_splits prod.splits sum.splits bool.splits)
  have "(out = ok None \<and> m' = m) \<or> (\<exists>r \<in> set rs. metric_name r = ca_metric c \<and> triggered r (ca_value c) \<and>
      fire_rule env c r m = (out, m'))" if "evaluate_rules env c rs m = (out, m')" for rs
    using that by (induction rs) (auto split: if_splits)
  then show ?thesis
    using assms(1) fire unchanged accepted unfolding evaluate_metric_def by metis
qed

lemma accept_file:
  assumes "co_escalation (ae_ops env) = None"
  shows "last_alert_time (snd (accept_alert env c r m)) = dset (rule_name r) (ca_now_ts c) (last_alert_time m)"
    "am_rules (snd (accept_alert env c r m)) = am_rules m"
    "am_cooldown_sec (snd (accept_alert env c r m)) = am_cooldown_sec m"
    "am_channels (snd (accept_alert env c r m)) = am_channels m"
    "am_config (snd (accept_alert env c r m)) = am_config m"
    "alert_name (fst (accept_alert env c r m)) = rule_name r"
  using assms by (simp_all add: accept_alert_def escalate_severity_def Let_def split: prod.splits)

section \<open>Runs\<close>

primrec run_alerts :: "('w, 'n) alert_env \<Rightarrow> alert_call list \<Rightarrow> ('w, 'n) alert_manager
    \<Rightarrow> alert_record option res list \<times> ('w, 'n) alert_manager" where
  "run_alerts env [] m = ([], m)"
| "run_alerts env (c # cs) m = (case evaluate_metric env c m of (out, m1) \<Rightarrow>
     (case run_alerts env cs m1 of (outs, m2) \<Rightarrow> (out # outs, m2)))"

definition paged :: "string \<Rightarrow> alert_record option res \<Rightarrow> bool" where
  "paged name out \<longleftrightarrow> (case out of Inr (Some a) \<Rightarrow> alert_name a = name | _ \<Rightarrow> False)"

text \<open>An alert that is delivered with a severity below EMERGENCY.\<close>

definition paged_below :: "string \<Rightarrow> alert_record option res \<Rightarrow> bool" where
  "paged_below name out \<longleftrightarrow>
    (case out of Inr (Some a) \<Rightarrow> alert_name a = name \<and> alert_severity a \<noteq> EMERGENCY | _ \<Rightarrow> False)"

lemma paged_below_paged: "paged_below name out \<Longrightarrow> paged name out"
  by (auto simp: paged_below_def paged_def split: sum.splits option.splits)

definition windowed :: "('w, 'n) alert_env \<Rightarrow> bool" where
  "windowed env \<longleftrightarrow> co_suppress (ae_ops env) = None \<and> co_escalation (ae_ops env) = None"

lemma escalated_EMERGENCY: "escalated n EMERGENCY = EMERGENCY"
  by (simp add: escalated_def EMERGENCY_def CRITICAL_def WARNING_def)

lemma accept_EMERGENCY:
  "rule_severity r = EMERGENCY \<Longrightarrow> alert_severity (fst (accept_alert env c r m)) = EMERGENCY"
  by (simp add: accept_alert_def escalate_severity_def escalated_EMERGENCY Let_def
      split: prod.splits option.splits)

lemma call_window:
  assumes "evaluate_metric env c m = (out, m')" "windowed env"
  shows "am_cooldown_sec m' = am_cooldown_sec m \<and>
    (dget (last_alert_time m') name = dget (last_alert_time m) name \<and> \<not> paged name out \<or>
     dget (last_alert_time m') name = Some (ca_now_ts c) \<and>
     (paged_below name out \<longrightarrow> \<not> ca_now_ts c - dget_or (last_alert_time m) name 0 < am_cooldown_sec m))"
proof -
  have esc: "co_escalation (ae_ops env) = None" and sup: "co_suppress (ae_ops env) = None"
    using assms(2) by (simp_all add: windowed_def)
  show ?thesis using assms(1) sup
  proof (cases rule: evaluate_cases)
    case unchanged
    then show ?thesis by (simp add: paged_def)
  next
    case (accepted r w)
    then show ?thesis using accept_EMERGENCY [of r env c m]
      by (auto simp: accept_file [OF esc] dict_simps paged_def paged_below_def)
  qed
qed

text \<open>An EMERGENCY rule that is the first to trigger is never suppressed.\<close>

lemma evaluate_emergency:
  assumes "find (\<lambda>r. metric_name r = ca_metric c \<and> triggered r (ca_value c)) (am_rules m) = Some r"
    "rule_severity r = EMERGENCY"
  shows "(\<exists>a. fst (evaluate_metric env c m) = ok (Some a) \<and> alert_name a = rule_name r \<and>
      alert_severity a = EMERGENCY) \<or> (\<exists>e. fst (evaluate_metric env c m) = Inl e)"
proof -
  have "find (\<lambda>r. metric_name r = ca_metric c \<and> triggered r (ca_value c)) rs = Some r \<Longrightarrow>
      evaluate_rules env c rs m = fire_rule env c r m" for rs
    by (induction rs) (auto split: if_splits)
  then have "evaluate_metric env c m = fire_rule env c r m" using assms(1) by (simp add: evaluate_metric_def)
  moreover have "alert_name (fst (accept_alert env c r m)) = rule_name r"
    by (simp add: accept_alert_def split: prod.splits)
  ultimately show ?thesis
    using assms(2) accept_EMERGENCY [OF assms(2), of env c m]
    by (auto simp: fire_rule_def should_suppress_for_severity_def split: prod.splits sum.splits)
qed

lemma run_alerts_rules:
  assumes "run_alerts env cs m = (outs, m')" "windowed env" "k < length cs"
  shows "\<exists>mk. outs ! k = fst (evaluate_metric env (cs ! k) mk) \<and> am_rules mk = am_rules m"
  using assms
proof (induction cs arbitrary: m outs k)
  case (Cons c cs)
  obtain out m1 where e: "evaluate_metric env c m = (out, m1)" by force
  obtain outs1 where r: "run_alerts env cs m1 = (outs1, m')" "outs = out # outs1"
    using Cons.prems(1) e by (auto split: prod.splits)
  have ops: "co_suppress (ae_ops env) = None" "co_escalation (ae_ops env) = None"
    using Cons.prems(2) by (simp_all add: windowed_def)
  have rules: "am_rules m1 = am_rules m"
    using e ops(1) by (cases rule: evaluate_cases) (simp_all add: accept_file [OF ops(2)])
  show ?case
  proof (cases k)
    case 0
    then show ?thesis using e r(2) by (intro exI [of _ m]) simp
  next
    case (Suc l)
    then show ?thesis using Cons.IH [OF r(1) Cons.prems(2), of l] Cons.prems(3) r(2) rules by auto
  qed
qed simp

lemma window_from:
  assumes "run_alerts env cs m = (outs, m')" "windowed env"
    "dget (last_alert_time m) name = Some x" "t \<le> x" "is_finite x" "is_finite t"
    "\<forall>c \<in> set cs. is_finite (ca_now_ts c) \<and> t \<le> ca_now_ts c" "j < length cs" "paged_below name (outs ! j)"
  shows "\<not> ca_now_ts (cs ! j) - t < am_cooldown_sec m"
  using assms
proof (induction cs arbitrary: m outs j x)
  case Nil
  then show ?case by simp
next
  case (Cons c cs)
  obtain out m1 where e: "evaluate_metric env c m = (out, m1)" by force
  obtain outs1 where r: "run_alerts env cs m1 = (outs1, m')" "outs = out # outs1"
    using Cons.prems(1) e by (auto split: prod.splits)
  note cw = call_window [OF e Cons.prems(2), of name]
  show ?case
  proof (cases j)
    case 0
    then have "\<not> ca_now_ts c - x < am_cooldown_sec m" using cw Cons.prems(3,9) r paged_below_paged [of name out] by (auto simp: dget_or_def)
    moreover have "ca_now_ts c - x \<le> ca_now_ts c - t"
      using Cons.prems(4,5,6,7) by (intro diff_antimono_pyfloat) (auto simp: is_finite_def minus_pyfloat_def split: pyfloat.splits)
    ultimately show ?thesis using 0 by (auto dest: le_less_trans_pyfloat)
  next
    case (Suc k)
    have "\<exists>y. dget (last_alert_time m1) name = Some y \<and> t \<le> y \<and> is_finite y"
      using cw Cons.prems(3,4,5,7) by auto
    then obtain y where "dget (last_alert_time m1) name = Some y" "t \<le> y" "is_finite y" by blast
    then show ?thesis using Cons.IH [OF r(1) Cons.prems(2), of y k] cw Cons.prems(6,7,8,9) Suc r(2) by auto
  qed
qed

lemma windows_in_run:
  assumes "run_alerts env cs m = (outs, m')" "windowed env"
    "\<forall>c \<in> set cs. is_finite (ca_now_ts c)" "sorted_wrt (\<lambda>c d. ca_now_ts c \<le> ca_now_ts d) cs"
    "i < j" "j < length cs" "paged name (outs ! i)" "paged_below name (outs ! j)"
  shows "\<not> ca_now_ts (cs ! j) - ca_now_ts (cs ! i) < am_cooldown_sec m"
  using assms
proof (induction cs arbitrary: m outs i j)
  case Nil
  then show ?case by simp
next
  case (Cons c cs)
  obtain out m1 where e: "evaluate_metric env c m = (out, m1)" by force
  obtain outs1 where r: "run_alerts env cs m1 = (outs1, m')" "outs = out # outs1"
    using Cons.prems(1) e by (auto split: prod.splits)
  note cw = call_window [OF e Cons.prems(2), of name]
  obtain k where k: "j = Suc k" using Cons.prems(5) by (cases j) auto
  show ?case
  proof (cases i)
    case 0
    have fin: "is_finite (ca_now_ts c)" using Cons.prems(3) by simp
    then have refl: "ca_now_ts c \<le> ca_now_ts c" by (cases "ca_now_ts c") (auto simp: is_finite_def)
    show ?thesis
      using window_from [OF r(1) Cons.prems(2) _ refl fin fin, of name k] cw Cons.prems(3,4,6,7,8) 0 k r(2) by auto
  next
    case (Suc l)
    then show ?thesis using Cons.IH [OF r(1) Cons.prems(2), of l k] cw Cons.prems(3,4,5,6,7,8) k r(2) by auto
  qed
qed

section \<open>Snapshots\<close>

text \<open>What the manager relies on when it persists after every accepted alert.\<close>

locale snapshot_store =
  fixes load :: "'w \<Rightarrow> alert_times \<times> alert_counters"
    and persist :: "alert_times \<Rightarrow> alert_counters \<Rightarrow> 'w \<Rightarrow> 'w"
    and usable :: "'w \<Rightarrow> bool"
  assumes load_persist: "usable w \<Longrightarrow> load (persist ts cs w) = (ts, cs)"
    and usable_persist: "usable w \<Longrightarrow> usable (persist ts cs w)"
begin

definition in_sync :: "('w, 'n) alert_manager \<Rightarrow> bool" where
  "in_sync m \<longleftrightarrow> usable (am_store m) \<and> load (am_store m) = (last_alert_time m, alert_counts m)"

definition snapshots :: "('w, 'n) alert_env \<Rightarrow> bool" where
  "snapshots env \<longleftrightarrow> ae_ops env = \<lparr>co_load_all = load, co_persist = Some persist, co_suppress = None, co_escalation = None\<rparr>"

lemma evaluate_in_sync:
  assumes "evaluate_metric env c m = (out, m')" "snapshots env" "in_sync m"
  shows "in_sync m' \<and> am_cooldown_sec m' = am_cooldown_sec m \<and> am_channels m' = am_channels m
    \<and> am_config m' = am_config m \<and> am_rules m' = am_rules m"
proof -
  have ops: "co_suppress (ae_ops env) = None" "co_escalation (ae_ops env) = None" "co_persist (ae_ops env) = Some persist"
    using assms(2) by (simp_all add: snapshots_def)
  show ?thesis using assms(1) ops(1)
  proof (cases rule: evaluate_cases)
    case unchanged
    then show ?thesis using assms(3) by simp
  next
    case (accepted r w)
    then show ?thesis using assms(3) ops
      by (simp add: accept_file [OF ops(2)] in_sync_def)
        (simp add: accept_alert_def escalate_severity_def persist_state_def Let_def load_persist usable_persist)
  qed
qed

lemma run_in_sync:
  assumes "run_alerts env cs m = (outs, m')" "snapshots env" "in_sync m"
  shows "in_sync m' \<and> am_cooldown_sec m' = am_cooldown_sec m \<and> am_channels m' = am_channels m
    \<and> am_config m' = am_config m \<and> am_rules m' = am_rules m"
  using assms
proof (induction cs arbitrary: m outs)
  case Nil
  then show ?case by simp
next
  case (Cons c cs)
  obtain out m1 where e: "evaluate_metric env c m = (out, m1)" by force
  then show ?case using Cons.IH Cons.prems evaluate_in_sync [OF e] by (auto split: prod.splits)
qed

lemma restart_same:
  assumes "run_alerts env cs (new_alert_manager (ae_ops env) w wire cd ch cfg) = (outs, m')" "snapshots env" "usable w"
  shows "new_alert_manager (ae_ops env) (am_store m') (am_wire m') cd ch cfg = m'"
proof -
  have "in_sync (new_alert_manager (ae_ops env) w wire cd ch cfg)"
    using assms(2,3) by (auto simp: in_sync_def new_alert_manager_def snapshots_def split: prod.splits)
  note run = run_in_sync [OF assms(1,2) this]
  have "am_cooldown_sec m' = cd" "am_channels m' = ch" "am_config m' = cfg" "am_rules m' = default_rules"
    using run by (simp_all add: new_alert_manager_def split: prod.splits)
  moreover have "load (am_store m') = (last_alert_time m', alert_counts m')" using run by (simp add: in_sync_def)
  ultimately show ?thesis using assms(2) by (simp add: new_alert_manager_def snapshots_def)
qed

end

interpretation alert_file: snapshot_store file_load_all persist_snapshot writable
  by unfold_locales (simp_all add: file_load_all_def persist_snapshot_def)

section \<open>Properties\<close>

definition file_env :: "(string \<Rightarrow> payload \<Rightarrow> 'n \<Rightarrow> http_outcome \<times> 'n) \<Rightarrow> (pyfloat \<Rightarrow> string) \<Rightarrow> (disk, 'n) alert_env" where
  "file_env urlopen shown = \<lparr>ae_ops = file_store, ae_urlopen = urlopen, ae_show = shown\<rparr>"

lemma windowed_file [simp]: "windowed (file_env urlopen shown)"
  by (simp add: windowed_def file_env_def file_store_def)

text \<open>C17: cooldown windows over the file store, whatever the network and the disk do, over any run of
  evaluations at a clock that does not go back: an alert delivered with a severity below EMERGENCY is never
  closer than the cooldown (in the difference the code computes) to any earlier alert of its name; and a call whose
  first triggered rule is an EMERGENCY rule is never suppressed: it delivers with that severity or raises what the
  delivery raised.  Alerts that the counter escalates to EMERGENCY are outside the first part: the docstring wants them
  delivered regardless of the cooldown (the code suppresses them, see \<open>escalation_after_suppression\<close>).\<close>

theorem cooldown_spaces_alerts:
  assumes "run_alerts (file_env urlopen shown) cs m = (outs, m')"
    "\<forall>c \<in> set cs. is_finite (ca_now_ts c)" "sorted_wrt (\<lambda>c d. ca_now_ts c \<le> ca_now_ts d) cs"
  shows "(\<forall>i j name a. i < j \<and> j < length cs \<and> paged name (outs ! i) \<and>
      outs ! j = ok (Some a) \<and> alert_name a = name \<and> alert_severity a \<noteq> EMERGENCY \<longrightarrow>
      \<not> ca_now_ts (cs ! j) - ca_now_ts (cs ! i) < am_cooldown_sec m) \<and>
    (\<forall>k r. k < length cs \<and>
      find (\<lambda>r. metric_name r = ca_metric (cs ! k) \<and> triggered r (ca_value (cs ! k))) (am_rules m) = Some r \<and>
      rule_severity r = EMERGENCY \<longrightarrow>
      (\<exists>a. outs ! k = ok (Some a) \<and> alert_name a = rule_name r \<and> alert_severity a = EMERGENCY) \<or>
      (\<exists>e. outs ! k = Inl e))"
proof (intro conjI allI impI, goal_cases)
  case (1 i j name a)
  then show ?case
    using windows_in_run [OF assms(1) windowed_file assms(2,3), of i j name] by (simp add: paged_below_def)
next
  case (2 k r)
  then obtain mk where "outs ! k = fst (evaluate_metric (file_env urlopen shown) (cs ! k) mk)" "am_rules mk = am_rules m"
    using run_alerts_rules [OF assms(1) windowed_file, of k] by blast
  then show ?case using 2 evaluate_emergency [of "cs ! k" mk r "file_env urlopen shown"] by simp
qed

definition quiet_manager :: "(disk, unit) alert_manager" where
  "quiet_manager = new_alert_manager file_store \<lparr>state_path = Absent, writable = True\<rparr> \<lparr>wr_net = (), wr_slept = []\<rparr>
     (fl 300) \<lparr>slack_webhook_url = [], pagerduty_key = [], webhook_url = []\<rparr> default_alert_config"

definition drill_call :: "pyfloat \<Rightarrow> alert_call" where
  "drill_call now = \<lparr>ca_metric = ''drill_failure'', ca_value = 1, ca_custom_message = ''drill'', ca_now_ts = now,
     ca_alert_id = ''a'', ca_timestamp_us = 0\<rparr>"

definition quiet_env :: "(disk, unit) alert_env" where
  "quiet_env = file_env (\<lambda>_ _ n. (Response 200, n)) (\<lambda>_. [])"

lemmas alert_eval = quiet_manager_def drill_call_def quiet_env_def file_env_def new_alert_manager_def file_store_def
  file_load_all_def default_rules_def evaluate_metric_def triggered_def fire_rule_def should_suppress_for_severity_def
  accept_alert_def escalate_severity_def escalated_def persist_state_def persist_snapshot_def send_alert_channels_def
  over_channel_def WARNING_def CRITICAL_def EMERGENCY_def Let_def dget_or_def abind_def areturn_def

lemma quiet_run:
  "map (paged ''Drill Failure'') (fst (run_alerts quiet_env [drill_call (fl 1000), drill_call (fl 1100), drill_call (fl 1300)]
     quiet_manager)) = [True, False, True]"
  "map (paged_below ''Drill Failure'') (fst (run_alerts quiet_env [drill_call (fl 1000), drill_call (fl 1100), drill_call (fl 1300)]
     quiet_manager)) = [True, False, True]"
  by (simp_all add: paged_below_def alert_eval paged_def fl_eval float_eval zero_Fin one_Fin minus_pyfloat_def)

definition mismatch_call :: "pyfloat \<Rightarrow> alert_call" where
  "mismatch_call now = (drill_call now)\<lparr>ca_metric := ''reconciliation_mismatch''\<rparr>"

text \<open>The second drill alert falls into the window; the two mismatches, closer still, are both delivered.\<close>

theorem cooldown_spaces_alerts_witness:
  "\<not> fl 1300 - fl 1000 < fl 300 \<and> (\<exists>a. fst (evaluate_metric quiet_env (mismatch_call (fl 1301))
     (snd (evaluate_metric quiet_env (mismatch_call (fl 1300)) quiet_manager))) = ok (Some a) \<and>
     alert_severity a = EMERGENCY)"
proof
  define cs where "cs = [drill_call (fl 1000), drill_call (fl 1100), drill_call (fl 1300)]"
  obtain outs m' where run: "run_alerts quiet_env cs quiet_manager = (outs, m')" by force
  have out: "map (paged ''Drill Failure'') outs = [True, False, True]" "map (paged_below ''Drill Failure'') outs = [True, False, True]"
    using quiet_run run by (simp_all add: cs_def)
  have len: "length outs = 3" using arg_cong [OF out(1), of length] by simp
  have "paged ''Drill Failure'' (outs ! 0)" "paged_below ''Drill Failure'' (outs ! 2)"
    using nth_map [of 0 outs "paged ''Drill Failure''"] nth_map [of 2 outs "paged_below ''Drill Failure''"] out len by simp_all
  then obtain a where "outs ! 2 = ok (Some a)" "alert_name a = ''Drill Failure''" "alert_severity a \<noteq> EMERGENCY"
    by (auto simp: paged_below_def split: sum.splits option.splits)
  moreover have "\<forall>c \<in> set cs. is_finite (ca_now_ts c)" "sorted_wrt (\<lambda>c d. ca_now_ts c \<le> ca_now_ts d) cs"
    by (simp_all add: cs_def drill_call_def fl_eval float_eval is_finite_def)
  note spaced = cooldown_spaces_alerts [OF run [unfolded quiet_env_def] this, THEN conjunct1, rule_format,
      of 0 2 "''Drill Failure''" a]
  ultimately show "\<not> fl 1300 - fl 1000 < fl 300"
    using spaced \<open>paged ''Drill Failure'' (outs ! 0)\<close>
    by (simp add: cs_def drill_call_def quiet_manager_def new_alert_manager_def file_store_def file_load_all_def)
next
  define cs where "cs = [mismatch_call (fl 1300), mismatch_call (fl 1301)]"
  define outs where "outs = fst (run_alerts quiet_env cs quiet_manager)"
  have run: "run_alerts quiet_env cs quiet_manager = (outs, snd (run_alerts quiet_env cs quiet_manager))"
    by (simp add: outs_def)
  have nth: "outs ! 1 = fst (evaluate_metric quiet_env (mismatch_call (fl 1301))
      (snd (evaluate_metric quiet_env (mismatch_call (fl 1300)) quiet_manager)))"
    by (simp add: outs_def cs_def split: prod.splits)
  have fine: "\<nexists>e. outs ! 1 = Inl e"
    unfolding nth by (simp add: mismatch_call_def alert_eval fl_eval float_eval zero_Fin one_Fin)
  have rule: "\<exists>r. find (\<lambda>r. metric_name r = ca_metric (cs ! 1) \<and> triggered r (ca_value (cs ! 1))) (am_rules quiet_manager) =
      Some r \<and> rule_severity r = EMERGENCY"
    by (simp add: cs_def mismatch_call_def alert_eval zero_Fin one_Fin)
  have "\<forall>c \<in> set cs. is_finite (ca_now_ts c)" "sorted_wrt (\<lambda>c d. ca_now_ts c \<le> ca_now_ts d) cs" "1 < length cs"
    by (simp_all add: cs_def mismatch_call_def drill_call_def fl_eval float_eval is_finite_def)
  then show "\<exists>a. fst (evaluate_metric quiet_env (mismatch_call (fl 1301))
     (snd (evaluate_metric quiet_env (mismatch_call (fl 1300)) quiet_manager))) = ok (Some a) \<and> alert_severity a = EMERGENCY"
    using cooldown_spaces_alerts [OF run [unfolded quiet_env_def]] rule fine unfolding nth [symmetric] by blast
qed

text \<open>Suppression windows and escalation counters survive a restart: after any run of a manager whose
  state file can be written, whatever the network answers or raises, constructing a manager anew from the file gives
  the manager as it was, whether the file existed before or not.\<close>

theorem alert_state_survives_restart:
  assumes "run_alerts (file_env urlopen shown) cs (new_alert_manager file_store d w cd ch cfg) = (outs, m')" "writable d"
  shows "new_alert_manager file_store (am_store m') (am_wire m') cd ch cfg = m'"
  using alert_file.restart_same [of "file_env urlopen shown" cs d w cd ch cfg outs m'] assms
  by (simp add: alert_file.snapshots_def file_env_def file_store_def)

theorem alert_state_survives_restart_witness:
  "last_alert_time (new_alert_manager file_store (am_store (snd (evaluate_metric quiet_env (drill_call (fl 1000)) quiet_manager)))
     \<lparr>wr_net = (), wr_slept = []\<rparr> (fl 300) \<lparr>slack_webhook_url = [], pagerduty_key = [], webhook_url = []\<rparr> default_alert_config)
   = [(''Drill Failure'', fl 1000)]"
proof -
  obtain out m' where e: "evaluate_metric quiet_env (drill_call (fl 1000)) quiet_manager = (out, m')" by force
  have m': "am_wire m' = \<lparr>wr_net = (), wr_slept = []\<rparr>" "last_alert_time m' = [(''Drill Failure'', fl 1000)]"
    using e by (auto simp: alert_eval fl_eval float_eval zero_Fin one_Fin minus_pyfloat_def)
  have "run_alerts quiet_env [drill_call (fl 1000)] quiet_manager = ([out], m')" using e by simp
  from alert_state_survives_restart [OF this [unfolded quiet_env_def quiet_manager_def]] m' e show ?thesis by simp
qed

text \<open>A window key determines its rule and severity and the rule is read back from it: with names
  that contain colons, percent signs or any other character, keys of different rules or severities differ, and
  the scan of the stored keys recovers the rule name of every key that has one.\<close>

theorem window_keys_read_back:
  "rule_of_key pre (window_key pre rule sev) = (if rule = [] then None else Some rule) \<and>
    inj (\<lambda>(rule, sev). window_key pre rule sev)"
proof (intro conjI injI)
  show "rule_of_key pre (window_key pre rule sev) = (if rule = [] then None else Some rule)" by (rule rule_of_window_key)
  show "x = y" if "(\<lambda>(rule, sev). window_key pre rule sev) x = (\<lambda>(rule, sev). window_key pre rule sev) y" for x y
    using that window_key_parts [of pre "fst x" "snd x" "fst y" "snd y"] by (cases x; cases y) simp
qed

text \<open>Delivery ends after a bounded number of attempts: when no exception escapes, a result has at least one
  and at most the allowed attempts (three for an EMERGENCY by default, else one), a failure has used them all, and between attempts
  it has slept the backoff times 1, 2 and so on.\<close>

theorem delivery_bounded:
  assumes "dispatch_with_retries urlopen cfg chan url p emergency w = (ok r, w')" "0 \<le> emergency_max_retries cfg"
  shows "1 \<le> dr_attempts r \<and> dr_attempts r \<le> (if emergency then 1 + emergency_max_retries cfg else 1) \<and>
    (\<not> dr_ok r \<longrightarrow> dr_attempts r = (if emergency then 1 + emergency_max_retries cfg else 1)) \<and>
    wr_slept w' = wr_slept w @ map (\<lambda>k. retry_backoff_sec cfg * fl (rat_of_int k)) [1 .. dr_attempts r - 1]"
proof -
  have "0 \<le> (if emergency then 1 + emergency_max_retries cfg else 1)" "0 < (if emergency then 1 + emergency_max_retries cfg else 1)"
    using assms(2) by auto
  note spec = dispatch_loop_spec [OF assms(1) [unfolded dispatch_with_retries_def] this(1)] this(2)
  show ?thesis using spec by (cases "dr_ok r") (simp_all only: simp_thms, simp_all)
qed

theorem delivery_bounded_witness:
  "wr_slept (snd (dispatch_with_retries (\<lambda>_ _ n. (URLFailure ''down'', n)) default_alert_config ''webhook'' ''u''
     (SlackText ''x'') True \<lparr>wr_net = (), wr_slept = []\<rparr>)) = [fl 2, fl 4]"
proof -
  obtain res w' where run: "dispatch_with_retries (\<lambda>_ _ n. (URLFailure ''down'', n)) default_alert_config ''webhook'' ''u''
     (SlackText ''x'') True \<lparr>wr_net = (), wr_slept = []\<rparr> = (res, w')" by force
  have "\<exists>r. res = ok r \<and> dr_attempts r = 3"
    using run by (auto simp: dispatch_with_retries_def dispatch_loop.simps post_json_def time_sleep_def default_alert_config_def
        fl_eval float_eval zero_Fin)
  then obtain r where r: "res = ok r" "dr_attempts r = 3" by blast
  have "wr_slept w' = map (\<lambda>k. fl 2 * fl (rat_of_int k)) [1 .. 2]"
    using delivery_bounded [OF run [unfolded r(1)]] r(2) by (simp add: default_alert_config_def)
  also have "\<dots> = [fl 2, fl 4]" by (simp add: upto.simps fl_eval float_eval)
  finally show ?thesis using run by simp
qed

text \<open>An alert within its window is dropped whatever its counter says, although the record would have
  been escalated to EMERGENCY.\<close>

lemma escalation_after_suppression:
  assumes "co_suppress (ae_ops env) = None" "rule_severity r = CRITICAL" "metric_name r = ca_metric c" "triggered r (ca_value c)"
    "ca_now_ts c - dget_or (last_alert_time m) (rule_name r) 0 < am_cooldown_sec m"
  shows "evaluate_rules env c (r # rs) m = (ok None, m)"
  using assms by (simp add: fire_rule_def should_suppress_for_severity_def CRITICAL_def EMERGENCY_def)

end
