(* ===== verification/AuditLedger.thy ===== *)
theory AuditLedger
  imports Prelude
begin

text \<open>
  \<open>security/audit_ledger.py\<close>: the hash-chained audit log.  The digest \<open>h\<close> (SHA-256 as 64 hex digits), the JSON
  text of a payload and the database call are parameters; the clock and the identifier are arguments.
\<close>

section \<open>Records and the chain\<close>

record audit_record =
  record_id :: string
  timestamp_utc :: string
  event_type :: string
  payload_json :: string
  prev_hash :: string
  rec_hash :: string

definition GENESIS_HASH :: string where
  "GENESIS_HASH = replicate 64 CHR ''0''"

record 'd audit_ledger =
  chain :: "audit_record list"
  audit_db :: 'd

definition new_ledger :: "'d \<Rightarrow> 'd audit_ledger" where
  "new_ledger d = \<lparr>chain = [], audit_db = d\<rparr>"

definition data_str :: "string \<Rightarrow> string \<Rightarrow> string \<Rightarrow> string" where
  "data_str prev ty payload = prev @ ''|'' @ ty @ ''|'' @ payload"

definition compute_hash :: "(string \<Rightarrow> string) \<Rightarrow> string \<Rightarrow> string \<Rightarrow> string \<Rightarrow> string \<Rightarrow> string" where
  "compute_hash h prev ts ty payload = h (data_str prev ty payload)"

definition head_hash :: "audit_record list \<Rightarrow> string" where
  "head_hash xs = (if xs = [] then GENESIS_HASH else rec_hash (last xs))"

text \<open>\<open>dumps\<close> may raise before anything is appended; a failing insert is swallowed.\<close>

definition append_event :: "(string \<Rightarrow> string) \<Rightarrow> ('p \<Rightarrow> string res) \<Rightarrow> (audit_record \<Rightarrow> ('d, unit) act) option
    \<Rightarrow> string \<Rightarrow> string \<Rightarrow> string \<Rightarrow> 'p \<Rightarrow> ('d audit_ledger, audit_record) act" where
  "append_event h dumps db_execute ident ts ty payload l =
    (let prev = head_hash (chain l) in
     case dumps payload of
       Inl e \<Rightarrow> (Inl e, l)
     | Inr js \<Rightarrow>
         (let record = \<lparr>record_id = ident, timestamp_utc = ts, event_type = ty, payload_json = js, prev_hash = prev,
                rec_hash = compute_hash h prev ts ty js\<rparr>;
              l1 = l\<lparr>chain := chain l @ [record]\<rparr>
          in (ok record, case db_execute of
                None \<Rightarrow> l1
              | Some f \<Rightarrow> l1\<lparr>audit_db := snd (f record (audit_db l1))\<rparr>)))"

primrec verify_from :: "(string \<Rightarrow> string) \<Rightarrow> string \<Rightarrow> audit_record list \<Rightarrow> bool" where
  "verify_from h expected_prev [] \<longleftrightarrow> True"
| "verify_from h expected_prev (r # rs) \<longleftrightarrow>
    (if prev_hash r \<noteq> expected_prev then False
     else if rec_hash r \<noteq> compute_hash h (prev_hash r) (timestamp_utc r) (event_type r) (payload_json r) then False
     else verify_from h (rec_hash r) rs)"

definition verify_chain_integrity :: "(string \<Rightarrow> string) \<Rightarrow> 'd audit_ledger \<Rightarrow> bool" where
  "verify_chain_integrity h l \<longleftrightarrow> verify_from h GENESIS_HASH (chain l)"

section \<open>Appending\<close>

lemma head_hash_Cons: "head_hash (r # rs) = (if rs = [] then rec_hash r else head_hash rs)"
  by (simp add: head_hash_def)

lemma verify_from_append:
  "verify_from h p (xs @ ys) \<longleftrightarrow> verify_from h p xs \<and> verify_from h (if xs = [] then p else rec_hash (last xs)) ys"
  by (induction xs arbitrary: p) auto

lemma append_event_keeps:
  assumes "append_event h dumps db ident ts ty p l = (res, l')" "verify_chain_integrity h l"
  shows "verify_chain_integrity h l' \<and> (\<exists>ys. chain l' = chain l @ ys \<and> length ys = (if is_ok res then 1 else 0))"
proof (cases "dumps p")
  case (Inl e)
  then show ?thesis using assms by (auto simp: append_event_def)
next
  case (Inr js)
  then show ?thesis using assms
    by (auto simp: append_event_def verify_chain_integrity_def verify_from_append head_hash_def Let_def split: option.splits)
qed

text \<open>A run of calls, each with its identifier, timestamp, event type and payload.\<close>

primrec run_ledger :: "(string \<Rightarrow> string) \<Rightarrow> ('p \<Rightarrow> string res) \<Rightarrow> (audit_record \<Rightarrow> ('d, unit) act) option
    \<Rightarrow> (string \<times> string \<times> string \<times> 'p) list \<Rightarrow> 'd audit_ledger \<Rightarrow> 'd audit_ledger" where
  "run_ledger h dumps db [] l = l"
| "run_ledger h dumps db (c # cs) l = (case c of (ident, ts, ty, p) \<Rightarrow>
     run_ledger h dumps db cs (snd (append_event h dumps db ident ts ty p l)))"

lemma run_ledger_keeps:
  "verify_chain_integrity h l \<Longrightarrow> verify_chain_integrity h (run_ledger h dumps db cs l) \<and>
    (\<exists>ys. chain (run_ledger h dumps db cs l) = chain l @ ys)"
proof (induction cs arbitrary: l)
  case (Cons c cs)
  obtain ident ts ty p where c: "c = (ident, ts, ty, p)" by (cases c)
  obtain res l1 where a: "append_event h dumps db ident ts ty p l = (res, l1)" by force
  show ?case using append_event_keeps [OF a Cons.prems] Cons.IH [of l1] a c by auto
qed simp

lemma run_ledger_append: "run_ledger h dumps db (cs @ cs') l = run_ledger h dumps db cs' (run_ledger h dumps db cs l)"
  by (induction cs arbitrary: l) (auto split: prod.splits)

lemma new_ledger_run: "verify_chain_integrity h (run_ledger h dumps db cs (new_ledger d))"
  using run_ledger_keeps [of h "new_ledger d" dumps db cs] by (simp add: new_ledger_def verify_chain_integrity_def)

section \<open>What a chain fixes\<close>

definition rec_data :: "audit_record \<Rightarrow> string" where
  "rec_data r = data_str (prev_hash r) (event_type r) (payload_json r)"

lemma verify_snoc:
  "verify_from h p (xs @ [r]) \<longleftrightarrow> verify_from h p xs \<and> prev_hash r = (if xs = [] then p else rec_hash (last xs)) \<and>
    rec_hash r = h (rec_data r)"
  by (auto simp: verify_from_append compute_hash_def rec_data_def)

lemma verify_snoc_head:
  "verify_from h GENESIS_HASH (xs @ [r]) \<longleftrightarrow> verify_from h GENESIS_HASH xs \<and> prev_hash r = head_hash xs \<and>
    rec_hash r = h (rec_data r)"
  by (auto simp: verify_snoc head_hash_def)

lemma rec_data_prev:
  assumes "rec_data r = rec_data s" "length (prev_hash r) = length (prev_hash s)"
  shows "prev_hash r = prev_hash s"
  using assms by (simp add: rec_data_def data_str_def)

lemma head_length:
  assumes "verify_from h GENESIS_HASH xs" "\<forall>r \<in> set xs. length (h (rec_data r)) = 64"
  shows "length (head_hash xs) = 64"
  using assms by (cases xs rule: rev_cases) (auto simp: head_hash_def GENESIS_HASH_def verify_snoc)

lemma chains_agree:
  assumes "verify_from h GENESIS_HASH xs" "verify_from h GENESIS_HASH ys" "head_hash xs = head_hash ys"
    "\<forall>r \<in> set xs \<union> set ys. length (h (rec_data r)) = 64 \<and> h (rec_data r) \<noteq> GENESIS_HASH"
    "inj_on h (rec_data ` (set xs \<union> set ys))"
  shows "map rec_data xs = map rec_data ys"
  using assms
proof (induction xs arbitrary: ys rule: rev_induct)
  case Nil
  then show ?case by (cases ys rule: rev_cases) (auto simp: head_hash_def verify_snoc)
next
  case (snoc x xs)
  show ?case
  proof (cases ys rule: rev_cases)
    case Nil
    then show ?thesis using snoc.prems by (auto simp: head_hash_def verify_snoc)
  next
    case ys: (snoc ys' y)
    have "h (rec_data x) = h (rec_data y)"
      using snoc.prems(1,2,3) ys by (auto simp: verify_snoc head_hash_def)
    then have same: "rec_data x = rec_data y"
      by (rule inj_onD [OF snoc.prems(5)]) (auto simp: ys)
    have "length (prev_hash x) = 64" "length (prev_hash y) = 64"
      using snoc.prems(1,2,4) ys head_length by (auto simp: verify_snoc_head)
    then have "prev_hash x = prev_hash y" using rec_data_prev [OF same] by simp
    then have "head_hash xs = head_hash ys'" using snoc.prems(1,2) ys by (auto simp: verify_snoc_head)
    moreover have "inj_on h (rec_data ` (set xs \<union> set ys'))"
      by (rule inj_on_subset [OF snoc.prems(5)]) (auto simp: ys)
    ultimately have "map rec_data xs = map rec_data ys'"
      using snoc.prems(1,2,4) ys by (intro snoc.IH) (auto simp: verify_snoc)
    then show ?thesis using ys same by simp
  qed
qed

section \<open>Properties\<close>

text \<open>The ledger is append-only and always verifies: whatever the digest, the database and the payloads,
  after any run of calls the chain starts with the chain before it and passes the integrity check.\<close>

theorem ledger_stays_verified:
  "verify_chain_integrity h (run_ledger h dumps db cs (new_ledger d)) \<and>
    take (length (chain (run_ledger h dumps db cs (new_ledger d))))
      (chain (run_ledger h dumps db (cs @ cs') (new_ledger d))) = chain (run_ledger h dumps db cs (new_ledger d))"
  using new_ledger_run [of h dumps db cs d] run_ledger_keeps [OF new_ledger_run [of h dumps db cs d], of dumps db cs']
  by (auto simp: run_ledger_append)

text \<open>The head hash pins the history: two chains that pass the check and end in the same hash have the
  same hashed text in every record and the same length, unless the digest of two of these texts collides or a
  text hashes to the genesis value.\<close>

theorem head_hash_pins_history:
  assumes "verify_chain_integrity h l" "verify_chain_integrity h l'" "head_hash (chain l) = head_hash (chain l')"
    "\<forall>r \<in> set (chain l) \<union> set (chain l'). length (h (rec_data r)) = 64 \<and> h (rec_data r) \<noteq> GENESIS_HASH"
    "inj_on h (rec_data ` (set (chain l) \<union> set (chain l')))"
  shows "map rec_data (chain l) = map rec_data (chain l')"
  using chains_agree assms unfolding verify_chain_integrity_def by blast

definition demo_digest :: "string \<Rightarrow> string" where
  "demo_digest s = replicate 63 CHR ''a'' @ [last s]"

lemma demo_digest_genesis: "demo_digest s \<noteq> GENESIS_HASH"
proof
  assume "demo_digest s = GENESIS_HASH"
  then have "hd (demo_digest s) = hd GENESIS_HASH" by simp
  then show False by (simp add: demo_digest_def GENESIS_HASH_def hd_append)
qed

definition demo_ledger :: "string \<Rightarrow> unit audit_ledger" where
  "demo_ledger ts = run_ledger demo_digest ok None [(''aud_1'', ts, ''HALT'', ''x''), (''aud_2'', ts, ''RESUME'', ''y'')] (new_ledger ())"

theorem head_hash_pins_history_witness:
  "map rec_data (chain (demo_ledger ''t0'')) = map rec_data (chain (demo_ledger ''t1''))"
proof (rule head_hash_pins_history [where h = demo_digest])
  show "verify_chain_integrity demo_digest (demo_ledger ''t0'')" "verify_chain_integrity demo_digest (demo_ledger ''t1'')"
    unfolding demo_ledger_def by (rule new_ledger_run)+
  show "head_hash (chain (demo_ledger ''t0'')) = head_hash (chain (demo_ledger ''t1''))"
    "\<forall>r \<in> set (chain (demo_ledger ''t0'')) \<union> set (chain (demo_ledger ''t1'')).
      length (demo_digest (rec_data r)) = 64 \<and> demo_digest (rec_data r) \<noteq> GENESIS_HASH"
    "inj_on demo_digest (rec_data ` (set (chain (demo_ledger ''t0'')) \<union> set (chain (demo_ledger ''t1''))))"
    using demo_digest_genesis
    by (simp_all add: demo_ledger_def new_ledger_def append_event_def head_hash_def rec_data_def data_str_def
        compute_hash_def Let_def inj_on_def)
      (simp_all add: demo_digest_def)
qed

text \<open>What the check does not see: the identifier and timestamp of a record, a bar moved between event type
  and payload, and a chain cut short.\<close>

lemma metadata_unprotected:
  "verify_from h p (xs @ r # ys) \<Longrightarrow> verify_from h p (xs @ r\<lparr>record_id := i, timestamp_utc := t\<rparr> # ys)"
  by (auto simp: verify_from_append compute_hash_def split: if_splits)

lemma bar_moves:
  "data_str prev (ty @ ''|'' @ s) payload = data_str prev ty (s @ ''|'' @ payload)"
  by (simp add: data_str_def)

lemma truncation_verifies: "verify_from h p (xs @ ys) \<Longrightarrow> verify_from h p xs"
  by (simp add: verify_from_append)

end
