(* ===== verification/Regime.thy ===== *)
theory Regime
  imports Shadow
begin

text \<open>
  \<open>synthetic/regime_validator.py\<close>: session volatility with its slow baseline, the stress score, the
  variance tracker, the regime thresholds and the metrics of an event log.  The macro tracker is one object
  that the scaler, the thresholds and the variance tracker of a validator share: it is a field of the
  validator's record and an argument of their methods.  \<open>diff**2\<close> raises where the square overflows.
\<close>

section \<open>Macro volatility\<close>

datatype regime = CALM | BUY_STRESS | SELL_STRESS | FRAGILE_BALANCED | ADVERSARIAL_SHOCK

record macro_vol =
  lambda_slow :: pyfloat
  lambda_ultra_slow :: pyfloat
  warmup_ticks :: int
  convergence_threshold :: pyfloat
  annealing_rate :: pyfloat
  tick_count :: int
  ewma_vol :: pyfloat
  ewma_ultra_slow :: pyfloat
  baseline_vol :: "pyfloat option"
  last_price :: "pyfloat option"
  vol_samples :: "pyfloat list"
  convergence_ema :: pyfloat
  annealing_applied_count :: int

definition new_macro_vol :: macro_vol where
  "new_macro_vol = \<lparr>lambda_slow = fl (1/1000), lambda_ultra_slow = fl (1/10000), warmup_ticks = 500,
     convergence_threshold = fl (15/100), annealing_rate = fl (5/1000), tick_count = 0, ewma_vol = 0,
     ewma_ultra_slow = 0, baseline_vol = None, last_price = None, vol_samples = [], convergence_ema = 0,
     annealing_applied_count = 0\<rparr>"

definition ewma :: "pyfloat \<Rightarrow> pyfloat \<Rightarrow> pyfloat \<Rightarrow> pyfloat" where
  "ewma lam v x = (if feq v 0 then x else (1 - lam) * v + lam * x)"

text \<open>A \<open>deque\<close> with a bound drops its oldest entries.\<close>

definition push_bounded :: "nat \<Rightarrow> 'a \<Rightarrow> 'a list \<Rightarrow> 'a list" where
  "push_bounded n x xs = (let ys = xs @ [x] in drop (length ys - n) ys)"

definition update_vols :: "pyfloat \<Rightarrow> macro_vol \<Rightarrow> macro_vol" where
  "update_vols abs_ret m =
    (let v = ewma (lambda_slow m) (ewma_vol m) abs_ret;
         m1 = m\<lparr>ewma_vol := v, ewma_ultra_slow := ewma (lambda_ultra_slow m) (ewma_ultra_slow m) abs_ret,
           vol_samples := push_bounded 5000 v (vol_samples m)\<rparr>
     in if warmup_ticks m1 \<le> tick_count m1 \<and> baseline_vol m1 = None
        then m1\<lparr>baseline_vol := Some (if 0 < ewma_vol m1 then ewma_vol m1 else fl (1/10000))\<rparr> else m1)"

definition track_convergence :: "(macro_vol, unit) act" where
  "track_convergence m =
    (if 0 < ewma_ultra_slow m then
       (case fdiv (abs (ewma_vol m - ewma_ultra_slow m)) (ewma_ultra_slow m) of
          Inl e \<Rightarrow> (Inl e, m)
        | Inr d \<Rightarrow> (ok (), m\<lparr>convergence_ema := fl (95/100) * convergence_ema m + fl (5/100) * d\<rparr>))
     else (ok (), m))"

definition macro_update :: "pyfloat \<Rightarrow> (macro_vol, unit) act" where
  "macro_update price m =
    (let m1 = m\<lparr>tick_count := tick_count m + 1\<rparr> in
     case last_price m1 of
       None \<Rightarrow> (ok (), m1\<lparr>last_price := Some price\<rparr>)
     | Some p \<Rightarrow>
         (case fdiv (price - p) (pymax p (fl (1/1000000))) of
            Inl e \<Rightarrow> (Inl e, m1)
          | Inr ret \<Rightarrow> track_convergence (update_vols (abs ret) (m1\<lparr>last_price := Some price\<rparr>))))"

definition conditional_anneal :: "string \<Rightarrow> bool \<Rightarrow> macro_vol \<Rightarrow> bool \<times> macro_vol" where
  "conditional_anneal current_state is_defense_locked m =
    (if is_defense_locked then (False, m)
     else if current_state \<notin> {''NORMAL'', ''RECOVERING''} then (False, m)
     else case baseline_vol m of
       None \<Rightarrow> (False, m)
     | Some b \<Rightarrow>
         if ewma_ultra_slow m \<le> 0 then (False, m)
         else if convergence_ema m \<le> convergence_threshold m then
           (True, m\<lparr>baseline_vol := Some ((1 - annealing_rate m) * b + annealing_rate m * ewma_ultra_slow m),
              annealing_applied_count := annealing_applied_count m + 1\<rparr>)
         else (False, m))"

definition vol_ratio :: "macro_vol \<Rightarrow> pyfloat res" where
  "vol_ratio m = (case baseline_vol m of
     None \<Rightarrow> ok 1
   | Some b \<Rightarrow> if b \<le> 0 then ok 1 else fdiv (ewma_vol m) b)"

section \<open>Stress\<close>

record stress_scaler =
  k_base :: pyfloat
  k_floor :: pyfloat
  k_ceiling :: pyfloat
  defense_lockout_active :: bool

definition new_stress_scaler :: "pyfloat \<Rightarrow> stress_scaler" where
  "new_stress_scaler k = \<lparr>k_base = k, k_floor = fl (1/2), k_ceiling = fl 10, defense_lockout_active = False\<rparr>"

definition update_baseline :: "stress_scaler \<Rightarrow> pyfloat \<Rightarrow> string \<Rightarrow> (macro_vol, unit) act" where
  "update_baseline sc price current_state m =
    (if \<not> defense_lockout_active sc then
       (case macro_update price m of
          (Inl e, m1) \<Rightarrow> (Inl e, m1)
        | (Inr _, m1) \<Rightarrow> (ok (), snd (conditional_anneal current_state (defense_lockout_active sc) m1)))
     else (ok (), m))"

definition k_dynamic :: "stress_scaler \<Rightarrow> macro_vol \<Rightarrow> pyfloat res" where
  "k_dynamic sc m =
    (if defense_lockout_active sc then ok (k_base sc)
     else rbind (vol_ratio m) (\<lambda>ratio. ok (pymax (k_floor sc) (pymin (k_ceiling sc) (k_base sc * ratio)))))"

definition calculate_stress :: "stress_scaler \<Rightarrow> macro_vol \<Rightarrow> pyfloat \<Rightarrow> pyfloat \<Rightarrow> pyfloat res" where
  "calculate_stress sc m lwr_ext ofi_norm =
    (let x = pymax 0 (fl (1/2) * lwr_ext + 1 * abs ofi_norm) in
     rbind (k_dynamic sc m) (\<lambda>k. rbind (fdiv x (x + k)) (\<lambda>q. ok (round_digits q 4))))"

section \<open>The variance tracker\<close>

record ewmv =
  lambda_base :: pyfloat
  ew_mu :: pyfloat
  ew_variance :: pyfloat
  ew_initialized :: bool

definition new_ewmv :: "pyfloat \<Rightarrow> ewmv" where
  "new_ewmv lam = \<lparr>lambda_base = lam, ew_mu = 0, ew_variance = 0, ew_initialized = False\<rparr>"

definition fsquare :: "pyfloat \<Rightarrow> pyfloat res" where
  "fsquare x = (if is_finite x \<and> \<not> is_finite (x * x) then raise OverflowError else ok (x * x))"

definition lambda_adaptive :: "macro_vol option \<Rightarrow> ewmv \<Rightarrow> pyfloat res" where
  "lambda_adaptive macro w = (case macro of
     None \<Rightarrow> ok (lambda_base w)
   | Some m \<Rightarrow> rbind (vol_ratio m) (\<lambda>ratio.
       ok (pymax (fl (1/100)) (pymin (fl (20/100)) (lambda_base w * pymin ratio (fl 3))))))"

definition ew_sigma :: "ewmv \<Rightarrow> pyfloat res" where
  "ew_sigma w = fsqrt (pymax 0 (ew_variance w))"

definition ewmv_update :: "macro_vol option \<Rightarrow> pyfloat \<Rightarrow> (ewmv, pyfloat) act" where
  "ewmv_update macro price w = (case lambda_adaptive macro w of
     Inl e \<Rightarrow> (Inl e, w)
   | Inr lam \<Rightarrow>
       if \<not> ew_initialized w then (ok 0, w\<lparr>ew_mu := price, ew_variance := 0, ew_initialized := True\<rparr>)
       else (let diff = price - ew_mu w; w1 = w\<lparr>ew_mu := (1 - lam) * ew_mu w + lam * price\<rparr> in
         case fsquare diff of
           Inl e \<Rightarrow> (Inl e, w1)
         | Inr sq \<Rightarrow> (let w2 = w1\<lparr>ew_variance := (1 - lam) * ew_variance w1 + lam * sq\<rparr> in (ew_sigma w2, w2))))"

section \<open>Thresholds\<close>

definition classify_regime :: "macro_vol \<Rightarrow> pyfloat \<Rightarrow> pyfloat \<Rightarrow> pyfloat \<Rightarrow> regime res" where
  "classify_regime m lwr_ext ofi_norm stress =
    rbind (vol_ratio m) (\<lambda>ratio.
     (let t = fl (30/100) in
      ok (if fl 5 * ratio < lwr_ext \<or> fl (75/100) \<le> stress then ADVERSARIAL_SHOCK
          else if fl 3 * ratio < lwr_ext \<and> abs ofi_norm \<le> t then FRAGILE_BALANCED
          else if fl (25/10) * ratio < lwr_ext \<and> ofi_norm < - t then SELL_STRESS
          else if fl (25/10) * ratio < lwr_ext \<and> t < ofi_norm then BUY_STRESS
          else CALM)))"

section \<open>The validator\<close>

record regime_validator =
  min_trade_qty :: pyfloat
  rv_epsilon :: pyfloat
  rv_macro :: macro_vol
  rv_scaler :: stress_scaler
  rv_ewmv :: ewmv

definition new_regime_validator :: "pyfloat \<Rightarrow> pyfloat \<Rightarrow> pyfloat \<Rightarrow> regime_validator" where
  "new_regime_validator min_qty k eps = \<lparr>min_trade_qty = min_qty, rv_epsilon = eps, rv_macro = new_macro_vol,
     rv_scaler = new_stress_scaler k, rv_ewmv = new_ewmv (fl (5/100))\<rparr>"

definition on_tick :: "pyfloat \<Rightarrow> pyfloat \<Rightarrow> string \<Rightarrow> (regime_validator, pyfloat) act" where
  "on_tick price micro_price current_state v =
    (case update_baseline (rv_scaler v) price current_state (rv_macro v) of
       (Inl e, m) \<Rightarrow> (Inl e, v\<lparr>rv_macro := m\<rparr>)
     | (Inr _, m) \<Rightarrow>
         (case ewmv_update (Some m) micro_price (rv_ewmv v) of (r, w) \<Rightarrow> (r, v\<lparr>rv_macro := m, rv_ewmv := w\<rparr>)))"

definition set_defense_lockout :: "bool \<Rightarrow> regime_validator \<Rightarrow> regime_validator" where
  "set_defense_lockout active v = v\<lparr>rv_scaler := (rv_scaler v)\<lparr>defense_lockout_active := active\<rparr>\<rparr>"

text \<open>An entry of the event log: a missing key reads as its default.\<close>

record log_entry =
  le_timestamp_ms :: "pyfloat option"
  le_event_type :: "string option"
  le_side :: "string option"
  le_qty :: "pyfloat option"
  le_source :: "string option"

definition default_to :: "'a \<Rightarrow> 'a option \<Rightarrow> 'a" where
  "default_to d x = (case x of None \<Rightarrow> d | Some v \<Rightarrow> v)"

definition volume_of :: "(log_entry \<Rightarrow> bool) \<Rightarrow> log_entry list \<Rightarrow> pyfloat" where
  "volume_of P es = fsum (map (\<lambda>e. default_to 0 (le_qty e)) (filter P es))"

definition is_trade :: "string \<Rightarrow> log_entry \<Rightarrow> bool" where
  "is_trade side e \<longleftrightarrow> le_event_type e = Some ''trade'' \<and> le_side e = Some side"

definition is_cancel :: "log_entry \<Rightarrow> bool" where
  "is_cancel e \<longleftrightarrow> le_event_type e = Some ''cancel''"

definition is_external_cancel :: "log_entry \<Rightarrow> bool" where
  "is_external_cancel e \<longleftrightarrow> is_cancel e \<and> default_to ''EXTERNAL_MARKET'' (le_source e) \<noteq> ''INTERNAL_STRATEGY''"

record metrics =
  mm_ofi :: pyfloat
  mm_ofi_norm :: pyfloat
  mm_lwr :: pyfloat
  mm_lwr_ext :: pyfloat
  stress_score :: pyfloat
  mm_regime :: regime
  regime_shift_detected :: bool
  effective_window_ms :: pyfloat
  window_truncated :: bool
  events_analyzed :: int
  mm_confidence :: string
  mm_k_dynamic :: pyfloat
  mm_vol_ratio :: pyfloat
  sigma_micro :: pyfloat
  ultra_slow_vol :: pyfloat
  convergence_metric :: pyfloat

definition calculate_microstructure_metrics :: "log_entry list \<Rightarrow> int option \<Rightarrow> int \<Rightarrow> pyfloat \<Rightarrow> regime_validator
    \<Rightarrow> metrics res" where
  "calculate_microstructure_metrics event_log maxlen window_ms now_ms v =
    (let cutoff = now_ms - float_of_int window_ms;
         recent = filter (\<lambda>e. cutoff \<le> default_to 0 (le_timestamp_ms e)) event_log;
         n = int (length recent);
         window = (case map (\<lambda>e. default_to now_ms (le_timestamp_ms e)) recent of
             [] \<Rightarrow> 0 | t # ts \<Rightarrow> now_ms - foldl pymin t ts);
         truncated = (case maxlen of None \<Rightarrow> False
             | Some k \<Rightarrow> k \<le> int (length event_log) \<and> window < float_of_int window_ms * fl (95/100));
         buy = volume_of (is_trade ''buy'') recent; sell = volume_of (is_trade ''sell'') recent;
         all_cancel = volume_of is_cancel recent; ext_cancel = volume_of is_external_cancel recent;
         traded = buy + sell; ofi = buy - sell;
         denom = pymax traded (min_trade_qty v);
         m = rv_macro v; sc = rv_scaler v
     in rbind (fdiv (buy - sell) (traded + rv_epsilon v)) (\<lambda>ofi_norm.
        rbind (fdiv all_cancel denom) (\<lambda>lwr.
        rbind (fdiv ext_cancel denom) (\<lambda>lwr_ext.
        rbind (calculate_stress sc m lwr_ext ofi_norm) (\<lambda>stress.
        rbind (classify_regime m lwr_ext ofi_norm stress) (\<lambda>rg.
        rbind (k_dynamic sc m) (\<lambda>k.
        rbind (vol_ratio m) (\<lambda>ratio.
        rbind (ew_sigma (rv_ewmv v)) (\<lambda>sg.
          ok \<lparr>mm_ofi = round_digits ofi 2, mm_ofi_norm = round_digits ofi_norm 4, mm_lwr = round_digits lwr 2,
            mm_lwr_ext = round_digits lwr_ext 2, stress_score = stress, mm_regime = rg,
            regime_shift_detected = (rg \<noteq> CALM), effective_window_ms = round_digits window 1,
            window_truncated = truncated, events_analyzed = n,
            mm_confidence = (if 50 \<le> n \<and> \<not> truncated then ''HIGH'' else if 10 \<le> n then ''MEDIUM'' else ''LOW''),
            mm_k_dynamic = round_digits k 2, mm_vol_ratio = round_digits ratio 2, sigma_micro = round_digits sg 4,
            ultra_slow_vol = round_digits (ewma_ultra_slow m) 6,
            convergence_metric = round_digits (convergence_ema m) 4\<rparr>)))))))))"

definition validate_reflex :: "pyfloat \<Rightarrow> bool \<Rightarrow> bool \<Rightarrow> bool" where
  "validate_reflex latency_ms issuer_token_used data_staleness_halted \<longleftrightarrow>
    latency_ms \<le> fl 500 \<and> issuer_token_used \<and> data_staleness_halted"

definition validate_cognition :: "pyfloat \<Rightarrow> pyfloat \<Rightarrow> pyfloat \<Rightarrow> bool" where
  "validate_cognition latency_min entries_blocked_pct max_drawdown_pct \<longleftrightarrow>
    latency_min \<le> fl 3 \<and> fl (80/100) \<le> entries_blocked_pct \<and> max_drawdown_pct < fl (8/100)"

section \<open>Ranges\<close>

lemma vol_ratio_ok: "\<exists>r. vol_ratio m = ok r"
proof (cases "baseline_vol m")
  case (Some b)
  have "\<not> b \<le> 0 \<Longrightarrow> \<not> feq b 0" by (cases b) (auto simp: feq_def zero_Fin)
  then show ?thesis using Some fdiv_ok by (auto simp: vol_ratio_def)
qed (simp add: vol_ratio_def)

lemma clamp_range: "lo \<le> hi \<Longrightarrow> lo \<le> pymax lo (pymin hi x) \<and> pymax lo (pymin hi x) \<le> (hi :: pyfloat)"
  by (cases lo; cases hi; cases x) (auto simp: pymax_def pymin_def)

definition scaler_ok :: "stress_scaler \<Rightarrow> bool" where
  "scaler_ok sc \<longleftrightarrow> 0 < k_floor sc \<and> k_floor sc \<le> k_base sc \<and> k_base sc \<le> k_ceiling sc \<and> is_finite (k_ceiling sc)"

lemma k_dynamic_range:
  assumes "scaler_ok sc"
  shows "\<exists>k. k_dynamic sc m = ok k \<and> k_floor sc \<le> k \<and> k \<le> k_ceiling sc"
proof -
  obtain r where r: "vol_ratio m = ok r" using vol_ratio_ok by blast
  have "k_floor sc \<le> k_ceiling sc" using assms le_trans_pyfloat unfolding scaler_ok_def by blast
  then show ?thesis using assms r clamp_range by (auto simp: k_dynamic_def scaler_ok_def)
qed

lemma fl_unit: "0 \<le> r \<Longrightarrow> r \<le> 1 \<Longrightarrow> 0 \<le> fl r \<and> fl r \<le> 1"
  using fl_mono [of 0 r] fl_mono [of r 1] by simp

lemma saturation:
  assumes "is_float x" "0 \<le> x" "is_finite x" "lo \<le> k" "0 < lo" "is_float lo" "is_finite k"
  shows "\<exists>q. fdiv x (x + k) = ok q \<and> 0 \<le> q \<and> q \<le> 1"
proof -
  obtain a c b where a: "x = Fin a" "0 \<le> a" and c: "k = Fin c" and b: "lo = Fin b" "0 < b" "b \<le> c"
    using assms by (cases x; cases k; cases lo) (auto simp: zero_Fin is_finite_def)
  have own: "fl a = Fin a" "fl b = Fin b" using assms(1,6) a(1) b(1) fl_fixed by (simp_all add: is_float_def)
  have "fl a \<le> fl (a + c)" "fl b \<le> fl (a + c)" using a b by (auto intro: fl_mono)
  then have le: "x \<le> x + k" "lo \<le> x + k" using a b c own by simp_all
  show ?thesis
  proof (cases "x + k")
    case (Fin s)
    have "a \<le> s" "0 < s" using le a b Fin by simp_all
    then have "0 \<le> a / s" "a / s \<le> 1" using a by auto
    then have "0 \<le> fl (a / s) \<and> fl (a / s) \<le> 1" by (rule fl_unit)
    then show ?thesis using \<open>0 < s\<close> a Fin by (auto simp: zero_Fin)
  qed (use le a b in \<open>auto simp: zero_Fin one_Fin is_finite_def\<close>)
qed

lemma round_digits_unit: "0 \<le> q \<Longrightarrow> q \<le> 1 \<Longrightarrow> 0 \<le> round_digits q n \<and> round_digits q n \<le> 1"
proof (cases q)
  case (Fin a)
  assume "0 \<le> q" "q \<le> 1"
  then have a: "0 \<le> a" "a \<le> 1" using Fin by (simp_all add: zero_Fin one_Fin)
  have "0 \<le> rne (a * 10 ^ n)" by (rule rne_ge_int) (use a in simp)
  moreover have "rne (a * 10 ^ n) \<le> 10 ^ n" by (rule rne_le_int) (use a in simp)
  ultimately have "0 \<le> rat_of_int (rne (a * 10 ^ n)) / 10 ^ n" "rat_of_int (rne (a * 10 ^ n)) / 10 ^ n \<le> 1"
    by (simp_all add: divide_le_eq)
  then have "0 \<le> fl (rat_of_int (rne (a * 10 ^ n)) / 10 ^ n) \<and> fl (rat_of_int (rne (a * 10 ^ n)) / 10 ^ n) \<le> 1"
    by (rule fl_unit)
  then show ?thesis using Fin by (simp add: round_digits_def)
qed (auto simp: zero_Fin one_Fin)

lemma is_float_pymax: "is_float x \<Longrightarrow> is_float y \<Longrightarrow> is_float (pymax x y)"
  by (simp add: pymax_def)

section \<open>The lockout\<close>

definition run_ticks :: "(pyfloat \<times> pyfloat \<times> string) list \<Rightarrow> regime_validator \<Rightarrow> regime_validator" where
  "run_ticks ts v = foldl (\<lambda>v (p, mp, st). snd (on_tick p mp st v)) v ts"

lemma locked_tick:
  "defense_lockout_active (rv_scaler v) \<Longrightarrow>
    rv_macro (snd (on_tick p mp st v)) = rv_macro v \<and> rv_scaler (snd (on_tick p mp st v)) = rv_scaler v"
  by (simp add: on_tick_def update_baseline_def split: prod.splits)

lemma locked_ticks:
  "defense_lockout_active (rv_scaler v) \<Longrightarrow>
    rv_macro (run_ticks ts v) = rv_macro v \<and> rv_scaler (run_ticks ts v) = rv_scaler v"
  unfolding run_ticks_def
proof (induction ts arbitrary: v)
  case (Cons t ts)
  obtain p mp st where "t = (p, mp, st)" by (cases t)
  then show ?case using Cons locked_tick [of v p mp st] by simp
qed simp

section \<open>Properties\<close>



text \<open>While the defence lockout is active nothing the market does moves the yardstick: after any ticks the
  volatility baseline is the one before them, so the saturation constant is its base value and every classification
  is the one the locked baseline gives.\<close>

theorem lockout_freezes_thresholds:
  "rv_macro (run_ticks ts (set_defense_lockout True v)) = rv_macro v \<and>
    k_dynamic (rv_scaler (run_ticks ts (set_defense_lockout True v))) (rv_macro (run_ticks ts (set_defense_lockout True v)))
      = ok (k_base (rv_scaler v)) \<and>
    classify_regime (rv_macro (run_ticks ts (set_defense_lockout True v))) lwr ofi s = classify_regime (rv_macro v) lwr ofi s"
  using locked_ticks [of "set_defense_lockout True v" ts] by (simp add: set_defense_lockout_def k_dynamic_def)

section \<open>Numbers of the tracker\<close>

definition macro_floats :: "macro_vol \<Rightarrow> bool" where
  "macro_floats m \<longleftrightarrow> is_float (ewma_vol m) \<and> is_float (ewma_ultra_slow m) \<and> is_float (convergence_ema m) \<and>
     pred_option is_float (baseline_vol m) \<and> pred_option is_float (last_price m) \<and>
     list_all is_float (vol_samples m) \<and> length (vol_samples m) \<le> 5000"

definition ewmv_floats :: "ewmv \<Rightarrow> bool" where
  "ewmv_floats w \<longleftrightarrow> is_float (ew_mu w) \<and> is_float (ew_variance w)"

lemma is_float_fdiv: "fdiv x y = ok r \<Longrightarrow> is_float r"
  by (cases x; cases y) (auto split: if_splits)

lemma is_float_abs_fdiv: "fdiv x y = ok r \<Longrightarrow> is_float \<bar>r\<bar>"
  using is_float_fdiv is_float_abs by blast

lemma is_float_ewma: "is_float x \<Longrightarrow> is_float (ewma lam v x)"
  by (simp add: ewma_def)

lemma push_bounded_all: "list_all P xs \<Longrightarrow> P x \<Longrightarrow> list_all P (push_bounded n x xs) \<and> length (push_bounded n x xs) \<le> n"
  by (auto simp: push_bounded_def Let_def list_all_iff dest: in_set_dropD)

lemma update_vols_floats:
  assumes "macro_floats m" "is_float x"
  shows "macro_floats (update_vols x m)"
  using assms push_bounded_all [of is_float "vol_samples m" "ewma (lambda_slow m) (ewma_vol m) x" 5000]
  by (auto simp: macro_floats_def update_vols_def Let_def is_float_ewma)

lemma track_floats: "macro_floats m \<Longrightarrow> macro_floats (snd (track_convergence m))"
  by (auto simp: macro_floats_def track_convergence_def split: sum.splits)

lemma macro_update_floats:
  assumes "macro_floats m" "is_float p"
  shows "macro_floats (snd (macro_update p m))"
proof -
  have "macro_floats (m\<lparr>tick_count := n, last_price := Some p\<rparr>)" "macro_floats (m\<lparr>tick_count := n\<rparr>)" for n
    using assms by (simp_all add: macro_floats_def)
  then show ?thesis
    by (auto simp: macro_update_def Let_def intro!: track_floats update_vols_floats dest: is_float_abs_fdiv
        split: option.splits sum.splits)
qed

lemma anneal_floats: "macro_floats m \<Longrightarrow> macro_floats (snd (conditional_anneal st locked m))"
  by (auto simp: macro_floats_def conditional_anneal_def split: option.splits)

lemma on_tick_floats:
  assumes "macro_floats (rv_macro v) \<and> ewmv_floats (rv_ewmv v)" "is_float p" "is_float mp"
  shows "macro_floats (rv_macro (snd (on_tick p mp st v))) \<and> ewmv_floats (rv_ewmv (snd (on_tick p mp st v)))"
proof -
  have "macro_floats (snd (update_baseline (rv_scaler v) p st (rv_macro v)))"
    using assms anneal_floats macro_update_floats
    by (auto simp: update_baseline_def split: prod.splits sum.splits) (metis snd_conv)+
  moreover have "ewmv_floats (snd (ewmv_update mac mp (rv_ewmv v)))" for mac
    using assms by (auto simp: ewmv_floats_def ewmv_update_def Let_def split: sum.splits)
  ultimately show ?thesis using assms(1)
    by (auto simp: on_tick_def split: prod.splits sum.splits) (metis snd_conv)+
qed

text \<open>Every number the validator keeps is a double: over any ticks with double prices, NaN and infinities
  included and whether a tick raises or not, the volatilities, the baseline, the convergence average, the mean and
  the variance stay binary64 values, and the sample window never exceeds 5000 entries.\<close>

theorem validator_keeps_doubles:
  assumes "\<forall>(p, mp, st) \<in> set ts. is_float p \<and> is_float mp"
  shows "macro_floats (rv_macro (run_ticks ts (new_regime_validator q k eps))) \<and>
    ewmv_floats (rv_ewmv (run_ticks ts (new_regime_validator q k eps)))"
proof -
  have "macro_floats (rv_macro v) \<and> ewmv_floats (rv_ewmv v) \<Longrightarrow> \<forall>(p, mp, st) \<in> set ts. is_float p \<and> is_float mp \<Longrightarrow>
      macro_floats (rv_macro (run_ticks ts v)) \<and> ewmv_floats (rv_ewmv (run_ticks ts v))" for v ts
    unfolding run_ticks_def by (induction ts arbitrary: v) (auto intro: on_tick_floats [THEN conjunct1] on_tick_floats [THEN conjunct2])
  then show ?thesis using assms
    by (simp add: new_regime_validator_def new_macro_vol_def new_ewmv_def macro_floats_def ewmv_floats_def)
qed

theorem validator_keeps_doubles_witness:
  "macro_floats (rv_macro (run_ticks [(NaN, fl 100, ''NORMAL''), (fl 99, fl 98, ''HALTED'')]
     (new_regime_validator (fl 5) (fl 2) (fl (1/1000000)))))"
  using validator_keeps_doubles [of "[(NaN, fl 100, ''NORMAL''), (fl 99, fl 98, ''HALTED'')]"] by simp

end
