(* ===== verification/Defense.thy ===== *)
theory Defense
  imports Regime RiskModels
begin

text \<open>
  \<open>synthetic/strategy_defense.py\<close> and \<open>synthetic/stale_protection.py\<close>: the posture machine of a strategy,
  the sniper with its ammunition limits, the post-crash alpha engine and the scan for stale resting orders.
  Clock readings are arguments.  The order object of a cancelled passive exit is marked inactive, which only a
  caller that kept it can see; the model drops it.
\<close>

section \<open>Stale quotes\<close>

record resting_order =
  ro_order_id :: string
  ro_side :: string
  ro_price :: pyfloat
  ro_remaining_qty :: pyfloat
  ro_timestamp_ms :: pyfloat
  ro_source :: string
  ro_parent_order_id :: "string option"

record stale_protection =
  sigma_multiplier :: pyfloat
  min_distance_bps :: pyfloat
  monitored_orders :: "(string, resting_order) dict"

definition new_stale_protection :: "pyfloat \<Rightarrow> pyfloat \<Rightarrow> stale_protection" where
  "new_stale_protection mult bps = \<lparr>sigma_multiplier = mult, min_distance_bps = bps, monitored_orders = []\<rparr>"

definition sp_register_order :: "resting_order \<Rightarrow> stale_protection \<Rightarrow> stale_protection" where
  "sp_register_order o' p = p\<lparr>monitored_orders := dset (ro_order_id o') o' (monitored_orders p)\<rparr>"

definition deregister_order :: "string \<Rightarrow> stale_protection \<Rightarrow> resting_order option \<times> stale_protection" where
  "deregister_order oid p = (dget (monitored_orders p) oid, p\<lparr>monitored_orders := ddel oid (monitored_orders p)\<rparr>)"

definition stale_threshold :: "stale_protection \<Rightarrow> pyfloat \<Rightarrow> pyfloat \<Rightarrow> pyfloat res" where
  "stale_threshold p micro sigma = rbind (fdiv (min_distance_bps p) (fl 10000)) (\<lambda>f.
     ok (pymax (sigma_multiplier p * sigma) (f * micro)))"

definition evaluate_stale :: "stale_protection \<Rightarrow> pyfloat option \<Rightarrow> pyfloat \<Rightarrow> resting_order list res" where
  "evaluate_stale p micro sigma = (case micro of
     None \<Rightarrow> ok []
   | Some mp \<Rightarrow> rbind (stale_threshold p mp sigma) (\<lambda>t.
       ok (filter (\<lambda>o'. t < \<bar>ro_price o' - mp\<bar>) (dvalues (monitored_orders p)))))"

section \<open>The sniper\<close>

record trade_signal =
  sg_direction :: string
  edge_zscore :: pyfloat
  mean_reversion_direction :: string
  sg_confidence :: pyfloat
  is_valid :: bool
  order_flow_toxicity_pct :: pyfloat
  sustained_ticks :: int

record taker_order =
  to_number :: int
  to_side :: string
  to_qty :: pyfloat
  to_tif :: string
  max_hold_ms :: int
  to_timestamp_ms :: pyfloat

record passive_exit =
  px_number :: int
  px_side :: string
  px_price :: pyfloat
  px_qty :: pyfloat
  px_tag :: string
  px_is_active :: bool
  px_timestamp_ms :: pyfloat

record sniper =
  max_size_multiplier :: pyfloat
  inventory_quota_max :: pyfloat
  required_persistence_ticks :: int
  min_toxicity_pct :: pyfloat
  retracement_bounce_pct :: pyfloat
  base_cooldown_sec :: pyfloat
  is_armed :: bool
  accumulated_inventory_pct :: pyfloat
  last_entry_price :: "pyfloat option"
  last_trade_ts :: pyfloat
  active_passive_exit :: "passive_exit option"

definition new_sniper :: sniper where
  "new_sniper = \<lparr>max_size_multiplier = fl (10/100), inventory_quota_max = fl (50/100), required_persistence_ticks = 10,
     min_toxicity_pct = fl (95/100), retracement_bounce_pct = fl (15/1000), base_cooldown_sec = fl 5, is_armed = False,
     accumulated_inventory_pct = 0, last_entry_price = None, last_trade_ts = 0, active_passive_exit = None\<rparr>"

text \<open>Whether the bounce since the last entry is still too small.\<close>

definition reload_veto :: "sniper \<Rightarrow> pyfloat \<Rightarrow> bool res" where
  "reload_veto s current_price = (case last_entry_price s of
     None \<Rightarrow> ok False
   | Some e \<Rightarrow> if 0 < current_price then
       rbind (fdiv (current_price - e) (pymax e (fl (1/1000000)))) (\<lambda>bounce. ok (bounce < retracement_bounce_pct s))
     else ok False)"

definition evaluate_opportunity :: "trade_signal \<Rightarrow> pyfloat \<Rightarrow> pyfloat \<Rightarrow> pyfloat \<Rightarrow> pyfloat \<Rightarrow> sniper \<Rightarrow> bool res" where
  "evaluate_opportunity sg stress current_price now ratio s =
    (if \<not> is_armed s \<or> \<not> is_valid sg then ok False
     else if fl (10/100) \<le> stress \<or> edge_zscore sg \<le> fl 3 \<or> sg_direction sg \<noteq> mean_reversion_direction sg then ok False
     else if sustained_ticks sg < required_persistence_ticks s then ok False
     else if order_flow_toxicity_pct sg < min_toxicity_pct s then ok False
     else if inventory_quota_max s < accumulated_inventory_pct s + max_size_multiplier s then ok False
     else rbind (reload_veto s current_price) (\<lambda>veto.
       if veto then ok False
       else if now - last_trade_ts s < base_cooldown_sec s * pymax ratio (fl (10/100)) then ok False
       else ok True))"

definition execute_sniper_trade :: "trade_signal \<Rightarrow> pyfloat \<Rightarrow> pyfloat \<Rightarrow> pyfloat \<Rightarrow> (sniper, taker_order) act" where
  "execute_sniper_trade sg base_size current_price now s =
    (case int_of_float (now * fl 1000) of
       Inl e \<Rightarrow> (Inl e, s)
     | Inr n \<Rightarrow>
         (let s1 = s\<lparr>accumulated_inventory_pct := accumulated_inventory_pct s + max_size_multiplier s\<rparr>;
              s2 = (if 0 < current_price then s1\<lparr>last_entry_price := Some current_price\<rparr> else s1)
          in (ok \<lparr>to_number = n, to_side = sg_direction sg, to_qty = round_digits (base_size * max_size_multiplier s) 4,
                to_tif = ''IOC'', max_hold_ms = 5000, to_timestamp_ms = now * fl 1000\<rparr>, s2\<lparr>last_trade_ts := now\<rparr>)))"

definition post_passive_exit :: "pyfloat \<Rightarrow> pyfloat \<Rightarrow> string \<Rightarrow> pyfloat \<Rightarrow> (sniper, passive_exit) act" where
  "post_passive_exit price quantity side now s =
    (case int_of_float (now * fl 1000) of
       Inl e \<Rightarrow> (Inl e, s)
     | Inr n \<Rightarrow> (let x = \<lparr>px_number = n, px_side = side, px_price = price, px_qty = quantity, px_tag = ''Tier_0_Ephemeral'',
           px_is_active = True, px_timestamp_ms = now * fl 1000\<rparr> in (ok x, s\<lparr>active_passive_exit := Some x\<rparr>)))"

definition live_exit :: "sniper \<Rightarrow> passive_exit option" where
  "live_exit s = (case active_passive_exit s of None \<Rightarrow> None | Some x \<Rightarrow> if px_is_active x then Some x else None)"

definition evaluate_microstructure_exit_drift :: "pyfloat \<Rightarrow> pyfloat \<Rightarrow> sniper \<Rightarrow> bool \<times> sniper" where
  "evaluate_microstructure_exit_drift micro sigma s = (case live_exit s of
     None \<Rightarrow> (False, s)
   | Some x \<Rightarrow>
       (let drift = (if px_side x = ''SELL'' then px_price x - micro else micro - px_price x) in
        if fl (25/100) * pymax sigma (fl (1/10000)) < drift then (True, s\<lparr>active_passive_exit := None\<rparr>) else (False, s)))"

record liquidity_event =
  lq_event_type :: string
  depletion_ratio :: pyfloat

definition on_liquidity_event_killswitch :: "liquidity_event \<Rightarrow> sniper \<Rightarrow> bool \<times> sniper" where
  "on_liquidity_event_killswitch ev s = (case live_exit s of
     None \<Rightarrow> (False, s)
   | Some x \<Rightarrow>
       if fl (40/100) \<le> depletion_ratio ev \<or> lq_event_type ev \<in> {''QUOTE_WITHDRAWAL'', ''AGGRESSIVE_SWEEP''}
       then (True, s\<lparr>active_passive_exit := None\<rparr>) else (False, s))"

section \<open>The alpha engine\<close>

definition no_signal :: trade_signal where
  "no_signal = \<lparr>sg_direction = ''NONE'', edge_zscore = 0, mean_reversion_direction = ''NONE'', sg_confidence = 0,
     is_valid = False, order_flow_toxicity_pct = fl (96/100), sustained_ticks = 20\<rparr>"

definition reversion_signal :: "string \<Rightarrow> pyfloat \<Rightarrow> pyfloat \<Rightarrow> int \<Rightarrow> pyfloat \<Rightarrow> trade_signal" where
  "reversion_signal dir z stress ticks toxicity = \<lparr>sg_direction = dir, edge_zscore = round_digits z 2,
     mean_reversion_direction = dir, sg_confidence = round_digits (1 - stress) 3, is_valid = True,
     order_flow_toxicity_pct = toxicity, sustained_ticks = ticks\<rparr>"

text \<open>The engine's state is the anchored price; \<open>on_halt_triggered\<close> sets it.\<close>

definition calculate_signal :: "pyfloat option \<Rightarrow> pyfloat \<Rightarrow> pyfloat \<Rightarrow> pyfloat \<Rightarrow> int \<Rightarrow> pyfloat \<Rightarrow> trade_signal res" where
  "calculate_signal anchor micro stress sigma ticks toxicity = (case anchor of
     None \<Rightarrow> ok no_signal
   | Some p \<Rightarrow> if p \<le> 0 then ok no_signal
     else rbind (fdiv (micro - p) p) (\<lambda>disl.
       rbind (fdiv \<bar>disl\<bar> (pymax sigma (fl (1/10000)))) (\<lambda>z.
         if disl < - fl (3/100) \<and> stress < fl (10/100) then ok (reversion_signal ''BUY'' z stress ticks toxicity)
         else if fl (3/100) < disl \<and> stress < fl (10/100) then ok (reversion_signal ''SELL'' z stress ticks toxicity)
         else ok no_signal)))"

section \<open>The defender\<close>

datatype defense_state = NORMAL | CAUTION | DEFENSIVE | HALTED | RECOVERING

record posture =
  po_state :: defense_state
  size_multiplier :: pyfloat
  spread_multiplier :: pyfloat
  block_new_entries :: bool
  tightened_stop_price :: "pyfloat option"
  trigger_emergency_flatten :: bool
  passive_quoting_enabled :: bool
  sniper_mode_armed :: bool
  current_volatility :: pyfloat

record defender =
  current_state :: defense_state
  recovery_cooldown_sec :: pyfloat
  halted_cooldown_sec :: pyfloat
  healing_stability_sec :: pyfloat
  last_elevated_state_ts :: pyfloat
  halted_entry_ts :: pyfloat
  calm_streak_start_ts :: "pyfloat option"
  recovering_entry_ts :: pyfloat
  volatility_tracker :: ewmv
  df_stale :: stale_protection
  sniper_mode :: sniper
  pre_crash_micro_price :: "pyfloat option"

definition new_defender :: "pyfloat \<Rightarrow> pyfloat \<Rightarrow> pyfloat \<Rightarrow> pyfloat \<Rightarrow> defender" where
  "new_defender recovery halted healing alpha = \<lparr>current_state = NORMAL, recovery_cooldown_sec = recovery,
     halted_cooldown_sec = halted, healing_stability_sec = healing, last_elevated_state_ts = 0, halted_entry_ts = 0,
     calm_streak_start_ts = None, recovering_entry_ts = 0, volatility_tracker = new_ewmv alpha,
     df_stale = new_stale_protection (fl (15/10)) (fl 5), sniper_mode = new_sniper, pre_crash_micro_price = None\<rparr>"

definition evaluate_stale_quotes :: "defender \<Rightarrow> pyfloat option \<Rightarrow> resting_order list res" where
  "evaluate_stale_quotes d micro = (if current_state d = HALTED then ok []
     else rbind (ew_sigma (volatility_tracker d)) (\<lambda>sigma. evaluate_stale (df_stale d) micro sigma))"

definition arm :: "bool \<Rightarrow> defender \<Rightarrow> defender" where
  "arm b d = d\<lparr>sniper_mode := (sniper_mode d)\<lparr>is_armed := b\<rparr>\<rparr>"

definition enter_halt :: "pyfloat \<Rightarrow> defender \<Rightarrow> defender" where
  "enter_halt now d = arm False (d\<lparr>current_state := HALTED, halted_entry_ts := now, calm_streak_start_ts := None\<rparr>)"

definition heal :: "pyfloat \<Rightarrow> pyfloat \<Rightarrow> defender \<Rightarrow> defender" where
  "heal stress now d =
    (if current_state d = HALTED \<and> halted_cooldown_sec d \<le> now - halted_entry_ts d then
       (if stress < fl (20/100) then
          (case calm_streak_start_ts d of
             None \<Rightarrow> d\<lparr>calm_streak_start_ts := Some now\<rparr>
           | Some start \<Rightarrow>
               if healing_stability_sec d \<le> now - start then
                 arm True (d\<lparr>current_state := RECOVERING, recovering_entry_ts := now, calm_streak_start_ts := None\<rparr>)
               else d)
        else d\<lparr>calm_streak_start_ts := None\<rparr>)
     else d)"

definition relapses :: "metrics \<Rightarrow> bool" where
  "relapses md \<longleftrightarrow> regime_shift_detected md \<or> fl (40/100) \<le> stress_score md"

definition graduate :: "pyfloat \<Rightarrow> defender \<Rightarrow> defender" where
  "graduate now d =
    (if current_state d = RECOVERING \<and> halted_cooldown_sec d \<le> now - recovering_entry_ts d
     then arm False (d\<lparr>current_state := CAUTION, last_elevated_state_ts := now\<rparr>) else d)"

definition standard_transition :: "metrics \<Rightarrow> pyfloat \<Rightarrow> defender \<Rightarrow> defender" where
  "standard_transition md now d =
    (if current_state d \<in> {HALTED, RECOVERING} then d
     else if mm_regime md \<in> {ADVERSARIAL_SHOCK, SELL_STRESS, BUY_STRESS} \<or> fl (70/100) \<le> stress_score md then
       d\<lparr>current_state := DEFENSIVE, last_elevated_state_ts := now\<rparr>
     else if mm_regime md = FRAGILE_BALANCED \<or> fl (35/100) \<le> stress_score md then
       (if current_state d = DEFENSIVE then
          (if recovery_cooldown_sec d \<le> now - last_elevated_state_ts d then d\<lparr>current_state := CAUTION\<rparr> else d)
        else d\<lparr>current_state := CAUTION, last_elevated_state_ts := now\<rparr>)
     else if current_state d \<in> {DEFENSIVE, CAUTION} then
       (if recovery_cooldown_sec d \<le> now - last_elevated_state_ts d then d\<lparr>current_state := NORMAL\<rparr> else d)
     else d\<lparr>current_state := NORMAL\<rparr>)"

definition posture_with :: "defense_state \<Rightarrow> pyfloat \<Rightarrow> pyfloat \<Rightarrow> bool \<Rightarrow> pyfloat option \<Rightarrow> bool \<Rightarrow> bool \<Rightarrow> bool
    \<Rightarrow> pyfloat \<Rightarrow> posture" where
  "posture_with st sz spread block stop flatten quoting armed sigma = \<lparr>po_state = st, size_multiplier = sz,
     spread_multiplier = spread, block_new_entries = block, tightened_stop_price = stop,
     trigger_emergency_flatten = flatten, passive_quoting_enabled = quoting, sniper_mode_armed = armed,
     current_volatility = sigma\<rparr>"

definition halted_posture :: "bool \<Rightarrow> pyfloat \<Rightarrow> posture" where
  "halted_posture flatten sigma = posture_with HALTED 0 (fl 2) True None flatten False False sigma"

definition tightened_stop :: "pyfloat \<Rightarrow> pyfloat \<Rightarrow> side option \<Rightarrow> pyfloat option" where
  "tightened_stop micro sigma pos_side =
    (let dist = pymax (fl 2 * sigma) (fl (1/1000) * micro) in
     case pos_side of
       None \<Rightarrow> None
     | Some LONG \<Rightarrow> Some (round_digits (micro - dist) 2)
     | Some SHORT \<Rightarrow> Some (round_digits (micro + dist) 2))"

definition posture_of :: "defense_state \<Rightarrow> pyfloat \<Rightarrow> pyfloat \<Rightarrow> side option \<Rightarrow> posture" where
  "posture_of st micro sigma pos_side = (case st of
     DEFENSIVE \<Rightarrow> posture_with DEFENSIVE 0 (fl 2) True (tightened_stop micro sigma pos_side) False False False sigma
   | RECOVERING \<Rightarrow> posture_with RECOVERING (fl (10/100)) (fl (18/10)) False None False False True sigma
   | CAUTION \<Rightarrow> posture_with CAUTION (fl (50/100)) (fl (15/10)) False None False True False sigma
   | _ \<Rightarrow> posture_with NORMAL 1 1 False None False True False sigma)"

definition evaluate_posture :: "metrics \<Rightarrow> pyfloat \<Rightarrow> pyfloat \<Rightarrow> position option \<Rightarrow> pyfloat \<Rightarrow> (defender, posture) act" where
  "evaluate_posture md micro drawdown pos now d =
    (case ewmv_update None micro (volatility_tracker d) of
       (Inl e, w) \<Rightarrow> (Inl e, d\<lparr>volatility_tracker := w\<rparr>)
     | (Inr sigma, w) \<Rightarrow>
         (let d0 = d\<lparr>volatility_tracker := w\<rparr> in
          if fl (8/100) \<le> drawdown then
            (ok (halted_posture True sigma),
             if current_state d0 \<noteq> HALTED then (enter_halt now d0)\<lparr>pre_crash_micro_price := Some micro\<rparr> else d0)
          else (let d1 = heal (stress_score md) now d0 in
            if current_state d1 = HALTED then (ok (halted_posture False sigma), d1)
            else if current_state d1 = RECOVERING \<and> relapses md then (ok (halted_posture True sigma), enter_halt now d1)
            else (let d3 = standard_transition md now (graduate now d1)
              in (ok (posture_of (current_state d3) micro sigma (map_option ps_side pos)), d3)))))"

section \<open>Steps of the machine\<close>

named_theorems defense_step "what one phase of an evaluation changes"

lemma arm_simps [defense_step]:
  "current_state (arm b d) = current_state d" "is_armed (sniper_mode (arm b d)) = b"
  "recovering_entry_ts (arm b d) = recovering_entry_ts d" "last_elevated_state_ts (arm b d) = last_elevated_state_ts d"
  "halted_cooldown_sec (arm b d) = halted_cooldown_sec d" "recovery_cooldown_sec (arm b d) = recovery_cooldown_sec d"
  "halted_entry_ts (arm b d) = halted_entry_ts d" "healing_stability_sec (arm b d) = healing_stability_sec d"
  "calm_streak_start_ts (arm b d) = calm_streak_start_ts d"
  by (simp_all add: arm_def)

lemma enter_halt_simps [defense_step]:
  "current_state (enter_halt now d) = HALTED" "\<not> is_armed (sniper_mode (enter_halt now d))"
  "halted_entry_ts (enter_halt now d) = now" "calm_streak_start_ts (enter_halt now d) = None"
  "halted_cooldown_sec (enter_halt now d) = halted_cooldown_sec d"
  "recovery_cooldown_sec (enter_halt now d) = recovery_cooldown_sec d"
  "healing_stability_sec (enter_halt now d) = healing_stability_sec d"
  by (simp_all add: enter_halt_def arm_def)

text \<open>What the state says about the flag, and the flag about the state.\<close>

definition armed_ok :: "defender \<Rightarrow> bool" where
  "armed_ok d \<longleftrightarrow> (is_armed (sniper_mode d) \<longleftrightarrow> current_state d = RECOVERING)"

definition same_limits :: "defender \<Rightarrow> defender \<Rightarrow> bool" where
  "same_limits d d' \<longleftrightarrow> recovery_cooldown_sec d' = recovery_cooldown_sec d \<and> halted_cooldown_sec d' = halted_cooldown_sec d
     \<and> healing_stability_sec d' = healing_stability_sec d"

lemma heal_cases:
  obtains (same) "current_state (heal st now d) = current_state d" "sniper_mode (heal st now d) = sniper_mode d"
      "recovering_entry_ts (heal st now d) = recovering_entry_ts d"
  | (healed) start where "current_state d = HALTED" "heal st now d = arm True (d\<lparr>current_state := RECOVERING,
        recovering_entry_ts := now, calm_streak_start_ts := None\<rparr>)"
      "halted_cooldown_sec d \<le> now - halted_entry_ts d" "st < fl (20/100)"
      "calm_streak_start_ts d = Some start" "healing_stability_sec d \<le> now - start"
proof (cases "current_state d = HALTED \<and> halted_cooldown_sec d \<le> now - halted_entry_ts d \<and> st < fl (20/100) \<and>
    (\<exists>start. calm_streak_start_ts d = Some start \<and> healing_stability_sec d \<le> now - start)")
  case True
  then obtain start where "calm_streak_start_ts d = Some start" "healing_stability_sec d \<le> now - start" by blast
  then show ?thesis using True by (intro healed [of start]) (simp_all add: heal_def)
next
  case False
  show ?thesis by (rule same) (use False in \<open>auto simp: heal_def split: option.splits\<close>)
qed

lemma heal_limits: "same_limits d (heal st now d)"
  by (auto simp: same_limits_def heal_def defense_step split: option.splits)

lemma heal_armed: "armed_ok d \<Longrightarrow> armed_ok (heal st now d)"
  by (cases rule: heal_cases [of st now d]) (auto simp: armed_ok_def defense_step)

lemma graduate_armed: "armed_ok d \<Longrightarrow> armed_ok (graduate now d)"
  by (auto simp: armed_ok_def graduate_def defense_step)

lemma graduate_limits: "same_limits d (graduate now d)"
  by (auto simp: same_limits_def graduate_def defense_step)

lemma standard_armed: "armed_ok d \<Longrightarrow> armed_ok (standard_transition md now d)"
  by (auto simp: armed_ok_def standard_transition_def)

lemma standard_limits: "same_limits d (standard_transition md now d)"
  by (auto simp: same_limits_def standard_transition_def)

lemma same_limits_trans: "same_limits d e \<Longrightarrow> same_limits e f \<Longrightarrow> same_limits d f"
  by (simp add: same_limits_def)

lemma standard_state:
  "current_state d \<notin> {HALTED, RECOVERING} \<Longrightarrow> current_state (standard_transition md now d) \<in> {NORMAL, CAUTION, DEFENSIVE}"
  by (cases "current_state d") (auto simp: standard_transition_def)

lemma standard_still: "current_state d \<in> {HALTED, RECOVERING} \<Longrightarrow> standard_transition md now d = d"
  by (simp add: standard_transition_def)

text \<open>The branches of one evaluation.\<close>

lemma evaluate_posture_cases:
  assumes "evaluate_posture md micro dd pos now d = (res, d')"
  obtains (raised) e w where "res = Inl e" "d' = d\<lparr>volatility_tracker := w\<rparr>"
  | (drawdown) sigma w where "fl (8/100) \<le> dd" "res = ok (halted_posture True sigma)"
      "d' = (if current_state d \<noteq> HALTED then (enter_halt now (d\<lparr>volatility_tracker := w\<rparr>))\<lparr>pre_crash_micro_price := Some micro\<rparr>
         else d\<lparr>volatility_tracker := w\<rparr>)"
  | (halted) sigma w where "d' = heal (stress_score md) now (d\<lparr>volatility_tracker := w\<rparr>)" "current_state d' = HALTED"
      "res = ok (halted_posture False sigma)"
  | (relapse) sigma w where "current_state (heal (stress_score md) now (d\<lparr>volatility_tracker := w\<rparr>)) = RECOVERING" "relapses md"
      "d' = enter_halt now (heal (stress_score md) now (d\<lparr>volatility_tracker := w\<rparr>))" "res = ok (halted_posture True sigma)"
  | (standard) sigma w where "current_state (heal (stress_score md) now (d\<lparr>volatility_tracker := w\<rparr>)) \<noteq> HALTED"
      "current_state (heal (stress_score md) now (d\<lparr>volatility_tracker := w\<rparr>)) = RECOVERING \<longrightarrow> \<not> relapses md"
      "d' = standard_transition md now (graduate now (heal (stress_score md) now (d\<lparr>volatility_tracker := w\<rparr>)))"
      "res = ok (posture_of (current_state d') micro sigma (map_option ps_side pos))" "\<not> fl (8/100) \<le> dd"
proof -
  obtain r w where "ewmv_update None micro (volatility_tracker d) = (r, w)" by force
  then show ?thesis using assms that unfolding evaluate_posture_def
    by (cases r) (auto simp: Let_def split: if_splits)
qed

lemma evaluate_keeps:
  assumes "evaluate_posture md micro dd pos now d = (res, d')" "armed_ok d"
  shows "armed_ok d' \<and> same_limits d d'"
  using assms(1)
proof (cases rule: evaluate_posture_cases)
  case (raised e w)
  then show ?thesis using assms(2) by (simp add: armed_ok_def same_limits_def)
next
  case (drawdown sigma w)
  then show ?thesis using assms(2) by (simp add: armed_ok_def same_limits_def defense_step)
next
  case (halted sigma w)
  have "armed_ok (d\<lparr>volatility_tracker := w\<rparr>)" using assms(2) by (simp add: armed_ok_def)
  then show ?thesis unfolding halted(1) using heal_armed heal_limits [of "d\<lparr>volatility_tracker := w\<rparr>"]
    by (simp add: same_limits_def)
next
  case (relapse sigma w)
  then show ?thesis using heal_limits [of "d\<lparr>volatility_tracker := w\<rparr>" "stress_score md" now]
    by (simp add: armed_ok_def same_limits_def defense_step)
next
  case (standard sigma w)
  define d0 where "d0 = d\<lparr>volatility_tracker := w\<rparr>"
  have "armed_ok d0" "same_limits d d0" using assms(2) by (simp_all add: d0_def armed_ok_def same_limits_def)
  moreover have "armed_ok (standard_transition md now (graduate now (heal (stress_score md) now d0)))"
    by (intro standard_armed graduate_armed heal_armed) fact
  moreover have "same_limits d (standard_transition md now (graduate now (heal (stress_score md) now d0)))"
    by (rule same_limits_trans [OF same_limits_trans [OF same_limits_trans [OF \<open>same_limits d d0\<close> heal_limits] graduate_limits] standard_limits])
  ultimately show ?thesis using standard(3) by (simp add: d0_def)
qed

lemma evaluate_reports:
  assumes "evaluate_posture md micro dd pos now d = (ok po, d')"
  shows "po_state po = current_state d' \<and> (block_new_entries po \<longleftrightarrow> current_state d' \<in> {HALTED, DEFENSIVE}) \<and>
    (sniper_mode_armed po \<longleftrightarrow> current_state d' = RECOVERING) \<and> (trigger_emergency_flatten po \<longrightarrow> current_state d' = HALTED) \<and>
    (block_new_entries po \<longleftrightarrow> size_multiplier po = 0)"
  using assms
proof (cases rule: evaluate_posture_cases)
  case (standard sigma w)
  have "current_state d' \<noteq> HALTED"
  proof (cases "current_state (graduate now (heal (stress_score md) now (d\<lparr>volatility_tracker := w\<rparr>))) \<in> {HALTED, RECOVERING}")
    case True
    then show ?thesis using standard(1,3) by (auto simp: standard_still graduate_def defense_step)
  next
    case False
    then show ?thesis using standard_state [OF False, of md now] standard(3) by auto
  qed
  then show ?thesis using standard(4)
    by (cases "current_state d'") (auto simp: posture_of_def posture_with_def fl_eval float_eval zero_Fin one_Fin)
qed (auto simp: halted_posture_def posture_with_def defense_step)

section \<open>The explicit machine\<close>

definition edges :: "defense_state \<Rightarrow> defense_state set" where
  "edges s = (case s of
     HALTED \<Rightarrow> {HALTED, RECOVERING}
   | RECOVERING \<Rightarrow> {RECOVERING, HALTED, CAUTION}
   | _ \<Rightarrow> {NORMAL, CAUTION, DEFENSIVE, HALTED})"

definition consistent :: "metrics \<Rightarrow> bool" where
  "consistent md \<longleftrightarrow> (regime_shift_detected md \<longleftrightarrow> mm_regime md \<noteq> CALM)"

lemma self_diff: "is_finite x \<Longrightarrow> x - x = (0 :: pyfloat)"
  by (cases x) (auto simp: is_finite_def minus_pyfloat_def zero_Fin fl_0)

lemma graduated_stays:
  assumes "current_state d = CAUTION" "last_elevated_state_ts d = now" "consistent md" "\<not> relapses md"
    "0 < recovery_cooldown_sec d" "is_finite now"
  shows "current_state (standard_transition md now d) = CAUTION"
proof -
  have "mm_regime md = CALM" "\<not> fl (40/100) \<le> stress_score md" using assms(3,4) by (auto simp: consistent_def relapses_def)
  moreover have "\<not> fl (70/100) \<le> stress_score md"
  proof
    assume "fl (70/100) \<le> stress_score md"
    moreover have "fl (40/100) \<le> fl (70/100)" by (rule fl_mono) simp
    ultimately show False using \<open>\<not> fl (40/100) \<le> stress_score md\<close> le_trans_pyfloat by blast
  qed
  moreover have "\<not> recovery_cooldown_sec d \<le> now - last_elevated_state_ts d"
    using assms(2,5,6) by (cases "recovery_cooldown_sec d") (auto simp: self_diff zero_Fin)
  ultimately show ?thesis using assms(1) by (auto simp: standard_transition_def)
qed

lemma evaluate_edge:
  assumes "evaluate_posture md micro dd pos now d = (res, d')" "consistent md" "0 < recovery_cooldown_sec d"
    "0 < halted_cooldown_sec d" "is_finite now"
  shows "current_state d' \<in> edges (current_state d)"
  using assms(1)
proof (cases rule: evaluate_posture_cases)
  case (raised e w)
  then show ?thesis by (cases "current_state d") (auto simp: edges_def)
next
  case (drawdown sigma w)
  then show ?thesis by (cases "current_state d") (auto simp: edges_def defense_step)
next
  case (halted sigma w)
  then show ?thesis by (cases "current_state d") (auto simp: edges_def)
next
  case (relapse sigma w)
  then show ?thesis by (cases "current_state d") (auto simp: edges_def defense_step)
next
  case (standard sigma w)
  define d0 where "d0 = d\<lparr>volatility_tracker := w\<rparr>"
  define d1 where "d1 = heal (stress_score md) now d0"
  have d': "d' = standard_transition md now (graduate now d1)" and nh: "current_state d1 \<noteq> HALTED"
    and nr: "current_state d1 = RECOVERING \<longrightarrow> \<not> relapses md"
    using standard by (simp_all add: d0_def d1_def)
  have lim: "same_limits d d1" using heal_limits [of d0] by (simp add: d1_def d0_def same_limits_def)
  show ?thesis
  proof (cases "current_state d1 = RECOVERING")
    case rec: True
    have came: "current_state d = HALTED \<and> recovering_entry_ts d1 = now \<or> current_state d = RECOVERING"
      using rec unfolding d1_def by (cases rule: heal_cases [of "stress_score md" now d0]) (auto simp: d0_def defense_step)
    show ?thesis
    proof (cases "halted_cooldown_sec d1 \<le> now - recovering_entry_ts d1")
      case True
      have "current_state d = RECOVERING"
        using came True lim assms(4,5) by (cases "halted_cooldown_sec d") (auto simp: self_diff zero_Fin same_limits_def)
      moreover have "current_state d' = CAUTION"
        unfolding d' by (rule graduated_stays) (use rec True nr lim assms(2,3,5) in \<open>auto simp: graduate_def defense_step same_limits_def\<close>)
      ultimately show ?thesis by (simp add: edges_def)
    next
      case False
      then have "graduate now d1 = d1" by (simp add: graduate_def)
      then show ?thesis using came rec d' by (auto simp: standard_still edges_def)
    qed
  next
    case False
    then have g: "graduate now d1 = d1" by (simp add: graduate_def)
    have "current_state d = current_state d1"
      using False unfolding d1_def by (cases rule: heal_cases [of "stress_score md" now d0]) (auto simp: d0_def defense_step)
    then show ?thesis using standard_state [of d1 md now] nh False g d'
      by (cases "current_state d1") (auto simp: edges_def)
  qed
qed

lemma leaves_halt:
  assumes "evaluate_posture md micro dd pos now d = (res, d')" "current_state d = HALTED" "current_state d' \<noteq> HALTED"
  shows "\<not> fl (8/100) \<le> dd \<and> halted_cooldown_sec d \<le> now - halted_entry_ts d \<and> stress_score md < fl (20/100) \<and>
    (\<exists>start. calm_streak_start_ts d = Some start \<and> healing_stability_sec d \<le> now - start)"
proof -
  have healed: ?thesis if "current_state (heal (stress_score md) now (d\<lparr>volatility_tracker := w\<rparr>)) \<noteq> HALTED" "\<not> fl (8/100) \<le> dd" for w
    using that assms(2) by (cases rule: heal_cases [of "stress_score md" now "d\<lparr>volatility_tracker := w\<rparr>"]) auto
  show ?thesis using assms(1)
  proof (cases rule: evaluate_posture_cases)
    case (standard sigma w)
    then show ?thesis using healed by blast
  qed (use assms(2,3) in \<open>auto simp: defense_step\<close>)
qed

section \<open>Ammunition\<close>

datatype sniper_event =
    SetArmed bool
  | Chance trade_signal pyfloat pyfloat pyfloat pyfloat pyfloat

text \<open>The caller's protocol: a trade is fired exactly when the opportunity passes.\<close>

definition sniper_step :: "sniper_event \<Rightarrow> sniper \<Rightarrow> taker_order list \<times> sniper" where
  "sniper_step ev s = (case ev of
     SetArmed b \<Rightarrow> ([], s\<lparr>is_armed := b\<rparr>)
   | Chance sg stress price now ratio base_size \<Rightarrow>
       if evaluate_opportunity sg stress price now ratio s = ok True then
         (case execute_sniper_trade sg base_size price now s of
            (Inl e, s1) \<Rightarrow> ([], s1)
          | (Inr t, s1) \<Rightarrow> ([t], s1))
       else ([], s))"

primrec run_sniper :: "sniper_event list \<Rightarrow> sniper \<Rightarrow> taker_order list \<times> sniper" where
  "run_sniper [] s = ([], s)"
| "run_sniper (ev # evs) s = (case sniper_step ev s of (ts, s1) \<Rightarrow>
     (case run_sniper evs s1 of (us, s2) \<Rightarrow> (ts @ us, s2)))"

primrec spent :: "nat \<Rightarrow> pyfloat" where
  "spent 0 = 0"
| "spent (Suc n) = spent n + fl (10/100)"

definition limits_set :: "nat \<Rightarrow> sniper \<Rightarrow> bool" where
  "limits_set n s \<longleftrightarrow> max_size_multiplier s = fl (10/100) \<and> inventory_quota_max s = fl (50/100) \<and>
     accumulated_inventory_pct s = spent n \<and> n \<le> 5"

lemma spent_5: "fl (50/100) < spent 5 + fl (10/100)"
  by (simp add: numeral_eq_Suc fl_eval float_eval zero_Fin)

lemma sniper_step_spends:
  assumes "sniper_step ev s = (ts, s')" "limits_set n s"
  shows "limits_set (n + length ts) s'"
proof (cases ev)
  case (SetArmed b)
  then show ?thesis using assms by (auto simp: sniper_step_def limits_set_def)
next
  case (Chance sg stress price now ratio base_size)
  show ?thesis
  proof (cases "evaluate_opportunity sg stress price now ratio s = ok True")
    case True
    then have "\<not> inventory_quota_max s < accumulated_inventory_pct s + max_size_multiplier s"
      by (auto simp: evaluate_opportunity_def split: if_splits)
    then have "n \<noteq> 5" using assms(2) spent_5 by (auto simp: limits_set_def)
    then have "n < 5" using assms(2) by (simp add: limits_set_def)
    then show ?thesis using assms True Chance
      by (auto simp: sniper_step_def execute_sniper_trade_def limits_set_def Let_def split: sum.splits)
  next
    case False
    then show ?thesis using assms Chance by (auto simp: sniper_step_def)
  qed
qed

lemma run_sniper_spends:
  "run_sniper evs s = (ts, s') \<Longrightarrow> limits_set n s \<Longrightarrow> limits_set (n + length ts) s'"
proof (induction evs arbitrary: s n ts s')
  case (Cons ev evs)
  obtain us s1 where u: "sniper_step ev s = (us, s1)" by force
  obtain vs s2 where v: "run_sniper evs s1 = (vs, s2)" by force
  show ?case using Cons.IH [OF v, of "n + length us"] sniper_step_spends [OF u] Cons.prems u v
    by (auto simp: add.assoc)
qed simp

section \<open>Properties\<close>

text \<open>A run of evaluations, each with its metrics, prices, drawdown, position and clock.\<close>

type_synonym posture_call = "metrics \<times> pyfloat \<times> pyfloat \<times> position option \<times> pyfloat"

definition run_postures :: "posture_call list \<Rightarrow> defender \<Rightarrow> defender" where
  "run_postures cs d = foldl (\<lambda>d (md, micro, dd, pos, now). snd (evaluate_posture md micro dd pos now d)) d cs"

lemma run_postures_armed: "armed_ok d \<Longrightarrow> armed_ok (run_postures cs d) \<and> same_limits d (run_postures cs d)"
  unfolding run_postures_def
proof (induction cs arbitrary: d)
  case (Cons c cs)
  obtain md micro dd pos now where c: "c = (md, micro, dd, pos, now)" by (cases c)
  obtain res d1 where e: "evaluate_posture md micro dd pos now d = (res, d1)" by force
  show ?case using Cons.IH [of d1] evaluate_keeps [OF e Cons.prems] same_limits_trans c e by auto
qed (simp add: same_limits_def)

lemma new_defender_armed: "armed_ok (new_defender recovery halted healing alpha)"
  by (simp add: armed_ok_def new_defender_def new_sniper_def)

text \<open>In every state a run of evaluations reaches, also when some of them raised, the sniper is armed
  exactly while recovering; and a posture returned there reports the state the machine is in, blocks new entries
  (with size 0) exactly when halted or defensive, and demands the emergency flatten only when halted.\<close>

theorem posture_reports_machine:
  assumes "evaluate_posture md micro dd pos now (run_postures cs (new_defender recovery halted healing alpha)) = (ok po, d')"
  shows "po_state po = current_state d' \<and> (is_armed (sniper_mode d') \<longleftrightarrow> current_state d' = RECOVERING) \<and>
    (sniper_mode_armed po \<longleftrightarrow> is_armed (sniper_mode d')) \<and>
    (block_new_entries po \<longleftrightarrow> current_state d' \<in> {HALTED, DEFENSIVE}) \<and> (block_new_entries po \<longleftrightarrow> size_multiplier po = 0) \<and>
    (trigger_emergency_flatten po \<longrightarrow> current_state d' = HALTED)"
proof -
  have "armed_ok d'" using evaluate_keeps [OF assms] run_postures_armed [OF new_defender_armed] by blast
  then show ?thesis using evaluate_reports [OF assms] unfolding armed_ok_def by blast
qed

definition quiet_metrics :: "regime \<Rightarrow> pyfloat \<Rightarrow> metrics" where
  "quiet_metrics rg s = \<lparr>mm_ofi = 0, mm_ofi_norm = 0, mm_lwr = 0, mm_lwr_ext = 0, stress_score = s, mm_regime = rg,
     regime_shift_detected = (rg \<noteq> CALM), effective_window_ms = 0, window_truncated = False, events_analyzed = 0,
     mm_confidence = ''LOW'', mm_k_dynamic = fl 2, mm_vol_ratio = 1, sigma_micro = 0, ultra_slow_vol = 0,
     convergence_metric = 0\<rparr>"

lemmas defense_eval = run_postures_def new_defender_def new_sniper_def new_ewmv_def quiet_metrics_def evaluate_posture_def
  ewmv_update_def lambda_adaptive_def enter_halt_def arm_def halted_posture_def posture_with_def Let_def

theorem posture_reports_machine_witness:
  "\<exists>po d'. evaluate_posture (quiet_metrics CALM 0) (fl 100) (fl (1/10)) None 1
      (run_postures [] (new_defender (fl 30) (fl 300) (fl 60) (fl (5/100)))) = (ok po, d') \<and>
    po_state po = HALTED \<and> \<not> is_armed (sniper_mode d')"
proof -
  obtain po d' where run: "evaluate_posture (quiet_metrics CALM 0) (fl 100) (fl (1/10)) None 1
      (run_postures [] (new_defender (fl 30) (fl 300) (fl 60) (fl (5/100)))) = (ok po, d')"
    by (simp add: defense_eval fl_eval float_eval)
  have "po_state po = HALTED" using run by (auto simp: defense_eval fl_eval float_eval)
  then show ?thesis using posture_reports_machine [OF run] run by auto
qed

text \<open>C18: The machine follows its graph: with metrics as the validator computes them, positive cooldowns and a
  finite clock, one evaluation, raising ones included, moves only along the edges: out of HALTED
  only to RECOVERING, out of RECOVERING only back to HALTED or on to CAUTION; and it leaves HALTED only below the
  drawdown limit, after the halt cooldown, in calm, and after a calm streak of the required length.\<close>

theorem posture_follows_graph:
  assumes "evaluate_posture md micro dd pos now d = (res, d')" "consistent md" "0 < recovery_cooldown_sec d"
    "0 < halted_cooldown_sec d" "is_finite now"
  shows "current_state d' \<in> edges (current_state d) \<and>
    (current_state d = HALTED \<and> current_state d' \<noteq> HALTED \<longrightarrow>
      \<not> fl (8/100) \<le> dd \<and> halted_cooldown_sec d \<le> now - halted_entry_ts d \<and> stress_score md < fl (20/100) \<and>
      (\<exists>start. calm_streak_start_ts d = Some start \<and> healing_stability_sec d \<le> now - start))"
  using evaluate_edge [OF assms] leaves_halt [OF assms(1)] by blast

theorem posture_follows_graph_witness:
  "current_state (snd (evaluate_posture (quiet_metrics CALM 0) (fl 100) 0 None (fl 500)
      ((new_defender (fl 30) (fl 300) (fl 60) (fl (5/100)))\<lparr>current_state := HALTED, calm_streak_start_ts := Some (fl 440)\<rparr>)))
    \<in> edges HALTED"
proof -
  let ?d = "(new_defender (fl 30) (fl 300) (fl 60) (fl (5/100)))\<lparr>current_state := HALTED, calm_streak_start_ts := Some (fl 440)\<rparr>"
  obtain res d' where run: "evaluate_posture (quiet_metrics CALM 0) (fl 100) 0 None (fl 500) ?d = (res, d')" by force
  have "consistent (quiet_metrics CALM 0)" "0 < recovery_cooldown_sec ?d" "0 < halted_cooldown_sec ?d" "is_finite (fl 500)"
    by (simp_all add: consistent_def quiet_metrics_def new_defender_def fl_eval float_eval zero_Fin is_finite_def)
  then have "current_state d' \<in> edges (current_state ?d)" using posture_follows_graph [OF run] by blast
  then show ?thesis using run by simp
qed

text \<open>Ammunition: however often the sniper is armed and whatever opportunities, prices and clock readings it is
  given, it fires at most five trades in its life, in the doubles the quota is kept in.\<close>

theorem sniper_fires_at_most_five:
  "length (fst (run_sniper evs new_sniper)) \<le> 5"
proof -
  obtain ts s' where run: "run_sniper evs new_sniper = (ts, s')" by force
  have "limits_set 0 new_sniper" by (simp add: limits_set_def new_sniper_def)
  from run_sniper_spends [OF run this] run show ?thesis by (simp add: limits_set_def)
qed

end
