(* ===== verification/LiveAdapter.thy ===== *)
theory LiveAdapter
  imports OrderStateMachine Venue Money
begin

text \<open>
  \<open>execution/live_adapter.py\<close>: the adapter in front of a ccxt exchange.  The exchange client is a parameter: a
  record of the calls the adapter makes over a state of the exchange, each returning or raising one of the
  exceptions the code tells apart; a call cut off by the timeout raises \<open>AsyncTimeout\<close> and may have taken effect.
  \<open>10 ** -n\<close> and \<open>math.log10\<close> are parameters.  The raw response kept beside each answer is left out.
\<close>

section \<open>Errors\<close>

datatype venue_error =
    RateLimitExceeded | NetworkError | AsyncTimeout | ConnectionFailed | InsufficientFunds
  | OrderNotFound | InvalidOrder | ExchangeError | OtherCcxtError | OtherError pyerr

datatype live_error =
    LiveModeError string
  | KillSwitchActiveError
  | OrderRejectedError string
  | VenueError venue_error
  | PythonError pyerr

type_synonym ('s, 'a) lact = "'s \<Rightarrow> (live_error + 'a) \<times> 's"

definition classify_ccxt_error :: "venue_error \<Rightarrow> order_state" where
  "classify_ccxt_error e =
    (if e = RateLimitExceeded then UNKNOWN
     else if e = NetworkError then UNKNOWN
     else if e = InsufficientFunds then REJECTED
     else if e = OrderNotFound then EXPIRED
     else if e = InvalidOrder then REJECTED
     else if e = ExchangeError then REJECTED
     else UNKNOWN)"

definition error_event :: "order_state \<Rightarrow> order_event_type res" where
  "error_event st = (case map_of [(REJECTED, EvREJECTED), (EXPIRED, EvEXPIRY), (CANCELED, EvCANCEL), (UNKNOWN, EvQUARANTINED)] st of
     None \<Rightarrow> raise (KeyError (order_state_value st))
   | Some e \<Rightarrow> ok e)"

definition next_state_on_venue_error :: "order_state \<Rightarrow> venue_error \<Rightarrow> order_state res" where
  "next_state_on_venue_error current exc =
    rbind (error_event (classify_ccxt_error exc)) (\<lambda>ev.
      case transition_plain current ev of
        Inl (IllegalTransitionError a b) \<Rightarrow> ok current
      | r \<Rightarrow> r)"

section \<open>The exchange client\<close>

record create_request =
  rq_symbol :: string
  rq_type :: string
  rq_side :: string
  rq_amount :: "pyfloat option"
  rq_price :: "pyfloat option"
  rq_client_order_id :: string
  rq_reduce_only :: bool

text \<open>A key of a response: absent, present with \<open>None\<close>, or present.\<close>

type_synonym 'a key = "'a option option"

record raw_order =
  ro_id :: "string key"
  ro_client_order_id :: "string key"
  ro_symbol :: "string key"
  ro_status :: "string key"
  ro_filled :: "pyfloat key"
  ro_average :: "pyfloat key"

definition key_get :: "'a option \<Rightarrow> 'a key \<Rightarrow> 'a option" where
  "key_get dflt k = (case k of None \<Rightarrow> dflt | Some v \<Rightarrow> v)"

text \<open>A number in the description of a market.\<close>

datatype market_number = NoNumber | IntNumber int | BoolNumber bool | FloatNumber pyfloat

record market =
  mk_amount_min :: "market_number option"
  mk_amount_step :: "market_number option"
  mk_cost_min :: "market_number option"
  mk_precision_amount :: "market_number option"
  mk_precision_price :: "market_number option"

record balances =
  bal_total :: "(string, pyfloat option) dict"
  bal_free :: "(string, pyfloat option) dict"
  bal_used :: "(string, pyfloat option) dict"

type_synonym ('x, 'a) call = "'x \<Rightarrow> (venue_error + 'a) \<times> 'x"

record 'x ccxt =
  cx_create_order :: "create_request \<Rightarrow> ('x, raw_order) call"
  cx_cancel_order :: "string \<Rightarrow> string \<Rightarrow> ('x, raw_order) call"
  cx_fetch_order :: "string \<Rightarrow> string \<Rightarrow> ('x, raw_order option) call"
  cx_fetch_open_orders :: "string option \<Rightarrow> ('x, raw_order list) call"
  cx_fetch_balance :: "('x, balances) call"
  cx_load_markets :: "('x, unit) call"
  cx_market :: "string \<Rightarrow> ('x, market option) call"
  cx_build :: "string \<Rightarrow> 'x option"
  cx_pow10 :: "int \<Rightarrow> pyfloat"
  cx_log10 :: "pyfloat \<Rightarrow> pyfloat res"

section \<open>The adapter\<close>

definition LIVE_MODES :: "execution_mode set" where
  "LIVE_MODES = {LIVE_RESTRICTED, LIVE_FULL}"

datatype audit_entry =
    DryOrder string string side pyfloat pyfloat
  | DryExit string string string
  | DryCancel string string
  | DryFetch string string
  | DryOpenOrders "string option"
  | DryPositions

record 'x live_adapter =
  la_mode :: execution_mode
  la_dry_run :: bool
  la_exchange_id :: string
  la_account :: account_state
  la_exchange :: "'x option"
  instrument_cache :: "(string, instrument_info) dict"
  la_calls :: "audit_entry list"
  la_slept :: "pyfloat list"

definition new_live_adapter :: "execution_mode \<Rightarrow> bool \<Rightarrow> string \<Rightarrow> string \<Rightarrow> string \<Rightarrow> 'x option \<Rightarrow> account_state
    \<Rightarrow> live_error + 'x live_adapter" where
  "new_live_adapter mode dry api_key secret exchange_id ex acct =
    (if mode \<notin> LIVE_MODES \<and> \<not> dry then Inl (LiveModeError ''refuses construction'')
     else if \<not> dry \<and> (api_key = [] \<or> secret = []) then Inl (LiveModeError ''missing venue credentials'')
     else Inr \<lparr>la_mode = mode, la_dry_run = dry, la_exchange_id = exchange_id, la_account = acct, la_exchange = ex,
       instrument_cache = [], la_calls = [], la_slept = []\<rparr>)"

definition get_exchange :: "'x ccxt \<Rightarrow> ('x live_adapter, 'x) lact" where
  "get_exchange cx s = (case la_exchange s of
     Some x \<Rightarrow> (Inr x, s)
   | None \<Rightarrow>
       if la_dry_run s then (Inl (LiveModeError ''dry-run adapter has no exchange instance''), s)
       else (case cx_build cx (la_exchange_id s) of
         None \<Rightarrow> (Inl (LiveModeError ''unknown exchange_id''), s)
       | Some x \<Rightarrow> (Inr x, s\<lparr>la_exchange := Some x\<rparr>)))"

definition MAX_RETRIES :: nat where "MAX_RETRIES = 3"

definition retryable :: "venue_error \<Rightarrow> bool" where
  "retryable e \<longleftrightarrow> e \<in> {NetworkError, AsyncTimeout, ConnectionFailed}"

definition backoff :: "nat \<Rightarrow> pyfloat" where
  "backoff attempt = fl (25/100) * fl (2 ^ attempt)"

text \<open>The remaining attempts, the number of the next one and the last error; the sleeps are recorded.\<close>

primrec call_loop :: "('x, 'a) call \<Rightarrow> nat \<Rightarrow> nat \<Rightarrow> venue_error \<Rightarrow> 'x \<Rightarrow> pyfloat list
    \<Rightarrow> (venue_error + 'a) \<times> 'x \<times> pyfloat list" where
  "call_loop op 0 attempt last_exc x slept = (Inl last_exc, x, slept)"
| "call_loop op (Suc n) attempt last_exc x slept =
    (case op x of
       (Inr v, x1) \<Rightarrow> (Inr v, x1, slept)
     | (Inl e, x1) \<Rightarrow>
         if e = RateLimitExceeded then (Inl e, x1, slept)
         else if retryable e then call_loop op n (attempt + 1) e x1 (slept @ [backoff attempt])
         else (Inl e, x1, slept))"

definition venue_call :: "'x ccxt \<Rightarrow> ('x, 'a) call \<Rightarrow> ('x live_adapter, 'a) lact" where
  "venue_call cx op s = (case get_exchange cx s of
     (Inl e, s1) \<Rightarrow> (Inl e, s1)
   | (Inr x, s1) \<Rightarrow> (case call_loop op (1 + MAX_RETRIES) 0 NetworkError x (la_slept s1) of
       (r, x1, slept) \<Rightarrow> (map_sum VenueError id r, s1\<lparr>la_exchange := Some x1, la_slept := slept\<rparr>)))"

section \<open>Instrument limits\<close>

definition number_truth :: "market_number \<Rightarrow> bool" where
  "number_truth n = (case n of NoNumber \<Rightarrow> False | IntNumber i \<Rightarrow> i \<noteq> 0 | BoolNumber b \<Rightarrow> b | FloatNumber f \<Rightarrow> ftruth f)"

definition number_float :: "market_number \<Rightarrow> pyfloat res" where
  "number_float n = (case n of
     NoNumber \<Rightarrow> raise (TypeError ''float() argument must be a string or a real number'')
   | IntNumber i \<Rightarrow> ok (float_of_int i)
   | BoolNumber b \<Rightarrow> ok (if b then 1 else 0)
   | FloatNumber f \<Rightarrow> ok f)"

definition or_else :: "market_number \<Rightarrow> market_number \<Rightarrow> market_number" where
  "or_else a b = (if number_truth a then a else b)"

text \<open>\<open>10 ** n\<close>: an integer for a natural exponent, else a float.\<close>

definition power10 :: "'x ccxt \<Rightarrow> int \<Rightarrow> market_number" where
  "power10 cx n = (if 0 \<le> n then IntNumber (10 ^ nat n) else FloatNumber (cx_pow10 cx n))"

definition default_to_number :: "market_number option \<Rightarrow> market_number" where
  "default_to_number k = (case k of None \<Rightarrow> NoNumber | Some v \<Rightarrow> v)"

definition market_step :: "'x ccxt \<Rightarrow> market \<Rightarrow> market_number" where
  "market_step cx m =
    (let p = default_to_number (mk_precision_amount m) in
     case p of
       IntNumber n \<Rightarrow> if 0 < n then power10 cx (- n)
         else or_else p (or_else (default_to_number (mk_amount_step m)) (FloatNumber (fl (1/10000))))
     | _ \<Rightarrow> or_else p (or_else (default_to_number (mk_amount_step m)) (FloatNumber (fl (1/10000)))))"

definition market_tick :: "'x ccxt \<Rightarrow> market \<Rightarrow> market_number" where
  "market_tick cx m =
    (let p = (case mk_precision_price m of None \<Rightarrow> IntNumber 2 | Some v \<Rightarrow> v)
     in or_else (case p of IntNumber n \<Rightarrow> power10 cx (- n) | _ \<Rightarrow> p) (power10 cx (- 2)))"

text \<open>\<open>int(round(-math.log10(price_tick)))\<close>.\<close>

definition tick_precision :: "'x ccxt \<Rightarrow> market_number \<Rightarrow> int res" where
  "tick_precision cx t = rbind (number_float t) (\<lambda>f. rbind (cx_log10 cx f) (\<lambda>l. case - l of
     Fin a \<Rightarrow> ok (rne a)
   | NaN \<Rightarrow> raise (ValueError ''cannot convert float NaN to integer'')
   | _ \<Rightarrow> raise OverflowError))"

definition info_of_market :: "'x ccxt \<Rightarrow> string \<Rightarrow> market \<Rightarrow> instrument_info res" where
  "info_of_market cx sy m =
    rbind (case mk_amount_min m of None \<Rightarrow> ok (fl (1/1000)) | Some v \<Rightarrow> number_float v) (\<lambda>mq.
    rbind (case mk_cost_min m of None \<Rightarrow> ok (fl 10) | Some v \<Rightarrow> number_float v) (\<lambda>mn.
    rbind (number_float (market_step cx m)) (\<lambda>st.
    rbind (tick_precision cx (market_tick cx m)) (\<lambda>pp.
      ok \<lparr>in_symbol = sy, min_qty = mq, min_notional = mn, step_size = st, price_precision = pp\<rparr>))))"

definition live_instrument_info :: "'x ccxt \<Rightarrow> string \<Rightarrow> ('x live_adapter, instrument_info) lact" where
  "live_instrument_info cx sy s = (case dget (instrument_cache s) sy of
     Some info \<Rightarrow> (Inr info, s)
   | None \<Rightarrow>
       if la_dry_run s \<and> la_exchange s = None then
         (Inr (default_instrument sy), s\<lparr>instrument_cache := dset sy (default_instrument sy) (instrument_cache s)\<rparr>)
       else (case get_exchange cx s of
         (Inl e, s1) \<Rightarrow> (Inl e, s1)
       | (Inr _, s1) \<Rightarrow> (case venue_call cx (cx_load_markets cx) s1 of
           (Inl e, s2) \<Rightarrow> (Inl e, s2)
         | (Inr _, s2) \<Rightarrow> (case la_exchange s2 of
             None \<Rightarrow> (Inl (LiveModeError ''no exchange instance''), s2)
           | Some x \<Rightarrow> (case cx_market cx sy x of
               (Inl e, x1) \<Rightarrow> (Inl (VenueError e), s2\<lparr>la_exchange := Some x1\<rparr>)
             | (Inr None, x1) \<Rightarrow> (Inl (LiveModeError ''unknown market''), s2\<lparr>la_exchange := Some x1\<rparr>)
             | (Inr (Some m), x1) \<Rightarrow> (case info_of_market cx sy m of
                 Inl e \<Rightarrow> (Inl (PythonError e), s2\<lparr>la_exchange := Some x1\<rparr>)
               | Inr info \<Rightarrow> (Inr info, s2\<lparr>la_exchange := Some x1,
                   instrument_cache := dset sy info (instrument_cache s2)\<rparr>)))))))"

section \<open>Orders and exits\<close>

definition as_number :: "market_number \<Rightarrow> py_number" where
  "as_number n = (case n of IntNumber i \<Rightarrow> NumInt i | FloatNumber f \<Rightarrow> NumFloat f | BoolNumber b \<Rightarrow> NumInt (if b then 1 else 0)
     | NoNumber \<Rightarrow> NumStr [])"

definition quantized_values :: "'x ccxt \<Rightarrow> instrument_info \<Rightarrow> pyfloat \<Rightarrow> pyfloat \<Rightarrow> (pyfloat \<times> pyfloat) res" where
  "quantized_values cx info quantity price =
    rbind (quantize_to_step (NumFloat quantity) (NumFloat (step_size info))) (\<lambda>q.
    rbind (quantize_to_step (NumFloat price) (as_number (power10 cx (- price_precision info)))) (\<lambda>p.
      ok (float_of_decimal q, float_of_decimal p)))"

definition quantized :: "'x ccxt \<Rightarrow> string \<Rightarrow> pyfloat \<Rightarrow> pyfloat \<Rightarrow> ('x live_adapter, pyfloat \<times> pyfloat) lact" where
  "quantized cx sy quantity price s = (case live_instrument_info cx sy s of
     (Inl e, s1) \<Rightarrow> (Inl e, s1)
   | (Inr info, s1) \<Rightarrow> (map_sum PythonError id (quantized_values cx info quantity price), s1))"

text \<open>What the caller passes: \<open>type(order) is ApprovedOrder\<close> refuses a subclass, \<open>isinstance\<close> accepts it.\<close>

datatype 'a submission = Exactly 'a | Subclass 'a | SomethingElse

definition assert_approved :: "approved_order submission \<Rightarrow> live_error + approved_order" where
  "assert_approved o' = (case o' of Exactly a \<Rightarrow> Inr a | _ \<Rightarrow> Inl (OrderRejectedError ''create_order requires a Risk-Engine ApprovedOrder''))"

definition assert_approved_exit :: "approved_exit submission \<Rightarrow> live_error + approved_exit" where
  "assert_approved_exit o' = (case o' of Exactly a \<Rightarrow> Inr a | Subclass a \<Rightarrow> Inr a
     | SomethingElse \<Rightarrow> Inl (OrderRejectedError ''create_exit requires a Risk-Engine ApprovedExit''))"

definition check_kill_switch :: "'x live_adapter \<Rightarrow> live_error + unit" where
  "check_kill_switch s = (if kill_switch (la_account s) then Inl KillSwitchActiveError else Inr ())"

record live_response =
  lr_id :: "string option"
  lr_client_order_id :: "string option"
  lr_status :: "string option"
  lr_filled :: "pyfloat option"
  lr_average :: "pyfloat option"
  lr_dry_run :: bool

definition dry_response :: "string option \<Rightarrow> string \<Rightarrow> string \<Rightarrow> live_response" where
  "dry_response i cid status = \<lparr>lr_id = i, lr_client_order_id = Some cid, lr_status = Some status, lr_filled = None,
     lr_average = None, lr_dry_run = True\<rparr>"

definition submit_response :: "string \<Rightarrow> string \<Rightarrow> raw_order \<Rightarrow> live_response" where
  "submit_response cid status r = \<lparr>lr_id = key_get None (ro_id r),
     lr_client_order_id = key_get (Some cid) (ro_client_order_id r), lr_status = key_get (Some status) (ro_status r),
     lr_filled = None, lr_average = None, lr_dry_run = False\<rparr>"

definition log_call :: "audit_entry \<Rightarrow> 'x live_adapter \<Rightarrow> 'x live_adapter" where
  "log_call a s = s\<lparr>la_calls := la_calls s @ [a]\<rparr>"

definition order_request :: "approved_order \<Rightarrow> string \<Rightarrow> pyfloat \<Rightarrow> pyfloat \<Rightarrow> create_request" where
  "order_request a cid qty px = \<lparr>rq_symbol = ao_asset a, rq_type = ''limit'',
     rq_side = (if ao_side a = LONG then ''buy'' else ''sell''), rq_amount = Some qty, rq_price = Some px,
     rq_client_order_id = cid, rq_reduce_only = False\<rparr>"

definition send_order :: "'x ccxt \<Rightarrow> approved_order \<Rightarrow> string \<Rightarrow> pyfloat \<Rightarrow> pyfloat \<Rightarrow> ('x live_adapter, live_response) lact" where
  "send_order cx a cid qty px s = (case live_instrument_info cx (ao_asset a) s of
     (Inl e, s1) \<Rightarrow> (Inl e, s1)
   | (Inr info, s1) \<Rightarrow>
       (case check_min_notional (NumFloat qty) (NumFloat (if ftruth px then px else ao_entry_price a)) (NumFloat (min_notional info)) of
          Inl e \<Rightarrow> (Inl (PythonError e), s1)
        | Inr False \<Rightarrow> (Inl (OrderRejectedError ''quantized notional below min_notional''), s1)
        | Inr True \<Rightarrow> (case venue_call cx (cx_create_order cx (order_request a cid qty px)) s1 of
            (Inl e, s2) \<Rightarrow> (Inl e, s2)
          | (Inr r, s2) \<Rightarrow> (Inr (submit_response cid ''submitted'' r), s2))))"

definition live_create_order :: "'x ccxt \<Rightarrow> approved_order submission \<Rightarrow> string \<Rightarrow> ('x live_adapter, live_response) lact" where
  "live_create_order cx o' cid s = (case assert_approved o' of
     Inl e \<Rightarrow> (Inl e, s)
   | Inr a \<Rightarrow> (case check_kill_switch s of
       Inl e \<Rightarrow> (Inl e, s)
     | Inr _ \<Rightarrow>
         if la_dry_run s then
           (Inr (dry_response (Some (''dryrun_'' @ cid)) cid ''dry_run''),
            log_call (DryOrder cid (ao_asset a) (ao_side a) (ao_position_size a) (ao_entry_price a)) s)
         else (case quantized cx (ao_asset a) (ao_position_size a) (ao_entry_price a) s of
           (Inl e, s1) \<Rightarrow> (Inl e, s1)
         | (Inr (qty, px), s1) \<Rightarrow> send_order cx a cid qty px s1)))"

definition exit_request :: "approved_exit \<Rightarrow> string \<Rightarrow> create_request" where
  "exit_request x cid = \<lparr>rq_symbol = ax_asset x, rq_type = ''market'', rq_side = ''sell'', rq_amount = None,
     rq_price = None, rq_client_order_id = cid, rq_reduce_only = True\<rparr>"

definition live_create_exit :: "'x ccxt \<Rightarrow> approved_exit submission \<Rightarrow> string \<Rightarrow> ('x live_adapter, live_response) lact" where
  "live_create_exit cx o' cid s = (case assert_approved_exit o' of
     Inl e \<Rightarrow> (Inl e, s)
   | Inr x \<Rightarrow> (case check_kill_switch s of
       Inl e \<Rightarrow> (Inl e, s)
     | Inr _ \<Rightarrow>
         if la_dry_run s then
           (Inr (dry_response (Some (''dryrun_exit_'' @ cid)) cid ''dry_run''),
            log_call (DryExit cid (ax_asset x) (ax_reason x)) s)
         else (case venue_call cx (cx_create_order cx (exit_request x cid)) s of
           (Inl e, s1) \<Rightarrow> (Inl e, s1)
         | (Inr r, s1) \<Rightarrow> (Inr (submit_response cid ''closed'' r), s1))))"

section \<open>Cancels and queries\<close>

definition live_cancel_order :: "'x ccxt \<Rightarrow> string \<Rightarrow> string \<Rightarrow> ('x live_adapter, live_response) lact" where
  "live_cancel_order cx cid sy s =
    (if la_dry_run s then (Inr (dry_response None cid ''canceled''), log_call (DryCancel cid sy) s)
     else case venue_call cx (cx_cancel_order cx cid sy) s of
       (Inl e, s1) \<Rightarrow> (Inl e, s1)
     | (Inr r, s1) \<Rightarrow> (Inr ((submit_response cid ''canceled'' r)\<lparr>lr_id := None\<rparr>), s1))"

definition live_fetch_order :: "'x ccxt \<Rightarrow> string \<Rightarrow> string \<Rightarrow> ('x live_adapter, live_response option) lact" where
  "live_fetch_order cx cid sy s =
    (if la_dry_run s then (Inr (Some (dry_response None cid ''dry_run'')), log_call (DryFetch cid sy) s)
     else case venue_call cx (cx_fetch_order cx cid sy) s of
       (Inl e, s1) \<Rightarrow> (if e = VenueError OrderNotFound then Inr None else Inl e, s1)
     | (Inr None, s1) \<Rightarrow> (Inr None, s1)
     | (Inr (Some r), s1) \<Rightarrow>
         (Inr (Some \<lparr>lr_id = key_get None (ro_id r),
            lr_client_order_id = (case key_get None (ro_client_order_id r) of
                Some c \<Rightarrow> Some (if c = [] then cid else c) | None \<Rightarrow> Some cid),
            lr_status = key_get None (ro_status r), lr_filled = key_get None (ro_filled r),
            lr_average = key_get None (ro_average r), lr_dry_run = False\<rparr>), s1))"

definition live_fetch_open_orders :: "'x ccxt \<Rightarrow> string option \<Rightarrow> ('x live_adapter, (live_response \<times> string option) list) lact" where
  "live_fetch_open_orders cx sy s =
    (if la_dry_run s then (Inr [], log_call (DryOpenOrders sy) s)
     else case venue_call cx (cx_fetch_open_orders cx sy) s of
       (Inl e, s1) \<Rightarrow> (Inl e, s1)
     | (Inr rs, s1) \<Rightarrow> (Inr (map (\<lambda>r. (\<lparr>lr_id = key_get None (ro_id r),
          lr_client_order_id = key_get None (ro_client_order_id r), lr_status = key_get None (ro_status r),
          lr_filled = None, lr_average = None, lr_dry_run = False\<rparr>, key_get None (ro_symbol r))) rs), s1))"

record live_position =
  lp_asset :: string
  lp_size :: pyfloat
  lp_free :: "pyfloat option"
  lp_used :: "pyfloat option"

definition position_of_balance :: "balances \<Rightarrow> string \<times> pyfloat option \<Rightarrow> live_position option" where
  "position_of_balance b e = (case e of
     (code, Some x) \<Rightarrow> if ftruth x \<and> 0 < x then Some \<lparr>lp_asset = code, lp_size = x,
         lp_free = dget_or (bal_free b) code None, lp_used = dget_or (bal_used b) code None\<rparr> else None
   | _ \<Rightarrow> None)"

definition live_fetch_positions :: "'x ccxt \<Rightarrow> ('x live_adapter, live_position list) lact" where
  "live_fetch_positions cx s =
    (if la_dry_run s then (Inr [], log_call DryPositions s)
     else case venue_call cx (cx_fetch_balance cx) s of
       (Inl e, s1) \<Rightarrow> (Inl e, s1)
     | (Inr b, s1) \<Rightarrow> (Inr (List.map_filter (position_of_balance b) (bal_total b)), s1))"

section \<open>Calls\<close>

text \<open>The exchange after \<open>k\<close> calls of one operation.\<close>

definition after_calls :: "('x, 'a) call \<Rightarrow> nat \<Rightarrow> 'x \<Rightarrow> 'x" where
  "after_calls op k x = ((\<lambda>x. snd (op x)) ^^ k) x"

definition fails_retryably :: "('x, 'a) call \<Rightarrow> 'x \<Rightarrow> bool" where
  "fails_retryably op x \<longleftrightarrow> (case fst (op x) of Inl e \<Rightarrow> retryable e | Inr _ \<Rightarrow> False)"

lemma after_calls_Suc: "after_calls op (Suc k) x = after_calls op k (snd (op x))"
  using funpow_Suc_right [of k "\<lambda>x. snd (op x)"] by (simp add: after_calls_def)

lemma after_calls_0 [simp]: "after_calls op 0 x = x"
  by (simp add: after_calls_def)

lemma retryable_not_rate [simp]: "\<not> retryable RateLimitExceeded"
  by (simp add: retryable_def)

lemma call_loop_spec:
  "\<exists>k \<le> n. call_loop op n attempt e x slept =
      ((if k < n then fst (op (after_calls op k x)) else if n = 0 then Inl e else fst (op (after_calls op (n - 1) x))),
       (if k < n then after_calls op (Suc k) x else after_calls op n x), slept @ map backoff [attempt ..< attempt + k]) \<and>
    (\<forall>j < k. fails_retryably op (after_calls op j x)) \<and> (k < n \<longrightarrow> \<not> fails_retryably op (after_calls op k x))"
proof (induction n arbitrary: attempt e x slept)
  case 0
  show ?case by simp
next
  case (Suc n)
  obtain r x1 where r: "op x = (r, x1)" by force
  show ?case
  proof (cases "fails_retryably op x")
    case True
    then obtain e1 where e1: "r = Inl e1" "retryable e1" using r by (auto simp: fails_retryably_def split: sum.splits)
    then have step: "call_loop op (Suc n) attempt e x slept = call_loop op n (Suc attempt) e1 x1 (slept @ [backoff attempt])"
      using r by auto
    obtain k where k: "k \<le> n" "call_loop op n (Suc attempt) e1 x1 (slept @ [backoff attempt]) =
      ((if k < n then fst (op (after_calls op k x1)) else if n = 0 then Inl e1 else fst (op (after_calls op (n - 1) x1))),
       (if k < n then after_calls op (Suc k) x1 else after_calls op n x1),
       (slept @ [backoff attempt]) @ map backoff [Suc attempt ..< Suc attempt + k])"
      "\<forall>j < k. fails_retryably op (after_calls op j x1)" "k < n \<longrightarrow> \<not> fails_retryably op (after_calls op k x1)"
      using Suc.IH by blast
    have x1: "after_calls op j x1 = after_calls op (Suc j) x" for j using r by (simp add: after_calls_Suc)
    have "\<forall>j < Suc k. fails_retryably op (after_calls op j x)"
      using k(3) True x1 by (auto simp: less_Suc_eq_0_disj)
    moreover have slept: "backoff attempt # map backoff [Suc attempt ..< Suc attempt + k] = map backoff [attempt ..< attempt + Suc k]"
      using upt_conv_Cons [of attempt "attempt + Suc k"] by (simp del: upt_Suc)
    moreover have "call_loop op (Suc n) attempt e x slept =
      ((if Suc k < Suc n then fst (op (after_calls op (Suc k) x)) else fst (op (after_calls op n x))),
       (if Suc k < Suc n then after_calls op (Suc (Suc k)) x else after_calls op (Suc n) x),
       slept @ map backoff [attempt ..< attempt + Suc k])"
    proof (cases "k < n")
      case True
      then show ?thesis using step k(2) x1 slept by simp
    next
      case False
      then have "k = n" using k(1) by simp
      show ?thesis
      proof (cases n)
        case 0
        then show ?thesis using step k(2) \<open>k = n\<close> e1 r slept by (simp add: after_calls_Suc)
      next
        case (Suc m)
        then show ?thesis using step k(2) \<open>k = n\<close> x1 slept by simp
      qed
    qed
    ultimately show ?thesis using k(1,4) x1 by (intro exI [of _ "Suc k"]) (simp del: call_loop.simps upt_Suc)
  next
    case False
    then have "call_loop op (Suc n) attempt e x slept = (r, x1, slept)"
      using r by (auto simp: fails_retryably_def split: sum.splits)
    then show ?thesis using False r by (intro exI [of _ 0]) (auto simp: after_calls_def)
  qed
qed

lemma venue_call_spec:
  assumes "la_exchange s = Some x"
  shows "\<exists>k \<le> 4. venue_call cx op s =
      (map_sum VenueError id (fst (op (after_calls op (min k 3) x))),
       s\<lparr>la_exchange := Some (after_calls op (min (k + 1) 4) x), la_slept := la_slept s @ map backoff [0..<k]\<rparr>) \<and>
    (\<forall>j < k. fails_retryably op (after_calls op j x)) \<and> (k < 4 \<longrightarrow> \<not> fails_retryably op (after_calls op k x))"
proof -
  obtain k where k: "k \<le> 4" "call_loop op 4 0 NetworkError x (la_slept s) =
      ((if k < 4 then fst (op (after_calls op k x)) else fst (op (after_calls op 3 x))),
       (if k < 4 then after_calls op (Suc k) x else after_calls op 4 x), la_slept s @ map backoff [0..<k])"
    "\<forall>j < k. fails_retryably op (after_calls op j x)" "k < 4 \<longrightarrow> \<not> fails_retryably op (after_calls op k x)"
    using call_loop_spec [of 4 op 0 NetworkError x "la_slept s"] by auto
  then show ?thesis using assms
    by (intro exI [of _ k]) (auto simp: venue_call_def get_exchange_def MAX_RETRIES_def min_def simp del: call_loop.simps)
qed

section \<open>Amounts\<close>

definition on_scale :: "pyfloat \<Rightarrow> py_number \<Rightarrow> bool" where
  "on_scale v st \<longleftrightarrow> is_float v \<and> (\<exists>a d m. to_dec (NumFloat v) = ok (DFin (of_int a / 10 ^ m)) \<and>
     to_dec st = ok (DFin (of_int d / 10 ^ m)) \<and> 0 \<le> a \<and> a < 10 ^ 27 \<and> 0 < d)"

lemma quantized_below:
  assumes "on_scale v st" "quantize_to_step (NumFloat v) st = ok q"
  shows "0 \<le> float_of_decimal q \<and> float_of_decimal q \<le> v"
proof -
  obtain a d m where v: "to_dec (NumFloat v) = ok (DFin (of_int a / 10 ^ m))" and
    s: "to_dec st = ok (DFin (of_int d / 10 ^ m))" and a: "0 \<le> a" "a < 10 ^ 27" and d: "0 < d" and f: "is_float v"
    using assms(1) by (auto simp: on_scale_def)
  have "quantize_to_step (NumFloat v) st = ok (DFin (of_int (sgn a * (\<bar>a\<bar> div d) * d) / 10 ^ m))"
    by (rule quantize_common_scale) (use v s a d in auto)
  then have q: "q = DFin (of_int (a div d * d) / 10 ^ m)"
    using assms(2) a by (cases "a = 0") (simp_all add: sgn_if)
  have "0 \<le> a div d * d" "a div d * d \<le> a" using a d by (simp_all add: pos_imp_zdiv_nonneg_iff minus_mod_eq_div_mult [symmetric] zmod_le_nonneg_dividend)
  then have r: "0 \<le> rat_of_int (a div d * d) / 10 ^ m" "rat_of_int (a div d * d) / 10 ^ m \<le> of_int a / 10 ^ m"
    by (simp_all only: of_int_0_le_iff divide_right_mono of_int_le_iff zero_le_divide_iff zero_le_power zero_le_numeral simp_thms)
  have "decimal_from_float v = DFin (of_int a / 10 ^ m)" using v by (simp add: to_dec_def)
  then have "fl (of_int a / 10 ^ m) = v" using float_of_decimal_from_float [OF f] by (simp add: float_of_decimal_def)
  then show ?thesis using fl_mono [OF r(2)] fl_nonneg [OF r(1)] by (simp add: q float_of_decimal_def)
qed

text \<open>Only creating orders depends on \<open>cx_create_order\<close>.\<close>

lemmas weak_cases = option.case_cong sum.case_cong prod.case_cong market_number.case_cong if_cong

lemma other_client [simp]:
  "get_exchange (cx\<lparr>cx_create_order := f\<rparr>) = get_exchange cx"
  "power10 (cx\<lparr>cx_create_order := f\<rparr>) = power10 cx"
  by (simp_all add: get_exchange_def power10_def fun_eq_iff cong: weak_cases)

lemma other_call [simp]: "venue_call (cx\<lparr>cx_create_order := f\<rparr>) op = venue_call cx op"
  by (simp add: venue_call_def fun_eq_iff)

lemma other_market [simp]:
  "market_step (cx\<lparr>cx_create_order := f\<rparr>) = market_step cx" "market_tick (cx\<lparr>cx_create_order := f\<rparr>) = market_tick cx"
  "tick_precision (cx\<lparr>cx_create_order := f\<rparr>) = tick_precision cx"
  by (simp_all add: market_step_def market_tick_def tick_precision_def Let_def fun_eq_iff cong: weak_cases)

lemma other_info [simp]:
  "info_of_market (cx\<lparr>cx_create_order := f\<rparr>) = info_of_market cx"
  "live_instrument_info (cx\<lparr>cx_create_order := f\<rparr>) = live_instrument_info cx"
  "quantized_values (cx\<lparr>cx_create_order := f\<rparr>) = quantized_values cx"
  "quantized (cx\<lparr>cx_create_order := f\<rparr>) = quantized cx"
  by (simp_all add: info_of_market_def live_instrument_info_def quantized_values_def quantized_def fun_eq_iff cong: weak_cases)

lemma map_sum_Inr: "map_sum f id r = Inr y \<Longrightarrow> r = Inr y"
  by (cases r) auto

section \<open>Properties\<close>

definition within_approval :: "approved_order \<Rightarrow> string \<Rightarrow> create_request \<Rightarrow> bool" where
  "within_approval a cid req \<longleftrightarrow> rq_symbol req = ao_asset a \<and> rq_type req = ''limit'' \<and>
     rq_side req = (if ao_side a = LONG then ''buy'' else ''sell'') \<and> rq_client_order_id req = cid \<and>
     (case rq_amount req of None \<Rightarrow> False | Some q \<Rightarrow> 0 \<le> q \<and> q \<le> ao_position_size a) \<and>
     (case rq_price req of None \<Rightarrow> False | Some p \<Rightarrow> 0 \<le> p \<and> p \<le> ao_entry_price a)"

definition on_grid :: "'x ccxt \<Rightarrow> instrument_info \<Rightarrow> approved_order \<Rightarrow> bool" where
  "on_grid cx info a \<longleftrightarrow> on_scale (ao_position_size a) (NumFloat (step_size info)) \<and>
     on_scale (ao_entry_price a) (as_number (power10 cx (- price_precision info)))"

text \<open>C19: Nothing beyond the approval reaches the exchange.  For an approved order whose size and price, with the
  steps of its instrument, have at most 27 digits on a common decimal scale, submitting it behaves the same on
  every two exchanges that treat alike the limit orders of its asset, side and client id for at most its size
  and price: no other order is ever created, in whatever state and mode the adapter is and however
  often the call is retried.\<close>

theorem nothing_beyond_approval_is_sent:
  assumes "\<forall>info s1. live_instrument_info cx (ao_asset a) s = (Inr info, s1) \<longrightarrow> on_grid cx info a"
    "\<forall>req x. within_approval a cid req \<longrightarrow> f req x = cx_create_order cx req x"
  shows "live_create_order (cx\<lparr>cx_create_order := f\<rparr>) (Exactly a) cid s = live_create_order cx (Exactly a) cid s"
proof -
  have send: "send_order (cx\<lparr>cx_create_order := f\<rparr>) a cid qty px s1 = send_order cx a cid qty px s1"
    if q: "quantized cx (ao_asset a) (ao_position_size a) (ao_entry_price a) s = (Inr (qty, px), s1)" for qty px s1
  proof -
    obtain info where "live_instrument_info cx (ao_asset a) s = (Inr info, s1)"
      "quantized_values cx info (ao_position_size a) (ao_entry_price a) = ok (qty, px)"
      using q by (auto simp: quantized_def split: prod.splits sum.splits dest!: map_sum_Inr)
    then have "on_grid cx info a" "0 \<le> qty \<and> qty \<le> ao_position_size a" "0 \<le> px \<and> px \<le> ao_entry_price a"
      using assms(1) quantized_below by (auto simp: quantized_values_def rbind_eq_Inr on_grid_def)
    then have "within_approval a cid (order_request a cid qty px)"
      by (simp add: within_approval_def order_request_def)
    then have "f (order_request a cid qty px) = cx_create_order cx (order_request a cid qty px)"
      using assms(2) by auto
    then show ?thesis by (simp add: send_order_def cong: weak_cases bool.case_cong)
  qed
  obtain r s1 where q: "quantized cx (ao_asset a) (ao_position_size a) (ao_entry_price a) s = (r, s1)" by force
  show ?thesis
    using send q by (cases r) (auto simp: live_create_order_def assert_approved_def split: sum.splits)
qed

text \<open>A venue call makes at most four attempts: exactly the attempts before the first answer that is not a
  transient failure are retried, its outcome is that of this attempt (of the fourth when all fail), the exchange is
  in the state after exactly these attempts, and one backoff of 0.25, 0.5, 1 or 2 seconds was slept after each
  transient failure, the last one included; a rate limit is never retried.\<close>

theorem venue_call_attempts:
  assumes "la_exchange s = Some x"
  shows "\<exists>k \<le> 4. venue_call cx op s =
      (map_sum VenueError id (fst (op (after_calls op (min k 3) x))),
       s\<lparr>la_exchange := Some (after_calls op (min (k + 1) 4) x), la_slept := la_slept s @ map backoff [0..<k]\<rparr>) \<and>
    (\<forall>j < k. fails_retryably op (after_calls op j x)) \<and> (k < 4 \<longrightarrow> \<not> fails_retryably op (after_calls op k x)) \<and>
    (fst (op x) = Inl RateLimitExceeded \<longrightarrow> k = 0)"
proof -
  have "fst (op x) = Inl RateLimitExceeded \<Longrightarrow> \<not> fails_retryably op (after_calls op 0 x)"
    by (simp add: fails_retryably_def)
  moreover obtain k where "k \<le> 4" "venue_call cx op s =
      (map_sum VenueError id (fst (op (after_calls op (min k 3) x))),
       s\<lparr>la_exchange := Some (after_calls op (min (k + 1) 4) x), la_slept := la_slept s @ map backoff [0..<k]\<rparr>)"
    "\<forall>j < k. fails_retryably op (after_calls op j x)" "k < 4 \<longrightarrow> \<not> fails_retryably op (after_calls op k x)"
    using venue_call_spec [OF assms] by blast
  ultimately show ?thesis by (intro exI [of _ k]) (cases k; auto)
qed

text \<open>Every venue exception gives the order a state without raising: the state stays or makes a legal step,
  a terminal state stays, and after an exception that leaves the outcome open every live order is quarantined.\<close>

theorem venue_error_next_state:
  "\<exists>t. next_state_on_venue_error st e = ok t \<and>
    (if st \<in> TERMINAL_STATES then t = st
     else if classify_ccxt_error e = UNKNOWN then t = QUARANTINED
     else t = st \<or> legal_step st t)"
proof -
  have ev: "\<exists>ev. error_event (classify_ccxt_error e) = ok ev \<and>
      (classify_ccxt_error e = UNKNOWN \<longrightarrow> ev = EvQUARANTINED)"
    by (cases e) (auto simp: classify_ccxt_error_def error_event_def)
  then obtain ev where ev: "error_event (classify_ccxt_error e) = ok ev" "classify_ccxt_error e = UNKNOWN \<Longrightarrow> ev = EvQUARANTINED"
    by blast
  show ?thesis
  proof (cases "transition_plain st ev")
    case (Inl err)
    then have "err = illegal_transition st ev" by (auto simp: transition_plain_def dest: transition_error_cases)
    moreover have "classify_ccxt_error e = UNKNOWN \<Longrightarrow> st \<in> TERMINAL_STATES"
      using Inl ev(2) by (cases st) (auto simp: transition_plain_def transition_eq event_target_def TERMINAL_STATES_iff)
    ultimately show ?thesis using Inl ev(1) by (auto simp: next_state_on_venue_error_def illegal_transition_def)
  next
    case (Inr t)
    then have "legal_step st t" by (auto simp: transition_plain_def dest: transition_ok_legal)
    moreover have "classify_ccxt_error e = UNKNOWN \<Longrightarrow> t = QUARANTINED"
      using Inr ev(2) by (auto simp: transition_plain_def transition_eq event_target_def split: if_splits)
    ultimately show ?thesis using Inr ev(1) legal_step_not_terminal by (auto simp: next_state_on_venue_error_def)
  qed
qed

text \<open>A lost acknowledgement is turned into a rejection: when the exchange accepts the order but the answer
  times out, and refuses the repeated client id, the retry makes the adapter raise \<open>InvalidOrder\<close>, which moves the submitted
  order to REJECTED although it is open at the exchange.\<close>

theorem lost_ack_becomes_rejection:
  assumes "la_exchange s = Some x" "op x = (Inl AsyncTimeout, x1)" "op x1 = (Inl InvalidOrder, x2)"
  shows "venue_call cx op s = (Inl (VenueError InvalidOrder), s\<lparr>la_exchange := Some x2, la_slept := la_slept s @ [backoff 0]\<rparr>) \<and>
    next_state_on_venue_error SUBMITTED InvalidOrder = ok REJECTED"
  using assms by (simp add: venue_call_def get_exchange_def MAX_RETRIES_def retryable_def numeral_3_eq_3
      next_state_on_venue_error_def classify_ccxt_error_def error_event_def transition_plain_def transition_eq event_target_def)

text \<open>An exchange that records a client id, answers too late, and refuses a client id it has.\<close>

definition slow_create :: "create_request \<Rightarrow> (string list, raw_order) call" where
  "slow_create req ids = (if rq_client_order_id req \<in> set ids then (Inl InvalidOrder, ids)
     else (Inl AsyncTimeout, rq_client_order_id req # ids))"

definition quick_create :: "create_request \<Rightarrow> (string list, raw_order) call" where
  "quick_create req ids = (Inr \<lparr>ro_id = None, ro_client_order_id = None, ro_symbol = None, ro_status = None,
     ro_filled = None, ro_average = None\<rparr>, rq_client_order_id req # ids)"

definition demo_ccxt :: "(create_request \<Rightarrow> (string list, raw_order) call) \<Rightarrow> string list ccxt" where
  "demo_ccxt create = \<lparr>cx_create_order = create, cx_cancel_order = (\<lambda>_ _ x. (Inl OrderNotFound, x)),
     cx_fetch_order = (\<lambda>_ _ x. (Inr None, x)), cx_fetch_open_orders = (\<lambda>_ x. (Inr [], x)),
     cx_fetch_balance = (\<lambda>x. (Inl NetworkError, x)), cx_load_markets = (\<lambda>x. (Inr (), x)),
     cx_market = (\<lambda>_ x. (Inr None, x)), cx_build = (\<lambda>_. None), cx_pow10 = (\<lambda>_. 1), cx_log10 = ok\<rparr>"

definition demo_adapter :: "string list live_adapter" where
  "demo_adapter = \<lparr>la_mode = LIVE_FULL, la_dry_run = False, la_exchange_id = ''x'',
     la_account = \<lparr>equity = 0, peak_equity = 0, open_positions = [], acc_daily_pnl_pct = 0, weekly_pnl_pct = 0,
       consecutive_losses = [], last_loss_at = [], kill_switch = False, high_volatility = False,
       minutes_to_next_major_event = None, correlations = Map.empty, day_start_settled_equity = None\<rparr>,
     la_exchange = Some [],
     instrument_cache = [(''A'', \<lparr>in_symbol = ''A'', min_qty = 0, min_notional = 0, step_size = 1, price_precision = 0\<rparr>)],
     la_calls = [], la_slept = []\<rparr>"

definition demo_approved :: approved_order where
  "demo_approved = \<lparr>ao_asset = ''A'', ao_asset_class = ''crypto'', ao_side = LONG, ao_entry_price = fl 3, ao_stop_price = fl 2,
     ao_target_price = fl 5, ao_position_size = fl 2, ao_risk_pct = 0, ao_issuer = ISSUER\<rparr>"

lemma on_scaleI:
  "is_float v \<Longrightarrow> to_dec (NumFloat v) = ok (DFin (of_int a / 10 ^ m)) \<Longrightarrow> to_dec st = ok (DFin (of_int d / 10 ^ m)) \<Longrightarrow>
    0 \<le> a \<Longrightarrow> a < 10 ^ 27 \<Longrightarrow> 0 < d \<Longrightarrow> on_scale v st"
  unfolding on_scale_def by blast

lemma demo_scale: "on_scale (fl 2) (NumFloat 1)" "on_scale (fl 3) (NumInt 1)"
proof -
  have "to_dec (NumFloat (fl 2)) = ok (DFin 2)" "to_dec (NumFloat 1) = ok (DFin 1)"
    "to_dec (NumFloat (fl 3)) = ok (DFin 3)" "to_dec (NumInt 1) = ok (DFin 1)"
    by (simp_all add: to_dec_def decimal_from_float_def fl_eval float_eval one_Fin shortest_dec_def upt_rec
        pick_nearest_def dec_candidates_def ilog10_def ndigits.simps)
  then show "on_scale (fl 2) (NumFloat 1)" "on_scale (fl 3) (NumInt 1)"
    using on_scaleI [of "fl 2" 2 0 "NumFloat 1" 1] on_scaleI [of "fl 3" 3 0 "NumInt 1" 1] by simp_all
qed

lemma demo_on_grid: "live_instrument_info cx (ao_asset demo_approved) demo_adapter = (Inr info, s1) \<Longrightarrow> on_grid cx info demo_approved"
  using demo_scale by (auto simp: live_instrument_info_def demo_approved_def demo_adapter_def on_grid_def power10_def as_number_def)

theorem nothing_beyond_approval_is_sent_witness:
  "live_create_order (demo_ccxt (\<lambda>req. if within_approval demo_approved ''c'' req then quick_create req else slow_create req))
     (Exactly demo_approved) ''c'' demo_adapter
   = live_create_order (demo_ccxt quick_create) (Exactly demo_approved) ''c'' demo_adapter"
proof -
  have "demo_ccxt create = (demo_ccxt quick_create)\<lparr>cx_create_order := create\<rparr>" for create by (simp add: demo_ccxt_def)
  then show ?thesis
    using nothing_beyond_approval_is_sent [of "demo_ccxt quick_create" demo_approved demo_adapter "''c''"
      "\<lambda>req. if within_approval demo_approved ''c'' req then quick_create req else slow_create req"] demo_on_grid
    by (simp add: demo_ccxt_def)
qed

theorem venue_call_attempts_witness:
  "\<exists>k \<le> 4. la_slept (snd (venue_call (demo_ccxt quick_create) (\<lambda>x :: string list. (Inl NetworkError :: venue_error + unit, x)) demo_adapter))
     = map backoff [0..<k]"
proof -
  have "la_exchange demo_adapter = Some []" "la_slept demo_adapter = []" by (simp_all add: demo_adapter_def)
  then show ?thesis
    using venue_call_attempts [of demo_adapter "[]" "demo_ccxt quick_create"
      "\<lambda>x :: string list. (Inl NetworkError :: venue_error + unit, x)"] by auto
qed

theorem lost_ack_becomes_rejection_witness:
  "fst (venue_call (demo_ccxt slow_create) (slow_create (order_request demo_approved ''c'' 1 1)) demo_adapter)
     = Inl (VenueError InvalidOrder)"
  using lost_ack_becomes_rejection [of demo_adapter "[]" "slow_create (order_request demo_approved ''c'' 1 1)" "[''c'']" "[''c'']"
    "demo_ccxt slow_create"]
  by (simp add: slow_create_def order_request_def demo_adapter_def)

section \<open>Gates\<close>

text \<open>A tripped kill switch blocks exits as well as entries; an exit is a market sale whatever the side of the
  position.\<close>

lemma kill_switch_blocks_exits:
  "kill_switch (la_account s) \<Longrightarrow> live_create_exit cx (Exactly x) cid s = (Inl KillSwitchActiveError, s)"
  by (simp add: live_create_exit_def assert_approved_exit_def check_kill_switch_def)

lemma dry_run_offline:
  assumes "la_dry_run s" "la_exchange s = None"
  shows "la_exchange (snd (live_create_order cx o' cid s)) = None" "la_exchange (snd (live_create_exit cx x' cid s)) = None"
    "la_exchange (snd (live_cancel_order cx cid sy s)) = None" "la_exchange (snd (live_fetch_order cx cid sy s)) = None"
    "la_exchange (snd (live_fetch_open_orders cx sy' s)) = None" "la_exchange (snd (live_fetch_positions cx s)) = None"
    "la_exchange (snd (live_instrument_info cx sy s)) = None"
  using assms by (auto simp: live_create_order_def live_create_exit_def live_cancel_order_def live_fetch_order_def
      live_fetch_open_orders_def live_fetch_positions_def live_instrument_info_def log_call_def split: sum.splits option.splits)

end
