(* ===== verification/Bandit.thy ===== *)
theory Bandit
  imports CircuitBreaker
begin

text \<open>
  \<open>learning/policy.py\<close>: the softmax policy over strategy names.  \<open>math.exp\<close> is a parameter that may raise, the
  random draw of a selection is an argument; the log messages are left out.
\<close>

section \<open>The allocator\<close>

record bandit =
  strategies :: "string list"
  bd_lr :: pyfloat
  temperature :: pyfloat
  bd_weights :: "(string, pyfloat) dict"
  successes :: "(string, pyfloat) dict"
  failures :: "(string, pyfloat) dict"
  total_rewards :: "(string, pyfloat) dict"
  bd_counts :: "(string, int) dict"

text \<open>Duplicates go, the first occurrence keeps its place.\<close>

definition dedup :: "string list \<Rightarrow> string list" where
  "dedup xs = rev (remdups (rev xs))"

definition new_bandit :: "string list \<Rightarrow> pyfloat \<Rightarrow> pyfloat \<Rightarrow> bandit res" where
  "new_bandit names lr temp =
    (if names = [] then raise (ValueError ''strategies must be a non-empty list of action names'')
     else let ss = dedup names in
       ok \<lparr>strategies = ss, bd_lr = lr, temperature = pymax (fl (1/10000)) temp, bd_weights = map (\<lambda>s. (s, 0)) ss,
         successes = map (\<lambda>s. (s, 1)) ss, failures = map (\<lambda>s. (s, 1)) ss, total_rewards = map (\<lambda>s. (s, 0)) ss,
         bd_counts = map (\<lambda>s. (s, 0)) ss\<rparr>)"

definition key_of :: "(string, 'v) dict \<Rightarrow> string \<Rightarrow> 'v res" where
  "key_of d k = (case dget d k of None \<Rightarrow> raise (KeyError k) | Some v \<Rightarrow> ok v)"

definition get_action_probabilities :: "(pyfloat \<Rightarrow> pyfloat res) \<Rightarrow> bandit \<Rightarrow> (string, pyfloat) dict res" where
  "get_action_probabilities ex b =
    rbind (map_res (\<lambda>(s, w). rbind (fdiv w (temperature b)) (\<lambda>q. rbind (ex q) (\<lambda>e. ok (s, e)))) (bd_weights b)) (\<lambda>es.
      let total_exp = fsum (dvalues es) in
      map_res (\<lambda>s. rbind (key_of es s) (\<lambda>e. rbind (fdiv e total_exp) (\<lambda>p. ok (s, p)))) (strategies b))"

definition validate_action :: "bandit \<Rightarrow> string option \<Rightarrow> string res" where
  "validate_action b name = (case name of
     None \<Rightarrow> raise (ValueError ''Unknown action'')
   | Some n \<Rightarrow> if dget (bd_weights b) n = None then raise (ValueError ''Unknown action'') else ok n)"

text \<open>The regime's probabilities modulate the policy when there are enough of them.\<close>

definition modulate :: "pyfloat list \<Rightarrow> bandit \<Rightarrow> (string, pyfloat) dict \<Rightarrow> (string, pyfloat) dict res" where
  "modulate ctx b probs =
    rbind (map_res (\<lambda>(i, s). rbind (key_of probs s) (\<lambda>p. ok (s, p * pymax (ctx ! i) (fl (1/100)))))
        (enumerate 0 (strategies b))) (\<lambda>adjusted.
      let tot = fsum (dvalues adjusted) in map_res (\<lambda>(s, p). rbind (fdiv p tot) (\<lambda>q. ok (s, q))) adjusted)"

primrec pick_cumulative :: "pyfloat \<Rightarrow> pyfloat \<Rightarrow> string \<Rightarrow> (string, pyfloat) dict \<Rightarrow> string" where
  "pick_cumulative r c dflt [] = dflt"
| "pick_cumulative r c dflt (e # es) =
    (let c' = c + snd e in if r \<le> c' then fst e else pick_cumulative r c' dflt es)"

text \<open>\<open>max(keys, key=probs)\<close>: the first largest.\<close>

definition argmax :: "(string, pyfloat) dict \<Rightarrow> string res" where
  "argmax d = (case d of
     [] \<Rightarrow> raise (ValueError ''max() arg is an empty sequence'')
   | e # es \<Rightarrow> ok (fst (foldl (\<lambda>a x. if snd a < snd x then x else a) e es)))"

definition select_strategy :: "(pyfloat \<Rightarrow> pyfloat res) \<Rightarrow> pyfloat list option \<Rightarrow> bool \<Rightarrow> pyfloat \<Rightarrow> bandit \<Rightarrow> string res" where
  "select_strategy ex ctx deterministic r b =
    rbind (get_action_probabilities ex b) (\<lambda>probs0.
    rbind (case ctx of
        None \<Rightarrow> ok probs0
      | Some c \<Rightarrow> if length (strategies b) \<le> length c then modulate c b probs0 else ok probs0) (\<lambda>probs.
      if deterministic then argmax probs
      else ok (pick_cumulative r 0 (last (strategies b)) probs)))"

definition learn_weight :: "(string, pyfloat) dict \<Rightarrow> string \<Rightarrow> pyfloat \<Rightarrow> bandit \<Rightarrow> string \<Rightarrow> bandit res" where
  "learn_weight probs name reward b s =
    rbind (key_of probs s) (\<lambda>p. rbind (key_of (bd_weights b) s) (\<lambda>w.
      let grad = (if s = name then 1 - p else - p) in
      ok (b\<lparr>bd_weights := dset s (w + bd_lr b * reward * grad) (bd_weights b)\<rparr>)))"

primrec learn_weights :: "(string, pyfloat) dict \<Rightarrow> string \<Rightarrow> pyfloat \<Rightarrow> string list \<Rightarrow> (bandit, unit) act" where
  "learn_weights probs name reward [] b = (ok (), b)"
| "learn_weights probs name reward (s # ss) b = (case learn_weight probs name reward b s of
     Inl e \<Rightarrow> (Inl e, b)
   | Inr b1 \<Rightarrow> learn_weights probs name reward ss b1)"

definition book_trade :: "string \<Rightarrow> pyfloat \<Rightarrow> bandit \<Rightarrow> bandit" where
  "book_trade name reward b =
    (let b1 = b\<lparr>bd_counts := dset name (dget_or (bd_counts b) name 0 + 1) (bd_counts b),
           total_rewards := dset name (dget_or (total_rewards b) name 0 + reward) (total_rewards b)\<rparr>
     in if 0 < reward then b1\<lparr>successes := dset name (dget_or (successes b1) name 0 + 1) (successes b1)\<rparr>
        else b1\<lparr>failures := dset name (dget_or (failures b1) name 0 + 1) (failures b1)\<rparr>)"

definition update_from_trade :: "(pyfloat \<Rightarrow> pyfloat res) \<Rightarrow> string option \<Rightarrow> pyfloat \<Rightarrow> string option \<Rightarrow> (bandit, unit) act" where
  "update_from_trade ex strategy_name reward strategy b =
    (case validate_action b (if strategy_name \<noteq> None then strategy_name else strategy) of
       Inl e \<Rightarrow> (Inl e, b)
     | Inr name \<Rightarrow> (case get_action_probabilities ex b of
         Inl e \<Rightarrow> (Inl e, b)
       | Inr probs \<Rightarrow> (case learn_weights probs name reward (strategies b) b of
           (Inl e, b1) \<Rightarrow> (Inl e, b1)
         | (Inr _, b1) \<Rightarrow> (ok (), book_trade name reward b1))))"

text \<open>Batch training on the graph's records, each a strategy label and a P\&L; the number skipped is the result.\<close>

primrec fit_records :: "(pyfloat \<Rightarrow> pyfloat res) \<Rightarrow> bool \<Rightarrow> (string option \<times> pyfloat) list \<Rightarrow> int \<Rightarrow> (bandit, int) act" where
  "fit_records ex skip [] n b = (ok n, b)"
| "fit_records ex skip (r # rs) n b =
    (case update_from_trade ex (fst r) (if 0 < snd r then 1 else - 1) None b of
       (Inr _, b1) \<Rightarrow> fit_records ex skip rs n b1
     | (Inl e, b1) \<Rightarrow> (case e of
         ValueError msg \<Rightarrow> if skip then fit_records ex skip rs (n + 1) b1 else (Inl e, b1)
       | _ \<Rightarrow> (Inl e, b1)))"

record strategy_summary =
  policy_prob :: pyfloat
  summary_trades :: int
  avg_reward :: pyfloat
  bayesian_win_rate :: pyfloat

definition summary_of :: "bandit \<Rightarrow> (string, pyfloat) dict \<Rightarrow> string \<Rightarrow> (string \<times> strategy_summary) res" where
  "summary_of b probs s =
    rbind (key_of (bd_counts b) s) (\<lambda>n. rbind (key_of (total_rewards b) s) (\<lambda>t.
    rbind (if 0 < n then fdiv t (float_of_int n) else ok 0) (\<lambda>avg.
    rbind (key_of (successes b) s) (\<lambda>a. rbind (key_of (failures b) s) (\<lambda>f.
    rbind (fdiv a (a + f)) (\<lambda>rate. rbind (key_of probs s) (\<lambda>p.
      ok (s, \<lparr>policy_prob = p, summary_trades = n, avg_reward = avg, bayesian_win_rate = rate\<rparr>))))))))"

definition summary :: "(pyfloat \<Rightarrow> pyfloat res) \<Rightarrow> bandit \<Rightarrow> (string \<times> strategy_summary) list res" where
  "summary ex b = rbind (get_action_probabilities ex b) (\<lambda>probs. map_res (summary_of b probs) (strategies b))"

section \<open>The action space\<close>

definition bandit_ok :: "bandit \<Rightarrow> bool" where
  "bandit_ok b \<longleftrightarrow> strategies b \<noteq> [] \<and> (\<forall>s. dget (bd_weights b) s \<noteq> None \<longleftrightarrow> s \<in> set (strategies b))"

lemma dedup_set [simp]: "set (dedup xs) = set xs" "dedup xs = [] \<longleftrightarrow> xs = []"
  by (simp_all add: dedup_def)

lemma new_bandit_ok: "new_bandit names lr temp = ok b \<Longrightarrow> bandit_ok b \<and> set (strategies b) = set names"
  by (auto simp: new_bandit_def bandit_ok_def Let_def map_of_eq_None_iff image_iff split: if_splits)

lemma map_res_fst:
  "map_res f xs = ok ys \<Longrightarrow> (\<And>x y. x \<in> set xs \<Longrightarrow> f x = ok y \<Longrightarrow> g y = h x) \<Longrightarrow> map g ys = map h xs"
proof (induction xs arbitrary: ys)
  case (Cons x xs)
  then obtain y zs where "f x = ok y" "map_res f xs = ok zs" "ys = y # zs" by (auto simp: rbind_eq_Inr)
  then show ?case using Cons by auto
qed simp

lemma probabilities_names:
  assumes "get_action_probabilities ex b = ok ps"
  shows "map fst ps = strategies b"
proof -
  obtain es where "map_res (\<lambda>s. rbind (key_of es s) (\<lambda>e. rbind (fdiv e (fsum (dvalues es))) (\<lambda>p. ok (s, p)))) (strategies b) = ok ps"
    using assms by (auto simp: get_action_probabilities_def rbind_eq_Inr Let_def)
  then have "map fst ps = map id (strategies b)" by (rule map_res_fst) (auto simp: rbind_eq_Inr)
  then show ?thesis by simp
qed

lemma modulate_names:
  assumes "modulate c b ps = ok qs"
  shows "map fst qs = strategies b"
proof -
  obtain adjusted where a: "map_res (\<lambda>(i, s). rbind (key_of ps s) (\<lambda>p. ok (s, p * pymax (c ! i) (fl (1/100)))))
      (enumerate 0 (strategies b)) = ok adjusted"
    "map_res (\<lambda>(s, p). rbind (fdiv p (fsum (dvalues adjusted))) (\<lambda>q. ok (s, q))) adjusted = ok qs"
    using assms by (auto simp: modulate_def rbind_eq_Inr Let_def)
  have "map fst adjusted = map snd (enumerate 0 (strategies b))"
    by (rule map_res_fst [OF a(1)]) (auto simp: rbind_eq_Inr)
  moreover have "map fst qs = map fst adjusted"
    by (rule map_res_fst [OF a(2)]) (auto simp: rbind_eq_Inr)
  ultimately show ?thesis by simp
qed

lemma pick_cumulative_in: "pick_cumulative r c dflt es \<in> insert dflt (fst ` set es)"
  by (induction es arbitrary: c) (auto simp: Let_def)

lemma foldl_best: "foldl (\<lambda>a x. if snd a < snd x then x else a) e es \<in> set (e # es)" for e :: "string \<times> pyfloat"
  by (induction es arbitrary: e) auto

lemma argmax_in:
  assumes "argmax d = ok s"
  shows "s \<in> fst ` set d"
proof (cases d)
  case (Cons e es)
  then have "s = fst (foldl (\<lambda>a x. if snd a < snd x then x else a) e es)" using assms by (simp add: argmax_def)
  then show ?thesis using imageI [OF foldl_best [of e es], of fst] Cons by simp
qed (use assms in \<open>simp add: argmax_def\<close>)

lemma select_strategy_in:
  assumes "select_strategy ex c det r b = ok s" "bandit_ok b"
  shows "s \<in> set (strategies b)"
proof -
  obtain p0 where p0: "get_action_probabilities ex b = ok p0" using assms(1) by (auto simp: select_strategy_def rbind_eq_Inr)
  obtain ps where ps: "map fst ps = strategies b"
    "(if det then argmax ps else ok (pick_cumulative r 0 (last (strategies b)) ps)) = ok s"
  proof (cases "\<exists>cs. c = Some cs \<and> length (strategies b) \<le> length cs")
    case True
    then obtain cs ps where m: "modulate cs b p0 = ok ps"
      "(if det then argmax ps else ok (pick_cumulative r 0 (last (strategies b)) ps)) = ok s"
      using assms(1) p0 by (auto simp: select_strategy_def rbind_eq_Inr)
    show ?thesis by (rule that [OF modulate_names [OF m(1)] m(2)])
  next
    case False
    then show ?thesis using that [OF probabilities_names [OF p0]] assms(1) p0
      by (auto simp: select_strategy_def split: option.splits)
  qed
  have "fst ` set ps = set (strategies b)" using ps(1) by (metis list.set_map)
  then show ?thesis
    using ps(2) argmax_in pick_cumulative_in [of r 0 "last (strategies b)" ps] assms(2) last_in_set
    by (auto simp: bandit_ok_def split: if_splits)
qed

lemma learn_weights_ok:
  "learn_weights probs name reward ss b = (r, b') \<Longrightarrow> bandit_ok b \<Longrightarrow> set ss \<subseteq> set (strategies b) \<Longrightarrow>
    bandit_ok b' \<and> strategies b' = strategies b \<and> bd_counts b' = bd_counts b"
proof (induction ss arbitrary: b)
  case (Cons s ss)
  show ?case
  proof (cases "learn_weight probs name reward b s")
    case (Inr b1)
    then have "strategies b1 = strategies b" "bd_counts b1 = bd_counts b" "bandit_ok b1"
      using Cons.prems(2,3) by (auto simp: learn_weight_def rbind_eq_Inr Let_def bandit_ok_def dict_simps split: if_splits)
    then show ?thesis using Cons Inr by auto
  qed (use Cons in auto)
qed auto

lemma book_trade_ok [simp]: "bandit_ok (book_trade name reward b) = bandit_ok b"
  "strategies (book_trade name reward b) = strategies b"
  by (simp_all add: book_trade_def bandit_ok_def Let_def)

lemma update_ok:
  assumes "update_from_trade ex sn reward s b = (r, b')" "bandit_ok b"
  shows "bandit_ok b' \<and> strategies b' = strategies b"
proof -
  have "bandit_ok b1 \<and> strategies b1 = strategies b"
    if "learn_weights probs name reward (strategies b) b = (q, b1)" for probs name q b1
    using learn_weights_ok [OF that assms(2)] by simp
  then show ?thesis using assms by (auto simp: update_from_trade_def split: sum.splits prod.splits)
qed

text \<open>The allocators a program can hold: made over some names, then fed trades, raising or not.\<close>

inductive reached_bandit :: "string list \<Rightarrow> bandit \<Rightarrow> bool" for names where
  made: "new_bandit names lr temp = ok b \<Longrightarrow> reached_bandit names b"
| traded: "reached_bandit names b \<Longrightarrow> update_from_trade ex sn reward s b = (r, b') \<Longrightarrow> reached_bandit names b'"

lemma reached_ok: "reached_bandit names b \<Longrightarrow> bandit_ok b \<and> set (strategies b) = set names"
proof (induction rule: reached_bandit.induct)
  case (made lr temp b)
  then show ?case by (rule new_bandit_ok)
next
  case (traded b ex sn reward s r b')
  then show ?case using update_ok [OF traded(2)] by simp
qed

text \<open>The action space is closed: whatever trades an allocator has learnt from, a selection that returns
  names a strategy it was made with, and a trade of any other name raises a \<open>ValueError\<close> and changes nothing.\<close>

theorem selection_stays_in_action_space:
  assumes "reached_bandit names b" "n \<notin> set names"
  shows "(case select_strategy ex ctx det draw b of Inl _ \<Rightarrow> True | Inr s \<Rightarrow> s \<in> set names) \<and>
    update_from_trade ex (Some n) reward s b = (raise (ValueError ''Unknown action''), b)"
  using reached_ok [OF assms(1)] assms(2) select_strategy_in [of ex ctx det draw b]
  by (auto simp: update_from_trade_def validate_action_def bandit_ok_def split: sum.splits)

definition demo_bandit :: bandit where
  "demo_bandit = \<lparr>strategies = [''t'', ''m''], bd_lr = 1, temperature = 1, bd_weights = [(''t'', 0), (''m'', 0)],
     successes = [(''t'', 1), (''m'', 1)], failures = [(''t'', 1), (''m'', 1)], total_rewards = [(''t'', 0), (''m'', 0)],
     bd_counts = [(''t'', 0), (''m'', 0)]\<rparr>"

lemma demo_made: "reached_bandit [''t'', ''m'', ''t''] demo_bandit"
  by (rule made [of _ 1 1]) (simp add: new_bandit_def dedup_def demo_bandit_def pymax_def fl_eval float_eval one_Fin)

theorem selection_stays_in_action_space_witness:
  "update_from_trade (\<lambda>_. ok 1) (Some ''x'') 1 None demo_bandit = (raise (ValueError ''Unknown action''), demo_bandit)"
  using selection_stays_in_action_space [OF demo_made, of "''x''" "\<lambda>_. ok 1" None True 0 1 None] by simp

end
