(* ===== verification/LearnGraph.thy ===== *)
theory LearnGraph
  imports Bandit "HOL-Library.Multiset"
begin

text \<open>
  \<open>learning/graph.py\<close>: the graph of decisions and results and its JSON-lines store.  The multigraph keeps the
  insertion order of networkx.  A line of the store is a value: a blank, a JSON object with the keys the loader
  reads, or text that is no JSON object; \<open>json.loads\<close> inverts \<open>json.dumps\<close>.  Identifiers, clock texts, the size
  of a line and the text of a number are parameters; the metrics hook and the log messages are left out.
\<close>

section \<open>Records\<close>

datatype jval = JNull | JStr string | JNum pyfloat

record decision_record =
  dr_trade_id :: string
  dr_signal :: "(string, jval) dict"
  dr_expected :: "(string, jval) dict"
  dr_timestamp :: string

record result_record =
  rr_trade_id :: string
  actual_pnl :: pyfloat
  verdict :: string
  rr_timestamp :: string
  posterior_mu :: pyfloat
  posterior_sigma2 :: pyfloat
  rl_value :: pyfloat
  rl_advantage :: pyfloat

datatype node_data = DecisionData decision_record | ResultData result_record

type_synonym gnode = "string \<times> string"

datatype edge_id = IdText string | IdInt nat

record edge_attr =
  ea_weight :: "pyfloat option"
  ea_count :: "int option"
  ea_ctx :: "string option"

section \<open>The multigraph\<close>

record mgraph =
  mg_nodes :: "(gnode, node_data) dict"
  mg_succ :: "(gnode, (gnode, (edge_id, edge_attr) dict) dict) dict"

definition empty_graph :: mgraph where
  "empty_graph = \<lparr>mg_nodes = [], mg_succ = []\<rparr>"

definition add_node :: "gnode \<Rightarrow> node_data \<Rightarrow> mgraph \<Rightarrow> mgraph" where
  "add_node n x g = g\<lparr>mg_nodes := dset n x (mg_nodes g),
     mg_succ := (if dget (mg_succ g) n = None then dset n [] (mg_succ g) else mg_succ g)\<rparr>"

text \<open>Both end points are nodes of the graph already.\<close>

definition add_edge :: "gnode \<Rightarrow> gnode \<Rightarrow> edge_id \<Rightarrow> edge_attr \<Rightarrow> mgraph \<Rightarrow> mgraph" where
  "add_edge u v k a g =
    (let nbrs = dget_or (mg_succ g) u []; keys = dget_or nbrs v []
     in g\<lparr>mg_succ := dset u (dset v (dset k a keys) nbrs) (mg_succ g)\<rparr>)"

definition edges :: "mgraph \<Rightarrow> (gnode \<times> gnode \<times> edge_id \<times> edge_attr) list" where
  "edges g = concat (map (\<lambda>(u, nbrs). concat (map (\<lambda>(v, keys). map (\<lambda>(k, a). (u, v, k, a)) keys) nbrs)) (mg_succ g))"

text \<open>The key networkx gives an edge added without one.\<close>

definition new_edge_key :: "gnode \<Rightarrow> gnode \<Rightarrow> mgraph \<Rightarrow> edge_id" where
  "new_edge_key u v g =
    (let keys = dget_or (dget_or (mg_succ g) u []) v [] in
     case filter (\<lambda>k. dget keys k = None) (map IdInt [length keys..<2 * length keys + 1]) of
       [] \<Rightarrow> IdInt 0 | k # _ \<Rightarrow> k)"

definition decision_of :: "mgraph \<Rightarrow> gnode \<Rightarrow> decision_record res" where
  "decision_of g n = (case dget (mg_nodes g) n of Some (DecisionData d) \<Rightarrow> ok d
     | Some (ResultData _) \<Rightarrow> raise (AttributeError ''signal'') | None \<Rightarrow> raise (KeyError (fst n)))"

definition result_of :: "mgraph \<Rightarrow> gnode \<Rightarrow> result_record res" where
  "result_of g n = (case dget (mg_nodes g) n of Some (ResultData r) \<Rightarrow> ok r
     | Some (DecisionData _) \<Rightarrow> raise (AttributeError ''verdict'') | None \<Rightarrow> raise (KeyError (fst n)))"

section \<open>The store\<close>

record jdecision =
  jd_trade_id :: "string option"
  jd_signal :: "(string, jval) dict option"
  jd_expected :: "(string, jval) dict option"
  jd_timestamp :: "string option"

record jresult =
  jr_trade_id :: "string option"
  jr_actual_pnl :: "pyfloat option"
  jr_verdict :: "string option"
  jr_timestamp :: "string option"
  jr_posterior_mu :: "pyfloat option"
  jr_posterior_sigma2 :: "pyfloat option"
  jr_rl_value :: "pyfloat option"
  jr_rl_advantage :: "pyfloat option"

record jpayload =
  jp_decision :: "jdecision option"
  jp_result :: "jresult option"
  jp_context :: "jval option"

datatype fline = BlankLine | JsonLine jpayload | TornText string | GluedText fline fline

text \<open>The lines of a text file and whether the last one lacks its newline.\<close>

record jfile =
  jf_lines :: "fline list"
  jf_open :: bool

record store =
  live :: "jfile option"
  corrupt :: "fline list"
  archives :: "fline list list"

text \<open>What is appended after an unterminated line continues that line.\<close>

definition glue :: "fline \<Rightarrow> fline \<Rightarrow> fline" where
  "glue a b = (if a = BlankLine then b else GluedText a b)"

definition append_lines :: "fline list \<Rightarrow> jfile option \<Rightarrow> jfile" where
  "append_lines new f = (case f of
     None \<Rightarrow> \<lparr>jf_lines = new, jf_open = False\<rparr>
   | Some j \<Rightarrow> \<lparr>jf_lines = (if jf_open j \<and> jf_lines j \<noteq> [] \<and> new \<noteq> []
         then butlast (jf_lines j) @ glue (last (jf_lines j)) (hd new) # tl new else jf_lines j @ new), jf_open = False\<rparr>)"

record lgraph =
  lg_graph :: mgraph
  lg_rotate_bytes :: int
  corrupt_line_count :: int
  flushed_keys :: "(string \<times> string \<times> string) set option"

section \<open>The writer lock\<close>

datatype lock_try = GotLock | WouldBlock | LockFailed

text \<open>\<open>attempt n\<close> is the outcome of the \<open>n\<close>-th \<open>flock\<close> and the clock read after it; the loop sleeps in between.\<close>

partial_function (option) lock_loop :: "(nat \<Rightarrow> lock_try \<times> pyfloat) \<Rightarrow> pyfloat \<Rightarrow> nat \<Rightarrow> (unit res \<times> nat) option" where
  "lock_loop attempt deadline n = (case attempt n of
     (GotLock, _) \<Rightarrow> Some (ok (), n)
   | (LockFailed, _) \<Rightarrow> Some (raise (OSError ''flock''), n)
   | (WouldBlock, now) \<Rightarrow>
       if deadline \<le> now then Some (raise (RuntimeError ''LockAcquireTimeout''), n)
       else lock_loop attempt deadline (n + 1))"

definition writer_lock :: "(nat \<Rightarrow> lock_try \<times> pyfloat) \<Rightarrow> pyfloat \<Rightarrow> pyfloat \<Rightarrow> (unit res \<times> nat) option" where
  "writer_lock attempt t0 lock_timeout = lock_loop attempt (t0 + pymax (fl (5/100)) lock_timeout) 0"

section \<open>Adding a trade\<close>

record trade_args =
  ta_asset :: string
  ta_entry_time :: "string option"
  ta_signal :: "(string, jval) dict option"
  ta_expected :: "(string, jval) dict option"
  ta_actual_pnl :: pyfloat
  ta_verdict :: string
  ta_trade_id :: "string option"
  ta_symbol :: "string option"
  ta_strategy :: "string option"
  ta_regime :: "string option"
  ta_r_multiple :: "pyfloat option"
  ta_net_pnl :: "pyfloat option"
  ta_entry_price :: "pyfloat option"
  ta_exit_price :: "pyfloat option"

definition default_args :: trade_args where
  "default_args = \<lparr>ta_asset = ''UNKNOWN'', ta_entry_time = None, ta_signal = None, ta_expected = None, ta_actual_pnl = 0,
     ta_verdict = ''flat'', ta_trade_id = None, ta_symbol = None, ta_strategy = None, ta_regime = None,
     ta_r_multiple = None, ta_net_pnl = None, ta_entry_price = None, ta_exit_price = None\<rparr>"

definition or_text :: "string option \<Rightarrow> string \<Rightarrow> string" where
  "or_text x d = (case x of None \<Rightarrow> d | Some s \<Rightarrow> if s = [] then d else s)"

definition or_zero :: "pyfloat option \<Rightarrow> pyfloat" where
  "or_zero x = (case x of None \<Rightarrow> 0 | Some f \<Rightarrow> if ftruth f then f else 0)"

definition or_dict :: "(string, jval) dict option \<Rightarrow> (string, jval) dict \<Rightarrow> (string, jval) dict" where
  "or_dict x d = (case x of None \<Rightarrow> d | Some s \<Rightarrow> if s = [] then d else s)"

definition trade_id_of :: "string \<Rightarrow> trade_args \<Rightarrow> string" where
  "trade_id_of now a = (case ta_trade_id a of Some t \<Rightarrow> t
     | None \<Rightarrow> (case ta_symbol a of None \<Rightarrow> ta_asset a | Some s \<Rightarrow> s) @ ''-'' @ (case ta_entry_time a of None \<Rightarrow> now | Some e \<Rightarrow> e))"

definition pnl_of :: "trade_args \<Rightarrow> pyfloat" where
  "pnl_of a = (case ta_net_pnl a of None \<Rightarrow> ta_actual_pnl a | Some p \<Rightarrow> p)"

definition verdict_of :: "trade_args \<Rightarrow> string" where
  "verdict_of a = (if ta_verdict a = ''flat'' \<and> \<not> feq (pnl_of a) 0
     then (if 0 < pnl_of a then ''win'' else ''loss'') else ta_verdict a)"

definition decision_record_of :: "string \<Rightarrow> string \<Rightarrow> trade_args \<Rightarrow> decision_record" where
  "decision_record_of now ts a = \<lparr>dr_trade_id = trade_id_of now a,
     dr_signal = or_dict (ta_signal a) [(''strategy'', JStr (or_text (ta_strategy a) ''momentum'')),
       (''regime'', JStr (or_text (ta_regime a) ''unknown'')), (''entry_price'', JNum (or_zero (ta_entry_price a)))],
     dr_expected = or_dict (ta_expected a) [(''r_multiple'', JNum (or_zero (ta_r_multiple a))),
       (''exit_price'', JNum (or_zero (ta_exit_price a)))], dr_timestamp = ts\<rparr>"

text \<open>The conjugate update of the prior with this trade's P\&L alone; the variances are the literals of the code.\<close>

definition posterior_of :: "pyfloat \<Rightarrow> (pyfloat \<times> pyfloat) res" where
  "posterior_of pnl =
    rbind (fdiv 0 1) (\<lambda>m. rbind (fdiv pnl (fl (1/2))) (\<lambda>o'. rbind (fdiv 1 1) (\<lambda>w1. rbind (fdiv 1 (fl (1/2))) (\<lambda>w2.
    rbind (fdiv (m + o') (w1 + w2)) (\<lambda>mu. rbind (fdiv 1 (w1 + w2)) (\<lambda>s2. ok (mu, s2)))))))"

definition add_trade :: "string \<Rightarrow> string \<Rightarrow> string \<Rightarrow> trade_args \<Rightarrow> (mgraph, unit) act" where
  "add_trade now ts uid a g =
    (let d = decision_record_of now ts a; tid = trade_id_of now a;
         g1 = add_node (''decision'', tid) (DecisionData d) g
     in case posterior_of (pnl_of a) of
          Inl e \<Rightarrow> (Inl e, g1)
        | Inr (mu, s2) \<Rightarrow>
            (ok (), add_edge (''decision'', tid) (''result'', tid) (IdText uid) \<lparr>ea_weight = None, ea_count = None, ea_ctx = None\<rparr>
              (add_node (''result'', tid) (ResultData \<lparr>rr_trade_id = tid, actual_pnl = pnl_of a, verdict = verdict_of a,
                 rr_timestamp = ts, posterior_mu = mu, posterior_sigma2 = s2, rl_value = 0, rl_advantage = 0\<rparr>) g1)))"

definition jtext :: "(pyfloat \<Rightarrow> string) \<Rightarrow> jval \<Rightarrow> string" where
  "jtext num v = (case v of JNull \<Rightarrow> ''None'' | JStr s \<Rightarrow> s | JNum x \<Rightarrow> num x)"

definition jget :: "(string, jval) dict \<Rightarrow> string \<Rightarrow> jval" where
  "jget d k = dget_or d k JNull"

definition edge_context :: "(pyfloat \<Rightarrow> string) \<Rightarrow> decision_record \<Rightarrow> result_record \<Rightarrow> string" where
  "edge_context num d r = jtext num (jget (dr_signal d) ''strategy'') @ ''|'' @ verdict r"

definition record_payload :: "decision_record \<Rightarrow> result_record \<Rightarrow> string \<Rightarrow> jpayload" where
  "record_payload d r ctx = \<lparr>
     jp_decision = Some \<lparr>jd_trade_id = Some (dr_trade_id d), jd_signal = Some (dr_signal d),
       jd_expected = Some (dr_expected d), jd_timestamp = Some (dr_timestamp d)\<rparr>,
     jp_result = Some \<lparr>jr_trade_id = Some (rr_trade_id r), jr_actual_pnl = Some (actual_pnl r), jr_verdict = Some (verdict r),
       jr_timestamp = Some (rr_timestamp r), jr_posterior_mu = Some (posterior_mu r),
       jr_posterior_sigma2 = Some (posterior_sigma2 r), jr_rl_value = Some (rl_value r), jr_rl_advantage = Some (rl_advantage r)\<rparr>,
     jp_context = Some (JStr ctx)\<rparr>"

definition edge_key :: "(pyfloat \<Rightarrow> string) \<Rightarrow> mgraph \<Rightarrow> gnode \<Rightarrow> gnode \<Rightarrow> (string \<times> string \<times> string) res" where
  "edge_key num g u v = rbind (decision_of g u) (\<lambda>d. rbind (result_of g v) (\<lambda>r.
     ok (fst u @ '':'' @ snd u, fst v @ '':'' @ snd v, edge_context num d r)))"

text \<open>The payload of one edge under its key.\<close>

definition keyed_payload :: "(pyfloat \<Rightarrow> string) \<Rightarrow> mgraph \<Rightarrow> gnode \<times> gnode \<times> edge_id \<times> edge_attr
    \<Rightarrow> ((string \<times> string \<times> string) \<times> jpayload) res" where
  "keyed_payload num g e = (case e of (u, v, _, _) \<Rightarrow>
     rbind (decision_of g u) (\<lambda>d. rbind (result_of g v) (\<lambda>r. rbind (edge_key num g u v) (\<lambda>k.
       ok (k, record_payload d r (snd (snd k)))))))"

definition set_all :: "('k \<times> 'v) list \<Rightarrow> ('k, 'v) dict \<Rightarrow> ('k, 'v) dict" where
  "set_all kvs d = foldl (\<lambda>d (k, v). dset k v d) d kvs"

definition snapshot_keyed :: "(pyfloat \<Rightarrow> string) \<Rightarrow> mgraph \<Rightarrow> (string \<times> string \<times> string, fline) dict res" where
  "snapshot_keyed num g = rbind (map_res (keyed_payload num g) (edges g)) (\<lambda>kvs.
     ok (map (\<lambda>(k, p). (k, JsonLine p)) (set_all kvs [])))"

section \<open>Writing\<close>

definition needs_rotation :: "(fline \<Rightarrow> int) \<Rightarrow> int \<Rightarrow> store \<Rightarrow> bool" where
  "needs_rotation size_of rotate_bytes w = (0 < rotate_bytes \<and> (case live w of None \<Rightarrow> False
     | Some j \<Rightarrow> rotate_bytes \<le> sum_list (map size_of (jf_lines j))))"

definition rotate :: "store \<Rightarrow> store" where
  "rotate w = (case live w of None \<Rightarrow> w | Some j \<Rightarrow> w\<lparr>live := None, archives := archives w @ [jf_lines j]\<rparr>)"

text \<open>\<open>lk\<close> is how the acquisition of the writer lock ends.\<close>

definition to_jsonl :: "(pyfloat \<Rightarrow> string) \<Rightarrow> (fline \<Rightarrow> int) \<Rightarrow> unit res \<Rightarrow> (lgraph \<times> store, unit) act" where
  "to_jsonl num size_of lk x = (case x of (lg, w) \<Rightarrow>
    (case snapshot_keyed num (lg_graph lg) of
       Inl e \<Rightarrow> (Inl e, (lg, w))
     | Inr lines \<Rightarrow>
         (let done_keys = (case flushed_keys lg of None \<Rightarrow> {} | Some ks \<Rightarrow> ks);
              pending = filter (\<lambda>(k, _). k \<notin> done_keys) lines
          in if pending = [] then (ok (), (lg, w))
             else (case lk of
                 Inl e \<Rightarrow> (Inl e, (lg, w))
               | Inr _ \<Rightarrow>
                   (let w1 = (if needs_rotation size_of (lg_rotate_bytes lg) w then rotate w else w)
                    in (ok (), (lg\<lparr>flushed_keys := Some (set (dkeys lines) \<union> done_keys)\<rparr>,
                         w1\<lparr>live := Some (append_lines (dvalues pending) (live w1))\<rparr>)))))))"

definition dedupe_edges :: "(pyfloat \<Rightarrow> string) \<Rightarrow> mgraph \<Rightarrow> mgraph res" where
  "dedupe_edges num g =
    rbind (map_res (\<lambda>(u, v, _, a). rbind (edge_key num g u v) (\<lambda>k. ok (k, (u, v, a)))) (edges g)) (\<lambda>kvs.
      rbind (map_res (\<lambda>(u, v, a). case (dget (mg_nodes g) u, dget (mg_nodes g) v) of
            (Some du, Some dv) \<Rightarrow> ok (u, du, v, dv, a) | _ \<Rightarrow> raise (KeyError (fst u))) (dvalues (set_all kvs []))) (\<lambda>es.
        ok (foldl (\<lambda>out (u, du, v, dv, a). let out1 = add_node v dv (add_node u du out)
              in add_edge u v (new_edge_key u v out1) a out1) empty_graph es)))"

definition line_from_edge :: "mgraph \<Rightarrow> gnode \<times> gnode \<times> edge_id \<times> edge_attr \<Rightarrow> fline res" where
  "line_from_edge g e = (case e of (u, v, _, a) \<Rightarrow> rbind (decision_of g u) (\<lambda>d. rbind (result_of g v) (\<lambda>r.
     ok (JsonLine (record_payload d r (case ea_ctx a of None \<Rightarrow> [] | Some c \<Rightarrow> c))))))"

definition graph_keys :: "(pyfloat \<Rightarrow> string) \<Rightarrow> mgraph \<Rightarrow> (string \<times> string \<times> string) set res" where
  "graph_keys num g = rbind (map_res (\<lambda>(u, v, _, _). edge_key num g u v) (edges g)) (\<lambda>ks. ok (set ks))"

record compaction =
  edges_before :: int
  edges_after :: int
  lines_before :: int
  archived :: int

definition compact :: "(pyfloat \<Rightarrow> string) \<Rightarrow> unit res \<Rightarrow> (lgraph \<times> store, compaction) act" where
  "compact num lk x = (case x of (lg, w) \<Rightarrow>
    (case dedupe_edges num (lg_graph lg) of
       Inl e \<Rightarrow> (Inl e, (lg, w))
     | Inr deduped \<Rightarrow>
         (case map_res (line_from_edge (lg_graph lg)) (edges deduped) of
            Inl e \<Rightarrow> (Inl e, (lg, w))
          | Inr lines \<Rightarrow>
              (case lk of
                 Inl e \<Rightarrow> (Inl e, (lg, w))
               | Inr _ \<Rightarrow>
                   (let w1 = (rotate w)\<lparr>live := Some \<lparr>jf_lines = lines, jf_open = False\<rparr>\<rparr>
                    in (case graph_keys num deduped of
                          Inl e \<Rightarrow> (Inl e, (lg\<lparr>lg_graph := deduped\<rparr>, w1))
                        | Inr ks \<Rightarrow> (ok \<lparr>edges_before = int (length (edges (lg_graph lg))), edges_after = int (length (edges deduped)),
                             lines_before = (case live w of None \<Rightarrow> 0
                               | Some j \<Rightarrow> int (length (filter (\<lambda>l. l \<noteq> BlankLine) (jf_lines j)))),
                             archived = (if live w = None then 0 else 1)\<rparr>,
                           (lg\<lparr>lg_graph := deduped, flushed_keys := Some ks\<rparr>, w1))))))))"

section \<open>Loading\<close>

text \<open>The key of a line, \<open>None\<close> where the line is quarantined.\<close>

definition line_key :: "(pyfloat \<Rightarrow> string) \<Rightarrow> fline \<Rightarrow> ((string \<times> string \<times> string) \<times> jdecision \<times> jresult) option" where
  "line_key num l = (case l of
     JsonLine p \<Rightarrow> (case (jp_decision p, jp_result p) of
         (Some d, Some r) \<Rightarrow> (case (jd_trade_id d, jr_trade_id r) of
             (Some t, Some u) \<Rightarrow> Some ((''decision:'' @ t, ''result:'' @ u,
               (case jp_context p of None \<Rightarrow> [] | Some c \<Rightarrow> jtext num c)), d, r)
           | _ \<Rightarrow> None)
       | _ \<Rightarrow> None)
   | _ \<Rightarrow> None)"

definition field :: "string \<Rightarrow> 'a option \<Rightarrow> 'a res" where
  "field k x = (case x of None \<Rightarrow> raise (KeyError k) | Some v \<Rightarrow> ok v)"

definition or_default :: "'a \<Rightarrow> 'a option \<Rightarrow> 'a" where
  "or_default d x = (case x of None \<Rightarrow> d | Some v \<Rightarrow> v)"

definition load_edge :: "(string \<Rightarrow> string) \<Rightarrow> (string \<times> string \<times> string) \<times> jdecision \<times> jresult \<Rightarrow> mgraph \<Rightarrow> mgraph res" where
  "load_edge uuid5 x g = (case x of (key, d, r) \<Rightarrow>
    rbind (field ''trade_id'' (jd_trade_id d)) (\<lambda>t. rbind (field ''signal'' (jd_signal d)) (\<lambda>sg.
    rbind (field ''expected'' (jd_expected d)) (\<lambda>ex. rbind (field ''timestamp'' (jd_timestamp d)) (\<lambda>ts.
    rbind (field ''trade_id'' (jr_trade_id r)) (\<lambda>u. rbind (field ''actual_pnl'' (jr_actual_pnl r)) (\<lambda>pnl.
    rbind (field ''verdict'' (jr_verdict r)) (\<lambda>v. rbind (field ''timestamp'' (jr_timestamp r)) (\<lambda>rts.
      ok (add_edge (''decision'', t) (''result'', u) (IdText (uuid5 (fst key @ ''|'' @ fst (snd key) @ ''|'' @ snd (snd key))))
          \<lparr>ea_weight = Some 1, ea_count = Some 1, ea_ctx = Some (snd (snd key))\<rparr>
        (add_node (''result'', u) (ResultData \<lparr>rr_trade_id = u, actual_pnl = pnl, verdict = v, rr_timestamp = rts,
             posterior_mu = or_default 0 (jr_posterior_mu r), posterior_sigma2 = or_default 1 (jr_posterior_sigma2 r),
             rl_value = or_default 0 (jr_rl_value r), rl_advantage = or_default 0 (jr_rl_advantage r)\<rparr>)
          (add_node (''decision'', t) (DecisionData \<lparr>dr_trade_id = t, dr_signal = sg, dr_expected = ex, dr_timestamp = ts\<rparr>) g))))))))))))"

fun load_edges :: "(string \<Rightarrow> string) \<Rightarrow> ((string \<times> string \<times> string) \<times> jdecision \<times> jresult) list \<Rightarrow> mgraph \<Rightarrow> mgraph res" where
  "load_edges uuid5 [] g = ok g"
| "load_edges uuid5 (x # xs) g = rbind (load_edge uuid5 x g) (load_edges uuid5 xs)"

definition good_lines :: "(pyfloat \<Rightarrow> string) \<Rightarrow> fline list \<Rightarrow> fline list" where
  "good_lines num ls = filter (\<lambda>l. line_key num l \<noteq> None) ls"

definition bad_lines :: "(pyfloat \<Rightarrow> string) \<Rightarrow> fline list \<Rightarrow> fline list" where
  "bad_lines num ls = filter (\<lambda>l. l \<noteq> BlankLine \<and> line_key num l = None) ls"

text \<open>The purge of the torn lines: the sidecar is written before the lock is taken.\<close>

definition quarantine :: "(pyfloat \<Rightarrow> string) \<Rightarrow> unit res \<Rightarrow> jfile \<Rightarrow> (store, unit) act" where
  "quarantine num lk j w =
    (let bad = bad_lines num (jf_lines j); w1 = w\<lparr>corrupt := corrupt w @ bad\<rparr>
     in if bad = [] then (ok (), w)
        else (case lk of
            Inl e \<Rightarrow> (Inl e, w1)
          | Inr _ \<Rightarrow> (ok (), w1\<lparr>live := Some \<lparr>jf_lines = good_lines num (jf_lines j),
              jf_open = (jf_open j \<and> jf_lines j \<noteq> [] \<and> line_key num (last (jf_lines j)) \<noteq> None)\<rparr>\<rparr>)))"

definition load_graph :: "(pyfloat \<Rightarrow> string) \<Rightarrow> (string \<Rightarrow> string) \<Rightarrow> jfile \<Rightarrow> mgraph res" where
  "load_graph num uuid5 j = load_edges uuid5
     (map (\<lambda>(k, d, r). (k, d, r)) (set_all (List.map_filter (line_key num) (jf_lines j)) [])) empty_graph"

definition new_learning_graph :: "(pyfloat \<Rightarrow> string) \<Rightarrow> (string \<Rightarrow> string) \<Rightarrow> unit res \<Rightarrow> int \<Rightarrow> (store, lgraph) act" where
  "new_learning_graph num uuid5 lk rotate_bytes w = (case live w of
     None \<Rightarrow> (ok \<lparr>lg_graph = empty_graph, lg_rotate_bytes = rotate_bytes, corrupt_line_count = 0, flushed_keys = None\<rparr>, w)
   | Some j \<Rightarrow> (case load_graph num uuid5 j of
       Inl e \<Rightarrow> (Inl e, w)
     | Inr g \<Rightarrow> (case quarantine num lk j w of
         (Inl e, w1) \<Rightarrow> (Inl e, w1)
       | (Inr _, w1) \<Rightarrow> (case graph_keys num g of
           Inl e \<Rightarrow> (Inl e, w1)
         | Inr ks \<Rightarrow> (ok \<lparr>lg_graph = g, lg_rotate_bytes = rotate_bytes,
             corrupt_line_count = int (length (bad_lines num (jf_lines j))), flushed_keys = Some ks\<rparr>, w1)))))"

section \<open>Reading the graph\<close>

record trade_record =
  tr_trade_id :: string
  tr_asset :: jval
  tr_side :: jval
  tr_strategy :: jval
  tr_regime :: jval
  tr_entry_price :: jval
  tr_stop_price :: jval
  tr_target_price :: jval
  tr_actual_pnl :: pyfloat
  tr_verdict :: string
  tr_decision_time :: string
  tr_result_time :: string
  tr_posterior_mu :: pyfloat
  tr_posterior_sigma2 :: pyfloat
  tr_rl_value :: pyfloat
  tr_rl_advantage :: pyfloat

definition trade_record_of :: "decision_record \<Rightarrow> result_record \<Rightarrow> trade_record" where
  "trade_record_of d r = \<lparr>tr_trade_id = dr_trade_id d, tr_asset = jget (dr_signal d) ''asset'',
     tr_side = jget (dr_signal d) ''side'', tr_strategy = jget (dr_signal d) ''strategy'',
     tr_regime = jget (dr_signal d) ''regime'', tr_entry_price = jget (dr_signal d) ''entry_price'',
     tr_stop_price = jget (dr_expected d) ''stop_price'', tr_target_price = jget (dr_expected d) ''target_price'',
     tr_actual_pnl = actual_pnl r, tr_verdict = verdict r, tr_decision_time = dr_timestamp d,
     tr_result_time = rr_timestamp r, tr_posterior_mu = posterior_mu r, tr_posterior_sigma2 = posterior_sigma2 r,
     tr_rl_value = rl_value r, tr_rl_advantage = rl_advantage r\<rparr>"

definition edge_record :: "mgraph \<Rightarrow> gnode \<times> gnode \<times> edge_id \<times> edge_attr \<Rightarrow> trade_record res" where
  "edge_record g e = (case e of (u, v, _, _) \<Rightarrow>
     rbind (decision_of g u) (\<lambda>d. rbind (result_of g v) (\<lambda>r. ok (trade_record_of d r))))"

definition get_trade_records :: "mgraph \<Rightarrow> trade_record list res" where
  "get_trade_records g = map_res (edge_record g) (edges g)"

text \<open>The rows of the table; \<open>INSERT OR REPLACE\<close> deletes the row of the key and appends the new one.  The posterior
  and value columns are read again from the result node of the trade.\<close>

fun upsert_rows :: "mgraph \<Rightarrow> trade_record list \<Rightarrow> trade_record list \<Rightarrow> trade_record list res" where
  "upsert_rows g [] rows = ok rows"
| "upsert_rows g (t # ts) rows = rbind (result_of g (''result'', tr_trade_id t)) (\<lambda>r.
     upsert_rows g ts (filter (\<lambda>q. tr_trade_id q \<noteq> tr_trade_id t) rows @
       [t\<lparr>tr_posterior_mu := posterior_mu r, tr_posterior_sigma2 := posterior_sigma2 r,
          tr_rl_value := rl_value r, tr_rl_advantage := rl_advantage r\<rparr>]))"

text \<open>The table after the export; without a commit nothing is written.\<close>

definition export_to_sqlite :: "mgraph \<Rightarrow> (trade_record list, unit) act" where
  "export_to_sqlite g rows = (case rbind (get_trade_records g) (\<lambda>ts. upsert_rows g ts rows) of
     Inl e \<Rightarrow> (Inl e, rows) | Inr rows' \<Rightarrow> (ok (), rows'))"

definition metric_of :: "string \<Rightarrow> (trade_record \<Rightarrow> pyfloat) res" where
  "metric_of m = (if m = ''posterior_mu'' then ok tr_posterior_mu else if m = ''rl_value'' then ok tr_rl_value
     else if m = ''actual_pnl'' then ok tr_actual_pnl else raise (ValueError ''Unsupported metric''))"

text \<open>\<open>sorted(records, key=f, reverse=True)\<close>, stable; for keys that are no NaN.\<close>

primrec insert_by :: "('a \<Rightarrow> pyfloat) \<Rightarrow> 'a \<Rightarrow> 'a list \<Rightarrow> 'a list" where
  "insert_by f x [] = [x]"
| "insert_by f x (y # ys) = (if f y \<le> f x then x # y # ys else y # insert_by f x ys)"

definition sort_by_desc :: "('a \<Rightarrow> pyfloat) \<Rightarrow> 'a list \<Rightarrow> 'a list" where
  "sort_by_desc f xs = foldr (insert_by f) xs []"

definition get_best_strategies :: "string \<Rightarrow> nat \<Rightarrow> mgraph \<Rightarrow> trade_record list res" where
  "get_best_strategies m top_n g = rbind (metric_of m) (\<lambda>f. rbind (get_trade_records g) (\<lambda>ts.
     ok (take top_n (sort_by_desc f ts))))"

text \<open>The two numbers of the summary text.\<close>

definition dump_summary :: "mgraph \<Rightarrow> nat \<times> nat" where
  "dump_summary g = (length (mg_nodes g) div 2,
     length (filter (\<lambda>x. case x of ResultData r \<Rightarrow> verdict r \<in> {''hit_target'', ''target''} | _ \<Rightarrow> False) (dvalues (mg_nodes g))))"

definition jfloat :: "pyfloat option \<Rightarrow> jval" where
  "jfloat x = (case x of None \<Rightarrow> JNull | Some f \<Rightarrow> JNum f)"

text \<open>A \<open>Signal\<close> has neither a \<open>strategy\<close> nor a \<open>regime\<close> attribute.\<close>

definition signal_to_dict :: "(datetime \<Rightarrow> string) \<Rightarrow> signal \<Rightarrow> (string, jval) dict" where
  "signal_to_dict isofmt sg = [(''asset'', JStr (sg_asset sg)),
     (''side'', JStr (case sg_side sg of LONG \<Rightarrow> ''LONG'' | SHORT \<Rightarrow> ''SHORT'')), (''strategy'', JNull), (''regime'', JNull),
     (''entry_price'', JNum (sg_entry_price sg)), (''suggested_stop'', jfloat (sg_suggested_stop sg)),
     (''suggested_target'', jfloat (sg_suggested_target sg)), (''timestamp'', JStr (isofmt (sg_timestamp sg)))]"

text \<open>\<open>learning/policy.py\<close>: batch training from the records of a graph; a label that is no text is outside every
  action space.\<close>

definition label_of :: "jval \<Rightarrow> string option" where
  "label_of v = (case v of JStr s \<Rightarrow> Some s | _ \<Rightarrow> None)"

definition fit_from_learning_graph :: "(pyfloat \<Rightarrow> pyfloat res) \<Rightarrow> bool \<Rightarrow> mgraph \<Rightarrow> (bandit, int) act" where
  "fit_from_learning_graph ex skip g b = (case get_trade_records g of
     Inl e \<Rightarrow> (Inl e, b)
   | Inr ts \<Rightarrow> fit_records ex skip (map (\<lambda>t. (label_of (tr_strategy t), tr_actual_pnl t)) ts) 0 b)"

section \<open>Graphs of separate trades\<close>

text \<open>The graph of a list of trades with different identifiers.\<close>

type_synonym ltrade = "decision_record \<times> result_record \<times> edge_id \<times> edge_attr"

definition tid :: "ltrade \<Rightarrow> string" where
  "tid t = dr_trade_id (fst t)"

definition nodes_of :: "ltrade \<Rightarrow> (gnode \<times> node_data) list" where
  "nodes_of t = [((''decision'', tid t), DecisionData (fst t)), ((''result'', tid t), ResultData (fst (snd t)))]"

definition succ_of :: "ltrade \<Rightarrow> (gnode \<times> (gnode, (edge_id, edge_attr) dict) dict) list" where
  "succ_of t = [((''decision'', tid t), [((''result'', tid t), [snd (snd t)])]), ((''result'', tid t), [])]"

definition graph_of :: "ltrade list \<Rightarrow> mgraph" where
  "graph_of ts = \<lparr>mg_nodes = concat (map nodes_of ts), mg_succ = concat (map succ_of ts)\<rparr>"

definition separate :: "ltrade list \<Rightarrow> bool" where
  "separate ts \<longleftrightarrow> distinct (map tid ts) \<and> (\<forall>t \<in> set ts. rr_trade_id (fst (snd t)) = tid t)"

lemma dset_fresh: "dget d k = None \<Longrightarrow> dset k v d = d @ [(k, v)]"
  by (induction d) (auto split: if_splits)

lemma dset_append: "dget d k = None \<Longrightarrow> dset k v (d @ d') = d @ dset k v d'"
  by (induction d) (auto split: if_splits)

lemma map_of_concat_nodes:
  "map_of (concat (map nodes_of ts)) (k, t) =
    (if k = ''decision'' then map_option (\<lambda>x. DecisionData (fst x)) (find (\<lambda>x. tid x = t) ts)
     else if k = ''result'' then map_option (\<lambda>x. ResultData (fst (snd x))) (find (\<lambda>x. tid x = t) ts) else None)"
  by (induction ts) (auto simp: nodes_of_def)

lemma map_of_concat_succ:
  "map_of (concat (map succ_of ts)) (k, t) =
    (if k = ''decision'' then map_option (\<lambda>x. [((''result'', t), [snd (snd x)])]) (find (\<lambda>x. tid x = t) ts)
     else if k = ''result'' then map_option (\<lambda>x. []) (find (\<lambda>x. tid x = t) ts) else None)"
  by (induction ts) (auto simp: succ_of_def)

lemma find_tid_None: "find (\<lambda>x. tid x = t) ts = None \<longleftrightarrow> t \<notin> tid ` set ts"
  by (auto simp: find_None_iff)

lemma find_tid_Some: "distinct (map tid ts) \<Longrightarrow> x \<in> set ts \<Longrightarrow> find (\<lambda>y. tid y = tid x) ts = Some x"
  by (induction ts) (auto simp: image_iff)

lemma add_trade_graph:
  assumes "tid (d, r, k, a) \<notin> tid ` set ts" "dr_trade_id d = t"
  shows "add_edge (''decision'', t) (''result'', t) k a (add_node (''result'', t) (ResultData r)
    (add_node (''decision'', t) (DecisionData d) (graph_of ts))) = graph_of (ts @ [(d, r, k, a)])"
proof -
  have f: "find (\<lambda>x. tid x = t) ts = None" using assms by (auto simp: find_tid_None tid_def [of "(d, r, k, a)"])
  show ?thesis
    using f assms(2) by (simp add: graph_of_def add_edge_def add_node_def Let_def map_of_concat_nodes map_of_concat_succ
        dset_fresh dget_or_def nodes_of_def succ_of_def tid_def dset_append map_add_def)
qed

lemma edges_graph_of: "edges (graph_of ts) = map (\<lambda>t. ((''decision'', tid t), (''result'', tid t), snd (snd t))) ts"
  by (induction ts) (auto simp: edges_def graph_of_def succ_of_def)

lemma node_lookup:
  assumes "separate ts" "t \<in> set ts"
  shows "decision_of (graph_of ts) (''decision'', tid t) = ok (fst t)" "result_of (graph_of ts) (''result'', tid t) = ok (fst (snd t))"
  using assms find_tid_Some [of ts t]
  by (simp_all add: decision_of_def result_of_def graph_of_def map_of_concat_nodes separate_def)

lemma map_res_map: "(\<And>x. x \<in> set xs \<Longrightarrow> f x = ok (g x)) \<Longrightarrow> map_res f xs = ok (map g xs)"
  by (induction xs) auto

lemma map_res_comp: "map_res f (map g xs) = map_res (\<lambda>x. f (g x)) xs"
  by (induction xs) auto

lemma map_res_edges: "map_res f (edges (graph_of ts)) = map_res (\<lambda>t. f ((''decision'', tid t), (''result'', tid t), snd (snd t))) ts"
  by (simp add: edges_graph_of map_res_comp)

lemma records_graph_of:
  assumes "separate ts"
  shows "get_trade_records (graph_of ts) = ok (map (\<lambda>t. trade_record_of (fst t) (fst (snd t))) ts)"
  unfolding get_trade_records_def map_res_edges
  by (rule map_res_map) (simp add: edge_record_def node_lookup [OF assms])

text \<open>The key and the line of one trade.\<close>

definition tkey :: "(pyfloat \<Rightarrow> string) \<Rightarrow> ltrade \<Rightarrow> string \<times> string \<times> string" where
  "tkey num t = (''decision:'' @ tid t, ''result:'' @ tid t, edge_context num (fst t) (fst (snd t)))"

definition tline :: "(pyfloat \<Rightarrow> string) \<Rightarrow> ltrade \<Rightarrow> fline" where
  "tline num t = JsonLine (record_payload (fst t) (fst (snd t)) (edge_context num (fst t) (fst (snd t))))"

lemma inj_tkey: "tkey num s = tkey num t \<Longrightarrow> tid s = tid t"
  by (simp add: tkey_def)

lemma distinct_tkeys: "distinct (map tid ts) \<Longrightarrow> distinct (map (tkey num) ts)"
  by (induction ts) (auto dest: inj_tkey)

lemma edge_key_graph:
  assumes "separate ts" "t \<in> set ts"
  shows "edge_key num (graph_of ts) (''decision'', tid t) (''result'', tid t) = ok (tkey num t)"
  by (simp add: edge_key_def node_lookup [OF assms] tkey_def)

lemma graph_keys_graph_of: "separate ts \<Longrightarrow> graph_keys num (graph_of ts) = ok (tkey num ` set ts)"
  by (simp add: graph_keys_def map_res_edges map_res_map [of ts _ "tkey num"] edge_key_graph)

lemma set_all_fresh: "distinct (map fst d @ map fst kvs) \<Longrightarrow> set_all kvs d = d @ kvs"
proof (induction kvs arbitrary: d)
  case (Cons kv kvs)
  then have "dget d (fst kv) = None" by (auto simp: map_of_eq_None_iff)
  then have "set_all (kv # kvs) d = set_all kvs (d @ [kv])" by (cases kv) (simp add: set_all_def dset_fresh)
  then show ?case using Cons by simp
qed (simp add: set_all_def)

lemma snapshot_graph_of:
  assumes "separate ts"
  shows "snapshot_keyed num (graph_of ts) = ok (map (\<lambda>t. (tkey num t, tline num t)) ts)"
proof -
  have "map_res (keyed_payload num (graph_of ts)) (edges (graph_of ts)) =
      ok (map (\<lambda>t. (tkey num t, record_payload (fst t) (fst (snd t)) (edge_context num (fst t) (fst (snd t))))) ts)"
    unfolding map_res_edges
    by (rule map_res_map) (simp add: keyed_payload_def node_lookup [OF assms] edge_key_graph [OF assms] tkey_def)
  moreover have "distinct (map (tkey num) ts)" using assms distinct_tkeys by (simp add: separate_def)
  ultimately show ?thesis by (simp add: snapshot_keyed_def set_all_fresh comp_def tline_def)
qed

section \<open>Reading the store back\<close>

text \<open>What a loaded line becomes: the records are those written, the edge has the loader's key and attributes.\<close>

definition loaded :: "(pyfloat \<Rightarrow> string) \<Rightarrow> (string \<Rightarrow> string) \<Rightarrow> ltrade \<Rightarrow> ltrade" where
  "loaded num uuid5 t = (case tkey num t of (k1, k2, k3) \<Rightarrow>
     (fst t, fst (snd t), IdText (uuid5 (k1 @ ''|'' @ k2 @ ''|'' @ k3)), \<lparr>ea_weight = Some 1, ea_count = Some 1, ea_ctx = Some k3\<rparr>))"

lemma loaded_simps [simp]: "fst (loaded num uuid5 t) = fst t" "fst (snd (loaded num uuid5 t)) = fst (snd t)"
  "tid (loaded num uuid5 t) = tid t" "tkey num' (loaded num uuid5 t) = tkey num' t" "tline num' (loaded num uuid5 t) = tline num' t"
  by (simp_all add: loaded_def tkey_def tid_def tline_def)

lemma separate_loaded [simp]: "separate (map (loaded num uuid5) ts) = separate ts"
  by (simp add: separate_def comp_def)

lemma line_key_tline: "rr_trade_id (fst (snd t)) = tid t \<Longrightarrow> \<exists>d r. line_key num (tline num t) = Some (tkey num t, d, r) \<and>
   (\<forall>ts. tid t \<notin> tid ` set ts \<longrightarrow> load_edge uuid5 (tkey num t, d, r) (graph_of ts) = ok (graph_of (ts @ [loaded num uuid5 t])))"
proof -
  assume a: "rr_trade_id (fst (snd t)) = tid t"
  obtain d r k e where t: "t = (d, r, k, e)" by (metis surj_pair)
  have "add_edge (''decision'', dr_trade_id d) (''result'', dr_trade_id d) k' a' (add_node (''result'', dr_trade_id d) (ResultData r)
      (add_node (''decision'', dr_trade_id d) (DecisionData d) (graph_of ts))) = graph_of (ts @ [(d, r, k', a')])"
    if "tid t \<notin> tid ` set ts" for ts k' a'
    by (rule add_trade_graph) (use that in \<open>simp_all add: t tid_def\<close>)
  then show ?thesis using a unfolding t
    by (cases d; cases r) (simp add: line_key_def tline_def record_payload_def jtext_def tkey_def load_edge_def field_def or_default_def
        loaded_def tid_def)
qed

section \<open>Runs of the program\<close>

text \<open>A call of \<open>add_trade\<close>: the clock texts, the edge identifier and the arguments.\<close>

type_synonym trade_op = "string \<times> string \<times> string \<times> trade_args"

definition op_id :: "trade_op \<Rightarrow> string" where
  "op_id op = (case op of (now, ts, uid, a) \<Rightarrow> trade_id_of now a)"

fun add_trades :: "trade_op list \<Rightarrow> (mgraph, unit) act" where
  "add_trades [] g = (ok (), g)"
| "add_trades ((now, ts, uid, a) # ops) g = (case add_trade now ts uid a g of
     (Inl e, g1) \<Rightarrow> (Inl e, g1) | (Inr _, g1) \<Rightarrow> add_trades ops g1)"

text \<open>One run: the graph is opened, trades are added and flushed.  Every lock acquisition succeeds.\<close>

definition session :: "(pyfloat \<Rightarrow> string) \<Rightarrow> (string \<Rightarrow> string) \<Rightarrow> (fline \<Rightarrow> int) \<Rightarrow> int \<Rightarrow> trade_op list \<Rightarrow> (store, unit) act" where
  "session num uuid5 size_of rb ops w = (case new_learning_graph num uuid5 (ok ()) rb w of
     (Inl e, w1) \<Rightarrow> (Inl e, w1)
   | (Inr lg, w1) \<Rightarrow> (case add_trades ops (lg_graph lg) of
       (Inl e, g) \<Rightarrow> (Inl e, w1)
     | (Inr _, g) \<Rightarrow> (case to_jsonl num size_of (ok ()) (lg\<lparr>lg_graph := g\<rparr>, w1) of (r, (_, w2)) \<Rightarrow> (r, w2))))"

fun sessions :: "(pyfloat \<Rightarrow> string) \<Rightarrow> (string \<Rightarrow> string) \<Rightarrow> (fline \<Rightarrow> int) \<Rightarrow> int \<Rightarrow> trade_op list list \<Rightarrow> (store, unit) act" where
  "sessions num uuid5 size_of rb [] w = (ok (), w)"
| "sessions num uuid5 size_of rb (ops # opss) w = (case session num uuid5 size_of rb ops w of
     (Inl e, w1) \<Rightarrow> (Inl e, w1) | (Inr _, w1) \<Rightarrow> sessions num uuid5 size_of rb opss w1)"

definition empty_store :: store where
  "empty_store = \<lparr>live = None, corrupt = [], archives = []\<rparr>"

definition op_trade :: "trade_op \<Rightarrow> ltrade" where
  "op_trade op = (case op of (now, ts, uid, a) \<Rightarrow>
     case (case posterior_of (pnl_of a) of Inl _ \<Rightarrow> (0, 0) | Inr p \<Rightarrow> p) of
       (mu, s2) \<Rightarrow> (decision_record_of now ts a, \<lparr>rr_trade_id = trade_id_of now a, actual_pnl = pnl_of a, verdict = verdict_of a,
         rr_timestamp = ts, posterior_mu = mu, posterior_sigma2 = s2, rl_value = 0, rl_advantage = 0\<rparr>, IdText uid,
         \<lparr>ea_weight = None, ea_count = None, ea_ctx = None\<rparr>))"

definition op_record :: "trade_op \<Rightarrow> trade_record" where
  "op_record op = trade_record_of (fst (op_trade op)) (fst (snd (op_trade op)))"


lemma posterior_ok: "\<exists>mu s2. posterior_of pnl = ok (mu, s2)"
proof -
  obtain o' where o': "fdiv pnl (fl (1/2)) = ok o'"
    using fdiv_ok [of "fl (1/2)" pnl] by (auto simp: fl_eval float_eval zero_Fin)
  have w: "fdiv 0 1 = ok 0" "fdiv 1 1 = ok 1" "fdiv 1 (fl (1/2)) = ok (Fin 2)"
    by (simp_all add: fl_eval float_eval zero_Fin one_Fin)
  have s: "(1 :: pyfloat) + Fin 2 = Fin 3" by (simp add: fl_eval float_eval one_Fin)
  obtain mu where "fdiv (0 + o') (Fin 3) = ok mu" using fdiv_ok [of "Fin 3" "0 + o'"] by (auto simp: zero_Fin)
  moreover obtain s2 where "fdiv 1 (Fin 3) = ok s2" using fdiv_ok [of "Fin 3" 1] by (auto simp: zero_Fin)
  ultimately show ?thesis using o' w s by (simp add: posterior_of_def)
qed

lemma tid_op [simp]: "tid (op_trade op) = op_id op" "rr_trade_id (fst (snd (op_trade op))) = op_id op"
  by (auto simp: tid_def op_trade_def op_id_def decision_record_of_def split: prod.splits)

lemma add_trade_graph_of:
  assumes "trade_id_of now a \<notin> tid ` set ts"
  shows "add_trade now stamp uid a (graph_of ts) = (ok (), graph_of (ts @ [op_trade (now, stamp, uid, a)]))"
proof -
  obtain mu s2 where p: "posterior_of (pnl_of a) = ok (mu, s2)" using posterior_ok by blast
  show ?thesis using assms
    by (simp add: add_trade_def Let_def p op_trade_def add_trade_graph tid_def [of "(_, _)"] decision_record_of_def)
qed

lemma add_trades_graph_of:
  "distinct (map tid ts @ map op_id ops) \<Longrightarrow> add_trades ops (graph_of ts) = (ok (), graph_of (ts @ map op_trade ops))"
proof (induction ops arbitrary: ts)
  case (Cons op ops)
  obtain now stamp uid a where op: "op = (now, stamp, uid, a)" by (metis surj_pair)
  have "trade_id_of now a \<notin> tid ` set ts" using Cons.prems by (auto simp: op op_id_def)
  then show ?case using Cons.IH [of "ts @ [op_trade op]"] Cons.prems by (auto simp: op add_trade_graph_of)
qed simp

text \<open>The file holds exactly these trades, one line each.\<close>

definition holds :: "(pyfloat \<Rightarrow> string) \<Rightarrow> ltrade list \<Rightarrow> store \<Rightarrow> bool" where
  "holds num ts w = (case live w of None \<Rightarrow> ts = [] | Some j \<Rightarrow> \<not> jf_open j \<and> jf_lines j = map (tline num) ts)"

lemma load_trades:
  assumes "\<forall>t \<in> set ts. rr_trade_id (fst (snd t)) = tid t"
  obtains xs where "List.map_filter (line_key num) (map (tline num) ts) = xs" "map fst xs = map (tkey num) ts"
    "\<And>acc. distinct (map tid acc @ map tid ts) \<Longrightarrow>
      load_edges uuid5 xs (graph_of acc) = ok (graph_of (acc @ map (loaded num uuid5) ts))"
  using assms
proof (induction ts arbitrary: thesis)
  case Nil
  show ?case by (rule Nil.prems(1) [of "[]"]) (simp_all add: map_filter_simps)
next
  case (Cons t ts)
  obtain xs where xs: "List.map_filter (line_key num) (map (tline num) ts) = xs" "map fst xs = map (tkey num) ts"
    "\<And>acc. distinct (map tid acc @ map tid ts) \<Longrightarrow>
      load_edges uuid5 xs (graph_of acc) = ok (graph_of (acc @ map (loaded num uuid5) ts))"
    using Cons.IH Cons.prems(2) by auto
  obtain d r where l: "line_key num (tline num t) = Some (tkey num t, d, r)"
    "\<forall>ts. tid t \<notin> tid ` set ts \<longrightarrow> load_edge uuid5 (tkey num t, d, r) (graph_of ts) = ok (graph_of (ts @ [loaded num uuid5 t]))"
    using line_key_tline [of t num uuid5] Cons.prems(2) by auto
  show ?case
  proof (rule Cons.prems(1) [of "(tkey num t, d, r) # xs"])
    fix acc assume a: "distinct (map tid acc @ map tid (t # ts))"
    then show "load_edges uuid5 ((tkey num t, d, r) # xs) (graph_of acc) = ok (graph_of (acc @ map (loaded num uuid5) (t # ts)))"
      using l(2) xs(3) [of "acc @ [loaded num uuid5 t]"] by auto
  qed (use xs l in \<open>auto simp: map_filter_simps\<close>)
qed

lemma line_keys_present: "\<forall>t \<in> set ts. rr_trade_id (fst (snd t)) = tid t \<Longrightarrow> bad_lines num (map (tline num) ts) = []"
proof -
  assume a: "\<forall>t \<in> set ts. rr_trade_id (fst (snd t)) = tid t"
  have "line_key num (tline num t) \<noteq> None" if "t \<in> set ts" for t
    using line_key_tline [of t num uuid5] a that by (auto simp: tkey_def)
  then show ?thesis by (auto simp: bad_lines_def)
qed

lemma open_store:
  assumes "separate ts" "holds num ts w"
  shows "\<exists>lg. new_learning_graph num uuid5 lk rb w = (ok lg, w) \<and> lg_graph lg = graph_of (map (loaded num uuid5) ts) \<and>
    lg_rotate_bytes lg = rb \<and> (case flushed_keys lg of None \<Rightarrow> ts = [] \<and> live w = None | Some ks \<Rightarrow> ks = tkey num ` set ts)"
proof (cases "live w")
  case None
  then show ?thesis using assms by (simp add: new_learning_graph_def holds_def empty_graph_def graph_of_def)
next
  case (Some j)
  then have j: "jf_lines j = map (tline num) ts" using assms(2) by (simp add: holds_def)
  have rr: "\<forall>t \<in> set ts. rr_trade_id (fst (snd t)) = tid t" "distinct (map tid ts)" using assms(1) by (simp_all add: separate_def)
  obtain xs where xs: "List.map_filter (line_key num) (map (tline num) ts) = xs" "map fst xs = map (tkey num) ts"
    "\<And>acc. distinct (map tid acc @ map tid ts) \<Longrightarrow>
      load_edges uuid5 xs (graph_of acc) = ok (graph_of (acc @ map (loaded num uuid5) ts))"
    using load_trades [OF rr(1), of num uuid5] by blast
  have "load_graph num uuid5 j = ok (graph_of (map (loaded num uuid5) ts))"
    using xs(3) [of "[]"] set_all_fresh [of "[]" xs] distinct_tkeys [OF rr(2), of num] rr(2)
    by (simp add: load_graph_def j xs(1,2) case_prod_beta' empty_graph_def graph_of_def [of "[]"])
  then show ?thesis using Some assms(1)
    by (simp add: new_learning_graph_def quarantine_def Let_def j line_keys_present [OF rr(1)] graph_keys_graph_of image_image)
qed

lemma separate_append: "separate (xs @ ys) \<longleftrightarrow> separate xs \<and> separate ys \<and> tid ` set xs \<inter> tid ` set ys = {}"
  by (auto simp: separate_def)

lemma append_tlines:
  "holds num ts w \<Longrightarrow> append_lines (map (tline num) us) (live w) = \<lparr>jf_lines = map (tline num) (ts @ us), jf_open = False\<rparr>"
  by (auto simp: holds_def append_lines_def split: option.splits)

text \<open>Beside the live file, the archives: together they are all the trades, and each archive had reached the rotation size.\<close>

definition store_keeps :: "(pyfloat \<Rightarrow> string) \<Rightarrow> (fline \<Rightarrow> int) \<Rightarrow> int \<Rightarrow> ltrade list \<Rightarrow> ltrade list \<Rightarrow> store \<Rightarrow> bool" where
  "store_keeps num size_of rb old new w \<longleftrightarrow> holds num new w \<and> concat (archives w) = map (tline num) old \<and>
     (\<forall>seg \<in> set (archives w). 0 < rb \<and> rb \<le> sum_list (map size_of seg))"

lemma keeps_append:
  assumes "store_keeps num size_of rb old new w" "\<not> needs_rotation size_of rb w"
  shows "store_keeps num size_of rb old (new @ us) (w\<lparr>live := Some (append_lines (map (tline num) us) (live w))\<rparr>)"
  using assms append_tlines [of num new w us] by (simp add: store_keeps_def holds_def)

lemma keeps_rotate:
  assumes "store_keeps num size_of rb old new w" "needs_rotation size_of rb w"
  shows "store_keeps num size_of rb (old @ new) us
    ((rotate w)\<lparr>live := Some (append_lines (map (tline num) us) (live (rotate w)))\<rparr>)"
  using assms by (auto simp: store_keeps_def holds_def rotate_def needs_rotation_def append_lines_def split: option.splits)

lemma session_keeps:
  assumes "separate (new @ map op_trade ops)" "store_keeps num size_of rb old new w"
  shows "\<exists>w' old' new'. session num uuid5 size_of rb ops w = (ok (), w') \<and> store_keeps num size_of rb old' new' w' \<and>
    old' @ new' = old @ new @ map op_trade ops \<and> separate new'"
proof -
  have s: "separate new" and h: "holds num new w" using assms by (simp_all add: separate_def store_keeps_def)
  obtain lg where lg: "new_learning_graph num uuid5 (ok ()) rb w = (ok lg, w)" "lg_graph lg = graph_of (map (loaded num uuid5) new)"
    "lg_rotate_bytes lg = rb" "case flushed_keys lg of None \<Rightarrow> new = [] \<and> live w = None | Some ks \<Rightarrow> ks = tkey num ` set new"
    using open_store [OF s h, of uuid5 "ok ()" rb] by blast
  define us where "us = map op_trade ops"
  define all where "all = map (loaded num uuid5) new @ us"
  have d: "distinct (map tid new @ map op_id ops)" using assms(1) by (auto simp: separate_def comp_def)
  have d2: "separate all" using assms(1) by (simp add: separate_append us_def all_def image_image)
  have g: "add_trades ops (lg_graph lg) = (ok (), graph_of all)"
    using add_trades_graph_of [of "map (loaded num uuid5) new" ops] d by (simp add: lg(2) all_def us_def comp_def)
  define ks where "ks = (case flushed_keys lg of None \<Rightarrow> {} | Some ks \<Rightarrow> ks)"
  have ks: "ks = tkey num ` set new" using lg(4) by (auto simp: ks_def split: option.splits)
  have fresh: "tkey num u \<notin> ks" if "u \<in> set us" for u
    using that d inj_tkey [of num u] by (auto simp: ks us_def) (metis image_eqI disjoint_iff tid_op(1))
  have pend: "filter (\<lambda>(k, _). k \<notin> ks) (map (\<lambda>t. (tkey num t, tline num t)) all) = map (\<lambda>t. (tkey num t, tline num t)) us"
    using fresh by (auto simp: all_def ks filter_empty_conv comp_def intro: filter_True)
  define w1 where "w1 = (if needs_rotation size_of rb w then rotate w else w)"
  define w' where "w' = (if us = [] then w else w1\<lparr>live := Some (append_lines (map (tline num) us) (live w1))\<rparr>)"
  have run: "session num uuid5 size_of rb ops w = (ok (), w')"
    using lg g pend
    by (simp add: session_def to_jsonl_def snapshot_graph_of [OF d2] ks_def [symmetric] w'_def w1_def comp_def Let_def)
  have us: "separate us" using assms(1) by (simp add: separate_append us_def)
  consider (none) "us = []" | (rotated) "us \<noteq> []" "needs_rotation size_of rb w"
    | (appended) "us \<noteq> []" "\<not> needs_rotation size_of rb w" by blast
  then show ?thesis
  proof cases
    case none
    then show ?thesis using run assms s by (intro exI [of _ w'] exI [of _ old] exI [of _ new]) (simp add: w'_def us_def)
  next
    case rotated
    then show ?thesis using run us keeps_rotate [OF assms(2) rotated(2), of us]
      by (intro exI [of _ w'] exI [of _ "old @ new"] exI [of _ us]) (simp add: w'_def w1_def us_def)
  next
    case appended
    then show ?thesis using run assms(1) keeps_append [OF assms(2) appended(2), of us]
      by (intro exI [of _ w'] exI [of _ old] exI [of _ "new @ us"]) (simp add: w'_def w1_def us_def)
  qed
qed

lemma sessions_keep:
  assumes "separate (old @ new @ map op_trade (concat opss))" "store_keeps num size_of rb old new w"
  shows "\<exists>w' old' new'. sessions num uuid5 size_of rb opss w = (ok (), w') \<and> store_keeps num size_of rb old' new' w' \<and>
    old' @ new' = old @ new @ map op_trade (concat opss)"
  using assms
proof (induction opss arbitrary: old new w)
  case (Cons ops opss)
  have "separate (new @ map op_trade ops)" using Cons.prems(1) by (auto simp: separate_def)
  then obtain w1 old1 new1 where 1: "session num uuid5 size_of rb ops w = (ok (), w1)" "store_keeps num size_of rb old1 new1 w1"
    "old1 @ new1 = old @ new @ map op_trade ops"
    using session_keeps [OF _ Cons.prems(2)] by blast
  then have all: "old1 @ new1 @ map op_trade (concat opss) = old @ new @ map op_trade (concat (ops # opss))"
    by (metis append.assoc concat.simps(2) map_append)
  show ?case using Cons.IH [of old1 new1 w1] 1(1,2) Cons.prems(1) unfolding all by auto
qed auto

lemma separate_ops: "separate (map op_trade ops) \<longleftrightarrow> distinct (map op_id ops)"
  by (simp add: separate_def comp_def)

lemma sum_size_nonneg: "\<forall>l. 0 \<le> (f l :: int) \<Longrightarrow> 0 \<le> sum_list (map f xs)"
  by (induction xs) auto

lemma member_size:
  assumes "seg \<in> set segs" "\<forall>l. 0 \<le> (f l :: int)"
  shows "sum_list (map f seg) \<le> sum_list (map f (concat segs))"
  using assms(1)
proof (induction segs)
  case (Cons x segs)
  then show ?case using sum_size_nonneg [OF assms(2), of x] sum_size_nonneg [OF assms(2), of "concat segs"] by auto
qed simp

text \<open>C20: What is flushed is kept, with rotation on or off: after any number of runs of the program, each opening the store, adding
  trades with fresh identifiers and flushing them, the trades split into older and newer ones such that the archives
  hold the lines of exactly the older ones and a new instance reads back exactly the records of the newer ones, both in the
  order the trades were added, and has nothing to write.  Every archive had reached the rotation size, so with rotation
  off, or as long as all the lines together are smaller than it, nothing is archived and the new instance reads every trade.\<close>

theorem flushed_trades_survive_restarts:
  assumes "distinct (map op_id (concat opss))"
  shows "\<exists>w lg old new. sessions num uuid5 size_of rb opss empty_store = (ok (), w) \<and>
    old @ new = concat opss \<and>
    concat (archives w) = map (\<lambda>op. tline num (op_trade op)) old \<and>
    (\<forall>seg \<in> set (archives w). 0 < rb \<and> rb \<le> sum_list (map size_of seg)) \<and>
    new_learning_graph num uuid5 lk rb w = (ok lg, w) \<and>
    get_trade_records (lg_graph lg) = ok (map op_record new) \<and>
    to_jsonl num size_of lk (lg, w) = (ok (), (lg, w)) \<and>
    (rb \<le> 0 \<or> (\<forall>l. 0 \<le> size_of l) \<and> sum_list (map (\<lambda>op. size_of (tline num (op_trade op))) (concat opss)) < rb \<longrightarrow>
      old = [])"
proof -
  have s: "separate (map op_trade (concat opss))" using assms by (simp add: separate_ops)
  have "store_keeps num size_of rb [] [] empty_store" by (simp add: store_keeps_def holds_def empty_store_def)
  then obtain w told tnew where w: "sessions num uuid5 size_of rb opss empty_store = (ok (), w)"
    "store_keeps num size_of rb told tnew w" "told @ tnew = map op_trade (concat opss)"
    using sessions_keep [of "[]" "[]" opss num size_of rb empty_store uuid5] s by auto
  define old new where "old = take (length told) (concat opss)" and "new = drop (length told) (concat opss)"
  have parts: "told = map op_trade old" "tnew = map op_trade new"
    using w(3) by (metis append_eq_conv_conj old_def take_map, metis append_eq_conv_conj new_def drop_map)
  have h: "holds num tnew w" "separate tnew" using w(2,3) s by (auto simp: store_keeps_def separate_append dest: sym)
  obtain lg where lg: "new_learning_graph num uuid5 lk rb w = (ok lg, w)" "lg_graph lg = graph_of (map (loaded num uuid5) tnew)"
    "case flushed_keys lg of None \<Rightarrow> tnew = [] \<and> live w = None | Some ks \<Rightarrow> ks = tkey num ` set tnew"
    using open_store [OF h(2,1), of uuid5 lk rb] by blast
  have "get_trade_records (lg_graph lg) = ok (map op_record new)"
    using records_graph_of [OF separate_loaded [THEN iffD2, OF h(2)], of num uuid5] by (simp add: lg(2) parts op_record_def)
  moreover have "to_jsonl num size_of lk (lg, w) = (ok (), (lg, w))"
    using lg(2,3) h(2) snapshot_graph_of [of "map (loaded num uuid5) tnew" num]
    by (auto simp: to_jsonl_def Let_def filter_empty_conv comp_def split: option.splits)
  moreover have "old @ new = concat opss" by (simp add: old_def new_def)
  moreover have arch: "concat (archives w) = map (\<lambda>op. tline num (op_trade op)) old"
    "\<forall>seg \<in> set (archives w). 0 < rb \<and> rb \<le> sum_list (map size_of seg)"
    using w(2) by (simp_all add: store_keeps_def parts comp_def)
  moreover have "old = []" if small: "rb \<le> 0 \<or> (\<forall>l. 0 \<le> size_of l) \<and>
      sum_list (map (\<lambda>op. size_of (tline num (op_trade op))) (concat opss)) < rb"
  proof (rule ccontr)
    assume "old \<noteq> []"
    then obtain seg where seg: "seg \<in> set (archives w)" using arch(1) by (cases "archives w") auto
    then have big: "0 < rb" "rb \<le> sum_list (map size_of seg)" using arch(2) by auto
    then have pos: "\<forall>l. 0 \<le> size_of l" using small by auto
    have "sum_list (map size_of seg) \<le> sum_list (map size_of (concat (archives w)))"
      using seg pos by (rule member_size)
    also have "\<dots> \<le> sum_list (map (\<lambda>op. size_of (tline num (op_trade op))) (old @ new))"
      using sum_size_nonneg [of "\<lambda>op. size_of (tline num (op_trade op))" new] pos by (simp add: arch(1) comp_def)
    finally show False using small big by (simp add: old_def new_def)
  qed
  ultimately show ?thesis using w(1) lg(1) by blast
qed

definition demo_op :: "string \<Rightarrow> pyfloat \<Rightarrow> trade_op" where
  "demo_op i p = (''now'', ''ts'', ''u'', default_args\<lparr>ta_trade_id := Some i, ta_net_pnl := Some p\<rparr>)"

text \<open>The default rotation size, ten mebibytes, with lines of a hundred bytes.\<close>

theorem flushed_trades_survive_restarts_witness:
  "\<exists>w lg. sessions (\<lambda>_. []) id (\<lambda>_. 100) 10485760 [[demo_op ''a'' 1], [demo_op ''b'' 0]] empty_store = (ok (), w) \<and>
    new_learning_graph (\<lambda>_. []) id (ok ()) 10485760 w = (ok lg, w) \<and>
    get_trade_records (lg_graph lg) = ok [op_record (demo_op ''a'' 1), op_record (demo_op ''b'' 0)]"
proof -
  have "distinct (map op_id (concat [[demo_op ''a'' 1], [demo_op ''b'' 0]]))" by (simp add: op_id_def demo_op_def trade_id_of_def)
  then obtain w lg old new where
    "sessions (\<lambda>_. []) id (\<lambda>_. 100) 10485760 [[demo_op ''a'' 1], [demo_op ''b'' 0]] empty_store = (ok (), w)"
    "new_learning_graph (\<lambda>_. []) id (ok ()) 10485760 w = (ok lg, w)" "get_trade_records (lg_graph lg) = ok (map op_record new)"
    "old @ new = [demo_op ''a'' 1, demo_op ''b'' 0]" "old = []"
    using flushed_trades_survive_restarts [of "[[demo_op ''a'' 1], [demo_op ''b'' 0]]" "\<lambda>_. []" id "\<lambda>_. 100" 10485760 "ok ()"]
    by auto
  then show ?thesis by auto
qed

section \<open>Quarantine\<close>

text \<open>The text of the store: the lines of the file that are no blanks, and the sidecar.\<close>

definition stored :: "store \<Rightarrow> fline list" where
  "stored w = filter (\<lambda>l. l \<noteq> BlankLine) (case live w of None \<Rightarrow> [] | Some j \<Rightarrow> jf_lines j) @ corrupt w"

lemma good_bad_mset: "mset (good_lines num ls) + mset (bad_lines num ls) = mset (filter (\<lambda>l. l \<noteq> BlankLine) ls)"
  by (induction ls) (auto simp: good_lines_def bad_lines_def line_key_def)

lemma good_not_blank: "filter (\<lambda>l. l \<noteq> BlankLine) (good_lines num ls) = good_lines num ls"
  by (induction ls) (auto simp: good_lines_def line_key_def)

lemma good_not_blank_mset [simp]: "{#x \<in># mset (good_lines num ls). x \<noteq> BlankLine#} = mset (good_lines num ls)"
  using arg_cong [OF good_not_blank, of mset num ls] by simp

lemma bad_good: "bad_lines num (good_lines num ls) = []"
  by (induction ls) (auto simp: bad_lines_def good_lines_def)

lemma quarantine_stored:
  assumes "live w = Some j" "quarantine num lk j w = (r, w')"
  shows "mset (stored w) \<subseteq># mset (stored w') \<and> archives w' = archives w \<and>
    (case r of Inl e \<Rightarrow> lk = Inl e | Inr _ \<Rightarrow> mset (stored w) = mset (stored w') \<and> bad_lines num (case live w' of None \<Rightarrow> [] | Some j \<Rightarrow> jf_lines j) = [])"
  using assms good_bad_mset [of num "jf_lines j"]
  by (auto simp: quarantine_def Let_def stored_def good_not_blank bad_good split: if_splits sum.splits)

text \<open>Opening a store loses no line: whatever its lines are and whether the constructor returns or raises, every line
  that is no blank is afterwards in the file or in the sidecar; when it returns, each is there exactly once more, and the
  file holds no malformed line.\<close>

theorem opening_loses_no_line:
  "case new_learning_graph num uuid5 lk rb w of (r, w') \<Rightarrow>
     mset (stored w) \<subseteq># mset (stored w') \<and> archives w' = archives w \<and>
     (case r of Inl _ \<Rightarrow> True | Inr _ \<Rightarrow> mset (stored w') = mset (stored w) \<and>
        bad_lines num (case live w' of None \<Rightarrow> [] | Some j \<Rightarrow> jf_lines j) = [])"
proof (cases "live w")
  case None
  then show ?thesis by (simp add: new_learning_graph_def bad_lines_def)
next
  case (Some j)
  obtain q w1 where q: "quarantine num lk j w = (q, w1)" by force
  show ?thesis using quarantine_stored [OF Some q] Some q
    by (auto simp: new_learning_graph_def split: sum.splits)
qed

section \<open>Compaction\<close>

definition rekeyed :: "ltrade \<Rightarrow> ltrade" where
  "rekeyed t = (fst t, fst (snd t), IdInt 0, snd (snd (snd t)))"

lemma rekeyed_simps [simp]: "fst (rekeyed t) = fst t" "fst (snd (rekeyed t)) = fst (snd t)" "tid (rekeyed t) = tid t"
  "tkey num (rekeyed t) = tkey num t" "snd (snd (snd (rekeyed t))) = snd (snd (snd t))"
  by (simp_all add: rekeyed_def tid_def tkey_def)

lemma dedupe_graph_of:
  assumes "separate ts"
  shows "dedupe_edges num (graph_of ts) = ok (graph_of (map rekeyed ts))"
proof -
  define step where "step = (\<lambda>out (u, du, v, dv, a). let out1 = add_node v dv (add_node u du out)
              in add_edge u v (new_edge_key u v out1) (a :: edge_attr) out1)"
  define item where "item t = ((''decision'', tid t), DecisionData (fst t), (''result'', tid t), ResultData (fst (snd t)), snd (snd (snd t)))" for t :: ltrade
  have one: "step (graph_of acc) (item t) = graph_of (acc @ [rekeyed t])" if "tid t \<notin> tid ` set acc" for acc t
  proof -
    obtain d r k a where t: "t = (d, r, k, a)" by (metis surj_pair)
    have f: "find (\<lambda>x. tid x = dr_trade_id d) acc = None" using that by (auto simp: find_tid_None t tid_def [of "(_, _)"])
    have "new_edge_key (''decision'', dr_trade_id d) (''result'', dr_trade_id d) (add_node (''result'', dr_trade_id d) (ResultData r)
        (add_node (''decision'', dr_trade_id d) (DecisionData d) (graph_of acc))) = IdInt 0"
      using f by (simp add: new_edge_key_def add_node_def graph_of_def Let_def dget_or_def map_of_concat_succ dset_fresh dset_append
          map_add_def split: option.splits)
    then show ?thesis using add_trade_graph [of d r "IdInt 0" a acc "dr_trade_id d"] that
      by (simp add: step_def item_def t tid_def [of "(_, _)"] rekeyed_def)
  qed
  have fold: "foldl step (graph_of acc) (map item us) = graph_of (acc @ map rekeyed us)"
    if "distinct (map tid acc @ map tid us)" for acc us
    using that
  proof (induction us arbitrary: acc)
    case (Cons u us)
    then have "tid u \<notin> tid ` set acc" by auto
    then show ?case using Cons.IH [of "acc @ [rekeyed u]"] Cons.prems by (simp add: one)
  qed simp
  have k: "map_res (\<lambda>(u, v, _, a). rbind (edge_key num (graph_of ts) u v) (\<lambda>k. ok (k, (u, v, a)))) (edges (graph_of ts)) =
      ok (map (\<lambda>t. (tkey num t, ((''decision'', tid t), (''result'', tid t), snd (snd (snd t))))) ts)"
    unfolding map_res_edges by (rule map_res_map) (auto simp: edge_key_graph [OF assms] split: prod.splits)
  have l: "dget (mg_nodes (graph_of ts)) (''decision'', tid t) = Some (DecisionData (fst t))"
    "dget (mg_nodes (graph_of ts)) (''result'', tid t) = Some (ResultData (fst (snd t)))" if "t \<in> set ts" for t
    using find_tid_Some [of ts t] that assms by (simp_all add: graph_of_def map_of_concat_nodes separate_def)
  have m: "map_res (\<lambda>(u, v, a). case (dget (mg_nodes (graph_of ts)) u, dget (mg_nodes (graph_of ts)) v) of
            (Some du, Some dv) \<Rightarrow> ok (u, du, v, dv, a) | _ \<Rightarrow> raise (KeyError (fst u)))
      (map (\<lambda>t. ((''decision'', tid t), (''result'', tid t), snd (snd (snd t)))) ts) = ok (map item ts)"
    unfolding map_res_comp by (rule map_res_map) (simp add: l item_def)
  have "distinct (map (tkey num) ts)" "distinct (map tid ts)" using assms distinct_tkeys by (auto simp: separate_def)
  then show ?thesis
    using fold [of "[]" ts] k m
    by (simp add: dedupe_edges_def set_all_fresh comp_def step_def [symmetric] graph_of_def [of "[]"] empty_graph_def)
qed

lemma compact_loaded:
  assumes "separate ts" "lg_graph lg = graph_of (map (loaded num uuid5) ts)" "live w = Some j"
  shows "\<exists>c lg'. compact num (ok ()) (lg, w) = (ok c, (lg', w\<lparr>live := Some \<lparr>jf_lines = map (tline num) ts, jf_open = False\<rparr>,
      archives := archives w @ [jf_lines j]\<rparr>)) \<and> edges_before c = edges_after c \<and>
    get_trade_records (lg_graph lg') = get_trade_records (lg_graph lg)"
proof -
  define us where "us = map rekeyed (map (loaded num uuid5) ts)"
  have s: "separate (map (loaded num uuid5) ts)" "separate us"
    using assms(1) by (simp_all add: us_def separate_def comp_def)
  have n: "decision_of (graph_of (map (loaded num uuid5) ts)) (''decision'', tid t) = ok (fst t)"
    "result_of (graph_of (map (loaded num uuid5) ts)) (''result'', tid t) = ok (fst (snd t))" if "t \<in> set ts" for t
    using node_lookup [OF s(1), of "loaded num uuid5 t"] that by simp_all
  have e: "ea_ctx (snd (snd (snd (loaded num uuid5 t)))) = Some (edge_context num (fst t) (fst (snd t)))" for t
    by (simp add: loaded_def tkey_def)
  have "map_res (line_from_edge (graph_of (map (loaded num uuid5) ts))) (edges (graph_of us)) = ok (map (tline num) ts)"
    unfolding map_res_edges unfolding us_def map_res_comp
    by (rule map_res_map) (simp add: line_from_edge_def n e tline_def case_prod_beta')
  moreover have "length (edges (graph_of us)) = length (edges (graph_of (map (loaded num uuid5) ts)))"
    by (simp add: edges_graph_of us_def)
  moreover have "get_trade_records (graph_of us) = get_trade_records (graph_of (map (loaded num uuid5) ts))"
    using records_graph_of [OF s(1)] records_graph_of [OF s(2)] by (simp add: us_def)
  moreover have "dedupe_edges num (graph_of (map (loaded num uuid5) ts)) = ok (graph_of us)"
    using dedupe_graph_of [OF s(1), of num] by (simp only: us_def)
  ultimately show ?thesis using graph_keys_graph_of [OF s(2), of num] assms(2,3)
    by (simp add: compact_def Let_def rotate_def)
qed

text \<open>Compaction rewrites the file from memory: an instance that opened a store and compacts it later keeps its own
  records and leaves in the file exactly the trades it had read, whatever was appended in between; the old file is archived.
  Trades another writer appended are in the archive only, and the next start does not see them.\<close>

theorem compaction_drops_other_writers:
  assumes "separate (ts @ us)" "holds num ts w" "new_learning_graph num uuid5 lk rb w = (ok lg, w)"
    "holds num (ts @ us) w2" "live w2 = Some j"
  shows "\<exists>c lg' w3 lg3. compact num (ok ()) (lg, w2) = (ok c, (lg', w3)) \<and>
    get_trade_records (lg_graph lg') = get_trade_records (lg_graph lg) \<and>
    new_learning_graph num uuid5 lk rb w3 = (ok lg3, w3) \<and>
    get_trade_records (lg_graph lg3) = ok (map (\<lambda>t. trade_record_of (fst t) (fst (snd t))) ts) \<and>
    archives w3 = archives w2 @ [map (tline num) (ts @ us)]"
proof -
  have s: "separate ts" using assms(1) by (simp add: separate_append)
  have g: "lg_graph lg = graph_of (map (loaded num uuid5) ts)"
    using open_store [OF s assms(2), of uuid5 lk rb] assms(3) by auto
  define w3 where "w3 = w2\<lparr>live := Some \<lparr>jf_lines = map (tline num) ts, jf_open = False\<rparr>, archives := archives w2 @ [jf_lines j]\<rparr>"
  obtain c lg' where c: "compact num (ok ()) (lg, w2) = (ok c, (lg', w3))"
    "get_trade_records (lg_graph lg') = get_trade_records (lg_graph lg)"
    using compact_loaded [OF s g assms(5)] by (auto simp: w3_def)
  have "holds num ts w3" by (simp add: holds_def w3_def)
  then obtain lg3 where "new_learning_graph num uuid5 lk rb w3 = (ok lg3, w3)" "lg_graph lg3 = graph_of (map (loaded num uuid5) ts)"
    using open_store [OF s] by blast
  moreover have "jf_lines j = map (tline num) (ts @ us)" using assms(4,5) by (simp add: holds_def)
  ultimately show ?thesis using c records_graph_of [OF separate_loaded [THEN iffD2, OF s], of num uuid5] by (auto simp: w3_def)
qed

definition demo_store :: "trade_op list \<Rightarrow> store" where
  "demo_store ops = \<lparr>live = Some \<lparr>jf_lines = map (tline (\<lambda>_. []) \<circ> op_trade) ops, jf_open = False\<rparr>, corrupt = [], archives = []\<rparr>"

theorem compaction_drops_other_writers_witness:
  "\<exists>lg c lg' w3 lg3. new_learning_graph (\<lambda>_. []) id (ok ()) 0 (demo_store [demo_op ''a'' 1]) = (ok lg, demo_store [demo_op ''a'' 1]) \<and>
    compact (\<lambda>_. []) (ok ()) (lg, demo_store [demo_op ''a'' 1, demo_op ''b'' 0]) = (ok c, (lg', w3)) \<and>
    new_learning_graph (\<lambda>_. []) id (ok ()) 0 w3 = (ok lg3, w3) \<and> get_trade_records (lg_graph lg3) = ok [op_record (demo_op ''a'' 1)]"
proof -
  have s: "separate ([op_trade (demo_op ''a'' 1)] @ [op_trade (demo_op ''b'' 0)])" "separate [op_trade (demo_op ''a'' 1)]"
    by (simp_all add: separate_def op_id_def demo_op_def trade_id_of_def)
  have h: "holds (\<lambda>_. []) [op_trade (demo_op ''a'' 1)] (demo_store [demo_op ''a'' 1])"
    "holds (\<lambda>_. []) ([op_trade (demo_op ''a'' 1)] @ [op_trade (demo_op ''b'' 0)]) (demo_store [demo_op ''a'' 1, demo_op ''b'' 0])"
    "live (demo_store [demo_op ''a'' 1, demo_op ''b'' 0]) =
      Some \<lparr>jf_lines = map (tline (\<lambda>_. []) \<circ> op_trade) [demo_op ''a'' 1, demo_op ''b'' 0], jf_open = False\<rparr>"
    by (simp_all add: holds_def demo_store_def)
  obtain lg where lg: "new_learning_graph (\<lambda>_. []) id (ok ()) 0 (demo_store [demo_op ''a'' 1]) = (ok lg, demo_store [demo_op ''a'' 1])"
    using open_store [OF s(2) h(1)] by blast
  show ?thesis using compaction_drops_other_writers [OF s(1) h(1) lg h(2,3)] lg by (auto simp: op_record_def)
qed

section \<open>What a flush can lose\<close>

text \<open>A writer that died in the middle of a line: the first line of the next flush is glued to the torn text and lost,
  while its key counts as flushed.\<close>

lemma torn_tail_swallows_flush:
  assumes "separate [t]" "lg_graph lg = graph_of [t]" "flushed_keys lg = Some {}" "lg_rotate_bytes lg \<le> 0"
    "live w = Some \<lparr>jf_lines = [TornText x], jf_open = True\<rparr>"
  shows "\<exists>w' lg3 w3. to_jsonl num size_of (ok ()) (lg, w) = (ok (), (lg\<lparr>flushed_keys := Some {tkey num t}\<rparr>, w')) \<and>
    new_learning_graph num uuid5 (ok ()) rb w' = (ok lg3, w3) \<and> lg_graph lg3 = empty_graph"
  using assms snapshot_graph_of [OF assms(1), of num]
  by (simp add: to_jsonl_def Let_def needs_rotation_def append_lines_def glue_def new_learning_graph_def load_graph_def
      map_filter_simps line_key_def set_all_def quarantine_def bad_lines_def graph_keys_def edges_def empty_graph_def)

text \<open>A record of an identifier, strategy and verdict that were flushed once is never written again, whatever its P\&L.\<close>

lemma updates_are_not_flushed:
  assumes "snapshot_keyed num (lg_graph lg) = ok ls" "flushed_keys lg = Some ks" "set (dkeys ls) \<subseteq> ks"
  shows "to_jsonl num size_of lk (lg, w) = (ok (), (lg, w))"
  using assms by (auto simp: to_jsonl_def Let_def filter_empty_conv)

text \<open>The lock loop ends as soon as the clock reaches the deadline.\<close>

lemma lock_loop_ends:
  assumes "deadline \<le> snd (attempt (n + k))"
  shows "\<exists>r m. lock_loop attempt deadline n = Some (r, m) \<and> m \<le> n + k"
  using assms
proof (induction k arbitrary: n)
  case 0
  then show ?case by (subst lock_loop.simps) (auto split: prod.splits lock_try.splits)
next
  case (Suc k)
  then obtain r m where "lock_loop attempt deadline (n + 1) = Some (r, m)" "m \<le> n + Suc k" by force
  then show ?case by (subst lock_loop.simps) (auto split: prod.splits lock_try.splits)
qed

section \<open>What training sees\<close>

lemma fit_unlabelled: "\<forall>r \<in> set rs. fst r = None \<Longrightarrow> fit_records ex True rs n b = (ok (n + int (length rs)), b)"
  by (induction rs arbitrary: n) (auto simp: update_from_trade_def validate_action_def)

text \<open>The trades a backtest records teach nothing: their decision payload comes from \<open>signal_to_dict\<close>, which has no
  strategy label for a \<open>Signal\<close>, so batch training skips every one of them and leaves the allocator as it was.\<close>

theorem backtest_trades_teach_nothing:
  assumes "distinct (map op_id ops)" "\<forall>(now, stamp, uid, a) \<in> set ops. \<exists>sg. ta_signal a = Some (signal_to_dict isofmt sg)"
    "add_trades ops empty_graph = (r, g)"
  shows "r = ok () \<and> fit_from_learning_graph ex True g b = (ok (int (length ops)), b)"
proof -
  have g: "r = ok ()" "g = graph_of (map op_trade ops)"
    using add_trades_graph_of [of "[]" ops] assms by (simp_all add: empty_graph_def graph_of_def [of "[]"])
  have "label_of (tr_strategy (op_record op)) = None" if op: "op \<in> set ops" for op
  proof -
    obtain now stamp uid a where o: "op = (now, stamp, uid, a)" by (metis surj_pair)
    then obtain sg where "ta_signal a = Some (signal_to_dict isofmt sg)" using assms(2) op by fast
    then show ?thesis
      by (simp add: o op_record_def op_trade_def trade_record_of_def decision_record_of_def or_dict_def signal_to_dict_def jget_def
          dget_or_def label_of_def split: prod.splits)
  qed
  then show ?thesis
    using fit_unlabelled [of "map (\<lambda>t. (label_of (tr_strategy t), tr_actual_pnl t)) (map op_record ops)" ex 0 b]
      records_graph_of [of "map op_trade ops"] assms(1)
    by (simp add: g fit_from_learning_graph_def separate_ops comp_def op_record_def)
qed

definition replay_signal :: signal where
  "replay_signal = \<lparr>sg_asset = ''BTC'', sg_asset_class = ''crypto'', sg_side = LONG, sg_entry_price = 1, sg_confidence = 1,
     sg_timestamp = 0, sg_rationale = [], sg_suggested_stop = None, sg_suggested_target = None, sg_garch_vol_scale = None\<rparr>"

definition replay_op :: "string \<Rightarrow> signal \<Rightarrow> trade_op" where
  "replay_op i sg = (''now'', ''ts'', ''u'', default_args\<lparr>ta_trade_id := Some i, ta_signal := Some (signal_to_dict (\<lambda>_. []) sg)\<rparr>)"

theorem backtest_trades_teach_nothing_witness:
  "\<exists>g. add_trades [replay_op ''a'' replay_signal] empty_graph = (ok (), g) \<and>
    fit_from_learning_graph (\<lambda>_. ok 1) True g demo_bandit = (ok 1, demo_bandit)"
proof -
  obtain r g where g: "add_trades [replay_op ''a'' replay_signal] empty_graph = (r, g)" by force
  show ?thesis using backtest_trades_teach_nothing [OF _ _ g, of "\<lambda>_. []" "\<lambda>_. ok 1" demo_bandit] g
    by (auto simp: replay_op_def op_id_def)
qed

end
