(* ===== verification/Heartbeat.thy ===== *)
theory Heartbeat
  imports Survival LearnGraph "HOL-Library.Sublist"
begin

text \<open>
  \<open>daemon/heartbeat.py\<close>: the daemon that runs the models, the survival automaton, the strategy choice and the risk
  gate over one account.  The GARCH, HMM and tail models and the signal generator are parameters that may raise; the
  clock readings of the telemetry are left out.
\<close>

section \<open>State\<close>

record hmm_full = hmm_result +
  provenance :: string
  state_probabilities :: "pyfloat list"

text \<open>The fitted models with their state.\<close>

record 'm models =
  fit_forecast :: "pyfloat list \<Rightarrow> ('m, garch_result) act"
  fit_predict :: "pyfloat list \<Rightarrow> ('m, hmm_full) act"
  estimate_tail_risk :: "pyfloat list \<Rightarrow> ('m, evt_result) act"

record 'm heartbeat =
  hb_symbols :: "string list"
  hb_engine :: engine
  hb_survival :: survival_engine
  hb_last_logged_tier :: survival_tier
  hb_min_buffer :: int
  hb_data_warned :: "string set"
  hb_models :: 'm
  hb_graph :: mgraph
  hb_bandit :: bandit
  hb_running :: bool
  hb_cycles :: int
  hb_history :: "(string, pyfloat list) dict"

record cycle_result =
  cycle_number :: int
  cr_survival :: survival_status
  cr_garch :: "garch_result option"
  cr_hmm :: "hmm_full option"
  cr_evt :: "evt_result option"
  active_strategy :: string
  proposed_signals :: int
  approved_orders :: "approved_order list"

definition MIN_CANDLE_BUFFER :: int where
  "MIN_CANDLE_BUFFER = 30"

text \<open>Construction: the allocator and the state file's path are those passed or their defaults, \<open>env\<close> the environment's.\<close>

definition new_heartbeat :: "bool \<Rightarrow> string list \<Rightarrow> risk_config option \<Rightarrow> mgraph option \<Rightarrow> bandit option \<Rightarrow> int \<Rightarrow> string option
    \<Rightarrow> string option \<Rightarrow> string \<Rightarrow> 'm \<Rightarrow> (tier_world, 'm heartbeat) act" where
  "new_heartbeat up symbols config graph allocator min_buffer path env scope ms w =
    (let cfg = (case config of None \<Rightarrow> default_risk_config | Some c \<Rightarrow> c);
         tier_path = (case path of Some p \<Rightarrow> if p = [] then env else Some p | None \<Rightarrow> env)
     in case new_survival_engine up cfg None tier_path (if scope = [] then ''global'' else scope) w of
          (Inl e, w1) \<Rightarrow> (Inl e, w1)
        | (Inr sv, w1) \<Rightarrow>
            (map_sum id (\<lambda>bd. \<lparr>hb_symbols = symbols, hb_engine = new_engine (Some cfg) None, hb_survival = sv,
               hb_last_logged_tier = (case tier_of_value (tier (sv_tier_state sv)) of None \<Rightarrow> SvNORMAL | Some t \<Rightarrow> t),
               hb_min_buffer = max min_buffer 1, hb_data_warned = {}, hb_models = ms,
               hb_graph = (case graph of None \<Rightarrow> empty_graph | Some g \<Rightarrow> g), hb_bandit = bd, hb_running = False,
               hb_cycles = 0, hb_history = map (\<lambda>s. (s, [])) (dedup symbols)\<rparr>)
               (case allocator of Some b \<Rightarrow> ok b
                | None \<Rightarrow> new_bandit [''trend_momentum'', ''mean_reversion'', ''breakout''] (fl (1/10)) 1), w1))"

definition feed_market_data :: "string \<Rightarrow> pyfloat list \<Rightarrow> 'm heartbeat \<Rightarrow> 'm heartbeat" where
  "feed_market_data symbol prices hb = (case dget (hb_history hb) symbol of
     None \<Rightarrow> hb
   | Some xs \<Rightarrow> (let ys = xs @ prices; zs = (if 500 < length ys then drop (length ys - 500) ys else ys)
       in hb\<lparr>hb_history := dset symbol zs (hb_history hb)\<rparr>))"

definition history_of :: "'m heartbeat \<Rightarrow> string \<Rightarrow> pyfloat list" where
  "history_of hb s = dget_or (hb_history hb) s []"

definition insufficient :: "'m heartbeat \<Rightarrow> string \<Rightarrow> bool" where
  "insufficient hb s = (int (length (history_of hb s)) < hb_min_buffer hb)"

text \<open>The warning is logged once per symbol.\<close>

definition warn_insufficient_data :: "'m heartbeat \<Rightarrow> 'm heartbeat" where
  "warn_insufficient_data hb = hb\<lparr>hb_data_warned := hb_data_warned hb \<union> set (filter (insufficient hb) (hb_symbols hb))\<rparr>"

section \<open>Signals and the risk gate\<close>

type_synonym generator = "string \<Rightarrow> string \<Rightarrow> pyfloat \<Rightarrow> signal option res"

definition current_price :: "'m heartbeat \<Rightarrow> pyfloat list \<Rightarrow> string \<Rightarrow> pyfloat" where
  "current_price hb prices s = (let xs = dget_or (hb_history hb) s prices in if xs = [] then fl 100 else last xs)"

definition scaled_signal :: "garch_result \<Rightarrow> signal \<Rightarrow> signal" where
  "scaled_signal garch sg = sg\<lparr>sg_garch_vol_scale := Some (volatility_scale_factor garch)\<rparr>"

text \<open>The loop over the symbols: the engine, the number of proposals and the approved orders.\<close>

fun collect_entries :: "generator \<Rightarrow> (string \<Rightarrow> pyfloat) \<Rightarrow> string \<Rightarrow> pyfloat \<Rightarrow> garch_result \<Rightarrow> account_state \<Rightarrow> string list
    \<Rightarrow> int \<Rightarrow> approved_order list \<Rightarrow> (engine, int \<times> approved_order list) act" where
  "collect_entries gen price strat conf_floor garch account [] n orders eng = (ok (n, orders), eng)"
| "collect_entries gen price strat conf_floor garch account (s # ss) n orders eng = (case gen s strat (price s) of
     Inl e \<Rightarrow> (Inl e, eng)
   | Inr None \<Rightarrow> collect_entries gen price strat conf_floor garch account ss n orders eng
   | Inr (Some sg) \<Rightarrow>
       if conf_floor \<le> sg_confidence sg then
         (case evaluate (scaled_signal garch sg) account eng of
            (Inl e, eng1) \<Rightarrow> (Inl e, eng1)
          | (Inr d, eng1) \<Rightarrow> collect_entries gen price strat conf_floor garch account ss (n + 1)
              (case dec_order d of Some order \<Rightarrow> if dec_approved d then orders @ [order] else orders | None \<Rightarrow> orders) eng1)
       else collect_entries gen price strat conf_floor garch account ss (n + 1) orders eng)"

definition defended :: "survival_tier \<Rightarrow> bool" where
  "defended t = (t = SvSURVIVAL \<or> t = SvCOOLDOWN)"

definition entries :: "generator option \<Rightarrow> pyfloat list \<Rightarrow> string \<Rightarrow> survival_status \<Rightarrow> garch_result \<Rightarrow> account_state
    \<Rightarrow> ('m heartbeat, int \<times> approved_order list) act" where
  "entries gen prices strat status garch account hb =
    (if defended (ss_tier status) then (ok (0, []), hb)
     else (case gen of
         None \<Rightarrow> (ok (0, []), hb)
       | Some g \<Rightarrow>
           if allow_new_entries status then
             (case collect_entries g (current_price hb prices) strat (min_confidence_floor status) garch account (hb_symbols hb)
                 0 [] (hb_engine hb) of (r, eng) \<Rightarrow> (r, hb\<lparr>hb_engine := eng\<rparr>))
           else (ok (0, []), hb)))"

section \<open>A cycle\<close>

record cycle_input =
  ci_up :: bool
  ci_account :: account_state
  ci_exp :: "pyfloat \<Rightarrow> pyfloat res"
  ci_draw :: pyfloat

definition survive :: "cycle_input \<Rightarrow> garch_result option \<Rightarrow> hmm_full option \<Rightarrow> evt_result option
    \<Rightarrow> ('m heartbeat \<times> tier_world, survival_status) act" where
  "survive inp garch hmm evt x = (case x of (hb, w) \<Rightarrow>
     (case evaluate_survival_status (ci_up inp) (ci_account inp) garch (map_option hmm_result.truncate hmm) evt (hb_survival hb, w) of
        (r, (sv, w1)) \<Rightarrow> (r, (hb\<lparr>hb_survival := sv\<rparr>, w1))))"

definition run_model :: "('m, 'a) act \<Rightarrow> ('m heartbeat \<times> tier_world, 'a) act" where
  "run_model f x = (case x of (hb, w) \<Rightarrow> (case f (hb_models hb) of (r, m) \<Rightarrow> (r, (hb\<lparr>hb_models := m\<rparr>, w))))"

definition bandit_context :: "hmm_full \<Rightarrow> pyfloat list option" where
  "bandit_context h = (if provenance h = ''model'' then Some (state_probabilities h) else None)"

definition primary_symbol :: "'m heartbeat \<Rightarrow> string" where
  "primary_symbol hb = (case hb_symbols hb of [] \<Rightarrow> ''BTC/USDT'' | s # _ \<Rightarrow> s)"

text \<open>The part of a cycle after the data guard.\<close>

definition full_cycle :: "'m models \<Rightarrow> cycle_input \<Rightarrow> generator option \<Rightarrow> pyfloat list
    \<Rightarrow> ('m heartbeat \<times> tier_world, cycle_result) act" where
  "full_cycle ms inp gen prices =
    abind (run_model (fit_forecast ms prices)) (\<lambda>garch.
    abind (run_model (fit_predict ms prices)) (\<lambda>hmm.
    abind (run_model (estimate_tail_risk ms prices)) (\<lambda>evt.
    abind (survive inp (Some garch) (Some hmm) (Some evt)) (\<lambda>status x. case x of (hb, w) \<Rightarrow>
      (case select_strategy (ci_exp inp) (bandit_context hmm) False (ci_draw inp) (hb_bandit hb) of
         Inl e \<Rightarrow> (Inl e, (hb, w))
       | Inr strat \<Rightarrow> (case entries gen prices strat status garch (ci_account inp) hb of
           (Inl e, hb1) \<Rightarrow> (Inl e, (hb1, w))
         | (Inr (n, orders), hb1) \<Rightarrow> (ok \<lparr>cycle_number = hb_cycles hb1, cr_survival = status, cr_garch = Some garch,
             cr_hmm = Some hmm, cr_evt = Some evt, active_strategy = strat, proposed_signals = n, approved_orders = orders\<rparr>,
             (hb1, w))))))))"

definition tick_cycle :: "'m models \<Rightarrow> cycle_input \<Rightarrow> generator option \<Rightarrow> ('m heartbeat \<times> tier_world, cycle_result) act" where
  "tick_cycle ms inp gen x = (case x of (hb0, w) \<Rightarrow>
    (let hb = warn_insufficient_data (hb0\<lparr>hb_cycles := hb_cycles hb0 + 1\<rparr>); prices = history_of hb (primary_symbol hb)
     in if int (length prices) < hb_min_buffer hb then
          abind (survive inp None None None) (\<lambda>status. areturn \<lparr>cycle_number = hb_cycles hb, cr_survival = status, cr_garch = None,
            cr_hmm = None, cr_evt = None, active_strategy = [], proposed_signals = 0, approved_orders = []\<rparr>) (hb, w)
        else full_cycle ms inp gen prices (hb, w)))"

definition record_closed_trade_reflection :: "(pyfloat \<Rightarrow> pyfloat res) \<Rightarrow> string \<Rightarrow> string \<Rightarrow> string \<Rightarrow> string \<Rightarrow> string \<Rightarrow> string \<Rightarrow> string
    \<Rightarrow> pyfloat \<Rightarrow> pyfloat \<Rightarrow> pyfloat \<Rightarrow> pyfloat \<Rightarrow> ('m heartbeat, unit) act" where
  "record_closed_trade_reflection ex now stamp uid trade_id symbol strategy regime r_multiple net_pnl entry_price exit_price hb =
    (case add_trade now stamp uid (default_args\<lparr>ta_trade_id := Some trade_id, ta_symbol := Some symbol,
         ta_strategy := Some strategy, ta_regime := Some regime, ta_r_multiple := Some r_multiple, ta_net_pnl := Some net_pnl,
         ta_entry_price := Some entry_price, ta_exit_price := Some exit_price\<rparr>) (hb_graph hb) of
       (Inl e, g) \<Rightarrow> (Inl e, hb\<lparr>hb_graph := g\<rparr>)
     | (Inr _, g) \<Rightarrow> (case update_from_trade ex None r_multiple (Some strategy) (hb_bandit hb) of
         (r, b) \<Rightarrow> (r, hb\<lparr>hb_graph := g, hb_bandit := b\<rparr>)))"

section \<open>The loop\<close>

text \<open>The inputs of the \<open>n\<close>-th pass; \<open>stopped n\<close> says whether another task has cleared \<open>is_running\<close> while the
  loop slept after it.  The results of the passes are kept for the statements below: the code drops them.\<close>

definition after_tick :: "cycle_result \<Rightarrow> 'm heartbeat \<Rightarrow> cycle_result \<times> 'm heartbeat" where
  "after_tick res hb =
    (let t = ss_tier (cr_survival res)
     in (if defended t \<and> approved_orders res \<noteq> [] then res\<lparr>approved_orders := []\<rparr> else res, hb\<lparr>hb_last_logged_tier := t\<rparr>))"

partial_function (option) run_loop :: "'m models \<Rightarrow> (nat \<Rightarrow> cycle_input res) \<Rightarrow> generator option \<Rightarrow> int option \<Rightarrow> (nat \<Rightarrow> bool) \<Rightarrow> nat
    \<Rightarrow> cycle_result list \<Rightarrow> 'm heartbeat \<times> tier_world \<Rightarrow> ((unit res \<times> cycle_result list) \<times> 'm heartbeat \<times> tier_world) option" where
  "run_loop ms provider gen max_cycles stopped n rs x =
    (if \<not> hb_running (fst x) then Some ((ok (), rs), x)
     else case provider n of
       Inl e \<Rightarrow> Some ((Inl e, rs), x)
     | Inr inp \<Rightarrow> (case tick_cycle ms inp gen x of
         (Inl e, x1) \<Rightarrow> Some ((Inl e, rs), x1)
       | (Inr res, (hb, w)) \<Rightarrow> (case after_tick res hb of (res1, hb1) \<Rightarrow>
           if (case max_cycles of None \<Rightarrow> False | Some m \<Rightarrow> m \<le> hb_cycles hb1)
           then Some ((ok (), rs @ [res1]), (hb1\<lparr>hb_running := False\<rparr>, w))
           else run_loop ms provider gen max_cycles stopped (n + 1) (rs @ [res1])
             (if stopped n then hb1\<lparr>hb_running := False\<rparr> else hb1, w))))"

definition run_async_loop :: "'m models \<Rightarrow> (nat \<Rightarrow> cycle_input res) \<Rightarrow> generator option \<Rightarrow> int option \<Rightarrow> (nat \<Rightarrow> bool)
    \<Rightarrow> 'm heartbeat \<times> tier_world \<Rightarrow> ((unit res \<times> cycle_result list) \<times> 'm heartbeat \<times> tier_world) option" where
  "run_async_loop ms provider gen max_cycles stopped x = (case x of (hb, w) \<Rightarrow>
     run_loop ms provider gen max_cycles stopped 0 [] (hb\<lparr>hb_running := True\<rparr>, w))"

section \<open>What a cycle keeps\<close>

lemma survive_frame: "survive inp g h e (hb, w) = (r, (hb1, w1)) \<Longrightarrow> \<exists>sv. hb1 = hb\<lparr>hb_survival := sv\<rparr>"
  by (auto simp: survive_def split: prod.splits)

lemma run_model_frame: "run_model f (hb, w) = (r, (hb1, w1)) \<Longrightarrow> w1 = w \<and> (\<exists>m. hb1 = hb\<lparr>hb_models := m\<rparr>)"
  by (auto simp: run_model_def split: prod.splits)

lemma entries_frame: "entries gen prices strat status garch account hb = (r, hb1) \<Longrightarrow> \<exists>eng. hb1 = hb\<lparr>hb_engine := eng\<rparr>"
  by (cases hb) (auto simp: entries_def split: if_splits option.splits prod.splits)

text \<open>A full cycle that returns, taken apart.\<close>

lemma full_cycle_ok:
  assumes "full_cycle ms inp gen prices (hb, w) = (ok res, (hb', w'))"
  obtains hb1 garch hmm status where
    "hb_symbols hb1 = hb_symbols hb" "hb_history hb1 = hb_history hb" "hb_engine hb1 = hb_engine hb"
    "entries gen prices (active_strategy res) status garch (ci_account inp) hb1 = (ok (proposed_signals res, approved_orders res), hb')"
    "cr_survival res = status" "cr_garch res = Some garch" "hb_cycles hb' = hb_cycles hb" "cycle_number res = hb_cycles hb"
    "cr_hmm res = Some hmm"
proof -
  obtain garch hb1 where 1: "run_model (fit_forecast ms prices) (hb, w) = (ok garch, (hb1, w))"
    using assms by (auto simp: full_cycle_def abind_apply split: prod.splits sum.splits dest: run_model_frame)
  obtain hmm hb2 where 2: "run_model (fit_predict ms prices) (hb1, w) = (ok hmm, (hb2, w))"
    using assms by (auto simp: full_cycle_def abind_apply 1 split: prod.splits sum.splits dest: run_model_frame)
  obtain evt hb3 where 3: "run_model (estimate_tail_risk ms prices) (hb2, w) = (ok evt, (hb3, w))"
    using assms by (auto simp: full_cycle_def abind_apply 1 2 split: prod.splits sum.splits dest: run_model_frame)
  obtain status hb4 w4 where 4: "survive inp (Some garch) (Some hmm) (Some evt) (hb3, w) = (ok status, (hb4, w4))"
    using assms by (auto simp: full_cycle_def abind_apply 1 2 3 split: prod.splits sum.splits)
  obtain strat n orders hb5 where 5: "entries gen prices strat status garch (ci_account inp) hb4 = (ok (n, orders), hb5)"
    "res = \<lparr>cycle_number = hb_cycles hb5, cr_survival = status, cr_garch = Some garch,
             cr_hmm = Some hmm, cr_evt = Some evt, active_strategy = strat, proposed_signals = n, approved_orders = orders\<rparr>"
    "hb' = hb5"
    using assms by (auto simp: full_cycle_def abind_apply 1 2 3 4 split: prod.splits sum.splits)
  show ?thesis
    by (rule that [of hb4 status garch hmm])
      (use run_model_frame [OF 1] run_model_frame [OF 2] run_model_frame [OF 3] survive_frame [OF 4] entries_frame [OF 5(1)] 5
        in auto)
qed

lemma tick_cycle_number:
  assumes "tick_cycle ms inp gen (hb, w) = (ok res, (hb', w'))"
  shows "hb_cycles hb' = hb_cycles hb + 1 \<and> cycle_number res = hb_cycles hb + 1"
  using assms
  by (auto simp: tick_cycle_def Let_def warn_insufficient_data_def abind_apply split: if_splits prod.splits sum.splits
      dest: survive_frame elim!: full_cycle_ok)

section \<open>Orders\<close>

text \<open>An order that the risk engine approved for a signal of the generator, with the volatility scale of this cycle.\<close>

definition gated_order :: "generator \<Rightarrow> (string \<Rightarrow> pyfloat) \<Rightarrow> string \<Rightarrow> pyfloat \<Rightarrow> garch_result \<Rightarrow> account_state \<Rightarrow> string \<Rightarrow> approved_order \<Rightarrow> bool" where
  "gated_order gen price strat conf_floor garch account s order \<longleftrightarrow>
    (\<exists>sg eng d eng'. gen s strat (price s) = ok (Some sg) \<and> conf_floor \<le> sg_confidence sg \<and>
      evaluate (scaled_signal garch sg) account eng = (ok d, eng') \<and> dec_approved d \<and> dec_order d = Some order)"

lemma collect_entries_gated:
  "collect_entries gen price strat conf_floor garch account ss n orders eng = (ok (n', orders'), eng') \<Longrightarrow>
    \<exists>new syms. orders' = orders @ new \<and> subseq syms ss \<and> list_all2 (gated_order gen price strat conf_floor garch account) syms new \<and>
      int (length new) \<le> n' - n \<and> n' - n \<le> int (length ss)"
proof (induction gen price strat conf_floor garch account ss n orders eng rule: collect_entries.induct)
  case (2 gen price strat conf_floor garch account s ss n orders eng)
  show ?case
  proof (cases "gen s strat (price s)")
    case (Inr o')
    show ?thesis
    proof (cases o')
      case None
      then have "collect_entries gen price strat conf_floor garch account ss n orders eng = (ok (n', orders'), eng')"
        using 2(4) Inr by simp
      then obtain new syms where "orders' = orders @ new" "subseq syms ss"
        "list_all2 (gated_order gen price strat conf_floor garch account) syms new" "int (length new) \<le> n' - n" "n' - n \<le> int (length ss)"
        using 2(1) [OF Inr None] by blast
      then show ?thesis by (intro exI [of _ new] exI [of _ syms]) (auto intro: list_emb_Cons)
    next
      case (Some sg)
      show ?thesis
      proof (cases "conf_floor \<le> sg_confidence sg")
        case True
        obtain d eng1 where e: "evaluate (scaled_signal garch sg) account eng = (ok d, eng1)"
          using 2(4) Inr Some True by (auto split: prod.splits sum.splits)
        define orders1 where "orders1 = (case dec_order d of Some order \<Rightarrow> if dec_approved d then orders @ [order] else orders | None \<Rightarrow> orders)"
        have "collect_entries gen price strat conf_floor garch account ss (n + 1) orders1 eng1 = (ok (n', orders'), eng')"
          using 2(4) Inr Some True e by (simp add: orders1_def)
        then obtain new syms where new: "orders' = orders1 @ new" "subseq syms ss"
          "list_all2 (gated_order gen price strat conf_floor garch account) syms new" "int (length new) \<le> n' - (n + 1)"
          "n' - (n + 1) \<le> int (length ss)"
          using 2(2) [OF Inr Some True e [symmetric] refl] unfolding orders1_def by blast
        show ?thesis
        proof (cases "\<exists>order. dec_order d = Some order \<and> dec_approved d")
          case True
          then obtain order where o: "dec_order d = Some order" "dec_approved d" by blast
          have "gated_order gen price strat conf_floor garch account s order"
            unfolding gated_order_def using Inr Some \<open>conf_floor \<le> sg_confidence sg\<close> e o by blast
          then show ?thesis using new o
            by (intro exI [of _ "order # new"] exI [of _ "s # syms"]) (auto simp: orders1_def)
        next
          case False
          then have "orders1 = orders" by (auto simp: orders1_def split: option.splits)
          then show ?thesis using new by (intro exI [of _ new] exI [of _ syms]) (auto intro: list_emb_Cons)
        qed
      next
        case False
        then have "collect_entries gen price strat conf_floor garch account ss (n + 1) orders eng = (ok (n', orders'), eng')"
          using 2(4) Inr Some by simp
        then obtain new syms where "orders' = orders @ new" "subseq syms ss"
          "list_all2 (gated_order gen price strat conf_floor garch account) syms new" "int (length new) \<le> n' - (n + 1)"
          "n' - (n + 1) \<le> int (length ss)"
          using 2(3) [OF Inr Some False] by blast
        then show ?thesis by (intro exI [of _ new] exI [of _ syms]) (auto intro: list_emb_Cons)
      qed
    qed
  qed (use 2 in auto)
qed auto

text \<open>C21: No order of a cycle bypasses the gates: its orders are, in the order of the symbols and at most one for each, orders
  the risk engine approved for signals the generator proposed for that symbol, with a confidence of at least the floor of the survival
  status and scaled by this cycle's volatility factor; there are none while the automaton is in survival or cooldown, none without the
  models' results, and never more than proposals.\<close>

theorem cycle_orders_are_gated:
  assumes "tick_cycle ms inp (Some gen) (hb, w) = (ok res, x)" "approved_orders res \<noteq> []"
  shows "\<exists>garch prices syms. cr_garch res = Some garch \<and> prices = history_of hb (primary_symbol hb) \<and>
    hb_min_buffer hb \<le> int (length prices) \<and>
    ss_tier (cr_survival res) \<in> {SvNORMAL, SvCAUTION} \<and> allow_new_entries (cr_survival res) \<and>
    subseq syms (hb_symbols hb) \<and> list_all2 (gated_order gen (current_price hb prices) (active_strategy res)
      (min_confidence_floor (cr_survival res)) garch (ci_account inp)) syms (approved_orders res) \<and>
    int (length (approved_orders res)) \<le> proposed_signals res \<and> proposed_signals res \<le> int (length (hb_symbols hb))"
proof -
  obtain hb' w' where x: "x = (hb', w')" by force
  define hb0 where "hb0 = warn_insufficient_data (hb\<lparr>hb_cycles := hb_cycles hb + 1\<rparr>)"
  have h0: "hb_symbols hb0 = hb_symbols hb" "hb_history hb0 = hb_history hb" "hb_min_buffer hb0 = hb_min_buffer hb"
    by (simp_all add: hb0_def warn_insufficient_data_def)
  define prices where "prices = history_of hb (primary_symbol hb)"
  have p: "history_of hb0 (primary_symbol hb0) = prices" by (simp add: prices_def history_of_def primary_symbol_def h0)
  have enough: "hb_min_buffer hb \<le> int (length prices)"
    using assms by (auto simp: tick_cycle_def hb0_def [symmetric] p h0 Let_def abind_apply split: if_splits prod.splits sum.splits)
  have "full_cycle ms inp (Some gen) prices (hb0, w) = (ok res, (hb', w'))"
    using assms(1) enough by (simp add: tick_cycle_def hb0_def [symmetric] p h0 Let_def x)
  then obtain hb1 :: "'a heartbeat" and garch where r: "hb_symbols hb1 = hb_symbols hb" "hb_history hb1 = hb_history hb"
    "entries (Some gen) prices (active_strategy res) (cr_survival res) garch (ci_account inp) hb1 =
      (ok (proposed_signals res, approved_orders res), hb')"
    "cr_garch res = Some garch" using h0 by (elim full_cycle_ok) auto
  have e: "\<not> defended (ss_tier (cr_survival res))" "allow_new_entries (cr_survival res)"
    using r(3) assms(2) by (auto simp: entries_def split: if_splits)
  have "current_price hb1 prices = current_price hb prices" by (rule ext) (simp add: current_price_def r(2))
  then obtain eng where "collect_entries gen (current_price hb prices) (active_strategy res) (min_confidence_floor (cr_survival res))
      garch (ci_account inp) (hb_symbols hb) 0 [] (hb_engine hb1) = (ok (proposed_signals res, approved_orders res), eng)"
    using r(1,3) e by (auto simp: entries_def split: prod.splits)
  from collect_entries_gated [OF this] obtain syms where "subseq syms (hb_symbols hb)"
    "list_all2 (gated_order gen (current_price hb prices) (active_strategy res)
      (min_confidence_floor (cr_survival res)) garch (ci_account inp)) syms (approved_orders res)"
    "int (length (approved_orders res)) \<le> proposed_signals res" "proposed_signals res \<le> int (length (hb_symbols hb))" by auto
  moreover have "ss_tier (cr_survival res) \<in> {SvNORMAL, SvCAUTION}" using e(1) by (cases "ss_tier (cr_survival res)") (auto simp: defended_def)
  ultimately show ?thesis using r(4) e(2) enough prices_def by blast
qed

section \<open>The loop ends\<close>

lemma run_loop_ends:
  assumes "hb_running (fst x)" "m - hb_cycles (fst x) \<le> int k"
  shows "\<exists>y. run_loop ms provider gen (Some m) stopped n rs x = Some y \<and> length (snd (fst y)) \<le> length rs + max 1 k \<and>
    \<not> (fst (fst y) = ok () \<and> hb_running (fst (snd y)))"
  using assms
proof (induction k arbitrary: n rs x)
  case 0
  show ?case
    by (subst run_loop.simps, cases x)
      (use 0 in \<open>auto simp: after_tick_def Let_def split: sum.splits prod.splits dest!: tick_cycle_number\<close>)
next
  case (Suc k)
  show ?case
  proof (cases "provider n")
    case (Inl e)
    then show ?thesis using Suc.prems by (subst run_loop.simps) simp
  next
    case (Inr inp)
    obtain r x1 where Pair: "tick_cycle ms inp gen x = (r, x1)" by (cases "tick_cycle ms inp gen x") blast
      show ?thesis
      proof (cases r)
        case (Inl e)
        then show ?thesis using Suc.prems Pair \<open>provider n = Inr inp\<close> by (subst run_loop.simps) simp
      next
        case r: (Inr res)
        obtain hb w where x1: "x1 = (hb, w)" by force
        obtain res1 hb1 where t: "after_tick res hb = (res1, hb1)" by force
        have c: "hb_cycles hb1 = hb_cycles (fst x) + 1"
          using tick_cycle_number [of ms inp gen "fst x" "snd x" res hb w] Pair r x1 t by (auto simp: after_tick_def Let_def)
        show ?thesis
        proof (cases "m \<le> hb_cycles hb1")
          case True
          then show ?thesis using Suc.prems(1) Pair r x1 t \<open>provider n = Inr inp\<close> by (subst run_loop.simps) simp
        next
          case False
          define hb2 where "hb2 = (if stopped n then hb1\<lparr>hb_running := False\<rparr> else hb1)"
          have step: "run_loop ms provider gen (Some m) stopped n rs x =
              run_loop ms provider gen (Some m) stopped (n + 1) (rs @ [res1]) (hb2, w)"
            using Suc.prems(1) Pair r x1 t False \<open>provider n = Inr inp\<close> by (subst run_loop.simps) (simp add: hb2_def)
          show ?thesis
          proof (cases "hb_running hb2")
            case True
            have "m - hb_cycles hb2 \<le> int k" using Suc.prems(2) c by (simp add: hb2_def)
            moreover have "max 1 k \<le> k"
              using False Suc.prems(2) c \<open>m - hb_cycles hb2 \<le> int k\<close> by (auto simp: hb2_def)
            ultimately show ?thesis using Suc.IH [of "(hb2, w)" "n + 1" "rs @ [res1]"] True by (fastforce simp: step)
          next
            case False
            then show ?thesis unfolding step by (subst run_loop.simps) simp
          qed
        qed
      qed
  qed
qed

section \<open>A sample cycle\<close>

definition calm_garch :: garch_result where
  "calm_garch = \<lparr>conditional_volatility = 0, garch_high_volatility = False, volatility_scale_factor = 1\<rparr>"

definition calm_hmm :: hmm_full where
  "calm_hmm = \<lparr>current_regime = ''trending_bull'', hmm_high_volatility = False, provenance = ''fallback'', state_probabilities = []\<rparr>"

definition calm_evt :: evt_result where
  "calm_evt = \<lparr>cvar_99 = 0, recommended_risk_scale = 1\<rparr>"

definition calm_models :: "unit models" where
  "calm_models = \<lparr>fit_forecast = (\<lambda>_ m. (ok calm_garch, m)), fit_predict = (\<lambda>_ m. (ok calm_hmm, m)),
     estimate_tail_risk = (\<lambda>_ m. (ok calm_evt, m))\<rparr>"

definition calm_account :: account_state where
  "calm_account = demo_account\<lparr>peak_equity := 0\<rparr>"

definition calm_input :: cycle_input where
  "calm_input = \<lparr>ci_up = True, ci_account = calm_account, ci_exp = (\<lambda>_. ok 1), ci_draw = 0\<rparr>"

definition calm_heartbeat :: "unit heartbeat" where
  "calm_heartbeat = \<lparr>hb_symbols = [''BTC/USDT''], hb_engine = demo_engine, hb_survival = sample_survival,
     hb_last_logged_tier = SvNORMAL, hb_min_buffer = 1, hb_data_warned = {}, hb_models = (), hb_graph = empty_graph,
     hb_bandit = demo_bandit, hb_running = False, hb_cycles = 0, hb_history = [(''BTC/USDT'', [Fin 100])]\<rparr>"

definition calm_generator :: generator where
  "calm_generator s strat price = ok (Some demo_signal)"

lemma calm_raw: "raw_status demo_config calm_account (Some calm_garch) (Some (hmm_result.truncate calm_hmm)) (Some calm_evt) None =
    ok (mk_status SvNORMAL 1 True (fl (55/100)) ''trending_bull'' (fl (4/100)) (Some calm_garch)
      (Some (hmm_result.truncate calm_hmm)) (Some calm_evt) Nominal)"
  by (simp add: raw_status_def epsilon_flips_def drawdown_flip_def daily_loss_flip_def calm_account_def demo_account_def
      demo_config_def calm_garch_def calm_hmm_def calm_evt_def sv_drawdown_def max_losses_def hmm_result.defs scaled_multiplier_def
      pymin_def minus_pyfloat_def Let_def fl_eval float_eval zero_Fin one_Fin)

lemma calm_checks: "risk_checks demo_config (scaled_signal calm_garch demo_signal) calm_account = ok (Sized (Fin (125/4)) (Fin (1/64)))"
  by (simp add: checks_eval scaled_signal_def calm_garch_def calm_account_def demo_signal_def demo_account_def demo_config_def pymin_def
    minus_pyfloat_def fsum_def feq_def fl_eval float_eval zero_Fin one_Fin)

lemma calm_evaluate: "\<exists>d eng'. evaluate (scaled_signal calm_garch demo_signal) calm_account demo_engine = (ok d, eng') \<and> dec_approved d \<and>
    (\<exists>order. dec_order d = Some order \<and> ao_position_size order = Fin (125/4))"
  using calm_checks
  by (simp add: evaluate_def demo_engine_def new_engine_def step_for_def approve_quantized_def
      build_order_ok approve_def demo_signal_def scaled_signal_def)

lemma calm_settled: "day_start_settled_equity calm_account = None"
  by (simp add: calm_account_def demo_account_def)

lemma calm_survive: "\<exists>st sv w. evaluate_survival_status True calm_account (Some calm_garch) (Some (hmm_result.truncate calm_hmm))
    (Some calm_evt) (sample_survival, empty_world) = (ok st, (sv, w)) \<and> ss_tier st = SvNORMAL \<and> allow_new_entries st \<and>
    min_confidence_floor st = fl (55/100)"
  by (simp add: evaluate_survival_status_def sample_survival_def fresh_state_def current_survival_tier_def
      tier_of_value_def TIER_ORDER_def UNKNOWN_TIER_def calm_raw hysteresis_def mk_status_def Let_def tier_template_def calm_settled)

lemma calm_strategy: "select_strategy (\<lambda>_. ok 1) None False 0 demo_bandit = ok ''t''"
  by (simp add: select_strategy_def get_action_probabilities_def demo_bandit_def key_of_def fsum_def ftruth_def is_finite_def Let_def
      minus_pyfloat_def fl_eval float_eval zero_Fin one_Fin)

lemma calm_tick: "\<exists>res x. tick_cycle calm_models calm_input (Some calm_generator) (calm_heartbeat, empty_world) = (ok res, x) \<and>
    map ao_position_size (approved_orders res) = [Fin (125/4)]"
proof -
  obtain st sv w where e: "evaluate_survival_status True calm_account (Some calm_garch) (Some (hmm_result.truncate calm_hmm))
    (Some calm_evt) (sample_survival, empty_world) = (ok st, (sv, w))" "ss_tier st = SvNORMAL" "allow_new_entries st"
    "min_confidence_floor st = fl (55/100)"
    using calm_survive by blast
  obtain d eng' order where d: "evaluate (scaled_signal calm_garch demo_signal) calm_account demo_engine = (ok d, eng')" "dec_approved d"
    "dec_order d = Some order" "ao_position_size order = Fin (125/4)"
    using calm_evaluate by blast
  have b: "bandit_context calm_hmm = None" by (simp add: bandit_context_def calm_hmm_def)
  have c: "fl (11/20) \<le> sg_confidence demo_signal" by (simp add: demo_signal_def fl_eval float_eval)
  show ?thesis
    by (simp add: tick_cycle_def calm_heartbeat_def warn_insufficient_data_def history_of_def primary_symbol_def dget_or_def Let_def
        full_cycle_def abind_apply run_model_def calm_models_def survive_def calm_input_def e b
        calm_strategy entries_def defended_def calm_generator_def c d)
qed

theorem cycle_orders_are_gated_witness:
  "\<exists>res x. tick_cycle calm_models calm_input (Some calm_generator) (calm_heartbeat, empty_world) = (ok res, x) \<and>
    length (approved_orders res) = 1 \<and> allow_new_entries (cr_survival res) \<and> subseq [''BTC/USDT''] (hb_symbols calm_heartbeat) \<and>
    proposed_signals res = 1"
proof -
  obtain res x where t: "tick_cycle calm_models calm_input (Some calm_generator) (calm_heartbeat, empty_world) = (ok res, x)"
    "map ao_position_size (approved_orders res) = [Fin (125/4)]"
    using calm_tick by (elim exE conjE) (rule that)
  have "approved_orders res \<noteq> []" "length (approved_orders res) = 1" using t(2) by auto
  then show ?thesis using cycle_orders_are_gated [OF t(1)] t(1) by (auto simp: calm_heartbeat_def)
qed

text \<open>The loop ends: with a bound on the cycles the daemon's loop returns, whatever its inputs are and whatever they raise,
  after at most as many cycles as the bound leaves, and at least one; when it returns normally it is no longer running.\<close>

theorem bounded_loop_ends:
  "\<exists>r log hb' w'. run_async_loop ms provider gen (Some m) stopped (hb, w) = Some ((r, log), (hb', w')) \<and>
    int (length log) \<le> max 1 (m - hb_cycles hb) \<and> (if r = ok () then \<not> hb_running hb' else True)"
proof -
  have "m - hb_cycles (fst (hb\<lparr>hb_running := True\<rparr>, w)) \<le> int (nat (m - hb_cycles hb))" by simp
  then obtain y where y: "run_loop ms provider gen (Some m) stopped 0 [] (hb\<lparr>hb_running := True\<rparr>, w) = Some y"
    "length (snd (fst y)) \<le> max 1 (nat (m - hb_cycles hb))" "\<not> (fst (fst y) = ok () \<and> hb_running (fst (snd y)))"
    using run_loop_ends [of "(hb\<lparr>hb_running := True\<rparr>, w)" m "nat (m - hb_cycles hb)" ms provider gen stopped 0 "[]"] by auto
  obtain r log hb' w' where "y = ((r, log), (hb', w'))" by (metis surj_pair)
  then show ?thesis using y by (auto simp: run_async_loop_def)
qed

text \<open>A closed trade of a strategy the allocator does not know is in the graph although the call raises.\<close>

lemma reflection_of_unknown_strategy:
  assumes "bandit_ok (hb_bandit hb)" "strategy \<notin> set (strategies (hb_bandit hb))"
    "record_closed_trade_reflection ex now stamp uid i sy strategy reg r p en xt hb = (q, hb')"
  shows "q = raise (ValueError ''Unknown action'') \<and> hb_bandit hb' = hb_bandit hb \<and>
    dget (mg_nodes (hb_graph hb')) (''result'', i) \<noteq> None"
proof -
  obtain mu s2 where "posterior_of p = ok (mu, s2)" using posterior_ok by blast
  then show ?thesis using assms
    by (auto simp: record_closed_trade_reflection_def add_trade_def Let_def pnl_of_def trade_id_of_def update_from_trade_def
        validate_action_def bandit_ok_def add_edge_def add_node_def dict_simps split: sum.splits prod.splits)
qed

end
