(* ===== verification/Strategies.thy ===== *)
theory Strategies
  imports Shadow
begin

text \<open>
  \<open>indicators.py\<close>, \<open>strategy/trend.py\<close>, \<open>strategy/crypto.py\<close>, \<open>backtest/strategies.py\<close> and
  \<open>backtest/impact.py\<close>: candles, the volatility indicators and the signal generators, with the two
  functions of \<open>statistics\<close> they use.  \<open>math.log\<close>, \<open>statistics.correlation\<close>, the draws of the random
  generator and the text of a rationale are parameters.
\<close>

section \<open>Statistics\<close>

definition fin_part :: "pyfloat \<Rightarrow> rat" where
  "fin_part x = (case x of Fin a \<Rightarrow> a | _ \<Rightarrow> 0)"

definition rat_sum :: "pyfloat list \<Rightarrow> rat" where
  "rat_sum xs = sum_list (map fin_part xs)"

text \<open>\<open>statistics.mean\<close>: the exact mean rounded once; values that are not finite decide alone.\<close>

definition smean :: "pyfloat list \<Rightarrow> pyfloat res" where
  "smean xs = (if xs = [] then raise (ValueError ''mean requires at least one data point'')
     else if list_all is_finite xs then ok (fl (rat_sum xs / of_nat (length xs)))
     else fdiv (foldl (+) 0 (filter (\<lambda>x. \<not> is_finite x) xs)) (float_of_int (int (length xs))))"

text \<open>\<open>statistics.pstdev\<close>: the correctly rounded root of the exact variance; Python 3.12 fails on values that
  are not finite.\<close>

definition variance :: "pyfloat list \<Rightarrow> rat" where
  "variance xs = (let m = rat_sum xs / of_nat (length xs)
     in sum_list (map (\<lambda>x. (fin_part x - m) * (fin_part x - m)) xs) / of_nat (length xs))"

definition pstdev :: "pyfloat list \<Rightarrow> pyfloat res" where
  "pstdev xs = (if xs = [] then raise (ValueError ''pstdev requires at least one data point'')
     else if list_all is_finite xs then fsqrt (Fin (variance xs))
     else raise (AttributeError ''numerator''))"

section \<open>Candles\<close>

record candle =
  cd_ts :: int
  cd_open :: pyfloat
  cd_high :: pyfloat
  cd_low :: pyfloat
  cd_close :: pyfloat
  cd_volume :: pyfloat

text \<open>\<open>xs[-n:]\<close> and \<open>xs[-a:-b]\<close> for \<open>a >= b\<close>.\<close>

definition last_n :: "nat \<Rightarrow> 'a list \<Rightarrow> 'a list" where
  "last_n n xs = (if n = 0 then xs else drop (length xs - n) xs)"

definition back_slice :: "nat \<Rightarrow> nat \<Rightarrow> 'a list \<Rightarrow> 'a list" where
  "back_slice a b xs = (if b = 0 then [] else drop (length xs - a) (take (length xs - b) xs))"

section \<open>Indicators\<close>

definition true_range :: "candle \<times> candle \<Rightarrow> pyfloat" where
  "true_range pc = (case pc of (prev, cur) \<Rightarrow>
     pymax (pymax (cd_high cur - cd_low cur) \<bar>cd_high cur - cd_close prev\<bar>) \<bar>cd_low cur - cd_close prev\<bar>)"

definition atr :: "candle list \<Rightarrow> nat \<Rightarrow> pyfloat option res" where
  "atr candles period =
    (if length candles < period + 1 then ok None
     else rbind (fdiv (fsum (map true_range (zip (back_slice (period + 1) 1 candles) (last_n period candles))))
         (float_of_int (int period))) (\<lambda>a. ok (Some a)))"

text \<open>\<open>max\<close> and \<open>min\<close> over the window; the window is empty only for no candles and no lookback.\<close>

definition donchian :: "candle list \<Rightarrow> nat \<Rightarrow> (pyfloat \<times> pyfloat) option res" where
  "donchian candles lookback =
    (if length candles < lookback then ok None
     else (case last_n lookback candles of
         [] \<Rightarrow> raise (ValueError ''max() arg is an empty sequence'')
       | c # cs \<Rightarrow> ok (Some (foldl pymax (cd_high c) (map cd_high cs), foldl pymin (cd_low c) (map cd_low cs)))))"

text \<open>The closes strictly before a time, by timestamp: a later candle of the same time wins.\<close>

definition closes_before :: "int \<Rightarrow> candle list \<Rightarrow> (int, pyfloat) dict" where
  "closes_before as_of candles =
    foldl (\<lambda>d c. if cd_ts c < as_of then dset (cd_ts c) (cd_close c) d else d) [] candles"

definition log_returns :: "(pyfloat \<Rightarrow> pyfloat res) \<Rightarrow> pyfloat list \<Rightarrow> pyfloat list res" where
  "log_returns logf xs = foldr (\<lambda>(x, y) r. rbind (rbind (fdiv y x) logf) (\<lambda>l. rbind r (\<lambda>ls. ok (l # ls)))) (zip xs (tl xs)) (ok [])"

definition common_times :: "(int, pyfloat) dict \<Rightarrow> (int, pyfloat) dict \<Rightarrow> nat \<Rightarrow> int list" where
  "common_times a b n = last_n n (sorted_list_of_set (set (dkeys a) \<inter> set (dkeys b)))"

text \<open>\<open>corr\<close> is \<open>statistics.correlation\<close>, \<open>None\<close> where it raises \<open>StatisticsError\<close>.\<close>

definition log_return_correlation :: "(pyfloat \<Rightarrow> pyfloat res) \<Rightarrow> (pyfloat list \<Rightarrow> pyfloat list \<Rightarrow> pyfloat option)
    \<Rightarrow> nat \<Rightarrow> nat \<Rightarrow> candle list \<Rightarrow> candle list \<Rightarrow> int \<Rightarrow> pyfloat option res" where
  "log_return_correlation logf corr lookback min_overlap a b as_of =
    (let ca = closes_before as_of a; cb = closes_before as_of b; ts = common_times ca cb (lookback + 1)
     in if length ts < 2 then ok None
        else rbind (log_returns logf (map (\<lambda>t. dget_or ca t 0) ts)) (\<lambda>ra.
          rbind (log_returns logf (map (\<lambda>t. dget_or cb t 0) ts)) (\<lambda>rb.
            if length ra < min_overlap then ok None else ok (corr ra rb))))"

section \<open>Trend following\<close>

record trend_params =
  entry_lookback :: nat
  tp_atr_period :: nat
  tp_stop_mult :: pyfloat
  tp_target_mult :: pyfloat

definition default_trend :: trend_params where
  "default_trend = \<lparr>entry_lookback = 55, tp_atr_period = 14, tp_stop_mult = fl 2, tp_target_mult = fl 6\<rparr>"

definition mk_signal :: "string \<Rightarrow> datetime \<Rightarrow> side \<Rightarrow> pyfloat \<Rightarrow> pyfloat \<Rightarrow> string \<Rightarrow> pyfloat \<Rightarrow> pyfloat \<Rightarrow> signal" where
  "mk_signal asset now sd price conf why stop target = \<lparr>sg_asset = asset, sg_asset_class = ''crypto'', sg_side = sd,
     sg_entry_price = price, sg_confidence = conf, sg_timestamp = now, sg_rationale = why, sg_suggested_stop = Some stop,
     sg_suggested_target = Some target, sg_garch_vol_scale = None\<rparr>"

text \<open>The side of a breakout, its stop, its target and the level it broke.\<close>

definition breakout :: "trend_params \<Rightarrow> pyfloat \<Rightarrow> pyfloat \<Rightarrow> pyfloat \<Rightarrow> pyfloat \<Rightarrow> (side \<times> pyfloat \<times> pyfloat \<times> pyfloat) option" where
  "breakout p price high low d =
    (if high < price then Some (LONG, price - tp_stop_mult p * d, price + tp_target_mult p * d, high)
     else if price < low then Some (SHORT, price + tp_stop_mult p * d, price - tp_target_mult p * d, low)
     else None)"

definition generate_trend_signal :: "trend_params \<Rightarrow> (pyfloat list \<Rightarrow> string) \<Rightarrow> candle list \<Rightarrow> string \<Rightarrow> datetime \<Rightarrow> signal option res" where
  "generate_trend_signal p why candles asset now =
    (if length candles < max (entry_lookback p + 1) (tp_atr_period p + 1) then ok None
     else rbind (donchian (butlast candles) (entry_lookback p)) (\<lambda>channel. case channel of
         None \<Rightarrow> ok None
       | Some (high, low) \<Rightarrow> rbind (atr candles (tp_atr_period p)) (\<lambda>dist. case dist of
           None \<Rightarrow> ok None
         | Some d \<Rightarrow>
             if feq d 0 then ok None
             else (let price = cd_close (last candles) in
               case breakout p price high low d of
                 None \<Rightarrow> ok None
               | Some (sd, stop, target, breached) \<Rightarrow> rbind (fdiv \<bar>price - breached\<bar> d) (\<lambda>excursion.
                   ok (Some (mk_signal asset now sd price (pymin excursion 1) (why [price, low, high, excursion]) stop target)))))))"

section \<open>Mean reversion\<close>

fun wilder :: "nat \<Rightarrow> pyfloat list \<Rightarrow> pyfloat \<times> pyfloat \<Rightarrow> (pyfloat \<times> pyfloat) res" where
  "wilder period [] gl = ok gl"
| "wilder period (d # ds) gl =
    (let n = float_of_int (int period); k = float_of_int (int period - 1) in
     rbind (fdiv (fst gl * k + (if 0 < d then d else 0)) n) (\<lambda>g.
     rbind (fdiv (snd gl * k + (if d < 0 then - d else 0)) n) (\<lambda>l. wilder period ds (g, l))))"

definition rsi :: "pyfloat list \<Rightarrow> nat \<Rightarrow> pyfloat res" where
  "rsi closes period =
    (if period = 0 \<or> length closes < period + 1 then ok NaN
     else (let deltas = map (\<lambda>(x, y). y - x) (zip closes (tl closes)); seed = take period deltas; n = float_of_int (int period) in
       rbind (fdiv (fsum (filter (\<lambda>d. 0 < d) seed)) n) (\<lambda>g0.
       rbind (fdiv (fsum (map uminus (filter (\<lambda>d. d < 0) seed))) n) (\<lambda>l0.
       rbind (wilder period (drop period deltas) (g0, l0)) (\<lambda>(g, l).
         if feq l 0 then ok (fl 100)
         else rbind (fdiv g l) (\<lambda>rs. rbind (fdiv (fl 100) (1 + rs)) (\<lambda>q. ok (fl 100 - q))))))))"

record reversion_params =
  window :: nat
  z_threshold :: pyfloat
  rp_atr_period :: nat
  rp_stop_mult :: pyfloat
  trend_window :: nat
  trend_lookback :: nat
  trend_strength_threshold :: pyfloat
  rsi_period :: nat
  rsi_oversold :: pyfloat
  rsi_overbought :: pyfloat

definition default_reversion :: reversion_params where
  "default_reversion = \<lparr>window = 20, z_threshold = fl 2, rp_atr_period = 14, rp_stop_mult = fl (15/10), trend_window = 100,
     trend_lookback = 20, trend_strength_threshold = fl (8/1000), rsi_period = 14, rsi_oversold = fl 30, rsi_overbought = fl 70\<rparr>"

text \<open>The side and the stop of a deviation that passed the filters, unless the RSI disagrees.\<close>

definition fade :: "reversion_params \<Rightarrow> pyfloat \<Rightarrow> pyfloat \<Rightarrow> pyfloat \<Rightarrow> pyfloat \<Rightarrow> (side \<times> pyfloat) option" where
  "fade p z r price gap =
    (if z \<le> - z_threshold p then (if rsi_oversold p \<le> r then None else Some (LONG, price - gap))
     else if r \<le> rsi_overbought p then None else Some (SHORT, price + gap))"

definition reversion_entry :: "reversion_params \<Rightarrow> (pyfloat list \<Rightarrow> string) \<Rightarrow> candle list \<Rightarrow> string \<Rightarrow> datetime
    \<Rightarrow> pyfloat \<Rightarrow> pyfloat \<Rightarrow> pyfloat \<Rightarrow> signal option res" where
  "reversion_entry p why candles asset now mn z slope =
    rbind (atr candles (rp_atr_period p)) (\<lambda>dist. case dist of
      None \<Rightarrow> ok None
    | Some d0 \<Rightarrow>
        if feq d0 0 then ok None
        else rbind (rsi (map cd_close candles) (rsi_period p)) (\<lambda>r.
          if is_nan r then ok None
          else (let price = cd_close (last candles) in
            case fade p z r price (d0 * rp_stop_mult p) of
              None \<Rightarrow> ok None
            | Some (sd, stop) \<Rightarrow> rbind (fdiv \<bar>z\<bar> (z_threshold p * fl 2)) (\<lambda>c.
                ok (Some (mk_signal asset now sd price (pymin c 1) (why [z, mn, slope, r]) stop mn))))))"

definition generate_signal :: "reversion_params \<Rightarrow> (pyfloat list \<Rightarrow> string) \<Rightarrow> candle list \<Rightarrow> string \<Rightarrow> datetime \<Rightarrow> signal option res" where
  "generate_signal p why candles asset now =
    (if length candles < Max {window p + 1, trend_window p + trend_lookback p, rsi_period p + 1, rp_atr_period p + 1} then ok None
     else (let closes = map cd_close candles; lookback = back_slice (window p + 1) 1 closes; price = last closes in
       rbind (smean lookback) (\<lambda>mn. rbind (pstdev lookback) (\<lambda>sd.
         if feq sd 0 then ok None
         else rbind (fdiv (price - mn) sd) (\<lambda>z.
           if \<bar>z\<bar> < z_threshold p then ok None
           else rbind (smean (last_n (trend_window p) closes)) (\<lambda>trend_now.
             rbind (smean (back_slice (trend_window p + trend_lookback p) (trend_lookback p) closes)) (\<lambda>trend_prior.
             rbind (fdiv (trend_now - trend_prior) trend_prior) (\<lambda>slope.
               if trend_strength_threshold p < \<bar>slope\<bar> then ok None
               else reversion_entry p why candles asset now mn z slope))))))))"

section \<open>Synthetic candles and the momentum strategy\<close>

text \<open>A random walk from the draws of \<open>rng.uniform\<close>.\<close>

fun synthetic_candles :: "int \<Rightarrow> pyfloat \<Rightarrow> pyfloat list \<Rightarrow> candle list" where
  "synthetic_candles ts price [] = []"
| "synthetic_candles ts price (change # ds) =
    (let close = price * (1 + change) in
     \<lparr>cd_ts = ts, cd_open = price, cd_high = price * (1 + pymax change 0 + fl (5/1000)),
      cd_low = price * (1 + pymin change 0 - fl (5/1000)), cd_close = close, cd_volume = 0\<rparr> # synthetic_candles (ts + 60000) close ds)"

definition generate_synthetic_candles :: "pyfloat \<Rightarrow> pyfloat list \<Rightarrow> candle list" where
  "generate_synthetic_candles start_price draws = synthetic_candles 1672531200000 start_price draws"

definition momentum_strategy :: "pyfloat \<Rightarrow> pyfloat \<Rightarrow> pyfloat \<Rightarrow> candle list \<Rightarrow> string \<Rightarrow> datetime \<Rightarrow> signal option res" where
  "momentum_strategy target_mult stop_pct conf candles asset now =
    (if length candles < 2 then ok None
     else (let prev_close = cd_close (candles ! (length candles - 2)); cur_open = cd_open (last candles);
               dir = (if prev_close < cur_open then LONG else SHORT);
               stop = (if dir = LONG then cur_open * (1 - stop_pct) else cur_open * (1 + stop_pct));
               target = (if dir = LONG then cur_open * (1 + target_mult) else cur_open * (1 - target_mult))
           in ok (Some (mk_signal asset now dir cur_open conf ''momentum'' stop target))))"

definition apply_market_impact :: "pyfloat \<Rightarrow> pyfloat \<Rightarrow> pyfloat \<Rightarrow> pyfloat \<Rightarrow> (pyfloat \<times> pyfloat \<times> bool) res" where
  "apply_market_impact order_notional adv_notional sigma max_participation_pct =
     calculate_market_impact order_notional adv_notional sigma (fl (1/2)) max_participation_pct"

section \<open>Lemmas\<close>

lemma atr_None_iff: "atr candles period = ok None \<longleftrightarrow> length candles < period + 1"
  by (auto simp: atr_def rbind_def split: sum.splits)

text \<open>The correlation reads nothing of the time it is asked for or later.\<close>

lemma closes_before_append:
  "\<forall>c \<in> set later. as_of \<le> cd_ts c \<Longrightarrow> closes_before as_of (candles @ later) = closes_before as_of candles"
  by (induction later rule: rev_induct) (auto simp: closes_before_def)

lemma correlation_is_causal:
  assumes "\<forall>c \<in> set la \<union> set lb. as_of \<le> cd_ts c"
  shows "log_return_correlation logf corr n k (a @ la) (b @ lb) as_of = log_return_correlation logf corr n k a b as_of"
  using assms by (simp add: log_return_correlation_def closes_before_append)

text \<open>A trend signal and a mean-reversion signal.\<close>

lemma trend_signal_breaks_channel:
  assumes "generate_trend_signal p why candles asset now = ok (Some sg)"
  obtains high low d where "donchian (butlast candles) (entry_lookback p) = ok (Some (high, low))"
    "atr candles (tp_atr_period p) = ok (Some d)" "\<not> feq d 0" "sg_entry_price sg = cd_close (last candles)"
    "(sg_side sg = LONG \<and> high < sg_entry_price sg \<and> sg_suggested_stop sg = Some (sg_entry_price sg - tp_stop_mult p * d)) \<or>
     (sg_side sg = SHORT \<and> sg_entry_price sg < low \<and> sg_suggested_stop sg = Some (sg_entry_price sg + tp_stop_mult p * d))"
  using assms
  by (auto simp: generate_trend_signal_def rbind_eq_Inr breakout_def Let_def mk_signal_def split: if_splits option.splits)

lemma fl_sign: "fl a < 0 \<Longrightarrow> a < 0" "0 < fl a \<Longrightarrow> 0 < a"
proof -
  have n: "0 \<le> fl a" if "0 \<le> a" using that by (rule fl_nonneg)
  have p: "fl a \<le> 0" if "a \<le> 0" using fl_mono [OF that] by simp
  show "fl a < 0 \<Longrightarrow> a < 0" "0 < fl a \<Longrightarrow> 0 < a"
    using n p le_less_trans_pyfloat [of 0 "fl a" 0] less_le_trans_pyfloat [of 0 "fl a" 0] less_irrefl_pyfloat
    by (meson linorder_not_le)+
qed

lemma minus_sign: "x - y < (0 :: pyfloat) \<Longrightarrow> x < y" "0 < x - y \<Longrightarrow> y < (x :: pyfloat)"
  using fl_sign by (cases x; cases y; fastforce simp: minus_pyfloat_def zero_Fin)+

lemma fdiv_sign: "fdiv x y = ok z \<Longrightarrow> 0 < y \<Longrightarrow> z < 0 \<Longrightarrow> x < 0" "fdiv x y = ok z \<Longrightarrow> 0 < y \<Longrightarrow> 0 < z \<Longrightarrow> 0 < x"
  using fl_sign by (cases x; cases y; fastforce simp: zero_Fin zero_less_divide_iff divide_less_0_iff split: if_splits)+

text \<open>A mean-reversion signal bets on the mean: its target is the mean of the lookback window, its entry is the last close,
  a long lies strictly below the mean with an RSI below the oversold level, a short strictly above it with one above the overbought
  level, and the stop is the scaled true range away.  A NaN deviation, which no filter stops, shows as a NaN confidence.\<close>

theorem reversion_bets_on_the_mean:
  assumes "generate_signal p why candles asset now = ok (Some sg)" "0 < z_threshold p" "sg_confidence sg \<noteq> NaN"
  shows "\<exists>mn r d. smean (back_slice (window p + 1) 1 (map cd_close candles)) = ok mn \<and> sg_suggested_target sg = Some mn \<and>
    sg_entry_price sg = cd_close (last candles) \<and> rsi (map cd_close candles) (rsi_period p) = ok r \<and>
    atr candles (rp_atr_period p) = ok (Some d) \<and>
    (case sg_side sg of
       LONG \<Rightarrow> sg_entry_price sg < mn \<and> \<not> rsi_oversold p \<le> r \<and> sg_suggested_stop sg = Some (sg_entry_price sg - d * rp_stop_mult p)
     | SHORT \<Rightarrow> mn < sg_entry_price sg \<and> \<not> r \<le> rsi_overbought p \<and> sg_suggested_stop sg = Some (sg_entry_price sg + d * rp_stop_mult p))"
proof -
  define closes where "closes = map cd_close candles"
  define price where "price = cd_close (last candles)"
  have ne: "candles \<noteq> []" using assms(1) by (auto simp: generate_signal_def split: if_splits)
  have last: "last closes = price" using ne by (simp add: closes_def price_def last_map)
  obtain mn sd z slope where g: "smean (back_slice (window p + 1) 1 closes) = ok mn" "pstdev (back_slice (window p + 1) 1 closes) = ok sd"
    "\<not> feq sd 0" "fdiv (price - mn) sd = ok z" "\<not> \<bar>z\<bar> < z_threshold p"
    "reversion_entry p why candles asset now mn z slope = ok (Some sg)"
    using assms(1) by (auto simp: generate_signal_def rbind_eq_Inr Let_def closes_def [symmetric] last split: if_splits)
  obtain d r side stop c where e: "atr candles (rp_atr_period p) = ok (Some d)" "rsi closes (rsi_period p) = ok r"
    "fade p z r price (d * rp_stop_mult p) = Some (side, stop)" "fdiv \<bar>z\<bar> (z_threshold p * fl 2) = ok c"
    "sg = mk_signal asset now side price (pymin c 1) (why [z, mn, slope, r]) stop mn"
  proof -
    obtain o' where o: "atr candles (rp_atr_period p) = ok o'" "o' \<noteq> None"
      using g(6) by (fastforce simp: reversion_entry_def rbind_eq_Inr)
    then obtain d where d: "atr candles (rp_atr_period p) = ok (Some d)" by auto
    obtain r where r: "rsi closes (rsi_period p) = ok r" "\<not> is_nan r" "\<not> feq d 0"
      using g(6) by (fastforce simp: reversion_entry_def d rbind_eq_Inr closes_def [symmetric] split: if_splits)
    obtain side stop where f: "fade p z r price (d * rp_stop_mult p) = Some (side, stop)"
      using g(6) r by (cases "fade p z r price (d * rp_stop_mult p)")
        (auto simp: reversion_entry_def d r closes_def [symmetric] price_def [symmetric] Let_def)
    show ?thesis
      using g(6) that [OF d r(1) f] r(2,3)
      by (auto simp: reversion_entry_def d r(1) f closes_def [symmetric] price_def [symmetric] Let_def rbind_eq_Inr)
  qed
  have "0 \<le> sd" using g(2) fsqrt_nonneg [of "Fin (variance (back_slice (window p + 1) 1 closes))" sd]
    by (auto simp: pstdev_def split: if_splits)
  then have sd: "0 < sd" using g(3) by (cases sd) (auto simp: feq_def zero_Fin)
  have "fdiv NaN y = ok c \<Longrightarrow> c = NaN" for y
    by (auto simp: fdiv_NaN_left split: if_splits)
  from this [of "z_threshold p * fl 2"] have z: "z \<noteq> NaN" using e(4) assms(3) by (auto simp: e(5) mk_signal_def pymin_def)
  have t: "- z_threshold p < 0" using assms(2) by (cases "z_threshold p") (auto simp: zero_Fin)
  show ?thesis
  proof (cases "z \<le> - z_threshold p")
    case True
    then have "price < mn" using fdiv_sign(1) [OF g(4) sd] le_less_trans_pyfloat [OF True t] minus_sign by blast
    then show ?thesis using e True g(1) by (auto simp: fade_def mk_signal_def closes_def price_def split: if_splits)
  next
    case False
    have "0 < z" using False g(5) z assms(2) by (cases z; cases "z_threshold p") (auto simp: zero_Fin)
    then have "mn < price" using fdiv_sign(2) [OF g(4) sd] minus_sign by blast
    then show ?thesis using e False g(1) by (auto simp: fade_def mk_signal_def closes_def price_def split: if_splits)
  qed
qed

definition small_params :: reversion_params where
  "small_params = \<lparr>window = 2, z_threshold = 1, rp_atr_period = 1, rp_stop_mult = 1, trend_window = 1, trend_lookback = 1,
     trend_strength_threshold = 1, rsi_period = 1, rsi_oversold = Fin 30, rsi_overbought = Fin 70\<rparr>"

definition flat_candle :: "rat \<Rightarrow> candle" where
  "flat_candle x = \<lparr>cd_ts = 0, cd_open = Fin x, cd_high = Fin x, cd_low = Fin x, cd_close = Fin x, cd_volume = 0\<rparr>"

definition dip :: "candle list" where
  "dip = map flat_candle [10, 12, 8]"

lemma isqrt_square: "isqrt (n * n) = n"
proof (rule ccontr)
  assume "isqrt (n * n) \<noteq> n"
  then consider "isqrt (n * n) + 1 \<le> n" | "n + 1 \<le> isqrt (n * n)" by linarith
  then show False
  proof cases
    case 1
    then show False using mult_le_mono [OF 1 1] isqrt_bounds [of "n * n"] by linarith
  next
    case 2
    then show False using mult_le_mono [OF 2 2] isqrt_bounds [of "n * n"] by (simp add: algebra_simps)
  qed
qed

lemma fsqrt_1: "fsqrt (Fin 1) = ok (Fin 1)"
proof -
  have "ilog2 1 = 0" by (rule ilog2_unique) simp_all
  moreover have "isqrt (nat \<lfloor>1 / 2 powi (- 120) :: rat\<rfloor>) = 2 ^ 60"
    using isqrt_square [of "2 ^ 60"] by (simp add: powi_eval)
  ultimately show ?thesis by (simp add: fsqrt_def Let_def powi_eval fl_eval float_eval)
qed

lemma dip_std: "pstdev [Fin 10, Fin 12] = ok (Fin 1)"
  by (simp add: pstdev_def variance_def rat_sum_def fin_part_def is_finite_def fsqrt_1)

lemma dip_signal: "\<exists>sg. generate_signal small_params (\<lambda>_. []) dip ''A'' 0 = ok (Some sg) \<and> sg_suggested_target sg = Some (Fin 11) \<and>
    sg_side sg = LONG \<and> sg_confidence sg = 1"
proof -
  have l: "smean [Fin 10, Fin 12] = ok (Fin 11)" "smean [Fin 8] = ok (Fin 8)" "smean [Fin 12] = ok (Fin 12)"
    by (simp_all add: smean_def rat_sum_def fin_part_def is_finite_def fl_eval float_eval)
  have r: "rsi [Fin 10, Fin 12, Fin 8] (Suc 0) = ok (Fin 0)"
    by (simp add: rsi_def Let_def fsum_def ftruth_def float_of_int_def minus_pyfloat_def feq_def fl_eval float_eval zero_Fin one_Fin)
  show ?thesis
    by (simp add: generate_signal_def small_params_def dip_def flat_candle_def back_slice_def last_n_def l dip_std r
        reversion_entry_def atr_def true_range_def fade_def mk_signal_def pymin_def pymax_def is_nan_def fsum_def ftruth_def float_of_int_def
        Let_def feq_def minus_pyfloat_def fl_eval float_eval zero_Fin one_Fin)
qed

theorem reversion_bets_on_the_mean_witness:
  "\<exists>sg. generate_signal small_params (\<lambda>_. []) dip ''A'' 0 = ok (Some sg) \<and> sg_suggested_target sg = Some (Fin 11) \<and>
    sg_side sg = LONG \<and> sg_entry_price sg < Fin 11"
proof -
  obtain sg where sg: "generate_signal small_params (\<lambda>_. []) dip ''A'' 0 = ok (Some sg)" "sg_suggested_target sg = Some (Fin 11)"
    "sg_side sg = LONG" "sg_confidence sg = 1"
    using dip_signal by blast
  have "0 < z_threshold small_params" "sg_confidence sg \<noteq> NaN" using sg(4) by (simp_all add: small_params_def zero_Fin one_Fin)
  from reversion_bets_on_the_mean [OF sg(1) this] show ?thesis using sg by auto
qed

text \<open>A NaN close passes the deviation filter and gives a short with a NaN entry and a NaN stop.\<close>

lemma nan_close_is_faded: "fade p NaN r NaN d = (if r \<le> rsi_overbought p then None else Some (SHORT, NaN))"
  by (simp add: fade_def nan_arith)

end
