(* ===== verification/Backtest.thy ===== *)
theory Backtest
  imports Strategies Heartbeat
begin

text \<open>
  \<open>backtest/engine.py\<close>: the single-position replay.  A candle's time in milliseconds is an exact number of microseconds.
  The strategy is a parameter that may raise; identifiers and clock texts of the learning graph are functions of the number of
  trades recorded so far.
\<close>

section \<open>Fills\<close>

record backtest_config =
  slippage_pct :: pyfloat
  commission_pct :: pyfloat
  max_hold_bars :: int
  trail_atr_mult :: "pyfloat option"
  trail_atr_period :: nat

definition default_backtest :: backtest_config where
  "default_backtest = \<lparr>slippage_pct = fl (1/1000), commission_pct = fl (1/1000), max_hold_bars = 24, trail_atr_mult = None,
     trail_atr_period = 14\<rparr>"

definition with_trailing_atr :: "pyfloat \<Rightarrow> nat \<Rightarrow> backtest_config \<Rightarrow> backtest_config" where
  "with_trailing_atr m period cfg = cfg\<lparr>trail_atr_mult := Some m, trail_atr_period := period\<rparr>"

record trade =
  td_asset :: string
  td_side :: side
  td_entry_time :: datetime
  td_exit_time :: datetime
  td_entry_fill :: pyfloat
  td_exit_fill :: pyfloat
  td_stop_price :: pyfloat
  td_target_price :: pyfloat
  td_position_size :: pyfloat
  td_net_pnl :: pyfloat
  td_r_multiple :: pyfloat
  td_exit_reason :: string

record open_trade =
  ot_entry_time :: datetime
  ot_side :: side
  ot_entry_fill :: pyfloat
  ot_stop_price :: pyfloat
  ot_initial_stop_price :: pyfloat
  ot_target_price :: pyfloat
  ot_position_size :: pyfloat
  ot_bars_held :: int

definition apply_slippage :: "pyfloat \<Rightarrow> side \<Rightarrow> bool \<Rightarrow> backtest_config \<Rightarrow> pyfloat" where
  "apply_slippage price sd entering cfg =
    (if (sd = LONG) = entering then price * (1 + slippage_pct cfg) else price * (1 - slippage_pct cfg))"

definition commission :: "pyfloat \<Rightarrow> pyfloat \<Rightarrow> backtest_config \<Rightarrow> pyfloat" where
  "commission fill_price position_size cfg = fill_price * position_size * commission_pct cfg"

definition check_exit :: "side \<Rightarrow> pyfloat \<Rightarrow> pyfloat \<Rightarrow> pyfloat \<Rightarrow> pyfloat \<Rightarrow> (pyfloat \<times> string) option" where
  "check_exit sd stop target high low =
    (let stop_hit = (if sd = LONG then low \<le> stop else stop \<le> high);
         target_hit = (if sd = LONG then target \<le> high else low \<le> target)
     in if stop_hit then Some (stop, ''stop'') else if target_hit then Some (target, ''target'') else None)"

definition check_exit_with_open :: "side \<Rightarrow> pyfloat \<Rightarrow> pyfloat \<Rightarrow> pyfloat \<Rightarrow> pyfloat \<Rightarrow> pyfloat \<Rightarrow> (pyfloat \<times> string) option" where
  "check_exit_with_open sd stop target opn high low =
    (if (if sd = LONG then opn < stop else stop < opn) then Some (opn, ''stop'')
     else check_exit sd stop target high low)"

definition side_sign :: "side \<Rightarrow> pyfloat" where
  "side_sign sd = (if sd = LONG then 1 else - 1)"

definition ot_unrealized :: "'a open_trade_scheme \<Rightarrow> pyfloat \<Rightarrow> pyfloat" where
  "ot_unrealized ot close = side_sign (ot_side ot) * (close - ot_entry_fill ot) * ot_position_size ot"

definition close_trade :: "'a open_trade_scheme \<Rightarrow> pyfloat \<Rightarrow> datetime \<Rightarrow> string \<Rightarrow> string \<Rightarrow> backtest_config \<Rightarrow> (trade \<times> pyfloat) res" where
  "close_trade ot exit_price exit_time reason asset cfg =
    (let exit_fill = apply_slippage exit_price (ot_side ot) False cfg;
         raw_pnl = side_sign (ot_side ot) * (exit_fill - ot_entry_fill ot) * ot_position_size ot;
         fees = commission (ot_entry_fill ot) (ot_position_size ot) cfg + commission exit_fill (ot_position_size ot) cfg;
         net_pnl = raw_pnl - fees;
         risked = ot_position_size ot * \<bar>ot_entry_fill ot - ot_initial_stop_price ot\<bar>
     in rbind (if ftruth risked then fdiv net_pnl risked else ok 0) (\<lambda>r.
       ok (\<lparr>td_asset = asset, td_side = ot_side ot, td_entry_time = ot_entry_time ot, td_exit_time = exit_time,
         td_entry_fill = ot_entry_fill ot, td_exit_fill = exit_fill, td_stop_price = ot_stop_price ot,
         td_target_price = ot_target_price ot, td_position_size = ot_position_size ot, td_net_pnl = net_pnl,
         td_r_multiple = r, td_exit_reason = reason\<rparr>, net_pnl)))"

section \<open>The replay\<close>

record engine_trade = open_trade +
  ot_signal :: signal

type_synonym strategy = "candle list \<Rightarrow> string \<Rightarrow> datetime \<Rightarrow> signal option res"

record graph_env =
  ge_iso :: "datetime \<Rightarrow> string"
  ge_stamp :: "nat \<Rightarrow> string"
  ge_uid :: "nat \<Rightarrow> string"

record replay =
  rp_equity :: pyfloat
  rp_peak :: pyfloat
  rp_curve :: "pyfloat list"
  rp_trades :: "trade list"
  rp_open :: "engine_trade option"
  rp_engine :: engine
  rp_graph :: "mgraph option"

definition datetime_of_ms :: "int \<Rightarrow> datetime" where
  "datetime_of_ms ts = ts * 1000"

definition record_learning_graph :: "graph_env \<Rightarrow> string \<Rightarrow> trade \<Rightarrow> signal \<Rightarrow> replay \<Rightarrow> replay res" where
  "record_learning_graph ge asset t sg st = (case rp_graph st of
     None \<Rightarrow> ok st
   | Some g \<Rightarrow> (case add_trade [] (ge_stamp ge (length (rp_trades st))) (ge_uid ge (length (rp_trades st)))
         (default_args\<lparr>ta_asset := asset, ta_entry_time := Some (ge_iso ge (td_entry_time t)),
           ta_signal := Some (signal_to_dict (ge_iso ge) sg),
           ta_expected := Some [(''target_price'', JNum (td_target_price t)), (''stop_price'', JNum (td_stop_price t))],
           ta_actual_pnl := td_net_pnl t, ta_verdict := td_exit_reason t\<rparr>) g of
       (Inl e, _) \<Rightarrow> Inl e
     | (Inr _, g1) \<Rightarrow> ok (st\<lparr>rp_graph := Some g1\<rparr>)))"

text \<open>Closing the open position: the realized result goes to the equity, the trade to the list and the graph.\<close>

definition settle :: "graph_env \<Rightarrow> backtest_config \<Rightarrow> string \<Rightarrow> engine_trade \<Rightarrow> pyfloat \<Rightarrow> datetime \<Rightarrow> string \<Rightarrow> replay \<Rightarrow> replay res" where
  "settle ge cfg asset ot exit_price now reason st =
    rbind (close_trade ot exit_price now reason asset cfg) (\<lambda>(t, net).
      record_learning_graph ge asset t (ot_signal ot)
        (st\<lparr>rp_equity := rp_equity st + net, rp_trades := rp_trades st @ [t], rp_open := None\<rparr>))"

definition trailed_stop :: "side \<Rightarrow> pyfloat \<Rightarrow> candle \<Rightarrow> pyfloat \<Rightarrow> pyfloat" where
  "trailed_stop sd stop c gap = (if sd = LONG then pymax stop (cd_high c - gap) else pymin stop (cd_low c + gap))"

definition trail_stop :: "backtest_config \<Rightarrow> candle list \<Rightarrow> 'a open_trade_scheme \<Rightarrow> pyfloat res" where
  "trail_stop cfg seen ot = (case trail_atr_mult cfg of
     None \<Rightarrow> ok (ot_stop_price ot)
   | Some m \<Rightarrow> rbind (atr seen (trail_atr_period cfg)) (\<lambda>a. case a of
       None \<Rightarrow> ok (ot_stop_price ot)
     | Some t \<Rightarrow> ok (trailed_stop (ot_side ot) (ot_stop_price ot) (last seen) (m * t))))"

text \<open>The exit of a position on a bar, with the time stop.\<close>

definition exit_or_time :: "backtest_config \<Rightarrow> int \<Rightarrow> pyfloat \<Rightarrow> (pyfloat \<times> string) option \<Rightarrow> (pyfloat \<times> string) option" where
  "exit_or_time cfg held close x = (if x = None \<and> max_hold_bars cfg \<le> held then Some (close, ''time_stop'') else x)"

text \<open>A bar with a position open.\<close>

definition held_bar :: "graph_env \<Rightarrow> backtest_config \<Rightarrow> string \<Rightarrow> candle list \<Rightarrow> engine_trade \<Rightarrow> replay \<Rightarrow> replay res" where
  "held_bar ge cfg asset seen ot0 st =
    (let c = last seen; now = datetime_of_ms (cd_ts c); ot = ot0\<lparr>ot_bars_held := ot_bars_held ot0 + 1\<rparr> in
     case exit_or_time cfg (ot_bars_held ot) (cd_close c)
       (check_exit_with_open (ot_side ot) (ot_stop_price ot) (ot_target_price ot) (cd_open c) (cd_high c) (cd_low c)) of
       Some (price, reason) \<Rightarrow> rbind (settle ge cfg asset ot price now reason st) (\<lambda>st1.
         ok (st1\<lparr>rp_peak := pymax (rp_peak st1) (rp_equity st1), rp_curve := rp_curve st1 @ [rp_equity st1]\<rparr>))
     | None \<Rightarrow> rbind (trail_stop cfg seen ot) (\<lambda>stop.
         ok (st\<lparr>rp_open := Some (ot\<lparr>ot_stop_price := stop\<rparr>),
           rp_curve := rp_curve st @ [rp_equity st + ot_unrealized ot (cd_close c)]\<rparr>)))"

definition opened :: "backtest_config \<Rightarrow> datetime \<Rightarrow> signal \<Rightarrow> approved_order \<Rightarrow> engine_trade" where
  "opened cfg now sg order = \<lparr>ot_entry_time = now, ot_side = ao_side order,
     ot_entry_fill = apply_slippage (ao_entry_price order) (ao_side order) True cfg, ot_stop_price = ao_stop_price order,
     ot_initial_stop_price = ao_stop_price order, ot_target_price = ao_target_price order,
     ot_position_size = ao_position_size order, ot_bars_held = 0, ot_signal = sg\<rparr>"

text \<open>A bar with no position: the strategy and the risk engine.\<close>

definition flat_bar :: "backtest_config \<Rightarrow> account_state \<Rightarrow> strategy \<Rightarrow> string \<Rightarrow> candle list \<Rightarrow> replay \<Rightarrow> replay res" where
  "flat_bar cfg account strat asset seen st =
    (let c = last seen; now = datetime_of_ms (cd_ts c) in
     rbind (strat seen asset now) (\<lambda>signal. case signal of
       None \<Rightarrow> ok (st\<lparr>rp_curve := rp_curve st @ [rp_equity st]\<rparr>)
     | Some sg \<Rightarrow> (case evaluate sg (account\<lparr>equity := rp_equity st, peak_equity := rp_peak st\<rparr>) (rp_engine st) of
         (Inl e, _) \<Rightarrow> Inl e
       | (Inr d, eng) \<Rightarrow> (case (dec_approved d, dec_order d) of
           (True, Some order) \<Rightarrow> (let ot = opened cfg now sg order in
             ok (st\<lparr>rp_engine := eng, rp_open := Some ot, rp_curve := rp_curve st @ [rp_equity st + ot_unrealized ot (cd_close c)]\<rparr>))
         | (True, None) \<Rightarrow> raise (AttributeError ''entry_price'')
         | (False, _) \<Rightarrow> ok (st\<lparr>rp_engine := eng, rp_curve := rp_curve st @ [rp_equity st]\<rparr>)))))"

definition bar :: "graph_env \<Rightarrow> backtest_config \<Rightarrow> account_state \<Rightarrow> strategy \<Rightarrow> string \<Rightarrow> candle list \<Rightarrow> replay \<Rightarrow> replay res" where
  "bar ge cfg account strat asset seen st = (case rp_open st of
     Some ot \<Rightarrow> held_bar ge cfg asset seen ot st | None \<Rightarrow> flat_bar cfg account strat asset seen st)"

definition new_replay :: "account_state \<Rightarrow> engine \<Rightarrow> mgraph option \<Rightarrow> replay" where
  "new_replay account eng graph = \<lparr>rp_equity = equity account, rp_peak = peak_equity account, rp_curve = [equity account],
     rp_trades = [], rp_open = None, rp_engine = eng, rp_graph = graph\<rparr>"

text \<open>The loop: bar \<open>i\<close> sees the candles up to and including its own.\<close>

fun run_bars :: "graph_env \<Rightarrow> backtest_config \<Rightarrow> account_state \<Rightarrow> strategy \<Rightarrow> string \<Rightarrow> candle list \<Rightarrow> nat list \<Rightarrow> replay \<Rightarrow> replay res" where
  "run_bars ge cfg account strat asset candles [] st = ok st"
| "run_bars ge cfg account strat asset candles (i # is) st =
    rbind (bar ge cfg account strat asset (take (Suc i) candles) st) (run_bars ge cfg account strat asset candles is)"

definition end_of_data :: "graph_env \<Rightarrow> backtest_config \<Rightarrow> string \<Rightarrow> candle list \<Rightarrow> replay \<Rightarrow> replay res" where
  "end_of_data ge cfg asset candles st = (case rp_open st of
     None \<Rightarrow> ok st
   | Some ot \<Rightarrow> (let c = last candles in
       rbind (settle ge cfg asset ot (cd_close c) (datetime_of_ms (cd_ts c)) ''end_of_data'' st) (\<lambda>st1.
         ok (st1\<lparr>rp_curve := butlast (rp_curve st1) @ [rp_equity st1]\<rparr>))))"

text \<open>The replay of \<open>run_backtest\<close>; the report is computed from its result, and the graph is flushed.\<close>

definition replay_candles :: "graph_env \<Rightarrow> backtest_config \<Rightarrow> account_state \<Rightarrow> strategy \<Rightarrow> string \<Rightarrow> candle list \<Rightarrow> engine \<Rightarrow> mgraph option
    \<Rightarrow> replay res" where
  "replay_candles ge cfg account strat asset candles eng graph =
    rbind (run_bars ge cfg account strat asset candles [0..<length candles] (new_replay account eng graph))
      (end_of_data ge cfg asset candles)"

section \<open>Folds\<close>

definition split_train_test :: "pyfloat \<Rightarrow> candle list \<Rightarrow> (candle list \<times> candle list) res" where
  "split_train_test train_frac candles =
    rbind (int_of_float (float_of_int (int (length candles)) * train_frac)) (\<lambda>k.
      ok (if 0 \<le> k then (take (nat k) candles, drop (nat k) candles)
          else (take (length candles - nat (- k)) candles, drop (length candles - nat (- k)) candles)))"

definition slice_for_purge_embargo :: "int \<Rightarrow> int \<Rightarrow> candle list \<Rightarrow> candle list" where
  "slice_for_purge_embargo purge_days embargo_days candles =
    (if candles = [] \<or> (purge_days \<le> 0 \<and> embargo_days \<le> 0) then candles
     else filter (\<lambda>c. cd_ts (hd candles) + purge_days * 86400000 \<le> cd_ts c \<and> cd_ts c \<le> cd_ts (last candles) - embargo_days * 86400000) candles)"

section \<open>Exits\<close>

text \<open>Exits are pessimistic: on a bar whose open lies between its low and its high, a long position leaves at its stop
  or below it whenever the bar touches the stop, at the open when the bar opened beyond it, also when the bar touches the
  target as well; it leaves at the target only when the stop is out of the bar's range, and stays only when both are.  A short
  position is the mirror image.\<close>

theorem exits_are_pessimistic:
  assumes "low \<le> opn" "opn \<le> high"
  shows "check_exit_with_open LONG stop target opn high low =
      (if low \<le> stop then Some (pymin stop opn, ''stop'') else if target \<le> high then Some (target, ''target'') else None) \<and>
    check_exit_with_open SHORT stop target opn high low =
      (if stop \<le> high then Some (pymax stop opn, ''stop'') else if low \<le> target then Some (target, ''target'') else None)"
  using assms le_less_trans_pyfloat [of low opn stop] less_le_trans_pyfloat [of stop opn high] less_le_pyfloat
  by (auto simp: check_exit_with_open_def check_exit_def pymin_def pymax_def)

theorem exits_are_pessimistic_witness:
  "check_exit_with_open LONG (Fin 95) (Fin 110) (Fin 90) (Fin 112) (Fin 89) = Some (Fin 90, ''stop'')"
  using exits_are_pessimistic [of "Fin 89" "Fin 90" "Fin 112" "Fin 95" "Fin 110"] by (simp add: pymin_def)

section \<open>The books of a replay\<close>

definition tightened :: "side \<Rightarrow> pyfloat \<Rightarrow> pyfloat \<Rightarrow> bool" where
  "tightened sd initial stop = (stop = initial \<or> (if sd = LONG then initial < stop else stop < initial))"

text \<open>The position comes from an order the risk engine approved, and its stop is the order's or a tighter one.\<close>

definition backed :: "backtest_config \<Rightarrow> account_state \<Rightarrow> side \<Rightarrow> pyfloat \<Rightarrow> pyfloat \<Rightarrow> pyfloat \<Rightarrow> pyfloat \<Rightarrow> bool" where
  "backed cfg account sd fill sz target stop \<longleftrightarrow> (\<exists>sg eq pk eng d eng' order.
     evaluate sg (account\<lparr>equity := eq, peak_equity := pk\<rparr>) eng = (ok d, eng') \<and> dec_approved d \<and> dec_order d = Some order \<and>
     sd = ao_side order \<and> fill = apply_slippage (ao_entry_price order) sd True cfg \<and> sz = ao_position_size order \<and>
     target = ao_target_price order \<and> tightened sd (ao_stop_price order) stop)"

definition trade_ok :: "backtest_config \<Rightarrow> account_state \<Rightarrow> trade \<Rightarrow> bool" where
  "trade_ok cfg account t \<longleftrightarrow> backed cfg account (td_side t) (td_entry_fill t) (td_position_size t) (td_target_price t) (td_stop_price t) \<and>
     td_net_pnl t = side_sign (td_side t) * (td_exit_fill t - td_entry_fill t) * td_position_size t -
       (commission (td_entry_fill t) (td_position_size t) cfg + commission (td_exit_fill t) (td_position_size t) cfg) \<and>
     td_exit_reason t \<in> {''stop'', ''target'', ''time_stop'', ''end_of_data''}"

definition replay_inv :: "backtest_config \<Rightarrow> account_state \<Rightarrow> nat \<Rightarrow> replay \<Rightarrow> bool" where
  "replay_inv cfg account n st \<longleftrightarrow>
    rp_equity st = foldl (+) (equity account) (map td_net_pnl (rp_trades st)) \<and> length (rp_curve st) = n + 1 \<and>
    list_all (trade_ok cfg account) (rp_trades st) \<and>
    (case rp_open st of None \<Rightarrow> last (rp_curve st) = rp_equity st
     | Some ot \<Rightarrow> backed cfg account (ot_side ot) (ot_entry_fill ot) (ot_position_size ot) (ot_target_price ot) (ot_stop_price ot))"

lemma tightened_trail: "tightened sd i stop \<Longrightarrow> tightened sd i (trailed_stop sd stop c gap)"
  by (auto simp: tightened_def trailed_stop_def pymax_def pymin_def intro: less_trans_pyfloat)

lemma trail_stop_tightens: "trail_stop cfg seen ot = ok stop \<Longrightarrow> tightened (ot_side ot) i (ot_stop_price ot) \<Longrightarrow> tightened (ot_side ot) i stop"
  by (auto simp: trail_stop_def rbind_eq_Inr tightened_trail split: option.splits)

lemma trail_stop_backed:
  "trail_stop cfg seen ot = ok stop \<Longrightarrow> backed cfg' account (ot_side ot) fill sz target (ot_stop_price ot) \<Longrightarrow>
    backed cfg' account (ot_side ot) fill sz target stop"
  unfolding backed_def using trail_stop_tightens by blast

lemma check_exit_reason: "check_exit_with_open sd stop target opn high low = Some (p, r) \<Longrightarrow> r \<in> {''stop'', ''target''}"
  by (auto simp: check_exit_with_open_def check_exit_def Let_def split: if_splits)

lemma record_frame: "record_learning_graph ge asset t sg st = ok st1 \<Longrightarrow> \<exists>g. st1 = st\<lparr>rp_graph := g\<rparr>"
  by (cases st) (auto simp: record_learning_graph_def split: option.splits prod.splits sum.splits)

lemma close_trade_ok:
  assumes "close_trade ot price now reason asset cfg = ok (t, net)"
  shows "td_side t = ot_side ot \<and> td_entry_fill t = ot_entry_fill ot \<and> td_position_size t = ot_position_size ot \<and>
    td_target_price t = ot_target_price ot \<and> td_stop_price t = ot_stop_price ot \<and> td_exit_reason t = reason \<and>
    net = td_net_pnl t \<and>
    td_net_pnl t = side_sign (td_side t) * (td_exit_fill t - td_entry_fill t) * td_position_size t -
      (commission (td_entry_fill t) (td_position_size t) cfg + commission (td_exit_fill t) (td_position_size t) cfg)"
  using assms by (auto simp: close_trade_def rbind_eq_Inr Let_def)

lemma settle_ok:
  assumes "settle ge cfg asset ot price now reason st = ok st1"
  obtains t g where "td_side t = ot_side ot" "td_entry_fill t = ot_entry_fill ot" "td_position_size t = ot_position_size ot"
    "td_target_price t = ot_target_price ot" "td_stop_price t = ot_stop_price ot" "td_exit_reason t = reason"
    "td_net_pnl t = side_sign (td_side t) * (td_exit_fill t - td_entry_fill t) * td_position_size t -
      (commission (td_entry_fill t) (td_position_size t) cfg + commission (td_exit_fill t) (td_position_size t) cfg)"
    "st1 = st\<lparr>rp_equity := rp_equity st + td_net_pnl t, rp_trades := rp_trades st @ [t], rp_open := None, rp_graph := g\<rparr>"
proof -
  obtain t net where t: "close_trade ot price now reason asset cfg = ok (t, net)"
    "record_learning_graph ge asset t (ot_signal ot)
        (st\<lparr>rp_equity := rp_equity st + net, rp_trades := rp_trades st @ [t], rp_open := None\<rparr>) = ok st1"
    using assms by (auto simp: settle_def rbind_eq_Inr)
  then obtain g where "st1 = st\<lparr>rp_equity := rp_equity st + net, rp_trades := rp_trades st @ [t], rp_open := None, rp_graph := g\<rparr>"
    using record_frame by force
  then show ?thesis using that [of t g] close_trade_ok [OF t(1)] by simp
qed

lemma held_bar_inv:
  assumes "held_bar ge cfg asset seen ot st = ok st1" "replay_inv cfg account n st" "rp_open st = Some ot"
  shows "replay_inv cfg account (n + 1) st1"
proof -
  define c where "c = last seen"
  define ot1 where "ot1 = ot\<lparr>ot_bars_held := ot_bars_held ot + 1\<rparr>"
  define x where "x = exit_or_time cfg (ot_bars_held ot1) (cd_close c)
       (check_exit_with_open (ot_side ot1) (ot_stop_price ot1) (ot_target_price ot1) (cd_open c) (cd_high c) (cd_low c))"
  show ?thesis
  proof (cases x)
    case None
    then obtain stop where "trail_stop cfg seen ot1 = ok stop" "st1 = st\<lparr>rp_open := Some (ot1\<lparr>ot_stop_price := stop\<rparr>),
           rp_curve := rp_curve st @ [rp_equity st + ot_unrealized ot1 (cd_close c)]\<rparr>"
      using assms(1) by (auto simp: held_bar_def Let_def c_def [symmetric] ot1_def [symmetric] x_def [symmetric] rbind_eq_Inr)
    then show ?thesis using assms(2,3) trail_stop_backed [of cfg seen ot1 stop cfg account]
      by (simp add: replay_inv_def ot1_def)
  next
    case (Some pr)
    obtain price reason where pr: "pr = (price, reason)" by force
    obtain st2 where st2: "settle ge cfg asset ot1 price (datetime_of_ms (cd_ts c)) reason st = ok st2"
      "st1 = st2\<lparr>rp_peak := pymax (rp_peak st2) (rp_equity st2), rp_curve := rp_curve st2 @ [rp_equity st2]\<rparr>"
      using assms(1) Some pr by (auto simp: held_bar_def Let_def c_def [symmetric] ot1_def [symmetric] x_def [symmetric] rbind_eq_Inr)
    have "reason \<in> {''stop'', ''target'', ''time_stop''}"
      using Some pr check_exit_reason by (fastforce simp: x_def exit_or_time_def split: if_splits)
    moreover obtain t g where "td_side t = ot_side ot1" "td_entry_fill t = ot_entry_fill ot1" "td_position_size t = ot_position_size ot1"
      "td_target_price t = ot_target_price ot1" "td_stop_price t = ot_stop_price ot1" "td_exit_reason t = reason"
      "td_net_pnl t = side_sign (td_side t) * (td_exit_fill t - td_entry_fill t) * td_position_size t -
        (commission (td_entry_fill t) (td_position_size t) cfg + commission (td_exit_fill t) (td_position_size t) cfg)"
      "st2 = st\<lparr>rp_equity := rp_equity st + td_net_pnl t, rp_trades := rp_trades st @ [t], rp_open := None, rp_graph := g\<rparr>"
      by (rule settle_ok [OF st2(1)])
    ultimately show ?thesis using assms(2,3) st2(2) by (auto simp: replay_inv_def trade_ok_def ot1_def)
  qed
qed

lemma flat_bar_cases:
  assumes "flat_bar cfg account strat asset seen st = ok st1"
  obtains "\<exists>eng. st1 = st\<lparr>rp_engine := eng, rp_curve := rp_curve st @ [rp_equity st]\<rparr>"
  | sg d eng order x where "evaluate sg (account\<lparr>equity := rp_equity st, peak_equity := rp_peak st\<rparr>) (rp_engine st) = (ok d, eng)"
    "dec_approved d" "dec_order d = Some order"
    "st1 = st\<lparr>rp_engine := eng, rp_open := Some (opened cfg (datetime_of_ms (cd_ts (last seen))) sg order), rp_curve := rp_curve st @ [x]\<rparr>"
proof -
  obtain o' where o: "strat seen asset (datetime_of_ms (cd_ts (last seen))) = ok o'"
    using assms by (auto simp: flat_bar_def rbind_eq_Inr Let_def)
  show ?thesis
  proof (cases o')
    case None
    then have "st1 = st\<lparr>rp_engine := rp_engine st, rp_curve := rp_curve st @ [rp_equity st]\<rparr>"
      using assms o by (simp add: flat_bar_def Let_def)
    then show ?thesis using that(1) by blast
  next
    case (Some sg)
    obtain d eng where e: "evaluate sg (account\<lparr>equity := rp_equity st, peak_equity := rp_peak st\<rparr>) (rp_engine st) = (ok d, eng)"
      using assms o Some by (auto simp: flat_bar_def Let_def split: prod.splits sum.splits)
    show ?thesis
    proof (cases "dec_approved d")
      case True
      then obtain order where order: "dec_order d = Some order" using assms o Some e by (cases "dec_order d") (auto simp: flat_bar_def Let_def)
      define ot where "ot = opened cfg (datetime_of_ms (cd_ts (last seen))) sg order"
      have "st1 = st\<lparr>rp_engine := eng, rp_open := Some ot,
          rp_curve := rp_curve st @ [rp_equity st + ot_unrealized ot (cd_close (last seen))]\<rparr>"
        using assms o Some e True order by (simp add: flat_bar_def Let_def ot_def)
      then show ?thesis unfolding ot_def by (rule that(2) [OF e True order])
    next
      case False
      then have "st1 = st\<lparr>rp_engine := eng, rp_curve := rp_curve st @ [rp_equity st]\<rparr>"
        using assms o Some e by (simp add: flat_bar_def Let_def)
      then show ?thesis using that(1) by blast
    qed
  qed
qed

lemma flat_bar_inv:
  assumes "flat_bar cfg account strat asset seen st = ok st1" "replay_inv cfg account n st" "rp_open st = None"
  shows "replay_inv cfg account (n + 1) st1"
  using assms(1)
proof (cases rule: flat_bar_cases)
  case 1
  then show ?thesis using assms(2,3) by (auto simp: replay_inv_def)
next
  case (2 sg d eng order x)
  have "backed cfg account (ao_side order) (apply_slippage (ao_entry_price order) (ao_side order) True cfg)
      (ao_position_size order) (ao_target_price order) (ao_stop_price order)"
    unfolding backed_def tightened_def using 2(1-3) by blast
  then show ?thesis using assms(2,3) 2(4) by (simp add: replay_inv_def opened_def tightened_def)
qed

lemma run_bars_inv:
  "run_bars ge cfg account strat asset candles is st = ok st1 \<Longrightarrow> replay_inv cfg account n st \<Longrightarrow> replay_inv cfg account (n + length is) st1"
proof (induction "is" arbitrary: st n)
  case (Cons i "is")
  obtain st2 where st2: "bar ge cfg account strat asset (take (Suc i) candles) st = ok st2"
    "run_bars ge cfg account strat asset candles is st2 = ok st1"
    using Cons.prems(1) by (auto simp: rbind_eq_Inr)
  have "replay_inv cfg account (n + 1) st2"
    using st2(1) Cons.prems(2) held_bar_inv flat_bar_inv by (auto simp: bar_def split: option.splits)
  then show ?case using Cons.IH [OF st2(2), of "n + 1"] by simp
qed simp

text \<open>C22: The books of a replay balance: when it returns, no position is open, the equity is the starting equity plus the net
  results of the trades in their order, the curve has one point per candle after the starting one and ends at that equity, and every
  trade closes a position of the side, size, target and slipped entry of an order the risk engine approved, at a stop that is
  the order's or has only tightened (risen for a long, fallen for a short position), its net result being the move from entry to
  exit fill on that size less the two commissions, and for one of the four exit reasons.\<close>

theorem replay_books_balance:
  assumes "replay_candles ge cfg account strat asset candles eng graph = ok st"
  shows "rp_open st = None \<and> rp_equity st = foldl (+) (equity account) (map td_net_pnl (rp_trades st)) \<and>
    length (rp_curve st) = length candles + 1 \<and> last (rp_curve st) = rp_equity st \<and> list_all (trade_ok cfg account) (rp_trades st)"
proof -
  obtain st1 where st1: "run_bars ge cfg account strat asset candles [0..<length candles] (new_replay account eng graph) = ok st1"
    "end_of_data ge cfg asset candles st1 = ok st"
    using assms by (auto simp: replay_candles_def rbind_eq_Inr)
  have "replay_inv cfg account 0 (new_replay account eng graph)" by (simp add: replay_inv_def new_replay_def)
  from run_bars_inv [OF st1(1) this] have inv: "replay_inv cfg account (length candles) st1" by simp
  show ?thesis
  proof (cases "rp_open st1")
    case None
    then show ?thesis using inv st1(2) by (simp add: end_of_data_def replay_inv_def)
  next
    case (Some ot)
    then obtain st2 where st2: "settle ge cfg asset ot (cd_close (last candles)) (datetime_of_ms (cd_ts (last candles))) ''end_of_data'' st1 = ok st2"
      "st = st2\<lparr>rp_curve := butlast (rp_curve st2) @ [rp_equity st2]\<rparr>"
      using st1(2) by (auto simp: end_of_data_def Let_def rbind_eq_Inr)
    obtain t g where "td_side t = ot_side ot" "td_entry_fill t = ot_entry_fill ot" "td_position_size t = ot_position_size ot"
      "td_target_price t = ot_target_price ot" "td_stop_price t = ot_stop_price ot" "td_exit_reason t = ''end_of_data''"
      "td_net_pnl t = side_sign (td_side t) * (td_exit_fill t - td_entry_fill t) * td_position_size t -
        (commission (td_entry_fill t) (td_position_size t) cfg + commission (td_exit_fill t) (td_position_size t) cfg)"
      "st2 = st1\<lparr>rp_equity := rp_equity st1 + td_net_pnl t, rp_trades := rp_trades st1 @ [t], rp_open := None, rp_graph := g\<rparr>"
      by (rule settle_ok [OF st2(1)])
    then show ?thesis using inv Some st2(2) by (auto simp: replay_inv_def trade_ok_def)
  qed
qed

section \<open>A sample replay\<close>

definition frictionless :: backtest_config where
  "frictionless = \<lparr>slippage_pct = 0, commission_pct = 0, max_hold_bars = 24, trail_atr_mult = None, trail_atr_period = 14\<rparr>"

definition demo_env :: graph_env where
  "demo_env = \<lparr>ge_iso = (\<lambda>_. []), ge_stamp = (\<lambda>_. []), ge_uid = (\<lambda>_. [])\<rparr>"

definition rally :: "candle list" where
  "rally = [flat_candle 100, \<lparr>cd_ts = 60000, cd_open = Fin 100, cd_high = Fin 112, cd_low = Fin 99, cd_close = Fin 111, cd_volume = 0\<rparr>]"

definition buy_once :: strategy where
  "buy_once candles asset now = ok (if length candles = 1 then Some demo_signal else None)"

lemma demo_account_upd: "demo_account\<lparr>equity := Fin 10000, peak_equity := Fin 10000\<rparr> = demo_account"
  by (simp add: demo_account_def)

lemma demo_equity: "equity demo_account = Fin 10000" "peak_equity demo_account = Fin 10000"
  by (simp_all add: demo_account_def)

lemma rally_replay: "\<exists>st. replay_candles demo_env frictionless demo_account buy_once ''BTC/USDT'' rally demo_engine None = ok st \<and>
    map td_net_pnl (rp_trades st) = [Fin (625/2)]"
proof -
  obtain d eng' order where d: "evaluate demo_signal demo_account demo_engine = (ok d, eng')" "dec_approved d" "dec_order d = Some order"
    "ao_side order = LONG" "ao_entry_price order = Fin 100" "ao_stop_price order = Fin 95" "ao_target_price order = Fin 110"
    "ao_position_size order = Fin (125/4)"
    using demo_evaluate by auto
  show ?thesis
    by (simp add: replay_candles_def rally_def flat_candle_def new_replay_def demo_equity bar_def flat_bar_def buy_once_def Let_def demo_account_upd d
        opened_def held_bar_def frictionless_def check_exit_with_open_def check_exit_def exit_or_time_def settle_def close_trade_def
        record_learning_graph_def end_of_data_def side_sign_def commission_def apply_slippage_def minus_pyfloat_def ftruth_def
        ot_unrealized_def fl_eval float_eval zero_Fin one_Fin)
qed

theorem replay_books_balance_witness:
  "\<exists>st. replay_candles demo_env frictionless demo_account buy_once ''BTC/USDT'' rally demo_engine None = ok st \<and>
    rp_equity st = Fin (20625/2) \<and> length (rp_curve st) = 3 \<and> last (rp_curve st) = Fin (20625/2)"
proof -
  obtain st where st: "replay_candles demo_env frictionless demo_account buy_once ''BTC/USDT'' rally demo_engine None = ok st"
    "map td_net_pnl (rp_trades st) = [Fin (625/2)]"
    by (rule exE [OF rally_replay], erule conjE) (rule that)
  note b = replay_books_balance [OF st(1)]
  have e: "rp_equity st = foldl (+) (equity demo_account) (map td_net_pnl (rp_trades st))" using conjunct1 [OF conjunct2 [OF b]] .
  have l: "length (rp_curve st) = length rally + 1" using conjunct1 [OF conjunct2 [OF conjunct2 [OF b]]] .
  have c: "last (rp_curve st) = rp_equity st" using conjunct1 [OF conjunct2 [OF conjunct2 [OF conjunct2 [OF b]]]] .
  have "rp_equity st = Fin (20625/2)" 
  proof -
    have "rp_equity st = foldl (+) (Fin 10000) [Fin (625/2)]" using e by (simp only: st(2) demo_equity)
    then show ?thesis by (simp add: fl_eval float_eval)
  qed
  moreover have "length rally = 2" by (simp add: rally_def)
  ultimately show ?thesis using st(1) l c by (intro exI [of _ st]) simp
qed

end
