(* ===== verification/Report.thy ===== *)
theory Report
  imports Backtest Regime
begin

text \<open>
  \<open>backtest/engine.py\<close>: the report of a backtest and \<open>run_backtest\<close> itself.  \<open>powf\<close> is the C library's \<open>pow\<close>, the draws of
  the bootstrap are the indices the generator chooses.  \<open>int * float\<close> converts the integer first and raises when
  it is beyond the range of a float.
\<close>

section \<open>Statistics of the trades\<close>

definition int_to_float :: "int \<Rightarrow> pyfloat res" where
  "int_to_float n = (if is_finite (float_of_int n) then ok (float_of_int n) else raise OverflowError)"

text \<open>\<open>a / b\<close> of two integers: the exact quotient rounded once.\<close>

definition int_div :: "nat \<Rightarrow> nat \<Rightarrow> pyfloat res" where
  "int_div a b = (if b = 0 then raise ZeroDivisionError
     else let q = fl (of_nat a / of_nat b) in if is_finite q then ok q else raise OverflowError)"

definition len_float :: "'a list \<Rightarrow> pyfloat" where
  "len_float xs = float_of_int (int (length xs))"

definition winners :: "trade list \<Rightarrow> trade list" where
  "winners trades = filter (\<lambda>t. 0 < td_net_pnl t) trades"

definition breakeven_win_rate_of :: "trade list \<Rightarrow> pyfloat res" where
  "breakeven_win_rate_of trades =
    (let wins = map td_r_multiple (winners trades);
         losses = map (\<lambda>t. - td_r_multiple t) (filter (\<lambda>t. td_net_pnl t \<le> 0) trades)
     in if wins = [] \<or> losses = [] then ok (fl (1/3))
        else rbind (smean wins) (\<lambda>w. rbind (smean losses) (\<lambda>l.
          if w + l \<le> 0 then ok (fl (1/3)) else fdiv l (w + l))))"

definition binomial_term :: "(pyfloat \<Rightarrow> nat \<Rightarrow> pyfloat res) \<Rightarrow> nat \<Rightarrow> pyfloat \<Rightarrow> nat \<Rightarrow> pyfloat res" where
  "binomial_term powf n p k = rbind (powf p k) (\<lambda>a. rbind (int_to_float (int (n choose k))) (\<lambda>c.
     rbind (powf (1 - p) (n - k)) (\<lambda>b. ok (c * a * b))))"

definition binomial_sf :: "(pyfloat \<Rightarrow> nat \<Rightarrow> pyfloat res) \<Rightarrow> nat \<Rightarrow> nat \<Rightarrow> pyfloat \<Rightarrow> pyfloat res" where
  "binomial_sf powf k_min n p = rbind (map_res (binomial_term powf n p) [k_min..<n + 1]) (\<lambda>ts. ok (fsum ts))"

definition wilson_z :: pyfloat where
  "wilson_z = fl (196/100)"

definition wilson_ci :: "nat \<Rightarrow> nat \<Rightarrow> (pyfloat \<times> pyfloat) res" where
  "wilson_ci wins n = (if n = 0 then ok (0, 0) else
     rbind (int_div wins n) (\<lambda>phat.
     rbind (fsquare wilson_z) (\<lambda>z2.
     rbind (fdiv z2 (float_of_int (int n))) (\<lambda>zn.
     rbind (fdiv z2 (float_of_int (2 * int n))) (\<lambda>z2n.
     rbind (fdiv (phat * (1 - phat)) (float_of_int (int n))) (\<lambda>v.
     rbind (fdiv z2 (float_of_int (4 * int n * int n))) (\<lambda>z4n.
     rbind (fsqrt (v + z4n)) (\<lambda>s.
       (let denom = 1 + zn; center = phat + z2n; margin = wilson_z * s in
        rbind (fdiv (center - margin) denom) (\<lambda>lo. rbind (fdiv (center + margin) denom) (\<lambda>hi.
          ok (pymax 0 lo, pymin 1 hi))))))))))))"

datatype sample_verdict = Insufficient | Provisional | Reasonable

definition sample_size_verdict_of :: "nat \<Rightarrow> sample_verdict" where
  "sample_size_verdict_of n = (if n < 30 then Insufficient else if n < 100 then Provisional else Reasonable)"

section \<open>Statistics of the curve\<close>

text \<open>The running peak and the worst drawdown from it.\<close>

definition drawdown_step :: "pyfloat \<times> pyfloat \<Rightarrow> pyfloat \<Rightarrow> (pyfloat \<times> pyfloat) res" where
  "drawdown_step pd eq = (case pd of (peak, dd) \<Rightarrow>
     (let peak1 = pymax peak eq in
      if 0 < peak1 then rbind (fdiv (peak1 - eq) peak1) (\<lambda>d. ok (peak1, pymax dd d)) else ok (peak1, dd)))"

fun drawdown_loop :: "pyfloat \<times> pyfloat \<Rightarrow> pyfloat list \<Rightarrow> (pyfloat \<times> pyfloat) res" where
  "drawdown_loop pd [] = ok pd"
| "drawdown_loop pd (eq # eqs) = rbind (drawdown_step pd eq) (\<lambda>pd1. drawdown_loop pd1 eqs)"

definition curve_returns :: "pyfloat list \<Rightarrow> pyfloat list res" where
  "curve_returns curve = map_res (\<lambda>(a, b). fdiv (b - a) a) (filter (\<lambda>(a, _). \<not> feq a 0) (zip curve (tl curve)))"

definition sharpe_of :: "pyfloat list \<Rightarrow> pyfloat res" where
  "sharpe_of rs = (if length rs \<le> 1 then ok 0 else rbind (pstdev rs) (\<lambda>sd.
     if 0 < sd then rbind (smean rs) (\<lambda>m. fdiv m sd) else ok 0))"

definition downside_dev :: "pyfloat list \<Rightarrow> pyfloat res" where
  "downside_dev rs = (let down = filter (\<lambda>r. r < 0) rs in
     if down = [] then ok 0
     else rbind (map_res fsquare down) (\<lambda>qs. rbind (fdiv (fsum qs) (len_float rs)) fsqrt))"

definition sortino_of :: "pyfloat list \<Rightarrow> pyfloat res" where
  "sortino_of rs = rbind (downside_dev rs) (\<lambda>dd.
     if 1 < length rs \<and> 0 < dd then rbind (smean rs) (\<lambda>m. fdiv m dd) else ok 0)"

text \<open>\<open>sorted\<close>; two or more returns that are not finite have already failed in \<open>pstdev\<close>.\<close>

definition fsort :: "pyfloat list \<Rightarrow> pyfloat list" where
  "fsort xs = sort_by_desc uminus xs"

definition tail_var_99_of :: "pyfloat list \<Rightarrow> pyfloat res" where
  "tail_var_99_of rs = (if rs = [] then ok 0 else
     rbind (int_of_float (len_float rs * fl (1/100))) (\<lambda>k.
     rbind (smean (take (nat (max 1 k)) (fsort rs))) (\<lambda>m. ok (- m))))"

section \<open>The report\<close>

record backtest_report =
  br_start_equity :: pyfloat
  br_final_equity :: pyfloat
  br_total_return :: pyfloat
  br_max_drawdown :: pyfloat
  br_sharpe :: pyfloat
  br_sortino :: pyfloat
  br_tail_var_99 :: pyfloat
  br_win_rate :: pyfloat
  br_bayesian_win_rate :: pyfloat
  br_avg_r :: pyfloat
  br_num_trades :: nat
  br_breakeven :: pyfloat
  br_p_value :: pyfloat
  br_ci_low :: pyfloat
  br_ci_high :: pyfloat
  br_verdict :: sample_verdict

definition build_report :: "(pyfloat \<Rightarrow> nat \<Rightarrow> pyfloat res) \<Rightarrow> pyfloat \<Rightarrow> pyfloat \<Rightarrow> pyfloat list \<Rightarrow> trade list \<Rightarrow> pyfloat option
    \<Rightarrow> backtest_report res" where
  "build_report powf start final curve trades breakeven =
    rbind (fdiv (final - start) start) (\<lambda>total.
    rbind (case curve of [] \<Rightarrow> raise (IndexError ''list index out of range'') | e # _ \<Rightarrow> drawdown_loop (e, 0) curve) (\<lambda>(_, dd).
    rbind (curve_returns curve) (\<lambda>rs.
    rbind (sharpe_of rs) (\<lambda>sharpe.
    rbind (sortino_of rs) (\<lambda>sortino.
    rbind (tail_var_99_of rs) (\<lambda>tv.
    (let n = length trades; wins = length (winners trades) in
    rbind (if trades = [] then ok 0 else int_div wins n) (\<lambda>rate.
    rbind (fdiv (float_of_int (int wins) + 1) (float_of_int (int n) + fl 2)) (\<lambda>bayes.
    rbind (if trades = [] then ok 0 else smean (map td_r_multiple trades)) (\<lambda>avg.
    rbind (case breakeven of None \<Rightarrow> breakeven_win_rate_of trades | Some p \<Rightarrow> ok p) (\<lambda>p.
    rbind (if n = 0 then ok 1 else binomial_sf powf wins n p) (\<lambda>pv.
    rbind (wilson_ci wins n) (\<lambda>(lo, hi).
      ok \<lparr>br_start_equity = start, br_final_equity = final, br_total_return = total, br_max_drawdown = dd, br_sharpe = sharpe,
        br_sortino = sortino, br_tail_var_99 = tv, br_win_rate = rate, br_bayesian_win_rate = bayes, br_avg_r = avg,
        br_num_trades = n, br_breakeven = p, br_p_value = pv, br_ci_low = lo, br_ci_high = hi,
        br_verdict = sample_size_verdict_of n\<rparr>)))))))))))))"

record backtest_result =
  bt_report :: backtest_report
  bt_trades :: "trade list"
  bt_curve :: "pyfloat list"

text \<open>
  The graph is flushed before the report is computed; \<open>gl\<close> is the learning graph with its files, if one is passed.
\<close>

definition flush_graph :: "(pyfloat \<Rightarrow> string) \<Rightarrow> (fline \<Rightarrow> int) \<Rightarrow> unit res \<Rightarrow> (lgraph \<times> store) option \<Rightarrow> mgraph option
    \<Rightarrow> (lgraph \<times> store) option res" where
  "flush_graph num size_of lk gl g = (case (gl, g) of
     (Some (lg, w), Some g1) \<Rightarrow> (case to_jsonl num size_of lk (lg\<lparr>lg_graph := g1\<rparr>, w) of
         (Inl e, _) \<Rightarrow> Inl e | (Inr _, x) \<Rightarrow> ok (Some x))
   | _ \<Rightarrow> ok gl)"

definition run_backtest :: "graph_env \<Rightarrow> (pyfloat \<Rightarrow> nat \<Rightarrow> pyfloat res) \<Rightarrow> (pyfloat \<Rightarrow> string) \<Rightarrow> (fline \<Rightarrow> int) \<Rightarrow> unit res
    \<Rightarrow> candle list \<Rightarrow> string \<Rightarrow> strategy \<Rightarrow> engine \<Rightarrow> account_state \<Rightarrow> backtest_config \<Rightarrow> pyfloat option \<Rightarrow> (lgraph \<times> store) option
    \<Rightarrow> (backtest_result \<times> (lgraph \<times> store) option) res" where
  "run_backtest ge powf num size_of lk candles asset strat eng account cfg breakeven gl =
    rbind (replay_candles ge cfg account strat asset candles eng (map_option (\<lambda>(lg, _). lg_graph lg) gl)) (\<lambda>st.
    rbind (flush_graph num size_of lk gl (rp_graph st)) (\<lambda>gl1.
    rbind (build_report powf (equity account) (rp_equity st) (rp_curve st) (rp_trades st) breakeven) (\<lambda>r.
      ok (\<lparr>bt_report = r, bt_trades = rp_trades st, bt_curve = rp_curve st\<rparr>, gl1))))"

section \<open>The bootstrap\<close>

record percentiles =
  pc_p5 :: pyfloat
  pc_p50 :: pyfloat
  pc_p95 :: pyfloat

definition percentile_of :: "pyfloat list \<Rightarrow> pyfloat \<Rightarrow> pyfloat res" where
  "percentile_of xs p = rbind (int_of_float (p * len_float xs)) (\<lambda>k.
     if xs = [] then raise (IndexError ''list index out of range'') else ok (xs ! nat (min (int (length xs) - 1) k)))"

text \<open>\<open>choice it j\<close> is the index of the \<open>j\<close>-th draw of iteration \<open>it\<close>.  The sort is for terminal returns that are no NaN.\<close>

definition bootstrap_trade_returns :: "(nat \<Rightarrow> nat \<Rightarrow> nat) \<Rightarrow> trade list \<Rightarrow> pyfloat \<Rightarrow> nat \<Rightarrow> percentiles res" where
  "bootstrap_trade_returns choice trades start iterations =
    (if trades = [] then ok \<lparr>pc_p5 = 0, pc_p50 = 0, pc_p95 = 0\<rparr> else
     (let pnls = map td_net_pnl trades in
      rbind (map_res (\<lambda>it. fdiv (fsum (map (\<lambda>j. pnls ! choice it j) [0..<length pnls])) start) [0..<iterations]) (\<lambda>rs.
      (let ts = fsort rs in
       rbind (percentile_of ts (fl (5/100))) (\<lambda>a. rbind (percentile_of ts (fl (1/2))) (\<lambda>b. rbind (percentile_of ts (fl (95/100))) (\<lambda>c.
         ok \<lparr>pc_p5 = a, pc_p50 = b, pc_p95 = c\<rparr>)))))))"

section \<open>Rates\<close>

lemma between_Fin: "0 \<le> x \<Longrightarrow> x \<le> Fin a \<Longrightarrow> \<exists>r. x = Fin r \<and> 0 \<le> r \<and> r \<le> a"
  by (cases x) (auto simp: zero_Fin)

lemma unit_Fin: "0 \<le> x \<Longrightarrow> x \<le> 1 \<Longrightarrow> \<exists>r. x = Fin r \<and> 0 \<le> r \<and> r \<le> 1"
  using between_Fin [of x 1] by (simp add: one_Fin)

lemma int_div_unit: "a \<le> b \<Longrightarrow> 0 < b \<Longrightarrow> \<exists>r. int_div a b = ok (Fin r) \<and> 0 \<le> r \<and> r \<le> 1"
  using fl_unit [of "of_nat a / of_nat b"] unit_Fin [of "fl (of_nat a / of_nat b)"]
  by (auto simp: int_div_def Let_def is_finite_def)

lemma fdiv_shrinks:
  assumes "is_float (Fin a)" "0 \<le> a" "1 \<le> y"
  shows "\<exists>r. fdiv (Fin a) y = ok (Fin r) \<and> 0 \<le> r \<and> r \<le> a"
proof (cases y)
  case (Fin b)
  then have b: "1 \<le> b" using assms(3) by (simp add: one_Fin)
  then have q: "0 \<le> a / b" "a / b \<le> a" using assms(2) by (simp_all add: divide_le_eq mult_le_cancel_left1)
  have "0 \<le> fl (a / b)" "fl (a / b) \<le> Fin a"
    using q fl_nonneg fl_le_Fin assms(1) by (simp_all add: is_float_def)
  then show ?thesis using between_Fin b Fin by fastforce
qed (use assms in \<open>auto simp: zero_Fin one_Fin is_finite_def\<close>)

lemma fdiv_antimono_divisor:
  assumes "0 \<le> a" "1 \<le> x" "x \<le> y" "fdiv (Fin a) x = ok (Fin p)" "fdiv (Fin a) y = ok (Fin q)"
  shows "q \<le> p"
proof (cases y)
  case (Fin b)
  then obtain c where c: "x = Fin c" "1 \<le> c" "c \<le> b" using assms(2,3) by (cases x) (auto simp: one_Fin)
  then have "a / b \<le> a / c" using assms(1) by (intro divide_left_mono mult_pos_pos) simp_all
  then have "fl (a / b) \<le> fl (a / c)" by (rule fl_mono)
  then show ?thesis using assms(4,5) c Fin by simp
next
  case PInf
  then have "0 = q" using assms(5) by (simp add: zero_Fin is_finite_def)
  moreover obtain c where "x = Fin c \<or> x = PInf" using assms(2) by (cases x) (auto simp: one_Fin)
  then have "0 \<le> Fin p" using assms(1,2,4) fl_nonneg [of "a / c"] by (auto simp: one_Fin zero_Fin is_finite_def split: if_splits)
  ultimately show ?thesis by (simp add: zero_Fin)
qed (use assms(2,3) in \<open>cases x; simp add: one_Fin\<close>)+

lemma wilson_z_eval: "\<exists>z q. wilson_z = Fin z \<and> fsquare wilson_z = ok (Fin q) \<and> is_float (Fin q) \<and> 0 < z \<and> 0 \<le> q \<and> q \<le> 4"
proof -
  have z: "wilson_z = Fin (2206763817411543 / 1125899906842624)" by (simp add: wilson_z_def fl_eval float_eval)
  then have q: "fsquare wilson_z = ok (Fin (135164283816457 / 35184372088832))"
    by (simp only: fsquare_def z) (simp add: fl_eval float_eval is_finite_def)
  have f: "is_float (Fin (135164283816457 / 35184372088832))" using is_float_arith [of wilson_z wilson_z] by (simp add: z fl_eval float_eval)
  show ?thesis by (intro exI conjI, rule z, rule q, rule f) simp_all
qed

lemma fsqrt_nonneg_ok: "0 \<le> x \<Longrightarrow> \<exists>s. fsqrt x = ok s \<and> 0 \<le> s"
  using fsqrt_ok fsqrt_nonneg le_not_nan(2) by blast

lemma fl_5: "fl 5 = Fin 5"
  by (simp add: fl_eval float_eval)

lemma wilson_ci_ok:
  assumes "wins \<le> n"
  shows "\<exists>lo hi. wilson_ci wins n = ok (lo, hi) \<and> 0 \<le> lo \<and> lo \<le> hi \<and> hi \<le> 1"
proof (cases "n = 0")
  case True
  then show ?thesis by (simp add: wilson_ci_def zero_Fin one_Fin)
next
  case False
  define N where "N = float_of_int (int n)"
  define N2 where "N2 = float_of_int (2 * int n)"
  define N4 where "N4 = float_of_int (4 * int n * int n)"
  have N: "1 \<le> N" "N \<le> N2" "1 \<le> N2" "1 \<le> N4"
  proof -
    have n: "1 \<le> int n" "1 \<le> 4 * int n * int n" using False by (simp_all add: int_one_le_iff_zero_less)
    have fi: "a \<le> b \<Longrightarrow> float_of_int a \<le> float_of_int b" for a b unfolding float_of_int_def by (intro fl_mono) simp
    have "float_of_int 1 = 1" by (simp add: float_of_int_def)
    then show "1 \<le> N" "N \<le> N2" "1 \<le> N2" "1 \<le> N4" using n fi [of 1 "int n"] fi [of "int n" "2 * int n"] fi [of 1 "2 * int n"]
        fi [of 1 "4 * int n * int n"] by (simp_all add: N_def N2_def N4_def)
  qed
  obtain ph where ph: "int_div wins n = ok (Fin ph)" "0 \<le> ph" "ph \<le> 1" using int_div_unit assms False by blast
  obtain z q where z: "wilson_z = Fin z" "fsquare wilson_z = ok (Fin q)" "is_float (Fin q)" "0 < z" "0 \<le> q" "q \<le> 4"
    using wilson_z_eval by blast
  obtain zn where zn: "fdiv (Fin q) N = ok (Fin zn)" "0 \<le> zn" "zn \<le> q" using fdiv_shrinks z N by blast
  obtain z2n where z2n: "fdiv (Fin q) N2 = ok (Fin z2n)" "0 \<le> z2n" "z2n \<le> q" using fdiv_shrinks z N by blast
  have le: "z2n \<le> zn" using fdiv_antimono_divisor z(5) N(1,2) zn(1) z2n(1) .
  obtain z4n where z4n: "fdiv (Fin q) N4 = ok (Fin z4n)" "0 \<le> z4n" using fdiv_shrinks z N by blast
  obtain cp where cp: "1 - Fin ph = Fin cp" "0 \<le> cp" "cp \<le> 1"
    using unit_Fin [of "fl (1 - ph)"] fl_unit [of "1 - ph"] ph(2,3) by (auto simp: one_Fin minus_pyfloat_def)
  have "0 \<le> ph * cp" "ph * cp \<le> 1" using ph(2,3) cp(2,3) by (auto intro: mult_le_one)
  then obtain v0 where v0: "Fin ph * Fin cp = Fin v0" "0 \<le> v0" "v0 \<le> 1"
    using unit_Fin [of "fl (ph * cp)"] fl_unit [of "ph * cp"] by auto
  have "is_float (Fin v0)" using v0(1) is_float_arith by metis
  then obtain v where v: "fdiv (Fin v0) N = ok (Fin v)" "0 \<le> v" using fdiv_shrinks v0(2) N(1) by blast
  have "0 \<le> Fin v + Fin z4n" using v(2) z4n(2) by (simp add: fl_nonneg)
  then obtain s where s: "fsqrt (Fin v + Fin z4n) = ok s" "0 \<le> s" using fsqrt_nonneg_ok by blast
  define m where "m = wilson_z * s"
  have m: "0 \<le> m" unfolding m_def z(1) using s(2) z(4) by (cases s) (auto simp: zero_Fin intro: fl_nonneg [unfolded zero_Fin])
  obtain d where d: "1 + Fin zn = Fin d" "1 \<le> d"
  proof -
    have "fl 1 \<le> fl (1 + zn)" "fl (1 + zn) \<le> fl 5" using zn(2,3) z(6) by (simp_all add: fl_mono del: fl_1)
    then show ?thesis using that fl_5 by (cases "fl (1 + zn)") (auto simp: one_Fin)
  qed
  have "fl (ph + z2n) \<le> fl (1 + zn)" "0 \<le> fl (ph + z2n)"
    using ph(2,3) z2n(2) le by (auto intro: fl_mono fl_nonneg)
  then obtain c where c: "Fin ph + Fin z2n = Fin c" "0 \<le> c" "c \<le> d"
    using between_Fin [of "fl (ph + z2n)" d] d(1) by (auto simp: one_Fin)
  have "is_float (Fin c)" using c(1) is_float_arith(1) by metis
  then have cm: "Fin c - m \<le> Fin c" using m by (cases m) (auto simp: minus_pyfloat_def zero_Fin is_float_def intro: fl_le_Fin)
  have cq: "Fin c \<le> Fin c + m" "0 \<le> Fin c + m"
    using m c(2) \<open>is_float (Fin c)\<close> by (cases m; auto simp: zero_Fin is_float_def intro: fl_ge_Fin fl_nonneg [unfolded zero_Fin])+
  have dd: "0 < Fin d" using d(2) by (simp add: zero_Fin)
  obtain lo where lo: "fdiv (Fin c - m) (Fin d) = ok lo" using fdiv_pos_ok dd by blast
  obtain hi where hi: "fdiv (Fin c + m) (Fin d) = ok hi" using fdiv_pos_ok dd by blast
  have nn: "lo \<noteq> NaN" "hi \<noteq> NaN"
    using lo hi d(2) le_not_nan(1) [OF cm] le_not_nan(2) [OF cq(2)] by (auto split: pyfloat.splits if_splits)
  have "fdiv (Fin d) (Fin d) = ok 1" "fdiv 0 (Fin d) = ok 0" using d(2) by (simp_all add: zero_Fin) 
  moreover have "Fin c - m \<le> Fin d" using cm c(3) le_trans_pyfloat [of _ "Fin c" "Fin d"] by simp
  ultimately have b: "lo \<le> 1" "0 \<le> hi" "lo \<le> hi"
    using fdiv_mono [OF _ dd lo, of "Fin d" 1] fdiv_mono [OF cq(2) dd _ hi, of 0] fdiv_mono [OF le_trans_pyfloat [OF cm cq(1)] dd lo hi] nn
    by (simp_all add: zero_Fin one_Fin)
  have "wilson_ci wins n = ok (pymax 0 lo, pymin 1 hi)"
    using False ph(1) z(2) zn(1) z2n(1) cp(1) v0(1) v(1) z4n(1) s(1) d(1) c(1) lo(1) hi(1)
    by (simp del: fdiv.simps times_pyfloat.simps plus_pyfloat.simps add: wilson_ci_def N_def [symmetric] N2_def [symmetric] N4_def [symmetric] m_def [symmetric] Let_def)
  then show ?thesis using b
    by (cases lo; cases hi; auto simp: pymax_def pymin_def zero_Fin one_Fin)
qed

lemma drawdown_loop_nonneg: "drawdown_loop (p, d) xs = ok (p', d') \<Longrightarrow> 0 \<le> d \<Longrightarrow> 0 \<le> d'"
proof (induction xs arbitrary: p d)
  case (Cons x xs)
  obtain p1 d1 where s: "drawdown_step (p, d) x = ok (p1, d1)" "drawdown_loop (p1, d1) xs = ok (p', d')"
    using Cons.prems(1) by (auto simp: rbind_eq_Inr)
  have "d \<le> pymax d e" if "0 \<le> d" for d e
    using that by (cases d; cases e) (auto simp: pymax_def zero_Fin)
  then have "0 \<le> d1" using s(1) Cons.prems(2) le_trans_pyfloat
    by (auto simp: drawdown_step_def Let_def rbind_eq_Inr split: if_splits)
  then show ?case using Cons.IH [OF s(2)] by blast
qed simp

lemma fl_cap: "fl (2 ^ 53) = Fin (2 ^ 53)" "fl (2 ^ 53 + 2) = Fin (2 ^ 53 + 2)" "fl 2 = Fin 2"
  by (simp_all add: fl_eval float_eval)

lemma bayes_unit:
  assumes "w \<le> n" "n < 2 ^ 53"
  shows "\<exists>r. fdiv (float_of_int (int w) + 1) (float_of_int (int n) + fl 2) = ok r \<and> 0 \<le> r \<and> r \<le> 1"
proof -
  have "of_nat n \<le> (2 ^ 53 :: rat)" using assms(2) by (metis less_imp_le of_nat_le_iff of_nat_numeral of_nat_power)
  then have n: "fl (of_nat n) \<le> Fin (2 ^ 53)" using fl_mono fl_cap(1) by metis
  have wn: "fl (of_nat w) \<le> fl (of_nat n)" using assms(1) by (intro fl_mono) simp
  obtain a where a: "fl (of_nat w) = Fin a" "0 \<le> a" "a \<le> 2 ^ 53"
    using between_Fin [OF fl_nonneg le_trans_pyfloat [OF wn n]] by auto
  obtain b where b: "fl (of_nat n) = Fin b" "0 \<le> b" "b \<le> 2 ^ 53" using between_Fin [OF fl_nonneg n] by auto
  have ab: "a \<le> b" using wn a(1) b(1) by simp
  have d: "fl (b + 2) \<le> Fin (2 ^ 53 + 2)" "Fin 2 \<le> fl (b + 2)"
    using fl_mono [of "b + 2" "2 ^ 53 + 2"] fl_mono [of 2 "b + 2"] b fl_cap by simp_all
  have c: "fl (a + 1) \<le> fl (b + 2)" "0 \<le> fl (a + 1)" using a(2) ab by (auto intro: fl_mono fl_nonneg)
  obtain d' where d': "fl (b + 2) = Fin d'" "2 \<le> d'" using d by (cases "fl (b + 2)") auto
  obtain c' where c': "fl (a + 1) = Fin c'" "0 \<le> c'" "c' \<le> d'" using between_Fin [of "fl (a + 1)" d'] c d'(1) by auto
  have "0 \<le> c' / d'" "c' / d' \<le> 1" using c' d'(2) by (simp_all add: divide_le_eq)
  then show ?thesis using a(1) b(1) c'(1) d' fl_unit [of "c' / d'"] fl_cap(3) by (simp add: float_of_int_def one_Fin)
qed

text \<open>The rates of a report are rates: whatever the (fewer than \<open>2 ^ 53\<close>) trades and the curve, in a report that is built the win rate and
  its Bayesian estimate lie between 0 and 1, the confidence interval is a proper interval within 0 and 1, and the maximal drawdown
  is not negative.\<close>

theorem report_rates_are_rates:
  assumes "build_report powf start final curve trades breakeven = ok r" "length trades < 2 ^ 53"
  shows "0 \<le> br_win_rate r \<and> br_win_rate r \<le> 1 \<and> 0 \<le> br_bayesian_win_rate r \<and> br_bayesian_win_rate r \<le> 1 \<and>
    0 \<le> br_ci_low r \<and> br_ci_low r \<le> br_ci_high r \<and> br_ci_high r \<le> 1 \<and> 0 \<le> br_max_drawdown r"
proof -
  obtain peak dd where dd: "drawdown_loop (hd curve, 0) curve = ok (peak, dd)" "br_max_drawdown r = dd"
    and rate: "(if trades = [] then ok 0 else int_div (length (winners trades)) (length trades)) = ok (br_win_rate r)"
    and bayes: "fdiv (float_of_int (int (length (winners trades))) + 1) (float_of_int (int (length trades)) + fl 2)
      = ok (br_bayesian_win_rate r)"
    and ci: "wilson_ci (length (winners trades)) (length trades) = ok (br_ci_low r, br_ci_high r)"
    using assms(1) by (auto simp: build_report_def rbind_eq_Inr Let_def split: list.splits)
  have w: "length (winners trades) \<le> length trades" by (simp add: winners_def)
  have "0 \<le> br_win_rate r \<and> br_win_rate r \<le> 1"
    using rate int_div_unit [OF w] by (cases "br_win_rate r") (auto simp: zero_Fin one_Fin split: if_splits)
  then show ?thesis using bayes_unit [OF w assms(2)] bayes wilson_ci_ok [OF w] ci dd drawdown_loop_nonneg [OF dd(1)] by (auto simp: zero_Fin)
qed

definition winning_trade :: trade where
  "winning_trade = \<lparr>td_asset = ''BTC/USDT'', td_side = LONG, td_entry_time = 0, td_exit_time = 60000000, td_entry_fill = Fin 100,
     td_exit_fill = Fin 110, td_stop_price = Fin 95, td_target_price = Fin 110, td_position_size = 1, td_net_pnl = Fin 10,
     td_r_multiple = Fin 2, td_exit_reason = ''target''\<rparr>"

definition small_pow :: "pyfloat \<Rightarrow> nat \<Rightarrow> pyfloat res" where
  "small_pow x k = ok (if k = 0 then 1 else x)"

lemma one_trade_report: "\<exists>r. build_report small_pow (Fin 100) (Fin 110) [Fin 100, Fin 110] [winning_trade] None = ok r"
proof -
  obtain lo hi where "wilson_ci 1 1 = ok (lo, hi)" using wilson_ci_ok [of 1 1] by auto
  moreover have "[1..<Suc (Suc 0)] = [1 :: nat]" by (simp add: upt_rec)
  ultimately show ?thesis
    by (simp add: build_report_def curve_returns_def sharpe_of_def sortino_of_def downside_dev_def tail_var_99_of_def len_float_def
        fsort_def sort_by_desc_def drawdown_step_def winners_def winning_trade_def breakeven_win_rate_of_def binomial_sf_def
        binomial_term_def small_pow_def int_to_float_def int_div_def smean_def rat_sum_def fin_part_def is_finite_def float_of_int_def
        feq_def pymax_def minus_pyfloat_def fl_eval float_eval zero_Fin one_Fin Let_def)
qed

theorem report_rates_are_rates_witness:
  "\<exists>r. build_report small_pow (Fin 100) (Fin 110) [Fin 100, Fin 110] [winning_trade] None = ok r \<and> br_win_rate r \<le> 1 \<and>
    br_ci_low r \<le> br_ci_high r"
proof -
  obtain r where r: "build_report small_pow (Fin 100) (Fin 110) [Fin 100, Fin 110] [winning_trade] None = ok r"
    using one_trade_report by blast
  then show ?thesis using report_rates_are_rates [OF r] by auto
qed

section \<open>The range of the binomial test\<close>

lemma central_choose: "2 ^ n \<le> (n + 1) * (n choose (n div 2))"
proof -
  have "2 ^ n = (\<Sum>k\<le>n. n choose k)" by (simp add: choose_row_sum)
  also have "\<dots> \<le> (\<Sum>k\<le>n. n choose (n div 2))" by (intro sum_mono binomial_maximum)
  finally show ?thesis by simp
qed

lemma pow_bound: "1035 \<le> n \<Longrightarrow> 2 ^ 1024 * (n + 1) \<le> (2 :: nat) ^ n"
proof (induction n rule: nat_induct_at_least)
  case base
  have "2 ^ 1024 * (1035 + 1) \<le> (2 :: nat) ^ 1024 * 2 ^ 11" by (intro mult_le_mono2) simp
  then show ?case by (simp only: power_add [symmetric]) simp
next
  case (Suc n)
  then show ?case by simp
qed

lemma choose_overflows: "1035 \<le> n \<Longrightarrow> 2 ^ 1024 \<le> n choose (n div 2)"
proof -
  assume n: "1035 \<le> n"
  have "2 ^ 1024 * (n + 1) \<le> (n choose (n div 2)) * (n + 1)"
    using pow_bound [OF n] central_choose [of n] by (simp only: mult.commute)
  then show ?thesis by (simp only: mult_le_cancel2)
qed

lemma fl_2_1024: "fl (2 ^ 1024) = PInf"
  using rnd64_grid [of 1 1024] by (simp add: fl_def Let_def)

lemma huge_int: "2 ^ 1024 \<le> k \<Longrightarrow> int_to_float (int k) = raise OverflowError"
proof -
  assume "2 ^ 1024 \<le> k"
  then have "(2 ^ 1024 :: rat) \<le> of_nat k" by (metis of_nat_le_iff of_nat_numeral of_nat_power)
  then have "PInf \<le> fl (of_nat k)" using fl_mono fl_2_1024 by metis
  then have "fl (of_nat k) = PInf" by (cases "fl (of_nat k)") auto
  then show ?thesis by (simp add: int_to_float_def float_of_int_def is_finite_def)
qed

lemma map_res_raises: "x \<in> set xs \<Longrightarrow> \<not> is_ok (f x) \<Longrightarrow> \<not> is_ok (map_res f xs)"
  by (induction xs) (auto simp: is_ok_def rbind_def split: sum.splits)

lemma binomial_raises: "1035 \<le> n \<Longrightarrow> 2 * k \<le> n \<Longrightarrow> \<not> is_ok (binomial_sf powf k n p)"
proof -
  assume n: "1035 \<le> n" "2 * k \<le> n"
  have "\<not> is_ok (binomial_term powf n p (n div 2))"
    using huge_int [OF choose_overflows [OF n(1)]] by (auto simp: binomial_term_def rbind_def is_ok_def split: sum.splits)
  then have "\<not> is_ok (map_res (binomial_term powf n p) [k..<n + 1])" by (rule map_res_raises [rotated]) (use n in auto)
  then show ?thesis by (auto simp del: upt_Suc simp: binomial_sf_def rbind_def is_ok_def split: sum.splits)
qed

text \<open>C23: The report of a long backtest fails: with 1035 trades or more, at most half of them winners, \<open>_build_report\<close> raises,
  whatever the trades are; the exact binomial sum multiplies a binomial coefficient that is beyond the range of a float.\<close>

theorem long_backtest_has_no_report:
  assumes "1035 \<le> length trades" "2 * length (winners trades) \<le> length trades"
  shows "\<not> is_ok (build_report powf start final curve trades breakeven)"
proof
  assume "is_ok (build_report powf start final curve trades breakeven)"
  then obtain r where "build_report powf start final curve trades breakeven = ok r" by (auto simp: is_ok_def split: sum.splits)
  then obtain p pv where "(if length trades = 0 then ok 1 else binomial_sf powf (length (winners trades)) (length trades) p) = ok pv"
    by (auto simp: build_report_def rbind_eq_Inr Let_def)
  then have "is_ok (binomial_sf powf (length (winners trades)) (length trades) p)" using assms(1) by (auto split: if_splits)
  then show False using binomial_raises [OF assms] by blast
qed

definition losing_trade :: trade where
  "losing_trade = winning_trade\<lparr>td_exit_fill := Fin 95, td_net_pnl := Fin (- 5), td_r_multiple := Fin (- 1), td_exit_reason := ''stop''\<rparr>"

theorem long_backtest_has_no_report_witness:
  "\<not> is_ok (build_report small_pow (Fin 10000) (Fin 4825) [Fin 10000, Fin 4825] (replicate 1035 losing_trade) None)"
proof -
  have "winners (replicate 1035 losing_trade) = []" by (simp add: winners_def losing_trade_def zero_Fin)
  then show ?thesis using long_backtest_has_no_report [of "replicate 1035 losing_trade"] by (simp del: replicate.simps)
qed

end
