(* ===== verification/Portfolio.thy ===== *)
theory Portfolio
  imports Report "HOL-Library.List_Lexorder" "HOL-Library.Char_ord" "HOL-Library.Product_Lexorder"
begin

text \<open>
  \<open>backtest/portfolio.py\<close>: the replay of many assets through one account.  \<open>corr\<close> is \<open>log_return_correlation\<close> with the
  C library's logarithm and \<open>statistics.correlation\<close> as its parameters; asset names are compared by code points.
\<close>

section \<open>Events and books\<close>

datatype fold_boundary_action = FORCE_CLOSE | PURGE_OVERLAP

record portfolio_trade = open_trade +
  pt_risk_pct :: pyfloat
  pt_asset_class :: string

record portfolio =
  pf_settled :: pyfloat
  pf_peak :: pyfloat
  pf_curve :: "pyfloat list"
  pf_trades :: "trade list"
  pf_open :: "(string, portfolio_trade) dict"
  pf_last_close :: "(string, pyfloat) dict"
  pf_engine :: engine

record portfolio_env =
  pe_candles :: "(string, candle list) dict"
  pe_strategy :: strategy
  pe_account :: account_state
  pe_config :: backtest_config
  pe_logf :: "pyfloat \<Rightarrow> pyfloat res"
  pe_corr :: "pyfloat list \<Rightarrow> pyfloat list \<Rightarrow> pyfloat option"

definition candles_of :: "portfolio_env \<Rightarrow> string \<Rightarrow> candle list" where
  "candles_of env asset = dget_or (pe_candles env) asset []"

text \<open>Every bar of every asset, by time, then asset, then place.\<close>

definition asset_events :: "string \<Rightarrow> candle list \<Rightarrow> (int \<times> string \<times> nat) list" where
  "asset_events asset candles = map (\<lambda>i. (cd_ts (candles ! i), asset, i)) [0..<length candles]"

definition timeline :: "(string, candle list) dict \<Rightarrow> (int \<times> string \<times> nat) list" where
  "timeline candles = sort (concat (map (\<lambda>(a, cs). asset_events a cs) candles))"

definition open_position :: "string \<times> portfolio_trade \<Rightarrow> position" where
  "open_position x = (case x of (asset, t) \<Rightarrow> \<lparr>ps_asset = asset, ps_asset_class = pt_asset_class t, ps_side = ot_side t,
     ps_entry_price = ot_entry_fill t, ps_stop_price = ot_stop_price t, ps_risk_pct = pt_risk_pct t,
     ps_position_size = ot_position_size t\<rparr>)"

text \<open>The positions the risk engine sees have the default size.\<close>

definition risk_position :: "string \<times> portfolio_trade \<Rightarrow> position" where
  "risk_position x = (open_position x)\<lparr>ps_position_size := 1\<rparr>"

definition mark_prices :: "portfolio \<Rightarrow> (string \<rightharpoonup> pyfloat) res" where
  "mark_prices st = rbind (map_res (\<lambda>asset. case dget (pf_last_close st) asset of
       None \<Rightarrow> raise (KeyError asset) | Some c \<Rightarrow> ok (asset, c)) (dkeys (pf_open st))) (\<lambda>kvs. ok (map_of kvs))"

definition curve_point :: "portfolio_env \<Rightarrow> portfolio \<Rightarrow> pyfloat res" where
  "curve_point env st = rbind (mark_prices st) (\<lambda>marks.
     ok (marked_equity ((pe_account env)\<lparr>equity := pf_settled st, peak_equity := pf_peak st,
       open_positions := map open_position (pf_open st)\<rparr>) marks))"

definition add_point :: "portfolio_env \<Rightarrow> portfolio \<Rightarrow> portfolio res" where
  "add_point env st = rbind (curve_point env st) (\<lambda>p. ok (st\<lparr>pf_curve := pf_curve st @ [p]\<rparr>))"

section \<open>One event\<close>

definition settle_asset :: "backtest_config \<Rightarrow> string \<Rightarrow> portfolio_trade \<Rightarrow> pyfloat \<Rightarrow> datetime \<Rightarrow> string \<Rightarrow> portfolio \<Rightarrow> portfolio res" where
  "settle_asset cfg asset ot price now reason st = rbind (close_trade ot price now reason asset cfg) (\<lambda>(t, net).
     ok (st\<lparr>pf_settled := pf_settled st + net, pf_trades := pf_trades st @ [t], pf_open := ddel asset (pf_open st)\<rparr>))"

definition held_event :: "portfolio_env \<Rightarrow> string \<Rightarrow> candle list \<Rightarrow> portfolio_trade \<Rightarrow> portfolio \<Rightarrow> portfolio res" where
  "held_event env asset seen ot0 st =
    (let c = last seen; ot = ot0\<lparr>ot_bars_held := ot_bars_held ot0 + 1\<rparr>; cfg = pe_config env in
     case exit_or_time cfg (ot_bars_held ot) (cd_close c)
       (check_exit (ot_side ot) (ot_stop_price ot) (ot_target_price ot) (cd_high c) (cd_low c)) of
       Some (price, reason) \<Rightarrow> rbind (settle_asset cfg asset ot price (datetime_of_ms (cd_ts c)) reason st) (\<lambda>st1.
         add_point env (st1\<lparr>pf_peak := pymax (pf_peak st1) (pf_settled st1)\<rparr>))
     | None \<Rightarrow> rbind (trail_stop cfg seen ot) (\<lambda>stop.
         add_point env (st\<lparr>pf_open := dset asset (ot\<lparr>ot_stop_price := stop\<rparr>) (pf_open st)\<rparr>)))"

text \<open>The correlations of the asset with every open position, from the bars before the event.\<close>

definition correlations_at :: "portfolio_env \<Rightarrow> string \<Rightarrow> int \<Rightarrow> portfolio \<Rightarrow> (string set \<rightharpoonup> pyfloat) res" where
  "correlations_at env asset ts st = rbind (map_res (\<lambda>other.
       rbind (log_return_correlation (pe_logf env) (pe_corr env) 90 30 (candles_of env other) (candles_of env asset) ts) (\<lambda>c.
         ok ({other, asset}, c))) (dkeys (pf_open st))) (\<lambda>kvs.
     ok (foldl (\<lambda>m (k, c). case c of None \<Rightarrow> m | Some r \<Rightarrow> m(k \<mapsto> r)) Map.empty kvs))"

definition opened_asset :: "backtest_config \<Rightarrow> datetime \<Rightarrow> approved_order \<Rightarrow> portfolio_trade" where
  "opened_asset cfg now order = \<lparr>ot_entry_time = now, ot_side = ao_side order,
     ot_entry_fill = apply_slippage (ao_entry_price order) (ao_side order) True cfg, ot_stop_price = ao_stop_price order,
     ot_initial_stop_price = ao_stop_price order, ot_target_price = ao_target_price order,
     ot_position_size = ao_position_size order, ot_bars_held = 0, pt_risk_pct = ao_risk_pct order,
     pt_asset_class = ao_asset_class order\<rparr>"

definition flat_event :: "portfolio_env \<Rightarrow> string \<Rightarrow> int \<Rightarrow> candle list \<Rightarrow> portfolio \<Rightarrow> portfolio res" where
  "flat_event env asset ts seen st =
    (let now = datetime_of_ms ts in
     rbind (pe_strategy env seen asset now) (\<lambda>signal. case signal of
       None \<Rightarrow> add_point env st
     | Some sg \<Rightarrow> rbind (correlations_at env asset ts st) (\<lambda>cors.
         case evaluate sg ((pe_account env)\<lparr>equity := pf_settled st, peak_equity := pf_peak st,
             open_positions := map risk_position (pf_open st), correlations := cors\<rparr>) (pf_engine st) of
           (Inl e, _) \<Rightarrow> Inl e
         | (Inr d, eng) \<Rightarrow> (case (dec_approved d, dec_order d) of
             (True, Some order) \<Rightarrow> add_point env (st\<lparr>pf_engine := eng,
                 pf_open := dset asset (opened_asset (pe_config env) now order) (pf_open st)\<rparr>)
           | (True, None) \<Rightarrow> raise (AttributeError ''entry_price'')
           | (False, _) \<Rightarrow> add_point env (st\<lparr>pf_engine := eng\<rparr>)))))"

definition event :: "portfolio_env \<Rightarrow> int \<times> string \<times> nat \<Rightarrow> portfolio \<Rightarrow> portfolio res" where
  "event env ev st0 = (case ev of (ts, asset, i) \<Rightarrow>
     (let seen = take (Suc i) (candles_of env asset);
          st = st0\<lparr>pf_last_close := dset asset (cd_close (last seen)) (pf_last_close st0)\<rparr> in
      case dget (pf_open st) asset of
        Some ot \<Rightarrow> held_event env asset seen ot st
      | None \<Rightarrow> flat_event env asset ts seen st))"

fun run_events :: "portfolio_env \<Rightarrow> (int \<times> string \<times> nat) list \<Rightarrow> portfolio \<Rightarrow> portfolio res" where
  "run_events env [] st = ok st"
| "run_events env (ev # evs) st = rbind (event env ev st) (run_events env evs)"

section \<open>The replay\<close>

definition new_portfolio :: "account_state \<Rightarrow> engine \<Rightarrow> portfolio" where
  "new_portfolio account eng = \<lparr>pf_settled = equity account, pf_peak = peak_equity account, pf_curve = [], pf_trades = [],
     pf_open = [], pf_last_close = [], pf_engine = eng\<rparr>"

definition boundary_exit :: "fold_boundary_action option \<Rightarrow> string \<Rightarrow> portfolio_trade \<Rightarrow> string res" where
  "boundary_exit action asset ot = (if action = Some FORCE_CLOSE
     then rbind (new_ApprovedExit \<lparr>ax_asset = asset, ax_asset_class = pt_asset_class ot, ax_reason = ''cpcv_fold_force_close'',
         ax_issuer = ISSUER\<rparr>) (\<lambda>ex. ok (ax_reason ex))
     else ok ''end_of_data'')"

text \<open>The end of the data: every asset still open is closed at its own last bar.\<close>

fun close_all :: "portfolio_env \<Rightarrow> fold_boundary_action option \<Rightarrow> (string \<times> portfolio_trade) list \<Rightarrow> portfolio \<Rightarrow> portfolio res" where
  "close_all env action [] st = ok st"
| "close_all env action ((asset, ot) # rest) st =
    (let c = last (candles_of env asset) in
     rbind (boundary_exit action asset ot) (\<lambda>reason.
     rbind (settle_asset (pe_config env) asset ot (cd_close c) (datetime_of_ms (cd_ts c)) reason st)
       (close_all env action rest)))"

definition replay_portfolio :: "portfolio_env \<Rightarrow> fold_boundary_action option \<Rightarrow> engine \<Rightarrow> portfolio res" where
  "replay_portfolio env action eng =
    rbind (add_point env (new_portfolio (pe_account env) eng)) (\<lambda>st0.
    rbind (run_events env (timeline (pe_candles env)) st0) (\<lambda>st1.
    rbind (close_all env action (pf_open st1) st1) (\<lambda>st2.
      ok (st2\<lparr>pf_curve := butlast (pf_curve st2) @ [pf_settled st2]\<rparr>))))"

definition run_portfolio_backtest :: "(pyfloat \<Rightarrow> nat \<Rightarrow> pyfloat res) \<Rightarrow> portfolio_env \<Rightarrow> fold_boundary_action option \<Rightarrow> engine
    \<Rightarrow> pyfloat option \<Rightarrow> backtest_result res" where
  "run_portfolio_backtest powf env action eng breakeven =
    rbind (replay_portfolio env action eng) (\<lambda>st.
    rbind (build_report powf (equity (pe_account env)) (pf_settled st) (pf_curve st) (pf_trades st) breakeven) (\<lambda>r.
      ok \<lparr>bt_report = r, bt_trades = pf_trades st, bt_curve = pf_curve st\<rparr>))"

section \<open>No look-ahead\<close>

definition extended :: "(string \<Rightarrow> candle list) \<Rightarrow> portfolio_env \<Rightarrow> portfolio_env" where
  "extended later env = env\<lparr>pe_candles := map (\<lambda>(a, cs). (a, cs @ later a)) (pe_candles env)\<rparr>"

definition events_until :: "int \<Rightarrow> (string, candle list) dict \<Rightarrow> (int \<times> string \<times> nat) list" where
  "events_until t candles = takeWhile (\<lambda>(ts, _). ts \<le> t) (timeline candles)"

lemma sorted_takeWhile: "sorted (xs :: (int \<times> 'a :: linorder) list) \<Longrightarrow> takeWhile (\<lambda>(t, _). t \<le> b) xs = filter (\<lambda>(t, _). t \<le> b) xs"
proof (induction xs)
  case (Cons x xs)
  show ?case
  proof (cases "fst x \<le> b")
    case False
    have "filter (\<lambda>(t, _). t \<le> b) xs = []"
    proof (rule filter_all_not)
      fix y assume "y \<in> set xs"
      then have "x \<le> y" using Cons.prems by simp
      then have "fst x \<le> fst y" by (auto simp: less_eq_prod_def)
      then show "\<not> (case y of (t, _) \<Rightarrow> t \<le> b)" using False by (cases y) auto
    qed
    then show ?thesis using False by (cases x) auto
  qed (use Cons in \<open>cases x; auto\<close>)
qed simp

lemma later_events:
  assumes "\<forall>c \<in> set later. t < cd_ts c"
  shows "filter (\<lambda>(ts, _). ts \<le> t) (asset_events a (cs @ later)) = filter (\<lambda>(ts, _). ts \<le> t) (asset_events a cs)"
proof -
  have "[0..<length cs + length later] = [0..<length cs] @ [length cs..<length cs + length later]"
    using upt_add_eq_append [of 0 "length cs" "length later"] by simp
  moreover have "filter (\<lambda>(ts, _). ts \<le> t) (map (\<lambda>i. (cd_ts ((cs @ later) ! i), a, i)) [length cs..<length cs + length later]) = []"
    using assms by (auto intro!: filter_all_not simp: nth_append)
      (metis add.commute less_diff_conv2 linorder_not_less nth_mem)
  moreover have m: "map (\<lambda>i. (cd_ts ((cs @ later) ! i), a, i)) [0..<length cs] = map (\<lambda>i. (cd_ts (cs ! i), a, i)) [0..<length cs]"
    by (auto simp: nth_append)
  ultimately show ?thesis unfolding asset_events_def by (simp only: length_append map_append filter_append m append_Nil2)
qed

lemma events_until_extended:
  assumes "\<forall>a. \<forall>c \<in> set (later a). t < cd_ts c"
  shows "events_until t (pe_candles (extended later env)) = events_until t (pe_candles env)"
proof -
  have "filter (\<lambda>(ts, _). ts \<le> t) (concat (map (\<lambda>(a, cs). asset_events a cs) (map (\<lambda>(a, cs). (a, cs @ later a)) d))) =
      filter (\<lambda>(ts, _). ts \<le> t) (concat (map (\<lambda>(a, cs). asset_events a cs) d))" for d
    by (induction d) (use later_events assms in auto)
  then show ?thesis
    by (simp add: events_until_def timeline_def sorted_takeWhile filter_sort extended_def)
qed

lemma candles_of_extended: "\<exists>l. candles_of (extended later env) a = candles_of env a @ l \<and> set l \<subseteq> set (later a)"
  by (auto simp: candles_of_def extended_def dget_or_def map_of_map_snd split: option.splits)

lemma correlations_extended:
  assumes "\<forall>a. \<forall>c \<in> set (later a). t < cd_ts c" "ts \<le> t"
  shows "correlations_at (extended later env) asset ts st = correlations_at env asset ts st"
proof -
  have "log_return_correlation lf co 90 30 (candles_of (extended later env) o') (candles_of (extended later env) asset) ts =
      log_return_correlation lf co 90 30 (candles_of env o') (candles_of env asset) ts" for lf co o'
  proof -
    obtain la lb where l: "candles_of (extended later env) o' = candles_of env o' @ la" "set la \<subseteq> set (later o')"
      "candles_of (extended later env) asset = candles_of env asset @ lb" "set lb \<subseteq> set (later asset)"
      using candles_of_extended by metis
    have "ts \<le> cd_ts c" if "c \<in> set la \<union> set lb" for c
      using that l(2,4) assms by (auto dest!: subsetD) (metis le_less_trans less_imp_le)+
    then show ?thesis using correlation_is_causal l(1,3) by simp
  qed
  then show ?thesis by (simp add: correlations_at_def extended_def)
qed

lemma add_point_extended [simp]: "add_point (extended later env) = add_point env"
  by (rule ext) (simp add: add_point_def curve_point_def extended_def)

lemma event_extended:
  assumes "\<forall>a. \<forall>c \<in> set (later a). t < cd_ts c" "ts \<le> t" "i < length (candles_of env a)"
  shows "event (extended later env) (ts, a, i) st = event env (ts, a, i) st"
proof -
  have seen: "take (Suc i) (candles_of (extended later env) a) = take (Suc i) (candles_of env a)"
    using candles_of_extended [of later env a] assms(3) by auto
  have "pe_config (extended later env) = pe_config env" "pe_strategy (extended later env) = pe_strategy env"
    "pe_account (extended later env) = pe_account env" by (simp_all add: extended_def)
  then show ?thesis
    unfolding event_def held_event_def flat_event_def Let_def prod.case seen
    by (simp only: correlations_extended [OF assms(1,2)] add_point_extended)
qed

lemma run_events_extended:
  assumes "\<forall>a. \<forall>c \<in> set (later a). t < cd_ts c"
    "\<forall>(ts, a, i) \<in> set evs. ts \<le> t \<and> i < length (candles_of env a)"
  shows "run_events (extended later env) evs st = run_events env evs st"
  using assms(2)
proof (induction evs arbitrary: st)
  case (Cons ev evs)
  obtain ts a i where ev: "ev = (ts, a, i)" by (cases ev)
  then have "event (extended later env) ev st = event env ev st" using event_extended [OF assms(1)] Cons.prems by simp
  moreover have "run_events (extended later env) evs = run_events env evs" using Cons by (intro ext) simp
  ultimately show ?case by simp
qed simp

text \<open>C24: A portfolio replay never looks ahead: when every asset's data is extended by bars after a time, all bars up to that time
  are replayed to the same state, whatever the strategy, the risk engine's state and the correlation function are.\<close>

theorem portfolio_never_looks_ahead:
  assumes "wf_dict (pe_candles env)" "\<forall>a. \<forall>c \<in> set (later a). t < cd_ts c"
  shows "run_events (extended later env) (events_until t (pe_candles (extended later env))) st =
    run_events env (events_until t (pe_candles env)) st"
proof -
  have "\<forall>(ts, a, i) \<in> set (events_until t (pe_candles env)). ts \<le> t \<and> i < length (candles_of env a)"
    using assms(1) dget_in_set [OF assms(1)]
    by (fastforce simp: events_until_def timeline_def sorted_takeWhile asset_events_def candles_of_def dget_or_def)
  then show ?thesis using run_events_extended [OF assms(2)] events_until_extended [OF assms(2)] by simp
qed

definition quiet_env :: "candle list \<Rightarrow> portfolio_env" where
  "quiet_env candles = \<lparr>pe_candles = [(''BTC/USDT'', candles)], pe_strategy = buy_once, pe_account = demo_account,
     pe_config = frictionless, pe_logf = ok, pe_corr = (\<lambda>_ _. None)\<rparr>"

definition next_bar :: "string \<Rightarrow> candle list" where
  "next_bar asset = [\<lparr>cd_ts = 120000, cd_open = Fin 50, cd_high = Fin 50, cd_low = Fin 40, cd_close = Fin 45, cd_volume = 0\<rparr>]"

theorem portfolio_never_looks_ahead_witness:
  "run_events (extended next_bar (quiet_env rally)) (events_until 60000 (pe_candles (extended next_bar (quiet_env rally))))
      (new_portfolio demo_account demo_engine) =
    run_events (quiet_env rally) (events_until 60000 (pe_candles (quiet_env rally))) (new_portfolio demo_account demo_engine)"
  by (rule portfolio_never_looks_ahead) (simp_all add: quiet_env_def wf_dict_def next_bar_def)

section \<open>The books\<close>

definition books :: "portfolio_env \<Rightarrow> nat \<Rightarrow> portfolio \<Rightarrow> bool" where
  "books env n st \<longleftrightarrow> pf_settled st = foldl (+) (equity (pe_account env)) (map td_net_pnl (pf_trades st)) \<and>
     length (pf_curve st) = n \<and> wf_dict (pf_open st)"

lemma add_point_ok: "add_point env st = ok st1 \<Longrightarrow> \<exists>p. st1 = st\<lparr>pf_curve := pf_curve st @ [p]\<rparr>"
  by (auto simp: add_point_def rbind_eq_Inr)

lemma books_add_point: "add_point env st = ok st1 \<Longrightarrow> books env n st \<Longrightarrow> books env (Suc n) st1"
  using add_point_ok by (fastforce simp: books_def)

lemma settle_asset_ok:
  assumes "settle_asset cfg asset ot price now reason st = ok st1"
  shows "\<exists>t. td_exit_reason t = reason \<and> td_asset t = asset \<and>
    st1 = st\<lparr>pf_settled := pf_settled st + td_net_pnl t, pf_trades := pf_trades st @ [t], pf_open := ddel asset (pf_open st)\<rparr>"
proof -
  obtain t net where t: "close_trade ot price now reason asset cfg = ok (t, net)"
    "st1 = st\<lparr>pf_settled := pf_settled st + net, pf_trades := pf_trades st @ [t], pf_open := ddel asset (pf_open st)\<rparr>"
    using assms by (auto simp: settle_asset_def rbind_eq_Inr)
  moreover have "td_asset t = asset" using t(1) by (auto simp: close_trade_def rbind_eq_Inr Let_def)
  ultimately show ?thesis using close_trade_ok [OF t(1)] by blast
qed

lemma books_settle: "settle_asset cfg asset ot price now reason st = ok st1 \<Longrightarrow> books env n st \<Longrightarrow> books env n st1"
  using settle_asset_ok by (fastforce simp: books_def wf_dict_ddel)

lemma books_held:
  assumes "held_event env asset seen ot st = ok st1" "books env n st"
  shows "books env (Suc n) st1"
proof -
  define c where "c = last seen"
  define ot1 where "ot1 = ot\<lparr>ot_bars_held := ot_bars_held ot + 1\<rparr>"
  define x where "x = exit_or_time (pe_config env) (ot_bars_held ot1) (cd_close c)
       (check_exit (ot_side ot1) (ot_stop_price ot1) (ot_target_price ot1) (cd_high c) (cd_low c))"
  note folded = held_event_def Let_def c_def [symmetric] ot1_def [symmetric] x_def [symmetric] rbind_eq_Inr
  show ?thesis
  proof (cases x)
    case None
    then obtain stop where "add_point env (st\<lparr>pf_open := dset asset (ot1\<lparr>ot_stop_price := stop\<rparr>) (pf_open st)\<rparr>) = ok st1"
      using assms(1) by (auto simp: folded)
    then show ?thesis using assms(2) books_add_point wf_dict_dset by (fastforce simp: books_def)
  next
    case (Some pr)
    obtain price reason where pr: "pr = (price, reason)" by force
    obtain st2 where st2: "settle_asset (pe_config env) asset ot1 price (datetime_of_ms (cd_ts c)) reason st = ok st2"
      "add_point env (st2\<lparr>pf_peak := pymax (pf_peak st2) (pf_settled st2)\<rparr>) = ok st1"
      using assms(1) Some pr by (auto simp: folded)
    have "books env n (st2\<lparr>pf_peak := pymax (pf_peak st2) (pf_settled st2)\<rparr>)"
      using books_settle [OF st2(1) assms(2)] by (simp add: books_def)
    then show ?thesis using books_add_point [OF st2(2)] by blast
  qed
qed

lemma books_flat:
  assumes "flat_event env asset ts seen st = ok st1" "books env n st"
  shows "books env (Suc n) st1"
proof -
  obtain sig where sig: "pe_strategy env seen asset (datetime_of_ms ts) = ok sig"
    using assms(1) by (auto simp: flat_event_def Let_def rbind_eq_Inr)
  show ?thesis
  proof (cases sig)
    case None
    then show ?thesis using assms sig books_add_point by (simp add: flat_event_def Let_def)
  next
    case (Some sg)
    obtain cors where cors: "correlations_at env asset ts st = ok cors"
      using assms(1) sig Some by (auto simp: flat_event_def Let_def rbind_eq_Inr)
    obtain d eng where e: "evaluate sg ((pe_account env)\<lparr>equity := pf_settled st, peak_equity := pf_peak st,
             open_positions := map risk_position (pf_open st), correlations := cors\<rparr>) (pf_engine st) = (ok d, eng)"
      using assms(1) sig Some cors by (auto simp: flat_event_def Let_def split: prod.splits sum.splits)
    consider order where "dec_approved d" "dec_order d = Some order" | "\<not> dec_approved d"
      using assms(1) sig Some cors e by (cases "dec_order d"; cases "dec_approved d") (auto simp: flat_event_def Let_def)
    then show ?thesis
    proof cases
      case 1
      then have "add_point env (st\<lparr>pf_engine := eng,
                 pf_open := dset asset (opened_asset (pe_config env) (datetime_of_ms ts) order) (pf_open st)\<rparr>) = ok st1"
        using assms(1) sig Some cors e by (simp add: flat_event_def Let_def)
      then show ?thesis using assms(2) books_add_point wf_dict_dset by (fastforce simp: books_def)
    next
      case 2
      then have "add_point env (st\<lparr>pf_engine := eng\<rparr>) = ok st1"
        using assms(1) sig Some cors e by (simp add: flat_event_def Let_def)
      then show ?thesis using assms(2) books_add_point by (fastforce simp: books_def)
    qed
  qed
qed

lemma books_event: "event env ev st = ok st1 \<Longrightarrow> books env n st \<Longrightarrow> books env (Suc n) st1"
  by (cases ev) (auto simp: event_def Let_def books_def [of _ _ "_\<lparr>pf_last_close := _\<rparr>"] books_def [of env n st]
      intro: books_held books_flat split: option.splits)

lemma books_run: "run_events env evs st = ok st1 \<Longrightarrow> books env n st \<Longrightarrow> books env (n + length evs) st1"
proof (induction evs arbitrary: st n)
  case (Cons ev evs)
  obtain st2 where st2: "event env ev st = ok st2" "run_events env evs st2 = ok st1"
    using Cons.prems(1) by (auto simp: rbind_eq_Inr)
  then show ?case using Cons.IH [OF st2(2) books_event [OF st2(1) Cons.prems(2)]] by simp
qed simp

lemma books_close_all:
  "close_all env action ots st = ok st1 \<Longrightarrow> books env n st \<Longrightarrow>
    books env n st1 \<and> dkeys (pf_open st1) = filter (\<lambda>a. a \<notin> set (dkeys ots)) (dkeys (pf_open st))"
proof (induction ots arbitrary: st)
  case (Cons x ots)
  obtain asset ot where x: "x = (asset, ot)" by (cases x)
  obtain reason st2 where st2: "settle_asset (pe_config env) asset ot (cd_close (last (candles_of env asset)))
      (datetime_of_ms (cd_ts (last (candles_of env asset)))) reason st = ok st2" "close_all env action ots st2 = ok st1"
    using Cons.prems(1) by (auto simp: x Let_def rbind_eq_Inr)
  have "pf_open st2 = ddel asset (pf_open st)" using settle_asset_ok [OF st2(1)] by auto
  then have "dkeys (pf_open st2) = filter (\<lambda>a. a \<noteq> asset) (dkeys (pf_open st))"
    by (simp add: delete_keys removeAll_filter_not_eq eq_commute)
  then show ?case using Cons.IH [OF st2(2) books_settle [OF st2(1) Cons.prems(2)]]
    by (simp add: x)
qed simp

text \<open>The books of a portfolio replay balance: when it returns, no position is open, the settled equity is the starting
  equity plus the net results of all trades in their order, and the curve has one point per bar after the starting one and ends
  at the settled equity.\<close>

theorem portfolio_books_balance:
  assumes "replay_portfolio env action eng = ok st"
  shows "pf_open st = [] \<and> pf_settled st = foldl (+) (equity (pe_account env)) (map td_net_pnl (pf_trades st)) \<and>
    length (pf_curve st) = length (timeline (pe_candles env)) + 1 \<and> last (pf_curve st) = pf_settled st"
proof -
  obtain st0 st1 st2 where r: "add_point env (new_portfolio (pe_account env) eng) = ok st0"
    "run_events env (timeline (pe_candles env)) st0 = ok st1" "close_all env action (pf_open st1) st1 = ok st2"
    "st = st2\<lparr>pf_curve := butlast (pf_curve st2) @ [pf_settled st2]\<rparr>"
    using assms by (auto simp: replay_portfolio_def rbind_eq_Inr)
  have "books env 0 (new_portfolio (pe_account env) eng)" by (simp add: books_def new_portfolio_def)
  then have "books env 1 st0" using books_add_point [OF r(1)] by simp
  from books_close_all [OF r(3) books_run [OF r(2) this]]
  have "books env (1 + length (timeline (pe_candles env))) st2" "dkeys (pf_open st2) = []" by auto
  then show ?thesis using r(4) by (simp add: books_def)
qed

lemma rally_timeline: "timeline [(asset, rally)] = [(0, asset, 0), (60000, asset, 1)]"
  by (simp add: timeline_def asset_events_def rally_def flat_candle_def upt_rec less_eq_prod_def)

lemma rally_portfolio: "\<exists>st. replay_portfolio (quiet_env rally) (Some FORCE_CLOSE) demo_engine = ok st \<and> map td_net_pnl (pf_trades st) = [Fin (625/2)]"
proof -
  obtain d eng' order where d: "evaluate demo_signal demo_account demo_engine = (ok d, eng')" "dec_approved d" "dec_order d = Some order"
    "ao_side order = LONG" "ao_entry_price order = Fin 100" "ao_stop_price order = Fin 95" "ao_target_price order = Fin 110"
    "ao_position_size order = Fin (125/4)"
    using demo_evaluate by auto
  have a: "demo_account\<lparr>equity := Fin 10000, peak_equity := Fin 10000, open_positions := [], correlations := Map.empty\<rparr> = demo_account"
    by (simp add: demo_account_def)
  show ?thesis
    by (simp add: replay_portfolio_def quiet_env_def rally_timeline [unfolded rally_def flat_candle_def zero_Fin] new_portfolio_def demo_equity event_def candles_of_def dget_or_def
        flat_event_def correlations_at_def a d opened_asset_def add_point_def curve_point_def mark_prices_def open_position_def
        held_event_def check_exit_def exit_or_time_def settle_asset_def close_trade_def frictionless_def buy_once_def
        side_sign_def commission_def apply_slippage_def marked_equity_def unrealized_pnl_def
        rally_def flat_candle_def minus_pyfloat_def ftruth_def fl_eval float_eval zero_Fin one_Fin Let_def)
qed

theorem portfolio_books_balance_witness:
  "\<exists>st. replay_portfolio (quiet_env rally) (Some FORCE_CLOSE) demo_engine = ok st \<and> pf_open st = [] \<and> length (pf_curve st) = 3 \<and>
    last (pf_curve st) = Fin (20625/2)"
proof -
  obtain st where st: "replay_portfolio (quiet_env rally) (Some FORCE_CLOSE) demo_engine = ok st"
    "map td_net_pnl (pf_trades st) = [Fin (625/2)]"
    by (rule exE [OF rally_portfolio], erule conjE) (rule that)
  note b = portfolio_books_balance [OF st(1)]
  have o: "pf_open st = []" using conjunct1 [OF b] .
  have e: "pf_settled st = foldl (+) (equity (pe_account (quiet_env rally))) (map td_net_pnl (pf_trades st))"
    using conjunct1 [OF conjunct2 [OF b]] .
  have l: "length (pf_curve st) = length (timeline (pe_candles (quiet_env rally))) + 1" using conjunct1 [OF conjunct2 [OF conjunct2 [OF b]]] .
  have c: "last (pf_curve st) = pf_settled st" using conjunct2 [OF conjunct2 [OF conjunct2 [OF b]]] .
  have "pe_account (quiet_env rally) = demo_account" "pe_candles (quiet_env rally) = [(''BTC/USDT'', rally)]" by (simp_all add: quiet_env_def)
  then have "pf_settled st = foldl (+) (Fin 10000) [Fin (625/2)]" "length (pf_curve st) = 3"
    using e l by (simp_all only: st(2) demo_equity rally_timeline) simp_all
  then show ?thesis using st(1) o c by (intro exI [of _ st]) (simp add: fl_eval float_eval)
qed

section \<open>Gaps\<close>

text \<open>A bar that opens below the stop of a long position: the portfolio replay exits at the stop, the single-position
  replay at the open.\<close>

lemma portfolio_ignores_gaps:
  assumes "opn < stop" "low \<le> opn"
  shows "check_exit LONG stop target high low = Some (stop, ''stop'') \<and>
    check_exit_with_open LONG stop target opn high low = Some (opn, ''stop'')"
  using assms le_less_trans_pyfloat less_le_pyfloat by (auto simp: check_exit_def check_exit_with_open_def)

end
