(* ===== verification/Stocks.thy ===== *)
theory Stocks
  imports Regime Strategies
begin

text \<open>
  \<open>synthetic/stocks_engine.py\<close>: the equities engine.  The feed reconciler compares the consolidated quote (SIP) with
  the direct feeds, the guards implement the trade-through rule, the limit-up/limit-down bands and the short sale
  restriction, and the sniper checks the quote it would sweep.  \<open>logf\<close> is \<open>math.log\<close> of a positive number.
\<close>

text \<open>\<open>str.upper\<close> of an ASCII string.\<close>

definition upper_char :: "char \<Rightarrow> char" where
  "upper_char c = (if 97 \<le> (of_char c :: nat) \<and> (of_char c :: nat) \<le> 122 then char_of ((of_char c :: nat) - 32) else c)"

definition upper :: "string \<Rightarrow> string" where
  "upper s = map upper_char s"

section \<open>Feed reconciliation\<close>

record sip_nbbo =
  sip_symbol :: string
  sip_bid :: pyfloat
  sip_ask :: pyfloat
  sip_ts :: pyfloat

record direct_quote =
  dq_symbol :: string
  dq_venue :: string
  dq_bid :: pyfloat
  dq_ask :: pyfloat
  dq_bid_qty :: pyfloat
  dq_ask_qty :: pyfloat
  dq_ts :: pyfloat

record discrepancy =
  di_venue :: string
  di_direct_bid :: pyfloat
  di_direct_ask :: pyfloat
  di_sip_bid :: pyfloat
  di_sip_ask :: pyfloat
  di_ts :: pyfloat

record sip_reconciler =
  sr_symbol :: string
  lambda_fast :: pyfloat
  lambda_slow :: pyfloat
  z_threshold :: pyfloat
  regime_shift_ticks :: int
  last_sip :: "sip_nbbo option"
  direct_quotes :: "(string, direct_quote) dict"
  discrepancies_flagged :: "discrepancy list"
  mu_fast :: pyfloat
  mu_slow :: pyfloat
  var_slow :: pyfloat
  sr_initialized :: bool
  divergence_tick_counter :: int
  regime_annealing_count :: int

definition new_sip_reconciler :: "string \<Rightarrow> sip_reconciler" where
  "new_sip_reconciler symbol = \<lparr>sr_symbol = symbol, lambda_fast = fl (10/100), lambda_slow = fl (1/100), z_threshold = fl 3,
     regime_shift_ticks = 20, last_sip = None, direct_quotes = [], discrepancies_flagged = [], mu_fast = 1, mu_slow = 1,
     var_slow = fl (25/100), sr_initialized = False, divergence_tick_counter = 0, regime_annealing_count = 0\<rparr>"

definition update_sip :: "sip_nbbo \<Rightarrow> sip_reconciler \<Rightarrow> sip_reconciler" where
  "update_sip sip r = r\<lparr>last_sip := Some sip\<rparr>"

definition discrepancy_of :: "direct_quote \<Rightarrow> sip_nbbo \<Rightarrow> discrepancy" where
  "discrepancy_of q sip = \<lparr>di_venue = dq_venue q, di_direct_bid = dq_bid q, di_direct_ask = dq_ask q, di_sip_bid = sip_bid sip,
     di_sip_ask = sip_ask sip, di_ts = dq_ts q\<rparr>"

definition update_direct :: "direct_quote \<Rightarrow> sip_reconciler \<Rightarrow> bool \<times> sip_reconciler" where
  "update_direct q r0 = (let r = r0\<lparr>direct_quotes := dset (dq_venue q) q (direct_quotes r0)\<rparr> in
     case last_sip r of
       None \<Rightarrow> (False, r)
     | Some sip \<Rightarrow>
         (if sip_ask sip < dq_bid q \<or> dq_ask q < sip_bid sip
          then (True, r\<lparr>discrepancies_flagged := discrepancies_flagged r @ [discrepancy_of q sip]\<rparr>)
          else (False, r)))"

definition sigma_slow :: "sip_reconciler \<Rightarrow> pyfloat res" where
  "sigma_slow r = fsqrt (pymax (fl (1/100)) (var_slow r))"

text \<open>The counter of ticks on which the fast mean has left the slow one; enough of them make the fast mean the baseline.\<close>

definition count_divergence :: "pyfloat \<Rightarrow> sip_reconciler \<Rightarrow> sip_reconciler" where
  "count_divergence z r = (if fl (25/10) < z then
       (let r1 = r\<lparr>divergence_tick_counter := divergence_tick_counter r + 1\<rparr> in
        if regime_shift_ticks r \<le> divergence_tick_counter r1
        then r1\<lparr>mu_slow := mu_fast r, divergence_tick_counter := 0, regime_annealing_count := regime_annealing_count r + 1\<rparr>
        else r1)
     else r\<lparr>divergence_tick_counter := max 0 (divergence_tick_counter r - 1)\<rparr>)"

definition learn_latency :: "pyfloat \<Rightarrow> (sip_reconciler, unit) act" where
  "learn_latency log_tau r =
    (if \<not> sr_initialized r
     then (ok (), r\<lparr>mu_fast := log_tau, mu_slow := log_tau, var_slow := fl (25/100), sr_initialized := True\<rparr>)
     else
      (let diff = log_tau - mu_slow r;
           r1 = r\<lparr>mu_fast := (1 - lambda_fast r) * mu_fast r + lambda_fast r * log_tau,
                  mu_slow := (1 - lambda_slow r) * mu_slow r + lambda_slow r * log_tau\<rparr> in
       case fsquare diff of
         Inl e \<Rightarrow> (Inl e, r1)
       | Inr d2 \<Rightarrow>
           (let r2 = r1\<lparr>var_slow := (1 - lambda_slow r) * var_slow r + lambda_slow r * d2\<rparr> in
            case rbind (sigma_slow r2) (fdiv \<bar>mu_fast r2 - mu_slow r2\<bar>) of
              Inl e \<Rightarrow> (Inl e, r2)
            | Inr z \<Rightarrow> (ok (), count_divergence z r2))))"

datatype feed_state = NoSipData | StaleSipDislocation | TrafficBurst | NormalPropagation

datatype defensive_action = PullNone | PullBids | PullAsks | PullBoth

definition dislocations :: "direct_quote \<Rightarrow> sip_nbbo \<Rightarrow> (pyfloat \<times> pyfloat) res" where
  "dislocations q sip = (let spread = pymax (fl (1/100)) (sip_ask sip - sip_bid sip) in
     rbind (fdiv (pymax 0 (dq_bid q - sip_ask sip)) spread) (\<lambda>d_bid.
     rbind (fdiv (pymax 0 (sip_bid sip - dq_ask q)) spread) (\<lambda>d_ask. ok (d_bid, d_ask))))"

definition classify_feed :: "pyfloat \<Rightarrow> pyfloat \<Rightarrow> pyfloat \<times> pyfloat \<Rightarrow> feed_state \<times> defensive_action \<times> pyfloat" where
  "classify_feed threshold z d = (case d of (d_bid, d_ask) \<Rightarrow>
     (let half = fl (1/2) in
      if threshold \<le> z \<and> half < pymax d_bid d_ask
      then (StaleSipDislocation, (if half < d_bid \<and> half < d_ask then PullBoth else if half < d_bid then PullBids else PullAsks), z)
      else if fl 2 \<le> z then (TrafficBurst, PullNone, z) else (NormalPropagation, PullNone, z)))"

definition evaluate_feed_anomaly :: "(pyfloat \<Rightarrow> pyfloat) \<Rightarrow> direct_quote
    \<Rightarrow> (sip_reconciler, feed_state \<times> defensive_action \<times> pyfloat) act" where
  "evaluate_feed_anomaly logf q r0 = (let r = r0\<lparr>direct_quotes := dset (dq_venue q) q (direct_quotes r0)\<rparr> in
     case last_sip r of
       None \<Rightarrow> (ok (NoSipData, PullNone, 0), r)
     | Some sip \<Rightarrow>
         (let log_tau = logf (pymax (fl (1/100)) (dq_ts q - sip_ts sip)) in
          case learn_latency log_tau r of
            (Inl e, r1) \<Rightarrow> (Inl e, r1)
          | (Inr _, r1) \<Rightarrow>
              (rbind (sigma_slow r1) (\<lambda>s. rbind (fdiv (log_tau - mu_slow r1) s) (\<lambda>z.
                 rbind (dislocations q sip) (\<lambda>d. ok (classify_feed (z_threshold r1) z d)))), r1)))"

section \<open>Trade-through guard\<close>

datatype nms_verdict = RoutedNonDisplayed | TradeThroughViolation | RoutedDisplayed

definition evaluate_nms_order :: "string \<Rightarrow> pyfloat \<Rightarrow> sip_nbbo \<Rightarrow> bool \<Rightarrow> bool \<times> nms_verdict" where
  "evaluate_nms_order sd price nbbo allow_non_displayed =
    (if (if upper sd = ''BUY'' then price < sip_ask nbbo else sip_bid nbbo < price)
     then (if allow_non_displayed then (True, RoutedNonDisplayed) else (False, TradeThroughViolation))
     else (True, RoutedDisplayed))"

section \<open>Limit up, limit down\<close>

record luld =
  reference_price :: pyfloat
  band_pct :: pyfloat
  proximity_threshold :: pyfloat
  lower_band :: pyfloat
  upper_band :: pyfloat
  is_halted :: bool
  proximity_triggered :: bool

definition new_luld :: "pyfloat \<Rightarrow> pyfloat \<Rightarrow> pyfloat \<Rightarrow> luld" where
  "new_luld ref pct prox = \<lparr>reference_price = ref, band_pct = pct, proximity_threshold = prox,
     lower_band = round_digits (ref * (1 - pct)) 2, upper_band = round_digits (ref * (1 + pct)) 2,
     is_halted = False, proximity_triggered = False\<rparr>"

definition outside_bands :: "luld \<Rightarrow> pyfloat \<Rightarrow> bool" where
  "outside_bands m p = (p \<le> lower_band m \<or> upper_band m \<le> p)"

definition luld_update :: "pyfloat \<Rightarrow> (luld, bool \<times> bool) act" where
  "luld_update p m = (case rbind (fdiv (p - lower_band m) (reference_price m)) (\<lambda>lo.
       rbind (fdiv (upper_band m - p) (reference_price m)) (\<lambda>hi. ok (lo, hi))) of
     Inl e \<Rightarrow> (Inl e, m)
   | Inr (lo, hi) \<Rightarrow>
       if outside_bands m p then (ok (True, True), m\<lparr>is_halted := True\<rparr>)
       else if lo \<le> proximity_threshold m \<or> hi \<le> proximity_threshold m
       then (ok (True, False), m\<lparr>proximity_triggered := True\<rparr>)
       else (ok (False, False), m\<lparr>proximity_triggered := False\<rparr>))"

section \<open>Short sale restriction\<close>

record ssr_tracker =
  previous_close :: pyfloat
  ssr_active :: bool

definition new_ssr :: "pyfloat \<Rightarrow> ssr_tracker" where
  "new_ssr close = \<lparr>previous_close = close, ssr_active = False\<rparr>"

definition ssr_drop :: "pyfloat \<Rightarrow> pyfloat \<Rightarrow> bool res" where
  "ssr_drop close p = rbind (fdiv (close - p) close) (\<lambda>d. ok (fl (10/100) \<le> d))"

definition ssr_update :: "pyfloat \<Rightarrow> (ssr_tracker, bool) act" where
  "ssr_update p s = (case ssr_drop (previous_close s) p of
     Inl e \<Rightarrow> (Inl e, s)
   | Inr hit \<Rightarrow> (let s1 = (if hit then s\<lparr>ssr_active := True\<rparr> else s) in (ok (ssr_active s1), s1)))"

datatype short_verdict = ShortAllowed | BlockedRule201 | AllowedUptick

definition validate_short_order :: "ssr_tracker \<Rightarrow> pyfloat \<Rightarrow> pyfloat \<Rightarrow> bool \<times> short_verdict" where
  "validate_short_order s price best_bid =
    (if \<not> ssr_active s then (True, ShortAllowed) else if price \<le> best_bid then (False, BlockedRule201) else (True, AllowedUptick))"

section \<open>Dark pool routing\<close>

record equity_route =
  er_symbol :: string
  er_side :: string
  er_qty :: pyfloat
  er_price :: pyfloat
  er_dark :: bool
  er_ts :: pyfloat

record dark_router =
  dark_pool_threshold :: pyfloat
  routed_orders :: "equity_route list"

definition route_equity_order :: "pyfloat \<Rightarrow> string \<Rightarrow> string \<Rightarrow> pyfloat \<Rightarrow> pyfloat \<Rightarrow> dark_router \<Rightarrow> equity_route \<times> dark_router" where
  "route_equity_order now symbol sd quantity limit r =
    (let o' = \<lparr>er_symbol = symbol, er_side = sd, er_qty = quantity, er_price = limit, er_dark = (dark_pool_threshold r \<le> quantity),
        er_ts = now * fl 1000\<rparr>
     in (o', r\<lparr>routed_orders := routed_orders r @ [o']\<rparr>))"

section \<open>The engine\<close>

record stocks_engine =
  st_reconciler :: sip_reconciler
  st_luld :: luld
  st_ssr :: ssr_tracker
  st_dark :: dark_router
  entries_frozen :: bool

definition new_stocks_engine :: "string \<Rightarrow> pyfloat \<Rightarrow> pyfloat \<Rightarrow> stocks_engine" where
  "new_stocks_engine symbol ref prev = \<lparr>st_reconciler = new_sip_reconciler symbol, st_luld = new_luld ref (fl (5/100)) (fl (5/1000)),
     st_ssr = new_ssr prev, st_dark = \<lparr>dark_pool_threshold = fl 10000, routed_orders = []\<rparr>, entries_frozen = False\<rparr>"

definition freeze_entries_on_macro :: "stocks_engine \<Rightarrow> stocks_engine" where
  "freeze_entries_on_macro e = e\<lparr>entries_frozen := True\<rparr>"

definition unfreeze_entries :: "stocks_engine \<Rightarrow> stocks_engine" where
  "unfreeze_entries e = e\<lparr>entries_frozen := False\<rparr>"

datatype iso_verdict = NoDirectQuote | AbortedStaleQuote | AbortedInsufficientDepth | DispatchIso

definition evaluate_sniper_iso :: "stocks_engine \<Rightarrow> string \<Rightarrow> string \<Rightarrow> pyfloat \<Rightarrow> pyfloat \<Rightarrow> pyfloat \<Rightarrow> pyfloat
    \<Rightarrow> bool \<times> iso_verdict" where
  "evaluate_sniper_iso e venue sd target_qty now_ms max_age min_depth =
    (case dget (direct_quotes (st_reconciler e)) venue of
       None \<Rightarrow> (False, NoDirectQuote)
     | Some q \<Rightarrow>
         if max_age < now_ms - dq_ts q then (False, AbortedStaleQuote)
         else if (if upper sd = ''BUY'' then dq_ask_qty q else dq_bid_qty q) < min_depth \<or> target_qty < min_depth
         then (False, AbortedInsufficientDepth)
         else (True, DispatchIso))"

section \<open>Bands and restrictions latch\<close>

fun luld_run :: "pyfloat list \<Rightarrow> luld \<Rightarrow> luld" where
  "luld_run [] m = m"
| "luld_run (p # ps) m = luld_run ps (snd (luld_update p m))"

fun ssr_run :: "pyfloat list \<Rightarrow> ssr_tracker \<Rightarrow> ssr_tracker" where
  "ssr_run [] s = s"
| "ssr_run (p # ps) s = ssr_run ps (snd (ssr_update p s))"

lemma luld_step:
  assumes "\<not> feq (reference_price m) 0"
  shows "is_halted (snd (luld_update p m)) = (is_halted m \<or> outside_bands m p) \<and>
    lower_band (snd (luld_update p m)) = lower_band m \<and> upper_band (snd (luld_update p m)) = upper_band m \<and>
    reference_price (snd (luld_update p m)) = reference_price m"
proof -
  obtain lo hi where "fdiv (p - lower_band m) (reference_price m) = ok lo" "fdiv (upper_band m - p) (reference_price m) = ok hi"
    using fdiv_ok [OF assms] by metis
  then show ?thesis by (simp add: luld_update_def)
qed

lemma ssr_step:
  assumes "\<not> feq (previous_close s) 0"
  shows "ssr_active (snd (ssr_update p s)) = (ssr_active s \<or> ssr_drop (previous_close s) p = ok True) \<and>
    previous_close (snd (ssr_update p s)) = previous_close s"
proof -
  obtain d where "fdiv (previous_close s - p) (previous_close s) = ok d" using fdiv_ok [OF assms] by metis
  then show ?thesis by (simp add: ssr_update_def ssr_drop_def)
qed

lemma luld_run_halted: "\<not> feq (reference_price m) 0 \<Longrightarrow>
  is_halted (luld_run ps m) = (is_halted m \<or> list_ex (outside_bands m) ps)"
proof (induction ps arbitrary: m)
  case (Cons p ps)
  have "outside_bands (snd (luld_update p m)) = outside_bands m" using luld_step [OF Cons.prems] by (auto simp: outside_bands_def fun_eq_iff)
  then show ?case using Cons.IH [of "snd (luld_update p m)"] luld_step [OF Cons.prems, of p] Cons.prems by simp
qed simp

lemma ssr_run_active: "\<not> feq (previous_close s) 0 \<Longrightarrow>
  ssr_active (ssr_run ps s) = (ssr_active s \<or> list_ex (\<lambda>p. ssr_drop (previous_close s) p = ok True) ps) \<and>
  previous_close (ssr_run ps s) = previous_close s"
proof (induction ps arbitrary: s)
  case (Cons p ps)
  then show ?case using Cons.IH [of "snd (ssr_update p s)"] ssr_step [OF Cons.prems, of p] by auto
qed simp

text \<open>Halts and short sale restrictions latch: after any sequence of prices the band machine is halted exactly when one of
  the prices was on or beyond a band, and the restriction is active exactly when one of them was ten percent or more below the
  previous close; while it is active every short order at or below the best bid is refused, and only such orders are.\<close>

theorem halt_and_restriction_latch:
  assumes "\<not> feq ref 0" "\<not> feq prev 0"
  shows "is_halted (luld_run ps (new_luld ref pct prox)) = list_ex (outside_bands (new_luld ref pct prox)) ps \<and>
    ssr_active (ssr_run ps (new_ssr prev)) = list_ex (\<lambda>p. ssr_drop prev p = ok True) ps \<and>
    fst (validate_short_order (ssr_run ps (new_ssr prev)) price bid) =
      (\<not> (list_ex (\<lambda>p. ssr_drop prev p = ok True) ps \<and> price \<le> bid))"
  using assms luld_run_halted [of "new_luld ref pct prox" ps] ssr_run_active [of "new_ssr prev" ps]
  by (simp add: new_luld_def new_ssr_def validate_short_order_def)

theorem halt_and_restriction_latch_witness:
  "is_halted (luld_run [Fin 100, Fin 90, Fin 100] (new_luld (Fin 100) (fl (5/100)) (fl (5/1000)))) \<and>
    fst (validate_short_order (ssr_run [Fin 100, Fin 90, Fin 100] (new_ssr (Fin 100))) (Fin 99) (Fin 100)) = False"
proof -
  have r: "\<not> feq (Fin 100) 0" by (simp add: feq_def zero_Fin)
  have o: "outside_bands (new_luld (Fin 100) (fl (5/100)) (fl (5/1000))) (Fin 90)"
    by (simp add: outside_bands_def new_luld_def round_digits_def minus_pyfloat_def fl_eval float_eval zero_Fin one_Fin)
  have d: "ssr_drop (Fin 100) (Fin 90) = ok True" by (simp add: ssr_drop_def minus_pyfloat_def fl_eval float_eval)
  show ?thesis
    using halt_and_restriction_latch [OF r r, of "[Fin 100, Fin 90, Fin 100]" "fl (5/100)" "fl (5/1000)" "Fin 99" "Fin 100"] o d by simp
qed

section \<open>The reconciler pulls the exposed side\<close>

lemma exposed_side:
  assumes "fdiv (pymax 0 (x - y)) (pymax (fl (1/100)) w) = ok d" "fl (1/2) < d"
  shows "y < x"
proof -
  have "0 < fl (1/100)" "0 < fl (1/2)" by (simp_all add: fl_eval float_eval zero_Fin)
  then have "0 < pymax (fl (1/100)) w" "0 < d"
    using assms(2) less_trans_pyfloat by (auto simp: pymax_def)
  then have "0 < pymax 0 (x - y)" using fdiv_sign(2) assms(1) by blast
  then show ?thesis by (auto simp: pymax_def split: if_splits intro: minus_sign(2))
qed

lemma learn_latency_frame:
  assumes "learn_latency l r = (u, r1)"
  shows "last_sip r1 = last_sip r \<and> z_threshold r1 = z_threshold r \<and> direct_quotes r1 = direct_quotes r"
  using assms by (auto simp: learn_latency_def count_divergence_def Let_def split: if_splits sum.splits)

text \<open>A defensive action of the reconciler is justified: quotes are pulled only when a consolidated quote is known and its
  latency score has reached the threshold; bids are pulled only when the direct bid is above the consolidated ask, asks only when the
  direct ask is below the consolidated bid.\<close>

theorem pulled_quotes_are_exposed:
  assumes "evaluate_feed_anomaly logf q r = (ok (state, action, z), r1)"
  shows "action = PullNone \<or> (state = StaleSipDislocation \<and> z_threshold r \<le> z \<and>
    (case last_sip r of None \<Rightarrow> False | Some sip \<Rightarrow>
       (if action = PullAsks then True else sip_ask sip < dq_bid q) \<and> (if action = PullBids then True else dq_ask q < sip_bid sip)))"
proof (cases "last_sip r")
  case None
  then show ?thesis using assms by (simp add: evaluate_feed_anomaly_def)
next
  case (Some sip)
  obtain r2 s d_bid d_ask where e: "learn_latency (logf (pymax (fl (1/100)) (dq_ts q - sip_ts sip)))
      (r\<lparr>direct_quotes := dset (dq_venue q) q (direct_quotes r)\<rparr>) = (ok (), r2)" "dislocations q sip = ok (d_bid, d_ask)"
    "classify_feed (z_threshold r2) z (d_bid, d_ask) = (state, action, z)"
    using assms Some
    by (auto simp: evaluate_feed_anomaly_def Let_def rbind_eq_Inr classify_feed_def split: prod.splits sum.splits if_splits)
  have f: "z_threshold r2 = z_threshold r" using learn_latency_frame [OF e(1)] by simp
  obtain bid: "fdiv (pymax 0 (dq_bid q - sip_ask sip)) (pymax (fl (1/100)) (sip_ask sip - sip_bid sip)) = ok d_bid"
    and ask: "fdiv (pymax 0 (sip_bid sip - dq_ask q)) (pymax (fl (1/100)) (sip_ask sip - sip_bid sip)) = ok d_ask"
    using e(2) by (auto simp: dislocations_def Let_def rbind_eq_Inr)
  have "fl (1/2) < d_bid \<Longrightarrow> sip_ask sip < dq_bid q" "fl (1/2) < d_ask \<Longrightarrow> dq_ask q < sip_bid sip"
    using exposed_side [OF bid] exposed_side [OF ask] by auto
  then show ?thesis using e(3) pymax_cases [of d_bid d_ask] Some f by (auto simp: classify_feed_def Let_def split: if_splits)
qed

definition lagging :: sip_reconciler where
  "lagging = (new_sip_reconciler ''AAPL'')\<lparr>lambda_fast := 0, lambda_slow := 0, z_threshold := Fin 3, mu_fast := 0, mu_slow := 0, var_slow := 1,
     sr_initialized := True, last_sip := Some \<lparr>sip_symbol = ''AAPL'', sip_bid = Fin 100, sip_ask = Fin 101, sip_ts = 0\<rparr>\<rparr>"

definition far_bid :: direct_quote where
  "far_bid = \<lparr>dq_symbol = ''AAPL'', dq_venue = ''ARCA'', dq_bid = Fin 105, dq_ask = Fin 106, dq_bid_qty = Fin 100, dq_ask_qty = Fin 100,
     dq_ts = Fin 8\<rparr>"

lemma lagging_eval: "\<exists>r1. evaluate_feed_anomaly (\<lambda>_. Fin 10) far_bid lagging = (ok (StaleSipDislocation, PullBids, Fin 10), r1)"
  by (simp add: evaluate_feed_anomaly_def lagging_def far_bid_def new_sip_reconciler_def learn_latency_def fsquare_def is_finite_def
      sigma_slow_def pymax_def fsqrt_1 count_divergence_def dislocations_def classify_feed_def minus_pyfloat_def fl_eval float_eval
      zero_Fin one_Fin Let_def)

theorem pulled_quotes_are_exposed_witness:
  "\<exists>r1. evaluate_feed_anomaly (\<lambda>_. Fin 10) far_bid lagging = (ok (StaleSipDislocation, PullBids, Fin 10), r1) \<and> Fin 101 < Fin 105"
proof -
  obtain r1 where r1: "evaluate_feed_anomaly (\<lambda>_. Fin 10) far_bid lagging = (ok (StaleSipDislocation, PullBids, Fin 10), r1)"
    using lagging_eval by blast
  then show ?thesis using pulled_quotes_are_exposed [OF r1] by (intro exI conjI) (simp_all add: lagging_def far_bid_def)
qed

text \<open>The trade-through guard lets a buy above the protected ask through and refuses one below it.\<close>

lemma guard_refuses_passive_buys:
  assumes "upper sd = ''BUY''"
  shows "(if price < sip_ask nbbo then evaluate_nms_order sd price nbbo False = (False, TradeThroughViolation)
    else evaluate_nms_order sd price nbbo False = (True, RoutedDisplayed))"
  using assms by (simp add: evaluate_nms_order_def)

text \<open>A halted machine reports no halt for a price inside the bands.\<close>

lemma halted_machine_reports_open:
  assumes "luld_update p m = (ok (prox, halted), m1)" "\<not> outside_bands m p" "is_halted m"
  shows "\<not> halted \<and> is_halted m1"
  using assms by (auto simp: luld_update_def split: sum.splits if_splits)

end
