(* ===== verification/Forex.thy ===== *)
theory Forex
  imports Stocks CircuitBreaker
begin

text \<open>
  \<open>synthetic/forex_engine.py\<close>: the consolidated book over liquidity providers, the last-look filter, the providers'
  reputation and the order splitter.  \<open>expf\<close> is \<open>math.exp\<close>.
\<close>

section \<open>The consolidated book\<close>

record lp_quote =
  lq_lp :: string
  lq_bid :: pyfloat
  lq_bid_qty :: pyfloat
  lq_ask :: pyfloat
  lq_ask_qty :: pyfloat
  lq_ts :: pyfloat

record fx_nbbo =
  fx_best_bid :: pyfloat
  fx_bid_lp :: string
  fx_bid_qty :: pyfloat
  fx_best_ask :: pyfloat
  fx_ask_lp :: string
  fx_ask_qty :: pyfloat
  fx_spread_pips :: pyfloat
  fx_depth_bid :: pyfloat
  fx_depth_ask :: pyfloat
  fx_liquidity :: bool

record fx_book =
  fb_pip :: pyfloat
  fb_quotes :: "(string, lp_quote) dict"

definition update_lp_quote :: "lp_quote \<Rightarrow> fx_book \<Rightarrow> fx_book" where
  "update_lp_quote q b = b\<lparr>fb_quotes := dset (lq_lp q) q (fb_quotes b)\<rparr>"

definition valid_bids :: "fx_book \<Rightarrow> lp_quote list" where
  "valid_bids b = filter (\<lambda>q. 0 < lq_bid_qty q \<and> 0 < lq_bid q) (dvalues (fb_quotes b))"

definition valid_asks :: "fx_book \<Rightarrow> lp_quote list" where
  "valid_asks b = filter (\<lambda>q. 0 < lq_ask_qty q \<and> 0 < lq_ask q) (dvalues (fb_quotes b))"

text \<open>\<open>max(qs, key=f)\<close> and \<open>min(qs, key=f)\<close>: the first best element.\<close>

definition best_by :: "(pyfloat \<Rightarrow> pyfloat \<Rightarrow> bool) \<Rightarrow> (lp_quote \<Rightarrow> pyfloat) \<Rightarrow> lp_quote \<Rightarrow> lp_quote list \<Rightarrow> lp_quote" where
  "best_by better f q qs = foldl (\<lambda>b x. if better (f x) (f b) then x else b) q qs"

definition no_liquidity :: fx_nbbo where
  "no_liquidity = \<lparr>fx_best_bid = 0, fx_bid_lp = ''NONE'', fx_bid_qty = 0, fx_best_ask = 0, fx_ask_lp = ''NONE'', fx_ask_qty = 0,
     fx_spread_pips = 0, fx_depth_bid = 0, fx_depth_ask = 0, fx_liquidity = False\<rparr>"

definition consolidated_nbbo :: "fx_book \<Rightarrow> fx_nbbo res" where
  "consolidated_nbbo b = (case (valid_bids b, valid_asks b) of
     (q # qs, p # ps) \<Rightarrow>
       (let bb = best_by (\<lambda>x y. y < x) lq_bid q qs; ba = best_by (<) lq_ask p ps in
        rbind (fdiv (lq_ask ba - lq_bid bb) (fb_pip b)) (\<lambda>pips. ok \<lparr>fx_best_bid = lq_bid bb, fx_bid_lp = lq_lp bb,
          fx_bid_qty = lq_bid_qty bb, fx_best_ask = lq_ask ba, fx_ask_lp = lq_lp ba, fx_ask_qty = lq_ask_qty ba,
          fx_spread_pips = round_digits pips 2, fx_depth_bid = fsum (map lq_bid_qty (q # qs)),
          fx_depth_ask = fsum (map lq_ask_qty (p # ps)), fx_liquidity = True\<rparr>))
   | _ \<Rightarrow> ok no_liquidity)"

section \<open>Last look\<close>

record last_look =
  ll_latency :: pyfloat
  ll_pip :: pyfloat
  ll_max_prob :: pyfloat

definition default_last_look :: last_look where
  "default_last_look = \<lparr>ll_latency = fl 50, ll_pip = fl (1/10000), ll_max_prob = fl (70/100)\<rparr>"

definition rejection_probability :: "(pyfloat \<Rightarrow> pyfloat res) \<Rightarrow> last_look \<Rightarrow> pyfloat \<Rightarrow> pyfloat \<Rightarrow> string \<Rightarrow> pyfloat res" where
  "rejection_probability expf f initial micro sd =
    rbind (fdiv (if upper sd = ''BUY'' then micro - initial else initial - micro) (ll_pip f)) (\<lambda>drift.
      if drift \<le> 0 then ok (fl (5/100))
      else rbind (expf (fl (- 3) * (drift - fl (15/10)))) (\<lambda>e. rbind (fdiv 1 (1 + e)) (\<lambda>prob. ok (pymin 1 (pymax 0 prob)))))"

definition evaluate_last_look :: "(pyfloat \<Rightarrow> pyfloat res) \<Rightarrow> last_look \<Rightarrow> pyfloat \<Rightarrow> pyfloat \<Rightarrow> string
    \<Rightarrow> (bool \<times> pyfloat) res" where
  "evaluate_last_look expf f initial micro sd =
    rbind (rejection_probability expf f initial micro sd) (\<lambda>p. ok (\<not> ll_max_prob f < p, p))"

section \<open>Reputation\<close>

record lp_stat =
  ls_sent :: int
  ls_rejected :: int

type_synonym reputation = "(string, lp_stat) dict"

definition default_lps :: "string list" where
  "default_lps = [''LP_BARCLAYS'', ''LP_CITI'', ''LP_JPM'', ''LP_DEUTSCHE'', ''LP_UBS'']"

definition new_reputation :: "string list \<Rightarrow> reputation" where
  "new_reputation lps = foldl (\<lambda>d lp. dset lp \<lparr>ls_sent = 100, ls_rejected = 5\<rparr> d) [] (if lps = [] then default_lps else lps)"

definition record_outcome :: "string \<Rightarrow> bool \<Rightarrow> reputation \<Rightarrow> reputation" where
  "record_outcome lp rejected d =
    (let s = dget_or d lp \<lparr>ls_sent = 0, ls_rejected = 0\<rparr>
     in dset lp \<lparr>ls_sent = ls_sent s + 1, ls_rejected = ls_rejected s + (if rejected then 1 else 0)\<rparr> d)"

text \<open>\<open>a / b\<close> of two integers is the exact quotient rounded once.\<close>

definition acceptance :: "lp_stat \<Rightarrow> pyfloat" where
  "acceptance s = pymax (fl (1/100)) (1 - fl (of_int (ls_rejected s) / of_int (max 1 (ls_sent s))))"

definition routing_weights :: "reputation \<Rightarrow> (string, pyfloat) dict res" where
  "routing_weights d = (let scores = map (\<lambda>(lp, s). (lp, acceptance s)) d; tot = fsum (dvalues scores) in
     if tot \<le> 0 then ok (map (\<lambda>(lp, _). (lp, fl (1 / of_nat (length scores)))) scores)
     else map_res (\<lambda>(lp, s). rbind (fdiv s tot) (\<lambda>w. ok (lp, round_digits w 4))) scores)"

section \<open>Splitting an order\<close>

record fx_slice =
  sl_idx :: nat
  sl_lp :: string
  sl_side :: string
  sl_qty :: pyfloat
  sl_weight :: pyfloat

definition slices_at :: "(string, pyfloat) dict \<Rightarrow> string \<Rightarrow> pyfloat \<Rightarrow> nat \<Rightarrow> fx_slice list" where
  "slices_at active sd slice_qty i =
    filter (\<lambda>s. 0 < sl_qty s) (map (\<lambda>(lp, w). \<lparr>sl_idx = i, sl_lp = lp, sl_side = sd, sl_qty = round_digits (slice_qty * w) 2,
      sl_weight = w\<rparr>) active)"

definition split_twap_order :: "reputation \<Rightarrow> pyfloat \<Rightarrow> int \<Rightarrow> string \<Rightarrow> fx_slice list res" where
  "split_twap_order d total_qty num_slices sd = rbind (routing_weights d) (\<lambda>ws.
     let active = filter (\<lambda>(_, w). 0 < w) ws in
     if active = [] then ok []
     else rbind (fdiv total_qty (float_of_int (max 1 num_slices))) (\<lambda>slice_qty.
       ok (concat (map (slices_at active sd slice_qty) [0..<nat num_slices]))))"

section \<open>The engine\<close>

record forex_engine =
  fe_book :: fx_book
  fe_reputation :: reputation
  fe_last_look :: last_look
  spread_multiplier :: pyfloat

definition new_forex_engine :: "string list \<Rightarrow> forex_engine" where
  "new_forex_engine lps = \<lparr>fe_book = \<lparr>fb_pip = fl (1/10000), fb_quotes = []\<rparr>, fe_reputation = new_reputation lps,
     fe_last_look = default_last_look, spread_multiplier = 1\<rparr>"

definition on_news_macro_widen :: "pyfloat \<Rightarrow> forex_engine \<Rightarrow> forex_engine" where
  "on_news_macro_widen factor e = e\<lparr>spread_multiplier := factor\<rparr>"

definition reset_spread :: "forex_engine \<Rightarrow> forex_engine" where
  "reset_spread e = e\<lparr>spread_multiplier := 1\<rparr>"

section \<open>The best quotes\<close>

lemma best_by_in: "best_by better f q qs \<in> insert q (set qs)"
  unfolding best_by_def
proof (induction qs arbitrary: q)
  case (Cons a qs)
  show ?case using Cons.IH [of "if better (f a) (f q) then a else q"] by (auto split: if_splits)
qed simp

lemma best_by_best:
  assumes refl: "\<And>x. \<not> better x x" and tr: "\<And>x y z. y \<noteq> NaN \<Longrightarrow> \<not> better x y \<Longrightarrow> \<not> better y z \<Longrightarrow> \<not> better x z"
    and asym: "\<And>x y. better x y \<Longrightarrow> \<not> better y x"
  shows "(\<forall>q \<in> insert q (set qs). f q \<noteq> NaN) \<Longrightarrow> x \<in> insert q (set qs) \<Longrightarrow> \<not> better (f x) (f (best_by better f q qs))"
  unfolding best_by_def
proof (induction qs arbitrary: q x)
  case (Cons y ys)
  define b where "b = (if better (f y) (f q) then y else q)"
  have nn: "\<forall>q \<in> insert b (set ys). f q \<noteq> NaN" using Cons.prems(1) by (simp add: b_def)
  have "\<not> better (f y) (f b)" "\<not> better (f q) (f b)" unfolding b_def using refl asym by auto
  moreover have "\<not> better (f b) (f (foldl (\<lambda>b x. if better (f x) (f b) then x else b) b ys))" using Cons.IH [OF nn, of b] by simp
  moreover have "x \<in> set ys \<Longrightarrow> \<not> better (f x) (f (foldl (\<lambda>b x. if better (f x) (f b) then x else b) b ys))"
    using Cons.IH [OF nn, of x] by simp
  moreover have "f b \<noteq> NaN" using nn by simp
  ultimately show ?case using Cons.prems(2) tr by (auto simp: b_def [symmetric])
qed (use refl in simp)

lemma best_bid: "\<forall>q \<in> insert q (set qs). f q \<noteq> NaN \<Longrightarrow> x \<in> insert q (set qs) \<Longrightarrow> f x \<le> f (best_by (\<lambda>x y. y < x) f q qs)"
  using best_by_best [of "\<lambda>x y. y < x" q qs f x] best_by_in [of "\<lambda>x y. y < x" f q qs]
  by (metis less_irrefl_pyfloat less_not_le_pyfloat less_le_pyfloat not_less_pyfloat le_trans_pyfloat less_not_nan)

lemma best_ask: "\<forall>q \<in> insert q (set qs). f q \<noteq> NaN \<Longrightarrow> x \<in> insert q (set qs) \<Longrightarrow> f (best_by (<) f q qs) \<le> f x"
  using best_by_best [of "(<)" q qs f x] best_by_in [of "(<)" f q qs]
  by (metis less_irrefl_pyfloat less_not_le_pyfloat less_le_pyfloat not_less_pyfloat le_trans_pyfloat less_not_nan)

text \<open>The consolidated quote is the best of the providers' quotes: with liquidity, its bid is the bid of a provider with a
  positive price and size and no such provider bids more; its ask is the ask of such a provider and no such provider asks
  less.  Without a positive quote on one side it reports no liquidity.\<close>

theorem consolidated_quote_is_best:
  assumes "consolidated_nbbo b = ok n"
  shows "if valid_bids b = [] \<or> valid_asks b = [] then \<not> fx_liquidity n
    else fx_liquidity n \<and> fx_best_bid n \<in> lq_bid ` set (valid_bids b) \<and> list_all (\<lambda>q. lq_bid q \<le> fx_best_bid n) (valid_bids b) \<and>
      fx_best_ask n \<in> lq_ask ` set (valid_asks b) \<and> list_all (\<lambda>q. fx_best_ask n \<le> lq_ask q) (valid_asks b)"
proof (cases "valid_bids b = [] \<or> valid_asks b = []")
  case True
  then show ?thesis using assms by (auto simp: consolidated_nbbo_def no_liquidity_def split: list.splits)
next
  case False
  obtain q qs where q: "valid_bids b = q # qs" using False by (cases "valid_bids b") auto
  obtain p ps where p: "valid_asks b = p # ps" using False by (cases "valid_asks b") auto
  have n: "fx_liquidity n" "fx_best_bid n = lq_bid (best_by (\<lambda>x y. y < x) lq_bid q qs)" "fx_best_ask n = lq_ask (best_by (<) lq_ask p ps)"
    using assms by (auto simp: consolidated_nbbo_def q p Let_def rbind_eq_Inr)
  have "x \<in> set (valid_bids b) \<Longrightarrow> lq_bid x \<noteq> NaN" "x \<in> set (valid_asks b) \<Longrightarrow> lq_ask x \<noteq> NaN" for x
    by (auto simp: valid_bids_def valid_asks_def)
  then have nn: "\<forall>x \<in> insert q (set qs). lq_bid x \<noteq> NaN" "\<forall>x \<in> insert p (set ps). lq_ask x \<noteq> NaN" using q p by auto
  show ?thesis
    using False n q p best_bid [OF nn(1)] best_ask [OF nn(2)] best_by_in [of "\<lambda>x y. y < x" lq_bid q qs] best_by_in [of "(<)" lq_ask p ps]
    by (auto simp: list_all_iff)
qed

definition two_lps :: fx_book where
  "two_lps = \<lparr>fb_pip = 1, fb_quotes = [
     (''LP_1'', \<lparr>lq_lp = ''LP_1'', lq_bid = Fin 10, lq_bid_qty = Fin 5, lq_ask = Fin 12, lq_ask_qty = Fin 5, lq_ts = 0\<rparr>),
     (''LP_2'', \<lparr>lq_lp = ''LP_2'', lq_bid = Fin 11, lq_bid_qty = Fin 5, lq_ask = Fin 13, lq_ask_qty = Fin 5, lq_ts = 0\<rparr>)]\<rparr>"

lemma two_lps_nbbo: "\<exists>n. consolidated_nbbo two_lps = ok n"
  by (simp add: consolidated_nbbo_def two_lps_def valid_bids_def valid_asks_def best_by_def zero_Fin one_Fin)

theorem consolidated_quote_is_best_witness:
  "\<exists>n. consolidated_nbbo two_lps = ok n \<and> Fin 11 \<le> fx_best_bid n \<and> fx_best_ask n \<le> Fin 12"
proof -
  obtain n where n: "consolidated_nbbo two_lps = ok n" using two_lps_nbbo by blast
  show ?thesis using n consolidated_quote_is_best [OF n] by (simp add: two_lps_def valid_bids_def valid_asks_def zero_Fin)
qed

text \<open>Six equal providers: the rounded weights add up to more than one, and more is sent than the order holds.\<close>

lemma equal_acceptance: "acceptance \<lparr>ls_sent = 100, ls_rejected = 5\<rparr> = fl (19/20)"
  by (simp add: acceptance_def pymax_def minus_pyfloat_def fl_eval float_eval one_Fin)

lemma equal_weights: "routing_weights (map (\<lambda>lp. (lp, \<lparr>ls_sent = 100, ls_rejected = 5\<rparr>)) [a, b, c, d, e, f]) =
    ok (map (\<lambda>lp. (lp, fl (1667/10000))) [a, b, c, d, e, f])"
proof -
  have "fsum [fl (19/20), fl (19/20), fl (19/20), fl (19/20), fl (19/20), fl (19/20)] = Fin (1604407367250739/281474976710656)"
    by (simp add: fsum_def minus_pyfloat_def ftruth_def is_finite_def fl_eval float_eval zero_Fin Let_def)
  moreover have "\<not> Fin (1604407367250739/281474976710656) \<le> 0" "rbind (fdiv (fl (19/20)) (Fin (1604407367250739/281474976710656))) (\<lambda>w. ok (x, round_digits w 4)) = ok (x, fl (1667/10000))" for x :: string
    by (simp_all add: round_digits_def fl_eval float_eval zero_Fin)
  ultimately show ?thesis by (simp add: routing_weights_def equal_acceptance Let_def)
qed

lemma twap_over_allocates:
  "\<exists>ss. split_twap_order (new_reputation [''1'', ''2'', ''3'', ''4'', ''5'', ''6'']) (Fin 1000000) 1 ''BUY'' = ok ss \<and>
    map sl_qty ss = replicate 6 (Fin 166700)"
proof -
  have "new_reputation [''1'', ''2'', ''3'', ''4'', ''5'', ''6''] =
      map (\<lambda>lp. (lp, \<lparr>ls_sent = 100, ls_rejected = 5\<rparr>)) [''1'', ''2'', ''3'', ''4'', ''5'', ''6'']"
    by (simp add: new_reputation_def)
  moreover have "0 < fl (1667/10000)" "fdiv (Fin 1000000) (float_of_int 1) = ok (Fin 1000000)"
    "round_digits (Fin 1000000 * fl (1667/10000)) 2 = Fin 166700" "replicate 6 x = [x, x, x, x, x, x]" for x :: pyfloat
    by (simp_all add: round_digits_def float_of_int_def fl_eval float_eval zero_Fin one_Fin numeral_eq_Suc)
  ultimately show ?thesis using equal_weights [of "''1''" "''2''" "''3''" "''4''" "''5''" "''6''"]
    by (simp add: split_twap_order_def slices_at_def Let_def zero_Fin)
qed

end
