(* ===== verification/Polymarket.thy ===== *)
theory Polymarket
  imports Regime Strategies
begin

text \<open>
  \<open>synthetic/polymarket_engine.py\<close>: the prediction market engine.  The probability velocity, the slippage and
  extraction cost of a trade, the edge check and the private, atomic submission.  Texts of calls and transaction hashes are
  kept as their parts; clock reads are arguments.
\<close>

section \<open>Probability velocity\<close>

record velocity_tracker =
  velocity_threshold :: pyfloat
  vt_history :: "(pyfloat \<times> pyfloat) list"

definition new_velocity_tracker :: velocity_tracker where
  "new_velocity_tracker = \<lparr>velocity_threshold = fl (10/100), vt_history = []\<rparr>"

definition velocity_of :: "pyfloat \<times> pyfloat \<Rightarrow> pyfloat \<times> pyfloat \<Rightarrow> pyfloat res" where
  "velocity_of prev cur = (case (prev, cur) of ((t0, p0), (t1, p1)) \<Rightarrow>
     rbind (fdiv (t1 - t0) (fl 1000)) (\<lambda>dt. fdiv \<bar>p1 - p0\<bar> (pymax (fl (1/1000)) dt)))"

definition update_probability :: "pyfloat \<Rightarrow> pyfloat \<Rightarrow> (velocity_tracker, pyfloat \<times> bool) act" where
  "update_probability price now_ms v0 = (let v = v0\<lparr>vt_history := push_bounded 1000 (now_ms, price) (vt_history v0)\<rparr> in
     if length (vt_history v) < 2 then (ok (0, False), v)
     else (rbind (velocity_of (vt_history v ! (length (vt_history v) - 2)) (now_ms, price)) (\<lambda>s.
       ok (s, velocity_threshold v \<le> s)), v))"

section \<open>Costs\<close>

definition amm_slippage :: "pyfloat \<Rightarrow> pyfloat \<Rightarrow> pyfloat option \<Rightarrow> pyfloat res" where
  "amm_slippage dflt trade_size pool = (let liq = (case pool of None \<Rightarrow> dflt | Some l \<Rightarrow> l) in
     if liq \<le> 0 then ok 1 else rbind (fdiv trade_size liq) (\<lambda>s. ok (pymin 1 s)))"

record mev_calculator =
  historical_mev_rate :: pyfloat
  mev_default_liquidity :: pyfloat
  recent_mev :: "pyfloat list"

definition new_mev_calculator :: "pyfloat \<Rightarrow> mev_calculator" where
  "new_mev_calculator liquidity = \<lparr>historical_mev_rate = fl (2/100), mev_default_liquidity = liquidity, recent_mev = []\<rparr>"

definition record_mev_observation :: "pyfloat \<Rightarrow> (mev_calculator, unit) act" where
  "record_mev_observation rate m0 = (let m = m0\<lparr>recent_mev := push_bounded 1000 rate (recent_mev m0)\<rparr> in
     if 10 < length (recent_mev m)
     then (case fdiv (fsum (recent_mev m)) (float_of_int (int (length (recent_mev m)))) of
         Inl e \<Rightarrow> (Inl e, m) | Inr r \<Rightarrow> (ok (), m\<lparr>historical_mev_rate := r\<rparr>))
     else (ok (), m))"

definition mev_tax :: "mev_calculator \<Rightarrow> pyfloat \<Rightarrow> pyfloat option \<Rightarrow> pyfloat res" where
  "mev_tax m trade_size pool =
    rbind (amm_slippage (mev_default_liquidity m) trade_size pool) (\<lambda>slip.
    rbind (fdiv trade_size (pymax (fl 1000) trade_size)) (\<lambda>share.
      ok (round_digits (slip + historical_mev_rate m * share) 4)))"

definition validate_edge :: "mev_calculator \<Rightarrow> pyfloat \<Rightarrow> pyfloat \<Rightarrow> pyfloat option \<Rightarrow> (bool \<times> pyfloat) res" where
  "validate_edge m edge trade_size pool = rbind (mev_tax m trade_size pool) (\<lambda>tax. ok (0 < edge - tax, tax))"

section \<open>Submission\<close>

datatype pm_call = ApproveCollateral string pyfloat | BuyOutcome string pyfloat pyfloat

record pm_bundle =
  pb_market :: string
  pb_calls :: "pm_call list"
  pb_ts :: pyfloat

record pm_receipt =
  px_hash :: "int \<times> nat"
  px_endpoint :: string
  px_payload :: pm_bundle

record private_router =
  rpc_endpoint :: string
  routed_transactions :: "pm_receipt list"

definition submit_private_transaction :: "int \<Rightarrow> pm_bundle \<Rightarrow> private_router \<Rightarrow> pm_receipt \<times> private_router" where
  "submit_private_transaction now_ms payload r =
    (let x = \<lparr>px_hash = (now_ms, length (routed_transactions r)), px_endpoint = rpc_endpoint r, px_payload = payload\<rparr>
     in (x, r\<lparr>routed_transactions := routed_transactions r @ [x]\<rparr>))"

record polymarket_engine =
  pm_market :: string
  pm_liquidity :: pyfloat
  pm_velocity :: velocity_tracker
  pm_mev :: mev_calculator
  pm_router :: private_router
  executed_batches :: "pm_bundle list"
  sniper_armed :: bool

definition new_polymarket :: "string \<Rightarrow> pyfloat \<Rightarrow> polymarket_engine" where
  "new_polymarket market liquidity = \<lparr>pm_market = market, pm_liquidity = liquidity, pm_velocity = new_velocity_tracker,
     pm_mev = new_mev_calculator liquidity,
     pm_router = \<lparr>rpc_endpoint = ''https://rpc.flashbots.net/fast'', routed_transactions = []\<rparr>,
     executed_batches = [], sniper_armed = False\<rparr>"

definition bundle_of :: "string \<Rightarrow> string \<Rightarrow> pyfloat \<Rightarrow> pyfloat \<Rightarrow> pyfloat \<Rightarrow> pm_bundle" where
  "bundle_of market outcome amount price ts = \<lparr>pb_market = market,
     pb_calls = [ApproveCollateral market amount, BuyOutcome outcome amount price], pb_ts = ts * fl 1000\<rparr>"

definition execute_atomic_batch :: "pyfloat \<Rightarrow> int \<Rightarrow> string \<Rightarrow> string \<Rightarrow> pyfloat \<Rightarrow> pyfloat \<Rightarrow> polymarket_engine \<Rightarrow> pm_receipt \<times> polymarket_engine" where
  "execute_atomic_batch ts now_ms market outcome amount price e =
    (let b = bundle_of market outcome amount price ts in
     case submit_private_transaction now_ms b (pm_router e) of
       (x, r) \<Rightarrow> (x, e\<lparr>pm_router := r, executed_batches := executed_batches e @ [b]\<rparr>))"

definition arm_sniper_on_macro :: "polymarket_engine \<Rightarrow> polymarket_engine" where
  "arm_sniper_on_macro e = e\<lparr>sniper_armed := True\<rparr>"

definition evaluate_oracle_arbitrage :: "pyfloat \<Rightarrow> int \<Rightarrow> pyfloat \<Rightarrow> pyfloat \<Rightarrow> pyfloat \<Rightarrow> (polymarket_engine, pm_receipt option) act" where
  "evaluate_oracle_arbitrage ts now_ms fast_prob amm_prob trade_size e =
    (let gap = fast_prob - amm_prob in
     case validate_edge (pm_mev e) \<bar>gap\<bar> trade_size (Some (pm_liquidity e)) of
       Inl err \<Rightarrow> (Inl err, e)
     | Inr (go, _) \<Rightarrow>
         if go then (case execute_atomic_batch ts now_ms (pm_market e) (if 0 < gap then ''YES'' else ''NO'') trade_size amm_prob e of
           (x, e1) \<Rightarrow> (ok (Some x), e1))
         else (ok None, e))"

section \<open>Arbitrage\<close>

text \<open>An arbitrage is executed exactly when the gap between the oracle and the pool exceeds the cost of the trade; it then
  buys the outcome the oracle favours in one bundle, approval first, and the bundle is routed and booked once; otherwise nothing
  changes.  The sniper's arming plays no part.\<close>

theorem arbitrage_pays_its_cost:
  assumes "mev_tax (pm_mev e) trade_size (Some (pm_liquidity e)) = ok tax"
  shows "\<exists>x e1. evaluate_oracle_arbitrage ts now_ms fast amm trade_size e = (ok x, e1) \<and>
    (if 0 < \<bar>fast - amm\<bar> - tax
     then executed_batches e1 = executed_batches e @ [bundle_of (pm_market e) (if 0 < fast - amm then ''YES'' else ''NO'') trade_size amm ts] \<and>
       map px_payload (routed_transactions (pm_router e1)) = map px_payload (routed_transactions (pm_router e)) @ [last (executed_batches e1)]
     else x = None \<and> e1 = e)"
  using assms by (simp add: evaluate_oracle_arbitrage_def validate_edge_def execute_atomic_batch_def submit_private_transaction_def Let_def)

lemma demo_tax: "mev_tax (pm_mev (new_polymarket ''CPI'' (Fin 100000))) (Fin 1000) (Some (pm_liquidity (new_polymarket ''CPI'' (Fin 100000)))) =
    ok (fl (3/100))"
  by (simp add: mev_tax_def amm_slippage_def new_polymarket_def new_mev_calculator_def pymin_def pymax_def round_digits_def
      fl_eval float_eval zero_Fin one_Fin)

theorem arbitrage_pays_its_cost_witness:
  "\<exists>x e1. evaluate_oracle_arbitrage 0 0 (Fin (3/4)) (Fin (1/2)) (Fin 1000) (new_polymarket ''CPI'' (Fin 100000)) = (ok x, e1) \<and>
    length (executed_batches e1) = 1"
proof -
  have g: "0 < \<bar>Fin (3/4) - Fin (1/2)\<bar> - fl (3/100)" by (simp add: minus_pyfloat_def fl_eval float_eval zero_Fin)
  show ?thesis using arbitrage_pays_its_cost [OF demo_tax, of 0 0 "Fin (3/4)" "Fin (1/2)"]
    unfolding if_P [OF g] by (auto simp: new_polymarket_def)
qed

lemma history_bounded: "length (vt_history v) \<le> 1000 \<Longrightarrow> length (vt_history (snd (update_probability p t v))) \<le> 1000"
  by (cases "length (vt_history v) \<le> 999") (auto simp: update_probability_def push_bounded_def Let_def)

end
