(* ===== verification/Health.thy ===== *)
theory Health
  imports Staleness RiskModels
begin

text \<open>
  \<open>ops/health_service.py\<close>: the probes of the components and the aggregate.  The database and the venue are third-party:
  the result of a probe (its latency or its error) and the clock reads are arguments; details are kept as datatypes.
\<close>

section \<open>Components\<close>

datatype health = HEALTHY | DEGRADED | CRITICAL | UNKNOWN

record component_health =
  hc_name :: string
  hc_status :: health
  hc_latency :: pyfloat

datatype venue_kind = MockVenue | RealVenue

text \<open>\<open>SIMULATION\<close> is no member of \<open>ExecutionMode\<close>, so \<open>BACKTEST\<close> is the simulation mode.\<close>

definition effective_simulation_mode :: "execution_mode option \<Rightarrow> bool" where
  "effective_simulation_mode m = (m = Some BACKTEST)"

text \<open>Running a probe in its own thread: what it returns within the timeout, what it raises, or a timeout.\<close>

datatype 'a probe = Finished 'a | Failed pyerr | StillRunning

definition probe_result :: "'a probe \<Rightarrow> 'a res" where
  "probe_result p = (case p of Finished x \<Rightarrow> ok x | Failed e \<Rightarrow> Inl e | StillRunning \<Rightarrow> raise (OSError ''TimeoutError''))"

section \<open>The service\<close>

record health_service =
  hs_venue :: venue_kind
  hs_sentinel :: sentinel
  hs_postgres_url :: string
  hs_state_path :: "string option"
  hs_interval :: pyfloat

definition or_env :: "string option \<Rightarrow> string option \<Rightarrow> string" where
  "or_env given env = (case given of
     Some s \<Rightarrow> (if s \<noteq> '''' then s else case env of None \<Rightarrow> '''' | Some e \<Rightarrow> e)
   | None \<Rightarrow> (case env of None \<Rightarrow> '''' | Some e \<Rightarrow> e))"

definition new_health_service :: "venue_kind option \<Rightarrow> sentinel option \<Rightarrow> execution_mode option \<Rightarrow> string option \<Rightarrow> string option
    \<Rightarrow> pyfloat \<Rightarrow> string option \<Rightarrow> health_service res" where
  "new_health_service venue sen mode url path interval env_url =
    rbind (case venue of
       Some v \<Rightarrow> ok v
     | None \<Rightarrow> if effective_simulation_mode mode then ok MockVenue
         else raise (ValueError ''venue_adapter is required'')) (\<lambda>v.
      ok \<lparr>hs_venue = v, hs_sentinel = (case sen of None \<Rightarrow> new_sentinel (fl 3000) 100 | Some s \<Rightarrow> s),
        hs_postgres_url = or_env url env_url, hs_state_path = path, hs_interval = interval\<rparr>)"

definition check_database_health :: "string option \<Rightarrow> pyfloat probe \<Rightarrow> health_service \<Rightarrow> component_health" where
  "check_database_health env_url probe hs =
    (if or_env (Some (hs_postgres_url hs)) env_url = ''''
     then \<lparr>hc_name = ''database'', hc_status = UNKNOWN, hc_latency = 0\<rparr>
     else case probe_result probe of
       Inl _ \<Rightarrow> \<lparr>hc_name = ''database'', hc_status = CRITICAL, hc_latency = 0\<rparr>
     | Inr ms \<Rightarrow> \<lparr>hc_name = ''database'', hc_status = HEALTHY, hc_latency = round_digits ms 3\<rparr>)"

definition check_exchange_api_health :: "unit probe \<Rightarrow> pyfloat \<Rightarrow> pyfloat \<Rightarrow> health_service \<Rightarrow> component_health" where
  "check_exchange_api_health probe t0 t1 hs =
    (let lat = round_digits ((t1 - t0) * fl 1000) 3;
         status = (if hs_venue hs = MockVenue then HEALTHY else case probe_result probe of Inl _ \<Rightarrow> CRITICAL | Inr _ \<Rightarrow> HEALTHY)
     in \<lparr>hc_name = ''exchange_api'', hc_status = status, hc_latency = lat\<rparr>)"

definition check_websocket_health :: "string \<Rightarrow> pyfloat \<Rightarrow> health_service \<Rightarrow> component_health \<times> health_service" where
  "check_websocket_health symbol clock hs = (case is_stale symbol None None clock (hs_sentinel hs) of
     (stale, s) \<Rightarrow> (\<lparr>hc_name = ''websocket_data'', hc_status = (if stale then DEGRADED else HEALTHY), hc_latency = 0\<rparr>,
       hs\<lparr>hs_sentinel := s\<rparr>))"

text \<open>\<open>mtime\<close> is the modification time of the state file, if it can be read.\<close>

definition check_daemon_health :: "string option \<Rightarrow> (string \<Rightarrow> pyfloat option) \<Rightarrow> pyfloat \<Rightarrow> health_service \<Rightarrow> component_health" where
  "check_daemon_health env_path mtime now hs =
    (let path = or_env (hs_state_path hs) env_path in
     if path = '''' then \<lparr>hc_name = ''daemon_process'', hc_status = UNKNOWN, hc_latency = 0\<rparr>
     else case mtime path of
       None \<Rightarrow> \<lparr>hc_name = ''daemon_process'', hc_status = UNKNOWN, hc_latency = 0\<rparr>
     | Some t \<Rightarrow> \<lparr>hc_name = ''daemon_process'',
         hc_status = (if now - t \<le> fl 2 * hs_interval hs then HEALTHY else CRITICAL), hc_latency = round_digits ((now - t) * fl 1000) 1\<rparr>)"

definition aggregate_health :: "health list \<Rightarrow> health" where
  "aggregate_health ss = (if CRITICAL \<in> set ss then CRITICAL else if DEGRADED \<in> set ss then DEGRADED else HEALTHY)"

record health_probe =
  hp_env_url :: "string option"
  hp_env_path :: "string option"
  hp_database :: "pyfloat probe"
  hp_venue :: "unit probe"
  hp_t0 :: pyfloat
  hp_t1 :: pyfloat
  hp_mtime :: "string \<Rightarrow> pyfloat option"
  hp_now :: pyfloat

definition evaluate_system_health :: "health_probe \<Rightarrow> string \<Rightarrow> health_service \<Rightarrow> (health \<times> component_health list) \<times> health_service" where
  "evaluate_system_health p symbol hs =
    (case check_websocket_health symbol (hp_now p) hs of (ws, hs1) \<Rightarrow>
      (let cs = [check_database_health (hp_env_url p) (hp_database p) hs,
                 check_exchange_api_health (hp_venue p) (hp_t0 p) (hp_t1 p) hs, ws,
                 check_daemon_health (hp_env_path p) (hp_mtime p) (hp_now p) hs]
       in ((aggregate_health (map hc_status cs), cs), hs1)))"

section \<open>The cached payload of the API\<close>

text \<open>\<open>_load_health_payload\<close> of \<open>api/app.py\<close>: a service over the mock venue, built anew whenever the cache has expired; the
  fallback when the trading stack cannot be imported.\<close>

type_synonym health_payload = "health \<times> component_health list"

record health_cache =
  ch_payload :: "health_payload option"
  ch_at :: pyfloat

definition empty_cache :: health_cache where
  "empty_cache = \<lparr>ch_payload = None, ch_at = 0\<rparr>"

definition fallback_payload :: health_payload where
  "fallback_payload = (DEGRADED, [\<lparr>hc_name = ''health_service'', hc_status = DEGRADED, hc_latency = 0\<rparr>])"

definition fresh_payload :: "bool \<Rightarrow> health_probe \<Rightarrow> health_payload" where
  "fresh_payload stack p = (if \<not> stack then fallback_payload
     else case new_health_service (Some MockVenue) None (Some BACKTEST) None None (fl 60) (hp_env_url p) of
       Inl _ \<Rightarrow> fallback_payload
     | Inr hs \<Rightarrow> fst (evaluate_system_health p ''BTC'' hs))"

definition load_health_payload :: "bool \<Rightarrow> health_probe \<Rightarrow> pyfloat \<Rightarrow> pyfloat \<Rightarrow> health_cache \<Rightarrow> health_payload \<times> health_cache" where
  "load_health_payload stack p now later c =
    (let fresh = (let pl = fresh_payload stack p in (pl, \<lparr>ch_payload = Some pl, ch_at = later\<rparr>)) in
     case ch_payload c of
       None \<Rightarrow> fresh
     | Some pl \<Rightarrow> if now - ch_at c < fl 5 then (pl, c) else fresh)"

type_synonym health_request = "bool \<times> health_probe \<times> pyfloat \<times> pyfloat"

fun serve_health :: "health_request list \<Rightarrow> health_cache \<Rightarrow> health_payload list" where
  "serve_health [] c = []"
| "serve_health ((stack, p, now, later) # rs) c = (case load_health_payload stack p now later c of (pl, c1) \<Rightarrow> pl # serve_health rs c1)"

section \<open>What the aggregate says\<close>

lemma aggregate_cases: "aggregate_health ss =
    (if list_ex (\<lambda>s. s = CRITICAL) ss then CRITICAL else if list_ex (\<lambda>s. s = DEGRADED) ss then DEGRADED else HEALTHY)"
  by (auto simp: aggregate_health_def list_ex_iff)

lemma unknown_components_pass: "aggregate_health [UNKNOWN, HEALTHY, HEALTHY, UNKNOWN] = HEALTHY"
  by (simp add: aggregate_health_def)

lemma fresh_payload_degraded: "fst (fresh_payload stack p) \<noteq> HEALTHY"
  by (simp add: fresh_payload_def fallback_payload_def new_health_service_def evaluate_system_health_def check_websocket_health_def
      is_stale_def new_sentinel_def aggregate_health_def Let_def)

lemma load_degraded: "(\<And>pl. ch_payload c = Some pl \<Longrightarrow> fst pl \<noteq> HEALTHY) \<Longrightarrow>
  load_health_payload stack p now later c = (pl, c1) \<Longrightarrow> fst pl \<noteq> HEALTHY \<and> (\<forall>pl. ch_payload c1 = Some pl \<longrightarrow> fst pl \<noteq> HEALTHY)"
  using fresh_payload_degraded [of stack p]
  by (auto simp: load_health_payload_def Let_def split: option.splits if_splits)

lemma served_degraded: "(\<And>pl. ch_payload c = Some pl \<Longrightarrow> fst pl \<noteq> HEALTHY) \<Longrightarrow> list_all (\<lambda>pl. fst pl \<noteq> HEALTHY) (serve_health rs c)"
proof (induction rs arbitrary: c)
  case (Cons r rs)
  obtain stack p now later where r: "r = (stack, p, now, later)" by (metis surj_pair)
  obtain pl c1 where l: "load_health_payload stack p now later c = (pl, c1)" by (metis surj_pair)
  have d: "fst pl \<noteq> HEALTHY" "\<forall>pl. ch_payload c1 = Some pl \<longrightarrow> fst pl \<noteq> HEALTHY" using load_degraded [OF _ l] Cons.prems by blast+
  then have "list_all (\<lambda>pl. fst pl \<noteq> HEALTHY) (serve_health rs c1)" using Cons.IH [of c1] by blast
  then show ?case using d(1) by (simp add: r l)
qed simp

text \<open>The health endpoint never claims health: whatever the probes find and however the requests are spaced, no payload it
  serves is HEALTHY, because each service it builds has a staleness sentinel that has seen no tick.\<close>

theorem health_endpoint_never_healthy:
  "list_all (\<lambda>pl. fst pl \<noteq> HEALTHY) (serve_health requests empty_cache)"
  by (rule served_degraded) (simp add: empty_cache_def)

text \<open>The service requires a venue outside the simulation mode, and a venue that cannot be reached or a heartbeat older than two
  intervals makes the aggregate critical.\<close>

lemma venue_is_required: "mode \<noteq> Some BACKTEST \<Longrightarrow> \<not> is_ok (new_health_service None sen mode url path interval env_url)"
  by (simp add: new_health_service_def effective_simulation_mode_def)

lemma unreachable_venue_is_critical:
  assumes "hs_venue hs = RealVenue" "\<not> is_ok (probe_result (hp_venue p))"
  shows "fst (fst (evaluate_system_health p symbol hs)) = CRITICAL"
  using assms by (auto simp: evaluate_system_health_def check_exchange_api_health_def aggregate_health_def is_ok_def Let_def
      split: prod.splits sum.splits)

end
