(* ===== verification/Api.thy ===== *)
theory Api
  imports Health Strategies
begin

text \<open>
  \<open>api/auth.py\<close>, \<open>api/deps.py\<close>, \<open>api/app.py\<close>, \<open>api/walkforward_routes.py\<close>, \<open>walkforward/scheduler.py\<close>: sessions, roles,
  the login limiter and the routes.  The framework hands a route its client, its cookie and its parsed body, solves the role dependency
  before it validates the body, and turns a raise into status 500.  Signing, digests and number parsing are parameters.
\<close>

section \<open>Text\<close>

definition py_space :: "char \<Rightarrow> bool" where
  "py_space c = (let n = (of_char c :: nat) in (9 \<le> n \<and> n \<le> 13) \<or> (28 \<le> n \<and> n \<le> 32) \<or> n = 133 \<or> n = 160)"

definition strip :: "string \<Rightarrow> string" where
  "strip s = rev (dropWhile py_space (rev (dropWhile py_space s)))"

definition utf8_length :: "string \<Rightarrow> nat" where
  "utf8_length s = sum_list (map (\<lambda>c. if (of_char c :: nat) < 128 then 1 else 2) s)"

definition lower_char :: "char \<Rightarrow> char" where
  "lower_char c = (if 65 \<le> (of_char c :: nat) \<and> (of_char c :: nat) \<le> 90 then char_of ((of_char c :: nat) + 32) else c)"

definition is_ascii :: "string \<Rightarrow> bool" where
  "is_ascii s = list_all (\<lambda>c. (of_char c :: nat) < 128) s"

fun split_on :: "char \<Rightarrow> string \<Rightarrow> string list" where
  "split_on d [] = [[]]"
| "split_on d (c # cs) = (if c = d then [] # split_on d cs
     else (case split_on d cs of [] \<Rightarrow> [[c]] | w # ws \<Rightarrow> (c # w) # ws))"

section \<open>Sessions\<close>

datatype role = VIEWER | OPERATOR | ADMIN

record session_claims =
  cl_sub :: string
  cl_role :: role
  cl_iat :: int

text \<open>\<open>seal\<close> serializes and signs claims at a time, \<open>unseal\<close> verifies a token at a time, its age and its payload included.\<close>

record auth_lib =
  au_seal :: "session_claims \<Rightarrow> int \<Rightarrow> string"
  au_unseal :: "string \<Rightarrow> int \<Rightarrow> session_claims option"
  au_digest :: "string \<Rightarrow> string"
  au_kdf :: "string \<Rightarrow> string \<Rightarrow> int \<Rightarrow> string res"
  au_int :: "string \<Rightarrow> int option"
  au_hex :: "string \<Rightarrow> string option"

type_synonym environ = "string \<rightharpoonup> string"

definition env_or :: "environ \<Rightarrow> string \<Rightarrow> string \<Rightarrow> string" where
  "env_or env k d = (case env k of None \<Rightarrow> d | Some v \<Rightarrow> v)"

definition insecure_dev :: "environ \<Rightarrow> bool" where
  "insecure_dev env = (env ''API_INSECURE_DEV'' = Some ''1'')"

definition resolve_secret :: "environ \<Rightarrow> string \<Rightarrow> string res" where
  "resolve_secret env pid = (let secret = strip (env_or env ''API_SESSION_SECRET'' '''') in
     if secret \<noteq> '''' then (if utf8_length secret < 16 then raise (RuntimeError ''API_SESSION_SECRET is too short'') else ok secret)
     else if insecure_dev env then ok (''insecure-dev-'' @ pid)
     else raise (RuntimeError ''Refusing to start''))"

section \<open>Passwords\<close>

definition hash_password :: "auth_lib \<Rightarrow> (string \<Rightarrow> string) \<Rightarrow> string \<Rightarrow> string \<Rightarrow> string res" where
  "hash_password lib to_hex salt password = rbind (au_kdf lib password salt 100000) (\<lambda>digest.
     ok (''pbkdf2$100000$'' @ to_hex salt @ ''$'' @ to_hex digest))"

definition pbkdf2_verify :: "auth_lib \<Rightarrow> string \<Rightarrow> string \<Rightarrow> bool res" where
  "pbkdf2_verify lib password expected = (case split_on (CHR ''$'') expected of
     [a, b, c, d] \<Rightarrow>
       if a \<noteq> ''pbkdf2'' then ok False else
       (case (au_int lib b, au_hex lib c, au_hex lib d) of
          (Some n, Some salt, Some digest) \<Rightarrow>
            if n \<le> 0 \<or> salt = '''' \<or> digest = '''' then ok False
            else rbind (au_kdf lib password salt n) (\<lambda>actual. ok (actual = digest))
        | _ \<Rightarrow> ok False)
   | _ \<Rightarrow> ok False)"

text \<open>\<open>compare_digest\<close> of strings refuses characters beyond ASCII.\<close>

definition verify_password :: "auth_lib \<Rightarrow> string \<Rightarrow> string option \<Rightarrow> bool res" where
  "verify_password lib password expected = (case expected of
     None \<Rightarrow> ok False
   | Some e \<Rightarrow> if e = '''' then ok False else
       (let stored = strip e in
        if CHR ''$'' \<in> set stored then pbkdf2_verify lib password stored
        else if \<not> is_ascii stored then raise (TypeError ''comparing strings with non-ASCII characters is not supported'')
        else ok (au_digest lib password = map lower_char stored)))"

definition INSECURE_DEV_HASH :: string where
  "INSECURE_DEV_HASH = ''pbkdf2$100000$5de10c0ffee57ba5e5ab1776dead17f0$3a371df9ff43a383dd81497a42f1ad0f949b4cf1022d3b278bf39267e562cd59''"

definition build_session_claims :: "string \<Rightarrow> role \<Rightarrow> int \<Rightarrow> session_claims" where
  "build_session_claims username r now = \<lparr>cl_sub = username, cl_role = r, cl_iat = now\<rparr>"

definition authenticate_operator :: "auth_lib \<Rightarrow> environ \<Rightarrow> int \<Rightarrow> string \<Rightarrow> string \<Rightarrow> session_claims option res" where
  "authenticate_operator lib env now username password =
    (let configured = strip (env_or env ''OPERATOR_PASSWORD_HASH'' '''') in
     if configured = '''' \<and> \<not> insecure_dev env then ok None
     else if username = '''' then ok None
     else rbind (verify_password lib password (Some (if configured = '''' then INSECURE_DEV_HASH else configured))) (\<lambda>good.
       ok (if good then Some (build_session_claims username OPERATOR now) else None)))"

section \<open>The session manager\<close>

text \<open>The state is the set of revoked digests.\<close>

definition revoke :: "auth_lib \<Rightarrow> string \<Rightarrow> string set \<Rightarrow> string set" where
  "revoke lib token revoked = insert (au_digest lib token) revoked"

definition unsign :: "auth_lib \<Rightarrow> int \<Rightarrow> string set \<Rightarrow> string \<Rightarrow> session_claims option" where
  "unsign lib now revoked token =
    (if au_digest lib token \<in> revoked then None else if \<not> is_ascii token then None else au_unseal lib token now)"

definition get_session_claims :: "auth_lib \<Rightarrow> int \<Rightarrow> string set \<Rightarrow> string option \<Rightarrow> session_claims option" where
  "get_session_claims lib now revoked cookie = (case cookie of
     None \<Rightarrow> None | Some t \<Rightarrow> if t = '''' then None else unsign lib now revoked t)"

datatype gate = Admitted session_claims | Refused nat

definition require_role :: "role list \<Rightarrow> session_claims option \<Rightarrow> gate" where
  "require_role allowed claims = (case claims of
     None \<Rightarrow> Refused 401
   | Some c \<Rightarrow> if cl_role c \<in> set allowed then Admitted c else Refused 403)"

definition viewers :: "role list" where
  "viewers = [VIEWER, OPERATOR, ADMIN]"

definition operators :: "role list" where
  "operators = [OPERATOR, ADMIN]"

definition admins :: "role list" where
  "admins = [ADMIN]"

section \<open>The login limiter\<close>

record login_limiter =
  lm_max :: nat
  lm_window :: pyfloat
  lm_attempts :: "(string, pyfloat list) dict"

definition new_login_limiter :: login_limiter where
  "new_login_limiter = \<lparr>lm_max = 5, lm_window = fl 60, lm_attempts = []\<rparr>"

definition expire :: "pyfloat \<Rightarrow> pyfloat \<Rightarrow> pyfloat list \<Rightarrow> pyfloat list" where
  "expire w now bucket = dropWhile (\<lambda>t. w < now - t) bucket"

definition check_login :: "string \<Rightarrow> pyfloat \<Rightarrow> login_limiter \<Rightarrow> bool \<times> login_limiter" where
  "check_login ip now l = (let bucket = expire (lm_window l) now (dget_or (lm_attempts l) ip []) in
     if lm_max l \<le> length bucket then (False, l\<lparr>lm_attempts := dset ip bucket (lm_attempts l)\<rparr>)
     else (True, l\<lparr>lm_attempts := dset ip (bucket @ [now]) (lm_attempts l)\<rparr>))"

definition cookie_secure :: "environ \<Rightarrow> bool" where
  "cookie_secure env = (env_or env ''BIND_HOST'' ''127.0.0.1'' \<notin> {''127.0.0.1'', ''localhost''})"

section \<open>Requests\<close>

datatype route =
    Login string string
  | Logout
  | LogoutAll
  | PutConfig "pyfloat option" "pyfloat option"
  | GetConfig
  | ResetConfig
  | GetHealth bool health_probe
  | WalkforwardStatus
  | WalkforwardTrigger
  | WalkforwardReset

record request =
  rq_client :: "string option"
  rq_cookie :: "string option"
  rq_route :: route

text \<open>What a request meets: the clocks, and the result of writing the configuration file.\<close>

record moment =
  mo_clock :: pyfloat
  mo_later :: pyfloat
  mo_epoch :: int
  mo_time :: pyfloat
  mo_write :: "unit res"

type_synonym config = "(string, pyfloat) dict"

datatype response =
    LoggedIn session_claims string bool
  | LoggedOut
  | AllLoggedOut
  | ConfigUpdated session_claims config
  | ConfigIs config
  | ConfigReset
  | HealthIs health_payload
  | WalkforwardIs "pyfloat option" bool
  | Triggered
  | StatusReset
  | Failure nat

record api =
  ap_limiter :: login_limiter
  ap_revoked :: "string set"
  ap_config :: config
  ap_file :: config
  ap_health :: health_cache
  ap_last_run :: "pyfloat option"

text \<open>The configuration is loaded from its file; a file that is not an object of numbers is not modelled.\<close>

definition create_api :: "login_limiter \<Rightarrow> health_cache \<Rightarrow> config \<Rightarrow> api" where
  "create_api limiter cache stored = \<lparr>ap_limiter = limiter, ap_revoked = {}, ap_config = stored, ap_file = stored,
     ap_health = cache, ap_last_run = None\<rparr>"

section \<open>Handlers\<close>

definition login :: "auth_lib \<Rightarrow> environ \<Rightarrow> moment \<Rightarrow> string option \<Rightarrow> string \<Rightarrow> string \<Rightarrow> api \<Rightarrow> response \<times> api" where
  "login lib env m client username password a =
    (case check_login (case client of None \<Rightarrow> ''unknown'' | Some c \<Rightarrow> c) (mo_clock m) (ap_limiter a) of
       (allowed, l) \<Rightarrow>
         (let a1 = a\<lparr>ap_limiter := l\<rparr> in
          if \<not> allowed then (Failure 429, a1)
          else (case authenticate_operator lib env (mo_epoch m) username password of
              Inl _ \<Rightarrow> (Failure 500, a1)
            | Inr None \<Rightarrow> (Failure (if strip (env_or env ''OPERATOR_PASSWORD_HASH'' '''') = '''' \<and> \<not> insecure_dev env then 503 else 401), a1)
            | Inr (Some c) \<Rightarrow> (LoggedIn c (au_seal lib c (mo_epoch m)) (cookie_secure env), a1))))"

definition revoke_cookie :: "auth_lib \<Rightarrow> string option \<Rightarrow> api \<Rightarrow> api" where
  "revoke_cookie lib cookie a = (case cookie of
     None \<Rightarrow> a | Some t \<Rightarrow> if t = '''' then a else a\<lparr>ap_revoked := revoke lib t (ap_revoked a)\<rparr>)"

definition valid_update :: "pyfloat option \<Rightarrow> pyfloat option \<Rightarrow> bool" where
  "valid_update pct r =
    ((case pct of None \<Rightarrow> True | Some p \<Rightarrow> 0 < p \<and> p \<le> 1) \<and> (case r of None \<Rightarrow> True | Some x \<Rightarrow> 0 < x \<and> x \<le> fl 10))"

definition update_config :: "pyfloat option \<Rightarrow> pyfloat option \<Rightarrow> config \<Rightarrow> config" where
  "update_config pct r c =
    (let c1 = (case pct of None \<Rightarrow> c | Some p \<Rightarrow> dset ''max_position_pct'' p c)
     in case r of None \<Rightarrow> c1 | Some x \<Rightarrow> dset ''risk_multiplier'' x c1)"

text \<open>The configuration in memory changes first; a failing write leaves the file as it was.\<close>

definition put_config :: "moment \<Rightarrow> session_claims \<Rightarrow> pyfloat option \<Rightarrow> pyfloat option \<Rightarrow> api \<Rightarrow> response \<times> api" where
  "put_config m c pct r a = (let cfg = update_config pct r (ap_config a); a1 = a\<lparr>ap_config := cfg\<rparr> in
     case mo_write m of Inl _ \<Rightarrow> (Failure 500, a1) | Inr _ \<Rightarrow> (ConfigUpdated c cfg, a1\<lparr>ap_file := cfg\<rparr>))"

definition reset_config :: "moment \<Rightarrow> api \<Rightarrow> response \<times> api" where
  "reset_config m a = (let a1 = a\<lparr>ap_config := []\<rparr> in
     case mo_write m of Inl _ \<Rightarrow> (Failure 500, a1) | Inr _ \<Rightarrow> (ConfigReset, a1\<lparr>ap_file := []\<rparr>))"

definition should_run :: "pyfloat option \<Rightarrow> pyfloat \<Rightarrow> pyfloat \<Rightarrow> bool" where
  "should_run last_run now days = (case last_run of None \<Rightarrow> True | Some t \<Rightarrow> days * fl 86400 \<le> now - t)"

text \<open>The roles a route requires; \<open>None\<close> for the two open routes.\<close>

fun route_roles :: "route \<Rightarrow> role list option" where
  "route_roles (Login _ _) = None"
| "route_roles (GetHealth _ _) = None"
| "route_roles Logout = Some viewers"
| "route_roles LogoutAll = Some admins"
| "route_roles (PutConfig _ _) = Some operators"
| "route_roles GetConfig = Some viewers"
| "route_roles ResetConfig = Some admins"
| "route_roles WalkforwardStatus = Some viewers"
| "route_roles WalkforwardTrigger = Some operators"
| "route_roles WalkforwardReset = Some admins"

fun open_route :: "auth_lib \<Rightarrow> environ \<Rightarrow> moment \<Rightarrow> string option \<Rightarrow> route \<Rightarrow> api \<Rightarrow> response \<times> api" where
  "open_route lib env m client (Login u p) a = login lib env m client u p a"
| "open_route lib env m client (GetHealth stack pr) a =
    (case load_health_payload stack pr (mo_clock m) (mo_later m) (ap_health a) of (pl, c) \<Rightarrow> (HealthIs pl, a\<lparr>ap_health := c\<rparr>))"
| "open_route lib env m client r a = (Failure 404, a)"

fun gated_route :: "auth_lib \<Rightarrow> moment \<Rightarrow> string option \<Rightarrow> session_claims \<Rightarrow> route \<Rightarrow> api \<Rightarrow> response \<times> api" where
  "gated_route lib m cookie c Logout a = (LoggedOut, revoke_cookie lib cookie a)"
| "gated_route lib m cookie c LogoutAll a = (AllLoggedOut, revoke_cookie lib cookie a)"
| "gated_route lib m cookie c (PutConfig pct r) a = (if valid_update pct r then put_config m c pct r a else (Failure 422, a))"
| "gated_route lib m cookie c GetConfig a = (ConfigIs (ap_config a), a)"
| "gated_route lib m cookie c ResetConfig a = reset_config m a"
| "gated_route lib m cookie c WalkforwardStatus a =
    (WalkforwardIs (ap_last_run a) (should_run (ap_last_run a) (mo_time m) (fl 7)), a)"
| "gated_route lib m cookie c WalkforwardTrigger a = (Triggered, a)"
| "gated_route lib m cookie c WalkforwardReset a = (StatusReset, a\<lparr>ap_last_run := None\<rparr>)"
| "gated_route lib m cookie c r a = (Failure 404, a)"

definition handle :: "auth_lib \<Rightarrow> environ \<Rightarrow> moment \<Rightarrow> request \<Rightarrow> api \<Rightarrow> response \<times> api" where
  "handle lib env m rq a = (case route_roles (rq_route rq) of
     None \<Rightarrow> open_route lib env m (rq_client rq) (rq_route rq) a
   | Some allowed \<Rightarrow> (case require_role allowed (get_session_claims lib (mo_epoch m) (ap_revoked a) (rq_cookie rq)) of
       Refused n \<Rightarrow> (Failure n, a)
     | Admitted c \<Rightarrow> gated_route lib m (rq_cookie rq) c (rq_route rq) a))"

fun serve :: "auth_lib \<Rightarrow> environ \<Rightarrow> (moment \<times> request) list \<Rightarrow> api \<Rightarrow> response list \<times> api" where
  "serve lib env [] a = ([], a)"
| "serve lib env ((m, rq) # rqs) a = (case handle lib env m rq a of (r, a1) \<Rightarrow>
     (case serve lib env rqs a1 of (rs, a2) \<Rightarrow> (r # rs, a2)))"

section \<open>Tracing middleware\<close>

type_synonym headers = "(string, string) dict"

definition setdefault :: "string \<Rightarrow> string \<Rightarrow> headers \<Rightarrow> headers" where
  "setdefault k v h = (if dget h k = None then dset k v h else h)"

definition cid_char :: "char \<Rightarrow> bool" where
  "cid_char c = (let n = (of_char c :: nat) in (65 \<le> n \<and> n \<le> 90) \<or> (97 \<le> n \<and> n \<le> 122) \<or> (48 \<le> n \<and> n \<le> 57) \<or> n = 45)"

definition correlation_id :: "string \<Rightarrow> string \<Rightarrow> string" where
  "correlation_id raw fresh = (let cid = take 64 (filter cid_char (if raw = '''' then fresh else raw)) in if cid = '''' then fresh else cid)"

definition CSP :: string where
  "CSP = ''default-src 'self'; connect-src 'self'; script-src 'self'; style-src 'self'; img-src 'self' data:''"

text \<open>The response built when the route raises is not returned: the exception passes the \<open>finally\<close> block.\<close>

definition request_tracing :: "string \<Rightarrow> headers res \<Rightarrow> headers res" where
  "request_tracing cid result = rbind result (\<lambda>h. ok (setdefault ''Content-Security-Policy'' CSP (setdefault ''X-Request-ID'' cid h)))"

definition SECURITY_HEADERS :: headers where
  "SECURITY_HEADERS = [(''X-Content-Type-Options'', ''nosniff''), (''X-Frame-Options'', ''DENY''), (''Referrer-Policy'', ''no-referrer''),
     (''Strict-Transport-Security'', ''max-age=63072000; includeSubDomains; preload''),
     (''Permissions-Policy'', ''camera=(), microphone=(), geolocation=()'')]"

definition security_headers :: "headers res \<Rightarrow> headers res" where
  "security_headers result = rbind result (\<lambda>h. ok (foldl (\<lambda>h (k, v). setdefault k v h) h SECURITY_HEADERS))"

definition allowed_origins :: "environ \<Rightarrow> string list" where
  "allowed_origins env = filter (\<lambda>o'. o' \<noteq> '''')
     (map strip (split_on (CHR '','') (env_or env ''API_CORS_ORIGINS'' (''http://localhost:'' @ env_or env ''API_PORT'' ''8080''))))"

section \<open>The login limit\<close>

fun accepted :: "string \<Rightarrow> (string \<times> pyfloat) list \<Rightarrow> login_limiter \<Rightarrow> pyfloat list" where
  "accepted ip [] l = []"
| "accepted ip ((c, now) # rs) l = (case check_login c now l of (allowed, l1) \<Rightarrow>
     if allowed \<and> c = ip then now # accepted ip rs l1 else accepted ip rs l1)"

definition spaced :: "nat \<Rightarrow> pyfloat \<Rightarrow> pyfloat list \<Rightarrow> bool" where
  "spaced n w ts \<longleftrightarrow> (\<forall>i. i + n < length ts \<longrightarrow> w < ts ! (i + n) - ts ! i)"

text \<open>The bucket is what is left of the accepted attempts; the expired ones are older than the window.\<close>

definition limiter_inv :: "string \<Rightarrow> pyfloat \<Rightarrow> pyfloat list \<Rightarrow> login_limiter \<Rightarrow> bool" where
  "limiter_inv ip now acc l \<longleftrightarrow> list_all is_finite acc \<and> spaced (lm_max l) (lm_window l) acc \<and>
    (\<exists>gone. acc = gone @ dget_or (lm_attempts l) ip [] \<and> list_all (\<lambda>t. lm_window l < now - t) gone)"

lemma later_than: "is_finite a \<Longrightarrow> is_finite b \<Longrightarrow> is_finite t \<Longrightarrow> a \<le> b \<Longrightarrow> w < a - t \<Longrightarrow> w < b - t"
  by (cases a; cases b; cases t) (auto simp: is_finite_def minus_pyfloat_def elim!: less_le_trans_pyfloat intro!: fl_mono)

lemma spaced_snoc:
  assumes "spaced n w ts" "\<And>i. i + n = length ts \<Longrightarrow> w < now - ts ! i" "0 < n"
  shows "spaced n w (ts @ [now])"
  using assms by (auto simp: spaced_def nth_append less_Suc_eq)

lemma limiter_step:
  assumes inv: "limiter_inv ip t0 acc l" and t: "is_finite t0" "is_finite now" "t0 \<le> now" and c: "check_login c now l = (allowed, l1)"
  shows "limiter_inv ip now (if allowed \<and> c = ip then acc @ [now] else acc) l1 \<and> lm_max l1 = lm_max l \<and> lm_window l1 = lm_window l"
proof -
  define b where "b = dget_or (lm_attempts l) ip []"
  obtain gone where gone: "acc = gone @ b" "list_all (\<lambda>t. lm_window l < t0 - t) gone" "list_all is_finite acc" "spaced (lm_max l) (lm_window l) acc"
    using inv by (auto simp: limiter_inv_def b_def)
  have old: "list_all (\<lambda>t. lm_window l < now - t) gone"
    using gone(1-3) later_than [OF t(1,2) _ t(3)] by (auto simp: list_all_iff)
  show ?thesis
  proof (cases "c = ip")
    case False
    then have "dget_or (lm_attempts l1) ip [] = b" "lm_max l1 = lm_max l" "lm_window l1 = lm_window l"
      using c by (auto simp: check_login_def Let_def b_def dict_simps split: if_splits)
    then show ?thesis using gone old False by (auto simp: limiter_inv_def)
  next
    case True
    define e where "e = expire (lm_window l) now b"
    have take: "b = takeWhile (\<lambda>t. lm_window l < now - t) b @ e" by (simp add: e_def expire_def)
    define gone1 where "gone1 = gone @ takeWhile (\<lambda>t. lm_window l < now - t) b"
    have acc: "acc = gone1 @ e" using gone(1) take by (simp add: gone1_def)
    have "list_all (\<lambda>t. lm_window l < now - t) (takeWhile (\<lambda>t. lm_window l < now - t) b)"
      by (auto simp: list_all_iff dest: set_takeWhileD)
    then have old1: "list_all (\<lambda>t. lm_window l < now - t) gone1" using old by (simp add: gone1_def)
    have l1: "allowed = (length e < lm_max l)" "dget_or (lm_attempts l1) ip [] = (if allowed then e @ [now] else e)"
      "lm_max l1 = lm_max l" "lm_window l1 = lm_window l"
      using c True by (auto simp: check_login_def Let_def b_def [symmetric] e_def [symmetric] dict_simps split: if_splits)
    show ?thesis
    proof (cases allowed)
      case False
      then show ?thesis using True l1 gone(3,4) acc old1 by (auto simp: limiter_inv_def)
    next
      case allow: True
      have "lm_window l < now - acc ! i" if "i + lm_max l = length acc" for i
      proof -
        have "i < length gone1" using that l1(1) allow acc by simp
        then show ?thesis using old1 acc by (simp add: list_all_length nth_append)
      qed
      moreover have "0 < lm_max l" using l1(1) allow by simp
      ultimately have "spaced (lm_max l) (lm_window l) (acc @ [now])" using spaced_snoc gone(4) by blast
      then show ?thesis using True allow l1 gone(3) acc old1 t(2) by (auto simp: limiter_inv_def)
    qed
  qed
qed

lemma accepted_spaced:
  assumes "limiter_inv ip t0 acc l" "is_finite t0" "list_all is_finite (map snd rs)" "sorted_wrt (\<le>) (t0 # map snd rs)"
  shows "spaced (lm_max l) (lm_window l) (acc @ accepted ip rs l)"
  using assms
proof (induction rs arbitrary: t0 acc l)
  case Nil
  then show ?case by (simp add: limiter_inv_def)
next
  case (Cons r rs)
  obtain c now where r: "r = (c, now)" by (cases r)
  obtain allowed l1 where l1: "check_login c now l = (allowed, l1)" by (cases "check_login c now l") blast
  have n: "is_finite now" "t0 \<le> now" "list_all is_finite (map snd rs)" "sorted_wrt (\<le>) (now # map snd rs)"
    using Cons.prems(3,4) by (auto simp: r)
  note step = limiter_step [OF Cons.prems(1,2) n(1,2) l1]
  have "spaced (lm_max l1) (lm_window l1) ((if allowed \<and> c = ip then acc @ [now] else acc) @ accepted ip rs l1)"
    using Cons.IH [OF _ n(1,3,4)] step by blast
  then show ?case using step l1 by (cases "allowed \<and> c = ip") (auto simp: r)
qed

text \<open>C25: The login limit holds: whatever attempts any clients make over a clock that does not run backwards, any six consecutive
  attempts of one client that pass the limiter (one more than its maximum) span more than its window.\<close>

theorem login_attempts_are_spaced:
  assumes "list_all is_finite (map snd attempts)" "sorted_wrt (\<le>) (map snd attempts)"
  shows "spaced 5 (fl 60) (accepted ip attempts new_login_limiter)"
proof (cases attempts)
  case Nil
  then show ?thesis by (simp add: spaced_def)
next
  case (Cons r rs)
  define t0 where "t0 = snd r"
  have "is_finite t0" "t0 \<le> t0" using assms(1) le_refl_pyfloat by (auto simp: Cons t0_def is_finite_def split: pyfloat.splits)
  then have "sorted_wrt (\<le>) (t0 # map snd attempts)" using assms(2) by (simp add: Cons t0_def)
  moreover have "limiter_inv ip t0 [] new_login_limiter" by (simp add: limiter_inv_def new_login_limiter_def spaced_def dget_or_def)
  ultimately show ?thesis using accepted_spaced [OF _ \<open>is_finite t0\<close> assms(1)] by (fastforce simp: new_login_limiter_def)
qed

theorem login_attempts_are_spaced_witness:
  "spaced 5 (fl 60) (accepted ''10.0.0.1'' (replicate 7 (''10.0.0.1'', Fin 1)) new_login_limiter)"
  by (rule login_attempts_are_spaced) (simp_all add: is_finite_def numeral_eq_Suc)

section \<open>Roles\<close>

definition config_ok :: "config \<Rightarrow> bool" where
  "config_ok c = list_all (\<lambda>(k, v). (k = ''max_position_pct'' \<and> 0 < v \<and> v \<le> 1) \<or> (k = ''risk_multiplier'' \<and> 0 < v \<and> v \<le> fl 10)) c"

text \<open>Configuration changes are authorized: a request that changes the configuration in memory or on disk carries the cookie of a
  live session of an operator or administrator and is an update within the bounds, or of an administrator and is the reset.\<close>

theorem config_changes_are_authorized:
  "case handle lib env m rq a of (r, a1) \<Rightarrow>
    (ap_config a1 = ap_config a \<and> ap_file a1 = ap_file a) \<or>
    (\<exists>c. get_session_claims lib (mo_epoch m) (ap_revoked a) (rq_cookie rq) = Some c \<and>
      (case rq_route rq of PutConfig pct x \<Rightarrow> valid_update pct x \<and> cl_role c \<noteq> VIEWER | ResetConfig \<Rightarrow> cl_role c = ADMIN | _ \<Rightarrow> False))"
proof (cases "rq_route rq")
  case (Login u p)
  then show ?thesis by (auto simp: handle_def login_def Let_def split: prod.splits sum.splits option.splits)
next
  case (GetHealth stack pr)
  then show ?thesis by (auto simp: handle_def split: prod.splits)
next
  case (PutConfig pct x)
  then show ?thesis
    by (auto simp: handle_def require_role_def operators_def split: option.splits gate.splits prod.splits if_splits)
next
  case ResetConfig
  then show ?thesis by (auto simp: handle_def require_role_def admins_def split: option.splits gate.splits prod.splits if_splits)
qed (auto simp: handle_def revoke_cookie_def split: option.splits gate.splits)

lemma config_ok_dset:
  "config_ok c \<Longrightarrow> (k = ''max_position_pct'' \<and> 0 < v \<and> v \<le> 1) \<or> (k = ''risk_multiplier'' \<and> 0 < v \<and> v \<le> fl 10) \<Longrightarrow> config_ok (dset k v c)"
  by (induction c) (auto simp: config_ok_def)

lemma update_config_ok: "valid_update pct x \<Longrightarrow> config_ok c \<Longrightarrow> config_ok (update_config pct x c)"
  by (auto simp: valid_update_def update_config_def Let_def config_ok_dset split: option.splits)

lemma handle_config_ok:
  assumes "handle lib env m rq a = (r, a1)" "config_ok (ap_config a)" "config_ok (ap_file a)"
  shows "config_ok (ap_config a1) \<and> config_ok (ap_file a1)"
proof (cases "rq_route rq")
  case (Login u p)
  then show ?thesis using assms by (auto simp: handle_def login_def Let_def split: prod.splits sum.splits option.splits if_splits)
next
  case (GetHealth stack pr)
  then show ?thesis using assms by (auto simp: handle_def split: prod.splits)
next
  case (PutConfig pct x)
  then show ?thesis using assms update_config_ok
    by (auto simp: handle_def put_config_def Let_def split: option.splits gate.splits if_splits sum.splits)
next
  case ResetConfig
  then show ?thesis using assms
    by (auto simp: handle_def reset_config_def config_ok_def Let_def split: option.splits gate.splits sum.splits)
qed (use assms in \<open>auto simp: handle_def revoke_cookie_def split: option.splits gate.splits\<close>)

lemma serve_config_ok: "config_ok (ap_config a) \<Longrightarrow> config_ok (ap_file a) \<Longrightarrow>
  config_ok (ap_config (snd (serve lib env rqs a))) \<and> config_ok (ap_file (snd (serve lib env rqs a)))"
proof (induction rqs arbitrary: a)
  case (Cons x rqs)
  obtain m rq where x: "x = (m, rq)" by (cases x)
  obtain r a1 where h: "handle lib env m rq a = (r, a1)" by (cases "handle lib env m rq a") blast
  show ?case using Cons.IH [of a1] handle_config_ok [OF h Cons.prems] by (auto simp: x h split: prod.splits)
qed simp

text \<open>The configuration stays within its bounds: an application started with an empty configuration holds, after any
  requests, in memory and on disk, only position fractions in (0, 1] and risk multipliers in (0, 10].\<close>

theorem config_stays_in_bounds:
  "config_ok (ap_config (snd (serve lib env rqs (create_api limiter cache [])))) \<and>
   config_ok (ap_file (snd (serve lib env rqs (create_api limiter cache []))))"
  by (rule serve_config_ok) (simp_all add: create_api_def config_ok_def)

text \<open>The stored file is not validated: a start from a file keeps whatever it holds.\<close>

lemma stored_config_is_trusted: "ap_config (create_api limiter cache stored) = stored"
  by (simp add: create_api_def)

section \<open>Revocation\<close>

lemma handle_revoked: "handle lib env m rq a = (r, a1) \<Longrightarrow> ap_revoked a \<subseteq> ap_revoked a1"
  by (cases "rq_route rq")
    (auto simp: handle_def login_def put_config_def reset_config_def revoke_cookie_def revoke_def Let_def
      split: prod.splits sum.splits option.splits gate.splits if_splits)

lemma revoked_refused:
  assumes "au_digest lib t \<in> ap_revoked a" "rq_cookie rq = Some t" "route_roles (rq_route rq) \<noteq> None"
  shows "handle lib env m rq a = (Failure 401, a)"
  using assms by (auto simp: handle_def get_session_claims_def unsign_def require_role_def)

definition refused_with :: "string \<Rightarrow> (moment \<times> request) \<times> response \<Rightarrow> bool" where
  "refused_with t x = (case x of ((m, rq), r) \<Rightarrow> if rq_cookie rq = Some t \<and> route_roles (rq_route rq) \<noteq> None then r = Failure 401 else True)"

lemma serve_revoked: "au_digest lib t \<in> ap_revoked a \<Longrightarrow> list_all (refused_with t) (zip rqs (fst (serve lib env rqs a)))"
proof (induction rqs arbitrary: a)
  case (Cons x rqs)
  obtain m rq where x: "x = (m, rq)" by (cases x)
  obtain r a1 where h: "handle lib env m rq a = (r, a1)" by (cases "handle lib env m rq a") blast
  obtain rs a2 where s: "serve lib env rqs a1 = (rs, a2)" by (cases "serve lib env rqs a1") blast
  have "list_all (refused_with t) (zip rqs rs)" using Cons.IH [of a1] handle_revoked [OF h] Cons.prems s by auto
  moreover have "refused_with t ((m, rq), r)" using revoked_refused [OF Cons.prems] h by (auto simp: refused_with_def)
  ultimately show ?case by (simp add: x h s)
qed simp

text \<open>C26: A logged-out session never returns: once a token has logged out, every later request that carries it on a route that
  needs a role is answered 401, whatever happens in between, as long as the process lives.\<close>

theorem logged_out_token_is_refused:
  assumes "handle lib env m \<lparr>rq_client = cl, rq_cookie = Some t, rq_route = Logout\<rparr> a = (LoggedOut, a1)"
  shows "list_all (refused_with t) (zip rqs (fst (serve lib env rqs a1)))"
proof (rule serve_revoked)
  have "t \<noteq> ''''" using assms by (auto simp: handle_def get_session_claims_def require_role_def)
  then show "au_digest lib t \<in> ap_revoked a1"
    using assms by (auto simp: handle_def revoke_cookie_def revoke_def split: option.splits gate.splits)
qed

definition plain_lib :: auth_lib where
  "plain_lib = \<lparr>au_seal = (\<lambda>c _. cl_sub c), au_unseal = (\<lambda>s _. Some \<lparr>cl_sub = s, cl_role = OPERATOR, cl_iat = 0\<rparr>),
     au_digest = (\<lambda>s. s), au_kdf = (\<lambda>p _ _. ok p), au_int = (\<lambda>_. Some 100000), au_hex = Some\<rparr>"

definition demo_moment :: moment where
  "demo_moment = \<lparr>mo_clock = 1, mo_later = 1, mo_epoch = 0, mo_time = 1, mo_write = ok ()\<rparr>"

definition demo_api :: api where
  "demo_api = create_api new_login_limiter empty_cache []"

lemma demo_logout: "handle plain_lib env demo_moment \<lparr>rq_client = None, rq_cookie = Some ''alice'', rq_route = Logout\<rparr> demo_api =
    (LoggedOut, demo_api\<lparr>ap_revoked := {''alice''}\<rparr>)"
  by (simp add: handle_def get_session_claims_def unsign_def require_role_def viewers_def plain_lib_def demo_api_def create_api_def
      is_ascii_def revoke_cookie_def revoke_def)

theorem logged_out_token_is_refused_witness:
  "list_all (refused_with ''alice'') (zip [(demo_moment, \<lparr>rq_client = None, rq_cookie = Some ''alice'', rq_route = GetConfig\<rparr>)]
    (fst (serve plain_lib Map.empty [(demo_moment, \<lparr>rq_client = None, rq_cookie = Some ''alice'', rq_route = GetConfig\<rparr>)]
      (demo_api\<lparr>ap_revoked := {''alice''}\<rparr>))))"
  by (rule logged_out_token_is_refused [OF demo_logout])

text \<open>\<open>logout-all\<close> revokes the caller's token only.\<close>

lemma logout_all_keeps_others:
  assumes "handle lib env m \<lparr>rq_client = cl, rq_cookie = Some t, rq_route = LogoutAll\<rparr> a = (AllLoggedOut, a1)"
    "au_digest lib t' \<noteq> au_digest lib t"
  shows "get_session_claims lib now (ap_revoked a1) (Some t') = get_session_claims lib now (ap_revoked a) (Some t')"
  using assms by (auto simp: handle_def revoke_cookie_def revoke_def get_session_claims_def unsign_def split: option.splits gate.splits if_splits)

section \<open>Login\<close>

text \<open>A login needs the password: a session is opened only for an attempt the limiter lets through, under a non-empty name,
  with a password that verifies against the configured hash, or against the public one in the insecure mode when none is
  configured; the session is an operator's.  Without a configured hash and outside that mode the answer is 503 or 429.\<close>

theorem login_needs_the_password:
  "case handle lib env m \<lparr>rq_client = cl, rq_cookie = ck, rq_route = Login u p\<rparr> a of (r, a1) \<Rightarrow>
    (let h = strip (env_or env ''OPERATOR_PASSWORD_HASH'' '''') in
     case r of
       LoggedIn c tok sec \<Rightarrow> u \<noteq> '''' \<and> cl_role c = OPERATOR \<and> cl_sub c = u \<and>
         fst (check_login (case cl of None \<Rightarrow> ''unknown'' | Some x \<Rightarrow> x) (mo_clock m) (ap_limiter a)) \<and>
         (if h = '''' then insecure_dev env \<and> verify_password lib p (Some INSECURE_DEV_HASH) = ok True
          else verify_password lib p (Some h) = ok True)
     | Failure n \<Rightarrow> (if h = '''' \<and> \<not> insecure_dev env then n \<in> {429, 503} else n \<in> {401, 429, 500})
     | _ \<Rightarrow> False)"
proof -
  define h where "h = strip (env_or env ''OPERATOR_PASSWORD_HASH'' '''')"
  obtain allowed l where l: "check_login (case cl of None \<Rightarrow> ''unknown'' | Some x \<Rightarrow> x) (mo_clock m) (ap_limiter a) = (allowed, l)"
    by (cases "check_login (case cl of None \<Rightarrow> ''unknown'' | Some x \<Rightarrow> x) (mo_clock m) (ap_limiter a)") blast
  show ?thesis
    by (auto simp: handle_def login_def l authenticate_operator_def build_session_claims_def h_def [symmetric] Let_def rbind_def
        split: sum.splits option.splits if_splits)
qed

text \<open>A session works: the token a login returns, as long as it verifies to its claims and is not revoked, reads the configuration
  and is refused the reset.\<close>

lemma login_session_works:
  assumes "handle lib env m \<lparr>rq_client = cl, rq_cookie = ck, rq_route = Login u p\<rparr> a = (LoggedIn c tok sec, a1)"
    "au_unseal lib tok (mo_epoch m') = Some c" "is_ascii tok" "tok \<noteq> ''''" "au_digest lib tok \<notin> ap_revoked b"
  shows "handle lib env m' \<lparr>rq_client = cl, rq_cookie = Some tok, rq_route = GetConfig\<rparr> b = (ConfigIs (ap_config b), b) \<and>
    handle lib env m' \<lparr>rq_client = cl, rq_cookie = Some tok, rq_route = ResetConfig\<rparr> b = (Failure 403, b)"
proof -
  have "cl_role c = OPERATOR"
    using assms(1) by (auto simp: handle_def login_def authenticate_operator_def build_session_claims_def Let_def rbind_def
        split: sum.splits option.splits if_splits prod.splits)
  then show ?thesis using assms by (simp add: handle_def get_session_claims_def unsign_def require_role_def viewers_def admins_def)
qed

section \<open>Errors pass the middleware\<close>

text \<open>A raise of the route reaches the server without the correlation header, a response has it.\<close>

lemma error_has_no_correlation_id: "request_tracing cid (Inl e) = Inl e"
  by (simp add: request_tracing_def)

lemma response_has_correlation_id: "\<exists>h1. request_tracing cid (ok h) = ok h1 \<and> dget h1 ''X-Request-ID'' \<noteq> None"
  by (auto simp: request_tracing_def setdefault_def dict_simps)

lemma correlation_id_is_clean: "list_all cid_char fresh \<Longrightarrow> list_all cid_char (correlation_id raw fresh)"
  by (auto simp: correlation_id_def Let_def list_all_iff dest: in_set_takeD)

end
