(* ===== verification/Campaign.thy ===== *)
theory Campaign
  imports Strategies CircuitBreaker "HOL-Library.Sublist"
begin

text \<open>
  \<open>ops/deployment_metrics.py\<close>, \<open>ops/shadow_campaign.py\<close>, \<open>observability/shadow_metrics.py\<close> and the counters of
  \<open>ops/metrics_collector.py\<close>: the daily metrics with their Postgres table, the aggregate over a window, and the gate of the
  shadow campaign.  A database write is a scheduled task whose outcome is an argument.
\<close>

section \<open>Daily metrics\<close>

record metric_record =
  metric_date :: string
  dm_mode :: string
  dm_symbols :: string
  signals_generated :: int
  signals_approved :: int
  signals_rejected_capital :: int
  signals_rejected_stale_data :: int
  signals_rejected_portfolio_risk :: int
  signals_rejected_liquidity :: int
  shadow_fills_generated :: int
  liquidity_deficit_events :: int
  liquidity_deficit_pct :: pyfloat
  avg_signal_to_fill_latency_ms :: pyfloat
  p95_signal_to_fill_latency_ms :: pyfloat
  p99_signal_to_fill_latency_ms :: pyfloat
  avg_shadow_slippage_bps :: pyfloat
  p95_shadow_slippage_bps :: pyfloat
  staleness_circuit_breaker_trips :: int
  websocket_disconnect_events :: int
  out_of_order_tick_events :: int
  data_quality_failures :: int
  shadow_pnl :: pyfloat
  shadow_pnl_pct :: pyfloat
  max_shadow_drawdown_pct :: pyfloat
  portfolio_exposure_pct :: pyfloat
  effective_leverage :: pyfloat
  portfolio_volatility_annualized :: pyfloat
  portfolio_var_95 :: pyfloat
  portfolio_var_99 :: pyfloat
  funding_burn_pct_daily :: pyfloat
  reconciliation_runs :: int
  reconciliation_mismatches :: int
  quarantine_events :: int
  unknown_order_events :: int
  position_mismatch_events :: int
  balance_mismatch_events :: int

definition blank_record :: "string \<Rightarrow> string \<Rightarrow> string \<Rightarrow> metric_record" where
  "blank_record date mode symbols = \<lparr>metric_date = date, dm_mode = mode, dm_symbols = symbols,
     signals_generated = 0, signals_approved = 0, signals_rejected_capital = 0, signals_rejected_stale_data = 0,
     signals_rejected_portfolio_risk = 0, signals_rejected_liquidity = 0, shadow_fills_generated = 0,
     liquidity_deficit_events = 0, liquidity_deficit_pct = 0, avg_signal_to_fill_latency_ms = 0,
     p95_signal_to_fill_latency_ms = 0, p99_signal_to_fill_latency_ms = 0, avg_shadow_slippage_bps = 0,
     p95_shadow_slippage_bps = 0, staleness_circuit_breaker_trips = 0, websocket_disconnect_events = 0,
     out_of_order_tick_events = 0, data_quality_failures = 0, shadow_pnl = 0, shadow_pnl_pct = 0,
     max_shadow_drawdown_pct = 0, portfolio_exposure_pct = 0, effective_leverage = 0, portfolio_volatility_annualized =
     0, portfolio_var_95 = 0, portfolio_var_99 = 0, funding_burn_pct_daily = 0, reconciliation_runs = 0,
     reconciliation_mismatches = 0, quarantine_events = 0, unknown_order_events = 0, position_mismatch_events = 0,
     balance_mismatch_events = 0\<rparr>"

text \<open>The value columns of a row, in the order of the table.\<close>

datatype column = IntCol int | FloatCol pyfloat

definition metric_values :: "metric_record \<Rightarrow> column list" where
  "metric_values r = [IntCol (signals_generated r), IntCol (signals_approved r), IntCol (signals_rejected_capital r),
     IntCol (signals_rejected_stale_data r), IntCol (signals_rejected_portfolio_risk r), IntCol
     (signals_rejected_liquidity r), IntCol (shadow_fills_generated r), IntCol (liquidity_deficit_events r), FloatCol
     (liquidity_deficit_pct r), FloatCol (avg_signal_to_fill_latency_ms r), FloatCol (p95_signal_to_fill_latency_ms r),
     FloatCol (p99_signal_to_fill_latency_ms r), FloatCol (avg_shadow_slippage_bps r), FloatCol (p95_shadow_slippage_bps
     r), IntCol (staleness_circuit_breaker_trips r), IntCol (websocket_disconnect_events r), IntCol
     (out_of_order_tick_events r), IntCol (data_quality_failures r), FloatCol (shadow_pnl r), FloatCol (shadow_pnl_pct
     r), FloatCol (max_shadow_drawdown_pct r), FloatCol (portfolio_exposure_pct r), FloatCol (effective_leverage r),
     FloatCol (portfolio_volatility_annualized r), FloatCol (portfolio_var_95 r), FloatCol (portfolio_var_99 r),
     FloatCol (funding_burn_pct_daily r), IntCol (reconciliation_runs r), IntCol (reconciliation_mismatches r), IntCol
     (quarantine_events r), IntCol (unknown_order_events r), IntCol (position_mismatch_events r), IntCol
     (balance_mismatch_events r)]"

type_synonym metric_key = "string \<times> string \<times> string"

definition metric_key :: "metric_record \<Rightarrow> metric_key" where
  "metric_key r = (metric_date r, dm_mode r, dm_symbols r)"

section \<open>The window\<close>

definition avg_of :: "(metric_record \<Rightarrow> pyfloat) \<Rightarrow> metric_record list \<Rightarrow> pyfloat" where
  "avg_of f rs = (case fdiv (fsum (map f rs)) (float_of_int (int (length rs))) of Inl _ \<Rightarrow> NaN | Inr a \<Rightarrow> a)"

definition worst_of :: "(metric_record \<Rightarrow> pyfloat) \<Rightarrow> metric_record list \<Rightarrow> pyfloat" where
  "worst_of f rs = foldl pymax (f (hd rs)) (map f (tl rs))"

definition cumulate :: "metric_record list \<Rightarrow> metric_record" where
  "cumulate recent = \<lparr>metric_date = metric_date (last recent), dm_mode = dm_mode (last recent), dm_symbols =
     dm_symbols (last recent), signals_generated = sum_list (map signals_generated recent), signals_approved = sum_list
     (map signals_approved recent), signals_rejected_capital = sum_list (map signals_rejected_capital recent),
     signals_rejected_stale_data = sum_list (map signals_rejected_stale_data recent), signals_rejected_portfolio_risk =
     sum_list (map signals_rejected_portfolio_risk recent), signals_rejected_liquidity = sum_list (map
     signals_rejected_liquidity recent), shadow_fills_generated = sum_list (map shadow_fills_generated recent),
     liquidity_deficit_events = sum_list (map liquidity_deficit_events recent), liquidity_deficit_pct = avg_of
     liquidity_deficit_pct recent, avg_signal_to_fill_latency_ms = avg_of avg_signal_to_fill_latency_ms recent,
     p95_signal_to_fill_latency_ms = worst_of p95_signal_to_fill_latency_ms recent, p99_signal_to_fill_latency_ms =
     worst_of p99_signal_to_fill_latency_ms recent, avg_shadow_slippage_bps = avg_of avg_shadow_slippage_bps recent,
     p95_shadow_slippage_bps = worst_of p95_shadow_slippage_bps recent, staleness_circuit_breaker_trips = sum_list (map
     staleness_circuit_breaker_trips recent), websocket_disconnect_events = sum_list (map websocket_disconnect_events
     recent), out_of_order_tick_events = sum_list (map out_of_order_tick_events recent), data_quality_failures =
     sum_list (map data_quality_failures recent), shadow_pnl = fsum (map shadow_pnl recent), shadow_pnl_pct = fsum (map
     shadow_pnl_pct recent), max_shadow_drawdown_pct = worst_of max_shadow_drawdown_pct recent, portfolio_exposure_pct =
     portfolio_exposure_pct (last recent), effective_leverage = effective_leverage (last recent),
     portfolio_volatility_annualized = portfolio_volatility_annualized (last recent), portfolio_var_95 =
     portfolio_var_95 (last recent), portfolio_var_99 = portfolio_var_99 (last recent), funding_burn_pct_daily =
     funding_burn_pct_daily (last recent), reconciliation_runs = sum_list (map reconciliation_runs recent),
     reconciliation_mismatches = sum_list (map reconciliation_mismatches recent), quarantine_events = sum_list (map
     quarantine_events recent), unknown_order_events = sum_list (map unknown_order_events recent),
     position_mismatch_events = sum_list (map position_mismatch_events recent), balance_mismatch_events = sum_list (map
     balance_mismatch_events recent)\<rparr>"

text \<open>\<open>history[-days:]\<close>; a negative \<open>days\<close> drops from the front, and an empty window has no last row.\<close>

definition recent_rows :: "int \<Rightarrow> 'a list \<Rightarrow> 'a list" where
  "recent_rows days xs = (if 0 < days then drop (length xs - nat days) xs else drop (nat (- days)) xs)"

definition get_cumulative_metrics :: "int \<Rightarrow> metric_record list \<Rightarrow> metric_record option res" where
  "get_cumulative_metrics days history = (if history = [] then ok None
     else (let recent = recent_rows days history in
       if recent = [] then raise (IndexError ''list index out of range'') else ok (Some (cumulate recent))))"

section \<open>The store\<close>

record metrics_store =
  ms_has_pool :: bool
  metrics_history :: "metric_record list"
  ms_pending :: "metric_record list"
  ms_table :: "metric_key \<rightharpoonup> column list"
  db_degraded :: "string set"

definition new_metrics_store :: "bool \<Rightarrow> metrics_store" where
  "new_metrics_store pool = \<lparr>ms_has_pool = pool, metrics_history = [], ms_pending = [], ms_table = Map.empty, db_degraded = {}\<rparr>"

text \<open>Without a running event loop the write is dropped.\<close>

definition record_metrics :: "bool \<Rightarrow> metric_record \<Rightarrow> metrics_store \<Rightarrow> metrics_store" where
  "record_metrics loop r s = (let s1 = s\<lparr>metrics_history := metrics_history s @ [r]\<rparr> in
     if ms_has_pool s \<and> loop then s1\<lparr>ms_pending := ms_pending s @ [r]\<rparr> else s1)"

text \<open>\<open>INSERT .. ON CONFLICT (metric_date, execution_mode, symbols) DO UPDATE\<close>.\<close>

definition upsert_metric_row :: "unit res \<Rightarrow> metric_record \<Rightarrow> metrics_store \<Rightarrow> metrics_store" where
  "upsert_metric_row outcome r s = (case outcome of
     Inl _ \<Rightarrow> s\<lparr>db_degraded := insert ''deployment_metrics.upsert'' (db_degraded s)\<rparr>
   | Inr _ \<Rightarrow> s\<lparr>ms_table := (ms_table s)(metric_key r \<mapsto> metric_values r)\<rparr>)"

definition run_pending :: "unit res \<Rightarrow> metrics_store \<Rightarrow> metrics_store" where
  "run_pending outcome s = (case ms_pending s of
     [] \<Rightarrow> s
   | r # rs \<Rightarrow> upsert_metric_row outcome r (s\<lparr>ms_pending := rs\<rparr>))"

section \<open>Statistics of the campaign\<close>

definition per_day_expectation :: "pyfloat \<Rightarrow> int \<Rightarrow> pyfloat res" where
  "per_day_expectation expected days = (if days \<le> 0 then ok 0 else fdiv expected (float_of_int days))"

definition per_day_std_dev :: "pyfloat \<Rightarrow> int \<Rightarrow> pyfloat res" where
  "per_day_std_dev sd days = (if days \<le> 0 then ok 0 else rbind (fsqrt (float_of_int days)) (fdiv sd))"

definition daily_z_score :: "pyfloat \<Rightarrow> pyfloat \<Rightarrow> pyfloat \<Rightarrow> int \<Rightarrow> pyfloat res" where
  "daily_z_score pnl expected sd days = rbind (per_day_std_dev sd days) (\<lambda>std.
     if std \<le> 0 then ok 0 else rbind (per_day_expectation expected days) (\<lambda>e. fdiv (pnl - e) std))"

definition lower_tail_breach :: "pyfloat \<Rightarrow> pyfloat \<Rightarrow> bool" where
  "lower_tail_breach z threshold = (z < - \<bar>threshold\<bar>)"

section \<open>Shadow trades\<close>

record shadow_trade =
  sm_signal :: pyfloat
  sm_fill :: pyfloat
  sm_slippage :: pyfloat
  sm_latency :: pyfloat

definition record_shadow_trade :: "pyfloat \<Rightarrow> pyfloat \<Rightarrow> pyfloat \<Rightarrow> shadow_trade list \<Rightarrow> (shadow_trade \<times> shadow_trade list) res" where
  "record_shadow_trade signal fill latency ts =
    rbind (if 0 < signal then fdiv \<bar>fill - signal\<bar> signal else ok 0) (\<lambda>slip.
      (let t = \<lparr>sm_signal = signal, sm_fill = fill, sm_slippage = slip, sm_latency = latency\<rparr> in ok (t, ts @ [t])))"

record shadow_summary =
  sh_total :: nat
  sh_avg_slippage :: pyfloat
  sh_max_slippage :: pyfloat
  sh_avg_latency :: pyfloat
  sh_max_latency :: pyfloat

definition shadow_summary_of :: "shadow_trade list \<Rightarrow> shadow_summary res" where
  "shadow_summary_of ts = (if ts = [] then ok \<lparr>sh_total = 0, sh_avg_slippage = 0, sh_max_slippage = 0, sh_avg_latency = 0, sh_max_latency = 0\<rparr>
     else (let n = float_of_int (int (length ts)) in
       rbind (fdiv (fsum (map sm_slippage ts)) n) (\<lambda>a. rbind (pymax_list (map sm_slippage ts)) (\<lambda>b.
       rbind (fdiv (fsum (map sm_latency ts)) n) (\<lambda>c. rbind (pymax_list (map sm_latency ts)) (\<lambda>d.
         ok \<lparr>sh_total = length ts, sh_avg_slippage = a, sh_max_slippage = b, sh_avg_latency = c, sh_max_latency = d\<rparr>))))))"

section \<open>The campaign\<close>

datatype campaign_status = IN_PROGRESS | GATE_1_PASS | GATE_1_FAIL

datatype campaign_failure = HardStop nat | ZScoreExceeded pyfloat

record campaign =
  max_z_threshold :: pyfloat
  max_slippage_threshold :: pyfloat
  daily_records :: "metric_record list"
  consecutive_breaches :: nat
  ca_store :: metrics_store

record campaign_summary =
  cs_days :: nat
  cs_z_score :: pyfloat
  cs_slippage :: pyfloat
  cs_p99 :: pyfloat
  cs_pnl :: pyfloat
  cs_status :: campaign_status
  cs_breaches :: nat
  cs_failures :: "campaign_failure list"

definition new_campaign :: "metrics_store \<Rightarrow> campaign" where
  "new_campaign s = \<lparr>max_z_threshold = fl 3, max_slippage_threshold = fl 25, daily_records = [], consecutive_breaches = 0, ca_store = s\<rparr>"

definition record_daily_metrics :: "bool \<Rightarrow> metric_record \<Rightarrow> campaign \<Rightarrow> campaign" where
  "record_daily_metrics loop r c = c\<lparr>daily_records := daily_records c @ [r], ca_store := record_metrics loop r (ca_store c)\<rparr>"

definition is_breach :: "campaign \<Rightarrow> pyfloat \<Rightarrow> pyfloat \<Rightarrow> metric_record \<Rightarrow> bool res" where
  "is_breach c expected sd r = rbind (daily_z_score (shadow_pnl_pct r) expected sd (int (length (daily_records c)))) (\<lambda>z.
     ok (lower_tail_breach z (max_z_threshold c) \<or> max_slippage_threshold c < avg_shadow_slippage_bps r))"

text \<open>The run of breaches so far and the longest one.\<close>

definition count_breach :: "nat \<times> nat \<Rightarrow> bool \<Rightarrow> nat \<times> nat" where
  "count_breach cm b = (case cm of (cur, best) \<Rightarrow> if b then (cur + 1, max best (cur + 1)) else (0, best))"

definition max_consecutive :: "bool list \<Rightarrow> nat" where
  "max_consecutive bs = snd (foldl count_breach (0, 0) bs)"

definition evaluate_campaign_status :: "pyfloat \<Rightarrow> pyfloat \<Rightarrow> (campaign, campaign_summary) act" where
  "evaluate_campaign_status expected sd c =
    (let rs = daily_records c; n = length rs in
     if rs = [] then (ok \<lparr>cs_days = 0, cs_z_score = 0, cs_slippage = 0, cs_p99 = 0, cs_pnl = 0, cs_status = IN_PROGRESS, cs_breaches = 0,
       cs_failures = []\<rparr>, c)
     else (let pnl = fsum (map shadow_pnl_pct rs); p99 = worst_of p99_signal_to_fill_latency_ms rs in
       case rbind (fdiv (fsum (map avg_shadow_slippage_bps rs)) (float_of_int (int n))) (\<lambda>slip.
            rbind (if 0 < sd then fdiv (pnl - expected) sd else ok 0) (\<lambda>z.
            rbind (map_res (is_breach c expected sd) rs) (\<lambda>bs. ok (slip, z, bs)))) of
         Inl e \<Rightarrow> (Inl e, c)
       | Inr (slip, z, bs) \<Rightarrow>
           (let k = max_consecutive bs;
                failures = (if 3 \<le> k then [HardStop k] else []) @ (if z < - max_z_threshold c then [ZScoreExceeded z] else []);
                status = (if 20 \<le> n \<and> failures = [] then GATE_1_PASS else if failures \<noteq> [] then GATE_1_FAIL else IN_PROGRESS)
            in (ok \<lparr>cs_days = n, cs_z_score = round_digits z 4, cs_slippage = round_digits slip 2, cs_p99 = round_digits p99 2,
                 cs_pnl = round_digits pnl 4, cs_status = status, cs_breaches = k, cs_failures = failures\<rparr>,
                c\<lparr>consecutive_breaches := k\<rparr>))))"

section \<open>Counters\<close>

definition increment_mismatches :: "int \<Rightarrow> (int, int) act" where
  "increment_mismatches amount v = (if amount < 0 then (raise (ValueError ''counter increment must be non-negative''), v)
     else (ok (v + amount), v + amount))"

text \<open>What the exporter reads for its signal counter: the sum over the last twenty rows.\<close>

definition exported_signals :: "metric_record list \<Rightarrow> int res" where
  "exported_signals history = rbind (get_cumulative_metrics 20 history) (\<lambda>m. ok (case m of None \<Rightarrow> 0 | Some r \<Rightarrow> signals_generated r))"


section \<open>The hard stop\<close>

lemma prefix_replicate: "prefix (replicate n True) bs \<longleftrightarrow> n \<le> length (takeWhile id bs)"
proof (induction n arbitrary: bs)
  case (Suc n)
  then show ?case by (cases bs) auto
qed simp

lemma suffix_replicate: "suffix (replicate n True) bs \<longleftrightarrow> n \<le> length (takeWhile id (rev bs))"
  by (simp add: suffix_to_prefix prefix_replicate)

lemma run_length: "fst (foldl count_breach (0, 0) bs) = length (takeWhile id (rev bs))"
  by (induction bs rule: rev_induct) (auto simp: count_breach_def split: prod.splits)

lemma sublist_snoc_iff: "sublist xs (ys @ [y]) \<longleftrightarrow> suffix xs (ys @ [y]) \<or> sublist xs ys"
proof -
  have "sublist xs (ys @ [y]) \<longleftrightarrow> sublist (rev xs) (y # rev ys)" using sublist_rev [of xs "ys @ [y]"] by simp
  also have "\<dots> \<longleftrightarrow> prefix (rev xs) (y # rev ys) \<or> sublist (rev xs) (rev ys)" by (rule sublist_Cons_right)
  finally show ?thesis by (simp add: suffix_to_prefix)
qed

lemma longest_run: "n \<le> max_consecutive bs \<longleftrightarrow> sublist (replicate n True) bs"
proof (induction bs rule: rev_induct)
  case Nil
  then show ?case by (simp add: max_consecutive_def)
next
  case (snoc b bs)
  have "max_consecutive (bs @ [b]) = (if b then max (max_consecutive bs) (length (takeWhile id (rev (bs @ [b])))) else max_consecutive bs)"
    using run_length [of bs] by (cases "foldl count_breach (0, 0) bs") (simp add: max_consecutive_def count_breach_def)
  moreover have "sublist (replicate n True) (bs @ [b]) \<longleftrightarrow>
      n \<le> length (takeWhile id (rev (bs @ [b]))) \<or> sublist (replicate n True) bs"
    by (simp only: sublist_snoc_iff suffix_replicate)
  ultimately show ?case using snoc by (cases b; cases n) (auto simp: le_max_iff_disj)
qed

text \<open>C27: The shadow gate: the campaign fails exactly when some three consecutive days breach (a day breaches by a daily score below
  minus the threshold or by its slippage) or the score of the whole campaign is below minus the threshold; it passes exactly when it
  does not fail and at least twenty days are recorded.\<close>

theorem shadow_gate:
  assumes "evaluate_campaign_status expected sd c = (ok s, c1)" "daily_records c \<noteq> []"
  shows "\<exists>bs z. map_res (is_breach c expected sd) (daily_records c) = ok bs \<and>
    (if 0 < sd then fdiv (fsum (map shadow_pnl_pct (daily_records c)) - expected) sd else ok 0) = ok z \<and>
    cs_status s = (if sublist [True, True, True] bs \<or> z < - max_z_threshold c then GATE_1_FAIL
      else if 20 \<le> length (daily_records c) then GATE_1_PASS else IN_PROGRESS)"
proof -
  obtain slip z bs where e: "(if 0 < sd then fdiv (fsum (map shadow_pnl_pct (daily_records c)) - expected) sd else ok 0) = ok z"
    "map_res (is_breach c expected sd) (daily_records c) = ok bs"
    "cs_status s = (if 20 \<le> length (daily_records c) \<and> \<not> 3 \<le> max_consecutive bs \<and> \<not> z < - max_z_threshold c then GATE_1_PASS
      else if 3 \<le> max_consecutive bs \<or> z < - max_z_threshold c then GATE_1_FAIL else IN_PROGRESS)"
    using assms by (auto simp: evaluate_campaign_status_def Let_def rbind_eq_Inr split: sum.splits)
  have "3 \<le> max_consecutive bs \<longleftrightarrow> sublist [True, True, True] bs" using longest_run [of 3 bs] by (simp add: numeral_eq_Suc)
  then show ?thesis using e by auto
qed

definition bad_day :: metric_record where
  "bad_day = (blank_record ''2026-01-01'' ''SHADOW'' ''BTC'')\<lparr>avg_shadow_slippage_bps := Fin 30\<rparr>"

definition bad_campaign :: campaign where
  "bad_campaign = (new_campaign (new_metrics_store False))\<lparr>daily_records := [bad_day, bad_day, bad_day, bad_day]\<rparr>"

lemma fsqrt_4: "fsqrt (Fin 4) = ok (Fin 2)"
proof -
  have "ilog2 4 = 2" by (rule ilog2_unique) simp_all
  moreover have "isqrt (nat \<lfloor>4 / 2 powi (- 118) :: rat\<rfloor>) = 2 ^ 60"
    using isqrt_square [of "2 ^ 60"] by (simp add: powi_eval)
  ultimately show ?thesis by (simp add: fsqrt_def Let_def powi_eval fl_eval float_eval)
qed

lemma bad_campaign_fails: "\<exists>s c1. evaluate_campaign_status 0 0 bad_campaign = (ok s, c1) \<and> cs_status s = GATE_1_FAIL"
  by (simp add: evaluate_campaign_status_def bad_campaign_def new_campaign_def bad_day_def blank_record_def is_breach_def daily_z_score_def
      per_day_std_dev_def fsqrt_4 lower_tail_breach_def max_consecutive_def count_breach_def float_of_int_def fsum_def worst_of_def
      ftruth_def is_finite_def minus_pyfloat_def pymax_def fl_eval float_eval zero_Fin one_Fin Let_def)

theorem shadow_gate_witness:
  "\<exists>s c1 bs. evaluate_campaign_status 0 0 bad_campaign = (ok s, c1) \<and> map_res (is_breach bad_campaign 0 0) (daily_records bad_campaign) = ok bs"
proof -
  obtain s c1 where s: "evaluate_campaign_status 0 0 bad_campaign = (ok s, c1)" using bad_campaign_fails by blast
  have "daily_records bad_campaign \<noteq> []" by (simp add: bad_campaign_def)
  then show ?thesis using shadow_gate [OF s] s by blast
qed

section \<open>The table\<close>

text \<open>Reading a row back: a value by the name of its column, and a record by its key and the names of all columns.\<close>

definition value_columns :: "string list" where
  "value_columns = [
     ''signals_generated'', ''signals_approved'', ''signals_rejected_capital'', ''signals_rejected_stale_data'',
     ''signals_rejected_portfolio_risk'', ''signals_rejected_liquidity'', ''shadow_fills_generated'',
     ''liquidity_deficit_events'', ''liquidity_deficit_pct'', ''avg_signal_to_fill_latency_ms'',
     ''p95_signal_to_fill_latency_ms'', ''p99_signal_to_fill_latency_ms'', ''avg_shadow_slippage_bps'',
     ''p95_shadow_slippage_bps'', ''staleness_circuit_breaker_trips'', ''websocket_disconnect_events'',
     ''out_of_order_tick_events'', ''data_quality_failures'', ''shadow_pnl'', ''shadow_pnl_pct'',
     ''max_shadow_drawdown_pct'', ''portfolio_exposure_pct'', ''effective_leverage'',
     ''portfolio_volatility_annualized'', ''portfolio_var_95'', ''portfolio_var_99'', ''funding_burn_pct_daily'',
     ''reconciliation_runs'', ''reconciliation_mismatches'', ''quarantine_events'', ''unknown_order_events'',
     ''position_mismatch_events'', ''balance_mismatch_events'']"

definition int_col :: "string \<Rightarrow> column list \<Rightarrow> int" where
  "int_col name cols = (case map_of (zip value_columns cols) name of Some (IntCol n) \<Rightarrow> n | _ \<Rightarrow> 0)"

definition float_col :: "string \<Rightarrow> column list \<Rightarrow> pyfloat" where
  "float_col name cols = (case map_of (zip value_columns cols) name of Some (FloatCol x) \<Rightarrow> x | _ \<Rightarrow> NaN)"

definition row_record :: "string \<Rightarrow> string \<Rightarrow> string \<Rightarrow> column list \<Rightarrow> metric_record" where
  "row_record date mode symbols cols = \<lparr>metric_date = date, dm_mode = mode, dm_symbols = symbols,
     signals_generated = int_col ''signals_generated'' cols, signals_approved = int_col ''signals_approved'' cols,
     signals_rejected_capital = int_col ''signals_rejected_capital'' cols,
     signals_rejected_stale_data = int_col ''signals_rejected_stale_data'' cols,
     signals_rejected_portfolio_risk = int_col ''signals_rejected_portfolio_risk'' cols,
     signals_rejected_liquidity = int_col ''signals_rejected_liquidity'' cols,
     shadow_fills_generated = int_col ''shadow_fills_generated'' cols,
     liquidity_deficit_events = int_col ''liquidity_deficit_events'' cols,
     liquidity_deficit_pct = float_col ''liquidity_deficit_pct'' cols,
     avg_signal_to_fill_latency_ms = float_col ''avg_signal_to_fill_latency_ms'' cols,
     p95_signal_to_fill_latency_ms = float_col ''p95_signal_to_fill_latency_ms'' cols,
     p99_signal_to_fill_latency_ms = float_col ''p99_signal_to_fill_latency_ms'' cols,
     avg_shadow_slippage_bps = float_col ''avg_shadow_slippage_bps'' cols,
     p95_shadow_slippage_bps = float_col ''p95_shadow_slippage_bps'' cols,
     staleness_circuit_breaker_trips = int_col ''staleness_circuit_breaker_trips'' cols,
     websocket_disconnect_events = int_col ''websocket_disconnect_events'' cols,
     out_of_order_tick_events = int_col ''out_of_order_tick_events'' cols,
     data_quality_failures = int_col ''data_quality_failures'' cols, shadow_pnl = float_col ''shadow_pnl'' cols,
     shadow_pnl_pct = float_col ''shadow_pnl_pct'' cols,
     max_shadow_drawdown_pct = float_col ''max_shadow_drawdown_pct'' cols,
     portfolio_exposure_pct = float_col ''portfolio_exposure_pct'' cols,
     effective_leverage = float_col ''effective_leverage'' cols,
     portfolio_volatility_annualized = float_col ''portfolio_volatility_annualized'' cols,
     portfolio_var_95 = float_col ''portfolio_var_95'' cols,
     portfolio_var_99 = float_col ''portfolio_var_99'' cols,
     funding_burn_pct_daily = float_col ''funding_burn_pct_daily'' cols,
     reconciliation_runs = int_col ''reconciliation_runs'' cols,
     reconciliation_mismatches = int_col ''reconciliation_mismatches'' cols,
     quarantine_events = int_col ''quarantine_events'' cols,
     unknown_order_events = int_col ''unknown_order_events'' cols,
     position_mismatch_events = int_col ''position_mismatch_events'' cols,
     balance_mismatch_events = int_col ''balance_mismatch_events'' cols\<rparr>"

definition same_day :: "string \<Rightarrow> string \<Rightarrow> string \<Rightarrow> metric_record \<Rightarrow> bool" where
  "same_day date mode symbols r \<longleftrightarrow> metric_date r = date \<and> dm_mode r = mode \<and> dm_symbols r = symbols"

lemma row_record_values: "same_day date mode symbols r \<Longrightarrow> row_record date mode symbols (metric_values r) = r"
  by (cases r) (simp add: same_day_def row_record_def int_col_def float_col_def value_columns_def metric_values_def)

lemma metric_key_same_day: "metric_key r = (date, mode, symbols) \<longleftrightarrow> same_day date mode symbols r"
  by (simp add: metric_key_def same_day_def)

datatype store_op = RecordDay metric_record | RunWrite "unit res"

fun store_step :: "store_op \<Rightarrow> metrics_store \<Rightarrow> metrics_store" where
  "store_step (RecordDay r) s = record_metrics True r s"
| "store_step (RunWrite outcome) s = run_pending outcome s"

text \<open>The rows of a table are the last of these records, and every row reads back as its record.\<close>

definition last_records :: "metric_record list \<Rightarrow> (metric_key \<rightharpoonup> column list) \<Rightarrow> bool" where
  "last_records written table \<longleftrightarrow> (\<forall>date mode symbols.
     map_option (row_record date mode symbols) (table (date, mode, symbols)) = find (same_day date mode symbols) (rev written))"

lemma last_records_upsert:
  "last_records written table \<Longrightarrow> last_records (written @ [r]) (table(metric_key r \<mapsto> metric_values r))"
  by (auto simp: last_records_def metric_key_same_day row_record_values eq_commute [of _ "metric_key r"])

text \<open>The records of a history, and the outcomes of the writes that found one scheduled.\<close>

fun recorded_days :: "store_op list \<Rightarrow> metric_record list" where
  "recorded_days [] = []"
| "recorded_days (RecordDay r # ops) = r # recorded_days ops"
| "recorded_days (RunWrite outcome # ops) = recorded_days ops"

fun outcomes_of :: "nat \<Rightarrow> store_op list \<Rightarrow> bool list" where
  "outcomes_of n [] = []"
| "outcomes_of n (RecordDay r # ops) = outcomes_of (n + 1) ops"
| "outcomes_of 0 (RunWrite outcome # ops) = outcomes_of 0 ops"
| "outcomes_of (Suc n) (RunWrite outcome # ops) = (\<not> isl outcome) # outcomes_of n ops"

definition written_by :: "metric_record list \<Rightarrow> bool list \<Rightarrow> metric_record list" where
  "written_by rs outs = map fst (filter snd (zip rs outs))"

lemma store_run:
  assumes "ms_has_pool s" "last_records w (ms_table s)"
  shows "let s' = foldl (\<lambda>s p. store_step p s) s ops; outs = outcomes_of (length (ms_pending s)) ops;
      rs = ms_pending s @ recorded_days ops in
    metrics_history s' = metrics_history s @ recorded_days ops \<and> ms_pending s' = drop (length outs) rs \<and>
    (db_degraded s' = {} \<longleftrightarrow> db_degraded s = {} \<and> False \<notin> set outs) \<and>
    last_records (w @ written_by rs outs) (ms_table s')"
  using assms
proof (induction ops arbitrary: s w)
  case Nil
  then show ?case by (simp add: written_by_def)
next
  case (Cons p ops)
  show ?case
  proof (cases p)
    case (RecordDay r)
    then show ?thesis using Cons.IH [of "record_metrics True r s" w] Cons.prems
      by (simp add: record_metrics_def Let_def)
  next
    case (RunWrite outcome)
    show ?thesis
    proof (cases "ms_pending s")
      case Nil
      then show ?thesis using Cons.IH [of s w] Cons.prems RunWrite by (simp add: run_pending_def)
    next
      case pend: (Cons r rs)
      show ?thesis
      proof (cases outcome)
        case (Inl e)
        then show ?thesis
          using Cons.IH [of "run_pending outcome s" w] Cons.prems RunWrite pend
          by (simp add: run_pending_def upsert_metric_row_def written_by_def Let_def)
      next
        case (Inr u)
        then show ?thesis
          using Cons.IH [of "run_pending outcome s" "w @ [r]"] Cons.prems RunWrite pend
            last_records_upsert [OF Cons.prems(2), of r]
          by (simp add: run_pending_def upsert_metric_row_def written_by_def Let_def del: fun_upd_apply)
      qed
    qed
  qed
qed

text \<open>C28: The table is the last word of the history, failed writes aside: after any records and any executions of the scheduled
  writes, in the order they were scheduled and each with any outcome, the memory holds every record, the records not yet
  tried are still pending, the store is marked degraded exactly when a write has failed, and for every day, mode and
  symbols the table holds a row exactly when a record of these was written, and this row, read back by the names of its
  columns, is in every field the last record written for them.\<close>

theorem table_holds_last_record:
  "let s = foldl (\<lambda>s p. store_step p s) (new_metrics_store True) ops; outs = outcomes_of 0 ops;
       written = map fst (filter snd (zip (recorded_days ops) outs)) in
    metrics_history s = recorded_days ops \<and> ms_pending s = drop (length outs) (recorded_days ops) \<and>
    (db_degraded s = {} \<longleftrightarrow> False \<notin> set outs) \<and>
    (\<forall>date mode symbols. map_option (row_record date mode symbols) (ms_table s (date, mode, symbols)) =
      find (\<lambda>r. metric_date r = date \<and> dm_mode r = mode \<and> dm_symbols r = symbols) (rev written))"
proof -
  have "ms_has_pool (new_metrics_store True)" "last_records [] (ms_table (new_metrics_store True))"
    by (simp_all add: new_metrics_store_def last_records_def)
  from store_run [OF this, of ops] show ?thesis
    by (simp add: new_metrics_store_def last_records_def written_by_def same_day_def [abs_def] Let_def)
qed

text \<open>A day recorded twice counts twice in memory and once in the table.\<close>

lemma repeated_day_counts_twice:
  "\<exists>m. get_cumulative_metrics 20 [r, r] = ok (Some m) \<and> signals_generated m = 2 * signals_generated r"
  by (simp add: get_cumulative_metrics_def recent_rows_def cumulate_def Let_def)

text \<open>The exported counter is a window: it falls when a busy day leaves it.\<close>

lemma counter_falls:
  "exported_signals (b\<lparr>signals_generated := 7\<rparr> # replicate 19 (b\<lparr>signals_generated := 0\<rparr>)) = ok 7 \<and>
   exported_signals (b\<lparr>signals_generated := 7\<rparr> # replicate 20 (b\<lparr>signals_generated := 0\<rparr>)) = ok 0"
  by (simp add: exported_signals_def get_cumulative_metrics_def recent_rows_def cumulate_def numeral_eq_Suc Let_def)

end
