(* ===== verification/WalkForward.thy ===== *)
theory WalkForward
  imports Portfolio
begin

text \<open>
  \<open>stats/cross_validation.py\<close>, \<open>stats/effective_trials.py\<close>, \<open>stats/sharpe_variants.py\<close>, the checks of \<open>stats/pbo.py\<close>,
  \<open>walkforward/validator.py\<close> and the counts of \<open>walkforward/report.py\<close>.  What numpy and scipy compute (means, correlations, the normal
  distribution, the ranking of a matrix that passed the checks) are parameters; timestamps are microseconds.
\<close>

section \<open>Purged cross-validation\<close>

record cpcv_config =
  cv_folds :: int
  purge_days :: int
  embargo_days :: int
  max_holding_days :: int
  signal_lookback_days :: int
  feature_lookback_days :: int
  label_horizon_days :: int
  min_train_size :: int
  min_test_size :: int

definition default_cpcv :: cpcv_config where
  "default_cpcv = \<lparr>cv_folds = 5, purge_days = 1, embargo_days = 1, max_holding_days = 5, signal_lookback_days = 0,
     feature_lookback_days = 0, label_horizon_days = 0, min_train_size = 10, min_test_size = 5\<rparr>"

definition day_windows :: "cpcv_config \<Rightarrow> int list" where
  "day_windows cfg = [purge_days cfg, max_holding_days cfg, label_horizon_days cfg, signal_lookback_days cfg,
     feature_lookback_days cfg, embargo_days cfg]"

definition day_us :: int where
  "day_us = 86400000000"

definition total_purge :: "cpcv_config \<Rightarrow> int" where
  "total_purge cfg = (purge_days cfg + max_holding_days cfg + label_horizon_days cfg + signal_lookback_days cfg + feature_lookback_days cfg) * day_us"

type_synonym split = "nat list \<times> nat list"

definition test_block :: "cpcv_config \<Rightarrow> nat \<Rightarrow> nat \<Rightarrow> nat \<Rightarrow> nat list" where
  "test_block cfg n folds k = (let size = n div folds; idx = [k * size..<(if k = folds - 1 then n else (k + 1) * size)] in
     if 0 < embargo_days cfg \<and> min_test_size cfg < int (length idx) then drop (nat (embargo_days cfg)) idx else idx)"

definition train_block :: "cpcv_config \<Rightarrow> int list option \<Rightarrow> nat \<Rightarrow> nat list" where
  "train_block cfg stamps start = (case stamps of
     None \<Rightarrow> [0..<start]
   | Some ts \<Rightarrow> filter (\<lambda>i. ts ! i < ts ! start - total_purge cfg) [0..<start])"

definition fold_split :: "cpcv_config \<Rightarrow> int list option \<Rightarrow> nat \<Rightarrow> nat \<Rightarrow> nat \<Rightarrow> split option" where
  "fold_split cfg stamps n folds k = (let test = test_block cfg n folds k; train = train_block cfg stamps (k * (n div folds)) in
     if int (length test) < min_test_size cfg then None
     else if min_train_size cfg \<le> int (length train) then Some (train, test) else None)"

text \<open>\<open>stamps\<close> are the timestamps of the frame, if it has any.\<close>

definition generate_cpcv_splits :: "cpcv_config \<Rightarrow> int list option \<Rightarrow> nat \<Rightarrow> split list res" where
  "generate_cpcv_splits cfg stamps n =
    (if int n < min_train_size cfg + min_test_size cfg then raise (ValueError ''Dataframe length is less than minimum required'')
     else if stamps = None \<and> list_ex (\<lambda>d. 0 < d) (day_windows cfg) then raise (ValueError ''dataframe has no real timestamps'')
     else (let folds = nat (max 2 (cv_folds cfg)); splits = List.map_filter (fold_split cfg stamps n folds) [1..<folds] in
       if splits = [] then raise (ValueError ''Could not generate any valid CPCV splits'') else ok splits))"

text \<open>\<open>df.iloc[test_idx]\<close>.\<close>

definition apply_split :: "'a list \<Rightarrow> split \<Rightarrow> 'a list" where
  "apply_split rows s = map (\<lambda>i. rows ! i) (snd s)"

section \<open>Effective trials\<close>

definition effective_trials_corr :: "int \<Rightarrow> pyfloat \<Rightarrow> pyfloat res" where
  "effective_trials_corr n avg = (if n \<le> 0 then ok 0 else if n = 1 then ok 1 else
     (let rho = pymin 1 (pymax (- 1) avg); denom = 1 + float_of_int (n - 1) * rho in
      if denom \<le> 0 then raise (ValueError ''Invalid effective-trials denominator'') else fdiv (float_of_int n) denom))"

text \<open>\<open>off\<close> are the correlations above the diagonal, \<open>mean\<close> is numpy's.\<close>

definition effective_trials_matrix :: "(pyfloat list \<Rightarrow> pyfloat) \<Rightarrow> int \<Rightarrow> pyfloat list \<Rightarrow> pyfloat res" where
  "effective_trials_matrix mean n off = (if n \<le> 1 then ok (float_of_int n) else
     (let valid = filter is_finite off in
      if valid = [] then ok 1 else
      (let denom = 1 + float_of_int (n - 1) * mean valid in
       if denom \<le> 0 then raise (ValueError ''Invalid effective-trials denominator'')
       else rbind (fdiv (float_of_int n) denom) (\<lambda>e. ok (pymin (float_of_int n) (pymax 1 e))))))"

section \<open>Sharpe variants\<close>

definition psr_variance_term :: "pyfloat \<Rightarrow> pyfloat \<Rightarrow> pyfloat \<Rightarrow> pyfloat res" where
  "psr_variance_term sharpe skew kurt = rbind (fdiv (kurt - 1) (fl 4)) (\<lambda>q.
     (let v = 1 - skew * sharpe + q * sharpe * sharpe in
      if v \<le> 0 then raise (ValueError ''PSR variance term is non-positive'') else ok v))"

definition probabilistic_sharpe_ratio :: "(pyfloat \<Rightarrow> pyfloat) \<Rightarrow> pyfloat \<Rightarrow> pyfloat \<Rightarrow> int \<Rightarrow> pyfloat \<Rightarrow> pyfloat \<Rightarrow> pyfloat res" where
  "probabilistic_sharpe_ratio cdf benchmark sharpe n skew kurt =
    (if n < 2 then raise (ValueError ''n_observations must be >= 2'')
     else if \<not> list_all is_finite [benchmark, sharpe, skew, kurt] then raise (ValueError ''must be finite'')
     else rbind (psr_variance_term sharpe skew kurt) (\<lambda>v. rbind (fsqrt (float_of_int (n - 1))) (\<lambda>root. rbind (fsqrt v) (\<lambda>s.
       rbind (fdiv ((sharpe - benchmark) * root) s) (\<lambda>z. ok (cdf z))))))"

definition expected_max_sharpe :: "(pyfloat \<Rightarrow> pyfloat) \<Rightarrow> pyfloat \<Rightarrow> int \<Rightarrow> pyfloat \<Rightarrow> pyfloat res" where
  "expected_max_sharpe ppf euler n var =
    (if n < 1 then raise (ValueError ''n_trials must be >= 1'')
     else if var < 0 then raise (ValueError ''var_sharpe_trials must be >= 0'')
     else if n = 1 then ok 0
     else if feq var 0 then raise (ValueError ''var_sharpe_trials must be > 0 when n_trials > 1'')
     else (let emc = fl (5772156649015329 / 10 ^ 16) in
       rbind (fsqrt var) (\<lambda>sd. rbind (fdiv 1 (float_of_int n)) (\<lambda>a. rbind (fdiv 1 (float_of_int n * euler)) (\<lambda>b.
         ok (sd * ((1 - emc) * ppf (1 - a) + emc * ppf (1 - b))))))))"

definition deflated_sharpe_ratio :: "(pyfloat \<Rightarrow> pyfloat) \<Rightarrow> (pyfloat \<Rightarrow> pyfloat) \<Rightarrow> pyfloat \<Rightarrow> pyfloat \<Rightarrow> int \<Rightarrow> int \<Rightarrow> pyfloat \<Rightarrow> pyfloat
    \<Rightarrow> pyfloat \<Rightarrow> pyfloat res" where
  "deflated_sharpe_ratio cdf ppf euler sharpe n_trials n_obs skew kurt var =
    rbind (expected_max_sharpe ppf euler n_trials var) (\<lambda>sr0. probabilistic_sharpe_ratio cdf sr0 sharpe n_obs skew kurt)"

section \<open>The checks of the overfitting probability\<close>

record cscv_config =
  n_blocks :: nat
  max_splits :: int
  cs_metric :: string

definition new_cscv_config :: "int \<Rightarrow> int \<Rightarrow> string \<Rightarrow> cscv_config res" where
  "new_cscv_config blocks splits metric =
    (if blocks < 4 \<or> blocks mod 2 \<noteq> 0 then raise (ValueError ''n_blocks must be an even integer >= 4'')
     else if splits < 1 then raise (ValueError ''max_splits must be >= 1'')
     else if metric \<notin> {''mean'', ''sharpe''} then raise (ValueError ''metric must be mean or sharpe'')
     else ok \<lparr>n_blocks = nat blocks, max_splits = splits, cs_metric = metric\<rparr>)"

definition default_cscv :: cscv_config where
  "default_cscv = \<lparr>n_blocks = 16, max_splits = 1000, cs_metric = ''mean''\<rparr>"

text \<open>The matrix is a list of rows of one length; \<open>cscv\<close> is the computation on a matrix that passed.\<close>

definition compute_pbo_cscv :: "(pyfloat list list \<Rightarrow> pyfloat res) \<Rightarrow> cscv_config \<Rightarrow> pyfloat list list \<Rightarrow> pyfloat res" where
  "compute_pbo_cscv cscv cfg m =
    (if \<not> list_all (list_all is_finite) m then raise (ValueError ''return_matrix contains NaN/inf entries'')
     else if length m < 2 * n_blocks cfg then raise (ValueError ''Need at least 2T observations'')
     else if (case m of [] \<Rightarrow> 0 | r # _ \<Rightarrow> length r) < 2 then raise (ValueError ''Need at least 2 strategies'')
     else cscv m)"

section \<open>Folds\<close>

record wf_config =
  train_days :: int
  validate_days :: int
  step_days :: int
  wf_min_sharpe :: pyfloat
  wf_max_pbo :: pyfloat

definition default_wf :: wf_config where
  "default_wf = \<lparr>train_days = 180, validate_days = 60, step_days = 30, wf_min_sharpe = fl (1/2), wf_max_pbo = fl (1/2)\<rparr>"

type_synonym day_range = "int \<times> int"

partial_function (option) fold_loop :: "int \<Rightarrow> int \<Rightarrow> int \<Rightarrow> int \<Rightarrow> int \<Rightarrow> (day_range \<times> day_range) list option" where
  "fold_loop tot train validate step start =
    (if tot < start + train + validate then Some []
     else Option.bind (fold_loop tot train validate step (start + step))
       (\<lambda>fs. Some (((start, start + train), (start + train, start + train + validate)) # fs)))"

definition generate_folds :: "int \<Rightarrow> wf_config \<Rightarrow> (day_range \<times> day_range) list option" where
  "generate_folds total_days cfg = (if total_days < train_days cfg + validate_days cfg then Some []
     else fold_loop total_days (train_days cfg) (validate_days cfg) (step_days cfg) 0)"

text \<open>\<open>round(a / b)\<close> of two integers.\<close>

definition total_days_hint :: "candle list \<Rightarrow> int" where
  "total_days_hint cs = (if length cs < 2 then int (length cs)
     else (let span = cd_ts (last cs) - cd_ts (hd cs); cadence = cd_ts (cs ! 1) - cd_ts (hd cs) in
       if cadence \<le> 0 then int (length cs)
       else max 1 (rne (fin_part (fl (of_int span / of_int cadence))) + 1)))"

definition day_index :: "candle list \<Rightarrow> int \<Rightarrow> int" where
  "day_index cs day = min (trunc_rat (fin_part (fl (of_int (day * int (length cs)) / of_int (max (total_days_hint cs) 1))))) (int (length cs))"

text \<open>Python's slice \<open>xs[lo:hi]\<close>.\<close>

definition py_slice :: "'a list \<Rightarrow> int \<Rightarrow> int \<Rightarrow> 'a list" where
  "py_slice xs lo hi = (let n = int (length xs); norm = (\<lambda>k. nat (if k < 0 then max 0 (n + k) else min k n))
     in drop (norm lo) (take (norm hi) xs))"

definition slice_candles_by_days :: "candle list \<Rightarrow> int \<Rightarrow> int \<Rightarrow> candle list" where
  "slice_candles_by_days cs start_day end_day = py_slice cs (day_index cs start_day) (day_index cs end_day)"

definition daily_sharpe :: "pyfloat list \<Rightarrow> pyfloat option res" where
  "daily_sharpe values = (if length values < 3 then ok None else
     rbind (curve_returns values) (\<lambda>rets. if length rets < 2 then ok None else
     rbind (fdiv (fsum rets) (len_float rets)) (\<lambda>mean.
     rbind (map_res (\<lambda>r. fsquare (r - mean)) rets) (\<lambda>sq.
     rbind (fdiv (fsum sq) (float_of_int (int (length rets) - 1))) (\<lambda>var.
     rbind (fsqrt var) (\<lambda>std. if feq std 0 then ok None else
       rbind (fdiv mean std) (\<lambda>q. rbind (fsqrt (fl 252)) (\<lambda>y. ok (Some (q * y))))))))))"

section \<open>The sweep\<close>

datatype wf_verdict = PASS | FAIL | SKIP

record fold_result =
  fr_idx :: nat
  fr_train :: day_range
  fr_valid :: day_range
  fr_sharpe :: "pyfloat option"
  fr_dsr :: "pyfloat option"
  fr_pbo :: "pyfloat option"
  fr_verdict :: wf_verdict
  fr_num_trades :: nat

record wf_env =
  we_powf :: "pyfloat \<Rightarrow> nat \<Rightarrow> pyfloat res"
  we_cdf :: "pyfloat \<Rightarrow> pyfloat"
  we_ppf :: "pyfloat \<Rightarrow> pyfloat"
  we_euler :: pyfloat
  we_cscv :: "pyfloat list list \<Rightarrow> pyfloat res"
  we_strategy :: strategy
  we_account :: account_state
  we_backtest :: backtest_config
  we_logf :: "pyfloat \<Rightarrow> pyfloat res"
  we_corr :: "pyfloat list \<Rightarrow> pyfloat list \<Rightarrow> pyfloat option"
  we_engine :: "nat \<Rightarrow> engine"

definition skipped :: "nat \<Rightarrow> day_range \<Rightarrow> day_range \<Rightarrow> fold_result" where
  "skipped i tr va = \<lparr>fr_idx = i, fr_train = tr, fr_valid = va, fr_sharpe = None, fr_dsr = None, fr_pbo = None, fr_verdict = SKIP,
     fr_num_trades = 0\<rparr>"

definition to_option :: "'a res \<Rightarrow> 'a option" where
  "to_option r = (case r of Inl _ \<Rightarrow> None | Inr x \<Rightarrow> Some x)"

definition validate_env :: "wf_env \<Rightarrow> (string, candle list) dict \<Rightarrow> portfolio_env" where
  "validate_env we candles = \<lparr>pe_candles = candles, pe_strategy = we_strategy we, pe_account = we_account we, pe_config = we_backtest we,
     pe_logf = we_logf we, pe_corr = we_corr we\<rparr>"

definition judge_fold :: "wf_env \<Rightarrow> wf_config \<Rightarrow> nat \<Rightarrow> day_range \<Rightarrow> day_range \<Rightarrow> backtest_result \<Rightarrow> fold_result" where
  "judge_fold we cfg i tr va r =
    (let sharpe = br_sharpe (bt_report r);
         dsr = (if bt_trades r = [] then None
           else to_option (deflated_sharpe_ratio (we_cdf we) (we_ppf we) (we_euler we) sharpe 1 (max (int (length (bt_curve r))) 2) 0 (fl 3) 1));
         pbo = to_option (compute_pbo_cscv (we_cscv we) default_cscv [[sharpe]]);
         fails = (case dsr of None \<Rightarrow> False | Some d \<Rightarrow> d < wf_min_sharpe cfg) \<or> (case pbo of None \<Rightarrow> False | Some p \<Rightarrow> wf_max_pbo cfg < p)
     in \<lparr>fr_idx = i, fr_train = tr, fr_valid = va, fr_sharpe = Some sharpe, fr_dsr = dsr, fr_pbo = pbo,
          fr_verdict = (if fails then FAIL else PASS), fr_num_trades = length (bt_trades r)\<rparr>)"

text \<open>A shared risk engine comes into fold \<open>i\<close> in the state \<open>we_engine i\<close>.\<close>

definition run_fold :: "wf_env \<Rightarrow> wf_config \<Rightarrow> (string, candle list) dict \<Rightarrow> nat \<Rightarrow> day_range \<times> day_range \<Rightarrow> fold_result" where
  "run_fold we cfg candles i f = (case f of (tr, va) \<Rightarrow>
     (let valid = map (\<lambda>(a, c). (a, slice_candles_by_days c (fst va) (snd va))) candles;
          needed = max (train_days cfg) 50 div 2 in
      if list_ex (\<lambda>(_, v). int (length v) < needed) valid then skipped i tr va
      else (case run_portfolio_backtest (we_powf we) (validate_env we valid) None (we_engine we i) None of
          Inl _ \<Rightarrow> skipped i tr va
        | Inr r \<Rightarrow> judge_fold we cfg i tr va r)))"

definition run_walk_forward :: "wf_env \<Rightarrow> wf_config \<Rightarrow> (string, candle list) dict \<Rightarrow> fold_result list option" where
  "run_walk_forward we cfg candles = (case candles of
     [] \<Rightarrow> Some []
   | (_, c) # _ \<Rightarrow> if c = [] then Some []
       else map_option (\<lambda>fs. map (\<lambda>(i, f). run_fold we cfg candles i f) (enumerate 0 fs)) (generate_folds (total_days_hint c) cfg))"

definition verdict_count :: "wf_verdict \<Rightarrow> fold_result list \<Rightarrow> nat" where
  "verdict_count v fs = length (filter (\<lambda>f. fr_verdict f = v) fs)"

text \<open>The pass rate of the tearsheet: passed folds over decided ones, none when no fold was decided.\<close>

definition pass_rate :: "fold_result list \<Rightarrow> (nat \<times> nat) option" where
  "pass_rate fs = (let decided = verdict_count PASS fs + verdict_count FAIL fs in
     if decided = 0 then None else Some (verdict_count PASS fs, decided))"


section \<open>Splits do not leak\<close>

definition leak_free :: "cpcv_config \<Rightarrow> int list \<Rightarrow> split \<Rightarrow> bool" where
  "leak_free cfg ts s = (case s of (train, test) \<Rightarrow>
     list_all (\<lambda>i. list_all (\<lambda>j. i < j \<and> ts ! i + total_purge cfg < ts ! j) test) train \<and>
     min_train_size cfg \<le> int (length train) \<and> min_test_size cfg \<le> int (length test) \<and> list_all (\<lambda>j. j < length ts) test)"

lemma test_block_range:
  assumes "j \<in> set (test_block cfg n folds k)" "k < folds"
  shows "k * (n div folds) \<le> j \<and> j < n"
proof -
  have "set (drop m xs) \<subseteq> set xs" for m and xs :: "nat list" by (rule set_drop_subset)
  then have j: "j \<in> set [k * (n div folds)..<(if k = folds - 1 then n else (k + 1) * (n div folds))]"
    using assms(1) by (auto simp: test_block_def Let_def split: if_splits dest!: subsetD)
  have "(k + 1) * (n div folds) \<le> folds * (n div folds)" using assms(2) by (intro mult_le_mono1) simp
  also have "\<dots> \<le> n" by (simp add: times_div_less_eq_dividend mult.commute)
  finally show ?thesis using j by (auto split: if_splits)
qed

text \<open>C29: Cross-validation does not leak: in every split generated for a frame with sorted timestamps, every training row comes before
  every test row and is older than it by more than the whole purge window; both parts have their minimal sizes.\<close>

theorem splits_do_not_leak:
  assumes "generate_cpcv_splits cfg (Some ts) (length ts) = ok splits" "sorted ts"
  shows "list_all (leak_free cfg ts) splits"
proof -
  define folds where "folds = nat (max 2 (cv_folds cfg))"
  have s: "splits = List.map_filter (fold_split cfg (Some ts) (length ts) folds) [1..<folds]"
    using assms(1) by (auto simp: generate_cpcv_splits_def Let_def folds_def split: if_splits)
  have "leak_free cfg ts sp" if sp: "sp \<in> set splits" for sp
  proof -
    obtain k where k: "k < folds" "fold_split cfg (Some ts) (length ts) folds k = Some sp"
      using sp s by (auto simp: List.map_filter_def)
    define start where "start = k * (length ts div folds)"
    have f: "sp = (train_block cfg (Some ts) start, test_block cfg (length ts) folds k)"
      "min_train_size cfg \<le> int (length (train_block cfg (Some ts) start))" "min_test_size cfg \<le> int (length (test_block cfg (length ts) folds k))"
      using k(2) by (auto simp: fold_split_def Let_def start_def split: if_splits)
    have "i < j \<and> ts ! i + total_purge cfg < ts ! j"
      if i: "i \<in> set (train_block cfg (Some ts) start)" and j: "j \<in> set (test_block cfg (length ts) folds k)" for i j
    proof -
      have r: "start \<le> j" "j < length ts" using test_block_range [OF j k(1)] by (simp_all add: start_def)
      then have "ts ! start \<le> ts ! j" using assms(2) by (simp add: sorted_nth_mono)
      then show ?thesis using i r by (auto simp: train_block_def)
    qed
    then show ?thesis using f test_block_range [OF _ k(1)] by (auto simp: leak_free_def list_all_iff)
  qed
  then show ?thesis by (simp add: list_all_iff)
qed

lemma ten_days: "generate_cpcv_splits (default_cpcv\<lparr>cv_folds := 2, purge_days := 0, max_holding_days := 0, embargo_days := 0, min_train_size := 2,
      min_test_size := 2\<rparr>) (Some [0, 1, 2, 3]) (length [0, 1, 2, 3 :: int]) = ok [([0, 1], [2, 3])]"
proof -
  have u: "[Suc 0..<2] = [1]" "[0..<2] = [0, 1 :: nat]" "[2..<4] = [2, 3 :: nat]" by (simp_all add: upt_rec)
  show ?thesis
    by (simp add: generate_cpcv_splits_def default_cpcv_def fold_split_def test_block_def train_block_def total_purge_def
      List.map_filter_def u)
qed

theorem splits_do_not_leak_witness:
  "list_all (leak_free (default_cpcv\<lparr>cv_folds := 2, purge_days := 0, max_holding_days := 0, embargo_days := 0, min_train_size := 2,
      min_test_size := 2\<rparr>) [0, 1, 2, 3]) [([0, 1], [2, 3])]"
  by (rule splits_do_not_leak [OF ten_days]) simp

section \<open>The folds\<close>

lemma fold_loop_stuck:
  assumes "fold_loop tot train validate step start = Some fs"
  shows "step \<le> 0 \<longrightarrow> tot < start + train + validate"
proof (rule fold_loop.raw_induct [OF _ assms, of "\<lambda>tot train validate step start fs. step \<le> 0 \<longrightarrow> tot < start + train + validate"])
  fix f and tot train validate step start :: int and fs
  assume ih: "\<And>tot train validate step start fs. f tot train validate step start = Some fs \<Longrightarrow> step \<le> 0 \<longrightarrow> tot < start + train + validate"
    and body: "(if tot < start + train + validate then Some [] else Option.bind (f tot train validate step (start + step))
       (\<lambda>fs. Some (((start, start + train), start + train, start + train + validate) # fs))) = Some fs"
  show "step \<le> 0 \<longrightarrow> tot < start + train + validate"
  proof (cases "tot < start + train + validate")
    case False
    then obtain fs1 where "f tot train validate step (start + step) = Some fs1" using body by (auto simp: Option.bind_eq_Some_conv)
    then have "step \<le> 0 \<longrightarrow> tot < start + step + train + validate" by (rule ih)
    then show ?thesis using False by linarith
  qed simp
qed

definition fold_at :: "wf_config \<Rightarrow> int \<Rightarrow> day_range \<times> day_range" where
  "fold_at cfg start = ((start, start + train_days cfg), (start + train_days cfg, start + train_days cfg + validate_days cfg))"

lemma fold_loop_closed:
  assumes "0 < step" "int k = (if tot < start + train + validate then 0 else (tot - start - train - validate) div step + 1)"
  shows "fold_loop tot train validate step start =
    Some (map (\<lambda>i. let s = start + int i * step in ((s, s + train), (s + train, s + train + validate))) [0..<k])"
  using assms(2)
proof (induction k arbitrary: start)
  case 0
  have "tot < start + train + validate"
  proof (rule ccontr)
    assume "\<not> tot < start + train + validate"
    then have "0 \<le> (tot - start - train - validate) div step" using assms(1) by (simp add: pos_imp_zdiv_nonneg_iff)
    then show False using 0 \<open>\<not> tot < start + train + validate\<close> by simp
  qed
  then show ?case by (subst fold_loop.simps) simp
next
  case (Suc k)
  then have fits: "\<not> tot < start + train + validate" and k: "int k = (tot - start - train - validate) div step"
    by (auto split: if_splits)
  have "int k = (if tot < start + step + train + validate then 0 else (tot - (start + step) - train - validate) div step + 1)"
  proof (cases "tot < start + step + train + validate")
    case True
    then show ?thesis using fits k by (simp add: div_pos_pos_trivial)
  next
    case False
    have "tot - start - train - validate = (tot - (start + step) - train - validate) + step" by linarith
    then have "(tot - start - train - validate) div step = ((tot - (start + step) - train - validate) + step) div step" by (rule arg_cong)
    also have "\<dots> = (tot - (start + step) - train - validate) div step + 1" by (rule div_add_self2) (use assms(1) in simp)
    finally show ?thesis using False k by simp
  qed
  from Suc.IH [OF this] show ?case using fits
    by (subst fold_loop.simps) (simp add: upt_conv_Cons map_Suc_upt [symmetric] Let_def algebra_simps del: upt_Suc)
qed

text \<open>C40: The folds in closed form: with enough days and a positive step the loop returns the windows that start at the multiples of
  the step, each validation right after its training, as long as they fit; with a step of zero or less it never returns.\<close>

theorem folds_closed_form:
  "generate_folds tot cfg =
    (if tot < train_days cfg + validate_days cfg then Some []
     else if step_days cfg \<le> 0 then None
     else Some (map (\<lambda>i. fold_at cfg (int i * step_days cfg)) [0..<nat ((tot - train_days cfg - validate_days cfg) div step_days cfg + 1)]))"
proof (cases "tot < train_days cfg + validate_days cfg")
  case False
  show ?thesis
  proof (cases "step_days cfg \<le> 0")
    case True
    have "fold_loop tot (train_days cfg) (validate_days cfg) (step_days cfg) 0 = None"
      using fold_loop_stuck [of tot "train_days cfg" "validate_days cfg" "step_days cfg" 0] True False
      by (cases "fold_loop tot (train_days cfg) (validate_days cfg) (step_days cfg) 0") auto
    then show ?thesis using True False by (simp add: generate_folds_def)
  next
    case step: False
    then have "0 \<le> (tot - train_days cfg - validate_days cfg) div step_days cfg" using False by (simp add: pos_imp_zdiv_nonneg_iff)
    then show ?thesis using step False
        fold_loop_closed [of "step_days cfg" "nat ((tot - train_days cfg - validate_days cfg) div step_days cfg + 1)" tot 0 "train_days cfg" "validate_days cfg"]
      by (simp add: generate_folds_def fold_at_def Let_def)
  qed
qed (simp add: generate_folds_def)

section \<open>The verdicts\<close>

lemma pbo_never_computed: "compute_pbo_cscv cscv default_cscv [[x]] = Inl (ValueError ''return_matrix contains NaN/inf entries'') \<or>
    compute_pbo_cscv cscv default_cscv [[x]] = Inl (ValueError ''Need at least 2T observations'')"
  by (simp add: compute_pbo_cscv_def default_cscv_def)

definition judged_without_pbo :: "wf_config \<Rightarrow> fold_result \<Rightarrow> bool" where
  "judged_without_pbo cfg r \<longleftrightarrow> fr_pbo r = None \<and>
     (fr_verdict r = (if fr_sharpe r = None then SKIP else case fr_dsr r of None \<Rightarrow> PASS | Some d \<Rightarrow> if d < wf_min_sharpe cfg then FAIL else PASS))"

lemma run_fold_judged: "judged_without_pbo cfg (run_fold we cfg candles i f)"
proof -
  have "to_option (compute_pbo_cscv cscv default_cscv [[x]]) = None" for cscv x
    using pbo_never_computed [of cscv x] by (auto simp: to_option_def)
  then have "judged_without_pbo cfg (judge_fold we cfg i tr va r)" for tr va r
    by (auto simp: judged_without_pbo_def judge_fold_def Let_def split: option.splits)
  moreover have "judged_without_pbo cfg (skipped i tr va)" for tr va by (simp add: judged_without_pbo_def skipped_def)
  ultimately show ?thesis by (auto simp: run_fold_def Let_def split: prod.splits sum.splits)
qed

text \<open>The overfitting gate is never applied: in every sweep each fold has no overfitting probability, because the one-by-one matrix
  it is computed from is always refused; the verdict rests on the deflated Sharpe ratio alone.\<close>

theorem overfitting_gate_never_applies:
  "case run_walk_forward we cfg candles of None \<Rightarrow> True | Some rs \<Rightarrow> list_all (judged_without_pbo cfg) rs"
  by (auto simp: run_walk_forward_def list_all_iff run_fold_judged split: list.splits option.splits prod.splits)

end
