(* ===== verification/Hmm.thy ===== *)
theory Hmm
  imports Heartbeat
begin

text \<open>
  \<open>risk/hmm_regime.py\<close>: the three-state regime classifier the heartbeat reads.  The fit of hmmlearn and the array functions of
  numpy and scipy that are not exact (logarithm, exponential, deviation, sums, means, log-sum-exp) are parameters; the features, the
  forward recursion, the cache of the fit, the sanity gate, the alignment of the states and both fallbacks are definitions.
\<close>

section \<open>Arrays\<close>

record np_env =
  np_ln :: "pyfloat \<Rightarrow> pyfloat"
  np_exp :: "pyfloat \<Rightarrow> pyfloat"
  np_std :: "pyfloat list \<Rightarrow> pyfloat"
  np_sum :: "pyfloat list \<Rightarrow> pyfloat"
  np_mean :: "pyfloat list \<Rightarrow> pyfloat"
  np_logsumexp :: "pyfloat list \<Rightarrow> pyfloat"
  np_pi :: pyfloat

text \<open>Division of array elements does not raise; the divisors of this module are not zero.\<close>

definition ndiv :: "pyfloat \<Rightarrow> pyfloat \<Rightarrow> pyfloat" where
  "ndiv x y = (case fdiv x y of Inr z \<Rightarrow> z | Inl _ \<Rightarrow> NaN)"

definition np_maximum :: "pyfloat \<Rightarrow> pyfloat \<Rightarrow> pyfloat" where
  "np_maximum x y = (if x = NaN \<or> y = NaN then NaN else if x < y then y else x)"

definition np_minimum :: "pyfloat \<Rightarrow> pyfloat \<Rightarrow> pyfloat" where
  "np_minimum x y = (if x = NaN \<or> y = NaN then NaN else if y < x then y else x)"

text \<open>\<open>np.diff\<close>.\<close>

fun np_diff :: "pyfloat list \<Rightarrow> pyfloat list" where
  "np_diff (x # y # xs) = (y - x) # np_diff (y # xs)"
| "np_diff _ = []"

text \<open>\<open>np.argmax\<close>: the first NaN, else the first greatest element.\<close>

fun argmax_from :: "nat \<Rightarrow> nat \<Rightarrow> pyfloat \<Rightarrow> pyfloat list \<Rightarrow> nat" where
  "argmax_from k best b [] = best"
| "argmax_from k best b (x # xs) = (if b = NaN then best
     else if x = NaN \<or> b < x then argmax_from (Suc k) k x xs else argmax_from (Suc k) best b xs)"

definition np_argmax :: "pyfloat list \<Rightarrow> nat" where
  "np_argmax xs = argmax_from 1 0 (hd xs) (tl xs)"

definition np_log_returns :: "('a np_env_scheme) \<Rightarrow> pyfloat list \<Rightarrow> pyfloat list" where
  "np_log_returns env prices = np_diff (map (np_ln env) prices)"

section \<open>Results and state\<close>

record hmm_regime = hmm_full +
  regime_id :: nat
  transition_matrix :: "pyfloat list list"
  hr_is_trending :: bool
  hr_confidence :: pyfloat
  converged :: bool

datatype covariances = DiagCovars "pyfloat list list" | FullCovars "pyfloat list list list"

record hmm_model =
  startprob :: "pyfloat list"
  transmat :: "pyfloat list list"
  hm_means :: "pyfloat list list"
  covars :: covariances

type_synonym feature_rows = "pyfloat list list"

record hmm_classifier =
  n_components :: nat
  min_history_length :: int
  random_state :: int
  last_result :: "hmm_regime option"
  cached_model :: "hmm_model option"
  cached_feature_rows :: "feature_rows option"

definition REGIME_NAMES :: "string list" where
  "REGIME_NAMES = [''trending_bull'', ''volatile_bear'', ''choppy_sideways'']"

definition default_hmm :: hmm_classifier where
  "default_hmm = \<lparr>n_components = 3, min_history_length = 40, random_state = 42, last_result = None, cached_model = None,
     cached_feature_rows = None\<rparr>"

section \<open>Features\<close>

definition rolling_std :: "('a np_env_scheme) \<Rightarrow> pyfloat list \<Rightarrow> nat \<Rightarrow> pyfloat" where
  "rolling_std env returns i = np_std env (drop (i + 1 - 5) (take (i + 1) returns))"

definition feature_row :: "('a np_env_scheme) \<Rightarrow> pyfloat list \<Rightarrow> nat \<Rightarrow> pyfloat list" where
  "feature_row env returns i = [returns ! i, rolling_std env returns i]"

definition build_features :: "('a np_env_scheme) \<Rightarrow> pyfloat list \<Rightarrow> feature_rows res" where
  "build_features env returns = (if length returns < 5 then raise (ValueError ''Need more returns to build rolling-vol features'')
     else (let X = drop 4 (map (feature_row env returns) [0..<length returns]) in
       if list_all (list_all is_finite) X then ok X else raise (ValueError ''Non-finite values in HMM feature matrix'')))"

section \<open>Fitting\<close>

text \<open>One fit with a seed: the model and whether EM converged, or what the library raises.\<close>

type_synonym fitter = "nat \<Rightarrow> int \<Rightarrow> feature_rows \<Rightarrow> (hmm_model \<times> bool) res"

definition fit_with_convergence_check :: "fitter \<Rightarrow> hmm_classifier \<Rightarrow> feature_rows \<Rightarrow> (hmm_model \<times> bool) res" where
  "fit_with_convergence_check fit c X = rbind (fit (n_components c) (random_state c) X) (\<lambda>first. case first of (m, good) \<Rightarrow>
     if good then ok (m, True) else fit (n_components c) (random_state c + 1) X)"

section \<open>The forward filter\<close>

definition diagonal :: "pyfloat list list \<Rightarrow> pyfloat list" where
  "diagonal m = map (\<lambda>i. m ! i ! i) [0..<length m]"

definition state_variances :: "covariances \<Rightarrow> pyfloat list list" where
  "state_variances cv = map (map (\<lambda>v. np_maximum v (fl (1 / 10 ^ 12)))) (case cv of DiagCovars vs \<Rightarrow> vs | FullCovars ms \<Rightarrow> map diagonal ms)"

definition state_log_density :: "('a np_env_scheme) \<Rightarrow> pyfloat list \<Rightarrow> pyfloat list \<Rightarrow> pyfloat list \<Rightarrow> pyfloat" where
  "state_log_density env x mean var =
    (let d = map2 (-) x mean; mahal = np_sum env (map2 (\<lambda>y v. ndiv (y * y) v) d var);
         log_norm = fl (- 1/2) * (float_of_int (int (length mean)) * np_ln env (fl 2 * np_pi env) + np_sum env (map (np_ln env) var))
     in log_norm - fl (1/2) * mahal)"

text \<open>The row of one observation; squeezing the variances of a single state drops an axis the code indexes.\<close>

definition observation_log_likelihood :: "('a np_env_scheme) \<Rightarrow> hmm_model \<Rightarrow> pyfloat list \<Rightarrow> pyfloat list" where
  "observation_log_likelihood env m x = map2 (state_log_density env x) (hm_means m) (state_variances (covars m))"

definition clipped_ln :: "('a np_env_scheme) \<Rightarrow> pyfloat \<Rightarrow> pyfloat" where
  "clipped_ln env p = np_ln env (np_maximum p (fl (1 / 10 ^ 300)))"

definition np_column :: "nat \<Rightarrow> 'a list list \<Rightarrow> 'a list" where
  "np_column j m = map (\<lambda>r. r ! j) m"

definition alpha_step :: "('a np_env_scheme) \<Rightarrow> pyfloat list list \<Rightarrow> pyfloat list \<Rightarrow> pyfloat list \<Rightarrow> pyfloat list" where
  "alpha_step env log_trans prev emit = map (\<lambda>j. emit ! j + np_logsumexp env (map2 (+) prev (np_column j log_trans))) [0..<length emit]"

fun alpha_rows :: "('a np_env_scheme) \<Rightarrow> pyfloat list list \<Rightarrow> pyfloat list \<Rightarrow> pyfloat list list \<Rightarrow> pyfloat list list" where
  "alpha_rows env log_trans prev [] = []"
| "alpha_rows env log_trans prev (e # es) = (let a = alpha_step env log_trans prev e in a # alpha_rows env log_trans a es)"

definition log_alpha :: "('a np_env_scheme) \<Rightarrow> hmm_model \<Rightarrow> feature_rows \<Rightarrow> pyfloat list list" where
  "log_alpha env m X = (case map (observation_log_likelihood env m) X of [] \<Rightarrow> []
     | e # es \<Rightarrow> (let a = map2 (+) (map (clipped_ln env) (startprob m)) e in
         a # alpha_rows env (map (map (clipped_ln env)) (transmat m)) a es))"

definition normalized :: "('a np_env_scheme) \<Rightarrow> pyfloat list \<Rightarrow> pyfloat list" where
  "normalized env row = map (\<lambda>a. np_exp env (a - np_logsumexp env row)) row"

definition forward_filtered_posterior :: "('a np_env_scheme) \<Rightarrow> hmm_model \<Rightarrow> feature_rows \<Rightarrow> pyfloat list list res" where
  "forward_filtered_posterior env m X =
    (if X = [] then raise (IndexError ''index 0 is out of bounds'')
     else if length (hm_means m) = 1 then raise (IndexError ''too many indices for array'')
     else ok (map (normalized env) (log_alpha env m X)))"

section \<open>The cache\<close>

definition invalidate_model_cache :: "hmm_classifier \<Rightarrow> hmm_classifier" where
  "invalidate_model_cache c = c\<lparr>cached_model := None, cached_feature_rows := None\<rparr>"

definition cache_matches :: "hmm_classifier \<Rightarrow> feature_rows \<Rightarrow> bool" where
  "cache_matches c X = (case (cached_model c, cached_feature_rows c) of
     (Some _, Some R) \<Rightarrow> length R \<le> length X \<and> list_all2 (list_all2 feq) (take (length R) X) R
   | _ \<Rightarrow> False)"

section \<open>Alignment of the states\<close>

definition np_max :: "pyfloat list \<Rightarrow> pyfloat" where
  "np_max xs = foldl np_maximum (hd xs) (tl xs)"

definition np_min :: "pyfloat list \<Rightarrow> pyfloat" where
  "np_min xs = foldl np_minimum (hd xs) (tl xs)"

definition unit_scaled :: "pyfloat list \<Rightarrow> pyfloat list" where
  "unit_scaled xs = (let span = np_max xs - np_min xs in
     if span \<le> 0 then map (\<lambda>_. 0) xs else map (\<lambda>x. ndiv (x - np_min xs) span) xs)"

definition bear_scores :: "pyfloat list list \<Rightarrow> pyfloat list" where
  "bear_scores means = map2 (\<lambda>r v. (- r) + v) (unit_scaled (np_column 0 means)) (unit_scaled (np_column 1 means))"

definition align_states :: "nat \<Rightarrow> pyfloat list list \<Rightarrow> (nat, nat) dict res" where
  "align_states n means = (if n \<noteq> length REGIME_NAMES then raise (ValueError ''_align_states maps exactly 3 canonical regimes'')
     else (let bull = np_argmax (np_column 0 means); scores = bear_scores means; b = np_argmax scores;
               bear = (if b = bull then np_argmax (scores[bull := NInf]) else b);
               chop = hd (filter (\<lambda>i. i \<noteq> bull \<and> i \<noteq> bear) [0..<n])
       in ok (dset chop 2 (dset bear 1 [(bull, 0)]))))"

text \<open>The probabilities in the order of the canonical regimes, normalized.\<close>

definition canonical_probs :: "nat \<Rightarrow> (nat, nat) dict \<Rightarrow> pyfloat list \<Rightarrow> pyfloat list" where
  "canonical_probs n mapping raw = foldl (\<lambda>ps kv. ps[snd kv := raw ! fst kv]) (replicate n 0) mapping"

definition normalize_probs :: "pyfloat list \<Rightarrow> pyfloat list res" where
  "normalize_probs ps = map_res (\<lambda>p. fdiv p (fsum ps)) ps"

section \<open>Fallbacks\<close>

definition default_transitions :: "pyfloat list list" where
  "default_transitions = [[fl (8/10), fl (1/10), fl (1/10)], [fl (1/10), fl (8/10), fl (1/10)], [fl (1/10), fl (1/10), fl (8/10)]]"

definition fallback_result :: "nat \<Rightarrow> pyfloat list \<Rightarrow> hmm_regime" where
  "fallback_result rid probs = \<lparr>current_regime = REGIME_NAMES ! rid, hmm_high_volatility = (rid = 1), provenance = ''fallback'',
     state_probabilities = probs, regime_id = rid, transition_matrix = default_transitions, hr_is_trending = (rid = 0),
     hr_confidence = probs ! rid, converged = False\<rparr>"

definition no_history_result :: hmm_regime where
  "no_history_result = fallback_result 2 [fl (33/100), fl (33/100), fl (34/100)]"

definition last_known_fallback :: "hmm_classifier \<Rightarrow> hmm_regime" where
  "last_known_fallback c = (case last_result c of
     Some prev \<Rightarrow> prev\<lparr>provenance := ''fallback'', converged := False\<rparr>
   | None \<Rightarrow> no_history_result)"

definition fallback_regime :: "('a np_env_scheme) \<Rightarrow> pyfloat list \<Rightarrow> bool \<Rightarrow> hmm_regime" where
  "fallback_regime env arr is_returns = (if length arr < 2 then no_history_result else
     (let returns = (if is_returns then arr else np_log_returns env arr);
          recent = np_sum env (if 10 \<le> length returns then drop (length returns - 10) returns else returns);
          vol = (if 1 < length returns then np_std env returns else fl (2/100))
      in if fl (2/100) < recent \<and> vol < fl (4/100) then fallback_result 0 [fl (7/10), fl (1/10), fl (2/10)]
         else if recent < - fl (2/100) \<or> fl (5/100) < vol then fallback_result 1 [fl (1/10), fl (7/10), fl (2/10)]
         else fallback_result 2 [fl (2/10), fl (2/10), fl (6/10)]))"

section \<open>Classification\<close>

text \<open>The result of a model whose posterior passed the gate.\<close>

definition model_result :: "nat \<Rightarrow> hmm_model \<Rightarrow> pyfloat list \<Rightarrow> hmm_regime res" where
  "model_result n m raw = rbind (align_states n (hm_means m)) (\<lambda>mapping.
     rbind (normalize_probs (canonical_probs n mapping raw)) (\<lambda>probs. let best = np_argmax probs; regime = REGIME_NAMES ! best in
       ok \<lparr>current_regime = regime, hmm_high_volatility = (regime = ''volatile_bear''), provenance = ''model'',
          state_probabilities = probs, regime_id = best, transition_matrix = transmat m, hr_is_trending = (regime = ''trending_bull''),
          hr_confidence = probs ! best, converged = True\<rparr>))"

text \<open>The sanity gate: a finite posterior that uses at least two states.\<close>

definition degenerate :: "('a np_env_scheme) \<Rightarrow> pyfloat list list \<Rightarrow> bool" where
  "degenerate env filtered = (let raw = last filtered; weights = map (\<lambda>k. np_mean env (np_column k filtered)) [0..<length raw] in
     \<not> list_all is_finite raw \<or> \<not> list_all is_finite weights \<or> length (filter (\<lambda>w. fl (1 / 10 ^ 8) \<le> w) weights) < 2)"

definition usable_features :: "('a np_env_scheme) \<Rightarrow> hmm_classifier \<Rightarrow> pyfloat list \<Rightarrow> feature_rows res" where
  "usable_features env c returns = rbind (build_features env returns) (\<lambda>X.
     if length X < max 10 (n_components c * 4) then raise (ValueError ''too few to identify regimes'') else ok X)"

text \<open>The model to use: the cached one while its rows are a prefix, else a fit that converged.\<close>

definition model_for :: "fitter \<Rightarrow> hmm_classifier \<Rightarrow> feature_rows \<Rightarrow> hmm_model option res" where
  "model_for fit c X = (if cache_matches c X then ok (cached_model c)
     else rbind (fit_with_convergence_check fit c X) (\<lambda>r. case r of (m, good) \<Rightarrow> ok (if good then Some m else None)))"

definition remember_fit :: "hmm_model \<Rightarrow> feature_rows \<Rightarrow> hmm_classifier \<Rightarrow> hmm_classifier" where
  "remember_fit m X c = (if cache_matches c X then c else c\<lparr>cached_model := Some m, cached_feature_rows := Some X\<rparr>)"

text \<open>The body of the \<open>try\<close>.\<close>

definition try_classify :: "('a np_env_scheme) \<Rightarrow> fitter \<Rightarrow> pyfloat list \<Rightarrow> (hmm_classifier, hmm_regime) act" where
  "try_classify env fit returns c = (case usable_features env c returns of
     Inl e \<Rightarrow> (Inl e, c)
   | Inr X \<Rightarrow> (case model_for fit c X of
       Inl e \<Rightarrow> (Inl e, c)
     | Inr None \<Rightarrow> (ok (last_known_fallback c), c)
     | Inr (Some m) \<Rightarrow> (case forward_filtered_posterior env m X of
         Inl e \<Rightarrow> (Inl e, c)
       | Inr filtered \<Rightarrow> if degenerate env filtered then (ok (last_known_fallback c), c)
           else (let c1 = remember_fit m X c in case model_result (n_components c) m (last filtered) of
             Inl e \<Rightarrow> (Inl e, c1)
           | Inr r \<Rightarrow> (ok r, c1\<lparr>last_result := Some r\<rparr>)))))"

definition hmm_fit_predict :: "('a np_env_scheme) \<Rightarrow> fitter \<Rightarrow> pyfloat list \<Rightarrow> bool \<Rightarrow> hmm_classifier \<Rightarrow> hmm_regime \<times> hmm_classifier" where
  "hmm_fit_predict env fit arr is_returns c = (let returns = (if is_returns then arr else np_log_returns env arr) in
     if int (length returns) < min_history_length c then (fallback_regime env arr is_returns, c)
     else (case try_classify env fit returns c of
        (Inl e, c1) \<Rightarrow> (fallback_regime env arr is_returns, c1)
      | (Inr r, c1) \<Rightarrow> (r, c1)))"

section \<open>The filter is causal\<close>

lemma alpha_rows_take: "take n (alpha_rows env lt prev es) = alpha_rows env lt prev (take n es)"
proof (induction es arbitrary: n prev)
  case (Cons e es)
  then show ?case by (cases n) (simp_all add: Let_def)
qed simp

lemma alpha_rows_length [simp]: "length (alpha_rows env lt prev es) = length es"
  by (induction es arbitrary: prev) (simp_all add: Let_def)

lemma log_alpha_take: "take n (log_alpha env m X) = log_alpha env m (take n X)"
  by (cases X; cases n) (simp_all add: log_alpha_def Let_def alpha_rows_take take_map)

lemma log_alpha_length [simp]: "length (log_alpha env m X) = length X"
  by (cases X) (simp_all add: log_alpha_def Let_def)

text \<open>What the recursion replaces: the posterior of the last step of every growing prefix.\<close>

definition prefix_posteriors :: "('a np_env_scheme) \<Rightarrow> hmm_model \<Rightarrow> feature_rows \<Rightarrow> pyfloat list list res" where
  "prefix_posteriors env m X = map_res (\<lambda>t. rbind (forward_filtered_posterior env m (take (Suc t) X)) (\<lambda>F. ok (last F))) [0..<length X]"

lemma last_take_Suc: "t < length xs \<Longrightarrow> last (take (Suc t) xs) = xs ! t"
  by (simp add: take_Suc_conv_app_nth)

text \<open>C30: The one-pass forward filter equals its reference, the last posterior of every growing prefix: no row of the live estimate
  depends on a later observation, and both raise on no observation and on a single state.\<close>

theorem filter_is_causal:
  "forward_filtered_posterior env m X =
    (if X = [] then raise (IndexError ''index 0 is out of bounds'') else prefix_posteriors env m X)"
proof (cases "X = [] \<or> length (hm_means m) = 1")
  case True
  show ?thesis
  proof (cases X)
    case (Cons x xs)
    then have "[0..<length X] = 0 # [1..<length X]" by (simp add: upt_rec)
    with True Cons show ?thesis by (simp add: forward_filtered_posterior_def prefix_posteriors_def)
  qed (simp add: forward_filtered_posterior_def)
next
  case False
  have row: "rbind (forward_filtered_posterior env m (take (Suc t) X)) (\<lambda>F. ok (last F)) = ok (normalized env (log_alpha env m X ! t))"
    if "t < length X" for t
  proof -
    have "log_alpha env m (take (Suc t) X) \<noteq> []" using that by (simp flip: length_0_conv)
    then show ?thesis
      using False that by (simp add: forward_filtered_posterior_def last_map last_take_Suc flip: log_alpha_take)
  qed
  have "prefix_posteriors env m X = ok (map (\<lambda>t. normalized env (log_alpha env m X ! t)) [0..<length X])"
    unfolding prefix_posteriors_def by (rule map_res_ok) (simp add: row)
  also have "\<dots> = forward_filtered_posterior env m X"
    using False by (auto simp: forward_filtered_posterior_def intro: nth_equalityI)
  finally show ?thesis using False by simp
qed

section \<open>Every alignment is a permutation\<close>

lemma argmax_from_spec:
  assumes "best < length zs" "zs ! best = NaN \<or> (\<forall>x\<in>set zs. x \<le> zs ! best)"
  shows "argmax_from (length zs) best (zs ! best) xs < length (zs @ xs) \<and>
    ((zs @ xs) ! argmax_from (length zs) best (zs ! best) xs = NaN \<or>
     (\<forall>x\<in>set (zs @ xs). x \<le> (zs @ xs) ! argmax_from (length zs) best (zs ! best) xs))"
  using assms
proof (induction xs arbitrary: zs best)
  case (Cons x xs)
  let ?b = "zs ! best"
  consider "?b = NaN" | "?b \<noteq> NaN" "x = NaN \<or> ?b < x" | "?b \<noteq> NaN" "x \<noteq> NaN" "\<not> ?b < x" by blast
  then show ?case
  proof cases
    case 1
    then show ?thesis using Cons.prems by (simp add: nth_append)
  next
    case 2
    have "x = NaN \<or> (\<forall>y\<in>set (zs @ [x]). y \<le> x)"
      using 2 Cons.prems by (auto intro: le_trans_pyfloat less_le_pyfloat le_refl_pyfloat)
    then show ?thesis
      using Cons.IH [of "length zs" "zs @ [x]"] 2 by simp
  next
    case 3
    then have "\<forall>y\<in>set (zs @ [x]). y \<le> ?b"
      using Cons.prems by (auto simp: not_less_pyfloat)
    then show ?thesis
      using Cons.IH [of best "zs @ [x]"] 3 Cons.prems by (simp add: nth_append)
  qed
qed auto

lemma np_argmax_spec:
  assumes "xs \<noteq> []"
  shows "np_argmax xs < length xs \<and> (xs ! np_argmax xs = NaN \<or> (\<forall>x\<in>set xs. x \<le> xs ! np_argmax xs))"
proof (cases xs)
  case (Cons x ys)
  then show ?thesis
    using argmax_from_spec [of 0 "[x]" ys] by (cases "x = NaN") (simp_all add: np_argmax_def le_refl_pyfloat)
qed (use assms in simp)

lemma np_argmax_less: "xs \<noteq> [] \<Longrightarrow> np_argmax xs < length xs"
  using np_argmax_spec by blast

lemma fold_maximum_ge:
  "foldl np_maximum b xs = NaN \<or> (b \<le> foldl np_maximum b xs \<and> (\<forall>x\<in>set xs. x \<le> foldl np_maximum b xs))"
proof (induction xs arbitrary: b)
  case (Cons x xs)
  have "np_maximum b x = NaN \<or> (b \<le> np_maximum b x \<and> x \<le> np_maximum b x)"
    by (auto simp: np_maximum_def less_le_pyfloat le_refl_pyfloat not_less_pyfloat)
  moreover have "foldl np_maximum NaN ys = NaN" for ys
    by (induction ys) (simp_all add: np_maximum_def)
  ultimately show ?case using Cons.IH [of "np_maximum b x"] by (auto intro: le_trans_pyfloat)
qed (simp, metis le_refl_pyfloat)

lemma fold_minimum_le:
  "foldl np_minimum b xs = NaN \<or> (foldl np_minimum b xs \<le> b \<and> (\<forall>x\<in>set xs. foldl np_minimum b xs \<le> x))"
proof (induction xs arbitrary: b)
  case (Cons x xs)
  have "np_minimum b x = NaN \<or> (np_minimum b x \<le> b \<and> np_minimum b x \<le> x)"
    by (auto simp: np_minimum_def less_le_pyfloat le_refl_pyfloat not_less_pyfloat)
  moreover have "foldl np_minimum NaN ys = NaN" for ys
    by (induction ys) (simp_all add: np_minimum_def)
  ultimately show ?case using Cons.IH [of "np_minimum b x"] by (auto intro: le_trans_pyfloat)
qed (simp, metis le_refl_pyfloat)

text \<open>A number of the unit interval, or NaN.\<close>

definition unit_or_nan :: "pyfloat \<Rightarrow> bool" where
  "unit_or_nan x \<longleftrightarrow> x = NaN \<or> (0 \<le> x \<and> x \<le> 1)"

lemma ndiv_unit: "0 \<le> x \<Longrightarrow> x \<le> y \<Longrightarrow> 0 < y \<Longrightarrow> unit_or_nan (ndiv x y)"
proof (cases x; cases y)
  fix p q assume "0 \<le> x" "x \<le> y" "0 < y" "x = Fin p" "y = Fin q"
  then show ?thesis
    using fl_mono [of 0 "p / q"] fl_mono [of "p / q" 1] by (simp add: ndiv_def unit_or_nan_def zero_Fin one_Fin)
qed (auto simp: ndiv_def unit_or_nan_def zero_Fin one_Fin is_finite_def)

lemma diff_nonneg_pyfloat: "x \<le> y \<Longrightarrow> y - x \<noteq> NaN \<Longrightarrow> 0 \<le> y - (x :: pyfloat)"
  by (cases x; cases y) (auto simp: minus_pyfloat_def zero_Fin intro: fl_nonneg [unfolded zero_Fin])

lemma diff_mono_pyfloat: "x \<le> y \<Longrightarrow> x - z \<noteq> NaN \<Longrightarrow> y - z \<noteq> NaN \<Longrightarrow> x - z \<le> y - (z :: pyfloat)"
  unfolding minus_pyfloat_def by (rule add_mono_pyfloat)

lemma ndiv_nan [simp]: "ndiv NaN y = NaN" "ndiv x NaN = NaN"
  by (cases y; simp add: ndiv_def is_finite_def) (simp add: ndiv_def)

lemma unit_scaled_range:
  assumes "x \<in> set (unit_scaled xs)"
  shows "unit_or_nan x"
proof (cases "np_max xs - np_min xs \<le> 0")
  case True
  with assms show ?thesis by (auto simp: unit_scaled_def unit_or_nan_def zero_Fin one_Fin)
next
  case False
  let ?span = "np_max xs - np_min xs"
  obtain y where y: "y \<in> set xs" "x = ndiv (y - np_min xs) ?span"
    using assms False by (auto simp: unit_scaled_def Let_def)
  then have mem: "y = hd xs \<or> y \<in> set (tl xs)" by (cases xs) auto
  show ?thesis
  proof (cases "?span = NaN \<or> y - np_min xs = NaN")
    case True
    with y show ?thesis by (auto simp: unit_or_nan_def)
  next
    case no: False
    then have "np_max xs \<noteq> NaN" "np_min xs \<noteq> NaN" by (auto simp: minus_pyfloat_def)
    then have "y \<le> np_max xs" "np_min xs \<le> y"
      using mem fold_maximum_ge [of "hd xs" "tl xs"] fold_minimum_le [of "hd xs" "tl xs"]
      by (auto simp: np_max_def np_min_def)
    with no have "0 \<le> y - np_min xs" "y - np_min xs \<le> ?span"
      using diff_nonneg_pyfloat diff_mono_pyfloat by blast+
    moreover have "0 < ?span" using no False by (simp add: not_le_pyfloat zero_Fin)
    ultimately show ?thesis unfolding y(2) by (rule ndiv_unit)
  qed
qed

lemma unit_score: "unit_or_nan r \<Longrightarrow> unit_or_nan v \<Longrightarrow> - r + v \<noteq> NInf"
proof -
  assume a: "unit_or_nan r" "unit_or_nan v"
  have "Fin (- 1) \<le> fl (y - x)" if "x \<le> 1" "0 \<le> y" for x y :: rat
    using that by (intro fl_ge_Fin) (simp_all add: rnd64_minus rnd64_1)
  then show ?thesis
    using a by (cases r; cases v) (fastforce simp: unit_or_nan_def zero_Fin one_Fin)+
qed

lemma np_column_length [simp]: "length (np_column j m) = length m"
  by (simp add: np_column_def)

lemma unit_scaled_length [simp]: "length (unit_scaled xs) = length xs"
  by (simp add: unit_scaled_def Let_def)

lemma bear_scores_length [simp]: "length (bear_scores means) = length means"
  by (simp add: bear_scores_def)

lemma bear_scores_not_NInf: "i < length means \<Longrightarrow> bear_scores means ! i \<noteq> NInf"
  using unit_score [OF unit_scaled_range [OF nth_mem] unit_scaled_range [OF nth_mem], of i "np_column 0 means" i "np_column 1 means"]
  by (simp add: bear_scores_def)

text \<open>With the place of the bull masked, the bear is another state.\<close>

lemma masked_argmax_differs:
  assumes "length scores = 3" "bull < 3" "\<And>i. i < 3 \<Longrightarrow> scores ! i \<noteq> NInf"
  shows "np_argmax (scores[bull := NInf]) \<noteq> bull"
proof
  let ?ys = "scores[bull := NInf]"
  assume eq: "np_argmax ?ys = bull"
  obtain i where i: "i < 3" "i \<noteq> bull" by (cases "bull = 0") (auto intro: that [of 0] that [of 1])
  have "scores ! i \<in> set ?ys"
    using i assms by (metis length_list_update nth_list_update_neq nth_mem)
  moreover have "?ys \<noteq> []" using assms by auto
  ultimately have "scores ! i \<le> NInf"
    using np_argmax_spec [of ?ys] assms(1,2) by (auto simp: eq)
  then show False using assms(3) [OF i(1)] by (cases "scores ! i") auto
qed

lemma third_state: "i < 3 \<Longrightarrow> j < 3 \<Longrightarrow> i \<noteq> j \<Longrightarrow> \<exists>k. filter (\<lambda>k. k \<noteq> i \<and> k \<noteq> j) [0..<3] = [k] \<and> {i, j, k} = {0, 1, 2::nat}"
proof -
  assume a: "i < 3" "j < 3" "i \<noteq> (j::nat)"
  have "i = 0 \<or> i = 1 \<or> i = 2" "j = 0 \<or> j = 1 \<or> j = 2" using a by linarith+
  then show ?thesis using a(3) by (elim disjE) (auto simp: upt_rec numeral_2_eq_2)
qed

text \<open>The three states of an alignment.\<close>

lemma align_states_ok:
  assumes "length means = 3"
  obtains bear chop where "align_states 3 means = ok [(np_argmax (np_column 0 means), 0), (bear, 1), (chop, 2)]"
    "{np_argmax (np_column 0 means), bear, chop} = {0, 1, 2}" "distinct [np_argmax (np_column 0 means), bear, chop]"
    "np_argmax (np_column 0 means) < 3"
proof -
  let ?rs = "np_column 0 means" let ?sc = "bear_scores means"
  define bull where "bull = np_argmax ?rs"
  define bear where "bear = (if np_argmax ?sc = bull then np_argmax (?sc[bull := NInf]) else np_argmax ?sc)"
  have ne: "?rs \<noteq> []" "?sc \<noteq> []" "?sc[bull := NInf] \<noteq> []" using assms by (simp_all flip: length_0_conv)
  have less: "bull < 3" "bear < 3"
    using np_argmax_less [OF ne(1)] np_argmax_less [OF ne(2)] np_argmax_less [OF ne(3)] assms by (simp_all add: bull_def bear_def)
  have "bear \<noteq> bull"
    using masked_argmax_differs [of ?sc bull] less(1) assms by (simp add: bear_def bear_scores_not_NInf)
  then obtain chop where chop: "filter (\<lambda>k. k \<noteq> bull \<and> k \<noteq> bear) [0..<3] = [chop]" "{bull, bear, chop} = {0, 1, 2}"
    using third_state [OF less] by blast
  have "chop \<in> set (filter (\<lambda>k. k \<noteq> bull \<and> k \<noteq> bear) [0..<3])" unfolding chop(1) by simp
  then have d: "chop \<noteq> bull" "chop \<noteq> bear" by auto
  then have "align_states 3 means = ok [(bull, 0), (bear, 1), (chop, 2)]"
    using chop(1) \<open>bear \<noteq> bull\<close> by (simp add: align_states_def Let_def REGIME_NAMES_def flip: bull_def bear_def)
  then show ?thesis
    by (rule that [folded bull_def]) (use chop(2) d \<open>bear \<noteq> bull\<close> less in auto)
qed

text \<open>Every alignment is a permutation: whatever the three rows of state means are, NaN and infinities included, the states that
  get the canonical slots bull, bear and choppy are three different states, and the bull is a state with the greatest mean return.\<close>

theorem alignment_is_a_permutation:
  assumes "length means = 3"
  shows "case align_states 3 means of Inl _ \<Rightarrow> False
    | Inr mapping \<Rightarrow> map snd mapping = [0, 1, 2] \<and> distinct (map fst mapping) \<and> set (map fst mapping) = {0, 1, 2} \<and>
        (let r = means ! fst (hd mapping) ! 0 in r = NaN \<or> (\<forall>row\<in>set means. row ! 0 \<le> r))"
proof -
  have "np_column 0 means \<noteq> []" using assms by (simp flip: length_0_conv)
  note spec = np_argmax_spec [OF this]
  then have "np_column 0 means ! np_argmax (np_column 0 means) = means ! np_argmax (np_column 0 means) ! 0" by (simp add: np_column_def)
  with spec show ?thesis
    by (rule_tac align_states_ok [OF assms]) (auto simp: np_column_def Let_def)
qed

text \<open>States whose greatest return is also the most volatile: the bear is the runner-up.\<close>

theorem alignment_is_a_permutation_witness:
  "case align_states 3 [[1, 1], [0, 0], [0, 1]] of Inl _ \<Rightarrow> False
    | Inr mapping \<Rightarrow> map snd mapping = [0, 1, 2] \<and> distinct (map fst mapping) \<and> set (map fst mapping) = {0, 1, 2} \<and>
        (let r = [[1, 1], [0, 0], [0, 1]] ! fst (hd mapping) ! 0 in r = NaN \<or> (\<forall>row\<in>set [[1, 1], [0, 0], [0, 1]]. row ! 0 \<le> (r :: pyfloat)))"
  by (rule alignment_is_a_permutation) simp

section \<open>Live reads\<close>

lemma list_all2_feq_eq: "list_all2 feq xs ys \<Longrightarrow> xs = ys"
  by (induction rule: list_all2_induct) (simp_all add: feq_def)

lemma rows_feq_eq: "list_all2 (list_all2 feq) X Y \<Longrightarrow> X = Y"
  by (induction rule: list_all2_induct) (simp_all add: list_all2_feq_eq)

text \<open>The cached model came out of a fit that converged on the cached rows.\<close>

definition cache_ok :: "fitter \<Rightarrow> hmm_classifier \<Rightarrow> bool" where
  "cache_ok fit c \<longleftrightarrow> (case cached_model c of None \<Rightarrow> True | Some m \<Rightarrow>
     (\<exists>R s. cached_feature_rows c = Some R \<and> s \<in> {random_state c, random_state c + 1} \<and> fit (n_components c) s R = ok (m, True)))"

text \<open>A live read: a model that converged on a prefix of the features of this very input, with a posterior that passed the gate.\<close>

definition live_read :: "('a np_env_scheme) \<Rightarrow> fitter \<Rightarrow> hmm_classifier \<Rightarrow> pyfloat list \<Rightarrow> hmm_regime \<Rightarrow> bool" where
  "live_read env fit c returns r \<longleftrightarrow> (\<exists>X m k s F. usable_features env c returns = ok X \<and> s \<in> {random_state c, random_state c + 1} \<and>
     fit (n_components c) s (take k X) = ok (m, True) \<and> forward_filtered_posterior env m X = ok F \<and> \<not> degenerate env F \<and>
     model_result (n_components c) m (last F) = ok r)"

lemma fit_check_ok:
  "fit_with_convergence_check fit c X = ok (m, True) \<Longrightarrow>
    \<exists>s. s \<in> {random_state c, random_state c + 1} \<and> fit (n_components c) s X = ok (m, True)"
  by (auto simp: fit_with_convergence_check_def rbind_eq_Inr split: if_splits)

lemma model_for_ok:
  assumes "model_for fit c X = ok (Some m)" "cache_ok fit c"
  shows "\<exists>k s. s \<in> {random_state c, random_state c + 1} \<and> fit (n_components c) s (take k X) = ok (m, True) \<and>
    (cache_matches c X \<and> cached_model c = Some m \<or> \<not> cache_matches c X \<and> take k X = X)"
proof (cases "cache_matches c X")
  case True
  then obtain R where R: "cached_feature_rows c = Some R" "take (length R) X = R"
    by (auto simp: cache_matches_def dest: rows_feq_eq split: option.splits)
  have m: "cached_model c = Some m" using True assms(1) by (simp add: model_for_def)
  then obtain s where "s \<in> {random_state c, random_state c + 1}" "fit (n_components c) s (take (length R) X) = ok (m, True)"
    using assms(2) R by (auto simp: cache_ok_def)
  then show ?thesis using True m by blast
next
  case False
  then have "fit_with_convergence_check fit c X = ok (m, True)"
    using assms(1) by (auto simp: model_for_def rbind_eq_Inr split: if_splits)
  then show ?thesis using False fit_check_ok by (metis order_refl take_all)
qed

lemma model_result_model: "model_result n m raw = ok r \<Longrightarrow> provenance r = ''model'' \<and> converged r"
  by (auto simp: model_result_def rbind_eq_Inr Let_def)

lemma fallbacks_are_flagged [simp]:
  "provenance (fallback_result rid ps) = ''fallback''" "\<not> converged (fallback_result rid ps)"
  "provenance (last_known_fallback c) = ''fallback''" "\<not> converged (last_known_fallback c)"
  "provenance (fallback_regime env arr b) = ''fallback''" "\<not> converged (fallback_regime env arr b)"
  by (simp_all add: fallback_result_def last_known_fallback_def fallback_regime_def no_history_result_def Let_def split: option.split)

definition same_settings :: "hmm_classifier \<Rightarrow> hmm_classifier \<Rightarrow> bool" where
  "same_settings c c' \<longleftrightarrow> n_components c' = n_components c \<and> random_state c' = random_state c \<and> min_history_length c' = min_history_length c"

lemma cache_ok_last_result [simp]: "cache_ok fit (c\<lparr>last_result := x\<rparr>) = cache_ok fit c"
  by (simp add: cache_ok_def split: option.split)

lemma same_settings_last_result [simp]: "same_settings c (c'\<lparr>last_result := x\<rparr>) = same_settings c c'"
  by (simp add: same_settings_def)

text \<open>One call: the cache stays sound, a model result is a live read and the new last result, anything else is flagged.\<close>

lemma fit_predict_step:
  assumes "hmm_fit_predict env fit arr isr c = (r, c')" "cache_ok fit c"
  shows "cache_ok fit c' \<and> same_settings c c' \<and>
    (provenance r = ''model'' \<and> converged r \<and> live_read env fit c (if isr then arr else np_log_returns env arr) r \<and> last_result c' = Some r \<or>
     provenance r = ''fallback'' \<and> \<not> converged r \<and> last_result c' = last_result c)"
proof (cases "try_classify env fit (if isr then arr else np_log_returns env arr) c")
  case (Pair out c1)
  let ?rs = "if isr then arr else np_log_returns env arr"
  have frame: "cache_ok fit c1 \<and> same_settings c c1 \<and> (case out of
      Inl _ \<Rightarrow> last_result c1 = last_result c
    | Inr x \<Rightarrow> provenance x = ''model'' \<and> converged x \<and> live_read env fit c ?rs x \<and> last_result c1 = Some x \<or>
        provenance x = ''fallback'' \<and> \<not> converged x \<and> last_result c1 = last_result c)"
  proof (cases "\<exists>X m F. usable_features env c ?rs = ok X \<and> model_for fit c X = ok (Some m) \<and>
      forward_filtered_posterior env m X = ok F \<and> \<not> degenerate env F")
    case True
    then obtain X m F where X: "usable_features env c ?rs = ok X" and m: "model_for fit c X = ok (Some m)"
      and F: "forward_filtered_posterior env m X = ok F" "\<not> degenerate env F" by blast
    obtain k s where ks: "s \<in> {random_state c, random_state c + 1}" "fit (n_components c) s (take k X) = ok (m, True)"
      "cache_matches c X \<and> cached_model c = Some m \<or> \<not> cache_matches c X \<and> take k X = X"
      using model_for_ok [OF m assms(2)] by blast
    have "cache_ok fit (remember_fit m X c)" "same_settings c (remember_fit m X c)" "last_result (remember_fit m X c) = last_result c"
      using ks assms(2) by (auto simp: remember_fit_def cache_ok_def same_settings_def)
    moreover have "live_read env fit c ?rs x" if "model_result (n_components c) m (last F) = ok x" for x
      unfolding live_read_def using X F ks that by blast
    ultimately show ?thesis
      using Pair X m F by (auto simp: try_classify_def Let_def dest: model_result_model split: sum.splits)
  next
    case False
    then have "c1 = c \<and> (case out of Inl _ \<Rightarrow> True | Inr x \<Rightarrow> x = last_known_fallback c)"
      using Pair by (auto simp: try_classify_def Let_def split: sum.splits option.splits if_splits)
    then show ?thesis using assms(2) by (auto simp: same_settings_def split: sum.splits)
  qed
  then show ?thesis
    using assms Pair by (auto simp: hmm_fit_predict_def Let_def same_settings_def split: if_splits sum.splits)
qed

section \<open>Sessions\<close>

definition new_hmm :: "nat \<Rightarrow> int \<Rightarrow> int \<Rightarrow> hmm_classifier" where
  "new_hmm n history seed = default_hmm\<lparr>n_components := n, min_history_length := history, random_state := seed\<rparr>"

datatype hmm_call = Classify "pyfloat list" bool | Invalidate

text \<open>The results of the calls, each beside the returns it was computed from.\<close>

fun hmm_session :: "('a np_env_scheme) \<Rightarrow> fitter \<Rightarrow> hmm_call list \<Rightarrow> hmm_classifier \<Rightarrow> (pyfloat list \<times> hmm_regime) list \<times> hmm_classifier" where
  "hmm_session env fit [] c = ([], c)"
| "hmm_session env fit (Invalidate # calls) c = hmm_session env fit calls (invalidate_model_cache c)"
| "hmm_session env fit (Classify arr isr # calls) c = (case hmm_fit_predict env fit arr isr c of (r, c1) \<Rightarrow>
     (case hmm_session env fit calls c1 of (rs, c2) \<Rightarrow> ((if isr then arr else np_log_returns env arr, r) # rs, c2)))"

lemma live_read_settings: "same_settings c c' \<Longrightarrow> live_read env fit c' = live_read env fit c"
  by (intro ext) (simp add: live_read_def usable_features_def same_settings_def)

lemma same_settings_trans: "same_settings c c' \<Longrightarrow> same_settings c' c'' \<Longrightarrow> same_settings c c''"
  by (simp add: same_settings_def)

definition honest_read :: "('a np_env_scheme) \<Rightarrow> fitter \<Rightarrow> hmm_classifier \<Rightarrow> pyfloat list \<times> hmm_regime \<Rightarrow> bool" where
  "honest_read env fit c x = (case x of (returns, r) \<Rightarrow>
     if provenance r = ''model'' then converged r \<and> live_read env fit c returns r else provenance r = ''fallback'' \<and> \<not> converged r)"

lemma honest_read_settings: "same_settings c c' \<Longrightarrow> honest_read env fit c' = honest_read env fit c"
  by (intro ext) (simp add: honest_read_def live_read_settings)

lemma session_honest:
  "cache_ok fit c \<Longrightarrow> list_all (honest_read env fit c) (fst (hmm_session env fit calls c))"
proof (induction env fit calls c rule: hmm_session.induct)
  case (2 env fit calls c)
  have "same_settings (invalidate_model_cache c) c" "cache_ok fit (invalidate_model_cache c)"
    by (simp_all add: same_settings_def invalidate_model_cache_def cache_ok_def)
  with 2 show ?case by (simp add: honest_read_settings)
next
  case (3 env fit arr isr calls c)
  obtain r c1 where 1: "hmm_fit_predict env fit arr isr c = (r, c1)" by (cases "hmm_fit_predict env fit arr isr c")
  obtain rs c2 where 2: "hmm_session env fit calls c1 = (rs, c2)" by (cases "hmm_session env fit calls c1")
  note step = fit_predict_step [OF 1 3(2)]
  then have "list_all (honest_read env fit c1) rs" using 3(1) [OF 1 [symmetric]] 2 by simp
  moreover have "honest_read env fit c1 = honest_read env fit c"
    using step honest_read_settings by blast
  moreover have "honest_read env fit c (if isr then arr else np_log_returns env arr, r)"
    using step by (auto simp: honest_read_def)
  ultimately show ?case using 1 2 by simp
qed simp

text \<open>In every session of a fresh classifier, cache invalidations included, a result is flagged as an estimate of the model only if
  a fit with one of the two seeds converged on a prefix of the features of that call, the causal posterior of those features passed the
  gate, and the regime is read from its last row; every other result is flagged as a fallback that did not converge.\<close>

theorem model_reads_are_live:
  "list_all (honest_read env fit (new_hmm n history seed)) (fst (hmm_session env fit calls (new_hmm n history seed)))"
  by (rule session_honest) (simp add: new_hmm_def default_hmm_def cache_ok_def)

section \<open>A fit on a feed that only grows\<close>

lemma np_diff_append: "\<exists>zs. np_diff (xs @ ys) = np_diff xs @ zs"
proof (induction xs)
  case (Cons x xs)
  then show ?case by (cases xs; cases ys) simp_all
qed simp

lemma feature_row_append: "i < length rs \<Longrightarrow> feature_row env (rs @ later) i = feature_row env rs i"
  by (simp add: feature_row_def rolling_std_def nth_append)

lemma build_features_append:
  assumes "build_features env rs = ok X" "build_features env (rs @ later) = ok Y"
  shows "take (length X) Y = X"
proof -
  have len: "5 \<le> length rs" and X: "X = drop 4 (map (feature_row env rs) [0..<length rs])"
    and Y: "Y = drop 4 (map (feature_row env (rs @ later)) [0..<length (rs @ later)])"
    using assms by (auto simp: build_features_def Let_def split: if_splits)
  show ?thesis
    unfolding X Y using len by (intro nth_equalityI) (simp_all add: feature_row_append add.commute)
qed

lemma feq_rows_refl: "list_all (list_all is_finite) X \<Longrightarrow> list_all2 (list_all2 feq) X X"
  by (auto simp: list_all_iff feq_def is_finite_def intro!: list.rel_refl_strong split: pyfloat.splits)

lemma cache_matches_extend:
  assumes "cached_model c = Some m" "cached_feature_rows c = Some R" "prefix R Y" "list_all (list_all is_finite) Y"
  shows "cache_matches c Y"
proof -
  obtain zs where Y: "Y = R @ zs" using assms(3) by (auto elim: prefixE)
  then have "list_all2 (list_all2 feq) R R" using assms(4) by (intro feq_rows_refl) simp
  then show ?thesis using assms(1,2) Y by (simp add: cache_matches_def)
qed

lemma cached_try_ignores_fit:
  assumes "\<And>Y. usable_features env c returns = ok Y \<Longrightarrow> cache_matches c Y"
  shows "try_classify env fit' returns c = try_classify env fit returns c \<and> cached_model (snd (try_classify env fit returns c)) = cached_model c"
  using assms by (auto simp: try_classify_def model_for_def remember_fit_def Let_def split: sum.split option.split)

lemma try_classify_cases:
  assumes "try_classify env fit returns c = (ok r, c')"
  shows "r = last_known_fallback c \<or> (\<exists>X m. usable_features env c returns = ok X \<and> model_for fit c X = ok (Some m) \<and>
    c' = (remember_fit m X c)\<lparr>last_result := Some r\<rparr>)"
  using assms by (auto simp: try_classify_def Let_def split: sum.splits option.splits if_splits)

lemma model_result_cached:
  assumes "hmm_fit_predict env fit arr isr c = (r, c')" "provenance r = ''model''"
  shows "\<exists>X m R. usable_features env c (if isr then arr else np_log_returns env arr) = ok X \<and> cached_model c' = Some m \<and>
    cached_feature_rows c' = Some R \<and> prefix R X \<and> n_components c' = n_components c"
proof -
  let ?rs = "if isr then arr else np_log_returns env arr"
  have t: "try_classify env fit ?rs c = (ok r, c')"
    using assms by (auto simp: hmm_fit_predict_def Let_def split: if_splits prod.splits sum.splits)
  have "r \<noteq> last_known_fallback c" using assms(2) by auto
  then obtain X m where X: "usable_features env c ?rs = ok X" "model_for fit c X = ok (Some m)"
    "c' = (remember_fit m X c)\<lparr>last_result := Some r\<rparr>"
    using try_classify_cases [OF t] by blast
  show ?thesis
  proof (cases "cache_matches c X")
    case True
    then obtain R where "cached_feature_rows c = Some R" "take (length R) X = R"
      by (auto simp: cache_matches_def dest: rows_feq_eq split: option.splits)
    moreover have "cached_model c = Some m" using True X(2) by (simp add: model_for_def)
    ultimately show ?thesis using X True by (auto simp: remember_fit_def) (metis take_is_prefix)
  qed (use X in \<open>auto simp: remember_fit_def\<close>)
qed

text \<open>On a feed that only grows the first fit stays for good: once a call has returned a model estimate, a call on the same prices
  with any later prices appended is decided without fitting (whatever the fit would return) and keeps the cached model.\<close>

theorem appended_prices_never_refit:
  assumes "hmm_fit_predict env fit arr False c = (r, c')" "provenance r = ''model''"
  shows "hmm_fit_predict env fit' (arr @ later) False c' = hmm_fit_predict env fit (arr @ later) False c' \<and>
    cached_model (snd (hmm_fit_predict env fit (arr @ later) False c')) = cached_model c'"
proof -
  obtain X m R where X: "usable_features env c (np_log_returns env arr) = ok X" "cached_model c' = Some m" "cached_feature_rows c' = Some R"
    "prefix R X" "n_components c' = n_components c"
    using model_result_cached [OF assms] by auto
  obtain zs where zs: "np_log_returns env (arr @ later) = np_log_returns env arr @ zs"
    using np_diff_append [of "map (np_ln env) arr" "map (np_ln env) later"] by (auto simp: np_log_returns_def)
  have "cache_matches c' Y" if "usable_features env c' (np_log_returns env (arr @ later)) = ok Y" for Y
  proof (rule cache_matches_extend [OF X(2,3)])
    have b: "build_features env (np_log_returns env arr @ zs) = ok Y" "build_features env (np_log_returns env arr) = ok X"
      using that X(1) by (auto simp: usable_features_def zs rbind_eq_Inr split: if_splits)
    then show "list_all (list_all is_finite) Y" by (auto simp: build_features_def Let_def split: if_splits)
    show "prefix R Y"
      using build_features_append [OF b(2,1)] X(4) take_is_prefix [of "length X" Y] by (metis prefix_order.trans)
  qed
  then have "try_classify env fit' (np_log_returns env (arr @ later)) c' = try_classify env fit (np_log_returns env (arr @ later)) c' \<and>
      cached_model (snd (try_classify env fit (np_log_returns env (arr @ later)) c')) = cached_model c'"
    by (rule cached_try_ignores_fit)
  then show ?thesis by (auto simp: hmm_fit_predict_def Let_def split: prod.splits sum.splits)
qed

section \<open>An example\<close>

lemma alpha_rows_shape: "\<forall>e\<in>set es. length e = k \<Longrightarrow> a \<in> set (alpha_rows env lt prev es) \<Longrightarrow> length a = k"
  by (induction es arbitrary: prev) (auto simp: Let_def alpha_step_def)

lemma log_alpha_shape:
  assumes "length (startprob m) = k" "length (hm_means m) = k" "length (state_variances (covars m)) = k" "a \<in> set (log_alpha env m X)"
  shows "length a = k"
proof (cases X)
  case (Cons x xs)
  have "\<forall>e\<in>set (map (observation_log_likelihood env m) X). length e = k"
    using assms by (simp add: observation_log_likelihood_def)
  then have "\<forall>e\<in>set (map (observation_log_likelihood env m) xs). length e = k" "length (observation_log_likelihood env m x) = k"
    using Cons by simp_all
  with Cons assms show ?thesis by (auto simp: log_alpha_def Let_def dest!: alpha_rows_shape [rotated])
qed (use assms in \<open>simp add: log_alpha_def\<close>)

text \<open>A library whose posteriors weigh the three states alike, and a fit that converges at once.\<close>

definition even_env :: np_env where
  "even_env = \<lparr>np_ln = id, np_exp = (\<lambda>_. 1), np_std = (\<lambda>_. 0), np_sum = (\<lambda>_. 0), np_mean = (\<lambda>_. 1), np_logsumexp = (\<lambda>_. 0), np_pi = fl 3\<rparr>"

definition even_model :: hmm_model where
  "even_model = \<lparr>startprob = [1, 0, 0], transmat = [[1, 0, 0], [0, 1, 0], [0, 0, 1]], hm_means = [[1, 1], [0, 0], [0, 1]],
     covars = DiagCovars [[1, 1], [1, 1], [1, 1]]\<rparr>"

definition even_fit :: fitter where
  "even_fit n seed X = ok (even_model, True)"

lemma even_posterior: "X \<noteq> [] \<Longrightarrow> forward_filtered_posterior even_env even_model X = ok (replicate (length X) [1, 1, 1])"
proof -
  assume X: "X \<noteq> []"
  have "normalized even_env a = [1, 1, 1]" if "a \<in> set (log_alpha even_env even_model X)" for a
  proof -
    have "length a = 3" by (rule log_alpha_shape [OF _ _ _ that]) (simp_all add: even_model_def state_variances_def)
    then have "map (\<lambda>_. 1 :: pyfloat) a = [1, 1, 1]" by (simp add: numeral_3_eq_3 map_replicate_const)
    then show ?thesis by (simp add: normalized_def even_env_def)
  qed
  then have "map (normalized even_env) (log_alpha even_env even_model X) = replicate (length X) [1, 1, 1]"
    by (intro replicate_eqI [symmetric, THEN sym]) auto
  then show ?thesis using X by (simp add: forward_filtered_posterior_def even_model_def)
qed

lemma even_gate: "0 < n \<Longrightarrow> \<not> degenerate even_env (replicate n [1, 1, 1])"
proof -
  assume "0 < n"
  then have l: "last (replicate n [1, 1, 1]) = [1, 1, 1 :: pyfloat]" by simp
  have w: "map (\<lambda>k. np_mean even_env (np_column k (replicate n [1, 1, 1]))) [0..<length [1, 1, 1 :: pyfloat]] = [1, 1, 1]"
    by (simp add: even_env_def upt_rec)
  have f: "fl (1 / 10 ^ 8) \<le> 1" using fl_mono [of "1 / 10 ^ 8" 1] by simp
  have "is_finite 1" by (simp add: is_finite_def one_Fin)
  then show ?thesis unfolding degenerate_def l Let_def w using f by (simp only: filter.simps list.size list.pred_inject if_True) simp
qed

lemma even_result: "\<exists>r. model_result 3 even_model [1, 1, 1] = ok r \<and> provenance r = ''model''"
proof -
  have "length (hm_means even_model) = 3" by (simp add: even_model_def)
  then obtain b e c where al: "align_states 3 (hm_means even_model) = ok [(b, 0), (e, 1), (c, 2)]" "{b, e, c} = {0, 1, 2}"
    by (rule align_states_ok)
  have "b \<in> {0, 1, 2}" "e \<in> {0, 1, 2}" "c \<in> {0, 1, 2}" using al(2) by blast+
  then have "canonical_probs 3 [(b, 0), (e, 1), (c, 2)] [1, 1, 1] = [1, 1, 1 :: pyfloat]"
    by (auto simp: canonical_probs_def numeral_2_eq_2 numeral_3_eq_3)
  moreover have "fsum [1, 1, 1] = Fin 3"
    by (simp add: fsum_def fl_eval float_eval zero_Fin one_Fin minus_pyfloat_def is_finite_def ftruth_def Let_def)
  ultimately show ?thesis by (simp add: model_result_def al normalize_probs_def Let_def)
qed

lemma even_features: "usable_features even_env (new_hmm 3 0 42) (np_log_returns even_env (replicate 17 0)) = ok (replicate 12 [0, 0])"
proof -
  have r: "np_log_returns even_env (replicate 17 0) = replicate 16 0"
    by (simp add: np_log_returns_def even_env_def numeral_eq_Suc minus_pyfloat_def zero_Fin)
  have "map (feature_row even_env (replicate 16 0)) [0..<16] = replicate 16 [0, 0]"
    by (intro nth_equalityI) (simp_all add: feature_row_def rolling_std_def even_env_def)
  moreover have "list_all (list_all is_finite) (replicate 12 [0, 0])" by (simp add: list_all_iff is_finite_def zero_Fin)
  ultimately show ?thesis by (simp add: r usable_features_def build_features_def new_hmm_def default_hmm_def Let_def)
qed

lemma even_call: "\<exists>r c. hmm_fit_predict even_env even_fit (replicate 17 0) False (new_hmm 3 0 42) = (r, c) \<and> provenance r = ''model''"
proof -
  let ?c = "new_hmm 3 0 42" and ?X = "replicate 12 [0, 0 :: pyfloat]"
  obtain r where r: "model_result 3 even_model [1, 1, 1] = ok r" "provenance r = ''model''" using even_result by blast
  have m: "model_for even_fit ?c ?X = ok (Some even_model)"
    by (simp add: model_for_def cache_matches_def new_hmm_def default_hmm_def fit_with_convergence_check_def even_fit_def)
  have "forward_filtered_posterior even_env even_model ?X = ok (replicate 12 [1, 1, 1])" using even_posterior [of ?X] by simp
  moreover have "\<not> degenerate even_env (replicate 12 [1, 1, 1])" by (rule even_gate) simp
  moreover have "n_components ?c = 3" "min_history_length ?c = 0" by (simp_all add: new_hmm_def default_hmm_def)
  ultimately have "try_classify even_env even_fit (np_log_returns even_env (replicate 17 0)) ?c = (ok r, (remember_fit even_model ?X ?c)\<lparr>last_result := Some r\<rparr>)"
    using r m by (simp add: try_classify_def even_features Let_def)
  then show ?thesis using r(2) \<open>min_history_length ?c = 0\<close> by (simp add: hmm_fit_predict_def Let_def)
qed

theorem appended_prices_never_refit_witness:
  "case hmm_fit_predict even_env even_fit (replicate 17 0) False (new_hmm 3 0 42) of (r, c') \<Rightarrow>
    provenance r = ''model'' \<and>
    hmm_fit_predict even_env (\<lambda>_ _ _. raise (RuntimeError [])) (replicate 17 0 @ [1]) False c' =
      hmm_fit_predict even_env even_fit (replicate 17 0 @ [1]) False c' \<and>
    cached_model (snd (hmm_fit_predict even_env even_fit (replicate 17 0 @ [1]) False c')) = cached_model c'"
proof -
  obtain r c where rc: "hmm_fit_predict even_env even_fit (replicate 17 0) False (new_hmm 3 0 42) = (r, c)" "provenance r = ''model''"
    using even_call by blast
  show ?thesis
    using appended_prices_never_refit [OF rc, of "\<lambda>_ _ _. raise (RuntimeError [])" "[1]"] rc by simp
qed

end
