(* ===== verification/Tails.thy ===== *)
theory Tails
  imports Hmm Report
begin

text \<open>
  \<open>risk/garch.py\<close>, \<open>risk/evt.py\<close> and \<open>risk/copula.py\<close>: the volatility forecast, the tail risk and the pair dependency, with their
  fallbacks.  The fits (arch, scipy's generalized Pareto), quantiles, ranks and correlations are parameters.  The last section puts the
  classifier and these models into the heartbeat, whose models they are.
\<close>

section \<open>The library\<close>

record tail_env = np_env +
  np_quantile :: "pyfloat list \<Rightarrow> pyfloat \<Rightarrow> pyfloat"
  np_corrcoef :: "pyfloat list \<Rightarrow> pyfloat list \<Rightarrow> pyfloat"
  sp_spearman :: "pyfloat list \<Rightarrow> pyfloat list \<Rightarrow> pyfloat res"
  sp_rankdata :: "pyfloat list \<Rightarrow> pyfloat list"
  sp_gpd_fit :: "pyfloat list \<Rightarrow> (pyfloat \<times> pyfloat) res"
  m_pow :: "pyfloat \<Rightarrow> pyfloat \<Rightarrow> pyfloat res"
  m_log :: "pyfloat \<Rightarrow> pyfloat res"

text \<open>\<open>float(np.clip(x, lo, hi))\<close>.\<close>

definition np_clip :: "pyfloat \<Rightarrow> pyfloat \<Rightarrow> pyfloat \<Rightarrow> pyfloat" where
  "np_clip x lo hi = np_minimum (np_maximum x lo) hi"

text \<open>\<open>target / max(x, 1e-4)\<close>, clipped: the shape of both scale factors.\<close>

definition scale_for :: "pyfloat \<Rightarrow> pyfloat \<Rightarrow> pyfloat \<Rightarrow> pyfloat \<Rightarrow> pyfloat res" where
  "scale_for target x lo hi = rbind (fdiv target (pymax x (fl (1 / 10 ^ 4)))) (\<lambda>q. ok (np_clip q lo hi))"

text \<open>The returns of an input.\<close>

definition returns_of :: "('a np_env_scheme) \<Rightarrow> pyfloat list \<Rightarrow> bool \<Rightarrow> pyfloat list" where
  "returns_of env arr is_returns = (if is_returns then arr else np_log_returns env arr)"

section \<open>Volatility\<close>

record garch_model =
  target_annual_vol :: pyfloat
  high_vol_threshold_ann :: pyfloat
  garch_min_history :: int
  periods_per_year :: pyfloat

definition default_garch :: garch_model where
  "default_garch = \<lparr>target_annual_vol = fl (4/10), high_vol_threshold_ann = fl (65/100), garch_min_history = 30, periods_per_year = fl 365\<rparr>"

record garch_forecast = garch_result +
  annualized_volatility :: pyfloat
  omega :: pyfloat
  alpha :: pyfloat
  beta :: pyfloat
  persistence :: pyfloat
  unconditional_volatility :: pyfloat

text \<open>What the fit of the arch library answers: its parameters by name and the variance of the next step.\<close>

record arch_fit =
  arch_params :: "(string, pyfloat) dict"
  next_variance :: pyfloat

type_synonym arch_fitter = "pyfloat list \<Rightarrow> arch_fit res"

definition garch_fallback :: "('a np_env_scheme) \<Rightarrow> garch_model \<Rightarrow> pyfloat list \<Rightarrow> bool \<Rightarrow> garch_forecast res" where
  "garch_fallback env g arr is_returns = (if length arr < 2 then
      ok \<lparr>conditional_volatility = fl (2/100), garch_high_volatility = False, volatility_scale_factor = 1, annualized_volatility = fl (4/10),
        omega = 0, alpha = fl (5/100), beta = fl (9/10), persistence = fl (95/100), unconditional_volatility = fl (4/10)\<rparr>
    else (let returns = returns_of env arr is_returns; std = (if 1 < length returns then np_std env returns else fl (2/100)) in
      rbind (fsqrt (periods_per_year g)) (\<lambda>root. let ann = std * root in
      rbind (scale_for (target_annual_vol g) ann (fl (1/4)) (fl (3/2))) (\<lambda>s.
        ok \<lparr>conditional_volatility = std, garch_high_volatility = (high_vol_threshold_ann g \<le> ann), volatility_scale_factor = s,
          annualized_volatility = ann, omega = 0, alpha = fl (5/100), beta = fl (9/10), persistence = fl (95/100),
          unconditional_volatility = ann\<rparr>))))"

definition unconditional :: "garch_model \<Rightarrow> pyfloat \<Rightarrow> pyfloat \<Rightarrow> pyfloat \<Rightarrow> pyfloat res" where
  "unconditional g ann om pers = (if pers < 1 \<and> fl (1 / 10 ^ 6) < 1 - pers then
      rbind (fdiv om (1 - pers)) (\<lambda>v. rbind (fsqrt v) (\<lambda>sd. rbind (fdiv sd (fl 100)) (\<lambda>d. rbind (fsqrt (periods_per_year g)) (\<lambda>root. ok (d * root)))))
    else ok ann)"

text \<open>The body of the \<open>try\<close>; \<open>None\<close> when the forecast variance is not a positive number.\<close>

definition garch_estimate :: "arch_fitter \<Rightarrow> garch_model \<Rightarrow> pyfloat list \<Rightarrow> garch_forecast option res" where
  "garch_estimate fit g returns = rbind (fit returns) (\<lambda>f.
    let om = dget_or (arch_params f) ''omega'' (fl (1/100)); al = dget_or (arch_params f) ''alpha[1]'' (fl (5/100));
        be = dget_or (arch_params f) ''beta[1]'' (fl (9/10)); pers = al + be in
    if next_variance f = NaN \<or> next_variance f \<le> 0 then ok None else
    rbind (fsqrt (next_variance f)) (\<lambda>sd. rbind (fdiv sd (fl 100)) (\<lambda>sigma. rbind (fsqrt (periods_per_year g)) (\<lambda>root.
      let ann = sigma * root in
    rbind (unconditional g ann om pers) (\<lambda>uncond.
    rbind (scale_for (target_annual_vol g) ann (fl (1/4)) (fl (3/2))) (\<lambda>s.
      ok (Some \<lparr>conditional_volatility = sigma, garch_high_volatility = (high_vol_threshold_ann g \<le> ann), volatility_scale_factor = s,
        annualized_volatility = ann, omega = om, alpha = al, beta = be, persistence = pers, unconditional_volatility = uncond\<rparr>)))))))"

definition garch_fit_forecast :: "('a np_env_scheme) \<Rightarrow> arch_fitter \<Rightarrow> garch_model \<Rightarrow> pyfloat list \<Rightarrow> bool \<Rightarrow> garch_forecast res" where
  "garch_fit_forecast env fit g arr is_returns =
    (let returns = map (\<lambda>r. r * fl 100) (returns_of env arr is_returns); fallback = garch_fallback env g arr is_returns in
     if int (length arr) < garch_min_history g \<or> int (length returns) < garch_min_history g - 1 then fallback
     else (case garch_estimate fit g returns of Inr (Some r) \<Rightarrow> ok r | _ \<Rightarrow> fallback))"

section \<open>Tail risk\<close>

record evt_engine =
  threshold_quantile :: pyfloat
  evt_min_samples :: int
  target_tail_var_cap :: pyfloat

definition default_evt :: evt_engine where
  "default_evt = \<lparr>threshold_quantile = fl (9/10), evt_min_samples = 50, target_tail_var_cap = fl (5/100)\<rparr>"

record evt_risk = evt_result +
  var_95 :: pyfloat
  var_99 :: pyfloat
  shape_xi :: pyfloat
  scale_beta :: pyfloat
  threshold_u :: pyfloat
  num_exceedances :: nat
  is_heavy_tailed :: bool

definition losses_of :: "pyfloat list \<Rightarrow> pyfloat list" where
  "losses_of returns = map uminus (filter (\<lambda>r. r < 0) returns)"

definition empirical_tail :: "('a tail_env_scheme) \<Rightarrow> pyfloat list \<Rightarrow> pyfloat \<times> pyfloat \<times> pyfloat" where
  "empirical_tail env losses = (if losses = [] then (fl (2/100), fl (4/100), fl (5/100)) else
     (let v95 = np_quantile env losses (fl (95/100));
          v99 = (if 100 \<le> length losses then np_quantile env losses (fl (99/100)) else v95 * fl (13/10));
          beyond = filter (\<lambda>l. v95 \<le> l) losses;
          cv = (if beyond \<noteq> [] then np_mean env beyond else v99 * fl (12/10))
      in (v95, v99, pymax cv v99)))"

definition evt_fallback :: "('a tail_env_scheme) \<Rightarrow> evt_engine \<Rightarrow> pyfloat list \<Rightarrow> bool \<Rightarrow> evt_risk res" where
  "evt_fallback env e arr is_returns = (if length arr < 2 then
      ok \<lparr>cvar_99 = fl (5/100), recommended_risk_scale = 1, var_95 = fl (2/100), var_99 = fl (4/100), shape_xi = fl (15/100),
        scale_beta = fl (1/100), threshold_u = fl (15/1000), num_exceedances = 5, is_heavy_tailed = True\<rparr>
    else (let losses = losses_of (returns_of env arr is_returns) in case empirical_tail env losses of (v95, v99, cv) \<Rightarrow>
      rbind (scale_for (target_tail_var_cap e) cv (fl (2/10)) (fl (125/100))) (\<lambda>s.
        ok \<lparr>cvar_99 = cv, recommended_risk_scale = s, var_95 = v95, var_99 = v99, shape_xi = fl (15/100), scale_beta = fl (1/100),
          threshold_u = v95, num_exceedances = length losses, is_heavy_tailed = True\<rparr>)))"

definition calc_evt_var :: "('a tail_env_scheme) \<Rightarrow> pyfloat \<Rightarrow> pyfloat \<Rightarrow> pyfloat \<Rightarrow> pyfloat \<Rightarrow> pyfloat \<Rightarrow> pyfloat res" where
  "calc_evt_var env xi be u ratio al =
    (if \<not> feq xi 0 then (let term = ratio * al in
        if term \<le> 0 then ok u
        else rbind (fdiv be xi) (\<lambda>q. rbind (m_pow env term (- xi)) (\<lambda>p. ok (u + q * (p - 1)))))
     else rbind (m_log env (ratio * al)) (\<lambda>l. ok (u - be * l)))"

text \<open>The body of the \<open>try\<close>; \<open>None\<close> when too few losses exceed the threshold.\<close>

definition evt_estimate :: "('a tail_env_scheme) \<Rightarrow> evt_engine \<Rightarrow> pyfloat list \<Rightarrow> pyfloat list \<Rightarrow> evt_risk option res" where
  "evt_estimate env e returns losses =
    (let u = np_quantile env losses (threshold_quantile e); exceed = map (\<lambda>l. l - u) (filter (\<lambda>l. u < l) losses); n = length exceed in
     if n < 8 then ok None else
     rbind (sp_gpd_fit env exceed) (\<lambda>fit. case fit of (xi, be) \<Rightarrow>
     rbind (fdiv (float_of_int (int (length returns))) (float_of_int (int n))) (\<lambda>ratio.
     rbind (calc_evt_var env xi be u ratio (fl (5/100))) (\<lambda>a. let v95 = pymax a u in
     rbind (calc_evt_var env xi be u ratio (fl (1/100))) (\<lambda>b. let v99 = pymax b v95 in
     rbind (if xi < 1 then fdiv (v99 + be - xi * u) (1 - xi) else ok (v99 * fl (15/10))) (\<lambda>c. let cv = pymax c v99 in
     rbind (scale_for (target_tail_var_cap e) cv (fl (2/10)) (fl (125/100))) (\<lambda>s.
       ok (Some \<lparr>cvar_99 = cv, recommended_risk_scale = s, var_95 = v95, var_99 = v99, shape_xi = xi, scale_beta = be, threshold_u = u,
         num_exceedances = n, is_heavy_tailed = (fl (1/10) < xi)\<rparr>))))))))"

definition evt_estimate_tail_risk :: "('a tail_env_scheme) \<Rightarrow> evt_engine \<Rightarrow> pyfloat list \<Rightarrow> bool \<Rightarrow> evt_risk res" where
  "evt_estimate_tail_risk env e arr is_returns =
    (let returns = returns_of env arr is_returns; losses = losses_of returns; fallback = evt_fallback env e arr is_returns in
     if int (length arr) < evt_min_samples e \<or> length losses < 20 then fallback
     else (case evt_estimate env e returns losses of Inr (Some r) \<Rightarrow> ok r | _ \<Rightarrow> fallback))"

section \<open>Pair dependency\<close>

record copula_engine =
  tail_dependence_threshold :: pyfloat
  cop_min_samples :: int

definition default_copula :: copula_engine where
  "default_copula = \<lparr>tail_dependence_threshold = fl (6/10), cop_min_samples = 50\<rparr>"

datatype copula_type = Clayton | Gumbel | StudentT | Gaussian

record copula_dependency =
  asset_pair :: "string \<times> string"
  linear_correlation :: pyfloat
  rank_correlation :: pyfloat
  lower_tail_dependence :: pyfloat
  upper_tail_dependence :: pyfloat
  copula_family :: copula_type
  is_co_dependent_crash :: bool
  recommended_cluster_cap :: pyfloat

text \<open>\<open>np.corrcoef\<close> refuses series of different lengths.\<close>

definition corrcoef :: "('a tail_env_scheme) \<Rightarrow> pyfloat list \<Rightarrow> pyfloat list \<Rightarrow> pyfloat res" where
  "corrcoef env xs ys = (if length xs = length ys then ok (np_corrcoef env xs ys) else raise (ValueError ''all the input array dimensions must match''))"

definition cluster_cap :: "bool \<Rightarrow> pyfloat" where
  "cluster_cap crash = (if crash then fl (4/100) else fl (8/100))"

definition copula_fallback :: "('a tail_env_scheme) \<Rightarrow> string \<Rightarrow> string \<Rightarrow> pyfloat list \<Rightarrow> pyfloat list \<Rightarrow> copula_dependency res" where
  "copula_fallback env a b ra rb =
    rbind (if 1 < length ra \<and> 1 < length rb then corrcoef env ra rb else ok (fl (1/2))) (\<lambda>c. let crash = fl (7/10) \<le> c in
      ok \<lparr>asset_pair = (a, b), linear_correlation = c, rank_correlation = c, lower_tail_dependence = c * fl (8/10),
        upper_tail_dependence = c * fl (8/10), copula_family = Gaussian, is_co_dependent_crash = crash, recommended_cluster_cap = cluster_cap crash\<rparr>)"

text \<open>The ranks scaled to the unit interval and the share of joint exceedances over the tail's size.\<close>

definition to_uniform :: "('a tail_env_scheme) \<Rightarrow> pyfloat list \<Rightarrow> pyfloat list" where
  "to_uniform env xs = map (\<lambda>r. ndiv r (float_of_int (int (length xs)) + 1)) (sp_rankdata env xs)"

definition tail_dependence :: "(pyfloat \<Rightarrow> bool) \<Rightarrow> pyfloat list \<Rightarrow> pyfloat list \<Rightarrow> pyfloat" where
  "tail_dependence P u v = np_clip (ndiv (ndiv (float_of_int (int (length (filter (\<lambda>(x, y). P x \<and> P y) (zip u v)))))
     (float_of_int (int (length u)))) (fl (1/10))) 0 1"

definition copula_family_of :: "pyfloat \<Rightarrow> pyfloat \<Rightarrow> copula_type" where
  "copula_family_of lo up = (if up + fl (1/10) < lo then Clayton else if lo + fl (1/10) < up then Gumbel
     else if \<bar>lo - up\<bar> < fl (1/10) \<and> fl (3/10) < lo then StudentT else Gaussian)"

definition last_common :: "nat \<Rightarrow> 'a list \<Rightarrow> 'a list" where
  "last_common n xs = (if n = 0 then xs else drop (length xs - n) xs)"

definition copula_estimate :: "('a tail_env_scheme) \<Rightarrow> copula_engine \<Rightarrow> string \<Rightarrow> string \<Rightarrow> pyfloat list \<Rightarrow> pyfloat list \<Rightarrow> copula_dependency res" where
  "copula_estimate env e a b ra rb = rbind (corrcoef env ra rb) (\<lambda>pearson. rbind (sp_spearman env ra rb) (\<lambda>spearman.
    let u = to_uniform env ra; v = to_uniform env rb; lo = tail_dependence (\<lambda>x. x \<le> fl (1/10)) u v;
        up = tail_dependence (\<lambda>x. 1 - fl (1/10) \<le> x) u v; crash = tail_dependence_threshold e \<le> lo in
      ok \<lparr>asset_pair = (a, b), linear_correlation = pearson, rank_correlation = spearman, lower_tail_dependence = lo,
        upper_tail_dependence = up, copula_family = copula_family_of lo up, is_co_dependent_crash = crash,
        recommended_cluster_cap = cluster_cap crash\<rparr>))"

definition analyze_pair_dependency :: "('a tail_env_scheme) \<Rightarrow> copula_engine \<Rightarrow> string \<Rightarrow> string \<Rightarrow> pyfloat list \<Rightarrow> pyfloat list
    \<Rightarrow> copula_dependency res" where
  "analyze_pair_dependency env e a b ra rb = (let n = min (length ra) (length rb) in
     if int n < cop_min_samples e then copula_fallback env a b ra rb
     else (case copula_estimate env e a b (last_common n ra) (last_common n rb) of
        Inr r \<Rightarrow> ok r | Inl _ \<Rightarrow> copula_fallback env a b (last_common n ra) (last_common n rb)))"

section \<open>Scale factors are bounded\<close>

lemma np_clip_range: "lo \<le> hi \<Longrightarrow> np_clip x lo hi = NaN \<or> (lo \<le> np_clip x lo hi \<and> np_clip x lo hi \<le> hi)"
  by (auto simp: np_clip_def np_minimum_def np_maximum_def not_less_pyfloat less_le_pyfloat le_refl_pyfloat dest: le_not_nan
      intro: le_trans_pyfloat less_le_pyfloat)

lemma np_clip_nan: "lo \<le> hi \<Longrightarrow> np_clip x lo hi = NaN \<longleftrightarrow> x = NaN"
  by (auto simp: np_clip_def np_minimum_def np_maximum_def dest: le_not_nan)

lemma floor_pos: "0 < pymax x (fl (1 / 10 ^ 4)) \<or> pymax x (fl (1 / 10 ^ 4)) = NaN"
proof -
  have p: "(0 :: pyfloat) < fl (1 / 10 ^ 4)" by (simp add: fl_eval float_eval zero_Fin)
  show ?thesis
  proof (cases "x = NaN \<or> x < fl (1 / 10 ^ 4)")
    case False
    then show ?thesis using p by (auto simp: pymax_def not_less_pyfloat intro: less_le_trans_pyfloat)
  qed (use p in \<open>auto simp: pymax_def\<close>)
qed

lemma scale_for_ok: "lo \<le> hi \<Longrightarrow> \<exists>s. scale_for target x lo hi = ok s \<and> (s = NaN \<or> lo \<le> s \<and> s \<le> hi)"
proof -
  assume "lo \<le> hi"
  have "\<exists>q. fdiv target (pymax x (fl (1 / 10 ^ 4))) = ok q"
    using floor_pos [of x] by (auto intro: fdiv_pos_ok)
  then show ?thesis using np_clip_range [OF \<open>lo \<le> hi\<close>] by (auto simp: scale_for_def)
qed

lemma scale_for_nan:
  assumes "lo \<le> hi" "is_finite target" "scale_for target x lo hi = ok s"
  shows "s = NaN \<longleftrightarrow> x = NaN"
proof -
  let ?d = "pymax x (fl (1 / 10 ^ 4))"
  have d: "?d = NaN \<longleftrightarrow> x = NaN" by (auto simp: pymax_def dest: less_not_nan)
  have "q = NaN \<longleftrightarrow> ?d = NaN" if "fdiv target ?d = ok q" for q
    using that assms(2) floor_pos [of x] by (cases ?d; cases target) (auto simp: is_finite_def zero_Fin split: if_splits)
  then show ?thesis using assms d np_clip_nan [OF assms(1)] by (auto simp: scale_for_def rbind_eq_Inr)
qed

lemma clip_bounds: "fl (1/4) \<le> fl (3/2)" "fl (2/10) \<le> fl (125/100)"
  by (rule fl_mono, simp)+

definition bounded_or_nan :: "pyfloat \<Rightarrow> pyfloat \<Rightarrow> pyfloat \<Rightarrow> bool" where
  "bounded_or_nan lo hi s \<longleftrightarrow> s = NaN \<or> (lo \<le> s \<and> s \<le> hi)"

text \<open>What a scale computed from \<open>x\<close> satisfies.\<close>

lemma scale_for_bounded:
  "lo \<le> hi \<Longrightarrow> is_finite target \<Longrightarrow> scale_for target x lo hi = ok s \<Longrightarrow> bounded_or_nan lo hi s \<and> (s = NaN \<longleftrightarrow> x = NaN)"
  using scale_for_ok [of lo hi target x] scale_for_nan [of lo hi target x s] by (auto simp: bounded_or_nan_def)

lemma default_targets: "is_finite (target_annual_vol default_garch)" "is_finite (target_tail_var_cap default_evt)"
  by (simp_all add: default_garch_def default_evt_def is_finite_def fl_eval float_eval)

lemma root_of_year: "\<exists>r. fsqrt (periods_per_year default_garch) = ok r"
  using fsqrt_nonneg_ok [of "fl 365"] fl_nonneg [of 365] by (auto simp: default_garch_def)

definition garch_sound :: "garch_forecast \<Rightarrow> bool" where
  "garch_sound r \<longleftrightarrow> bounded_or_nan (fl (1/4)) (fl (3/2)) (volatility_scale_factor r) \<and>
     (volatility_scale_factor r = NaN \<longleftrightarrow> annualized_volatility r = NaN)"

definition evt_sound :: "evt_risk \<Rightarrow> bool" where
  "evt_sound r \<longleftrightarrow> bounded_or_nan (fl (2/10)) (fl (125/100)) (recommended_risk_scale r) \<and>
     (recommended_risk_scale r = NaN \<longleftrightarrow> cvar_99 r = NaN)"

lemma one_in_bounds: "bounded_or_nan (fl (1/4)) (fl (3/2)) 1" "bounded_or_nan (fl (2/10)) (fl (125/100)) 1"
  using fl_mono [of "1/4" 1] fl_mono [of 1 "3/2"] fl_mono [of "2/10" 1] fl_mono [of 1 "125/100"] by (simp_all add: bounded_or_nan_def)

lemma garch_fallback_sound: "\<exists>r. garch_fallback env default_garch arr b = ok r \<and> garch_sound r"
proof (cases "length arr < 2")
  case True
  then show ?thesis using one_in_bounds(1) by (simp add: garch_fallback_def garch_sound_def one_Fin)
next
  case False
  obtain root where r: "fsqrt (periods_per_year default_garch) = ok root" using root_of_year by blast
  define ann where "ann = (if 1 < length (returns_of env arr b) then np_std env (returns_of env arr b) else fl (2/100)) * root"
  obtain s where s: "scale_for (target_annual_vol default_garch) ann (fl (1/4)) (fl (3/2)) = ok s"
    using scale_for_ok [OF clip_bounds(1)] by blast
  note sound = scale_for_bounded [OF clip_bounds(1) default_targets(1) s]
  show ?thesis using False r s sound by (simp add: garch_fallback_def garch_sound_def Let_def ann_def)
qed

lemma garch_estimate_sound: "garch_estimate fit default_garch returns = ok (Some r) \<Longrightarrow> garch_sound r"
  by (auto simp: garch_estimate_def garch_sound_def Let_def rbind_eq_Inr split: if_splits
      dest: scale_for_bounded [OF clip_bounds(1) default_targets(1)])

lemma evt_fallback_sound: "\<exists>r. evt_fallback env default_evt arr b = ok r \<and> evt_sound r"
proof (cases "length arr < 2")
  case True
  then show ?thesis using one_in_bounds(2) by (simp add: evt_fallback_def evt_sound_def one_Fin)
next
  case False
  obtain v95 v99 cv where e: "empirical_tail env (losses_of (returns_of env arr b)) = (v95, v99, cv)" by (metis surj_pair)
  obtain s where s: "scale_for (target_tail_var_cap default_evt) cv (fl (2/10)) (fl (125/100)) = ok s"
    using scale_for_ok [OF clip_bounds(2)] by blast
  show ?thesis
    using False e s scale_for_bounded [OF clip_bounds(2) default_targets(2) s] by (simp add: evt_fallback_def evt_sound_def Let_def)
qed

lemma evt_estimate_sound: "evt_estimate env default_evt returns losses = ok (Some r) \<Longrightarrow> evt_sound r"
  by (auto simp: evt_estimate_def evt_sound_def Let_def rbind_eq_Inr split: if_splits
      dest: scale_for_bounded [OF clip_bounds(2) default_targets(2), simplified])

text \<open>The volatility and the tail model always answer, whatever the prices are and whatever their libraries return or raise, and
  their scale factors stay within their documented clips, from 0.25 to 1.5 and from 0.2 to 1.25; the one way out is NaN, which a
  factor is exactly when the volatility or the tail loss behind it is.\<close>

theorem risk_scales_are_bounded:
  "case (garch_fit_forecast env afit default_garch arr b, evt_estimate_tail_risk env default_evt arr b) of
     (Inr g, Inr e) \<Rightarrow> garch_sound g \<and> evt_sound e
   | _ \<Rightarrow> False"
proof -
  obtain r where r: "garch_fallback env default_garch arr b = ok r" "garch_sound r" using garch_fallback_sound by blast
  obtain e where e: "evt_fallback env default_evt arr b = ok e" "evt_sound e" using evt_fallback_sound by blast
  have "\<exists>g. garch_fit_forecast env afit default_garch arr b = ok g \<and> garch_sound g"
    using r by (auto simp: garch_fit_forecast_def Let_def dest: garch_estimate_sound split: sum.split option.split)
  moreover have "\<exists>t. evt_estimate_tail_risk env default_evt arr b = ok t \<and> evt_sound t"
    using e by (auto simp: evt_estimate_tail_risk_def Let_def dest: evt_estimate_sound split: sum.split option.split)
  ultimately show ?thesis by (elim exE conjE) simp
qed

text \<open>A factor of NaN is a volatility that is not flagged as high, and the risk per trade it scales passes every cap.\<close>

lemma nan_volatility_disarms:
  assumes "2 \<le> length arr" "int (length arr) < 30" "np_std env (returns_of env arr b) = NaN" "1 < length (returns_of env arr b)"
  shows "\<exists>g. garch_fit_forecast env afit default_garch arr b = ok g \<and> volatility_scale_factor g = NaN \<and> \<not> garch_high_volatility g"
proof -
  obtain root where r: "fsqrt (periods_per_year default_garch) = ok root" using root_of_year by blast
  obtain s where s: "scale_for (target_annual_vol default_garch) NaN (fl (1/4)) (fl (3/2)) = ok s"
    using scale_for_ok [OF clip_bounds(1)] by blast
  have "s = NaN" using scale_for_nan [OF clip_bounds(1) default_targets(1) s] by simp
  then show ?thesis
    using assms r s by (simp add: garch_fit_forecast_def garch_fallback_def Let_def default_garch_def)
qed

section \<open>Dependencies\<close>

lemma tail_dependence_range: "tail_dependence P u v = NaN \<or> (0 \<le> tail_dependence P u v \<and> tail_dependence P u v \<le> 1)"
  unfolding tail_dependence_def by (rule np_clip_range) (simp add: zero_Fin one_Fin)

text \<open>The fallback's tail probabilities are negative for assets that move against each other.\<close>

lemma fallback_probability_negative:
  "\<exists>r. copula_fallback (env\<lparr>np_corrcoef := (\<lambda>_ _. - 1)\<rparr>) a b [x, y] [p, q] = ok r \<and> lower_tail_dependence r < 0"
  by (simp add: copula_fallback_def corrcoef_def Let_def fl_eval float_eval zero_Fin one_Fin)

text \<open>Short series of different lengths make the analysis raise: the lengths are only cut to the shorter one afterwards.\<close>

lemma short_unequal_series_raise:
  assumes "length ra \<noteq> length rb" "1 < length ra" "1 < length rb" "int (min (length ra) (length rb)) < cop_min_samples e"
  shows "\<exists>x. analyze_pair_dependency env e a b ra rb = raise x"
  using assms by (simp add: analyze_pair_dependency_def copula_fallback_def corrcoef_def Let_def)

section \<open>The heartbeat's models\<close>

definition risk_models :: "('a tail_env_scheme) \<Rightarrow> fitter \<Rightarrow> arch_fitter \<Rightarrow> hmm_classifier models" where
  "risk_models env fit afit =
    \<lparr>fit_forecast = (\<lambda>prices c. (map_sum id garch_result.truncate (garch_fit_forecast env afit default_garch prices False), c)),
     fit_predict = (\<lambda>prices c. (case hmm_fit_predict env fit prices False c of (r, c1) \<Rightarrow> (ok (hmm_full.truncate r), c1))),
     estimate_tail_risk = (\<lambda>prices c. (map_sum id evt_result.truncate (evt_estimate_tail_risk env default_evt prices False), c))\<rparr>"

lemma models_answer:
  obtains g e where "garch_fit_forecast env afit default_garch arr b = ok g" "evt_estimate_tail_risk env default_evt arr b = ok e"
proof -
  obtain r where r: "garch_fallback env default_garch arr b = ok r" using garch_fallback_sound by blast
  obtain e where e: "evt_fallback env default_evt arr b = ok e" using evt_fallback_sound by blast
  have "\<exists>g. garch_fit_forecast env afit default_garch arr b = ok g" "\<exists>t. evt_estimate_tail_risk env default_evt arr b = ok t"
    using r e by (auto simp: garch_fit_forecast_def evt_estimate_tail_risk_def Let_def split: sum.split option.split)
  then show ?thesis using that by blast
qed

lemma survive_models: "survive inp g h e (hb, w) = (r, (hb1, w1)) \<Longrightarrow>
    hb_models hb1 = hb_models hb \<and> hb_bandit hb1 = hb_bandit hb"
  by (auto dest: survive_frame)

lemma entries_models: "entries gen prices strat status garch account hb = (r, hb1) \<Longrightarrow> hb_models hb1 = hb_models hb"
  by (auto dest: entries_frame)

text \<open>A full cycle asks the classifier once; whatever else happens, its result is the one the cycle reports
  and the one whose context the strategy is chosen with.\<close>

lemma full_cycle_models:
  assumes "full_cycle (risk_models env fit afit) inp gen prices (hb, w) = (out, (hb', w'))"
    "h = hmm_full.truncate (fst (hmm_fit_predict env fit prices False (hb_models hb)))"
  shows "hb_models hb' = snd (hmm_fit_predict env fit prices False (hb_models hb)) \<and>
    (case out of Inl _ \<Rightarrow> True | Inr res \<Rightarrow> cr_hmm res = Some h \<and>
       select_strategy (ci_exp inp) (bandit_context h) False (ci_draw inp) (hb_bandit hb) = ok (active_strategy res))"
proof -
  obtain g e where ge: "garch_fit_forecast env afit default_garch prices False = ok g"
    "evt_estimate_tail_risk env default_evt prices False = ok e" by (rule models_answer)
  obtain r c1 where c: "hmm_fit_predict env fit prices False (hb_models hb) = (r, c1)" by force
  obtain st hb1 w1 where s: "survive inp (Some (garch_result.truncate g)) (Some (hmm_full.truncate r)) (Some (evt_result.truncate e))
      (hb\<lparr>hb_models := c1\<rparr>, w) = (st, (hb1, w1))" by (metis surj_pair)
  have m: "hb_models hb1 = c1" "hb_bandit hb1 = hb_bandit hb" using survive_models [OF s] by simp_all
  show ?thesis
    using assms m ge c s
    by (auto simp: full_cycle_def abind_apply run_model_def risk_models_def split: sum.splits prod.splits dest: entries_models)
qed

lemma warned_frame: "hb_models (warn_insufficient_data hb) = hb_models hb" "history_of (warn_insufficient_data hb) = history_of hb"
  "primary_symbol (warn_insufficient_data hb) = primary_symbol hb" "hb_bandit (warn_insufficient_data hb) = hb_bandit hb"
  by (simp_all add: warn_insufficient_data_def history_of_def primary_symbol_def fun_eq_iff)

text \<open>C31: The strategy is only ever chosen on a live regime: in a cycle of the heartbeat with its own models that returns, either the
  buffer was too short, no classifier was read and no strategy is chosen; or the classifier's answer is a live read of the primary symbol's
  buffer, that is a model that converged on a prefix of the buffer's features with a posterior that passed the gate, and the strategy
  is what \<open>select_strategy\<close> chooses in the context of its probabilities; or it is not marked as the model's, and the strategy is what
  \<open>select_strategy\<close> chooses without any context, so the probabilities of a fallback have no part in it.  The classifier's cache
  stays sound for the next cycle, whatever raises.\<close>

theorem bandit_sees_live_regimes_only:
  assumes "cache_ok fit (hb_models hb)"
  shows "case tick_cycle (risk_models env fit afit) inp gen (hb, w) of (out, (hb', w')) \<Rightarrow> cache_ok fit (hb_models hb') \<and>
    (case out of Inl _ \<Rightarrow> True | Inr res \<Rightarrow>
      cr_hmm res = None \<and> active_strategy res = [] \<or>
      (\<exists>r. live_read env fit (hb_models hb) (np_log_returns env (history_of hb (primary_symbol hb))) r \<and>
        cr_hmm res = Some (hmm_full.truncate r) \<and>
        select_strategy (ci_exp inp) (Some (state_probabilities r)) False (ci_draw inp) (hb_bandit hb) = ok (active_strategy res)) \<or>
      (\<exists>h. cr_hmm res = Some h \<and> provenance h \<noteq> ''model'' \<and>
        select_strategy (ci_exp inp) None False (ci_draw inp) (hb_bandit hb) = ok (active_strategy res)))"
proof (cases "tick_cycle (risk_models env fit afit) inp gen (hb, w)")
  case (fields out hb' w')
  define hb1 where "hb1 = warn_insufficient_data (hb\<lparr>hb_cycles := hb_cycles hb + 1\<rparr>)"
  have frame: "hb_models hb1 = hb_models hb" "hb_bandit hb1 = hb_bandit hb" "history_of hb1 = history_of hb"
    "primary_symbol hb1 = primary_symbol hb"
    by (simp_all add: hb1_def warned_frame) (simp_all add: history_of_def primary_symbol_def warn_insufficient_data_def fun_eq_iff)
  let ?prices = "history_of hb (primary_symbol hb)"
  show ?thesis
  proof (cases "int (length ?prices) < hb_min_buffer hb1")
    case True
    then have "hb_models hb' = hb_models hb \<and>
        (case out of Inl _ \<Rightarrow> True | Inr res \<Rightarrow> cr_hmm res = None \<and> active_strategy res = [])"
      using fields frame
      by (auto simp: tick_cycle_def Let_def abind_apply simp flip: hb1_def split: prod.splits sum.splits dest: survive_models)
    then show ?thesis using assms fields by (auto split: sum.splits)
  next
    case False
    then have full: "full_cycle (risk_models env fit afit) inp gen ?prices (hb1, w) = (out, (hb', w'))"
      using fields frame by (simp add: tick_cycle_def Let_def flip: hb1_def)
    obtain r c1 where c: "hmm_fit_predict env fit ?prices False (hb_models hb) = (r, c1)" by force
    note m = full_cycle_models [OF full refl, unfolded frame, unfolded c fst_conv snd_conv]
    note step = fit_predict_step [OF c assms]
    show ?thesis
    proof (cases "provenance r = ''model''")
      case True
      then show ?thesis using fields m step by (auto simp: bandit_context_def hmm_full.defs split: sum.splits)
    next
      case False
      then show ?thesis using fields m step by (auto simp: bandit_context_def hmm_full.defs split: sum.splits)
    qed
  qed
qed

definition even_tails :: tail_env where
  "even_tails = np_env.extend even_env \<lparr>np_quantile = (\<lambda>_ _. 0), np_corrcoef = (\<lambda>_ _. 0), sp_spearman = (\<lambda>_ _. ok 0), sp_rankdata = id,
     sp_gpd_fit = (\<lambda>_. raise (RuntimeError [])), m_pow = (\<lambda>_ _. ok 1), m_log = ok\<rparr>"

definition sample_heartbeat :: "hmm_classifier heartbeat" where
  "sample_heartbeat = \<lparr>hb_symbols = [''BTC/USDT''], hb_engine = demo_engine, hb_survival = sample_survival, hb_last_logged_tier = SvNORMAL,
     hb_min_buffer = 1, hb_data_warned = {}, hb_models = default_hmm, hb_graph = empty_graph, hb_bandit = demo_bandit, hb_running = False,
     hb_cycles = 0, hb_history = [(''BTC/USDT'', replicate 50 (Fin 100))]\<rparr>"

theorem bandit_sees_live_regimes_only_witness:
  "case tick_cycle (risk_models even_tails even_fit (\<lambda>_. raise (RuntimeError []))) calm_input None (sample_heartbeat, empty_world) of
     (out, (hb', w')) \<Rightarrow> cache_ok even_fit (hb_models hb') \<and>
       (case out of Inl _ \<Rightarrow> True | Inr res \<Rightarrow>
         cr_hmm res = None \<and> active_strategy res = [] \<or>
         (\<exists>ctx. select_strategy (ci_exp calm_input) ctx False (ci_draw calm_input) demo_bandit = ok (active_strategy res)))"
proof -
  have "cache_ok even_fit (hb_models sample_heartbeat)" "hb_bandit sample_heartbeat = demo_bandit"
    by (simp_all add: cache_ok_def default_hmm_def sample_heartbeat_def)
  then show ?thesis
    using bandit_sees_live_regimes_only [OF \<open>cache_ok even_fit (hb_models sample_heartbeat)\<close>, where env = even_tails and
        afit = "\<lambda>_. raise (RuntimeError [])" and inp = calm_input and gen = None and w = empty_world]
    by (fastforce split: prod.splits sum.splits)
qed

end
