(* ===== verification/Feed.thy ===== *)
theory Feed
  imports Heartbeat
begin

text \<open>
  \<open>data/websocket_feed.py\<close> and \<open>data/quality.py\<close>: the bounded candle buffer, the watch and poll loops with their reconnect delays, and
  the checks of a candle frame.  What the exchange answers and when the stop flag is set is the list of rounds a loop runs through.
\<close>

section \<open>Reconnect delays\<close>

definition DEFAULT_BACKOFF_START_S :: pyfloat where
  "DEFAULT_BACKOFF_START_S = 1"

definition DEFAULT_BACKOFF_MAX_S :: pyfloat where
  "DEFAULT_BACKOFF_MAX_S = fl 60"

text \<open>\<open>2 ** attempt\<close> is an integer: its conversion to a float overflows from \<open>2 ** 1024\<close> on.\<close>

definition compute_backoff :: "int \<Rightarrow> pyfloat \<Rightarrow> pyfloat \<Rightarrow> pyfloat res" where
  "compute_backoff attempt start_s max_s = (let k = nat attempt in
     if 1024 \<le> k then raise OverflowError else ok (pymin (start_s * fl (2 ^ k)) max_s))"

section \<open>The buffer\<close>

record 'c heartbeat_buffer =
  hbuf :: "'c list"
  hmax :: nat
  hdropped :: nat

definition new_buffer :: "nat \<Rightarrow> 'c heartbeat_buffer" where
  "new_buffer n = \<lparr>hbuf = [], hmax = n, hdropped = 0\<rparr>"

text \<open>Appending to a full deque sheds its oldest element; a deque of size 0 keeps nothing.\<close>

definition deque_append :: "nat \<Rightarrow> 'c \<Rightarrow> 'c list \<Rightarrow> 'c list" where
  "deque_append n x xs = (if n = 0 then [] else if length xs = n then tl xs @ [x] else xs @ [x])"

definition push :: "'c \<Rightarrow> 'c heartbeat_buffer \<Rightarrow> 'c heartbeat_buffer" where
  "push x b = b\<lparr>hbuf := deque_append (hmax b) x (hbuf b), hdropped := (if length (hbuf b) = hmax b then hdropped b + 1 else hdropped b)\<rparr>"

definition extend_buffer :: "'c list \<Rightarrow> 'c heartbeat_buffer \<Rightarrow> 'c heartbeat_buffer" where
  "extend_buffer xs b = fold push xs b"

definition drain :: "'c heartbeat_buffer \<Rightarrow> 'c list \<times> 'c heartbeat_buffer" where
  "drain b = (hbuf b, b\<lparr>hbuf := []\<rparr>)"

section \<open>The loops\<close>

datatype 'c received = Received "'c list" | ReceiveFailed | ReceiveCancelled

text \<open>One round: the flag at the head of the loop, the answer, and whether the flag is set while the loop sleeps.\<close>

record 'c round =
  stop_at_head :: bool
  answer :: "'c received"
  stop_in_sleep :: bool

datatype loop_end = Stopped | Cancelled | Crashed pyerr | StillRunning

record 'c ws_state =
  fs_attempt :: int
  fs_buffer :: "'c heartbeat_buffer"
  fs_delays :: "pyfloat list"

text \<open>The delay after a failure, as the handler computes it: an exception there leaves the loop.\<close>

definition after_failure :: "pyfloat \<Rightarrow> pyfloat \<Rightarrow> ('c ws_state, unit) act" where
  "after_failure start_s max_s s = (case compute_backoff (fs_attempt s) start_s max_s of
     Inl e \<Rightarrow> (Inl e, s)
   | Inr d \<Rightarrow> (ok (), s\<lparr>fs_attempt := fs_attempt s + 1, fs_delays := fs_delays s @ [d]\<rparr>))"

fun watch_ohlcv_loop :: "pyfloat \<Rightarrow> pyfloat \<Rightarrow> 'c round list \<Rightarrow> 'c ws_state \<Rightarrow> loop_end \<times> 'c ws_state" where
  "watch_ohlcv_loop start_s max_s [] s = (StillRunning, s)"
| "watch_ohlcv_loop start_s max_s (r # rs) s = (if stop_at_head r then (Stopped, s) else (case answer r of
     ReceiveCancelled \<Rightarrow> (Cancelled, s)
   | Received cs \<Rightarrow> watch_ohlcv_loop start_s max_s rs (s\<lparr>fs_attempt := 0, fs_buffer := extend_buffer cs (fs_buffer s)\<rparr>)
   | ReceiveFailed \<Rightarrow> (case after_failure start_s max_s s of
       (Inl e, s1) \<Rightarrow> (Crashed e, s1)
     | (Inr _, s1) \<Rightarrow> if stop_in_sleep r then (Stopped, s1) else watch_ohlcv_loop start_s max_s rs s1)))"

text \<open>The candles a poll pushes: the closed ones, or the only one there is.  A candle is its open time and the rest; the open time of the
  last one is the next \<open>since\<close>, which the answers of the rounds already reflect.\<close>

type_synonym 'r candle_row = "int \<times> 'r"

definition closed_part :: "'r candle_row list \<Rightarrow> 'r candle_row list" where
  "closed_part cs = (let closed = (if 1 < length cs then butlast cs else []) in if closed \<noteq> [] then closed else cs)"

definition next_since :: "'r candle_row list \<Rightarrow> int option \<Rightarrow> int option" where
  "next_since cs since = (if cs = [] then since else Some (fst (last cs)))"

fun poll_ohlcv_loop :: "pyfloat \<Rightarrow> pyfloat \<Rightarrow> 'r candle_row round list \<Rightarrow> int option \<Rightarrow> 'r candle_row ws_state
    \<Rightarrow> loop_end \<times> int option \<times> 'r candle_row ws_state" where
  "poll_ohlcv_loop start_s max_s [] since s = (StillRunning, since, s)"
| "poll_ohlcv_loop start_s max_s (r # rs) since s = (if stop_at_head r then (Stopped, since, s) else (case answer r of
     ReceiveCancelled \<Rightarrow> (Cancelled, since, s)
   | Received cs \<Rightarrow> (let s1 = s\<lparr>fs_attempt := 0, fs_buffer := extend_buffer (closed_part cs) (fs_buffer s)\<rparr>; since1 = next_since cs since in
       if stop_in_sleep r then (Stopped, since1, s1) else poll_ohlcv_loop start_s max_s rs since1 s1)
   | ReceiveFailed \<Rightarrow> (case after_failure start_s max_s s of
       (Inl e, s1) \<Rightarrow> (Crashed e, since, s1)
     | (Inr _, s1) \<Rightarrow> if stop_in_sleep r then (Stopped, since, s1) else poll_ohlcv_loop start_s max_s rs since s1)))"

definition fresh_feed :: "nat \<Rightarrow> 'c ws_state" where
  "fresh_feed n = \<lparr>fs_attempt = 0, fs_buffer = new_buffer n, fs_delays = []\<rparr>"

section \<open>Frame checks\<close>

record ohlcv_bar =
  br_open :: pyfloat
  br_high :: pyfloat
  br_low :: pyfloat
  br_close :: pyfloat
  br_volume :: pyfloat

text \<open>A frame: its column names, its time index if it has one, the \<open>timestamp\<close> column and the rows of the price columns.\<close>

record ohlcv_frame =
  fr_columns :: "string list"
  fr_index :: "int list option"
  fr_stamps :: "int list"
  fr_bars :: "ohlcv_bar list"

datatype frame_error = MissingColumns | HighBelowLow nat | OpenOutside nat | CloseOutside nat | NegativeVolume nat

datatype frame_refusal = EmptyFrame | DuplicateStamps "int list" | PriceViolations "frame_error list" | NonPositiveMark nat

text \<open>The values that occur before, in the order of their second occurrence.\<close>

fun duplicated :: "int list \<Rightarrow> int set \<Rightarrow> int list" where
  "duplicated [] seen = []"
| "duplicated (x # xs) seen = (if x \<in> seen then x # duplicated xs seen else duplicated xs (insert x seen))"

definition uniques :: "int list \<Rightarrow> int list" where
  "uniques xs = rev (remdups (rev xs))"

definition detect_duplicate_timestamps :: "ohlcv_frame \<Rightarrow> int list" where
  "detect_duplicate_timestamps df = (case fr_index df of
     Some idx \<Rightarrow> uniques (duplicated idx {})
   | None \<Rightarrow> if ''timestamp'' \<in> set (fr_columns df) then uniques (duplicated (fr_stamps df) {}) else [])"

definition bars_where :: "(ohlcv_bar \<Rightarrow> bool) \<Rightarrow> ohlcv_frame \<Rightarrow> nat" where
  "bars_where P df = length (filter P (fr_bars df))"

definition outside :: "(ohlcv_bar \<Rightarrow> pyfloat) \<Rightarrow> ohlcv_bar \<Rightarrow> bool" where
  "outside f b \<longleftrightarrow> br_high b < f b \<or> f b < br_low b"

text \<open>Column names are ASCII.\<close>

definition lower_columns :: "string list \<Rightarrow> string set" where
  "lower_columns cols = set (map (map lower_char) cols)"

definition check_price_consistency :: "ohlcv_frame \<Rightarrow> frame_error list" where
  "check_price_consistency df = (let cols = lower_columns (fr_columns df);
       crossed = bars_where (\<lambda>b. br_high b < br_low b) df; opens = bars_where (outside br_open) df;
       closes = bars_where (outside br_close) df; negative = bars_where (\<lambda>b. br_volume b < 0) df in
     if \<not> {''open'', ''high'', ''low'', ''close''} \<subseteq> cols then [MissingColumns]
     else (if 0 < crossed then [HighBelowLow crossed] else []) @ (if 0 < opens then [OpenOutside opens] else []) @
       (if 0 < closes then [CloseOutside closes] else []) @
       (if ''volume'' \<in> cols \<and> 0 < negative then [NegativeVolume negative] else []))"

definition validate_ohlcv :: "ohlcv_frame \<Rightarrow> frame_refusal option" where
  "validate_ohlcv df = (if fr_bars df = [] \<or> fr_columns df = [] then Some EmptyFrame
     else (let dups = detect_duplicate_timestamps df; errors = check_price_consistency df in
       if dups \<noteq> [] then Some (DuplicateStamps (take 5 dups)) else if errors \<noteq> [] then Some (PriceViolations errors) else None))"

record funding_frame =
  ff_columns :: "string list"
  ff_index :: "int list option"
  ff_stamps :: "int list"
  ff_marks :: "pyfloat list"

definition validate_funding :: "funding_frame \<Rightarrow> frame_refusal option" where
  "validate_funding df =
    (let dups = detect_duplicate_timestamps \<lparr>fr_columns = ff_columns df, fr_index = ff_index df, fr_stamps = ff_stamps df, fr_bars = []\<rparr>;
         bad = length (filter (\<lambda>m. m \<le> 0) (ff_marks df)) in
     if ff_marks df = [] \<or> ff_columns df = [] then Some EmptyFrame
     else if \<not> {''funding_rate'', ''mark_price''} \<subseteq> lower_columns (ff_columns df) then Some (PriceViolations [MissingColumns])
     else if dups \<noteq> [] then Some (DuplicateStamps (take 5 dups))
     else if 0 < bad then Some (NonPositiveMark bad) else None)"

section \<open>The buffer accounts for every candle\<close>

datatype 'c buffer_op = Push 'c | Drain

fun buffer_session :: "'c buffer_op list \<Rightarrow> 'c heartbeat_buffer \<Rightarrow> 'c list \<times> 'c heartbeat_buffer" where
  "buffer_session [] b = ([], b)"
| "buffer_session (Push x # ops) b = buffer_session ops (push x b)"
| "buffer_session (Drain # ops) b = (case drain b of (out, b1) \<Rightarrow> (case buffer_session ops b1 of (outs, b2) \<Rightarrow> (out @ outs, b2)))"

text \<open>The specification: an unbounded queue.  What is pushed between two drains is a segment, the last one still open, and
  of a segment the newest \<open>n\<close> candles are kept.\<close>

fun push_segments :: "'c buffer_op list \<Rightarrow> 'c list list" where
  "push_segments [] = [[]]"
| "push_segments (Push x # ops) = (x # hd (push_segments ops)) # tl (push_segments ops)"
| "push_segments (Drain # ops) = [] # push_segments ops"

definition newest_of :: "nat \<Rightarrow> 'c list \<Rightarrow> 'c list" where
  "newest_of n xs = drop (length xs - n) xs"

definition shed_count :: "nat \<Rightarrow> 'c list \<Rightarrow> nat" where
  "shed_count n xs = length xs - n"

lemma segments_nonempty [simp]: "push_segments ops \<noteq> []"
  by (cases ops rule: push_segments.cases) auto

lemma newest_Nil [simp]: "newest_of n [] = []" "shed_count n [] = 0"
  by (simp_all add: newest_of_def shed_count_def)

lemma length_newest: "length (newest_of n xs) = min n (length xs)"
  by (simp add: newest_of_def)

text \<open>A push onto the newest candles of a segment keeps the newest of the longer segment.\<close>

lemma deque_append_newest: "deque_append n x (newest_of n xs) = newest_of n (xs @ [x])"
proof (cases "n \<le> length xs")
  case True
  then have "tl (drop (length xs - n) xs) = drop (Suc (length xs) - n) xs"
    by (simp add: tl_drop Suc_diff_le flip: drop_Suc)
  then show ?thesis using True by (simp add: deque_append_def newest_of_def Suc_diff_le)
qed (simp add: deque_append_def newest_of_def)

definition buffer_holds :: "nat \<Rightarrow> 'c list \<Rightarrow> nat \<Rightarrow> 'c heartbeat_buffer \<Rightarrow> bool" where
  "buffer_holds n xs k b \<longleftrightarrow> b = \<lparr>hbuf = newest_of n xs, hmax = n, hdropped = k + shed_count n xs\<rparr>"

lemma holds_new: "buffer_holds n [] 0 (new_buffer n)"
  by (simp add: buffer_holds_def new_buffer_def)

lemma holds_push: "buffer_holds n xs k b \<Longrightarrow> buffer_holds n (xs @ [x]) k (push x b)"
  by (auto simp: buffer_holds_def push_def deque_append_newest length_newest shed_count_def)

lemma holds_extend: "buffer_holds n xs k b \<Longrightarrow> buffer_holds n (xs @ ys) k (extend_buffer ys b)"
proof (induction ys arbitrary: xs b)
  case (Cons y ys)
  then show ?case using holds_push [OF Cons.prems, of y] by (fastforce simp: extend_buffer_def)
qed (simp add: extend_buffer_def)

lemma holds_drain: "buffer_holds n xs k b \<Longrightarrow> \<exists>b1. drain b = (newest_of n xs, b1) \<and> buffer_holds n [] (k + shed_count n xs) b1"
  by (auto simp: buffer_holds_def drain_def)

lemma sum_list_butlast: "xs \<noteq> [] \<Longrightarrow> sum_list (map f xs) = sum_list (map f (butlast xs)) + (f (last xs) :: nat)"
  by (induction xs rule: rev_induct) simp_all

lemma session_segments:
  assumes "buffer_holds n xs k b" "buffer_session ops b = (out, b')"
  shows "let segs = (xs @ hd (push_segments ops)) # tl (push_segments ops) in
    out = concat (map (newest_of n) (butlast segs)) \<and>
    buffer_holds n (last segs) (k + sum_list (map (shed_count n) (butlast segs))) b'"
  using assms
proof (induction ops arbitrary: b xs k out rule: push_segments.induct)
  case (2 x ops)
  then show ?case using "2.IH" [OF holds_push [OF "2.prems"(1), of x], of out] by simp
next
  case (3 ops)
  obtain b1 where d: "drain b = (newest_of n xs, b1)" "buffer_holds n [] (k + shed_count n xs) b1"
    using holds_drain [OF "3.prems"(1)] by blast
  obtain outs where "buffer_session ops b1 = (outs, b')" "out = newest_of n xs @ outs"
    using "3.prems"(2) d(1) by (auto split: prod.splits)
  then show ?case using "3.IH" [OF d(2)] by (simp add: add.assoc Let_def)
qed simp

text \<open>C32: The buffer is a queue that sheds its oldest: over any pushes and drains, every drain hands out exactly the newest
  \<open>n\<close> candles of those pushed since the drain before, in the order they were pushed, the buffer holds exactly the newest \<open>n\<close>
  pushed since the last drain, and the drop counter is the number of candles that were beyond the newest \<open>n\<close> of their segment.\<close>

theorem buffer_accounts_for_every_candle:
  "buffer_session ops (new_buffer n) =
    (concat (map (\<lambda>seg. drop (length seg - n) seg) (butlast (push_segments ops))),
     \<lparr>hbuf = drop (length (last (push_segments ops)) - n) (last (push_segments ops)), hmax = n,
      hdropped = sum_list (map (\<lambda>seg. length seg - n) (push_segments ops))\<rparr>)"
proof -
  obtain out b where s: "buffer_session ops (new_buffer n) = (out, b)" by force
  have "sum_list (map (shed_count n) (push_segments ops)) =
      sum_list (map (shed_count n) (butlast (push_segments ops))) + shed_count n (last (push_segments ops))"
    by (rule sum_list_butlast) simp
  then show ?thesis
    using session_segments [OF holds_new s] s
    by (simp add: Let_def buffer_holds_def newest_of_def [abs_def] shed_count_def [abs_def])
qed

text \<open>With no drop counted nothing is missing: what was drained and what is buffered is all that was pushed, in order.\<close>

definition pushed :: "'c buffer_op list \<Rightarrow> 'c list" where
  "pushed ops = concat (map (\<lambda>p. case p of Push x \<Rightarrow> [x] | Drain \<Rightarrow> []) ops)"

lemma concat_segments: "concat (push_segments ops) = pushed ops"
proof (induction ops rule: push_segments.induct)
  case (2 x ops)
  then show ?case by (cases "push_segments ops") (simp_all add: pushed_def)
qed (simp_all add: pushed_def)

section \<open>The feed and outages\<close>

definition failed :: "'c round \<Rightarrow> bool" where
  "failed r \<longleftrightarrow> \<not> stop_at_head r \<and> answer r = ReceiveFailed"

text \<open>The candles of a sequence of rounds, and where and how a loop over rounds has ended.\<close>

definition received_in :: "'c round list \<Rightarrow> 'c list" where
  "received_in rs = concat (map (\<lambda>r. case answer r of Received cs \<Rightarrow> cs | _ \<Rightarrow> []) rs)"

definition ended_at :: "'c round list \<Rightarrow> nat \<Rightarrow> loop_end \<Rightarrow> bool" where
  "ended_at rs k how \<longleftrightarrow> (case how of
     StillRunning \<Rightarrow> k = length rs
   | Stopped \<Rightarrow> k < length rs \<and> (stop_at_head (rs ! k) \<or> failed (rs ! k) \<and> stop_in_sleep (rs ! k))
   | Cancelled \<Rightarrow> k < length rs \<and> \<not> stop_at_head (rs ! k) \<and> answer (rs ! k) = ReceiveCancelled
   | Crashed e \<Rightarrow> e = OverflowError \<and> 1024 \<le> k \<and> k < length rs \<and>
       list_all failed (drop (k - 1024) (take (k + 1) rs)))"

lemma received_in_snoc [simp]:
  "received_in (rs @ [r]) = received_in rs @ (case answer r of Received cs \<Rightarrow> cs | _ \<Rightarrow> [])"
  by (simp add: received_in_def)

lemma backoff_range:
  assumes "compute_backoff k DEFAULT_BACKOFF_START_S DEFAULT_BACKOFF_MAX_S = ok d"
  shows "1 \<le> d \<and> d \<le> fl 60"
proof -
  have d: "d = pymin (1 * fl (2 ^ nat k)) (fl 60)" and k: "nat k < 1024"
    using assms by (auto simp: compute_backoff_def Let_def DEFAULT_BACKOFF_START_S_def DEFAULT_BACKOFF_MAX_S_def split: if_splits)
  have "(1 :: rat) \<le> 2 ^ nat k" by simp
  then have g: "1 \<le> fl (2 ^ nat k)" "1 \<le> fl 60" using fl_mono [of 1 "2 ^ nat k"] fl_mono [of 1 60] by simp_all
  have "(1 :: pyfloat) * fl (2 ^ nat k) = fl (2 ^ nat k)"
  proof -
    have "rnd64 (2 ^ nat k) = 2 ^ nat k" using rnd64_grid [of 1 "int (nat k)"] by (simp only: power_int_of_nat) simp
    moreover have "(2 :: rat) ^ nat k < 2 ^ 1024" using k by (rule power_strict_increasing) simp
    ultimately have "fl (2 ^ nat k) = Fin (2 ^ nat k)" by (intro fl_fixed) simp_all
    then show ?thesis by (simp add: one_Fin)
  qed
  then show ?thesis using g by (auto simp: d pymin_def not_less_pyfloat less_le_pyfloat dest: le_not_nan intro: le_refl_pyfloat)
qed

text \<open>The state between two rounds of the watch loop, after the rounds \<open>past\<close>: the last \<open>fs_attempt\<close> of them failed.\<close>

definition watch_state :: "nat \<Rightarrow> 'c round list \<Rightarrow> 'c ws_state \<Rightarrow> bool" where
  "watch_state n past s \<longleftrightarrow> 0 \<le> fs_attempt s \<and> fs_attempt s \<le> 1024 \<and> buffer_holds n (received_in past) 0 (fs_buffer s) \<and>
     (\<forall>d\<in>set (fs_delays s). 1 \<le> d \<and> d \<le> fl 60) \<and>
     (\<exists>old h. past = old @ h \<and> int (length h) = fs_attempt s \<and> list_all failed h)"

lemma watching_received:
  assumes "watch_state n past s" "answer r = Received cs"
  shows "watch_state n (past @ [r]) (s\<lparr>fs_attempt := 0, fs_buffer := extend_buffer cs (fs_buffer s)\<rparr>)"
  using assms by (auto simp: watch_state_def holds_extend)

lemma watching_failed:
  assumes "watch_state n past s" "failed r"
    "compute_backoff (fs_attempt s) DEFAULT_BACKOFF_START_S DEFAULT_BACKOFF_MAX_S = ok d"
  shows "watch_state n (past @ [r]) (s\<lparr>fs_attempt := fs_attempt s + 1, fs_delays := fs_delays s @ [d]\<rparr>)"
proof -
  obtain old h where h: "past = old @ h" "int (length h) = fs_attempt s" "list_all failed h"
    using assms(1) by (auto simp: watch_state_def)
  have "past @ [r] = old @ (h @ [r])" "int (length (h @ [r])) = fs_attempt s + 1" "list_all failed (h @ [r])"
    using h assms(2) by simp_all
  moreover have "fs_attempt s < 1024"
    using assms(1,3) by (auto simp: watch_state_def compute_backoff_def Let_def split: if_splits)
  moreover have "received_in (past @ [r]) = received_in past" using assms(2) by (simp add: failed_def)
  ultimately show ?thesis using assms(1) backoff_range [OF assms(3)] by (fastforce simp: watch_state_def)
qed

lemma watching_overflow:
  assumes "watch_state n past s" "failed r"
    "compute_backoff (fs_attempt s) DEFAULT_BACKOFF_START_S DEFAULT_BACKOFF_MAX_S = Inl e"
  shows "ended_at (past @ r # rs) (length past) (Crashed e)"
proof -
  obtain old h where h: "past = old @ h" "int (length h) = fs_attempt s" "list_all failed h"
    using assms(1) by (auto simp: watch_state_def)
  have "fs_attempt s = 1024" "e = OverflowError"
    using assms(1,3) by (auto simp: watch_state_def compute_backoff_def Let_def split: if_splits)
  then show ?thesis using h assms(2) by (simp add: ended_at_def)
qed

lemma watch_from:
  assumes "watch_state n past s" "watch_ohlcv_loop DEFAULT_BACKOFF_START_S DEFAULT_BACKOFF_MAX_S rs s = (how, s')"
  shows "\<exists>k. ended_at (past @ rs) k how \<and> buffer_holds n (received_in (take k (past @ rs))) 0 (fs_buffer s') \<and>
    (\<forall>d\<in>set (fs_delays s'). 1 \<le> d \<and> d \<le> fl 60)"
  using assms
proof (induction rs arbitrary: past s)
  case Nil
  then show ?case by (intro exI [of _ "length past"]) (auto simp: ended_at_def watch_state_def)
next
  case (Cons r rs)
  have here: "buffer_holds n (received_in past) 0 (fs_buffer s)" "\<forall>d\<in>set (fs_delays s). 1 \<le> d \<and> d \<le> fl 60"
    using Cons.prems(1) by (simp_all add: watch_state_def)
  consider (stop) "stop_at_head r" | (cancel) "\<not> stop_at_head r" "answer r = ReceiveCancelled"
    | (recv) cs where "\<not> stop_at_head r" "answer r = Received cs" | (fail) "\<not> stop_at_head r" "answer r = ReceiveFailed"
    by (cases "answer r") blast+
  then show ?case
  proof cases
    case stop
    then show ?thesis using Cons.prems(2) here by (intro exI [of _ "length past"]) (auto simp: ended_at_def)
  next
    case cancel
    then show ?thesis using Cons.prems(2) here by (intro exI [of _ "length past"]) (auto simp: ended_at_def)
  next
    case recv
    then show ?thesis
      using Cons.IH [OF watching_received [OF Cons.prems(1) recv(2)]] Cons.prems(2) by simp
  next
    case fail
    then have f: "failed r" by (simp add: failed_def)
    show ?thesis
    proof (cases "compute_backoff (fs_attempt s) DEFAULT_BACKOFF_START_S DEFAULT_BACKOFF_MAX_S")
      case (Inl e)
      then show ?thesis
        using Cons.prems(2) here fail watching_overflow [OF Cons.prems(1) f Inl, of rs]
        by (intro exI [of _ "length past"]) (simp add: after_failure_def)
    next
      case (Inr d)
      note w = watching_failed [OF Cons.prems(1) f Inr]
      show ?thesis
      proof (cases "stop_in_sleep r")
        case True
        then show ?thesis
          using Cons.prems(2) here fail f Inr w
          by (intro exI [of _ "length past"]) (auto simp: after_failure_def ended_at_def watch_state_def)
      next
        case False
        then show ?thesis using Cons.IH [OF w] Cons.prems(2) fail Inr by (simp add: after_failure_def)
      qed
    qed
  qed
qed

text \<open>C33: The watch loop keeps reconnecting and delivers what it receives: with the default delays there is a round \<open>k\<close> at which it
  ended, which is the end of the rounds, a round that told it to stop (at its head, or in the sleep after a failure), a
  cancelled round, or, with an overflow in computing the delay, the last of 1025 rounds in a row that all failed; the
  buffer holds exactly the newest \<open>n\<close> of all candles received in the rounds before \<open>k\<close>, whatever failures lay between, with the
  others counted as dropped; and every delay is between 1 and 60 seconds.\<close>

theorem feed_survives_outages:
  "case watch_ohlcv_loop DEFAULT_BACKOFF_START_S DEFAULT_BACKOFF_MAX_S rs (fresh_feed n) of (how, s) \<Rightarrow>
    \<exists>k. (case how of
        StillRunning \<Rightarrow> k = length rs
      | Stopped \<Rightarrow> k < length rs \<and> (stop_at_head (rs ! k) \<or> failed (rs ! k) \<and> stop_in_sleep (rs ! k))
      | Cancelled \<Rightarrow> k < length rs \<and> \<not> stop_at_head (rs ! k) \<and> answer (rs ! k) = ReceiveCancelled
      | Crashed e \<Rightarrow> e = OverflowError \<and> 1024 \<le> k \<and> k < length rs \<and>
          list_all failed (drop (k - 1024) (take (k + 1) rs))) \<and>
      (let got = received_in (take k rs) in
        hbuf (fs_buffer s) = drop (length got - n) got \<and> hdropped (fs_buffer s) = length got - n) \<and>
      (\<forall>d\<in>set (fs_delays s). 1 \<le> d \<and> d \<le> fl 60)"
proof -
  obtain how s where w: "watch_ohlcv_loop DEFAULT_BACKOFF_START_S DEFAULT_BACKOFF_MAX_S rs (fresh_feed n) = (how, s)" by force
  have "watch_state n [] (fresh_feed n)"
    using holds_new by (auto simp: watch_state_def fresh_feed_def received_in_def)
  from watch_from [OF this w] show ?thesis
    by (auto simp: w ended_at_def buffer_holds_def newest_of_def shed_count_def Let_def)
qed

text \<open>Two candles, an outage, one more candle, and the stop: the buffer of two holds the last two.\<close>

definition outage_rounds :: "nat round list" where
  "outage_rounds =
    [\<lparr>stop_at_head = False, answer = Received [1, 2], stop_in_sleep = False\<rparr>,
     \<lparr>stop_at_head = False, answer = ReceiveFailed, stop_in_sleep = False\<rparr>,
     \<lparr>stop_at_head = False, answer = Received [3], stop_in_sleep = False\<rparr>,
     \<lparr>stop_at_head = True, answer = Received [4], stop_in_sleep = False\<rparr>]"

theorem feed_survives_outages_witness:
  "case watch_ohlcv_loop DEFAULT_BACKOFF_START_S DEFAULT_BACKOFF_MAX_S outage_rounds (fresh_feed 2) of (how, s) \<Rightarrow>
    how = Stopped \<and> hbuf (fs_buffer s) = [2, 3] \<and> hdropped (fs_buffer s) = 1 \<and> (\<forall>d\<in>set (fs_delays s). 1 \<le> d \<and> d \<le> fl 60)"
proof -
  obtain how s where w: "watch_ohlcv_loop DEFAULT_BACKOFF_START_S DEFAULT_BACKOFF_MAX_S outage_rounds (fresh_feed 2) = (how, s)" by force
  have how: "how = Stopped"
    using w by (auto simp: outage_rounds_def after_failure_def compute_backoff_def fresh_feed_def Let_def)
  obtain k where "k < length outage_rounds" "stop_at_head (outage_rounds ! k) \<or> stop_in_sleep (outage_rounds ! k)"
    "hbuf (fs_buffer s) = drop (length (received_in (take k outage_rounds)) - 2) (received_in (take k outage_rounds))"
    "hdropped (fs_buffer s) = length (received_in (take k outage_rounds)) - 2" "\<forall>d\<in>set (fs_delays s). 1 \<le> d \<and> d \<le> fl 60"
    using feed_survives_outages [of outage_rounds 2] unfolding w how by (auto simp: Let_def)
  moreover from this have "k = 3" by (auto simp: outage_rounds_def less_Suc_eq numeral_3_eq_3)
  ultimately show ?thesis using w how by (simp add: outage_rounds_def received_in_def numeral_3_eq_3)
qed

text \<open>An outage of that length does end the loop, with nothing told to stop.\<close>

lemma outage_kills_feed:
  assumes "fs_attempt s + int (length rs) = 1025" "0 \<le> fs_attempt s" "rs \<noteq> []" "\<forall>r\<in>set rs. failed r \<and> \<not> stop_in_sleep r"
  shows "fst (watch_ohlcv_loop start_s max_s rs s) = Crashed OverflowError"
  using assms
proof (induction rs arbitrary: s)
  case (Cons r rs)
  show ?case
  proof (cases rs)
    case Nil
    then show ?thesis using Cons.prems by (simp add: failed_def after_failure_def compute_backoff_def)
  next
    case (Cons r' rs')
    then have "fs_attempt s < 1024" using Cons.prems by simp
    then obtain d where "compute_backoff (fs_attempt s) start_s max_s = ok d"
      using Cons.prems(2) by (simp add: compute_backoff_def Let_def nat_less_iff not_le)
    then show ?thesis
      using Cons.prems Cons Cons.IH [of "s\<lparr>fs_attempt := fs_attempt s + 1, fs_delays := fs_delays s @ [d]\<rparr>"]
      by (simp add: failed_def after_failure_def)
  qed
qed simp

text \<open>A poll that sees only the forming candle pushes it, again at every round.\<close>

lemma forming_candle_repeats:
  "hbuf (fs_buffer (snd (snd (poll_ohlcv_loop start_s max_s (replicate 3 \<lparr>stop_at_head = False, answer = Received [(t, x)], stop_in_sleep = False\<rparr>)
     None (fresh_feed 10))))) = [(t, x), (t, x), (t, x)]"
  by (simp add: numeral_3_eq_3 fresh_feed_def new_buffer_def closed_part_def next_since_def extend_buffer_def push_def deque_append_def Let_def)

text \<open>NaN prices pass every check: a comparison with NaN is false.\<close>

lemma nan_frame_is_valid:
  "validate_ohlcv \<lparr>fr_columns = [''timestamp'', ''open'', ''high'', ''low'', ''close'', ''volume''], fr_index = None, fr_stamps = [0],
     fr_bars = [\<lparr>br_open = NaN, br_high = NaN, br_low = NaN, br_close = NaN, br_volume = NaN\<rparr>]\<rparr> = None"
  by (simp add: validate_ohlcv_def detect_duplicate_timestamps_def uniques_def check_price_consistency_def lower_columns_def lower_char_def
      bars_where_def outside_def Let_def)

end
