(* ===== verification/Ingest.thy ===== *)
theory Ingest
  imports Feed
begin

text \<open>
  \<open>data/pipeline.py\<close> and \<open>data/crypto.py\<close>: paging candles from an exchange, retries, gaps, and the insert that keeps the row already
  there.  The exchange is a function of the page number and the cursor; the table of candles is a map over its primary key.
\<close>

section \<open>Timeframes and gaps\<close>

definition TIMEFRAME_MS :: "(string \<times> int) list" where
  "TIMEFRAME_MS = [(''1m'', 60000), (''3m'', 180000), (''5m'', 300000), (''15m'', 900000), (''30m'', 1800000), (''1h'', 3600000),
     (''2h'', 7200000), (''4h'', 14400000), (''6h'', 21600000), (''8h'', 28800000), (''12h'', 43200000), (''1d'', 86400000)]"

definition unit_ms :: "(char \<times> int) list" where
  "unit_ms = [(CHR ''m'', 60000), (CHR ''h'', 3600000), (CHR ''d'', 86400000), (CHR ''w'', 604800000)]"

text \<open>\<open>parse\<close> is Python's \<open>int\<close> of a string.\<close>

definition expected_cadence_ms :: "(string \<Rightarrow> int option) \<Rightarrow> string \<Rightarrow> int res" where
  "expected_cadence_ms parse tf = (case map_of TIMEFRAME_MS tf of
     Some ms \<Rightarrow> ok ms
   | None \<Rightarrow> (case (if tf = [] then None else parse (butlast tf), if tf = [] then None else map_of unit_ms (last tf)) of
       (Some n, Some u) \<Rightarrow> ok (n * u)
     | _ \<Rightarrow> raise (ValueError ''unsupported timeframe'')))"

definition detect_gaps :: "int list \<Rightarrow> int \<Rightarrow> (int \<times> int) list" where
  "detect_gaps ts cadence = List.map_filter (\<lambda>(p, c). if cadence < c - p then Some (p + cadence, c) else None) (zip ts (tl ts))"

section \<open>The table\<close>

datatype db_error = UndefinedTable | OtherError pyerr

text \<open>\<open>SchemaMissingError\<close> is a \<open>RuntimeError\<close>.\<close>

definition schema_missing :: pyerr where
  "schema_missing = RuntimeError ''Relation is missing: the database schema is owned by Alembic''"

definition translate_missing_table :: "db_error + 'a \<Rightarrow> 'a res" where
  "translate_missing_table r = (case r of Inl UndefinedTable \<Rightarrow> raise schema_missing | Inl (OtherError e) \<Rightarrow> raise e | Inr x \<Rightarrow> ok x)"

record series =
  sr_exchange :: string
  sr_symbol :: string
  sr_class :: string
  sr_timeframe :: string

type_synonym candle_key = "string \<times> string \<times> string \<times> int"
type_synonym 'r candle_table = "candle_key \<Rightarrow> (string \<times> 'r) option"

definition key_of_candle :: "series \<Rightarrow> int \<Rightarrow> candle_key" where
  "key_of_candle sr t = (sr_exchange sr, sr_symbol sr, sr_timeframe sr, t)"

text \<open>\<open>ON CONFLICT DO NOTHING\<close>, for one row and for \<open>executemany\<close>.\<close>

definition insert_candle :: "series \<Rightarrow> 'r candle_row \<Rightarrow> 'r candle_table \<Rightarrow> 'r candle_table" where
  "insert_candle sr c tb = (let k = key_of_candle sr (fst c) in if tb k = None then tb(k \<mapsto> (sr_class sr, snd c)) else tb)"

definition store_ohlcv :: "series \<Rightarrow> 'r candle_row list \<Rightarrow> 'r candle_table \<Rightarrow> 'r candle_table" where
  "store_ohlcv sr cs tb = fold (insert_candle sr) cs tb"

section \<open>Paging into the table\<close>

record 'r ingest_env =
  ie_fetch :: "nat \<Rightarrow> int \<Rightarrow> db_error + 'r candle_row list"
  ie_pool :: "nat \<Rightarrow> db_error + int option"

record 'r ingest_state =
  ig_cursor :: int
  ig_stamps :: "int list"
  ig_stored :: int
  ig_pages :: nat
  ig_table :: "'r candle_table"

text \<open>The overlap guard: the candles newer than everything seen.\<close>

fun take_fresh :: "int list \<Rightarrow> 'r candle_row list \<Rightarrow> int list \<times> 'r candle_row list" where
  "take_fresh seen [] = (seen, [])"
| "take_fresh seen (c # cs) = (if seen \<noteq> [] \<and> fst c \<le> last seen then take_fresh seen cs
     else (case take_fresh (seen @ [fst c]) cs of (seen', fresh) \<Rightarrow> (seen', c # fresh)))"

definition next_cursor :: "int \<Rightarrow> int \<Rightarrow> int \<Rightarrow> 'r candle_row list \<Rightarrow> 'r candle_row list \<Rightarrow> int list \<Rightarrow> int \<Rightarrow> int" where
  "next_cursor since limit cadence page fresh seen cursor =
    (if fresh = [] \<and> page \<noteq> [] then (if seen \<noteq> [] then last seen else cursor)
     else (if seen \<noteq> [] then last seen else (if cursor = 0 then since else cursor) + limit * cadence))"

text \<open>One page: the state after it and whether the loop ends there.\<close>

definition ingest_page :: "'r ingest_env \<Rightarrow> series \<Rightarrow> int \<Rightarrow> int \<Rightarrow> int \<Rightarrow> nat option \<Rightarrow> ('r ingest_state, bool) act" where
  "ingest_page env sr since cadence limit max_pages st =
    (case translate_missing_table (ie_fetch env (ig_pages st) (ig_cursor st)) of
       Inl e \<Rightarrow> (Inl e, st)
     | Inr page \<Rightarrow> (case take_fresh (ig_stamps st) page of (seen, fresh) \<Rightarrow>
         (let st1 = st\<lparr>ig_pages := ig_pages st + 1, ig_stamps := seen\<rparr> in
          case (if fresh = [] then ok (Some 0) else translate_missing_table (ie_pool env (ig_pages st))) of
            Inl e \<Rightarrow> (Inl e, st1)
          | Inr n \<Rightarrow> (let st2 = st1\<lparr>ig_table := store_ohlcv sr fresh (ig_table st), ig_stored := ig_stored st + (case n of None \<Rightarrow> 0 | Some k \<Rightarrow> k)\<rparr> in
              if int (length page) < limit then (ok True, st2)
              else if (case max_pages of None \<Rightarrow> False | Some m \<Rightarrow> m \<le> ig_pages st2) then (ok True, st2)
              else (ok False, st2\<lparr>ig_cursor := next_cursor since limit cadence page fresh seen (ig_cursor st)\<rparr>)))))"

partial_function (option) ingest_loop :: "'r ingest_env \<Rightarrow> series \<Rightarrow> int \<Rightarrow> int \<Rightarrow> int \<Rightarrow> nat option \<Rightarrow> 'r ingest_state
    \<Rightarrow> (unit res \<times> 'r ingest_state) option" where
  "ingest_loop env sr since cadence limit max_pages st =
    (case ingest_page env sr since cadence limit max_pages st of
       (Inl e, st1) \<Rightarrow> Some (Inl e, st1)
     | (Inr finished, st1) \<Rightarrow> if finished then Some (Inr (), st1) else ingest_loop env sr since cadence limit max_pages st1)"

definition in_maintenance :: "(int \<times> int) list \<Rightarrow> int \<Rightarrow> bool" where
  "in_maintenance windows t = list_ex (\<lambda>(s, e). s \<le> t \<and> t < e) windows"

record ingest_report =
  ir_stored :: int
  ir_gaps :: "(int \<times> int) list"

text \<open>The rows counted and the gaps, which the code only logs.\<close>

definition fetch_and_store_ohlcv :: "(string \<Rightarrow> int option) \<Rightarrow> bool \<Rightarrow> 'r ingest_env \<Rightarrow> series \<Rightarrow> int \<Rightarrow> int \<Rightarrow> nat option
    \<Rightarrow> (int \<times> int) list \<Rightarrow> 'r candle_table \<Rightarrow> (ingest_report res \<times> 'r candle_table) option" where
  "fetch_and_store_ohlcv parse has_pool env sr since limit max_pages windows tb =
    (if \<not> has_pool then Some (raise schema_missing, tb)
     else (case expected_cadence_ms parse (sr_timeframe sr) of
       Inl e \<Rightarrow> Some (Inl e, tb)
     | Inr cadence \<Rightarrow> Option.bind (ingest_loop env sr since cadence limit max_pages
          \<lparr>ig_cursor = since, ig_stamps = [], ig_stored = 0, ig_pages = 0, ig_table = tb\<rparr>) (\<lambda>x. case x of
            (Inl e, st) \<Rightarrow> Some (Inl e, ig_table st)
          | (Inr _, st) \<Rightarrow> Some (ok \<lparr>ir_stored = ig_stored st,
              ir_gaps = filter (\<lambda>g. \<not> in_maintenance windows (fst g)) (detect_gaps (ig_stamps st) cadence)\<rparr>, ig_table st))))"

section \<open>Retries and ranges\<close>

datatype 'p attempt = NetworkError | Raises pyerr | Page 'p

text \<open>The result and the delays slept before it; \<open>None\<close> when no attempt is allowed.\<close>

fun attempts_from :: "(nat \<Rightarrow> 'p attempt) \<Rightarrow> nat \<Rightarrow> nat \<Rightarrow> pyfloat \<Rightarrow> 'p option res \<times> pyfloat list" where
  "attempts_from net k 0 delay = (ok None, [])"
| "attempts_from net k (Suc left) delay = (case net k of
     Page p \<Rightarrow> (ok (Some p), [])
   | Raises e \<Rightarrow> (raise e, [])
   | NetworkError \<Rightarrow> if left = 0 then (raise (VenueException ''NetworkError''), [])
       else (case attempts_from net (Suc k) left (delay * fl 2) of (r, ds) \<Rightarrow> (r, delay # ds)))"

definition fetch_ohlcv_with_backoff :: "(nat \<Rightarrow> 'p attempt) \<Rightarrow> nat \<Rightarrow> 'p option res \<times> pyfloat list" where
  "fetch_ohlcv_with_backoff net max_retries = attempts_from net 0 max_retries 1"

text \<open>The loop of \<open>fetch_ohlcv_range\<close>; \<open>fetch\<close> answers a page for a cursor, after its retries.\<close>

function range_loop :: "(int \<Rightarrow> 'r candle_row list res) \<Rightarrow> int \<Rightarrow> int \<Rightarrow> int \<Rightarrow> 'r candle_row list \<Rightarrow> int \<Rightarrow> 'r candle_row list res" where
  "range_loop fetch tf limit until acc cursor = (if until \<le> cursor then ok acc else (case fetch cursor of
     Inl e \<Rightarrow> Inl e
   | Inr batch \<Rightarrow> if batch = [] then ok acc
       else (let acc1 = acc @ batch; nxt = fst (last batch) + tf in
         if int (length batch) < limit then ok acc1 else if nxt \<le> cursor then ok acc1 else range_loop fetch tf limit until acc1 nxt)))"
  by pat_completeness auto
termination by (relation "measure (\<lambda>(_, _, _, until, _, cursor). nat (until - cursor))") auto

declare range_loop.simps [simp del]

definition fetch_ohlcv_range :: "(int \<Rightarrow> 'r candle_row list res) \<Rightarrow> int \<Rightarrow> int \<Rightarrow> int \<Rightarrow> int \<Rightarrow> 'r candle_row list res" where
  "fetch_ohlcv_range fetch tf_seconds since until limit =
     rbind (range_loop fetch (tf_seconds * 1000) limit until [] since) (\<lambda>cs. ok (filter (\<lambda>c. fst c < until) cs))"

definition ingest_ohlcv :: "(nat \<Rightarrow> 'r candle_row list attempt) \<Rightarrow> (db_error + unit) \<Rightarrow> series \<Rightarrow> ('r candle_table, 'r candle_row list) act" where
  "ingest_ohlcv net pool sr tb = (case fst (fetch_ohlcv_with_backoff net 5) of
     Inl e \<Rightarrow> (Inl e, tb)
   | Inr None \<Rightarrow> (raise (TypeError ''NoneType object is not iterable''), tb)
   | Inr (Some cs) \<Rightarrow> (case translate_missing_table pool of
       Inl e \<Rightarrow> (Inl e, tb)
     | Inr _ \<Rightarrow> (ok cs, store_ohlcv sr cs tb)))"

section \<open>Funding rates\<close>

record funding_event =
  fe_timestamp :: int
  fe_rate :: pyfloat
  fe_mark :: "pyfloat option"

type_synonym funding_table = "string \<times> string \<times> int \<Rightarrow> (pyfloat \<times> pyfloat) option"

definition insert_funding :: "string \<Rightarrow> string \<Rightarrow> funding_event \<Rightarrow> funding_table \<Rightarrow> funding_table" where
  "insert_funding ex sy ev tb = (let k = (ex, sy, fe_timestamp ev) in
     if tb k = None then tb(k \<mapsto> (fe_rate ev, case fe_mark ev of None \<Rightarrow> 0 | Some m \<Rightarrow> m)) else tb)"

definition store_funding_rates :: "string \<Rightarrow> string \<Rightarrow> funding_event list \<Rightarrow> funding_table \<Rightarrow> funding_table" where
  "store_funding_rates ex sy evs tb = fold (insert_funding ex sy) evs tb"

definition ingest_funding_rates :: "funding_event list res \<Rightarrow> (db_error + unit) \<Rightarrow> string \<Rightarrow> string \<Rightarrow> (funding_table, funding_event list) act" where
  "ingest_funding_rates history pool ex sy tb = (case history of
     Inl e \<Rightarrow> (Inl e, tb)
   | Inr evs \<Rightarrow> (case translate_missing_table pool of
       Inl e \<Rightarrow> (Inl e, tb)
     | Inr _ \<Rightarrow> (ok evs, store_funding_rates ex sy evs tb)))"

section \<open>What a page leaves in the table\<close>

lemma take_fresh_spec:
  assumes "sorted_wrt (<) seen" "take_fresh seen cs = (seen', fresh)"
  shows "sorted_wrt (<) seen' \<and> seen' = seen @ map fst fresh"
  using assms
proof (induction seen cs arbitrary: seen' fresh rule: take_fresh.induct)
  case (2 seen c cs)
  show ?case
  proof (cases "seen \<noteq> [] \<and> fst c \<le> last seen")
    case False
    obtain s1 f1 where r: "take_fresh (seen @ [fst c]) cs = (s1, f1)" by force
    have "\<forall>x\<in>set seen. x \<le> last seen"
      using 2(3) by (cases seen rule: rev_cases) (auto simp: sorted_wrt_append)
    with False have "sorted_wrt (<) (seen @ [fst c])" using 2(3) by (fastforce simp: sorted_wrt_append)
    then show ?thesis using 2(2) [OF False _ r] 2(4) r False by auto
  next
    case True
    then have "take_fresh seen cs = (seen', fresh)" using 2(4) by simp
    then show ?thesis by (rule 2(1) [OF True 2(3)])
  qed
qed simp

definition in_series :: "series \<Rightarrow> candle_key \<Rightarrow> bool" where
  "in_series sr k \<longleftrightarrow> (\<exists>t. k = key_of_candle sr t)"

lemma key_of_candle_eq [simp]: "key_of_candle sr t = key_of_candle sr t' \<longleftrightarrow> t = t'"
  by (simp add: key_of_candle_def)

text \<open>Inserting adds the keys of the candles and leaves every row that is there as it is.\<close>

lemma store_ohlcv_spec:
  "dom (store_ohlcv sr cs tb) = dom tb \<union> key_of_candle sr ` fst ` set cs \<and> tb \<subseteq>\<^sub>m store_ohlcv sr cs tb"
proof (induction cs arbitrary: tb)
  case (Cons c cs)
  have "dom (insert_candle sr c tb) = insert (key_of_candle sr (fst c)) (dom tb)" "tb \<subseteq>\<^sub>m insert_candle sr c tb"
    by (auto simp: insert_candle_def Let_def map_le_def)
  then show ?case
    using Cons.IH [of "insert_candle sr c tb"] by (auto simp: store_ohlcv_def intro: map_le_trans)
qed (simp add: store_ohlcv_def)

definition ingest_inv :: "series \<Rightarrow> 'r candle_table \<Rightarrow> 'r ingest_state \<Rightarrow> bool" where
  "ingest_inv sr tb st \<longleftrightarrow> sorted_wrt (<) (ig_stamps st) \<and> tb \<subseteq>\<^sub>m ig_table st \<and>
     dom (ig_table st) \<subseteq> dom tb \<union> key_of_candle sr ` set (ig_stamps st)"

definition stored_all :: "series \<Rightarrow> 'r ingest_state \<Rightarrow> bool" where
  "stored_all sr st \<longleftrightarrow> key_of_candle sr ` set (ig_stamps st) \<subseteq> dom (ig_table st)"

text \<open>A page leaves the state as it was, or with the new stamps and, unless the insert raised, their rows.\<close>

lemma ingest_page_cases:
  assumes "ingest_page env sr since cadence limit m st = (r, st')"
    "translate_missing_table (ie_fetch env (ig_pages st) (ig_cursor st)) = ok page" "take_fresh (ig_stamps st) page = (seen, fresh)"
  shows "ig_stamps st' = seen \<and> (\<not> is_ok r \<and> ig_table st' = ig_table st \<or>
    is_ok r \<and> ig_pages st' = ig_pages st + 1 \<and> ig_table st' = store_ohlcv sr fresh (ig_table st))"
proof (cases "if fresh = [] then ok (Some 0) else translate_missing_table (ie_pool env (ig_pages st))")
  case (Inl e)
  then show ?thesis using assms by (auto simp: ingest_page_def Let_def)
next
  case (Inr n)
  then show ?thesis using assms by (simp add: ingest_page_def Let_def split: if_splits) auto
qed

lemma ingest_page_inv:
  assumes "ingest_page env sr since cadence limit m st = (r, st')" "ingest_inv sr tb st" "stored_all sr st"
  shows "ingest_inv sr tb st' \<and> (if is_ok r then stored_all sr st' \<and> ig_pages st' = ig_pages st + 1 else True)"
proof (cases "translate_missing_table (ie_fetch env (ig_pages st) (ig_cursor st))")
  case (Inr page)
  obtain seen fresh where t: "take_fresh (ig_stamps st) page = (seen, fresh)" by force
  have s: "sorted_wrt (<) seen" "seen = ig_stamps st @ map fst fresh"
    using take_fresh_spec [OF _ t] assms(2) by (auto simp: ingest_inv_def)
  let ?tb = "store_ohlcv sr fresh (ig_table st)"
  have d: "dom ?tb = dom (ig_table st) \<union> key_of_candle sr ` fst ` set fresh" "ig_table st \<subseteq>\<^sub>m ?tb"
    using store_ohlcv_spec [of sr fresh "ig_table st"] by auto
  have i: "tb \<subseteq>\<^sub>m ?tb" "dom ?tb \<subseteq> dom tb \<union> key_of_candle sr ` set seen" "key_of_candle sr ` set seen \<subseteq> dom ?tb"
    "dom (ig_table st) \<subseteq> dom tb \<union> key_of_candle sr ` set seen" "tb \<subseteq>\<^sub>m ig_table st"
    using assms(2,3) d s(2) unfolding ingest_inv_def stored_all_def by (auto intro: map_le_trans)
  show ?thesis
    using ingest_page_cases [OF assms(1) Inr t] i s(1) unfolding ingest_inv_def stored_all_def by (elim conjE disjE) simp_all
qed (use assms in \<open>auto simp: ingest_page_def\<close>)

lemma ingest_loop_inv:
  fixes env :: "'r ingest_env" and y :: "unit res \<times> 'r ingest_state"
  assumes "ingest_loop env sr since cadence limit m st = Some y"
  shows "ingest_inv sr tb st \<and> stored_all sr st \<longrightarrow> ingest_inv sr tb (snd y) \<and> (if is_ok (fst y) then stored_all sr (snd y) else True)"
proof (rule ingest_loop.raw_induct [OF _ assms, of "\<lambda>env sr since cadence limit m st y. ingest_inv sr tb st \<and> stored_all sr st \<longrightarrow>
    ingest_inv sr tb (snd y) \<and> (if is_ok (fst y) then stored_all sr (snd y) else True)"])
  fix f and env :: "'r ingest_env" and sr since cadence limit m and st :: "'r ingest_state" and y
  assume ih: "\<And>env sr since cadence limit m st y. f env sr since cadence limit m st = Some y \<Longrightarrow>
      ingest_inv sr tb st \<and> stored_all sr st \<longrightarrow> ingest_inv sr tb (snd y) \<and> (if is_ok (fst y) then stored_all sr (snd y) else True)"
    and body: "(case ingest_page env sr since cadence limit m st of
       (Inl e, st1) \<Rightarrow> Some (Inl e, st1)
     | (Inr finished, st1) \<Rightarrow> if finished then Some (Inr (), st1) else f env sr since cadence limit m st1) = Some y"
  obtain r st1 where p: "ingest_page env sr since cadence limit m st = (r, st1)" by force
  show "ingest_inv sr tb st \<and> stored_all sr st \<longrightarrow> ingest_inv sr tb (snd y) \<and> (if is_ok (fst y) then stored_all sr (snd y) else True)"
  proof
    assume "ingest_inv sr tb st \<and> stored_all sr st"
    then have "ingest_inv sr tb st1 \<and> (if is_ok r then stored_all sr st1 \<and> ig_pages st1 = ig_pages st + 1 else True)"
      using ingest_page_inv [OF p] by blast
    then show "ingest_inv sr tb (snd y) \<and> (if is_ok (fst y) then stored_all sr (snd y) else True)"
      using body p ih [of env sr since cadence limit m st1 y] by (auto split: sum.splits if_splits)
  qed
qed

text \<open>With a bound on the pages the loop returns.\<close>

lemma ingest_loop_ends:
  "m \<le> ig_pages st + k \<Longrightarrow> \<exists>y. ingest_loop env sr since cadence limit (Some m) st = Some y"
proof (induction k arbitrary: st)
  case 0
  obtain r st1 where p: "ingest_page env sr since cadence limit (Some m) st = (r, st1)" by force
  then have "r \<noteq> ok False" using 0 by (auto simp: ingest_page_def Let_def split: sum.splits prod.splits if_splits)
  then show ?case using p by (subst ingest_loop.simps) (auto split: sum.splits)
next
  case (Suc k)
  obtain r st1 where p: "ingest_page env sr since cadence limit (Some m) st = (r, st1)" by force
  show ?case
  proof (cases "r = ok False")
    case True
    then have "ig_pages st1 = ig_pages st + 1"
      using p by (auto simp: ingest_page_def Let_def split: sum.splits prod.splits if_splits)
    then show ?thesis using Suc.IH [of st1] Suc.prems p True by (subst ingest_loop.simps) simp
  qed (use p in \<open>subst ingest_loop.simps, auto split: sum.splits\<close>)
qed

definition only_adds :: "series \<Rightarrow> 'r candle_table \<Rightarrow> 'r candle_table \<Rightarrow> bool" where
  "only_adds sr tb tb' \<longleftrightarrow> tb \<subseteq>\<^sub>m tb' \<and> dom tb' - dom tb \<subseteq> Collect (in_series sr)"

lemma only_adds_refl [simp]: "only_adds sr tb tb"
  by (simp add: only_adds_def)

lemma only_adds_inv: "ingest_inv sr tb st \<Longrightarrow> only_adds sr tb (ig_table st)"
  unfolding ingest_inv_def only_adds_def in_series_def by blast

text \<open>Ingestion only adds: whatever the exchange returns, in whatever order and overlap, and whichever call fails, no row that was in the
  table is changed and the rows added belong to the series; with a bound on the pages the call returns.\<close>

theorem ingestion_only_adds:
  "case fetch_and_store_ohlcv parse has_pool env sr since limit (Some m) windows tb of
     None \<Rightarrow> False
   | Some (r, tb') \<Rightarrow> only_adds sr tb tb'"
proof -
  define st where "st = \<lparr>ig_cursor = since, ig_stamps = [], ig_stored = 0, ig_pages = 0, ig_table = tb\<rparr>"
  have i: "ingest_inv sr tb st" "stored_all sr st" by (simp_all add: st_def ingest_inv_def stored_all_def)
  show ?thesis
  proof (cases "expected_cadence_ms parse (sr_timeframe sr)")
    case (Inr cadence)
    obtain y where y: "ingest_loop env sr since cadence limit (Some m) st = Some y"
      using ingest_loop_ends [of m st m env sr since cadence limit] by auto
    then have "only_adds sr tb (ig_table (snd y))" using ingest_loop_inv [OF y, of tb] i only_adds_inv by blast
    then show ?thesis
      using Inr y by (auto simp: fetch_and_store_ohlcv_def st_def split: prod.splits sum.splits)
  qed (simp add: fetch_and_store_ohlcv_def)
qed

text \<open>An exchange that answers the candles from the cursor on, one per page, keeps the loop at its first candle for ever: the cursor is the
  time of the last candle seen, not past it.\<close>

lemma single_candle_pages_never_end:
  fixes env :: "'r ingest_env" and y :: "unit res \<times> 'r ingest_state"
  assumes "ingest_loop env sr since cadence limit m st = Some y"
  shows "m = None \<and> limit = 1 \<and> (\<forall>k. ie_fetch env k t = Inr [(t, x)]) \<longrightarrow> \<not> (ig_stamps st = [t] \<and> ig_cursor st = t)"
proof (rule ingest_loop.raw_induct [OF _ assms, of "\<lambda>env sr since cadence limit m st y.
    m = None \<and> limit = 1 \<and> (\<forall>k. ie_fetch env k t = Inr [(t, x)]) \<longrightarrow> \<not> (ig_stamps st = [t] \<and> ig_cursor st = t)"])
  fix f and env :: "'r ingest_env" and sr since cadence and limit :: int and m :: "nat option" and st :: "'r ingest_state" and y
  assume ih: "\<And>env sr since cadence limit m st y. f env sr since cadence limit m st = Some y \<Longrightarrow>
      m = None \<and> limit = 1 \<and> (\<forall>k. ie_fetch env k t = Inr [(t, x)]) \<longrightarrow> \<not> (ig_stamps st = [t] \<and> ig_cursor st = t)"
    and body: "(case ingest_page env sr since cadence limit m st of
       (Inl e, st1) \<Rightarrow> Some (Inl e, st1)
     | (Inr finished, st1) \<Rightarrow> if finished then Some (Inr (), st1) else f env sr since cadence limit m st1) = Some y"
  show "m = None \<and> limit = 1 \<and> (\<forall>k. ie_fetch env k t = Inr [(t, x)]) \<longrightarrow> \<not> (ig_stamps st = [t] \<and> ig_cursor st = t)"
  proof (intro impI notI)
    assume a: "m = None \<and> limit = 1 \<and> (\<forall>k. ie_fetch env k t = Inr [(t, x)])" and b: "ig_stamps st = [t] \<and> ig_cursor st = t"
    let ?st1 = "st\<lparr>ig_pages := ig_pages st + 1, ig_table := store_ohlcv sr [] (ig_table st), ig_stored := ig_stored st + 0, ig_cursor := t\<rparr>"
    have "ingest_page env sr since cadence limit m st = (ok False, ?st1\<lparr>ig_stamps := [t]\<rparr>)"
      using a b by (simp add: ingest_page_def translate_missing_table_def Let_def next_cursor_def)
    then have "f env sr since cadence limit m (?st1\<lparr>ig_stamps := [t]\<rparr>) = Some y" using body by simp
    then show False using ih a by fastforce
  qed
qed

section \<open>A range is complete\<close>

text \<open>An exchange over a history of candles: the candles from the cursor on, at most as many as asked for.\<close>

definition from_cursor :: "'r candle_row list \<Rightarrow> int \<Rightarrow> 'r candle_row list" where
  "from_cursor hist cursor = filter (\<lambda>c. cursor \<le> fst c) hist"

definition exchange_page :: "'r candle_row list \<Rightarrow> nat \<Rightarrow> int \<Rightarrow> 'r candle_row list res" where
  "exchange_page hist limit cursor = ok (take limit (from_cursor hist cursor))"

text \<open>Candles at least one timeframe apart.\<close>

definition rows_spaced :: "int \<Rightarrow> 'r candle_row list \<Rightarrow> bool" where
  "rows_spaced tf hist \<longleftrightarrow> sorted_wrt (\<lambda>a b. fst a + tf \<le> fst b) hist"

lemma from_cursor_from: "c \<le> d \<Longrightarrow> from_cursor (from_cursor hist c) d = from_cursor hist d"
  by (auto simp: from_cursor_def intro: filter_cong)

text \<open>Past the last candle of a page lie exactly the candles after the page.\<close>

lemma after_page:
  assumes "rows_spaced tf xs" "0 < tf" "0 < n" "n \<le> length xs"
  shows "from_cursor xs (fst (last (take n xs)) + tf) = drop n xs"
proof -
  let ?x = "last (take n xs)"
  have ne: "take n xs \<noteq> []" using assms(3,4) by auto
  have "sorted_wrt (\<lambda>a b. fst a + tf \<le> fst b) (take n xs @ drop n xs)"
    using assms(1) by (simp only: rows_spaced_def append_take_drop_id)
  then have s: "sorted_wrt (\<lambda>a b. fst a + tf \<le> fst b) (take n xs)" "\<forall>a\<in>set (take n xs). \<forall>b\<in>set (drop n xs). fst a + tf \<le> fst b"
    unfolding sorted_wrt_append by blast+
  obtain ys y where ys: "take n xs = ys @ [y]" using ne by (cases "take n xs" rule: rev_cases) auto
  then have le: "\<forall>a\<in>set ys. fst a + tf \<le> fst y" using s(1) by (simp add: sorted_wrt_append)
  have x: "?x = y" unfolding ys by simp
  have "fst a < fst ?x + tf" if "a \<in> set (take n xs)" for a
  proof (cases "a = y")
    case True
    then show ?thesis unfolding x using assms(2) by simp
  next
    case False
    then have "a \<in> set ys" using that unfolding ys by simp
    then have "fst a + tf \<le> fst y" using le by blast
    then show ?thesis unfolding x using assms(2) by linarith
  qed
  then have "filter (\<lambda>c. fst ?x + tf \<le> fst c) (take n xs) = []" by (simp add: filter_empty_conv not_le)
  moreover have "filter (\<lambda>c. fst ?x + tf \<le> fst c) (drop n xs) = drop n xs"
    using s(2) last_in_set [OF ne] by (simp add: filter_id_conv)
  ultimately show ?thesis
    unfolding from_cursor_def by (metis append_Nil append_take_drop_id filter_append)
qed

lemma range_loop_complete:
  assumes "rows_spaced tf hist" "0 < tf" "0 < limit"
  shows "\<exists>rest. range_loop (exchange_page hist limit) tf (int limit) until acc cursor = ok (acc @ rest) \<and>
    filter (\<lambda>c. fst c < until) rest = filter (\<lambda>c. fst c < until) (from_cursor hist cursor)"
proof (induction "nat (until - cursor)" arbitrary: acc cursor rule: less_induct)
  case less
  let ?F = "from_cursor hist cursor" let ?b = "take limit ?F"
  note simps = range_loop.simps [of "exchange_page hist limit" tf "int limit" until acc cursor]
  have sp: "rows_spaced tf ?F" using assms(1) by (simp add: rows_spaced_def from_cursor_def sorted_wrt_filter)
  show ?case
  proof (cases "until \<le> cursor \<or> ?F = []")
    case True
    have "filter (\<lambda>c. fst c < until) ?F = []" using True by (auto simp: from_cursor_def filter_empty_conv)
    then show ?thesis using True assms(3) by (subst simps) (auto simp: exchange_page_def)
  next
    case no: False
    then have b: "?b \<noteq> []" using assms(3) by simp
    have upd: "range_loop (exchange_page hist limit) tf (int limit) until acc cursor =
        (if length ?b < limit then ok (acc @ ?b) else if fst (last ?b) + tf \<le> cursor then ok (acc @ ?b)
         else range_loop (exchange_page hist limit) tf (int limit) until (acc @ ?b) (fst (last ?b) + tf))"
      using no b by (subst simps) (simp add: exchange_page_def Let_def)
    show ?thesis
    proof (cases "length ?b < limit")
      case True
      then have "?b = ?F" by simp
      then show ?thesis using upd True by (intro exI [of _ ?F]) simp
    next
      case False
      then have len: "limit \<le> length ?F" by simp
      have "last ?b \<in> set ?F" using last_in_set [OF b] by (rule in_set_takeD)
      then have c: "cursor \<le> fst (last ?b)" by (simp add: from_cursor_def)
      let ?n = "fst (last ?b) + tf"
      have "from_cursor hist ?n = drop limit ?F"
        using after_page [OF sp assms(2,3) len] from_cursor_from [of cursor ?n hist] c assms(2) by simp
      then have F: "?F = ?b @ from_cursor hist ?n" by simp
      obtain rest where rest: "range_loop (exchange_page hist limit) tf (int limit) until (acc @ ?b) ?n = ok ((acc @ ?b) @ rest)"
        "filter (\<lambda>c. fst c < until) rest = filter (\<lambda>c. fst c < until) (from_cursor hist ?n)"
        using less [of ?n "acc @ ?b"] c assms(2) no by auto
      have "filter (\<lambda>c. fst c < until) (?b @ rest) = filter (\<lambda>c. fst c < until) ?F"
        by (subst (2) F) (simp only: filter_append rest(2))
      then show ?thesis using upd False c assms(2) rest(1) by (intro exI [of _ "?b @ rest"]) simp
    qed
  qed
qed

text \<open>C34: Paging a range misses nothing and repeats nothing: over an exchange that answers the candles from the cursor on, with candles at
  least one timeframe apart, the range is the exchange's history from since up to until, whatever the page size is.\<close>

theorem range_is_complete:
  assumes "rows_spaced (tf_s * 1000) hist" "0 < tf_s" "0 < limit"
  shows "fetch_ohlcv_range (exchange_page hist limit) tf_s since until (int limit) = ok (filter (\<lambda>c. since \<le> fst c \<and> fst c < until) hist)"
proof -
  obtain rest where "range_loop (exchange_page hist limit) (tf_s * 1000) (int limit) until [] since = ok rest"
    "filter (\<lambda>c. fst c < until) rest = filter (\<lambda>c. fst c < until) (from_cursor hist since)"
    using range_loop_complete [of "tf_s * 1000" hist limit until "[]" since] assms by auto
  then show ?thesis by (auto simp: fetch_ohlcv_range_def from_cursor_def intro: filter_cong)
qed

theorem range_is_complete_witness:
  "fetch_ohlcv_range (exchange_page [(0, ''a''), (60000, ''b''), (120000, ''c''), (180000, ''d'')] 2) 60 60000 180000 2 =
    ok [(60000, ''b''), (120000, ''c'')]"
  using range_is_complete [of 60 "[(0, ''a''), (60000, ''b''), (120000, ''c''), (180000, ''d'')]" 2 60000 180000]
  by (simp add: rows_spaced_def)

text \<open>The row of a candle that was still forming stays: a later insert of the same candle does nothing.\<close>

lemma forming_row_is_kept:
  "store_ohlcv sr [(t, y)] (store_ohlcv sr [(t, x)] tb) = store_ohlcv sr [(t, x)] tb"
  by (simp add: store_ohlcv_def insert_candle_def Let_def)

text \<open>The delays double, and the last attempt is not followed by one.\<close>

lemma backoff_delays:
  "snd (fetch_ohlcv_with_backoff (\<lambda>_. NetworkError) 5) = [1, 1 * fl 2, 1 * fl 2 * fl 2, 1 * fl 2 * fl 2 * fl 2]"
  by (simp add: fetch_ohlcv_with_backoff_def eval_nat_numeral)

end
