(* ===== verification/Pbo.thy ===== *)
theory Pbo
  imports WalkForward Hmm
begin

text \<open>
  \<open>stats/pbo.py\<close>: the probability of backtest overfitting by combinatorially symmetric cross-validation, behind the checks that
  \<open>WalkForward\<close> models: the contiguous blocks, the splits into halves, the choice of the in-sample winner, its ranks out of sample and
  the pooled and conditional fractions.  The draw of the splits when there are too many, means, deviations and logarithms are parameters.
\<close>

section \<open>Blocks and splits\<close>

text \<open>\<open>np.array_split(np.arange(n), T)\<close>: the first \<open>n mod T\<close> blocks are one longer.\<close>

definition block_start :: "nat \<Rightarrow> nat \<Rightarrow> nat \<Rightarrow> nat" where
  "block_start n k i = i * (n div k) + min i (n mod k)"

definition array_split :: "nat \<Rightarrow> nat \<Rightarrow> nat list list" where
  "array_split n k = map (\<lambda>i. [block_start n k i..<block_start n k (Suc i)]) [0..<k]"

text \<open>\<open>itertools.combinations\<close>, in its order.\<close>

fun combinations :: "'a list \<Rightarrow> nat \<Rightarrow> 'a list list" where
  "combinations xs 0 = [[]]"
| "combinations [] (Suc k) = []"
| "combinations (x # xs) (Suc k) = map ((#) x) (combinations xs k) @ combinations xs (Suc k)"

text \<open>\<open>draw n m\<close> are the indices of \<open>m\<close> of \<open>n\<close> splits, drawn without replacement.\<close>

definition chosen_splits :: "(nat \<Rightarrow> nat \<Rightarrow> nat list) \<Rightarrow> cscv_config \<Rightarrow> nat list list" where
  "chosen_splits draw cfg = (let every = combinations [0..<n_blocks cfg] (n_blocks cfg div 2) in
     if max_splits cfg < int (length every) then map (\<lambda>i. every ! i) (sort (draw (length every) (nat (max_splits cfg)))) else every)"

definition is_rows :: "nat list list \<Rightarrow> nat list \<Rightarrow> nat list" where
  "is_rows blocks combo = concat (map (\<lambda>b. blocks ! b) combo)"

definition oos_rows :: "nat list list \<Rightarrow> nat list \<Rightarrow> nat list" where
  "oos_rows blocks combo = concat (map (\<lambda>b. blocks ! b) (filter (\<lambda>b. b \<notin> set combo) [0..<length blocks]))"

section \<open>Selection and ranks\<close>

record pbo_env = np_env +
  np_std1 :: "pyfloat list \<Rightarrow> pyfloat"

definition strategy_returns :: "pyfloat list list \<Rightarrow> nat list \<Rightarrow> nat \<Rightarrow> pyfloat list" where
  "strategy_returns m rows j = map (\<lambda>i. m ! i ! j) rows"

definition float_max_quarter :: pyfloat where
  "float_max_quarter = fl ((2 ^ 1024 - 2 ^ 971) / 4)"

definition is_scores :: "('a pbo_env_scheme) \<Rightarrow> string \<Rightarrow> pyfloat list list \<Rightarrow> nat list \<Rightarrow> nat \<Rightarrow> pyfloat list res" where
  "is_scores env metric m rows n = (let mu = map (\<lambda>j. np_mean env (strategy_returns m rows j)) [0..<n] in
     if metric \<noteq> ''sharpe'' then ok mu
     else (let sd = map (\<lambda>j. np_std1 env (strategy_returns m rows j)) [0..<n] in
       if length (filter (\<lambda>s. 0 < s) sd) < 2 then raise (ValueError ''requires at least 2 strategies with positive return variance'')
       else ok (map2 (\<lambda>a s. let q = (if 0 < s then ndiv a s else NInf) in if q = PInf then float_max_quarter else q) mu sd)))"

text \<open>The rank of strategy \<open>j\<close> among the returns of one step: 1 is the best, ties share the average.\<close>

definition rank_at :: "pyfloat list \<Rightarrow> nat \<Rightarrow> pyfloat" where
  "rank_at row j = (let better = length (filter (\<lambda>x. row ! j < x) row); ties = length (filter (\<lambda>x. feq x (row ! j)) row) in
     fl (of_nat better + (of_nat ties + 1) / 2))"

definition relative_rank :: "('a pbo_env_scheme) \<Rightarrow> pyfloat list list \<Rightarrow> nat list \<Rightarrow> nat \<Rightarrow> nat \<Rightarrow> pyfloat" where
  "relative_rank env m rows n j = ndiv (np_mean env (map (\<lambda>i. rank_at (m ! i) j) rows)) (float_of_int (int n + 1))"

record split_outcome =
  so_combo :: "nat list"
  so_best :: nat
  so_lambda :: pyfloat
  so_logit :: pyfloat

definition logit :: "('a np_env_scheme) \<Rightarrow> pyfloat \<Rightarrow> pyfloat" where
  "logit env l = (let c = np_minimum (np_maximum l (fl (1 / 10 ^ 12))) (1 - fl (1 / 10 ^ 12)) in np_ln env (ndiv c (1 - c)))"

definition split_outcome_of :: "('a pbo_env_scheme) \<Rightarrow> cscv_config \<Rightarrow> pyfloat list list \<Rightarrow> nat list \<Rightarrow> split_outcome res" where
  "split_outcome_of env cfg m combo =
    (let n = length (hd m); blocks = array_split (length m) (n_blocks cfg) in
     rbind (is_scores env (cs_metric cfg) m (is_rows blocks combo) n) (\<lambda>scores.
       let j = np_argmax scores; l = relative_rank env m (oos_rows blocks combo) n j in
       ok \<lparr>so_combo = combo, so_best = j, so_lambda = l, so_logit = logit env l\<rparr>))"

section \<open>The estimate\<close>

text \<open>The mean of a list of booleans.\<close>

definition fraction :: "bool list \<Rightarrow> pyfloat" where
  "fraction bs = fl (of_nat (length (filter id bs)) / of_nat (length bs))"

definition overfitted :: "split_outcome \<Rightarrow> bool" where
  "overfitted s \<longleftrightarrow> 0 < so_logit s"

definition split_winners :: "split_outcome list \<Rightarrow> nat list" where
  "split_winners ss = sort (remdups (map so_best ss))"

definition conditional_pbo :: "split_outcome list \<Rightarrow> (nat \<times> pyfloat) list" where
  "conditional_pbo ss = map (\<lambda>w. (w, fraction (map overfitted (filter (\<lambda>s. so_best s = w) ss)))) (split_winners ss)"

record pbo_result =
  pr_pbo :: pyfloat
  pr_n_strategies :: nat
  pr_n_splits_evaluated :: nat
  pr_n_splits_total :: nat
  pr_outcomes :: "split_outcome list"
  pr_conditional :: "(nat \<times> pyfloat) list"
  pr_max_conditional :: pyfloat
  pr_stderr :: pyfloat

definition cscv_estimate :: "('a pbo_env_scheme) \<Rightarrow> (nat \<Rightarrow> nat \<Rightarrow> nat list) \<Rightarrow> cscv_config \<Rightarrow> pyfloat list list \<Rightarrow> pbo_result res" where
  "cscv_estimate env draw cfg m =
    rbind (map_res (split_outcome_of env cfg m) (chosen_splits draw cfg)) (\<lambda>ss.
      let pbo = fraction (map overfitted ss); cond = conditional_pbo ss in
      rbind (pymax_list (map snd cond)) (\<lambda>mx.
      rbind (fdiv (pbo * (1 - pbo)) (float_of_int (int (length ss)))) (\<lambda>v.
      rbind (fsqrt v) (\<lambda>se. ok \<lparr>pr_pbo = pbo, pr_n_strategies = length (hd m), pr_n_splits_evaluated = length ss,
        pr_n_splits_total = length (combinations [0..<n_blocks cfg] (n_blocks cfg div 2)), pr_outcomes = ss, pr_conditional = cond,
        pr_max_conditional = mx, pr_stderr = se\<rparr>))))"

text \<open>The whole computation, with the checks in front.\<close>

definition pbo_of_matrix :: "('a pbo_env_scheme) \<Rightarrow> (nat \<Rightarrow> nat \<Rightarrow> nat list) \<Rightarrow> cscv_config \<Rightarrow> pyfloat list list \<Rightarrow> pyfloat res" where
  "pbo_of_matrix env draw cfg = compute_pbo_cscv (\<lambda>m. rbind (cscv_estimate env draw cfg m) (\<lambda>r. ok (pr_pbo r))) cfg"

section \<open>The deprecated heuristic\<close>

datatype legacy_metrics = Scores1 "pyfloat list" | Scores2 "pyfloat list list"

definition compute_pbo :: "(pyfloat list \<Rightarrow> pyfloat) \<Rightarrow> legacy_metrics \<Rightarrow> pyfloat" where
  "compute_pbo median ms = (case ms of
     Scores1 xs \<Rightarrow> if xs = [] then 0 else fraction (map (\<lambda>x. x \<le> 0) xs)
   | Scores2 rows \<Rightarrow> if rows = [] \<or> length (hd rows) \<le> 1 then 0
       else fraction (map (\<lambda>row. row ! np_argmax row \<le> median row) rows))"

section \<open>Every split is a partition\<close>

lemma concat_intervals: "(\<And>i j. i \<le> j \<Longrightarrow> f i \<le> f j) \<Longrightarrow> concat (map (\<lambda>i. [f i..<f (Suc i)]) [0..<k]) = [f 0..<f (k :: nat) :: nat]"
proof (induction k)
  case (Suc k)
  have "f 0 \<le> f k" "f k \<le> f (Suc k)" using Suc.prems by simp_all
  then have "[f 0..<f k] @ [f k..<f (Suc k)] = [f 0..<f (Suc k)]"
    using upt_add_eq_append [of "f 0" "f k" "f (Suc k) - f k"] by simp
  then show ?case using Suc by simp
qed simp

lemma block_start_mono: "i \<le> j \<Longrightarrow> block_start n k i \<le> block_start n k j"
  unfolding block_start_def by (intro add_mono mult_le_mono1 min.mono) auto

lemma blocks_cover: "0 < k \<Longrightarrow> concat (array_split n k) = [0..<n]"
proof -
  assume "0 < k"
  then have "block_start n k k = n" "block_start n k 0 = 0"
    using mod_less_divisor [of k n] by (simp_all add: block_start_def)
  then show ?thesis using concat_intervals [of "block_start n k" k] block_start_mono by (simp add: array_split_def)
qed

lemma combinations_spec: "c \<in> set (combinations xs r) \<Longrightarrow> subseq c xs \<and> length c = r"
  by (induction xs r arbitrary: c rule: combinations.induct) auto

lemma filter_subseq: "subseq c xs \<Longrightarrow> distinct xs \<Longrightarrow> filter (\<lambda>x. x \<in> set c) xs = c"
proof (induction xs arbitrary: c)
  case (Cons x xs)
  show ?case
  proof (cases "c \<noteq> [] \<and> hd c = x")
    case True
    then obtain c' where c: "c = x # c'" by (cases c) auto
    have "subseq c' xs" using Cons.prems(1) c by simp
    moreover have "filter (\<lambda>y. y = x \<or> y \<in> set c') xs = filter (\<lambda>y. y \<in> set c') xs"
      using Cons.prems(2) by (intro filter_cong) auto
    ultimately show ?thesis using Cons c by simp
  next
    case False
    then have "subseq c xs" using Cons.prems(1) by (cases c) (auto split: if_splits)
    moreover from this have "x \<notin> set c" using Cons.prems(2) by (auto dest: list_emb_set)
    ultimately show ?thesis using Cons by simp
  qed
qed (auto dest: list_emb_Nil2)

lemma partition_concat:
  "mset (concat (map g (filter P xs))) + mset (concat (map g (filter (\<lambda>x. \<not> P x) xs))) = mset (concat (map g xs))"
  by (induction xs) auto

lemma split_partitions:
  assumes "0 < k" "c \<in> set (combinations [0..<k] r)"
  shows "mset (is_rows (array_split n k) c) + mset (oos_rows (array_split n k) c) = mset [0..<n] \<and> length c = r"
proof -
  have c: "subseq c [0..<k]" "length c = r" using combinations_spec [OF assms(2)] by auto
  have len: "length (array_split n k) = k" by (simp add: array_split_def)
  have "filter (\<lambda>x. x \<in> set c) [0..<k] = c" using filter_subseq [OF c(1)] by simp
  then have "mset (is_rows (array_split n k) c) + mset (oos_rows (array_split n k) c) =
      mset (concat (map (\<lambda>b. array_split n k ! b) [0..<k]))"
    using partition_concat [of "\<lambda>b. array_split n k ! b" "\<lambda>x. x \<in> set c" "[0..<k]"] by (simp add: is_rows_def oos_rows_def len)
  also have "map (\<lambda>b. array_split n k ! b) [0..<k] = array_split n k" using map_nth [of "array_split n k"] by (simp add: len)
  finally show ?thesis using blocks_cover [OF assms(1)] c(2) by simp
qed

text \<open>No observation is on both sides of a split: in every split evaluated, drawn or not, the in-sample and the out-of-sample rows are
  together exactly the rows of the matrix, each once, and the in-sample side is half of the blocks.\<close>

theorem splits_partition_the_sample:
  assumes "0 < n_blocks cfg" "\<And>a b. list_all (\<lambda>i. i < a) (draw a b)"
  shows "list_all (\<lambda>c. mset (is_rows (array_split n (n_blocks cfg)) c) + mset (oos_rows (array_split n (n_blocks cfg)) c) = mset [0..<n] \<and>
    length c = n_blocks cfg div 2) (chosen_splits draw cfg)"
proof -
  let ?every = "combinations [0..<n_blocks cfg] (n_blocks cfg div 2)"
  have "set (chosen_splits draw cfg) \<subseteq> set ?every"
  proof (cases "max_splits cfg < int (length ?every)")
    case True
    let ?d = "draw (length ?every) (nat (max_splits cfg))"
    have "\<forall>i\<in>set ?d. i < length ?every" using assms(2) unfolding list_all_iff by blast
    then show ?thesis using True by (auto simp: chosen_splits_def Let_def)
  qed (simp add: chosen_splits_def Let_def)
  then show ?thesis unfolding list_all_iff using split_partitions [OF assms(1)] by blast
qed

theorem splits_partition_the_sample_witness:
  "list_all (\<lambda>c. mset (is_rows (array_split 9 4) c) + mset (oos_rows (array_split 9 4) c) = mset [0..<9] \<and> length c = 2)
    (chosen_splits (\<lambda>a b. take b [0..<a]) \<lparr>n_blocks = 4, max_splits = 3, cs_metric = ''mean''\<rparr>)"
proof -
  let ?draw = "\<lambda>a b. take b [0..<a]"
  have draw: "list_all (\<lambda>i. i < a) (?draw a b)" for a b by (auto simp: list_all_iff dest: in_set_takeD)
  show ?thesis
    using splits_partition_the_sample [of "\<lparr>n_blocks = 4, max_splits = 3, cs_metric = ''mean''\<rparr>" ?draw 9, OF _ draw]
    unfolding cscv_config.select_convs by simp
qed

section \<open>The pooled estimate hides no winner\<close>

lemma fraction_range: "0 \<le> fraction bs \<and> fraction bs \<le> 1"
proof -
  have "of_nat (length (filter id bs)) / of_nat (length bs) \<le> (1 :: rat)" by (simp add: divide_le_eq_1)
  then show ?thesis
    using fl_mono [of "of_nat (length (filter id bs)) / of_nat (length bs)" 1] fl_nonneg [of "of_nat (length (filter id bs)) / of_nat (length bs)"]
    unfolding fraction_def by simp
qed

lemma sum_groups:
  assumes "finite W" "\<forall>x\<in>set xs. f x \<in> W"
  shows "(\<Sum>w\<in>W. length (filter (\<lambda>x. f x = w) xs)) = length xs"
  using assms(2)
proof (induction xs)
  case (Cons x xs)
  have "(\<Sum>w\<in>W. length (filter (\<lambda>x. f x = w) (x # xs))) = (\<Sum>w\<in>W. (if f x = w then 1 else 0) + length (filter (\<lambda>x. f x = w) xs))"
    by (rule sum.cong) auto
  also have "\<dots> = 1 + length xs" using Cons assms(1) by (simp add: sum.distrib)
  finally show ?case by simp
qed simp

text \<open>Some group has at least the fraction of the whole.\<close>

lemma group_at_least_pooled:
  assumes "xs \<noteq> []"
  obtains w where "w \<in> f ` set xs" "fraction (map P xs) \<le> fraction (map P (filter (\<lambda>x. f x = w) xs))"
proof -
  let ?n = "\<lambda>w. length (filter (\<lambda>x. f x = w) xs)" let ?c = "\<lambda>w. length (filter P (filter (\<lambda>x. f x = w) xs))"
  let ?N = "length xs" let ?C = "length (filter P xs)"
  have n: "(\<Sum>w\<in>f ` set xs. ?n w) = ?N" by (rule sum_groups) auto
  have c: "(\<Sum>w\<in>f ` set xs. ?c w) = ?C"
    using sum_groups [of "f ` set xs" "filter P xs" f] by (simp add: conj_commute)
  have "\<exists>w\<in>f ` set xs. ?C * ?n w \<le> ?c w * ?N"
  proof (rule ccontr)
    assume "\<not> (\<exists>w\<in>f ` set xs. ?C * ?n w \<le> ?c w * ?N)"
    then have "(\<Sum>w\<in>f ` set xs. ?c w * ?N) < (\<Sum>w\<in>f ` set xs. ?C * ?n w)"
      using assms by (intro sum_strict_mono) (auto simp: not_le)
    then show False using n c by (simp flip: sum_distrib_left sum_distrib_right)
  qed
  then obtain w where w: "w \<in> f ` set xs" "?C * ?n w \<le> ?c w * ?N" by blast
  have pos: "0 < ?n w" "0 < ?N" using w(1) assms by (auto simp: filter_empty_conv)
  have "of_nat ?C * of_nat (?n w) \<le> of_nat (?c w) * (of_nat ?N :: rat)"
    using w(2) by (simp only: of_nat_le_iff flip: of_nat_mult)
  then have "of_nat ?C / of_nat ?N \<le> (of_nat (?c w) / of_nat (?n w) :: rat)"
    using pos by (simp add: field_simps)
  then have "fraction (map P xs) \<le> fraction (map P (filter (\<lambda>x. f x = w) xs))"
    unfolding fraction_def by (intro fl_mono) (simp add: filter_map comp_def)
  with w(1) show ?thesis by (rule that)
qed

lemma foldl_pymax_range:
  "\<lbrakk>\<forall>y\<in>set ys. 0 \<le> y \<and> y \<le> (1 :: pyfloat); 0 \<le> a; a \<le> 1\<rbrakk> \<Longrightarrow> 0 \<le> foldl pymax a ys \<and> foldl pymax a ys \<le> 1"
proof (induction ys arbitrary: a)
  case (Cons y ys)
  then show ?case using pymax_cases [of a y] by auto
qed simp

lemma ordered_not_NaN: "0 \<le> (x :: pyfloat) \<Longrightarrow> x \<noteq> NaN"
  by auto

lemma foldl_pymax_ge:
  "\<lbrakk>\<forall>y\<in>set ys. 0 \<le> (y :: pyfloat); 0 \<le> a; z \<in> insert a (set ys)\<rbrakk> \<Longrightarrow> z \<le> foldl pymax a ys"
proof (induction ys arbitrary: a z)
  case Nil
  then show ?case using ordered_not_NaN [of a] by (cases a) auto
next
  case (Cons y ys)
  have ge: "a \<le> pymax a y" "y \<le> pymax a y" using Cons.prems ordered_not_NaN by (auto intro!: pymax_ge)
  have nn: "0 \<le> pymax a y" using pymax_cases [of a y] Cons.prems by auto
  have step: "pymax a y \<le> foldl pymax (pymax a y) ys" using Cons.IH [of "pymax a y"] Cons.prems nn by auto
  show ?case
  proof (cases "z \<in> set ys")
    case True
    then show ?thesis using Cons.IH [of "pymax a y"] Cons.prems nn by auto
  next
    case False
    then have "z \<le> pymax a y" using Cons.prems ge by auto
    then show ?thesis using le_trans_pyfloat [OF _ step, of z] by simp
  qed
qed

lemma conditional_range: "x \<in> set (map snd (conditional_pbo ss)) \<Longrightarrow> 0 \<le> x \<and> x \<le> 1"
  using fraction_range by (auto simp: conditional_pbo_def)

lemma pymax_list_pooled:
  assumes "pymax_list (map snd (conditional_pbo ss)) = ok mx"
  shows "fraction (map overfitted ss) \<le> mx \<and> mx \<le> 1"
proof -
  obtain y ys where ys: "map snd (conditional_pbo ss) = y # ys" "mx = foldl pymax y ys"
    using assms by (cases "map snd (conditional_pbo ss)") (simp_all add: pymax_list_def)
  have range: "\<forall>x\<in>set (y # ys). 0 \<le> x \<and> x \<le> 1" unfolding ys(1) [symmetric] using conditional_range by blast
  have "ss \<noteq> []" using ys(1) by (auto simp: conditional_pbo_def split_winners_def)
  then obtain w where w: "w \<in> so_best ` set ss"
      "fraction (map overfitted ss) \<le> fraction (map overfitted (filter (\<lambda>s. so_best s = w) ss))"
    using group_at_least_pooled [of ss so_best overfitted] by blast
  have "fraction (map overfitted (filter (\<lambda>s. so_best s = w) ss)) \<in> set (y # ys)"
    unfolding ys(1) [symmetric] using w(1) by (auto simp: conditional_pbo_def split_winners_def)
  then have "fraction (map overfitted (filter (\<lambda>s. so_best s = w) ss)) \<le> mx"
    unfolding ys(2) using range foldl_pymax_ge [of ys y] by auto
  with w(2) show ?thesis using le_trans_pyfloat foldl_pymax_range [of ys y] range ys(2) by auto
qed

text \<open>C36: The pooled estimate cannot hide a condemned winner: every estimate is a probability and never above the largest conditional
  probability over the in-sample winners, so a gate on the maximum is at least as strict as a gate on the pool.\<close>

theorem pooled_estimate_hides_no_winner:
  "case cscv_estimate env draw cfg m of Inl e \<Rightarrow> True
   | Inr r \<Rightarrow> 0 \<le> pr_pbo r \<and> pr_pbo r \<le> pr_max_conditional r \<and> pr_max_conditional r \<le> 1"
proof (cases "cscv_estimate env draw cfg m")
  case (Inr r)
  then obtain ss where "pr_pbo r = fraction (map overfitted ss)"
      "pymax_list (map snd (conditional_pbo ss)) = ok (pr_max_conditional r)"
    unfolding cscv_estimate_def by (auto simp: rbind_def Let_def split: sum.splits)
  then show ?thesis using Inr pymax_list_pooled fraction_range by simp
qed simp

end
