(* ===== verification/Services.thy ===== *)
theory Services
  imports HaLock AuditLedger Backtest
begin

text \<open>
  The small services around the system: \<open>src/scripts/promote_mode.py\<close> (the promotion guard), \<open>security/secrets_manager.py\<close>,
  \<open>observability/metrics_auth.py\<close>, \<open>infrastructure/shutdown.py\<close> and \<open>journal.py\<close>.  The environment is a function from names to values;
  the digest of the journal's keys and the text of a timestamp are parameters.
\<close>

section \<open>The promotion guard\<close>

record promotion_evidence =
  confirm_token :: string
  preflight_passed :: bool
  gate_1_passed :: bool
  reconciliation_clean :: bool
  drills_passed :: bool
  pbo_deflated_sharpe :: "pyfloat option"
  deflated_sharpe :: "pyfloat option"

definition no_evidence :: promotion_evidence where
  "no_evidence = \<lparr>confirm_token = [], preflight_passed = False, gate_1_passed = False, reconciliation_clean = False,
     drills_passed = False, pbo_deflated_sharpe = None, deflated_sharpe = None\<rparr>"

type_synonym environment = "string \<Rightarrow> string option"

definition token_matches :: "environment \<Rightarrow> string \<Rightarrow> bool" where
  "token_matches env provided = (let expected = (case env ''PROMOTE_CONFIRMATION_TOKEN'' of None \<Rightarrow> [] | Some t \<Rightarrow> t) in
     if expected = [] \<or> provided = [] then False else provided = expected)"

fun valid_transitions :: "execution_mode \<Rightarrow> execution_mode list" where
  "valid_transitions BACKTEST = [PAPER]"
| "valid_transitions PAPER = [SHADOW]"
| "valid_transitions SHADOW = [LIVE_RESTRICTED]"
| "valid_transitions LIVE_RESTRICTED = [LIVE_FULL]"
| "valid_transitions LIVE_FULL = []"

datatype promotion_block = AlreadyInMode | InvalidJump | PreflightFailed | ReconciliationDirty | BadToken | Gate1NotPassed | DrillsNotPassed
  | OverfitProbable pyfloat | SharpeNotPositive pyfloat

text \<open>The result is \<open>None\<close> for a permitted promotion, else the first objection.\<close>

definition live_objection :: "environment \<Rightarrow> promotion_evidence \<Rightarrow> promotion_block option" where
  "live_objection env ev =
    (if \<not> token_matches env (confirm_token ev) then Some BadToken
     else if \<not> preflight_passed ev then Some PreflightFailed
     else if \<not> gate_1_passed ev then Some Gate1NotPassed
     else if \<not> reconciliation_clean ev then Some ReconciliationDirty
     else if \<not> drills_passed ev then Some DrillsNotPassed
     else (case pbo_deflated_sharpe ev of
       Some p \<Rightarrow> if fl (1/2) \<le> p then Some (OverfitProbable p)
         else (case deflated_sharpe ev of Some d \<Rightarrow> if d \<le> 0 then Some (SharpeNotPositive d) else None | None \<Rightarrow> None)
     | None \<Rightarrow> (case deflated_sharpe ev of Some d \<Rightarrow> if d \<le> 0 then Some (SharpeNotPositive d) else None | None \<Rightarrow> None)))"

definition promote_execution_mode :: "environment \<Rightarrow> execution_mode \<Rightarrow> execution_mode \<Rightarrow> promotion_evidence \<Rightarrow> promotion_block option" where
  "promote_execution_mode env current target ev =
    (if current = target then Some AlreadyInMode
     else if target \<notin> set (valid_transitions current) then Some InvalidJump
     else (case target of
       PAPER \<Rightarrow> if \<not> preflight_passed ev then Some PreflightFailed else None
     | SHADOW \<Rightarrow> if \<not> preflight_passed ev then Some PreflightFailed else if \<not> reconciliation_clean ev then Some ReconciliationDirty else None
     | LIVE_RESTRICTED \<Rightarrow> live_objection env ev
     | LIVE_FULL \<Rightarrow> live_objection env ev
     | BACKTEST \<Rightarrow> None))"

fun mode_of_text :: "string \<Rightarrow> execution_mode option" where
  "mode_of_text s = map_of [(''backtest'', BACKTEST), (''paper'', PAPER), (''shadow'', SHADOW), (''live_restricted'', LIVE_RESTRICTED),
     (''live_full'', LIVE_FULL)] (map lower_char s)"

text \<open>The exit code of the script.\<close>

definition promote_main :: "environment \<Rightarrow> string \<Rightarrow> string \<Rightarrow> promotion_evidence \<Rightarrow> nat" where
  "promote_main env from_mode to_mode ev = (case (mode_of_text from_mode, mode_of_text to_mode) of
     (Some c, Some t) \<Rightarrow> if promote_execution_mode env c t ev = None then 0 else 1
   | _ \<Rightarrow> 1)"

section \<open>Secrets\<close>

definition SECRET_ENV_VARS :: "(string \<times> string) list" where
  "SECRET_ENV_VARS = [(''EXCHANGE_API_KEY'', ''EXCHANGE_API_KEY''), (''EXCHANGE_API_SECRET'', ''EXCHANGE_API_SECRET''),
     (''SLACK_WEBHOOK_URL'', ''SLACK_WEBHOOK_URL''), (''PAGERDUTY_ROUTING_KEY'', ''PAGERDUTY_ROUTING_KEY'')]"

text \<open>The manager is its overrides.\<close>

type_synonym secrets_manager = "(string, string) dict"

definition non_empty :: "string option \<Rightarrow> string option" where
  "non_empty v = (case v of Some s \<Rightarrow> if s = [] then None else Some s | None \<Rightarrow> None)"

definition lookup_secret :: "environment \<Rightarrow> secrets_manager \<Rightarrow> string \<Rightarrow> string option" where
  "lookup_secret env sm key = (case dget sm key of
     Some v \<Rightarrow> non_empty (Some v)
   | None \<Rightarrow> non_empty (Option.bind (map_of SECRET_ENV_VARS key) env))"

text \<open>\<open>SecretNotFoundError\<close> names the key only.\<close>

definition get_secret :: "environment \<Rightarrow> secrets_manager \<Rightarrow> string \<Rightarrow> string res" where
  "get_secret env sm key = (case lookup_secret env sm key of None \<Rightarrow> raise (KeyError key) | Some v \<Rightarrow> ok v)"

definition get_optional_secret :: "environment \<Rightarrow> secrets_manager \<Rightarrow> string \<Rightarrow> string option" where
  "get_optional_secret env sm key = lookup_secret env sm key"

definition is_configured :: "environment \<Rightarrow> secrets_manager \<Rightarrow> string \<Rightarrow> bool" where
  "is_configured env sm key = (lookup_secret env sm key \<noteq> None)"

definition secret_of_channel :: "string \<Rightarrow> string option" where
  "secret_of_channel channel = map_of [(''slack'', ''SLACK_WEBHOOK_URL''), (''pagerduty'', ''PAGERDUTY_ROUTING_KEY'')] (map lower_char channel)"

definition rotate_webhook_secret :: "string \<Rightarrow> string \<Rightarrow> secrets_manager \<Rightarrow> bool \<times> secrets_manager" where
  "rotate_webhook_secret channel new_secret sm = (if new_secret = [] then (False, sm)
     else (case secret_of_channel channel of None \<Rightarrow> (False, sm) | Some key \<Rightarrow> (True, dset key new_secret sm)))"

section \<open>The metrics endpoint\<close>

record metrics_auth =
  ma_token :: string
  ma_enabled :: bool
  ma_allowed_ips :: "string list"

definition new_metrics_auth :: "environment \<Rightarrow> string option \<Rightarrow> string list option \<Rightarrow> metrics_auth" where
  "new_metrics_auth env bearer ips =
    (let configured = (case non_empty bearer of Some t \<Rightarrow> t | None \<Rightarrow> (case env ''METRICS_BEARER_TOKEN'' of None \<Rightarrow> [] | Some t \<Rightarrow> t));
         token = strip configured in
     \<lparr>ma_token = token, ma_enabled = (token \<noteq> []),
      ma_allowed_ips = (case ips of Some l \<Rightarrow> l | None \<Rightarrow> [''127.0.0.1'', ''localhost'', ''::1''])\<rparr>)"

datatype metrics_answer = AuthUnconfigured | ForbiddenIp | UnauthorizedToken | Authorized

definition authenticate_request :: "metrics_auth \<Rightarrow> string option \<Rightarrow> string \<Rightarrow> metrics_answer" where
  "authenticate_request ma token client_ip =
    (if \<not> ma_enabled ma then AuthUnconfigured
     else if client_ip \<notin> set (ma_allowed_ips ma) \<and> ''*'' \<notin> set (ma_allowed_ips ma) then ForbiddenIp
     else (case non_empty token of
       None \<Rightarrow> UnauthorizedToken
     | Some t \<Rightarrow> if t = ''Bearer '' @ ma_token ma \<or> t = ma_token ma then Authorized else UnauthorizedToken))"

section \<open>Shutdown\<close>

record ('b, 'd) shutdown_handler =
  sh_manager :: "'b manager option"
  sh_ledger :: "'d audit_ledger option"
  sh_initiated :: bool

definition release_if :: "'b backend_ops \<Rightarrow> (('b, 'd) shutdown_handler, unit) act" where
  "release_if ops s = (case sh_manager s of
     None \<Rightarrow> (ok (), s)
   | Some m \<Rightarrow> (case release_lock ops m of (r, m1) \<Rightarrow> (r, s\<lparr>sh_manager := Some m1\<rparr>)))"

text \<open>\<open>log_event\<close> is the ledger's \<open>append_event\<close> with the digest, the clock and the identifier of this call.\<close>

definition audit_if :: "(string \<times> string \<Rightarrow> ('d audit_ledger, audit_record) act) \<Rightarrow> string \<Rightarrow> (('b, 'd) shutdown_handler, unit) act" where
  "audit_if log_event sig s = (case sh_ledger s of
     None \<Rightarrow> (ok (), s)
   | Some l \<Rightarrow> (case log_event (sig, ''CLEAN_RELEASE'') l of (r, l1) \<Rightarrow> (map_sum id (\<lambda>_. ()) r, s\<lparr>sh_ledger := Some l1\<rparr>)))"

definition handle_signal :: "'b backend_ops \<Rightarrow> (string \<times> string \<Rightarrow> ('d audit_ledger, audit_record) act) \<Rightarrow> (nat \<Rightarrow> string res) \<Rightarrow> nat
    \<Rightarrow> (('b, 'd) shutdown_handler, unit) act" where
  "handle_signal ops log_event sig_name signum s = (case sig_name signum of
     Inl e \<Rightarrow> (Inl e, s)
   | Inr sig \<Rightarrow> abind (release_if ops) (\<lambda>_. audit_if log_event sig) (s\<lparr>sh_initiated := True\<rparr>))"

section \<open>The journal\<close>

record journal_record =
  dr_asset :: string
  dr_entry_time :: datetime
  dr_side :: side
  dr_decision :: string
  expected_reward_risk :: pyfloat
  consequence_r_multiple :: pyfloat
  consequence_net_pnl :: pyfloat
  dr_exit_reason :: string
  dr_verdict :: string

definition thesis_verdict :: "string \<Rightarrow> string" where
  "thesis_verdict reason = (case map_of [(''target'', ''thesis_confirmed''), (''stop'', ''thesis_invalidated''),
     (''time_stop'', ''inconclusive_ran_out_of_time'')] reason of Some v \<Rightarrow> v | None \<Rightarrow> ''inconclusive_data_ended'')"

definition build_decision_record :: "signal \<Rightarrow> trade \<Rightarrow> journal_record res" where
  "build_decision_record sg td = (case (sg_suggested_stop sg, sg_suggested_target sg) of
     (Some stop, Some target) \<Rightarrow>
       (let risk = \<bar>sg_entry_price sg - stop\<bar>; reward = \<bar>target - sg_entry_price sg\<bar> in
        rbind (if ftruth risk then fdiv reward risk else ok 0) (\<lambda>rr.
          ok \<lparr>dr_asset = td_asset td, dr_entry_time = td_entry_time td, dr_side = sg_side sg, dr_decision = sg_rationale sg,
            expected_reward_risk = rr, consequence_r_multiple = td_r_multiple td, consequence_net_pnl = td_net_pnl td,
            dr_exit_reason = td_exit_reason td, dr_verdict = thesis_verdict (td_exit_reason td)\<rparr>))
   | _ \<Rightarrow> raise (TypeError ''unsupported operand type''))"

text \<open>\<open>h\<close> is the digest, \<open>iso_text\<close> the text of a time.\<close>

definition side_value :: "side \<Rightarrow> string" where
  "side_value sd = (case sd of LONG \<Rightarrow> ''long'' | SHORT \<Rightarrow> ''short'')"

definition raw_identity :: "(datetime \<Rightarrow> string) \<Rightarrow> journal_record \<Rightarrow> string" where
  "raw_identity iso_text r = dr_asset r @ ''|'' @ iso_text (dr_entry_time r) @ ''|'' @ side_value (dr_side r) @ ''|'' @ dr_decision r"

definition decision_id_for :: "(string \<Rightarrow> string) \<Rightarrow> (datetime \<Rightarrow> string) \<Rightarrow> journal_record \<Rightarrow> string" where
  "decision_id_for h iso_text r = h (raw_identity iso_text r)"

type_synonym journal_table = "string \<Rightarrow> journal_record option"

text \<open>\<open>ON CONFLICT (decision_id) DO UPDATE\<close>: asset, time and side of the first row stay.\<close>

definition upsert_decision :: "(string \<Rightarrow> string) \<Rightarrow> (datetime \<Rightarrow> string) \<Rightarrow> journal_record \<Rightarrow> journal_table \<Rightarrow> journal_table" where
  "upsert_decision h iso_text r tb = (let k = decision_id_for h iso_text r in tb(k \<mapsto> (case tb k of
     None \<Rightarrow> r
   | Some old \<Rightarrow> r\<lparr>dr_asset := dr_asset old, dr_entry_time := dr_entry_time old, dr_side := dr_side old\<rparr>)))"

definition store_decisions :: "(string \<Rightarrow> string) \<Rightarrow> (datetime \<Rightarrow> string) \<Rightarrow> journal_record list \<Rightarrow> journal_table \<Rightarrow> journal_table" where
  "store_decisions h iso_text rs tb = fold (upsert_decision h iso_text) rs tb"

section \<open>Promotions\<close>

lemma live_objection_None:
  "live_objection env ev = None \<longleftrightarrow> token_matches env (confirm_token ev) \<and> preflight_passed ev \<and> gate_1_passed ev \<and>
    reconciliation_clean ev \<and> drills_passed ev \<and>
    (case pbo_deflated_sharpe ev of None \<Rightarrow> True | Some p \<Rightarrow> \<not> fl (1/2) \<le> p) \<and>
    (case deflated_sharpe ev of None \<Rightarrow> True | Some d \<Rightarrow> \<not> d \<le> 0)"
  by (auto simp: live_objection_def split: option.splits if_splits)

text \<open>The ladder of the modes by their names, and what the promotion onto its rung \<open>i + 1\<close> asks for.\<close>

definition mode_ladder :: "string list" where
  "mode_ladder = [''backtest'', ''paper'', ''shadow'', ''live_restricted'', ''live_full'']"

definition operator_confirmed :: "environment \<Rightarrow> promotion_evidence \<Rightarrow> bool" where
  "operator_confirmed env ev \<longleftrightarrow>
    (case env ''PROMOTE_CONFIRMATION_TOKEN'' of None \<Rightarrow> False | Some t \<Rightarrow> t \<noteq> [] \<and> confirm_token ev = t)"

definition statistics_allow :: "promotion_evidence \<Rightarrow> bool" where
  "statistics_allow ev \<longleftrightarrow> (case pbo_deflated_sharpe ev of None \<Rightarrow> True | Some p \<Rightarrow> \<not> fl (1/2) \<le> p) \<and>
    (case deflated_sharpe ev of None \<Rightarrow> True | Some d \<Rightarrow> \<not> d \<le> 0)"

definition evidence_for_rung :: "environment \<Rightarrow> nat \<Rightarrow> promotion_evidence \<Rightarrow> bool" where
  "evidence_for_rung env n ev \<longleftrightarrow> preflight_passed ev \<and> (if 2 \<le> n then reconciliation_clean ev else True) \<and>
    (if 3 \<le> n then operator_confirmed env ev \<and> gate_1_passed ev \<and> drills_passed ev \<and> statistics_allow ev else True)"

lemma token_matches_confirmed: "token_matches env (confirm_token ev) = operator_confirmed env ev"
  by (auto simp: token_matches_def operator_confirmed_def Let_def split: option.splits)

fun rung :: "execution_mode \<Rightarrow> nat" where
  "rung BACKTEST = 0"
| "rung PAPER = 1"
| "rung SHADOW = 2"
| "rung LIVE_RESTRICTED = 3"
| "rung LIVE_FULL = 4"

lemma promote_rung:
  "promote_execution_mode env c t ev = None \<longleftrightarrow> rung t = rung c + 1 \<and> evidence_for_rung env (rung t) ev"
  by (cases c; cases t)
    (auto simp: promote_execution_mode_def evidence_for_rung_def live_objection_None token_matches_confirmed statistics_allow_def
      split: if_splits)

lemma mode_of_text_rung: "mode_of_text s = Some m \<longleftrightarrow> map lower_char s = mode_ladder ! rung m"
  by (cases m) (auto simp: mode_ladder_def split: if_splits)

lemma rung_onto: "n \<le> 4 \<Longrightarrow> \<exists>m. rung m = n" "rung m \<le> 4"
proof -
  assume "n \<le> 4"
  then have "n \<in> {rung BACKTEST, rung PAPER, rung SHADOW, rung LIVE_RESTRICTED, rung LIVE_FULL}" by auto
  then show "\<exists>m. rung m = n" by blast
qed (cases m; simp)

lemma ladder_neighbours:
  "(\<exists>c t. P (rung c) \<and> Q (rung t) \<and> rung t = rung c + 1 \<and> R (rung t)) \<longleftrightarrow> (\<exists>n. 1 \<le> n \<and> n \<le> 4 \<and> P (n - 1) \<and> Q n \<and> R n)"
proof
  assume "\<exists>c t. P (rung c) \<and> Q (rung t) \<and> rung t = rung c + 1 \<and> R (rung t)"
  then obtain c t where "P (rung c)" "Q (rung t)" "rung t = rung c + 1" "R (rung t)" by blast
  then show "\<exists>n. 1 \<le> n \<and> n \<le> 4 \<and> P (n - 1) \<and> Q n \<and> R n" using rung_onto(2) [of t] by (intro exI [of _ "rung t"]) auto
next
  assume "\<exists>n. 1 \<le> n \<and> n \<le> 4 \<and> P (n - 1) \<and> Q n \<and> R n"
  then obtain n :: nat where n: "1 \<le> n" "n \<le> 4" "P (n - 1)" "Q n" "R n" by blast
  then obtain c t where "rung c = n - 1" "rung t = n" using rung_onto(1) [of n] rung_onto(1) [of "n - 1"] by force
  then show "\<exists>c t. P (rung c) \<and> Q (rung t) \<and> rung t = rung c + 1 \<and> R (rung t)" using n by (intro exI [of _ c] exI [of _ t]) simp
qed

text \<open>C35: The promotion script grants exactly the next rung, on its evidence: it exits with 0 if and only if the modes it is given are, up
  to letter case, neighbours of the ladder backtest, paper, shadow, live restricted, live full, in this order, and the
  evidence shows a passed preflight, for shadow and above a clean reconciliation, and for the two live modes the operator's
  non-empty token, Gate 1, the drills, and, where they are given, a probability of overfitting that is not 0.5 or more and a
  deflated Sharpe ratio that is not 0 or less; in every other case it exits with 1.\<close>

theorem promotions_climb_on_evidence:
  "promote_main env from_mode to_mode ev =
    (if \<exists>n. 1 \<le> n \<and> n \<le> 4 \<and> map lower_char from_mode = mode_ladder ! (n - 1) \<and> map lower_char to_mode = mode_ladder ! n \<and>
       evidence_for_rung env n ev
     then 0 else 1)"
proof -
  have "promote_main env from_mode to_mode ev = 0 \<longleftrightarrow> (\<exists>c t. map lower_char from_mode = mode_ladder ! rung c \<and>
      map lower_char to_mode = mode_ladder ! rung t \<and> rung t = rung c + 1 \<and> evidence_for_rung env (rung t) ev)"
    unfolding mode_of_text_rung [symmetric] promote_main_def
    by (auto simp: promote_rung simp del: mode_of_text.simps split: option.splits)
  also have "\<dots> \<longleftrightarrow> (\<exists>n. 1 \<le> n \<and> n \<le> 4 \<and> map lower_char from_mode = mode_ladder ! (n - 1) \<and>
      map lower_char to_mode = mode_ladder ! n \<and> evidence_for_rung env n ev)"
    by (rule ladder_neighbours)
  finally have "promote_main env from_mode to_mode ev = 0 \<longleftrightarrow> \<dots>" .
  moreover have "promote_main env from_mode to_mode ev \<in> {0, 1}"
    by (simp add: promote_main_def del: mode_of_text.simps split: option.splits)
  ultimately show ?thesis by (simp only: insert_iff empty_iff) (metis zero_neq_one)
qed

definition full_evidence :: promotion_evidence where
  "full_evidence = \<lparr>confirm_token = ''go'', preflight_passed = True, gate_1_passed = True, reconciliation_clean = True,
     drills_passed = True, pbo_deflated_sharpe = Some (Fin (1/4)), deflated_sharpe = Some (Fin 1)\<rparr>"

lemma ex_rung: "(\<exists>n :: nat. 1 \<le> n \<and> n \<le> 4 \<and> P n) \<longleftrightarrow> P 1 \<or> P 2 \<or> P 3 \<or> P 4"
proof -
  have "1 \<le> n \<and> n \<le> 4 \<longleftrightarrow> n \<in> {1, 2, 3, 4}" for n :: nat by auto
  then have "(\<exists>n. 1 \<le> n \<and> n \<le> 4 \<and> P n) \<longleftrightarrow> (\<exists>n \<in> {1, 2, 3, 4}. P n)" by blast
  then show ?thesis by simp
qed

lemma lower_modes:
  "map lower_char ''Shadow'' = ''shadow''" "map lower_char ''LIVE_RESTRICTED'' = ''live_restricted''"
  "map lower_char ''shadow'' = ''shadow''" "map lower_char ''live_restricted'' = ''live_restricted''"
  "map lower_char ''paper'' = ''paper''"
  by code_simp+

theorem promotions_climb_on_evidence_witness:
  "promote_main (\<lambda>_. Some ''go'') ''Shadow'' ''LIVE_RESTRICTED'' full_evidence = 0 \<and>
   promote_main (\<lambda>_. Some ''go'') ''shadow'' ''live_restricted'' (full_evidence\<lparr>pbo_deflated_sharpe := Some (Fin (1/2))\<rparr>) = 1 \<and>
   promote_main (\<lambda>_. Some ''go'') ''paper'' ''live_restricted'' full_evidence = 1"
proof -
  have "evidence_for_rung (\<lambda>_. Some ''go'') 3 full_evidence"
    "\<not> evidence_for_rung (\<lambda>_. Some ''go'') 3 (full_evidence\<lparr>pbo_deflated_sharpe := Some (Fin (1/2))\<rparr>)"
    by (simp_all add: evidence_for_rung_def operator_confirmed_def statistics_allow_def full_evidence_def fl_eval float_eval zero_Fin)
  then show ?thesis
    unfolding promotions_climb_on_evidence lower_modes ex_rung by (simp add: mode_ladder_def)
qed

text \<open>Without the two statistics, or with NaN for them, a live promotion is not stopped by them.\<close>

lemma statistics_are_optional:
  assumes "live_objection env ev = None"
  shows "live_objection env (ev\<lparr>pbo_deflated_sharpe := None, deflated_sharpe := None\<rparr>) = None"
    "live_objection env (ev\<lparr>pbo_deflated_sharpe := Some NaN, deflated_sharpe := Some NaN\<rparr>) = None"
  using assms by (simp_all add: live_objection_None)

section \<open>Secrets fail closed\<close>

lemma dset_lookup: "dget (dset k v sm) k' = (if k' = k then Some v else dget sm k')"
  by (simp add: update_conv')

text \<open>Rotating a webhook secret is read back and touches nothing else: a rotation that is accepted makes the secret of its channel the new
  value, non-empty, whatever the environment says, a refused one changes nothing, and every other secret reads as before.\<close>

theorem rotation_is_read_back:
  "case rotate_webhook_secret channel new_secret sm of (accepted, sm') \<Rightarrow>
    if accepted then (case secret_of_channel channel of None \<Rightarrow> False
      | Some key \<Rightarrow> new_secret \<noteq> [] \<and> (\<forall>k. get_secret env sm' k = (if k = key then ok new_secret else get_secret env sm k)))
    else sm' = sm"
  by (auto simp: rotate_webhook_secret_def get_secret_def lookup_secret_def dset_lookup non_empty_def split: option.splits)

text \<open>A secret that is returned is never empty, and an unknown name is never found in the environment.\<close>

lemma secrets_fail_closed:
  "get_secret env sm key = ok v \<Longrightarrow> v \<noteq> [] \<and> (dget sm key = Some v \<or> (\<exists>n. map_of SECRET_ENV_VARS key = Some n \<and> env n = Some v))"
  by (auto simp: get_secret_def lookup_secret_def non_empty_def split: option.splits if_splits Option.bind_splits)

text \<open>The metrics endpoint is closed by default: a request is authorized exactly when a token that is more than blanks is configured, the
  address is on the list (or the list has the wildcard) and the request shows that token, bare or as a bearer token.\<close>

theorem metrics_need_the_token:
  "authenticate_request (new_metrics_auth env bearer ips) token ip = Authorized \<longleftrightarrow>
    (let t = ma_token (new_metrics_auth env bearer ips); allowed = ma_allowed_ips (new_metrics_auth env bearer ips) in
     t \<noteq> [] \<and> (ip \<in> set allowed \<or> ''*'' \<in> set allowed) \<and> token \<in> {Some t, Some (''Bearer '' @ t)})"
  by (auto simp: authenticate_request_def new_metrics_auth_def non_empty_def Let_def split: option.splits if_splits)

section \<open>The journal replayed\<close>

definition merge_row :: "journal_record option \<Rightarrow> journal_record \<Rightarrow> journal_record" where
  "merge_row old r = (case old of None \<Rightarrow> r | Some o' \<Rightarrow> r\<lparr>dr_asset := dr_asset o', dr_entry_time := dr_entry_time o', dr_side := dr_side o'\<rparr>)"

lemma upsert_decision_at:
  "upsert_decision h iso_text r tb k = (if k = decision_id_for h iso_text r then Some (merge_row (tb k) r) else tb k)"
  by (simp add: upsert_decision_def merge_row_def Let_def split: option.split)

lemma merge_statics:
  "merge_row (Some (merge_row (Some x) r)) q = merge_row (Some x) q"
  by (simp add: merge_row_def)

lemma merge_same: "merge_row (Some (merge_row old r)) r = merge_row old r"
  by (cases old) (simp_all add: merge_row_def)

text \<open>The row of a key after a batch: identity of the first row ever stored there, outcome of the last record of the batch.\<close>

lemma store_decisions_at:
  "store_decisions h iso_text rs tb k = (let qs = filter (\<lambda>r. decision_id_for h iso_text r = k) rs in
     if qs = [] then tb k else Some (merge_row (Some (merge_row (tb k) (hd qs))) (last qs)))"
proof (induction rs rule: rev_induct)
  case (snoc r rs)
  show ?case
  proof (cases "decision_id_for h iso_text r = k")
    case True
    then show ?thesis
      using snoc by (auto simp: store_decisions_def upsert_decision_at Let_def merge_same merge_statics)
  qed (use snoc in \<open>auto simp: store_decisions_def upsert_decision_at Let_def\<close>)
qed (simp add: store_decisions_def)

text \<open>The journal can be replayed: storing the same batch of decisions again changes nothing, whatever was in the table, whatever the
  batch repeats and whatever the digest is; and each key keeps one row, with the outcome of its last record.\<close>

theorem journal_replay_is_idempotent:
  "store_decisions h iso_text rs (store_decisions h iso_text rs tb) = store_decisions h iso_text rs tb \<and>
   (\<forall>k. map_option consequence_net_pnl (store_decisions h iso_text rs tb k) = map_option consequence_net_pnl
      (case rev (filter (\<lambda>r. decision_id_for h iso_text r = k) rs) of [] \<Rightarrow> tb k | r # _ \<Rightarrow> Some r))"
proof
  show "store_decisions h iso_text rs (store_decisions h iso_text rs tb) = store_decisions h iso_text rs tb"
    by (intro ext) (simp add: store_decisions_at Let_def merge_statics)
  show "\<forall>k. map_option consequence_net_pnl (store_decisions h iso_text rs tb k) = map_option consequence_net_pnl
      (case rev (filter (\<lambda>r. decision_id_for h iso_text r = k) rs) of [] \<Rightarrow> tb k | r # _ \<Rightarrow> Some r)"
  proof
    fix k
    let ?qs = "filter (\<lambda>r. decision_id_for h iso_text r = k) rs"
    show "map_option consequence_net_pnl (store_decisions h iso_text rs tb k) = map_option consequence_net_pnl
        (case rev ?qs of [] \<Rightarrow> tb k | r # _ \<Rightarrow> Some r)"
      by (cases ?qs rule: rev_cases) (simp_all add: store_decisions_at Let_def merge_row_def)
  qed
qed

text \<open>The same trade with another rationale is another row, although asset, time and side are the same.\<close>

lemma rationale_splits_rows:
  assumes "dr_decision r \<noteq> dr_decision q" "dr_asset q = dr_asset r" "dr_entry_time q = dr_entry_time r" "dr_side q = dr_side r"
    "h (raw_identity iso_text r) = h (raw_identity iso_text q) \<Longrightarrow> raw_identity iso_text r = raw_identity iso_text q"
  shows "decision_id_for h iso_text r \<noteq> decision_id_for h iso_text q"
  using assms by (auto simp: decision_id_for_def raw_identity_def)

section \<open>Shutdown and its audit\<close>

text \<open>A release that raises skips the audit event although the shutdown is flagged.\<close>

lemma failed_release_is_not_audited:
  assumes "sig_name n = ok sig" "sh_manager s = Some m" "bk_release ops (mg_backend m) = (Inl e, b)"
  shows "case handle_signal ops log_event sig_name n s of (r, s') \<Rightarrow> r = Inl e \<and> sh_initiated s' \<and> sh_ledger s' = sh_ledger s"
  using assms by (simp add: handle_signal_def abind_apply release_if_def release_lock_def)

text \<open>A handler without a manager records a clean release all the same.\<close>

lemma release_is_claimed_without_a_lock:
  assumes "sig_name n = ok sig" "sh_manager s = None" "sh_ledger s = Some l" "log_event (sig, ''CLEAN_RELEASE'') l = (ok rec, l')"
  shows "sh_ledger (snd (handle_signal ops log_event sig_name n s)) = Some l'"
  using assms by (simp add: handle_signal_def abind_apply release_if_def audit_if_def)

end
