(* ===== verification/Agents.thy ===== *)
theory Agents
  imports Lob "HOL-Library.Multiset"
begin

text \<open>
  \<open>synthetic/agents/personas.py\<close>, \<open>base_agent.py\<close> and \<open>orchestrator.py\<close>: the population that trades against the simulated book.  An
  agent's turn reads the clock, the decay table of the micro price and the text of an integer from its environment; a turn whose
  placement does not end is \<open>None\<close>.  The generator the orchestrator owns is read by nothing and is left out.
\<close>

section \<open>Personas\<close>

record agent_env =
  ge_now :: pyfloat
  ge_post :: pyfloat
  ge_cancel :: pyfloat
  ge_clock :: "nat \<Rightarrow> pyfloat"
  ge_decay :: "nat \<Rightarrow> pyfloat"
  ge_int_text :: "int \<Rightarrow> string"

datatype persona = HFTMarketMaker | InstitutionalVWAP | RetailMomentum | AdversarialSpoofer "string list" | CoordinatedPredatorSwarm
  | LiquidityVampire

record agent =
  ag_id :: string
  ag_persona :: persona

definition agent_order :: "agent_env \<Rightarrow> agent \<Rightarrow> string \<Rightarrow> string \<Rightarrow> pyfloat \<Rightarrow> pyfloat \<Rightarrow> limit_order" where
  "agent_order env ag ending sd price qty = new_limit_order (ge_post env) (ag_id ag @ ending) sd price qty (ge_now env) (ag_id ag)"

definition hft_action :: "agent_env \<Rightarrow> agent \<Rightarrow> lob \<Rightarrow> limit_order list res" where
  "hft_action env ag b = rbind (get_micro_price (ge_decay env) b) (\<lambda>mp.
     ok [agent_order env ag ''_b'' ''buy'' (mp - fl (1/2)) 1, agent_order env ag ''_a'' ''sell'' (mp + fl (1/2)) 1])"

definition cancel_all :: "pyfloat \<Rightarrow> string list \<Rightarrow> lob \<Rightarrow> lob" where
  "cancel_all now_ms ids b = fold (\<lambda>sid b. snd (lob_cancel_order now_ms sid b)) ids b"

text \<open>The spoofer takes back what it placed, then places one order far larger than the market.\<close>

definition spoofer_action :: "agent_env \<Rightarrow> agent \<Rightarrow> string list \<Rightarrow> lob \<Rightarrow> limit_order list res \<times> agent \<times> lob" where
  "spoofer_action env ag ids b =
    (let b1 = cancel_all (ge_cancel env) ids b; bid = fst (get_best_bid_ask b1) in
     case int_of_float (ge_now env) of
       Inl e \<Rightarrow> (Inl e, ag\<lparr>ag_persona := AdversarialSpoofer []\<rparr>, b1)
     | Inr n \<Rightarrow> (let ending = ''_spoof_'' @ ge_int_text env n in
         (ok [agent_order env ag ending ''buy'' (bid - fl (2/10)) (fl 50)], ag\<lparr>ag_persona := AdversarialSpoofer [ag_id ag @ ending]\<rparr>, b1)))"

definition decide_action :: "agent_env \<Rightarrow> agent \<Rightarrow> lob \<Rightarrow> limit_order list res \<times> agent \<times> lob" where
  "decide_action env ag b = (let bid = fst (get_best_bid_ask b); ask = snd (get_best_bid_ask b) in case ag_persona ag of
     HFTMarketMaker \<Rightarrow> (hft_action env ag b, ag, b)
   | InstitutionalVWAP \<Rightarrow> (ok [agent_order env ag ''_buy'' ''buy'' bid (fl (1/2))], ag, b)
   | RetailMomentum \<Rightarrow> (ok [agent_order env ag ''_mkt'' ''buy'' (ask + fl 5) (fl (3/2))], ag, b)
   | AdversarialSpoofer ids \<Rightarrow> spoofer_action env ag ids b
   | CoordinatedPredatorSwarm \<Rightarrow> (ok [agent_order env ag ''_dump'' ''sell'' (bid - fl 10) (fl 5)], ag, b)
   | LiquidityVampire \<Rightarrow> (ok [agent_order env ag ''_frontrun'' ''buy'' (bid + fl (1/100)) (fl (2/10))], ag, b))"

section \<open>The orchestrator\<close>

record orchestrator =
  oc_lob :: lob
  oc_quarantined :: "(string, nat \<times> pyerr) dict"
  oc_quarantine_count :: nat

definition initial_population :: "agent list" where
  "initial_population = [\<lparr>ag_id = ''hft_1'', ag_persona = HFTMarketMaker\<rparr>, \<lparr>ag_id = ''hft_2'', ag_persona = HFTMarketMaker\<rparr>,
     \<lparr>ag_id = ''vwap_1'', ag_persona = InstitutionalVWAP\<rparr>, \<lparr>ag_id = ''retail_1'', ag_persona = RetailMomentum\<rparr>,
     \<lparr>ag_id = ''spoofer_1'', ag_persona = AdversarialSpoofer []\<rparr>, \<lparr>ag_id = ''swarm_1'', ag_persona = CoordinatedPredatorSwarm\<rparr>,
     \<lparr>ag_id = ''vampire_1'', ag_persona = LiquidityVampire\<rparr>]"

definition new_orchestrator :: "lob \<Rightarrow> orchestrator" where
  "new_orchestrator b = \<lparr>oc_lob = b, oc_quarantined = [], oc_quarantine_count = 0\<rparr>"

text \<open>Placing the orders of a turn: a refused placement is not counted, any other exception ends the turn.\<close>

fun place_all :: "agent_env \<Rightarrow> limit_order list \<Rightarrow> nat \<Rightarrow> lob \<Rightarrow> (nat res \<times> lob) option" where
  "place_all env [] n b = Some (ok n, b)"
| "place_all env (x # xs) n b = (case place_order (ge_clock env) x 0 b of
     None \<Rightarrow> None
   | Some (Inr _, b1) \<Rightarrow> place_all env xs (n + 1) b1
   | Some (Inl (BookIntegrityViolation _), b1) \<Rightarrow> place_all env xs n b1
   | Some (Inl e, b1) \<Rightarrow> Some (Inl e, b1))"

definition quarantine_agent :: "string \<Rightarrow> pyerr \<Rightarrow> orchestrator \<Rightarrow> orchestrator" where
  "quarantine_agent aid e oc = oc\<lparr>oc_quarantined := dset aid ((case dget (oc_quarantined oc) aid of None \<Rightarrow> 0 | Some q \<Rightarrow> fst q) + 1, e) (oc_quarantined oc),
     oc_quarantine_count := oc_quarantine_count oc + 1\<rparr>"

definition run_agent :: "agent_env \<Rightarrow> agent \<Rightarrow> orchestrator \<Rightarrow> (nat \<times> agent \<times> orchestrator) option" where
  "run_agent env ag oc = (case decide_action env ag (oc_lob oc) of
     (Inl e, ag1, b1) \<Rightarrow> Some (0, ag1, quarantine_agent (ag_id ag) e (oc\<lparr>oc_lob := b1\<rparr>))
   | (Inr orders, ag1, b1) \<Rightarrow> (case place_all env orders 0 b1 of
       None \<Rightarrow> None
     | Some (Inr n, b2) \<Rightarrow> Some (n, ag1, oc\<lparr>oc_lob := b2\<rparr>)
     | Some (Inl e, b2) \<Rightarrow> Some (0, ag1, quarantine_agent (ag_id ag) e (oc\<lparr>oc_lob := b2\<rparr>))))"

text \<open>The agents that take part, in the order of the population; each reads its own environment.\<close>

fun run_each :: "(agent \<Rightarrow> bool) \<Rightarrow> (string \<Rightarrow> agent_env) \<Rightarrow> agent list \<Rightarrow> orchestrator \<Rightarrow> (nat \<times> agent list \<times> orchestrator) option" where
  "run_each P envs [] oc = Some (0, [], oc)"
| "run_each P envs (ag # ags) oc = (if P ag
     then (case run_agent (envs (ag_id ag)) ag oc of
        None \<Rightarrow> None
      | Some (n, ag1, oc1) \<Rightarrow> map_option (\<lambda>(m, ags1, oc2). (n + m, ag1 # ags1, oc2)) (run_each P envs ags oc1))
     else map_option (\<lambda>(m, ags1, oc2). (m, ag # ags1, oc2)) (run_each P envs ags oc))"

definition orchestrator_step :: "(string \<Rightarrow> agent_env) \<Rightarrow> agent list \<Rightarrow> orchestrator \<Rightarrow> (nat \<times> agent list \<times> orchestrator) option" where
  "orchestrator_step = run_each (\<lambda>_. True)"

definition trigger_coordinated_attack :: "string \<Rightarrow> (string \<Rightarrow> agent_env) \<Rightarrow> agent list \<Rightarrow> orchestrator \<Rightarrow> (nat \<times> agent list \<times> orchestrator) option" where
  "trigger_coordinated_attack attack envs ags oc = (if attack = ''predator_swarm''
     then run_each (\<lambda>ag. ag_persona ag = CoordinatedPredatorSwarm) envs ags oc else Some (0, ags, oc))"

datatype orchestrator_call = Step "string \<Rightarrow> agent_env" | Attack string "string \<Rightarrow> agent_env"

text \<open>A simulation: the orders placed by each call, and where it ends.\<close>

fun simulate :: "orchestrator_call list \<Rightarrow> agent list \<Rightarrow> orchestrator \<Rightarrow> (nat list \<times> agent list \<times> orchestrator) option" where
  "simulate [] ags oc = Some ([], ags, oc)"
| "simulate (c # cs) ags oc = (case (case c of Step envs \<Rightarrow> orchestrator_step envs ags oc | Attack a envs \<Rightarrow> trigger_coordinated_attack a envs ags oc) of
     None \<Rightarrow> None
   | Some (n, ags1, oc1) \<Rightarrow> map_option (\<lambda>(ns, r). (n # ns, r)) (simulate cs ags1 oc1))"

section \<open>The ids that rest\<close>

definition resting :: "lob \<Rightarrow> string multiset" where
  "resting b = mset (map order_id (bids b)) + mset (map order_id (asks b))"

lemma insert_order_mset: "mset (insert_order buy x ys) = add_mset x (mset ys)"
  by (induction ys) auto

lemma sort_book_mset [simp]: "mset (sort_book buy xs) = mset xs"
  unfolding sort_book_def by (induction xs) (simp_all add: insert_order_mset)

lemma sort_book_ids [simp]: "mset (map order_id (sort_book buy xs)) = mset (map order_id xs)"
  by (metis mset_map sort_book_mset)

lemma match_step_ids:
  "match_step buy src fp pen draws clock st = r \<Longrightarrow>
    (case r of Inl st' \<Rightarrow> mset (map order_id (ms_book st')) \<subseteq># mset (map order_id (ms_book st)) \<and> order_id (ms_order st') = order_id (ms_order st)
     | Inr (_, st') \<Rightarrow> ms_book st' = ms_book st \<and> order_id (ms_order st') = order_id (ms_order st))"
  by (auto simp: match_step_def match_best_def Let_def split: list.splits if_splits)

lemma match_loop_ids:
  assumes "match_loop buy src fp pen draws clock st = Some (s, st')"
  shows "mset (map order_id (ms_book st')) \<subseteq># mset (map order_id (ms_book st)) \<and> order_id (ms_order st') = order_id (ms_order st)"
proof -
  let ?P = "\<lambda>(buy :: bool) (src :: source_tag) (fp :: pyfloat) (pen :: pyfloat) (draws :: nat \<Rightarrow> pyfloat) (clock :: nat \<Rightarrow> pyfloat)
      (st :: match_state) (r :: bool \<times> match_state).
    mset (map order_id (ms_book (snd r))) \<subseteq># mset (map order_id (ms_book st)) \<and> order_id (ms_order (snd r)) = order_id (ms_order st)"
  have "?P buy src fp pen draws clock st (s, st')"
  proof (rule match_loop.raw_induct [OF _ assms, of ?P])
    fix loop buy src fp pen draws clock and st :: match_state and r :: "bool \<times> match_state"
    assume IH: "\<And>buy src fp pen draws clock st r. loop buy src fp pen draws clock st = Some r \<Longrightarrow> ?P buy src fp pen draws clock st r"
      and r: "(case match_step buy src fp pen draws clock st of Inl st' \<Rightarrow> loop buy src fp pen draws clock st' | Inr r \<Rightarrow> Some r) = Some r"
    have step: "case match_step buy src fp pen draws clock st of
        Inl st' \<Rightarrow> mset (map order_id (ms_book st')) \<subseteq># mset (map order_id (ms_book st)) \<and> order_id (ms_order st') = order_id (ms_order st)
      | Inr (_, st') \<Rightarrow> ms_book st' = ms_book st \<and> order_id (ms_order st') = order_id (ms_order st)"
      by (rule match_step_ids [OF refl])
    show "?P buy src fp pen draws clock st r"
    proof (cases "match_step buy src fp pen draws clock st")
      case (Inl st1)
      then show ?thesis using IH [of buy src fp pen draws clock st1 r] r step by (auto intro: subset_mset.order_trans)
    next
      case (Inr q)
      then show ?thesis using r step by (auto split: prod.splits)
    qed
  qed
  then show ?thesis by simp
qed

lemma resting_unfold: "mset (map order_id (own_side buy b)) + mset (map order_id (other_side buy b)) = resting b"
  by (cases buy) (simp_all add: own_side_def other_side_def resting_def)

lemma remove1_ids: "mset (map order_id (remove1 x xs)) \<subseteq># mset (map order_id xs)"
  by (induction xs) (auto intro: subset_mset.order_trans)

lemma reject_ids: "resting (reject_crossing_residual x b) \<subseteq># resting b"
  unfolding reject_crossing_residual_def resting_def by (simp del: mset_map mset_remove1 add: subset_mset.add_mono remove1_ids)

lemma rest_residual_ids: "resting (snd (rest_residual buy x b)) \<subseteq># add_mset (order_id x) (resting b)"
proof -
  let ?sorted = "sort_book buy ((if buy then bids b else asks b) @ [x])"
  have "mset (map order_id (remove1 x ?sorted)) \<subseteq># mset (map order_id ?sorted)" by (rule remove1_ids)
  then have drop: "mset (map order_id (remove1 x ?sorted)) \<subseteq># add_mset (order_id x) (mset (map order_id (if buy then bids b else asks b)))"
    by simp
  show ?thesis
    using drop by (cases buy) (auto simp: rest_residual_def check_book_integrity_def log_violation_def resting_def Let_def
        subset_mset.add_right_mono intro: subset_mset.add_left_mono split: list.splits)
qed

text \<open>A placement adds at most its own id.\<close>

lemma place_side_ids:
  assumes "place_side buy clock x stress b = Some (r, b')"
  shows "resting b' \<subseteq># add_mset (order_id x) (resting b)"
proof -
  let ?st0 = "\<lparr>ms_order = x, ms_book = (if buy then asks b else bids b), ms_price = current_price b, ms_fills = [], ms_events = event_log b,
     ms_drawn = rng_drawn b\<rparr>"
  obtain slipped st where loop: "match_loop buy (source_of x) (get_effective_fill_probability b stress) (slip_penalty_ms stress) (rng_draws b)
      clock ?st0 = Some (slipped, st)"
    using assms by (auto simp: place_side_def split: option.splits)
  note ids = match_loop_ids [OF loop]
  define b1 where "b1 = (if buy then b\<lparr>asks := ms_book st\<rparr> else b\<lparr>bids := ms_book st\<rparr>)
      \<lparr>current_price := ms_price st, event_log := ms_events st, rng_drawn := ms_drawn st\<rparr>"
  have base: "resting b1 \<subseteq># resting b"
    using ids by (cases buy) (auto simp: b1_def resting_def intro: subset_mset.add_mono)
  have "b' = log_violation (reject_crossing_residual (ms_order st) b1) \<or>
      b' = snd (abind (rest_residual buy (ms_order st)) (\<lambda>_. areturn (ms_fills st)) b1) \<or> b' = b1"
    using assms loop by (auto simp: place_side_def b1_def Let_def split: if_splits)
  moreover have "snd (abind (rest_residual buy (ms_order st)) (\<lambda>_. areturn (ms_fills st)) b1) = snd (rest_residual buy (ms_order st) b1)"
    by (simp add: abind_apply split: prod.split sum.split)
  moreover have "resting (log_violation c) = resting c" for c by (simp add: resting_def log_violation_def)
  moreover have "order_id (ms_order st) = order_id x" using ids by simp
  moreover have "resting b1 \<subseteq># add_mset (order_id x) (resting b)"
    using base subset_mset.order_trans [OF base] by auto
  ultimately show ?thesis
    using reject_ids [of "ms_order st" b1] rest_residual_ids [of buy "ms_order st" b1] base
    by (auto intro: subset_mset.order_trans)
qed

lemma place_order_ids: "place_order clock x stress b = Some (r, b') \<Longrightarrow> resting b' \<subseteq># add_mset (order_id x) (resting b)"
  by (auto simp: place_order_def place_buy_def place_sell_def place_side_ids split: if_splits)

text \<open>A cancellation takes out one occurrence of its id, if there is one.\<close>

lemma take_order_ids:
  "take_order oid xs = Some (x, rest) \<Longrightarrow> mset (map order_id rest) = mset (map order_id xs) - {#oid#} \<and> oid \<in># mset (map order_id xs)"
  by (drule take_order_split) auto

lemma diff_left: "oid \<in># A \<Longrightarrow> (A - {#oid#}) + B = A + B - {#oid#}" "oid \<in># B \<Longrightarrow> A + (B - {#oid#}) = A + B - {#oid#}"
  by (auto dest!: multi_member_split)

lemma cancel_ids: "resting (snd (lob_cancel_order now_ms oid b)) = resting b - {#oid#}"
proof (cases "take_order oid (bids b)")
  case nb: None
  then have b: "oid \<notin># mset (map order_id (bids b))" by (auto simp: take_order_None)
  show ?thesis
  proof (cases "take_order oid (asks b)")
    case None
    then have "oid \<notin># resting b" using b by (auto simp: resting_def take_order_None)
    then show ?thesis using None nb by (simp add: lob_cancel_order_def diff_single_trivial)
  next
    case (Some p)
    obtain x rest where p: "p = (x, rest)" by force
    note t = take_order_ids [OF Some [unfolded p]]
    have "resting (snd (lob_cancel_order now_ms oid b)) = mset (map order_id (bids b)) + mset (map order_id rest)"
      using Some nb by (simp add: lob_cancel_order_def p resting_def)
    then show ?thesis using t diff_left(2) [OF conjunct2 [OF t]] by (simp only: resting_def)
  qed
next
  case (Some p)
  obtain x rest where p: "p = (x, rest)" by force
  note t = take_order_ids [OF Some [unfolded p]]
  have "resting (snd (lob_cancel_order now_ms oid b)) = mset (map order_id rest) + mset (map order_id (asks b))"
    using Some by (simp add: lob_cancel_order_def p resting_def)
  then show ?thesis using t diff_left(1) [OF conjunct2 [OF t]] by (simp only: resting_def)
qed

lemma cancel_all_ids: "resting (cancel_all now_ms ids b) = resting b - mset ids"
  by (induction ids arbitrary: b) (simp_all add: cancel_all_def cancel_ids diff_diff_add)

lemma cancel_all_inv: "lob_inv b \<Longrightarrow> lob_inv (cancel_all now_ms ids b)"
  by (induction ids arbitrary: b) (simp_all add: cancel_all_def lob_inv_cancel)

section \<open>A turn\<close>

lemma micro_price_ok: "\<exists>mp. get_micro_price decay b = ok mp"
proof -
  have pos: "\<not> v \<le> 0 \<Longrightarrow> \<exists>q. fdiv x v = ok q" for x v by (cases v; cases x) (auto simp: zero_Fin)
  have two: "\<exists>q. fdiv x (fl 2) = ok q" for x by (cases x) (simp_all add: fl_eval float_eval)
  show ?thesis using pos two by (auto simp: get_micro_price_def Let_def split: list.split)
qed

definition env_ok :: "agent_env \<Rightarrow> bool" where
  "env_ok env \<longleftrightarrow> is_finite (ge_now env) \<and> ge_post env \<noteq> NaN"

definition good_order :: "limit_order \<Rightarrow> bool" where
  "good_order x \<longleftrightarrow> order_placeable x \<and> priority_timestamp_ms x \<noteq> NaN \<and> lo_side x \<in> {''buy'', ''sell''}"

lemma agent_order_good:
  assumes "env_ok env" "filling 0 qty" "sd \<in> {''buy'', ''sell''}"
  shows "good_order (agent_order env ag ending sd price qty)" "order_id (agent_order env ag ending sd price qty) = ag_id ag @ ending"
proof -
  have "NaN \<noteq> (0 :: pyfloat)" by (simp add: zero_Fin)
  moreover have "ge_now env \<noteq> NaN" using assms(1) by (auto simp: env_ok_def is_finite_def)
  ultimately show "good_order (agent_order env ag ending sd price qty)"
    using assms by (auto simp: good_order_def agent_order_def new_limit_order_def limit_order_post_init_def Let_def order_placeable_def
        order_filling_def env_ok_def feq_def)
  show "order_id (agent_order env ag ending sd price qty) = ag_id ag @ ending"
    by (simp add: agent_order_def new_limit_order_def limit_order_post_init_def Let_def)
qed

lemma agent_sizes: "filling 0 1" "filling 0 (fl (1/2))" "filling 0 (fl (3/2))" "filling 0 (fl 5)" "filling 0 (fl (1/5))" "filling 0 (fl 50)"
  by (simp_all add: zero_Fin one_Fin fl_eval float_eval filling_Fin)

lemma place_all_good:
  "lob_inv b \<Longrightarrow> \<forall>x\<in>set xs. good_order x \<Longrightarrow>
    \<exists>m b'. place_all env xs n b = Some (ok m, b') \<and> m \<le> n + length xs \<and> lob_inv b' \<and> resting b' \<subseteq># mset (map order_id xs) + resting b"
proof (induction xs arbitrary: n b)
  case (Cons x xs)
  have x: "order_placeable x" "priority_timestamp_ms x \<noteq> NaN" "lo_side x \<in> {''buy'', ''sell''}" using Cons.prems(2) by (simp_all add: good_order_def)
  obtain r b1 where r: "place_order (ge_clock env) x 0 b = Some (r, b1)" "lob_inv b1"
      "(\<exists>e. r = Inl (BookIntegrityViolation e)) \<or> (\<exists>fills. r = ok fills)"
    by (rule place_order_outcome [OF Cons.prems(1) x(1,2), of "ge_clock env" 0]) (use x(3) in auto)
  have ids: "resting b1 \<subseteq># add_mset (order_id x) (resting b)" using place_order_ids [OF r(1)] .
  obtain m b' where m: "place_all env xs (if \<exists>fills. r = ok fills then n + 1 else n) b1 = Some (ok m, b')"
      "m \<le> (if \<exists>fills. r = ok fills then n + 1 else n) + length xs" "lob_inv b'" "resting b' \<subseteq># mset (map order_id xs) + resting b1"
    using Cons.IH [OF r(2)] Cons.prems(2) by (metis list.set_intros(2))
  have "resting b' \<subseteq># mset (map order_id (x # xs)) + resting b"
    using subset_mset.order_trans [OF m(4) subset_mset.add_left_mono [OF ids]] by simp
  moreover have "place_all env (x # xs) n b = Some (ok m, b')" using r m(1) by auto
  ultimately show ?case using m(2,3) by (intro exI [of _ m] exI [of _ b']) (auto split: if_splits)
qed simp

definition sound :: "orchestrator \<Rightarrow> bool" where
  "sound oc \<longleftrightarrow> lob_inv (oc_lob oc) \<and> oc_quarantined oc = [] \<and> oc_quarantine_count oc = 0"

text \<open>What an agent other than the spoofer places, by id.\<close>

fun turn_ids :: "agent \<Rightarrow> string list" where
  "turn_ids ag = map ((@) (ag_id ag)) (case ag_persona ag of HFTMarketMaker \<Rightarrow> [''_b'', ''_a''] | InstitutionalVWAP \<Rightarrow> [''_buy'']
     | RetailMomentum \<Rightarrow> [''_mkt''] | AdversarialSpoofer _ \<Rightarrow> [] | CoordinatedPredatorSwarm \<Rightarrow> [''_dump''] | LiquidityVampire \<Rightarrow> [''_frontrun''])"

definition is_spoofer :: "agent \<Rightarrow> bool" where
  "is_spoofer ag = (case ag_persona ag of AdversarialSpoofer _ \<Rightarrow> True | _ \<Rightarrow> False)"

lemma plain_turn:
  assumes "env_ok env" "\<not> is_spoofer ag"
  obtains orders where "decide_action env ag b = (ok orders, ag, b)" "\<forall>x\<in>set orders. good_order x" "map order_id orders = turn_ids ag"
proof -
  obtain mp where mp: "get_micro_price (ge_decay env) b = ok mp" using micro_price_ok by blast
  note good = agent_order_good [OF assms(1)]
  show ?thesis
    using assms(2) that good agent_sizes mp
    by (cases "ag_persona ag") (simp_all add: decide_action_def hft_action_def is_spoofer_def Let_def)
qed

lemma plain_agent:
  assumes "env_ok env" "\<not> is_spoofer ag" "sound oc"
  obtains n oc' where "run_agent env ag oc = Some (n, ag, oc')" "n \<le> length (turn_ids ag)" "sound oc'"
    "resting (oc_lob oc') \<subseteq># mset (turn_ids ag) + resting (oc_lob oc)"
proof -
  obtain orders where o: "decide_action env ag (oc_lob oc) = (ok orders, ag, oc_lob oc)" "\<forall>x\<in>set orders. good_order x" "map order_id orders = turn_ids ag"
    by (rule plain_turn [OF assms(1,2)])
  obtain m b' where m: "place_all env orders 0 (oc_lob oc) = Some (ok m, b')" "m \<le> length orders" "lob_inv b'"
      "resting b' \<subseteq># mset (map order_id orders) + resting (oc_lob oc)"
    using place_all_good [OF _ o(2), of "oc_lob oc" env 0] assms(3) by (auto simp: sound_def)
  have "length orders = length (turn_ids ag)" using o(3) by (metis length_map)
  then show ?thesis
    using that [of m "oc\<lparr>oc_lob := b'\<rparr>"] o m assms(3) by (simp add: run_agent_def sound_def del: turn_ids.simps)
qed

section \<open>The spoofer leaves at most one order\<close>

definition spoof_id :: "string \<Rightarrow> bool" where
  "spoof_id oid \<longleftrightarrow> prefix ''spoofer_1_spoof_'' oid"

definition spoofs :: "lob \<Rightarrow> string multiset" where
  "spoofs b = filter_mset spoof_id (resting b)"

lemma spoofs_mono: "resting b' \<subseteq># A + resting b \<Longrightarrow> \<forall>x\<in>#A. \<not> spoof_id x \<Longrightarrow> spoofs b' \<subseteq># spoofs b"
proof -
  assume a: "resting b' \<subseteq># A + resting b" "\<forall>x\<in>#A. \<not> spoof_id x"
  have "filter_mset spoof_id A = {#}" using a(2) by (induction A) auto
  then show "spoofs b' \<subseteq># spoofs b" using multiset_filter_mono [OF a(1), of spoof_id] by (simp only: spoofs_def filter_union_mset empty_neutral)
qed

lemma spoofer_turn:
  assumes "env_ok env" "ag_id ag = ''spoofer_1''" "ag_persona ag = AdversarialSpoofer ids" "sound oc" "spoofs (oc_lob oc) \<subseteq># mset ids"
  obtains n oc' sid where "run_agent env ag oc = Some (n, ag\<lparr>ag_persona := AdversarialSpoofer [sid]\<rparr>, oc')" "n \<le> 1" "sound oc'"
    "spoofs (oc_lob oc') \<subseteq># {#sid#}"
proof -
  let ?b = "cancel_all (ge_cancel env) ids (oc_lob oc)"
  obtain t where t: "int_of_float (ge_now env) = ok t" using assms(1) by (cases "ge_now env") (auto simp: env_ok_def is_finite_def)
  define sid where "sid = ''spoofer_1_spoof_'' @ ge_int_text env t"
  define x where "x = agent_order env ag (''_spoof_'' @ ge_int_text env t) ''buy'' (fst (get_best_bid_ask ?b) - fl (2/10)) (fl 50)"
  have x: "good_order x" "order_id x = sid"
    using agent_order_good [OF assms(1)] agent_sizes assms(2) by (simp_all add: x_def sid_def)
  have inv: "lob_inv ?b" using assms(4) by (simp add: sound_def cancel_all_inv)
  obtain m b' where m: "place_all env [x] 0 ?b = Some (ok m, b')" "m \<le> 1" "lob_inv b'" "resting b' \<subseteq># {#sid#} + resting ?b"
    using place_all_good [OF inv, of "[x]" env 0] x by auto
  have none: "spoofs ?b = {#}"
    using multiset_filter_mono [OF assms(5), of spoof_id]
    by (simp add: spoofs_def cancel_all_ids filter_diff_mset filter_filter_mset Diff_eq_empty_iff_mset)
  have "filter_mset spoof_id (resting b') \<subseteq># filter_mset spoof_id ({#sid#} + resting ?b)" by (rule multiset_filter_mono [OF m(4)])
  then have "filter_mset spoof_id (resting b') \<subseteq># filter_mset spoof_id {#sid#}"
    using none by (simp only: spoofs_def filter_union_mset empty_neutral)
  then have "spoofs b' \<subseteq># {#sid#}" unfolding spoofs_def by (rule subset_mset.order_trans) simp
  moreover have "run_agent env ag oc = Some (m, ag\<lparr>ag_persona := AdversarialSpoofer [sid]\<rparr>, oc\<lparr>oc_lob := b'\<rparr>)"
    using m(1) t assms(2,3) by (simp add: run_agent_def decide_action_def spoofer_action_def Let_def x_def sid_def)
  ultimately show ?thesis using that m(2,3) assms(4) by (simp add: sound_def)
qed

section \<open>The population\<close>

lemma run_each_append:
  "run_each P envs (xs @ ys) oc = (case run_each P envs xs oc of None \<Rightarrow> None
    | Some (n, xs1, oc1) \<Rightarrow> map_option (\<lambda>(m, ys1, oc2). (n + m, xs1 @ ys1, oc2)) (run_each P envs ys oc1))"
proof (induction xs arbitrary: oc)
  case (Cons x xs)
  show ?case by (auto simp: Cons.IH option.map_comp comp_def split_beta add.assoc split: option.split intro!: option.map_cong)
qed (simp add: option.map_id)

lemma plain_agents:
  "\<lbrakk>\<forall>ag\<in>set ags. env_ok (envs (ag_id ag)) \<and> \<not> is_spoofer ag \<and> list_all (\<lambda>i. \<not> spoof_id i) (turn_ids ag); sound oc\<rbrakk> \<Longrightarrow>
    \<exists>n oc'. run_each P envs ags oc = Some (n, ags, oc') \<and> n \<le> (\<Sum>ag\<leftarrow>ags. length (turn_ids ag)) \<and> sound oc' \<and>
      spoofs (oc_lob oc') \<subseteq># spoofs (oc_lob oc)"
proof (induction ags arbitrary: oc)
  case (Cons ag ags)
  have ag: "env_ok (envs (ag_id ag))" "\<not> is_spoofer ag" "\<forall>i\<in>#mset (turn_ids ag). \<not> spoof_id i"
    using Cons.prems(1) by (simp_all add: list_all_iff del: turn_ids.simps)
  show ?case
  proof (cases "P ag")
    case True
    obtain n oc1 where r: "run_agent (envs (ag_id ag)) ag oc = Some (n, ag, oc1)" "n \<le> length (turn_ids ag)" "sound oc1"
        "resting (oc_lob oc1) \<subseteq># mset (turn_ids ag) + resting (oc_lob oc)"
      by (rule plain_agent [OF ag(1,2) Cons.prems(2)])
    obtain m oc2 where m: "run_each P envs ags oc1 = Some (m, ags, oc2)" "m \<le> (\<Sum>ag\<leftarrow>ags. length (turn_ids ag))" "sound oc2"
        "spoofs (oc_lob oc2) \<subseteq># spoofs (oc_lob oc1)"
      using Cons.IH [OF _ r(3)] Cons.prems(1) by (metis list.set_intros(2))
    then show ?thesis using True r(1,2) spoofs_mono [OF r(4) ag(3)] subset_mset.order_trans by (fastforce simp del: turn_ids.simps)
  next
    case False
    obtain m oc2 where "run_each P envs ags oc = Some (m, ags, oc2)" "m \<le> (\<Sum>ag\<leftarrow>ags. length (turn_ids ag))" "sound oc2"
        "spoofs (oc_lob oc2) \<subseteq># spoofs (oc_lob oc)"
      using Cons.IH [OF _ Cons.prems(2)] Cons.prems(1) by (metis list.set_intros(2))
    then show ?thesis using False by (auto simp del: turn_ids.simps)
  qed
qed simp

definition spoofer :: "string list \<Rightarrow> agent" where
  "spoofer ids = \<lparr>ag_id = ''spoofer_1'', ag_persona = AdversarialSpoofer ids\<rparr>"

definition population :: "string list \<Rightarrow> agent list" where
  "population ids = take 4 initial_population @ [spoofer ids] @ drop 5 initial_population"

definition call_ok :: "orchestrator_call \<Rightarrow> bool" where
  "call_ok c = list_all (\<lambda>ag. env_ok ((case c of Step envs \<Rightarrow> envs | Attack _ envs \<Rightarrow> envs) (ag_id ag))) initial_population"

text \<open>What holds between two calls.\<close>

definition quiet_market :: "string list \<Rightarrow> orchestrator \<Rightarrow> bool" where
  "quiet_market ids oc \<longleftrightarrow> sound oc \<and> spoofs (oc_lob oc) \<subseteq># mset ids \<and> length ids \<le> 1"

lemma population_plain:
  "list_all (\<lambda>ag. \<not> is_spoofer ag \<and> list_all (\<lambda>i. \<not> spoof_id i) (turn_ids ag)) (take 4 initial_population)"
  "list_all (\<lambda>ag. \<not> is_spoofer ag \<and> list_all (\<lambda>i. \<not> spoof_id i) (turn_ids ag)) (drop 5 initial_population)"
  by (simp_all add: initial_population_def is_spoofer_def spoof_id_def)

lemma run_population:
  assumes envs: "list_all (\<lambda>ag. env_ok (envs (ag_id ag))) initial_population" and q: "quiet_market ids oc"
  obtains n ids' oc' where "run_each P envs (population ids) oc = Some (n, population ids', oc')" "n \<le> 9" "quiet_market ids' oc'"
proof -
  let ?xs = "take 4 initial_population" and ?ys = "drop 5 initial_population" and ?sp = "spoofer ids"
  have plain: "\<forall>ag\<in>set ags. env_ok (envs (ag_id ag)) \<and> \<not> is_spoofer ag \<and> list_all (\<lambda>i. \<not> spoof_id i) (turn_ids ag)"
    if "ags = ?xs \<or> ags = ?ys" for ags
    using that envs population_plain in_set_takeD in_set_dropD unfolding list_all_iff by (metis (no_types, lifting))
  have sums: "(\<Sum>ag\<leftarrow>?xs. length (turn_ids ag)) = 6" "(\<Sum>ag\<leftarrow>?ys. length (turn_ids ag)) = 2" by (simp_all add: initial_population_def)
  have q': "sound oc" "spoofs (oc_lob oc) \<subseteq># mset ids" "length ids \<le> 1" using q by (auto simp: quiet_market_def)
  obtain n1 oc1 where a: "run_each P envs ?xs oc = Some (n1, ?xs, oc1)" "n1 \<le> 6" "sound oc1" "spoofs (oc_lob oc1) \<subseteq># spoofs (oc_lob oc)"
    using plain_agents [OF plain q'(1), of ?xs P] sums by auto
  have a5: "spoofs (oc_lob oc1) \<subseteq># mset ids" using subset_mset.order_trans [OF a(4) q'(2)] .
  have sp: "ag_id ?sp = ''spoofer_1''" "ag_persona ?sp = AdversarialSpoofer ids" by (simp_all add: spoofer_def)
  have env: "env_ok (envs (ag_id ?sp))" using envs by (simp add: initial_population_def spoofer_def)
  obtain n2 ids' oc2 where b: "run_each P envs [?sp] oc1 = Some (n2, [spoofer ids'], oc2)" "n2 \<le> 1" "sound oc2"
      "spoofs (oc_lob oc2) \<subseteq># mset ids'" "length ids' \<le> 1"
  proof (cases "P ?sp")
    case True
    obtain n2 oc2 sid where "run_agent (envs (ag_id ?sp)) ?sp oc1 = Some (n2, ?sp\<lparr>ag_persona := AdversarialSpoofer [sid]\<rparr>, oc2)" "n2 \<le> 1"
        "sound oc2" "spoofs (oc_lob oc2) \<subseteq># {#sid#}"
      using spoofer_turn [OF env sp a(3) a5] .
    then show ?thesis using that [of n2 "[sid]" oc2] True by (simp add: spoofer_def)
  next
    case False
    then show ?thesis using that [of 0 ids oc1] a(3) a5 q'(3) by simp
  qed
  obtain n3 oc3 where c: "run_each P envs ?ys oc2 = Some (n3, ?ys, oc3)" "n3 \<le> 2" "sound oc3" "spoofs (oc_lob oc3) \<subseteq># spoofs (oc_lob oc2)"
    using plain_agents [OF plain b(3), of ?ys P] sums by auto
  have "quiet_market ids' oc3" using c(3) b(5) subset_mset.order_trans [OF c(4) b(4)] by (simp add: quiet_market_def)
  moreover have "run_each P envs (population ids) oc = Some (n1 + (n2 + n3), population ids', oc3)"
    using run_each_append [of P envs ?xs "[?sp] @ ?ys" oc] run_each_append [of P envs "[?sp]" ?ys oc1]
    by (simp only: population_def a(1) b(1) c(1) option.case prod.case option.map append.simps append_assoc)
  ultimately show ?thesis using that a(2) b(2) c(2) by simp
qed

lemma fresh_market: "lob_inv b \<Longrightarrow> spoofs b = {#} \<Longrightarrow> quiet_market [] (new_orchestrator b)"
  by (simp add: quiet_market_def sound_def new_orchestrator_def)

lemma simulate_population:
  "\<lbrakk>list_all call_ok cs; quiet_market ids oc\<rbrakk> \<Longrightarrow>
    \<exists>ns ids' oc'. simulate cs (population ids) oc = Some (ns, population ids', oc') \<and> list_all (\<lambda>n. n \<le> 9) ns \<and> quiet_market ids' oc'"
proof (induction cs arbitrary: ids oc)
  case (Cons c cs)
  let ?run = "case c of Step envs \<Rightarrow> orchestrator_step envs (population ids) oc
    | Attack a envs \<Rightarrow> trigger_coordinated_attack a envs (population ids) oc"
  obtain n ids1 oc1 where r: "?run = Some (n, population ids1, oc1)" "n \<le> 9" "quiet_market ids1 oc1"
  proof (cases c)
    case (Step envs)
    then have "list_all (\<lambda>ag. env_ok (envs (ag_id ag))) initial_population" using Cons.prems(1) by (simp add: call_ok_def)
    then show ?thesis
      by (rule run_population [OF _ Cons.prems(2), of envs "\<lambda>_. True"]) (use Step that in \<open>auto simp: orchestrator_step_def\<close>)
  next
    case (Attack a envs)
    then have envs: "list_all (\<lambda>ag. env_ok (envs (ag_id ag))) initial_population" using Cons.prems(1) by (simp add: call_ok_def)
    show ?thesis
    proof (cases "a = ''predator_swarm''")
      case True
      show ?thesis
        by (rule run_population [OF envs Cons.prems(2), of "\<lambda>ag. ag_persona ag = CoordinatedPredatorSwarm"])
          (use Attack True that in \<open>auto simp: trigger_coordinated_attack_def\<close>)
    next
      case False
      then show ?thesis using Attack that [of 0 ids oc] Cons.prems(2) by (simp add: trigger_coordinated_attack_def)
    qed
  qed
  obtain ns ids' oc' where "simulate cs (population ids1) oc1 = Some (ns, population ids', oc')" "list_all (\<lambda>n. n \<le> 9) ns" "quiet_market ids' oc'"
    using Cons.IH [OF _ r(3)] Cons.prems(1) by auto
  then show ?case using r by (intro exI [of _ "n # ns"] exI [of _ ids'] exI [of _ oc']) simp
qed (simp, blast)

lemma simulate_length: "simulate cs ags oc = Some (ns, ags', oc') \<Longrightarrow> length ns = length cs"
proof (induction cs arbitrary: ags oc ns)
  case (Cons c cs)
  then show ?case by (cases c) (auto split: option.splits prod.splits)
qed simp

text \<open>C37: The population cannot break the market it trades in: over any series of steps and attacks with finite clocks, on any sound book
  without spoofs, every call returns and places at most nine orders, no agent is ever quarantined, the book is never crossed and its
  integrity check never fires, and at most one order of the spoofer rests between two calls.\<close>

theorem population_keeps_the_book_sound:
  assumes "lob_inv b" "spoofs b = {#}" "list_all call_ok calls"
  shows "case simulate calls initial_population (new_orchestrator b) of None \<Rightarrow> False
    | Some (ns, ags, oc) \<Rightarrow> length ns = length calls \<and> list_all (\<lambda>n. n \<le> 9) ns \<and> oc_quarantined oc = [] \<and>
        check_book_integrity (oc_lob oc) = (ok (), oc_lob oc) \<and>
        list_all (\<lambda>x. list_all (\<lambda>y. lo_price x < lo_price y) (asks (oc_lob oc))) (bids (oc_lob oc)) \<and> size (spoofs (oc_lob oc)) \<le> 1"
proof -
  have start: "initial_population = population []" by (simp add: initial_population_def population_def spoofer_def)
  obtain ns ids oc where r: "simulate calls initial_population (new_orchestrator b) = Some (ns, population ids, oc)" "list_all (\<lambda>n. n \<le> 9) ns"
      "quiet_market ids oc"
    using simulate_population [OF assms(3) fresh_market [OF assms(1,2)]] unfolding start by blast
  have inv: "lob_inv (oc_lob oc)" "oc_quarantined oc = []" "spoofs (oc_lob oc) \<subseteq># mset ids" "length ids \<le> 1"
    using r(3) by (auto simp: quiet_market_def sound_def)
  have "size (spoofs (oc_lob oc)) \<le> 1" using size_mset_mono [OF inv(3)] inv(4) by simp
  moreover have "check_book_integrity (oc_lob oc) = (ok (), oc_lob oc)"
    using inv(1) by (auto simp: lob_inv_def check_book_integrity_def dest: le_not_less_pyfloat split: list.splits)
  ultimately show ?thesis using r(1,2) inv(1,2) simulate_length [OF r(1)] by (auto simp: lob_inv_def list_all_iff)
qed

definition sample_agent_env :: agent_env where
  "sample_agent_env = \<lparr>ge_now = fl 1000, ge_post = fl 1000, ge_cancel = fl 1000, ge_clock = (\<lambda>_. fl 1001), ge_decay = (\<lambda>_. 1), ge_int_text = (\<lambda>_. ''1000'')\<rparr>"

theorem population_keeps_the_book_sound_witness:
  "case simulate [Step (\<lambda>_. sample_agent_env), Attack ''predator_swarm'' (\<lambda>_. sample_agent_env)] initial_population (new_orchestrator sample_lob) of
     None \<Rightarrow> False | Some (ns, ags, oc) \<Rightarrow> length ns = 2 \<and> oc_quarantined oc = [] \<and> size (spoofs (oc_lob oc)) \<le> 1"
proof -
  let ?calls = "[Step (\<lambda>_. sample_agent_env), Attack ''predator_swarm'' (\<lambda>_. sample_agent_env)]"
  have env: "env_ok sample_agent_env" by (simp add: env_ok_def sample_agent_env_def is_finite_def fl_eval float_eval)
  have none: "spoofs sample_lob = {#}" by (simp add: spoofs_def resting_def sample_bids sample_asks spoof_id_def)
  have calls: "list_all call_ok ?calls" using env by (simp add: call_ok_def initial_population_def)
  show ?thesis
    using population_keeps_the_book_sound [OF sample_lob_inv none calls]
    by (cases "simulate ?calls initial_population (new_orchestrator sample_lob)") (simp_all only: option.case list.size One_nat_def split_beta, simp)
qed

end
