(* ===== verification/RiskStats.thy ===== *)
theory RiskStats
  imports Tails
begin

text \<open>
  \<open>risk/metrics.py\<close> (R multiples in decimal arithmetic), \<open>risk/correlation.py\<close> (the correlation matrix) and \<open>risk/portfolio_risk.py\<close>
  (leverage, volatility and value at risk of the open positions, and the entry check).  The weighted covariances pandas computes are a
  parameter.
\<close>

section \<open>R multiples\<close>

definition risk_per_unit :: "py_number \<Rightarrow> pydecimal \<Rightarrow> pydecimal res" where
  "risk_per_unit initial_stop ref = rbind (to_dec initial_stop) (\<lambda>stop. rbind (dec_sub ref stop) (\<lambda>d.
     let risk = dec_abs d in if risk = DFin 0 then raise (ValueError ''initial_stop equals reference price; R-multiple undefined'') else ok risk))"

definition inferred_side :: "pydecimal \<Rightarrow> py_number \<Rightarrow> int res" where
  "inferred_side ref initial_stop = rbind (to_dec initial_stop) (\<lambda>stop. rbind (dec_sub ref stop) (\<lambda>d.
     rbind (dec_less d (DFin 0)) (\<lambda>below. ok (if below then - 1 else 1))))"

definition intended_r :: "py_number \<Rightarrow> py_number \<Rightarrow> py_number \<Rightarrow> pydecimal res" where
  "intended_r arrival_price initial_stop exit_price = rbind (to_dec arrival_price) (\<lambda>arrival.
     rbind (risk_per_unit initial_stop arrival) (\<lambda>risk. rbind (inferred_side arrival initial_stop) (\<lambda>sd.
     rbind (to_dec exit_price) (\<lambda>x. rbind (dec_sub x arrival) (\<lambda>gain. rbind (dec_mult (DFin (of_int sd)) gain) (\<lambda>g. dec_div g risk))))))"

definition realized_r :: "py_number \<Rightarrow> py_number \<Rightarrow> py_number \<Rightarrow> py_number \<Rightarrow> pydecimal res" where
  "realized_r fill_vwap fees_paid initial_stop exit_price = rbind (to_dec fill_vwap) (\<lambda>vwap.
     rbind (risk_per_unit initial_stop vwap) (\<lambda>risk. rbind (inferred_side vwap initial_stop) (\<lambda>sd.
     rbind (to_dec exit_price) (\<lambda>x. rbind (to_dec fees_paid) (\<lambda>f. rbind (dec_sub x f) (\<lambda>net_exit.
     rbind (dec_sub net_exit vwap) (\<lambda>gain. rbind (dec_mult (DFin (of_int sd)) gain) (\<lambda>g. dec_div g risk))))))))"

section \<open>The correlation matrix\<close>

record correlation_matrix =
  decay_factor :: pyfloat
  cm_min_periods :: int
  cm_names :: "string list"
  cm_values :: "pyfloat list list"

definition new_correlation_matrix :: correlation_matrix where
  "new_correlation_matrix = \<lparr>decay_factor = fl (94/100), cm_min_periods = 10, cm_names = [], cm_values = []\<rparr>"

definition np_sqrt :: "pyfloat \<Rightarrow> pyfloat" where
  "np_sqrt x = (case fsqrt x of Inr y \<Rightarrow> y | Inl _ \<Rightarrow> NaN)"

text \<open>Division of arrays: by zero it gives an infinity or NaN.\<close>

definition np_divide :: "pyfloat \<Rightarrow> pyfloat \<Rightarrow> pyfloat" where
  "np_divide x y = (case fdiv x y of Inr z \<Rightarrow> z | Inl _ \<Rightarrow> if 0 < x then PInf else if x < 0 then NInf else NaN)"

text \<open>Covariances to correlations, clipped; \<open>cov\<close> is square.\<close>

definition correlations_of :: "pyfloat list list \<Rightarrow> pyfloat list list" where
  "correlations_of cov = (let stds = map (\<lambda>i. let s = np_sqrt (cov ! i ! i) in if feq s 0 then fl (1 / 10 ^ 8) else s) [0..<length cov] in
     map (\<lambda>i. map (\<lambda>j. np_clip (np_divide (cov ! i ! j) (stds ! i * stds ! j)) (- 1) 1) [0..<length cov]) [0..<length cov])"

text \<open>\<open>ewm\<close> is the covariance of the last row of a frame, for a smoothing factor and a minimal number of rows.\<close>

definition update_returns :: "(pyfloat \<Rightarrow> int \<Rightarrow> 'f \<Rightarrow> pyfloat list list) \<Rightarrow> string list \<Rightarrow> int \<Rightarrow> 'f \<Rightarrow> correlation_matrix \<Rightarrow> correlation_matrix" where
  "update_returns ewm names n_rows frame cm = (if n_rows < cm_min_periods cm then cm
     else cm\<lparr>cm_names := names, cm_values := correlations_of (ewm (1 - decay_factor cm) (cm_min_periods cm) frame)\<rparr>)"

fun index_of :: "string \<Rightarrow> string list \<Rightarrow> nat option" where
  "index_of x [] = None"
| "index_of x (y # ys) = (if x = y then Some 0 else map_option Suc (index_of x ys))"

definition get_correlation :: "correlation_matrix \<Rightarrow> string \<Rightarrow> string \<Rightarrow> pyfloat" where
  "get_correlation cm a b = (if a = b then 1 else
     (case (index_of a (cm_names cm), index_of b (cm_names cm)) of (Some i, Some j) \<Rightarrow> cm_values cm ! i ! j | _ \<Rightarrow> 0))"

definition get_high_correlation_pairs :: "correlation_matrix \<Rightarrow> pyfloat \<Rightarrow> (string \<times> string \<times> pyfloat) list" where
  "get_high_correlation_pairs cm threshold = (let n = length (cm_names cm) in
     concat (map (\<lambda>i. map (\<lambda>j. (cm_names cm ! i, cm_names cm ! j, cm_values cm ! i ! j))
       (filter (\<lambda>j. threshold \<le> \<bar>cm_values cm ! i ! j\<bar>) [Suc i..<n])) [0..<n]))"

section \<open>The portfolio\<close>

definition calculate_effective_leverage :: "position list \<Rightarrow> pyfloat \<Rightarrow> pyfloat res" where
  "calculate_effective_leverage positions eqty = (if eqty \<le> 0 then ok 0
     else fdiv (fsum (map (\<lambda>p. ps_entry_price p * ps_position_size p) positions)) eqty)"

text \<open>Weight and volatility of each position; the double loop adds row by row.\<close>

definition position_weight :: "pyfloat \<Rightarrow> position \<Rightarrow> pyfloat res" where
  "position_weight eqty p = fdiv (ps_entry_price p * ps_position_size p) eqty"

definition rho_of :: "correlation_matrix option \<Rightarrow> position list \<Rightarrow> nat \<Rightarrow> nat \<Rightarrow> pyfloat" where
  "rho_of cm ps i j = (case cm of Some m \<Rightarrow> get_correlation m (ps_asset (ps ! i)) (ps_asset (ps ! j)) | None \<Rightarrow> if i = j then 1 else 0)"

definition portfolio_variance :: "(nat \<Rightarrow> nat \<Rightarrow> pyfloat) \<Rightarrow> pyfloat list \<Rightarrow> pyfloat list \<Rightarrow> pyfloat" where
  "portfolio_variance rho ws vols = fold (\<lambda>p acc. acc + (case p of (i, j) \<Rightarrow> ws ! i * ws ! j * vols ! i * vols ! j * rho i j))
     (List.product [0..<length ws] [0..<length ws]) 0"

definition calculate_portfolio_volatility :: "position list \<Rightarrow> correlation_matrix option \<Rightarrow> (string, pyfloat) dict \<Rightarrow> pyfloat \<Rightarrow> pyfloat res" where
  "calculate_portfolio_volatility ps cm asset_vols eqty = (if eqty \<le> 0 \<or> ps = [] then ok 0 else
     rbind (map_res (position_weight eqty) ps) (\<lambda>ws.
       fsqrt (pymax 0 (portfolio_variance (rho_of cm ps) ws (map (\<lambda>p. dget_or asset_vols (ps_asset p) (fl (2/100))) ps)))))"

definition calculate_portfolio_var :: "pyfloat \<Rightarrow> pyfloat \<Rightarrow> pyfloat \<Rightarrow> pyfloat" where
  "calculate_portfolio_var eqty vol confidence = eqty * vol * (if fl (99/100) \<le> confidence then fl (2326/1000) else fl (1645/1000))"

definition hypothetical_position :: "approved_order \<Rightarrow> position" where
  "hypothetical_position new = \<lparr>ps_asset = ao_asset new, ps_asset_class = ao_asset_class new, ps_side = ao_side new,
     ps_entry_price = ao_entry_price new, ps_stop_price = ao_stop_price new, ps_risk_pct = ao_risk_pct new, ps_position_size = 1\<rparr>"

definition portfolio_entry_allowed :: "approved_order \<Rightarrow> position list \<Rightarrow> correlation_matrix option \<Rightarrow> (string, pyfloat) dict \<Rightarrow> pyfloat \<Rightarrow> pyfloat
    \<Rightarrow> bool res" where
  "portfolio_entry_allowed new positions cm asset_vols eqty max_risk =
     rbind (calculate_portfolio_volatility (positions @ [hypothetical_position new]) cm asset_vols eqty) (\<lambda>v. ok (v \<le> max_risk))"

section \<open>The sign of a multiple\<close>

lemma dec_round_pos: "0 < x \<Longrightarrow> 0 < dec_round x"
proof -
  assume x: "0 < x"
  have "x / (2 * 10 ^ 27) < x" using x by (simp add: divide_less_eq)
  then show ?thesis using dec_round_error [OF x] by linarith
qed

lemma dec_round_neg: "x < 0 \<Longrightarrow> dec_round x < 0"
  using dec_round_pos [of "- x"] by (simp add: dec_round_minus)

lemma dec_round_sign [simp]: "dec_round x < 0 \<longleftrightarrow> x < 0" "0 < dec_round x \<longleftrightarrow> 0 < x" "dec_round x = 0 \<longleftrightarrow> x = 0"
  using dec_round_pos [of x] dec_round_neg [of x] by (cases x "0 :: rat" rule: linorder_cases; simp)+

lemma risk_and_side:
  assumes "to_dec stop = ok (DFin s)" "s \<noteq> a"
  shows "risk_per_unit stop (DFin a) = ok (DFin \<bar>dec_round (a - s)\<bar>)" "inferred_side (DFin a) stop = ok (if a < s then - 1 else 1)"
  using assms by (auto simp: risk_per_unit_def inferred_side_def dec_sub_def dec_abs_def dec_less_def)

text \<open>The intended multiple is undefined exactly for a stop at the arrival price; otherwise it is positive exactly for a gain.\<close>

lemma intended_r_sign:
  assumes "to_dec arrival = ok (DFin a)" "to_dec stop = ok (DFin s)" "to_dec exit_price = ok (DFin x)"
  shows "if s = a then \<not> is_ok (intended_r arrival stop exit_price)
    else \<exists>r. intended_r arrival stop exit_price = ok (DFin r) \<and> (0 < r \<longleftrightarrow> (if s < a then a < x else x < a)) \<and> (r = 0 \<longleftrightarrow> x = a)"
proof (cases "s = a")
  case True
  then show ?thesis using assms by (simp add: intended_r_def risk_per_unit_def dec_sub_def dec_abs_def)
next
  case False
  have pos: "0 < \<bar>dec_round (a - s)\<bar>" using False by simp
  let ?g = "dec_round ((if a < s then - 1 else 1) * dec_round (x - a))"
  have "intended_r arrival stop exit_price = ok (DFin (dec_round (?g / \<bar>dec_round (a - s)\<bar>)))"
    using assms(1,3) risk_and_side [OF assms(2) False] pos
    by (simp add: intended_r_def dec_sub_def dec_mult_def dec_div_def dec_div_fin_def)
  then show ?thesis using False pos by (auto simp: zero_less_divide_iff zero_less_mult_iff)
qed

text \<open>Fees raise the multiple of a short: 1.1 where the trade gained 9 net of its fee of 1 over a risk of 10.\<close>

lemma dec_round_small: "dec_round (of_int n / 10) = of_int n / 10" if "0 \<le> n" "n < 10 ^ 28"
  using dec_round_exact [OF that, of 1] by simp

lemma short_gains_its_fees:
  "realized_r (NumInt 100) (NumInt 0) (NumInt 110) (NumInt 90) = ok (DFin 1)"
  "realized_r (NumInt 100) (NumInt 1) (NumInt 110) (NumInt 90) = ok (DFin (11/10))"
proof -
  have e: "dec_round 1 = 1" "dec_round 10 = 10" "dec_round 11 = 11" "dec_round (11/10) = 11/10" "dec_round 89 = 89" "dec_round 90 = 90"
    using dec_round_exact_int [of 1] dec_round_exact_int [of 10] dec_round_exact_int [of 11] dec_round_small [of 11] dec_round_exact_int [of 89]
      dec_round_exact_int [of 90] by simp_all
  have m: "dec_round (- 10) = - 10" "dec_round (- 11) = - 11" using e dec_round_minus [of 10] dec_round_minus [of 11] by simp_all
  show "realized_r (NumInt 100) (NumInt 0) (NumInt 110) (NumInt 90) = ok (DFin 1)"
    "realized_r (NumInt 100) (NumInt 1) (NumInt 110) (NumInt 90) = ok (DFin (11/10))"
    by (simp_all add: realized_r_def risk_per_unit_def inferred_side_def to_dec_def dec_sub_def dec_abs_def dec_less_def dec_mult_def dec_div_def
        dec_div_fin_def e m)
qed

section \<open>Correlations are bounded\<close>

lemma correlations_bounded:
  "\<lbrakk>i < length cov; j < length cov\<rbrakk> \<Longrightarrow> bounded_or_nan (- 1) 1 (correlations_of cov ! i ! j)"
proof -
  assume "i < length cov" "j < length cov"
  moreover have "- 1 \<le> (1 :: pyfloat)" by (simp add: one_Fin)
  ultimately show ?thesis using np_clip_range by (simp add: correlations_of_def Let_def bounded_or_nan_def)
qed

lemma index_of_bound: "index_of x xs = Some i \<Longrightarrow> i < length xs \<and> xs ! i = x"
  by (induction xs arbitrary: i) (auto split: if_splits)

text \<open>After an update every correlation asked for is NaN or between -1 and 1, whatever covariances pandas gave.\<close>

lemma asked_correlation_bounded:
  assumes "cm_min_periods cm \<le> n_rows" "length (ewm (1 - decay_factor cm) (cm_min_periods cm) frame) = length names"
  shows "bounded_or_nan (- 1) 1 (get_correlation (update_returns ewm names n_rows frame cm) a b)"
proof -
  have "bounded_or_nan (- 1) 1 1" "bounded_or_nan (- 1) 1 0" by (simp_all add: bounded_or_nan_def one_Fin zero_Fin)
  then show ?thesis
    using assms correlations_bounded index_of_bound by (auto simp: get_correlation_def update_returns_def split: option.split)
qed

text \<open>The pairs reported are those above the diagonal at or beyond the threshold, in absolute value; NaN is never reported.\<close>

lemma high_pairs_exact:
  "p \<in> set (get_high_correlation_pairs cm threshold) \<longleftrightarrow> (\<exists>i j. i < j \<and> j < length (cm_names cm) \<and> threshold \<le> \<bar>cm_values cm ! i ! j\<bar> \<and>
     p = (cm_names cm ! i, cm_names cm ! j, cm_values cm ! i ! j))"
  unfolding get_high_correlation_pairs_def Let_def by (auto simp: Suc_le_eq)

section \<open>The entry check\<close>

lemma weights_ok: "\<not> eqty \<le> 0 \<Longrightarrow> \<exists>ws. map_res (position_weight eqty) ps = ok ws \<and> length ws = length ps \<and>
    (\<forall>i<length ps. position_weight eqty (ps ! i) = ok (ws ! i))"
proof (induction ps)
  case (Cons p ps)
  have "\<not> feq eqty 0" using Cons.prems by (cases eqty) (auto simp: feq_def zero_Fin)
  then obtain w where w: "position_weight eqty p = ok w" unfolding position_weight_def using fdiv_ok by blast
  obtain ws where "map_res (position_weight eqty) ps = ok ws" "length ws = length ps"
      "\<forall>i<length ps. position_weight eqty (ps ! i) = ok (ws ! i)"
    using Cons by blast
  then show ?case using w by (intro exI [of _ "w # ws"]) (auto simp: less_Suc_eq_0_disj)
qed simp

text \<open>The volatility is always a number that is not negative: the check never raises.\<close>

lemma volatility_answers: "\<exists>v. calculate_portfolio_volatility ps cm asset_vols eqty = ok v \<and> 0 \<le> v"
proof (cases "eqty \<le> 0 \<or> ps = []")
  case False
  then obtain ws where "map_res (position_weight eqty) ps = ok ws" using weights_ok by blast
  then show ?thesis using False fsqrt_nonneg_ok [OF pymax_0_ge] by (auto simp: calculate_portfolio_volatility_def)
qed (simp add: calculate_portfolio_volatility_def zero_Fin)

text \<open>The size of the order plays no part; an account without equity takes every entry.\<close>

lemma entry_ignores_size: "portfolio_entry_allowed (new\<lparr>ao_position_size := other_size\<rparr>) ps cm vols eqty m = portfolio_entry_allowed new ps cm vols eqty m"
  by (simp add: portfolio_entry_allowed_def hypothetical_position_def)

lemma bankrupt_entry_allowed: "eqty \<le> 0 \<Longrightarrow> 0 \<le> m \<Longrightarrow> portfolio_entry_allowed new ps cm vols eqty m = ok True"
  by (simp add: portfolio_entry_allowed_def calculate_portfolio_volatility_def)

text \<open>An order without a price has no risk: NaN vanishes in \<open>max(0.0, nan)\<close>.\<close>

lemma fold_nan:
  assumes "x \<in> set xs" "f x = NaN"
  shows "fold (\<lambda>x acc. acc + f x) xs (a :: pyfloat) = NaN"
proof -
  have stay: "fold (\<lambda>x acc. acc + f x) ys NaN = NaN" for ys by (induction ys) simp_all
  show ?thesis using assms by (induction xs arbitrary: a) (auto simp: stay)
qed

lemma nan_entry_is_riskless:
  assumes "ao_entry_price new = NaN" "\<not> eqty \<le> 0" "0 \<le> m"
  shows "portfolio_entry_allowed new ps cm vols eqty m = ok True"
proof -
  let ?ps = "ps @ [hypothetical_position new]" and ?n = "length ps"
  obtain ws where ws: "map_res (position_weight eqty) ?ps = ok ws" "length ws = length ?ps"
      "\<forall>i<length ?ps. position_weight eqty (?ps ! i) = ok (ws ! i)"
    using weights_ok [OF assms(2)] by blast
  have "position_weight eqty (?ps ! ?n) = ok (ws ! ?n)" using ws(3) by (metis length_append_singleton lessI)
  then have nan: "ws ! ?n = NaN"
    using assms(1,2) by (cases eqty) (auto simp: position_weight_def hypothetical_position_def fdiv_NaN_left feq_def zero_Fin is_finite_def split: if_splits)
  let ?f = "\<lambda>rho vs (i, j). ws ! i * ws ! j * vs ! i * vs ! j * rho i j"
  have "portfolio_variance rho ws vs = NaN" for rho vs
  proof -
    have "(?n, ?n) \<in> set (List.product [0..<length ws] [0..<length ws])" using ws(2) by simp
    moreover have "?f rho vs (?n, ?n) = NaN" using nan by simp
    ultimately show ?thesis unfolding portfolio_variance_def using fold_nan [of "(?n, ?n)" _ "?f rho vs"] by simp
  qed
  then show ?thesis
    using ws(1) assms(2,3) by (simp add: portfolio_entry_allowed_def calculate_portfolio_volatility_def pymax_def zero_Fin fsqrt_def)
qed

end
