(* ===== verification/Ecology.thy ===== *)
theory Ecology
  imports Feed Stocks "HOL-Library.Sublist"
begin

text \<open>
  \<open>synthetic/ecology.py\<close> (agents that react to a loss of depth, and their registry) and \<open>synthetic/event_ingestor.py\<close> (the news
  listener and the broadcast of classified headlines).  A subscriber is a computation over the state of whoever subscribed.
\<close>

section \<open>The depth baseline\<close>

record depletion_event =
  le_event_type :: string
  withdrawn_qty :: pyfloat
  current_depth :: pyfloat
  baseline_depth :: pyfloat
  depletion_ratio :: pyfloat
  le_event_ms :: pyfloat

record baseline_tracker =
  window_ms :: pyfloat
  depth_samples :: "(pyfloat \<times> pyfloat) list"

definition new_tracker :: "int \<Rightarrow> baseline_tracker" where
  "new_tracker window_seconds = \<lparr>window_ms = float_of_int window_seconds * fl 1000, depth_samples = []\<rparr>"

definition record_depth :: "pyfloat \<Rightarrow> pyfloat \<Rightarrow> pyfloat \<Rightarrow> baseline_tracker \<Rightarrow> baseline_tracker" where
  "record_depth stamp_ms bid_qty ask_qty t = t\<lparr>depth_samples := deque_append 3000 (stamp_ms, bid_qty + ask_qty) (depth_samples t)\<rparr>"

text \<open>\<open>statistics.median\<close> of a list that is not empty.\<close>

fun insert_up :: "pyfloat \<Rightarrow> pyfloat list \<Rightarrow> pyfloat list" where
  "insert_up x [] = [x]"
| "insert_up x (y # ys) = (if y < x then y # insert_up x ys else x # y # ys)"

definition sort_up :: "pyfloat list \<Rightarrow> pyfloat list" where
  "sort_up xs = foldr insert_up xs []"

definition py_median :: "pyfloat list \<Rightarrow> pyfloat res" where
  "py_median xs = (let s = sort_up xs; n = length xs; m = n div 2 in
     if odd n then ok (s ! m) else fdiv (s ! (m - 1) + s ! m) (fl 2))"

definition get_baseline_depth :: "pyfloat \<Rightarrow> baseline_tracker \<Rightarrow> pyfloat res" where
  "get_baseline_depth now_ms t = (let valid = map snd (filter (\<lambda>s. now_ms - fst s \<le> window_ms t) (depth_samples t)) in
     if valid = [] then ok (fl 10) else py_median valid)"

definition tracker_reset :: "baseline_tracker \<Rightarrow> baseline_tracker" where
  "tracker_reset t = t\<lparr>depth_samples := []\<rparr>"

section \<open>Agents\<close>

record reactive_mm =
  mm_agent_id :: string
  base_spread_bps :: pyfloat
  current_spread_bps :: pyfloat
  herd_sensitivity :: pyfloat
  active_quotes :: "string list"

record flow_predator =
  pr_agent_id :: string
  aggression_threshold :: pyfloat
  max_sweep_size :: pyfloat
  sweep_direction :: string
  is_hunting :: bool
  pr_is_halted :: bool

datatype ecology_agent = BaseEcologyAgent string | ReactiveMarketMaker reactive_mm | ToxicFlowPredator flow_predator

datatype ecology_action = WidenSpread string pyfloat pyfloat | IocSweep string string pyfloat

definition mm_on_liquidity_change :: "depletion_event \<Rightarrow> reactive_mm \<Rightarrow> ecology_action list \<times> reactive_mm" where
  "mm_on_liquidity_change ev mm = (if herd_sensitivity mm < depletion_ratio ev
     then (let widening = 1 + depletion_ratio ev * fl 2; spread = base_spread_bps mm * widening in
       ([WidenSpread (mm_agent_id mm) spread widening], mm\<lparr>current_spread_bps := spread\<rparr>))
     else ([], mm\<lparr>current_spread_bps := base_spread_bps mm\<rparr>))"

definition predator_on_liquidity_change :: "depletion_event \<Rightarrow> flow_predator \<Rightarrow> ecology_action list \<times> flow_predator" where
  "predator_on_liquidity_change ev p = (if pr_is_halted p then ([], p)
     else if aggression_threshold p < depletion_ratio ev
     then (let sweep = pymin (current_depth ev * fl (8/10)) (max_sweep_size p) in
       (if 0 < sweep then [IocSweep (pr_agent_id p) (sweep_direction p) (round_digits sweep 4)] else [], p\<lparr>is_hunting := True\<rparr>))
     else ([], p\<lparr>is_hunting := False\<rparr>))"

definition on_liquidity_change :: "depletion_event \<Rightarrow> ecology_agent \<Rightarrow> ecology_action list \<times> ecology_agent" where
  "on_liquidity_change ev a = (case a of
     BaseEcologyAgent i \<Rightarrow> ([], a)
   | ReactiveMarketMaker mm \<Rightarrow> apsnd ReactiveMarketMaker (mm_on_liquidity_change ev mm)
   | ToxicFlowPredator p \<Rightarrow> apsnd ToxicFlowPredator (predator_on_liquidity_change ev p))"

definition agent_reset :: "ecology_agent \<Rightarrow> ecology_agent" where
  "agent_reset a = (case a of
     BaseEcologyAgent i \<Rightarrow> a
   | ReactiveMarketMaker mm \<Rightarrow> ReactiveMarketMaker (mm\<lparr>current_spread_bps := base_spread_bps mm, active_quotes := []\<rparr>)
   | ToxicFlowPredator p \<Rightarrow> ToxicFlowPredator (p\<lparr>is_hunting := False\<rparr>))"

record agent_registry =
  reg_agents :: "(string, ecology_agent) dict"
  reg_tracker :: baseline_tracker
  cascade_threshold :: pyfloat

definition new_registry :: "int \<Rightarrow> agent_registry" where
  "new_registry window_s = \<lparr>reg_agents = [], reg_tracker = new_tracker window_s, cascade_threshold = fl (4/10)\<rparr>"

definition register_agent :: "string \<Rightarrow> ecology_agent \<Rightarrow> agent_registry \<Rightarrow> agent_registry" where
  "register_agent i a r = r\<lparr>reg_agents := dset i a (reg_agents r)\<rparr>"

definition broadcast_liquidity_event :: "depletion_event \<Rightarrow> agent_registry \<Rightarrow> ecology_action list \<times> agent_registry" where
  "broadcast_liquidity_event ev r = (let turns = map (\<lambda>(i, a). (i, on_liquidity_change ev a)) (reg_agents r) in
     (concat (map (\<lambda>(i, acts, a). acts) turns), r\<lparr>reg_agents := map (\<lambda>(i, acts, a). (i, a)) turns\<rparr>))"

definition reset_session :: "agent_registry \<Rightarrow> agent_registry" where
  "reset_session r = r\<lparr>reg_agents := map (\<lambda>(i, a). (i, agent_reset a)) (reg_agents r), reg_tracker := tracker_reset (reg_tracker r)\<rparr>"

section \<open>News\<close>

record news_event =
  headline :: string
  news_source :: string
  news_ms :: pyfloat
  news_symbol :: "string option"

datatype impact_level = HIGH | MEDIUM | LOW

record macro_payload =
  mp_keyword :: string
  mp_impact :: impact_level
  mp_actions :: "(string, string) dict"
  detection_ts_ms :: pyfloat
  broadcast_ts_ms :: pyfloat

record news_listener =
  is_connected :: bool
  ingested_events :: "news_event list"

definition new_listener :: news_listener where
  "new_listener = \<lparr>is_connected = True, ingested_events = []\<rparr>"

definition listener_disconnect :: "news_listener \<Rightarrow> news_listener" where
  "listener_disconnect l = l\<lparr>is_connected := False\<rparr>"

definition listener_reconnect :: "news_listener \<Rightarrow> news_listener" where
  "listener_reconnect l = l\<lparr>is_connected := True\<rparr>"

definition ingest_news :: "pyfloat \<Rightarrow> string \<Rightarrow> string \<Rightarrow> string option \<Rightarrow> news_listener \<Rightarrow> news_event option \<times> news_listener" where
  "ingest_news now_ms line src sy l = (if \<not> is_connected l then (None, l)
     else (let e = \<lparr>headline = line, news_source = src, news_ms = now_ms, news_symbol = sy\<rparr> in
       (Some e, l\<lparr>ingested_events := ingested_events l @ [e]\<rparr>)))"

text \<open>Keyword, impact and actions of a headline.\<close>

definition classify :: "news_event \<Rightarrow> (string \<times> impact_level \<times> (string, string) dict) option" where
  "classify e = (let line = upper (headline e) in
     if sublist ''FED RATE HIKE'' line \<or> sublist ''CPI DATA RELEASE'' line \<or> sublist ''INFLATION SURGE'' line
     then Some (if sublist ''FED'' line then ''CPI_OR_FED_RATE'' else ''CPI_RELEASE'', HIGH,
       [(''forex_action'', ''WIDEN_SPREADS_2X''), (''polymarket_action'', ''ARM_SNIPER_INFLATION''), (''stocks_action'', ''FREEZE_ENTRIES'')])
     else if sublist ''EARNINGS BEAT'' line
     then Some (''EARNINGS_BEAT'', MEDIUM, [(''stocks_action'', ''ARM_SNIPER_SYMBOL''),
       (''target_symbol'', case news_symbol e of Some s \<Rightarrow> if s = [] then ''AAPL'' else s | None \<Rightarrow> ''AAPL'')])
     else None)"

record ('s) correlation_engine =
  subscribers :: "(macro_payload \<Rightarrow> ('s, unit) act) list"
  latency_records :: "(string \<times> pyfloat) list"
  ce_state :: 's

definition subscribe :: "(macro_payload \<Rightarrow> ('s, unit) act) \<Rightarrow> 's correlation_engine \<Rightarrow> 's correlation_engine" where
  "subscribe cb ce = ce\<lparr>subscribers := subscribers ce @ [cb]\<rparr>"

definition record_latency :: "pyfloat \<Rightarrow> pyfloat \<Rightarrow> string \<Rightarrow> 's correlation_engine \<Rightarrow> pyfloat \<times> 's correlation_engine" where
  "record_latency detected reacted name ce = (let l = pymax 0 (reacted - detected) in (l, ce\<lparr>latency_records := latency_records ce @ [(name, l)]\<rparr>))"

fun dispatch :: "macro_payload \<Rightarrow> (macro_payload \<Rightarrow> ('s, unit) act) list \<Rightarrow> ('s, unit) act" where
  "dispatch p [] s = (ok (), s)"
| "dispatch p (cb # cbs) s = (case cb p s of (Inl e, s1) \<Rightarrow> (Inl e, s1) | (Inr _, s1) \<Rightarrow> dispatch p cbs s1)"

text \<open>The clock readings of the payload and around the dispatch.\<close>

record news_clock =
  nc_payload :: pyfloat
  nc_start :: pyfloat
  nc_end :: pyfloat

definition process_news_event :: "news_clock \<Rightarrow> news_event \<Rightarrow> ('s correlation_engine, macro_payload option) act" where
  "process_news_event c e ce = (case classify e of
     None \<Rightarrow> (ok None, ce)
   | Some (kw, impact, actions) \<Rightarrow>
       (let p = \<lparr>mp_keyword = kw, mp_impact = impact, mp_actions = actions, detection_ts_ms = news_ms e, broadcast_ts_ms = nc_payload c\<rparr> in
        case dispatch p (subscribers ce) (ce_state ce) of
          (Inl err, s1) \<Rightarrow> (Inl err, ce\<lparr>ce_state := s1\<rparr>)
        | (Inr _, s1) \<Rightarrow> (ok (Some p), snd (record_latency (nc_start c) (nc_end c) kw (ce\<lparr>ce_state := s1\<rparr>)))))"

section \<open>Reactions\<close>

lemma broadcast_keeps_agents: "map fst (reg_agents (snd (broadcast_liquidity_event ev r))) = map fst (reg_agents r)"
  by (simp add: broadcast_liquidity_event_def Let_def split_beta comp_def)

text \<open>A halted predator does nothing until something other than a reset lifts the halt.\<close>

lemma halt_survives_reset:
  "agent_reset (ToxicFlowPredator p) = ToxicFlowPredator p' \<Longrightarrow> pr_is_halted p' = pr_is_halted p"
  "pr_is_halted p \<Longrightarrow> predator_on_liquidity_change ev p = ([], p)"
  by (auto simp: agent_reset_def predator_on_liquidity_change_def)

text \<open>Below half a ten-thousandth the sweep is rounded to nothing and sent all the same.\<close>

lemma dust_sweep_is_empty:
  assumes "\<not> pr_is_halted p" "aggression_threshold p < depletion_ratio ev" "current_depth ev = fl (1 / 10 ^ 5)" "max_sweep_size p = fl 5"
  shows "fst (predator_on_liquidity_change ev p) = [IocSweep (pr_agent_id p) (sweep_direction p) 0]"
proof -
  have "pymin (fl (1 / 10 ^ 5) * fl (8/10)) (fl 5) = fl (1 / 10 ^ 5) * fl (8/10)" "0 < fl (1 / 10 ^ 5) * fl (8/10)"
    "round_digits (fl (1 / 10 ^ 5) * fl (8/10)) 4 = 0"
    by (simp_all add: pymin_def round_digits_def fl_eval float_eval zero_Fin)
  then show ?thesis using assms by (simp add: predator_on_liquidity_change_def Let_def)
qed

text \<open>A subscriber that raises keeps the payload from those after it, and no latency is recorded.\<close>

lemma dispatch_append: "dispatch p (xs @ ys) s = (case dispatch p xs s of (Inl e, s1) \<Rightarrow> (Inl e, s1) | (Inr _, s1) \<Rightarrow> dispatch p ys s1)"
  by (induction xs arbitrary: s) (auto split: prod.split sum.split)

lemma failing_subscriber_silences:
  assumes "classify e = Some k" "subscribers ce = xs @ cb # ys" "\<And>p s. fst (cb p s) = Inl err"
    "\<And>p s. \<exists>s1. dispatch p xs s = (ok (), s1)"
  shows "case process_news_event c e ce of (r, ce') \<Rightarrow> r = Inl err \<and> latency_records ce' = latency_records ce"
proof -
  have "fst (dispatch p (xs @ cb # ys) s) = Inl err" for p s
  proof -
    obtain s1 where "dispatch p xs s = (ok (), s1)" using assms(4) by blast
    then show ?thesis using assms(3) [of p s1] by (cases "cb p s1") (auto simp: dispatch_append split: sum.split)
  qed
  then show ?thesis using assms(1,2)
    by (auto simp: process_news_event_def Let_def split: prod.split sum.split) (metis fst_conv sum.inject(1), metis fst_conv sum.simps(4))
qed

end
