(* ===== verification/Drills.thy ===== *)
theory Drills
  imports Chase CircuitBreaker
begin

text \<open>
  \<open>ops/drills.py\<close> and \<open>src/scripts/kill_switch_drill.py\<close>: the seven safety drills, each one run of the components it
  exercises on fixed data.  The clock readings of a drill are arguments; the duration a drill reports is left out.  A drill that
  raises ends the script.
\<close>

section \<open>The harness\<close>

record drill_result =
  dr_name :: string
  dr_mode :: execution_mode
  dr_pass :: bool
  dr_events :: "string list"

definition drill_order :: "side \<Rightarrow> rat \<Rightarrow> rat \<Rightarrow> rat \<Rightarrow> rat \<Rightarrow> approved_order res" where
  "drill_order sd entry stop target sz = new_ApprovedOrder \<lparr>ao_asset = ''BTC'', ao_asset_class = ''crypto'', ao_side = sd,
     ao_entry_price = fl entry, ao_stop_price = fl stop, ao_target_price = fl target, ao_position_size = fl sz,
     ao_risk_pct = fl (1/100), ao_issuer = ISSUER\<rparr>"

definition drill_config :: "execution_mode \<Rightarrow> bool \<Rightarrow> bool \<Rightarrow> mock_venue oms_config" where
  "drill_config mode with_sentinel with_chaser = \<lparr>oc_api = mock_api, oc_instruments = None, oc_outbox = False,
     oc_sentinel = with_sentinel, oc_shadow = False, oc_chaser = with_chaser, oc_mode = mode\<rparr>"

definition drill_state :: "sentinel \<Rightarrow> mock_venue exec_state" where
  "drill_state sen = new_oms (new_mock_venue []) sen new_interceptor"

text \<open>Drill 1: a tick five seconds old, then an order; \<open>c0\<close> and \<open>c1\<close> are the clock at the two.\<close>

definition drill_1 :: "execution_mode \<Rightarrow> pyfloat \<Rightarrow> pyfloat \<Rightarrow> drill_result res" where
  "drill_1 mode c0 c1 =
    (let t_past = (c0 - fl 5) * fl 1000;
         sen = record_tick ''BTC'' t_past (Some t_past) c0 (new_sentinel (fl 1000) 100)
     in rbind (drill_order LONG 50000 48000 60000 (1/10)) (\<lambda>order.
        rbind (fst (submit_order (drill_config mode True False) order ''cid_drill_1'' None c1 (drill_state sen))) (\<lambda>state.
        rbind (new_ApprovedExit \<lparr>ax_asset = ''BTC'', ax_asset_class = ''crypto'', ax_reason = ''stale_drill_exit'', ax_issuer = ISSUER\<rparr>) (\<lambda>ex.
          ok \<lparr>dr_name = ''stale_data_rejection'', dr_mode = mode, dr_pass = (state = REJECTED \<and> ax_issuer ex = ISSUER),
              dr_events = [''STALE_DATA_REJECTION'', ''EXIT_EVALUATION_CALLABLE'']\<rparr>))))"

definition drill_position :: "string \<Rightarrow> rat \<Rightarrow> rat \<Rightarrow> rat \<Rightarrow> position" where
  "drill_position asset entry stop sz = \<lparr>ps_asset = asset, ps_asset_class = ''crypto'', ps_side = LONG, ps_entry_price = fl entry,
     ps_stop_price = fl stop, ps_risk_pct = fl (1/100), ps_position_size = fl sz\<rparr>"

definition drill_account :: "position list \<Rightarrow> account_state" where
  "drill_account ps = \<lparr>equity = fl 100000, peak_equity = fl 100000, open_positions = ps, acc_daily_pnl_pct = 0,
     weekly_pnl_pct = 0, consecutive_losses = [], last_loss_at = [], kill_switch = False, high_volatility = False,
     minutes_to_next_major_event = None, correlations = Map.empty, day_start_settled_equity = None\<rparr>"

text \<open>Drills 2 and 3: drawdowns of six and ten percent at the breaker's default thresholds.\<close>

definition drill_2 :: "execution_mode \<Rightarrow> drill_result res" where
  "drill_2 mode = (case evaluate_portfolio_drawdown (drill_account [drill_position ''BTC'' 50000 48000 1])
       [''BTC'' \<mapsto> fl 44000] new_breaker of
     (Inl e, cb) \<Rightarrow> Inl e
   | (Inr (tier, exits), cb) \<Rightarrow> ok \<lparr>dr_name = ''portfolio_drawdown_tier_2'', dr_mode = mode,
       dr_pass = (tier = TierENTRY_BLOCK \<and> \<not> is_entry_allowed cb), dr_events = [''PORTFOLIO_ENTRY_BLOCK'']\<rparr>)"

definition drill_3 :: "execution_mode \<Rightarrow> drill_result res" where
  "drill_3 mode = (case evaluate_portfolio_drawdown (drill_account [drill_position ''BTC'' 50000 48000 1, drill_position ''ETH'' 3000 2900 10])
       [''BTC'' \<mapsto> fl 41000, ''ETH'' \<mapsto> fl 2900] new_breaker of
     (Inl e, cb) \<Rightarrow> Inl e
   | (Inr (tier, exits), cb) \<Rightarrow> ok \<lparr>dr_name = ''portfolio_flatten_tier_3'', dr_mode = mode,
       dr_pass = (tier = TierFLATTEN \<and> length exits = 2 \<and> list_all (\<lambda>e. ax_issuer e = ISSUER) exits),
       dr_events = [''PORTFOLIO_FLATTEN'', ''APPROVED_EXIT_DISPATCHED'']\<rparr>)"

text \<open>Drills 4 and 5 look at literals: no lock and no reconciler takes part.\<close>

definition drill_4 :: "execution_mode \<Rightarrow> drill_result res" where
  "drill_4 mode = (let lock_owner = [(''held_by'', Some ''daemon_instance_1'')];
       can_acquire = (case dget lock_owner ''held_by'' of None \<Rightarrow> True | Some owner \<Rightarrow> owner = None)
     in ok \<lparr>dr_name = ''duplicate_daemon_prevention'', dr_mode = mode, dr_pass = (\<not> can_acquire), dr_events = [''SINGLETON_LOCK_BLOCKED'']\<rparr>)"

definition drill_5 :: "execution_mode \<Rightarrow> drill_result res" where
  "drill_5 mode = (let local_pos = [(''BTC'', fl 1)]; venue_pos = ([] :: (string \<times> pyfloat) list)
     in ok \<lparr>dr_name = ''reconciliation_quarantine'', dr_mode = mode, dr_pass = (length local_pos \<noteq> length venue_pos),
          dr_events = [''POSITION_MISMATCH_DETECTED'']\<rparr>)"

definition drill_6 :: "execution_mode \<Rightarrow> drill_result res" where
  "drill_6 mode = (case finalize_partial_fill (drill_config mode False False) ''cid_drill_6'' (fl (4/10)) (fl 1) (fl 48000) ''BTC'' (fl 50000)
       (drill_state (new_sentinel (fl 3000) 100)) of
     (Inl e, oms) \<Rightarrow> Inl e
   | (Inr ev, oms) \<Rightarrow> (case dget (active_orders oms) ''cid_drill_6'' of
       None \<Rightarrow> raise (KeyError ''cid_drill_6'')
     | Some st \<Rightarrow> ok \<lparr>dr_name = ''partial_fill_finalization'', dr_mode = mode,
         dr_pass = (st = PARTIAL_FILL_FINALIZED \<and> feq (rd_realized_qty ev) (fl (4/10))),
         dr_events = [''PARTIAL_FILL_FINALIZED'', ''RISK_DEVIATION'']\<rparr>))"

text \<open>Drill 7: a short order while a long one works; \<open>c0\<close> is the clock when the long one is registered.\<close>

definition drill_7 :: "execution_mode \<Rightarrow> pyfloat \<Rightarrow> pyfloat \<Rightarrow> drill_result res" where
  "drill_7 mode c0 c1 =
    (let s0 = register_order \<lparr>wo_client_order_id = ''cid_long_drill'', wo_symbol = ''BTC'', wo_side = LONG,
           submitted_price = fl 50000, wo_stop_price = fl 48000, requested_qty = fl 1, wo_filled_qty = 0,
           last_fill_time_ms = c0 * fl 1000, wo_status = SUBMITTED\<rparr> (drill_state (new_sentinel (fl 3000) 100))
     in rbind (drill_order SHORT 49800 51000 47000 1) (\<lambda>order.
        case submit_order (drill_config mode False True) order ''cid_short_drill'' None c1 s0 of
          (Inl e, s) \<Rightarrow> Inl e
        | (Inr state, s) \<Rightarrow> (case dget (ex_working s) ''cid_long_drill'' of
            None \<Rightarrow> raise (KeyError ''cid_long_drill'')
          | Some w \<Rightarrow> ok \<lparr>dr_name = ''wash_trade_prevention'', dr_mode = mode,
              dr_pass = (wo_status w = CANCELED \<and> state \<in> {SUBMITTED, FILLED}),
              dr_events = [''WASH_TRADING_PREVENTION'', ''OPPOSITE_ORDER_CANCELED'']\<rparr>)))"

definition run_all_drills :: "execution_mode \<Rightarrow> pyfloat \<Rightarrow> pyfloat \<Rightarrow> drill_result list res" where
  "run_all_drills mode c0 c1 = map_res id [drill_1 mode c0 c1, drill_2 mode, drill_3 mode, drill_4 mode, drill_5 mode, drill_6 mode, drill_7 mode c0 c1]"

section \<open>The drills pass\<close>

lemma drill_order_ok [simp]: "drill_order sd entry stop target sz = ok \<lparr>ao_asset = ''BTC'', ao_asset_class = ''crypto'', ao_side = sd,
     ao_entry_price = fl entry, ao_stop_price = fl stop, ao_target_price = fl target, ao_position_size = fl sz,
     ao_risk_pct = fl (1/100), ao_issuer = ISSUER\<rparr>"
  by (simp add: drill_order_def new_ApprovedOrder_def)

lemma drill_2_passes: "drill_2 mode = ok \<lparr>dr_name = ''portfolio_drawdown_tier_2'', dr_mode = mode, dr_pass = True, dr_events = [''PORTFOLIO_ENTRY_BLOCK'']\<rparr>"
  by (simp add: drill_2_def drill_account_def drill_position_def evaluate_portfolio_drawdown_def calculate_unrealized_pnl_def new_breaker_def
      is_entry_allowed_def minus_pyfloat_def fl_eval float_eval zero_Fin)

lemma drill_3_passes: "drill_3 mode = ok \<lparr>dr_name = ''portfolio_flatten_tier_3'', dr_mode = mode, dr_pass = True,
    dr_events = [''PORTFOLIO_FLATTEN'', ''APPROVED_EXIT_DISPATCHED'']\<rparr>"
  by (simp add: drill_3_def drill_account_def drill_position_def evaluate_portfolio_drawdown_def calculate_unrealized_pnl_def new_breaker_def
      flatten_exit_ok minus_pyfloat_def fl_eval float_eval zero_Fin)

lemmas drill_eval = drill_config_def drill_state_def new_oms_def new_mock_venue_def mock_cancel_order_def mock_fetch_order_def
  mock_create_order_def on_venue_def do_transition_def commit_def register_record_def dict_simps

lemma drill_6_passes: "drill_6 mode = ok \<lparr>dr_name = ''partial_fill_finalization'', dr_mode = mode, dr_pass = True,
    dr_events = [''PARTIAL_FILL_FINALIZED'', ''RISK_DEVIATION'']\<rparr>"
  by (simp add: drill_6_def finalize_partial_fill_def finalize_register_def finalize_replay_def abind_apply drill_eval Let_def
      transition_eq event_target_def transition_plain_def resolve_fill_target_def dget_or_def feq_def ftruth_def fl_eval float_eval zero_Fin one_Fin pymax_def)

lemma drill_7_passes: "drill_7 mode c0 c1 = ok \<lparr>dr_name = ''wash_trade_prevention'', dr_mode = mode, dr_pass = True,
    dr_events = [''WASH_TRADING_PREVENTION'', ''OPPOSITE_ORDER_CANCELED'']\<rparr>"
proof (cases "mode = SHADOW")
  case True
  then show ?thesis
    by (simp add: drill_7_def submit_order_def grid_order_def wash_prevention_def check_stale_def shadow_submit_def register_order_def
        abind_apply drill_eval Let_def transition_eq event_target_def resolve_fill_target_def ftruth_def illegal_transition_def is_illegal_def
        transition_plain_def dget_or_def fl_eval float_eval zero_Fin one_Fin)
next
  case False
  then show ?thesis
    by (simp add: drill_7_def submit_order_def grid_order_def wash_prevention_def check_stale_def venue_submit_def register_order_def
        abind_apply drill_eval Let_def transition_eq event_target_def dget_or_def fl_eval float_eval zero_Fin one_Fin)
qed

text \<open>The age of the tick in floating point: far above a second for every clock up to \<open>2 ^ 40\<close> seconds.\<close>

lemma fl_small: "\<bar>x\<bar> \<le> 2 ^ 52 \<Longrightarrow> \<exists>y. fl x = Fin y \<and> \<bar>y - x\<bar> \<le> 1"
proof -
  assume x: "\<bar>x\<bar> \<le> 2 ^ 52"
  have e: "\<bar>rnd64 x - x\<bar> \<le> 1" using rnd64_error [of x] x by simp
  then have "\<bar>rnd64 x\<bar> < 2 ^ 1024" using x by simp
  then show ?thesis using e by (auto simp: fl_def Let_def)
qed

lemma old_tick_is_stale:
  assumes "0 \<le> a" "a \<le> b" "b \<le> 2 ^ 40"
  shows "fst (is_stale ''BTC'' None None (Fin b) (record_tick ''BTC'' ((Fin a - fl 5) * fl 1000) (Some ((Fin a - fl 5) * fl 1000)) (Fin a)
    (new_sentinel (fl 1000) 100)))"
proof -
  have k: "fl 5 = Fin 5" "fl 1000 = Fin 1000" by (simp_all add: fl_eval float_eval)
  obtain d where d: "fl (a - 5) = Fin d" "\<bar>d - (a - 5)\<bar> \<le> 1" using fl_small [of "a - 5"] assms by (auto simp: abs_le_iff)
  obtain t where t: "fl (d * 1000) = Fin t" "\<bar>t - d * 1000\<bar> \<le> 1" using fl_small [of "d * 1000"] assms d by (auto simp: abs_le_iff)
  obtain n where n: "fl (b * 1000) = Fin n" "\<bar>n - b * 1000\<bar> \<le> 1" using fl_small [of "b * 1000"] assms by (auto simp: abs_le_iff)
  have "3000 \<le> n - t" using d(2) t(2) n(2) assms unfolding abs_le_iff by linarith
  then have "Fin 3000 \<le> fl (n - t)" by (intro fl_ge_Fin) (simp_all add: float_eval)
  then have age: "Fin 1000 < pymax 0 (fl (n - t))"
    by (cases "fl (n - t)") (auto simp: pymax_def zero_Fin)
  show ?thesis
    using d t n age by (auto simp: k minus_pyfloat_def is_stale_def record_tick_def tick_stat_def stat_or_new_def new_sentinel_def new_symbol_stats_def
        now_or_clock_def time_since_last_tick_ms_def dict_simps feq_def zero_Fin Let_def)
qed

lemma drill_1_passes:
  assumes "0 \<le> a" "a \<le> b" "b \<le> 2 ^ 40"
  shows "drill_1 mode (Fin a) (Fin b) = ok \<lparr>dr_name = ''stale_data_rejection'', dr_mode = mode, dr_pass = True,
    dr_events = [''STALE_DATA_REJECTION'', ''EXIT_EVALUATION_CALLABLE'']\<rparr>"
proof -
  let ?t = "(Fin a - fl 5) * fl 1000"
  let ?sen = "record_tick ''BTC'' ?t (Some ?t) (Fin a) (new_sentinel (fl 1000) 100)"
  obtain sen where "is_stale ''BTC'' None None (Fin b) ?sen = (True, sen)"
    using old_tick_is_stale [OF assms] by (cases "is_stale ''BTC'' None None (Fin b) ?sen") simp
  then have "fst (submit_order (drill_config mode True False) \<lparr>ao_asset = ''BTC'', ao_asset_class = ''crypto'', ao_side = LONG,
     ao_entry_price = fl 50000, ao_stop_price = fl 48000, ao_target_price = fl 60000, ao_position_size = fl (1/10),
     ao_risk_pct = fl (1/100), ao_issuer = ISSUER\<rparr> ''cid_drill_1'' None (Fin b) (drill_state ?sen)) = ok REJECTED"
    by (simp add: submit_order_def grid_order_def wash_prevention_def check_stale_def abind_apply drill_eval Let_def
        transition_eq event_target_def illegal_transition_def is_illegal_def transition_plain_def dget_or_def)
  then show ?thesis by (simp add: drill_1_def Let_def new_ApprovedExit_def)
qed

text \<open>Every safety drill passes: in every execution mode and at any clock from 0 to \<open>2 ^ 40\<close> seconds that does not run back,
  none of the seven drills raises and each reports a pass.  Stale data is rejected, a six percent drawdown blocks entries, a ten
  percent one dispatches an exit for every position, a partial fill ends finalized, and the opposite working order is cancelled.\<close>

theorem every_drill_passes:
  assumes "0 \<le> a" "a \<le> b" "b \<le> 2 ^ 40"
  shows "\<exists>rs. run_all_drills mode (Fin a) (Fin b) = ok rs \<and> list_all dr_pass rs \<and>
    map dr_name rs = [''stale_data_rejection'', ''portfolio_drawdown_tier_2'', ''portfolio_flatten_tier_3'', ''duplicate_daemon_prevention'',
      ''reconciliation_quarantine'', ''partial_fill_finalization'', ''wash_trade_prevention'']"
  by (simp add: run_all_drills_def drill_1_passes [OF assms] drill_2_passes drill_3_passes drill_4_def drill_5_def drill_6_passes drill_7_passes)

theorem every_drill_passes_witness:
  "\<exists>rs. run_all_drills LIVE_FULL (Fin 1700000000) (Fin 1700000001) = ok rs \<and> list_all dr_pass rs \<and>
    map dr_name rs = [''stale_data_rejection'', ''portfolio_drawdown_tier_2'', ''portfolio_flatten_tier_3'', ''duplicate_daemon_prevention'',
      ''reconciliation_quarantine'', ''partial_fill_finalization'', ''wash_trade_prevention'']"
  using every_drill_passes [of 1700000000 1700000001 LIVE_FULL] by simp

text \<open>Drills 4 and 5 cannot fail: their outcome is fixed by their literals.\<close>

lemma literal_drills: "\<exists>e. drill_4 mode = ok \<lparr>dr_name = ''duplicate_daemon_prevention'', dr_mode = mode, dr_pass = True, dr_events = e\<rparr>"
    "\<exists>e. drill_5 mode = ok \<lparr>dr_name = ''reconciliation_quarantine'', dr_mode = mode, dr_pass = True, dr_events = e\<rparr>"
  by (simp_all add: drill_4_def drill_5_def)

end
