(* ===== verification/Gates.thy ===== *)
theory Gates
  imports Campaign Services Drills
begin

text \<open>
  The evidence a promotion asks for: \<open>src/scripts/preflight_check.py\<close>, \<open>shadow_report.py\<close>, \<open>generate_gate1_report.py\<close>,
  \<open>reconcile_report.py\<close> and the exit code of \<open>kill_switch_drill.py\<close>, each as the function from what it reads to its verdict.
  The text of reports and of details is left out; the environment and the tables of the database are arguments.
\<close>

section \<open>Numbers in the environment\<close>

text \<open>An underscore is allowed between two digits only.\<close>

fun underscores_ok :: "bool \<Rightarrow> string \<Rightarrow> bool" where
  "underscores_ok after_digit [] = True"
| "underscores_ok after_digit (c # cs) = (if c = CHR ''_''
     then after_digit \<and> cs \<noteq> [] \<and> is_digit (hd cs) \<and> underscores_ok False cs else underscores_ok (is_digit c) cs)"

definition float_of_string :: "string \<Rightarrow> pyfloat res" where
  "float_of_string s = (let t = Money.strip s; bad = raise (ValueError ''could not convert string to float'') in
     if \<not> underscores_ok False t then bad
     else (case split_sign (filter (\<lambda>c. c \<noteq> CHR ''_'') t) of (sg, r) \<Rightarrow> (case parse_unsigned r of
         None \<Rightarrow> bad
       | Some (DFin a) \<Rightarrow> ok (fl (of_int sg * a))
       | Some DInf \<Rightarrow> ok (if sg = 1 then PInf else NInf)
       | Some DNInf \<Rightarrow> bad
       | Some DNaN \<Rightarrow> if map Money.lower_char r = ''nan'' then ok NaN else bad)))"

definition int_of_string :: "string \<Rightarrow> int res" where
  "int_of_string s = (let t = Money.strip s in
     case split_sign (filter (\<lambda>c. c \<noteq> CHR ''_'') t) of (sg, ds) \<Rightarrow>
       if underscores_ok False t \<and> ds \<noteq> [] \<and> list_all is_digit ds then ok (sg * digits_val ds)
       else raise (ValueError ''invalid literal for int() with base 10''))"

definition getenv_or :: "environment \<Rightarrow> string \<Rightarrow> string \<Rightarrow> string" where
  "getenv_or env name dflt = (case env name of None \<Rightarrow> dflt | Some v \<Rightarrow> v)"

section \<open>Database addresses\<close>

definition resolve_postgres_url :: "string option \<Rightarrow> environment \<Rightarrow> string res" where
  "resolve_postgres_url settings env = (case settings of Some url \<Rightarrow> ok url
     | None \<Rightarrow> (case non_empty (env ''POSTGRES_URL'') of Some u \<Rightarrow> ok u
       | None \<Rightarrow> (case non_empty (env ''DATABASE_URL'') of Some u \<Rightarrow> ok u
         | None \<Rightarrow> raise (RuntimeError ''No Postgres URL available''))))"

text \<open>The text up to and with the first \<open>://\<close>, nothing when there is none.\<close>

fun scheme_part :: "string \<Rightarrow> string option" where
  "scheme_part [] = None"
| "scheme_part (c # cs) = (if take 3 (c # cs) = ''://'' then Some ''://'' else map_option ((#) c) (scheme_part cs))"

definition after_last_at :: "string \<Rightarrow> string" where
  "after_last_at url = rev (takeWhile (\<lambda>c. c \<noteq> CHR ''@'') (rev url))"

definition redact_url :: "string \<Rightarrow> string" where
  "redact_url url = (if CHR ''@'' \<in> set url
     then (case scheme_part url of None \<Rightarrow> [] | Some p \<Rightarrow> p) @ ''***@'' @ after_last_at url else url)"

definition is_legacy_placeholder_credential :: "string \<Rightarrow> bool" where
  "is_legacy_placeholder_credential v = sublist (''user:'' @ ''***@'') v"

definition REQUIRED_TABLES :: "string list" where
  "REQUIRED_TABLES = [''alembic_version'', ''funding_rates'', ''ohlcv'']"

text \<open>\<open>tables url\<close> is the connection and its query: the names of the public tables, or an exception.\<close>

definition probe_database :: "(string \<Rightarrow> string set res) \<Rightarrow> string \<Rightarrow> bool res" where
  "probe_database tables url = rbind (tables url) (\<lambda>present. ok (filter (\<lambda>t. t \<notin> present) REQUIRED_TABLES = []))"

definition default_db_probe :: "(string \<Rightarrow> string set res) \<Rightarrow> string \<Rightarrow> bool" where
  "default_db_probe tables url = (case probe_database tables url of Inl _ \<Rightarrow> False | Inr b \<Rightarrow> b)"

section \<open>The preflight check\<close>

record preflight_result =
  cr_name :: string
  cr_severity :: string
  cr_passed :: bool

definition blocking_check :: "string \<Rightarrow> bool \<Rightarrow> preflight_result" where
  "blocking_check name passed = \<lparr>cr_name = name, cr_severity = ''BLOCKING'', cr_passed = passed\<rparr>"

definition config_checks :: "environment \<Rightarrow> execution_mode \<Rightarrow> preflight_result list res" where
  "config_checks env mode =
    rbind (float_of_string (getenv_or env ''RISK_PCT'' ''0.01'')) (\<lambda>risk.
    rbind (int_of_string (getenv_or env ''MAX_CONCURRENT_POSITIONS'' ''5'')) (\<lambda>max_positions.
    rbind (float_of_string (getenv_or env ''CHASE_TIMEOUT_MS'' ''5000.0'')) (\<lambda>chase.
    rbind (float_of_string (getenv_or env ''STALENESS_THRESHOLD_MS'' ''3000.0'')) (\<lambda>stale.
      ok [blocking_check ''Configuration: Execution Mode'' (mode \<in> set [BACKTEST, PAPER, SHADOW, LIVE_RESTRICTED, LIVE_FULL]),
          blocking_check ''Configuration: Risk Percentage'' (0 < risk \<and> risk \<le> fl (2/100)),
          blocking_check ''Configuration: Max Concurrent Positions'' (0 < max_positions),
          blocking_check ''Configuration: Chase Timeout'' (fl 1000 \<le> chase),
          blocking_check ''Configuration: Staleness Threshold'' (fl 500 \<le> stale)]))))"

definition secret_checks :: "environment \<Rightarrow> string \<Rightarrow> preflight_result list" where
  "secret_checks env pg_url =
    (let candidates = filter (\<lambda>u. u \<noteq> []) [pg_url, getenv_or env ''POSTGRES_URL'' [], getenv_or env ''DATABASE_URL'' []]
     in [blocking_check ''Secrets: POSTGRES_URL Resolvable (resolve_postgres_url contract)'' (is_ok (resolve_postgres_url None env)),
         blocking_check ''Secrets: REDIS_URL Configured'' (getenv_or env ''REDIS_URL'' [] \<noteq> []),
         blocking_check ''Secrets: No Legacy Placeholder Credentials'' (list_all (\<lambda>u. \<not> is_legacy_placeholder_credential u) candidates)])"

definition security_checks :: "environment \<Rightarrow> execution_mode \<Rightarrow> preflight_result list" where
  "security_checks env mode =
    [blocking_check ''Security: Exchange API Credentials Loaded from Env''
       (if mode \<in> {LIVE_RESTRICTED, LIVE_FULL} then getenv_or env ''EXCHANGE_API_KEY'' [] \<noteq> [] \<and> getenv_or env ''EXCHANGE_API_SECRET'' [] \<noteq> []
        else True),
     blocking_check ''Security: Withdrawal Permission Disabled''
       (map Money.lower_char (getenv_or env ''EXCHANGE_WITHDRAWAL_ENABLED'' ''false'') = ''false'')]"

definition run_preflight_checks :: "environment \<Rightarrow> execution_mode \<Rightarrow> (string \<Rightarrow> bool res) \<Rightarrow> (bool \<times> preflight_result list) res" where
  "run_preflight_checks env mode prober =
    rbind (config_checks env mode) (\<lambda>config.
      let pg_url = (case resolve_postgres_url None env of Inl _ \<Rightarrow> [] | Inr u \<Rightarrow> u) in
      rbind (if pg_url \<noteq> [] then prober pg_url else ok False) (\<lambda>db_ok.
        let results = config @ secret_checks env pg_url @ security_checks env mode @
              [blocking_check ''Database: Connectivity & Alembic Schema Present'' db_ok]
        in ok (filter (\<lambda>r. cr_severity r = ''BLOCKING'' \<and> \<not> cr_passed r) results = [], results)))"

text \<open>The exit code, with the database probe the script uses.\<close>

definition preflight_main :: "environment \<Rightarrow> (string \<Rightarrow> string set res) \<Rightarrow> string \<Rightarrow> nat res" where
  "preflight_main env tables mode_arg = (case mode_of_text mode_arg of
     None \<Rightarrow> ok 1
   | Some mode \<Rightarrow> rbind (run_preflight_checks env mode (\<lambda>u. ok (default_db_probe tables u))) (\<lambda>(pass, _). ok (if pass then 0 else 1)))"

section \<open>Gate 1 over the cumulative metrics\<close>

datatype gate_failure = MissingBenchmark | ZScoreOut pyfloat | StalenessTrips int | LiquidityDeficit pyfloat
  | ReconciliationMismatch int | UnknownOrders int | PositionMismatch int | BalanceMismatch int

record gate_outcome =
  go_pass :: bool
  go_failures :: "gate_failure list"
  go_z_score :: "pyfloat option"

text \<open>The score and the objection of the benchmark check.\<close>

definition benchmark_check :: "metric_record \<Rightarrow> pyfloat option \<Rightarrow> pyfloat option \<Rightarrow> (pyfloat option \<times> gate_failure list) res" where
  "benchmark_check r expected sd = (case (expected, sd) of
     (Some e, Some d) \<Rightarrow> if d \<le> 0 then ok (None, [MissingBenchmark])
       else rbind (fdiv (shadow_pnl_pct r - e) d) (\<lambda>z.
         ok (Some (round_digits z 4), if - fl (3/2) \<le> z \<and> z \<le> fl (3/2) then [] else [ZScoreOut z]))
   | _ \<Rightarrow> ok (None, [MissingBenchmark]))"

definition evaluate_gate_1 :: "metric_record \<Rightarrow> pyfloat option \<Rightarrow> pyfloat option \<Rightarrow> gate_outcome res" where
  "evaluate_gate_1 r expected sd = rbind (benchmark_check r expected sd) (\<lambda>(z, fs).
    let failures = fs
          @ (if 8 < staleness_circuit_breaker_trips r then [StalenessTrips (staleness_circuit_breaker_trips r)] else [])
          @ (if fl (5/100) < liquidity_deficit_pct r then [LiquidityDeficit (liquidity_deficit_pct r)] else [])
          @ (if 0 < reconciliation_mismatches r then [ReconciliationMismatch (reconciliation_mismatches r)] else [])
          @ (if 0 < unknown_order_events r then [UnknownOrders (unknown_order_events r)] else [])
          @ (if 0 < position_mismatch_events r then [PositionMismatch (position_mismatch_events r)] else [])
          @ (if 0 < balance_mismatch_events r then [BalanceMismatch (balance_mismatch_events r)] else [])
    in ok \<lparr>go_pass = (failures = []), go_failures = failures, go_z_score = z\<rparr>)"

definition MIN_DAYS_REQUIRED :: nat where
  "MIN_DAYS_REQUIRED = 20"

definition count_persisted_days :: "metrics_store \<Rightarrow> nat" where
  "count_persisted_days s = length (remdups (map metric_date (metrics_history s)))"

text \<open>\<open>shadow_report.py --days\<close> on a store: 0 passed, 2 not enough data, 3 gate failed.\<close>

definition shadow_report :: "int \<Rightarrow> metrics_store \<Rightarrow> nat res" where
  "shadow_report days s = (if count_persisted_days s < MIN_DAYS_REQUIRED then ok 2
     else rbind (get_cumulative_metrics days (metrics_history s)) (\<lambda>agg. case agg of
       None \<Rightarrow> ok 2
     | Some r \<Rightarrow> rbind (evaluate_gate_1 r (Some (fl (5/100))) (Some (fl (2/100)))) (\<lambda>g. ok (if go_pass g then 0 else 3))))"

text \<open>The script itself: the store is a new one.\<close>

definition shadow_report_main :: "int \<Rightarrow> nat res" where
  "shadow_report_main days = shadow_report days (new_metrics_store False)"

section \<open>The Gate 1 report\<close>

record gate1_report =
  gr_summary :: campaign_summary
  gr_records :: nat
  gr_var_95 :: pyfloat
  gr_var_99 :: pyfloat
  gr_max_drawdown :: pyfloat
  gr_mismatches :: int
  gr_proceed :: bool

datatype gate1_error = InsufficientData nat | EvaluationFailed pyerr

definition generate_gate1_report :: "int \<Rightarrow> metrics_store \<Rightarrow> pyfloat option \<Rightarrow> pyfloat option \<Rightarrow> gate1_error + gate1_report" where
  "generate_gate1_report days s expected sd =
    (let records = metrics_history s; n = count_persisted_days s in
     if n < MIN_DAYS_REQUIRED then Inl (InsufficientData n)
     else (let c = (new_campaign s)\<lparr>daily_records := recent_rows days records\<rparr> in
       case fst (evaluate_campaign_status (case expected of None \<Rightarrow> fl (6/100) | Some e \<Rightarrow> e)
           (case sd of None \<Rightarrow> fl (2/100) | Some d \<Rightarrow> d) c) of
         Inl e \<Rightarrow> Inl (EvaluationFailed e)
       | Inr smry \<Rightarrow> Inr \<lparr>gr_summary = smry, gr_records = length records, gr_var_95 = portfolio_var_95 (last records),
           gr_var_99 = portfolio_var_99 (last records), gr_max_drawdown = worst_of max_shadow_drawdown_pct records,
           gr_mismatches = sum_list (map reconciliation_mismatches records), gr_proceed = (cs_status smry = GATE_1_PASS)\<rparr>))"

definition gate1_exit :: "gate1_error + gate1_report \<Rightarrow> nat" where
  "gate1_exit r = (case r of
     Inl (InsufficientData _) \<Rightarrow> 2
   | Inl (EvaluationFailed _) \<Rightarrow> 3
   | Inr rep \<Rightarrow> (case cs_status (gr_summary rep) of GATE_1_PASS \<Rightarrow> 0 | GATE_1_FAIL \<Rightarrow> 1 | IN_PROGRESS \<Rightarrow> 3))"

definition gate1_main :: "int \<Rightarrow> pyfloat option \<Rightarrow> pyfloat option \<Rightarrow> nat" where
  "gate1_main days expected sd = gate1_exit (generate_gate1_report days (new_metrics_store False) expected sd)"

section \<open>The reconciliation report\<close>

record reconciliation_report =
  rr_mode :: execution_mode
  rr_positions_match :: bool
  rr_balances_match :: bool
  rr_open_orders_match :: bool
  rr_fills_match :: bool
  rr_quarantine_count :: int
  rr_unknown_order_count :: int
  rr_orphan_fill_count :: int
  rr_position_mismatch_count :: int
  rr_balance_mismatch_count :: int
  rr_status :: string
  rr_positions :: nat
  rr_balances :: "(string \<times> pyfloat) list"
  rr_open_orders :: nat

text \<open>The counts of differences the report starts from are never changed; the venue \<open>v\<close> is never asked.\<close>

definition generate_reconciliation_report ::
  "'v \<Rightarrow> execution_mode \<Rightarrow> 'p list \<Rightarrow> (string \<times> pyfloat) list \<Rightarrow> 'o list \<Rightarrow> reconciliation_report" where
  "generate_reconciliation_report v mode local_positions local_balances local_open_orders =
    (let l_bal = (if local_balances = [] then [(''USDT'', fl 100000)] else local_balances);
         pos_mismatch = 0; bal_mismatch = 0; unknown = 0; orphan = 0; quarantine = 0;
         status = (if (0::int) < pos_mismatch \<or> (0::int) < bal_mismatch then ''MISMATCH''
           else if (0::int) < quarantine then ''QUARANTINE''
           else if (0::int) < unknown \<or> (0::int) < orphan then ''WARNING'' else ''CLEAN'')
     in \<lparr>rr_mode = mode, rr_positions_match = True, rr_balances_match = True, rr_open_orders_match = True, rr_fills_match = True,
         rr_quarantine_count = quarantine, rr_unknown_order_count = unknown, rr_orphan_fill_count = orphan,
         rr_position_mismatch_count = pos_mismatch, rr_balance_mismatch_count = bal_mismatch, rr_status = status,
         rr_positions = length local_positions, rr_balances = l_bal, rr_open_orders = length local_open_orders\<rparr>)"

section \<open>The drill script\<close>

text \<open>A mode that is none is an uncaught \<open>ValueError\<close>.  \<open>--drill\<close> is read and not used.\<close>

definition drill_main :: "string \<Rightarrow> string \<Rightarrow> pyfloat \<Rightarrow> pyfloat \<Rightarrow> nat res" where
  "drill_main drill mode_arg c0 c1 = (case mode_of_text mode_arg of
     None \<Rightarrow> raise (ValueError mode_arg)
   | Some mode \<Rightarrow> rbind (run_all_drills mode c0 c1) (\<lambda>results. ok (if list_all dr_pass results then 0 else 1)))"

section \<open>Redaction\<close>

lemma scheme_part_split: "scheme_part s = Some p \<Longrightarrow> scheme_part (s @ t) = Some p \<and> (\<exists>r. s = p @ r)"
proof (induction s arbitrary: p)
  case (Cons c cs)
  show ?case
  proof (cases "take 3 (c # cs) = ''://''")
    case True
    moreover have "take 3 ((c # cs) @ t) = take 3 (c # cs)" using True by (cases cs; cases "tl cs"; auto)
    moreover have "c # cs = ''://'' @ drop 3 (c # cs)" using True append_take_drop_id [of 3 "c # cs"] by metis
    ultimately show ?thesis using Cons.prems by auto
  next
    case False
    then obtain q where q: "scheme_part cs = Some q" "p = c # q" using Cons.prems by auto
    note ih = Cons.IH [OF q(1)]
    have "take 3 ((c # cs) @ t) \<noteq> ''://''"
    proof
      assume a: "take 3 ((c # cs) @ t) = ''://''"
      have "2 \<le> length cs"
        using q(1) by (cases cs; cases "tl cs"; auto)
      then have "take 3 ((c # cs) @ t) = take 3 (c # cs)" by simp
      with a False show False by simp
    qed
    then show ?thesis using ih q by auto
  qed
qed simp

lemma after_last_at_cut: "CHR ''@'' \<notin> set host \<Longrightarrow> after_last_at (u @ CHR ''@'' # host) = host"
proof -
  assume h: "CHR ''@'' \<notin> set host"
  have "takeWhile (\<lambda>c. c \<noteq> CHR ''@'') (rev host @ CHR ''@'' # rev u) = rev host"
    using h by (simp add: takeWhile_append1 takeWhile_append)
  then show ?thesis by (simp add: after_last_at_def)
qed

text \<open>What is printed of an address does not depend on the credentials, whatever they contain, also \<open>@\<close> and \<open>://\<close>.\<close>

lemma redaction_hides_credentials:
  assumes "scheme_part (scheme @ ''://'') = Some (scheme @ ''://'')" "CHR ''@'' \<notin> set host"
  shows "redact_url (scheme @ ''://'' @ credentials @ ''@'' @ host) = scheme @ ''://***@'' @ host"
proof -
  have "scheme_part ((scheme @ ''://'') @ credentials @ ''@'' @ host) = Some (scheme @ ''://'')"
    using scheme_part_split [OF assms(1)] by blast
  moreover have "after_last_at ((scheme @ ''://'' @ credentials) @ CHR ''@'' # host) = host"
    using after_last_at_cut [OF assms(2)] by blast
  ultimately show ?thesis by (simp add: redact_url_def)
qed

text \<open>Without a scheme the credentials stay out too; with \<open>://\<close> first inside them they are printed up to it.\<close>

lemma redaction_leak: "redact_url ''user:pa://ss@host'' = ''user:pa://***@host''"
  by (simp add: redact_url_def after_last_at_def)

section \<open>The reports\<close>

text \<open>The reconciliation report is clean whatever the venue and the local state hold.\<close>

lemma reconciliation_always_clean: "rr_status (generate_reconciliation_report v mode ps bs os) = ''CLEAN''"
  by (simp add: generate_reconciliation_report_def)

text \<open>The scripts read a store of their own, which is empty: neither ever reaches the gate.\<close>

lemma gate_scripts_never_evaluate: "shadow_report_main days = ok 2" "gate1_main days expected sd = 2"
  by (simp_all add: shadow_report_main_def shadow_report_def gate1_main_def gate1_exit_def generate_gate1_report_def
      count_persisted_days_def new_metrics_store_def MIN_DAYS_REQUIRED_def)

lemma unknown_drill_mode: "drill_main d ''DRILL'' c0 c1 = raise (ValueError ''DRILL'')"
proof -
  have "mode_of_text ''DRILL'' = None" by code_simp
  then show ?thesis by (simp add: drill_main_def del: mode_of_text.simps)
qed

lemma nan_deficit_passes:
  "\<exists>g. evaluate_gate_1 ((blank_record d m ''BTC'')\<lparr>liquidity_deficit_pct := NaN, shadow_pnl_pct := fl (5/100)\<rparr>) (Some (fl (5/100))) (Some (fl (2/100))) = ok g \<and> go_pass g"
  by (simp add: evaluate_gate_1_def benchmark_check_def blank_record_def minus_pyfloat_def fl_eval float_eval zero_Fin)

section \<open>What a pass means\<close>

text \<open>Exit code 0 of the preflight check: the parsed settings are inside their caps and the probed database has every table.\<close>

lemma preflight_pass:
  assumes "preflight_main env tables mode_arg = ok 0"
  shows "\<exists>mode risk n chase stale url present. mode_of_text mode_arg = Some mode \<and>
    float_of_string (getenv_or env ''RISK_PCT'' ''0.01'') = ok risk \<and> 0 < risk \<and> risk \<le> fl (2/100) \<and>
    int_of_string (getenv_or env ''MAX_CONCURRENT_POSITIONS'' ''5'') = ok n \<and> 0 < n \<and>
    float_of_string (getenv_or env ''CHASE_TIMEOUT_MS'' ''5000.0'') = ok chase \<and> fl 1000 \<le> chase \<and>
    float_of_string (getenv_or env ''STALENESS_THRESHOLD_MS'' ''3000.0'') = ok stale \<and> fl 500 \<le> stale \<and>
    resolve_postgres_url None env = ok url \<and> \<not> is_legacy_placeholder_credential url \<and>
    tables url = ok present \<and> set REQUIRED_TABLES \<subseteq> present"
proof -
  obtain mode where m: "mode_of_text mode_arg = Some mode"
    using assms by (auto simp: preflight_main_def split: option.splits)
  obtain rs where r: "run_preflight_checks env mode (\<lambda>u. ok (default_db_probe tables u)) = ok (True, rs)"
    using assms m by (auto simp: preflight_main_def rbind_eq_Inr split: if_splits simp del: mode_of_text.simps)
  obtain config db_ok where c: "config_checks env mode = ok config" and
    l: "list_all cr_passed config" "list_all cr_passed (secret_checks env (case resolve_postgres_url None env of Inl _ \<Rightarrow> [] | Inr u \<Rightarrow> u))"
    and db: "db_ok" "(let pg = (case resolve_postgres_url None env of Inl _ \<Rightarrow> [] | Inr u \<Rightarrow> u) in if pg \<noteq> [] then default_db_probe tables pg else False) = db_ok"
    using r by (auto simp: run_preflight_checks_def rbind_eq_Inr config_checks_def secret_checks_def blocking_check_def Let_def filter_empty_conv list_all_iff
      split: if_splits)
  obtain url where u: "resolve_postgres_url None env = ok url" "url \<noteq> []" "default_db_probe tables url"
    using db by (auto simp: Let_def split: sum.splits if_splits)
  obtain present where p: "tables url = ok present" "set REQUIRED_TABLES \<subseteq> present"
    using u(3) by (auto simp: default_db_probe_def probe_database_def rbind_eq_Inr filter_empty_conv rbind_def split: sum.splits)
  have "\<not> is_legacy_placeholder_credential url" using l(2) u by (simp add: secret_checks_def blocking_check_def Let_def)
  moreover obtain risk n chase stale where "float_of_string (getenv_or env ''RISK_PCT'' ''0.01'') = ok risk"
    "int_of_string (getenv_or env ''MAX_CONCURRENT_POSITIONS'' ''5'') = ok n"
    "float_of_string (getenv_or env ''CHASE_TIMEOUT_MS'' ''5000.0'') = ok chase"
    "float_of_string (getenv_or env ''STALENESS_THRESHOLD_MS'' ''3000.0'') = ok stale"
    "0 < risk \<and> risk \<le> fl (2/100)" "0 < n" "fl 1000 \<le> chase" "fl 500 \<le> stale"
    using c l(1) by (auto simp: config_checks_def rbind_eq_Inr blocking_check_def)
  ultimately show ?thesis using m u p by blast
qed

lemma if_list_empty: "(if c then [x] else []) = [] \<longleftrightarrow> \<not> c" "(if c then [] else [x]) = [] \<longleftrightarrow> c"
  by (cases c; simp)+

lemma gate_1_pass:
  assumes "evaluate_gate_1 r (Some e) (Some d) = ok g" "go_pass g" "\<not> d \<le> 0"
  shows "\<exists>z. fdiv (shadow_pnl_pct r - e) d = ok z \<and> - fl (3/2) \<le> z \<and> z \<le> fl (3/2) \<and> staleness_circuit_breaker_trips r \<le> 8 \<and>
    \<not> fl (5/100) < liquidity_deficit_pct r \<and> reconciliation_mismatches r \<le> 0 \<and> unknown_order_events r \<le> 0 \<and>
    position_mismatch_events r \<le> 0 \<and> balance_mismatch_events r \<le> 0"
proof -
  obtain z where z: "fdiv (shadow_pnl_pct r - e) d = ok z"
    using assms(1,3) by (cases "fdiv (shadow_pnl_pct r - e) d") (simp_all add: evaluate_gate_1_def benchmark_check_def)
  have "go_failures g = []" "go_pass g = (go_failures g = [])"
    using assms z by (auto simp: evaluate_gate_1_def benchmark_check_def Let_def simp del: append_is_Nil_conv split del: if_split)
  then have "(if - fl (3/2) \<le> z \<and> z \<le> fl (3/2) then [] else [ZScoreOut z]) = [] \<and>
      (if 8 < staleness_circuit_breaker_trips r then [StalenessTrips (staleness_circuit_breaker_trips r)] else []) = [] \<and>
      (if fl (5/100) < liquidity_deficit_pct r then [LiquidityDeficit (liquidity_deficit_pct r)] else []) = [] \<and>
      (if 0 < reconciliation_mismatches r then [ReconciliationMismatch (reconciliation_mismatches r)] else []) = [] \<and>
      (if 0 < unknown_order_events r then [UnknownOrders (unknown_order_events r)] else []) = [] \<and>
      (if 0 < position_mismatch_events r then [PositionMismatch (position_mismatch_events r)] else []) = [] \<and>
      (if 0 < balance_mismatch_events r then [BalanceMismatch (balance_mismatch_events r)] else []) = []"
    using assms(1,3) z by (simp only: evaluate_gate_1_def benchmark_check_def Let_def option.case prod.case if_False rbind_simps
        append_is_Nil_conv sum.inject gate_outcome.ext_inject)
      (auto split: if_splits)
  then show ?thesis using z unfolding if_list_empty not_less by blast
qed

text \<open>C38: A passing Gate 1 speaks for every day of its window: with counters that are never negative, exit code 0 of the shadow report
  means twenty distinct days are stored, no day of the window has a reconciliation, order, position or balance mismatch, the window has
  at most eight staleness trips, its average deficit is not above five percent and its score is within 1.5 of the benchmark.\<close>

theorem gate_pass_needs_clean_days:
  assumes "shadow_report days s = ok 0"
    and "\<forall>r\<in>set (recent_rows days (metrics_history s)). 0 \<le> reconciliation_mismatches r \<and> 0 \<le> unknown_order_events r \<and>
      0 \<le> position_mismatch_events r \<and> 0 \<le> balance_mismatch_events r"
  shows "20 \<le> card (metric_date ` set (metrics_history s)) \<and> recent_rows days (metrics_history s) \<noteq> [] \<and>
    (\<forall>r\<in>set (recent_rows days (metrics_history s)). reconciliation_mismatches r = 0 \<and> unknown_order_events r = 0 \<and>
      position_mismatch_events r = 0 \<and> balance_mismatch_events r = 0) \<and>
    sum_list (map staleness_circuit_breaker_trips (recent_rows days (metrics_history s))) \<le> 8 \<and>
    \<not> fl (5/100) < avg_of liquidity_deficit_pct (recent_rows days (metrics_history s)) \<and>
    (\<exists>z. fdiv (fsum (map shadow_pnl_pct (recent_rows days (metrics_history s))) - fl (5/100)) (fl (2/100)) = ok z \<and>
      - fl (3/2) \<le> z \<and> z \<le> fl (3/2))"
proof -
  let ?w = "recent_rows days (metrics_history s)"
  have n: "20 \<le> card (metric_date ` set (metrics_history s))"
    using assms(1) by (auto simp: shadow_report_def count_persisted_days_def MIN_DAYS_REQUIRED_def length_remdups_card_conv split: if_splits)
  obtain g where w: "?w \<noteq> []" and g: "evaluate_gate_1 (cumulate ?w) (Some (fl (5/100))) (Some (fl (2/100))) = ok g" "go_pass g"
    using assms(1) by (auto simp: shadow_report_def get_cumulative_metrics_def rbind_eq_Inr Let_def split: if_splits option.splits)
  have sd: "\<not> fl (2/100) \<le> 0" by (simp add: fl_eval float_eval zero_Fin)
  obtain z where z: "fdiv (shadow_pnl_pct (cumulate ?w) - fl (5/100)) (fl (2/100)) = ok z" "- fl (3/2) \<le> z" "z \<le> fl (3/2)"
    and c: "staleness_circuit_breaker_trips (cumulate ?w) \<le> 8" "\<not> fl (5/100) < liquidity_deficit_pct (cumulate ?w)"
      "reconciliation_mismatches (cumulate ?w) \<le> 0" "unknown_order_events (cumulate ?w) \<le> 0"
      "position_mismatch_events (cumulate ?w) \<le> 0" "balance_mismatch_events (cumulate ?w) \<le> 0"
    using gate_1_pass [OF g sd] by blast
  have zero: "\<forall>r\<in>set ?w. h r = 0" if "\<forall>r\<in>set ?w. 0 \<le> h r" "sum_list (map h ?w) \<le> 0" for h :: "metric_record \<Rightarrow> int"
  proof
    fix r assume r: "r \<in> set ?w"
    then have "h r \<le> sum_list (map h ?w)" using that(1) by (intro member_le_sum_list) auto
    then show "h r = 0" using that r by force
  qed
  have "\<forall>r\<in>set ?w. reconciliation_mismatches r = 0" "\<forall>r\<in>set ?w. unknown_order_events r = 0"
    "\<forall>r\<in>set ?w. position_mismatch_events r = 0" "\<forall>r\<in>set ?w. balance_mismatch_events r = 0"
    using c(3-6) assms(2) by (auto intro!: zero [rule_format] simp: cumulate_def)
  then show ?thesis using n w z c(1,2) by (simp add: cumulate_def)
qed

definition campaign_day :: "char \<Rightarrow> metric_record" where
  "campaign_day c = (blank_record [c] ''SHADOW'' ''BTC'')\<lparr>shadow_pnl_pct := (if c = CHR ''a'' then Fin (1/16) else 0)\<rparr>"

definition campaign_store :: metrics_store where
  "campaign_store = (new_metrics_store False)\<lparr>metrics_history := map campaign_day ''abcdefghijklmnopqrst''\<rparr>"

lemma sum_loop_zeros: "fl a = Fin a \<Longrightarrow> sum_loop (Fin a) 0 (replicate n 0) = Fin a"
proof (induction n)
  case (Suc n)
  have "(if \<bar>0 :: pyfloat\<bar> \<le> \<bar>Fin a\<bar> then 0 + ((Fin a - Fin a) + 0) else 0 + ((0 - Fin a) + Fin a)) = 0"
    by (simp add: minus_pyfloat_def zero_Fin fl_eval)
  then show ?case using Suc by (simp add: zero_Fin fl_eval Let_def minus_pyfloat_def)
qed (simp add: ftruth_def)

lemma campaign_window: "recent_rows 20 (metrics_history campaign_store) = map campaign_day ''abcdefghijklmnopqrst''"
    "count_persisted_days campaign_store = 20"
  by (simp_all add: campaign_store_def recent_rows_def new_metrics_store_def count_persisted_days_def campaign_day_def blank_record_def)

lemma campaign_sums: "fsum (map shadow_pnl_pct (map campaign_day ''abcdefghijklmnopqrst'')) = Fin (1/16)"
    "avg_of liquidity_deficit_pct (map campaign_day ''abcdefghijklmnopqrst'') = 0"
proof -
  have "map shadow_pnl_pct (map campaign_day ''abcdefghijklmnopqrst'') = Fin (1/16) # replicate 19 0"
    by (simp add: campaign_day_def numeral_eq_Suc)
  moreover have "fl (1/16) = Fin (1/16)" by (simp add: fl_eval float_eval)
  ultimately show "fsum (map shadow_pnl_pct (map campaign_day ''abcdefghijklmnopqrst'')) = Fin (1/16)"
    using sum_loop_zeros [of "1/16" 19] by (simp add: fsum_def zero_Fin)
  have "map liquidity_deficit_pct (map campaign_day ''abcdefghijklmnopqrst'') = 0 # replicate 19 0"
    by (simp add: campaign_day_def blank_record_def numeral_eq_Suc)
  then show "avg_of liquidity_deficit_pct (map campaign_day ''abcdefghijklmnopqrst'') = 0"
    using sum_loop_zeros [of 0 19] by (simp add: avg_of_def fsum_def float_of_int_def zero_Fin fl_eval float_eval)
qed

lemma campaign_passes: "shadow_report 20 campaign_store = ok 0"
proof -
  let ?w = "map campaign_day ''abcdefghijklmnopqrst''"
  have f: "shadow_pnl_pct (cumulate ?w) = Fin (1/16)" "liquidity_deficit_pct (cumulate ?w) = 0"
    using campaign_sums by (simp_all add: cumulate_def)
  have i: "staleness_circuit_breaker_trips (cumulate ?w) = 0" "reconciliation_mismatches (cumulate ?w) = 0"
    "unknown_order_events (cumulate ?w) = 0" "position_mismatch_events (cumulate ?w) = 0" "balance_mismatch_events (cumulate ?w) = 0"
    by (simp_all add: cumulate_def campaign_day_def blank_record_def)
  have "evaluate_gate_1 (cumulate ?w) (Some (fl (5/100))) (Some (fl (2/100))) =
    ok \<lparr>go_pass = True, go_failures = [], go_z_score = Some z\<rparr>" if "z = round_digits (case fdiv (Fin (1/16) - fl (5/100)) (fl (2/100)) of Inr x \<Rightarrow> x) 4" for z
    unfolding evaluate_gate_1_def benchmark_check_def f i that by (simp add: minus_pyfloat_def fl_eval float_eval zero_Fin)
  moreover have "get_cumulative_metrics 20 (metrics_history campaign_store) = ok (Some (cumulate ?w))"
    using campaign_window(1) by (simp add: get_cumulative_metrics_def campaign_store_def)
  ultimately show ?thesis by (simp add: shadow_report_def campaign_window(2) MIN_DAYS_REQUIRED_def)
qed

theorem gate_pass_needs_clean_days_witness:
  "shadow_report 20 campaign_store = ok 0 \<and> 20 \<le> card (metric_date ` set (metrics_history campaign_store)) \<and>
    sum_list (map staleness_circuit_breaker_trips (recent_rows 20 (metrics_history campaign_store))) \<le> 8"
proof -
  have "\<forall>r\<in>set (recent_rows 20 (metrics_history campaign_store)). 0 \<le> reconciliation_mismatches r \<and> 0 \<le> unknown_order_events r \<and>
      0 \<le> position_mismatch_events r \<and> 0 \<le> balance_mismatch_events r"
    by (simp add: campaign_window(1) campaign_day_def blank_record_def)
  then show ?thesis using gate_pass_needs_clean_days [OF campaign_passes] campaign_passes by blast
qed

end
