(* ===== verification/Records.thy ===== *)
theory Records
  imports Gates WalkForward Alerts Regime
begin

text \<open>
  What the operations side writes and shows: drill and reconciliation rows of \<open>ops/deployment_metrics.py\<close>, the alerts and the
  exposition of \<open>ops/metrics_collector.py\<close>, the tearsheet of \<open>walkforward/report.py\<close>, the settings of \<open>config.py\<close>, and two
  estimators (\<open>calibrate_sigma\<close>, \<open>estimate_moments\<close>).  A number in a text is the number; logarithm, powers and the mean of an
  array are parameters.
\<close>

section \<open>Settings\<close>

record settings =
  se_postgres_url :: string
  se_redis_url :: string
  se_mode :: execution_mode
  se_venue_api_key :: "string option"
  se_venue_api_secret :: "string option"
  se_venue_password :: "string option"
  se_exchange_id :: string
  se_dry_run :: bool

text \<open>What the environment gives, converted by pydantic to the type of the field.\<close>

record given_settings =
  gs_postgres_url :: "string option"
  gs_redis_url :: "string option"
  gs_mode :: "execution_mode option"
  gs_venue_api_key :: "string option"
  gs_venue_api_secret :: "string option"
  gs_venue_password :: "string option"
  gs_exchange_id :: "string option"
  gs_dry_run :: "bool option"

definition given_or :: "'a option \<Rightarrow> 'a \<Rightarrow> 'a" where
  "given_or given d = (case given of None \<Rightarrow> d | Some x \<Rightarrow> x)"

text \<open>A required field that is missing, or a placeholder address, is a \<open>ValidationError\<close>, which is a \<open>ValueError\<close>.\<close>

definition new_settings :: "given_settings \<Rightarrow> settings res" where
  "new_settings g = (case (gs_postgres_url g, gs_redis_url g) of
     (Some p, Some r) \<Rightarrow> if is_legacy_placeholder_credential p then raise (ValueError ''postgres_url matches the legacy committed placeholder credential'')
       else ok \<lparr>se_postgres_url = p, se_redis_url = r, se_mode = given_or (gs_mode g) BACKTEST, se_venue_api_key = gs_venue_api_key g,
         se_venue_api_secret = gs_venue_api_secret g, se_venue_password = gs_venue_password g,
         se_exchange_id = given_or (gs_exchange_id g) ''binanceus'', se_dry_run = given_or (gs_dry_run g) True\<rparr>
   | _ \<Rightarrow> raise (ValueError ''Field required''))"

section \<open>Rows\<close>

datatype store_write = DrillWrite drill_result | ReportWrite reconciliation_report

record ops_store =
  os_has_pool :: bool
  drill_history :: "drill_result list"
  reconciliation_history :: "reconciliation_report list"
  os_pending :: "store_write list"
  drill_rows :: "drill_result list"
  reconciliation_rows :: "reconciliation_report list"
  os_degraded :: "string set"

definition new_ops_store :: "bool \<Rightarrow> ops_store" where
  "new_ops_store pool = \<lparr>os_has_pool = pool, drill_history = [], reconciliation_history = [], os_pending = [], drill_rows = [],
     reconciliation_rows = [], os_degraded = {}\<rparr>"

text \<open>Without a running loop the write is dropped.\<close>

definition schedule_write :: "bool \<Rightarrow> store_write \<Rightarrow> ops_store \<Rightarrow> ops_store" where
  "schedule_write loop w s = (if os_has_pool s \<and> loop then s\<lparr>os_pending := os_pending s @ [w]\<rparr> else s)"

definition record_drill_result :: "bool \<Rightarrow> drill_result \<Rightarrow> ops_store \<Rightarrow> ops_store" where
  "record_drill_result loop r s = schedule_write loop (DrillWrite r) (s\<lparr>drill_history := drill_history s @ [r]\<rparr>)"

definition record_reconciliation_report :: "bool \<Rightarrow> reconciliation_report \<Rightarrow> ops_store \<Rightarrow> ops_store" where
  "record_reconciliation_report loop r s =
     schedule_write loop (ReportWrite r) (s\<lparr>reconciliation_history := reconciliation_history s @ [r]\<rparr>)"

definition insert_drill_result :: "unit res \<Rightarrow> drill_result \<Rightarrow> ops_store \<Rightarrow> ops_store" where
  "insert_drill_result outcome r s = (case outcome of
     Inl _ \<Rightarrow> s\<lparr>os_degraded := insert ''drill_results.insert'' (os_degraded s)\<rparr>
   | Inr _ \<Rightarrow> s\<lparr>drill_rows := drill_rows s @ [r]\<rparr>)"

definition insert_reconciliation_report :: "unit res \<Rightarrow> reconciliation_report \<Rightarrow> ops_store \<Rightarrow> ops_store" where
  "insert_reconciliation_report outcome r s = (case outcome of
     Inl _ \<Rightarrow> s\<lparr>os_degraded := insert ''reconciliation_reports.insert'' (os_degraded s)\<rparr>
   | Inr _ \<Rightarrow> s\<lparr>reconciliation_rows := reconciliation_rows s @ [r]\<rparr>)"

definition run_write :: "unit res \<Rightarrow> ops_store \<Rightarrow> ops_store" where
  "run_write outcome s = (case os_pending s of
     [] \<Rightarrow> s
   | DrillWrite r # ws \<Rightarrow> insert_drill_result outcome r (s\<lparr>os_pending := ws\<rparr>)
   | ReportWrite r # ws \<Rightarrow> insert_reconciliation_report outcome r (s\<lparr>os_pending := ws\<rparr>))"

datatype ops_call = RecordDrill bool drill_result | RecordReport bool reconciliation_report | RunWriteTask "unit res"

fun ops_step :: "ops_call \<Rightarrow> ops_store \<Rightarrow> ops_store" where
  "ops_step (RecordDrill loop r) s = record_drill_result loop r s"
| "ops_step (RecordReport loop r) s = record_reconciliation_report loop r s"
| "ops_step (RunWriteTask outcome) s = run_write outcome s"

section \<open>Alerts and exposition\<close>

text \<open>The alert is returned whatever becomes of its row; \<open>clock\<close> is read, the timestamp argument is not.\<close>

definition record_alert :: "int \<Rightarrow> string \<Rightarrow> string \<Rightarrow> string \<Rightarrow> string \<Rightarrow> int option \<Rightarrow> bool \<Rightarrow> unit res \<Rightarrow> alert_record list \<Rightarrow> alert_record \<times> alert_record list" where
  "record_alert clock aid name level message given_timestamp has_pool outcome rows =
    (let r = \<lparr>alert_id = aid, alert_name = name, alert_severity = level, alert_message = message, alert_timestamp_us = clock\<rparr>
     in (r, if has_pool \<and> is_ok outcome then rows @ [r] else rows))"

definition collect_system_metrics :: "(string \<times> pyfloat) list" where
  "collect_system_metrics = [(''system_cpu_usage_pct'', fl (5/2)), (''system_memory_usage_mb'', fl (285/2)), (''system_disk_io_kbps'', fl 12)]"

datatype metric_kind = COUNTER | GAUGE

text \<open>The samples in the order of the text.\<close>

definition generate_prometheus_metrics :: "metric_record list \<Rightarrow> int \<Rightarrow> (string \<times> metric_kind \<times> column) list res" where
  "generate_prometheus_metrics history mismatches = rbind (get_cumulative_metrics 20 history) (\<lambda>cum.
    let int_of = (\<lambda>f. IntCol (case cum of None \<Rightarrow> 0 | Some r \<Rightarrow> f r)); float_of = (\<lambda>f. FloatCol (case cum of None \<Rightarrow> 0 | Some r \<Rightarrow> f r))
    in ok [(''super_trademan_signals_total'', COUNTER, int_of signals_generated),
       (''super_trademan_fills_total'', COUNTER, int_of shadow_fills_generated),
       (''super_trademan_latency_p95_ms'', GAUGE, float_of p95_signal_to_fill_latency_ms),
       (''super_trademan_latency_p99_ms'', GAUGE, float_of p99_signal_to_fill_latency_ms),
       (''super_trademan_shadow_pnl_pct'', GAUGE, float_of shadow_pnl_pct),
       (''super_trademan_max_drawdown_pct'', GAUGE, float_of max_shadow_drawdown_pct),
       (''super_trademan_staleness_trips'', COUNTER, int_of staleness_circuit_breaker_trips),
       (''super_trademan_reconciliation_mismatches_total'', COUNTER, IntCol mismatches),
       (''super_trademan_cpu_usage_pct'', GAUGE, FloatCol (fl (5/2))), (''super_trademan_memory_usage_mb'', GAUGE, FloatCol (fl (285/2)))])"

section \<open>The tearsheet\<close>

record tearsheet =
  ts_meta :: "(string \<times> string) list"
  ts_verdicts :: "(wf_verdict \<times> nat) list"
  ts_pass_rate :: "(nat \<times> nat) option"
  ts_folds :: "fold_result list"

definition render_tearsheet :: "fold_result list \<Rightarrow> (string \<times> string) list \<Rightarrow> tearsheet" where
  "render_tearsheet folds meta = \<lparr>ts_meta = meta,
     ts_verdicts = filter (\<lambda>p. snd p \<noteq> 0) (map (\<lambda>v. (v, verdict_count v folds)) [PASS, FAIL, SKIP]),
     ts_pass_rate = pass_rate folds, ts_folds = folds\<rparr>"

section \<open>Estimators\<close>

definition price_log_returns :: "(pyfloat \<Rightarrow> pyfloat res) \<Rightarrow> pyfloat list \<Rightarrow> pyfloat list res" where
  "price_log_returns math_log prices = map_res (\<lambda>(p, q). rbind (fdiv q p) math_log) (zip prices (tl prices))"

definition calibrate_sigma :: "(pyfloat \<Rightarrow> pyfloat res) \<Rightarrow> pyfloat list \<Rightarrow> pyfloat res" where
  "calibrate_sigma math_log prices = (if length prices < 2 then ok (fl (2/100))
     else rbind (price_log_returns math_log prices) (\<lambda>rs. let n = float_of_int (int (length rs)) in
       rbind (fdiv (fsum rs) n) (\<lambda>mean_ret.
       rbind (map_res (\<lambda>r. fsquare (r - mean_ret)) rs) (\<lambda>qs.
       rbind (fdiv (fsum qs) n) (\<lambda>var.
       rbind (fsqrt var) (\<lambda>sigma. ok (pymax (fl (5/1000)) sigma)))))))"

text \<open>\<open>np_mean\<close> and \<open>np_pow\<close> are numpy's mean and power of an array, \<open>powf\<close> is Python's \<open>**\<close> on floats.\<close>

record moments_env =
  np_mean :: "pyfloat list \<Rightarrow> pyfloat"
  np_pow :: "pyfloat \<Rightarrow> nat \<Rightarrow> pyfloat"
  powf :: "pyfloat \<Rightarrow> pyfloat \<Rightarrow> pyfloat res"

definition estimate_moments :: "moments_env \<Rightarrow> pyfloat list \<Rightarrow> (pyfloat \<times> pyfloat \<times> pyfloat) res" where
  "estimate_moments env r = (if length r < 2 then raise (ValueError ''need >= 2 return observations'')
     else if \<not> list_all is_finite r then raise (ValueError ''returns contain NaN/inf entries'')
     else (let mu = np_mean env r; m2 = np_mean env (map (\<lambda>x. np_pow env (x - mu) 2) r) in
       if m2 \<le> 0 then raise (ValueError ''zero-variance return series'')
       else (let m3 = np_mean env (map (\<lambda>x. np_pow env (x - mu) 3) r); m4 = np_mean env (map (\<lambda>x. np_pow env (x - mu) 4) r) in
         rbind (fsqrt m2) (\<lambda>sd. rbind (fdiv mu sd) (\<lambda>sharpe.
         rbind (powf env m2 (fl (3/2))) (\<lambda>p3. rbind (fdiv m3 p3) (\<lambda>g3.
         rbind (powf env m2 (fl 2)) (\<lambda>p4. rbind (fdiv m4 p4) (\<lambda>g4. ok (sharpe, g3, g4))))))))))"

text \<open>What \<open>effective_trials\<close> is called with; the rows of a matrix have one length, \<open>corr\<close> gives its correlations above the diagonal.\<close>

datatype trials_data = TrialCount int | TrialNumber pyfloat | Vector "pyfloat list" | Matrix "pyfloat list list"

definition effective_trials :: "(pyfloat list \<Rightarrow> pyfloat) \<Rightarrow> (pyfloat list list \<Rightarrow> pyfloat list) \<Rightarrow> trials_data \<Rightarrow> pyfloat option \<Rightarrow> pyfloat res" where
  "effective_trials mean corr data avg_corr = (case avg_corr of
     Some rho \<Rightarrow> (case data of
         TrialCount n \<Rightarrow> effective_trials_corr n rho
       | TrialNumber x \<Rightarrow> rbind (int_of_float x) (\<lambda>n. effective_trials_corr n rho)
       | Vector xs \<Rightarrow> effective_trials_corr (int (length xs)) rho
       | Matrix rows \<Rightarrow> effective_trials_corr (case rows of [] \<Rightarrow> 0 | r # _ \<Rightarrow> int (length r)) rho)
   | None \<Rightarrow> (case data of
         Vector xs \<Rightarrow> ok (float_of_int (int (length xs)))
       | Matrix rows \<Rightarrow> (case rows of [] \<Rightarrow> ok 0
           | r # _ \<Rightarrow> if r = [] then ok 0 else effective_trials_matrix mean (int (length r)) (corr rows))
       | _ \<Rightarrow> raise (ValueError ''Expected 1D or 2D array for effective_trials'')))"

section \<open>Rows follow the history\<close>

definition drills_of :: "store_write list \<Rightarrow> drill_result list" where
  "drills_of ws = concat (map (\<lambda>w. case w of DrillWrite r \<Rightarrow> [r] | ReportWrite _ \<Rightarrow> []) ws)"

definition reports_of :: "store_write list \<Rightarrow> reconciliation_report list" where
  "reports_of ws = concat (map (\<lambda>w. case w of ReportWrite r \<Rightarrow> [r] | DrillWrite _ \<Rightarrow> []) ws)"

lemma write_lists [simp]:
  "drills_of [] = []" "reports_of [] = []" "drills_of (ws @ vs) = drills_of ws @ drills_of vs" "reports_of (ws @ vs) = reports_of ws @ reports_of vs"
  "drills_of (DrillWrite r # ws) = r # drills_of ws" "drills_of (ReportWrite q # ws) = drills_of ws"
  "reports_of (DrillWrite r # ws) = reports_of ws" "reports_of (ReportWrite q # ws) = q # reports_of ws"
  by (simp_all add: drills_of_def reports_of_def)

text \<open>What is written or still to write is a part of the history, in its order: a row is never invented, doubled or swapped.\<close>

definition rows_follow :: "ops_store \<Rightarrow> bool" where
  "rows_follow s \<longleftrightarrow> subseq (drill_rows s @ drills_of (os_pending s)) (drill_history s) \<and>
     subseq (reconciliation_rows s @ reports_of (os_pending s)) (reconciliation_history s)"

lemma subseq_drop_middle: "subseq (xs @ y # ys) zs \<Longrightarrow> subseq (xs @ ys) zs"
  by (meson list_emb_append_mono subseq_Cons' subseq_order.order_trans subseq_order.order_refl)

lemma subseq_grows: "subseq xs ys \<Longrightarrow> subseq xs (ys @ [y])" "subseq xs ys \<Longrightarrow> subseq (xs @ [y]) (ys @ [y])"
  using list_emb_append_mono [of "(=)" xs ys "[]" "[y]"] list_emb_append_mono [of "(=)" xs ys "[y]" "[y]"] by simp_all

lemma ops_step_follows: "rows_follow s \<Longrightarrow> rows_follow (ops_step c s)"
proof (cases c)
  case (RunWriteTask outcome)
  assume "rows_follow s"
  then show ?thesis using RunWriteTask
    by (cases "os_pending s"; cases "hd (os_pending s)"; cases outcome)
      (auto simp: rows_follow_def run_write_def insert_drill_result_def insert_reconciliation_report_def dest: subseq_drop_middle)
qed (auto simp: rows_follow_def record_drill_result_def record_reconciliation_report_def schedule_write_def subseq_grows append_assoc [symmetric]
    simp del: append_assoc)

lemma ops_rows_follow: "rows_follow (fold ops_step cs (new_ops_store pool))"
proof (induction cs rule: rev_induct)
  case Nil
  show ?case by (simp add: rows_follow_def new_ops_store_def)
qed (simp add: ops_step_follows)

section \<open>Reports and estimates\<close>

lemma tearsheet_counts: "sum_list (map snd (ts_verdicts (render_tearsheet folds meta))) = length folds"
proof -
  have "sum_list (map snd (filter (\<lambda>p. snd p \<noteq> 0) ps)) = sum_list (map snd ps)" for ps :: "(wf_verdict \<times> nat) list"
    by (induction ps) auto
  moreover have "verdict_count PASS folds + verdict_count FAIL folds + verdict_count SKIP folds = length folds"
  proof (induction folds)
    case (Cons f fs)
    then show ?case by (cases "fr_verdict f") (simp_all add: verdict_count_def)
  qed (simp add: verdict_count_def)
  ultimately show ?thesis by (auto simp: render_tearsheet_def)
qed

lemma sigma_floor: "calibrate_sigma math_log prices = ok s \<Longrightarrow> fl (5/1000) \<le> s"
proof -
  have c: "fl (5/1000) \<le> fl (2/100)" by (rule fl_mono) simp
  have m: "fl (5/1000) \<le> pymax (fl (5/1000)) x" for x by (auto simp: pymax_def less_le_pyfloat le_refl_pyfloat)
  show "calibrate_sigma math_log prices = ok s \<Longrightarrow> fl (5/1000) \<le> s"
    using c m by (auto simp: calibrate_sigma_def Let_def rbind_eq_Inr split: if_splits)
qed

lemma settings_are_safe: "new_settings g = ok s \<Longrightarrow> \<not> is_legacy_placeholder_credential (se_postgres_url s) \<and>
    (gs_dry_run g = None \<longrightarrow> se_dry_run s) \<and> (gs_mode g = None \<longrightarrow> se_mode s = BACKTEST)"
  by (auto simp: new_settings_def given_or_def split: option.splits if_splits)

lemma zero_variance_raises: "np_mean env (map (\<lambda>x. np_pow env (x - np_mean env r) 2) r) = 0 \<Longrightarrow> \<exists>e. estimate_moments env r = raise e"
  by (simp add: estimate_moments_def zero_Fin)

end
