(* ===== verification/Spec2Isabelle.thy ===== *)
theory Spec2Isabelle
  imports Prelude PyFloat OrderStateMachine RiskModels CircuitBreaker Staleness Money RiskEngine CapitalAllocator Shadow Venue Outbox Oms Chase Recovery TierState Survival FloatExact Lob SynVenue OmsActor HaLock Alerts AuditLedger Regime Defense LiveAdapter Bandit LearnGraph Heartbeat Strategies Backtest Report Portfolio Stocks Forex Polymarket Health Api Campaign WalkForward Hmm Tails Feed Ingest Pbo Services Agents RiskStats Ecology Drills Gates Records
begin

text \<open>
  A shallow embedding of the trading system under \<open>src/src/trading\<close>: the path of an order from a
  strategy signal through the risk engine, the capital allocator and the order management system to
  a venue, the components that stop it (circuit breaker, staleness sentinel, survival automaton,
  reconciler), the process that drives them, the backtesters that replay them over recorded candles,
  what is learnt from their trades, and the control surface (health, sessions, metrics, gates).

  How the program's parts interact.  A strategy produces a \<open>Signal\<close>; \<open>RiskEngine.evaluate\<close> turns it
  into an \<open>ApprovedOrder\<close> that carries an unforgeable issuer, or a rejection.
  \<open>CapitalAllocator.allocate_capital\<close> picks among approved orders.
  \<open>OrderManagementSystem.submit_order\<close> writes the intent to the outbox, moves the order along the
  state machine of \<open>execution/state_machine.py\<close> and calls the venue adapter; the chaser cancels
  orders that rest too long, under a rate limit; the reconciler and the recovery engine compare
  local and venue positions.  \<open>PortfolioCircuitBreaker\<close>, \<open>StalenessSentinel\<close> and \<open>SurvivalEngine\<close>
  decide independently whether new entries are allowed.

  Theories, in the order of the imports:

  \<^item> \<open>Prelude\<close>: exceptions as values (\<open>pyerr\<close>), results, state-passing computations that keep the
    state of the moment of a raise (\<open>act\<close>), dictionaries with insertion order.
  \<^item> \<open>PyFloat\<close>: Python's \<open>float\<close>.  A double is a rational on the binary64 grid, an infinity or NaN;
    \<open>rnd64\<close> rounds to nearest even with subnormals, \<open>fl\<close> overflows to infinity.  The order lemmas and
    the locale \<open>rounding\<close> (interpreted as \<open>b64\<close>) carry the arithmetic of all components.
  \<^item> \<open>OrderStateMachine\<close> (\<open>execution/state_machine.py\<close>), \<open>RiskModels\<close> (\<open>risk/models.py\<close>,
    \<open>risk/equity.py\<close>, the mode gate of \<open>config.py\<close>), \<open>CircuitBreaker\<close>
    (\<open>risk/portfolio_circuit_breaker.py\<close>), \<open>Staleness\<close> (\<open>data/staleness.py\<close>), \<open>Money\<close>
    (\<open>core/money.py\<close> with the 28-digit decimal context), \<open>RiskEngine\<close> (\<open>risk/engine.py\<close>),
    \<open>CapitalAllocator\<close> (\<open>risk/capital_allocator.py\<close>), \<open>Shadow\<close> (\<open>execution/shadow.py\<close>,
    \<open>execution/tca.py\<close>).
  \<^item> \<open>Venue\<close> (\<open>execution/venue_adapter.py\<close>): the locale \<open>venue\<close> is what clients rely on, \<open>mock\<close> its
    interpretation on \<open>MockVenueAdapter\<close>.  \<open>Outbox\<close> (\<open>execution/outbox.py\<close>), \<open>Oms\<close>
    (\<open>execution/oms.py\<close>), \<open>Chase\<close> (\<open>execution/chase.py\<close>), \<open>Recovery\<close> (\<open>execution/reconciler.py\<close>,
    \<open>infrastructure/state_recovery.py\<close>).
  \<^item> \<open>TierState\<close> (\<open>risk/tier_state.py\<close>) and \<open>Survival\<close> (\<open>risk/survival.py\<close>).
  \<^item> \<open>FloatExact\<close>: exactness of the subtractions a fill makes (Sterbenz).  \<open>Lob\<close> (\<open>synthetic/lob.py\<close>):
    the simulated order book; \<open>SynVenue\<close> (\<open>synthetic/venue.py\<close>, \<open>synthetic/chaos_injector.py\<close>): the venue
    over it; \<open>OmsActor\<close> (\<open>synthetic/oms_engine.py\<close>, \<open>synthetic/portfolio_governor.py\<close>): the actor with its
    event queue (locale \<open>min_queue\<close>, interpreted on the sorted list as \<open>evq\<close>) and the governor over actors.
  \<^item> \<open>HaLock\<close> (\<open>infrastructure/ha_lock.py\<close>): the active-passive lock; the locale \<open>lock_backend\<close> is interpreted
    on both backends, \<open>redis_commands\<close> is what the Redis commands promise, and several nodes over one server
    are a step relation.
  \<^item> \<open>Alerts\<close> (\<open>ops/alert_manager.py\<close>): cooldown windows, escalation and delivery; the locale
    \<open>snapshot_store\<close> is what restarts rely on, interpreted on the state file.
  \<^item> \<open>AuditLedger\<close> (\<open>security/audit_ledger.py\<close>): the hash-chained log over an abstract digest.
  \<^item> \<open>Regime\<close> (\<open>synthetic/regime_validator.py\<close>): volatility baseline, stress score, regimes;
    \<open>Defense\<close> (\<open>synthetic/strategy_defense.py\<close>, \<open>synthetic/stale_protection.py\<close>): the posture machine with its
    explicit graph, and the sniper's ammunition.
  \<^item> \<open>LiveAdapter\<close> (\<open>execution/live_adapter.py\<close>): the adapter over an arbitrary ccxt client, with retries and
    the classification of exchange errors.
  \<^item> \<open>Bandit\<close> (\<open>learning/policy.py\<close>): the softmax allocator that routes to a strategy; \<open>LearnGraph\<close>
    (\<open>learning/graph.py\<close>): the graph of decisions and results with its append-only store, compaction and
    quarantine; \<open>Heartbeat\<close> (\<open>daemon/heartbeat.py\<close>): the cycle that calls models, survival automaton,
    allocator and risk engine, and its loop.
  \<^item> \<open>Strategies\<close> (\<open>indicators.py\<close>, \<open>strategy/trend.py\<close>, \<open>strategy/crypto.py\<close>, \<open>backtest/strategies.py\<close>);
    \<open>Backtest\<close> (the replay of \<open>backtest/engine.py\<close>), \<open>Report\<close> (its report), \<open>Portfolio\<close>
    (\<open>backtest/portfolio.py\<close>: several assets over one account).
  \<^item> \<open>Stocks\<close>, \<open>Forex\<close>, \<open>Polymarket\<close> (\<open>synthetic/stocks_engine.py\<close>, \<open>forex_engine.py\<close>,
    \<open>polymarket_engine.py\<close>): the engines of the simulated markets.
  \<^item> \<open>Health\<close> (\<open>ops/health_service.py\<close>) and \<open>Api\<close> (\<open>api/\<close>, \<open>walkforward/scheduler.py\<close>): component checks,
    sessions, roles, login limit and the routes over their state; \<open>Campaign\<close> (\<open>ops/deployment_metrics.py\<close>,
    \<open>ops/shadow_campaign.py\<close>, \<open>observability/shadow_metrics.py\<close>): daily metrics and the shadow gate.
  \<^item> \<open>WalkForward\<close> (\<open>stats/\<close>, \<open>walkforward/\<close>): purged splits, Sharpe variants, folds and their verdicts;
    \<open>Pbo\<close> (\<open>stats/pbo.py\<close>): the overfitting estimate by symmetric cross-validation.
  \<^item> \<open>Hmm\<close> (\<open>risk/hmm_regime.py\<close>): the regime classifier with its causal filter and its cache; \<open>Tails\<close> (\<open>risk/garch.py\<close>,
    \<open>risk/evt.py\<close>, \<open>risk/copula.py\<close>): volatility, tail and pair models, and all of them as the models of the heartbeat.
  \<^item> \<open>Feed\<close> (\<open>data/websocket_feed.py\<close>, \<open>data/quality.py\<close>): the buffer, the two receive loops, frame checks; \<open>Ingest\<close>
    (\<open>data/pipeline.py\<close>, \<open>data/crypto.py\<close>): pages into the candle table, ranges and funding rates.
  \<^item> \<open>Services\<close> (\<open>src/scripts/promote_mode.py\<close>, \<open>security/secrets_manager.py\<close>, \<open>observability/metrics_auth.py\<close>,
    \<open>infrastructure/shutdown.py\<close>, \<open>journal.py\<close>): promotion guard, secrets, metrics access, shutdown, journal.
  \<^item> \<open>Agents\<close> (\<open>synthetic/agents/\<close>): the personas that trade against the simulated book, and their orchestrator with its quarantine;
    \<open>Ecology\<close> (\<open>synthetic/ecology.py\<close>, \<open>synthetic/event_ingestor.py\<close>): agents that react to depth, and the broadcast of news.
  \<^item> \<open>RiskStats\<close> (\<open>risk/metrics.py\<close>, \<open>risk/correlation.py\<close>, \<open>risk/portfolio_risk.py\<close>): R multiples, correlations, portfolio risk.
  \<^item> \<open>Drills\<close> (\<open>ops/drills.py\<close>): the safety drills as runs of the components above; \<open>Gates\<close> (\<open>src/scripts/preflight_check.py\<close>,
    \<open>shadow_report.py\<close>, \<open>generate_gate1_report.py\<close>, \<open>reconcile_report.py\<close>, \<open>kill_switch_drill.py\<close>): the verdicts a promotion asks for; \<open>Records\<close>: the rows and samples the
    operations side writes, settings, tearsheet, and the estimators the other theories left over.

  Each definition is named after the function or method it translates, its guards and branches in
  the order of the code.  State of a class is a record with the fields its \<open>__init__\<close> assigns;
  a method is a function from the record to an outcome and the record after it, also when it
  raises.  Timestamps are integer microseconds; the clock, identifiers, the iteration order of a
  set and the answers of third-party libraries are parameters; log messages are left out, and a
  formatted reason is a constructor of a datatype with the values it shows.

  Lemmas: every component has its operations' behaviour on each branch, invariants preserved by
  each operation, and where an interface is shared a locale with its interpretation.  Properties
  are marked C1, C2 and so on before their theorem; a property with hypotheses is followed
  by a closed witness.  There is no fuel anywhere.  The matching loop of the book, the writer lock's retry
  loop, the daemon loop, the generation of folds and the paging of an ingestion are each a \<open>partial_function (option)\<close> with a theorem that
  says when it returns; the loops that apply buffered messages and drain the event queue are functions with
  a measure; every other loop is structural.

  Not modelled: the exchange client itself, websocket and HTTP servers, the connection pool and databases other than the
  tables the statements of the code write (third-party I/O); what numpy, scipy and pandas compute (the fits of GARCH, HMM, EVT
  and copula models, weighted covariances, ranks), which enter as parameters or inputs; how pydantic reads and converts
  the settings; logging with its redaction by regular expressions, tracing and exposition
  text; the schema migrations; the scripts that benchmark or plot a backtest, which only call the modelled functions and
  format their results; the text of reports; interleavings of coroutines at their awaits.
\<close>

end
